(* ===== verification/Prelude.thy ===== *)
theory Prelude
  imports Main "HOL-Library.Word" "HOL-Library.AList"
begin

text \<open>
  Shared vocabulary of the development: the exceptions of \<^verbatim>\<open>speakeasy/errors.py\<close> and the
  Python built-in exceptions the modelled code raises or catches, the result type
  \<open>error + 'a\<close> with its bind, and the Python list and string operations that several
  components use (\<open>range\<close>, \<open>in\<close> on strings, \<open>lower\<close>, hexadecimal formatting,
  removal of the first match).
\<close>

unbundle bit_operations_syntax

subsection \<open>Exceptions and results\<close>

text \<open>
  One constructor per exception class the modelled code can raise. \<open>UcError\<close> is the exception of the
  CPU engine binding, \<open>StructError\<close> that of Python's \<open>struct\<close> module;
  \<open>Diverges\<close> stands for a loop that does not end.
\<close>

datatype error =
    OutOfMemoryError
  | CpuError
  | EngineError
  | ApiEmuError
  | NetworkEmuError
  | RegistryEmuError
  | FileSystemEmuError
  | UcError
  | UnwindError
  | UnhandledException int int
  | ValueError
  | KeyError
  | IndexError
  | OverflowError
  | StructError
  | AttributeError
  | TypeError
  | OSError
  | AssertionError
  | WindowsEmuError
  | NameError
  | EmuStructException
  | Diverges

type_synonym 'a result = "error + 'a"

primrec rbind :: "'a result \<Rightarrow> ('a \<Rightarrow> 'b result) \<Rightarrow> 'b result" where
  "rbind (Inl e) f = Inl e"
| "rbind (Inr x) f = f x"

named_theorems result_simps \<open>inversion of computations that may raise\<close>

lemma rbind_Inr_iff [result_simps]:
  "rbind m f = Inr y \<longleftrightarrow> (\<exists>x. m = Inr x \<and> f x = Inr y)"
  by (cases m) auto

lemma rbind_Inl_iff [result_simps]:
  "rbind m f = Inl e \<longleftrightarrow> m = Inl e \<or> (\<exists>x. m = Inr x \<and> f x = Inl e)"
  by (cases m) auto

lemma rbind_Inr_right [simp]: "rbind m Inr = m"
  by (cases m) auto

lemma rbind_assoc: "rbind (rbind m f) g = rbind m (\<lambda>x. rbind (f x) g)"
  by (cases m) auto

lemma rbind_cong [fundef_cong]:
  "m = m' \<Longrightarrow> (\<And>x. m' = Inr x \<Longrightarrow> f x = g x) \<Longrightarrow> rbind m f = rbind m' g"
  by (cases m') auto

text \<open>\<open>isinstance\<close>-style tests on results.\<close>

definition is_ok :: "'a result \<Rightarrow> bool" where
  "is_ok r = (case r of Inl _ \<Rightarrow> False | Inr _ \<Rightarrow> True)"

lemma is_ok_simps [simp]: "is_ok (Inr x)" "\<not> is_ok (Inl e)"
  by (simp_all add: is_ok_def)

lemma is_ok_iff: "is_ok r \<longleftrightarrow> (\<exists>x. r = Inr x)"
  by (cases r) auto

subsection \<open>Python lists\<close>

text \<open>\<open>range(lo, hi, step)\<close> for a positive step.\<close>

function py_range :: "int \<Rightarrow> int \<Rightarrow> int \<Rightarrow> int list" where
  "py_range lo hi step = (if 0 < step \<and> lo < hi then lo # py_range (lo + step) hi step else [])"
  by pat_completeness auto
termination
  by (relation "measure (\<lambda>(lo, hi, step). nat (hi - lo))") auto

declare py_range.simps [simp del]

lemma py_range_empty [simp]: "hi \<le> lo \<Longrightarrow> py_range lo hi step = []"
  by (subst py_range.simps) simp

lemma py_range_Cons: "0 < step \<Longrightarrow> lo < hi \<Longrightarrow> py_range lo hi step = lo # py_range (lo + step) hi step"
  by (subst py_range.simps) simp

lemma set_py_range:
  assumes "0 < step"
  shows "x \<in> set (py_range lo hi step) \<longleftrightarrow> lo \<le> x \<and> x < hi \<and> (x - lo) mod step = 0"
  using assms
proof (induction lo hi step rule: py_range.induct)
  case (1 lo hi step)
  show ?case
  proof (cases "lo < hi")
    case False
    then show ?thesis using "1.prems" by simp
  next
    case True
    have IH: "x \<in> set (py_range (lo + step) hi step) \<longleftrightarrow>
        lo + step \<le> x \<and> x < hi \<and> (x - (lo + step)) mod step = 0"
      using "1.IH" "1.prems" True by simp
    have m: "(x - (lo + step)) mod step = (x - lo) mod step"
      by (metis diff_diff_eq minus_mod_self2)
    have small: "x = lo" if "lo \<le> x" "x < lo + step" "(x - lo) mod step = 0"
    proof -
      have "(x - lo) mod step = x - lo"
        using that by (intro mod_pos_pos_trivial) auto
      with that(3) show ?thesis by simp
    qed
    have big: "lo + step \<le> x" if "lo \<le> x" "x \<noteq> lo" "(x - lo) mod step = 0"
      using small that by force
    have "x \<in> set (py_range lo hi step) \<longleftrightarrow> x = lo \<or> x \<in> set (py_range (lo + step) hi step)"
      using "1.prems" True by (simp add: py_range_Cons)
    also have "\<dots> \<longleftrightarrow> lo \<le> x \<and> x < hi \<and> (x - lo) mod step = 0"
      using IH m big True "1.prems" by (metis add_increasing2 diff_self le_less linorder_not_le mod_0 order_trans)
    finally show ?thesis .
  qed
qed

text \<open>\<open>xs.remove(x)\<close> with an equality test \<open>P\<close>: drop the first element that satisfies it.\<close>

fun remove_first :: "('a \<Rightarrow> bool) \<Rightarrow> 'a list \<Rightarrow> 'a list" where
  "remove_first P [] = []"
| "remove_first P (x # xs) = (if P x then xs else x # remove_first P xs)"

lemma set_remove_first_subset: "set (remove_first P xs) \<subseteq> set xs"
  by (induction xs) auto

lemma remove_first_none: "\<forall>x\<in>set xs. \<not> P x \<Longrightarrow> remove_first P xs = xs"
  by (induction xs) auto

lemma find_None_iff_all: "find P xs = None \<longleftrightarrow> (\<forall>x\<in>set xs. \<not> P x)"
  by (induction xs) auto

lemma find_SomeD: "find P xs = Some x \<Longrightarrow> P x \<and> x \<in> set xs"
  by (induction xs) (auto split: if_splits)

lemma find_eq_SomeI:
  "x \<in> set xs \<Longrightarrow> P x \<Longrightarrow> (\<And>y. y \<in> set xs \<Longrightarrow> P y \<Longrightarrow> y = x) \<Longrightarrow> find P xs = Some x"
  by (metis find_None_iff_all find_SomeD not_None_eq)

lemma nth_update: "j < length xs \<Longrightarrow> xs[i := x] ! j = (if i = j then x else xs ! j)"
  by (simp add: nth_list_update)

text \<open>A Python dict in insertion order is an association list: \<open>AList.update\<close> and \<open>AList.delete\<close>.\<close>

lemma update_new: "k \<notin> fst ` set al \<Longrightarrow> AList.update k v al = al @ [(k, v)]"
  by (induction al) auto

subsection \<open>Python strings\<close>

text \<open>
  A Python string is modelled as a list of HOL characters (code points below 256). \<open>lower\<close> folds the
  ASCII letters; characters above 127 are left as they are.
\<close>

definition lower_char :: "char \<Rightarrow> char" where
  "lower_char c = (if 65 \<le> (of_char c :: nat) \<and> (of_char c :: nat) \<le> 90
     then char_of ((of_char c :: nat) + 32) else c)"

definition lower :: "string \<Rightarrow> string" where
  "lower s = map lower_char s"

lemma of_char_lt: "(of_char c :: nat) < 256"
  by (metis of_char_mod_256 mod_less_divisor zero_less_numeral)

lemma lower_char_idem [simp]: "lower_char (lower_char c) = lower_char c"
proof (cases "65 \<le> (of_char c :: nat) \<and> (of_char c :: nat) \<le> 90")
  case True
  then have "(of_char (char_of ((of_char c :: nat) + 32)) :: nat) = of_char c + 32"
    by (simp add: of_char_of)
  with True show ?thesis by (simp add: lower_char_def)
qed (auto simp: lower_char_def)

lemma lower_char_other:
  assumes "lower_char c = d" "\<not> (97 \<le> (of_char d :: nat) \<and> (of_char d :: nat) \<le> 122)"
  shows "c = d"
proof (rule ccontr)
  assume "c \<noteq> d"
  then have r: "65 \<le> (of_char c :: nat)" "(of_char c :: nat) \<le> 90" "d = char_of ((of_char c :: nat) + 32)"
    using assms(1) by (auto simp: lower_char_def split: if_splits)
  then have "(of_char d :: nat) = of_char c + 32" by (simp add: of_char_of)
  then show False using assms(2) r(1,2) by simp
qed

lemma lower_idem [simp]: "lower (lower s) = lower s"
  by (simp add: lower_def)

lemma length_lower [simp]: "length (lower s) = length s"
  by (simp add: lower_def)

lemma lower_append [simp]: "lower (s @ t) = lower s @ lower t"
  by (simp add: lower_def)

lemma lower_Nil [simp]: "lower [] = []"
  by (simp add: lower_def)

definition starts_with :: "string \<Rightarrow> string \<Rightarrow> bool" where
  "starts_with s p \<longleftrightarrow> take (length p) s = p"

fun contains :: "string \<Rightarrow> string \<Rightarrow> bool" where
  "contains p [] = (p = [])"
| "contains p (c # s) = (starts_with (c # s) p \<or> contains p s)"

lemma starts_with_append [simp]: "starts_with (p @ s) p"
  by (simp add: starts_with_def)

lemma starts_with_iff: "starts_with s p \<longleftrightarrow> (\<exists>t. s = p @ t)"
  by (metis append_eq_conv_conj append_take_drop_id starts_with_def)

lemma contains_append: "contains p (s @ p @ t)"
proof (induction s)
  case Nil
  show ?case
  proof (cases "p @ t")
    case (Cons a l)
    have "starts_with (p @ t) p" by simp
    with Cons show ?thesis by simp
  qed simp
qed auto

text \<open>\<open>s.rstrip(chars)\<close> for one character.\<close>

definition rstrip :: "char \<Rightarrow> string \<Rightarrow> string" where
  "rstrip c s = rev (dropWhile (\<lambda>x. x = c) (rev s))"

lemma rstrip_idem [simp]: "rstrip c (rstrip c s) = rstrip c s"
  by (simp add: rstrip_def dropWhile_idem)

lemma rstrip_last: "rstrip c s \<noteq> [] \<Longrightarrow> last (rstrip c s) \<noteq> c"
  unfolding rstrip_def
  using hd_dropWhile [of "\<lambda>x. x = c" "rev s"] by (simp add: last_rev)

text \<open>The digits of \<open>f"{n:x}"\<close> for a non-negative integer.\<close>

definition hex_digit :: "nat \<Rightarrow> char" where
  "hex_digit d = (if d < 10 then char_of (48 + d) else char_of (87 + d))"

fun hex_nat :: "nat \<Rightarrow> string" where
  "hex_nat n = (if n < 16 then [hex_digit n] else hex_nat (n div 16) @ [hex_digit (n mod 16)])"

declare hex_nat.simps [simp del]

definition hex_of :: "int \<Rightarrow> string" where
  "hex_of i = (if i < 0 then CHR ''-'' # hex_nat (nat (- i)) else hex_nat (nat i))"


text \<open>The digits of \<open>str(n)\<close>.\<close>

fun dec_nat :: "nat \<Rightarrow> string" where
  "dec_nat n = (if n < 10 then [hex_digit n] else dec_nat (n div 10) @ [hex_digit (n mod 10)])"

declare dec_nat.simps [simp del]

definition dec_of :: "int \<Rightarrow> string" where
  "dec_of i = (if i < 0 then CHR ''-'' # dec_nat (nat (- i)) else dec_nat (nat i))"

definition backslash :: char where "backslash = char_of (92 :: nat)"

text \<open>\<open>s.find(sub)\<close> for one character: the index of the first occurrence.\<close>

fun find_char :: "char \<Rightarrow> string \<Rightarrow> nat option" where
  "find_char c [] = None"
| "find_char c (x # s) = (if x = c then Some 0 else map_option Suc (find_char c s))"

end
