(* ===== verification/Bytes.thy ===== *)
theory Bytes
  imports Prelude
begin

text \<open>
  Bytes and little-endian integers: \<open>int.to_bytes(n, "little")\<close>, \<open>int.from_bytes(b, "little")\<close> and the
  unsigned \<open>struct\<close> formats, and the narrowing casts of \<open>ctypes\<close>. Python integers are \<open>int\<close>; guest
  memory and registers are byte lists and integers with the width written out.
\<close>

type_synonym byte = "8 word"

subsection \<open>Little-endian encoding\<close>

primrec le_bytes :: "nat \<Rightarrow> int \<Rightarrow> byte list" where
  "le_bytes 0 v = []"
| "le_bytes (Suc n) v = word_of_int v # le_bytes n (v div 256)"

primrec le_val :: "byte list \<Rightarrow> int" where
  "le_val [] = 0"
| "le_val (b # bs) = uint b + 256 * le_val bs"

definition to_bytes :: "nat \<Rightarrow> int \<Rightarrow> byte list result" where
  "to_bytes n v = (if 0 \<le> v \<and> v < 256 ^ n then Inr (le_bytes n v) else Inl OverflowError)"

lemma length_le_bytes [simp]: "length (le_bytes n v) = n"
  by (induction n arbitrary: v) auto

lemma uint_byte_bounds: "0 \<le> uint (b :: byte)" "uint (b :: byte) < 256"
  using uint_lt2p [of b] by auto

lemma uint_byte_of_int: "uint (word_of_int v :: byte) = v mod 256"
  by (simp add: uint_word_of_int)

lemma le_val_bounds: "0 \<le> le_val bs \<and> le_val bs < 256 ^ length bs"
proof (induction bs)
  case Nil
  then show ?case by simp
next
  case (Cons b bs)
  have "uint b < 256" "0 \<le> uint b" by (simp_all add: uint_byte_bounds)
  with Cons show ?case by auto
qed

lemma le_val_nonneg [simp]: "0 \<le> le_val bs"
  using le_val_bounds by auto

lemma le_val_less: "le_val bs < 256 ^ length bs"
  using le_val_bounds by auto

lemma le_val_le_bytes: "le_val (le_bytes n v) = v mod 256 ^ n"
proof (induction n arbitrary: v)
  case 0
  then show ?case by simp
next
  case (Suc n)
  have "v mod (256 * 256 ^ n) = 256 * (v div 256 mod 256 ^ n) + v mod 256"
    by (rule zmod_zmult2_eq) simp
  then show ?case by (simp add: Suc uint_byte_of_int)
qed

lemma le_val_le_bytes_id: "0 \<le> v \<Longrightarrow> v < 256 ^ n \<Longrightarrow> le_val (le_bytes n v) = v"
  by (simp add: le_val_le_bytes)

lemma le_bytes_le_val: "le_bytes (length bs) (le_val bs) = bs"
proof (induction bs)
  case Nil
  then show ?case by simp
next
  case (Cons b bs)
  have w: "word_of_int (uint b + 256 * le_val bs) = b"
  proof -
    have "uint (word_of_int (uint b + 256 * le_val bs) :: byte) = uint b"
      using uint_byte_bounds [of b] by (simp only: uint_byte_of_int) simp
    then show ?thesis by (simp add: word_uint_eq_iff)
  qed
  have "(uint b + 256 * le_val bs) div 256 = le_val bs"
    using uint_byte_bounds [of b] by (simp add: div_pos_pos_trivial)
  with w Cons show ?case by simp
qed

lemma le_bytes_mod: "le_bytes n (v mod 256 ^ n) = le_bytes n v"
  by (metis le_bytes_le_val le_val_le_bytes length_le_bytes)

lemma le_val_append: "le_val (xs @ ys) = le_val xs + 256 ^ length xs * le_val ys"
  by (induction xs) (auto simp: algebra_simps)

lemma le_val_replicate_0 [simp]: "le_val (replicate n 0) = 0"
  by (induction n) auto

lemma to_bytes_ok: "0 \<le> v \<Longrightarrow> v < 256 ^ n \<Longrightarrow> to_bytes n v = Inr (le_bytes n v)"
  by (simp add: to_bytes_def)

lemma to_bytes_Inr_iff [result_simps]:
  "to_bytes n v = Inr bs \<longleftrightarrow> 0 \<le> v \<and> v < 256 ^ n \<and> bs = le_bytes n v"
  by (auto simp: to_bytes_def)

subsection \<open>Widths\<close>

text \<open>\<open>value & ((1 << bits) - 1)\<close> and the two's complement reading of the low \<open>bits\<close> bits.\<close>

definition unsigned_of :: "nat \<Rightarrow> int \<Rightarrow> int" where
  "unsigned_of bits v = v mod 2 ^ bits"

definition signed_of :: "nat \<Rightarrow> int \<Rightarrow> int" where
  "signed_of bits v =
     (let u = v mod 2 ^ bits in if 2 ^ (bits - 1) \<le> u then u - 2 ^ bits else u)"

lemma unsigned_of_bounds: "0 \<le> unsigned_of bits v" "unsigned_of bits v < 2 ^ bits"
  by (simp_all add: unsigned_of_def)

lemma signed_of_bounds:
  assumes "0 < bits"
  shows "- (2 ^ (bits - 1)) \<le> signed_of bits v" "signed_of bits v < 2 ^ (bits - 1)"
proof -
  have p: "(2::int) ^ bits = 2 * 2 ^ (bits - 1)"
    using assms by (metis Suc_diff_1 power_Suc)
  have b: "0 \<le> v mod 2 ^ bits" "v mod 2 ^ bits < (2::int) ^ bits" by simp_all
  have q: "(0::int) < 2 ^ (bits - 1)" by simp
  show "- (2 ^ (bits - 1)) \<le> signed_of bits v" "signed_of bits v < 2 ^ (bits - 1)"
    unfolding signed_of_def Let_def using p b q by (simp_all only: split: if_splits) linarith+
qed

lemma signed_of_mod: "signed_of bits v mod 2 ^ bits = v mod 2 ^ bits"
  by (simp add: signed_of_def Let_def)

lemma and_mask_eq_unsigned: "v AND (2 ^ n - 1) = unsigned_of n v"
  by (metis mask_eq_exp_minus_1 take_bit_eq_mask take_bit_eq_mod unsigned_of_def)

end
