(* ===== verification/Memory_Manager.thy ===== *)
theory Memory_Manager
  imports Bytes
begin

text \<open>
  The memory manager of \<^verbatim>\<open>speakeasy/memmgr.py\<close>: the \<open>MemMap\<close> bookkeeping, the first-fit
  search \<open>get_valid_ranges\<close>, the shared page block of small allocations, \<open>mem_map\<close>, \<open>mem_free\<close>, the
  reservations and the lookups. The CPU engine (Unicorn) is not under \<^verbatim>\<open>src/\<close>: its map, unmap and
  region-list calls are the fields of \<^verbatim>\<open>mem_engine\<close>, an argument of the definitions, and the locale
  \<^verbatim>\<open>mem_engine_laws\<close> states what the manager relies on. Map hooks call user code; the model records each
  call (hook number and map) in \<^verbatim>\<open>ms_fired\<close>.
\<close>

subsection \<open>State\<close>

record memmap =
  mm_base :: int
  mm_size :: int
  mm_tag :: "string option"
  mm_prot :: "int option"
  mm_flags :: int
  mm_shared :: bool
  mm_free :: bool
  mm_process :: "nat option"
  mm_block_base :: int
  mm_block_size :: int

record map_hook =
  mh_id :: nat
  mh_enabled :: bool
  mh_begin :: int
  mh_end :: int

record 'e mem_engine =
  eng_map :: "int \<Rightarrow> int \<Rightarrow> int \<Rightarrow> 'e \<Rightarrow> 'e result"
  eng_unmap :: "int \<Rightarrow> int \<Rightarrow> 'e \<Rightarrow> 'e result"
  eng_regions :: "'e \<Rightarrow> (int \<times> int \<times> int) list"

record 'e mem_state =
  ms_maps :: "memmap list"
  ms_reserves :: "memmap list"
  ms_block_base :: int
  ms_block_size :: int
  ms_block_offset :: int
  ms_alloc_base :: int
  ms_eng :: 'e
  ms_hooks :: "map_hook list"
  ms_fired :: "(nat \<times> memmap) list"
  ms_keep_on_free :: bool
  ms_limit :: "int option"
  ms_process :: "nat option"

definition page_size :: int where "page_size = 0x1000"

definition ALLOCATION_GRANULARITY :: int where "ALLOCATION_GRANULARITY = 0x10000"

definition PERM_MEM_RWX :: int where "PERM_MEM_RWX = 0x16"

text \<open>\<open>MemoryManager.__init__\<close>, with the engine, the config flag and the address limit of the subclass.\<close>

definition init_mem :: "'e \<Rightarrow> bool \<Rightarrow> int option \<Rightarrow> 'e mem_state" where
  "init_mem e keep limit =
     \<lparr>ms_maps = [], ms_reserves = [], ms_block_base = 0, ms_block_size = 0, ms_block_offset = 0,
      ms_alloc_base = ALLOCATION_GRANULARITY, ms_eng = e, ms_hooks = [], ms_fired = [],
      ms_keep_on_free = keep, ms_limit = limit, ms_process = None\<rparr>"

subsection \<open>MemMap\<close>

text \<open>The characters the tag must not contain, in the source \<open>"\\?[]:]"\<close>.\<close>

definition bad_tag_chars :: "char list" where
  "bad_tag_chars = [char_of (92::nat), CHR ''?'', CHR ''['', CHR '']'', CHR '':'']"

definition clean_tag :: "int \<Rightarrow> string option \<Rightarrow> string option" where
  "clean_tag base tag =
     (case tag of
        None \<Rightarrow> None
      | Some [] \<Rightarrow> Some []
      | Some t \<Rightarrow>
          (let suffix = ''.0x'' @ hex_of base;
               t' = (if contains suffix t then t else t @ suffix)
           in Some (map (\<lambda>c. if c \<in> set bad_tag_chars then CHR ''_'' else c) t')))"

definition new_memmap ::
  "int \<Rightarrow> int \<Rightarrow> string option \<Rightarrow> int option \<Rightarrow> int \<Rightarrow> int \<Rightarrow> int \<Rightarrow> bool \<Rightarrow> nat option \<Rightarrow> memmap" where
  "new_memmap base sz tag prot flags block_base block_size shared process =
     \<lparr>mm_base = base, mm_size = sz, mm_tag = clean_tag base tag, mm_prot = prot, mm_flags = flags,
      mm_shared = shared, mm_free = False, mm_process = process,
      mm_block_base = block_base, mm_block_size = block_size\<rparr>"

text \<open>\<open>MemMap.__eq__\<close> compares the base addresses; \<open>list.remove\<close> uses it.\<close>

definition memmap_eq :: "memmap \<Rightarrow> memmap \<Rightarrow> bool" where
  "memmap_eq m n \<longleftrightarrow> mm_base m = mm_base n"

definition map_contains :: "memmap \<Rightarrow> int \<Rightarrow> bool" where
  "map_contains m address \<longleftrightarrow> mm_base m \<le> address \<and> address \<le> mm_base m + mm_size m - 1"

subsection \<open>Lookups\<close>

definition get_address_map :: "'e mem_state \<Rightarrow> int \<Rightarrow> memmap option" where
  "get_address_map s address = find (\<lambda>m. map_contains m address) (ms_maps s)"

definition get_reserve_map :: "'e mem_state \<Rightarrow> int \<Rightarrow> memmap option" where
  "get_reserve_map s address = find (\<lambda>m. map_contains m address) (ms_reserves s)"

definition is_address_valid :: "'e mem_state \<Rightarrow> int \<Rightarrow> bool" where
  "is_address_valid s address \<longleftrightarrow> get_address_map s address \<noteq> None \<or> get_reserve_map s address \<noteq> None"

definition get_address_tag :: "'e mem_state \<Rightarrow> int \<Rightarrow> string option" where
  "get_address_tag s address =
     (case find (\<lambda>m. mm_base m \<le> address \<and> address \<le> mm_base m + mm_size m - 1) (ms_maps s) of
        None \<Rightarrow> None | Some m \<Rightarrow> mm_tag m)"

subsection \<open>The search for a free range\<close>

definition region_pages :: "(int \<times> int \<times> int) list \<Rightarrow> int list" where
  "region_pages rs = concat (map (\<lambda>(lo, hi, _). py_range lo hi page_size) rs)"

definition reserve_pages :: "memmap list \<Rightarrow> int list" where
  "reserve_pages rs = concat (map (\<lambda>r. py_range (mm_base r) (mm_base r + mm_size r) page_size) rs)"

fun scan_pages :: "int \<Rightarrow> int list \<Rightarrow> int \<Rightarrow> int" where
  "scan_pages tot [] base = base"
| "scan_pages tot (page # pages) base =
     (if base + tot \<le> page then base
      else if base \<le> page then scan_pages tot pages (page + page_size)
      else scan_pages tot pages base)"

definition round_total :: "int \<Rightarrow> int" where
  "round_total sz =
     (if sz < page_size then page_size
      else if sz mod page_size \<noteq> 0 then sz + (page_size - sz mod page_size)
      else sz)"

definition occupied :: "'e mem_engine \<Rightarrow> 'e mem_state \<Rightarrow> int list" where
  "occupied E s = region_pages (eng_regions E (ms_eng s)) @ reserve_pages (ms_reserves s)"

definition get_valid_ranges ::
  "'e mem_engine \<Rightarrow> int \<Rightarrow> int option \<Rightarrow> 'e mem_state \<Rightarrow> (int \<times> int) result" where
  "get_valid_ranges E sz addr_arg s =
     (let addr = (case addr_arg of None \<Rightarrow> ms_alloc_base s | Some a \<Rightarrow> a);
          tot = round_total sz;
          base = scan_pages tot (sort (remdups (occupied E s))) (addr - addr mod page_size)
      in case ms_limit s of
           None \<Rightarrow> Inr (base, tot)
         | Some limit \<Rightarrow>
             (if addr < limit \<and> limit < base + tot then Inl OutOfMemoryError else Inr (base, tot)))"

subsection \<open>Map hooks\<close>

definition hook_fires :: "map_hook \<Rightarrow> memmap \<Rightarrow> bool" where
  "hook_fires h mm \<longleftrightarrow> mh_enabled h \<and> mh_begin h \<le> mm_base mm \<and> (mh_end h = 0 \<or> mm_base mm < mh_end h)"

definition hook_mem_map_dispatch :: "memmap \<Rightarrow> 'e mem_state \<Rightarrow> 'e mem_state" where
  "hook_mem_map_dispatch mm s =
     s\<lparr>ms_fired := ms_fired s @ map (\<lambda>h. (mh_id h, mm)) (filter (\<lambda>h. hook_fires h mm) (ms_hooks s))\<rparr>"

subsection \<open>Mapping\<close>

definition add_map :: "memmap \<Rightarrow> 'e mem_state \<Rightarrow> 'e mem_state" where
  "add_map mm s = hook_mem_map_dispatch mm (s\<lparr>ms_maps := ms_maps s @ [mm]\<rparr>)"

text \<open>The process a tagged allocation belongs to when the caller gives none.\<close>

definition map_process :: "string option \<Rightarrow> nat option \<Rightarrow> 'e mem_state \<Rightarrow> nat option" where
  "map_process tag process s =
     (if process = None \<and> (case tag of None \<Rightarrow> False | Some t \<Rightarrow> t \<noteq> [] \<and> \<not> starts_with t ''emu'')
      then ms_process s else process)"

definition pad_size :: "int \<Rightarrow> int" where
  "pad_size sz = sz + (0x10 - sz mod 0x10)"

text \<open>The small allocation path: a slot of the shared page block, after a new block if the slot does not fit.\<close>

definition mem_map_small ::
  "'e mem_engine \<Rightarrow> int \<Rightarrow> int \<Rightarrow> string option \<Rightarrow> int \<Rightarrow> bool \<Rightarrow> nat option \<Rightarrow> 'e mem_state
    \<Rightarrow> int result \<times> 'e mem_state" where
  "mem_map_small E sz0 perms tag flags shared process s =
     (let addr = ms_block_base s + ms_block_offset s;
          sz = pad_size sz0;
          place = (\<lambda>a t.
            let t1 = t\<lparr>ms_block_offset := ms_block_offset t + sz\<rparr>;
                mm = new_memmap a sz tag (Some perms) flags (ms_block_base t1) (ms_block_size t1) shared process
            in (Inr a, add_map mm t1))
      in if ms_block_base s = 0 \<or> ms_block_base s + page_size < addr + sz
         then (case get_valid_ranges E page_size None s of
                 Inl e \<Rightarrow> (Inl e, s)
               | Inr (b, n) \<Rightarrow>
                   (let s1 = s\<lparr>ms_block_base := b, ms_block_size := n\<rparr>
                    in case eng_map E b n PERM_MEM_RWX (ms_eng s1) of
                         Inl e \<Rightarrow> (Inl e, s1)
                       | Inr eng \<Rightarrow>
                           (let s2 = s1\<lparr>ms_eng := eng, ms_block_offset := 0\<rparr>
                            in place (ms_block_base s2 + ms_block_offset s2) s2)))
         else place addr s)"

definition mem_map_large ::
  "'e mem_engine \<Rightarrow> int \<Rightarrow> int option \<Rightarrow> int \<Rightarrow> string option \<Rightarrow> int \<Rightarrow> bool \<Rightarrow> nat option \<Rightarrow> 'e mem_state
    \<Rightarrow> int result \<times> 'e mem_state" where
  "mem_map_large E sz0 base_arg perms tag flags shared process s =
     (case get_valid_ranges E sz0 base_arg s of
        Inl e \<Rightarrow> (Inl e, s)
      | Inr (base, sz) \<Rightarrow>
          (let block_size = (if ms_block_size s < sz then sz else ms_block_size s);
               mm = new_memmap base sz tag (Some perms) flags base block_size shared process
           in case eng_map E base sz perms (ms_eng s) of
                Inl e \<Rightarrow> (Inl e, s)
              | Inr eng \<Rightarrow> (Inr base, add_map mm (s\<lparr>ms_eng := eng\<rparr>))))"

definition mem_map ::
  "'e mem_engine \<Rightarrow> int \<Rightarrow> int option \<Rightarrow> int \<Rightarrow> string option \<Rightarrow> int \<Rightarrow> bool \<Rightarrow> nat option \<Rightarrow> 'e mem_state
    \<Rightarrow> int result \<times> 'e mem_state" where
  "mem_map E sz base perms tag flags shared process s =
     (let proc = map_process tag process s
      in if base = None \<and> sz < page_size \<and> sz mod page_size \<noteq> 0
         then mem_map_small E sz perms tag flags shared proc s
         else mem_map_large E sz base perms tag flags shared proc s)"

subsection \<open>Freeing\<close>

fun mark_free :: "int \<Rightarrow> memmap list \<Rightarrow> memmap list" where
  "mark_free address [] = []"
| "mark_free address (m # ms) =
     (if map_contains m address then m\<lparr>mm_free := True\<rparr> # ms else m # mark_free address ms)"

definition remove_maps :: "memmap list \<Rightarrow> memmap list \<Rightarrow> memmap list" where
  "remove_maps dead ms = foldl (\<lambda>acc m. remove_first (\<lambda>x. memmap_eq x m) acc) ms dead"

definition mem_free :: "'e mem_engine \<Rightarrow> int \<Rightarrow> 'e mem_state \<Rightarrow> unit result \<times> 'e mem_state" where
  "mem_free E base s =
     (case get_address_map s base of
        None \<Rightarrow> (Inr (), s)
      | Some mm \<Rightarrow>
          (let s1 = s\<lparr>ms_maps := mark_free base (ms_maps s)\<rparr>
           in if ms_keep_on_free s1 then (Inr (), s1)
              else (let ml = filter (\<lambda>m. mm_block_base m = mm_block_base mm) (ms_maps s1)
                    in if list_all mm_free ml
                       then (let s2 = s1\<lparr>ms_block_base := 0\<rparr>
                             in case eng_unmap E (mm_block_base mm) (mm_block_size mm) (ms_eng s2) of
                                  Inl e \<Rightarrow> (Inl e, s2)
                                | Inr eng \<Rightarrow>
                                    (Inr (), s2\<lparr>ms_eng := eng, ms_maps := remove_maps ml (ms_maps s2)\<rparr>))
                       else (Inr (), s1))))"

subsection \<open>Reservations and the allocation base\<close>

definition mem_reserve ::
  "'e mem_engine \<Rightarrow> int \<Rightarrow> int option \<Rightarrow> int option \<Rightarrow> string option \<Rightarrow> int \<Rightarrow> bool \<Rightarrow> 'e mem_state
    \<Rightarrow> int result \<times> 'e mem_state" where
  "mem_reserve E sz0 base_arg perms tag flags shared s =
     (let reserve = (\<lambda>base sz. (Inr base,
            s\<lparr>ms_reserves := ms_reserves s @
              [new_memmap base sz tag perms flags base (ms_block_size s) shared None]\<rparr>))
      in case base_arg of
           Some base \<Rightarrow> reserve base sz0
         | None \<Rightarrow>
             (case get_valid_ranges E sz0 None s of
                Inl e \<Rightarrow> (Inl e, s)
              | Inr (base, sz) \<Rightarrow> reserve base sz))"

definition mem_unreserve :: "int \<Rightarrow> 'e mem_state \<Rightarrow> 'e mem_state" where
  "mem_unreserve base s = s\<lparr>ms_reserves := filter (\<lambda>r. mm_base r \<noteq> base) (ms_reserves s)\<rparr>"

definition mem_map_reserve :: "'e mem_engine \<Rightarrow> int \<Rightarrow> 'e mem_state \<Rightarrow> int option result \<times> 'e mem_state" where
  "mem_map_reserve E mapped_base s =
     (case find (\<lambda>r. mapped_base = mm_base r) (ms_reserves s) of
        None \<Rightarrow> (Inr None, s)
      | Some r \<Rightarrow>
          (let s1 = s\<lparr>ms_reserves := remove_first (\<lambda>x. memmap_eq x r) (ms_reserves s)\<rparr>;
               perms = (case mm_prot r of None \<Rightarrow> PERM_MEM_RWX | Some p \<Rightarrow> p)
           in case mem_map E (mm_size r) (Some (mm_base r)) perms (mm_tag r) 0 False None s1 of
                (Inl e, s2) \<Rightarrow> (Inl e, s2)
              | (Inr a, s2) \<Rightarrow> (Inr (Some a), s2)))"

text \<open>\<open>allocations_from\<close>: the context manager around a block of code, here a state transformer.\<close>

definition allocations_from :: "int \<Rightarrow> ('e mem_state \<Rightarrow> 'a \<times> 'e mem_state) \<Rightarrow> 'e mem_state \<Rightarrow> 'a \<times> 'e mem_state" where
  "allocations_from base body s =
     (let previous = ms_alloc_base s;
          s1 = s\<lparr>ms_alloc_base := base, ms_block_base := 0, ms_block_offset := 0\<rparr>;
          (r, s2) = body s1
      in (r, s2\<lparr>ms_alloc_base := previous, ms_block_base := 0, ms_block_offset := 0\<rparr>))"

end
