(* ===== verification/Memory_Search.thy ===== *)
theory Memory_Search
  imports Memory_Manager
begin

text \<open>
  Facts about the free-range search of the memory manager: \<^verbatim>\<open>round_total\<close> rounds a request up to whole
  pages, and \<^verbatim>\<open>scan_pages\<close> over the sorted occupied pages finds the first page-aligned range at or after
  its start that holds no occupied page.
\<close>

definition page_aligned :: "int \<Rightarrow> bool" where
  "page_aligned x \<longleftrightarrow> x mod page_size = 0"

named_theorems page_simps \<open>page arithmetic\<close>

lemma page_size_pos [simp]: "0 < page_size"
  by (simp add: page_size_def)

lemma page_aligned_0 [page_simps]: "page_aligned 0"
  by (simp add: page_aligned_def)

lemma page_aligned_add_page [page_simps]: "page_aligned (x + page_size) = page_aligned x"
  by (simp add: page_aligned_def)

lemma page_aligned_add: "page_aligned x \<Longrightarrow> page_aligned y \<Longrightarrow> page_aligned (x + y)"
  by (simp add: page_aligned_def mod_add_eq [symmetric])

lemma page_aligned_diff: "page_aligned x \<Longrightarrow> page_aligned y \<Longrightarrow> page_aligned (x - y)"
  by (simp add: page_aligned_def mod_diff_eq [symmetric])

lemma page_aligned_floor [page_simps]: "page_aligned (x - x mod page_size)"
  by (simp add: page_aligned_def)

lemma page_floor_le: "x - x mod page_size \<le> x"
  by (simp add: pos_mod_sign)

lemma page_floor_gt: "x < x - x mod page_size + page_size"
  using pos_mod_bound [of page_size x] by simp

text \<open>Two aligned addresses less than a page apart are equal.\<close>

lemma page_aligned_step:
  assumes "page_aligned x" "page_aligned y" "x < y"
  shows "x + page_size \<le> y"
proof (rule ccontr)
  assume "\<not> x + page_size \<le> y"
  then have "0 < y - x" "y - x < page_size" using assms(3) by auto
  then have "(y - x) mod page_size = y - x" by simp
  with page_aligned_diff [OF assms(2,1)] \<open>0 < y - x\<close> show False
    by (simp add: page_aligned_def)
qed

lemma page_floor_mono:
  assumes "page_aligned b" "b \<le> x"
  shows "b \<le> x - x mod page_size"
proof (rule ccontr)
  assume "\<not> b \<le> x - x mod page_size"
  then have "x - x mod page_size + page_size \<le> b"
    using page_aligned_step page_aligned_floor assms(1) by (metis linorder_not_le)
  with page_floor_gt [of x] assms(2) show False by linarith
qed

lemma round_total_bounds:
  "sz \<le> round_total sz" "page_size \<le> round_total sz" "page_aligned (round_total sz)"
  "page_size \<le> sz \<Longrightarrow> round_total sz < sz + page_size"
proof -
  show "sz \<le> round_total sz" "page_size \<le> round_total sz"
    by (auto simp: round_total_def page_size_def)
  show "page_aligned (round_total sz)"
  proof -
    have "page_aligned (sz - sz mod page_size + page_size)"
      by (simp only: page_aligned_add_page page_aligned_floor)
    then show ?thesis
      by (auto simp: round_total_def page_aligned_def algebra_simps)
  qed
  show "page_size \<le> sz \<Longrightarrow> round_total sz < sz + page_size"
    by (auto simp: round_total_def page_size_def)
qed

subsection \<open>First fit\<close>

text \<open>A start \<open>b\<close> is free for \<open>tot\<close> bytes when no occupied page lies in the range.\<close>

definition range_free :: "int list \<Rightarrow> int \<Rightarrow> int \<Rightarrow> bool" where
  "range_free pages tot b \<longleftrightarrow> (\<forall>p\<in>set pages. \<not> (b \<le> p \<and> p < b + tot))"

lemma scan_pages_ge: "base \<le> scan_pages tot pages base"
proof (induction tot pages base rule: scan_pages.induct)
  case (2 tot page pages base)
  then show ?case by (auto simp: page_size_def)
qed simp

lemma scan_pages_aligned:
  "page_aligned base \<Longrightarrow> \<forall>p\<in>set pages. page_aligned p \<Longrightarrow> page_aligned (scan_pages tot pages base)"
  by (induction tot pages base rule: scan_pages.induct) (auto simp: page_simps)

lemma scan_pages_free:
  "sorted pages \<Longrightarrow> range_free pages tot (scan_pages tot pages base)"
proof (induction tot pages base rule: scan_pages.induct)
  case (1 tot base)
  then show ?case by (simp add: range_free_def)
next
  case (2 tot page pages base)
  have srt: "sorted pages" and le: "\<forall>p\<in>set pages. page \<le> p" using "2.prems" by auto
  consider (stop) "base + tot \<le> page" | (skip) "\<not> base + tot \<le> page" "base \<le> page" |
    (below) "page < base" by linarith
  then show ?case
  proof cases
    case stop
    then show ?thesis using le by (fastforce simp: range_free_def)
  next
    case skip
    then have "range_free pages tot (scan_pages tot pages (page + page_size))"
      using "2.IH"(1) srt by simp
    moreover have "page < scan_pages tot pages (page + page_size)"
      using scan_pages_ge [of "page + page_size" tot pages] page_size_pos by linarith
    ultimately show ?thesis using skip by (auto simp: range_free_def)
  next
    case below
    show ?thesis
    proof (cases "base + tot \<le> page")
      case True
      then show ?thesis using le by (fastforce simp: range_free_def)
    next
      case False
      then have "range_free pages tot (scan_pages tot pages base)"
        using "2.IH"(2) srt below by simp
      then show ?thesis
        using below False scan_pages_ge [of base tot pages] by (auto simp: range_free_def)
    qed
  qed
qed

lemma scan_pages_first:
  assumes "sorted pages" "\<forall>p\<in>set pages. page_aligned p" "0 < tot"
    and "page_aligned c" "base \<le> c" "c < scan_pages tot pages base"
  shows "\<not> range_free pages tot c"
  using assms
proof (induction tot pages base rule: scan_pages.induct)
  case (1 tot base)
  then show ?case by simp
next
  case (2 tot page pages base)
  have srt: "sorted pages" and al: "page_aligned page" "\<forall>p\<in>set pages. page_aligned p"
    using "2.prems" by auto
  have nstop: "\<not> base + tot \<le> page" using "2.prems" by auto
  show ?case
  proof (cases "base \<le> page")
    case True
    show ?thesis
    proof (cases "c \<le> page")
      case True
      then show ?thesis using nstop "2.prems"(3,5) by (auto simp: range_free_def)
    next
      case False
      then have "page + page_size \<le> c" using page_aligned_step al(1) "2.prems"(4) by simp
      then have "\<not> range_free pages tot c"
        using "2.IH"(1) nstop True srt al "2.prems" by simp
      then show ?thesis by (auto simp: range_free_def)
    qed
  next
    case False
    then have "\<not> range_free pages tot c"
      using "2.IH"(2) nstop srt al "2.prems" by simp
    then show ?thesis by (auto simp: range_free_def)
  qed
qed

subsection \<open>The result of the search\<close>

lemma range_free_sort [simp]: "range_free (sort (remdups pages)) tot b = range_free pages tot b"
  by (simp add: range_free_def)

text \<open>The occupied pages are aligned when the engine's regions and the reservations are.\<close>

definition occupied_aligned :: "'e mem_engine \<Rightarrow> 'e mem_state \<Rightarrow> bool" where
  "occupied_aligned E s \<longleftrightarrow> (\<forall>p\<in>set (occupied E s). page_aligned p)"

definition search_base :: "'e mem_state \<Rightarrow> int option \<Rightarrow> int" where
  "search_base s a = (case a of None \<Rightarrow> ms_alloc_base s | Some x \<Rightarrow> x)"

definition first_fit :: "'e mem_engine \<Rightarrow> int \<Rightarrow> int option \<Rightarrow> 'e mem_state \<Rightarrow> int" where
  "first_fit E sz a s =
     scan_pages (round_total sz) (sort (remdups (occupied E s)))
       (search_base s a - search_base s a mod page_size)"

lemma get_valid_ranges_eq:
  "get_valid_ranges E sz a s =
     (if \<exists>l. ms_limit s = Some l \<and> search_base s a < l \<and> l < first_fit E sz a s + round_total sz
      then Inl OutOfMemoryError else Inr (first_fit E sz a s, round_total sz))"
  by (auto simp: get_valid_ranges_def first_fit_def search_base_def Let_def split: option.splits)

lemma get_valid_ranges_Inr:
  "get_valid_ranges E sz a s = Inr (b, n) \<Longrightarrow> b = first_fit E sz a s \<and> n = round_total sz"
  by (auto simp: get_valid_ranges_eq split: if_splits)

lemma get_valid_ranges_Inl: "get_valid_ranges E sz a s = Inl e \<Longrightarrow> e = OutOfMemoryError"
  by (auto simp: get_valid_ranges_eq split: if_splits)

lemma first_fit_ge: "search_base s a - search_base s a mod page_size \<le> first_fit E sz a s"
  by (simp add: first_fit_def scan_pages_ge)

lemma first_fit_free: "range_free (occupied E s) (round_total sz) (first_fit E sz a s)"
  unfolding first_fit_def
  using scan_pages_free [of "sort (remdups (occupied E s))"] by simp

lemma first_fit_aligned: "occupied_aligned E s \<Longrightarrow> page_aligned (first_fit E sz a s)"
  by (simp add: first_fit_def scan_pages_aligned occupied_aligned_def page_simps)

lemma first_fit_minimal:
  assumes "occupied_aligned E s" "page_aligned c"
    and "search_base s a - search_base s a mod page_size \<le> c" "c < first_fit E sz a s"
  shows "\<not> range_free (occupied E s) (round_total sz) c"
proof -
  have "0 < round_total sz" using round_total_bounds(2) [of sz] page_size_pos by linarith
  then show ?thesis
    using scan_pages_first [of "sort (remdups (occupied E s))" "round_total sz" c] assms
    by (simp add: first_fit_def occupied_aligned_def)
qed

lemmas get_valid_ranges_facts =
  get_valid_ranges_Inr first_fit_ge first_fit_free first_fit_aligned round_total_bounds

end
