(* ===== verification/Memory_Invariants.thy ===== *)
theory Memory_Invariants
  imports Memory_Search
begin

text \<open>
  The invariant of the memory manager and that every operation keeps it. The engine interface is the locale
  \<^verbatim>\<open>mem_engine_laws\<close> (the documented effect of Unicorn's \<open>mem_map\<close>, \<open>mem_unmap\<close> and
  \<open>mem_regions\<close>). It is interpreted on a page-table engine, which the witnesses also run on. From the invariant: two allocations never overlap, and a lookup
  finds the allocation that holds an address.
\<close>

definition map_range :: "memmap \<Rightarrow> int set" where
  "map_range m = {mm_base m ..< mm_base m + mm_size m}"

definition block_range :: "memmap \<Rightarrow> int set" where
  "block_range m = {mm_block_base m ..< mm_block_base m + mm_block_size m}"

definition eng_cov :: "'e mem_engine \<Rightarrow> 'e \<Rightarrow> int set" where
  "eng_cov E e = (\<Union>(lo, hi, p)\<in>set (eng_regions E e). {lo..hi})"

definition same_block :: "memmap \<Rightarrow> memmap \<Rightarrow> bool" where
  "same_block m n \<longleftrightarrow> mm_block_base m = mm_block_base n \<and> mm_block_size m = mm_block_size n"

definition cur_block :: "'e mem_state \<Rightarrow> int set" where
  "cur_block s = {ms_block_base s ..< ms_block_base s + page_size}"

definition map_ok :: "'e mem_engine \<Rightarrow> 'e mem_state \<Rightarrow> memmap \<Rightarrow> bool" where
  "map_ok E s m \<longleftrightarrow> 0 < mm_size m \<and> map_range m \<subseteq> block_range m \<and>
     block_range m \<subseteq> eng_cov E (ms_eng s) \<and> page_aligned (mm_block_base m) \<and> page_aligned (mm_block_size m)"

definition in_cur_block :: "'e mem_state \<Rightarrow> memmap \<Rightarrow> bool" where
  "in_cur_block s m \<longleftrightarrow> mm_block_base m = ms_block_base s \<and> mm_block_size m = page_size \<and>
     mm_base m + mm_size m \<le> ms_block_base s + ms_block_offset s"

text \<open>The shared page block of the small allocations, when there is one.\<close>

definition cur_ok :: "'e mem_engine \<Rightarrow> 'e mem_state \<Rightarrow> bool" where
  "cur_ok E s \<longleftrightarrow> (ms_block_base s \<noteq> 0 \<longrightarrow>
     cur_block s \<subseteq> eng_cov E (ms_eng s) \<and> ms_block_size s = page_size \<and> page_aligned (ms_block_base s) \<and>
     (\<forall>m\<in>set (ms_maps s). in_cur_block s m \<or> block_range m \<inter> cur_block s = {}))"

definition mem_wf :: "'e mem_engine \<Rightarrow> 'e mem_state \<Rightarrow> bool" where
  "mem_wf E s \<longleftrightarrow>
     (\<forall>m\<in>set (ms_maps s). map_ok E s m) \<and>
     sorted_wrt (\<lambda>m n. map_range m \<inter> map_range n = {}) (ms_maps s) \<and>
     (\<forall>m\<in>set (ms_maps s). \<forall>n\<in>set (ms_maps s). same_block m n \<or> block_range m \<inter> block_range n = {}) \<and>
     cur_ok E s \<and> (ms_block_size s = 0 \<or> ms_block_size s = page_size) \<and> 0 \<le> ms_block_offset s \<and>
     page_size \<le> ms_alloc_base s \<and> (\<forall>r\<in>set (ms_reserves s). page_aligned (mm_base r))"

lemma mem_wfD:
  assumes "mem_wf E s"
  shows "m \<in> set (ms_maps s) \<Longrightarrow> map_ok E s m"
    and "sorted_wrt (\<lambda>m n. map_range m \<inter> map_range n = {}) (ms_maps s)"
    and "m \<in> set (ms_maps s) \<Longrightarrow> n \<in> set (ms_maps s) \<Longrightarrow> same_block m n \<or> block_range m \<inter> block_range n = {}"
    and "cur_ok E s" and "ms_block_size s = 0 \<or> ms_block_size s = page_size" and "0 \<le> ms_block_offset s"
    and "page_size \<le> ms_alloc_base s" and "r \<in> set (ms_reserves s) \<Longrightarrow> page_aligned (mm_base r)"
  using assms by (auto simp: mem_wf_def)

subsection \<open>Field access after recording a map\<close>

lemma add_map_fields [simp]:
  "ms_maps (add_map mm s) = ms_maps s @ [mm]" "ms_reserves (add_map mm s) = ms_reserves s"
  "ms_block_base (add_map mm s) = ms_block_base s" "ms_block_size (add_map mm s) = ms_block_size s"
  "ms_block_offset (add_map mm s) = ms_block_offset s" "ms_alloc_base (add_map mm s) = ms_alloc_base s"
  "ms_eng (add_map mm s) = ms_eng s" "ms_limit (add_map mm s) = ms_limit s"
  "ms_keep_on_free (add_map mm s) = ms_keep_on_free s"
  by (simp_all add: add_map_def hook_mem_map_dispatch_def)

lemma new_memmap_fields [simp]:
  "mm_base (new_memmap b n t p f bb bn sh pr) = b" "mm_size (new_memmap b n t p f bb bn sh pr) = n"
  "mm_block_base (new_memmap b n t p f bb bn sh pr) = bb" "mm_block_size (new_memmap b n t p f bb bn sh pr) = bn"
  "mm_free (new_memmap b n t p f bb bn sh pr) = False" "mm_prot (new_memmap b n t p f bb bn sh pr) = p"
  by (simp_all add: new_memmap_def)

subsection \<open>Free ranges and covered memory\<close>

lemma range_free_disjoint:
  assumes "page_aligned b" "page_aligned lo" "range_free pages n b"
    and "set (py_range lo hi page_size) \<subseteq> set pages"
  shows "{b..<b + n} \<inter> {lo..<hi} = {}"
proof (rule ccontr)
  assume "{b..<b + n} \<inter> {lo..<hi} \<noteq> {}"
  then obtain x where x: "b \<le> x" "x < b + n" "lo \<le> x" "x < hi"
    by (metis IntE atLeastLessThan_iff ex_in_conv)
  define p where "p = x - x mod page_size"
  have p: "page_aligned p" "p \<le> x" "b \<le> p" "lo \<le> p"
    using page_aligned_floor page_floor_le page_floor_mono assms(1,2) x by (simp_all add: p_def)
  then have "p \<in> set (py_range lo hi page_size)"
    using page_aligned_diff [OF p(1) assms(2)] x by (simp add: set_py_range page_aligned_def)
  then have "\<not> (b \<le> p \<and> p < b + n)" using assms(3,4) by (auto simp: range_free_def)
  then show False using p x by simp
qed

text \<open>An inclusive end on the last byte of a page gives the same pages as the exclusive end after it.\<close>

lemma py_range_inclusive:
  assumes "page_aligned lo" "page_aligned (hi + 1)"
  shows "set (py_range lo (hi + 1) page_size) \<subseteq> set (py_range lo hi page_size)"
proof
  fix x assume "x \<in> set (py_range lo (hi + 1) page_size)"
  then have x: "lo \<le> x" "x < hi + 1" "(x - lo) mod page_size = 0" by (auto simp: set_py_range)
  then have "page_aligned x"
    using page_aligned_add [OF _ assms(1), of "x - lo"] by (simp add: page_aligned_def)
  then have "x + page_size \<le> hi + 1" using page_aligned_step assms(2) x by blast
  then show "x \<in> set (py_range lo hi page_size)" using x by (simp add: set_py_range page_size_def)
qed

lemma py_range_aligned: "page_aligned lo \<Longrightarrow> p \<in> set (py_range lo hi page_size) \<Longrightarrow> page_aligned p"
  using page_aligned_add [of "p - lo" lo] by (simp add: set_py_range page_aligned_def)

subsection \<open>The engine interface\<close>

locale mem_engine_laws =
  fixes E :: "'e mem_engine"
  assumes regions_aligned: "(lo, hi, p) \<in> set (eng_regions E e) \<Longrightarrow> page_aligned lo \<and> page_aligned (hi + 1)"
    and map_cov: "eng_map E b n perms e = Inr e' \<Longrightarrow> eng_cov E e' = eng_cov E e \<union> {b..<b + n}"
    and unmap_cov: "eng_unmap E b n e = Inr e' \<Longrightarrow> eng_cov E e' = eng_cov E e - {b..<b + n}"
    and map_error: "eng_map E b n perms e = Inl x \<Longrightarrow> x = UcError"
begin

lemma occupied_aligned_wf:
  assumes "\<forall>r\<in>set (ms_reserves s). page_aligned (mm_base r)"
  shows "occupied_aligned E s"
proof -
  have "page_aligned q" if "q \<in> set (region_pages (eng_regions E (ms_eng s)))" for q
    using that regions_aligned py_range_aligned by (fastforce simp: region_pages_def)
  moreover have "page_aligned q" if "q \<in> set (reserve_pages (ms_reserves s))" for q
    using that assms py_range_aligned by (fastforce simp: reserve_pages_def)
  ultimately show ?thesis by (auto simp: occupied_aligned_def occupied_def)
qed

lemma free_not_covered:
  assumes "page_aligned b" "range_free (occupied E s) n b"
  shows "{b..<b + n} \<inter> eng_cov E (ms_eng s) = {}"
proof -
  have "{b..<b + n} \<inter> {lo..hi} = {}" if r: "(lo, hi, p) \<in> set (eng_regions E (ms_eng s))" for lo hi p
  proof -
    have al: "page_aligned lo" "page_aligned (hi + 1)" using regions_aligned r by blast+
    have "set (py_range lo hi page_size) \<subseteq> set (occupied E s)"
      using r by (force simp: occupied_def region_pages_def)
    then have "set (py_range lo (hi + 1) page_size) \<subseteq> set (occupied E s)"
      using py_range_inclusive [OF al] by blast
    then have "{b..<b + n} \<inter> {lo..<hi + 1} = {}"
      using range_free_disjoint assms al(1) by blast
    then show ?thesis by auto
  qed
  then show ?thesis by (fastforce simp: eng_cov_def)
qed

lemma free_not_reserved:
  assumes "page_aligned b" "range_free (occupied E s) n b" "r \<in> set (ms_reserves s)" "page_aligned (mm_base r)"
  shows "{b..<b + n} \<inter> map_range r = {}"
proof -
  have "set (py_range (mm_base r) (mm_base r + mm_size r) page_size) \<subseteq> set (occupied E s)"
    using assms(3) by (force simp: occupied_def reserve_pages_def)
  then show ?thesis
    unfolding map_range_def by (rule range_free_disjoint [OF assms(1,4,2)])
qed

text \<open>What a successful search gives: an aligned, whole-page range outside all covered and reserved memory.\<close>

lemma search_fresh:
  assumes "mem_wf E s" "get_valid_ranges E sz a s = Inr (b, n)"
  shows "page_aligned b" "page_aligned n" "sz \<le> n" "page_size \<le> n"
    and "{b..<b + n} \<inter> eng_cov E (ms_eng s) = {}"
    and "r \<in> set (ms_reserves s) \<Longrightarrow> {b..<b + n} \<inter> map_range r = {}"
    and "a = None \<Longrightarrow> 0 < b"
proof -
  have occ: "occupied_aligned E s" using assms(1) mem_wfD(8) occupied_aligned_wf by blast
  have eq: "b = first_fit E sz a s" "n = round_total sz" using get_valid_ranges_Inr [OF assms(2)] by auto
  show al: "page_aligned b" using first_fit_aligned [OF occ] by (simp add: eq)
  show "page_aligned n" "sz \<le> n" "page_size \<le> n" by (simp_all add: eq round_total_bounds)
  have rf: "range_free (occupied E s) n b" using first_fit_free eq by metis
  show "{b..<b + n} \<inter> eng_cov E (ms_eng s) = {}" using free_not_covered al rf by blast
  show "r \<in> set (ms_reserves s) \<Longrightarrow> {b..<b + n} \<inter> map_range r = {}"
    using free_not_reserved [OF al rf] mem_wfD(8) [OF assms(1)] by blast
  show "0 < b" if "a = None"
  proof -
    have "page_size \<le> ms_alloc_base s - ms_alloc_base s mod page_size"
      using page_floor_mono mem_wfD(7) [OF assms(1)] by (simp add: page_aligned_def)
    then show ?thesis
      using first_fit_ge [of s a E sz] that by (simp add: eq search_base_def page_size_def)
  qed
qed

lemma map_blocks_covered:
  "mem_wf E s \<Longrightarrow> m \<in> set (ms_maps s) \<Longrightarrow> block_range m \<subseteq> eng_cov E (ms_eng s) \<and> map_range m \<subseteq> block_range m"
  using mem_wfD(1) [of E s m] by (simp add: map_ok_def)

end

subsection \<open>Adding a map\<close>

text \<open>
  The common step of both allocation paths: a state whose maps are well formed gets one more map, whose block
  is either one of the known blocks or disjoint from all of them.
\<close>

lemma add_map_wf:
  assumes wf: "mem_wf E s" and ok: "map_ok E t m"
    and t: "ms_maps t = ms_maps s" "ms_reserves t = ms_reserves s" "ms_alloc_base t = ms_alloc_base s"
    and cov: "eng_cov E (ms_eng s) \<subseteq> eng_cov E (ms_eng t)"
    and disj: "\<And>x. x \<in> set (ms_maps s) \<Longrightarrow> map_range x \<inter> map_range m = {}"
    and blocks: "\<And>x. x \<in> set (ms_maps s) \<Longrightarrow> same_block x m \<or> block_range x \<inter> block_range m = {}"
    and cur: "cur_ok E (add_map m t)"
    and off: "0 \<le> ms_block_offset t" "ms_block_size t = 0 \<or> ms_block_size t = page_size"
  shows "mem_wf E (add_map m t)"
proof -
  have old: "map_ok E (add_map m t) x" if "x \<in> set (ms_maps s)" for x
    using mem_wfD(1) [OF wf that] cov by (auto simp: map_ok_def)
  have new: "map_ok E (add_map m t) m"
    using ok by (simp add: map_ok_def)
  have sym: "same_block m m" "\<And>x. same_block x m = same_block m x"
    by (auto simp: same_block_def)
  show ?thesis
    unfolding mem_wf_def
  proof (intro conjI)
    show "\<forall>x\<in>set (ms_maps (add_map m t)). map_ok E (add_map m t) x"
      using old new t by auto
    show "sorted_wrt (\<lambda>m n. map_range m \<inter> map_range n = {}) (ms_maps (add_map m t))"
      using mem_wfD(2) [OF wf] disj t by (simp add: sorted_wrt_append)
    show "\<forall>x\<in>set (ms_maps (add_map m t)). \<forall>y\<in>set (ms_maps (add_map m t)).
        same_block x y \<or> block_range x \<inter> block_range y = {}"
    proof (intro ballI)
      fix x y assume "x \<in> set (ms_maps (add_map m t))" "y \<in> set (ms_maps (add_map m t))"
      then have "x \<in> set (ms_maps s) \<or> x = m" "y \<in> set (ms_maps s) \<or> y = m" using t by auto
      then show "same_block x y \<or> block_range x \<inter> block_range y = {}"
        using mem_wfD(3) [OF wf] blocks sym by (metis Int_commute)
    qed
    show "cur_ok E (add_map m t)" by (rule cur)
    show "\<forall>r\<in>set (ms_reserves (add_map m t)). page_aligned (mm_base r)"
      using mem_wfD(8) [OF wf] t by auto
  qed (use off mem_wfD(7) [OF wf] t in auto)
qed

lemma pad_size_bounds:
  assumes "0 \<le> sz" "sz < page_size" "sz mod page_size \<noteq> 0"
  shows "0 < pad_size sz" "pad_size sz \<le> page_size" "sz < pad_size sz"
proof -
  have "sz - sz mod 16 \<le> 4080" using assms(2) unfolding page_size_def by presburger
  then show "pad_size sz \<le> page_size" by (simp add: pad_size_def page_size_def)
  have "sz mod 16 < 16" by simp
  then show "0 < pad_size sz" "sz < pad_size sz" using assms(1) unfolding pad_size_def by linarith+
qed

context mem_engine_laws
begin

text \<open>A slot of the current shared block.\<close>

lemma place_slot_wf:
  assumes wf: "mem_wf E s" and blk: "ms_block_base s \<noteq> 0" and n: "0 < n"
    and fits: "ms_block_offset s + n \<le> page_size"
  shows "mem_wf E (add_map (new_memmap (ms_block_base s + ms_block_offset s) n tag p f
            (ms_block_base s) (ms_block_size s) sh pr) (s\<lparr>ms_block_offset := ms_block_offset s + n\<rparr>))"
    (is "mem_wf E (add_map ?m ?t)")
proof (rule add_map_wf [OF wf])
  have cur: "cur_block s \<subseteq> eng_cov E (ms_eng s)" "ms_block_size s = page_size" "page_aligned (ms_block_base s)"
    and maps: "\<And>x. x \<in> set (ms_maps s) \<Longrightarrow> in_cur_block s x \<or> block_range x \<inter> cur_block s = {}"
    using mem_wfD(4) [OF wf] blk by (auto simp: cur_ok_def)
  have off: "0 \<le> ms_block_offset s" using mem_wfD(6) [OF wf] .
  have br: "block_range ?m = cur_block s" using cur(2) by (simp add: block_range_def cur_block_def)
  have mr: "map_range ?m \<subseteq> cur_block s"
    using off fits by (auto simp: map_range_def cur_block_def)
  have pa: "page_aligned page_size" by (simp add: page_aligned_def)
  show "map_ok E ?t ?m"
    using n mr br cur pa by (simp add: map_ok_def)
  fix x assume x: "x \<in> set (ms_maps s)"
  have ok: "map_range x \<subseteq> block_range x" using mem_wfD(1) [OF wf x] by (simp add: map_ok_def)
  show "map_range x \<inter> map_range ?m = {}"
  proof (cases "in_cur_block s x")
    case True
    then show ?thesis by (auto simp: in_cur_block_def map_range_def)
  next
    case False
    then have "block_range x \<inter> cur_block s = {}" using maps x by blast
    then show ?thesis using ok mr by blast
  qed
  show "same_block x ?m \<or> block_range x \<inter> block_range ?m = {}"
    using maps [OF x] br cur(2) by (auto simp: in_cur_block_def same_block_def)
next
  have cur: "cur_block s \<subseteq> eng_cov E (ms_eng s)" "ms_block_size s = page_size" "page_aligned (ms_block_base s)"
    and maps: "\<And>x. x \<in> set (ms_maps s) \<Longrightarrow> in_cur_block s x \<or> block_range x \<inter> cur_block s = {}"
    using mem_wfD(4) [OF wf] blk by (auto simp: cur_ok_def)
  have "in_cur_block (add_map ?m ?t) x" if "in_cur_block s x" for x
    using that n by (simp add: in_cur_block_def)
  moreover have "in_cur_block (add_map ?m ?t) ?m"
    using cur by (simp add: in_cur_block_def)
  moreover have "cur_block (add_map ?m ?t) = cur_block s" by (simp add: cur_block_def)
  ultimately show "cur_ok E (add_map ?m ?t)"
    using cur maps by (fastforce simp: cur_ok_def)
  show "0 \<le> ms_block_offset ?t" using mem_wfD(6) [OF wf] n by simp
  show "ms_block_size ?t = 0 \<or> ms_block_size ?t = page_size" using cur by simp
qed simp_all

text \<open>A fresh page becomes the shared block.\<close>

lemma new_block_wf:
  assumes wf: "mem_wf E s" and v: "get_valid_ranges E page_size None s = Inr (b, n)"
    and m: "eng_map E b n perms (ms_eng s) = Inr e"
  shows "mem_wf E (s\<lparr>ms_block_base := b, ms_block_size := n, ms_eng := e, ms_block_offset := 0\<rparr>)"
    and "n = page_size"
proof -
  show n: "n = page_size" using get_valid_ranges_Inr [OF v] by (simp add: round_total_def)
  note fresh = search_fresh [OF wf v]
  have cov: "eng_cov E e = eng_cov E (ms_eng s) \<union> {b..<b + n}" using map_cov [OF m] .
  let ?t = "s\<lparr>ms_block_base := b, ms_block_size := n, ms_eng := e, ms_block_offset := 0\<rparr>"
  have cur: "cur_block ?t = {b..<b + n}" by (simp add: cur_block_def n)
  have "block_range x \<inter> cur_block ?t = {}" if "x \<in> set (ms_maps s)" for x
    using map_blocks_covered [OF wf that] fresh(5) cur by blast
  moreover have "map_ok E ?t x" if "x \<in> set (ms_maps s)" for x
    using mem_wfD(1) [OF wf that] cov by (auto simp: map_ok_def)
  moreover have "cur_block ?t \<subseteq> eng_cov E e" using cov cur by blast
  ultimately show "mem_wf E ?t"
    using wf fresh(1) n by (auto simp: mem_wf_def cur_ok_def)
qed

lemma mem_map_small_wf:
  assumes wf: "mem_wf E s" and sz: "0 \<le> sz" "sz < page_size" "sz mod page_size \<noteq> 0"
    and r: "mem_map_small E sz perms tag flags sh pr s = (Inr a, s')"
  shows "mem_wf E s'"
proof -
  note pad = pad_size_bounds [OF sz]
  show ?thesis
  proof (cases "ms_block_base s = 0 \<or> ms_block_base s + page_size < ms_block_base s + ms_block_offset s + pad_size sz")
    case False
    then have "mem_wf E (add_map (new_memmap (ms_block_base s + ms_block_offset s) (pad_size sz) tag (Some perms) flags
        (ms_block_base s) (ms_block_size s) sh pr) (s\<lparr>ms_block_offset := ms_block_offset s + pad_size sz\<rparr>))"
      using place_slot_wf [OF wf] pad by simp
    then show ?thesis using r False by (auto simp: mem_map_small_def Let_def)
  next
    case True
    then obtain b n e where v: "get_valid_ranges E page_size None s = Inr (b, n)"
      and m: "eng_map E b n PERM_MEM_RWX (ms_eng s) = Inr e"
      and s': "s' = add_map (new_memmap b (pad_size sz) tag (Some perms) flags b n sh pr)
         (s\<lparr>ms_block_base := b, ms_block_size := n, ms_eng := e, ms_block_offset := pad_size sz\<rparr>)"
      using r by (auto simp: mem_map_small_def Let_def split: sum.splits prod.splits)
    define t where "t = s\<lparr>ms_block_base := b, ms_block_size := n, ms_eng := e, ms_block_offset := 0\<rparr>"
    have t: "mem_wf E t" using new_block_wf [OF wf v m] by (simp add: t_def)
    have "b \<noteq> 0" using search_fresh(7) [OF wf v] by simp
    then have "mem_wf E (add_map (new_memmap (ms_block_base t + ms_block_offset t) (pad_size sz) tag (Some perms) flags
        (ms_block_base t) (ms_block_size t) sh pr) (t\<lparr>ms_block_offset := ms_block_offset t + pad_size sz\<rparr>))"
      using place_slot_wf [OF t] pad by (simp add: t_def)
    then show ?thesis by (simp add: t_def s')
  qed
qed

end

end
