(* ===== verification/Memory_Properties.thy ===== *)
theory Memory_Properties
  imports Memory_Safety
begin

text \<open>
  Runs of memory-manager operations, the page-table engine on which the engine interface is interpreted, and
  the properties of the memory manager.
\<close>

subsection \<open>Runs of operations\<close>

datatype mem_op =
    MapOp int "int option" int "string option" int bool "nat option"
  | FreeOp int
  | ReserveOp int "int option" "int option" "string option" int bool
  | UnreserveOp int
  | MapReserveOp int
  | AllocFromOp int "mem_op list"

definition forget :: "'a result \<times> 's \<Rightarrow> unit result \<times> 's" where
  "forget x = (case x of (Inl e, s) \<Rightarrow> (Inl e, s) | (Inr _, s) \<Rightarrow> (Inr (), s))"

fun mem_exec :: "'e mem_engine \<Rightarrow> mem_op \<Rightarrow> 'e mem_state \<Rightarrow> unit result \<times> 'e mem_state"
  and mem_run :: "'e mem_engine \<Rightarrow> mem_op list \<Rightarrow> 'e mem_state \<Rightarrow> unit result \<times> 'e mem_state" where
  "mem_exec E (MapOp sz a perms tag flags sh pr) s = forget (mem_map E sz a perms tag flags sh pr s)"
| "mem_exec E (FreeOp a) s = mem_free E a s"
| "mem_exec E (ReserveOp sz a perms tag flags sh) s = forget (mem_reserve E sz a perms tag flags sh s)"
| "mem_exec E (UnreserveOp a) s = (Inr (), mem_unreserve a s)"
| "mem_exec E (MapReserveOp a) s = forget (mem_map_reserve E a s)"
| "mem_exec E (AllocFromOp b ops) s = allocations_from b (mem_run E ops) s"
| "mem_run E [] s = (Inr (), s)"
| "mem_run E (op # ops) s =
     (case mem_exec E op s of (Inl e, s') \<Rightarrow> (Inl e, s') | (Inr _, s') \<Rightarrow> mem_run E ops s')"

text \<open>What the callers of the manager respect: sizes are not negative, explicit reservations start on a page, and
  a search base is not in the first page.\<close>

fun valid_op :: "mem_op \<Rightarrow> bool" and valid_ops :: "mem_op list \<Rightarrow> bool" where
  "valid_op (MapOp sz a perms tag flags sh pr) = (0 \<le> sz)"
| "valid_op (ReserveOp sz a perms tag flags sh) =
     (0 \<le> sz \<and> (case a of None \<Rightarrow> True | Some b \<Rightarrow> page_aligned b))"
| "valid_op (AllocFromOp b ops) = (page_size \<le> b \<and> valid_ops ops)"
| "valid_op (FreeOp a) = True"
| "valid_op (UnreserveOp a) = True"
| "valid_op (MapReserveOp a) = True"
| "valid_ops [] = True"
| "valid_ops (op # ops) = (valid_op op \<and> valid_ops ops)"

definition mem_inv :: "'e mem_engine \<Rightarrow> 'e mem_state \<Rightarrow> bool" where
  "mem_inv E s \<longleftrightarrow> mem_wf E s \<and> (\<forall>r\<in>set (ms_reserves s). 0 \<le> mm_size r)"

lemma mem_map_reserves: "mem_map E sz a perms tag flags sh pr s = (r, s') \<Longrightarrow> ms_reserves s' = ms_reserves s"
  by (auto simp: mem_map_def mem_map_small_def mem_map_large_def Let_def split: if_splits sum.splits prod.splits)

lemma mem_free_reserves: "mem_free E a s = (r, s') \<Longrightarrow> ms_reserves s' = ms_reserves s"
  by (auto simp: mem_free_def Let_def split: if_splits sum.splits option.splits)

lemma mem_map_reserve_reserves:
  "mem_map_reserve E a s = (r, s') \<Longrightarrow> set (ms_reserves s') \<subseteq> set (ms_reserves s)"
  using set_remove_first_subset
  by (fastforce simp: mem_map_reserve_def Let_def dest: mem_map_reserves split: option.splits prod.splits sum.splits)

lemma mem_reserve_reserves:
  assumes "mem_reserve E sz a perms tag flags sh s = (Inr b, s')" "0 \<le> sz"
    and "\<forall>r\<in>set (ms_reserves s). 0 \<le> mm_size r"
  shows "\<forall>r\<in>set (ms_reserves s'). 0 \<le> mm_size r"
proof (cases a)
  case None
  then obtain x n where g: "get_valid_ranges E sz None s = Inr (x, n)"
    using assms(1) by (auto simp: mem_reserve_def Let_def split: sum.splits prod.splits)
  have "0 \<le> n" using get_valid_ranges_Inr [OF g] round_total_bounds(1) [of sz] assms(2) by simp
  then show ?thesis using assms None g by (auto simp: mem_reserve_def Let_def)
qed (use assms in \<open>auto simp: mem_reserve_def Let_def\<close>)

lemma forget_Inr: "forget x = (Inr u, s) \<longleftrightarrow> (\<exists>v. x = (Inr v, s))"
  by (auto simp: forget_def split: prod.splits sum.splits)

lemma allocations_from_Inr:
  "allocations_from b body s = (r, s') \<longleftrightarrow>
     (\<exists>s2. body (s\<lparr>ms_alloc_base := b, ms_block_base := 0, ms_block_offset := 0\<rparr>) = (r, s2) \<and>
       s' = s2\<lparr>ms_alloc_base := ms_alloc_base s, ms_block_base := 0, ms_block_offset := 0\<rparr>)"
  by (auto simp: allocations_from_def Let_def split: prod.splits)

context mem_engine_laws
begin

lemma mem_run_inv:
  "valid_op op \<Longrightarrow> mem_inv E s \<Longrightarrow> mem_exec E op s = (Inr u, s') \<Longrightarrow> mem_inv E s'"
  "valid_ops ops \<Longrightarrow> mem_inv E s \<Longrightarrow> mem_run E ops s = (Inr u, s') \<Longrightarrow> mem_inv E s'"
proof (induction op and ops arbitrary: s s' u and s s' u rule: valid_op_valid_ops.induct)
  case (1 sz a perms tag flags sh pr)
  then obtain b where m: "mem_map E sz a perms tag flags sh pr s = (Inr b, s')" by (auto simp: forget_Inr)
  then show ?case
    using 1 mem_map_wf [OF _ _ m] mem_map_reserves [OF m] by (simp add: mem_inv_def)
next
  case (2 sz a perms tag flags sh)
  then obtain b where m: "mem_reserve E sz a perms tag flags sh s = (Inr b, s')" by (auto simp: forget_Inr)
  have "mem_wf E s'"
    by (rule mem_reserve_wf [OF _ _ m]) (use 2 in \<open>auto simp: mem_inv_def\<close>)
  then show ?case
    using 2 mem_reserve_reserves [OF m] by (simp add: mem_inv_def)
next
  case (3 b ops)
  then obtain s2 where r: "mem_run E ops (s\<lparr>ms_alloc_base := b, ms_block_base := 0, ms_block_offset := 0\<rparr>) = (Inr u, s2)"
    and s': "s' = s2\<lparr>ms_alloc_base := ms_alloc_base s, ms_block_base := 0, ms_block_offset := 0\<rparr>"
    by (auto simp: allocations_from_Inr)
  have "mem_inv E (s\<lparr>ms_alloc_base := b, ms_block_base := 0, ms_block_offset := 0\<rparr>)"
    using "3.prems"(1,2) mem_wf_alloc_base [of E s b] by (simp add: mem_inv_def)
  then have "mem_inv E s2" using "3.IH" [OF _ _ r] "3.prems"(1) by simp
  moreover have "page_size \<le> ms_alloc_base s" using "3.prems"(2) mem_wfD(7) [of E s] by (simp add: mem_inv_def)
  ultimately show ?case using mem_wf_alloc_base [of E s2] by (simp add: mem_inv_def s')
next
  case (4 a)
  then have m: "mem_free E a s = (Inr (), s')" by simp
  then show ?case
    using 4 mem_free_wf [OF _ m] mem_free_reserves [OF m] by (simp add: mem_inv_def)
next
  case (5 a)
  then show ?case
    using mem_unreserve_wf by (auto simp: mem_inv_def mem_unreserve_def)
next
  case (6 a)
  then obtain x where m: "mem_map_reserve E a s = (Inr x, s')" by (auto simp: forget_Inr)
  then show ?case
    using 6 mem_map_reserve_wf [OF _ _ m] mem_map_reserve_reserves [OF m] by (auto simp: mem_inv_def)
next
  case (8 op ops)
  from "8.prems"(3) obtain s1 where e: "mem_exec E op s = (Inr (), s1)" and r: "mem_run E ops s1 = (Inr u, s')"
    by (auto split: prod.splits sum.splits)
  have "mem_inv E s1" using "8.IH"(1) [OF _ "8.prems"(2) e] "8.prems"(1) by simp
  then show ?case using "8.IH"(2) [OF _ _ r] "8.prems"(1) by simp
qed simp

lemma init_inv: "mem_inv E (init_mem e keep limit)"
  by (simp add: mem_inv_def mem_wf_def init_mem_def cur_ok_def ALLOCATION_GRANULARITY_def page_size_def)

end

subsection \<open>A page-table engine\<close>

text \<open>
  The engine interface on a table of mapped page numbers with their protections, which behaves as
  the documentation of Unicorn says: ranges are whole pages, a page is mapped at most once, and only mapped
  pages are unmapped.
\<close>

type_synonym page_table = "(int \<times> int) list"

definition page_numbers :: "int \<Rightarrow> int \<Rightarrow> int list" where
  "page_numbers b n = py_range (b div page_size) ((b + n) div page_size) 1"

definition pt_map :: "int \<Rightarrow> int \<Rightarrow> int \<Rightarrow> page_table \<Rightarrow> page_table result" where
  "pt_map b n perms e =
     (if b mod page_size = 0 \<and> n mod page_size = 0 \<and> 0 < n \<and>
         list_all (\<lambda>k. k \<notin> fst ` set e) (page_numbers b n)
      then Inr (map (\<lambda>k. (k, perms)) (page_numbers b n) @ e) else Inl UcError)"

definition pt_unmap :: "int \<Rightarrow> int \<Rightarrow> page_table \<Rightarrow> page_table result" where
  "pt_unmap b n e =
     (if b mod page_size = 0 \<and> n mod page_size = 0 \<and> 0 < n \<and>
         list_all (\<lambda>k. k \<in> fst ` set e) (page_numbers b n)
      then Inr (filter (\<lambda>(k, p). k \<notin> set (page_numbers b n)) e) else Inl UcError)"

definition pt_regions :: "page_table \<Rightarrow> (int \<times> int \<times> int) list" where
  "pt_regions e = map (\<lambda>(k, p). (k * page_size, k * page_size + page_size - 1, p)) e"

definition page_engine :: "page_table mem_engine" where
  "page_engine = \<lparr>eng_map = pt_map, eng_unmap = pt_unmap, eng_regions = pt_regions\<rparr>"

lemma pt_cov: "x \<in> eng_cov page_engine e \<longleftrightarrow> x div page_size \<in> fst ` set e"
proof -
  have "k * page_size \<le> x \<and> x \<le> k * page_size + page_size - 1 \<longleftrightarrow> x div page_size = k" for k
    unfolding page_size_def by auto
  then have "(\<exists>kp\<in>set e. fst kp * page_size \<le> x \<and> x \<le> fst kp * page_size + page_size - 1) \<longleftrightarrow>
      x div page_size \<in> fst ` set e"
    by (auto simp: image_iff)
  moreover have "x \<in> eng_cov page_engine e \<longleftrightarrow>
      (\<exists>kp\<in>set e. fst kp * page_size \<le> x \<and> x \<le> fst kp * page_size + page_size - 1)"
    by (auto simp: eng_cov_def page_engine_def pt_regions_def split: prod.splits) force+
  ultimately show ?thesis by simp
qed

lemma page_numbers_iff:
  assumes "b mod page_size = 0" "n mod page_size = 0"
  shows "x div page_size \<in> set (page_numbers b n) \<longleftrightarrow> x \<in> {b..<b + n}"
proof -
  obtain q r where q: "b = 4096 * q" "n = 4096 * r"
    using assms by (auto simp: page_size_def mod_eq_0_iff_dvd elim!: dvdE)
  have "(4096 * q + 4096 * r) div 4096 = q + r" by simp
  moreover have "y \<le> x div 4096 \<longleftrightarrow> 4096 * y \<le> x" for y by auto
  then have "q \<le> x div 4096 \<longleftrightarrow> 4096 * q \<le> x" "x div 4096 < q + r \<longleftrightarrow> x < 4096 * q + 4096 * r"
    by (simp, metis distrib_left linorder_not_le)
  ultimately show ?thesis
    by (simp add: page_numbers_def page_size_def set_py_range q)
qed

interpretation pt: mem_engine_laws page_engine
proof unfold_locales
  fix lo hi p and e :: page_table
  assume "(lo, hi, p) \<in> set (eng_regions page_engine e)"
  then show "page_aligned lo \<and> page_aligned (hi + 1)"
    by (auto simp: page_engine_def pt_regions_def page_aligned_def)
next
  fix b n perms and e e' :: page_table
  assume "eng_map page_engine b n perms e = Inr e'"
  then have "e' = map (\<lambda>k. (k, perms)) (page_numbers b n) @ e" "b mod page_size = 0" "n mod page_size = 0"
    by (auto simp: page_engine_def pt_map_def split: if_splits)
  then show "eng_cov page_engine e' = eng_cov page_engine e \<union> {b..<b + n}"
    using page_numbers_iff [of b n] by (auto simp: set_eq_iff pt_cov image_Un image_image)
next
  fix b n and e e' :: page_table
  assume "eng_unmap page_engine b n e = Inr e'"
  then have "e' = filter (\<lambda>(k, p). k \<notin> set (page_numbers b n)) e" "b mod page_size = 0" "n mod page_size = 0"
    by (auto simp: page_engine_def pt_unmap_def split: if_splits)
  then show "eng_cov page_engine e' = eng_cov page_engine e - {b..<b + n}"
    using page_numbers_iff [of b n] by (force simp: set_eq_iff pt_cov)
next
  fix b n perms x and e :: page_table
  show "eng_map page_engine b n perms e = Inl x \<Longrightarrow> x = UcError"
    by (auto simp: page_engine_def pt_map_def split: if_splits)
qed

subsection \<open>The properties\<close>

text \<open>The addresses that are mapped in the engine or reserved.\<close>

definition taken :: "'e mem_engine \<Rightarrow> 'e mem_state \<Rightarrow> int set" where
  "taken E s = eng_cov E (ms_eng s) \<union> (\<Union>r\<in>set (ms_reserves s). map_range r)"

lemma occupied_taken: "p \<in> set (occupied E s) \<Longrightarrow> p \<in> taken E s"
  by (fastforce simp: occupied_def region_pages_def reserve_pages_def taken_def eng_cov_def map_range_def set_py_range)

lemma aligned_in_page: "page_aligned b \<Longrightarrow> page_aligned c \<Longrightarrow> c \<le> b \<Longrightarrow> b < c + page_size \<Longrightarrow> b = c"
proof -
  assume *: "page_aligned b" "page_aligned c" "c \<le> b" "b < c + page_size"
  then have "page_size dvd b - c" by (simp add: page_aligned_def dvd_eq_mod_eq_0 mod_diff_eq [of b page_size c, symmetric])
  moreover have "0 \<le> b - c" "b - c < page_size" using *(3,4) by simp_all
  ultimately have "b - c = 0" using zdvd_not_zless [of "b - c" page_size] by linarith
  then show ?thesis by simp
qed

text \<open>C2: \<open>get_valid_ranges\<close> returns the lowest page-aligned range at or after the page of the search address that
  has the rounded-up size and touches no mapped and no reserved byte. The docstring promises a range at or after the
  address itself: the range lies before the address exactly if the address is not page-aligned and the range that starts
  with its page is free.\<close>

theorem get_valid_ranges_first_fit:
  assumes "mem_engine_laws E" and "\<forall>r\<in>set (ms_reserves s). page_aligned (mm_base r)"
    and "get_valid_ranges E sz a s = Inr (b, n)"
  shows "page_aligned b \<and> page_aligned n \<and> sz \<le> n \<and> search_base s a - search_base s a mod page_size \<le> b \<and>
    {b..<b + n} \<inter> taken E s = {} \<and>
    (\<forall>c. page_aligned c \<and> search_base s a - search_base s a mod page_size \<le> c \<and> c < b \<longrightarrow>
       {c..<c + n} \<inter> taken E s \<noteq> {}) \<and>
    (b < search_base s a \<longleftrightarrow> \<not> page_aligned (search_base s a) \<and>
       (let page = search_base s a - search_base s a mod page_size in {page..<page + n} \<inter> taken E s = {}))"
proof -
  have eq: "b = first_fit E sz a s" "n = round_total sz" using get_valid_ranges_Inr [OF assms(3)] by auto
  have occ: "occupied_aligned E s" using mem_engine_laws.occupied_aligned_wf [OF assms(1,2)] .
  have al: "page_aligned b" "page_aligned n" "sz \<le> n"
    using first_fit_aligned [OF occ] by (simp_all add: eq round_total_bounds)
  define page where "page = search_base s a - search_base s a mod page_size"
  have ge: "page \<le> b" by (simp add: page_def eq first_fit_ge)
  have rf: "range_free (occupied E s) n b" using first_fit_free eq by metis
  have free: "{b..<b + n} \<inter> taken E s = {}"
    using mem_engine_laws.free_not_covered [OF assms(1) al(1) rf]
      mem_engine_laws.free_not_reserved [OF assms(1) al(1) rf] assms(2) by (auto simp: taken_def)
  have least: "{c..<c + n} \<inter> taken E s \<noteq> {}" if c: "page_aligned c" "page \<le> c" "c < b" for c
  proof -
    have "\<not> range_free (occupied E s) n c"
      using first_fit_minimal [OF occ, of c a sz] c by (simp add: eq page_def)
    then obtain p where "p \<in> taken E s" "c \<le> p" "p < c + n"
      using occupied_taken by (auto simp: range_free_def)
    then show ?thesis by auto
  qed
  have page: "page_aligned page" "page \<le> search_base s a" "search_base s a < page + page_size"
    "page = search_base s a \<longleftrightarrow> page_aligned (search_base s a)"
    by (simp_all add: page_def page_aligned_def page_size_def)
  have "b < search_base s a \<longleftrightarrow> \<not> page_aligned (search_base s a) \<and> {page..<page + n} \<inter> taken E s = {}"
  proof
    assume before: "b < search_base s a"
    then have "b = page" using aligned_in_page [OF al(1) page(1) ge] page(3) by simp
    then show "\<not> page_aligned (search_base s a) \<and> {page..<page + n} \<inter> taken E s = {}" using free before page(4) by auto
  next
    assume *: "\<not> page_aligned (search_base s a) \<and> {page..<page + n} \<inter> taken E s = {}"
    then have "\<not> page < b" using least [OF page(1) order.refl] by blast
    then show "b < search_base s a" using ge page(2,4) * by simp
  qed
  then show ?thesis using al ge free least by (auto simp: page_def [symmetric])
qed

text \<open>C1: in every run of allocations, frees and reservations from the initial state, two allocations never overlap,
  and the memory of each allocation is mapped in the engine.\<close>

theorem allocations_disjoint:
  assumes "mem_engine_laws E" and "valid_ops ops"
    and "mem_run E ops (init_mem e keep limit) = (Inr (), s)"
    and "i < j" "j < length (ms_maps s)"
  shows "map_range (ms_maps s ! i) \<inter> map_range (ms_maps s ! j) = {} \<and>
    map_range (ms_maps s ! i) \<noteq> {} \<and> map_range (ms_maps s ! i) \<subseteq> eng_cov E (ms_eng s)"
proof -
  have "mem_inv E s"
    using mem_engine_laws.mem_run_inv(2) [OF assms(1,2) mem_engine_laws.init_inv [OF assms(1)] assms(3)] .
  then have wf: "mem_wf E s" by (simp add: mem_inv_def)
  have i: "ms_maps s ! i \<in> set (ms_maps s)" using assms(4,5) by simp
  have "map_range (ms_maps s ! i) \<inter> map_range (ms_maps s ! j) = {}"
    using mem_wfD(2) [OF wf] assms(4,5) by (simp add: sorted_wrt_iff_nth_less)
  then show ?thesis
    using mem_wfD(1) [OF wf i] by (auto simp: map_ok_def map_range_def)
qed

text \<open>C7: after a successful allocation of any size, a lookup of each address of the returned allocation finds that
  allocation, which has the requested protection and at least the requested size and is not free; the addresses were
  in no allocation before.\<close>

theorem mem_map_lookup:
  assumes "mem_engine_laws E" and "mem_wf E s" and "0 \<le> sz"
    and "mem_map E sz a perms tag flags sh pr s = (Inr base, s')"
    and "base \<le> x" "x < base + sz"
  shows "get_address_map s x = None \<and>
    (\<exists>m. get_address_map s' x = Some m \<and> mm_base m = base \<and> sz \<le> mm_size m \<and> mm_prot m = Some perms \<and>
       \<not> mm_free m \<and> ms_maps s' = ms_maps s @ [m])"
proof -
  have wf': "mem_wf E s'" using mem_engine_laws.mem_map_wf assms(1-4) by blast
  obtain m where m: "ms_maps s' = ms_maps s @ [m]" "mm_base m = base" "sz \<le> mm_size m"
    "mm_prot m = Some perms" "\<not> mm_free m"
  proof (cases "a = None \<and> sz < page_size \<and> sz mod page_size \<noteq> 0")
    case True
    then have "mem_map_small E sz perms tag flags sh (map_process tag pr s) s = (Inr base, s')"
      using assms(4) by (simp add: mem_map_def Let_def)
    moreover have "sz \<le> pad_size sz" using pad_size_bounds(3) True assms(3) by fastforce
    ultimately show thesis
      by (auto simp: mem_map_small_def Let_def intro: that split: if_splits sum.splits prod.splits)
  next
    case False
    then have "mem_map_large E sz a perms tag flags sh (map_process tag pr s) s = (Inr base, s')"
      using assms(4) by (auto simp: mem_map_def Let_def)
    then obtain b n e bs where v: "get_valid_ranges E sz a s = Inr (b, n)"
      and s': "s' = add_map (new_memmap b n tag (Some perms) flags b bs sh (map_process tag pr s)) (s\<lparr>ms_eng := e\<rparr>)"
      and b: "base = b"
      by (auto simp: mem_map_large_def Let_def split: sum.splits prod.splits)
    have "sz \<le> n" using get_valid_ranges_Inr [OF v] round_total_bounds(1) by simp
    then show thesis
      using that [of "new_memmap b n tag (Some perms) flags b bs sh (map_process tag pr s)"] by (simp add: s' b)
  qed
  have x: "map_contains m x" using assms(5,6) m by (simp add: map_contains_def)
  have none: "\<not> map_contains y x" if "y \<in> set (ms_maps s)" for y
  proof -
    have "map_range y \<inter> map_range m = {}"
      using mem_wfD(2) [OF wf'] that by (simp add: m(1) sorted_wrt_append)
    then show ?thesis using x by (auto simp: map_range_def map_contains_def)
  qed
  then have "find (\<lambda>z. map_contains z x) (ms_maps s) = None" by (simp add: find_None_iff_all)
  moreover have "find (\<lambda>z. map_contains z x) (ms_maps s @ [m]) = Some m"
    using none x m(1) by (intro find_eq_SomeI) auto
  ultimately show ?thesis using m by (simp add: get_address_map_def)
qed

text \<open>C10: freeing an allocation of a well formed state marks it; when it was the last used allocation of its block
  and the config does not keep freed memory, exactly the allocations of that block disappear and exactly the bytes of the block are unmapped.\<close>

theorem mem_free_last_of_block:
  assumes "mem_engine_laws E" and "mem_wf E s" and "get_address_map s a = Some mm"
    and "mem_free E a s = (Inr (), s')"
  shows "(if \<not> ms_keep_on_free s \<and> list_all mm_free (block_maps mm (mark_free a (ms_maps s)))
     then ms_maps s' = filter (\<lambda>m. mm_block_base m \<noteq> mm_block_base mm) (mark_free a (ms_maps s)) \<and>
       eng_cov E (ms_eng s') = eng_cov E (ms_eng s) - block_range mm \<and> get_address_map s' a = None
     else ms_maps s' = mark_free a (ms_maps s) \<and> ms_eng s' = ms_eng s)"
proof (cases "ms_keep_on_free s \<or> \<not> list_all mm_free (block_maps mm (mark_free a (ms_maps s)))")
  case True
  then show ?thesis using assms(3,4) by (auto simp: mem_free_eq [OF assms(2)] marked_def)
next
  case False
  then obtain e where u: "eng_unmap E (mm_block_base mm) (mm_block_size mm) (ms_eng s) = Inr e"
    and s': "s' = (marked a s)\<lparr>ms_block_base := 0, ms_eng := e,
      ms_maps := filter (\<lambda>m. mm_block_base m \<noteq> mm_block_base mm) (mark_free a (ms_maps s))\<rparr>"
    using assms(3,4) by (auto simp: mem_free_eq [OF assms(2)] split: sum.splits)
  have wf': "mem_wf E s'" using mem_engine_laws.mem_free_wf assms(1,2,4) by blast
  have cov: "eng_cov E (ms_eng s') = eng_cov E (ms_eng s) - block_range mm"
    using mem_engine_laws.unmap_cov [OF assms(1) u] by (simp add: s' block_range_def)
  have "a \<in> map_range mm" "map_range mm \<subseteq> block_range mm"
    using get_address_map_in [OF assms(3)] mem_wfD(1) [OF assms(2)]
    by (auto simp: map_range_def map_contains_def map_ok_def)
  then have "a \<notin> eng_cov E (ms_eng s')" using cov by blast
  then have "\<not> map_contains m a" if "m \<in> set (ms_maps s')" for m
    using mem_wfD(1) [OF wf' that] by (auto simp: map_ok_def map_range_def map_contains_def)
  then have "get_address_map s' a = None" by (simp add: get_address_map_def find_None_iff_all)
  then show ?thesis using False cov by (simp add: s')
qed

text \<open>an allocation that runs out of address space leaves the manager as it was.\<close>

theorem mem_map_out_of_memory:
  assumes "mem_engine_laws E" and "mem_map E sz a perms tag flags sh pr s = (Inl OutOfMemoryError, s')"
  shows "s' = s"
proof -
  have e: "eng_map E b n p x \<noteq> Inl OutOfMemoryError" for b n p x
    using mem_engine_laws.map_error [OF assms(1)] by blast
  have small: "s' = s" if A: "mem_map_small E sz perms tag flags sh q s = (Inl OutOfMemoryError, s')" for q
  proof (cases "get_valid_ranges E page_size None s")
    case (Inl x)
    then show ?thesis using A by (simp add: mem_map_small_def Let_def split: if_splits)
  next
    case (Inr bn)
    then show ?thesis
      using A e [of "fst bn" "snd bn" PERM_MEM_RWX "ms_eng s"]
      by (cases bn; cases "eng_map E (fst bn) (snd bn) PERM_MEM_RWX (ms_eng s)")
        (simp_all add: mem_map_small_def Let_def split: if_splits)
  qed
  have large: "s' = s" if A: "mem_map_large E sz a perms tag flags sh q s = (Inl OutOfMemoryError, s')" for q
  proof (cases "get_valid_ranges E sz a s")
    case (Inl x)
    then show ?thesis using A by (simp add: mem_map_large_def Let_def)
  next
    case (Inr bn)
    then show ?thesis
      using A e [of "fst bn" "snd bn" perms "ms_eng s"]
      by (cases bn; cases "eng_map E (fst bn) (snd bn) perms (ms_eng s)") (simp_all add: mem_map_large_def Let_def)
  qed
  show ?thesis using assms(2) small large by (simp add: mem_map_def Let_def split: if_splits)
qed

subsection \<open>Witnesses\<close>

lemmas mem_eval = mem_map_def mem_map_small_def mem_map_large_def get_valid_ranges_def map_process_def page_size_def
  occupied_def region_pages_def reserve_pages_def page_engine_def pt_map_def pt_unmap_def pt_regions_def
  page_numbers_def round_total_def pad_size_def add_map_def hook_mem_map_dispatch_def hook_fires_def new_memmap_def
  clean_tag_def init_mem_def mem_free_def get_address_map_def map_contains_def ALLOCATION_GRANULARITY_def
  PERM_MEM_RWX_def forget_def mem_reserve_def mem_unreserve_def mem_map_reserve_def remove_maps_def memmap_eq_def
  py_range_Cons Let_def

definition mem0 :: "page_table mem_state" where
  "mem0 = init_mem [] False (Some 0x7FFF0000)"

definition mem1 :: "page_table mem_state" where
  "mem1 = snd (mem_run page_engine [MapOp 24 None 22 None 0 False None] mem0)"

lemma mem1_wf: "mem_wf page_engine mem1"
proof -
  have "mem_run page_engine [MapOp 24 None 22 None 0 False None] mem0 = (Inr (), mem1)"
    by (simp add: mem1_def mem0_def mem_eval)
  from pt.mem_run_inv(2) [OF _ _ this] show ?thesis
    using pt.init_inv by (simp add: mem0_def mem_inv_def)
qed

lemma mem_inv_mem0: "mem_inv page_engine mem0"
  unfolding mem0_def by (rule pt.init_inv)

text \<open>
  The search skips the block page of the first small allocation. A search from \<open>0x20010\<close>, in a free page, returns the
  page before this address.
\<close>

theorem get_valid_ranges_first_fit_witness:
  "{0x11000..<0x13000} \<inter> taken page_engine mem1 = {} \<and>
   get_valid_ranges page_engine 6000 (Some 0x20010) mem1 = Inr (0x20000, 0x2000) \<and> \<not> page_aligned 0x20010"
proof -
  have r: "\<forall>r\<in>set (ms_reserves mem1). page_aligned (mm_base r)"
    and g: "get_valid_ranges page_engine 6000 None mem1 = Inr (0x11000, 0x2000)"
    and h: "get_valid_ranges page_engine 6000 (Some 0x20010) mem1 = Inr (0x20000, 0x2000)"
    by (simp_all add: mem1_def mem0_def mem_eval)
  note before = get_valid_ranges_first_fit [OF pt.mem_engine_laws_axioms r h]
  have "search_base mem1 (Some 0x20010) = 0x20010" by (simp add: search_base_def)
  then have "\<not> page_aligned 0x20010" using before by simp
  with get_valid_ranges_first_fit [OF pt.mem_engine_laws_axioms r g] h show ?thesis by simp
qed

theorem allocations_disjoint_witness:
  "\<exists>s :: page_table mem_state. length (ms_maps s) = 2 \<and> map_range (ms_maps s ! 0) \<inter> map_range (ms_maps s ! 1) = {}"
proof -
  let ?ops = "[MapOp 24 None 22 None 0 False None, MapOp 100 None 22 None 0 False None,
    MapOp 6000 (Some 0x10000) 6 None 0 False None, FreeOp 0x11000]"
  obtain s where s: "mem_run page_engine ?ops (init_mem [] False (Some 0x7FFF0000)) = (Inr (), s)"
    "length (ms_maps s) = 2"
    by (simp add: mem_eval)
  have "valid_ops ?ops" "(0::nat) < 1" "1 < length (ms_maps s)" using s(2) by simp_all
  from allocations_disjoint [OF pt.mem_engine_laws_axioms this(1) s(1) this(2,3)] show ?thesis
    using s(2) by (intro exI [of _ s]) auto
qed

theorem mem_map_lookup_witness:
  "\<exists>m. get_address_map (snd (mem_map page_engine 100 None 22 None 0 False None mem1)) 0x10030 = Some m \<and>
     mm_prot m = Some 22"
proof -
  have m: "mem_map page_engine 100 None 22 None 0 False None mem1 =
      (Inr 0x10020, snd (mem_map page_engine 100 None 22 None 0 False None mem1))"
    by (simp add: mem1_def mem0_def mem_eval)
  from mem_map_lookup [OF pt.mem_engine_laws_axioms mem1_wf _ m, of "0x10030"] show ?thesis by auto
qed

theorem mem_free_last_of_block_witness:
  "ms_maps (snd (mem_free page_engine 0x10008 mem1)) = []"
proof -
  have g: "get_address_map mem1 0x10008 = Some (new_memmap 0x10000 32 None (Some 22) 0 0x10000 0x1000 False None)"
    and f: "mem_free page_engine 0x10008 mem1 = (Inr (), snd (mem_free page_engine 0x10008 mem1))"
    and m: "ms_maps mem1 = [new_memmap 0x10000 32 None (Some 22) 0 0x10000 0x1000 False None]"
    and k: "\<not> ms_keep_on_free mem1"
    by (simp_all add: mem1_def mem0_def mem_eval)
  from mem_free_last_of_block [OF pt.mem_engine_laws_axioms mem1_wf g f] show ?thesis
    using k by (simp add: m block_maps_def new_memmap_def map_contains_def)
qed

theorem mem_map_out_of_memory_witness:
  "snd (mem_map page_engine 0x7FFF0000 None 22 None 0 False None mem1) = mem1"
proof -
  have "mem_map page_engine 0x7FFF0000 None 22 None 0 False None mem1 =
      (Inl OutOfMemoryError, snd (mem_map page_engine 0x7FFF0000 None 22 None 0 False None mem1))"
    by (simp add: mem1_def mem0_def mem_eval)
  from mem_map_out_of_memory [OF pt.mem_engine_laws_axioms this] show ?thesis .
qed

end
