(* ===== verification/Handles.thy ===== *)
theory Handles
  imports Prelude
begin

text \<open>
  The handle tables of \<^verbatim>\<open>speakeasy/windows/handles.py\<close> and the handle allocator of
  \<^verbatim>\<open>speakeasy/windows/objman.py\<close>. One allocator serves every table of the emulator (each process, the
  USER objects, the crypto objects and the sockets have tables of their own). The three callables a
  table holds (the reference count increment of \<open>new_handle\<close>, \<open>release\<close> and \<open>pseudo\<close>) are the fields of
  \<open>handle_callbacks\<close> on a state \<open>'w\<close> of the objects. The locale \<open>handle_store\<close> is the contract that the
  users of handles rely on; \<open>Kernel_Objects\<close>, \<open>Crypto_Manager\<close> and \<open>Session_Manager\<close> build on it.
\<close>

subsection \<open>The allocator\<close>

record allocator =
  al_handle :: int
  al_kernel_object_id :: int
  al_closed_handles :: "int list"

definition REUSE_CLOSED_HANDLES :: bool where "REUSE_CLOSED_HANDLES = False"

definition init_allocator :: allocator where
  "init_allocator = \<lparr>al_handle = 0x80, al_kernel_object_id = 0x400, al_closed_handles = []\<rparr>"

definition allocate_handle :: "allocator \<Rightarrow> int \<times> allocator" where
  "allocate_handle a =
     (if al_closed_handles a \<noteq> []
      then (last (al_closed_handles a), a\<lparr>al_closed_handles := butlast (al_closed_handles a)\<rparr>)
      else (al_handle a, a\<lparr>al_handle := al_handle a + 4\<rparr>))"

definition free_handle :: "int \<Rightarrow> allocator \<Rightarrow> allocator" where
  "free_handle handle a =
     (if REUSE_CLOSED_HANDLES then a\<lparr>al_closed_handles := al_closed_handles a @ [handle]\<rparr> else a)"

definition allocate_kernel_object_id :: "allocator \<Rightarrow> int \<times> allocator" where
  "allocate_kernel_object_id a =
     (al_kernel_object_id a, a\<lparr>al_kernel_object_id := al_kernel_object_id a + 4\<rparr>)"

subsection \<open>One table\<close>

definition HANDLE_MASK :: int where "HANDLE_MASK = 0xFFFFFFFF"
definition CURRENT_PROCESS_HANDLE :: int where "CURRENT_PROCESS_HANDLE = 0xFFFFFFFF"
definition CURRENT_THREAD_HANDLE :: int where "CURRENT_THREAD_HANDLE = 0xFFFFFFFE"

type_synonym 'o handle_table = "int \<rightharpoonup> 'o"

record ('o, 'w) handle_callbacks =
  hc_retain :: "'o \<Rightarrow> 'w \<Rightarrow> 'w"
  hc_release :: "'o \<Rightarrow> 'w \<Rightarrow> 'w"
  hc_pseudo :: "int \<Rightarrow> 'w \<Rightarrow> 'o option"

text \<open>A table of objects without \<open>ref_cnt\<close>, made with \<open>release=lambda obj: None\<close> and no \<open>pseudo\<close>.\<close>

definition plain_callbacks :: "('o, 'w) handle_callbacks" where
  "plain_callbacks = \<lparr>hc_retain = (\<lambda>_ w. w), hc_release = (\<lambda>_ w. w), hc_pseudo = (\<lambda>_ _. None)\<rparr>"

definition new_handle ::
  "('o, 'w) handle_callbacks \<Rightarrow> 'o \<Rightarrow> allocator \<times> 'o handle_table \<times> 'w
    \<Rightarrow> int \<times> allocator \<times> 'o handle_table \<times> 'w" where
  "new_handle cb obj = (\<lambda>(al, objects, w).
     let (handle, al') = allocate_handle al
     in (handle, al', objects(handle \<mapsto> obj), hc_retain cb obj w))"

text \<open>\<open>get\<close>: \<open>types\<close> is the \<open>isinstance\<close> test, always true when the caller gives no type.\<close>

definition ht_get ::
  "('o, 'w) handle_callbacks \<Rightarrow> ('o \<Rightarrow> bool) \<Rightarrow> int \<Rightarrow> 'o handle_table \<Rightarrow> 'w \<Rightarrow> 'o option" where
  "ht_get cb types handle objects w =
     (case (case hc_pseudo cb handle w of Some obj \<Rightarrow> Some obj | None \<Rightarrow> objects (handle AND HANDLE_MASK)) of
        None \<Rightarrow> None
      | Some obj \<Rightarrow> (if types obj then Some obj else None))"

definition ht_close ::
  "('o, 'w) handle_callbacks \<Rightarrow> int \<Rightarrow> allocator \<times> 'o handle_table \<times> 'w
    \<Rightarrow> bool \<times> allocator \<times> 'o handle_table \<times> 'w" where
  "ht_close cb handle = (\<lambda>(al, objects, w).
     if hc_pseudo cb handle w \<noteq> None then (True, al, objects, w)
     else (case objects (handle AND HANDLE_MASK) of
             None \<Rightarrow> (False, al, objects, w)
           | Some obj \<Rightarrow>
               (True, free_handle (handle AND HANDLE_MASK) al, objects(handle AND HANDLE_MASK := None),
                hc_release cb obj w)))"

definition ht_contains :: "int \<Rightarrow> 'o handle_table \<Rightarrow> bool" where
  "ht_contains handle objects \<longleftrightarrow> objects (handle AND HANDLE_MASK) \<noteq> None"

subsection \<open>The tables of the emulator\<close>

record ('o, 'w) handle_world =
  hw_alloc :: allocator
  hw_tables :: "nat \<Rightarrow> 'o handle_table"
  hw_world :: 'w

definition init_handles :: "'w \<Rightarrow> ('o, 'w) handle_world" where
  "init_handles w = \<lparr>hw_alloc = init_allocator, hw_tables = (\<lambda>_. Map.empty), hw_world = w\<rparr>"

definition put_table ::
  "nat \<Rightarrow> allocator \<times> 'o handle_table \<times> 'w \<Rightarrow> ('o, 'w) handle_world \<Rightarrow> ('o, 'w) handle_world" where
  "put_table t = (\<lambda>(al, tab, w) s. s\<lparr>hw_alloc := al, hw_tables := (hw_tables s)(t := tab), hw_world := w\<rparr>)"

definition open_in ::
  "('o, 'w) handle_callbacks \<Rightarrow> nat \<Rightarrow> 'o \<Rightarrow> ('o, 'w) handle_world \<Rightarrow> int \<times> ('o, 'w) handle_world" where
  "open_in cb t obj s =
     (let (h, x) = new_handle cb obj (hw_alloc s, hw_tables s t, hw_world s) in (h, put_table t x s))"

definition close_in ::
  "('o, 'w) handle_callbacks \<Rightarrow> nat \<Rightarrow> int \<Rightarrow> ('o, 'w) handle_world \<Rightarrow> bool \<times> ('o, 'w) handle_world" where
  "close_in cb t h s =
     (let (b, x) = ht_close cb h (hw_alloc s, hw_tables s t, hw_world s) in (b, put_table t x s))"

lemma mask_key: "h AND HANDLE_MASK = h mod 2 ^ 32"
proof -
  have "HANDLE_MASK = mask 32" by (simp add: HANDLE_MASK_def mask_eq_exp_minus_1)
  then have "h AND HANDLE_MASK = take_bit 32 h" by (simp only: take_bit_eq_mask)
  then show ?thesis by (simp only: take_bit_eq_mod)
qed

lemma mask_small: "0 \<le> h \<Longrightarrow> h < 2 ^ 32 \<Longrightarrow> h AND HANDLE_MASK = h"
  by (simp add: mask_key)

subsection \<open>The contract of the handle tables\<close>

datatype 'o handle_event = Opened nat int 'o | Closed nat int

text \<open>The reference: the open handles after a history, as a list of table, handle and object.\<close>

fun ledger :: "'o handle_event list \<Rightarrow> (nat \<times> int \<times> 'o) list" where
  "ledger [] = []"
| "ledger (Opened t h x # es) = (t, h, x) # ledger es"
| "ledger (Closed t h # es) = filter (\<lambda>(t', h', _). \<not> (t' = t \<and> h' = h AND HANDLE_MASK)) (ledger es)"

datatype 'o handle_op = OpenOp nat 'o | CloseOp nat int

text \<open>A run of opens and closes returns the history, the newest event first.\<close>

primrec handle_run ::
  "(nat \<Rightarrow> 'o \<Rightarrow> 's \<Rightarrow> int \<times> 's) \<Rightarrow> (nat \<Rightarrow> int \<Rightarrow> 's \<Rightarrow> bool \<times> 's) \<Rightarrow> 'o handle_op list \<Rightarrow> 's
    \<Rightarrow> 'o handle_event list \<Rightarrow> 'o handle_event list \<times> 's" where
  "handle_run open_h close_h [] s es = (es, s)"
| "handle_run open_h close_h (op # ops) s es =
     (case op of
        OpenOp t x \<Rightarrow> (let (h, s') = open_h t x s in handle_run open_h close_h ops s' (Opened t h x # es))
      | CloseOp t h \<Rightarrow> (let (_, s') = close_h t h s in handle_run open_h close_h ops s' (Closed t h # es)))"

locale handle_store =
  fixes inv :: "'s \<Rightarrow> bool"
    and look :: "'s \<Rightarrow> nat \<Rightarrow> int \<Rightarrow> 'o option"
    and open_h :: "nat \<Rightarrow> 'o \<Rightarrow> 's \<Rightarrow> int \<times> 's"
    and close_h :: "nat \<Rightarrow> int \<Rightarrow> 's \<Rightarrow> bool \<times> 's"
    and pseudo :: "int \<Rightarrow> 's \<Rightarrow> bool"
    and issued :: "'s \<Rightarrow> int set"
    and room :: "'s \<Rightarrow> nat"
  assumes open_law: "inv s \<Longrightarrow> 0 < room s \<Longrightarrow> open_h t x s = (h, s') \<Longrightarrow>
      inv s' \<and> room s' = room s - 1 \<and> h \<notin> issued s \<and> issued s' = insert h (issued s) \<and>
      look s' = (look s)(t := (look s t)(h \<mapsto> x))"
    and close_law: "inv s \<Longrightarrow> close_h t h s = (b, s') \<Longrightarrow>
      inv s' \<and> room s' = room s \<and> issued s' = issued s \<and> (b \<longleftrightarrow> pseudo h s \<or> look s t (h AND HANDLE_MASK) \<noteq> None) \<and>
      look s' = (look s)(t := (look s t)(h AND HANDLE_MASK := None))"
    and look_issued: "inv s \<Longrightarrow> look s t h = Some x \<Longrightarrow> h \<in> issued s"
    and look_one_table: "inv s \<Longrightarrow> look s t h = Some x \<Longrightarrow> look s t' h = Some y \<Longrightarrow> t' = t"
begin

definition agrees :: "'s \<Rightarrow> 'o handle_event list \<Rightarrow> bool" where
  "agrees s es \<longleftrightarrow> inv s \<and> (\<forall>t h x. look s t h = Some x \<longleftrightarrow> (t, h, x) \<in> set (ledger es)) \<and>
     distinct [h. Opened t h x \<leftarrow> es] \<and> (\<forall>t h x. Opened t h x \<in> set es \<longrightarrow> h \<in> issued s)"

lemma agrees_open:
  assumes "agrees s es" "0 < room s" "open_h t x s = (h, s')"
  shows "agrees s' (Opened t h x # es)"
proof -
  have l: "inv s'" "h \<notin> issued s" "issued s' = insert h (issued s)" "look s' = (look s)(t := (look s t)(h \<mapsto> x))"
    using open_law [OF _ assms(2,3)] assms(1) by (simp_all add: agrees_def)
  have notin: "(t', h, y) \<notin> set (ledger es)" for t' y
    using assms(1) look_issued [of s t' h y] l(2) by (auto simp: agrees_def)
  have "Opened t' h y \<notin> set es" for t' y
    using assms(1) l(2) unfolding agrees_def by blast
  then have d: "h \<notin> set [h. Opened t h x \<leftarrow> es]"
    by (auto split: handle_event.splits)
  show ?thesis
    using assms(1) l d notin unfolding agrees_def by (auto split: if_splits)
qed

lemma agrees_close:
  assumes "agrees s es" "close_h t h s = (b, s')"
  shows "agrees s' (Closed t h # es)"
  using close_law [OF _ assms(2)] assms(1) unfolding agrees_def by (auto split: if_splits)

lemma room_open: "inv s \<Longrightarrow> 0 < room s \<Longrightarrow> open_h t x s = (h, s') \<Longrightarrow> room s' = room s - 1"
  using open_law by blast

lemma room_close: "inv s \<Longrightarrow> close_h t h s = (b, s') \<Longrightarrow> room s' = room s"
  using close_law by blast

lemma handle_run_agrees:
  "agrees s es \<Longrightarrow> length ops \<le> room s \<Longrightarrow> handle_run open_h close_h ops s es = (es', s') \<Longrightarrow> agrees s' es'"
proof (induction ops arbitrary: s es)
  case (Cons op ops)
  have inv: "inv s" using Cons.prems(1) by (simp add: agrees_def)
  show ?case
  proof (cases op)
    case (OpenOp t x)
    obtain h s1 where o: "open_h t x s = (h, s1)" by fastforce
    have r: "0 < room s" using Cons.prems(2) by simp
    show ?thesis
      by (rule Cons.IH [OF agrees_open [OF Cons.prems(1) r o]])
        (use Cons.prems room_open [OF inv r o] in \<open>simp_all add: OpenOp o\<close>)
  next
    case (CloseOp t h)
    obtain b s1 where c: "close_h t h s = (b, s1)" by fastforce
    show ?thesis
      by (rule Cons.IH [OF agrees_close [OF Cons.prems(1) c]])
        (use Cons.prems room_close [OF inv c] in \<open>simp_all add: CloseOp c\<close>)
  qed
qed simp

end

subsection \<open>The tables keep the contract\<close>

text \<open>All values given out are below the counter; a pseudo handle is no multiple of 4.\<close>

definition handle_issued :: "('o, 'w) handle_world \<Rightarrow> int set" where
  "handle_issued s = {h. 0x80 \<le> h \<and> h < al_handle (hw_alloc s) \<and> h mod 4 = 0}"

definition handle_room :: "('o, 'w) handle_world \<Rightarrow> nat" where
  "handle_room s = nat ((2 ^ 32 - al_handle (hw_alloc s)) div 4)"

definition pseudo_ok :: "('o, 'w) handle_callbacks \<Rightarrow> bool" where
  "pseudo_ok cb \<longleftrightarrow> (\<forall>h w. hc_pseudo cb h w \<noteq> None \<longrightarrow> (h AND HANDLE_MASK) mod 4 \<noteq> 0)"

definition handles_wf :: "('o, 'w) handle_callbacks \<Rightarrow> ('o, 'w) handle_world \<Rightarrow> bool" where
  "handles_wf cb s \<longleftrightarrow> pseudo_ok cb \<and> al_closed_handles (hw_alloc s) = [] \<and>
     0x80 \<le> al_handle (hw_alloc s) \<and> al_handle (hw_alloc s) \<le> 2 ^ 32 \<and> al_handle (hw_alloc s) mod 4 = 0 \<and>
     (\<forall>t h x. hw_tables s t h = Some x \<longrightarrow> h \<in> handle_issued s) \<and>
     (\<forall>t t' h. t \<noteq> t' \<longrightarrow> hw_tables s t h = None \<or> hw_tables s t' h = None)"

text \<open>The objects are not part of the contract.\<close>

lemma handles_wf_world:
  "handles_wf cb (s\<lparr>hw_world := w\<rparr>) = handles_wf cb s" "handle_room (s\<lparr>hw_world := w\<rparr>) = handle_room s"
  by (simp_all add: handles_wf_def handle_issued_def handle_room_def)

lemma plain_pseudo_ok [simp]: "pseudo_ok plain_callbacks"
  by (simp add: pseudo_ok_def plain_callbacks_def)

lemma pseudo_None:
  assumes "pseudo_ok cb" "(h AND HANDLE_MASK) mod 4 = 0"
  shows "hc_pseudo cb h w = None"
proof (rule ccontr)
  assume "hc_pseudo cb h w \<noteq> None"
  from assms(1) [unfolded pseudo_ok_def, rule_format, OF this] assms(2) show False by simp
qed

lemma handles_wfD:
  assumes "handles_wf cb s"
  shows "pseudo_ok cb" "hw_tables s t h = Some x \<Longrightarrow> h \<in> handle_issued s"
    "hw_tables s t h = Some x \<Longrightarrow> hw_tables s t' h = Some y \<Longrightarrow> t' = t"
proof -
  note c = assms [unfolded handles_wf_def]
  show "pseudo_ok cb" using c by (rule conjunct1)
  have A: "\<forall>t h x. hw_tables s t h = Some x \<longrightarrow> h \<in> handle_issued s"
    using c by (elim conjE)
  have B: "\<forall>t t' h. t \<noteq> t' \<longrightarrow> hw_tables s t h = None \<or> hw_tables s t' h = None"
    using c by (elim conjE)
  show "hw_tables s t h = Some x \<Longrightarrow> h \<in> handle_issued s"
    using A [rule_format] .
  show "t' = t" if "hw_tables s t h = Some x" "hw_tables s t' h = Some y"
    using B [rule_format, of t t' h] that by (cases "t = t'") auto
qed

lemma init_handles_wf: "pseudo_ok cb \<Longrightarrow> handles_wf cb (init_handles w)"
  by (simp add: handles_wf_def init_handles_def init_allocator_def)

lemma open_in_eq:
  assumes "handles_wf cb s"
  shows "open_in cb t x s = (al_handle (hw_alloc s),
    s\<lparr>hw_alloc := (hw_alloc s)\<lparr>al_handle := al_handle (hw_alloc s) + 4\<rparr>,
      hw_tables := (hw_tables s)(t := (hw_tables s t)(al_handle (hw_alloc s) \<mapsto> x)),
      hw_world := hc_retain cb x (hw_world s)\<rparr>)"
  using assms by (simp add: open_in_def new_handle_def allocate_handle_def put_table_def handles_wf_def)

lemma close_in_eq:
  "close_in cb t h s =
     (if hc_pseudo cb h (hw_world s) \<noteq> None then (True, s)
      else case hw_tables s t (h AND HANDLE_MASK) of
             None \<Rightarrow> (False, s)
           | Some x \<Rightarrow> (True, s\<lparr>hw_tables := (hw_tables s)(t := (hw_tables s t)(h AND HANDLE_MASK := None)),
                 hw_world := hc_release cb x (hw_world s)\<rparr>))"
  by (cases s) (simp add: close_in_def ht_close_def put_table_def free_handle_def REUSE_CLOSED_HANDLES_def
      split: option.splits)

lemma issued_mod:
  assumes "handles_wf cb s" "h \<in> handle_issued s"
  shows "h AND HANDLE_MASK = h" "hc_pseudo cb h w = None"
proof -
  show m: "h AND HANDLE_MASK = h"
    using assms by (intro mask_small) (auto simp: handles_wf_def handle_issued_def)
  have "h mod 4 = 0" using assms(2) by (simp add: handle_issued_def)
  then have "(h AND HANDLE_MASK) mod 4 = 0" using m by simp
  then show "hc_pseudo cb h w = None"
    using handles_wfD(1) [OF assms(1)] by (rule pseudo_None [rotated])
qed

lemma open_in_law:
  assumes wf: "handles_wf cb s" and r: "0 < handle_room s" and o: "open_in cb t x s = (h, s')"
  shows "handles_wf cb s' \<and> handle_room s' = handle_room s - 1 \<and> h \<notin> handle_issued s \<and>
    handle_issued s' = insert h (handle_issued s) \<and>
    hw_tables s' = (hw_tables s)(t := (hw_tables s t)(h \<mapsto> x))"
proof -
  let ?n = "al_handle (hw_alloc s)"
  have h: "h = ?n" and s': "s' = s\<lparr>hw_alloc := (hw_alloc s)\<lparr>al_handle := ?n + 4\<rparr>,
      hw_tables := (hw_tables s)(t := (hw_tables s t)(?n \<mapsto> x)), hw_world := hc_retain cb x (hw_world s)\<rparr>"
    using o [symmetric] unfolding open_in_eq [OF wf] prod.inject by simp_all
  have n: "0x80 \<le> ?n" "?n mod 4 = 0" "?n \<le> 2 ^ 32" using wf by (simp_all add: handles_wf_def)
  have lim: "?n + 4 \<le> 2 ^ 32" using r n unfolding handle_room_def by auto
  have iss: "handle_issued s' = insert h (handle_issued s)"
    using n by (auto simp: handle_issued_def s' h) presburger
  have fresh: "h \<notin> handle_issued s" by (simp add: handle_issued_def h)
  have none: "hw_tables s t' h = None" for t'
    using handles_wfD(2) [OF wf] fresh by (cases "hw_tables s t' h") auto
  have "handles_wf cb s'"
    using wf none iss lim n unfolding handles_wf_def by (auto simp: s' h split: if_splits)
  moreover have "handle_room s' = handle_room s - 1"
    unfolding handle_room_def s' using n lim by simp
  ultimately show ?thesis using iss fresh by (simp add: s' h)
qed

lemma close_in_law:
  assumes wf: "handles_wf cb s" and c: "close_in cb t h s = (b, s')"
  shows "handles_wf cb s' \<and> handle_room s' = handle_room s \<and> handle_issued s' = handle_issued s \<and>
    (b \<longleftrightarrow> hc_pseudo cb h (hw_world s) \<noteq> None \<or> hw_tables s t (h AND HANDLE_MASK) \<noteq> None) \<and>
    hw_tables s' = (hw_tables s)(t := (hw_tables s t)(h AND HANDLE_MASK := None))"
proof (cases "hw_tables s t (h AND HANDLE_MASK)")
  case None
  then have "s' = s" using c by (auto simp: close_in_eq split: if_splits)
  then show ?thesis using wf c None by (auto simp: close_in_eq fun_upd_idem split: if_splits)
next
  case (Some x)
  then have i: "h AND HANDLE_MASK \<in> handle_issued s" by (rule handles_wfD(2) [OF wf])
  have "(h AND HANDLE_MASK) mod 4 = 0" using i by (simp add: handle_issued_def)
  then have p: "hc_pseudo cb h w = None" for w by (rule pseudo_None [OF handles_wfD(1) [OF wf]])
  have s': "b" "s' = s\<lparr>hw_tables := (hw_tables s)(t := (hw_tables s t)(h AND HANDLE_MASK := None)),
      hw_world := hc_release cb x (hw_world s)\<rparr>"
    using c Some p by (auto simp: close_in_eq)
  have "handle_issued s' = handle_issued s" by (simp add: handle_issued_def s')
  moreover from this have "handles_wf cb s'"
    using wf unfolding handles_wf_def by (auto simp: s' split: if_splits)
  ultimately show ?thesis using Some s' by (simp add: handle_room_def)
qed

text \<open>The laws for a table of objects without reference counts.\<close>

lemma plain_open:
  assumes "handles_wf plain_callbacks s" "0 < handle_room s" "open_in plain_callbacks t x s = (h, s')"
  shows "handles_wf plain_callbacks s'" "hw_tables s t h = None" "h AND HANDLE_MASK = h"
    "hw_tables s' = (hw_tables s)(t := (hw_tables s t)(h \<mapsto> x))" "hw_world s' = hw_world s"
proof -
  note law = open_in_law [OF assms]
  show "handles_wf plain_callbacks s'" "hw_tables s' = (hw_tables s)(t := (hw_tables s t)(h \<mapsto> x))"
    using law by simp_all
  show "hw_tables s t h = None"
    using law handles_wfD(2) [OF assms(1), of t h] by (cases "hw_tables s t h") auto
  show "h AND HANDLE_MASK = h"
    using issued_mod(1) [of plain_callbacks s' h] law by simp
  show "hw_world s' = hw_world s"
    using assms(3) unfolding open_in_eq [OF assms(1)] by (auto simp: plain_callbacks_def)
qed

lemma plain_close:
  assumes "handles_wf plain_callbacks s" "close_in plain_callbacks t h s = (b, s')"
  shows "handles_wf plain_callbacks s'" "b \<longleftrightarrow> hw_tables s t (h AND HANDLE_MASK) \<noteq> None"
    "hw_tables s' = (hw_tables s)(t := (hw_tables s t)(h AND HANDLE_MASK := None))" "hw_world s' = hw_world s"
proof -
  show "handles_wf plain_callbacks s'" "b \<longleftrightarrow> hw_tables s t (h AND HANDLE_MASK) \<noteq> None"
    "hw_tables s' = (hw_tables s)(t := (hw_tables s t)(h AND HANDLE_MASK := None))"
    using close_in_law [OF assms] by (simp_all add: plain_callbacks_def)
  show "hw_world s' = hw_world s"
    using assms(2) by (auto simp: close_in_eq plain_callbacks_def split: option.splits)
qed

interpretation tables: handle_store "handles_wf cb" hw_tables "open_in cb" "close_in cb"
  "\<lambda>h s. hc_pseudo cb h (hw_world s) \<noteq> None" handle_issued handle_room for cb
proof (unfold_locales, goal_cases)
  case (1 s t x h s')
  then show ?case by (rule open_in_law)
next
  case (2 s t h b s')
  then show ?case by (rule close_in_law)
next
  case (3 s t h x)
  then show ?case by (rule handles_wfD(2))
next
  case (4 s t h x t' y)
  then show ?case by (rule handles_wfD(3))
qed

subsection \<open>Properties of the tables\<close>

lemma init_agrees:
  "pseudo_ok cb \<Longrightarrow> tables.agrees cb (init_handles w) []"
  unfolding tables.agrees_def by (simp add: init_handles_wf) (simp add: init_handles_def)

lemma init_room: "handle_room (init_handles w) = 2 ^ 30 - 32"
  by (simp add: handle_room_def init_handles_def init_allocator_def)

text \<open>C14: in every run of opens and closes over all tables of the emulator, no handle value is given out twice, and
  a handle is open in a table exactly when it was opened there and not closed there since; it refers to the object
  it was opened for, in one table only.\<close>

theorem handles_unique:
  assumes "pseudo_ok cb" and "length ops \<le> 2 ^ 30 - 32"
    and "handle_run (open_in cb) (close_in cb) ops (init_handles w) [] = (es, s)"
  shows "distinct [h. Opened t h x \<leftarrow> es] \<and>
    (\<forall>t h x. hw_tables s t h = Some x \<longleftrightarrow> (t, h, x) \<in> set (ledger es)) \<and>
    (\<forall>t t' h. t \<noteq> t' \<longrightarrow> hw_tables s t h = None \<or> hw_tables s t' h = None)"
proof -
  have "tables.agrees cb s es"
    using tables.handle_run_agrees [OF init_agrees [OF assms(1)] _ assms(3)] assms(2) by (simp add: init_room)
  then show ?thesis
    unfolding tables.agrees_def handles_wf_def by (elim conjE, intro conjI) assumption+
qed

theorem handles_unique_witness:
  "\<exists>es s. handle_run (open_in plain_callbacks) (close_in plain_callbacks)
       [OpenOp 0 ''a'', OpenOp 1 ''b'', CloseOp 0 0x80, OpenOp 0 ''c''] (init_handles ()) [] = (es, s) \<and>
     distinct [h. Opened t h x \<leftarrow> es] \<and> hw_tables s 0 0x80 = None \<and> hw_tables s 0 0x88 = Some ''c''"
proof -
  obtain es s where r: "handle_run (open_in plain_callbacks) (close_in plain_callbacks)
      [OpenOp 0 ''a'', OpenOp 1 ''b'', CloseOp 0 0x80, OpenOp 0 ''c''] (init_handles ()) [] = (es, s)"
    by fastforce
  have e: "es = [Opened 0 0x88 ''c'', Closed 0 0x80, Opened 1 0x84 ''b'', Opened 0 0x80 ''a'']"
    using r by (auto simp: open_in_def close_in_def new_handle_def ht_close_def allocate_handle_def free_handle_def
        put_table_def init_handles_def init_allocator_def plain_callbacks_def REUSE_CLOSED_HANDLES_def
        HANDLE_MASK_def)
  have len: "length [OpenOp 0 ''a'', OpenOp 1 ''b'', CloseOp 0 0x80, OpenOp 0 ''c''] \<le> 2 ^ 30 - 32" by simp
  from handles_unique [OF plain_pseudo_ok len r]
  have u: "distinct [h. Opened t h x \<leftarrow> es]" "hw_tables s t h = Some x \<longleftrightarrow> (t, h, x) \<in> set (ledger es)" for t h x
    by simp_all
  have "hw_tables s 0 0x88 = Some ''c''" by (simp add: u(2) e HANDLE_MASK_def)
  moreover have "hw_tables s 0 0x80 = None"
  proof (cases "hw_tables s 0 0x80")
    case (Some a)
    then show ?thesis using u(2) [of 0 "0x80" a] by (simp add: e HANDLE_MASK_def)
  qed
  ultimately show ?thesis using r u(1) by blast
qed

end
