(* ===== verification/Codecs.thy ===== *)
theory Codecs
  imports Bytes
begin

text \<open>
  Text and byte conversions that several components use: the Windows-1252 code page of
  \<^verbatim>\<open>speakeasy/winenv/codepage.py\<close>, UTF-16 and UTF-8 encodings of the code points below 256 that model strings
  have, Python's \<open>base64\<close> (RFC 4648 alphabet, the decoder of \<open>binascii\<close> in its non-strict mode), \<open>int(s, 0)\<close> and
  \<open>fnmatch\<close>.
\<close>

definition char_byte :: "char \<Rightarrow> byte" where "char_byte c = of_nat (of_char c)"
definition byte_char :: "byte \<Rightarrow> char" where "byte_char b = char_of (unat b)"

lemma byte_char_byte [simp]: "byte_char (char_byte c) = c"
proof -
  have "unat (of_nat (of_char c) :: byte) = (of_char c :: nat)"
    using of_char_lt [of c] by (simp add: unat_of_nat)
  then show ?thesis by (simp add: byte_char_def char_byte_def)
qed

lemma char_byte_char [simp]: "char_byte (byte_char b) = b"
proof -
  have "unat b mod 256 = unat b" using unsigned_less [where ?'a = nat, of b] by simp
  then have "(of_char (char_of (unat b) :: char) :: nat) = unat b" by (simp only: of_char_of)
  then have "char_byte (byte_char b) = of_nat (unat b)" by (simp only: char_byte_def byte_char_def)
  then show ?thesis by simp
qed

subsection \<open>The ANSI code page\<close>

text \<open>Bytes 0x80 to 0x9F other than the five undefined ones decode to characters above 255, so a model character with
  such a code is not in the code page.\<close>

definition in_code_page :: "char \<Rightarrow> bool" where
  "in_code_page c \<longleftrightarrow> (let n = (of_char c :: nat) in n < 0x80 \<or> 0xA0 \<le> n \<or> n \<in> {0x81, 0x8D, 0x8F, 0x90, 0x9D})"

definition encode_ansi :: "string \<Rightarrow> byte list" where
  "encode_ansi s = map (\<lambda>c. if in_code_page c then char_byte c else char_byte (CHR ''?'')) s"

datatype codec = Ansi | Cp437 | Utf8

definition get_codec :: "int \<Rightarrow> codec result" where
  "get_codec code_page =
     (if code_page \<in> {0, 3, 1252} then Inr Ansi
      else if code_page \<in> {1, 437} then Inr Cp437
      else if code_page = 65001 then Inr Utf8
      else Inl ValueError)"

subsection \<open>Unicode encodings\<close>

definition utf16le :: "string \<Rightarrow> byte list" where
  "utf16le s = concat (map (\<lambda>c. [char_byte c, 0]) s)"

definition utf8 :: "string \<Rightarrow> byte list" where
  "utf8 s = concat (map (\<lambda>c. if (of_char c :: nat) < 128 then [char_byte c]
     else [of_nat (0xC0 + of_char c div 64), of_nat (0x80 + of_char c mod 64)]) s)"

subsection \<open>base64\<close>

text \<open>The alphabet: A to Z, a to z, 0 to 9, plus and slash.\<close>

definition b64_alphabet :: string where
  "b64_alphabet = map char_of ([65..<91] @ [97..<123] @ [48..<58] @ [43, 47 :: nat])"

definition b64_digit :: "int \<Rightarrow> byte" where
  "b64_digit d = char_byte (b64_alphabet ! nat d)"

fun b64encode :: "byte list \<Rightarrow> byte list" where
  "b64encode [] = []"
| "b64encode [a] = [b64_digit (uint a div 4), b64_digit (uint a mod 4 * 16), char_byte (CHR ''=''), char_byte (CHR ''='')]"
| "b64encode [a, b] =
     [b64_digit (uint a div 4), b64_digit (uint a mod 4 * 16 + uint b div 16), b64_digit (uint b mod 16 * 4),
      char_byte (CHR ''='')]"
| "b64encode (a # b # c # rest) =
     b64_digit (uint a div 4) # b64_digit (uint a mod 4 * 16 + uint b div 16) #
     b64_digit (uint b mod 16 * 4 + uint c div 64) # b64_digit (uint c mod 64) # b64encode rest"

definition b64_value :: "byte \<Rightarrow> int option" where
  "b64_value b = map_option int (find_char (byte_char b) b64_alphabet)"

text \<open>The decoder: the position in the quad, the bits left over, and the pads seen in a row.\<close>

fun b64decode_from :: "nat \<Rightarrow> int \<Rightarrow> nat \<Rightarrow> byte list \<Rightarrow> byte list result" where
  "b64decode_from quad left pads [] = (if quad = 0 then Inr [] else Inl ValueError)"
| "b64decode_from quad left pads (b # bs) =
     (if b = char_byte (CHR ''='')
      then (if 2 \<le> quad \<and> 4 \<le> quad + (pads + 1) then Inr [] else b64decode_from quad left (pads + 1) bs)
      else case b64_value b of
             None \<Rightarrow> b64decode_from quad left pads bs
           | Some v \<Rightarrow>
               (if quad = 0 then b64decode_from 1 v 0 bs
                else if quad = 1
                then rbind (b64decode_from 2 (v mod 16) 0 bs) (\<lambda>r. Inr (word_of_int (left * 4 + v div 16) # r))
                else if quad = 2
                then rbind (b64decode_from 3 (v mod 4) 0 bs) (\<lambda>r. Inr (word_of_int (left * 16 + v div 4) # r))
                else rbind (b64decode_from 0 0 0 bs) (\<lambda>r. Inr (word_of_int (left * 64 + v) # r))))"

definition b64decode :: "byte list \<Rightarrow> byte list result" where
  "b64decode bs = b64decode_from 0 0 0 bs"

lemma inj_char_of: "inj_on (char_of :: nat \<Rightarrow> char) {..<256}"
  by (rule inj_onI) (metis lessThan_iff mod_less of_char_of)

lemma b64_alphabet_facts:
  "distinct b64_alphabet" "length b64_alphabet = 64" "CHR ''='' \<notin> set b64_alphabet"
proof -
  let ?ns = "[65..<91] @ [97..<123] @ [48..<58] @ [43, 47 :: nat]"
  have sub: "insert 61 (set ?ns) \<subseteq> {..<256}" by auto
  have inj: "inj_on (char_of :: nat \<Rightarrow> char) (insert 61 (set ?ns))" by (rule inj_on_subset [OF inj_char_of sub])
  have d: "distinct ?ns" by auto
  show "distinct b64_alphabet"
    unfolding b64_alphabet_def distinct_map using d inj_on_subset [OF inj subset_insertI] by (rule conjI)
  show "length b64_alphabet = 64" by (simp add: b64_alphabet_def)
  have "char_of (61 :: nat) \<notin> char_of ` set ?ns"
    using inj_on_image_mem_iff [OF inj, of 61 "set ?ns"] by auto
  moreover have "char_of (61 :: nat) = CHR ''=''" by code_simp
  ultimately show "CHR ''='' \<notin> set b64_alphabet" by (simp add: b64_alphabet_def)
qed

lemma find_char_nth: "distinct s \<Longrightarrow> i < length s \<Longrightarrow> find_char (s ! i) s = Some i"
  by (induction s arbitrary: i) (auto simp: nth_Cons' split: if_splits nat.splits)

lemma b64_value_digit:
  assumes "0 \<le> d" "d < 64"
  shows "b64_value (b64_digit d) = Some d" "b64_digit d \<noteq> char_byte (CHR ''='')"
proof -
  have l: "nat d < length b64_alphabet" using assms b64_alphabet_facts(2) by simp
  show "b64_value (b64_digit d) = Some d"
    using find_char_nth [OF b64_alphabet_facts(1) l] assms(1) by (simp add: b64_value_def b64_digit_def)
  have "b64_alphabet ! nat d \<noteq> CHR ''=''" using nth_mem [OF l] b64_alphabet_facts(3) by metis
  then show "b64_digit d \<noteq> char_byte (CHR ''='')"
    unfolding b64_digit_def by (metis byte_char_byte)
qed

lemma b64_step:
  assumes "0 \<le> d" "d < 64"
  shows "b64decode_from 0 left pads (b64_digit d # bs) = b64decode_from 1 d 0 bs"
    "b64decode_from 1 left pads (b64_digit d # bs) =
       rbind (b64decode_from 2 (d mod 16) 0 bs) (\<lambda>r. Inr (word_of_int (left * 4 + d div 16) # r))"
    "b64decode_from 2 left pads (b64_digit d # bs) =
       rbind (b64decode_from 3 (d mod 4) 0 bs) (\<lambda>r. Inr (word_of_int (left * 16 + d div 4) # r))"
    "b64decode_from 3 left pads (b64_digit d # bs) =
       rbind (b64decode_from 0 0 0 bs) (\<lambda>r. Inr (word_of_int (left * 64 + d) # r))"
  using b64_value_digit [OF assms] by simp_all

lemma b64_pad:
  "b64decode_from 2 left 0 [char_byte (CHR ''=''), char_byte (CHR ''='')] = Inr []"
  "b64decode_from 3 left 0 [char_byte (CHR ''='')] = Inr []"
  by simp_all

lemma b64_nil: "b64decode_from 0 left pads [] = Inr []"
  by simp

lemma byte_div_bounds:
  fixes a :: byte
  shows "0 \<le> uint a div 16" "uint a div 16 < 16" "0 \<le> uint a div 64" "uint a div 64 < 4"
  using uint_byte_bounds [of a] by (simp_all add: pos_imp_zdiv_nonneg_iff)

lemma b64_parts:
  fixes a b :: byte
  shows "0 \<le> uint a div 4" "0 \<le> uint a mod 4 * 16 + uint b div 16" "0 \<le> uint a mod 4 * 16"
    "0 \<le> uint b mod 16 * 4" "0 \<le> uint a mod 16 * 4 + uint b div 64" "0 \<le> uint a mod 64"
    and "uint a div 4 < 64" "uint a mod 4 * 16 + uint b div 16 < 64" "uint a mod 4 * 16 < 64"
    "uint b mod 16 * 4 < 64" "uint a mod 16 * 4 + uint b div 64 < 64" "uint a mod 64 < 64"
  using uint_byte_bounds [of a] uint_byte_bounds [of b]
  by (simp_all add: pos_imp_zdiv_nonneg_iff)

lemma b64_joins:
  fixes a b c :: byte
  shows "uint a div 4 * 4 + (uint a mod 4 * 16 + uint b div 16) div 16 = uint a"
    "uint a div 4 * 4 + (uint a mod 4 * 16) div 16 = uint a"
    "(uint a mod 4 * 16 + uint b div 16) mod 16 * 16 + (uint b mod 16 * 4 + uint c div 64) div 4 = uint b"
    "(uint a mod 4 * 16 + uint b div 16) mod 16 * 16 + (uint b mod 16 * 4) div 4 = uint b"
    "(uint b mod 16 * 4 + uint c div 64) mod 4 * 64 + uint c mod 64 = uint c"
proof -
  have d: "(x * 16 + uint b div 16) div 16 = x" "(x * 16 + uint b div 16) mod 16 = uint b div 16"
    "(x * 4 + uint c div 64) div 4 = x" "(x * 4 + uint c div 64) mod 4 = uint c div 64" for x
    using byte_div_bounds [of b] byte_div_bounds [of c]
    by (simp_all only: div_mult_self3 mod_mult_self3 div_pos_pos_trivial mod_pos_pos_trivial)
  show "uint a div 4 * 4 + (uint a mod 4 * 16 + uint b div 16) div 16 = uint a"
    "uint a div 4 * 4 + (uint a mod 4 * 16) div 16 = uint a"
    "(uint a mod 4 * 16 + uint b div 16) mod 16 * 16 + (uint b mod 16 * 4 + uint c div 64) div 4 = uint b"
    "(uint a mod 4 * 16 + uint b div 16) mod 16 * 16 + (uint b mod 16 * 4) div 4 = uint b"
    "(uint b mod 16 * 4 + uint c div 64) mod 4 * 64 + uint c mod 64 = uint c"
    unfolding d by simp_all
qed

lemma b64_roundtrip: "b64decode (b64encode bs) = Inr bs"
  unfolding b64decode_def
proof (induction bs rule: b64encode.induct)
  case 1
  show ?case by simp
next
  case (2 a)
  show ?case
    unfolding b64encode.simps
    by (simp only: b64_step b64_parts b64_pad b64_joins rbind.simps word_of_int_uint)
next
  case (3 a b)
  show ?case
    unfolding b64encode.simps
    by (simp only: b64_step b64_parts b64_pad b64_joins rbind.simps word_of_int_uint)
next
  case (4 a b c rest)
  show ?case
    unfolding b64encode.simps
    by (simp only: b64_step b64_parts 4 b64_joins rbind.simps word_of_int_uint)
qed

subsection \<open>fnmatch\<close>

text \<open>
  \<open>fnmatch.fnmatch\<close> on a system whose paths are case sensitive: star, question mark and bracket sets, where a bracket
  that is not closed is an ordinary character. The items of a set are single characters and ranges.
\<close>

definition char_le :: "char \<Rightarrow> char \<Rightarrow> bool" where
  "char_le a b \<longleftrightarrow> (of_char a :: nat) \<le> of_char b"

fun set_items :: "string \<Rightarrow> char \<Rightarrow> bool" where
  "set_items (a # d # b # rest) c =
     (if d = CHR ''-'' then (char_le a c \<and> char_le c b) \<or> set_items rest c else a = c \<or> set_items (d # b # rest) c)"
| "set_items (a # rest) c = (a = c \<or> set_items rest c)"
| "set_items [] c = False"

text \<open>The body of a set after the opening bracket and the pattern after it: the first closing bracket that is neither
  the first character nor the first after the negation mark ends the set.\<close>

fun until_bracket :: "string \<Rightarrow> (string \<times> string) option" where
  "until_bracket [] = None"
| "until_bracket (c # p) =
     (if c = CHR '']'' then Some ([], p) else map_option (\<lambda>(body, rest). (c # body, rest)) (until_bracket p))"

definition split_set :: "string \<Rightarrow> (bool \<times> string \<times> string) option" where
  "split_set p =
     (let neg = (p \<noteq> [] \<and> hd p = CHR ''!''); q = (if neg then tl p else p)
      in case q of
           [] \<Rightarrow> None
         | c # r \<Rightarrow>
             (if c = CHR '']''
              then map_option (\<lambda>(body, rest). (neg, c # body, rest)) (until_bracket r)
              else map_option (\<lambda>(body, rest). (neg, body, rest)) (until_bracket q)))"

lemma until_bracket_length: "until_bracket p = Some (body, rest) \<Longrightarrow> length rest < length p"
  by (induction p arbitrary: body) (auto split: if_splits)

lemma split_set_length: "split_set p = Some (neg, body, rest) \<Longrightarrow> length rest < length p"
  by (cases p) (auto simp: split_set_def Let_def dest!: until_bracket_length split: if_splits list.splits)

function fn_match :: "string \<Rightarrow> string \<Rightarrow> bool" where
  "fn_match p s =
     (case p of
        [] \<Rightarrow> s = []
      | c # p' \<Rightarrow>
          (if c = CHR ''*'' then fn_match p' s \<or> (case s of [] \<Rightarrow> False | _ # s' \<Rightarrow> fn_match p s')
           else case s of
             [] \<Rightarrow> False
           | x # s' \<Rightarrow>
               (if c = CHR ''?'' then fn_match p' s'
                else if c = CHR ''[''
                then (case split_set p' of
                        None \<Rightarrow> x = CHR ''['' \<and> fn_match p' s'
                      | Some (neg, body, rest) \<Rightarrow> set_items body x \<noteq> neg \<and> fn_match rest s')
                else x = c \<and> fn_match p' s')))"
  by pat_completeness auto
termination
  by (relation "measure (\<lambda>(p, s). length p + length s)") (auto dest!: split_set_length)

declare fn_match.simps [simp del]

text \<open>A pattern without special characters matches only itself.\<close>

definition plain :: "string \<Rightarrow> bool" where
  "plain p \<longleftrightarrow> CHR ''*'' \<notin> set p \<and> CHR ''?'' \<notin> set p \<and> CHR ''['' \<notin> set p"

lemma fn_match_plain: "plain p \<Longrightarrow> fn_match p s \<longleftrightarrow> s = p"
proof (induction p arbitrary: s)
  case Nil
  then show ?case by (subst fn_match.simps) simp
next
  case (Cons c p)
  have "plain p" using Cons.prems by (simp add: plain_def)
  note IH = Cons.IH [OF this]
  show ?case using Cons.prems by (subst fn_match.simps) (auto simp: plain_def IH split: list.splits)
qed

subsection \<open>int(s, 0)\<close>

definition digit_value :: "char \<Rightarrow> nat option" where
  "digit_value c = (let n = (of_char c :: nat) in
     if 48 \<le> n \<and> n \<le> 57 then Some (n - 48)
     else if 97 \<le> n \<and> n \<le> 122 then Some (n - 87)
     else if 65 \<le> n \<and> n \<le> 90 then Some (n - 55) else None)"

text \<open>Digits in a base, with single underscores between digits.\<close>

fun digits_from :: "nat \<Rightarrow> bool \<Rightarrow> nat \<Rightarrow> string \<Rightarrow> nat option" where
  "digits_from b after acc [] = (if after then Some acc else None)"
| "digits_from b after acc (c # s) =
     (if c = CHR ''_'' then (if after then digits_from b False acc s else None)
      else case digit_value c of
             None \<Rightarrow> None
           | Some d \<Rightarrow> (if d < b then digits_from b True (acc * b + d) s else None))"

definition is_space :: "char \<Rightarrow> bool" where
  "is_space c \<longleftrightarrow> (of_char c :: nat) \<in> {9, 10, 11, 12, 13, 28, 29, 30, 31, 32, 0x85, 0xA0}"

definition strip :: "string \<Rightarrow> string" where
  "strip s = rev (dropWhile is_space (rev (dropWhile is_space s)))"

definition prefixed :: "nat \<Rightarrow> string \<Rightarrow> nat option" where
  "prefixed b s = (case s of CHR ''_'' # t \<Rightarrow> digits_from b False 0 t | _ \<Rightarrow> digits_from b False 0 s)"

definition unsigned0 :: "string \<Rightarrow> nat option" where
  "unsigned0 s =
     (case s of
        z # x # t \<Rightarrow>
          (if z = CHR ''0'' \<and> (x = CHR ''x'' \<or> x = CHR ''X'') then prefixed 16 t
           else if z = CHR ''0'' \<and> (x = CHR ''o'' \<or> x = CHR ''O'') then prefixed 8 t
           else if z = CHR ''0'' \<and> (x = CHR ''b'' \<or> x = CHR ''B'') then prefixed 2 t
           else if z = CHR ''0''
           then (case digits_from 10 False 0 s of Some 0 \<Rightarrow> Some 0 | _ \<Rightarrow> None)
           else digits_from 10 False 0 s)
      | _ \<Rightarrow> digits_from 10 False 0 s)"

definition int0 :: "string \<Rightarrow> int result" where
  "int0 s =
     (case strip s of
        CHR ''-'' # t \<Rightarrow> (case unsigned0 t of Some n \<Rightarrow> Inr (- int n) | None \<Rightarrow> Inl ValueError)
      | CHR ''+'' # t \<Rightarrow> (case unsigned0 t of Some n \<Rightarrow> Inr (int n) | None \<Rightarrow> Inl ValueError)
      | t \<Rightarrow> (case unsigned0 t of Some n \<Rightarrow> Inr (int n) | None \<Rightarrow> Inl ValueError))"

text \<open>\<open>int(s, 16)\<close> on a string.\<close>

definition unsigned16 :: "string \<Rightarrow> nat option" where
  "unsigned16 s =
     (case s of
        z # x # t \<Rightarrow> (if z = CHR ''0'' \<and> (x = CHR ''x'' \<or> x = CHR ''X'') then prefixed 16 t else digits_from 16 False 0 s)
      | _ \<Rightarrow> digits_from 16 False 0 s)"

definition signed16 :: "string \<Rightarrow> int result" where
  "signed16 s =
     (case s of
        CHR ''-'' # t \<Rightarrow> (case unsigned16 t of Some n \<Rightarrow> Inr (- int n) | None \<Rightarrow> Inl ValueError)
      | CHR ''+'' # t \<Rightarrow> (case unsigned16 t of Some n \<Rightarrow> Inr (int n) | None \<Rightarrow> Inl ValueError)
      | t \<Rightarrow> (case unsigned16 t of Some n \<Rightarrow> Inr (int n) | None \<Rightarrow> Inl ValueError))"

definition int16 :: "string \<Rightarrow> int result" where
  "int16 s = signed16 (strip s)"

text \<open>\<open>int(b, 16)\<close> on bytes strips the ASCII white space only.\<close>

definition is_byte_space :: "char \<Rightarrow> bool" where
  "is_byte_space c \<longleftrightarrow> (of_char c :: nat) \<in> {9, 10, 11, 12, 13, 32}"

definition int16_bytes :: "string \<Rightarrow> int result" where
  "int16_bytes s = signed16 (rev (dropWhile is_byte_space (rev (dropWhile is_byte_space s))))"

subsection \<open>Hexadecimal text\<close>

definition hex_value :: "char \<Rightarrow> nat option" where
  "hex_value c = (case digit_value c of Some d \<Rightarrow> if d < 16 then Some d else None | None \<Rightarrow> None)"

text \<open>\<open>b.hex()\<close> and \<open>bytes.fromhex(s)\<close>, where bytes are characters; white space may stand between the bytes.\<close>

definition hex_byte :: "char \<Rightarrow> string" where
  "hex_byte c = [hex_digit (of_char c div 16), hex_digit (of_char c mod 16)]"

definition to_hex :: "string \<Rightarrow> string" where
  "to_hex s = concat (map hex_byte s)"

fun fromhex :: "string \<Rightarrow> string option" where
  "fromhex [] = Some []"
| "fromhex (a # s) =
     (if is_byte_space a then fromhex s
      else case s of
             [] \<Rightarrow> None
           | b # t \<Rightarrow>
               (case (hex_value a, hex_value b) of
                  (Some x, Some y) \<Rightarrow> map_option ((#) (char_of (16 * x + y))) (fromhex t)
                | _ \<Rightarrow> None))"

lemma hex_digit_value:
  assumes "d < 16"
  shows "hex_value (hex_digit d) = Some d" "\<not> is_byte_space (hex_digit d)"
proof -
  have "(of_char (hex_digit d) :: nat) = (if d < 10 then 48 + d else 87 + d)"
    using assms by (simp add: hex_digit_def of_char_of)
  then show "hex_value (hex_digit d) = Some d" "\<not> is_byte_space (hex_digit d)"
    using assms by (simp_all add: hex_value_def digit_value_def Let_def is_byte_space_def)
qed

lemma fromhex_to_hex_append: "fromhex (to_hex s @ t) = map_option ((@) s) (fromhex t)"
proof (induction s)
  case Nil
  then show ?case by (simp add: to_hex_def option.map_ident)
next
  case (Cons c s)
  have d: "(of_char c :: nat) div 16 < 16" "(of_char c :: nat) mod 16 < 16" using of_char_lt [of c] by (simp_all add: less_mult_imp_div_less)
  have "16 * ((of_char c :: nat) div 16) + of_char c mod 16 = of_char c" by simp
  then have "char_of (16 * ((of_char c :: nat) div 16) + of_char c mod 16) = c" by (simp only: char_of_char)
  then show ?case
    using Cons hex_digit_value [OF d(1)] hex_digit_value [OF d(2)]
    by (simp add: to_hex_def hex_byte_def option.map_comp o_def)
qed

lemma fromhex_to_hex [simp]: "fromhex (to_hex s) = Some s"
  using fromhex_to_hex_append [of s "[]"] by simp

lemma length_to_hex [simp]: "length (to_hex s) = 2 * length s"
  by (induction s) (simp_all add: to_hex_def hex_byte_def)

text \<open>\<open>int(_, 16)\<close> reads the digits of \<open>hex\<close> back.\<close>

lemma digit_hex_digit:
  assumes "d < 16"
  shows "digit_value (hex_digit d) = Some d" "hex_digit d \<noteq> CHR ''_''"
proof -
  have e: "(of_char (hex_digit d) :: nat) = (if d < 10 then 48 + d else 87 + d)"
    using assms by (simp add: hex_digit_def of_char_of)
  then show "digit_value (hex_digit d) = Some d" using assms by (simp add: digit_value_def Let_def)
  have "(of_char (hex_digit d) :: nat) \<noteq> of_char (CHR ''_'')" using e assms by (auto split: if_splits)
  then show "hex_digit d \<noteq> CHR ''_''" by metis
qed

lemma digits_from_hex:
  "\<forall>d\<in>set ds. d < 16 \<Longrightarrow> ds \<noteq> [] \<or> after \<Longrightarrow>
    digits_from 16 after acc (map hex_digit ds) = Some (foldl (\<lambda>a d. a * 16 + d) acc ds)"
  by (induction ds arbitrary: after acc) (simp_all add: digit_hex_digit)

lemma hex_digit_not: "d < 16 \<Longrightarrow> c \<notin> set ''0123456789abcdef'' \<Longrightarrow> hex_digit d \<noteq> c"
proof
  assume a: "d < 16" "c \<notin> set ''0123456789abcdef''" "hex_digit d = c"
  have "\<forall>d\<in>set [0..<16]. hex_digit d \<in> set ''0123456789abcdef''" by code_simp
  with a(1) have "hex_digit d \<in> set ''0123456789abcdef''" by simp
  with a(2,3) show False by simp
qed

lemma int16_bytes_digits:
  assumes "\<forall>d\<in>set ds. d < 16" "ds \<noteq> []"
  shows "int16_bytes (map hex_digit ds) = Inr (int (foldl (\<lambda>a d. a * 16 + d) 0 ds))"
proof -
  have strip: "rev (dropWhile is_byte_space (rev (dropWhile is_byte_space (map hex_digit ds)))) = map hex_digit ds"
    using assms hex_digit_value(2)
    by (smt (verit, ccfv_threshold) dropWhile_eq_self_iff hd_in_set imageE list.set_map rev_is_Nil_conv rev_rev_ident
        set_rev)
  obtain d r where ds: "ds = d # r" using assms(2) by (cases ds) auto
  have n: "hex_digit x \<noteq> CHR ''x'' \<and> hex_digit x \<noteq> CHR ''X'' \<and> hex_digit x \<noteq> CHR ''-'' \<and> hex_digit x \<noteq> CHR ''+''"
    if "x \<in> set ds" for x
    using that assms(1) hex_digit_not by simp
  have u: "unsigned16 (map hex_digit ds) = Some (foldl (\<lambda>a d. a * 16 + d) 0 ds)"
    using n digits_from_hex [OF assms(1), of False 0] assms(2)
    unfolding unsigned16_def by (cases r) (auto simp: ds split: list.splits)
  have "signed16 (map hex_digit ds) = (case unsigned16 (map hex_digit ds) of Some n \<Rightarrow> Inr (int n) | None \<Rightarrow> Inl ValueError)"
    using n [of d] unfolding signed16_def ds by (auto split: char.splits bool.splits)
  then show ?thesis using u strip by (simp add: int16_bytes_def)
qed

fun hex_digits :: "nat \<Rightarrow> nat list" where
  "hex_digits n = (if n < 16 then [n] else hex_digits (n div 16) @ [n mod 16])"

declare hex_digits.simps [simp del]

lemma hex_nat_digits: "hex_nat n = map hex_digit (hex_digits n)"
proof (induction n rule: hex_digits.induct)
  case (1 n)
  then show ?case by (cases "n < 16") (simp_all add: hex_nat.simps [of n] hex_digits.simps [of n])
qed

lemma hex_digits_value: "foldl (\<lambda>a d. a * 16 + d) 0 (hex_digits n) = n \<and> hex_digits n \<noteq> [] \<and> (\<forall>d\<in>set (hex_digits n). d < 16)"
proof (induction n rule: hex_digits.induct)
  case (1 n)
  then show ?case by (cases "n < 16") (simp_all add: hex_digits.simps [of n])
qed

lemma int16_bytes_hex_nat [simp]: "int16_bytes (hex_nat n) = Inr (int n)"
  using int16_bytes_digits [of "hex_digits n"] hex_digits_value [of n] by (simp add: hex_nat_digits)

lemma int16_bytes_hex_of: "0 \<le> i \<Longrightarrow> int16_bytes (hex_of i) = Inr i"
  by (simp add: hex_of_def)

lemma hex_nat_not: "c \<notin> set ''0123456789abcdef'' \<Longrightarrow> c \<notin> set (hex_nat n)"
  using hex_digits_value [of n] hex_digit_not by (auto simp: hex_nat_digits)

end
