(* ===== verification/Nt_Paths.thy ===== *)
theory Nt_Paths
  imports Prelude
begin

text \<open>
  The functions of Python's \<open>ntpath\<close> module that the file manager uses (CPython 3.13, the version of the test
  workflow, on a host that is not Windows): \<open>splitroot\<close>, \<open>splitdrive\<close>, \<open>split\<close>, \<open>isabs\<close>, \<open>join\<close>, \<open>normpath\<close> and
  \<open>splitext\<close>, with the string methods \<open>split\<close>, \<open>join\<close> and \<open>replace\<close>. The lemmas bound the length of the results: a
  directory and a normalized path are no longer than the path.
\<close>

subsection \<open>String methods\<close>

definition upper_char :: "char \<Rightarrow> char" where
  "upper_char c = (if 97 \<le> (of_char c :: nat) \<and> (of_char c :: nat) \<le> 122
     then char_of ((of_char c :: nat) - 32) else c)"

definition upper :: "string \<Rightarrow> string" where
  "upper s = map upper_char s"

text \<open>\<open>s.split(sep)\<close> and \<open>sep.join(parts)\<close> for one character.\<close>

fun split_on :: "char \<Rightarrow> string \<Rightarrow> string list" where
  "split_on c [] = [[]]"
| "split_on c (x # s) =
     (if x = c then [] # split_on c s else (case split_on c s of [] \<Rightarrow> [[x]] | p # ps \<Rightarrow> (x # p) # ps))"

fun join_on :: "char \<Rightarrow> string list \<Rightarrow> string" where
  "join_on c [] = []"
| "join_on c [p] = p"
| "join_on c (p # ps) = p @ c # join_on c ps"

text \<open>\<open>s.replace(old, new)\<close>, for a non-empty \<open>old\<close>.\<close>

function replace_all :: "string \<Rightarrow> string \<Rightarrow> string \<Rightarrow> string" where
  "replace_all old new s =
     (if old = [] \<or> s = [] then s
      else if starts_with s old then new @ replace_all old new (drop (length old) s)
      else hd s # replace_all old new (tl s))"
  by pat_completeness auto
termination
  by (relation "measure (\<lambda>(_, _, s). length s)") auto

declare replace_all.simps [simp del]

text \<open>\<open>s.split(sub, 1)[1]\<close> when \<open>sub in s\<close>.\<close>

fun after_first :: "string \<Rightarrow> string \<Rightarrow> string option" where
  "after_first p [] = (if p = [] then Some [] else None)"
| "after_first p (c # s) = (if starts_with (c # s) p then Some (drop (length p) (c # s)) else after_first p s)"

lemma split_on_not_Nil [simp]: "split_on c s \<noteq> []"
  by (induction s) (auto split: list.splits)

lemma join_split: "join_on c (split_on c s) = s"
proof (induction s)
  case (Cons x s)
  then show ?case by (cases "split_on c s") (auto split: list.splits, (metis join_on.simps(2,3) append_Cons neq_Nil_conv)+)
qed simp

definition parts_length :: "string list \<Rightarrow> nat" where
  "parts_length ps = sum_list (map (\<lambda>p. Suc (length p)) ps)"

lemma parts_length_simps [simp]:
  "parts_length [] = 0" "parts_length (p # ps) = Suc (length p) + parts_length ps"
  "parts_length (ps @ qs) = parts_length ps + parts_length qs" "parts_length (rev ps) = parts_length ps"
  by (simp_all add: parts_length_def rev_map [symmetric])

lemma length_join_on: "ps \<noteq> [] \<Longrightarrow> Suc (length (join_on c ps)) = parts_length ps"
  by (induction c ps rule: join_on.induct) auto

lemma parts_length_split: "parts_length (split_on c s) = Suc (length s)"
  by (metis join_split length_join_on split_on_not_Nil)

subsection \<open>Drive, root and tail\<close>

definition is_sep :: "char \<Rightarrow> bool" where "is_sep c \<longleftrightarrow> c = backslash \<or> c = CHR ''/''"

definition to_backslash :: "string \<Rightarrow> string" where
  "to_backslash s = map (\<lambda>c. if c = CHR ''/'' then backslash else c) s"

definition unc_prefix :: string where
  "unc_prefix = [backslash, backslash, CHR ''?'', backslash, CHR ''U'', CHR ''N'', CHR ''C'', backslash]"

text \<open>\<open>s.find(c, start)\<close>.\<close>

definition find_from :: "char \<Rightarrow> nat \<Rightarrow> string \<Rightarrow> nat option" where
  "find_from c start s = map_option ((+) start) (find_char c (drop start s))"

definition splitroot :: "string \<Rightarrow> string \<times> string \<times> string" where
  "splitroot p =
     (let normp = to_backslash p
      in if take 1 normp = [backslash]
         then if take 1 (drop 1 normp) = [backslash]
              then (case find_from backslash (if upper (take 8 normp) = unc_prefix then 8 else 2) normp of
                      None \<Rightarrow> (p, [], [])
                    | Some index \<Rightarrow>
                        (case find_from backslash (index + 1) normp of
                           None \<Rightarrow> (p, [], [])
                         | Some index2 \<Rightarrow> (take index2 p, take 1 (drop index2 p), drop (index2 + 1) p)))
              else ([], take 1 p, drop 1 p)
         else if take 1 (drop 1 normp) = [CHR '':'']
         then if take 1 (drop 2 normp) = [backslash] then (take 2 p, take 1 (drop 2 p), drop 3 p)
              else (take 2 p, [], drop 2 p)
         else ([], [], p))"

lemma splitroot_parts: "splitroot p = (d, r, t) \<Longrightarrow> p = d @ r @ t"
proof -
  have s: "take n p @ take 1 (drop n p) @ drop (n + 1) p = p" for n
    by (metis append_take_drop_id drop_drop add.commute)
  show "splitroot p = (d, r, t) \<Longrightarrow> p = d @ r @ t"
    using s [of 0] s [of 2] s
    by (auto simp: splitroot_def Let_def split: if_splits option.splits)
qed

definition splitdrive :: "string \<Rightarrow> string \<times> string" where
  "splitdrive p = (let (d, r, t) = splitroot p in (d, r @ t))"

text \<open>\<open>split\<close>: the tail is the part after the last separator.\<close>

definition path_split :: "string \<Rightarrow> string \<times> string" where
  "path_split p =
     (let (d, r, t) = splitroot p;
          tail = rev (takeWhile (\<lambda>c. \<not> is_sep c) (rev t));
          head = take (length t - length tail) t
      in (d @ r @ rev (dropWhile is_sep (rev head)), tail))"

definition dirname :: "string \<Rightarrow> string" where "dirname p = fst (path_split p)"
definition basename :: "string \<Rightarrow> string" where "basename p = snd (path_split p)"

lemma length_dirname: "length (dirname p) \<le> length p"
proof -
  obtain d r t where s: "splitroot p = (d, r, t)" by (metis prod_cases3)
  have "length (dropWhile is_sep xs) \<le> length xs" for xs by (rule length_dropWhile_le)
  from this [of "rev (take n t)" for n] have "length (dropWhile is_sep (rev (take n t))) \<le> length t" for n
    by (metis length_rev length_take min.cobounded1 le_trans)
  then show ?thesis
    using arg_cong [OF splitroot_parts [OF s], of length] by (simp add: dirname_def path_split_def s Let_def)
qed

subsection \<open>Absolute paths and joins\<close>

definition isabs :: "string \<Rightarrow> bool" where
  "isabs s =
     (let s = to_backslash (take 3 s)
      in starts_with (drop 1 s) [CHR '':'', backslash] \<or> starts_with s [backslash, backslash])"

text \<open>\<open>ntpath.join(path, p)\<close>.\<close>

definition join_result :: "string \<times> string \<times> string \<Rightarrow> string" where
  "join_result = (\<lambda>(drive, root, path).
     if path \<noteq> [] \<and> root = [] \<and> drive \<noteq> [] \<and> \<not> (is_sep (last drive) \<or> last drive = CHR '':'')
     then drive @ backslash # path else drive @ root @ path)"

definition path_join :: "string \<Rightarrow> string \<Rightarrow> string" where
  "path_join path p =
     (let (rdrive, rroot, rpath) = splitroot path;
          (pdrive, proot, ppath) = splitroot p;
          onto = (\<lambda>drive. (drive, rroot,
                   (if rpath \<noteq> [] \<and> \<not> is_sep (last rpath) then rpath @ [backslash] else rpath) @ ppath))
      in join_result
           (if proot \<noteq> [] then (if pdrive \<noteq> [] \<or> rdrive = [] then pdrive else rdrive, proot, ppath)
            else if pdrive \<noteq> [] \<and> pdrive \<noteq> rdrive
            then (if lower pdrive \<noteq> lower rdrive then (pdrive, proot, ppath) else onto pdrive)
            else onto rdrive))"

subsection \<open>Normalization\<close>

text \<open>The loop of \<open>normpath\<close> over the components; \<open>st\<close> holds the ones kept so far, the newest first.\<close>

fun norm_comps :: "bool \<Rightarrow> string list \<Rightarrow> string list \<Rightarrow> string list" where
  "norm_comps root st [] = rev st"
| "norm_comps root st (c # cs) =
     (if c = [] \<or> c = ''.'' then norm_comps root st cs
      else if c = ''..''
      then if st \<noteq> [] \<and> hd st \<noteq> ''..'' then norm_comps root (tl st) cs
           else if st = [] \<and> root then norm_comps root st cs
           else norm_comps root (c # st) cs
      else norm_comps root (c # st) cs)"

definition normpath :: "string \<Rightarrow> string" where
  "normpath path =
     (let (drive, root, path) = splitroot (to_backslash path);
          comps = norm_comps (root \<noteq> []) [] (split_on backslash path);
          comps = (if drive @ root = [] \<and> comps = [] then [''.''] else comps)
      in drive @ root @ join_on backslash comps)"

lemma norm_comps_length: "parts_length (norm_comps root st cs) \<le> parts_length st + parts_length cs"
proof (induction root st cs rule: norm_comps.induct)
  case (2 root st c cs)
  have "parts_length (tl st) \<le> parts_length st" by (cases st) auto
  with 2 show ?case by (cases "st \<noteq> [] \<and> hd st \<noteq> ''..''") auto
qed simp

lemma length_normpath: "length (normpath p) \<le> max 1 (length p)"
proof -
  obtain d r t where s: "splitroot (to_backslash p) = (d, r, t)" by (metis prod_cases3)
  define cs where "cs = norm_comps (r \<noteq> []) [] (split_on backslash t)"
  have l: "length p = length d + length r + length t"
    using arg_cong [OF splitroot_parts [OF s], of length] by (simp add: to_backslash_def)
  have n: "normpath p = d @ r @ join_on backslash (if d @ r = [] \<and> cs = [] then [''.''] else cs)"
    by (simp only: normpath_def s Let_def cs_def prod.case)
  show ?thesis
  proof (cases "cs = []")
    case True
    then show ?thesis using l by (auto simp: n max_def)
  next
    case False
    have "parts_length cs \<le> Suc (length t)"
      using norm_comps_length [of "r \<noteq> []" "[]" "split_on backslash t"] by (simp add: cs_def parts_length_split)
    then have "length (join_on backslash cs) \<le> length t"
      using length_join_on [OF False, of backslash] by simp
    then show ?thesis using l False by (simp add: n)
  qed
qed

subsection \<open>Extensions\<close>

definition rfind :: "(char \<Rightarrow> bool) \<Rightarrow> string \<Rightarrow> int" where
  "rfind P s = int (length s) - 1 - int (length (takeWhile (\<lambda>c. \<not> P c) (rev s)))"

text \<open>\<open>genericpath._splitext\<close> with a separator test: leading dots of the last component start no extension.\<close>

definition splitext_with :: "(char \<Rightarrow> bool) \<Rightarrow> string \<Rightarrow> string \<times> string" where
  "splitext_with P p =
     (let sep_index = rfind P p; dot_index = rfind (\<lambda>c. c = CHR ''.'') p
      in if sep_index < dot_index \<and>
           (\<exists>c \<in> set (take (nat (dot_index - (sep_index + 1))) (drop (nat (sep_index + 1)) p)). c \<noteq> CHR ''.'')
         then (take (nat dot_index) p, drop (nat dot_index) p) else (p, []))"

definition splitext :: "string \<Rightarrow> string \<times> string" where "splitext = splitext_with is_sep"

text \<open>\<open>s.strip(c)\<close>.\<close>

definition strip_char :: "char \<Rightarrow> string \<Rightarrow> string" where
  "strip_char c s = rev (dropWhile (\<lambda>x. x = c) (rev (dropWhile (\<lambda>x. x = c) s)))"

end
