(* ===== verification/Bytes_IO.thy ===== *)
theory Bytes_IO
  imports Bytes
begin

text \<open>
  Python's \<open>io.BytesIO\<close> as the files and the sockets use it: the contents and the stream position. A seek past the end
  is allowed; a write there fills the gap with zero bytes; a write of no bytes changes nothing.
\<close>

record bytes_io =
  bio_data :: "byte list"
  bio_pos :: nat

definition bio_new :: "byte list \<Rightarrow> bytes_io" where
  "bio_new d = \<lparr>bio_data = d, bio_pos = 0\<rparr>"

definition SEEK_SET :: int where "SEEK_SET = 0"
definition SEEK_CUR :: int where "SEEK_CUR = 1"
definition SEEK_END :: int where "SEEK_END = 2"

text \<open>\<open>seek(offset, whence)\<close> returns the new position.\<close>

definition bio_seek :: "int \<Rightarrow> int \<Rightarrow> bytes_io \<Rightarrow> (nat \<times> bytes_io) result" where
  "bio_seek offset whence b =
     (if whence = SEEK_SET
      then if offset < 0 then Inl ValueError else Inr (nat offset, b\<lparr>bio_pos := nat offset\<rparr>)
      else if whence = SEEK_CUR
      then (let p = nat (int (bio_pos b) + offset) in Inr (p, b\<lparr>bio_pos := p\<rparr>))
      else if whence = SEEK_END
      then (let p = nat (int (length (bio_data b)) + offset) in Inr (p, b\<lparr>bio_pos := p\<rparr>))
      else Inl ValueError)"

definition bio_read :: "int \<Rightarrow> bytes_io \<Rightarrow> byte list \<times> bytes_io" where
  "bio_read n b =
     (let rest = drop (bio_pos b) (bio_data b);
          d = (if n < 0 then rest else take (nat n) rest)
      in (d, b\<lparr>bio_pos := bio_pos b + length d\<rparr>))"

definition splice :: "nat \<Rightarrow> byte list \<Rightarrow> byte list \<Rightarrow> byte list" where
  "splice p d c = take p c @ replicate (p - length c) 0 @ d @ drop (p + length d) c"

definition bio_write :: "byte list \<Rightarrow> bytes_io \<Rightarrow> bytes_io" where
  "bio_write d b =
     (if d = [] then b
      else b\<lparr>bio_data := splice (bio_pos b) d (bio_data b), bio_pos := bio_pos b + length d\<rparr>)"

definition bio_truncate :: "bytes_io \<Rightarrow> bytes_io" where
  "bio_truncate b = b\<lparr>bio_data := take (bio_pos b) (bio_data b)\<rparr>"

lemma length_splice: "length (splice p d c) = max (length c) (p + length d)"
  by (simp add: splice_def)

lemma splice_read: "take (length d) (drop p (splice p d c)) = d"
  by (simp add: splice_def)

lemma splice_before: "i < p \<Longrightarrow> i < length c \<Longrightarrow> splice p d c ! i = c ! i"
  by (simp add: splice_def nth_append)

lemma splice_after: "p + length d \<le> i \<Longrightarrow> i < length c \<Longrightarrow> splice p d c ! i = c ! i"
  by (auto simp: splice_def nth_append)

lemma splice_end: "splice (length c) d c = c @ d"
  by (simp add: splice_def)

lemma write_then_read_bio:
  "d \<noteq> [] \<Longrightarrow> bio_data (bio_write d b) = splice (bio_pos b) d (bio_data b) \<and>
   fst (bio_read (int (length d)) ((bio_write d b)\<lparr>bio_pos := bio_pos b\<rparr>)) = d"
  by (simp add: bio_write_def bio_read_def splice_read)

end
