(* ===== verification/Files.thy ===== *)
theory Files
  imports Handles Codecs Nt_Paths Bytes_IO
begin

text \<open>
  The emulated file system of \<^verbatim>\<open>speakeasy/windows/fileman.py\<close>. A file object is mutable and shared by handles and
  by the list of files, so it is an index into \<open>fw_objs\<close>; its contents are a \<open>BytesIO\<close> that the objects of several
  handles share, an index into \<open>fw_bufs\<close>. File mappings are indices into \<open>fw_maps\<close>. The handles live in the table of
  the current process. The configuration, the host files and the package root are the parameter \<open>file_env\<close>: the code
  only calls the host file system.
\<close>

subsection \<open>Configuration and state\<close>

record byte_fill =
  bf_byte :: string
  bf_size :: int

datatype file_entry =
    FileEntryFullPath string "string option" "byte_fill option"
  | FileEntryByExt string "string option" "byte_fill option"
  | FileEntryDefault "string option" "byte_fill option"

primrec fe_path :: "file_entry \<Rightarrow> string option" where
  "fe_path (FileEntryFullPath emu_path path fill) = path"
| "fe_path (FileEntryByExt ext path fill) = path"
| "fe_path (FileEntryDefault path fill) = path"

primrec fe_byte_fill :: "file_entry \<Rightarrow> byte_fill option" where
  "fe_byte_fill (FileEntryFullPath emu_path path fill) = fill"
| "fe_byte_fill (FileEntryByExt ext path fill) = fill"
| "fe_byte_fill (FileEntryDefault path fill) = fill"

record file_env =
  fe_files :: "file_entry list"
  fe_current_dir :: string
  fe_env_vars :: "(string \<times> string) list"
  fe_user_modules :: "string list"
  fe_system_modules :: "string list"
  fe_emulated_binname :: string
  fe_root :: string
  fe_host_exists :: "string \<Rightarrow> bool"
  fe_host_read :: "string \<Rightarrow> byte list option"

record map_view =
  mv_base :: int
  mv_offset :: int
  mv_size :: int
  mv_protect :: int
  mv_process :: "nat option"

record file_map =
  fm_name :: "string option"
  fm_backed_file :: "nat option"
  fm_views :: "(int \<times> map_view) list"
  fm_size :: int
  fm_prot :: int

record pipe_info =
  pi_name :: string
  pi_mode :: int
  pi_num_instances :: int
  pi_out_size :: int
  pi_in_size :: int

datatype file_class = FileClass | NullDeviceClass | PipeClass pipe_info

record file_obj =
  fo_class :: file_class
  fo_path :: string
  fo_data :: "nat option"
  fo_pos :: nat
  fo_origin :: "nat option"
  fo_bytes_written :: nat
  fo_is_dir :: bool
  fo_append :: bool
  fo_config :: "file_entry option"

datatype event_type =
  FILE_CREATE | FILE_DELETE | FILE_OPEN | FILE_READ | FILE_WRITE | DIRECTORY_CREATE | DIRECTORY_DELETE

text \<open>The arguments of \<open>emu.record_file_event\<close>.\<close>

record file_event =
  ev_path :: string
  ev_type :: event_type
  ev_data :: "byte list option"
  ev_handle :: "int option"
  ev_disposition :: "string list"
  ev_access :: "string list"
  ev_buffer :: int
  ev_size :: "nat option"

datatype file_ref = FileRef nat | MapRef nat | OtherRef nat

record file_world =
  fw_objs :: "file_obj list"
  fw_bufs :: "bytes_io list"
  fw_maps :: "file_map list"
  fw_mappings :: "nat list"
  fw_files :: "nat list"
  fw_deleted_paths :: "string list"
  fw_created_dirs :: "string list"
  fw_removed_dirs :: "string list"
  fw_events :: "file_event list"
  fw_process_path :: "string option"
  fw_table :: nat

type_synonym file_state = "(file_ref, file_world) handle_world"

definition init_files :: "allocator \<Rightarrow> nat \<Rightarrow> string option \<Rightarrow> file_state" where
  "init_files al table process =
     \<lparr>hw_alloc = al, hw_tables = (\<lambda>_. Map.empty),
      hw_world = \<lparr>fw_objs = [], fw_bufs = [], fw_maps = [], fw_mappings = [], fw_files = [], fw_deleted_paths = [],
        fw_created_dirs = [], fw_removed_dirs = [], fw_events = [], fw_process_path = process, fw_table = table\<rparr>\<rparr>"

text \<open>Computations that change the state and may raise; the state before the exception stays.\<close>

definition sret :: "'a \<Rightarrow> 's \<Rightarrow> 'a result \<times> 's" where
  "sret x s = (Inr x, s)"

definition sbind :: "('s \<Rightarrow> 'a result \<times> 's) \<Rightarrow> ('a \<Rightarrow> 's \<Rightarrow> 'b result \<times> 's) \<Rightarrow> 's \<Rightarrow> 'b result \<times> 's" where
  "sbind m f s = (case m s of (Inl e, s') \<Rightarrow> (Inl e, s') | (Inr x, s') \<Rightarrow> f x s')"

definition on_world :: "('w \<Rightarrow> 'a result \<times> 'w) \<Rightarrow> ('o, 'w) handle_world \<Rightarrow> 'a result \<times> ('o, 'w) handle_world" where
  "on_world m s = (let (r, w) = m (hw_world s) in (r, s\<lparr>hw_world := w\<rparr>))"

definition upd_file :: "nat \<Rightarrow> (file_obj \<Rightarrow> file_obj) \<Rightarrow> file_world \<Rightarrow> file_world" where
  "upd_file i f w = w\<lparr>fw_objs := (fw_objs w)[i := f (fw_objs w ! i)]\<rparr>"

definition put_buf :: "nat \<Rightarrow> bytes_io \<Rightarrow> file_world \<Rightarrow> file_world" where
  "put_buf b x w = w\<lparr>fw_bufs := (fw_bufs w)[b := x]\<rparr>"

definition new_file_obj :: "file_class \<Rightarrow> string \<Rightarrow> file_entry option \<Rightarrow> file_obj" where
  "new_file_obj c path config =
     \<lparr>fo_class = c, fo_path = path, fo_data = None, fo_pos = 0, fo_origin = None, fo_bytes_written = 0,
      fo_is_dir = False, fo_append = False, fo_config = config\<rparr>"

text \<open>\<open>File.__init__\<close>: \<open>data\<close> makes a buffer only when it is not empty.\<close>

definition new_file :: "file_class \<Rightarrow> string \<Rightarrow> file_entry option \<Rightarrow> byte list \<Rightarrow> file_world \<Rightarrow> nat \<times> file_world" where
  "new_file c path config d w =
     (let i = length (fw_objs w); f = new_file_obj c path config
      in if d = [] then (i, w\<lparr>fw_objs := fw_objs w @ [f]\<rparr>)
         else (i, w\<lparr>fw_objs := fw_objs w @ [f\<lparr>fo_data := Some (length (fw_bufs w))\<rparr>],
                fw_bufs := fw_bufs w @ [bio_new d]\<rparr>))"

subsection \<open>Paths\<close>

definition NULL_DEVICE_PREFIXES :: "string list" where
  "NULL_DEVICE_PREFIXES =
     [[backslash, backslash, CHR ''.'', backslash], [backslash, CHR ''?'', CHR ''?'', backslash]]"

definition is_null_device :: "string \<Rightarrow> bool" where
  "is_null_device path =
     (let path = (case find (starts_with path) NULL_DEVICE_PREFIXES of
                    Some prefix \<Rightarrow> drop (length prefix) path | None \<Rightarrow> path)
      in lower path = ''nul'')"

definition get_path_key :: "string \<Rightarrow> string" where
  "get_path_key path = lower (rstrip backslash (normpath path))"

definition normalize_response_path :: "file_env \<Rightarrow> string \<Rightarrow> string" where
  "normalize_response_path env path =
     (if contains ''$ROOT$'' path then replace_all ''$ROOT$'' (fe_root env) path else path)"

definition strip_prefix :: "string \<Rightarrow> string \<Rightarrow> string" where
  "strip_prefix prefix name = (if starts_with name prefix then drop (length prefix) name else name)"

definition get_object_name_key :: "string \<Rightarrow> string" where
  "get_object_name_key name =
     (let name = lower name;
          name = (case after_first (''basenamedobjects'' @ [backslash]) name of Some t \<Rightarrow> t | None \<Rightarrow> name)
      in strip_prefix (''local'' @ [backslash]) (strip_prefix (''global'' @ [backslash]) name))"

definition get_full_path :: "file_env \<Rightarrow> string \<Rightarrow> string" where
  "get_full_path env path = (if isabs path then path else normpath (path_join (fe_current_dir env) path))"

subsection \<open>The contents of a file\<close>

definition fill_data :: "byte_fill option \<Rightarrow> bytes_io result" where
  "fill_data bf =
     (case bf of
        None \<Rightarrow> Inr (bio_new [])
      | Some f \<Rightarrow>
          rbind (if starts_with (bf_byte f) ''0x'' then int0 (bf_byte f) else int16 (bf_byte f))
            (\<lambda>v. Inr (bio_new (replicate (nat (bf_size f)) (word_of_int (0xFF AND v))))))"

definition handle_file_data :: "file_env \<Rightarrow> file_entry option \<Rightarrow> bytes_io result" where
  "handle_file_data env config =
     (case config of
        None \<Rightarrow> Inr (bio_new [])
      | Some c \<Rightarrow>
          (case fe_path c of
             Some path \<Rightarrow>
               if path \<noteq> []
               then (case fe_host_read env (normalize_response_path env path) of
                       Some d \<Rightarrow> Inr (bio_new d) | None \<Rightarrow> Inl OSError)
               else fill_data (fe_byte_fill c)
           | None \<Rightarrow> fill_data (fe_byte_fill c)))"

definition get_buffer :: "file_env \<Rightarrow> nat \<Rightarrow> file_world \<Rightarrow> nat result \<times> file_world" where
  "get_buffer env i w =
     (case fo_data (fw_objs w ! i) of
        Some b \<Rightarrow> (Inr b, w)
      | None \<Rightarrow>
          (case handle_file_data env (fo_config (fw_objs w ! i)) of
             Inl e \<Rightarrow> (Inl e, w)
           | Inr d \<Rightarrow>
               (Inr (length (fw_bufs w)),
                upd_file i (\<lambda>f. f\<lparr>fo_data := Some (length (fw_bufs w))\<rparr>) (w\<lparr>fw_bufs := fw_bufs w @ [d]\<rparr>))))"

text \<open>A seek of the buffer.\<close>

definition buf_seek :: "nat \<Rightarrow> int \<Rightarrow> int \<Rightarrow> file_world \<Rightarrow> nat result \<times> file_world" where
  "buf_seek b offset whence w =
     (case bio_seek offset whence (fw_bufs w ! b) of
        Inl e \<Rightarrow> (Inl e, w) | Inr (p, x) \<Rightarrow> (Inr p, put_buf b x w))"

definition duplicate :: "file_env \<Rightarrow> nat \<Rightarrow> file_world \<Rightarrow> nat result \<times> file_world" where
  "duplicate env i w =
     (let f = fw_objs w ! i
      in if fo_class f = NullDeviceClass
         then (let (j, w') = new_file NullDeviceClass (fo_path f) None [] w in (Inr j, w'))
         else sbind (get_buffer env i) (\<lambda>b w.
           let (j, w') = new_file FileClass (fo_path f) (fo_config f) [] w
           in (Inr j, upd_file j (\<lambda>g. g\<lparr>fo_data := Some b,
                 fo_origin := (case fo_origin f of Some k \<Rightarrow> Some k | None \<Rightarrow> Some i), fo_is_dir := fo_is_dir f\<rparr>) w')) w)"

definition get_size :: "file_env \<Rightarrow> nat \<Rightarrow> file_world \<Rightarrow> nat result \<times> file_world" where
  "get_size env i = sbind (get_buffer env i) (\<lambda>b. buf_seek b 0 SEEK_END)"

definition get_contents :: "file_env \<Rightarrow> nat \<Rightarrow> file_world \<Rightarrow> byte list result \<times> file_world" where
  "get_contents env i = sbind (get_buffer env i) (\<lambda>b w. (Inr (bio_data (fw_bufs w ! b)), w))"

text \<open>\<open>sha256\<close> stands for the digest of \<open>hashlib\<close>.\<close>

definition get_hash :: "file_env \<Rightarrow> (byte list \<Rightarrow> string) \<Rightarrow> nat \<Rightarrow> file_world \<Rightarrow> string result \<times> file_world" where
  "get_hash env sha256 i = sbind (get_contents env i) (\<lambda>d. sret (sha256 d))"

definition get_data :: "file_env \<Rightarrow> int \<Rightarrow> bool \<Rightarrow> nat \<Rightarrow> file_world \<Rightarrow> byte list result \<times> file_world" where
  "get_data env sz reset_pointer i w =
     (if fo_class (fw_objs w ! i) = NullDeviceClass then (Inr [], w)
      else sbind (get_buffer env i) (\<lambda>b. sbind (get_size env i) (\<lambda>n w.
        let at_end = (fo_pos (fw_objs w ! i) = n)
        in if at_end \<and> \<not> reset_pointer then (Inr [], w)
           else (let w = (if at_end then upd_file i (\<lambda>f. f\<lparr>fo_pos := 0\<rparr>) w else w)
                 in sbind (buf_seek b (int (fo_pos (fw_objs w ! i))) SEEK_SET) (\<lambda>_ w.
                      let (d, x) = bio_read sz (fw_bufs w ! b)
                      in (Inr d, upd_file i (\<lambda>f. f\<lparr>fo_pos := bio_pos x\<rparr>) (put_buf b x w))) w))) w)"

definition file_seek :: "file_env \<Rightarrow> int \<Rightarrow> int \<Rightarrow> nat \<Rightarrow> file_world \<Rightarrow> unit result \<times> file_world" where
  "file_seek env offset whence i w =
     (if whence \<notin> {SEEK_CUR, SEEK_SET, SEEK_END} then (Inr (), w)
      else sbind (get_buffer env i) (\<lambda>b w.
        sbind (buf_seek b (int (fo_pos (fw_objs w ! i))) SEEK_SET) (\<lambda>_.
          sbind (buf_seek b offset whence) (\<lambda>p w. (Inr (), upd_file i (\<lambda>f. f\<lparr>fo_pos := p\<rparr>) w))) w) w)"

text \<open>The count of written bytes of the file and of the file it duplicates.\<close>

definition count_written :: "nat \<Rightarrow> nat \<Rightarrow> file_world \<Rightarrow> file_world" where
  "count_written i n w =
     (let w = upd_file i (\<lambda>f. f\<lparr>fo_bytes_written := fo_bytes_written f + n\<rparr>) w
      in case fo_origin (fw_objs w ! i) of
           None \<Rightarrow> w
         | Some k \<Rightarrow> upd_file k (\<lambda>f. f\<lparr>fo_bytes_written := fo_bytes_written f + n\<rparr>) w)"

definition buf_write :: "nat \<Rightarrow> byte list \<Rightarrow> file_world \<Rightarrow> file_world" where
  "buf_write b d w = put_buf b (bio_write d (fw_bufs w ! b)) w"

definition add_data :: "file_env \<Rightarrow> byte list \<Rightarrow> nat \<Rightarrow> file_world \<Rightarrow> unit result \<times> file_world" where
  "add_data env d i w =
     (if fo_class (fw_objs w ! i) = NullDeviceClass then (Inr (), w)
      else sbind (get_buffer env i) (\<lambda>b. sbind (buf_seek b 0 SEEK_END) (\<lambda>_ w.
        (Inr (), count_written i (length d) (buf_write b d w)))) w)"

definition write_data :: "file_env \<Rightarrow> byte list \<Rightarrow> nat \<Rightarrow> file_world \<Rightarrow> unit result \<times> file_world" where
  "write_data env d i w =
     (if fo_class (fw_objs w ! i) = NullDeviceClass then (Inr (), w)
      else sbind (get_buffer env i) (\<lambda>b w.
        sbind (if fo_append (fw_objs w ! i)
               then sbind (buf_seek b 0 SEEK_END) (\<lambda>p w. (Inr (), upd_file i (\<lambda>f. f\<lparr>fo_pos := p\<rparr>) w))
               else sret ()) (\<lambda>_ w.
          sbind (buf_seek b (int (fo_pos (fw_objs w ! i))) SEEK_SET) (\<lambda>_ w.
            let w = buf_write b d w
            in (Inr (), count_written i (length d) (upd_file i (\<lambda>f. f\<lparr>fo_pos := bio_pos (fw_bufs w ! b)\<rparr>) w))) w) w) w)"

definition remove_data :: "file_env \<Rightarrow> nat \<Rightarrow> file_world \<Rightarrow> unit result \<times> file_world" where
  "remove_data env i =
     sbind (get_buffer env i) (\<lambda>b. sbind (buf_seek b 0 SEEK_SET) (\<lambda>_ w.
       (Inr (), upd_file i (\<lambda>f. f\<lparr>fo_pos := 0\<rparr>) (put_buf b (bio_truncate (fw_bufs w ! b)) w))))"

subsection \<open>Handles and mappings\<close>

text \<open>The table of the current process also holds other kernel objects, and gives the process or the thread for the
  pseudo handles; the file manager accepts neither.\<close>

definition file_callbacks :: "(file_ref, file_world) handle_callbacks" where
  "file_callbacks =
     \<lparr>hc_retain = (\<lambda>_ w. w), hc_release = (\<lambda>_ w. w),
      hc_pseudo = (\<lambda>h w. if h AND HANDLE_MASK \<in> {CURRENT_PROCESS_HANDLE, CURRENT_THREAD_HANDLE}
                          then Some (OtherRef (nat (h AND HANDLE_MASK))) else None)\<rparr>"

definition fm_new_handle :: "file_ref \<Rightarrow> file_state \<Rightarrow> int \<times> file_state" where
  "fm_new_handle x s = open_in file_callbacks (fw_table (hw_world s)) x s"

definition table_get :: "(file_ref \<Rightarrow> bool) \<Rightarrow> int \<Rightarrow> file_state \<Rightarrow> file_ref option" where
  "table_get types handle s = ht_get file_callbacks types handle (hw_tables s (fw_table (hw_world s))) (hw_world s)"

definition get_handle_object :: "int option \<Rightarrow> (file_ref \<Rightarrow> bool) \<Rightarrow> file_state \<Rightarrow> file_ref option" where
  "get_handle_object handle types s = (case handle of None \<Rightarrow> None | Some h \<Rightarrow> table_get types h s)"

definition is_file_ref :: "file_ref \<Rightarrow> bool" where
  "is_file_ref x = (case x of FileRef _ \<Rightarrow> True | _ \<Rightarrow> False)"

definition is_map_ref :: "file_ref \<Rightarrow> bool" where
  "is_map_ref x = (case x of MapRef _ \<Rightarrow> True | _ \<Rightarrow> False)"

definition is_pipe :: "nat \<Rightarrow> file_world \<Rightarrow> bool" where
  "is_pipe i w = (case fo_class (fw_objs w ! i) of PipeClass _ \<Rightarrow> True | _ \<Rightarrow> False)"

definition fm_get_file :: "int \<Rightarrow> file_state \<Rightarrow> nat option" where
  "fm_get_file handle s =
     (case table_get is_file_ref handle s of
        Some (FileRef i) \<Rightarrow> if is_pipe i (hw_world s) then None else Some i
      | _ \<Rightarrow> None)"

definition get_file_from_handle :: "int option \<Rightarrow> file_state \<Rightarrow> nat option" where
  "get_file_from_handle handle s =
     (case get_handle_object handle is_file_ref s of
        Some (FileRef i) \<Rightarrow> if is_pipe i (hw_world s) then None else Some i
      | _ \<Rightarrow> None)"

definition get_pipe :: "int \<Rightarrow> file_state \<Rightarrow> nat option" where
  "get_pipe handle s =
     (case table_get is_file_ref handle s of
        Some (FileRef i) \<Rightarrow> if is_pipe i (hw_world s) then Some i else None
      | _ \<Rightarrow> None)"

definition get_mapping :: "int \<Rightarrow> file_state \<Rightarrow> nat option" where
  "get_mapping handle s = (case table_get is_map_ref handle s of Some (MapRef m) \<Rightarrow> Some m | _ \<Rightarrow> None)"

definition get_object_from_handle :: "int option \<Rightarrow> file_state \<Rightarrow> file_ref option" where
  "get_object_from_handle handle s = get_handle_object handle (\<lambda>x. is_map_ref x \<or> is_file_ref x) s"

definition c_int32 :: "int \<Rightarrow> int" where
  "c_int32 v = (v + 2 ^ 31) mod 2 ^ 32 - 2 ^ 31"

definition INVALID_HANDLE_VALUE :: int where "INVALID_HANDLE_VALUE = -1"

definition new_mapping ::
  "nat option \<Rightarrow> string option \<Rightarrow> int \<Rightarrow> int \<Rightarrow> file_state \<Rightarrow> int option \<times> file_state" where
  "new_mapping f name sz prot s =
     (let w = hw_world s; m = length (fw_maps w);
          fm = \<lparr>fm_name = name, fm_backed_file = f, fm_views = [], fm_size = sz, fm_prot = prot\<rparr>;
          (h, s') = fm_new_handle (MapRef m)
            (s\<lparr>hw_world := w\<lparr>fw_maps := fw_maps w @ [fm], fw_mappings := fw_mappings w @ [m]\<rparr>\<rparr>)
      in (Some h, s'))"

definition file_create_mapping ::
  "int \<Rightarrow> string option \<Rightarrow> int \<Rightarrow> int \<Rightarrow> file_state \<Rightarrow> int option \<times> file_state" where
  "file_create_mapping hfile name sz prot s =
     (if hfile \<noteq> 0 \<and> c_int32 hfile \<noteq> INVALID_HANDLE_VALUE
      then (case fm_get_file hfile s of None \<Rightarrow> (None, s) | Some f \<Rightarrow> new_mapping (Some f) name sz prot s)
      else new_mapping None name sz prot s)"

definition add_view :: "nat \<Rightarrow> int \<Rightarrow> int \<Rightarrow> int \<Rightarrow> int \<Rightarrow> file_world \<Rightarrow> file_world" where
  "add_view m base offset sz protect w =
     (let v = \<lparr>mv_base = base, mv_offset = offset, mv_size = sz, mv_protect = protect, mv_process = None\<rparr>
      in w\<lparr>fw_maps := (fw_maps w)[m := (fw_maps w ! m)\<lparr>fm_views := AList.update base v (fm_views (fw_maps w ! m))\<rparr>]\<rparr>)"

definition open_mapping :: "string \<Rightarrow> file_state \<Rightarrow> int option \<times> file_state" where
  "open_mapping name s =
     (let w = hw_world s; key = get_object_name_key name
      in case find (\<lambda>m. case fm_name (fw_maps w ! m) of
                          None \<Rightarrow> False | Some n \<Rightarrow> n \<noteq> [] \<and> get_object_name_key n = key) (fw_mappings w) of
           None \<Rightarrow> (None, s)
         | Some m \<Rightarrow> (let (h, s') = fm_new_handle (MapRef m) s in (Some h, s')))"

definition get_mapping_from_addr :: "int \<Rightarrow> file_world \<Rightarrow> nat option" where
  "get_mapping_from_addr addr w =
     find (\<lambda>m. map_of (fm_views (fw_maps w ! m)) addr \<noteq> None) (fw_mappings w)"

subsection \<open>The list of files\<close>

definition walk_files :: "file_env \<Rightarrow> string list" where
  "walk_files env =
     concat (map (\<lambda>f. case f of FileEntryFullPath p _ _ \<Rightarrow> if p = [] then [] else [p] | _ \<Rightarrow> []) (fe_files env))"

fun matching_loop :: "string \<Rightarrow> string \<Rightarrow> string list \<Rightarrow> string list \<Rightarrow> (string \<times> bool) list" where
  "matching_loop dir pattern seen [] = []"
| "matching_loop dir pattern seen (emu_path # paths) =
     (let emu_lower = lower emu_path
      in if \<not> starts_with emu_lower (dir @ [backslash]) then matching_loop dir pattern seen paths
         else (let parts = split_on backslash (drop (length dir + 1) emu_lower);
                   child = hd parts;
                   is_dir = 1 < length parts
               in if child \<in> set seen then matching_loop dir pattern seen paths
                  else if fn_match (lower pattern) child
                  then (child, is_dir) # matching_loop dir pattern (child # seen) paths
                  else matching_loop dir pattern seen paths))"

definition find_matching_entries :: "file_env \<Rightarrow> string \<Rightarrow> (string \<times> bool) list" where
  "find_matching_entries env search =
     (if basename search = [] then []
      else matching_loop (rstrip backslash (lower (dirname search))) (basename search) [] (walk_files env))"

definition is_image_alias :: "file_env \<Rightarrow> string \<Rightarrow> file_world \<Rightarrow> bool" where
  "is_image_alias env path w =
     (if fe_emulated_binname env = [] \<or> fw_files w = [] then False
      else if lower path \<noteq> lower (get_full_path env (fe_emulated_binname env)) then False
      else (case fw_process_path w of
              None \<Rightarrow> False
            | Some p \<Rightarrow> lower p = lower (fo_path (fw_objs w ! hd (fw_files w)))))"

definition get_file_from_path :: "file_env \<Rightarrow> string \<Rightarrow> file_world \<Rightarrow> nat option" where
  "get_file_from_path env path w =
     (let path = get_full_path env path
      in case find (\<lambda>i. lower (fo_path (fw_objs w ! i)) = lower path) (fw_files w) of
           Some i \<Rightarrow> Some i
         | None \<Rightarrow> (if is_image_alias env path w then Some (hd (fw_files w)) else None))"

definition add_existing_file :: "string \<Rightarrow> byte list \<Rightarrow> file_world \<Rightarrow> nat \<times> file_world" where
  "add_existing_file path d w =
     (let (i, w) = new_file FileClass path None d w in (i, w\<lparr>fw_files := fw_files w @ [i]\<rparr>))"

definition create_file :: "file_env \<Rightarrow> string \<Rightarrow> file_world \<Rightarrow> nat \<times> file_world" where
  "create_file env path w =
     (let w = (case get_file_from_path env path w of
                 None \<Rightarrow> w | Some f \<Rightarrow> w\<lparr>fw_files := remove_first (\<lambda>i. i = f) (fw_files w)\<rparr>);
          w = w\<lparr>fw_deleted_paths := removeAll (get_path_key (get_full_path env path)) (fw_deleted_paths w)\<rparr>;
          (i, w) = new_file FileClass path None [] w
      in (i, w\<lparr>fw_files := fw_files w @ [i]\<rparr>))"

definition remove_file :: "file_env \<Rightarrow> string \<Rightarrow> file_world \<Rightarrow> nat option \<times> file_world" where
  "remove_file env path w =
     (let w = w\<lparr>fw_deleted_paths := List.insert (get_path_key (get_full_path env path)) (fw_deleted_paths w)\<rparr>
      in case get_file_from_path env path w of
           None \<Rightarrow> (None, w)
         | Some f \<Rightarrow> (Some f, w\<lparr>fw_files := remove_first (\<lambda>i. i = f) (fw_files w)\<rparr>))"

definition by_ext_match :: "string \<Rightarrow> file_entry \<Rightarrow> bool" where
  "by_ext_match path f =
     (let path_ext = strip_char (CHR ''.'') (snd (splitext path))
      in path_ext \<noteq> [] \<and> (case f of FileEntryByExt ext _ _ \<Rightarrow> lower path_ext = ext | _ \<Rightarrow> False))"

definition full_path_match :: "string \<Rightarrow> file_entry \<Rightarrow> bool" where
  "full_path_match path f =
     (case f of FileEntryFullPath emu_path _ _ \<Rightarrow> fn_match (lower emu_path) (lower path) | _ \<Rightarrow> False)"

definition is_default_entry :: "file_entry \<Rightarrow> bool" where
  "is_default_entry f = (case f of FileEntryDefault _ _ \<Rightarrow> True | _ \<Rightarrow> False)"

definition get_emu_file :: "file_env \<Rightarrow> string \<Rightarrow> file_world \<Rightarrow> file_entry option" where
  "get_emu_file env path w =
     (let path = get_full_path env path
      in if get_path_key path \<in> set (fw_deleted_paths w) then None
         else case find (full_path_match path) (fe_files env) of
           Some f \<Rightarrow> Some f
         | None \<Rightarrow>
             (if path \<in> set (fe_user_modules env) \<or> path \<in> set (fe_system_modules env)
              then Some (FileEntryFullPath path None None)
              else case find (by_ext_match path) (fe_files env) of
                Some f \<Rightarrow> Some f
              | None \<Rightarrow> find is_default_entry (fe_files env)))"

definition does_file_exist :: "file_env \<Rightarrow> string \<Rightarrow> file_world \<Rightarrow> bool" where
  "does_file_exist env path w \<longleftrightarrow>
     is_null_device path \<or> get_file_from_path env path w \<noteq> None \<or> get_emu_file env path w \<noteq> None"

definition does_file_exist_by_path :: "file_env \<Rightarrow> string \<Rightarrow> file_world \<Rightarrow> bool" where
  "does_file_exist_by_path env path w \<longleftrightarrow>
     get_file_from_path env path w \<noteq> None \<or>
     (case get_emu_file env path w of Some (FileEntryFullPath _ _ _) \<Rightarrow> True | _ \<Rightarrow> False)"

text \<open>\<open>real_path\<close> is empty when the entry has no host path.\<close>

definition get_file_by_path :: "file_env \<Rightarrow> string \<Rightarrow> file_world \<Rightarrow> nat option result \<times> file_world" where
  "get_file_by_path env path w =
     (let path = get_full_path env path
      in case get_file_from_path env path w of
           Some f \<Rightarrow> (Inr (Some f), w)
         | None \<Rightarrow>
             (case get_emu_file env path w of
                None \<Rightarrow> (Inr None, w)
              | Some fconf \<Rightarrow>
                  (let real_path = normalize_response_path env (case fe_path fconf of None \<Rightarrow> [] | Some p \<Rightarrow> p)
                   in if real_path \<noteq> [] \<and> \<not> fe_host_exists env real_path then (Inl FileSystemEmuError, w)
                      else (let (i, w) = new_file FileClass path (Some fconf) [] w
                            in (Inr (Some i), w\<lparr>fw_files := fw_files w @ [i]\<rparr>)))))"

definition get_file_size :: "file_env \<Rightarrow> string \<Rightarrow> file_world \<Rightarrow> nat option result \<times> file_world" where
  "get_file_size env path =
     sbind (get_file_by_path env path) (\<lambda>f. case f of
       None \<Rightarrow> sret None | Some i \<Rightarrow> sbind (get_size env i) (\<lambda>n. sret (Some n)))"

fun dropped_loop :: "file_env \<Rightarrow> nat list \<Rightarrow> file_world \<Rightarrow> nat list result \<times> file_world" where
  "dropped_loop env [] w = (Inr [], w)"
| "dropped_loop env (i # is) w =
     sbind (get_size env i) (\<lambda>n w.
       sbind (dropped_loop env is) (\<lambda>r w.
         (Inr (if n \<le> fo_bytes_written (fw_objs w ! i) then i # r else r), w)) w) w"

definition get_dropped_files :: "file_env \<Rightarrow> file_world \<Rightarrow> nat list result \<times> file_world" where
  "get_dropped_files env w = dropped_loop env (fw_files w) w"

subsection \<open>Operations that record events\<close>

definition record_file_event :: "file_event \<Rightarrow> file_world \<Rightarrow> file_world" where
  "record_file_event e w = w\<lparr>fw_events := fw_events w @ [e]\<rparr>"

text \<open>The keyword arguments that a call leaves out have the defaults of \<open>record_file_event\<close>.\<close>

definition new_event :: "string \<Rightarrow> event_type \<Rightarrow> file_event" where
  "new_event path t =
     \<lparr>ev_path = path, ev_type = t, ev_data = None, ev_handle = Some 0, ev_disposition = [], ev_access = [],
      ev_buffer = 0, ev_size = None\<rparr>"

definition data_event :: "string \<Rightarrow> event_type \<Rightarrow> byte list \<Rightarrow> int \<Rightarrow> file_event" where
  "data_event path t d buffer =
     (new_event path t)\<lparr>ev_data := Some d, ev_buffer := buffer, ev_size := Some (length d)\<rparr>"

definition delete_file :: "file_env \<Rightarrow> string \<Rightarrow> file_world \<Rightarrow> bool \<times> file_world" where
  "delete_file env path w =
     (let exists = does_file_exist env path w;
          w = snd (remove_file env path w)
      in if \<not> exists then (False, w)
         else (True, record_file_event (new_event (get_full_path env path) FILE_DELETE) w))"

definition copy_file :: "file_env \<Rightarrow> string \<Rightarrow> string \<Rightarrow> file_world \<Rightarrow> nat option result \<times> file_world" where
  "copy_file env src dst =
     sbind (get_file_by_path env src) (\<lambda>sf. case sf of
       None \<Rightarrow> sret None
     | Some i \<Rightarrow> sbind (get_contents env i) (\<lambda>d w.
         let (df, w) = create_file env (get_full_path env dst) w
         in sbind (add_data env d df) (\<lambda>_ w.
              (Inr (Some df),
               record_file_event (data_event (fo_path (fw_objs w ! df)) FILE_WRITE d 0)
                 (record_file_event (new_event (fo_path (fw_objs w ! df)) FILE_CREATE) w))) w))"

definition move_file :: "file_env \<Rightarrow> string \<Rightarrow> string \<Rightarrow> file_world \<Rightarrow> nat option result \<times> file_world" where
  "move_file env src dst =
     sbind (copy_file env src dst) (\<lambda>df w. case df of
       None \<Rightarrow> (Inr None, w) | Some i \<Rightarrow> (Inr (Some i), snd (remove_file env src w)))"

definition record_download :: "file_env \<Rightarrow> string \<Rightarrow> file_world \<Rightarrow> file_world" where
  "record_download env path w =
     (let path = get_full_path env path
      in record_file_event (new_event path FILE_WRITE) (record_file_event (new_event path FILE_CREATE) w))"

definition read_file :: "file_env \<Rightarrow> nat \<Rightarrow> int \<Rightarrow> int \<Rightarrow> file_world \<Rightarrow> byte list result \<times> file_world" where
  "read_file env f sz buffer =
     sbind (get_data env sz False f) (\<lambda>d w.
       (Inr d, record_file_event (data_event (fo_path (fw_objs w ! f)) FILE_READ d buffer) w))"

definition write_file :: "file_env \<Rightarrow> nat \<Rightarrow> byte list \<Rightarrow> int \<Rightarrow> bool \<Rightarrow> file_world \<Rightarrow> unit result \<times> file_world" where
  "write_file env f d buffer at_end =
     sbind (if at_end then add_data env d f else write_data env d f) (\<lambda>_ w.
       (Inr (), record_file_event (data_event (fo_path (fw_objs w ! f)) FILE_WRITE d buffer) w))"

definition create_directory :: "file_env \<Rightarrow> string \<Rightarrow> file_world \<Rightarrow> file_world" where
  "create_directory env path w =
     (let path = get_full_path env path; key = get_path_key path
      in record_file_event (new_event path DIRECTORY_CREATE)
           (w\<lparr>fw_removed_dirs := removeAll key (fw_removed_dirs w),
              fw_created_dirs := List.insert key (fw_created_dirs w)\<rparr>))"

definition remove_directory :: "file_env \<Rightarrow> string \<Rightarrow> file_world \<Rightarrow> file_world" where
  "remove_directory env path w =
     (let path = get_full_path env path; key = get_path_key path
      in record_file_event (new_event path DIRECTORY_DELETE)
           (w\<lparr>fw_created_dirs := removeAll key (fw_created_dirs w),
              fw_removed_dirs := List.insert key (fw_removed_dirs w)\<rparr>))"

definition pipe_open ::
  "file_env \<Rightarrow> string \<Rightarrow> int \<Rightarrow> int \<Rightarrow> int \<Rightarrow> int \<Rightarrow> file_state \<Rightarrow> int \<times> file_state" where
  "pipe_open env path mode num_instances out_size in_size s =
     (let w = hw_world s;
          info = \<lparr>pi_name = path, pi_mode = mode, pi_num_instances = num_instances, pi_out_size = out_size,
                  pi_in_size = in_size\<rparr>;
          (i, w') = new_file (PipeClass info) path (get_emu_file env path w) [] w
      in fm_new_handle (FileRef i) (s\<lparr>hw_world := w'\<rparr>))"

definition record_open ::
  "file_env \<Rightarrow> string \<Rightarrow> event_type \<Rightarrow> int option \<Rightarrow> string list option \<Rightarrow> string list option \<Rightarrow> file_world \<Rightarrow> file_world" where
  "record_open env path t handle disposition access w =
     record_file_event ((new_event (get_full_path env path) t)\<lparr>ev_handle := handle,
       ev_disposition := (case disposition of None \<Rightarrow> [] | Some d \<Rightarrow> d),
       ev_access := (case access of None \<Rightarrow> [] | Some a \<Rightarrow> a)\<rparr>) w"

text \<open>The file object that an open refers to.\<close>

definition open_object :: "file_env \<Rightarrow> string \<Rightarrow> bool \<Rightarrow> file_world \<Rightarrow> nat option result \<times> file_world" where
  "open_object env path create w =
     (if is_null_device path then (let (i, w) = new_file NullDeviceClass path None [] w in (Inr (Some i), w))
      else if create then (let (i, w) = create_file env (get_full_path env path) w in (Inr (Some i), w))
      else (case get_file_from_path env path w of
              Some f \<Rightarrow> sbind (duplicate env f) (\<lambda>j. sret (Some j)) w
            | None \<Rightarrow> get_file_by_path env path w))"

definition file_open ::
  "file_env \<Rightarrow> string \<Rightarrow> bool \<Rightarrow> string list option \<Rightarrow> string list option \<Rightarrow> file_state
    \<Rightarrow> int option result \<times> file_state" where
  "file_open env path create disposition access =
     sbind (on_world (open_object env path create)) (\<lambda>f s.
       let (hnd, s) = (case f of None \<Rightarrow> (None, s)
                       | Some i \<Rightarrow> (let (h, s) = fm_new_handle (FileRef i) s in (Some h, s)));
           t = (if create \<and> \<not> is_null_device path then FILE_CREATE else FILE_OPEN)
       in (Inr hnd, s\<lparr>hw_world := record_open env path t hnd disposition access (hw_world s)\<rparr>))"

subsection \<open>Directories\<close>

definition DIRECTORY_ENV_VARS :: "string list" where
  "DIRECTORY_ENV_VARS =
     [''allusersprofile'', ''appdata'', ''commonprogramfiles'', ''localappdata'', ''path'', ''programdata'',
      ''programfiles'', ''public'', ''systemroot'', ''temp'', ''tmp'', ''userprofile'', ''windir'']"

lemma length_rstrip: "length (rstrip c s) \<le> length s"
  by (metis length_dropWhile_le length_rev rstrip_def)

lemma length_path_key: "length (get_path_key p) \<le> max 1 (length p)"
proof -
  have "length (get_path_key p) \<le> length (normpath p)" by (simp add: get_path_key_def length_rstrip)
  then show ?thesis using length_normpath [of p] by simp
qed

definition short_strings :: "nat \<Rightarrow> string set" where
  "short_strings n = {s. length s \<le> n}"

lemma finite_short_strings [simp]: "finite (short_strings n)"
  using finite_lists_length_le [of "UNIV :: char set" n] by (simp add: short_strings_def)

text \<open>The loop that adds the ancestors of a directory ends: each key is no longer than the one before, or a single
  character, and there are finitely many strings of that length.\<close>

function add_ancestors :: "string \<Rightarrow> string list \<Rightarrow> string list" where
  "add_ancestors key keys =
     (if key \<in> set keys then keys else add_ancestors (get_path_key (dirname key)) (key # keys))"
  by pat_completeness auto
termination
proof (relation "measure (\<lambda>(key, keys). card (short_strings (max 1 (length key)) - set keys))", goal_cases)
  case (2 key keys)
  let ?n = "max 1 (length key)" and ?m = "max 1 (length (get_path_key (dirname key)))"
  have l: "?m \<le> ?n"
    using length_path_key [of "dirname key"] length_dirname [of key] by simp
  have "short_strings ?m - set (key # keys) \<subset> short_strings ?n - set keys"
    using l 2 unfolding short_strings_def by fastforce
  then have "card (short_strings ?m - set (key # keys)) < card (short_strings ?n - set keys)"
    by (intro psubset_card_mono) simp_all
  then show ?case by simp
qed simp

declare add_ancestors.simps [simp del]

fun directory_loop :: "string list \<Rightarrow> string list \<Rightarrow> string list" where
  "directory_loop [] keys = keys"
| "directory_loop (d # ds) keys =
     (if fst (splitdrive d) = [] \<or> CHR ''*'' \<in> set d \<or> CHR ''?'' \<in> set d then directory_loop ds keys
      else directory_loop ds (add_ancestors (get_path_key d) keys))"

definition named_directories :: "file_env \<Rightarrow> file_world \<Rightarrow> string list" where
  "named_directories env w =
     (let files = walk_files env @ map (\<lambda>i. fo_path (fw_objs w ! i)) (fw_files w) @
            filter (\<lambda>p. p \<noteq> []) (fe_user_modules env) @ filter (\<lambda>p. p \<noteq> []) (fe_system_modules env)
      in fe_current_dir env # fw_created_dirs w @
           concat (map (\<lambda>v. split_on (CHR '';'') (case map_of (fe_env_vars env) v of None \<Rightarrow> [] | Some x \<Rightarrow> x))
             DIRECTORY_ENV_VARS) @
           map dirname files)"

definition get_directories :: "file_env \<Rightarrow> file_world \<Rightarrow> string list" where
  "get_directories env w =
     filter (\<lambda>k. k \<notin> set (fw_removed_dirs w)) (directory_loop (named_directories env w) [])"

definition is_directory :: "file_env \<Rightarrow> string \<Rightarrow> file_world \<Rightarrow> bool" where
  "is_directory env path w \<longleftrightarrow> get_path_key (get_full_path env path) \<in> set (get_directories env w)"

end
