(* ===== verification/File_Refinement.thy ===== *)
theory File_Refinement
  imports Files
begin

text \<open>
  The contract of the open files of \<open>Files\<close>: an abstract file has contents and a pointer, the pointer belongs to the
  handle and the contents to all handles of the file. Every sequence of reads, writes, seeks and truncations over any
  number of open files returns what the abstract files return, although the code keeps one shared \<open>BytesIO\<close>, with a
  stream position of its own, behind all handles of a file.
\<close>

subsection \<open>Abstract files\<close>

record afile =
  af_data :: "byte list"
  af_pos :: nat
  af_append :: bool

datatype file_op =
    FRead int bool
  | FWrite "byte list"
  | FAdd "byte list"
  | FSeek int int
  | FTruncate
  | FSize
  | FContents

datatype file_out = OutData "byte list" | OutSize nat | OutNone

definition af_read :: "int \<Rightarrow> bool \<Rightarrow> afile \<Rightarrow> byte list \<times> afile" where
  "af_read n reset f =
     (if af_pos f = length (af_data f) \<and> \<not> reset then ([], f)
      else (let p = (if af_pos f = length (af_data f) then 0 else af_pos f);
                rest = drop p (af_data f);
                d = (if n < 0 then rest else take (nat n) rest)
            in (d, f\<lparr>af_pos := p + length d\<rparr>)))"

definition af_write :: "byte list \<Rightarrow> afile \<Rightarrow> afile" where
  "af_write d f =
     (let p = (if af_append f then length (af_data f) else af_pos f)
      in f\<lparr>af_data := (if d = [] then af_data f else splice p d (af_data f)), af_pos := p + length d\<rparr>)"

definition af_seek :: "int \<Rightarrow> int \<Rightarrow> afile \<Rightarrow> afile result" where
  "af_seek offset whence f =
     (if whence = SEEK_SET then if offset < 0 then Inl ValueError else Inr (f\<lparr>af_pos := nat offset\<rparr>)
      else if whence = SEEK_CUR then Inr (f\<lparr>af_pos := nat (int (af_pos f) + offset)\<rparr>)
      else if whence = SEEK_END then Inr (f\<lparr>af_pos := nat (int (length (af_data f)) + offset)\<rparr>)
      else Inr f)"

primrec af_step :: "file_op \<Rightarrow> afile \<Rightarrow> file_out result \<times> afile" where
  "af_step (FRead n reset) f = (let (d, f') = af_read n reset f in (Inr (OutData d), f'))"
| "af_step (FWrite d) f = (Inr OutNone, af_write d f)"
| "af_step (FAdd d) f = (Inr OutNone, f\<lparr>af_data := af_data f @ d\<rparr>)"
| "af_step (FSeek offset whence) f =
     (case af_seek offset whence f of Inl e \<Rightarrow> (Inl e, f) | Inr f' \<Rightarrow> (Inr OutNone, f'))"
| "af_step FTruncate f = (Inr OutNone, f\<lparr>af_data := [], af_pos := 0\<rparr>)"
| "af_step FSize f = (Inr (OutSize (length (af_data f))), f)"
| "af_step FContents f = (Inr (OutData (af_data f)), f)"

text \<open>Open files: the contents of the buffers, the buffer and the append flag of each file, and the pointers.\<close>

record open_files =
  of_contents :: "nat \<Rightarrow> byte list"
  of_pos :: "nat \<Rightarrow> nat"
  of_buf :: "nat \<Rightarrow> nat"
  of_append :: "nat \<Rightarrow> bool"

definition of_file :: "nat \<Rightarrow> open_files \<Rightarrow> afile" where
  "of_file i A = \<lparr>af_data = of_contents A (of_buf A i), af_pos = of_pos A i, af_append = of_append A i\<rparr>"

definition of_step :: "nat \<times> file_op \<Rightarrow> open_files \<Rightarrow> file_out result \<times> open_files" where
  "of_step x A =
     (let (i, op) = x; (r, f) = af_step op (of_file i A)
      in (r, A\<lparr>of_contents := (of_contents A)(of_buf A i := af_data f), of_pos := (of_pos A)(i := af_pos f)\<rparr>))"

fun of_run :: "(nat \<times> file_op) list \<Rightarrow> open_files \<Rightarrow> file_out result list \<times> open_files" where
  "of_run [] A = ([], A)"
| "of_run (x # xs) A = (let (r, A') = of_step x A; (rs, A'') = of_run xs A' in (r # rs, A''))"

subsection \<open>The operations of the code\<close>

definition out_of :: "('a \<Rightarrow> file_out) \<Rightarrow> 'a result \<times> 's \<Rightarrow> file_out result \<times> 's" where
  "out_of f = (\<lambda>(r, w). (map_sum id f r, w))"

primrec file_step :: "file_env \<Rightarrow> nat \<Rightarrow> file_op \<Rightarrow> file_world \<Rightarrow> file_out result \<times> file_world" where
  "file_step env i (FRead n reset) w = out_of OutData (get_data env n reset i w)"
| "file_step env i (FWrite d) w = out_of (\<lambda>_. OutNone) (write_data env d i w)"
| "file_step env i (FAdd d) w = out_of (\<lambda>_. OutNone) (add_data env d i w)"
| "file_step env i (FSeek offset whence) w = out_of (\<lambda>_. OutNone) (file_seek env offset whence i w)"
| "file_step env i FTruncate w = out_of (\<lambda>_. OutNone) (remove_data env i w)"
| "file_step env i FSize w = out_of OutSize (get_size env i w)"
| "file_step env i FContents w = out_of OutData (get_contents env i w)"

fun file_run :: "file_env \<Rightarrow> (nat \<times> file_op) list \<Rightarrow> file_world \<Rightarrow> file_out result list \<times> file_world" where
  "file_run env [] w = ([], w)"
| "file_run env ((i, op) # xs) w =
     (let (r, w') = file_step env i op w; (rs, w'') = file_run env xs w' in (r # rs, w''))"

definition buf_of :: "nat \<Rightarrow> file_world \<Rightarrow> nat" where
  "buf_of i w = the (fo_data (fw_objs w ! i))"

definition opened :: "nat \<Rightarrow> file_world \<Rightarrow> bool" where
  "opened i w \<longleftrightarrow> i < length (fw_objs w) \<and> fo_data (fw_objs w ! i) \<noteq> None \<and> buf_of i w < length (fw_bufs w) \<and>
     fo_class (fw_objs w ! i) \<noteq> NullDeviceClass"

definition abs_files :: "file_world \<Rightarrow> open_files" where
  "abs_files w =
     \<lparr>of_contents = (\<lambda>b. if b < length (fw_bufs w) then bio_data (fw_bufs w ! b) else []),
      of_pos = (\<lambda>i. if i < length (fw_objs w) then fo_pos (fw_objs w ! i) else 0),
      of_buf = (\<lambda>i. buf_of i w), of_append = (\<lambda>i. fo_append (fw_objs w ! i))\<rparr>"

subsection \<open>Simulation\<close>

text \<open>An update of a file object that keeps its buffer, its class and its append flag.\<close>

definition shape :: "file_world \<Rightarrow> (nat option \<times> bool \<times> file_class) list \<times> nat" where
  "shape w = (map (\<lambda>f. (fo_data f, fo_append f, fo_class f)) (fw_objs w), length (fw_bufs w))"

lemma shape_put_buf [simp]: "shape (put_buf b x w) = shape w"
  by (simp add: shape_def put_buf_def)

lemma shape_upd_file:
  assumes "\<And>f. fo_data (g f) = fo_data f" "\<And>f. fo_append (g f) = fo_append f" "\<And>f. fo_class (g f) = fo_class f"
  shows "shape (upd_file i g w) = shape w"
proof -
  have "map (\<lambda>f. (fo_data f, fo_append f, fo_class f)) ((fw_objs w)[i := g (fw_objs w ! i)]) =
      map (\<lambda>f. (fo_data f, fo_append f, fo_class f)) (fw_objs w)"
    using assms by (intro nth_equalityI) (auto simp: nth_update)
  then show ?thesis by (simp add: shape_def upd_file_def)
qed

lemma upd_file_simps [simp]:
  "length (fw_objs (upd_file i g w)) = length (fw_objs w)" "fw_bufs (upd_file i g w) = fw_bufs w"
  "i < length (fw_objs w) \<Longrightarrow> fw_objs (upd_file i g w) ! i = g (fw_objs w ! i)"
  "fw_objs (put_buf b x w) = fw_objs w" "length (fw_bufs (put_buf b x w)) = length (fw_bufs w)"
  "b < length (fw_bufs w) \<Longrightarrow> fw_bufs (put_buf b x w) ! b = x"
  by (simp_all add: upd_file_def put_buf_def)

lemma shape_count_written [simp]: "shape (count_written i n w) = shape w"
  by (simp add: count_written_def Let_def shape_upd_file split: option.splits)

definition pos_of :: "nat \<Rightarrow> file_world \<Rightarrow> nat" where
  "pos_of i w = (if i < length (fw_objs w) then fo_pos (fw_objs w ! i) else 0)"

definition contents_of :: "nat \<Rightarrow> file_world \<Rightarrow> byte list" where
  "contents_of b w = (if b < length (fw_bufs w) then bio_data (fw_bufs w ! b) else [])"

lemma pos_of_simps [simp]:
  "pos_of j (put_buf b x w) = pos_of j w"
  "(\<And>f. fo_pos (g f) = fo_pos f) \<Longrightarrow> pos_of j (upd_file i g w) = pos_of j w"
  by (auto simp: pos_of_def upd_file_def put_buf_def nth_update)

lemma pos_of_set: "i < length (fw_objs w) \<Longrightarrow>
    pos_of j (upd_file i (\<lambda>f. f\<lparr>fo_pos := p\<rparr>) w) = (if j = i then p else pos_of j w)"
  by (auto simp: pos_of_def upd_file_def nth_list_update)

lemma pos_of_count_written [simp]: "pos_of j (count_written i n w) = pos_of j w"
  by (simp add: count_written_def Let_def split: option.splits)

lemma contents_of_simps [simp]:
  "contents_of c (upd_file i g w) = contents_of c w"
  by (simp add: contents_of_def upd_file_def)

lemma contents_of_count_written [simp]: "contents_of c (count_written i n w) = contents_of c w"
  by (simp add: count_written_def Let_def split: option.splits)

lemma contents_of_put: "b < length (fw_bufs w) \<Longrightarrow>
    contents_of c (put_buf b x w) = (if c = b then bio_data x else contents_of c w)"
  by (auto simp: contents_of_def put_buf_def nth_list_update)

lemma shape_fields:
  assumes "shape w' = shape w"
  shows "length (fw_objs w') = length (fw_objs w)" "length (fw_bufs w') = length (fw_bufs w)"
    "i < length (fw_objs w) \<Longrightarrow> fo_data (fw_objs w' ! i) = fo_data (fw_objs w ! i) \<and>
      fo_append (fw_objs w' ! i) = fo_append (fw_objs w ! i) \<and> fo_class (fw_objs w' ! i) = fo_class (fw_objs w ! i)"
proof -
  note s = assms [unfolded shape_def prod.inject]
  show l: "length (fw_objs w') = length (fw_objs w)"
    using arg_cong [OF conjunct1 [OF s], of length] by simp
  show "length (fw_bufs w') = length (fw_bufs w)" by (rule conjunct2 [OF s])
  show "fo_data (fw_objs w' ! i) = fo_data (fw_objs w ! i) \<and> fo_append (fw_objs w' ! i) = fo_append (fw_objs w ! i) \<and>
      fo_class (fw_objs w' ! i) = fo_class (fw_objs w ! i)" if "i < length (fw_objs w)"
    using arg_cong [OF conjunct1 [OF s], of "\<lambda>xs. xs ! i"] that l by simp
qed

lemma shape_opened:
  assumes "shape w' = shape w"
  shows "buf_of i w' = buf_of i w \<or> \<not> i < length (fw_objs w)" "opened i w' = opened i w"
    "i < length (fw_objs w) \<Longrightarrow> fo_append (fw_objs w' ! i) = fo_append (fw_objs w ! i)"
proof -
  note f = shape_fields [OF assms]
  show "buf_of i w' = buf_of i w \<or> \<not> i < length (fw_objs w)"
    "i < length (fw_objs w) \<Longrightarrow> fo_append (fw_objs w' ! i) = fo_append (fw_objs w ! i)"
    using f(3) by (auto simp: buf_of_def)
  show "opened i w' = opened i w"
    by (cases "i < length (fw_objs w)") (simp_all add: opened_def buf_of_def f)
qed

text \<open>What an operation on the file \<open>i\<close> gives: the contents of its buffer and its pointer; nothing else changes.\<close>

definition effect :: "nat \<Rightarrow> byte list \<Rightarrow> nat \<Rightarrow> file_world \<Rightarrow> file_world \<Rightarrow> bool" where
  "effect i d p w w' \<longleftrightarrow> shape w' = shape w \<and>
     (\<forall>b. contents_of b w' = (if b = buf_of i w then d else contents_of b w)) \<and>
     (\<forall>j. pos_of j w' = (if j = i then p else pos_of j w))"

lemma openedD:
  assumes "opened i w"
  shows "i < length (fw_objs w)" "fo_data (fw_objs w ! i) = Some (buf_of i w)" "buf_of i w < length (fw_bufs w)"
    "fo_class (fw_objs w ! i) \<noteq> NullDeviceClass" "get_buffer env i w = (Inr (buf_of i w), w)"
    "contents_of (buf_of i w) w = bio_data (fw_bufs w ! buf_of i w)" "pos_of i w = fo_pos (fw_objs w ! i)"
  using assms by (auto simp: opened_def buf_of_def get_buffer_def contents_of_def pos_of_def)

lemma seek_simps [simp]:
  "bio_seek (int n) SEEK_SET b = Inr (n, b\<lparr>bio_pos := n\<rparr>)"
  "bio_seek 0 SEEK_SET b = Inr (0, b\<lparr>bio_pos := 0\<rparr>)"
  "bio_seek 0 SEEK_END b = Inr (length (bio_data b), b\<lparr>bio_pos := length (bio_data b)\<rparr>)"
  by (simp_all add: bio_seek_def SEEK_SET_def SEEK_END_def SEEK_CUR_def Let_def)

lemmas file_defs = sbind_def sret_def buf_seek_def buf_write_def Let_def


lemma of_file_abs: "opened i w \<Longrightarrow> of_file i (abs_files w) =
    \<lparr>af_data = contents_of (buf_of i w) w, af_pos = pos_of i w, af_append = fo_append (fw_objs w ! i)\<rparr>"
  by (simp add: of_file_def abs_files_def contents_of_def pos_of_def opened_def)

lemma effectI:
  assumes "shape w' = shape w" "\<And>b. contents_of b w' = (if b = buf_of i w then d else contents_of b w)"
    "\<And>j. pos_of j w' = (if j = i then p else pos_of j w)"
  shows "effect i d p w w'"
  using assms by (simp add: effect_def)

lemma shape_set_pos [simp]: "shape (upd_file i (\<lambda>f. f\<lparr>fo_pos := p\<rparr>) w) = shape w"
  by (rule shape_upd_file) simp_all

lemma size_effect:
  assumes "opened i w"
  shows "get_size env i w = (Inr (length (contents_of (buf_of i w) w)),
    put_buf (buf_of i w) ((fw_bufs w ! buf_of i w)\<lparr>bio_pos := length (contents_of (buf_of i w) w)\<rparr>) w)"
  using openedD [OF assms] by (simp add: get_size_def file_defs)

lemma contents_effect:
  assumes "opened i w"
  shows "get_contents env i w = (Inr (contents_of (buf_of i w) w), w)"
  using openedD [OF assms] by (simp add: get_contents_def file_defs)

lemma effect_put: "opened i w \<Longrightarrow>
    effect i (bio_data x) (pos_of i w) w (put_buf (buf_of i w) x w)"
  by (rule effectI) (simp_all add: contents_of_put openedD)

lemma effect_put_pos: "opened i w \<Longrightarrow>
    effect i (bio_data x) p w (upd_file i (\<lambda>f. f\<lparr>fo_pos := p\<rparr>) (put_buf (buf_of i w) x w))"
  by (rule effectI) (simp_all add: contents_of_put openedD(1,3) pos_of_set)

lemma effect_count: "effect i d p w w' \<Longrightarrow> effect i d p w (count_written j n w')"
  by (simp add: effect_def)

lemma put_buf_put_buf [simp]: "put_buf b x (put_buf b y w) = put_buf b x w"
  by (simp add: put_buf_def)

lemma put_buf_upd_file: "put_buf b x (upd_file i g w) = upd_file i g (put_buf b x w)"
  by (simp add: put_buf_def upd_file_def)

lemma upd_pos_twice [simp]: "upd_file i (\<lambda>f. f\<lparr>fo_pos := p\<rparr>) (upd_file i (\<lambda>f. f\<lparr>fo_pos := q\<rparr>) w) =
    upd_file i (\<lambda>f. f\<lparr>fo_pos := p\<rparr>) w"
  by (cases "i < length (fw_objs w)") (simp_all add: upd_file_def list_update_beyond)

lemma opened_put_buf [simp]: "opened i (put_buf b x w) = opened i w" "buf_of i (put_buf b x w) = buf_of i w"
  by (simp_all add: opened_def buf_of_def)

lemma read_effect:
  assumes o: "opened i w" and f: "f = of_file i (abs_files w)"
  shows "\<exists>w'. get_data env n reset i w = (Inr (fst (af_read n reset f)), w') \<and>
    effect i (af_data (snd (af_read n reset f))) (af_pos (snd (af_read n reset f))) w w'"
proof -
  define b where "b = buf_of i w"
  note D = openedD [OF o, folded b_def]
  have fd: "af_data f = bio_data (fw_bufs w ! b)" "af_pos f = fo_pos (fw_objs w ! i)"
    using D by (simp_all add: f of_file_abs [OF o, folded b_def])
  show ?thesis
  proof (cases "af_pos f = length (af_data f) \<and> \<not> reset")
    case True
    then show ?thesis
      using D effect_put [OF o, of "(fw_bufs w ! b)\<lparr>bio_pos := length (bio_data (fw_bufs w ! b))\<rparr>"] fd
      by (auto simp: get_data_def size_effect [OF o, folded b_def] file_defs af_read_def b_def)
  next
    case False
    define p where "p = (if af_pos f = length (af_data f) then 0 else af_pos f)"
    define d where "d = fst (af_read n reset f)"
    have d: "d = (if n < 0 then drop p (af_data f) else take (nat n) (drop p (af_data f)))"
      "snd (af_read n reset f) = f\<lparr>af_pos := p + length d\<rparr>"
      using False by (auto simp: d_def af_read_def p_def Let_def)
    have g: "get_data env n reset i w = (Inr d, upd_file i (\<lambda>f. f\<lparr>fo_pos := p + length d\<rparr>)
        (put_buf b ((fw_bufs w ! b)\<lparr>bio_pos := p + length d\<rparr>) w))"
      using D False fd
      by (auto simp: get_data_def size_effect [OF o, folded b_def] file_defs d(1) p_def bio_read_def put_buf_upd_file)
    show ?thesis
      using g effect_put_pos [OF o, of "(fw_bufs w ! b)\<lparr>bio_pos := p + length d\<rparr>" "p + length d"]
      by (simp add: d(2) d_def fd b_def)
  qed
qed

lemma seek_pos_effect:
  "opened i w \<Longrightarrow> effect i (contents_of (buf_of i w) w) p w (upd_file i (\<lambda>f. f\<lparr>fo_pos := p\<rparr>) w)"
  by (rule effectI) (simp_all add: pos_of_set openedD(1))

lemma effect_cong: "effect i d p w w' \<Longrightarrow> d = d' \<Longrightarrow> p = p' \<Longrightarrow> effect i d' p' w w'"
  by simp

lemma bio_write_simps:
  "bio_data (bio_write d b) = (if d = [] then bio_data b else splice (bio_pos b) d (bio_data b))"
  "bio_pos (bio_write d b) = bio_pos b + length d"
  by (simp_all add: bio_write_def)

lemma write_effect:
  assumes o: "opened i w" and f: "f = of_file i (abs_files w)"
  shows "\<exists>w'. write_data env d i w = (Inr (), w') \<and> effect i (af_data (af_write d f)) (af_pos (af_write d f)) w w'"
proof -
  define b where "b = buf_of i w"
  note D = openedD [OF o, folded b_def]
  have fd: "af_data f = bio_data (fw_bufs w ! b)" "af_pos f = fo_pos (fw_objs w ! i)" "af_append f = fo_append (fw_objs w ! i)"
    using D by (simp_all add: f of_file_abs [OF o, folded b_def])
  define p where "p = (if af_append f then length (af_data f) else af_pos f)"
  define x where "x = bio_write d ((fw_bufs w ! b)\<lparr>bio_pos := p\<rparr>)"
  have x: "bio_data x = af_data (af_write d f)" "bio_pos x = af_pos (af_write d f)"
    by (simp_all add: x_def bio_write_simps af_write_def p_def fd Let_def)
  have "write_data env d i w = (Inr (), count_written i (length d) (upd_file i (\<lambda>f. f\<lparr>fo_pos := bio_pos x\<rparr>) (put_buf b x w)))"
  proof (cases "af_append f")
    case True
    then show ?thesis
      using D fd by (simp add: write_data_def file_defs put_buf_upd_file x_def p_def)
  next
    case False
    then show ?thesis
      using D fd by (simp add: write_data_def file_defs put_buf_upd_file x_def p_def)
  qed
  moreover have "effect i (af_data (af_write d f)) (af_pos (af_write d f)) w
      (count_written i (length d) (upd_file i (\<lambda>f. f\<lparr>fo_pos := bio_pos x\<rparr>) (put_buf b x w)))"
    unfolding b_def x(2) by (rule effect_count, rule effect_cong [OF effect_put_pos [OF o] x(1) refl])
  ultimately show ?thesis by blast
qed

lemma add_effect:
  assumes o: "opened i w"
  shows "\<exists>w'. add_data env d i w = (Inr (), w') \<and>
    effect i (contents_of (buf_of i w) w @ d) (pos_of i w) w w'"
proof -
  note D = openedD [OF o]
  define x where "x = bio_write d ((fw_bufs w ! buf_of i w)\<lparr>bio_pos := length (bio_data (fw_bufs w ! buf_of i w))\<rparr>)"
  have x: "bio_data x = contents_of (buf_of i w) w @ d"
    using D by (simp add: x_def bio_write_simps splice_end)
  have "add_data env d i w = (Inr (), count_written i (length d) (put_buf (buf_of i w) x w))"
    using D by (simp add: add_data_def file_defs x_def)
  moreover have "effect i (contents_of (buf_of i w) w @ d) (pos_of i w) w (count_written i (length d) (put_buf (buf_of i w) x w))"
    by (rule effect_count, rule effect_cong [OF effect_put [OF o] x refl])
  ultimately show ?thesis by blast
qed

lemma truncate_effect:
  assumes o: "opened i w"
  shows "\<exists>w'. remove_data env i w = (Inr (), w') \<and> effect i [] 0 w w'"
  using openedD [OF o] effect_put_pos [OF o, of "bio_truncate ((fw_bufs w ! buf_of i w)\<lparr>bio_pos := 0\<rparr>)" 0]
  by (simp add: remove_data_def file_defs bio_truncate_def)

lemma seek_effect:
  assumes o: "opened i w" and f: "f = of_file i (abs_files w)"
  shows "\<exists>w'. file_seek env offset whence i w = (map_sum id (\<lambda>_. ()) (af_seek offset whence f), w') \<and>
    effect i (af_data f) (case af_seek offset whence f of Inl _ \<Rightarrow> af_pos f | Inr g \<Rightarrow> af_pos g) w w'"
proof -
  define b where "b = buf_of i w"
  note D = openedD [OF o, folded b_def]
  have fd: "af_data f = bio_data (fw_bufs w ! b)" "af_pos f = fo_pos (fw_objs w ! i)" "pos_of i w = af_pos f"
    using D by (simp_all add: f of_file_abs [OF o, folded b_def])
  define y where "y = (fw_bufs w ! b)\<lparr>bio_pos := af_pos f\<rparr>"
  have none: "effect i (af_data f) (af_pos f) w w"
    using D fd by (auto simp: effect_def b_def)
  have pos: "effect i (af_data f) (af_pos f) w (put_buf b y w)"
    unfolding b_def by (rule effect_cong [OF effect_put [OF o]]) (simp_all add: y_def fd b_def)
  have moved: "effect i (af_data f) p w (upd_file i (\<lambda>f. f\<lparr>fo_pos := p\<rparr>) (put_buf b (y\<lparr>bio_pos := p\<rparr>) w))" for p
    unfolding b_def by (rule effect_cong [OF effect_put_pos [OF o]]) (simp_all add: y_def fd b_def)
  have buf: "fw_bufs (put_buf b y w) ! b = y" using D by simp
  note S = SEEK_SET_def SEEK_CUR_def SEEK_END_def
  have e: "file_seek env offset whence i w =
      (if whence \<notin> {SEEK_CUR, SEEK_SET, SEEK_END} then (Inr (), w)
       else case bio_seek offset whence y of
              Inl e \<Rightarrow> (Inl e, put_buf b y w)
            | Inr (p, z) \<Rightarrow> (Inr (), upd_file i (\<lambda>f. f\<lparr>fo_pos := p\<rparr>) (put_buf b z w)))"
    using D buf by (simp add: file_seek_def file_defs fd y_def split: sum.split)
  have y: "bio_pos y = af_pos f" "bio_data y = af_data f" by (simp_all add: y_def fd)
  consider "whence = SEEK_SET" "offset < 0" | "whence = SEEK_SET" "0 \<le> offset" | "whence = SEEK_CUR" | "whence = SEEK_END"
    | "whence \<notin> {SEEK_CUR, SEEK_SET, SEEK_END}"
    by fastforce
  then show ?thesis
    unfolding e by cases (use none pos moved in \<open>simp_all add: af_seek_def bio_seek_def y Let_def S\<close>)
qed

lemma step_effect:
  assumes o: "opened i w"
  shows "\<exists>w'. file_step env i op w = (fst (af_step op (of_file i (abs_files w))), w') \<and>
    effect i (af_data (snd (af_step op (of_file i (abs_files w))))) (af_pos (snd (af_step op (of_file i (abs_files w))))) w w'"
proof -
  define f where "f = of_file i (abs_files w)"
  have fd: "af_data f = contents_of (buf_of i w) w" "af_pos f = pos_of i w"
    by (simp_all add: f_def of_file_abs [OF o])
  show ?thesis
    unfolding f_def [symmetric]
  proof (cases op)
    case (FRead n reset)
    then show "\<exists>w'. file_step env i op w = (fst (af_step op f), w') \<and>
        effect i (af_data (snd (af_step op f))) (af_pos (snd (af_step op f))) w w'"
      using read_effect [OF o f_def, of env n reset] by (auto simp: out_of_def split_beta)
  next
    case (FWrite d)
    then show "\<exists>w'. file_step env i op w = (fst (af_step op f), w') \<and>
        effect i (af_data (snd (af_step op f))) (af_pos (snd (af_step op f))) w w'"
      using write_effect [OF o f_def, of env d] by (auto simp: out_of_def)
  next
    case (FAdd d)
    then show "\<exists>w'. file_step env i op w = (fst (af_step op f), w') \<and>
        effect i (af_data (snd (af_step op f))) (af_pos (snd (af_step op f))) w w'"
      using add_effect [OF o, of env d] by (auto simp: out_of_def fd)
  next
    case (FSeek offset whence)
    then show "\<exists>w'. file_step env i op w = (fst (af_step op f), w') \<and>
        effect i (af_data (snd (af_step op f))) (af_pos (snd (af_step op f))) w w'"
      using seek_effect [OF o f_def, of env offset whence]
      by (cases "af_seek offset whence f") (auto simp: out_of_def af_seek_def split: if_splits)
  next
    case FTruncate
    then show "\<exists>w'. file_step env i op w = (fst (af_step op f), w') \<and>
        effect i (af_data (snd (af_step op f))) (af_pos (snd (af_step op f))) w w'"
      using truncate_effect [OF o, of env] by (auto simp: out_of_def)
  next
    case FSize
    then show "\<exists>w'. file_step env i op w = (fst (af_step op f), w') \<and>
        effect i (af_data (snd (af_step op f))) (af_pos (snd (af_step op f))) w w'"
      using effect_put [OF o, of "(fw_bufs w ! buf_of i w)\<lparr>bio_pos := length (contents_of (buf_of i w) w)\<rparr>"] openedD(6) [OF o]
      by (simp add: out_of_def size_effect [OF o] fd)
  next
    case FContents
    then show "\<exists>w'. file_step env i op w = (fst (af_step op f), w') \<and>
        effect i (af_data (snd (af_step op f))) (af_pos (snd (af_step op f))) w w'"
      by (simp add: out_of_def contents_effect [OF o] fd effect_def)
  qed
qed

text \<open>The abstraction as a relation: the abstract files agree with the code on the opened objects.\<close>

definition simulates :: "nat set \<Rightarrow> open_files \<Rightarrow> file_world \<Rightarrow> bool" where
  "simulates is A w \<longleftrightarrow> (\<forall>i\<in>is. opened i w \<and> of_file i A = of_file i (abs_files w) \<and> of_buf A i = buf_of i w)"

lemma simulates_abs: "(\<And>i. i \<in> is \<Longrightarrow> opened i w) \<Longrightarrow> simulates is (abs_files w) w"
  by (simp add: simulates_def abs_files_def)

lemma simulates_step:
  assumes s: "simulates is A w" and i: "i \<in> is"
  shows "\<exists>w'. file_step env i op w = (fst (of_step (i, op) A), w') \<and> simulates is (snd (of_step (i, op) A)) w'"
proof -
  have o: "opened i w" and f: "of_file i A = of_file i (abs_files w)" and b: "of_buf A i = buf_of i w"
    using s i by (simp_all add: simulates_def)
  define g where "g = snd (af_step op (of_file i A))"
  obtain w' where st: "file_step env i op w = (fst (af_step op (of_file i A)), w')"
    and e: "effect i (af_data g) (af_pos g) w w'"
    using step_effect [OF o, of env op] by (auto simp: g_def f)
  have A': "snd (of_step (i, op) A) =
      A\<lparr>of_contents := (of_contents A)(buf_of i w := af_data g), of_pos := (of_pos A)(i := af_pos g)\<rparr>"
    by (simp add: of_step_def split_beta g_def b)
  have "opened j w' \<and> of_file j (snd (of_step (i, op) A)) = of_file j (abs_files w') \<and>
      of_buf (snd (of_step (i, op) A)) j = buf_of j w'" if j: "j \<in> is" for j
  proof -
    have oj: "opened j w" and fj: "of_file j A = of_file j (abs_files w)" and bj: "of_buf A j = buf_of j w"
      using s j by (simp_all add: simulates_def)
    have sh: "shape w' = shape w" using e by (simp add: effect_def)
    have oj': "opened j w'" using shape_opened(2) [OF sh] oj by simp
    have k: "buf_of j w' = buf_of j w" "fo_append (fw_objs w' ! j) = fo_append (fw_objs w ! j)"
      using shape_opened(1,3) [OF sh, of j] openedD(1) [OF oj] by auto
    have A: "of_contents A (buf_of j w) = contents_of (buf_of j w) w" "of_pos A j = pos_of j w"
      "of_append A j = fo_append (fw_objs w ! j)"
      using fj of_file_abs [OF oj] by (simp_all add: of_file_def bj)
    have "of_file j (snd (of_step (i, op) A)) = of_file j (abs_files w')"
      unfolding of_file_abs [OF oj'] k using e by (simp add: A' of_file_def bj A effect_def)
    then show ?thesis using oj' by (simp add: A' bj k)
  qed
  then have "simulates is (snd (of_step (i, op) A)) w'" by (simp add: simulates_def)
  moreover have "fst (of_step (i, op) A) = fst (af_step op (of_file i A))" by (simp add: of_step_def split_beta)
  ultimately show ?thesis using st by metis
qed

lemma simulates_run:
  "simulates is A w \<Longrightarrow> fst ` set ops \<subseteq> is \<Longrightarrow>
   fst (file_run env ops w) = fst (of_run ops A) \<and> simulates is (snd (of_run ops A)) (snd (file_run env ops w))"
proof (induction ops arbitrary: A w)
  case (Cons x ops)
  obtain i op where x: "x = (i, op)" by fastforce
  have i: "i \<in> is" "fst ` set ops \<subseteq> is" using Cons.prems(2) by (auto simp: x)
  obtain w' where st: "file_step env i op w = (fst (of_step (i, op) A), w')" "simulates is (snd (of_step (i, op) A)) w'"
    using simulates_step [OF Cons.prems(1) i(1)] by blast
  show ?case using Cons.IH [OF st(2) i(2)] by (simp add: x st(1) split_beta)
qed simp

text \<open>C5: the open files behave as files whose contents all handles share and whose pointer each handle has for itself:
  every sequence of reads, writes, seeks, truncations and size queries over any number of open handles returns
  what the abstract files return, errors included, and leaves contents and pointers as they do.\<close>

theorem file_run_refines:
  assumes "\<forall>i \<in> fst ` set ops. opened i w" and "file_run env ops w = (outs, w')"
    and "of_run ops (abs_files w) = (outs', A')"
  shows "outs = outs' \<and> (\<forall>i \<in> fst ` set ops. of_file i (abs_files w') = of_file i A')"
proof -
  have "simulates (fst ` set ops) (abs_files w) w" using assms(1) by (intro simulates_abs) auto
  from simulates_run [OF this subset_refl, of env] assms(2,3) show ?thesis
    by (simp add: simulates_def)
qed

end
