(* ===== verification/File_Names.thy ===== *)
theory File_Names
  imports File_Refinement
begin

text \<open>
  The names of the files of \<open>Files\<close>: which file a path names after files are created, removed, copied and moved. The
  invariant \<open>files_wf\<close> says that no two listed files have the same path up to case and that every file object refers to
  objects and buffers that exist.
\<close>

subsection \<open>The name space\<close>

definition names :: "file_world \<Rightarrow> string list \<times> nat list \<times> string list \<times> string option" where
  "names w = (map fo_path (fw_objs w), fw_files w, fw_deleted_paths w, fw_process_path w)"

definition low_path :: "nat \<Rightarrow> file_world \<Rightarrow> string" where
  "low_path i w = lower (fo_path (fw_objs w ! i))"

definition files_wf :: "file_world \<Rightarrow> bool" where
  "files_wf w \<longleftrightarrow> distinct (map (\<lambda>i. low_path i w) (fw_files w)) \<and>
     (\<forall>i\<in>set (fw_files w). i < length (fw_objs w) \<and> fo_class (fw_objs w ! i) = FileClass) \<and>
     (\<forall>i<length (fw_objs w). \<forall>b. fo_data (fw_objs w ! i) = Some b \<longrightarrow> b < length (fw_bufs w))"

lemma files_wfD:
  assumes "files_wf w"
  shows "distinct (map (\<lambda>i. low_path i w) (fw_files w))" "distinct (fw_files w)"
    "i \<in> set (fw_files w) \<Longrightarrow> i < length (fw_objs w)" "i \<in> set (fw_files w) \<Longrightarrow> fo_class (fw_objs w ! i) = FileClass"
    "i < length (fw_objs w) \<Longrightarrow> fo_data (fw_objs w ! i) = Some b \<Longrightarrow> b < length (fw_bufs w)"
  using assms by (auto simp: files_wf_def distinct_map)

text \<open>The path names the sample by the program name of the command line.\<close>

definition alias_path :: "file_env \<Rightarrow> string \<Rightarrow> bool" where
  "alias_path env path \<longleftrightarrow> fe_emulated_binname env \<noteq> [] \<and>
     lower (get_full_path env path) = lower (get_full_path env (fe_emulated_binname env))"

definition listed :: "string \<Rightarrow> file_world \<Rightarrow> nat option" where
  "listed path w = find (\<lambda>i. low_path i w = lower path) (fw_files w)"

lemma get_file_eq: "get_file_from_path env path w =
    (case listed (get_full_path env path) w of
       Some i \<Rightarrow> Some i
     | None \<Rightarrow> if is_image_alias env (get_full_path env path) w then Some (hd (fw_files w)) else None)"
  by (simp add: get_file_from_path_def listed_def low_path_def Let_def)

lemma get_file_listed: "\<not> alias_path env path \<Longrightarrow>
    get_file_from_path env path w = listed (get_full_path env path) w"
  by (auto simp: get_file_eq is_image_alias_def alias_path_def split: option.split)

lemma get_file_cases:
  "get_file_from_path env path w = listed (get_full_path env path) w \<or>
   listed (get_full_path env path) w = None \<and> fw_files w \<noteq> [] \<and> get_file_from_path env path w = Some (hd (fw_files w))"
  by (auto simp: get_file_eq is_image_alias_def split: option.split)

lemma full_path_abs [simp]: "isabs path \<Longrightarrow> get_full_path env path = path"
  by (simp add: get_full_path_def)

lemma listed_Some:
  assumes "files_wf w" "i \<in> set (fw_files w)" "low_path i w = lower path"
  shows "listed path w = Some i"
  unfolding listed_def
proof (rule find_eq_SomeI)
  show "i \<in> set (fw_files w)" "low_path i w = lower path" by (rule assms)+
  show "j = i" if "j \<in> set (fw_files w)" "low_path j w = lower path" for j
    using files_wfD(1) [OF assms(1)] assms(2,3) that by (auto simp: distinct_map inj_on_def)
qed

lemma listed_SomeD: "listed path w = Some i \<Longrightarrow> i \<in> set (fw_files w) \<and> low_path i w = lower path"
  by (auto simp: listed_def dest: find_SomeD)

lemma get_file_listed_mem: "get_file_from_path env path w = Some i \<Longrightarrow> i \<in> set (fw_files w)"
  using get_file_cases [of env path w] listed_SomeD by (metis hd_in_set option.inject option.distinct(1))

lemma set_remove_one: "distinct xs \<Longrightarrow> set (remove_first (\<lambda>i. i = f) xs) = set xs - {f}"
  by (induction xs) auto

lemma distinct_map_remove: "distinct (map g xs) \<Longrightarrow> distinct (map g (remove_first P xs))"
proof (induction xs)
  case (Cons x xs)
  then show ?case using set_remove_first_subset [of P xs] by auto
qed simp

subsection \<open>Operations that keep the names\<close>

lemma names_low_path: "names w' = names w \<Longrightarrow> i < length (fw_objs w) \<Longrightarrow> low_path i w' = low_path i w"
  unfolding names_def low_path_def by (metis (no_types, lifting) length_map nth_map prod.inject)

lemma names_fields: "names w' = names w \<Longrightarrow> fw_files w' = fw_files w \<and> fw_deleted_paths w' = fw_deleted_paths w \<and>
    fw_process_path w' = fw_process_path w \<and> length (fw_objs w') = length (fw_objs w)"
  unfolding names_def by (metis length_map prod.inject)

lemma names_upd_file:
  assumes "\<And>f. fo_path (g f) = fo_path f"
  shows "names (upd_file i g w) = names w"
proof -
  have "map fo_path ((fw_objs w)[i := g (fw_objs w ! i)]) = map fo_path (fw_objs w)"
    by (rule nth_equalityI) (simp_all add: assms nth_update)
  then show ?thesis by (simp add: names_def upd_file_def)
qed

lemma names_simps [simp]:
  "names (put_buf b x w) = names w" "names (w\<lparr>fw_bufs := bs\<rparr>) = names w" "names (record_file_event e w) = names w"
  by (simp_all add: names_def put_buf_def record_file_event_def)

lemma names_count_written [simp]: "names (count_written i n w) = names w"
  by (simp add: count_written_def Let_def names_upd_file split: option.split)

lemma names_get_buffer: "names (snd (get_buffer env i w)) = names w"
  by (simp add: get_buffer_def names_upd_file split: option.split sum.split)

lemma names_buf_seek: "names (snd (buf_seek b p k w)) = names w"
  by (simp add: buf_seek_def split: sum.split prod.split)

lemma names_sbind:
  assumes "names (snd (m w)) = names w" "\<And>x w. names (snd (f x w)) = names w"
  shows "names (snd (sbind m f w)) = names w"
  using assms(1) assms(2) [of "projr (fst (m w))" "snd (m w)"]
  by (auto simp: sbind_def split: prod.splits sum.splits)

lemma names_get_contents: "names (snd (get_contents env i w)) = names w"
  unfolding get_contents_def by (rule names_sbind) (simp_all add: names_get_buffer)

lemma names_add_data: "names (snd (add_data env d i w)) = names w"
proof (cases "fo_class (fw_objs w ! i) = NullDeviceClass")
  case False
  have "names (snd (sbind (get_buffer env i) (\<lambda>b. sbind (buf_seek b 0 SEEK_END)
      (\<lambda>_ w. (Inr (), count_written i (length d) (buf_write b d w)))) w)) = names w"
    by (intro names_sbind) (simp_all add: names_get_buffer names_buf_seek buf_write_def)
  then show ?thesis using False by (simp add: add_data_def)
qed (simp add: add_data_def)

subsection \<open>Operations that keep the objects well formed\<close>

text \<open>The part of the invariant that the contents operations must keep.\<close>

definition bufs_ok :: "file_world \<Rightarrow> bool" where
  "bufs_ok w \<longleftrightarrow> (\<forall>i<length (fw_objs w). \<forall>b. fo_data (fw_objs w ! i) = Some b \<longrightarrow> b < length (fw_bufs w))"

lemma get_buffer_ok:
  assumes "bufs_ok w" "i < length (fw_objs w)" "fo_class (fw_objs w ! i) \<noteq> NullDeviceClass"
    and "get_buffer env i w = (Inr b, w')"
  shows "bufs_ok w'" "opened i w'" "buf_of i w' = b" "get_buffer env i w' = (Inr b, w')"
    "\<And>j. j < length (fw_objs w) \<Longrightarrow> fo_class (fw_objs w' ! j) = fo_class (fw_objs w ! j)"
  using assms
  by (auto simp: get_buffer_def opened_def buf_of_def bufs_ok_def upd_file_def nth_update less_Suc_eq
      split: option.splits sum.splits if_splits)

lemma get_contents_ok:
  assumes ok: "bufs_ok w" "i < length (fw_objs w)" "fo_class (fw_objs w ! i) \<noteq> NullDeviceClass"
    and c: "get_contents env i w = (r, w')"
  shows "bufs_ok w' \<and> (\<forall>j<length (fw_objs w). fo_class (fw_objs w' ! j) = fo_class (fw_objs w ! j))"
proof (cases "get_buffer env i w")
  case (Pair rb w1)
  show ?thesis
  proof (cases rb)
    case (Inl e)
    then have "w1 = w" using Pair by (auto simp: get_buffer_def split: option.splits sum.splits)
    then show ?thesis using c ok Pair Inl by (auto simp: get_contents_def sbind_def)
  next
    case (Inr b)
    have "w' = w1" using c Pair Inr by (simp add: get_contents_def sbind_def)
    then show ?thesis using get_buffer_ok [OF ok, of env b w1] Pair Inr by auto
  qed
qed

text \<open>Adding data to a file that may not have its buffer yet.\<close>

lemma add_data_ok:
  assumes ok: "bufs_ok w" "i < length (fw_objs w)" "fo_class (fw_objs w ! i) \<noteq> NullDeviceClass"
    and b: "get_buffer env i w = (Inr b, w1)" and a: "add_data env d i w = (r, w')"
  shows "r = Inr () \<and> shape w' = shape w1 \<and> get_contents env i w' = (Inr (contents_of b w1 @ d), w')"
proof -
  note g = get_buffer_ok [OF ok b]
  have "fo_class (fw_objs w1 ! i) = fo_class (fw_objs w ! i)" using g(5) ok(2) by blast
  then have "add_data env d i w = add_data env d i w1"
    using ok(3) by (simp add: add_data_def sbind_def b g(4))
  then obtain w2 where w2: "add_data env d i w = (Inr (), w2)" "effect i (contents_of b w1 @ d) (pos_of i w1) w1 w2"
    using add_effect [OF g(2), of env d] g(3) by metis
  have e: "r = Inr ()" "w' = w2" using w2(1) a by auto
  have sh: "shape w' = shape w1" using w2(2) e by (simp add: effect_def)
  have o: "opened i w'" using shape_opened(2) [OF sh] g(2) by simp
  have "buf_of i w' = b" using shape_opened(1) [OF sh, of i] g(3) openedD(1) [OF g(2)] by auto
  then have "get_contents env i w' = (Inr (contents_of b w1 @ d), w')"
    using contents_effect [OF o] w2(2) g(3) e by (simp add: effect_def)
  then show ?thesis using e sh by simp
qed

lemma shape_bufs_ok: "shape w' = shape w \<Longrightarrow> bufs_ok w' = bufs_ok w"
  using shape_fields [of w' w] by (auto simp: bufs_ok_def)


lemma files_wf_bufs: "files_wf w \<Longrightarrow> bufs_ok w"
  by (simp add: files_wf_def bufs_ok_def)

lemma files_wfI:
  assumes "distinct (map (\<lambda>i. low_path i w) (fw_files w))"
    "\<And>i. i \<in> set (fw_files w) \<Longrightarrow> i < length (fw_objs w) \<and> fo_class (fw_objs w ! i) = FileClass" "bufs_ok w"
  shows "files_wf w"
  using assms by (simp add: files_wf_def bufs_ok_def)

text \<open>An operation that keeps the names, the classes and the buffers in bounds keeps the invariant.\<close>

lemma files_wf_names:
  assumes wf: "files_wf w" and n: "names w' = names w" and b: "bufs_ok w'"
    and c: "\<And>j. j < length (fw_objs w) \<Longrightarrow> fo_class (fw_objs w' ! j) = fo_class (fw_objs w ! j)"
  shows "files_wf w'"
proof (rule files_wfI)
  note f = names_fields [OF n]
  have m: "map (\<lambda>i. low_path i w') (fw_files w) = map (\<lambda>i. low_path i w) (fw_files w)"
    using names_low_path [OF n] files_wfD(3) [OF wf] by simp
  show "distinct (map (\<lambda>i. low_path i w') (fw_files w'))"
    unfolding conjunct1 [OF f] m by (rule files_wfD(1) [OF wf])
  show "i < length (fw_objs w') \<and> fo_class (fw_objs w' ! i) = FileClass" if "i \<in> set (fw_files w')" for i
    using that files_wfD(3,4) [OF wf, of i] c [of i] f by simp
qed (rule b)

lemma listed_names: "files_wf w \<Longrightarrow> names w' = names w \<Longrightarrow> listed path w' = listed path w"
  using names_low_path [of w' w] names_fields [of w' w] files_wfD(3) [of w]
  unfolding listed_def by (auto intro: find_cong)

subsection \<open>Creation and removal\<close>

lemma new_file_empty: "new_file c path config [] w = (length (fw_objs w), w\<lparr>fw_objs := fw_objs w @ [new_file_obj c path config]\<rparr>)"
  by (simp add: new_file_def Let_def)

lemma low_path_append [simp]:
  "i < length (fw_objs w) \<Longrightarrow> low_path i (w\<lparr>fw_objs := fw_objs w @ xs, fw_files := fs\<rparr>) = low_path i w"
  by (simp add: low_path_def nth_append)

text \<open>Adding a new object for a path that no listed file has.\<close>

lemma add_listed_wf:
  assumes wf: "files_wf w" and sub: "set fs \<subseteq> set (fw_files w)" "distinct (map (\<lambda>i. low_path i w) fs)"
    and fresh: "\<forall>i \<in> set fs. low_path i w \<noteq> lower path"
    and w': "w' = w\<lparr>fw_objs := fw_objs w @ [new_file_obj FileClass path config], fw_files := fs @ [length (fw_objs w)],
      fw_deleted_paths := ds\<rparr>"
  shows "files_wf w'" "listed path w' = Some (length (fw_objs w))"
    "lower p \<noteq> lower path \<Longrightarrow> listed p w' = find (\<lambda>i. low_path i w = lower p) fs"
proof -
  have old: "low_path i w' = low_path i w" "i < length (fw_objs w')" "fw_objs w' ! i = fw_objs w ! i" if "i \<in> set fs" for i
    using files_wfD(3) [OF wf, of i] sub(1) that by (auto simp: low_path_def w' nth_append)
  have new: "low_path (length (fw_objs w)) w' = lower path" by (simp add: low_path_def w' new_file_obj_def)
  have fs': "fw_files w' = fs @ [length (fw_objs w)]" by (simp add: w')
  have m: "map (\<lambda>i. low_path i w') fs = map (\<lambda>i. low_path i w) fs" using old(1) by simp
  show wf': "files_wf w'"
  proof (rule files_wfI)
    have "lower path \<notin> set (map (\<lambda>i. low_path i w) fs)" using fresh by auto
    then show "distinct (map (\<lambda>i. low_path i w') (fw_files w'))"
      unfolding fs' map_append m distinct_append using sub(2) by (simp add: new)
    show "i < length (fw_objs w') \<and> fo_class (fw_objs w' ! i) = FileClass" if "i \<in> set (fw_files w')" for i
    proof (cases "i \<in> set fs")
      case True
      then show ?thesis using old [of i] files_wfD(4) [OF wf, of i] sub(1) by auto
    next
      case False
      then have "i = length (fw_objs w)" using that by (simp add: fs')
      then show ?thesis by (simp add: w' new_file_obj_def)
    qed
    show "bufs_ok w'"
      using files_wf_bufs [OF wf] by (auto simp: bufs_ok_def w' nth_append new_file_obj_def less_Suc_eq)
  qed
  show "listed path w' = Some (length (fw_objs w))"
    by (rule listed_Some [OF wf']) (simp_all add: fs' new)
  show "listed p w' = find (\<lambda>i. low_path i w = lower p) fs" if "lower p \<noteq> lower path"
    unfolding listed_def fs' using that new old(1) by (induction fs) simp_all
qed

lemma create_file_wf:
  assumes wf: "files_wf w" and p: "isabs path" and c: "create_file env path w = (i, w')"
  shows "files_wf w'" "listed path w' = Some i" "i = length (fw_objs w)" "fw_bufs w' = fw_bufs w"
    "fw_objs w' = fw_objs w @ [new_file_obj FileClass path None]" "get_path_key path \<notin> set (fw_deleted_paths w')"
    "\<not> alias_path env path \<Longrightarrow> lower p \<noteq> lower path \<Longrightarrow> listed p w' = listed p w"
    "fw_deleted_paths w' = removeAll (get_path_key path) (fw_deleted_paths w)"
proof -
  define fs where "fs = (case get_file_from_path env path w of
      None \<Rightarrow> fw_files w | Some f \<Rightarrow> remove_first (\<lambda>i. i = f) (fw_files w))"
  have e: "i = length (fw_objs w)" "w' = w\<lparr>fw_objs := fw_objs w @ [new_file_obj FileClass path None],
      fw_files := fs @ [length (fw_objs w)], fw_deleted_paths := removeAll (get_path_key path) (fw_deleted_paths w)\<rparr>"
    using c p by (auto simp: create_file_def Let_def new_file_empty fs_def split: option.split)
  have sub: "set fs \<subseteq> set (fw_files w)"
    using set_remove_first_subset by (cases "get_file_from_path env path w") (simp_all add: fs_def)
  have d: "distinct (map (\<lambda>i. low_path i w) fs)"
    using files_wfD(1) [OF wf] by (auto simp: fs_def distinct_map_remove split: option.split)
  have fresh: "\<forall>j \<in> set fs. low_path j w \<noteq> lower path"
  proof (intro ballI notI)
    fix j assume that: "j \<in> set fs" and l: "low_path j w = lower path"
    have "listed path w = Some j" using sub that l by (intro listed_Some [OF wf]) auto
    then have "get_file_from_path env path w = Some j" using p by (simp add: get_file_eq)
    then have "j \<notin> set fs" using files_wfD(2) [OF wf] by (simp add: fs_def set_remove_one)
    then show False using that by simp
  qed
  note a = add_listed_wf [OF wf sub d fresh e(2)]
  show "files_wf w'" by (rule a(1))
  show "listed path w' = Some i" using a(2) e(1) by simp
  show "i = length (fw_objs w)" "fw_bufs w' = fw_bufs w" "fw_objs w' = fw_objs w @ [new_file_obj FileClass path None]"
    "get_path_key path \<notin> set (fw_deleted_paths w')" "fw_deleted_paths w' = removeAll (get_path_key path) (fw_deleted_paths w)"
    by (simp_all add: e)
  show "listed p w' = listed p w" if al: "\<not> alias_path env path" and q: "lower p \<noteq> lower path"
  proof -
    have g: "get_file_from_path env path w = listed path w" using get_file_listed [OF al] p by simp
    have "find (\<lambda>i. low_path i w = lower p) (remove_first (\<lambda>i. i = f) xs) = find (\<lambda>i. low_path i w = lower p) xs"
      if "low_path f w = lower path" for f xs
      using that q by (induction xs) auto
    then have "find (\<lambda>i. low_path i w = lower p) fs = listed p w"
      using g listed_SomeD [of path w] by (auto simp: fs_def listed_def [of p] split: option.split)
    then show ?thesis using a(3) [OF q] by simp
  qed
qed

end
