(* ===== verification/File_Properties.thy ===== *)
theory File_Properties
  imports File_Names
begin

text \<open>
  What the file manager guarantees for paths: a removed file is gone under every path with its key, whatever the
  configuration says; a moved file has its data under the new path and is gone under the old one, except that a move
  onto the same path loses the file; reopening a file shares its contents.
\<close>

subsection \<open>Removal\<close>

lemma remove_file_wf:
  assumes wf: "files_wf w" and r: "remove_file env path w = (f, w')"
  shows "files_wf w'" "get_path_key (get_full_path env path) \<in> set (fw_deleted_paths w')"
    "\<not> alias_path env path \<Longrightarrow> listed (get_full_path env path) w' = None"
    "\<not> alias_path env path \<Longrightarrow> lower p \<noteq> lower (get_full_path env path) \<Longrightarrow> listed p w' = listed p w"
    "fw_objs w' = fw_objs w" "fw_bufs w' = fw_bufs w"
proof -
  define fs where "fs = (case get_file_from_path env path w of
      None \<Rightarrow> fw_files w | Some f \<Rightarrow> remove_first (\<lambda>i. i = f) (fw_files w))"
  have g: "get_file_from_path env path (w\<lparr>fw_deleted_paths := ds\<rparr>) = get_file_from_path env path w" for ds
    by (simp add: get_file_from_path_def is_image_alias_def Let_def split: option.split)
  have e: "w' = w\<lparr>fw_deleted_paths := List.insert (get_path_key (get_full_path env path)) (fw_deleted_paths w), fw_files := fs\<rparr>"
    using r by (auto simp: remove_file_def Let_def g fs_def split: option.splits)
  have lp: "low_path i w' = low_path i w" for i by (simp add: e low_path_def)
  have sub: "set fs \<subseteq> set (fw_files w)"
    using set_remove_first_subset by (cases "get_file_from_path env path w") (simp_all add: fs_def)
  show "files_wf w'"
  proof (rule files_wfI)
    show "distinct (map (\<lambda>i. low_path i w') (fw_files w'))"
      unfolding lp using files_wfD(1) [OF wf] by (auto simp: e fs_def distinct_map_remove split: option.split)
    show "i < length (fw_objs w') \<and> fo_class (fw_objs w' ! i) = FileClass" if "i \<in> set (fw_files w')" for i
      using that sub files_wfD(3,4) [OF wf, of i] by (auto simp: e)
    show "bufs_ok w'" using files_wf_bufs [OF wf] by (simp add: bufs_ok_def e)
  qed
  show "get_path_key (get_full_path env path) \<in> set (fw_deleted_paths w')" "fw_objs w' = fw_objs w" "fw_bufs w' = fw_bufs w"
    by (simp_all add: e)
  assume al: "\<not> alias_path env path"
  have gl: "get_file_from_path env path w = listed (get_full_path env path) w" by (rule get_file_listed [OF al])
  show "listed (get_full_path env path) w' = None"
  proof (cases "listed (get_full_path env path) w")
    case None
    then have "fs = fw_files w" using gl by (simp add: fs_def)
    then show ?thesis using None by (simp add: listed_def lp e find_None_iff_all low_path_def)
  next
    case (Some f)
    have "j = f" if "j \<in> set (fw_files w)" "low_path j w = lower (get_full_path env path)" for j
      using listed_Some [OF wf that] Some by simp
    then show ?thesis
      using gl Some set_remove_one [OF files_wfD(2) [OF wf], of f]
      by (auto simp: listed_def lp e fs_def find_None_iff_all low_path_def)
  qed
  show "listed p w' = listed p w" if q: "lower p \<noteq> lower (get_full_path env path)"
  proof -
    have "find (\<lambda>i. low_path i w = lower p) (remove_first (\<lambda>i. i = f) xs) = find (\<lambda>i. low_path i w = lower p) xs"
      if "low_path f w = lower (get_full_path env path)" for f xs
      using that q by (induction xs) auto
    moreover have "listed p w' = find (\<lambda>i. low_path i w = lower p) fs" by (simp add: listed_def lp e low_path_def)
    ultimately show ?thesis
      using gl listed_SomeD [of "get_full_path env path" w] by (auto simp: fs_def listed_def [of p] split: option.split)
  qed
qed

lemma get_emu_deleted: "get_path_key (get_full_path env path) \<in> set (fw_deleted_paths w) \<Longrightarrow> get_emu_file env path w = None"
  by (simp add: get_emu_file_def Let_def)

text \<open>after a file is removed, no file has the path, whatever the configuration serves there: opening it finds nothing,
  and no other spelling with the same key brings the configured file back.\<close>

theorem removed_file_gone:
  assumes "files_wf w" and "\<not> alias_path env path" and "remove_file env path w = (f, w')"
    and "get_path_key (get_full_path env path') = get_path_key (get_full_path env path)"
    and "isabs (get_full_path env path)"
  shows "get_file_from_path env path w' = None \<and> get_emu_file env path' w' = None \<and>
    get_file_by_path env path w' = (Inr None, w') \<and> (does_file_exist env path w' \<longleftrightarrow> is_null_device path)"
proof -
  note r = remove_file_wf [OF assms(1,3)]
  have a: "get_file_from_path env path w' = None" using get_file_listed [OF assms(2)] r(3) assms(2) by simp
  have b: "get_emu_file env path' w' = None" using r(2) assms(4) by (intro get_emu_deleted) simp
  have c: "get_emu_file env path w' = None" using r(2) by (intro get_emu_deleted)
  have al: "\<not> alias_path env (get_full_path env path)" using assms(2,5) by (simp add: alias_path_def)
  have d: "get_file_from_path env (get_full_path env path) w' = None" "get_emu_file env (get_full_path env path) w' = None"
    using a c get_file_listed [OF al, of w'] get_file_listed [OF assms(2), of w'] assms(5)
    by (simp_all add: get_emu_file_def)
  show ?thesis using a b c d by (simp add: get_file_by_path_def does_file_exist_def Let_def)
qed

subsection \<open>Lookup and copies\<close>

lemma get_file_by_path_ok:
  assumes wf: "files_wf w" and abs: "isabs (get_full_path env path)" and g: "get_file_by_path env path w = (Inr (Some i), w')"
  shows "files_wf w'" "i \<in> set (fw_files w')" "lower p \<noteq> lower (get_full_path env path) \<Longrightarrow> listed p w' = listed p w"
    "\<not> alias_path env path \<Longrightarrow> listed (get_full_path env path) w' = Some i"
proof -
  let ?p = "get_full_path env path"
  have ff: "get_full_path env ?p = ?p" using abs by simp
  have al: "alias_path env ?p = alias_path env path" by (simp add: alias_path_def ff)
  consider (old) "get_file_from_path env ?p w = Some i" "w' = w"
    | (new) c where "get_file_from_path env ?p w = None" "i = length (fw_objs w)"
        "w' = w\<lparr>fw_objs := fw_objs w @ [new_file_obj FileClass ?p (Some c)], fw_files := fw_files w @ [length (fw_objs w)]\<rparr>"
    using g by (auto simp: get_file_by_path_def Let_def new_file_empty split: option.splits if_splits)
  then have "files_wf w' \<and> i \<in> set (fw_files w') \<and> (lower p \<noteq> lower ?p \<longrightarrow> listed p w' = listed p w) \<and>
      (\<not> alias_path env path \<longrightarrow> listed ?p w' = Some i)"
  proof cases
    case old
    then show ?thesis using wf get_file_listed_mem [OF old(1)] get_file_listed [of env ?p w] ff al by auto
  next
    case new
    have none: "listed ?p w = None" using new(1) by (auto simp: get_file_eq ff split: option.splits)
    then have fr: "\<forall>j\<in>set (fw_files w). low_path j w \<noteq> lower ?p" by (simp add: listed_def find_None_iff_all)
    have e: "w' = w\<lparr>fw_objs := fw_objs w @ [new_file_obj FileClass ?p (Some c)], fw_files := fw_files w @ [length (fw_objs w)],
        fw_deleted_paths := fw_deleted_paths w\<rparr>"
      by (simp add: new(3))
    note a = add_listed_wf [OF wf subset_refl files_wfD(1) [OF wf] fr e]
    show ?thesis using a new(2) by (simp add: e listed_def [of p w])
  qed
  then show "files_wf w'" "i \<in> set (fw_files w')" "lower p \<noteq> lower ?p \<Longrightarrow> listed p w' = listed p w"
    "\<not> alias_path env path \<Longrightarrow> listed ?p w' = Some i"
    by simp_all
qed

text \<open>The data of a file: what \<open>get_contents\<close> returns.\<close>

definition file_data :: "file_env \<Rightarrow> nat \<Rightarrow> file_world \<Rightarrow> byte list result" where
  "file_data env i w = fst (get_contents env i w)"

lemma shape_record [simp]: "shape (record_file_event e w) = shape w"
  by (simp add: shape_def record_file_event_def)

lemma record_fields [simp]: "fw_objs (record_file_event e w) = fw_objs w" "fw_bufs (record_file_event e w) = fw_bufs w"
  by (simp_all add: record_file_event_def)

lemma file_data_record [simp]: "file_data env i (record_file_event e w) = file_data env i w"
  by (auto simp: file_data_def get_contents_def get_buffer_def sbind_def upd_file_def split: option.split sum.split)

lemma listed_record [simp]: "listed p (record_file_event e w) = listed p w"
  by (simp add: listed_def low_path_def record_file_event_def)

lemma files_wf_record [simp]: "files_wf (record_file_event e w) = files_wf w"
  by (simp add: files_wf_def low_path_def record_file_event_def)

lemma copy_file_ok:
  assumes wf: "files_wf w" and abs: "isabs (get_full_path env src)" "isabs (get_full_path env dst)"
    and c: "copy_file env src dst w = (Inr (Some j), w')"
  shows "\<exists>i d w1. get_file_by_path env src w = (Inr (Some i), w1) \<and> file_data env i w1 = Inr d \<and>
    files_wf w' \<and> listed (get_full_path env dst) w' = Some j \<and> file_data env j w' = Inr d \<and>
    fo_data (fw_objs w' ! j) \<noteq> None"
proof -
  let ?d = "get_full_path env dst"
  obtain i w1 d w2 where g: "get_file_by_path env src w = (Inr (Some i), w1)" and gc: "get_contents env i w1 = (Inr d, w2)"
    and rest: "(let (df, w) = create_file env ?d w2
         in sbind (add_data env d df) (\<lambda>_ w. (Inr (Some df),
               record_file_event (data_event (fo_path (fw_objs w ! df)) FILE_WRITE d 0)
                 (record_file_event (new_event (fo_path (fw_objs w ! df)) FILE_CREATE) w))) w) = (Inr (Some j), w')"
    using c by (auto simp: copy_file_def sbind_def sret_def split: prod.splits sum.splits option.splits)
  note a = get_file_by_path_ok [OF wf abs(1) g]
  have i: "i < length (fw_objs w1)" "fo_class (fw_objs w1 ! i) = FileClass"
    using files_wfD(3,4) [OF a(1)] a(2) by auto
  have ok2: "bufs_ok w2 \<and> (\<forall>k<length (fw_objs w1). fo_class (fw_objs w2 ! k) = fo_class (fw_objs w1 ! k))"
    using get_contents_ok [OF files_wf_bufs [OF a(1)] i(1) _ gc] i(2) by simp
  have wf2: "files_wf w2"
    using files_wf_names [OF a(1), of w2] names_get_contents [of env i w1] gc ok2 by simp
  obtain df w3 where cr: "create_file env ?d w2 = (df, w3)" by fastforce
  note b = create_file_wf [OF wf2 abs(2) cr]
  have df: "df < length (fw_objs w3)" "fw_objs w3 ! df = new_file_obj FileClass ?d None" by (simp_all add: b(3,5))
  obtain b1 w4 where gb: "get_buffer env df w3 = (Inr b1, w4)" and c4: "contents_of b1 w4 = []"
    using df by (simp add: get_buffer_def new_file_obj_def handle_file_data_def upd_file_def contents_of_def bio_new_def)
  obtain r5 w5 where ad: "add_data env d df w3 = (r5, w5)" by fastforce
  have cl: "fo_class (fw_objs w3 ! df) \<noteq> NullDeviceClass" by (simp add: df new_file_obj_def)
  note e = add_data_ok [OF files_wf_bufs [OF b(1)] df(1) cl gb ad]
  note g4 = get_buffer_ok [OF files_wf_bufs [OF b(1)] df(1) cl gb]
  have r5: "r5 = Inr ()" and s5: "shape w5 = shape w4" and d5: "get_contents env df w5 = (Inr d, w5)"
    using e c4 by simp_all
  have f: "j = df" "w' = record_file_event (data_event (fo_path (fw_objs w5 ! df)) FILE_WRITE d 0)
      (record_file_event (new_event (fo_path (fw_objs w5 ! df)) FILE_CREATE) w5)"
    using rest by (auto simp: cr sbind_def ad r5)
  have n5: "names w5 = names w3" using names_add_data [of env d df w3] ad by simp
  have "bufs_ok w5" using shape_bufs_ok [OF s5] g4(1) by simp
  moreover have "fo_class (fw_objs w5 ! k) = fo_class (fw_objs w3 ! k)" if "k < length (fw_objs w3)" for k
  proof -
    have l4: "length (fw_objs w4) = length (fw_objs w3)"
      using names_fields [OF names_get_buffer [of env df w3]] gb by simp
    show ?thesis using g4(5) [OF that] shape_fields(3) [OF s5, of k] that l4 by simp
  qed
  ultimately have wf5: "files_wf w5" by (rule files_wf_names [OF b(1) n5])
  have "opened df w5" using shape_opened(2) [OF s5] g4(2) by simp
  then have "fo_data (fw_objs w5 ! df) \<noteq> None" by (simp add: opened_def)
  moreover have "listed ?d w5 = Some df" using listed_names [OF b(1) n5] b(2) by simp
  moreover have "file_data env df w5 = Inr d" by (simp add: file_data_def d5)
  ultimately show ?thesis using g gc wf5 by (auto simp: f file_data_def [of env i])
qed

subsection \<open>Moves\<close>

lemma move_file_split:
  assumes "move_file env src dst w = (Inr (Some j), w')"
  obtains w1 f where "copy_file env src dst w = (Inr (Some j), w1)" "remove_file env src w1 = (f, w')"
proof -
  obtain r w1 where c: "copy_file env src dst w = (r, w1)" by fastforce
  with assms have "r = Inr (Some j)" "w' = snd (remove_file env src w1)"
    by (auto simp: move_file_def sbind_def split: sum.splits option.splits)
  then show ?thesis using that [of w1 "fst (remove_file env src w1)"] c by simp
qed

lemma file_data_cong: "fw_objs w' = fw_objs w \<Longrightarrow> fw_bufs w' = fw_bufs w \<Longrightarrow> file_data env i w' = file_data env i w"
  by (simp add: file_data_def get_contents_def get_buffer_def sbind_def upd_file_def split: option.split sum.split)

text \<open>C25: a successful move between paths that differ also without regard to case, and neither of which names the sample itself,
  keeps the data: the new path names a file with exactly the data that the old path had, and the old path names no file
  and no configured file any more. For equal paths this does not hold, as the next property shows.\<close>

theorem move_file_moves:
  assumes "files_wf w" and "isabs (get_full_path env src)" and "isabs (get_full_path env dst)"
    and "\<not> alias_path env src" and "\<not> alias_path env dst"
    and "lower (get_full_path env src) \<noteq> lower (get_full_path env dst)"
    and "move_file env src dst w = (Inr (Some j), w')"
  shows "\<exists>i d w1. get_file_by_path env src w = (Inr (Some i), w1) \<and> file_data env i w1 = Inr d \<and>
    get_file_from_path env dst w' = Some j \<and> file_data env j w' = Inr d \<and>
    get_file_from_path env src w' = None \<and> get_emu_file env src w' = None \<and> files_wf w'"
proof -
  obtain w1 f where c: "copy_file env src dst w = (Inr (Some j), w1)" and r: "remove_file env src w1 = (f, w')"
    using move_file_split [OF assms(7)] .
  obtain i d w0 where g: "get_file_by_path env src w = (Inr (Some i), w0)" "file_data env i w0 = Inr d"
    and k: "files_wf w1" "listed (get_full_path env dst) w1 = Some j" "file_data env j w1 = Inr d"
    using copy_file_ok [OF assms(1-3) c] by blast
  note m = remove_file_wf [OF k(1) r]
  have "listed (get_full_path env dst) w' = Some j"
    using m(4) [OF assms(4), of "get_full_path env dst"] assms(6) k(2) by simp
  then have "get_file_from_path env dst w' = Some j" using get_file_listed [OF assms(5)] by simp
  moreover have "file_data env j w' = Inr d" using file_data_cong [OF m(5,6)] k(3) by simp
  moreover have "get_file_from_path env src w' = None" using get_file_listed [OF assms(4)] m(3) [OF assms(4)] by simp
  ultimately show ?thesis using g m(1) get_emu_deleted [OF m(2)] by blast
qed

text \<open>C40: a move onto the same path, for example a rename that only changes the case, reports success with a new file, but the
  path then names no file: the removal of the source removes the copy.\<close>

theorem move_same_path_loses:
  assumes "files_wf w" and "isabs (get_full_path env src)" and "isabs (get_full_path env dst)"
    and "\<not> alias_path env src"
    and "lower (get_full_path env src) = lower (get_full_path env dst)"
    and "move_file env src dst w = (Inr (Some j), w')"
  shows "get_file_from_path env src w' = None \<and> get_file_from_path env dst w' = None \<and> get_emu_file env src w' = None"
proof -
  obtain w1 f where c: "copy_file env src dst w = (Inr (Some j), w1)" and r: "remove_file env src w1 = (f, w')"
    using move_file_split [OF assms(6)] .
  have k: "files_wf w1" using copy_file_ok [OF assms(1-3) c] by blast
  note m = remove_file_wf [OF k r]
  have al: "\<not> alias_path env dst" using assms(4,5) by (simp add: alias_path_def)
  have "listed (get_full_path env dst) w' = listed (get_full_path env src) w'" by (simp add: listed_def assms(5))
  then show ?thesis
    using m(3) [OF assms(4)] get_file_listed [OF assms(4), of w'] get_file_listed [OF al, of w'] get_emu_deleted [OF m(2)]
    by simp
qed

subsection \<open>Reopening a file\<close>

lemma file_pseudo_ok [simp]: "pseudo_ok file_callbacks"
  by (auto simp: pseudo_ok_def file_callbacks_def CURRENT_PROCESS_HANDLE_def CURRENT_THREAD_HANDLE_def split: if_splits)

text \<open>opening a file that is already listed gives a new handle whose file object shares the contents with the listed
  one and has its own file pointer at the start; what is written through one handle is what the other reads.\<close>

theorem reopened_file_shares:
  assumes "handles_wf file_callbacks s" and "0 < handle_room s" and "files_wf (hw_world s)"
    and "\<not> is_null_device path" and "get_file_from_path env path (hw_world s) = Some i"
    and "file_open env path False d a s = (Inr (Some h), s')"
  shows "\<exists>j. fm_get_file h s' = Some j \<and> j \<noteq> i \<and> opened i (hw_world s') \<and> opened j (hw_world s') \<and>
    buf_of j (hw_world s') = buf_of i (hw_world s') \<and> pos_of j (hw_world s') = 0 \<and> handles_wf file_callbacks s'"
proof -
  let ?w = "hw_world s"
  have i: "i < length (fw_objs ?w)" "fo_class (fw_objs ?w ! i) = FileClass"
    using files_wfD(3,4) [OF assms(3)] get_file_listed_mem [OF assms(5)] by auto
  obtain rb w1 where gb: "get_buffer env i ?w = (rb, w1)" by fastforce
  obtain b where rb: "rb = Inr b"
    using assms(4-6) i gb
    by (cases rb) (auto simp: file_open_def sbind_def on_world_def open_object_def duplicate_def)
  have cl: "fo_class (fw_objs ?w ! i) \<noteq> NullDeviceClass" by (simp add: i)
  note g = get_buffer_ok [OF files_wf_bufs [OF assms(3)] i(1) cl gb [unfolded rb]]
  define j where "j = length (fw_objs w1)"
  define nf where "nf = (new_file_obj FileClass (fo_path (fw_objs ?w ! i)) (fo_config (fw_objs ?w ! i)))
      \<lparr>fo_data := Some b, fo_origin := (case fo_origin (fw_objs ?w ! i) of Some k \<Rightarrow> Some k | None \<Rightarrow> Some i),
       fo_is_dir := fo_is_dir (fw_objs ?w ! i)\<rparr>"
  define w2 where "w2 = w1\<lparr>fw_objs := fw_objs w1 @ [nf]\<rparr>"
  have dup: "open_object env path False ?w = (Inr (Some j), w2)"
    using assms(4,5) i gb rb
    by (simp add: open_object_def duplicate_def sbind_def sret_def new_file_empty upd_file_def Let_def j_def w2_def nf_def)
  define s2 where "s2 = s\<lparr>hw_world := w2\<rparr>"
  have wf2: "handles_wf file_callbacks s2" and room2: "0 < handle_room s2"
    using assms(1,2) by (simp_all add: s2_def handles_wf_world)
  define t where "t = fw_table w2"
  obtain h' s3 where o: "open_in file_callbacks t (FileRef j) s2 = (h', s3)" by fastforce
  note law = open_in_law [OF wf2 room2 o]
  have w3: "hw_world s3 = w2"
    using o unfolding open_in_eq [OF wf2] by (auto simp: s2_def file_callbacks_def)
  have fin: "h = h'" "s' = s3\<lparr>hw_world := record_open env path FILE_OPEN (Some h') d a w2\<rparr>"
    using assms(6) dup o w3 assms(4)
    by (auto simp: file_open_def sbind_def on_world_def fm_new_handle_def t_def s2_def split: prod.splits)
  have ev: "fw_objs (hw_world s') = fw_objs w2" "fw_bufs (hw_world s') = fw_bufs w1" "fw_table (hw_world s') = t"
    by (simp_all add: fin record_open_def record_file_event_def w2_def t_def)
  have il: "i < length (fw_objs w1)" using openedD(1) [OF g(2)] .
  have old: "fw_objs w2 ! i = fw_objs w1 ! i" "fw_objs w2 ! j = nf" "length (fw_objs w2) = Suc j"
    using il by (simp_all add: w2_def nth_append j_def)
  have oi: "opened i (hw_world s')" "buf_of i (hw_world s') = b" "b < length (fw_bufs w1)"
    using g(2,3) il by (auto simp: opened_def buf_of_def ev old j_def)
  have oj: "opened j (hw_world s')" "buf_of j (hw_world s') = b" "pos_of j (hw_world s') = 0"
    using oi(3) by (simp_all add: opened_def buf_of_def pos_of_def ev old nf_def new_file_obj_def)
  have im: "h' AND HANDLE_MASK = h'" "hc_pseudo file_callbacks h' w = None" for w
    using issued_mod [of file_callbacks s3 h'] law by simp_all
  have "hw_tables s' t h' = Some (FileRef j)" using law by (simp add: fin)
  then have "fm_get_file h s' = Some j"
    using im by (simp add: fm_get_file_def table_get_def ht_get_def fin(1) ev is_file_ref_def is_pipe_def old nf_def new_file_obj_def)
  moreover have "handles_wf file_callbacks s'" using law by (simp add: fin handles_wf_world)
  ultimately show ?thesis using oi oj il by (auto simp: j_def)
qed


subsection \<open>Directories\<close>

text \<open>The keys that the walk adds are closed under the parent.\<close>

definition parents_closed :: "string list \<Rightarrow> bool" where
  "parents_closed keys \<longleftrightarrow> (\<forall>k\<in>set keys. get_path_key (dirname k) \<in> set keys)"

lemma add_ancestors_keys:
  "set keys \<subseteq> set (add_ancestors key keys) \<and> key \<in> set (add_ancestors key keys)"
proof (induction key keys rule: add_ancestors.induct)
  case (1 key keys)
  then show ?case by (subst (1 2) add_ancestors.simps) auto
qed

lemma add_ancestors_closed:
  "(\<forall>k\<in>set keys. get_path_key (dirname k) \<in> insert key (set keys)) \<Longrightarrow> parents_closed (add_ancestors key keys)"
proof (induction key keys rule: add_ancestors.induct)
  case (1 key keys)
  show ?case
  proof (cases "key \<in> set keys")
    case True
    then show ?thesis using "1.prems" by (subst add_ancestors.simps) (auto simp: parents_closed_def)
  next
    case False
    then show ?thesis using "1.IH" "1.prems" by (subst add_ancestors.simps) auto
  qed
qed

lemma directory_loop_closed: "parents_closed keys \<Longrightarrow> parents_closed (directory_loop ds keys)"
proof (induction ds keys rule: directory_loop.induct)
  case (2 d ds keys)
  have "parents_closed (add_ancestors (get_path_key d) keys)"
    using "2.prems" by (intro add_ancestors_closed) (auto simp: parents_closed_def)
  then show ?case using 2 by simp
qed simp

lemma directory_loop_mono: "set keys \<subseteq> set (directory_loop ds keys)"
proof (induction ds keys rule: directory_loop.induct)
  case (2 d ds keys)
  then show ?case using add_ancestors_keys [of keys "get_path_key d"] by auto
qed simp

lemma directory_loop_mem:
  "d \<in> set ds \<Longrightarrow> fst (splitdrive d) \<noteq> [] \<Longrightarrow> CHR ''*'' \<notin> set d \<Longrightarrow> CHR ''?'' \<notin> set d \<Longrightarrow>
   get_path_key d \<in> set (directory_loop ds keys)"
proof (induction ds keys rule: directory_loop.induct)
  case (2 e ds keys)
  show ?case
  proof (cases "d = e")
    case True
    then show ?thesis
      using 2 add_ancestors_keys [of keys "get_path_key d"] directory_loop_mono [of "add_ancestors (get_path_key d) keys" ds] by auto
  next
    case False
    then show ?thesis using 2 by auto
  qed
qed simp

text \<open>the directory of every listed file exists until the program removes it, and the parent of a directory that exists is a
  directory unless the program removed that parent.\<close>

theorem directories_closed:
  assumes "i \<in> set (fw_files w)" and "d = dirname (fo_path (fw_objs w ! i))"
    and "fst (splitdrive d) \<noteq> []" and "CHR ''*'' \<notin> set d" and "CHR ''?'' \<notin> set d"
  shows "(get_path_key d \<in> set (get_directories env w) \<longleftrightarrow> get_path_key d \<notin> set (fw_removed_dirs w)) \<and>
    (\<forall>k \<in> set (get_directories env w). get_path_key (dirname k) \<in> set (get_directories env w) \<or>
       get_path_key (dirname k) \<in> set (fw_removed_dirs w))"
proof -
  have "d \<in> set (named_directories env w)" using assms(1) by (auto simp: named_directories_def assms(2))
  from directory_loop_mem [OF this assms(3-5)] directory_loop_closed [of "[]" "named_directories env w"] show ?thesis
    by (auto simp: get_directories_def parents_closed_def)
qed

subsection \<open>Witnesses\<close>

definition env0 :: file_env where
  "env0 = \<lparr>fe_files = [FileEntryDefault None None], fe_current_dir = ''c:'' @ [backslash], fe_env_vars = [], fe_user_modules = [],
     fe_system_modules = [], fe_emulated_binname = [], fe_root = [], fe_host_exists = (\<lambda>_. False),
     fe_host_read = (\<lambda>_. None)\<rparr>"

definition path_a :: string where "path_a = ''c:'' @ [backslash, CHR ''a'']"
definition path_A :: string where "path_A = ''c:'' @ [backslash, CHR ''A'']"
definition path_b :: string where "path_b = ''c:'' @ [backslash, CHR ''b'']"

definition files0 :: file_state where
  "files0 = (let s = init_files init_allocator 0 None in s\<lparr>hw_world := snd (add_existing_file path_a [1, 2] (hw_world s))\<rparr>)"

definition files1 :: file_world where "files1 = snd (duplicate env0 0 (hw_world files0))"

lemma files0_world: "hw_world files0 = snd (add_existing_file path_a [1, 2] (hw_world (init_files init_allocator 0 None)))"
  by (simp add: files0_def Let_def)

lemma files0_wf: "files_wf (hw_world files0)"
  by (simp add: files0_world files_wf_def add_existing_file_def new_file_def new_file_obj_def init_files_def)

lemma handles0_wf: "handles_wf file_callbacks files0" "0 < handle_room files0"
  by (simp_all add: files0_def Let_def handles_wf_def init_files_def init_allocator_def handle_room_def)

definition shared_ops :: "(nat \<times> file_op) list" where
  "shared_ops = [(0, FWrite [9]), (1, FRead 2 False)]"

theorem file_run_refines_witness:
  "fst (file_run env0 shared_ops files1) = [Inr OutNone, Inr (OutData [9, 2])]"
proof -
  have o: "\<forall>i\<in>fst ` set shared_ops. opened i files1" by code_simp
  have r: "fst (of_run shared_ops (abs_files files1)) = [Inr OutNone, Inr (OutData [9, 2])]" by code_simp
  from file_run_refines [OF o prod.collapse [symmetric] prod.collapse [symmetric], of env0] r show ?thesis by simp
qed

lemma path_facts: "isabs path_a" "isabs path_A" "isabs path_b" "get_full_path env0 path_a = path_a"
  "get_full_path env0 path_A = path_A" "get_full_path env0 path_b = path_b" "lower path_a \<noteq> lower path_b"
  "lower path_a = lower path_A" "\<not> is_null_device path_a"
  by code_simp+

lemma env0_alias [simp]: "\<not> alias_path env0 p"
  by (simp add: alias_path_def env0_def)

theorem removed_file_gone_witness:
  "\<not> does_file_exist env0 path_a (snd (remove_file env0 path_a (hw_world files0)))"
  using removed_file_gone [OF files0_wf env0_alias, of path_a "fst (remove_file env0 path_a (hw_world files0))"
      "snd (remove_file env0 path_a (hw_world files0))" path_a] path_facts
  by simp

theorem move_file_moves_witness:
  "get_file_from_path env0 path_b (snd (move_file env0 path_a path_b (hw_world files0))) = Some 1"
proof -
  have "fst (move_file env0 path_a path_b (hw_world files0)) = Inr (Some 1)" by code_simp
  then have m: "move_file env0 path_a path_b (hw_world files0) =
      (Inr (Some 1), snd (move_file env0 path_a path_b (hw_world files0)))"
    by (simp add: prod_eq_iff)
  have l: "lower (get_full_path env0 path_a) \<noteq> lower (get_full_path env0 path_b)"
    unfolding path_facts(4,6) by (rule path_facts(7))
  from move_file_moves [OF files0_wf _ _ env0_alias env0_alias l m] path_facts show ?thesis by auto
qed

theorem move_same_path_loses_witness:
  "get_file_from_path env0 path_A (snd (move_file env0 path_a path_A (hw_world files0))) = None"
proof -
  have "fst (move_file env0 path_a path_A (hw_world files0)) = Inr (Some 1)" by code_simp
  then have m: "move_file env0 path_a path_A (hw_world files0) =
      (Inr (Some 1), snd (move_file env0 path_a path_A (hw_world files0)))"
    by (simp add: prod_eq_iff)
  have l: "lower (get_full_path env0 path_a) = lower (get_full_path env0 path_A)" by (simp add: path_facts)
  from move_same_path_loses [OF files0_wf _ _ env0_alias l m] path_facts show ?thesis by auto
qed

theorem reopened_file_shares_witness:
  "\<exists>j. fm_get_file 0x80 (snd (file_open env0 path_a False None None files0)) = Some j \<and> j \<noteq> 0"
proof -
  have "fst (file_open env0 path_a False None None files0) = Inr (Some 0x80)" by code_simp
  then have m: "file_open env0 path_a False None None files0 =
      (Inr (Some 0x80), snd (file_open env0 path_a False None None files0))"
    by (simp add: prod_eq_iff)
  have g: "get_file_from_path env0 path_a (hw_world files0) = Some 0" by code_simp
  from reopened_file_shares [OF handles0_wf files0_wf path_facts(9) g m] show ?thesis by blast
qed

theorem directories_closed_witness:
  "get_path_key (''c:'' @ [backslash]) \<in> set (get_directories env0 (hw_world files0))"
proof -
  have i: "0 \<in> set (fw_files (hw_world files0))" by code_simp
  have d: "''c:'' @ [backslash] = dirname (fo_path (fw_objs (hw_world files0) ! 0))" by code_simp
  have s: "fst (splitdrive (''c:'' @ [backslash])) \<noteq> []" "CHR ''*'' \<notin> set (''c:'' @ [backslash])"
    "CHR ''?'' \<notin> set (''c:'' @ [backslash])" "fw_removed_dirs (hw_world files0) = []"
    by code_simp+
  from directories_closed [OF i d s(1-3), of env0] s(4) show ?thesis by simp
qed

end
