(* ===== verification/Network.thy ===== *)
theory Network
  imports Files
begin

text \<open>
  The network state of \<^verbatim>\<open>speakeasy/windows/netman.py\<close>: sockets with their receive queue, the WinInet instances, sessions and
  requests, the configured names and responses, and the recorded events. Sockets and WinInet objects have a table of
  handles each (tables 0 and 1); both objects are mutable and shared, so they are indices into \<open>nw_sockets\<close> and \<open>nw_comps\<close>.
  The path of \<open>urllib.parse.urlparse\<close> is modelled; its check of a network location with brackets or other characters
  than ASCII, \<open>inet_aton\<close> of the host and the host files are in the parameter \<open>net_env\<close>.
\<close>

subsection \<open>Configuration and state\<close>

record dns_config =
  dc_names :: "(string \<times> string) list"
  dc_txt :: "(string option \<times> string option) list"

record http_response =
  hr_verb :: "string option"
  hr_files :: "file_entry list"

record net_config =
  nc_dns :: "dns_config option"
  nc_http :: "http_response list option"
  nc_winsock :: "file_entry list option"

record net_env =
  ne_config :: "net_config option"
  ne_root :: string
  ne_host_read :: "string \<Rightarrow> byte list option"
  ne_inet_aton :: "string \<Rightarrow> bool"
  ne_netloc_ok :: "string \<Rightarrow> bool"

text \<open>A name that a caller gives as a string or as a null pointer.\<close>

datatype str_or_int = Str string | Num int

definition render :: "str_or_int \<Rightarrow> string" where
  "render x = (case x of Str s \<Rightarrow> s | Num n \<Rightarrow> dec_of n)"

definition truthy :: "str_or_int \<Rightarrow> bool" where
  "truthy x = (case x of Str s \<Rightarrow> s \<noteq> [] | Num n \<Rightarrow> n \<noteq> 0)"

record socket =
  so_fd :: int
  so_family :: int
  so_type :: int
  so_protocol :: int
  so_flags :: int
  so_connected_host :: string
  so_connected_port :: int
  so_curr_packet :: bytes_io

record instance_data =
  in_user_agent :: str_or_int
  in_access :: int
  in_proxy :: str_or_int
  in_bypass :: str_or_int
  in_flags :: int

record session_data =
  ss_instance :: nat
  ss_server :: str_or_int
  ss_port :: int
  ss_user :: str_or_int
  ss_password :: str_or_int
  ss_service :: str_or_int
  ss_flags :: int
  ss_ctx :: int

record request_data =
  rq_session :: nat
  rq_verb :: string
  rq_path :: string
  rq_ver :: string
  rq_referrer :: "str_or_int option"
  rq_accept_types :: "int option"
  rq_flags :: int
  rq_ctx :: int
  rq_response :: "bytes_io option"

text \<open>\<open>PartialRequest\<close> is a request whose constructor raised after it opened the handle.\<close>

datatype wininet_data =
    InstanceData instance_data
  | SessionData session_data
  | RequestData request_data
  | PartialRequest string

record wininet =
  wi_handle :: int
  wi_children :: "nat list"
  wi_data :: wininet_data

datatype traffic_type = CONNECT | BIND | ACCEPT | DATA_IN | DATA_OUT

datatype traffic_protocol = TCP | UDP | RAW | UNKNOWN

datatype net_event =
    DnsEvent string string
  | TrafficEvent string int traffic_type traffic_protocol "byte list" string
  | HttpEvent string int string "byte list" bool

datatype net_ref = SockRef nat | WinRef nat

record net_world =
  nw_sockets :: "socket list"
  nw_comps :: "wininet list"
  nw_events :: "net_event list"

type_synonym net_state = "(net_ref, net_world) handle_world"

definition init_net :: "allocator \<Rightarrow> net_state" where
  "init_net al = \<lparr>hw_alloc = al, hw_tables = (\<lambda>_. Map.empty),
     hw_world = \<lparr>nw_sockets = [], nw_comps = [], nw_events = []\<rparr>\<rparr>"

definition record_event :: "net_event \<Rightarrow> net_state \<Rightarrow> net_state" where
  "record_event e s = s\<lparr>hw_world := (hw_world s)\<lparr>nw_events := nw_events (hw_world s) @ [e]\<rparr>\<rparr>"

definition upd_socket :: "nat \<Rightarrow> (socket \<Rightarrow> socket) \<Rightarrow> net_state \<Rightarrow> net_state" where
  "upd_socket i f s = s\<lparr>hw_world := (hw_world s)\<lparr>nw_sockets := (nw_sockets (hw_world s))[i := f (nw_sockets (hw_world s) ! i)]\<rparr>\<rparr>"

definition upd_comp :: "nat \<Rightarrow> (wininet \<Rightarrow> wininet) \<Rightarrow> net_state \<Rightarrow> net_state" where
  "upd_comp i f s = s\<lparr>hw_world := (hw_world s)\<lparr>nw_comps := (nw_comps (hw_world s))[i := f (nw_comps (hw_world s) ! i)]\<rparr>\<rparr>"

definition sock :: "nat \<Rightarrow> net_state \<Rightarrow> socket" where "sock i s = nw_sockets (hw_world s) ! i"
definition wcomp :: "nat \<Rightarrow> net_state \<Rightarrow> wininet" where "wcomp i s = nw_comps (hw_world s) ! i"

subsection \<open>Host files\<close>

definition response_path :: "net_env \<Rightarrow> string \<Rightarrow> string" where
  "response_path env path =
     (if contains ''$ROOT$'' path then replace_all ''$ROOT$'' (ne_root env) path else path)"

definition read_host :: "net_env \<Rightarrow> string \<Rightarrow> byte list result" where
  "read_host env path =
     (case ne_host_read env (response_path env path) of Some d \<Rightarrow> Inr d | None \<Rightarrow> Inl OSError)"

definition entry_path :: "file_entry \<Rightarrow> string" where
  "entry_path f = (case fe_path f of None \<Rightarrow> [] | Some p \<Rightarrow> p)"

subsection \<open>Sockets\<close>

definition SOCK_STREAM :: int where "SOCK_STREAM = 1"
definition SOCK_DGRAM :: int where "SOCK_DGRAM = 2"
definition SOCK_RAW :: int where "SOCK_RAW = 3"

definition get_protocol :: "socket \<Rightarrow> traffic_protocol" where
  "get_protocol so =
     (if so_type so = SOCK_STREAM then TCP else if so_type so = SOCK_DGRAM then UDP
      else if so_type so = SOCK_RAW then RAW else UNKNOWN)"

definition set_connection_info :: "string \<Rightarrow> int \<Rightarrow> socket \<Rightarrow> socket" where
  "set_connection_info host port so = so\<lparr>so_connected_host := host, so_connected_port := port\<rparr>"

text \<open>Each default entry with a path replaces the queue.\<close>

fun fill_recv_queue :: "net_env \<Rightarrow> file_entry list \<Rightarrow> socket \<Rightarrow> socket result" where
  "fill_recv_queue env [] so = Inr so"
| "fill_recv_queue env (resp # resps) so =
     (if is_default_entry resp \<and> entry_path resp \<noteq> []
      then rbind (read_host env (entry_path resp)) (\<lambda>d. fill_recv_queue env resps (so\<lparr>so_curr_packet := bio_new d\<rparr>))
      else fill_recv_queue env resps so)"

definition get_recv_data :: "int \<Rightarrow> bool \<Rightarrow> bytes_io \<Rightarrow> byte list \<times> bytes_io" where
  "get_recv_data n peek b =
     (let (d, b') = bio_read n b
      in if peek then (case bio_seek (- int (length d)) SEEK_CUR b' of Inr (_, b'') \<Rightarrow> (d, b'') | Inl _ \<Rightarrow> (d, b'))
         else (d, b'))"

definition winsock_responses :: "net_env \<Rightarrow> file_entry list" where
  "winsock_responses env =
     (case ne_config env of None \<Rightarrow> [] | Some c \<Rightarrow> (case nc_winsock c of None \<Rightarrow> [] | Some r \<Rightarrow> r))"

definition new_socket :: "net_env \<Rightarrow> int \<Rightarrow> int \<Rightarrow> int \<Rightarrow> int \<Rightarrow> net_state \<Rightarrow> nat result \<times> net_state" where
  "new_socket env family stype protocol flags s =
     (case fill_recv_queue env (winsock_responses env)
        \<lparr>so_fd = 0, so_family = family, so_type = stype, so_protocol = protocol, so_flags = flags,
         so_connected_host = [], so_connected_port = 0, so_curr_packet = bio_new []\<rparr> of
        Inl e \<Rightarrow> (Inl e, s)
      | Inr so \<Rightarrow>
          (let i = length (nw_sockets (hw_world s));
               (fd, s) = open_in plain_callbacks 0 (SockRef i) s
           in (Inr i, s\<lparr>hw_world := (hw_world s)\<lparr>nw_sockets := nw_sockets (hw_world s) @ [so\<lparr>so_fd := fd\<rparr>]\<rparr>\<rparr>)))"

definition get_socket :: "int \<Rightarrow> net_state \<Rightarrow> nat option" where
  "get_socket fd s =
     (case ht_get plain_callbacks (\<lambda>x. case x of SockRef _ \<Rightarrow> True | _ \<Rightarrow> False) fd (hw_tables s 0) (hw_world s) of
        Some (SockRef i) \<Rightarrow> Some i | _ \<Rightarrow> None)"

definition close_socket :: "int \<Rightarrow> net_state \<Rightarrow> bool \<times> net_state" where
  "close_socket fd s = close_in plain_callbacks 0 fd s"

definition record_traffic :: "nat \<Rightarrow> traffic_type \<Rightarrow> string \<Rightarrow> byte list \<Rightarrow> net_state \<Rightarrow> net_state" where
  "record_traffic i t method d s =
     record_event (TrafficEvent (so_connected_host (sock i s)) (so_connected_port (sock i s)) t (get_protocol (sock i s))
       d method) s"

definition connect :: "nat \<Rightarrow> string \<Rightarrow> int \<Rightarrow> net_state \<Rightarrow> net_state" where
  "connect i host port s = record_traffic i CONNECT ''winsock.connect'' [] (upd_socket i (set_connection_info host port) s)"

definition bind_socket :: "nat \<Rightarrow> string \<Rightarrow> int \<Rightarrow> net_state \<Rightarrow> net_state" where
  "bind_socket i host port s = record_traffic i BIND ''winsock.bind'' [] (upd_socket i (set_connection_info host port) s)"

definition recv :: "nat \<Rightarrow> int \<Rightarrow> bool \<Rightarrow> net_state \<Rightarrow> byte list \<times> net_state" where
  "recv i n peek s =
     (let (d, b) = get_recv_data n peek (so_curr_packet (sock i s))
      in (d, record_traffic i DATA_IN ''winsock.recv'' d (upd_socket i (\<lambda>so. so\<lparr>so_curr_packet := b\<rparr>) s)))"

definition send :: "nat \<Rightarrow> byte list \<Rightarrow> net_state \<Rightarrow> net_state" where
  "send i d s = record_traffic i DATA_OUT ''winsock.send'' d s"

subsection \<open>Names\<close>

definition net_dns :: "net_env \<Rightarrow> dns_config option" where
  "net_dns env = (case ne_config env of None \<Rightarrow> None | Some c \<Rightarrow> nc_dns c)"

definition get_address :: "net_env \<Rightarrow> str_or_int \<Rightarrow> string option result" where
  "get_address env domain =
     (case net_dns env of
        None \<Rightarrow> Inr None
      | Some dns \<Rightarrow>
          (case domain of
             Num _ \<Rightarrow> Inl AttributeError
           | Str d \<Rightarrow>
               Inr (if map_of (dc_names dns) (lower d) = None then map_of (dc_names dns) ''default''
                    else map_of (dc_names dns) (lower d))))"

definition name_lookup :: "net_env \<Rightarrow> str_or_int \<Rightarrow> net_state \<Rightarrow> string option result \<times> net_state" where
  "name_lookup env domain s =
     (case get_address env domain of
        Inl e \<Rightarrow> (Inl e, s)
      | Inr ip \<Rightarrow> (Inr ip, record_event (DnsEvent (render domain) (case ip of None \<Rightarrow> [] | Some a \<Rightarrow> a)) s))"

definition read_txt_data :: "net_env \<Rightarrow> string option \<times> string option \<Rightarrow> byte list option result" where
  "read_txt_data env txt =
     (case snd txt of
        None \<Rightarrow> Inr None
      | Some path \<Rightarrow> if path = [] then Inr None else rbind (read_host env path) (\<lambda>d. Inr (Some d)))"

definition txt_named :: "string \<Rightarrow> string option \<times> string option \<Rightarrow> bool" where
  "txt_named name t \<longleftrightarrow> (case fst t of None \<Rightarrow> [] | Some n \<Rightarrow> n) = name"

definition get_dns_txt :: "net_env \<Rightarrow> string \<Rightarrow> byte list option result" where
  "get_dns_txt env domain =
     (case net_dns env of
        None \<Rightarrow> Inr None
      | Some dns \<Rightarrow>
          (case find (txt_named domain) (dc_txt dns) of
             Some t \<Rightarrow> read_txt_data env t
           | None \<Rightarrow>
               (case find (txt_named ''default'') (dc_txt dns) of Some t \<Rightarrow> read_txt_data env t | None \<Rightarrow> Inr None)))"

definition accept :: "net_env \<Rightarrow> nat \<Rightarrow> net_state \<Rightarrow> nat result \<times> net_state" where
  "accept env i s =
     (case new_socket env (so_family (sock i s)) (so_type (sock i s)) (so_protocol (sock i s)) 0 s of
        (Inl e, s1) \<Rightarrow> (Inl e, s1)
      | (Inr j, s1) \<Rightarrow>
          (case get_address env (Str ''default'') of
             Inl e \<Rightarrow> (Inl e, s1)
           | Inr ip \<Rightarrow>
               (let host = (case ip of None \<Rightarrow> ''127.0.0.1'' | Some a \<Rightarrow> if a = [] then ''127.0.0.1'' else a)
                in (Inr j, record_traffic j ACCEPT ''winsock.accept'' []
                     (upd_socket j (set_connection_info host (so_connected_port (sock i s))) s1)))))"

subsection \<open>urlparse\<close>

text \<open>The path of \<open>urllib.parse.urlparse(url)\<close>: leading spaces and controls and all tabs and line ends go; then the scheme,
  the network location, the fragment, the query and the parameters of the last segment.\<close>

definition scheme_char :: "char \<Rightarrow> bool" where
  "scheme_char c \<longleftrightarrow> (let n = (of_char c :: nat) in (97 \<le> n \<and> n \<le> 122) \<or> (65 \<le> n \<and> n \<le> 90) \<or> (48 \<le> n \<and> n \<le> 57) \<or>
     c = CHR ''+'' \<or> c = CHR ''-'' \<or> c = CHR ''.'')"

definition split_scheme :: "string \<Rightarrow> string \<times> string" where
  "split_scheme url =
     (case find_char (CHR '':'') url of
        None \<Rightarrow> ([], url)
      | Some i \<Rightarrow>
          (let n = (of_char (hd url) :: nat)
           in if 0 < i \<and> ((97 \<le> n \<and> n \<le> 122) \<or> (65 \<le> n \<and> n \<le> 90)) \<and> list_all scheme_char (take i url)
              then (lower (take i url), drop (i + 1) url) else ([], url)))"

definition upto_char :: "char \<Rightarrow> string \<Rightarrow> string" where
  "upto_char c s = takeWhile (\<lambda>x. x \<noteq> c) s"

definition uses_params :: "string list" where
  "uses_params = [[], ''ftp'', ''hdl'', ''prospero'', ''http'', ''https'', ''shttp'', ''rtsp'', ''rtsps'', ''sip'',
     ''sips'', ''mms'', ''sftp'', ''tel'']"

definition split_params :: "string \<Rightarrow> string" where
  "split_params url =
     (let tail = rev (takeWhile (\<lambda>c. c \<noteq> CHR ''/'') (rev url))
      in take (length url - length tail) url @ upto_char (CHR '';'') tail)"

definition urlpath :: "net_env \<Rightarrow> string \<Rightarrow> string result" where
  "urlpath env url =
     (let url = filter (\<lambda>c. (of_char c :: nat) \<notin> {9, 10, 13}) (dropWhile (\<lambda>c. (of_char c :: nat) \<le> 32) url);
          (scheme, url) = split_scheme url;
          has_netloc = (take 2 url = ''//'');
          netloc = (if has_netloc
                    then takeWhile (\<lambda>c. c \<noteq> CHR ''/'' \<and> c \<noteq> CHR ''?'' \<and> c \<noteq> CHR ''#'') (drop 2 url) else []);
          url = (if has_netloc then drop (2 + length netloc) url else url);
          path = upto_char (CHR ''?'') (upto_char (CHR ''#'') url)
      in if (CHR ''['' \<in> set netloc) \<noteq> (CHR '']'' \<in> set netloc) then Inl ValueError
         else if (CHR ''['' \<in> set netloc \<or> \<not> list_all (\<lambda>c. (of_char c :: nat) < 128) netloc) \<and> \<not> ne_netloc_ok env netloc
         then Inl ValueError
         else Inr (if scheme \<in> set uses_params then split_params path else path))"

subsection \<open>WinInet objects\<close>

definition INTERNET_FLAG_SECURE :: int where "INTERNET_FLAG_SECURE = 0x00800000"
definition INTERNET_FLAG_KEEP_CONNECTION :: int where "INTERNET_FLAG_KEEP_CONNECTION = 0x00400000"
definition INTERNET_FLAG_DONT_CACHE :: int where "INTERNET_FLAG_DONT_CACHE = 0x04000000"

text \<open>\<open>WininetComponent.__init__\<close>: the handle and no children.\<close>

definition new_component :: "wininet_data \<Rightarrow> net_state \<Rightarrow> nat \<times> net_state" where
  "new_component d s =
     (let i = length (nw_comps (hw_world s));
          (h, s) = open_in plain_callbacks 1 (WinRef i) s
      in (i, s\<lparr>hw_world := (hw_world s)\<lparr>nw_comps := nw_comps (hw_world s) @
               [\<lparr>wi_handle = h, wi_children = [], wi_data = d\<rparr>]\<rparr>\<rparr>))"

definition add_child :: "nat \<Rightarrow> nat \<Rightarrow> net_state \<Rightarrow> net_state" where
  "add_child parent i s = upd_comp parent (\<lambda>c. c\<lparr>wi_children := wi_children c @ [i]\<rparr>) s"

definition new_wininet_inst ::
  "str_or_int \<Rightarrow> int \<Rightarrow> str_or_int \<Rightarrow> str_or_int \<Rightarrow> int \<Rightarrow> net_state \<Rightarrow> nat \<times> net_state" where
  "new_wininet_inst user_agent access proxy bypass flags s =
     new_component (InstanceData \<lparr>in_user_agent = user_agent, in_access = access, in_proxy = proxy, in_bypass = bypass,
       in_flags = flags\<rparr>) s"

definition new_session ::
  "nat \<Rightarrow> str_or_int \<Rightarrow> int \<Rightarrow> str_or_int \<Rightarrow> str_or_int \<Rightarrow> str_or_int \<Rightarrow> int \<Rightarrow> int \<Rightarrow> net_state \<Rightarrow> nat \<times> net_state" where
  "new_session inst server port user password service flags ctx s =
     (let (i, s) = new_component (SessionData \<lparr>ss_instance = inst, ss_server = server, ss_port = port, ss_user = user,
            ss_password = password, ss_service = service, ss_flags = flags, ss_ctx = ctx\<rparr>) s
      in (i, add_child inst i s))"

definition new_request ::
  "net_env \<Rightarrow> nat \<Rightarrow> string \<Rightarrow> string \<Rightarrow> string \<Rightarrow> str_or_int option \<Rightarrow> int option \<Rightarrow> int \<Rightarrow> int \<Rightarrow> net_state
    \<Rightarrow> nat result \<times> net_state" where
  "new_request env sess verb objname ver ref accepts flags ctx s =
     (let verb = (if verb = [] then ''get'' else lower verb)
      in case urlpath env objname of
           Inl e \<Rightarrow> (Inl e, snd (new_component (PartialRequest verb) s))
         | Inr path \<Rightarrow>
             (let (i, s) = new_component (RequestData \<lparr>rq_session = sess, rq_verb = verb, rq_path = path,
                    rq_ver = (if ver = [] then ''HTTP/1.1'' else ver), rq_referrer = ref, rq_accept_types = accepts,
                    rq_flags = flags, rq_ctx = ctx, rq_response = None\<rparr>) s
              in (Inr i, add_child sess i s)))"

definition get_wininet :: "(wininet_data \<Rightarrow> bool) \<Rightarrow> int \<Rightarrow> net_state \<Rightarrow> nat option" where
  "get_wininet cls h s =
     (case ht_get plain_callbacks (\<lambda>x. case x of WinRef i \<Rightarrow> cls (wi_data (wcomp i s)) | _ \<Rightarrow> False) h
             (hw_tables s 1) (hw_world s) of
        Some (WinRef i) \<Rightarrow> Some i | _ \<Rightarrow> None)"

definition request_session :: "request_data \<Rightarrow> net_state \<Rightarrow> session_data option" where
  "request_session r s = (case wi_data (wcomp (rq_session r) s) of SessionData d \<Rightarrow> Some d | _ \<Rightarrow> None)"

definition get_server :: "request_data \<Rightarrow> net_state \<Rightarrow> str_or_int" where
  "get_server r s = (case request_session r s of Some d \<Rightarrow> ss_server d | None \<Rightarrow> Num 0)"

definition get_port :: "request_data \<Rightarrow> net_state \<Rightarrow> int" where
  "get_port r s = (case request_session r s of Some d \<Rightarrow> ss_port d | None \<Rightarrow> 0)"

definition get_user_agent :: "request_data \<Rightarrow> net_state \<Rightarrow> str_or_int" where
  "get_user_agent r s =
     (case request_session r s of
        Some d \<Rightarrow> (case wi_data (wcomp (ss_instance d) s) of InstanceData i \<Rightarrow> in_user_agent i | _ \<Rightarrow> Num 0)
      | None \<Rightarrow> Num 0)"

definition is_secure :: "request_data \<Rightarrow> bool" where
  "is_secure r \<longleftrightarrow> rq_flags r AND INTERNET_FLAG_SECURE \<noteq> 0"

definition newline :: string where "newline = [char_of (10 :: nat)]"

definition format_http_request :: "request_data \<Rightarrow> string \<Rightarrow> net_state \<Rightarrow> string" where
  "format_http_request r headers s =
     upper (rq_verb r) @ '' '' @ rq_path r @ '' '' @ upper (rq_ver r) @ newline @ headers @
     ''Host: '' @ render (get_server r s) @ newline @
     (if truthy (get_user_agent r s) then ''User-Agent: '' @ render (get_user_agent r s) @ newline else []) @
     (if rq_flags r AND INTERNET_FLAG_KEEP_CONNECTION \<noteq> 0 then ''Connection: Keep-Alive'' @ newline
      else ''Connection: Close'' @ newline) @
     (if rq_flags r AND INTERNET_FLAG_DONT_CACHE \<noteq> 0 then ''Cache-Control: no-cache'' @ newline else [])"

subsection \<open>Responses\<close>

text \<open>The loop over the files of an entry: the response and the default path so far; a host file that cannot be read raises and
  leaves the response found before.\<close>

definition set_response :: "nat \<Rightarrow> bytes_io \<Rightarrow> net_state \<Rightarrow> net_state" where
  "set_response i b s = upd_comp i (\<lambda>c. c\<lparr>wi_data := (case wi_data c of
       RequestData r \<Rightarrow> RequestData (r\<lparr>rq_response := Some b\<rparr>) | d \<Rightarrow> d)\<rparr>) s"

definition clear_response :: "nat \<Rightarrow> net_state \<Rightarrow> net_state" where
  "clear_response i s = upd_comp i (\<lambda>c. c\<lparr>wi_data := (case wi_data c of
       RequestData r \<Rightarrow> RequestData (r\<lparr>rq_response := None\<rparr>) | d \<Rightarrow> d)\<rparr>) s"

definition response_of :: "nat \<Rightarrow> net_state \<Rightarrow> bytes_io option" where
  "response_of i s = (case wi_data (wcomp i s) of RequestData r \<Rightarrow> rq_response r | _ \<Rightarrow> None)"

definition ext_matches :: "string \<Rightarrow> string \<Rightarrow> bool" where
  "ext_matches ext path \<longleftrightarrow>
     strip_char (CHR ''.'') (lower ext) =
     strip_char (CHR ''.'') (lower (snd (splitext_with (\<lambda>c. c = CHR ''/'') path)))"

fun response_files :: "net_env \<Rightarrow> nat \<Rightarrow> string \<Rightarrow> file_entry list \<Rightarrow> string \<Rightarrow> net_state \<Rightarrow> string result \<times> net_state" where
  "response_files env i path [] dflt s = (Inr dflt, s)"
| "response_files env i path (f # fs) dflt s =
     (case f of
        FileEntryByExt ext _ _ \<Rightarrow>
          (if ext_matches ext path \<and> entry_path f \<noteq> []
           then (case read_host env (entry_path f) of
                   Inl e \<Rightarrow> (Inl e, s)
                 | Inr d \<Rightarrow> response_files env i path fs dflt (set_response i (bio_new d) s))
           else response_files env i path fs dflt s)
      | FileEntryDefault _ _ \<Rightarrow> response_files env i path fs (response_path env (entry_path f)) s
      | FileEntryFullPath _ _ _ \<Rightarrow> response_files env i path fs dflt s)"

fun response_loop ::
  "net_env \<Rightarrow> nat \<Rightarrow> request_data \<Rightarrow> http_response list \<Rightarrow> string \<Rightarrow> net_state \<Rightarrow> unit result \<times> net_state" where
  "response_loop env i r [] dflt s = (Inr (), s)"
| "response_loop env i r (res # resps) dflt s =
     (if lower (case hr_verb res of None \<Rightarrow> [] | Some v \<Rightarrow> v) = rq_verb r \<and> hr_files res \<noteq> []
      then (case response_files env i (rq_path r) (hr_files res) dflt s of
              (Inl e, s) \<Rightarrow> (Inl e, s)
            | (Inr dflt, s) \<Rightarrow>
                (if response_of i s = None \<and> dflt \<noteq> []
                 then (case ne_host_read env dflt of
                         None \<Rightarrow> (Inl OSError, s)
                       | Some d \<Rightarrow> response_loop env i r resps dflt (set_response i (bio_new d) s))
                 else response_loop env i r resps dflt s))
      else response_loop env i r resps dflt s)"

definition get_response :: "net_env \<Rightarrow> nat \<Rightarrow> net_state \<Rightarrow> bytes_io result \<times> net_state" where
  "get_response env i s =
     (case wi_data (wcomp i s) of
        RequestData r \<Rightarrow>
          (case rq_response r of
             Some b \<Rightarrow> (Inr b, s)
           | None \<Rightarrow>
               (case (case ne_config env of None \<Rightarrow> None | Some c \<Rightarrow> nc_http c) of
                  None \<Rightarrow> (Inl NetworkEmuError, s)
                | Some resps \<Rightarrow>
                    (if resps = [] then (Inl NetworkEmuError, s)
                     else (case response_loop env i r resps [] (clear_response i s) of
                             (Inl e, s) \<Rightarrow> (Inl e, s)
                           | (Inr _, s) \<Rightarrow>
                               (case response_of i s of
                                  Some b \<Rightarrow> (Inr b, s)
                                | None \<Rightarrow> (Inr (bio_new []), set_response i (bio_new []) s))))))
      | _ \<Rightarrow> (Inl AttributeError, s))"

definition get_response_headers :: "net_env \<Rightarrow> nat \<Rightarrow> net_state \<Rightarrow> string list result \<times> net_state" where
  "get_response_headers env i =
     sbind (get_response env i)
       (\<lambda>b. sret [''HTTP/1.1 200 OK'', ''Content-Length: '' @ dec_nat (length (bio_data b))])"

definition get_response_size :: "net_env \<Rightarrow> nat \<Rightarrow> net_state \<Rightarrow> nat result \<times> net_state" where
  "get_response_size env i =
     sbind (get_response env i) (\<lambda>resp s.
       let off = bio_pos resp;
           (d, resp) = bio_read (-1) resp
       in (Inr (length d), set_response i (resp\<lparr>bio_pos := off\<rparr>) s))"

subsection \<open>Requests and closing\<close>

definition record_http_request :: "str_or_int \<Rightarrow> int \<Rightarrow> string \<Rightarrow> byte list \<Rightarrow> bool \<Rightarrow> net_state \<Rightarrow> net_state" where
  "record_http_request server port headers body secure s =
     record_event (HttpEvent (render server) port headers body secure) s"

definition is_ip_address :: "net_env \<Rightarrow> str_or_int \<Rightarrow> bool" where
  "is_ip_address env x = (case x of Str s \<Rightarrow> ne_inet_aton env s | Num _ \<Rightarrow> False)"

definition send_request :: "net_env \<Rightarrow> request_data \<Rightarrow> string \<Rightarrow> byte list \<Rightarrow> net_state \<Rightarrow> unit result \<times> net_state" where
  "send_request env r headers body =
     sbind (\<lambda>s. if is_ip_address env (get_server r s) then (Inr None, s) else name_lookup env (get_server r s) s)
       (\<lambda>_ s. (Inr (), record_http_request (get_server r s) (get_port r s) (format_http_request r headers s) body
                          (is_secure r) s))"

definition open_url ::
  "net_env \<Rightarrow> nat \<Rightarrow> string \<Rightarrow> str_or_int \<Rightarrow> int \<Rightarrow> string \<Rightarrow> int \<Rightarrow> int \<Rightarrow> bool \<Rightarrow> net_state \<Rightarrow> nat result \<times> net_state" where
  "open_url env inst url server port headers flags ctx secure s =
     (let s = record_http_request server port headers [] secure s;
          (sess, s) = new_session inst server port (Str []) (Str []) (Str []) flags ctx s
      in new_request env sess ''GET'' url [] None None flags ctx s)"

text \<open>\<open>close_wininet_object\<close> calls itself on the children. The fuel is the depth of the calls.\<close>

primrec close_children ::
  "(int \<Rightarrow> net_state \<Rightarrow> (bool \<times> net_state) option) \<Rightarrow> nat list \<Rightarrow> net_state \<Rightarrow> net_state option" where
  "close_children close [] s = Some s"
| "close_children close (c # cs) s =
     (if ht_contains (wi_handle (wcomp c s)) (hw_tables s 1)
      then (case close (wi_handle (wcomp c s)) s of None \<Rightarrow> None | Some (_, s') \<Rightarrow> close_children close cs s')
      else close_children close cs s)"

primrec close_wininet :: "nat \<Rightarrow> int \<Rightarrow> net_state \<Rightarrow> (bool \<times> net_state) option" where
  "close_wininet 0 h s = None"
| "close_wininet (Suc n) h s =
     (case get_wininet (\<lambda>_. True) h s of
        None \<Rightarrow> Some (False, s)
      | Some i \<Rightarrow>
          (case close_children (close_wininet n) (wi_children (wcomp i s)) s of
             None \<Rightarrow> None
           | Some s' \<Rightarrow> Some (close_in plain_callbacks 1 h s')))"

definition close_wininet_object :: "int \<Rightarrow> net_state \<Rightarrow> (bool \<times> net_state) option" where
  "close_wininet_object h s = close_wininet (Suc (length (nw_comps (hw_world s)))) h s"

end
