(* ===== verification/Network_Properties.thy ===== *)
theory Network_Properties
  imports Network
begin

text \<open>
  Properties of \<open>Network\<close>: closing a WinInet handle ends and closes exactly the open handles of the objects under it, and a
  socket gives its queue in order, each byte once, whatever mixture of receives and peeks the program makes.
\<close>

subsection \<open>The tree of WinInet objects\<close>

definition kids :: "nat \<Rightarrow> net_state \<Rightarrow> nat set" where
  "kids c s = (if c < length (nw_comps (hw_world s)) then set (wi_children (wcomp c s)) else {})"

inductive under :: "net_state \<Rightarrow> nat \<Rightarrow> nat \<Rightarrow> bool" for s where
  under_self: "under s c c"
| under_child: "under s c d \<Longrightarrow> e \<in> kids d s \<Longrightarrow> under s c e"

inductive_cases underE: "under s c e"

definition win_open :: "nat \<Rightarrow> net_state \<Rightarrow> bool" where
  "win_open c s \<longleftrightarrow> hw_tables s 1 (wi_handle (wcomp c s)) = Some (WinRef c)"

text \<open>The invariant: an open handle refers to an object that has this handle; a child is newer than its parent, and the parent of
  an open object is open.\<close>

definition wininet_wf :: "net_state \<Rightarrow> bool" where
  "wininet_wf s \<longleftrightarrow> handles_wf plain_callbacks s \<and>
     (\<forall>h x. hw_tables s 1 h = Some x \<longrightarrow>
        (\<exists>c. x = WinRef c \<and> c < length (nw_comps (hw_world s)) \<and> wi_handle (wcomp c s) = h)) \<and>
     (\<forall>c<length (nw_comps (hw_world s)). wi_handle (wcomp c s) \<in> handle_issued s) \<and>
     distinct (map wi_handle (nw_comps (hw_world s))) \<and>
     (\<forall>c d. d \<in> kids c s \<longrightarrow> c < d \<and> d < length (nw_comps (hw_world s))) \<and>
     (\<forall>c d. d \<in> kids c s \<longrightarrow> win_open d s \<longrightarrow> win_open c s)"

lemma wininet_wfD:
  assumes "wininet_wf s"
  shows "handles_wf plain_callbacks s"
    "hw_tables s 1 h = Some x \<Longrightarrow> \<exists>c. x = WinRef c \<and> c < length (nw_comps (hw_world s)) \<and> wi_handle (wcomp c s) = h"
    "c < length (nw_comps (hw_world s)) \<Longrightarrow> wi_handle (wcomp c s) \<in> handle_issued s"
    "distinct (map wi_handle (nw_comps (hw_world s)))"
    "d \<in> kids c s \<Longrightarrow> c < d \<and> d < length (nw_comps (hw_world s))"
    "d \<in> kids c s \<Longrightarrow> win_open d s \<Longrightarrow> win_open c s"
proof -
  note w = assms [unfolded wininet_wf_def]
  show "handles_wf plain_callbacks s" using w by (elim conjE)
  show "\<exists>c. x = WinRef c \<and> c < length (nw_comps (hw_world s)) \<and> wi_handle (wcomp c s) = h" if "hw_tables s 1 h = Some x"
    using w that by (elim conjE) simp
  show "wi_handle (wcomp c s) \<in> handle_issued s" if "c < length (nw_comps (hw_world s))"
    using w that by (elim conjE) simp
  show "distinct (map wi_handle (nw_comps (hw_world s)))" using w by (elim conjE)
  show "c < d \<and> d < length (nw_comps (hw_world s))" if "d \<in> kids c s"
    using w that by (elim conjE) simp
  show "win_open c s" if "d \<in> kids c s" "win_open d s"
    using w that by (elim conjE) blast
qed

lemma under_trans: "under s d e \<Longrightarrow> under s c d \<Longrightarrow> under s c e"
  by (induction rule: under.induct) (auto intro: under_child)

lemma wininet_mask:
  "wininet_wf s \<Longrightarrow> c < length (nw_comps (hw_world s)) \<Longrightarrow> wi_handle (wcomp c s) AND HANDLE_MASK = wi_handle (wcomp c s)"
  by (rule issued_mod(1) [OF wininet_wfD(1) wininet_wfD(3)])

lemma wininet_same_handle:
  "wininet_wf s \<Longrightarrow> c < length (nw_comps (hw_world s)) \<Longrightarrow> d < length (nw_comps (hw_world s)) \<Longrightarrow>
   wi_handle (wcomp c s) = wi_handle (wcomp d s) \<Longrightarrow> c = d"
  using wininet_wfD(4) [of s] by (simp add: wcomp_def distinct_conv_nth) metis

lemma under_parent_open: "under s c e \<Longrightarrow> wininet_wf s \<Longrightarrow> win_open e s \<Longrightarrow> win_open c s"
  by (induction rule: under.induct) (auto dest: wininet_wfD(6))

lemma under_closed: "wininet_wf s \<Longrightarrow> \<not> win_open c s \<Longrightarrow> under s c e \<Longrightarrow> \<not> win_open e s"
  using under_parent_open by blast

lemma under_head: "under s c e \<longleftrightarrow> c = e \<or> (\<exists>d \<in> kids c s. under s d e)"
proof
  show "under s c e \<Longrightarrow> c = e \<or> (\<exists>d\<in>kids c s. under s d e)"
    by (induction rule: under.induct) (auto intro: under.intros)
  show "c = e \<or> (\<exists>d\<in>kids c s. under s d e) \<Longrightarrow> under s c e"
    by (metis under_child under_self under_trans)
qed

text \<open>A step that closes a set of objects \<open>cl\<close> and nothing else.\<close>

definition closes :: "(nat \<Rightarrow> bool) \<Rightarrow> net_state \<Rightarrow> net_state \<Rightarrow> bool" where
  "closes cl s s' \<longleftrightarrow> hw_world s' = hw_world s \<and> handles_wf plain_callbacks s' \<and>
     handle_issued s' = handle_issued s \<and>
     (\<forall>t h. hw_tables s' t h = (if t = 1 \<and> (\<exists>c. hw_tables s 1 h = Some (WinRef c) \<and> cl c) then None else hw_tables s t h))"

lemma closes_kids: "closes cl s s' \<Longrightarrow> kids c s' = kids c s" "closes cl s s' \<Longrightarrow> wcomp c s' = wcomp c s"
  by (simp_all add: closes_def kids_def wcomp_def)

lemma closes_under: "closes cl s s' \<Longrightarrow> under s' = under s"
proof -
  assume c: "closes cl s s'"
  have a: "under s' c e" if "under s c e" for c e
    using that by induction (auto intro: under.intros simp: closes_kids [OF c])
  have b: "under s c e" if "under s' c e" for c e
    using that by induction (auto intro: under.intros simp: closes_kids [OF c])
  show ?thesis using a b by blast
qed

lemma closes_open: "closes cl s s' \<Longrightarrow> win_open c s' \<longleftrightarrow> win_open c s \<and> \<not> cl c"
  by (auto simp: win_open_def closes_def wcomp_def)

lemma closes_trans: "closes cl s s1 \<Longrightarrow> closes cl' s1 s' \<Longrightarrow> closes (\<lambda>c. cl c \<or> cl' c) s s'"
  by (auto simp: closes_def)

lemma closes_cong:
  "closes cl s s' \<Longrightarrow> wininet_wf s \<Longrightarrow> (\<And>c. win_open c s \<Longrightarrow> cl c = cl' c) \<Longrightarrow> closes cl' s s'"
proof -
  assume a: "closes cl s s'" "wininet_wf s" "\<And>c. win_open c s \<Longrightarrow> cl c = cl' c"
  have "cl c = cl' c" if "hw_tables s 1 h = Some (WinRef c)" for h c
    using wininet_wfD(2) [OF a(2) that] that by (intro a(3)) (auto simp: win_open_def)
  then show "closes cl' s s'" using a(1) by (auto simp: closes_def)
qed

lemma closes_wf:
  assumes wf: "wininet_wf s" and c: "closes cl s s'" and down: "\<And>c d. d \<in> kids c s \<Longrightarrow> cl c \<Longrightarrow> cl d"
  shows "wininet_wf s'"
proof -
  have w: "hw_world s' = hw_world s" and h: "handles_wf plain_callbacks s'" and i: "handle_issued s' = handle_issued s" using c by (simp_all add: closes_def)
  have t: "hw_tables s' 1 h = Some x \<Longrightarrow> hw_tables s 1 h = Some x" for h x
    using c by (auto simp: closes_def split: if_splits)
  show ?thesis
    unfolding wininet_wf_def w closes_kids [OF c]
  proof (intro conjI allI impI)
    show "handles_wf plain_callbacks s'" by (rule h)
    show "\<exists>c. x = WinRef c \<and> c < length (nw_comps (hw_world s)) \<and> wi_handle (wcomp c s) = h" if "hw_tables s' 1 h = Some x" for h x
      using wininet_wfD(2) [OF wf t [OF that]] .
    show "wi_handle (wcomp d s) \<in> handle_issued s'" if "d < length (nw_comps (hw_world s))" for d
      using wininet_wfD(3) [OF wf that] i by simp
    show "distinct (map wi_handle (nw_comps (hw_world s)))" by (rule wininet_wfD(4) [OF wf])
    show "e < d" "d < length (nw_comps (hw_world s))" if "d \<in> kids e s" for d e
      using wininet_wfD(5) [OF wf that] by simp_all
    show "win_open e s'" if "d \<in> kids e s" "win_open d s'" for d e
      using wininet_wfD(6) [OF wf that(1)] that(2) down [OF that(1)] by (auto simp: closes_open [OF c])
  qed
qed

lemma get_wininet_open:
  assumes "wininet_wf s" "win_open c s" "c < length (nw_comps (hw_world s))"
  shows "get_wininet (\<lambda>_. True) (wi_handle (wcomp c s)) s = Some c"
  using assms wininet_mask [OF assms(1,3)]
  by (simp add: get_wininet_def ht_get_def plain_callbacks_def win_open_def)

definition closes_subtree :: "(int \<Rightarrow> net_state \<Rightarrow> (bool \<times> net_state) option) \<Rightarrow> nat \<Rightarrow> nat \<Rightarrow> bool" where
  "closes_subtree close m d \<longleftrightarrow> (\<forall>s. wininet_wf s \<longrightarrow> d < m \<longrightarrow> length (nw_comps (hw_world s)) = m \<longrightarrow> win_open d s \<longrightarrow>
     (\<exists>s'. close (wi_handle (wcomp d s)) s = Some (True, s') \<and> closes (under s d) s s'))"

lemma closes_subtreeD: "closes_subtree close m d \<Longrightarrow> wininet_wf s \<Longrightarrow> d < m \<Longrightarrow> length (nw_comps (hw_world s)) = m \<Longrightarrow>
    win_open d s \<Longrightarrow> \<exists>s'. close (wi_handle (wcomp d s)) s = Some (True, s') \<and> closes (under s d) s s'"
  by (simp add: closes_subtree_def)

lemma close_children_closes:
  assumes "\<forall>d\<in>set ds. closes_subtree close m d \<and> d < m" and "wininet_wf s" and "length (nw_comps (hw_world s)) = m"
  shows "\<exists>s'. close_children close ds s = Some s' \<and> closes (\<lambda>e. \<exists>d\<in>set ds. under s d e) s s'"
  using assms
proof (induction ds arbitrary: s)
  case Nil
  then show ?case using wininet_wfD(1) [OF Nil.prems(2)] by (simp add: closes_def)
next
  case (Cons d ds)
  have d: "d < length (nw_comps (hw_world s))" using Cons.prems(1,3) by simp
  note mask = wininet_mask [OF Cons.prems(2) d]
  have con: "ht_contains (wi_handle (wcomp d s)) (hw_tables s 1) \<longleftrightarrow> win_open d s"
  proof
    assume "ht_contains (wi_handle (wcomp d s)) (hw_tables s 1)"
    then obtain x where x: "hw_tables s 1 (wi_handle (wcomp d s)) = Some x"
      using mask by (auto simp: ht_contains_def)
    from wininet_wfD(2) [OF Cons.prems(2) x] wininet_same_handle [OF Cons.prems(2) _ d] x show "win_open d s"
      by (auto simp: win_open_def)
  qed (use mask in \<open>simp add: ht_contains_def win_open_def\<close>)
  show ?case
  proof (cases "win_open d s")
    case False
    obtain s' where s': "close_children close ds s = Some s'" "closes (\<lambda>e. \<exists>d\<in>set ds. under s d e) s s'"
      using Cons.IH [OF _ Cons.prems(2,3)] Cons.prems(1) by auto
    have "closes (\<lambda>e. \<exists>d\<in>set (d # ds). under s d e) s s'"
      using under_closed [OF Cons.prems(2) False] by (intro closes_cong [OF s'(2) Cons.prems(2)]) auto
    then show ?thesis using s'(1) con False by simp
  next
    case True
    obtain s1 where s1: "close (wi_handle (wcomp d s)) s = Some (True, s1)" "closes (under s d) s s1"
      using closes_subtreeD [OF _ Cons.prems(2) _ Cons.prems(3) True, of close] Cons.prems(1) by auto
    have wf1: "wininet_wf s1" by (rule closes_wf [OF Cons.prems(2) s1(2)]) (auto intro: under_child)
    have m1: "length (nw_comps (hw_world s1)) = m" using s1(2) Cons.prems(3) by (simp add: closes_def)
    obtain s' where s': "close_children close ds s1 = Some s'" "closes (\<lambda>e. \<exists>d\<in>set ds. under s1 d e) s1 s'"
      using Cons.IH [OF _ wf1 m1] Cons.prems(1) by auto
    have "closes (\<lambda>e. under s d e \<or> (\<exists>d\<in>set ds. under s1 d e)) s s'" by (rule closes_trans [OF s1(2) s'(2)])
    then have "closes (\<lambda>e. \<exists>d\<in>set (d # ds). under s d e) s s'" by (simp add: closes_under [OF s1(2)])
    then show ?thesis using s1(1) s'(1) con True by simp
  qed
qed

lemma close_wininet_closes: "m - c \<le> n \<Longrightarrow> closes_subtree (close_wininet n) m c"
proof (induction n arbitrary: c)
  case 0
  then show ?case by (simp add: closes_subtree_def)
next
  case (Suc n)
  have "\<exists>s'. close_wininet (Suc n) (wi_handle (wcomp c s)) s = Some (True, s') \<and> closes (under s c) s s'"
    if wf: "wininet_wf s" and cm: "c < m" and m: "length (nw_comps (hw_world s)) = m" and o: "win_open c s" for s
  proof -
  have c: "c < length (nw_comps (hw_world s))" using cm m by simp
  have g: "get_wininet (\<lambda>_. True) (wi_handle (wcomp c s)) s = Some c" by (rule get_wininet_open [OF wf o c])
  define ds where "ds = wi_children (wcomp c s)"
  have kids: "kids c s = set ds" by (simp add: kids_def ds_def c)
  have lt: "c < d \<and> d < m" if "d \<in> set ds" for d using wininet_wfD(5) [OF wf, of d c] that by (simp add: kids m)
  have ds: "\<forall>d\<in>set ds. closes_subtree (close_wininet n) m d \<and> d < m"
    using Suc.IH Suc.prems lt by fastforce
  obtain s1 where s1: "close_children (close_wininet n) ds s = Some s1" "closes (\<lambda>e. \<exists>d\<in>set ds. under s d e) s s1"
    using close_children_closes [OF ds wf m] by blast
  have wf1: "wininet_wf s1"
    by (rule closes_wf [OF wf s1(2)]) (auto intro: under_child)
  have t1: "hw_tables s1 1 (wi_handle (wcomp c s)) = Some (WinRef c)"
  proof -
    have "\<not> under s d c" if "d \<in> set ds" for d
    proof
      assume "under s d c"
      then have "d \<le> c" by induction (use wininet_wfD(5) [OF wf] in \<open>auto dest: less_imp_le_nat intro: le_trans\<close>)
      then show False using lt [OF that] by simp
    qed
    then show ?thesis using s1(2) o by (auto simp: closes_def win_open_def)
  qed
  obtain b s' where cl: "close_in plain_callbacks 1 (wi_handle (wcomp c s)) s1 = (b, s')" by fastforce
  note law = close_in_law [OF wininet_wfD(1) [OF wf1] cl]
  note pc = plain_close [OF wininet_wfD(1) [OF wf1] cl]
  note mask = wininet_mask [OF wf c]
  have b: "b" using pc(2) t1 mask by simp
  have "closes (\<lambda>e. e = c) s1 s'"
    unfolding closes_def
  proof (intro conjI allI)
    show "hw_world s' = hw_world s1" "handles_wf plain_callbacks s'" by (rule pc)+
    show "handle_issued s' = handle_issued s1" using law by simp
    have only: "h = wi_handle (wcomp c s)" if "hw_tables s1 1 h = Some (WinRef c)" for h
      using wininet_wfD(2) [OF wf1 that] closes_kids(2) [OF s1(2)] by auto
    have ex: "(\<exists>d. hw_tables s1 1 h = Some (WinRef d) \<and> d = c) \<longleftrightarrow> h = wi_handle (wcomp c s)" for h
      using only [of h] t1 by blast
    show "hw_tables s' t h = (if t = 1 \<and> (\<exists>d. hw_tables s1 1 h = Some (WinRef d) \<and> d = c) then None else hw_tables s1 t h)" for t h
      unfolding ex pc(3) mask by simp
  qed
  from closes_trans [OF s1(2) this] have "closes (under s c) s s'"
    by (rule closes_cong [OF _ wf]) (auto simp: under_head [of s c] kids)
  then show ?thesis using g s1(1) cl b by (simp add: ds_def)
  qed
  then show ?case by (simp add: closes_subtree_def)
qed

lemma close_exact:
  assumes "wininet_wf s" and "get_wininet (\<lambda>_. True) h s = Some c"
  shows "\<exists>s'. close_wininet_object h s = Some (True, s') \<and> wininet_wf s' \<and> hw_world s' = hw_world s \<and>
    (\<forall>t k. hw_tables s' t k =
      (if t = 1 \<and> (\<exists>d. hw_tables s 1 k = Some (WinRef d) \<and> under s c d) then None else hw_tables s t k))"
proof -
  have t: "hw_tables s 1 (h AND HANDLE_MASK) = Some (WinRef c)"
    using assms(2) by (auto simp: get_wininet_def ht_get_def plain_callbacks_def split: option.splits if_splits net_ref.splits)
  have c: "c < length (nw_comps (hw_world s))" "wi_handle (wcomp c s) = h AND HANDLE_MASK"
    using wininet_wfD(2) [OF assms(1) t] by auto
  have o: "win_open c s" using t c(2) by (simp add: win_open_def)
  have m: "length (nw_comps (hw_world s)) - c \<le> Suc (length (nw_comps (hw_world s)))" by simp
  obtain s' where s': "close_wininet (Suc (length (nw_comps (hw_world s)))) (wi_handle (wcomp c s)) s = Some (True, s')"
    "closes (under s c) s s'"
    using closes_subtreeD [OF close_wininet_closes [OF m] assms(1) c(1) refl o] by blast
  have e: "close_in plain_callbacks 1 (wi_handle (wcomp c s)) s1 = close_in plain_callbacks 1 h s1" for s1 :: net_state
    by (simp add: close_in_eq c(2) plain_callbacks_def split: option.split)
  have "close_wininet_object h s = Some (True, s')"
    using s'(1) assms(2) get_wininet_open [OF assms(1) o c(1)] by (simp add: close_wininet_object_def e del: One_nat_def cong del: option.case_cong_weak)
  moreover have "wininet_wf s'" by (rule closes_wf [OF assms(1) s'(2)]) (auto intro: under_child)
  ultimately show ?thesis using s'(2) by (simp add: closes_def)
qed

subsection \<open>The states that the program reaches keep the invariant\<close>

lemma wininet_wf_init: "wininet_wf (init_net init_allocator)"
  using init_handles_wf [OF plain_pseudo_ok, of "\<lparr>nw_sockets = [], nw_comps = [], nw_events = []\<rparr>"]
  by (simp add: wininet_wf_def init_net_def init_handles_def kids_def)

text \<open>An operation on the sockets or the events.\<close>

lemma wininet_wf_other:
  assumes wf: "wininet_wf s" and h: "handles_wf plain_callbacks s'" and i: "handle_issued s \<subseteq> handle_issued s'"
    and t: "hw_tables s' 1 = hw_tables s 1" and c: "nw_comps (hw_world s') = nw_comps (hw_world s)"
  shows "wininet_wf s'"
proof -
  have "wcomp d s' = wcomp d s" "kids d s' = kids d s" "win_open d s' = win_open d s" for d
    by (simp_all add: wcomp_def kids_def win_open_def c t del: One_nat_def)
  note eq = this t c
  show ?thesis
    unfolding wininet_wf_def eq
  proof (intro conjI allI impI)
    show "wi_handle (wcomp d s) \<in> handle_issued s'" if "d < length (nw_comps (hw_world s))" for d
      using wininet_wfD(3) [OF wf that] i by blast
  qed (use h wininet_wfD(2,4-6) [OF wf] in auto)
qed

lemma new_component_wf:
  assumes wf: "wininet_wf s" and r: "0 < handle_room s" and n: "new_component d s = (i, s')"
  shows "wininet_wf s'" "i = length (nw_comps (hw_world s))" "nw_comps (hw_world s') = nw_comps (hw_world s) @ [wcomp i s']"
    "wi_data (wcomp i s') = d" "wi_children (wcomp i s') = []" "win_open i s'" "win_open c s \<Longrightarrow> c < i \<Longrightarrow> win_open c s'"
    "handle_room s' = handle_room s - 1"
proof -
  let ?w = "hw_world s"
  define k where "k = length (nw_comps ?w)"
  obtain h s1 where o: "open_in plain_callbacks 1 (WinRef k) s = (h, s1)" by fastforce
  note law = open_in_law [OF wininet_wfD(1) [OF wf] r o]
  note po = plain_open [OF wininet_wfD(1) [OF wf] r o]
  have e: "i = k" "s' = s1\<lparr>hw_world := ?w\<lparr>nw_comps := nw_comps ?w @ [\<lparr>wi_handle = h, wi_children = [], wi_data = d\<rparr>]\<rparr>\<rparr>"
    using n o po(5) by (auto simp: new_component_def Let_def k_def)
  have cs: "nw_comps (hw_world s') = nw_comps ?w @ [\<lparr>wi_handle = h, wi_children = [], wi_data = d\<rparr>]" by (simp add: e)
  have old: "wcomp c s' = wcomp c s" if "c < k" for c using that by (simp add: wcomp_def cs nth_append k_def)
  have new: "wcomp k s' = \<lparr>wi_handle = h, wi_children = [], wi_data = d\<rparr>" by (simp add: wcomp_def cs k_def)
  have t: "hw_tables s' 1 = (hw_tables s 1)(h \<mapsto> WinRef k)" by (simp add: e po(4))
  have iss: "handle_issued s' = insert h (handle_issued s)" using law by (simp add: e handle_issued_def)
  have fresh: "h \<notin> handle_issued s" using law by simp
  have ne: "wi_handle (wcomp c s) \<noteq> h" if "c < k" for c
    using wininet_wfD(3) [OF wf, of c] that fresh by (auto simp: k_def)
  have kid: "kids c s' = kids c s" for c
    using old [of c] new by (cases "c < k") (auto simp: kids_def cs k_def nth_append wcomp_def less_Suc_eq)
  have op: "win_open c s' = win_open c s" if "c < k" for c
    using ne [OF that] by (simp add: win_open_def old [OF that] t del: One_nat_def)
  show "i = length (nw_comps ?w)" "nw_comps (hw_world s') = nw_comps ?w @ [wcomp i s']" "wi_data (wcomp i s') = d"
    "wi_children (wcomp i s') = []"
    using new by (simp_all add: e(1) cs k_def)
  show "win_open i s'" by (simp add: win_open_def e(1) new t del: One_nat_def)
  show "win_open c s \<Longrightarrow> c < i \<Longrightarrow> win_open c s'" using op by (simp add: e(1))
  show "handle_room s' = handle_room s - 1" using law by (simp add: e handles_wf_world)
  show "wininet_wf s'"
    unfolding wininet_wf_def
  proof (intro conjI allI impI)
    show "handles_wf plain_callbacks s'" using po(1) by (simp add: e handles_wf_world)
    show "\<exists>c. x = WinRef c \<and> c < length (nw_comps (hw_world s')) \<and> wi_handle (wcomp c s') = g" if g: "hw_tables s' 1 g = Some x" for g x
    proof (cases "g = h")
      case True
      then show ?thesis using g new by (auto simp: t cs k_def simp del: One_nat_def)
    next
      case False
      then have "hw_tables s 1 g = Some x" using g by (simp add: t del: One_nat_def)
      from wininet_wfD(2) [OF wf this] obtain c where "x = WinRef c" "c < k" "wi_handle (wcomp c s) = g" by (auto simp: k_def)
      then show ?thesis using old [of c] by (auto simp: cs k_def)
    qed
    show "wi_handle (wcomp c s') \<in> handle_issued s'" if "c < length (nw_comps (hw_world s'))" for c
    proof (cases "c < k")
      case True
      then show ?thesis using wininet_wfD(3) [OF wf, of c] by (simp add: old iss k_def)
    next
      case False
      then have "c = k" using that by (simp add: cs k_def)
      then show ?thesis by (simp add: new iss)
    qed
    have "h \<notin> set (map wi_handle (nw_comps ?w))"
    proof
      assume "h \<in> set (map wi_handle (nw_comps ?w))"
      then obtain c where "c < k" "wi_handle (wcomp c s) = h" by (auto simp: in_set_conv_nth wcomp_def k_def)
      then show False using ne by blast
    qed
    then show "distinct (map wi_handle (nw_comps (hw_world s')))" using wininet_wfD(4) [OF wf] by (simp add: cs)
    show "c < d" "d < length (nw_comps (hw_world s'))" if "d \<in> kids c s'" for c d
      using wininet_wfD(5) [OF wf, of d c] that by (simp_all add: kid cs)
    show "win_open c s'" if "d \<in> kids c s'" "win_open d s'" for c d
    proof -
      have d: "d \<in> kids c s" using that(1) by (simp add: kid)
      then have "c < d" "d < k" using wininet_wfD(5) [OF wf d] by (simp_all add: k_def)
      then show ?thesis using wininet_wfD(6) [OF wf d] op [of c] op [of d] that(2) by simp
    qed
  qed
qed

lemma add_child_wf:
  assumes wf: "wininet_wf s" and p: "p < i" "i < length (nw_comps (hw_world s))" "win_open p s"
  shows "wininet_wf (add_child p i s)" "win_open c (add_child p i s) = win_open c s"
    "handle_room (add_child p i s) = handle_room s"
proof -
  let ?s = "add_child p i s"
  have f: "hw_tables ?s = hw_tables s" "hw_alloc ?s = hw_alloc s" "length (nw_comps (hw_world ?s)) = length (nw_comps (hw_world s))"
    by (simp_all add: add_child_def upd_comp_def)
  have pl: "p < length (nw_comps (hw_world s))" using p by simp
  have hd: "wi_handle (wcomp c ?s) = wi_handle (wcomp c s)" for c
    using pl by (cases "c = p") (simp_all add: add_child_def upd_comp_def wcomp_def)
  have kid: "kids c ?s = (if c = p then insert i (kids p s) else kids c s)" for c
    using pl by (auto simp: kids_def add_child_def upd_comp_def wcomp_def)
  have op: "win_open c ?s = win_open c s" for c by (simp add: win_open_def f hd)
  show "win_open c ?s = win_open c s" by (rule op)
  show "handle_room ?s = handle_room s" by (simp add: handle_room_def f)
  have m: "map wi_handle (nw_comps (hw_world ?s)) = map wi_handle (nw_comps (hw_world s))"
    using hd f(3) by (intro nth_equalityI) (simp_all add: wcomp_def)
  have hw: "handles_wf plain_callbacks ?s" using wininet_wfD(1) [OF wf] by (simp add: add_child_def upd_comp_def handles_wf_world)
  show "wininet_wf ?s"
    unfolding wininet_wf_def f m hd op
  proof (intro conjI allI impI)
    show "c < d" "d < length (nw_comps (hw_world s))" if "d \<in> kids c ?s" for c d
      using that wininet_wfD(5) [OF wf, of d c] p by (auto simp: kid split: if_splits)
    show "win_open c s" if "d \<in> kids c ?s" "win_open d s" for c d
      using that wininet_wfD(6) [OF wf, of d c] p(3) by (auto simp: kid split: if_splits)
    show "wi_handle (wcomp c s) \<in> handle_issued ?s" if "c < length (nw_comps (hw_world s))" for c
      using wininet_wfD(3) [OF wf that] by (simp add: handle_issued_def f)
  qed (use wininet_wfD(2,4) [OF wf] hw in auto)
qed

text \<open>Operations that keep the handles and the tree.\<close>

definition same_tree :: "net_state \<Rightarrow> net_state \<Rightarrow> bool" where
  "same_tree s s' \<longleftrightarrow> hw_tables s' = hw_tables s \<and> hw_alloc s' = hw_alloc s \<and>
     map (\<lambda>c. (wi_handle c, wi_children c)) (nw_comps (hw_world s')) = map (\<lambda>c. (wi_handle c, wi_children c)) (nw_comps (hw_world s))"

lemma same_tree_refl [simp]: "same_tree s s"
  by (simp add: same_tree_def)

lemma same_tree_trans: "same_tree s s1 \<Longrightarrow> same_tree s1 s' \<Longrightarrow> same_tree s s'"
  by (simp add: same_tree_def)

lemma same_tree_wf:
  assumes wf: "wininet_wf s" and t: "same_tree s s'"
  shows "wininet_wf s'" "handle_room s' = handle_room s"
proof -
  have l: "length (nw_comps (hw_world s')) = length (nw_comps (hw_world s))"
    using t unfolding same_tree_def by (metis length_map)
  have mm: "map (\<lambda>c. (wi_handle c, wi_children c)) (nw_comps (hw_world s')) =
      map (\<lambda>c. (wi_handle c, wi_children c)) (nw_comps (hw_world s))"
    using t by (simp add: same_tree_def)
  have k: "wi_handle (wcomp c s') = wi_handle (wcomp c s) \<and> wi_children (wcomp c s') = wi_children (wcomp c s)"
    if "c < length (nw_comps (hw_world s))" for c
    using that l arg_cong [OF mm, of "\<lambda>xs. xs ! c"] by (simp add: wcomp_def)
  have tab: "hw_tables s' = hw_tables s" "hw_alloc s' = hw_alloc s" using t by (simp_all add: same_tree_def)
  have m: "map wi_handle (nw_comps (hw_world s')) = map wi_handle (nw_comps (hw_world s))"
    using k l by (intro nth_equalityI) (simp_all add: wcomp_def)
  have kid: "kids c s' = kids c s" for c using k [of c] l by (simp add: kids_def)
  show "handle_room s' = handle_room s" by (simp add: handle_room_def tab)
  have iss: "handle_issued s' = handle_issued s" by (simp add: handle_issued_def tab)
  have op: "win_open c s' = win_open c s" if "c < length (nw_comps (hw_world s))" for c
    using k [OF that] by (simp add: win_open_def tab)
  show "wininet_wf s'"
    unfolding wininet_wf_def tab l kid m iss
  proof (intro conjI allI impI)
    show "handles_wf plain_callbacks s'" using wininet_wfD(1) [OF wf] by (simp add: handles_wf_def tab iss)
    show "\<exists>c. x = WinRef c \<and> c < length (nw_comps (hw_world s)) \<and> wi_handle (wcomp c s') = h" if "hw_tables s 1 h = Some x" for h x
      using wininet_wfD(2) [OF wf that] k by auto
    show "wi_handle (wcomp c s') \<in> handle_issued s" if "c < length (nw_comps (hw_world s))" for c
      using wininet_wfD(3) [OF wf that] k [OF that] by simp
    show "distinct (map wi_handle (nw_comps (hw_world s)))" by (rule wininet_wfD(4) [OF wf])
    show "c < d" "d < length (nw_comps (hw_world s))" if "d \<in> kids c s" for c d
      using wininet_wfD(5) [OF wf that] by simp_all
    show "win_open c s'" if "d \<in> kids c s" "win_open d s'" for c d
      using wininet_wfD(5,6) [OF wf that(1)] op [of c] op [of d] that(2) by simp
  qed
qed

lemma same_tree_upd_comp:
  assumes "\<And>c. wi_handle (f c) = wi_handle c" "\<And>c. wi_children (f c) = wi_children c"
  shows "same_tree s (upd_comp i f s)"
  using assms by (auto simp: same_tree_def upd_comp_def intro!: nth_equalityI) (simp_all add: nth_update)

lemma same_tree_sym: "same_tree s s' \<Longrightarrow> same_tree s' s"
  by (simp add: same_tree_def)

lemma same_tree_eq: "same_tree s s' \<Longrightarrow> same_tree s t = same_tree s' t" "same_tree s s' \<Longrightarrow> same_tree t s = same_tree t s'"
  using same_tree_sym same_tree_trans by blast+

lemma same_tree_simple:
  "same_tree s (record_event e s)" "same_tree s (upd_socket i g s)" "same_tree s (set_response i b s)"
  "same_tree s (clear_response i s)"
  by (simp_all add: same_tree_def record_event_def upd_socket_def)
    (simp_all add: set_response_def clear_response_def same_tree_upd_comp [unfolded same_tree_def])

lemma same_tree_simps [simp]:
  "same_tree s (record_event e t) = same_tree s t" "same_tree s (upd_socket i g t) = same_tree s t"
  "same_tree s (set_response i b t) = same_tree s t" "same_tree s (clear_response i t) = same_tree s t"
  "same_tree (set_response i b s) t = same_tree s t" "same_tree (clear_response i s) t = same_tree s t"
  using same_tree_eq same_tree_simple by metis+

lemma same_tree_response_files: "same_tree s (snd (response_files env i path fs dflt s))"
proof (induction env i path fs dflt s rule: response_files.induct)
  case (2 env i path f fs dflt s)
  then show ?case by (auto split: file_entry.split sum.split)
qed simp

lemma same_tree_response_loop: "same_tree s (snd (response_loop env i r resps dflt s))"
proof (induction resps arbitrary: dflt s)
  case (Cons res resps)
  have a: "same_tree s s1" if "response_files env i (rq_path r) (hr_files res) dflt s = (x, s1)" for x s1
    using same_tree_response_files [of s env i "rq_path r" "hr_files res" dflt] that by simp
  have b: "same_tree s (snd (response_loop env i r resps d t))" if "same_tree s t" for d t
    using same_tree_trans [OF that Cons.IH] .
  show ?case
    using a b Cons.IH by (auto split: prod.split sum.split option.split)
qed simp

lemma same_tree_get_response: "same_tree s (snd (get_response env i s))"
proof -
  have "same_tree s s1" if "response_loop env i r resps [] (clear_response i s) = (x, s1)" for r resps x s1
    using same_tree_response_loop [of "clear_response i s" env i r resps "[]"] that by simp
  then show ?thesis
    by (auto simp: get_response_def split: wininet_data.split option.split prod.split sum.split)
qed

lemma same_tree_sockets [simp]:
  "same_tree s (connect i host port s)" "same_tree s (bind_socket i host port s)" "same_tree s (send i d s)"
  by (simp_all add: connect_def bind_socket_def send_def record_traffic_def)

text \<open>What the program can do with the network: the WinInet objects come through their handles, as the API handlers get them.\<close>

definition is_instance :: "wininet_data \<Rightarrow> bool" where
  "is_instance d = (case d of InstanceData _ \<Rightarrow> True | _ \<Rightarrow> False)"

definition is_session :: "wininet_data \<Rightarrow> bool" where
  "is_session d = (case d of SessionData _ \<Rightarrow> True | _ \<Rightarrow> False)"

inductive net_step :: "net_env \<Rightarrow> net_state \<Rightarrow> net_state \<Rightarrow> bool" for env where
  step_instance: "new_wininet_inst ua access proxy bypass flags s = (i, s') \<Longrightarrow> net_step env s s'"
| step_session: "get_wininet is_instance h s = Some c \<Longrightarrow>
    new_session c server port user password service flags ctx s = (i, s') \<Longrightarrow> net_step env s s'"
| step_request: "get_wininet is_session h s = Some c \<Longrightarrow>
    new_request env c verb objname ver ref accepts flags ctx s = (r, s') \<Longrightarrow> net_step env s s'"
| step_response: "get_response env i s = (r, s') \<Longrightarrow> net_step env s s'"
| step_lookup: "name_lookup env domain s = (r, s') \<Longrightarrow> net_step env s s'"
| step_close: "close_wininet_object h s = Some (b, s') \<Longrightarrow> net_step env s s'"
| step_socket: "new_socket env family stype protocol flags s = (r, s') \<Longrightarrow> net_step env s s'"
| step_connect: "connect i host port s = s' \<Longrightarrow> net_step env s s'"
| step_bind: "bind_socket i host port s = s' \<Longrightarrow> net_step env s s'"
| step_recv: "recv i n peek s = (d, s') \<Longrightarrow> net_step env s s'"
| step_send: "send i d s = s' \<Longrightarrow> net_step env s s'"
| step_close_socket: "close_socket fd s = (b, s') \<Longrightarrow> net_step env s s'"

inductive net_reach :: "net_env \<Rightarrow> net_state \<Rightarrow> bool" for env where
  reach_init: "net_reach env (init_net init_allocator)"
| reach_step: "net_reach env s \<Longrightarrow> 1 < handle_room s \<Longrightarrow> net_step env s s' \<Longrightarrow> net_reach env s'"

lemma get_wininet_SomeD:
  assumes "wininet_wf s" "get_wininet cls h s = Some c"
  shows "win_open c s" "c < length (nw_comps (hw_world s))" "get_wininet (\<lambda>_. True) h s = Some c"
proof -
  have t: "hw_tables s 1 (h AND HANDLE_MASK) = Some (WinRef c)"
    using assms(2) by (auto simp: get_wininet_def ht_get_def plain_callbacks_def split: option.splits if_splits net_ref.splits)
  then show "win_open c s" "c < length (nw_comps (hw_world s))"
    using wininet_wfD(2) [OF assms(1) t] by (auto simp: win_open_def)
  show "get_wininet (\<lambda>_. True) h s = Some c" using t by (simp add: get_wininet_def ht_get_def plain_callbacks_def)
qed

lemma attach_wf:
  assumes wf: "wininet_wf s" and r: "0 < handle_room s" and p: "win_open p s" "p < length (nw_comps (hw_world s))"
    and n: "new_component d s = (i, s1)"
  shows "wininet_wf (add_child p i s1)"
proof -
  note c = new_component_wf [OF wf r n]
  show ?thesis
    by (rule add_child_wf(1) [OF c(1)]) (use c(2,3) c(7) [OF p(1)] p(2) in simp_all)
qed

lemma net_step_wf: "net_step env s s' \<Longrightarrow> wininet_wf s \<Longrightarrow> 1 < handle_room s \<Longrightarrow> wininet_wf s'"
proof (induction rule: net_step.induct)
  case (step_instance ua access proxy bypass flags s i s')
  then show ?case using new_component_wf(1) [of s] by (auto simp: new_wininet_inst_def)
next
  case (step_session h s c server port user password service flags ctx i s')
  note g = get_wininet_SomeD(1,2) [OF step_session.prems(1) step_session.hyps(1)]
  show ?case
    using step_session.hyps(2) attach_wf [OF step_session.prems(1) _ g] step_session.prems(2)
    by (auto simp: new_session_def split: prod.splits)
next
  case (step_request h s c verb objname ver ref accepts flags ctx r s')
  note g = get_wininet_SomeD(1,2) [OF step_request.prems(1) step_request.hyps(1)]
  have n: "wininet_wf (snd (new_component d s))" for d
    using new_component_wf(1) [OF step_request.prems(1), of d "fst (new_component d s)"] step_request.prems(2) by simp
  show ?case
    using step_request.hyps(2) attach_wf [OF step_request.prems(1) _ g] step_request.prems(2) n
    by (auto simp: new_request_def Let_def split: prod.splits sum.splits)
next
  case (step_response i s r s')
  then show ?case using same_tree_wf(1) [OF _ same_tree_get_response [of s env i]] by simp
next
  case (step_lookup domain s r s')
  have "same_tree s s'" using step_lookup.hyps by (auto simp: name_lookup_def split: sum.splits)
  then show ?case by (rule same_tree_wf(1) [OF step_lookup.prems(1)])
next
  case (step_close h s b s')
  show ?case
  proof (cases "get_wininet (\<lambda>_. True) h s")
    case None
    then show ?thesis using step_close by (simp add: close_wininet_object_def)
  next
    case (Some c)
    then show ?thesis using close_exact [OF step_close.prems(1) Some] step_close.hyps by auto
  qed
next
  case (step_socket family stype protocol flags s r s')
  show ?case
  proof (cases "new_socket env family stype protocol flags s = (r, s)")
    case True
    then show ?thesis using step_socket by simp
  next
    case False
    then obtain i fd s1 w where o: "open_in plain_callbacks 0 (SockRef i) s = (fd, s1)"
      and s': "s' = s1\<lparr>hw_world := (hw_world s1)\<lparr>nw_sockets := w\<rparr>\<rparr>"
      using step_socket.hyps by (auto simp: new_socket_def Let_def split: sum.splits prod.splits)
    have r: "0 < handle_room s" using step_socket.prems(2) by simp
    note po = plain_open [OF wininet_wfD(1) [OF step_socket.prems(1)] r o]
      and law = open_in_law [OF wininet_wfD(1) [OF step_socket.prems(1)] r o]
    have hi: "handle_issued s \<subseteq> handle_issued s'" using law by (auto simp: s' handle_issued_def)
    show ?thesis
      by (rule wininet_wf_other [OF step_socket.prems(1) _ hi]) (use po in \<open>simp_all add: s' handles_wf_world\<close>)
  qed
next
  case (step_close_socket fd s b s')
  note cl = step_close_socket.hyps [unfolded close_socket_def]
  note pc = plain_close [OF wininet_wfD(1) [OF step_close_socket.prems(1)] cl]
    and law = close_in_law [OF wininet_wfD(1) [OF step_close_socket.prems(1)] cl]
  have hi: "handle_issued s \<subseteq> handle_issued s'" using law by simp
  show ?case
    by (rule wininet_wf_other [OF step_close_socket.prems(1) pc(1) hi]) (use pc in simp_all)
next
  case (step_recv i n peek s d s')
  have "same_tree s s'"
    using step_recv.hyps by (auto simp: recv_def record_traffic_def split: prod.splits)
  then show ?case by (rule same_tree_wf(1) [OF step_recv.prems(1)])
next
  case (step_connect i host port s s')
  show ?case unfolding step_connect.hyps [symmetric] by (rule same_tree_wf(1) [OF step_connect.prems(1)]) simp
next
  case (step_bind i host port s s')
  show ?case unfolding step_bind.hyps [symmetric] by (rule same_tree_wf(1) [OF step_bind.prems(1)]) simp
next
  case (step_send i d s s')
  show ?case unfolding step_send.hyps [symmetric] by (rule same_tree_wf(1) [OF step_send.prems(1)]) simp
qed

lemma net_reach_wf: "net_reach env s \<Longrightarrow> wininet_wf s"
  by (induction rule: net_reach.induct) (auto intro: wininet_wf_init net_step_wf)

text \<open>C21: in every state that the program reaches, closing an open WinInet handle returns and closes exactly the handles of the object
  and of all objects under it: the sessions of an instance and the requests of a session. All other handles, and the
  sockets, stay.\<close>

theorem wininet_close_exact:
  assumes "net_reach env s" and "get_wininet (\<lambda>_. True) h s = Some c"
  shows "\<exists>s'. close_wininet_object h s = Some (True, s') \<and> hw_world s' = hw_world s \<and>
    (\<forall>t k. hw_tables s' t k =
      (if t = 1 \<and> (\<exists>d. hw_tables s 1 k = Some (WinRef d) \<and> under s c d) then None else hw_tables s t k))"
  using close_exact [OF net_reach_wf [OF assms(1)] assms(2)] by blast

subsection \<open>Receiving\<close>

definition queue :: "nat \<Rightarrow> net_state \<Rightarrow> byte list" where
  "queue i s = drop (bio_pos (so_curr_packet (sock i s))) (bio_data (so_curr_packet (sock i s)))"

fun recv_run :: "nat \<Rightarrow> (int \<times> bool) list \<Rightarrow> net_state \<Rightarrow> byte list list \<times> net_state" where
  "recv_run i [] s = ([], s)"
| "recv_run i ((n, peek) # xs) s =
     (let (d, s') = recv i n peek s; (ds, s'') = recv_run i xs s' in (d # ds, s''))"

text \<open>The reference: a queue of bytes.\<close>

fun queue_run :: "(int \<times> bool) list \<Rightarrow> byte list \<Rightarrow> byte list list \<times> byte list" where
  "queue_run [] q = ([], q)"
| "queue_run ((n, peek) # xs) q =
     (let d = (if n < 0 then q else take (nat n) q);
          (ds, q') = queue_run xs (if peek then q else drop (length d) q)
      in (d # ds, q'))"

definition received :: "(int \<times> bool) list \<Rightarrow> byte list list \<Rightarrow> byte list" where
  "received xs ds = concat (map snd (filter (\<lambda>(x, d). \<not> snd x) (zip xs ds)))"

lemma queue_run_order: "queue_run xs q = (ds, q') \<Longrightarrow> received xs ds @ q' = q"
proof (induction xs arbitrary: q ds)
  case (Cons x xs)
  obtain n peek where x: "x = (n, peek)" by fastforce
  define d where "d = (if n < 0 then q else take (nat n) q)"
  have sp: "d @ drop (length d) q = q" by (cases "nat n \<le> length q") (auto simp: d_def min_def)
  obtain es where e: "queue_run xs (if peek then q else drop (length d) q) = (es, q')" "ds = d # es"
    using Cons.prems by (auto simp: x d_def [symmetric] Let_def simp del: if_split split: prod.splits)
  show ?case using Cons.IH [OF e(1)] sp by (cases peek) (simp_all add: received_def e(2) x)
qed (simp add: received_def)

lemma recv_queue:
  assumes "i < length (nw_sockets (hw_world s))" "recv i n peek s = (d, s')"
  shows "d = (if n < 0 then queue i s else take (nat n) (queue i s))"
    "queue i s' = (if peek then queue i s else drop (length d) (queue i s))"
    "length (nw_sockets (hw_world s')) = length (nw_sockets (hw_world s))"
proof -
  let ?b = "so_curr_packet (sock i s)"
  obtain b where b: "get_recv_data n peek ?b = (d, b)"
    and s': "s' = record_traffic i DATA_IN ''winsock.recv'' d (upd_socket i (\<lambda>so. so\<lparr>so_curr_packet := b\<rparr>) s)"
    using assms(2) by (auto simp: recv_def split: prod.splits)
  show d: "d = (if n < 0 then queue i s else take (nat n) (queue i s))"
    using b by (auto simp: get_recv_data_def bio_read_def queue_def Let_def split: if_splits sum.splits)
  have "so_curr_packet (sock i s') = b"
    using assms(1) by (simp add: s' record_traffic_def record_event_def upd_socket_def sock_def)
  moreover have "bio_data b = bio_data ?b \<and> bio_pos b = (if peek then bio_pos ?b else bio_pos ?b + length d)"
    using b by (auto simp: get_recv_data_def bio_read_def bio_seek_def SEEK_CUR_def SEEK_SET_def Let_def split: if_splits sum.splits)
  ultimately show "queue i s' = (if peek then queue i s else drop (length d) (queue i s))"
    by (simp add: queue_def add.commute)
  show "length (nw_sockets (hw_world s')) = length (nw_sockets (hw_world s))"
    by (simp add: s' record_traffic_def record_event_def upd_socket_def)
qed

text \<open>C35: a socket is a queue: receives and peeks of any sizes return what the queue returns, and the bytes of the receives, in
  order, are exactly the bytes that left the queue, so no byte is lost, repeated or given by a peek only.\<close>

theorem recv_in_order:
  assumes "i < length (nw_sockets (hw_world s))" and "recv_run i xs s = (ds, s')"
  shows "(ds, queue i s') = queue_run xs (queue i s) \<and> received xs ds @ queue i s' = queue i s"
proof -
  have "(ds, queue i s') = queue_run xs (queue i s)"
    using assms
  proof (induction xs arbitrary: s ds)
    case (Cons x xs)
    obtain n peek where x: "x = (n, peek)" by fastforce
    obtain d s1 where r: "recv i n peek s = (d, s1)" by fastforce
    obtain es where e: "recv_run i xs s1 = (es, s')" "ds = d # es"
      using Cons.prems(2) r by (auto simp: x split: prod.splits)
    note q = recv_queue [OF Cons.prems(1) r]
    have "(es, queue i s') = queue_run xs (queue i s1)" using Cons.IH [OF _ e(1)] q(3) Cons.prems(1) by simp
    then show ?case using q(1,2) by (simp add: x e(2) Let_def split_beta prod_eq_iff)
  qed simp
  then show ?thesis using queue_run_order [of xs "queue i s" ds "queue i s'"] by simp
qed

subsection \<open>Witnesses\<close>

definition net_env0 :: net_env where
  "net_env0 = \<lparr>ne_config = Some \<lparr>nc_dns = None, nc_http = None, nc_winsock = Some [FileEntryDefault (Some ''f'') None]\<rparr>,
     ne_root = [], ne_host_read = (\<lambda>_. Some [1, 2, 3]), ne_inet_aton = (\<lambda>_. False), ne_netloc_ok = (\<lambda>_. True)\<rparr>"

definition net1 :: net_state where
  "net1 = snd (new_wininet_inst (Str []) 0 (Str []) (Str []) 0 (init_net init_allocator))"

definition net2 :: net_state where
  "net2 = snd (new_session 0 (Str ''a'') 80 (Str []) (Str []) (Str []) 0 0 net1)"

lemmas net_eval = new_component_def new_wininet_inst_def new_session_def add_child_def upd_comp_def open_in_def new_handle_def
  allocate_handle_def put_table_def init_net_def init_allocator_def plain_callbacks_def get_wininet_def ht_get_def wcomp_def
  HANDLE_MASK_def

lemma net_reach2: "net_reach net_env0 net2"
proof -
  have r: "1 < handle_room (init_net init_allocator)" "1 < handle_room net1"
    by (simp_all add: net1_def net_eval handle_room_def)
  have "net_step net_env0 (init_net init_allocator) net1"
    unfolding net1_def by (rule step_instance [OF prod.collapse [symmetric]])
  from reach_step [OF reach_init r(1) this] have a: "net_reach net_env0 net1" .
  have g: "get_wininet is_instance 0x80 net1 = Some 0" by (simp add: net1_def net_eval is_instance_def)
  have "net_step net_env0 net1 net2" unfolding net2_def by (rule step_session [OF g prod.collapse [symmetric]])
  from reach_step [OF a r(2) this] show ?thesis .
qed

theorem wininet_close_exact_witness:
  "\<exists>s'. close_wininet_object 0x80 net2 = Some (True, s') \<and> hw_tables s' 1 0x84 = None"
proof -
  have g: "get_wininet (\<lambda>_. True) 0x80 net2 = Some 0" by (simp add: net1_def net2_def net_eval)
  have t: "hw_tables net2 1 0x84 = Some (WinRef 1)" by (simp add: net1_def net2_def net_eval)
  have "1 \<in> kids 0 net2" by (simp add: net1_def net2_def net_eval kids_def)
  then have "under net2 0 1" by (rule under_child [OF under_self])
  then show ?thesis using wininet_close_exact [OF net_reach2 g] t by fastforce
qed

definition net3 :: net_state where
  "net3 = snd (new_socket net_env0 2 1 0 0 (init_net init_allocator))"

theorem recv_in_order_witness:
  "fst (recv_run 0 [(1, False), (2, True), (2, False)] net3) = [[1], [2, 3], [2, 3]]"
proof -
  have l: "0 < length (nw_sockets (hw_world net3))" by code_simp
  have q: "queue 0 net3 = [1, 2, 3]" by code_simp
  from recv_in_order [OF l prod.collapse [symmetric], of "[(1, False), (2, True), (2, False)]"] show ?thesis
    by (simp add: q Let_def split_beta prod_eq_iff)
qed

end
