(* ===== verification/Gdb.thy ===== *)
theory Gdb
  imports Files "HOL-Library.Product_Lexorder"
begin

text \<open>
  The GDB remote serial protocol server of \<^verbatim>\<open>speakeasy/gdb.py\<close>: the packets, the reader of the socket, the state of a
  run, the breakpoints and watchpoints with their hooks, and the commands. Bytes are characters. The emulator and the
  CPU engine behind it are the parameter \<open>emu_api\<close> on a state \<open>'e\<close>. What the server sends is the list \<open>gs_sent\<close>; the
  methods that hold the state lock are steps of this model. Sockets, threads and log messages are not modelled.
\<close>

subsection \<open>Packets\<close>

definition PACKET_SIZE :: nat where "PACKET_SIZE = 0x10000"

definition ord :: "char \<Rightarrow> nat" where "ord c = of_char c"

definition checksum :: "string \<Rightarrow> nat" where
  "checksum payload = sum_list (map ord payload) mod 256"

definition hex2 :: "nat \<Rightarrow> string" where
  "hex2 n = [hex_digit (n div 16), hex_digit (n mod 16)]"

definition rsp_packet :: "string \<Rightarrow> string" where
  "rsp_packet payload = CHR ''$'' # payload @ CHR ''#'' # hex2 (checksum payload)"

definition flip5 :: "char \<Rightarrow> char" where
  "flip5 c = char_of (ord c XOR 0x20)"

definition is_special :: "char \<Rightarrow> bool" where
  "is_special c \<longleftrightarrow> c = CHR ''$'' \<or> c = CHR ''#'' \<or> c = CHR ''}'' \<or> c = CHR ''*''"

primrec rsp_escape :: "string \<Rightarrow> string" where
  "rsp_escape [] = []"
| "rsp_escape (c # s) = (if is_special c then CHR ''}'' # flip5 c # rsp_escape s else c # rsp_escape s)"

fun rsp_unescape :: "string \<Rightarrow> string" where
  "rsp_unescape (c # d # s) =
     (if c = CHR ''}'' then flip5 d # rsp_unescape s else c # rsp_unescape (d # s))"
| "rsp_unescape s = s"

text \<open>\<open>_extract_packet\<close>: the payload, its validity and the rest of the buffer.\<close>

definition extract_packet :: "string \<Rightarrow> (string \<times> bool \<times> string) option" where
  "extract_packet buffer =
     (if buffer = [] \<or> hd buffer \<noteq> CHR ''$'' then None
      else case find_from (CHR ''#'') 1 buffer of
        None \<Rightarrow> None
      | Some marker \<Rightarrow>
          (if length buffer < marker + 3 then None
           else (let encoded = drop 1 (take marker buffer);
                     valid = (case int16_bytes (take 2 (drop (marker + 1) buffer)) of
                                Inl _ \<Rightarrow> False
                              | Inr c \<Rightarrow> length encoded \<le> PACKET_SIZE \<and> \<not> (encoded \<noteq> [] \<and> last encoded = CHR ''}'') \<and>
                                         c = int (checksum encoded))
                 in Some (rsp_unescape encoded, valid, drop (marker + 3) buffer))))"

subsection \<open>State\<close>

record resume_action =
  ra_step :: bool
  ra_detach :: bool
  ra_kill :: bool

definition resume :: "bool \<Rightarrow> resume_action" where
  "resume step = \<lparr>ra_step = step, ra_detach = False, ra_kill = False\<rparr>"

definition detach :: resume_action where
  "detach = \<lparr>ra_step = False, ra_detach = True, ra_kill = False\<rparr>"

definition kill :: resume_action where
  "kill = \<lparr>ra_step = False, ra_detach = False, ra_kill = True\<rparr>"

record stop_reason =
  sr_signal :: nat
  sr_kind :: string
  sr_address :: "int option"

definition stop_default :: stop_reason where
  "stop_default = \<lparr>sr_signal = 5, sr_kind = [], sr_address = None\<rparr>"

record register_info =
  ri_name :: string
  ri_unicorn_id :: "string option"
  ri_size :: nat
  ri_group :: string

record gdb_module =
  gm_emu_path :: string
  gm_path :: string
  gm_base :: "int option"

text \<open>What the server calls of the emulator. A register value is a number, or the mantissa and the exponent of an x87
  register.\<close>

record 'e emu_api =
  ea_amd64 :: bool
  ea_get_pc :: "'e \<Rightarrow> int"
  ea_set_pc :: "int \<Rightarrow> 'e \<Rightarrow> unit result \<times> 'e"
  ea_mem_read :: "int \<Rightarrow> int \<Rightarrow> 'e \<Rightarrow> string result"
  ea_mem_write :: "int \<Rightarrow> string \<Rightarrow> 'e \<Rightarrow> unit result \<times> 'e"
  ea_reg_read :: "string \<Rightarrow> 'e \<Rightarrow> int \<times> int"
  ea_reg_write :: "string \<Rightarrow> int \<times> int \<Rightarrow> 'e \<Rightarrow> unit result \<times> 'e"
  ea_modules :: "'e \<Rightarrow> gdb_module list"
  ea_mem_regions :: "'e \<Rightarrow> (int \<times> int \<times> int) list"
  ea_run_start :: "'e \<Rightarrow> int option"
  ea_mod_from_addr :: "int \<Rightarrow> 'e \<Rightarrow> gdb_module option"
  ea_teb :: "'e \<Rightarrow> int"

text \<open>\<open>gs_broken\<close> says that the client closed the connection, so that a send raises. The hooks are the flags of the three
  hooks of the constructor and the ranges that have a code hook; \<open>gs_engine_stops\<close> and \<open>gs_flushes\<close> count the calls of the
  engine.\<close>

record 'e gdb =
  gs_broken :: bool
  gs_closed :: bool
  gs_commands :: "string option list"
  gs_no_ack :: bool
  gs_last_packet :: "string option"
  gs_running :: bool
  gs_stop_reason :: stop_reason
  gs_stop_pending :: bool
  gs_library_list_changed :: bool
  gs_resume_pc :: "int option"
  gs_exec_breakpoints :: "((int \<times> int \<times> int) \<times> int) list"
  gs_exec_addresses :: "(int \<times> int) list"
  gs_exec_ranges :: "(int \<times> int \<times> int) list"
  gs_read_watchpoints :: "((int \<times> int) \<times> int) list"
  gs_write_watchpoints :: "((int \<times> int) \<times> int) list"
  gs_access_watchpoints :: "((int \<times> int) \<times> int) list"
  gs_code_hook :: bool
  gs_read_hook :: bool
  gs_write_hook :: bool
  gs_breakpoint_hooks :: "(int \<times> int) list"
  gs_engine_stops :: nat
  gs_flushes :: nat
  gs_sent :: "string list"
  gs_emu :: 'e

text \<open>The state after the client connected and before \<open>_install_hooks\<close>; the three hooks are new, so they are added.\<close>

definition init_gdb :: "'e \<Rightarrow> 'e gdb" where
  "init_gdb e =
     \<lparr>gs_broken = False, gs_closed = False, gs_commands = [], gs_no_ack = False, gs_last_packet = None, gs_running = False,
      gs_stop_reason = stop_default, gs_stop_pending = False, gs_library_list_changed = False, gs_resume_pc = None,
      gs_exec_breakpoints = [], gs_exec_addresses = [], gs_exec_ranges = [], gs_read_watchpoints = [],
      gs_write_watchpoints = [], gs_access_watchpoints = [], gs_code_hook = True, gs_read_hook = True,
      gs_write_hook = True, gs_breakpoint_hooks = [], gs_engine_stops = 0, gs_flushes = 0, gs_sent = [], gs_emu = e\<rparr>"

subsection \<open>Sending\<close>

definition send_raw :: "string \<Rightarrow> 'e gdb \<Rightarrow> unit result \<times> 'e gdb" where
  "send_raw d s = (if gs_broken s then (Inl OSError, s) else (Inr (), s\<lparr>gs_sent := gs_sent s @ [d]\<rparr>))"

definition reply_raw :: "string \<Rightarrow> 'e gdb \<Rightarrow> unit result \<times> 'e gdb" where
  "reply_raw payload s = (let packet = rsp_packet payload in send_raw packet (s\<lparr>gs_last_packet := Some packet\<rparr>))"

definition reply :: "string \<Rightarrow> bool \<Rightarrow> 'e gdb \<Rightarrow> unit result \<times> 'e gdb" where
  "reply payload binary s =
     reply_raw (if binary then take 1 payload @ rsp_escape (drop 1 payload) else payload) s"

text \<open>\<open>notify_exit\<close> and \<open>notify_signal\<close> ignore an error of the socket.\<close>

definition notify :: "char \<Rightarrow> int \<Rightarrow> 'e gdb \<Rightarrow> 'e gdb" where
  "notify c code s =
     (if gs_closed s then s else snd (reply (c # hex2 (nat (code AND 0xFF))) False s))"

definition notify_exit :: "int \<Rightarrow> 'e gdb \<Rightarrow> 'e gdb" where "notify_exit = notify (CHR ''W'')"
definition notify_signal :: "int \<Rightarrow> 'e gdb \<Rightarrow> 'e gdb" where "notify_signal = notify (CHR ''X'')"

subsection \<open>Stops\<close>

definition is_watch :: "string \<Rightarrow> bool" where
  "is_watch kind \<longleftrightarrow> kind \<in> {''watch'', ''rwatch'', ''awatch''}"

definition stop_engine :: "'e gdb \<Rightarrow> 'e gdb" where
  "stop_engine s = s\<lparr>gs_engine_stops := gs_engine_stops s + 1\<rparr>"

definition request_stop :: "stop_reason \<Rightarrow> 'e gdb \<Rightarrow> 'e gdb" where
  "request_stop reason s =
     (if \<not> gs_running s \<or> gs_stop_pending s then s
      else (let s = s\<lparr>gs_stop_reason := reason, gs_stop_pending := True\<rparr>
            in if is_watch (sr_kind reason) then s else stop_engine s))"

definition pending_stop_reason :: "'e gdb \<Rightarrow> stop_reason option" where
  "pending_stop_reason s = (if gs_stop_pending s then Some (gs_stop_reason s) else None)"

definition has_pending_stop :: "'e gdb \<Rightarrow> bool" where
  "has_pending_stop s = gs_stop_pending s"

definition on_module_change :: "'e gdb \<Rightarrow> 'e gdb" where
  "on_module_change s =
     request_stop \<lparr>sr_signal = 5, sr_kind = ''library'', sr_address = None\<rparr> (s\<lparr>gs_library_list_changed := True\<rparr>)"

definition interrupt_reason :: stop_reason where
  "interrupt_reason = \<lparr>sr_signal = 2, sr_kind = ''interrupt'', sr_address = None\<rparr>"

definition interrupt :: "'e gdb \<Rightarrow> 'e gdb" where
  "interrupt s =
     (if gs_running s then request_stop interrupt_reason s
      else s\<lparr>gs_commands := gs_commands s @ [Some ''?'']\<rparr>)"

subsection \<open>The reader\<close>

text \<open>The inner loop: the rest of the buffer, or \<open>None\<close> when a send raised.\<close>

lemma extract_packet_length: "extract_packet buffer = Some (p, v, rest) \<Longrightarrow> length rest < length buffer"
  by (auto simp: extract_packet_def Let_def split: option.splits if_splits)

function read_buffer :: "string \<Rightarrow> 'e gdb \<Rightarrow> string option \<times> 'e gdb" where
  "read_buffer buffer s =
     (case buffer of
        [] \<Rightarrow> (Some [], s)
      | value # rest \<Rightarrow>
          (if ord value = 3 then read_buffer rest (interrupt s)
           else if value = CHR ''+'' then read_buffer rest s
           else if value = CHR ''-''
           then (case gs_last_packet s of
                   None \<Rightarrow> read_buffer rest s
                 | Some packet \<Rightarrow>
                     (case send_raw packet s of
                        (Inl _, s) \<Rightarrow> (None, s) | (Inr _, s) \<Rightarrow> read_buffer rest s))
           else if value \<noteq> CHR ''$'' then read_buffer rest s
           else (case extract_packet buffer of
                   None \<Rightarrow> (Some buffer, s)
                 | Some (payload, valid, rest) \<Rightarrow>
                     (if gs_no_ack s
                      then read_buffer rest (if valid then s\<lparr>gs_commands := gs_commands s @ [Some payload]\<rparr> else s)
                      else (case send_raw (if valid then ''+'' else ''-'') s of
                              (Inl _, s) \<Rightarrow> (None, s)
                            | (Inr _, s) \<Rightarrow>
                                read_buffer rest (if valid then s\<lparr>gs_commands := gs_commands s @ [Some payload]\<rparr> else s))))))"
  by pat_completeness auto
termination
  by (relation "measure (\<lambda>(buffer, s). length buffer)") (auto dest: extract_packet_length)

declare read_buffer.simps [simp del]

definition reader_end :: "'e gdb \<Rightarrow> 'e gdb" where
  "reader_end s = request_stop interrupt_reason (s\<lparr>gs_commands := gs_commands s @ [None]\<rparr>)"

text \<open>\<open>_read_loop\<close> on the chunks that the socket gives; the empty chunk is the end of the connection.\<close>

fun read_loop :: "string list \<Rightarrow> string \<Rightarrow> 'e gdb \<Rightarrow> 'e gdb" where
  "read_loop [] buffer s = reader_end s"
| "read_loop (chunk # chunks) buffer s =
     (if gs_closed s \<or> chunk = [] then reader_end s
      else case read_buffer (buffer @ chunk) s of
             (None, s) \<Rightarrow> reader_end s
           | (Some buffer, s) \<Rightarrow>
               (if PACKET_SIZE + 4 < length buffer then reader_end s else read_loop chunks buffer s))"

subsection \<open>Breakpoints and watchpoints\<close>

fun merge_ranges :: "(int \<times> int) list \<Rightarrow> (int \<times> int \<times> int) list \<Rightarrow> (int \<times> int) list" where
  "merge_ranges ranges [] = ranges"
| "merge_ranges ranges ((begin, sz, t) # bps) =
     (let last_end = begin + sz - 1
      in if ranges \<noteq> [] \<and> begin \<le> snd (last ranges) + 1
         then merge_ranges (butlast ranges @ [(fst (last ranges), max (snd (last ranges)) last_end)]) bps
         else merge_ranges (ranges @ [(begin, last_end)]) bps)"

definition breakpoint_ranges :: "'e gdb \<Rightarrow> (int \<times> int) list" where
  "breakpoint_ranges s = remdups (merge_ranges [] (sort (map fst (gs_exec_breakpoints s))))"

definition refresh_hooks :: "'e gdb \<Rightarrow> 'e gdb" where
  "refresh_hooks s =
     (let watching = (gs_read_watchpoints s \<noteq> [] \<or> gs_write_watchpoints s \<noteq> [] \<or> gs_access_watchpoints s \<noteq> []);
          wanted = (if watching then [] else breakpoint_ranges s);
          added = filter (\<lambda>k. k \<notin> set (gs_breakpoint_hooks s)) wanted;
          hook_added = ((watching \<and> \<not> gs_code_hook s) \<or> added \<noteq> [])
      in s\<lparr>gs_code_hook := watching,
           gs_breakpoint_hooks := filter (\<lambda>k. k \<in> set wanted) (gs_breakpoint_hooks s) @ added,
           gs_flushes := (if hook_added then gs_flushes s + 1 else gs_flushes s),
           gs_read_hook := (gs_read_watchpoints s \<noteq> [] \<or> gs_access_watchpoints s \<noteq> []),
           gs_write_hook := (gs_write_watchpoints s \<noteq> [] \<or> gs_access_watchpoints s \<noteq> [])\<rparr>)"

text \<open>\<open>start\<close>, when a client has connected, with \<open>_install_hooks\<close>.\<close>

definition start_gdb :: "'e \<Rightarrow> 'e gdb" where
  "start_gdb e = refresh_hooks (init_gdb e)"

definition on_code :: "int \<Rightarrow> 'e gdb \<Rightarrow> 'e gdb" where
  "on_code address s =
     (if gs_stop_pending s \<and> is_watch (sr_kind (gs_stop_reason s)) then stop_engine s
      else if gs_resume_pc s = Some address then s\<lparr>gs_resume_pc := None\<rparr>
      else (let bp_type = (case map_of (gs_exec_addresses s) address of
                    Some t \<Rightarrow> Some t
                  | None \<Rightarrow> map_option (\<lambda>(_, _, t). t)
                      (find (\<lambda>(begin, sz, _). begin \<le> address \<and> address < begin + sz) (gs_exec_ranges s)))
            in case bp_type of
                 None \<Rightarrow> s
               | Some t \<Rightarrow>
                   request_stop \<lparr>sr_signal = 5, sr_kind = (if t = 0 then ''swbreak'' else ''hwbreak''),
                     sr_address = Some address\<rparr> s))"

definition find_watchpoint :: "((int \<times> int) \<times> int) list \<Rightarrow> int \<Rightarrow> int \<Rightarrow> int option" where
  "find_watchpoint watchpoints address sz =
     map_option (\<lambda>((begin, _), _). max address begin)
       (find (\<lambda>((begin, len), _). begin < address + sz \<and> address < begin + len) watchpoints)"

definition watch_stop :: "string \<Rightarrow> int \<Rightarrow> stop_reason" where
  "watch_stop kind watched = \<lparr>sr_signal = 5, sr_kind = kind, sr_address = Some watched\<rparr>"

definition on_read :: "int \<Rightarrow> int \<Rightarrow> 'e gdb \<Rightarrow> 'e gdb" where
  "on_read address sz s =
     (case find_watchpoint (gs_access_watchpoints s) address sz of
        Some watched \<Rightarrow> request_stop (watch_stop ''awatch'' watched) s
      | None \<Rightarrow>
          (case find_watchpoint (gs_read_watchpoints s) address sz of
             Some watched \<Rightarrow> request_stop (watch_stop ''rwatch'' watched) s | None \<Rightarrow> s))"

definition on_write :: "int \<Rightarrow> int \<Rightarrow> 'e gdb \<Rightarrow> 'e gdb" where
  "on_write address sz s =
     (case find_watchpoint (gs_access_watchpoints s) address sz of
        Some watched \<Rightarrow> request_stop (watch_stop ''awatch'' watched) s
      | None \<Rightarrow>
          (case find_watchpoint (gs_write_watchpoints s) address sz of
             Some watched \<Rightarrow> request_stop (watch_stop ''watch'' watched) s | None \<Rightarrow> s))"

subsection \<open>Registers\<close>

definition plain_regs :: "string list \<Rightarrow> nat \<Rightarrow> string \<Rightarrow> register_info list" where
  "plain_regs names n grp =
     map (\<lambda>x. \<lparr>ri_name = lower x, ri_unicorn_id = Some x, ri_size = n, ri_group = grp\<rparr>) names"

definition numbered :: "string \<Rightarrow> string \<Rightarrow> nat \<Rightarrow> nat \<Rightarrow> nat \<Rightarrow> string \<Rightarrow> register_info list" where
  "numbered name unicorn_name lo hi n grp =
     map (\<lambda>i. \<lparr>ri_name = name @ dec_nat i, ri_unicorn_id = Some (unicorn_name @ dec_nat i), ri_size = n,
               ri_group = grp\<rparr>) [lo..<hi]"

definition float_reg :: "string \<times> string option \<Rightarrow> register_info" where
  "float_reg x = \<lparr>ri_name = fst x, ri_unicorn_id = snd x, ri_size = 4, ri_group = ''float''\<rparr>"

definition make_registers :: "bool \<Rightarrow> register_info list" where
  "make_registers amd64 =
     (if amd64
      then plain_regs [''RAX'', ''RBX'', ''RCX'', ''RDX'', ''RSI'', ''RDI'', ''RBP'', ''RSP''] 8 [] @
           numbered ''r'' ''R'' 8 16 8 [] @ plain_regs [''RIP''] 8 [] @ plain_regs [''EFLAGS''] 4 []
      else plain_regs [''EAX'', ''ECX'', ''EDX'', ''EBX'', ''ESP'', ''EBP'', ''ESI'', ''EDI'', ''EIP'', ''EFLAGS''] 4 []) @
     plain_regs [''CS'', ''SS'', ''DS'', ''ES'', ''FS'', ''GS''] 4 [] @
     numbered ''st'' ''FP'' 0 8 10 ''float'' @
     map float_reg [(''fctrl'', Some ''FPCW''), (''fstat'', Some ''FPSW''), (''ftag'', Some ''FPTAG''), (''fiseg'', None),
       (''fioff'', Some ''FIP''), (''foseg'', None), (''fooff'', None), (''fop'', Some ''FOP'')] @
     numbered ''xmm'' ''XMM'' 0 (if amd64 then 16 else 8) 16 ''vector'' @
     plain_regs [''MXCSR''] 4 ''vector''"

definition le_chars :: "nat \<Rightarrow> int \<Rightarrow> string" where
  "le_chars n v = map byte_char (le_bytes n v)"

definition le_int :: "string \<Rightarrow> int" where
  "le_int s = le_val (map char_byte s)"

definition read_register_value :: "'e emu_api \<Rightarrow> register_info \<Rightarrow> 'e gdb \<Rightarrow> string result" where
  "read_register_value api r s =
     (case ri_unicorn_id r of
        None \<Rightarrow> Inr (replicate (ri_size r) (char_of (0 :: nat)))
      | Some uid \<Rightarrow>
          (let (value, exponent) = ea_reg_read api uid (gs_emu s)
           in if starts_with (ri_name r) ''st''
              then rbind (to_bytes 8 value) (\<lambda>m. rbind (to_bytes 2 exponent) (\<lambda>e. Inr (map byte_char (m @ e))))
              else Inr (le_chars (ri_size r) value)))"

definition write_register_value :: "'e emu_api \<Rightarrow> register_info \<Rightarrow> string \<Rightarrow> 'e gdb \<Rightarrow> unit result \<times> 'e gdb" where
  "write_register_value api r value s =
     (case ri_unicorn_id r of
        None \<Rightarrow> (Inr (), s)
      | Some uid \<Rightarrow>
          (let v = (if starts_with (ri_name r) ''st'' then (le_int (take 8 value), le_int (drop 8 value))
                    else (le_int value, 0));
               (res, e) = ea_reg_write api uid v (gs_emu s)
           in (res, s\<lparr>gs_emu := e\<rparr>)))"

subsection \<open>Commands\<close>

definition reply_error :: "(error \<Rightarrow> bool) \<Rightarrow> ('e gdb \<Rightarrow> unit result \<times> 'e gdb) \<Rightarrow> 'e gdb \<Rightarrow> unit result \<times> 'e gdb" where
  "reply_error caught m s =
     (case m s of (Inl e, s) \<Rightarrow> if caught e then reply ''E01'' False s else (Inl e, s) | r \<Rightarrow> r)"

definition lift_result :: "'a result \<Rightarrow> 's \<Rightarrow> 'a result \<times> 's" where
  "lift_result r s = (r, s)"

definition fail :: "error \<Rightarrow> 's \<Rightarrow> 'a result \<times> 's" where
  "fail e s = (Inl e, s)"

definition of_opt :: "'a option \<Rightarrow> 's \<Rightarrow> 'a result \<times> 's" where
  "of_opt x s = (case x of None \<Rightarrow> (Inl ValueError, s) | Some y \<Rightarrow> (Inr y, s))"

text \<open>\<open>s.split(c, 1)\<close> unpacked into two names: a \<open>ValueError\<close> without the separator.\<close>

definition split1 :: "char \<Rightarrow> string \<Rightarrow> (string \<times> string) option" where
  "split1 c s = map_option (\<lambda>i. (take i s, drop (i + 1) s)) (find_char c s)"

fun read_all :: "'e emu_api \<Rightarrow> register_info list \<Rightarrow> 'e gdb \<Rightarrow> string result" where
  "read_all api [] s = Inr []"
| "read_all api (r # rs) s =
     rbind (read_register_value api r s) (\<lambda>v. rbind (read_all api rs s) (\<lambda>vs. Inr (to_hex v @ vs)))"

definition gdb_registers :: "'e emu_api \<Rightarrow> register_info list" where
  "gdb_registers api = make_registers (ea_amd64 api)"

definition read_registers :: "'e emu_api \<Rightarrow> 'e gdb \<Rightarrow> unit result \<times> 'e gdb" where
  "read_registers api =
     reply_error (\<lambda>_. True) (\<lambda>s. sbind (lift_result (read_all api (gdb_registers api) s)) (\<lambda>d. reply d False) s)"

fun write_all :: "'e emu_api \<Rightarrow> register_info list \<Rightarrow> string \<Rightarrow> 'e gdb \<Rightarrow> string result \<times> 'e gdb" where
  "write_all api [] d s = (Inr d, s)"
| "write_all api (r # rs) d s =
     (if length (take (ri_size r) d) \<noteq> ri_size r then (Inl ValueError, s)
      else sbind (write_register_value api r (take (ri_size r) d)) (\<lambda>_. write_all api rs (drop (ri_size r) d)) s)"

text \<open>\<open>_write_registers\<close>: \<open>write_all\<close> returns the data that no register takes.\<close>

definition write_registers :: "'e emu_api \<Rightarrow> string \<Rightarrow> 'e gdb \<Rightarrow> unit result \<times> 'e gdb" where
  "write_registers api encoded =
     reply_error (\<lambda>_. True)
       (sbind (of_opt (fromhex encoded)) (\<lambda>d. sbind (write_all api (gdb_registers api) d) (\<lambda>rest.
          if rest \<noteq> [] then fail ValueError else reply ''OK'' False)))"

definition index_error :: "error \<Rightarrow> bool" where
  "index_error e \<longleftrightarrow> e = ValueError \<or> e = IndexError"

definition nth_register :: "'e emu_api \<Rightarrow> int \<Rightarrow> 's \<Rightarrow> register_info result \<times> 's" where
  "nth_register api i s =
     (if i < 0 \<or> int (length (gdb_registers api)) \<le> i then (Inl IndexError, s) else (Inr (gdb_registers api ! nat i), s))"

definition read_register :: "'e emu_api \<Rightarrow> string \<Rightarrow> 'e gdb \<Rightarrow> unit result \<times> 'e gdb" where
  "read_register api encoded_index =
     reply_error index_error
       (sbind (lift_result (int16_bytes encoded_index)) (\<lambda>i. sbind (nth_register api i) (\<lambda>r s.
          sbind (lift_result (read_register_value api r s)) (\<lambda>v. reply (to_hex v) False) s)))"

definition write_register :: "'e emu_api \<Rightarrow> string \<Rightarrow> 'e gdb \<Rightarrow> unit result \<times> 'e gdb" where
  "write_register api payload =
     reply_error index_error
       (sbind (of_opt (split1 (CHR ''='') payload)) (\<lambda>(index_text, value_text).
          sbind (lift_result (int16_bytes index_text)) (\<lambda>i. sbind (nth_register api i) (\<lambda>r.
            sbind (of_opt (fromhex value_text)) (\<lambda>value.
              if length value \<noteq> ri_size r then fail ValueError
              else sbind (write_register_value api r value) (\<lambda>_. reply ''OK'' False))))))"

text \<open>The address and the size of a memory packet.\<close>

definition address_size :: "string \<Rightarrow> 's \<Rightarrow> (int \<times> int) result \<times> 's" where
  "address_size info =
     sbind (of_opt (split1 (CHR '','') info)) (\<lambda>(address_text, ext).
       sbind (lift_result (int16_bytes address_text)) (\<lambda>address.
         sbind (lift_result (int16_bytes ext)) (\<lambda>sz. sret (address, sz))))"

definition read_memory :: "'e emu_api \<Rightarrow> string \<Rightarrow> 'e gdb \<Rightarrow> unit result \<times> 'e gdb" where
  "read_memory api payload =
     reply_error (\<lambda>_. True)
       (sbind (address_size payload) (\<lambda>(address, sz).
          if address < 0 \<or> sz < 0 \<or> int (PACKET_SIZE div 2) < sz then fail ValueError
          else (\<lambda>s. sbind (lift_result (ea_mem_read api address sz (gs_emu s))) (\<lambda>d. reply (to_hex d) False) s)))"

definition write_memory :: "'e emu_api \<Rightarrow> int \<Rightarrow> int \<Rightarrow> string \<Rightarrow> 'e gdb \<Rightarrow> unit result \<times> 'e gdb" where
  "write_memory api address sz d =
     (if address < 0 \<or> sz < 0 \<or> int (length d) \<noteq> sz then fail ValueError
      else sbind (\<lambda>s. let (r, e) = ea_mem_write api address d (gs_emu s) in (r, s\<lparr>gs_emu := e\<rparr>)) (\<lambda>_. reply ''OK'' False))"

definition write_memory_hex :: "'e emu_api \<Rightarrow> string \<Rightarrow> 'e gdb \<Rightarrow> unit result \<times> 'e gdb" where
  "write_memory_hex api payload =
     reply_error (\<lambda>_. True)
       (sbind (of_opt (split1 (CHR '':'') payload)) (\<lambda>(info, encoded).
          sbind (address_size info) (\<lambda>(address, sz).
            sbind (of_opt (fromhex encoded)) (\<lambda>d. write_memory api address sz d))))"

definition write_memory_binary :: "'e emu_api \<Rightarrow> string \<Rightarrow> 'e gdb \<Rightarrow> unit result \<times> 'e gdb" where
  "write_memory_binary api payload =
     reply_error (\<lambda>_. True)
       (sbind (of_opt (split1 (CHR '':'') payload)) (\<lambda>(info, d).
          sbind (address_size info) (\<lambda>(address, sz). write_memory api address sz d)))"

definition thread_command :: "string \<Rightarrow> 'e gdb \<Rightarrow> unit result \<times> 'e gdb" where
  "thread_command payload =
     (if length payload < 3 \<or> take 1 (drop 1 payload) \<notin> {''g'', ''c''} then reply ''E01'' False
      else reply (if drop 2 payload \<in> {''0'', ''1'', ''-1''} then ''OK'' else ''E01'') False)"

definition resume_command :: "string \<Rightarrow> 'e gdb \<Rightarrow> resume_action option result \<times> 'e gdb" where
  "resume_command actions s =
     (let action_list = split_on (CHR '';'') actions;
          step = (\<exists>item \<in> set action_list. take 1 item \<in> {''s'', ''S''});
          go = (step \<or> (\<exists>item \<in> set action_list. take 1 item \<in> {''c'', ''C''}))
      in if \<not> go then sbind (reply ''E01'' False) (\<lambda>_. sret None) s else (Inr (Some (resume step)), s))"

subsection \<open>Breakpoint commands\<close>

text \<open>\<open>s.split(c, 1)[0]\<close>.\<close>

definition upto_first :: "char \<Rightarrow> string \<Rightarrow> string" where
  "upto_first c s = takeWhile (\<lambda>x. x \<noteq> c) s"

definition index_breakpoints :: "'e gdb \<Rightarrow> 'e gdb" where
  "index_breakpoints s =
     s\<lparr>gs_exec_addresses := foldl (\<lambda>m ((begin, len, _), t). if len = 1 then AList.update begin t m else m) []
         (gs_exec_breakpoints s),
       gs_exec_ranges := concat (map (\<lambda>((begin, len, _), t). if 1 < len then [(begin, len, t)] else [])
         (gs_exec_breakpoints s))\<rparr>"

definition change_dict :: "bool \<Rightarrow> 'k \<Rightarrow> 'v \<Rightarrow> ('k \<times> 'v) list \<Rightarrow> ('k \<times> 'v) list" where
  "change_dict add k v m = (if add then AList.update k v m else AList.delete k m)"

definition set_point :: "bool \<Rightarrow> int \<Rightarrow> int \<Rightarrow> int \<Rightarrow> 'e gdb \<Rightarrow> unit result \<times> 'e gdb" where
  "set_point add bp_type address sz s =
     (if bp_type \<in> {0, 1}
      then reply ''OK'' False (refresh_hooks (index_breakpoints
             (s\<lparr>gs_exec_breakpoints := change_dict add (address, sz, bp_type) bp_type (gs_exec_breakpoints s)\<rparr>)))
      else if bp_type = 2
      then reply ''OK'' False (refresh_hooks
             (s\<lparr>gs_write_watchpoints := change_dict add (address, sz) bp_type (gs_write_watchpoints s)\<rparr>))
      else if bp_type = 3
      then reply ''OK'' False (refresh_hooks
             (s\<lparr>gs_read_watchpoints := change_dict add (address, sz) bp_type (gs_read_watchpoints s)\<rparr>))
      else if bp_type = 4
      then reply ''OK'' False (refresh_hooks
             (s\<lparr>gs_access_watchpoints := change_dict add (address, sz) bp_type (gs_access_watchpoints s)\<rparr>))
      else reply [] False s)"

definition change_breakpoint :: "string \<Rightarrow> 'e gdb \<Rightarrow> unit result \<times> 'e gdb" where
  "change_breakpoint payload =
     reply_error (\<lambda>_. True)
       (sbind (of_opt (split1 (CHR '','') (drop 1 payload))) (\<lambda>(bp_type_text, rest).
          sbind (of_opt (split1 (CHR '','') rest)) (\<lambda>(address_text, ext).
            sbind (lift_result (int16_bytes bp_type_text)) (\<lambda>bp_type.
              sbind (lift_result (int16_bytes address_text)) (\<lambda>address.
                sbind (lift_result (int16_bytes (upto_first (CHR '';'') ext))) (\<lambda>sz.
                  if sz \<le> 0 then fail ValueError
                  else set_point (take 1 payload = ''Z'') bp_type address sz))))))"


subsection \<open>Documents\<close>

definition quoted :: "string \<Rightarrow> string" where
  "quoted s = CHR 0x22 # s @ [CHR 0x22]"

definition attr :: "string \<Rightarrow> string \<Rightarrow> string" where
  "attr name value = name @ ''='' @ quoted value"

definition html_escape :: "string \<Rightarrow> string" where
  "html_escape s = concat (map (\<lambda>c.
     if c = CHR ''&'' then ''&amp;'' else if c = CHR ''<'' then ''&lt;'' else if c = CHR ''>'' then ''&gt;''
     else if c = CHR 0x22 then ''&quot;'' else if c = CHR 0x27 then ''&#x27;'' else [c]) s)"

definition core_reg_xml :: "register_info \<Rightarrow> string" where
  "core_reg_xml r =
     ''<reg '' @ attr ''name'' (ri_name r) @ '' '' @ attr ''bitsize'' (dec_nat (ri_size r * 8)) @
     (if starts_with (ri_name r) ''st'' then '' '' @ attr ''type'' ''i387_ext'' @ '' '' @ attr ''group'' ''float''
      else if ri_group r \<noteq> [] then '' '' @ attr ''group'' (ri_group r) else []) @ ''/>''"

definition vector_xml :: "string \<Rightarrow> string \<Rightarrow> string \<Rightarrow> string" where
  "vector_xml name t n = ''<vector '' @ attr ''id'' name @ '' '' @ attr ''type'' t @ '' '' @ attr ''count'' n @ ''/>''"

definition field_xml :: "string \<Rightarrow> string \<Rightarrow> string" where
  "field_xml name t = ''<field '' @ attr ''name'' name @ '' '' @ attr ''type'' t @ ''/>''"

definition vector_types_xml :: string where
  "vector_types_xml =
     vector_xml ''v4f'' ''ieee_single'' ''4'' @ vector_xml ''v2d'' ''ieee_double'' ''2'' @
     vector_xml ''v16i8'' ''int8'' ''16'' @ vector_xml ''v8i16'' ''int16'' ''8'' @ vector_xml ''v4i32'' ''int32'' ''4'' @
     vector_xml ''v2i64'' ''int64'' ''2'' @
     ''<union '' @ attr ''id'' ''vec128'' @ ''>'' @ field_xml ''v4_float'' ''v4f'' @ field_xml ''v2_double'' ''v2d'' @
     field_xml ''v16_int8'' ''v16i8'' @ field_xml ''v8_int16'' ''v8i16'' @ field_xml ''v4_int32'' ''v4i32'' @
     field_xml ''v2_int64'' ''v2i64'' @ field_xml ''uint128'' ''uint128'' @ ''</union>''"

definition vector_reg_xml :: "register_info \<Rightarrow> string" where
  "vector_reg_xml r =
     ''<reg '' @ attr ''name'' (ri_name r) @ '' '' @ attr ''bitsize'' (dec_nat (ri_size r * 8)) @ '' '' @
     attr ''type'' (if starts_with (ri_name r) ''xmm'' then ''vec128'' else ''int'') @ '' '' @
     attr ''group'' ''vector'' @ ''/>''"

definition target_xml :: "'e emu_api \<Rightarrow> string" where
  "target_xml api =
     ''<?xml '' @ attr ''version'' ''1.0'' @ ''?><target>'' @
     ''<architecture>'' @ (if ea_amd64 api then ''i386:x86-64'' else ''i386'') @ ''</architecture><osabi>Windows</osabi>'' @
     ''<feature '' @ attr ''name'' ''org.gnu.gdb.i386.core'' @ ''>'' @
     concat (map core_reg_xml (filter (\<lambda>r. ri_group r \<noteq> ''vector'') (gdb_registers api))) @ ''</feature>'' @
     ''<feature '' @ attr ''name'' ''org.gnu.gdb.i386.sse'' @ ''>'' @ vector_types_xml @
     concat (map vector_reg_xml (filter (\<lambda>r. ri_group r = ''vector'') (gdb_registers api))) @ ''</feature></target>''"

definition module_path :: "gdb_module \<Rightarrow> string" where
  "module_path m = (if gm_emu_path m \<noteq> [] then gm_emu_path m else gm_path m)"

definition library_line :: "gdb_module \<Rightarrow> string list" where
  "library_line m =
     (case gm_base m of
        None \<Rightarrow> []
      | Some base \<Rightarrow>
          (if module_path m = [] then []
           else [''<library '' @ attr ''name'' (html_escape (module_path m)) @ ''>'' @
                 ''<segment '' @ attr ''address'' (''0x'' @ hex_of (base + 0x1000)) @ ''/></library>'']))"

definition library_xml :: "'e emu_api \<Rightarrow> 'e gdb \<Rightarrow> string" where
  "library_xml api s =
     join_on (char_of (10 :: nat))
       ([''<library-list '' @ attr ''version'' ''1.0'' @ ''>''] @ concat (map library_line (ea_modules api (gs_emu s))) @
        [''</library-list>''])"

definition memory_line :: "int \<times> int \<times> int \<Rightarrow> string" where
  "memory_line x =
     (let (begin, last_addr, perms) = x
      in ''<memory '' @ attr ''type'' (if perms AND 2 \<noteq> 0 then ''ram'' else ''rom'') @ '' '' @
         attr ''start'' (''0x'' @ hex_of begin) @ '' '' @
         attr ''length'' (''0x'' @ hex_of (last_addr - begin + 1)) @ ''/>'')"

definition memory_map_xml :: "'e emu_api \<Rightarrow> 'e gdb \<Rightarrow> string" where
  "memory_map_xml api s =
     ''<memory-map>'' @ concat (map memory_line (ea_mem_regions api (gs_emu s))) @ ''</memory-map>''"

definition executable_path :: "'e emu_api \<Rightarrow> 'e gdb \<Rightarrow> string" where
  "executable_path api s =
     (case (case ea_run_start api (gs_emu s) of
              None \<Rightarrow> None | Some start \<Rightarrow> ea_mod_from_addr api start (gs_emu s)) of
        Some m \<Rightarrow> gm_emu_path m
      | None \<Rightarrow> (case ea_modules api (gs_emu s) of [] \<Rightarrow> [] | m # _ \<Rightarrow> gm_emu_path m))"

definition encode :: "string \<Rightarrow> string" where "encode s = map byte_char (utf8 s)"

definition threads_xml :: string where
  "threads_xml = ''<threads><thread '' @ attr ''id'' ''1'' @ '' '' @ attr ''name'' ''main'' @ ''/></threads>''"

definition xfer_data :: "'e emu_api \<Rightarrow> string \<Rightarrow> string \<Rightarrow> 'e gdb \<Rightarrow> string option" where
  "xfer_data api object_name annex s =
     (if object_name = ''features'' \<and> annex = ''target.xml'' then Some (encode (target_xml api))
      else if object_name = ''libraries'' \<and> annex = [] then Some (encode (library_xml api s))
      else if object_name = ''exec-file'' then Some (encode (executable_path api s))
      else if object_name = ''threads'' \<and> annex = [] then Some threads_xml
      else if object_name = ''memory-map'' \<and> annex = [] then Some (encode (memory_map_xml api s))
      else None)"

text \<open>The part of a document from an offset, with the marker of the last part.\<close>

definition xfer_chunk :: "string \<Rightarrow> nat \<Rightarrow> nat \<Rightarrow> string" where
  "xfer_chunk d offset requested =
     (if length d \<le> offset then ''l''
      else (let chunk = take (min requested ((PACKET_SIZE - 1) div 2)) (drop offset d)
            in (if length d \<le> offset + length chunk then CHR ''l'' else CHR ''m'') # chunk))"

definition xfer_position :: "string \<Rightarrow> (int \<times> int) option" where
  "xfer_position position =
     (case split1 (CHR '','') position of
        None \<Rightarrow> None
      | Some (offset_text, length_text) \<Rightarrow>
          (case (int16_bytes offset_text, int16_bytes length_text) of
             (Inr offset, Inr requested) \<Rightarrow> if offset < 0 \<or> requested \<le> 0 then None else Some (offset, requested)
           | _ \<Rightarrow> None))"

definition handle_xfer :: "'e emu_api \<Rightarrow> string \<Rightarrow> 'e gdb \<Rightarrow> string option" where
  "handle_xfer api payload s =
     (if \<not> starts_with payload ''qXfer:'' then Some ''E01''
      else case split1 (CHR '':'') (drop 6 payload) of
        None \<Rightarrow> Some ''E01''
      | Some (object_name, rest) \<Rightarrow>
          (case split1 (CHR '':'') rest of
             None \<Rightarrow> Some ''E01''
           | Some (operation, rest) \<Rightarrow>
               (case split1 (CHR '':'') rest of
                  None \<Rightarrow> Some ''E01''
                | Some (annex, position) \<Rightarrow>
                    (if operation \<noteq> ''read'' then None
                     else case xfer_position position of
                       None \<Rightarrow> Some ''E01''
                     | Some (offset, requested) \<Rightarrow>
                         map_option (\<lambda>d. xfer_chunk d (nat offset) (nat requested)) (xfer_data api object_name annex s)))))"

text \<open>The reply of a stop takes the flag of the library change.\<close>

definition stop_reply :: "stop_reason \<Rightarrow> 'e gdb \<Rightarrow> string \<times> 'e gdb" where
  "stop_reply reason s =
     (''T'' @ hex2 (sr_signal reason) @ ''thread:1;'' @
      (if sr_kind reason \<in> {''swbreak'', ''hwbreak''} then sr_kind reason @ '':;''
       else if is_watch (sr_kind reason)
       then (case sr_address reason of None \<Rightarrow> [] | Some a \<Rightarrow> sr_kind reason @ '':'' @ hex_of a @ '';'')
       else []) @
      (if gs_library_list_changed s then ''library:;'' else []),
      s\<lparr>gs_library_list_changed := False\<rparr>)"

subsection \<open>The dispatcher\<close>

definition no_action :: "('e gdb \<Rightarrow> unit result \<times> 'e gdb) \<Rightarrow> 'e gdb \<Rightarrow> resume_action option result \<times> 'e gdb" where
  "no_action m = sbind m (\<lambda>_. sret None)"

definition supported :: string where
  "supported = ''PacketSize=10000;qXfer:features:read+;qXfer:libraries:read+;'' @
     ''qXfer:exec-file:read+;qXfer:threads:read+;qXfer:memory-map:read+;'' @
     ''QStartNoAckMode+;vContSupported+;swbreak+;hwbreak+''"

text \<open>\<open>c\<close>, \<open>s\<close>, \<open>C\<close> and \<open>S\<close>: an address goes to the program counter.\<close>

definition continue_command :: "'e emu_api \<Rightarrow> string \<Rightarrow> 'e gdb \<Rightarrow> resume_action option result \<times> 'e gdb" where
  "continue_command api payload s =
     (let address = (if take 1 payload \<in> {''c'', ''s''} then drop 1 payload
                     else (case split1 (CHR '';'') (drop 1 payload) of None \<Rightarrow> [] | Some (_, t) \<Rightarrow> t));
          action = resume (take 1 payload \<in> {''s'', ''S''})
      in if address = [] then (Inr (Some action), s)
         else case int16_bytes address of
           Inl _ \<Rightarrow> no_action (reply ''E01'' False) s
         | Inr a \<Rightarrow>
             (case ea_set_pc api a (gs_emu s) of
                (Inr _, e) \<Rightarrow> (Inr (Some action), s\<lparr>gs_emu := e\<rparr>)
              | (Inl err, e) \<Rightarrow>
                  (if err = ValueError then no_action (reply ''E01'' False) (s\<lparr>gs_emu := e\<rparr>)
                   else (Inl err, s\<lparr>gs_emu := e\<rparr>))))"

definition handle_command :: "'e emu_api \<Rightarrow> string \<Rightarrow> 'e gdb \<Rightarrow> resume_action option result \<times> 'e gdb" where
  "handle_command api payload s =
     (if starts_with payload ''qSupported'' then no_action (reply supported False) s
      else if payload = ''QStartNoAckMode''
      then sbind (reply ''OK'' False) (\<lambda>_ s. (Inr None, s\<lparr>gs_no_ack := True\<rparr>)) s
      else if payload = ''?''
      then (let (r, s) = stop_reply (gs_stop_reason s) s in no_action (reply r False) s)
      else if payload = ''g'' then no_action (read_registers api) s
      else if starts_with payload ''G'' then no_action (write_registers api (drop 1 payload)) s
      else if starts_with payload ''p'' then no_action (read_register api (drop 1 payload)) s
      else if starts_with payload ''P'' then no_action (write_register api (drop 1 payload)) s
      else if starts_with payload ''m'' then no_action (read_memory api (drop 1 payload)) s
      else if starts_with payload ''M'' then no_action (write_memory_hex api (drop 1 payload)) s
      else if starts_with payload ''X'' then no_action (write_memory_binary api (drop 1 payload)) s
      else if take 1 payload \<in> {''Z'', ''z''} then no_action (change_breakpoint payload) s
      else if starts_with payload ''qXfer:''
      then (case handle_xfer api payload s of
              None \<Rightarrow> no_action (reply [] False) s | Some response \<Rightarrow> no_action (reply response True) s)
      else if payload = ''qAttached'' \<or> starts_with payload ''qAttached:'' then no_action (reply ''1'' False) s
      else if payload = ''qC'' then no_action (reply ''QC1'' False) s
      else if payload = ''qfThreadInfo'' then no_action (reply ''m1'' False) s
      else if payload = ''qsThreadInfo'' then no_action (reply ''l'' False) s
      else if starts_with payload ''qGetTIBAddr:'' then no_action (reply (hex_of (ea_teb api (gs_emu s))) False) s
      else if starts_with payload ''qSymbol'' then no_action (reply ''OK'' False) s
      else if starts_with payload ''H'' then no_action (thread_command payload) s
      else if starts_with payload ''T''
      then no_action (reply (if drop 1 payload \<in> {''1'', ''0'', ''-1''} then ''OK'' else ''E01'') False) s
      else if payload = ''vCont?'' then no_action (reply ''vCont;c;C;s;S'' False) s
      else if starts_with payload ''vCont;'' then resume_command (drop 6 payload) s
      else if take 1 payload \<in> {''c'', ''s'', ''C'', ''S''} then continue_command api payload s
      else if starts_with payload ''D'' then sbind (reply ''OK'' False) (\<lambda>_. sret (Some detach)) s
      else if payload = ''k'' then sbind (reply ''X09'' False) (\<lambda>_. sret (Some kill)) s
      else if starts_with payload ''vKill'' then sbind (reply ''OK'' False) (\<lambda>_. sret (Some kill)) s
      else no_action (reply [] False) s)"

subsection \<open>Execution lifecycle\<close>

text \<open>The commands that wait in the queue; \<open>None\<close> when the loop waits for more. An exception of a command gives \<open>E01\<close>; one
  of the socket detaches.\<close>

fun command_queue :: "'e emu_api \<Rightarrow> string option list \<Rightarrow> 'e gdb \<Rightarrow> resume_action option \<times> 'e gdb" where
  "command_queue api [] s = (if gs_closed s then Some detach else None, s\<lparr>gs_commands := []\<rparr>)"
| "command_queue api (payload # rest) s =
     (if gs_closed s then (Some detach, s\<lparr>gs_commands := payload # rest\<rparr>)
      else case payload of
        None \<Rightarrow> (Some detach, s\<lparr>gs_commands := rest\<rparr>)
      | Some p \<Rightarrow>
          (case handle_command api p s of
             (Inl e, s) \<Rightarrow>
               (if e = OSError then (Some detach, s\<lparr>gs_commands := rest\<rparr>)
                else case reply ''E01'' False s of
                  (Inl _, s) \<Rightarrow> (Some detach, s\<lparr>gs_commands := rest\<rparr>)
                | (Inr _, s) \<Rightarrow> command_queue api rest s)
           | (Inr None, s) \<Rightarrow> command_queue api rest s
           | (Inr (Some action), s) \<Rightarrow>
               (Some action,
                (if ra_detach action \<or> ra_kill action then s
                 else s\<lparr>gs_running := True, gs_resume_pc := Some (ea_get_pc api (gs_emu s))\<rparr>)\<lparr>gs_commands := rest\<rparr>)))"

definition command_loop :: "'e emu_api \<Rightarrow> stop_reason option \<Rightarrow> 'e gdb \<Rightarrow> resume_action option \<times> 'e gdb" where
  "command_loop api reason s =
     (let go = (\<lambda>s. command_queue api (gs_commands s) (s\<lparr>gs_running := False, gs_stop_pending := False\<rparr>))
      in case reason of
           None \<Rightarrow> go s
         | Some r \<Rightarrow>
             (let (text, s) = stop_reply r (s\<lparr>gs_stop_reason := r\<rparr>)
              in case reply text False s of (Inl _, s) \<Rightarrow> (Some detach, s) | (Inr _, s) \<Rightarrow> go s))"

definition begin_run :: "'e emu_api \<Rightarrow> 'e gdb \<Rightarrow> bool \<times> 'e gdb" where
  "begin_run api s =
     (let s = s\<lparr>gs_running := True\<rparr>
      in if gs_stop_pending s then (False, s)
         else (True, refresh_hooks (s\<lparr>gs_stop_reason := stop_default,
                 gs_resume_pc := (if gs_resume_pc s \<noteq> Some (ea_get_pc api (gs_emu s)) then None else gs_resume_pc s)\<rparr>)))"

definition finish_run :: "resume_action \<Rightarrow> 'e gdb \<Rightarrow> stop_reason option \<times> 'e gdb" where
  "finish_run action s =
     (let s = s\<lparr>gs_running := False, gs_resume_pc := None\<rparr>
      in if gs_stop_pending s then (Some (gs_stop_reason s), s)
         else if ra_step action then (Some \<lparr>sr_signal = 5, sr_kind = ''step'', sr_address = None\<rparr>, s)
         else (None, s))"

end
