(* ===== verification/Gdb_Transport.thy ===== *)
theory Gdb_Transport
  imports Gdb
begin

text \<open>
  Lemmas on the transport of the GDB server: the escapes and the packets are read back, the reader finds the packets of
  a stream in any division of it into chunks, and the parts of a document that the client asks for give the document.
\<close>

subsection \<open>Escapes\<close>

lemma ord_flip5: "ord (flip5 c) = ord c XOR 32"
proof -
  have "take_bit 8 (ord c XOR 32) = take_bit 8 (ord c) XOR take_bit 8 (32 :: nat)" by (simp add: take_bit_xor)
  also have "take_bit 8 (ord c) = ord c" using of_char_lt [of c] by (simp add: take_bit_eq_mod ord_def)
  also have "take_bit 8 (32 :: nat) = 32" by (simp add: take_bit_eq_mod)
  finally have "(ord c XOR 32) mod 256 = ord c XOR 32" by (simp add: take_bit_eq_mod)
  then show ?thesis by (simp add: flip5_def ord_def of_char_of)
qed

lemma flip5_flip5 [simp]: "flip5 (flip5 c) = c"
proof -
  have "flip5 (flip5 c) = char_of ((ord c XOR 32) XOR 32)" by (simp add: flip5_def [of "flip5 c"] ord_flip5)
  also have "(ord c XOR 32) XOR 32 = ord c" by (simp add: xor.assoc)
  finally show ?thesis by (simp add: ord_def)
qed

lemma flip5_special: "is_special c \<Longrightarrow> \<not> is_special (flip5 c)"
  unfolding is_special_def by (elim disjE; hypsubst; code_simp)

lemma unescape_cons: "c \<noteq> CHR ''}'' \<Longrightarrow> rsp_unescape (c # s) = c # rsp_unescape s"
  by (cases s) auto

lemma unescape_escape [simp]: "rsp_unescape (rsp_escape d) = d"
proof (induction d)
  case (Cons c d)
  then show ?case
    by (cases "is_special c") (auto simp: unescape_cons is_special_def)
qed simp

lemma escape_clean: "c \<in> set (rsp_escape d) \<Longrightarrow> c = CHR ''}'' \<or> \<not> is_special c"
  by (induction d) (auto simp: flip5_special split: if_splits)

lemma escape_last: "rsp_escape d \<noteq> [] \<Longrightarrow> last (rsp_escape d) \<noteq> CHR ''}''"
proof (induction d)
  case (Cons c d)
  have "flip5 c \<noteq> CHR ''}''" if "is_special c"
    using flip5_special [OF that] by (auto simp: is_special_def)
  moreover have "c \<noteq> CHR ''}''" if "\<not> is_special c" using that by (auto simp: is_special_def)
  ultimately show ?case using Cons by (cases "rsp_escape d = []") (auto split: if_splits)
qed simp

lemma escape_length: "length d \<le> length (rsp_escape d) \<and> length (rsp_escape d) \<le> 2 * length d"
  by (induction d) auto

lemma escape_no_marker: "CHR ''#'' \<notin> set (rsp_escape d)"
  using escape_clean [of "CHR ''#''" d] by (auto simp: is_special_def)

subsection \<open>Packets\<close>

lemma find_char_absent: "find_char c s = None \<longleftrightarrow> c \<notin> set s"
  by (induction s) auto

lemma find_char_first: "c \<notin> set s \<Longrightarrow> find_char c (s @ c # t) = Some (length s)"
  by (induction s) auto

lemma checksum_text: "int16_bytes (hex2 (checksum e)) = Inr (int (checksum e))"
proof -
  let ?n = "checksum e"
  have "?n < 256" by (simp add: checksum_def)
  then have "\<forall>d \<in> set [?n div 16, ?n mod 16]. d < 16" by auto
  from int16_bytes_digits [OF this] show ?thesis by (simp add: hex2_def)
qed

lemma extract_packet_rsp:
  assumes "CHR ''#'' \<notin> set e" "e = [] \<or> last e \<noteq> CHR ''}''"
  shows "extract_packet (rsp_packet e @ b) = Some (rsp_unescape e, length e \<le> PACKET_SIZE, b)"
proof -
  let ?h = "hex2 (checksum e)"
  let ?buf = "CHR ''$'' # e @ CHR ''#'' # ?h @ b"
  have f: "find_from (CHR ''#'') 1 ?buf = Some (Suc (length e))"
    using find_char_first [OF assms(1)] by (simp add: find_from_def)
  have h: "length ?h = 2" by (simp add: hex2_def)
  have parts: "drop 1 (take (Suc (length e)) ?buf) = e" "take 2 (drop (Suc (length e) + 1) ?buf) = ?h"
      "\<not> length ?buf < Suc (length e) + 3"
    using h by simp_all
  have "length (CHR ''$'' # e @ CHR ''#'' # ?h) = Suc (length e) + 3" by (simp add: h)
  then have rest: "drop (Suc (length e) + 3) ?buf = b"
    by (metis append_eq_conv_conj append_assoc append_Cons)
  have "extract_packet ?buf = Some (rsp_unescape e, length e \<le> PACKET_SIZE, b)"
    using assms(2)
    unfolding extract_packet_def f Let_def option.case parts rest checksum_text sum.case using h by simp
  then show ?thesis by (simp add: rsp_packet_def)
qed

lemma extract_packet_short:
  assumes "CHR ''#'' \<notin> set e" "n < length (rsp_packet e)"
  shows "extract_packet (take n (rsp_packet e)) = None"
proof (cases n)
  case 0
  then show ?thesis by (simp add: extract_packet_def)
next
  case (Suc m)
  have l: "length (rsp_packet e) = length e + 4" by (simp add: rsp_packet_def hex2_def)
  show ?thesis
  proof (cases "m \<le> length e")
    case True
    then have t: "take n (rsp_packet e) = CHR ''$'' # take m e" by (simp add: Suc rsp_packet_def)
    have "CHR ''#'' \<notin> set (take m e)" using assms(1) by (meson in_set_takeD)
    then show ?thesis by (simp add: t extract_packet_def find_from_def find_char_absent [THEN iffD2])
  next
    case False
    then obtain k where k: "m = length e + Suc k" by (metis less_iff_Suc_add not_le_imp_less add_Suc_right)
    have t: "take n (rsp_packet e) = CHR ''$'' # e @ CHR ''#'' # take k (hex2 (checksum e))"
      by (simp add: Suc k rsp_packet_def)
    have "k < 2" using assms(2) l Suc k by simp
    then show ?thesis
      using find_char_first [OF assms(1), of "take k (hex2 (checksum e))"]
      by (simp add: t extract_packet_def find_from_def hex2_def)
  qed
qed

definition stream :: "string list \<Rightarrow> string" where
  "stream ds = concat (map (\<lambda>d. rsp_packet (rsp_escape d)) ds)"

lemma extract_escaped:
  "extract_packet (rsp_packet (rsp_escape d) @ b) = Some (d, length (rsp_escape d) \<le> PACKET_SIZE, b)"
  using extract_packet_rsp [OF escape_no_marker] escape_last by (metis unescape_escape)

subsection \<open>The reader on a stream of packets\<close>

definition delivered :: "string list \<Rightarrow> 'e gdb \<Rightarrow> 'e gdb" where
  "delivered ds s =
     s\<lparr>gs_commands := gs_commands s @ map Some ds,
       gs_sent := gs_sent s @ (if gs_no_ack s then [] else replicate (length ds) ''+'')\<rparr>"

lemma delivered_Nil [simp]: "delivered [] s = s"
  by (simp add: delivered_def)

lemma delivered_fields [simp]:
  "gs_broken (delivered ds s) = gs_broken s" "gs_closed (delivered ds s) = gs_closed s"
  "gs_no_ack (delivered ds s) = gs_no_ack s"
  by (simp_all add: delivered_def)

lemma delivered_append: "delivered ds (delivered cs s) = delivered (cs @ ds) s"
  by (simp add: delivered_def replicate_add)

lemma read_buffer_Nil [simp]: "read_buffer [] s = (Some [], s)"
  by (simp add: read_buffer.simps)

lemma read_buffer_packet:
  assumes "\<not> gs_broken s" "length (rsp_escape d) \<le> PACKET_SIZE"
  shows "read_buffer (rsp_packet (rsp_escape d) @ b) s = read_buffer b (delivered [d] s)"
proof -
  obtain r where r: "rsp_packet (rsp_escape d) @ b = CHR ''$'' # r" by (simp add: rsp_packet_def)
  have x: "extract_packet (CHR ''$'' # r) = Some (d, True, b)" using extract_escaped [of d b] assms(2) by (simp add: r)
  show ?thesis
    using assms(1)
    by (cases s) (simp add: r read_buffer.simps [of "CHR ''$'' # r"] x send_raw_def delivered_def ord_def)
qed

lemma read_buffer_short:
  assumes "n < length (rsp_packet (rsp_escape d))"
  shows "read_buffer (take n (rsp_packet (rsp_escape d))) s = (Some (take n (rsp_packet (rsp_escape d))), s)"
proof (cases n)
  case (Suc m)
  then obtain r where r: "take n (rsp_packet (rsp_escape d)) = CHR ''$'' # r" by (simp add: rsp_packet_def)
  show ?thesis
    using extract_packet_short [OF escape_no_marker assms]
    by (simp add: r read_buffer.simps [of "CHR ''$'' # r"] ord_def)
qed simp

text \<open>What is left is less than the first packet that is not complete.\<close>

definition stuck :: "string list \<Rightarrow> string \<Rightarrow> bool" where
  "stuck ds buffer \<longleftrightarrow> (case ds of [] \<Rightarrow> buffer = [] | d # _ \<Rightarrow> length buffer < length (rsp_packet (rsp_escape d)))"

lemma read_buffer_stream:
  assumes "buffer @ ahead = stream ds" "\<not> gs_broken s" "\<forall>d\<in>set ds. length (rsp_escape d) \<le> PACKET_SIZE"
  shows "\<exists>k rest. k \<le> length ds \<and> read_buffer buffer s = (Some rest, delivered (take k ds) s) \<and>
           rest @ ahead = stream (drop k ds) \<and> stuck (drop k ds) rest"
  using assms
proof (induction ds arbitrary: buffer s)
  case Nil
  then show ?case by (simp add: stream_def stuck_def)
next
  case (Cons d ds)
  let ?p = "rsp_packet (rsp_escape d)"
  have split: "buffer @ ahead = ?p @ stream ds" using Cons.prems(1) by (simp add: stream_def)
  show ?case
  proof (cases "length buffer < length ?p")
    case True
    then have b: "buffer = take (length buffer) ?p" using arg_cong [OF split, of "take (length buffer)"] by simp
    have "read_buffer buffer s = (Some buffer, s)" using read_buffer_short [OF True, of s] b by metis
    then show ?thesis
      using Cons.prems(1) True by (intro exI [of _ 0] exI [of _ buffer]) (simp add: stuck_def)
  next
    case False
    then have "take (length ?p) buffer = ?p" "drop (length ?p) buffer @ ahead = stream ds"
      using arg_cong [OF split, of "take (length ?p)"] arg_cong [OF split, of "drop (length ?p)"] by simp_all
    then obtain b where b: "buffer = ?p @ b" "b @ ahead = stream ds"
      by (metis append_take_drop_id)
    have l: "length (rsp_escape d) \<le> PACKET_SIZE" using Cons.prems(3) by simp
    obtain k rest where k: "k \<le> length ds" "read_buffer b (delivered [d] s) = (Some rest, delivered (take k ds) (delivered [d] s))"
        "rest @ ahead = stream (drop k ds)" "stuck (drop k ds) rest"
      using Cons.IH [OF b(2), of "delivered [d] s"] Cons.prems by auto
    show ?thesis
      using k read_buffer_packet [OF Cons.prems(2) l]
      by (intro exI [of _ "Suc k"] exI [of _ rest]) (simp add: b(1) delivered_append)
  qed
qed

lemma stuck_small:
  assumes "stuck ds buffer" "\<forall>d\<in>set ds. length (rsp_escape d) \<le> PACKET_SIZE"
  shows "length buffer \<le> PACKET_SIZE + 4"
  using assms by (cases ds) (auto simp: stuck_def rsp_packet_def hex2_def)

lemma read_loop_stream:
  assumes "buffer @ concat chunks = stream ds" "stuck ds buffer" "\<not> gs_broken s" "\<not> gs_closed s"
    "\<forall>d\<in>set ds. length (rsp_escape d) \<le> PACKET_SIZE" "[] \<notin> set chunks"
  shows "read_loop chunks buffer s = reader_end (delivered ds s)"
  using assms
proof (induction chunks arbitrary: buffer ds s)
  case Nil
  have "ds = []"
  proof (cases ds)
    case (Cons d r)
    then show ?thesis using Nil.prems(1,2) by (simp add: stream_def stuck_def)
  qed simp
  then show ?case by simp
next
  case (Cons chunk chunks)
  have "(buffer @ chunk) @ concat chunks = stream ds" using Cons.prems(1) by simp
  from read_buffer_stream [OF this Cons.prems(3,5)] obtain k rest where
    k: "k \<le> length ds" "read_buffer (buffer @ chunk) s = (Some rest, delivered (take k ds) s)"
      "rest @ concat chunks = stream (drop k ds)" "stuck (drop k ds) rest"
    by blast
  have small: "\<forall>d\<in>set (drop k ds). length (rsp_escape d) \<le> PACKET_SIZE"
    using Cons.prems(5) by (meson in_set_dropD)
  have "read_loop chunks rest (delivered (take k ds) s) = reader_end (delivered (drop k ds) (delivered (take k ds) s))"
    using Cons.IH [OF k(3,4) _ _ small] Cons.prems(3,4,6) by simp
  then show ?case
    using Cons.prems(4,6) k(2) stuck_small [OF k(4) small] by (auto simp: delivered_append)
qed

subsection \<open>Documents in parts\<close>

lemma split1_append [simp]: "c \<notin> set a \<Longrightarrow> split1 c (a @ c # b) = Some (a, b)"
  by (simp add: split1_def find_char_first)

text \<open>The packet that asks for the part of a document, and a client that asks for \<open>requested\<close> bytes until the marker is
  \<open>l\<close>, in at most \<open>n\<close> requests.\<close>

definition xfer_packet :: "string \<Rightarrow> string \<Rightarrow> nat \<Rightarrow> nat \<Rightarrow> string" where
  "xfer_packet object_name annex offset requested =
     ''qXfer:'' @ object_name @ '':read:'' @ annex @ '':'' @ hex_nat offset @ '','' @ hex_nat requested"

lemma handle_xfer_packet:
  assumes "CHR '':'' \<notin> set object_name" "CHR '':'' \<notin> set annex" "0 < requested"
  shows "handle_xfer api (xfer_packet object_name annex offset requested) s =
    map_option (\<lambda>d. xfer_chunk d offset requested) (xfer_data api object_name annex s)"
proof -
  let ?pos = "hex_nat offset @ CHR '','' # hex_nat requested"
  have pos: "xfer_position ?pos = Some (int offset, int requested)"
    using assms(3) hex_nat_not [of "CHR '',''" offset] by (simp add: xfer_position_def)
  have a: "split1 (CHR '':'') (drop 6 (xfer_packet object_name annex offset requested)) =
      Some (object_name, ''read'' @ CHR '':'' # annex @ CHR '':'' # ?pos)"
    using split1_append [OF assms(1)] by (simp add: xfer_packet_def)
  have b: "split1 (CHR '':'') (''read'' @ CHR '':'' # annex @ CHR '':'' # ?pos) = Some (''read'', annex @ CHR '':'' # ?pos)"
    by (rule split1_append) simp
  have c: "split1 (CHR '':'') (annex @ CHR '':'' # ?pos) = Some (annex, ?pos)" using assms(2) by simp
  have "starts_with (xfer_packet object_name annex offset requested) ''qXfer:''"
    by (simp add: xfer_packet_def starts_with_def)
  then show ?thesis
    unfolding handle_xfer_def a option.case prod.case b c pos by simp
qed

fun fetch :: "nat \<Rightarrow> (nat \<Rightarrow> string option) \<Rightarrow> nat \<Rightarrow> string option" where
  "fetch 0 ask offset = None"
| "fetch (Suc n) ask offset =
     (case ask offset of
        Some (m # part) \<Rightarrow>
          (if m = CHR ''l'' then Some part else map_option ((@) part) (fetch n ask (offset + length part)))
      | _ \<Rightarrow> None)"

lemma xfer_chunk_length: "length (xfer_chunk d offset requested) \<le> Suc ((PACKET_SIZE - 1) div 2)"
  by (auto simp: xfer_chunk_def Let_def min_def)

lemma fetch_document:
  assumes "0 < requested" "offset \<le> length d" "length d < offset + n"
  shows "fetch n (\<lambda>i. Some (xfer_chunk d i requested)) offset = Some (drop offset d)"
  using assms(2,3)
proof (induction n arbitrary: offset)
  case 0
  then show ?case by simp
next
  case (Suc n)
  let ?w = "min requested ((PACKET_SIZE - 1) div 2)"
  have w: "0 < ?w" using assms(1) by (simp add: PACKET_SIZE_def)
  consider (past) "length d \<le> offset" | (ends) "offset < length d" "length d \<le> offset + ?w"
    | (more) "offset + ?w < length d"
    by linarith
  then show ?case
  proof cases
    case past
    then show ?thesis by (simp add: xfer_chunk_def)
  next
    case ends
    then have "take ?w (drop offset d) = drop offset d" by (intro take_all) (simp, linarith)
    then have "xfer_chunk d offset requested = CHR ''l'' # drop offset d"
      using ends by (simp add: xfer_chunk_def Let_def)
    then show ?thesis by simp
  next
    case more
    have "offset + ?w \<le> length d" "length d < (offset + ?w) + n" using Suc.prems w more by linarith+
    from Suc.IH [OF this] have i: "fetch n (\<lambda>i. Some (xfer_chunk d i requested)) (offset + ?w) = Some (drop (offset + ?w) d)" .
    have part: "xfer_chunk d offset requested = CHR ''m'' # take ?w (drop offset d)"
      using more w by (simp add: xfer_chunk_def Let_def)
    have "length (take ?w (drop offset d)) = ?w" using more by simp
    with i have "fetch (Suc n) (\<lambda>i. Some (xfer_chunk d i requested)) offset = Some (take ?w (drop offset d) @ drop (offset + ?w) d)"
      by (simp add: part Let_def)
    also have "take ?w (drop offset d) @ drop (offset + ?w) d = drop offset d"
      by (metis append_take_drop_id drop_drop add.commute)
    finally show ?thesis .
  qed
qed

end
