(* ===== verification/Gdb_Stops.thy ===== *)
theory Gdb_Stops
  imports Gdb
begin

text \<open>
  The state of the GDB server across commands, hooks and runs: the ranges of the breakpoints, the index of the
  breakpoints and the hooks agree in every reachable state, and the requests of a stop in one run.
\<close>

subsection \<open>Ranges\<close>

definition in_range :: "int \<Rightarrow> int \<times> int \<Rightarrow> bool" where
  "in_range a r \<longleftrightarrow> fst r \<le> a \<and> a \<le> snd r"

definition in_point :: "int \<Rightarrow> int \<times> int \<times> int \<Rightarrow> bool" where
  "in_point a p \<longleftrightarrow> fst p \<le> a \<and> a < fst p + fst (snd p)"

definition separated :: "(int \<times> int) list \<Rightarrow> bool" where
  "separated rs \<longleftrightarrow> sorted_wrt (\<lambda>x y. snd x + 1 < fst y) rs \<and> (\<forall>r\<in>set rs. fst r \<le> snd r)"

lemma separated_snoc:
  "separated (rs @ [r]) \<longleftrightarrow> separated rs \<and> (\<forall>x\<in>set rs. snd x + 1 < fst r) \<and> fst r \<le> snd r"
  by (auto simp: separated_def sorted_wrt_append)

lemma separated_last: "separated rs \<Longrightarrow> x \<in> set rs \<Longrightarrow> snd x \<le> snd (last rs)"
  by (cases rs rule: rev_cases) (auto simp: separated_snoc separated_def sorted_wrt_append)

lemma merge_ranges_wf:
  assumes "separated rs" "\<forall>p\<in>set ps. 0 < fst (snd p) \<and> (rs \<noteq> [] \<longrightarrow> fst (last rs) \<le> fst p)" "sorted (map fst ps)"
  shows "separated (merge_ranges rs ps) \<and>
    (\<forall>a. (\<exists>r\<in>set (merge_ranges rs ps). in_range a r) \<longleftrightarrow> (\<exists>r\<in>set rs. in_range a r) \<or> (\<exists>p\<in>set ps. in_point a p))"
  using assms
proof (induction rs ps rule: merge_ranges.induct)
  case (1 rs)
  then show ?case by simp
next
  case (2 rs b sz t ps)
  let ?e = "b + sz - 1"
  have sz: "0 < sz" using "2.prems"(2) by simp
  have bp: "in_point a (b, sz, t) \<longleftrightarrow> in_range a (b, ?e)" for a by (auto simp: in_point_def in_range_def)
  have rest: "\<forall>p\<in>set ps. 0 < fst (snd p) \<and> b \<le> fst p" "sorted (map fst ps)"
    using "2.prems"(2,3) by auto
  show ?case
  proof (cases "rs \<noteq> [] \<and> b \<le> snd (last rs) + 1")
    case True
    then obtain q x where q: "rs = q @ [x]" by (cases rs rule: rev_cases) auto
    let ?x = "(fst x, max (snd x) ?e)"
    have x: "fst x \<le> b" "b \<le> snd x + 1" using "2.prems"(2) True by (auto simp: q)
    have s: "separated (q @ [?x])" using "2.prems"(1) by (simp add: q separated_snoc le_max_iff_disj)
    have r: "in_range a ?x \<longleftrightarrow> in_range a x \<or> in_range a (b, ?e)" for a
      using x sz by (auto simp: in_range_def)
    have "separated (merge_ranges (q @ [?x]) ps) \<and> (\<forall>a. (\<exists>r\<in>set (merge_ranges (q @ [?x]) ps). in_range a r) \<longleftrightarrow>
        (\<exists>r\<in>set (q @ [?x]). in_range a r) \<or> (\<exists>p\<in>set ps. in_point a p))"
      using "2.IH"(1) [OF refl True] s rest x(1) by (force simp: q)
    then show ?thesis using True by (simp add: q r bp Let_def) blast
  next
    case False
    have s: "separated (rs @ [(b, ?e)])"
    proof (cases "rs = []")
      case False2: False
      then have "snd (last rs) + 1 < b" using False by simp
      then show ?thesis using "2.prems"(1) sz separated_last by (force simp: separated_snoc)
    qed (simp add: separated_def sz)
    have "separated (merge_ranges (rs @ [(b, ?e)]) ps) \<and> (\<forall>a. (\<exists>r\<in>set (merge_ranges (rs @ [(b, ?e)]) ps). in_range a r) \<longleftrightarrow>
        (\<exists>r\<in>set (rs @ [(b, ?e)]). in_range a r) \<or> (\<exists>p\<in>set ps. in_point a p))"
      using "2.IH"(2) [OF refl False] s rest by force
    then show ?thesis using False by (simp add: bp Let_def) blast
  qed
qed

lemma sorted_fst: "sorted ps \<Longrightarrow> sorted (map fst (ps :: (int \<times> 'a :: linorder) list))"
  by (induction ps) (auto simp: less_eq_prod_def)

lemma sorted_points: "sorted (map fst (sort (ps :: (int \<times> int \<times> int) list)))"
  by (rule sorted_fst) simp

lemma separated_distinct: "separated rs \<Longrightarrow> distinct rs"
  by (induction rs) (fastforce simp: separated_def)+

lemma breakpoint_ranges_wf:
  assumes "\<forall>p\<in>set (gs_exec_breakpoints s). 0 < fst (snd (fst p))"
  shows "separated (breakpoint_ranges s)"
    "(\<exists>r\<in>set (breakpoint_ranges s). in_range a r) \<longleftrightarrow> (\<exists>p\<in>set (gs_exec_breakpoints s). in_point a (fst p))"
proof -
  let ?m = "merge_ranges [] (sort (map fst (gs_exec_breakpoints s)))"
  have "separated ?m \<and> (\<forall>a. (\<exists>r\<in>set ?m. in_range a r) \<longleftrightarrow> (\<exists>r\<in>set []. in_range a r) \<or>
      (\<exists>p\<in>set (sort (map fst (gs_exec_breakpoints s))). in_point a p))"
    using assms by (intro merge_ranges_wf sorted_points) (auto simp: separated_def)
  then have m: "separated ?m" "(\<exists>r\<in>set ?m. in_range a r) \<longleftrightarrow> (\<exists>p\<in>set (gs_exec_breakpoints s). in_point a (fst p))" for a
    by simp_all
  have "breakpoint_ranges s = ?m"
    unfolding breakpoint_ranges_def by (simp add: distinct_remdups_id separated_distinct [OF m(1)])
  then show "separated (breakpoint_ranges s)"
    "(\<exists>r\<in>set (breakpoint_ranges s). in_range a r) \<longleftrightarrow> (\<exists>p\<in>set (gs_exec_breakpoints s). in_point a (fst p))"
    using m by simp_all
qed

text \<open>At most one range of separated ranges holds an address.\<close>

lemma separated_once:
  "separated rs \<Longrightarrow> length (filter (in_range a) rs) = (if \<exists>r\<in>set rs. in_range a r then 1 else 0)"
proof (induction rs)
  case (Cons r rs)
  then have IH: "length (filter (in_range a) rs) = (if \<exists>r\<in>set rs. in_range a r then 1 else 0)"
    by (simp add: separated_def)
  have "\<not> (\<exists>x\<in>set rs. in_range a x)" if "in_range a r"
    using Cons.prems that by (auto simp: separated_def in_range_def)
  then show ?case using IH by auto
qed simp

subsection \<open>The breakpoint state\<close>

definition watching :: "'e gdb \<Rightarrow> bool" where
  "watching s \<longleftrightarrow> gs_read_watchpoints s \<noteq> [] \<or> gs_write_watchpoints s \<noteq> [] \<or> gs_access_watchpoints s \<noteq> []"

definition points_ok :: "'e gdb \<Rightarrow> bool" where
  "points_ok s \<longleftrightarrow>
     (\<forall>p\<in>set (gs_exec_breakpoints s). 0 < fst (snd (fst p)) \<and> snd p = snd (snd (fst p)) \<and> snd (snd (fst p)) \<in> {0, 1}) \<and>
     (\<forall>p\<in>set (gs_read_watchpoints s) \<union> set (gs_write_watchpoints s) \<union> set (gs_access_watchpoints s). 0 < snd (fst p))"

definition index_ok :: "'e gdb \<Rightarrow> bool" where
  "index_ok s \<longleftrightarrow> gs_exec_addresses s = gs_exec_addresses (index_breakpoints s) \<and>
     gs_exec_ranges s = gs_exec_ranges (index_breakpoints s)"

definition hooks_ok :: "'e gdb \<Rightarrow> bool" where
  "hooks_ok s \<longleftrightarrow> distinct (gs_breakpoint_hooks s) \<and>
     set (gs_breakpoint_hooks s) = (if watching s then {} else set (breakpoint_ranges s)) \<and> gs_code_hook s = watching s \<and>
     gs_read_hook s = (gs_read_watchpoints s \<noteq> [] \<or> gs_access_watchpoints s \<noteq> []) \<and>
     gs_write_hook s = (gs_write_watchpoints s \<noteq> [] \<or> gs_access_watchpoints s \<noteq> [])"

definition gdb_wf :: "'e gdb \<Rightarrow> bool" where
  "gdb_wf s \<longleftrightarrow> points_ok s \<and> index_ok s \<and> hooks_ok s"

text \<open>What \<open>gdb_wf\<close> reads.\<close>

definition same_points :: "'e gdb \<Rightarrow> 'e gdb \<Rightarrow> bool" where
  "same_points s s' \<longleftrightarrow>
     gs_exec_breakpoints s' = gs_exec_breakpoints s \<and> gs_exec_addresses s' = gs_exec_addresses s \<and>
     gs_exec_ranges s' = gs_exec_ranges s \<and> gs_read_watchpoints s' = gs_read_watchpoints s \<and>
     gs_write_watchpoints s' = gs_write_watchpoints s \<and> gs_access_watchpoints s' = gs_access_watchpoints s \<and>
     gs_code_hook s' = gs_code_hook s \<and> gs_read_hook s' = gs_read_hook s \<and> gs_write_hook s' = gs_write_hook s \<and>
     gs_breakpoint_hooks s' = gs_breakpoint_hooks s"

lemma same_points_refl [simp]: "same_points s s"
  by (simp add: same_points_def)

lemma same_points_trans: "same_points s s' \<Longrightarrow> same_points s' s'' \<Longrightarrow> same_points s s''"
  by (simp add: same_points_def)

lemma same_points_wf: "same_points s s' \<Longrightarrow> gdb_wf s \<Longrightarrow> gdb_wf s'"
  by (simp add: same_points_def gdb_wf_def points_ok_def index_ok_def index_breakpoints_def hooks_ok_def watching_def
      breakpoint_ranges_def)

text \<open>\<open>keeps\<close> says that a step of the state leaves the points alone; the collection has the rules of the combinators.\<close>

definition keeps :: "('e gdb \<Rightarrow> 'a \<times> 'e gdb) \<Rightarrow> bool" where
  "keeps m \<longleftrightarrow> (\<forall>s. same_points s (snd (m s)))"

named_theorems keep_rules \<open>steps that leave the points alone\<close>

lemma keepsD: "keeps m \<Longrightarrow> same_points s (snd (m s))"
  by (simp add: keeps_def)

lemma keepsD': "keeps m \<Longrightarrow> m s = (r, s') \<Longrightarrow> same_points s s'"
  using keepsD [of m s] by simp

lemma keeps_sbind [keep_rules]:
  assumes "keeps m" "\<And>x. keeps (f x)"
  shows "keeps (sbind m f)"
  unfolding keeps_def
proof
  fix s
  obtain r s' where r: "m s = (r, s')" by (cases "m s")
  have k: "same_points s s'" using keepsD' [OF assms(1) r] .
  show "same_points s (snd (sbind m f s))"
    using k same_points_trans [OF k keepsD [OF assms(2)]] by (cases r) (simp_all add: sbind_def r)
qed

lemma keeps_sret [keep_rules]: "keeps (sret x)"
  by (simp add: keeps_def sret_def)

lemma keeps_fail [keep_rules]: "keeps (fail e)"
  by (simp add: keeps_def fail_def)

lemma keeps_of_opt [keep_rules]: "keeps (of_opt x)"
  by (cases x) (simp_all add: keeps_def of_opt_def)

lemma keeps_lift [keep_rules]: "keeps (lift_result r)"
  by (simp add: keeps_def lift_result_def)

lemma keeps_reply [keep_rules]: "keeps (reply p b)"
  by (simp add: keeps_def reply_def reply_raw_def send_raw_def same_points_def Let_def)

lemma keeps_if [keep_rules]: "keeps m \<Longrightarrow> keeps n \<Longrightarrow> keeps (if c then m else n)"
  by simp

lemma keeps_prod [keep_rules]: "(\<And>a b. keeps (f a b)) \<Longrightarrow> keeps (case x of (a, b) \<Rightarrow> f a b)"
  by (cases x) simp

lemma keeps_reply_error [keep_rules]:
  assumes "keeps m"
  shows "keeps (reply_error c m)"
  unfolding keeps_def
proof
  fix s
  obtain r s' where r: "m s = (r, s')" by (cases "m s")
  have k: "same_points s s'" using keepsD' [OF assms r] .
  show "same_points s (snd (reply_error c m s))"
    using k same_points_trans [OF k keepsD [OF keeps_reply]] by (cases r) (simp_all add: reply_error_def r)
qed

lemma keeps_no_action [keep_rules]: "keeps m \<Longrightarrow> keeps (no_action m)"
  unfolding no_action_def by (intro keep_rules)

lemma keeps_nth_register [keep_rules]: "keeps (nth_register api i)"
  by (simp add: keeps_def nth_register_def)

lemma keeps_write_register_value [keep_rules]: "keeps (write_register_value api r v)"
  by (auto simp: keeps_def write_register_value_def same_points_def Let_def split: option.split prod.split)

lemma keeps_write_all [keep_rules]: "keeps (write_all api rs d)"
proof (induction rs arbitrary: d)
  case Nil
  then show ?case by (simp add: keeps_def)
next
  case (Cons r rs)
  have "keeps (\<lambda>s. sbind (write_register_value api r (take (ri_size r) d)) (\<lambda>_. write_all api rs (drop (ri_size r) d)) s)"
    using Cons by (intro keep_rules)
  then show ?case by (simp add: keeps_def)
qed

lemma keeps_emu [keep_rules]: "keeps (\<lambda>s. let (r, e) = f (gs_emu s) in (r, s\<lparr>gs_emu := e\<rparr>))"
  by (auto simp: keeps_def same_points_def Let_def split: prod.split)

lemma keeps_registers [keep_rules]:
  "keeps (read_registers api)" "keeps (write_registers api enc)" "keeps (read_register api enc)"
  "keeps (write_register api enc)"
proof -
  show "keeps (read_registers api)"
    unfolding read_registers_def
    by (intro keeps_reply_error) (simp add: keeps_def sbind_def lift_result_def keepsD [OF keeps_reply] split: sum.split)
  show "keeps (write_registers api enc)" unfolding write_registers_def by (intro keep_rules)
  have "keeps (\<lambda>s. sbind (lift_result (read_register_value api r s)) (\<lambda>v. reply (to_hex v) False) s)" for r
    by (simp add: keeps_def sbind_def lift_result_def keepsD [OF keeps_reply] split: sum.split)
  then show "keeps (read_register api enc)" unfolding read_register_def by (intro keep_rules)
  show "keeps (write_register api enc)" unfolding write_register_def by (intro keep_rules)
qed

lemma keeps_memory [keep_rules]:
  "keeps (read_memory api p)" "keeps (write_memory_hex api p)" "keeps (write_memory_binary api p)"
proof -
  have a: "keeps (address_size i)" for i unfolding address_size_def by (intro keep_rules)
  have w: "keeps (write_memory api ad sz d)" for ad sz d unfolding write_memory_def by (intro keep_rules)
  have "keeps (\<lambda>s. sbind (lift_result (ea_mem_read api ad sz (gs_emu s))) (\<lambda>d. reply (to_hex d) False) s)" for ad sz
    by (simp add: keeps_def sbind_def lift_result_def keepsD [OF keeps_reply] split: sum.split)
  then show "keeps (read_memory api p)" unfolding read_memory_def by (intro keep_rules a)
  show "keeps (write_memory_hex api p)" unfolding write_memory_hex_def by (intro keep_rules a w)
  show "keeps (write_memory_binary api p)" unfolding write_memory_binary_def by (intro keep_rules a w)
qed

lemma keeps_thread [keep_rules]: "keeps (thread_command p)"
  unfolding thread_command_def by (intro keep_rules)

subsection \<open>Every operation keeps the breakpoint state\<close>

lemma breakpoint_ranges_cong: "gs_exec_breakpoints s' = gs_exec_breakpoints s \<Longrightarrow> breakpoint_ranges s' = breakpoint_ranges s"
  by (simp add: breakpoint_ranges_def)

lemma refresh_hooks_points:
  "gs_exec_breakpoints (refresh_hooks s) = gs_exec_breakpoints s"
  "gs_exec_addresses (refresh_hooks s) = gs_exec_addresses s"
  "gs_exec_ranges (refresh_hooks s) = gs_exec_ranges s"
  "gs_read_watchpoints (refresh_hooks s) = gs_read_watchpoints s"
  "gs_write_watchpoints (refresh_hooks s) = gs_write_watchpoints s"
  "gs_access_watchpoints (refresh_hooks s) = gs_access_watchpoints s"
  "gs_running (refresh_hooks s) = gs_running s" "gs_stop_pending (refresh_hooks s) = gs_stop_pending s"
  "gs_resume_pc (refresh_hooks s) = gs_resume_pc s" "gs_engine_stops (refresh_hooks s) = gs_engine_stops s"
  "gs_stop_reason (refresh_hooks s) = gs_stop_reason s"
  by (simp_all add: refresh_hooks_def Let_def)

lemma refresh_hooks_wf:
  assumes "points_ok s" "index_ok s" "distinct (gs_breakpoint_hooks s)"
  shows "gdb_wf (refresh_hooks s)"
proof -
  have "points_ok (refresh_hooks s)" using assms(1) by (simp add: points_ok_def refresh_hooks_points)
  moreover have "index_ok (refresh_hooks s)"
    using assms(2) by (simp add: index_ok_def index_breakpoints_def refresh_hooks_points)
  moreover have "distinct (breakpoint_ranges s)" by (simp add: breakpoint_ranges_def)
  then have "hooks_ok (refresh_hooks s)"
    using assms(3) breakpoint_ranges_cong [of "refresh_hooks s" s]
    by (auto simp: hooks_ok_def refresh_hooks_points watching_def refresh_hooks_def Let_def)
  ultimately show ?thesis by (simp add: gdb_wf_def)
qed

lemma start_gdb_wf: "gdb_wf (start_gdb e)"
  unfolding start_gdb_def
  by (rule refresh_hooks_wf) (simp_all add: points_ok_def index_ok_def index_breakpoints_def init_gdb_def)

lemma change_dict_set: "x \<in> set (change_dict add k v m) \<Longrightarrow> x \<in> set m \<or> x = (k, v)"
proof -
  have "x \<in> set (AList.update k v m) \<Longrightarrow> x \<in> set m \<or> x = (k, v)" by (induction m) (auto split: if_splits)
  moreover have "x \<in> set (AList.delete k m) \<Longrightarrow> x \<in> set m" by (simp add: AList.delete_eq)
  ultimately show "x \<in> set (change_dict add k v m) \<Longrightarrow> x \<in> set m \<or> x = (k, v)"
    by (auto simp: change_dict_def split: if_splits)
qed

definition preserves :: "('e gdb \<Rightarrow> 'a \<times> 'e gdb) \<Rightarrow> bool" where
  "preserves m \<longleftrightarrow> (\<forall>s. gdb_wf s \<longrightarrow> gdb_wf (snd (m s)))"

lemma preservesD: "preserves m \<Longrightarrow> gdb_wf s \<Longrightarrow> gdb_wf (snd (m s))"
  by (simp add: preserves_def)

lemma keeps_preserves: "keeps m \<Longrightarrow> preserves m"
  using keepsD same_points_wf by (auto simp: preserves_def)

lemma preserves_sbind:
  assumes "preserves m" "\<And>x. preserves (f x)"
  shows "preserves (sbind m f)"
  unfolding preserves_def
proof (intro allI impI)
  fix s :: "'a gdb"
  assume "gdb_wf s"
  then have w: "gdb_wf (snd (m s))" by (rule preservesD [OF assms(1)])
  obtain r s' where r: "m s = (r, s')" by (cases "m s")
  show "gdb_wf (snd (sbind m f s))"
    using w preservesD [OF assms(2), of s'] by (cases r) (simp_all add: sbind_def r)
qed

lemma preserves_reply_error:
  assumes "preserves m"
  shows "preserves (reply_error c m)"
  unfolding preserves_def
proof (intro allI impI)
  fix s :: "'a gdb"
  assume "gdb_wf s"
  then have w: "gdb_wf (snd (m s))" by (rule preservesD [OF assms(1)])
  obtain r s' where r: "m s = (r, s')" by (cases "m s")
  show "gdb_wf (snd (reply_error c m s))"
    using w preservesD [OF keeps_preserves [OF keeps_reply], of s'] by (cases r) (simp_all add: reply_error_def r)
qed

lemma index_breakpoints_points:
  "points_ok (index_breakpoints s) = points_ok s" "index_ok (index_breakpoints s)"
  "gs_breakpoint_hooks (index_breakpoints s) = gs_breakpoint_hooks s"
  by (simp_all add: points_ok_def index_ok_def index_breakpoints_def)

lemma set_point_wf:
  assumes "gdb_wf s" "0 < sz"
  shows "gdb_wf (snd (set_point add t address sz s))"
proof -
  note w = assms(1) [unfolded gdb_wf_def]
  have d: "distinct (gs_breakpoint_hooks s)" using w by (simp add: hooks_ok_def)
  have r: "gdb_wf (snd (reply p b s'))" if "gdb_wf s'" for p b and s' :: "'a gdb"
    using that by (rule preservesD [OF keeps_preserves [OF keeps_reply]])
  let ?e = "s\<lparr>gs_exec_breakpoints := change_dict add (address, sz, t) t (gs_exec_breakpoints s)\<rparr>"
  have e: "gdb_wf (refresh_hooks (index_breakpoints ?e))" if "t = 0 \<or> t = 1"
  proof (rule refresh_hooks_wf)
    have "points_ok ?e"
      using w assms(2) that unfolding points_ok_def by (auto dest!: change_dict_set)
    then show "points_ok (index_breakpoints ?e)" by (simp add: index_breakpoints_points)
  qed (use d in \<open>simp_all add: index_breakpoints_points\<close>)
  have watch: "gdb_wf (refresh_hooks (s\<lparr>gs_write_watchpoints := change_dict add (address, sz) t (gs_write_watchpoints s)\<rparr>))"
    "gdb_wf (refresh_hooks (s\<lparr>gs_read_watchpoints := change_dict add (address, sz) t (gs_read_watchpoints s)\<rparr>))"
    "gdb_wf (refresh_hooks (s\<lparr>gs_access_watchpoints := change_dict add (address, sz) t (gs_access_watchpoints s)\<rparr>))"
    by (rule refresh_hooks_wf; use w d assms(2) in \<open>auto simp: points_ok_def index_ok_def index_breakpoints_def dest!: change_dict_set\<close>)+
  show ?thesis
    using r e watch assms(1) by (auto simp: set_point_def)
qed

lemma change_breakpoint_preserves: "preserves (change_breakpoint p)"
proof -
  have "preserves (if sz \<le> 0 then fail ValueError else set_point add t address sz)" for add t address sz
    using set_point_wf by (auto simp: preserves_def not_le fail_def)
  then show ?thesis
    unfolding change_breakpoint_def
    by (intro preserves_reply_error preserves_sbind keeps_preserves [OF keeps_of_opt] keeps_preserves [OF keeps_lift])
      (auto split: prod.split intro!: preserves_sbind keeps_preserves [OF keeps_of_opt] keeps_preserves [OF keeps_lift])
qed

lemma wf_if: "gdb_wf (snd m) \<Longrightarrow> gdb_wf (snd n) \<Longrightarrow> gdb_wf (snd (if c then m else n))"
  by simp

lemma handle_command_wf:
  assumes "gdb_wf s"
  shows "gdb_wf (snd (handle_command api p s))"
proof -
  have k: "gdb_wf (snd (m s'))" if "keeps m" "gdb_wf s'" for m :: "'a gdb \<Rightarrow> 'b \<times> 'a gdb" and s'
    using that by (meson keeps_preserves preservesD)
  have n: "gdb_wf (snd (no_action m s'))" if "keeps m" "gdb_wf s'" for m :: "'a gdb \<Rightarrow> unit result \<times> 'a gdb" and s'
    using that by (meson keeps_preserves preservesD keeps_no_action)
  have ack: "gdb_wf (snd (sbind (reply q False) (\<lambda>_ s. (Inr None, s\<lparr>gs_no_ack := True\<rparr>)) s))" for q
    by (rule preservesD [OF keeps_preserves [OF keeps_sbind [OF keeps_reply]] assms])
      (simp add: keeps_def same_points_def)
  have ret: "gdb_wf (snd (sbind (reply q False) (\<lambda>_. sret x) s))" for q and x :: "resume_action option"
    by (rule preservesD [OF keeps_preserves assms]) (intro keep_rules)
  have stop: "gdb_wf (snd (stop_reply r s))" for r
    using assms by (rule same_points_wf [rotated]) (simp add: stop_reply_def same_points_def)
  have query: "gdb_wf (snd (let (r, s) = stop_reply (gs_stop_reason s) s in no_action (reply r False) s))"
    using n [OF keeps_reply stop] by (simp add: case_prod_unfold Let_def)
  have change: "gdb_wf (snd (no_action (change_breakpoint p) s))"
    unfolding no_action_def
    by (rule preservesD [OF preserves_sbind [OF change_breakpoint_preserves keeps_preserves [OF keeps_sret]] assms])
  have xfer: "gdb_wf (snd (case handle_xfer api p s of None \<Rightarrow> no_action (reply [] False) s
      | Some response \<Rightarrow> no_action (reply response True) s))"
    using n [OF keeps_reply assms] by (cases "handle_xfer api p s") simp_all
  have res: "gdb_wf (snd (resume_command q s))" for q
    using ret assms by (simp add: resume_command_def Let_def)
  have emu: "gdb_wf (s\<lparr>gs_emu := e\<rparr>)" for e
    using assms by (rule same_points_wf [rotated]) (simp add: same_points_def)
  have cont: "gdb_wf (snd (continue_command api p s))"
    using n [OF keeps_reply assms] n [OF keeps_reply emu] assms emu
    by (auto simp: continue_command_def Let_def split: sum.split prod.split)
  note regs = keeps_registers [of api] keeps_memory [of api] keeps_thread
  show ?thesis
    unfolding handle_command_def
    by (intro wf_if n [OF keeps_reply assms] n [OF regs(1) assms] n [OF regs(2) assms] n [OF regs(3) assms]
        n [OF regs(4) assms] n [OF regs(5) assms] n [OF regs(6) assms] n [OF regs(7) assms] n [OF regs(8) assms]
        ack ret query change xfer res cont)
qed

end
