(* ===== verification/Gdb_Runs.thy ===== *)
theory Gdb_Runs
  imports Gdb_Stops
begin

text \<open>
  The reachable states of the GDB server and its runs: the steps are the commands of the client, the packets that the
  reader takes, the hooks of the CPU engine and the begin and the end of a run, in any order.
\<close>

subsection \<open>Frames of the single steps\<close>

lemma send_raw_points: "same_points s (snd (send_raw d s))"
  by (simp add: send_raw_def same_points_def)

lemma request_stop_points [simp]: "same_points s (request_stop r s)"
  by (simp add: request_stop_def stop_engine_def same_points_def Let_def)

lemma request_stop_points': "same_points s s' \<Longrightarrow> same_points s (request_stop r s')"
  using request_stop_points same_points_trans by blast

lemma on_code_points: "same_points s (on_code a s)"
proof -
  have "same_points s (stop_engine s)" "same_points s (s\<lparr>gs_resume_pc := None\<rparr>)"
    by (simp_all add: stop_engine_def same_points_def)
  then show ?thesis by (simp add: on_code_def Let_def split: option.split)
qed

lemma on_access_points: "same_points s (on_read a n s)" "same_points s (on_write a n s)"
  by (simp_all add: on_read_def on_write_def split: option.split)

lemma on_module_change_points: "same_points s (on_module_change s)"
  unfolding on_module_change_def by (rule request_stop_points') (simp add: same_points_def)

lemma interrupt_points: "same_points s (interrupt s)"
  by (simp add: interrupt_def) (simp add: same_points_def)

lemma put_points: "same_points s (s\<lparr>gs_commands := c\<rparr>)"
  by (simp add: same_points_def)

lemma read_buffer_points: "same_points s (snd (read_buffer buffer s))"
proof (induction buffer s rule: read_buffer.induct)
  case (1 buffer s)
  have send: "same_points s s'" if "send_raw d s = (r, s')" for d r s'
    using send_raw_points [of s d] that by simp
  show ?case
  proof (cases buffer)
    case Nil
    then show ?thesis by (subst read_buffer.simps) simp
  next
    case (Cons c rest)
    note IH = "1.IH" [OF Cons]
    consider (intr) "ord c = 3" | (plus) "ord c \<noteq> 3" "c = CHR ''+''" | (minus) "ord c \<noteq> 3" "c = CHR ''-''"
      | (junk) "ord c \<noteq> 3" "c \<noteq> CHR ''+''" "c \<noteq> CHR ''-''" "c \<noteq> CHR ''$''" | (packet) "c = CHR ''$''"
      by blast
    then show ?thesis
    proof cases
      case intr
      then show ?thesis
        using IH(1) [OF intr] same_points_trans [OF interrupt_points]
        by (subst read_buffer.simps) (simp add: Cons)
    next
      case plus
      then show ?thesis using IH(2) [OF plus] by (subst read_buffer.simps) (simp add: Cons)
    next
      case minus
      have n: "c \<noteq> CHR ''+''" using minus(2) by simp
      show ?thesis
      proof (cases "gs_last_packet s")
        case None
        then show ?thesis using IH(3) [OF minus(1) n minus(2) None] minus by (subst read_buffer.simps) (simp add: Cons)
      next
        case (Some p)
        obtain r s' where r: "send_raw p s = (r, s')" by (cases "send_raw p s")
        show ?thesis
          using send [OF r] IH(4) [OF minus(1) n minus(2) Some r [symmetric]] same_points_trans [OF send [OF r]]
            minus Some r
          by (subst read_buffer.simps) (cases r, simp_all add: Cons)
      qed
    next
      case junk
      then show ?thesis using IH(5) [OF junk] by (subst read_buffer.simps) (simp add: Cons)
    next
      case packet
      have n: "ord c \<noteq> 3" "c \<noteq> CHR ''+''" "c \<noteq> CHR ''-''" "\<not> c \<noteq> CHR ''$''" by (simp_all add: packet ord_def)
      show ?thesis
      proof (cases "extract_packet buffer")
        case None
        then show ?thesis using n by (subst read_buffer.simps) (simp add: Cons)
      next
        case (Some x)
        obtain payload valid left where x: "x = (payload, valid, left)" by (cases x) auto
        have put: "same_points s' (if valid then s'\<lparr>gs_commands := gs_commands s' @ [Some payload]\<rparr> else s')"
          for s' :: "'a gdb"
          by (simp add: put_points)
        show ?thesis
        proof (cases "gs_no_ack s")
          case True
          then show ?thesis
            using IH(6) [OF n Some x [symmetric] refl True] same_points_trans [OF put [of s]] n Some
            by (subst read_buffer.simps) (simp add: Cons x)
        next
          case False
          obtain r s' where r: "send_raw (if valid then ''+'' else ''-'') s = (r, s')"
            by (cases "send_raw (if valid then ''+'' else ''-'') s")
          show ?thesis
            using send [OF r] IH(7) [OF n Some x [symmetric] refl False r [symmetric]]
              same_points_trans [OF same_points_trans [OF send [OF r] put]] n Some False r
            by (subst read_buffer.simps) (cases r, simp_all add: Cons x)
        qed
      qed
    qed
  qed
qed

subsection \<open>Reachable states\<close>

datatype gdb_event = EvCode int | EvRead int int | EvWrite int int | EvModule | EvInterrupt

text \<open>What the engine and the reader call while the target runs.\<close>

fun on_event :: "gdb_event \<Rightarrow> 'e gdb \<Rightarrow> 'e gdb" where
  "on_event (EvCode a) s = on_code a s"
| "on_event (EvRead a n) s = on_read a n s"
| "on_event (EvWrite a n) s = on_write a n s"
| "on_event EvModule s = on_module_change s"
| "on_event EvInterrupt s = interrupt s"

inductive gdb_reach :: "'e emu_api \<Rightarrow> 'e gdb \<Rightarrow> bool" for api where
  start: "gdb_reach api (start_gdb e)"
| command: "gdb_reach api s \<Longrightarrow> gdb_reach api (snd (handle_command api p s))"
| reader: "gdb_reach api s \<Longrightarrow> gdb_reach api (snd (read_buffer buffer s))"
| reader_ends: "gdb_reach api s \<Longrightarrow> gdb_reach api (reader_end s)"
| event: "gdb_reach api s \<Longrightarrow> gdb_reach api (on_event ev s)"
| begins: "gdb_reach api s \<Longrightarrow> gdb_reach api (snd (begin_run api s))"
| finishes: "gdb_reach api s \<Longrightarrow> gdb_reach api (snd (finish_run act s))"
| loops: "gdb_reach api s \<Longrightarrow> gdb_reach api (snd (command_loop api r s))"
| emulates: "gdb_reach api s \<Longrightarrow> gdb_reach api (s\<lparr>gs_emu := e\<rparr>)"
| disconnects: "gdb_reach api s \<Longrightarrow> gdb_reach api (s\<lparr>gs_broken := True\<rparr>)"

lemma event_points: "same_points s (on_event ev s)"
  by (cases ev) (simp_all add: on_code_points on_access_points on_module_change_points interrupt_points)

lemma command_queue_wf: "gdb_wf s \<Longrightarrow> gdb_wf (snd (command_queue api q s))"
proof (induction q arbitrary: s)
  case Nil
  then show ?case using same_points_wf [OF put_points] by simp
next
  case (Cons x q)
  have put: "gdb_wf (s'\<lparr>gs_commands := c\<rparr>)" if "gdb_wf s'" for c and s' :: "'a gdb"
    using that same_points_wf [OF put_points] by blast
  have go: "gdb_wf (s'\<lparr>gs_running := True, gs_resume_pc := Some z, gs_commands := c\<rparr>)" if "gdb_wf s'" for c z and s' :: "'a gdb"
    using that by (rule same_points_wf [rotated]) (simp add: same_points_def)
  have e: "gdb_wf (snd (reply r False s'))" if "gdb_wf s'" for r and s' :: "'a gdb"
    using that keepsD [OF keeps_reply] same_points_wf by blast
  show ?case
  proof (cases "gs_closed s \<or> x = None")
    case True
    then show ?thesis using put [OF Cons.prems] by (cases x) auto
  next
    case False
    then obtain p where p: "x = Some p" "\<not> gs_closed s" by auto
    obtain r s1 where h: "handle_command api p s = (r, s1)" by (cases "handle_command api p s")
    have w: "gdb_wf s1" using handle_command_wf [OF Cons.prems, of api p] h by simp
    obtain r2 s2 where h2: "reply ''E01'' False s1 = (r2, s2)" by (cases "reply ''E01'' False s1")
    have w2: "gdb_wf s2" using e [OF w, of "''E01''"] h2 by simp
    show ?thesis
      using p h h2 put [OF w] put [OF w2] go [OF w] Cons.IH [OF w] Cons.IH [OF w2]
      by (auto split: sum.split option.split)
  qed
qed

lemma command_loop_wf:
  assumes "gdb_wf s"
  shows "gdb_wf (snd (command_loop api r s))"
proof -
  have idle: "gdb_wf (s'\<lparr>gs_running := False, gs_stop_pending := False\<rparr>)" if "gdb_wf s'" for s' :: "'a gdb"
    using that by (rule same_points_wf [rotated]) (simp add: same_points_def)
  show ?thesis
  proof (cases r)
    case None
    then show ?thesis using command_queue_wf [OF idle [OF assms]] by (simp add: command_loop_def)
  next
    case (Some x)
    obtain t s1 where t: "stop_reply x (s\<lparr>gs_stop_reason := x\<rparr>) = (t, s1)" by (cases "stop_reply x (s\<lparr>gs_stop_reason := x\<rparr>)")
    have w: "gdb_wf s1"
      using assms t by (elim same_points_wf [rotated]) (auto simp: stop_reply_def same_points_def)
    obtain y s2 where y: "reply t False s1 = (y, s2)" by (cases "reply t False s1")
    have "gdb_wf s2" using same_points_wf [OF keepsD' [OF keeps_reply y] w] .
    then show ?thesis
      using command_queue_wf [OF idle] by (cases y) (simp_all add: command_loop_def Some t y)
  qed
qed

lemma begin_run_wf:
  assumes "gdb_wf s"
  shows "gdb_wf (snd (begin_run api s))"
proof (cases "gs_stop_pending s")
  case True
  then show ?thesis
    using assms by (elim same_points_wf [rotated]) (simp add: begin_run_def Let_def same_points_def)
next
  case False
  let ?s = "s\<lparr>gs_running := True, gs_stop_reason := stop_default,
      gs_resume_pc := (if gs_resume_pc s \<noteq> Some (ea_get_pc api (gs_emu s)) then None else gs_resume_pc s)\<rparr>"
  have "gdb_wf ?s" using assms by (elim same_points_wf [rotated]) (simp add: same_points_def)
  then have "gdb_wf (refresh_hooks ?s)" by (intro refresh_hooks_wf) (simp_all add: gdb_wf_def hooks_ok_def)
  then show ?thesis using False by (auto simp: begin_run_def Let_def split: if_splits)
qed

lemma reach_wf: "gdb_reach api s \<Longrightarrow> gdb_wf s"
proof (induction rule: gdb_reach.induct)
  case (reader s buffer)
  then show ?case using same_points_wf [OF read_buffer_points] by blast
next
  case (reader_ends s)
  have "same_points s (reader_end s)"
    unfolding reader_end_def by (intro request_stop_points' put_points)
  then show ?case using same_points_wf reader_ends by blast
next
  case (event s ev)
  then show ?case using same_points_wf [OF event_points] by blast
next
  case (finishes s act)
  have "same_points s (snd (finish_run act s))" by (simp add: finish_run_def Let_def same_points_def)
  then show ?case using same_points_wf finishes by blast
next
  case (emulates s e)
  have "same_points s (s\<lparr>gs_emu := e\<rparr>)" by (simp add: same_points_def)
  then show ?case using same_points_wf emulates by blast
next
  case (disconnects s)
  have "same_points s (s\<lparr>gs_broken := True\<rparr>)" by (simp add: same_points_def)
  then show ?case using same_points_wf disconnects by blast
qed (simp_all add: start_gdb_wf handle_command_wf begin_run_wf command_loop_wf)

subsection \<open>Breakpoints in reachable states\<close>

text \<open>The engine calls the code hook for all instructions and the hooks of the ranges that hold the instruction.\<close>

definition code_hook_calls :: "int \<Rightarrow> 'e gdb \<Rightarrow> nat" where
  "code_hook_calls a s = (if gs_code_hook s then 1 else 0) + length (filter (in_range a) (gs_breakpoint_hooks s))"

definition execute :: "int \<Rightarrow> 'e gdb \<Rightarrow> 'e gdb" where
  "execute a s = (on_code a ^^ code_hook_calls a s) s"

definition covered :: "int \<Rightarrow> 'e gdb \<Rightarrow> bool" where
  "covered a s \<longleftrightarrow> (\<exists>p\<in>set (gs_exec_breakpoints s). in_point a (fst p))"

lemma wf_calls:
  assumes "gdb_wf s"
  shows "code_hook_calls a s = (if watching s \<or> covered a s then 1 else 0)"
proof -
  note w = assms [unfolded gdb_wf_def hooks_ok_def]
  have pos: "\<forall>p\<in>set (gs_exec_breakpoints s). 0 < fst (snd (fst p))" using w by (simp add: points_ok_def)
  note r = breakpoint_ranges_wf [OF pos]
  have "length (filter (in_range a) (gs_breakpoint_hooks s)) = card (set (filter (in_range a) (gs_breakpoint_hooks s)))"
    using w by (simp only: distinct_card distinct_filter)
  also have "set (filter (in_range a) (gs_breakpoint_hooks s)) =
      (if watching s then {} else set (filter (in_range a) (breakpoint_ranges s)))"
    using w by simp
  also have "card \<dots> = (if watching s then 0 else length (filter (in_range a) (breakpoint_ranges s)))"
    using separated_distinct [OF r(1)] by (simp only: distinct_card distinct_filter if_split_eq1 card.empty split: if_split) simp
  also have "length (filter (in_range a) (breakpoint_ranges s)) = (if covered a s then 1 else 0)"
    using separated_once [OF r(1)] r(2) by (simp add: covered_def)
  finally show ?thesis using w by (simp add: code_hook_calls_def)
qed

lemma foldl_addresses:
  "map_of (foldl (\<lambda>m ((begin, len, _), t). if len = 1 then AList.update begin t m else m) m bps) a =
     (case map_of (foldl (\<lambda>m ((begin, len, _), t). if len = 1 then AList.update begin t m else m) [] bps) a of
        None \<Rightarrow> map_of m a | Some t \<Rightarrow> Some t)"
proof (induction bps arbitrary: m rule: rev_induct)
  case (snoc x bps)
  obtain b len k t where x: "x = ((b, len, k), t)" by (metis surj_pair)
  show ?case using snoc.IH [of m] by (simp add: x update_conv' split: option.split)
qed simp

lemma address_index:
  "(\<forall>t. map_of (gs_exec_addresses (index_breakpoints s)) a = Some t \<longrightarrow>
      (\<exists>k. ((a, 1, k), t) \<in> set (gs_exec_breakpoints s))) \<and>
   (map_of (gs_exec_addresses (index_breakpoints s)) a = None \<longrightarrow>
      (\<forall>k t. ((a, 1, k), t) \<notin> set (gs_exec_breakpoints s)))"
proof -
  define bps where "bps = gs_exec_breakpoints s"
  define g where "g = (\<lambda>m :: (int \<times> int) list. \<lambda>((begin, len, _ :: int), t :: int). if len = (1 :: int) then AList.update (begin :: int) t m else m)"
  have "(\<forall>t. map_of (foldl g [] bps) a = Some t \<longrightarrow> (\<exists>k. ((a, 1, k), t) \<in> set bps)) \<and>
      (map_of (foldl g [] bps) a = None \<longrightarrow> (\<forall>k t. ((a, 1, k), t) \<notin> set bps))"
  proof (induction bps rule: rev_induct)
    case (snoc x bps)
    obtain b len k t where x: "x = ((b, len, k), t)" by (metis surj_pair)
    show ?case
    proof (cases "len = 1 \<and> b = a")
      case True
      then show ?thesis by (auto simp: x g_def update_conv')
    next
      case False
      then have "map_of (foldl g [] (bps @ [x])) a = map_of (foldl g [] bps) a" by (auto simp: x g_def update_conv')
      then show ?thesis using snoc False by (auto simp: x)
    qed
  qed simp
  then show ?thesis by (simp add: index_breakpoints_def bps_def g_def)
qed

text \<open>The type that \<open>on_code\<close> finds for an address.\<close>

definition hit_type :: "int \<Rightarrow> 'e gdb \<Rightarrow> int option" where
  "hit_type a s = (case map_of (gs_exec_addresses s) a of
     Some t \<Rightarrow> Some t
   | None \<Rightarrow> map_option (\<lambda>(_, _, t). t) (find (\<lambda>(begin, sz, _). begin \<le> a \<and> a < begin + sz) (gs_exec_ranges s)))"

lemma hit_type_Some:
  assumes "gdb_wf s" "hit_type a s = Some t"
  shows "\<exists>p\<in>set (gs_exec_breakpoints s). in_point a (fst p) \<and> snd (snd (fst p)) = t"
proof -
  have ok: "index_ok s" "\<forall>p\<in>set (gs_exec_breakpoints s). snd p = snd (snd (fst p))"
    using assms(1) by (auto simp: gdb_wf_def points_ok_def)
  show ?thesis
  proof (cases "map_of (gs_exec_addresses s) a")
    case (Some t')
    then have "t' = t" using assms(2) by (simp add: hit_type_def)
    with Some have "map_of (gs_exec_addresses (index_breakpoints s)) a = Some t" using ok(1) by (simp add: index_ok_def)
    then obtain k where k: "((a, 1, k), t) \<in> set (gs_exec_breakpoints s)" using address_index by blast
    then have "k = t" using ok(2) by fastforce
    then show ?thesis using k by (force simp: in_point_def)
  next
    case None
    then obtain b sz where "find (\<lambda>(begin, sz, _). begin \<le> a \<and> a < begin + sz) (gs_exec_ranges s) = Some (b, sz, t)"
      using assms(2) by (auto simp: hit_type_def)
    then have f: "b \<le> a" "a < b + sz" "(b, sz, t) \<in> set (gs_exec_ranges s)" by (auto dest: find_SomeD)
    then obtain k where k: "((b, sz, k), t) \<in> set (gs_exec_breakpoints s)"
      using ok(1) by (auto simp: index_ok_def index_breakpoints_def split: if_splits)
    then have "k = t" using ok(2) by fastforce
    then show ?thesis using k f by (force simp: in_point_def)
  qed
qed

lemma hit_type_None:
  assumes "gdb_wf s" "hit_type a s = None"
  shows "\<not> covered a s"
proof
  assume "covered a s"
  then obtain b sz k t where p: "((b, sz, k), t) \<in> set (gs_exec_breakpoints s)" "b \<le> a" "a < b + sz"
    by (auto simp: covered_def in_point_def)
  have ok: "index_ok s" using assms(1) by (auto simp: gdb_wf_def)
  have none: "map_of (gs_exec_addresses s) a = None"
      "find (\<lambda>(begin, sz, _). begin \<le> a \<and> a < begin + sz) (gs_exec_ranges s) = None"
    using assms(2) by (auto simp: hit_type_def split: option.splits)
  show False
  proof (cases "sz = 1")
    case True
    then have "b = a" using p by simp
    then show False using p(1) True none(1) address_index [of s a] ok by (auto simp: index_ok_def)
  next
    case False
    then have "(b, sz, t) \<in> set (gs_exec_ranges s)"
      using p ok by (force simp: index_ok_def index_breakpoints_def)
    then show False using none(2) p(2,3) by (auto simp: find_None_iff_all)
  qed
qed

lemma on_code_hit:
  assumes "\<not> gs_stop_pending s" "gs_resume_pc s \<noteq> Some a"
  shows "on_code a s = (case hit_type a s of None \<Rightarrow> s | Some t \<Rightarrow> request_stop \<lparr>sr_signal = 5,
      sr_kind = (if t = 0 then ''swbreak'' else ''hwbreak''), sr_address = Some a\<rparr> s)"
  using assms by (simp add: on_code_def hit_type_def Let_def)

subsection \<open>Stops of a run\<close>

definition run_events :: "gdb_event list \<Rightarrow> 'e gdb \<Rightarrow> 'e gdb" where
  "run_events evs s = foldl (\<lambda>s ev. on_event ev s) s evs"

lemma run_events_simps [simp]:
  "run_events [] s = s" "run_events (ev # evs) s = run_events evs (on_event ev s)"
  by (simp_all add: run_events_def)

lemma pending_kept:
  assumes "gs_stop_pending s" "gs_running s"
  shows "gs_stop_pending (on_event ev s) \<and> gs_running (on_event ev s) \<and> gs_stop_reason (on_event ev s) = gs_stop_reason s \<and>
    gs_engine_stops s \<le> gs_engine_stops (on_event ev s)"
  using assms
  by (cases ev) (auto simp: on_code_def stop_engine_def request_stop_def on_read_def on_write_def on_module_change_def
      interrupt_def Let_def split: option.split)

lemma pending_run:
  assumes "gs_stop_pending s" "gs_running s"
  shows "gs_stop_pending (run_events evs s) \<and> gs_running (run_events evs s) \<and>
    gs_stop_reason (run_events evs s) = gs_stop_reason s \<and> gs_engine_stops s \<le> gs_engine_stops (run_events evs s)"
  using assms
proof (induction evs arbitrary: s)
  case (Cons ev evs)
  note k = pending_kept [OF Cons.prems, of ev]
  note r = Cons.IH [OF conjunct1 [OF k] conjunct1 [OF conjunct2 [OF k]]]
  show ?case unfolding run_events_simps using k r by (metis order_trans)
qed simp

text \<open>In a run that began with \<open>n\<close> stops of the engine, a pending stop that is no watch has stopped it.\<close>

definition run_ok :: "nat \<Rightarrow> 'e gdb \<Rightarrow> bool" where
  "run_ok n s \<longleftrightarrow> gs_running s \<and> n \<le> gs_engine_stops s \<and>
     (gs_stop_pending s \<and> \<not> is_watch (sr_kind (gs_stop_reason s)) \<longrightarrow> n < gs_engine_stops s)"

lemma request_stop_ok: "run_ok n s \<Longrightarrow> run_ok n (request_stop r s)"
  by (auto simp: run_ok_def request_stop_def stop_engine_def Let_def)

lemma run_ok_put: "run_ok n s \<Longrightarrow> run_ok n (s\<lparr>gs_library_list_changed := b\<rparr>)" "run_ok n s \<Longrightarrow> run_ok n (s\<lparr>gs_resume_pc := z\<rparr>)"
  "run_ok n s \<Longrightarrow> run_ok n (stop_engine s)" "run_ok n s \<Longrightarrow> gs_running s"
  by (auto simp: run_ok_def stop_engine_def)

lemma run_ok_event:
  assumes "run_ok n s"
  shows "run_ok n (on_event ev s)"
proof (cases ev)
  case (EvCode a)
  then show ?thesis
    using assms request_stop_ok [OF assms] run_ok_put [OF assms] by (simp add: on_code_def Let_def split: option.split)
next
  case (EvModule)
  then show ?thesis using request_stop_ok [OF run_ok_put(1) [OF assms]] by (simp add: on_module_change_def)
qed (use assms request_stop_ok [OF assms] run_ok_put [OF assms] in
    \<open>simp_all add: on_read_def on_write_def interrupt_def split: option.split\<close>)

lemma run_ok_events: "run_ok n s \<Longrightarrow> run_ok n (run_events evs s)"
  by (induction evs arbitrary: s) (simp_all add: run_ok_event)

lemma run_ok_code:
  assumes "run_ok n s" "gs_stop_pending s"
  shows "n < gs_engine_stops (on_code a s)"
proof (cases "is_watch (sr_kind (gs_stop_reason s))")
  case True
  then show ?thesis using assms by (simp add: on_code_def run_ok_def stop_engine_def)
next
  case False
  then have "n < gs_engine_stops s" using assms by (simp add: run_ok_def)
  then show ?thesis using pending_kept [of s "EvCode a"] assms by (simp add: run_ok_def)
qed

lemma begin_run_ok:
  assumes "begin_run api s = (True, s')"
  shows "\<not> gs_stop_pending s \<and> \<not> gs_stop_pending s' \<and> run_ok (gs_engine_stops s) s' \<and> gs_stop_reason s' = stop_default"
  using assms by (auto simp: begin_run_def Let_def run_ok_def refresh_hooks_points split: if_splits)

subsection \<open>Watchpoints\<close>

lemma find_watchpoint_Some:
  assumes "find_watchpoint wps address n = Some w" "0 < n" "\<forall>p\<in>set wps. 0 < snd (fst p)"
  shows "\<exists>p\<in>set wps. fst (fst p) \<le> w \<and> w < fst (fst p) + snd (fst p) \<and> address \<le> w \<and> w < address + n"
proof -
  obtain b len t where f: "find (\<lambda>((begin, len), _). begin < address + n \<and> address < begin + len) wps = Some ((b, len), t)"
      "w = max address b"
    using assms(1) by (auto simp: find_watchpoint_def)
  have m: "((b, len), t) \<in> set wps" "b < address + n" "address < b + len"
    using find_SomeD [OF f(1)] by auto
  have "0 < len" using assms(3) m(1) by fastforce
  then show ?thesis using m f(2) assms(2) by (intro bexI [OF _ m(1)]) auto
qed

lemma find_watchpoint_None:
  "find_watchpoint wps address n = None \<longleftrightarrow>
    (\<forall>p\<in>set wps. \<not> (fst (fst p) < address + n \<and> address < fst (fst p) + snd (fst p)))"
  by (auto simp: find_watchpoint_def find_None_iff_all)

end
