(* ===== verification/Gdb_Properties.thy ===== *)
theory Gdb_Properties
  imports Gdb_Transport Gdb_Runs
begin

text \<open>The properties of the GDB server, with a concrete input for each that has hypotheses.\<close>

subsection \<open>Packets\<close>

lemma reader_end_fields:
  "gs_commands (reader_end s) = gs_commands s @ [None]" "gs_sent (reader_end s) = gs_sent s"
  by (simp_all add: reader_end_def request_stop_def stop_engine_def Let_def)

text \<open>C23: However the socket divides the packets of the client into chunks, the reader queues exactly their payloads in
  order, then the end of the connection, and acknowledges each packet once unless acknowledgements are off.\<close>
theorem packets_delivered:
  assumes "concat chunks = concat (map (\<lambda>d. rsp_packet (rsp_escape d)) ds)" "[] \<notin> set chunks"
    "\<forall>d\<in>set ds. length (rsp_escape d) \<le> PACKET_SIZE" "\<not> gs_broken s" "\<not> gs_closed s"
  shows "gs_commands (read_loop chunks [] s) = gs_commands s @ map Some ds @ [None] \<and>
    gs_sent (read_loop chunks [] s) = gs_sent s @ (if gs_no_ack s then [] else replicate (length ds) ''+'')"
proof -
  have "stuck ds []" by (cases ds) (simp_all add: stuck_def rsp_packet_def)
  from read_loop_stream [OF _ this assms(4,5,3,2)] assms(1) show ?thesis
    by (simp add: stream_def reader_end_fields delivered_def)
qed

theorem packets_delivered_witness:
  "gs_commands (read_loop [''$m1'', '',4#'', ''fe$}'', CHR 0x03 # ''#80''] [] (init_gdb ())) = map Some [''m1,4'', ''#''] @ [None] \<and>
   gs_sent (read_loop [''$m1'', '',4#'', ''fe$}'', CHR 0x03 # ''#80''] [] (init_gdb ())) = replicate 2 ''+''"
proof -
  have c: "concat [''$m1'', '',4#'', ''fe$}'', CHR 0x03 # ''#80''] = concat (map (\<lambda>d. rsp_packet (rsp_escape d)) [''m1,4'', ''#''])"
    by code_simp
  have l: "\<forall>d\<in>set [''m1,4'', ''#'']. length (rsp_escape d) \<le> PACKET_SIZE"
    by (simp add: PACKET_SIZE_def is_special_def)
  have b: "[] \<notin> set [''$m1'', '',4#'', ''fe$}'', CHR 0x03 # ''#80'']" by simp
  have i: "\<not> gs_broken (init_gdb ())" "\<not> gs_closed (init_gdb ())" "gs_commands (init_gdb ()) = []" "gs_sent (init_gdb ()) = []"
      "gs_no_ack (init_gdb ()) = False" "length [''m1,4'', ''#''] = 2"
    by (simp_all add: init_gdb_def)
  show ?thesis
    using packets_delivered [OF c b l i(1,2)] by (simp only: i append_Nil if_False simp_thms)
qed

text \<open>C38: A client that reads a document in parts, with any positive size of a part, gets the whole document after at most
  one request per byte and one more, and the reply to each request fits the packet size that the server announced.\<close>
theorem document_fetched:
  assumes "xfer_data api object_name annex s = Some d" "0 < requested" "CHR '':'' \<notin> set object_name" "CHR '':'' \<notin> set annex"
  shows "fetch (length d + 1) (\<lambda>offset. handle_xfer api (xfer_packet object_name annex offset requested) s) 0 = Some d \<and>
    (\<exists>part. handle_xfer api (xfer_packet object_name annex offset requested) s = Some part \<and>
       length (rsp_escape part) \<le> PACKET_SIZE)"
proof -
  have h: "handle_xfer api (xfer_packet object_name annex i requested) s = Some (xfer_chunk d i requested)" for i
    using handle_xfer_packet [OF assms(3,4,2), of api i s] assms(1) by simp
  have "2 * length (xfer_chunk d offset requested) \<le> PACKET_SIZE"
    using xfer_chunk_length [of d offset requested] by (simp add: PACKET_SIZE_def)
  then have "length (rsp_escape (xfer_chunk d offset requested)) \<le> PACKET_SIZE"
    using escape_length [of "xfer_chunk d offset requested"] by linarith
  then show ?thesis using fetch_document [OF assms(2), of 0 d "length d + 1"] by (simp add: h del: fetch.simps)
qed

text \<open>A target without modules, with one byte of memory as its state.\<close>

definition tiny_api :: "string emu_api" where
  "tiny_api = \<lparr>ea_amd64 = False, ea_get_pc = (\<lambda>_. 0), ea_set_pc = (\<lambda>_ e. (Inr (), e)),
     ea_mem_read = (\<lambda>a n e. if a = 0 \<and> n = int (length e) then Inr e else Inl UcError),
     ea_mem_write = (\<lambda>a d e. if a = 0 then (Inr (), d) else (Inl UcError, e)),
     ea_reg_read = (\<lambda>r e. (if e = [] then 0 else int (of_char (hd e) :: nat), 0)),
     ea_reg_write = (\<lambda>r v e. (Inr (), if r = ''EAX'' then [byte_char (of_int (fst v))] else e)),
     ea_modules = (\<lambda>_. []), ea_mem_regions = (\<lambda>_. []), ea_run_start = (\<lambda>_. None), ea_mod_from_addr = (\<lambda>_ _. None),
     ea_teb = (\<lambda>_. 0)\<rparr>"

theorem document_fetched_witness:
  "fetch (length threads_xml + 1) (\<lambda>offset. handle_xfer tiny_api (xfer_packet ''threads'' [] offset 9) (start_gdb [])) 0 =
     Some threads_xml"
  using document_fetched [of tiny_api "''threads''" "[]" "start_gdb []" threads_xml 9] by (simp add: xfer_data_def)

subsection \<open>Breakpoints and watchpoints\<close>

text \<open>C11: In every reachable state the hooks of the server run at most once for an instruction: once when a watchpoint is
  set or a breakpoint covers its address, and never otherwise.\<close>
theorem hooks_cover_breakpoints:
  assumes "gdb_reach api s"
  shows "code_hook_calls a s =
    (if gs_read_watchpoints s \<noteq> [] \<or> gs_write_watchpoints s \<noteq> [] \<or> gs_access_watchpoints s \<noteq> [] \<or>
        (\<exists>((begin, sz, t), v)\<in>set (gs_exec_breakpoints s). begin \<le> a \<and> a < begin + sz) then 1 else 0)"
proof -
  have "covered a s \<longleftrightarrow> (\<exists>((begin, sz, t), v)\<in>set (gs_exec_breakpoints s). begin \<le> a \<and> a < begin + sz)"
    by (force simp: covered_def in_point_def)
  then show ?thesis using wf_calls [OF reach_wf [OF assms], of a] by (simp add: watching_def)
qed

definition bp_example :: "string gdb" where
  "bp_example = snd (handle_command tiny_api ''Z1,12,3'' (snd (handle_command tiny_api ''Z0,10,2'' (start_gdb []))))"

lemma bp_example_reach: "gdb_reach tiny_api bp_example"
  unfolding bp_example_def by (intro gdb_reach.intros)

theorem hooks_cover_breakpoints_witness:
  "code_hook_calls 0x14 bp_example = (if gs_read_watchpoints bp_example \<noteq> [] \<or> gs_write_watchpoints bp_example \<noteq> [] \<or>
     gs_access_watchpoints bp_example \<noteq> [] \<or>
     (\<exists>((begin, sz, t), v)\<in>set (gs_exec_breakpoints bp_example). begin \<le> 0x14 \<and> 0x14 < begin + sz) then 1 else 0)"
  by (rule hooks_cover_breakpoints [OF bp_example_reach])

text \<open>C28: An instruction of a run stops it exactly when a breakpoint covers its address: the reason names the address and
  the type of a breakpoint that covers it, and without one the state of the server does not change.\<close>
theorem breakpoint_stops:
  assumes "gdb_reach api s" "gs_running s" "\<not> gs_stop_pending s" "gs_resume_pc s \<noteq> Some a"
  shows "if \<exists>((begin, sz, t), v)\<in>set (gs_exec_breakpoints s). begin \<le> a \<and> a < begin + sz
    then gs_stop_pending (execute a s) \<and> gs_engine_stops (execute a s) = gs_engine_stops s + 1 \<and>
      (\<exists>((begin, sz, t), v)\<in>set (gs_exec_breakpoints s). begin \<le> a \<and> a < begin + sz \<and>
        gs_stop_reason (execute a s) =
          \<lparr>sr_signal = 5, sr_kind = (if t = 0 then ''swbreak'' else ''hwbreak''), sr_address = Some a\<rparr>)
    else execute a s = s"
proof -
  note w = reach_wf [OF assms(1)]
  have cov: "covered a s \<longleftrightarrow> (\<exists>((begin, sz, t), v)\<in>set (gs_exec_breakpoints s). begin \<le> a \<and> a < begin + sz)"
    by (force simp: covered_def in_point_def)
  show ?thesis
  proof (cases "hit_type a s")
    case None
    then have "\<not> covered a s" by (rule hit_type_None [OF w])
    moreover have "on_code a s = s" using on_code_hit [OF assms(3,4)] None by simp
    ultimately show ?thesis using cov wf_calls [OF w] by (simp add: execute_def)
  next
    case (Some t)
    then obtain p where p: "p \<in> set (gs_exec_breakpoints s)" "in_point a (fst p)" "snd (snd (fst p)) = t"
      using hit_type_Some [OF w] by blast
    then have c: "covered a s" by (auto simp: covered_def)
    then have e: "execute a s = on_code a s" using wf_calls [OF w] by (simp add: execute_def)
    show ?thesis
      using c cov p assms(2,3) on_code_hit [OF assms(3,4)] Some
      by (auto simp: e in_point_def request_stop_def stop_engine_def is_watch_def intro!: bexI [OF _ p(1)])
  qed
qed

definition run_example :: "string gdb" where
  "run_example = snd (begin_run tiny_api bp_example)"

lemma run_example_reach: "gdb_reach tiny_api run_example"
  unfolding run_example_def by (intro gdb_reach.intros bp_example_reach)

theorem breakpoint_stops_witness:
  "if \<exists>((begin, sz, t), v)\<in>set (gs_exec_breakpoints run_example). begin \<le> 0x14 \<and> 0x14 < begin + sz
    then gs_stop_pending (execute 0x14 run_example) \<and>
      gs_engine_stops (execute 0x14 run_example) = gs_engine_stops run_example + 1 \<and>
      (\<exists>((begin, sz, t), v)\<in>set (gs_exec_breakpoints run_example). begin \<le> 0x14 \<and> 0x14 < begin + sz \<and>
        gs_stop_reason (execute 0x14 run_example) =
          \<lparr>sr_signal = 5, sr_kind = (if t = 0 then ''swbreak'' else ''hwbreak''), sr_address = Some 0x14\<rparr>)
    else execute 0x14 run_example = run_example"
proof -
  have "gs_running run_example" "\<not> gs_stop_pending run_example" "gs_resume_pc run_example \<noteq> Some 0x14" by code_simp+
  from breakpoint_stops [OF run_example_reach this] show ?thesis .
qed

text \<open>C30: A write of the target stops the run exactly when it overlaps a watchpoint of writes or accesses, and the address
  that the server reports lies in the watchpoint and in the write.\<close>
theorem watchpoint_stops:
  assumes "gdb_reach api s" "gs_running s" "\<not> gs_stop_pending s" "0 < n"
  shows "let wps = set (gs_access_watchpoints s) \<union> set (gs_write_watchpoints s);
      s' = (if gs_write_hook s then on_write a n s else s)
    in if \<exists>((begin, len), t)\<in>wps. begin < a + n \<and> a < begin + len
       then gs_stop_pending s' \<and> is_watch (sr_kind (gs_stop_reason s')) \<and>
         (\<exists>w. sr_address (gs_stop_reason s') = Some w \<and> a \<le> w \<and> w < a + n \<and>
            (\<exists>((begin, len), t)\<in>wps. begin \<le> w \<and> w < begin + len))
       else s' = s"
proof -
  note w = reach_wf [OF assms(1), unfolded gdb_wf_def points_ok_def hooks_ok_def]
  let ?A = "gs_access_watchpoints s" and ?W = "gs_write_watchpoints s"
  have pos: "\<forall>p\<in>set ?A. 0 < snd (fst p)" "\<forall>p\<in>set ?W. 0 < snd (fst p)" using w by auto
  have none: "find_watchpoint l a n = None \<longleftrightarrow> \<not> (\<exists>((begin, len), t)\<in>set l. begin < a + n \<and> a < begin + len)" for l
    by (force simp: find_watchpoint_None)
  have hook: "gs_write_hook s \<longleftrightarrow> ?W \<noteq> [] \<or> ?A \<noteq> []" using w by simp
  have hit: ?thesis
    if on: "on_write a n s = request_stop (watch_stop k x) s" "is_watch k"
      and p: "p \<in> set ?A \<union> set ?W" "fst (fst p) \<le> x" "x < fst (fst p) + snd (fst p)" "a \<le> x" "x < a + n" for k x p
  proof -
    obtain b len t where e: "p = ((b, len), t)" by (metis surj_pair)
    have o: "\<exists>((begin, len), t)\<in>set ?A \<union> set ?W. begin < a + n \<and> a < begin + len"
      "\<exists>((begin, len), t)\<in>set ?A \<union> set ?W. begin \<le> x \<and> x < begin + len"
      using p by (auto simp: e intro!: bexI [of _ p])
    have "gs_write_hook s" using hook p(1) by auto
    then show ?thesis
      unfolding Let_def using o on(2) p(4,5) assms(2,3)
      by (simp add: on(1) request_stop_def watch_stop_def)
  qed
  show ?thesis
  proof (cases "find_watchpoint ?A a n")
    case (Some x)
    obtain p where p: "p \<in> set ?A" "fst (fst p) \<le> x" "x < fst (fst p) + snd (fst p)" "a \<le> x" "x < a + n"
      using find_watchpoint_Some [OF Some assms(4) pos(1)] by blast
    have "on_write a n s = request_stop (watch_stop ''awatch'' x) s" by (simp add: on_write_def Some)
    from hit [OF this _ UnI1 [OF p(1)] p(2-5)] show ?thesis by (simp only: is_watch_def insert_iff simp_thms)
  next
    case N: None
    show ?thesis
    proof (cases "find_watchpoint ?W a n")
      case (Some x)
      obtain p where p: "p \<in> set ?W" "fst (fst p) \<le> x" "x < fst (fst p) + snd (fst p)" "a \<le> x" "x < a + n"
        using find_watchpoint_Some [OF Some assms(4) pos(2)] by blast
      have "on_write a n s = request_stop (watch_stop ''watch'' x) s" by (simp add: on_write_def Some N)
      from hit [OF this _ UnI2 [OF p(1)] p(2-5)] show ?thesis by (simp only: is_watch_def insert_iff simp_thms)
    next
      case None
      then show ?thesis using N none [of ?A] none [of ?W] by (simp add: on_write_def Let_def bex_Un)
    qed
  qed
qed

definition watch_example :: "string gdb" where
  "watch_example = snd (begin_run tiny_api (snd (handle_command tiny_api ''Z2,10,4'' (start_gdb []))))"

theorem watchpoint_stops_witness:
  "let wps = set (gs_access_watchpoints watch_example) \<union> set (gs_write_watchpoints watch_example);
      s' = (if gs_write_hook watch_example then on_write 0xE 8 watch_example else watch_example)
    in if \<exists>((begin, len), t)\<in>wps. begin < 0xE + 8 \<and> 0xE < begin + len
       then gs_stop_pending s' \<and> is_watch (sr_kind (gs_stop_reason s')) \<and>
         (\<exists>w. sr_address (gs_stop_reason s') = Some w \<and> 0xE \<le> w \<and> w < 0xE + 8 \<and>
            (\<exists>((begin, len), t)\<in>wps. begin \<le> w \<and> w < begin + len))
       else s' = watch_example"
proof -
  have r: "gdb_reach tiny_api watch_example" unfolding watch_example_def by (intro gdb_reach.intros)
  have "gs_running watch_example" "\<not> gs_stop_pending watch_example" by code_simp+
  from watchpoint_stops [OF r this, of 8 "0xE"] show ?thesis by (simp only: zero_less_numeral simp_thms)
qed

subsection \<open>Stops\<close>

text \<open>The first request of a stop in a run decides its reason, whatever hooks and interrupts come later; the engine has
  been stopped by the end of the hook of the next instruction; and a run without a request ends as a step or without a
  reason.\<close>
theorem first_stop_reported:
  assumes "begin_run api s = (True, s')"
  shows "(gs_stop_pending (run_events evs s') \<longrightarrow>
      fst (finish_run act (run_events later (run_events evs s'))) = Some (gs_stop_reason (run_events evs s')) \<and>
      gs_engine_stops s < gs_engine_stops (on_code a (run_events evs s'))) \<and>
    (\<not> gs_stop_pending (run_events evs s') \<longrightarrow>
      fst (finish_run act (run_events evs s')) =
        (if ra_step act then Some \<lparr>sr_signal = 5, sr_kind = ''step'', sr_address = None\<rparr> else None))"
proof -
  have ok: "run_ok (gs_engine_stops s) (run_events evs s')"
    using begin_run_ok [OF assms] by (intro run_ok_events) simp
  then have run: "gs_running (run_events evs s')" by (rule run_ok_put)
  show ?thesis
    using pending_run [OF _ run, of later] run_ok_code [OF ok, of a] by (auto simp: finish_run_def Let_def)
qed

theorem first_stop_reported_witness:
  "(let t = run_events [EvWrite 0xE 8, EvInterrupt] watch_example
    in (gs_stop_pending t \<longrightarrow>
        fst (finish_run (resume False) (run_events [EvModule] t)) = Some (gs_stop_reason t) \<and>
        gs_engine_stops (snd (handle_command tiny_api ''Z2,10,4'' (start_gdb []))) < gs_engine_stops (on_code 4 t)) \<and>
      (\<not> gs_stop_pending t \<longrightarrow>
        fst (finish_run (resume False) t) =
          (if ra_step (resume False) then Some \<lparr>sr_signal = 5, sr_kind = ''step'', sr_address = None\<rparr> else None)))"
proof -
  have "fst (begin_run tiny_api (snd (handle_command tiny_api ''Z2,10,4'' (start_gdb []))))" by code_simp
  then have "begin_run tiny_api (snd (handle_command tiny_api ''Z2,10,4'' (start_gdb []))) = (True, watch_example)"
    by (simp add: watch_example_def prod_eq_iff)
  from first_stop_reported [OF this] show ?thesis unfolding Let_def .
qed

lemma command_queue_running:
  assumes "command_queue api q s = (Some act, s')" "\<not> ra_detach act"  "\<not> ra_kill act"
  shows "gs_running s'"
  using assms
proof (induction q arbitrary: s)
  case Nil
  then show ?case by (auto simp: detach_def split: if_splits)
next
  case (Cons x q)
  then show ?case
    by (auto simp: detach_def split: if_splits option.splits sum.splits prod.splits)
qed

lemma interrupt_pending: "gs_running s \<Longrightarrow> gs_running (interrupt s) \<and> gs_stop_pending (interrupt s)"
  by (simp add: interrupt_def request_stop_def stop_engine_def Let_def interrupt_reason_def is_watch_def)

text \<open>A Ctrl-C that comes after the command that resumes and before the run is not lost: the run does not begin, and its
  end reports a stop.\<close>
theorem early_interrupt_kept:
  assumes "command_loop api reason s = (Some act, s')" "\<not> ra_detach act" "\<not> ra_kill act"
  shows "\<not> fst (begin_run api (interrupt s')) \<and>
    fst (finish_run act (snd (begin_run api (interrupt s')))) = Some (gs_stop_reason (interrupt s')) \<and>
    (\<not> gs_stop_pending s' \<longrightarrow> gs_stop_reason (interrupt s') = interrupt_reason)"
proof -
  have "gs_running s'"
    using assms command_queue_running
    by (auto simp: command_loop_def Let_def detach_def split: option.splits prod.splits sum.splits)
  then show ?thesis
    using interrupt_pending [of s']
    by (auto simp: begin_run_def finish_run_def Let_def interrupt_def request_stop_def stop_engine_def interrupt_reason_def
        is_watch_def)
qed

definition queue_example :: "string gdb" where
  "queue_example = (start_gdb [])\<lparr>gs_commands := [Some ''qC'', Some ''c'']\<rparr>"

theorem early_interrupt_kept_witness:
  "let s' = snd (command_loop tiny_api None queue_example)
   in \<not> fst (begin_run tiny_api (interrupt s')) \<and>
    fst (finish_run (resume False) (snd (begin_run tiny_api (interrupt s')))) = Some (gs_stop_reason (interrupt s')) \<and>
    (\<not> gs_stop_pending s' \<longrightarrow> gs_stop_reason (interrupt s') = interrupt_reason)"
proof -
  have "fst (command_loop tiny_api None queue_example) = Some (resume False)" by code_simp
  then have "command_loop tiny_api None queue_example = (Some (resume False), snd (command_loop tiny_api None queue_example))"
    by (simp add: prod_eq_iff)
  from early_interrupt_kept [OF this] show ?thesis by (simp add: resume_def Let_def)
qed

subsection \<open>Memory and registers\<close>

text \<open>The commands that write and read memory at an address.\<close>

definition memory_info :: "nat \<Rightarrow> nat \<Rightarrow> string" where
  "memory_info address n = hex_nat address @ '','' @ hex_nat n"

lemma address_size_info: "address_size (memory_info address n) s = (Inr (int address, int n), s)"
proof -
  have "split1 (CHR '','') (hex_nat address @ CHR '','' # hex_nat n) = Some (hex_nat address, hex_nat n)"
    by (rule split1_append) (simp add: hex_nat_not)
  then show ?thesis
    by (simp add: address_size_def memory_info_def sbind_def of_opt_def lift_result_def sret_def)
qed

lemma memory_info_colon: "CHR '':'' \<notin> set (memory_info address n)"
  using hex_nat_not [of "CHR '':''"] by (simp add: memory_info_def)

text \<open>When the memory of the target gives back what was written, then an \<open>M\<close> command that succeeded and an \<open>m\<close> command
  for the same range answer with \<open>OK\<close> and with the bytes that were written.\<close>
theorem memory_commands_roundtrip:
  assumes law: "\<forall>e e'. ea_mem_write api (int address) d e = (Inr (), e') \<longrightarrow>
      ea_mem_read api (int address) (int (length d)) e' = Inr d"
    and ok: "ea_mem_write api (int address) d (gs_emu s) = (Inr (), e)"
    and live: "\<not> gs_broken s" and len: "length d \<le> 0x8000"
  shows "let info = memory_info address (length d);
      (r1, s1) = handle_command api (''M'' @ info @ '':'' @ to_hex d) s;
      (r2, s2) = handle_command api (''m'' @ info) s1
    in r1 = Inr None \<and> r2 = Inr None \<and> gs_sent s2 = gs_sent s @ [rsp_packet ''OK'', rsp_packet (to_hex d)]"
proof -
  let ?i = "memory_info address (length d)"
  have sp: "split1 (CHR '':'') (?i @ CHR '':'' # to_hex d) = Some (?i, to_hex d)"
    by (rule split1_append [OF memory_info_colon])
  have rep: "\<exists>t'. reply p False t = (Inr (), t') \<and> gs_emu t' = gs_emu t \<and> \<not> gs_broken t' \<and> gs_sent t' = gs_sent t @ [rsp_packet p]"
    if "\<not> gs_broken t" for p and t :: "'a gdb"
    using that by (simp add: reply_def reply_raw_def send_raw_def Let_def)
  obtain s1 where s1: "reply ''OK'' False (s\<lparr>gs_emu := e\<rparr>) = (Inr (), s1)" "gs_emu s1 = e" "\<not> gs_broken s1"
      "gs_sent s1 = gs_sent s @ [rsp_packet ''OK'']"
    using rep [of "s\<lparr>gs_emu := e\<rparr>" "''OK''"] live by auto
  have "write_memory_hex api (?i @ CHR '':'' # to_hex d) s = (Inr (), s1)"
    using ok
    by (simp add: write_memory_hex_def reply_error_def sbind_def of_opt_def sp address_size_info write_memory_def s1)
  then have one: "handle_command api (''M'' @ ?i @ '':'' @ to_hex d) s = (Inr None, s1)"
    by (simp add: handle_command_def no_action_def sbind_def sret_def starts_with_def)
  have rd: "ea_mem_read api (int address) (int (length d)) e = Inr d" using law ok by blast
  obtain s2 where s2: "reply (to_hex d) False s1 = (Inr (), s2)"
      "gs_sent s2 = gs_sent s1 @ [rsp_packet (to_hex d)]"
    using rep [OF s1(3), of "to_hex d"] by auto
  have "read_memory api ?i s1 = (Inr (), s2)"
    using rd s1 s2 len
    by (simp add: read_memory_def reply_error_def sbind_def address_size_info lift_result_def PACKET_SIZE_def)
  then have two: "handle_command api (''m'' @ ?i) s1 = (Inr None, s2)"
    by (simp add: handle_command_def no_action_def sbind_def sret_def starts_with_def)
  show ?thesis unfolding Let_def one prod.case two using s1 s2 by simp
qed

theorem memory_commands_roundtrip_witness:
  "let info = memory_info 0 (length ''ab'');
      (r1, s1) = handle_command tiny_api (''M'' @ info @ '':'' @ to_hex ''ab'') (start_gdb []);
      (r2, s2) = handle_command tiny_api (''m'' @ info) s1
    in r1 = Inr None \<and> r2 = Inr None \<and> gs_sent s2 = gs_sent (start_gdb ([] :: string)) @ [rsp_packet ''OK'', rsp_packet (to_hex ''ab'')]"
proof -
  have b: "\<not> gs_broken (start_gdb ([] :: string))" by (simp add: start_gdb_def refresh_hooks_def init_gdb_def Let_def)
  have l: "\<forall>e e'. ea_mem_write tiny_api (int 0) ''ab'' e = (Inr (), e') \<longrightarrow>
      ea_mem_read tiny_api (int 0) (int (length ''ab'')) e' = Inr ''ab''"
    by (simp add: tiny_api_def)
  have w: "ea_mem_write tiny_api (int 0) ''ab'' (gs_emu (start_gdb [])) = (Inr (), ''ab'')" by (simp add: tiny_api_def)
  have n: "length ''ab'' \<le> 0x8000" by simp
  from memory_commands_roundtrip [OF l w b n] show ?thesis .
qed

text \<open>A \<open>G\<close> command with too little data answers with an error after it has changed the first register.\<close>
theorem short_write_changes_registers:
  "let (r, s) = handle_command tiny_api ''G41000000'' (start_gdb [])
   in r = Inr None \<and> gs_sent s = [rsp_packet ''E01''] \<and> gs_emu s = ''A''"
  by code_simp

end
