(* ===== verification/Kernel_Objects.thy ===== *)
theory Kernel_Objects
  imports Handles
begin

text \<open>
  The object manager of \<^verbatim>\<open>speakeasy/windows/objman.py\<close>: the registration of kernel objects, their
  reference counts, the lookups by address, id, name and symbolic link, and the handle tables of the processes
  with their pseudo handles (\<^verbatim>\<open>winemu.py\<close>). Objects live in a heap indexed by identity; their
  guest structs are not modelled.
\<close>

subsection \<open>State\<close>

record kobject =
  ko_address :: "int option"
  ko_name :: string
  ko_ref_cnt :: int
  ko_id :: int

record kernel_world =
  kw_heap :: "nat \<Rightarrow> kobject"
  kw_objects :: "(int option \<times> nat) list"
  kw_symlinks :: "(string \<times> string) list"
  kw_process :: "nat option"
  kw_thread :: "nat option"

text \<open>\<open>KernelObject.__init__\<close>, with the address and the name the subclass sets.\<close>

definition new_kobject :: "int option \<Rightarrow> string \<Rightarrow> allocator \<Rightarrow> kobject \<times> allocator" where
  "new_kobject address name al =
     (let (i, al') = allocate_kernel_object_id al
      in (\<lparr>ko_address = address, ko_name = name, ko_ref_cnt = 0, ko_id = i\<rparr>, al'))"

definition add_ref :: "int \<Rightarrow> nat \<Rightarrow> kernel_world \<Rightarrow> kernel_world" where
  "add_ref d oid w =
     w\<lparr>kw_heap := (kw_heap w)(oid := (kw_heap w oid)\<lparr>ko_ref_cnt := ko_ref_cnt (kw_heap w oid) + d\<rparr>)\<rparr>"

subsection \<open>Registration\<close>

definition get_object_from_addr :: "int option \<Rightarrow> kernel_world \<Rightarrow> nat option" where
  "get_object_from_addr addr w = map_of (kw_objects w) addr"

definition add_object :: "nat \<Rightarrow> allocator \<times> kernel_world \<Rightarrow> allocator \<times> kernel_world" where
  "add_object oid = (\<lambda>(al, w).
     let addr = ko_address (kw_heap w oid);
         w1 = (if get_object_from_addr addr w = None then w\<lparr>kw_objects := kw_objects w @ [(addr, oid)]\<rparr> else w);
         (al2, w2) = (if ko_id (kw_heap w1 oid) = 0
           then (let (i, al') = allocate_kernel_object_id al
                 in (al', w1\<lparr>kw_heap := (kw_heap w1)(oid := (kw_heap w1 oid)\<lparr>ko_id := i\<rparr>)\<rparr>))
           else (al, w1))
     in (al2, add_ref 1 oid w2))"

text \<open>\<open>if addr\<close> also skips the address 0 and the address \<open>None\<close>.\<close>

definition remove_object :: "nat \<Rightarrow> kernel_world \<Rightarrow> kernel_world" where
  "remove_object oid w =
     (case find (\<lambda>(a, o'). o' = oid) (kw_objects w) of
        Some (Some addr, _) \<Rightarrow>
          (if addr \<noteq> 0 then w\<lparr>kw_objects := filter (\<lambda>(a, _). a \<noteq> Some addr) (kw_objects w)\<rparr> else w)
      | _ \<Rightarrow> w)"

definition dec_ref :: "nat \<Rightarrow> kernel_world \<Rightarrow> kernel_world" where
  "dec_ref oid w =
     (let w1 = add_ref (-1) oid w
      in if ko_ref_cnt (kw_heap w1 oid) \<le> 0 then remove_object oid w1 else w1)"

subsection \<open>Lookups\<close>

definition get_object_from_id :: "int \<Rightarrow> kernel_world \<Rightarrow> nat option" where
  "get_object_from_id i w = find (\<lambda>o'. ko_id (kw_heap w o') = i) (map snd (kw_objects w))"

definition name_scan :: "string \<Rightarrow> kernel_world \<Rightarrow> nat option" where
  "name_scan name w =
     find (\<lambda>o'. ko_name (kw_heap w o') \<noteq> [] \<and> lower (ko_name (kw_heap w o')) = lower name) (map snd (kw_objects w))"

function get_object_from_name :: "string \<Rightarrow> bool \<Rightarrow> kernel_world \<Rightarrow> nat option" where
  "get_object_from_name name False w =
     (if name = [] then None else name_scan (rstrip backslash name) w)"
| "get_object_from_name name True w =
     (if name = [] then None
      else (let name = rstrip backslash name
            in case name_scan name w of
                 Some o' \<Rightarrow> Some o'
               | None \<Rightarrow>
                   (let m = map snd (filter (\<lambda>sl. lower name = lower (fst sl)) (kw_symlinks w));
                        name = (case m of [] \<Rightarrow> name | n # _ \<Rightarrow> n)
                    in get_object_from_name name False w)))"
  by pat_completeness auto
termination
  by (relation "measure (\<lambda>(_, check, _). if check then 1 else 0)") auto

definition add_symlink :: "string \<Rightarrow> string \<Rightarrow> kernel_world \<Rightarrow> kernel_world" where
  "add_symlink link dev w = w\<lparr>kw_symlinks := kw_symlinks w @ [(link, dev)]\<rparr>"

subsection \<open>The process handle tables\<close>

definition get_pseudo_handle_object :: "int \<Rightarrow> kernel_world \<Rightarrow> nat option" where
  "get_pseudo_handle_object handle w =
     (let handle = handle AND HANDLE_MASK
      in if handle = CURRENT_PROCESS_HANDLE then kw_process w
         else if handle = CURRENT_THREAD_HANDLE then kw_thread w else None)"

definition kernel_callbacks :: "(nat, kernel_world) handle_callbacks" where
  "kernel_callbacks =
     \<lparr>hc_retain = add_ref 1, hc_release = dec_ref, hc_pseudo = get_pseudo_handle_object\<rparr>"

text \<open>\<open>get_handle_table\<close>: table 0 is that of the emulator, table \<open>Suc p\<close> that of the process \<open>p\<close>.\<close>

definition get_handle_table :: "kernel_world \<Rightarrow> nat" where
  "get_handle_table w = (case kw_process w of Some p \<Rightarrow> Suc p | None \<Rightarrow> 0)"

definition om_new_handle ::
  "nat \<Rightarrow> (nat, kernel_world) handle_world \<Rightarrow> int \<times> (nat, kernel_world) handle_world" where
  "om_new_handle oid s = open_in kernel_callbacks (get_handle_table (hw_world s)) oid s"

definition get_object_from_handle :: "int \<Rightarrow> (nat, kernel_world) handle_world \<Rightarrow> nat option" where
  "get_object_from_handle h s =
     ht_get kernel_callbacks (\<lambda>_. True) h (hw_tables s (get_handle_table (hw_world s))) (hw_world s)"

lemma kernel_pseudo_ok [simp]: "pseudo_ok kernel_callbacks"
  by (auto simp: pseudo_ok_def kernel_callbacks_def get_pseudo_handle_object_def Let_def
      CURRENT_PROCESS_HANDLE_def CURRENT_THREAD_HANDLE_def split: if_splits)

subsection \<open>Reference counts\<close>

abbreviation ref_cnt :: "kernel_world \<Rightarrow> nat \<Rightarrow> int" where
  "ref_cnt w oid \<equiv> ko_ref_cnt (kw_heap w oid)"

definition open_handles :: "('o, 'w) handle_world \<Rightarrow> 'o \<Rightarrow> (nat \<times> int) set" where
  "open_handles s x = {(t, h). hw_tables s t h = Some x}"

lemma ref_cnt_add_ref [simp]: "ref_cnt (add_ref d oid w) x = (if x = oid then ref_cnt w x + d else ref_cnt w x)"
  by (simp add: add_ref_def)

lemma remove_object_heap [simp]: "kw_heap (remove_object oid w) = kw_heap w"
  by (simp add: remove_object_def split: option.splits prod.splits)

lemma ref_cnt_dec_ref [simp]: "ref_cnt (dec_ref oid w) x = (if x = oid then ref_cnt w x - 1 else ref_cnt w x)"
  by (simp add: dec_ref_def Let_def)

lemma objects_add_ref [simp]: "kw_objects (add_ref d oid w) = kw_objects w"
  by (simp add: add_ref_def)

lemma dec_ref_objects: "1 < ref_cnt w oid \<Longrightarrow> kw_objects (dec_ref oid w) = kw_objects w"
  by (simp add: dec_ref_def)

lemma remove_object_keeps:
  assumes "distinct (map fst (kw_objects w))" "(a, y) \<in> set (kw_objects w)" "y \<noteq> x"
  shows "(a, y) \<in> set (kw_objects (remove_object x w))"
proof (cases "find (\<lambda>(a, o'). o' = x) (kw_objects w)")
  case (Some ao)
  then have "(fst ao, x) \<in> set (kw_objects w)" using find_SomeD by fastforce
  then have "a \<noteq> fst ao" using assms eq_key_imp_eq_value by metis
  then show ?thesis
    using assms Some by (auto simp: remove_object_def split: option.splits prod.splits)
qed (use assms in \<open>simp add: remove_object_def\<close>)

lemma remove_object_gone:
  assumes "distinct (map snd (kw_objects w))" "(Some a, x) \<in> set (kw_objects w)" "a \<noteq> 0"
  shows "x \<notin> snd ` set (kw_objects (remove_object x w))"
proof -
  have u: "b = Some a" if "(b, x) \<in> set (kw_objects w)" for b
    using inj_onD [of snd "set (kw_objects w)" "(b, x)" "(Some a, x)"] assms(1,2) that
    by (simp add: distinct_map)
  have "find (\<lambda>(a, o'). o' = x) (kw_objects w) = Some (Some a, x)"
    using assms(2) by (intro find_eq_SomeI) (auto dest: u)
  then show ?thesis
    using assms(3) by (auto simp: remove_object_def dest: u)
qed

lemma remove_object_sublist: "\<exists>P. kw_objects (remove_object x w) = filter P (kw_objects w)"
  by (auto simp: remove_object_def split: option.splits prod.splits intro: exI [of _ "\<lambda>_. True"])

lemma distinct_dec_ref:
  assumes "distinct (map fst (kw_objects w))"
  shows "distinct (map fst (kw_objects (dec_ref x w)))"
proof -
  obtain P where "kw_objects (remove_object x (add_ref (-1) x w)) = filter P (kw_objects w)"
    using remove_object_sublist [of x "add_ref (-1) x w"] by auto
  then show ?thesis using assms by (simp add: dec_ref_def Let_def distinct_map_filter)
qed

lemma dec_ref_keeps:
  assumes "distinct (map fst (kw_objects w))" "(a, y) \<in> set (kw_objects w)"
    and "y = x \<Longrightarrow> 1 < ref_cnt w y"
  shows "(a, y) \<in> set (kw_objects (dec_ref x w))"
  using assms remove_object_keeps [of "add_ref (-1) x w" a y x]
  by (cases "y = x") (auto simp: dec_ref_def Let_def)

text \<open>What every run of handle operations keeps: the counts match the open handles on top of a base count.\<close>

definition refs_ok :: "(nat \<Rightarrow> int) \<Rightarrow> (nat, kernel_world) handle_world \<Rightarrow> bool" where
  "refs_ok base s \<longleftrightarrow> handles_wf kernel_callbacks s \<and>
     distinct (map fst (kw_objects (hw_world s))) \<and>
     (\<forall>x. finite (open_handles s x) \<and> ref_cnt (hw_world s) x = base x + int (card (open_handles s x)))"

lemma refs_ok_open:
  assumes "refs_ok base s" "0 < handle_room s" "open_in kernel_callbacks t x s = (h, s')"
  shows "refs_ok base s' \<and> kw_objects (hw_world s') = kw_objects (hw_world s)"
proof -
  have wf: "handles_wf kernel_callbacks s" using assms(1) by (simp add: refs_ok_def)
  note law = open_in_law [OF wf assms(2,3)]
  have none: "hw_tables s t' h = None" for t'
    using law handles_wfD(2) [OF wf, of t' h] by (cases "hw_tables s t' h") auto
  have w: "hw_world s' = add_ref 1 x (hw_world s)"
    using assms(3) unfolding open_in_eq [OF wf] by (auto simp: kernel_callbacks_def)
  have oh: "open_handles s' y = (if y = x then insert (t, h) (open_handles s y) else open_handles s y)" for y
    using law none by (auto simp: open_handles_def split: if_splits)
  have "(t, h) \<notin> open_handles s y" for y by (simp add: open_handles_def none)
  then show ?thesis
    using assms(1) law by (simp add: refs_ok_def oh w)
qed

lemma refs_ok_close:
  assumes "refs_ok base s" "close_in kernel_callbacks t h s = (b, s')" "\<forall>x. 0 \<le> base x"
  shows "refs_ok base s' \<and> (\<forall>a x. (a, x) \<in> set (kw_objects (hw_world s)) \<longrightarrow> 0 < base x \<longrightarrow>
    (a, x) \<in> set (kw_objects (hw_world s')))"
proof -
  have wf: "handles_wf kernel_callbacks s" using assms(1) by (simp add: refs_ok_def)
  note law = close_in_law [OF wf assms(2)]
  show ?thesis
  proof (cases "hc_pseudo kernel_callbacks h (hw_world s) \<noteq> None \<or> hw_tables s t (h AND HANDLE_MASK) = None")
    case True
    then have "s' = s" using assms(2) by (auto simp: close_in_eq split: if_splits)
    then show ?thesis using assms(1) by simp
  next
    case False
    then obtain x where x: "hw_tables s t (h AND HANDLE_MASK) = Some x" by auto
    then have w: "hw_world s' = dec_ref x (hw_world s)"
      using assms(2) False by (auto simp: close_in_eq kernel_callbacks_def)
    have oh: "open_handles s' y =
        (if y = x then open_handles s y - {(t, h AND HANDLE_MASK)} else open_handles s y)" for y
      using law x by (auto simp: open_handles_def split: if_splits)
    have mem: "(t, h AND HANDLE_MASK) \<in> open_handles s x" by (simp add: open_handles_def x)
    then have pos: "0 < card (open_handles s x)"
      using assms(1) by (auto simp: refs_ok_def card_gt_0_iff)
    have dist: "distinct (map fst (kw_objects (hw_world s)))" using assms(1) by (simp add: refs_ok_def)
    then have "distinct (map fst (kw_objects (hw_world s')))"
      by (simp add: w distinct_dec_ref)
    then have refs: "refs_ok base s'"
      using assms(1) law mem pos by (auto simp: refs_ok_def oh w card_Diff_singleton of_nat_diff)
    have keep: "(a, y) \<in> set (kw_objects (dec_ref x (hw_world s)))"
      if y: "(a, y) \<in> set (kw_objects (hw_world s))" "0 < base y" for a y
    proof (rule dec_ref_keeps [OF dist y(1)])
      show "y = x \<Longrightarrow> 1 < ref_cnt (hw_world s) y"
        using assms(1) pos y(2) by (auto simp: refs_ok_def)
    qed
    show ?thesis using refs keep by (simp add: w)
  qed
qed

lemma handle_run_refs:
  assumes "\<forall>x. 0 \<le> base x"
  shows "refs_ok base s \<Longrightarrow> length ops \<le> handle_room s \<Longrightarrow>
    handle_run (open_in kernel_callbacks) (close_in kernel_callbacks) ops s es = (es', s') \<Longrightarrow>
    refs_ok base s' \<and> (\<forall>a x. (a, x) \<in> set (kw_objects (hw_world s)) \<longrightarrow> 0 < base x \<longrightarrow>
      (a, x) \<in> set (kw_objects (hw_world s')))"
proof (induction ops arbitrary: s es)
  case (Cons op ops)
  have wf: "handles_wf kernel_callbacks s" using Cons.prems(1) by (simp add: refs_ok_def)
  show ?case
  proof (cases op)
    case (OpenOp t x)
    obtain h s1 where o: "open_in kernel_callbacks t x s = (h, s1)" by fastforce
    have r: "0 < handle_room s" using Cons.prems(2) by simp
    note step = refs_ok_open [OF Cons.prems(1) r o] and law = open_in_law [OF wf r o]
    show ?thesis
      using Cons.IH [of s1 "Opened t h x # es"] step law Cons.prems(2,3) by (simp add: OpenOp o)
  next
    case (CloseOp t h)
    obtain b s1 where c: "close_in kernel_callbacks t h s = (b, s1)" by fastforce
    note step = refs_ok_close [OF Cons.prems(1) c assms] and law = close_in_law [OF wf c]
    show ?thesis
      using Cons.IH [of s1 "Closed t h # es"] step law Cons.prems(2,3) by (simp add: CloseOp c)
  qed
qed simp

text \<open>C16: in every run of opens and closes over the handle tables of all processes, the reference count of each object is
  the count it had before plus the number of handles that are open to it, and an object that the object manager
  itself references stays registered under its address whatever handles the guest closes.\<close>

theorem reference_counts:
  assumes "length ops \<le> 2 ^ 30 - 32" and "distinct (map fst (kw_objects w))" and "\<forall>x. 0 \<le> ref_cnt w x"
    and "handle_run (open_in kernel_callbacks) (close_in kernel_callbacks) ops (init_handles w) [] = (es, s)"
  shows "(\<forall>x. ref_cnt (hw_world s) x = ref_cnt w x + int (card (open_handles s x))) \<and>
    (\<forall>a x. (a, x) \<in> set (kw_objects w) \<and> 0 < ref_cnt w x \<longrightarrow> get_object_from_addr a (hw_world s) = Some x)"
proof -
  have "refs_ok (ref_cnt w) (init_handles w)"
    using assms(2) by (simp add: refs_ok_def init_handles_wf open_handles_def) (simp add: init_handles_def)
  from handle_run_refs [OF assms(3) this _ assms(4)] assms(1)
  have r: "refs_ok (ref_cnt w) s" "\<forall>a x. (a, x) \<in> set (kw_objects w) \<longrightarrow> 0 < ref_cnt w x \<longrightarrow>
      (a, x) \<in> set (kw_objects (hw_world s))"
    by (simp_all add: init_room) (simp add: init_handles_def)
  then show ?thesis
    by (auto simp: refs_ok_def get_object_from_addr_def)
qed

definition two_objects :: kernel_world where
  "two_objects = snd (add_object 1 (snd (new_kobject None [] init_allocator),
     snd (add_object 0 (init_allocator,
       \<lparr>kw_heap = (\<lambda>_. \<lparr>ko_address = Some 0x5000, ko_name = ''evt'', ko_ref_cnt = 0, ko_id = 0\<rparr>),
        kw_objects = [], kw_symlinks = [], kw_process = Some 5, kw_thread = None\<rparr>))))"

theorem reference_counts_witness:
  "\<exists>es s. handle_run (open_in kernel_callbacks) (close_in kernel_callbacks)
       [OpenOp 0 0, OpenOp 6 0, CloseOp 0 0x80, CloseOp 6 (-1)] (init_handles two_objects) [] = (es, s) \<and>
     ref_cnt (hw_world s) 0 = 1 + int (card (open_handles s 0)) \<and>
     get_object_from_addr (Some 0x5000) (hw_world s) = Some 0"
proof -
  obtain es s where r: "handle_run (open_in kernel_callbacks) (close_in kernel_callbacks)
      [OpenOp 0 0, OpenOp 6 0, CloseOp 0 0x80, CloseOp 6 (-1)] (init_handles two_objects) [] = (es, s)"
    by fastforce
  have o: "kw_objects two_objects = [(Some 0x5000, 0)]" "ref_cnt two_objects 0 = 1" "\<forall>x. 0 \<le> ref_cnt two_objects x"
    by (auto simp: two_objects_def add_object_def get_object_from_addr_def allocate_kernel_object_id_def
        add_ref_def new_kobject_def init_allocator_def Let_def)
  have "length [OpenOp 0 0, OpenOp 6 0, CloseOp 0 0x80, CloseOp 6 (-1)] \<le> 2 ^ 30 - 32" by simp
  from reference_counts [OF this _ o(3) r] o(1,2) r show ?thesis by (intro exI [of _ es] exI [of _ s]) simp
qed

text \<open>when the last reference to a registered object goes, the object leaves the object manager and its address
  finds nothing; the other objects stay.\<close>

theorem last_reference_removes:
  assumes "distinct (map fst (kw_objects w))" and "distinct (map snd (kw_objects w))"
    and "(Some a, x) \<in> set (kw_objects w)" and "a \<noteq> 0" and "ref_cnt w x = 1"
  shows "get_object_from_addr (Some a) (dec_ref x w) = None \<and>
    (\<forall>b y. (b, y) \<in> set (kw_objects w) \<and> y \<noteq> x \<longrightarrow> get_object_from_addr b (dec_ref x w) = Some y)"
proof -
  have d: "dec_ref x w = remove_object x (add_ref (-1) x w)" using assms(5) by (simp add: dec_ref_def)
  have "(Some a, y) \<notin> set (kw_objects (dec_ref x w))" for y
  proof
    assume y: "(Some a, y) \<in> set (kw_objects (dec_ref x w))"
    obtain P where "kw_objects (dec_ref x w) = filter P (kw_objects w)"
      using remove_object_sublist [of x "add_ref (-1) x w"] by (auto simp: d)
    then have "y = x" using y assms(1,3) eq_key_imp_eq_value [of "kw_objects w" "Some a"] by auto
    then have "x \<in> snd ` set (kw_objects (dec_ref x w))" using y by force
    then show False using remove_object_gone [of "add_ref (-1) x w" a x] assms(2,3,4) by (simp add: d)
  qed
  then have gone: "map_of (kw_objects (dec_ref x w)) (Some a) = None"
    by (force simp: map_of_eq_None_iff)
  have "map_of (kw_objects (dec_ref x w)) b = Some y" if "(b, y) \<in> set (kw_objects w)" "y \<noteq> x" for b y
    using dec_ref_keeps [OF assms(1) that(1), of x] distinct_dec_ref [OF assms(1), of x] that(2) by simp
  then show ?thesis using gone by (auto simp: get_object_from_addr_def)
qed

theorem last_reference_removes_witness:
  "get_object_from_addr (Some 0x5000) (dec_ref 0 two_objects) = None"
proof -
  have o: "kw_objects two_objects = [(Some 0x5000, 0)]" "ref_cnt two_objects 0 = 1"
    by (auto simp: two_objects_def add_object_def get_object_from_addr_def allocate_kernel_object_id_def
        add_ref_def new_kobject_def init_allocator_def Let_def)
  show ?thesis
    using last_reference_removes [of two_objects "0x5000" 0] o by simp
qed

end
