(* ===== verification/Crypto_Manager.thy ===== *)
theory Crypto_Manager
  imports Handles
begin

text \<open>
  The CryptoAPI state of \<^verbatim>\<open>speakeasy/windows/cryptman.py\<close>: provider contexts, their keys and hashes,
  with one handle table. A context is mutable and shared, so it is a number into \<open>cw_contexts\<close>; a key is a
  value that names its context. The hash objects of Python's \<open>hashlib\<close> are the type \<open>'h\<close>.
\<close>

record crypt_key =
  ck_context :: nat
  ck_blob_type :: "string option"
  ck_blob :: "int list option"
  ck_blob_len :: "int option"
  ck_import_key :: "int option"
  ck_param_list :: "int option"
  ck_flags :: "int option"
  ck_chaining_mode :: "string option"

record crypt_context =
  cc_container_name :: "string option"
  cc_provider_name :: "string option"
  cc_ptype :: "int option"
  cc_flags :: "int option"
  cc_keys :: "(int \<times> crypt_key) list"
  cc_chaining_mode :: string

datatype 'h crypto_object = CtxObj nat | KeyObj crypt_key | HashObj 'h

record crypto_world =
  cw_contexts :: "nat \<Rightarrow> crypt_context"
  cw_next :: nat

type_synonym 'h crypto_state = "('h crypto_object, crypto_world) handle_world"

definition is_ctx :: "'h crypto_object \<Rightarrow> bool" where
  "is_ctx x = (case x of CtxObj _ \<Rightarrow> True | _ \<Rightarrow> False)"

definition is_key :: "'h crypto_object \<Rightarrow> bool" where
  "is_key x = (case x of KeyObj _ \<Rightarrow> True | _ \<Rightarrow> False)"

definition is_hash :: "'h crypto_object \<Rightarrow> bool" where
  "is_hash x = (case x of HashObj _ \<Rightarrow> True | _ \<Rightarrow> False)"

definition crypto_get :: "('h crypto_object \<Rightarrow> bool) \<Rightarrow> int \<Rightarrow> 'h crypto_state \<Rightarrow> 'h crypto_object option" where
  "crypto_get types hnd s = ht_get plain_callbacks types hnd (hw_tables s 0) (hw_world s)"

definition put_keys :: "nat \<Rightarrow> (int \<times> crypt_key) list \<Rightarrow> 'h crypto_state \<Rightarrow> 'h crypto_state" where
  "put_keys c keys s =
     s\<lparr>hw_world := (hw_world s)\<lparr>cw_contexts := (cw_contexts (hw_world s))
         (c := (cw_contexts (hw_world s) c)\<lparr>cc_keys := keys\<rparr>)\<rparr>\<rparr>"

definition ctx_keys :: "nat \<Rightarrow> 'h crypto_state \<Rightarrow> (int \<times> crypt_key) list" where
  "ctx_keys c s = cc_keys (cw_contexts (hw_world s) c)"

subsection \<open>Contexts\<close>

definition import_key ::
  "nat \<Rightarrow> string option \<Rightarrow> int list option \<Rightarrow> int option \<Rightarrow> int option \<Rightarrow> int option \<Rightarrow> int option \<Rightarrow> 'h crypto_state
    \<Rightarrow> int \<times> 'h crypto_state" where
  "import_key c blob_type blob blob_len hnd_import_key param_list flags s =
     (let key = \<lparr>ck_context = c, ck_blob_type = blob_type, ck_blob = blob, ck_blob_len = blob_len,
            ck_import_key = hnd_import_key, ck_param_list = param_list, ck_flags = flags, ck_chaining_mode = None\<rparr>;
          (hnd, s1) = open_in plain_callbacks 0 (KeyObj key) s
      in (hnd, put_keys c (AList.update hnd key (ctx_keys c s1)) s1))"

definition ctx_get_key :: "nat \<Rightarrow> int \<Rightarrow> 'h crypto_state \<Rightarrow> crypt_key option" where
  "ctx_get_key c hnd s = map_of (ctx_keys c s) hnd"

definition ctx_delete_key :: "nat \<Rightarrow> int \<Rightarrow> 'h crypto_state \<Rightarrow> bool result \<times> 'h crypto_state" where
  "ctx_delete_key c hnd s =
     (if map_of (ctx_keys c s) (hnd AND HANDLE_MASK) = None then (Inl KeyError, s)
      else (let s1 = put_keys c (AList.delete (hnd AND HANDLE_MASK) (ctx_keys c s)) s;
                (b, s2) = close_in plain_callbacks 0 hnd s1
            in (Inr b, s2)))"

subsection \<open>The manager\<close>

definition init_crypto :: "'h crypto_state" where
  "init_crypto = init_handles \<lparr>cw_contexts = (\<lambda>_. \<lparr>cc_container_name = None, cc_provider_name = None,
     cc_ptype = None, cc_flags = None, cc_keys = [], cc_chaining_mode = ''ChainingModeCBC''\<rparr>), cw_next = 0\<rparr>"

definition crypt_open ::
  "string option \<Rightarrow> string option \<Rightarrow> int option \<Rightarrow> int option \<Rightarrow> 'h crypto_state \<Rightarrow> int \<times> 'h crypto_state" where
  "crypt_open cname pname ptype flags s =
     (let w = hw_world s;
          c = cw_next w;
          ctx = \<lparr>cc_container_name = cname, cc_provider_name = pname, cc_ptype = ptype, cc_flags = flags,
                 cc_keys = [], cc_chaining_mode = ''ChainingModeCBC''\<rparr>
      in open_in plain_callbacks 0 (CtxObj c)
           (s\<lparr>hw_world := w\<lparr>cw_contexts := (cw_contexts w)(c := ctx), cw_next := Suc c\<rparr>\<rparr>))"

fun delete_keys :: "nat \<Rightarrow> int list \<Rightarrow> 'h crypto_state \<Rightarrow> unit result \<times> 'h crypto_state" where
  "delete_keys c [] s = (Inr (), s)"
| "delete_keys c (h # hs) s =
     (case ctx_delete_key c h s of (Inl e, s') \<Rightarrow> (Inl e, s') | (Inr _, s') \<Rightarrow> delete_keys c hs s')"

definition crypt_close :: "int \<Rightarrow> 'h crypto_state \<Rightarrow> bool result \<times> 'h crypto_state" where
  "crypt_close hnd s =
     (case crypto_get is_ctx hnd s of
        Some (CtxObj c) \<Rightarrow>
          (case delete_keys c (map fst (ctx_keys c s)) s of
             (Inl e, s') \<Rightarrow> (Inl e, s')
           | (Inr _, s') \<Rightarrow> (let (b, s2) = close_in plain_callbacks 0 hnd s' in (Inr b, s2)))
      | _ \<Rightarrow> (Inr False, s))"

definition get_context :: "int \<Rightarrow> 'h crypto_state \<Rightarrow> nat option" where
  "get_context hnd s = (case crypto_get is_ctx hnd s of Some (CtxObj c) \<Rightarrow> Some c | _ \<Rightarrow> None)"

definition get_key :: "int \<Rightarrow> 'h crypto_state \<Rightarrow> crypt_key option" where
  "get_key hnd s = (case crypto_get is_key hnd s of Some (KeyObj k) \<Rightarrow> Some k | _ \<Rightarrow> None)"

definition delete_key :: "int \<Rightarrow> 'h crypto_state \<Rightarrow> bool result \<times> 'h crypto_state" where
  "delete_key hnd s =
     (case get_key hnd s of None \<Rightarrow> (Inr False, s) | Some k \<Rightarrow> ctx_delete_key (ck_context k) hnd s)"

definition create_hash :: "'h \<Rightarrow> 'h crypto_state \<Rightarrow> int \<times> 'h crypto_state" where
  "create_hash hasher s = open_in plain_callbacks 0 (HashObj hasher) s"

definition get_hash :: "int \<Rightarrow> 'h crypto_state \<Rightarrow> 'h option" where
  "get_hash hnd s = (case crypto_get is_hash hnd s of Some (HashObj h) \<Rightarrow> Some h | _ \<Rightarrow> None)"

subsection \<open>Invariant\<close>

text \<open>The keys of a context are exactly the open key handles that name the context.\<close>

definition crypto_wf :: "'h crypto_state \<Rightarrow> bool" where
  "crypto_wf s \<longleftrightarrow> handles_wf plain_callbacks s \<and>
     (\<forall>c. distinct (map fst (ctx_keys c s))) \<and>
     (\<forall>c h k. (h, k) \<in> set (ctx_keys c s) \<longleftrightarrow> hw_tables s 0 h = Some (KeyObj k) \<and> ck_context k = c) \<and>
     (\<forall>h c. hw_tables s 0 h = Some (CtxObj c) \<longrightarrow> c < cw_next (hw_world s)) \<and>
     (\<forall>c. cw_next (hw_world s) \<le> c \<longrightarrow> ctx_keys c s = [])"

lemma ctx_keys_put [simp]: "ctx_keys c' (put_keys c ks s) = (if c' = c then ks else ctx_keys c' s)"
  by (simp add: ctx_keys_def put_keys_def)

lemma put_keys_fields [simp]:
  "hw_tables (put_keys c ks s) = hw_tables s" "hw_alloc (put_keys c ks s) = hw_alloc s"
  "cw_next (hw_world (put_keys c ks s)) = cw_next (hw_world s)"
  "handles_wf cb (put_keys c ks s) = handles_wf cb s" "handle_room (put_keys c ks s) = handle_room s"
  by (simp_all add: put_keys_def handles_wf_def handle_issued_def handle_room_def)

lemma ctx_keys_world: "hw_world s' = hw_world s \<Longrightarrow> ctx_keys c s' = ctx_keys c s"
  by (simp add: ctx_keys_def)

lemma crypto_wfD:
  assumes "crypto_wf s"
  shows "handles_wf plain_callbacks s" "distinct (map fst (ctx_keys c s))"
    "(h, k) \<in> set (ctx_keys c s) \<longleftrightarrow> hw_tables s 0 h = Some (KeyObj k) \<and> ck_context k = c"
    "hw_tables s 0 h = Some (CtxObj c) \<Longrightarrow> c < cw_next (hw_world s)"
    "cw_next (hw_world s) \<le> c \<Longrightarrow> ctx_keys c s = []"
  using assms unfolding crypto_wf_def by simp_all

lemma crypto_get_eq:
  "crypto_get types hnd s = (case hw_tables s 0 (hnd AND HANDLE_MASK) of
     None \<Rightarrow> None | Some x \<Rightarrow> if types x then Some x else None)"
  by (simp add: crypto_get_def ht_get_def plain_callbacks_def)

lemma ctx_delete_key_wf:
  assumes wf: "crypto_wf s" and k: "hw_tables s 0 (h AND HANDLE_MASK) = Some (KeyObj k)" "ck_context k = c"
    and d: "ctx_delete_key c h s = (r, s')"
  shows "r = Inr True \<and> crypto_wf s' \<and> cw_next (hw_world s') = cw_next (hw_world s) \<and>
    hw_tables s' = (hw_tables s)(0 := (hw_tables s 0)(h AND HANDLE_MASK := None)) \<and>
    ctx_keys c s' = AList.delete (h AND HANDLE_MASK) (ctx_keys c s)"
proof -
  let ?g = "h AND HANDLE_MASK"
  have m: "(?g, k) \<in> set (ctx_keys c s)" using crypto_wfD(3) [OF wf] k by simp
  then have mo: "map_of (ctx_keys c s) ?g = Some k" using crypto_wfD(2) [OF wf] by simp
  let ?s1 = "put_keys c (AList.delete ?g (ctx_keys c s)) s"
  obtain b where c1: "close_in plain_callbacks 0 h ?s1 = (b, s')" and r: "r = Inr b"
    using d mo by (auto simp: ctx_delete_key_def Let_def split: prod.splits)
  have w1: "handles_wf plain_callbacks ?s1" using crypto_wfD(1) [OF wf] by simp
  note pc = plain_close [OF w1 c1]
  have t: "hw_tables s' = (hw_tables s)(0 := (hw_tables s 0)(?g := None))" using pc(3) by simp
  have ks: "ctx_keys c' s' = (if c' = c then AList.delete ?g (ctx_keys c s) else ctx_keys c' s)" for c'
    using ctx_keys_world [OF pc(4)] by simp
  have "crypto_wf s'"
    unfolding crypto_wf_def
  proof (intro conjI allI impI)
    show "handles_wf plain_callbacks s'" by (rule pc(1))
    show "distinct (map fst (ctx_keys c' s'))" for c'
      using crypto_wfD(2) [OF wf] by (simp add: ks distinct_delete)
    show "(h', k') \<in> set (ctx_keys c' s') \<longleftrightarrow> hw_tables s' 0 h' = Some (KeyObj k') \<and> ck_context k' = c'" for c' h' k'
      using crypto_wfD(3) [OF wf, of h' k'] k by (auto simp: ks t AList.delete_eq)
    show "hw_tables s' 0 h' = Some (CtxObj c') \<Longrightarrow> c' < cw_next (hw_world s')" for h' c'
      using crypto_wfD(4) [OF wf, of h' c'] by (simp add: t pc(4) split: if_splits)
    show "cw_next (hw_world s') \<le> c' \<Longrightarrow> ctx_keys c' s' = []" for c'
      using crypto_wfD(5) [OF wf, of c'] by (auto simp: ks pc(4))
  qed
  then show ?thesis using r t ks pc(2,4) k by simp
qed

lemma delete_keys_ok:
  "crypto_wf s \<Longrightarrow> distinct hs \<Longrightarrow> set hs \<subseteq> fst ` set (ctx_keys c s) \<Longrightarrow> delete_keys c hs s = (r, s') \<Longrightarrow>
   r = Inr () \<and> crypto_wf s' \<and> hw_tables s' 0 = (\<lambda>g. if g \<in> set hs then None else hw_tables s 0 g)"
proof (induction hs arbitrary: s)
  case Nil
  then show ?case by auto
next
  case (Cons h hs)
  note wf = Cons.prems(1)
  obtain k where k: "hw_tables s 0 h = Some (KeyObj k)" "ck_context k = c"
    using Cons.prems(3) crypto_wfD(3) [OF wf, of h] by auto
  have m: "h AND HANDLE_MASK = h"
    using issued_mod(1) [OF crypto_wfD(1) [OF wf]] handles_wfD(2) [OF crypto_wfD(1) [OF wf] k(1)] by simp
  obtain r1 s1 where d: "ctx_delete_key c h s = (r1, s1)" by fastforce
  note st = ctx_delete_key_wf [OF wf _ _ d, of k, unfolded m, OF k]
  have sub: "set hs \<subseteq> fst ` set (ctx_keys c s1)"
    using Cons.prems(2,3) st by (force simp: AList.delete_eq)
  have e: "delete_keys c hs s1 = (r, s')" using Cons.prems(4) d st by simp
  have "distinct hs" using Cons.prems(2) by simp
  from Cons.IH [OF _ this sub e] st show ?case by (auto simp: fun_eq_iff)
qed

lemma crypt_close_ok:
  assumes wf: "crypto_wf s" and g: "get_context h s = Some c"
    and cl: "crypt_close h s = (r, s')"
  shows "r = Inr True \<and> crypto_wf s' \<and> hw_tables s' 0 =
    (\<lambda>g. if g = h AND HANDLE_MASK \<or> g \<in> fst ` set (ctx_keys c s) then None else hw_tables s 0 g)"
proof -
  let ?g = "h AND HANDLE_MASK"
  have gc: "crypto_get is_ctx h s = Some (CtxObj c)"
    using g by (auto simp: get_context_def split: option.splits crypto_object.splits)
  have t: "hw_tables s 0 ?g = Some (CtxObj c)"
    using gc by (auto simp: crypto_get_eq split: option.splits if_splits)
  obtain r1 s1 where d: "delete_keys c (map fst (ctx_keys c s)) s = (r1, s1)" by fastforce
  have "set (map fst (ctx_keys c s)) \<subseteq> fst ` set (ctx_keys c s)" by simp
  note dk = delete_keys_ok [OF wf crypto_wfD(2) [OF wf] this d]
  obtain b where b: "close_in plain_callbacks 0 h s1 = (b, s')" and r: "r = Inr b"
    using cl gc d dk by (auto simp: crypt_close_def Let_def split: prod.splits)
  note wf1 = conjunct1 [OF conjunct2 [OF dk]]
  note pc = plain_close [OF crypto_wfD(1) [OF wf1] b]
  have nk: "?g \<notin> fst ` set (ctx_keys c' s)" for c'
    using crypto_wfD(3) [OF wf, of ?g] t by auto
  then have t1: "hw_tables s1 0 ?g = Some (CtxObj c)" using dk t by simp
  have nk1: "?g \<notin> fst ` set (ctx_keys c' s1)" for c'
    using crypto_wfD(3) [OF wf1, of ?g] t1 by auto
  have "crypto_wf s'"
    unfolding crypto_wf_def
  proof (intro conjI allI impI)
    show "handles_wf plain_callbacks s'" by (rule pc(1))
    show "distinct (map fst (ctx_keys c' s'))" for c'
      using crypto_wfD(2) [OF wf1] by (simp add: ctx_keys_world [OF pc(4)])
    show "(h', k') \<in> set (ctx_keys c' s') \<longleftrightarrow> hw_tables s' 0 h' = Some (KeyObj k') \<and> ck_context k' = c'" for c' h' k'
      using crypto_wfD(3) [OF wf1, of h' k' c'] t1 by (auto simp: ctx_keys_world [OF pc(4)] pc(3))
    show "hw_tables s' 0 h' = Some (CtxObj c') \<Longrightarrow> c' < cw_next (hw_world s')" for h' c'
      using crypto_wfD(4) [OF wf1, of h' c'] by (simp add: pc(3,4) split: if_splits)
    show "cw_next (hw_world s') \<le> c' \<Longrightarrow> ctx_keys c' s' = []" for c'
      using crypto_wfD(5) [OF wf1, of c'] by (simp add: ctx_keys_world [OF pc(4)] pc(4))
  qed
  then show ?thesis using r pc dk t1 by (auto simp: fun_eq_iff)
qed

lemma crypt_open_wf:
  assumes wf: "crypto_wf s" and r: "0 < handle_room s" and o: "crypt_open a b p f s = (h, s')"
  shows "crypto_wf s' \<and> get_context h s' = Some (cw_next (hw_world s)) \<and>
    hw_tables s' 0 = (hw_tables s 0)(h \<mapsto> CtxObj (cw_next (hw_world s)))"
proof -
  let ?c = "cw_next (hw_world s)"
  obtain s0 where o0: "open_in plain_callbacks 0 (CtxObj ?c) s0 = (h, s')"
    and s0: "hw_tables s0 = hw_tables s" "hw_alloc s0 = hw_alloc s" "cw_next (hw_world s0) = Suc ?c"
      "\<And>c. ctx_keys c s0 = (if c = ?c then [] else ctx_keys c s)"
    using o by (auto simp: crypt_open_def Let_def ctx_keys_def)
  have w0: "handles_wf plain_callbacks s0" "0 < handle_room s0"
    using crypto_wfD(1) [OF wf] r by (simp_all add: handles_wf_def handle_issued_def handle_room_def s0)
  note po = plain_open [OF w0 o0]
  have ks: "ctx_keys c s' = ctx_keys c s" for c
    using crypto_wfD(5) [OF wf, of c] by (auto simp: ctx_keys_world [OF po(5)] s0)
  have "crypto_wf s'"
    unfolding crypto_wf_def
  proof (intro conjI allI impI)
    show "handles_wf plain_callbacks s'" by (rule po(1))
    show "distinct (map fst (ctx_keys c' s'))" for c'
      using crypto_wfD(2) [OF wf] by (simp add: ks)
    show "(h', k') \<in> set (ctx_keys c' s') \<longleftrightarrow> hw_tables s' 0 h' = Some (KeyObj k') \<and> ck_context k' = c'" for c' h' k'
      using crypto_wfD(3) [OF wf, of h' k' c'] po(2) by (auto simp: ks po(4) s0)
    show "hw_tables s' 0 h' = Some (CtxObj c') \<Longrightarrow> c' < cw_next (hw_world s')" for h' c'
      using crypto_wfD(4) [OF wf, of h' c'] by (auto simp: po(4,5) s0 split: if_splits)
    show "cw_next (hw_world s') \<le> c' \<Longrightarrow> ctx_keys c' s' = []" for c'
      using crypto_wfD(5) [OF wf, of c'] by (simp add: ks po(5) s0)
  qed
  then show ?thesis
    using po by (simp add: get_context_def crypto_get_eq is_ctx_def s0)
qed

lemma import_key_wf:
  assumes wf: "crypto_wf s" and r: "0 < handle_room s" and c: "c < cw_next (hw_world s)"
    and o: "import_key c bt bl len ik pl f s = (h, s')"
  shows "crypto_wf s' \<and> (\<exists>k. get_key h s' = Some k \<and> ck_context k = c \<and> ck_blob k = bl \<and> ctx_get_key c h s' = Some k)"
proof -
  define k where "k = \<lparr>ck_context = c, ck_blob_type = bt, ck_blob = bl, ck_blob_len = len,
      ck_import_key = ik, ck_param_list = pl, ck_flags = f, ck_chaining_mode = None\<rparr>"
  obtain s1 where o1: "open_in plain_callbacks 0 (KeyObj k) s = (h, s1)"
    and s': "s' = put_keys c (AList.update h k (ctx_keys c s1)) s1"
    using o by (auto simp: import_key_def Let_def k_def split: prod.splits)
  note po = plain_open [OF crypto_wfD(1) [OF wf] r o1]
  have hn: "h \<notin> fst ` set (ctx_keys c' s)" for c'
    using crypto_wfD(3) [OF wf, of h] po(2) by auto
  have ks: "ctx_keys c' s' = (if c' = c then ctx_keys c s @ [(h, k)] else ctx_keys c' s)" for c'
    using update_new [OF hn] by (simp add: s' ctx_keys_world [OF po(5)])
  have t: "hw_tables s' = (hw_tables s)(0 := (hw_tables s 0)(h \<mapsto> KeyObj k))" by (simp add: s' po(4))
  have n: "cw_next (hw_world s') = cw_next (hw_world s)" by (simp add: s' po(5))
  have kc: "ck_context k = c" by (simp add: k_def)
  have "crypto_wf s'"
    unfolding crypto_wf_def
  proof (intro conjI allI impI)
    show "handles_wf plain_callbacks s'" using po(1) by (simp add: s')
    show "distinct (map fst (ctx_keys c' s'))" for c'
      using crypto_wfD(2) [OF wf] hn by (auto simp: ks)
    show "(h', k') \<in> set (ctx_keys c' s') \<longleftrightarrow> hw_tables s' 0 h' = Some (KeyObj k') \<and> ck_context k' = c'" for c' h' k'
      using crypto_wfD(3) [OF wf, of h' k'] po(2) kc by (auto simp: ks t)
    show "hw_tables s' 0 h' = Some (CtxObj c') \<Longrightarrow> c' < cw_next (hw_world s')" for h' c'
      using crypto_wfD(4) [OF wf, of h' c'] by (auto simp: t n split: if_splits)
    show "cw_next (hw_world s') \<le> c' \<Longrightarrow> ctx_keys c' s' = []" for c'
      using crypto_wfD(5) [OF wf, of c'] c by (simp add: ks n)
  qed
  moreover have "get_key h s' = Some k"
    using po(3) by (simp add: get_key_def crypto_get_eq is_key_def t)
  moreover have "map_of (ctx_keys c s') h = Some k"
    using hn [of c] by (simp add: ks map_add_Some_iff map_of_append map_of_eq_None_iff [symmetric])
  ultimately show ?thesis using kc by (auto simp: k_def ctx_get_key_def)
qed

lemma create_hash_wf:
  assumes wf: "crypto_wf s" and r: "0 < handle_room s" and o: "create_hash x s = (h, s')"
  shows "crypto_wf s' \<and> get_hash h s' = Some x"
proof -
  note po = plain_open [OF crypto_wfD(1) [OF wf] r o [unfolded create_hash_def]]
  have "crypto_wf s'"
    unfolding crypto_wf_def
  proof (intro conjI allI impI)
    show "handles_wf plain_callbacks s'" by (rule po(1))
    show "distinct (map fst (ctx_keys c' s'))" for c'
      using crypto_wfD(2) [OF wf] by (simp add: ctx_keys_world [OF po(5)])
    show "(h', k') \<in> set (ctx_keys c' s') \<longleftrightarrow> hw_tables s' 0 h' = Some (KeyObj k') \<and> ck_context k' = c'" for c' h' k'
      using crypto_wfD(3) [OF wf, of h' k' c'] po(2) by (auto simp: ctx_keys_world [OF po(5)] po(4))
    show "hw_tables s' 0 h' = Some (CtxObj c') \<Longrightarrow> c' < cw_next (hw_world s')" for h' c'
      using crypto_wfD(4) [OF wf, of h' c'] by (auto simp: po(4,5) split: if_splits)
    show "cw_next (hw_world s') \<le> c' \<Longrightarrow> ctx_keys c' s' = []" for c'
      using crypto_wfD(5) [OF wf, of c'] by (simp add: ctx_keys_world [OF po(5)] po(5))
  qed
  then show ?thesis using po by (simp add: get_hash_def crypto_get_eq is_hash_def)
qed

lemma delete_key_wf:
  assumes wf: "crypto_wf s" and d: "delete_key h s = (r, s')"
  shows "crypto_wf s' \<and> (\<exists>b. r = Inr b)"
proof (cases "get_key h s")
  case None
  then show ?thesis using d wf by (auto simp: delete_key_def)
next
  case (Some k)
  then have "hw_tables s 0 (h AND HANDLE_MASK) = Some (KeyObj k)"
    by (auto simp: get_key_def crypto_get_eq split: option.splits if_splits crypto_object.splits)
  from ctx_delete_key_wf [OF wf this refl] d Some show ?thesis by (auto simp: delete_key_def)
qed

subsection \<open>Runs\<close>

datatype 'h crypto_op =
    CryptOpen "string option" "string option" "int option" "int option"
  | CryptImport int "string option" "int list option" "int option" "int option" "int option" "int option"
  | CryptHash 'h
  | CryptDelete int
  | CryptClose int

text \<open>A key is imported through the context that \<open>get_context\<close> finds, as the API handlers do.\<close>

primrec crypto_step :: "'h crypto_op \<Rightarrow> 'h crypto_state \<Rightarrow> unit result \<times> 'h crypto_state" where
  "crypto_step (CryptOpen a b p f) s = (Inr (), snd (crypt_open a b p f s))"
| "crypto_step (CryptImport hnd bt bl len ik pl f) s =
     (case get_context hnd s of
        None \<Rightarrow> (Inr (), s) | Some c \<Rightarrow> (Inr (), snd (import_key c bt bl len ik pl f s)))"
| "crypto_step (CryptHash x) s = (Inr (), snd (create_hash x s))"
| "crypto_step (CryptDelete hnd) s = (map_sum id (\<lambda>_. ()) (fst (delete_key hnd s)), snd (delete_key hnd s))"
| "crypto_step (CryptClose hnd) s = (map_sum id (\<lambda>_. ()) (fst (crypt_close hnd s)), snd (crypt_close hnd s))"

fun crypto_run :: "'h crypto_op list \<Rightarrow> 'h crypto_state \<Rightarrow> unit result \<times> 'h crypto_state" where
  "crypto_run [] s = (Inr (), s)"
| "crypto_run (op # ops) s =
     (case crypto_step op s of (Inl e, s') \<Rightarrow> (Inl e, s') | (Inr _, s') \<Rightarrow> crypto_run ops s')"

lemma close_alloc: "hw_alloc (snd (close_in cb t h s)) = hw_alloc s"
  by (simp add: close_in_eq split: option.splits)

lemma ctx_delete_alloc: "hw_alloc (snd (ctx_delete_key c h s)) = hw_alloc s"
  using close_alloc [of plain_callbacks 0 h "put_keys c (AList.delete (h AND HANDLE_MASK) (ctx_keys c s)) s"]
  by (auto simp: ctx_delete_key_def Let_def split: prod.splits)

lemma delete_keys_alloc: "hw_alloc (snd (delete_keys c hs s)) = hw_alloc s"
proof (induction hs arbitrary: s)
  case (Cons h hs)
  show ?case
    using Cons.IH ctx_delete_alloc [of c h s] by (auto split: prod.splits sum.splits)
qed simp

lemma crypt_close_alloc: "hw_alloc (snd (crypt_close h s)) = hw_alloc s"
proof -
  have "hw_alloc s2 = hw_alloc s1" if "close_in plain_callbacks 0 h s1 = (b, s2)" for s1 s2 :: "'a crypto_state" and b
    using close_alloc [of plain_callbacks 0 h s1] that by simp
  moreover have "hw_alloc s1 = hw_alloc s" if "delete_keys c hs s = (r, s1)" for c hs r s1
    using delete_keys_alloc [of c hs s] that by simp
  ultimately show ?thesis
    by (auto simp: crypt_close_def Let_def split: option.splits crypto_object.splits prod.splits sum.splits)
qed

lemma room_alloc: "hw_alloc s' = hw_alloc s \<Longrightarrow> handle_room s' = handle_room s"
  by (simp add: handle_room_def)

lemma crypto_step_ok:
  assumes wf: "crypto_wf s" and r: "0 < handle_room s"
  shows "fst (crypto_step op s) = Inr () \<and> crypto_wf (snd (crypto_step op s)) \<and>
    handle_room s - 1 \<le> handle_room (snd (crypto_step op s))"
proof (cases op)
  case (CryptOpen a b p f)
  obtain h s' where o: "crypt_open a b p f s = (h, s')" by fastforce
  let ?c = "cw_next (hw_world s)"
  obtain s0 where o0: "open_in plain_callbacks 0 (CtxObj ?c) s0 = (h, s')"
    and s0: "hw_tables s0 = hw_tables s" "hw_alloc s0 = hw_alloc s"
    using o by (auto simp: crypt_open_def Let_def)
  have w0: "handles_wf plain_callbacks s0"
    using crypto_wfD(1) [OF wf] by (simp add: handles_wf_def handle_issued_def s0)
  have "handle_room s' = handle_room s0 - 1"
    using open_in_law [OF w0 _ o0] r room_alloc [OF s0(2)] by simp
  then show ?thesis using crypt_open_wf [OF wf r o] o CryptOpen room_alloc [OF s0(2)] by simp
next
  case (CryptImport hnd bt bl len ik pl f)
  show ?thesis
  proof (cases "get_context hnd s")
    case None
    then show ?thesis using CryptImport wf by simp
  next
    case (Some c)
    then have "c < cw_next (hw_world s)"
      using crypto_wfD(4) [OF wf, of "hnd AND HANDLE_MASK" c]
      by (auto simp: get_context_def crypto_get_eq is_ctx_def split: option.splits if_splits crypto_object.splits)
    note wf' = import_key_wf [OF wf r this, of bt bl len ik pl f "fst (import_key c bt bl len ik pl f s)"
        "snd (import_key c bt bl len ik pl f s)"]
    have "handle_room (snd (import_key c bt bl len ik pl f s)) = handle_room s - 1"
      using open_in_law [OF crypto_wfD(1) [OF wf] r] by (auto simp: import_key_def Let_def split: prod.splits)
    then show ?thesis using CryptImport Some wf' by simp
  qed
next
  case (CryptHash x)
  obtain h s' where o: "create_hash x s = (h, s')" by fastforce
  show ?thesis
    using create_hash_wf [OF wf r o] open_in_law [OF crypto_wfD(1) [OF wf] r o [unfolded create_hash_def]] CryptHash o
    by simp
next
  case (CryptDelete hnd)
  have "hw_alloc (snd (delete_key hnd s)) = hw_alloc s"
    by (simp add: delete_key_def ctx_delete_alloc split: option.splits)
  note room = room_alloc [OF this]
  obtain b s' where d: "delete_key hnd s = (Inr b, s')"
    using delete_key_wf [OF wf, of hnd "fst (delete_key hnd s)" "snd (delete_key hnd s)"]
    by (cases "delete_key hnd s") auto
  then show ?thesis using delete_key_wf [OF wf d] room CryptDelete by simp
next
  case (CryptClose hnd)
  show ?thesis
  proof (cases "get_context hnd s")
    case None
    then have "crypt_close hnd s = (Inr False, s)"
      by (auto simp: crypt_close_def get_context_def split: option.splits crypto_object.splits)
    then show ?thesis using CryptClose wf by simp
  next
    case (Some c)
    from crypt_close_ok [OF wf Some, of "fst (crypt_close hnd s)" "snd (crypt_close hnd s)"] show ?thesis
      using CryptClose room_alloc [OF crypt_close_alloc [of hnd s]] by simp
  qed
qed

lemma crypto_run_ok:
  "crypto_wf s \<Longrightarrow> length ops \<le> handle_room s \<Longrightarrow>
   fst (crypto_run ops s) = Inr () \<and> crypto_wf (snd (crypto_run ops s))"
proof (induction ops arbitrary: s)
  case (Cons op ops)
  have r: "0 < handle_room s" using Cons.prems(2) by simp
  obtain s1 where e: "crypto_step op s = (Inr (), s1)" and w: "crypto_wf s1" "handle_room s - 1 \<le> handle_room s1"
    using crypto_step_ok [OF Cons.prems(1) r, of op] by (cases "crypto_step op s") auto
  have "length ops \<le> handle_room s1" using w(2) Cons.prems(2) by simp
  from Cons.IH [OF w(1) this] show ?case by (simp add: e)
qed simp

lemma init_crypto_wf: "crypto_wf init_crypto" "handle_room init_crypto = 2 ^ 30 - 32"
  by (simp_all add: crypto_wf_def init_crypto_def init_handles_wf init_room)
    (simp add: init_handles_def ctx_keys_def)

text \<open>C34: whatever CryptoAPI calls run, no key handle is closed twice (\<open>delete_key\<close> never raises \<open>KeyError\<close>),
  and closing an open provider handle then closes exactly that handle and the handles of the keys of that provider: the
  keys and hashes of other providers stay open.\<close>

theorem crypto_close_exact:
  assumes "length ops \<le> 2 ^ 30 - 32" and "crypto_run ops init_crypto = (r, s)"
    and "get_context hnd s = Some c" and "crypt_close hnd s = (r', s')"
  shows "r = Inr () \<and> r' = Inr True \<and>
    (\<forall>h. hw_tables s' 0 h =
      (if h = hnd AND HANDLE_MASK \<or> (\<exists>k. hw_tables s 0 h = Some (KeyObj k) \<and> ck_context k = c) then None
       else hw_tables s 0 h))"
proof -
  have w: "r = Inr ()" "crypto_wf s"
    using crypto_run_ok [OF init_crypto_wf(1), of ops] assms(1,2) by (simp_all add: init_crypto_wf(2))
  have "h \<in> fst ` set (ctx_keys c s) \<longleftrightarrow> (\<exists>k. hw_tables s 0 h = Some (KeyObj k) \<and> ck_context k = c)" for h
    using crypto_wfD(3) [OF w(2), of h _ c] by force
  with crypt_close_ok [OF w(2) assms(3,4)] w(1) show ?thesis by auto
qed

lemmas crypto_eval = crypt_open_def import_key_def create_hash_def open_in_def new_handle_def allocate_handle_def
  put_table_def put_keys_def ctx_keys_def get_context_def crypto_get_def ht_get_def is_ctx_def plain_callbacks_def
  init_handles_def init_allocator_def HANDLE_MASK_def

definition crypto_example :: "nat crypto_op list" where
  "crypto_example = [CryptOpen None None None None, CryptImport 0x80 None (Some [1]) None None None None, CryptHash 7]"

theorem crypto_close_exact_witness:
  "hw_tables (snd (crypt_close 0x80 (snd (crypto_run crypto_example init_crypto)))) 0 0x80 = None"
proof -
  have l: "length crypto_example \<le> 2 ^ 30 - 32" by (simp add: crypto_example_def)
  have c: "get_context 0x80 (snd (crypto_run crypto_example init_crypto)) = Some 0"
    by (simp add: crypto_example_def crypto_eval init_crypto_def Let_def)
  from crypto_close_exact [OF l _ c, of "fst (crypto_run crypto_example init_crypto)"] show ?thesis
    by (simp add: HANDLE_MASK_def prod_eq_iff)
qed

end
