(* ===== verification/Session_Manager.thy ===== *)
theory Session_Manager
  imports Handles
begin

text \<open>
  The USER objects of \<^verbatim>\<open>speakeasy/windows/sessman.py\<close>: sessions, window stations, desktops, windows
  and window classes, with one handle table. The objects are mutable and shared, so each is an index into the list of
  the objects of its class. The window store and the class store are dicts whose keys are handles and names.
\<close>

datatype gui_object = SessionObj nat | StationObj nat | DesktopObj nat | WindowObj nat | ClassObj nat

datatype store_key = KeyHandle int | KeyName string

record list_view_column =
  lv_fmt :: int
  lv_cx :: int
  lv_text :: string
  lv_sub_item :: int

record window =
  wn_handle :: int
  wn_name :: "string option"
  wn_class_name :: "string option"
  wn_style :: int
  wn_parent :: int
  wn_thread_id :: int
  wn_process_id :: int
  wn_props :: "(store_key \<times> int) list"
  wn_lv_columns :: "list_view_column list"

record window_class =
  wc_handle :: int
  wc_wclass :: int
  wc_name :: "string option"

record desktop =
  dk_handle :: int
  dk_desktop_window :: nat
  dk_name :: string

record station =
  st_handle :: int
  st_name :: string
  st_desktops :: "(int \<times> nat) list"

record session =
  se_handle :: int
  se_id :: int
  se_stations :: "(int \<times> nat) list"

record session_world =
  sw_sessions :: "session list"
  sw_stations :: "station list"
  sw_desktops :: "desktop list"
  sw_windows :: "window list"
  sw_classes :: "window_class list"
  sw_window_store :: "(store_key \<times> nat) list"
  sw_class_store :: "(store_key \<times> nat) list"
  sw_curr_session :: nat
  sw_curr_station :: nat
  sw_curr_desktop :: nat
  sw_dev_ctx :: int

type_synonym session_state = "(gui_object, session_world) handle_world"

text \<open>\<open>GuiObject.__init__\<close>: a handle for the object.\<close>

definition gui_init :: "gui_object \<Rightarrow> session_state \<Rightarrow> int \<times> session_state" where
  "gui_init x s = open_in plain_callbacks 0 x s"

definition upd_world :: "(session_world \<Rightarrow> session_world) \<Rightarrow> session_state \<Rightarrow> session_state" where
  "upd_world f s = s\<lparr>hw_world := f (hw_world s)\<rparr>"

subsection \<open>Constructors\<close>

definition new_window_object ::
  "string option \<Rightarrow> string option \<Rightarrow> int \<Rightarrow> int \<Rightarrow> int \<Rightarrow> int \<Rightarrow> session_state \<Rightarrow> nat \<times> session_state" where
  "new_window_object name class_name style parent thread_id process_id s =
     (let i = length (sw_windows (hw_world s));
          (h, s1) = gui_init (WindowObj i) s
      in (i, upd_world (\<lambda>w. w\<lparr>sw_windows := sw_windows w @
               [\<lparr>wn_handle = h, wn_name = name, wn_class_name = class_name, wn_style = style, wn_parent = parent,
                 wn_thread_id = thread_id, wn_process_id = process_id, wn_props = [], wn_lv_columns = []\<rparr>]\<rparr>) s1))"

definition new_class_object :: "int \<Rightarrow> string option \<Rightarrow> session_state \<Rightarrow> nat \<times> session_state" where
  "new_class_object wclass name s =
     (let i = length (sw_classes (hw_world s));
          (h, s1) = gui_init (ClassObj i) s
      in (i, upd_world (\<lambda>w. w\<lparr>sw_classes := sw_classes w @ [\<lparr>wc_handle = h, wc_wclass = wclass, wc_name = name\<rparr>]\<rparr>) s1))"

definition new_desktop_object :: "string \<Rightarrow> session_state \<Rightarrow> nat \<times> session_state" where
  "new_desktop_object name s =
     (let i = length (sw_desktops (hw_world s));
          (h, s1) = gui_init (DesktopObj i) s;
          (dw, s2) = new_window_object None None 0 0 0 0 s1
      in (i, upd_world (\<lambda>w. w\<lparr>sw_desktops := sw_desktops w @
               [\<lparr>dk_handle = h, dk_desktop_window = dw, dk_name = name\<rparr>]\<rparr>) s2))"

definition station_new_desktop :: "nat \<Rightarrow> string \<Rightarrow> session_state \<Rightarrow> nat \<times> session_state" where
  "station_new_desktop st name s =
     (let (i, s1) = new_desktop_object name s;
          h = dk_handle (sw_desktops (hw_world s1) ! i)
      in (i, upd_world (\<lambda>w. w\<lparr>sw_stations := (sw_stations w)[st :=
               (sw_stations w ! st)\<lparr>st_desktops := AList.update h i (st_desktops (sw_stations w ! st))\<rparr>]\<rparr>) s1))"

definition session_new_station :: "nat \<Rightarrow> string \<Rightarrow> session_state \<Rightarrow> nat \<times> session_state" where
  "session_new_station se name s =
     (let i = length (sw_stations (hw_world s));
          (h, s1) = gui_init (StationObj i) s
      in (i, upd_world (\<lambda>w. w\<lparr>sw_stations := sw_stations w @ [\<lparr>st_handle = h, st_name = name, st_desktops = []\<rparr>],
               sw_sessions := (sw_sessions w)[se :=
                 (sw_sessions w ! se)\<lparr>se_stations := AList.update h i (se_stations (sw_sessions w ! se))\<rparr>]\<rparr>) s1))"

definition new_session_object :: "int \<Rightarrow> session_state \<Rightarrow> nat \<times> session_state" where
  "new_session_object sess_id s =
     (let i = length (sw_sessions (hw_world s));
          (h, s1) = gui_init (SessionObj i) s
      in (i, upd_world (\<lambda>w. w\<lparr>sw_sessions := sw_sessions w @
               [\<lparr>se_handle = h, se_id = sess_id, se_stations = []\<rparr>]\<rparr>) s1))"

subsection \<open>The manager\<close>

definition init_sessman :: "allocator \<Rightarrow> session_state" where
  "init_sessman al =
     (let (dc, al1) = allocate_handle al;
          w0 = \<lparr>sw_sessions = [], sw_stations = [], sw_desktops = [], sw_windows = [], sw_classes = [],
                sw_window_store = [], sw_class_store = [], sw_curr_session = 0, sw_curr_station = 0,
                sw_curr_desktop = 0, sw_dev_ctx = dc\<rparr>;
          s0 = \<lparr>hw_alloc = al1, hw_tables = (\<lambda>_. Map.empty), hw_world = w0\<rparr>;
          (se, s1) = new_session_object 0 s0;
          (st, s2) = session_new_station se ''WinSta0'' s1;
          (d1, s3) = station_new_desktop st ''Winlogon'' s2;
          (d2, s4) = station_new_desktop st ''Default'' s3;
          (d3, s5) = station_new_desktop st ''Disconnect'' s4
      in upd_world (\<lambda>w. w\<lparr>sw_curr_session := se, sw_curr_station := st, sw_curr_desktop := d2\<rparr>) s5)"

text \<open>\<open>Desktop.new_window\<close>: all desktops share the window store.\<close>

definition desktop_new_window ::
  "string option \<Rightarrow> string option \<Rightarrow> int \<Rightarrow> int \<Rightarrow> int \<Rightarrow> int \<Rightarrow> session_state \<Rightarrow> nat \<times> session_state" where
  "desktop_new_window window_name class_name style parent thread_id process_id s =
     (let (i, s1) = new_window_object window_name class_name style parent thread_id process_id s;
          h = wn_handle (sw_windows (hw_world s1) ! i);
          s2 = upd_world (\<lambda>w. w\<lparr>sw_window_store := AList.update (KeyHandle h) i (sw_window_store w)\<rparr>) s1
      in (i, case window_name of
               None \<Rightarrow> s2
             | Some n \<Rightarrow> if n = [] then s2
                 else upd_world (\<lambda>w. w\<lparr>sw_window_store := AList.update (KeyName n) i (sw_window_store w)\<rparr>) s2))"

definition create_window ::
  "string option \<Rightarrow> string option \<Rightarrow> int \<Rightarrow> int \<Rightarrow> int \<Rightarrow> int \<Rightarrow> session_state \<Rightarrow> int \<times> session_state" where
  "create_window window_name class_name style parent thread_id process_id s =
     (let (i, s1) = desktop_new_window window_name class_name style parent thread_id process_id s
      in (wn_handle (sw_windows (hw_world s1) ! i), s1))"

definition create_window_class :: "int \<Rightarrow> string option \<Rightarrow> session_state \<Rightarrow> int \<times> session_state" where
  "create_window_class class_obj class_name s =
     (let (i, s1) = new_class_object class_obj class_name s;
          atom = wc_handle (sw_classes (hw_world s1) ! i);
          s2 = upd_world (\<lambda>w. w\<lparr>sw_class_store := AList.update (KeyHandle atom) i (sw_class_store w)\<rparr>) s1
      in (atom, case class_name of
                  None \<Rightarrow> s2
                | Some n \<Rightarrow> if n = [] then s2
                    else upd_world (\<lambda>w. w\<lparr>sw_class_store := AList.update (KeyName n) i (sw_class_store w)\<rparr>) s2))"

definition get_window_class :: "store_key \<Rightarrow> session_state \<Rightarrow> window_class option" where
  "get_window_class atom s =
     map_option (\<lambda>i. sw_classes (hw_world s) ! i) (map_of (sw_class_store (hw_world s)) atom)"

definition is_window :: "gui_object \<Rightarrow> bool" where
  "is_window x = (case x of WindowObj _ \<Rightarrow> True | _ \<Rightarrow> False)"

definition get_window :: "int \<Rightarrow> session_state \<Rightarrow> window option" where
  "get_window handle s =
     (case ht_get plain_callbacks is_window handle (hw_tables s 0) (hw_world s) of
        Some (WindowObj i) \<Rightarrow> Some (sw_windows (hw_world s) ! i)
      | _ \<Rightarrow> None)"

definition get_current_desktop :: "session_state \<Rightarrow> desktop" where
  "get_current_desktop s = sw_desktops (hw_world s) ! sw_curr_desktop (hw_world s)"

definition get_current_station :: "session_state \<Rightarrow> station" where
  "get_current_station s = sw_stations (hw_world s) ! sw_curr_station (hw_world s)"

subsection \<open>Invariant\<close>

text \<open>Each window handle in the table is that of its window, every handle key of the window store names the window
  that \<open>get_window\<close> finds, and every name key names a window or a class of that name.\<close>

definition session_wf :: "session_state \<Rightarrow> bool" where
  "session_wf s \<longleftrightarrow> handles_wf plain_callbacks s \<and>
     (\<forall>h i. hw_tables s 0 h = Some (WindowObj i) \<longrightarrow>
        i < length (sw_windows (hw_world s)) \<and> wn_handle (sw_windows (hw_world s) ! i) = h) \<and>
     (\<forall>h i. map_of (sw_window_store (hw_world s)) (KeyHandle h) = Some i \<longrightarrow> hw_tables s 0 h = Some (WindowObj i)) \<and>
     (\<forall>n i. map_of (sw_window_store (hw_world s)) (KeyName n) = Some i \<longrightarrow>
        i < length (sw_windows (hw_world s)) \<and> wn_name (sw_windows (hw_world s) ! i) = Some n)"

lemma session_wfD:
  assumes "session_wf s"
  shows "handles_wf plain_callbacks s"
    "hw_tables s 0 h = Some (WindowObj i) \<Longrightarrow>
       i < length (sw_windows (hw_world s)) \<and> wn_handle (sw_windows (hw_world s) ! i) = h"
    "map_of (sw_window_store (hw_world s)) (KeyHandle h) = Some i \<Longrightarrow> hw_tables s 0 h = Some (WindowObj i)"
    "map_of (sw_window_store (hw_world s)) (KeyName n) = Some i \<Longrightarrow>
        i < length (sw_windows (hw_world s)) \<and> wn_name (sw_windows (hw_world s) ! i) = Some n"
  using assms unfolding session_wf_def by simp_all

lemma upd_world_simps [simp]:
  "hw_world (upd_world f s) = f (hw_world s)" "hw_tables (upd_world f s) = hw_tables s"
  "hw_alloc (upd_world f s) = hw_alloc s" "handles_wf cb (upd_world f s) = handles_wf cb s"
  by (simp_all add: upd_world_def handles_wf_def handle_issued_def)

lemma create_window_ok:
  assumes wf: "session_wf s" and r: "0 < handle_room s"
    and c: "create_window name cls style parent tid pid s = (h, s')"
  shows "session_wf s' \<and>
    get_window h s' = Some \<lparr>wn_handle = h, wn_name = name, wn_class_name = cls, wn_style = style, wn_parent = parent,
      wn_thread_id = tid, wn_process_id = pid, wn_props = [], wn_lv_columns = []\<rparr> \<and>
    hw_tables s 0 h = None \<and> h AND HANDLE_MASK = h \<and>
    (\<forall>g. g AND HANDLE_MASK \<noteq> h \<longrightarrow> get_window g s' = get_window g s) \<and>
    (\<forall>n. map_of (sw_window_store (hw_world s')) (KeyName n) =
      (if name = Some n \<and> n \<noteq> [] then Some (length (sw_windows (hw_world s)))
       else map_of (sw_window_store (hw_world s)) (KeyName n)))"
proof -
  let ?i = "length (sw_windows (hw_world s))"
  let ?new = "\<lparr>wn_handle = h, wn_name = name, wn_class_name = cls, wn_style = style, wn_parent = parent,
      wn_thread_id = tid, wn_process_id = pid, wn_props = [], wn_lv_columns = []\<rparr>"
  obtain h0 s1 where o0: "open_in plain_callbacks 0 (WindowObj ?i) s = (h0, s1)" by fastforce
  have w1: "hw_world s1 = hw_world s" using plain_open(5) [OF session_wfD(1) [OF wf] r o0] .
  have h: "h0 = h"
    using c by (auto simp: create_window_def desktop_new_window_def new_window_object_def gui_init_def o0 w1 Let_def
        split: option.splits if_splits)
  note c' = c [unfolded create_window_def desktop_new_window_def new_window_object_def gui_init_def o0 Let_def prod.case
      h, simplified]
  note eq = conjunct2 [OF c', symmetric]
  have t: "hw_tables s' = hw_tables s1" and al: "handles_wf plain_callbacks s' = handles_wf plain_callbacks s1"
    and w: "sw_windows (hw_world s') = sw_windows (hw_world s1) @ [?new]"
    and st: "sw_window_store (hw_world s') =
      (let st1 = AList.update (KeyHandle h) ?i (sw_window_store (hw_world s1)) in
       case name of None \<Rightarrow> st1 | Some n \<Rightarrow> if n = [] then st1 else AList.update (KeyName n) ?i st1)"
    by (simp_all add: eq w1 Let_def split: option.splits if_splits)
  note po = plain_open [OF session_wfD(1) [OF wf] r o0 [unfolded h]]
  have t': "hw_tables s' = (hw_tables s)(0 := (hw_tables s 0)(h \<mapsto> WindowObj ?i))" using t po(4) by simp
  have w': "sw_windows (hw_world s') = sw_windows (hw_world s) @ [?new]" using w po(5) by simp
  have mo: "map_of (sw_window_store (hw_world s')) k =
      (if k = KeyHandle h \<or> (\<exists>n. name = Some n \<and> n \<noteq> [] \<and> k = KeyName n) then Some ?i
       else map_of (sw_window_store (hw_world s)) k)" for k
    using st po(5) by (auto simp: Let_def AList.update_conv' split: option.splits if_splits)
  have "session_wf s'"
    unfolding session_wf_def
  proof (intro conjI allI impI)
    show "handles_wf plain_callbacks s'" using al po(1) by simp
  qed (use session_wfD [OF wf] po(2) in \<open>auto simp: t' w' mo nth_append intro: less_SucI split: if_splits\<close>)
  moreover have "get_window g s' = get_window g s" if "g AND HANDLE_MASK \<noteq> h" for g
    using session_wfD(2) [OF wf, of "g AND HANDLE_MASK"] that
    by (auto simp: get_window_def ht_get_def plain_callbacks_def t' w' nth_append is_window_def
        split: option.splits gui_object.splits)
  moreover have "get_window h s' = Some ?new"
    using po(3) by (simp add: get_window_def ht_get_def plain_callbacks_def t' w' is_window_def)
  ultimately show ?thesis using mo po(2,3) by auto
qed

lemma create_window_room:
  assumes wf: "session_wf s" and r: "0 < handle_room s"
    and c: "create_window name cls style parent tid pid s = (h, s')"
  shows "handle_room s' = handle_room s - 1"
proof -
  obtain h0 s1 where o: "open_in plain_callbacks 0 (WindowObj (length (sw_windows (hw_world s)))) s = (h0, s1)"
    by fastforce
  have "hw_alloc s' = hw_alloc s1"
    using c by (auto simp: create_window_def desktop_new_window_def new_window_object_def gui_init_def o Let_def
        split: option.splits)
  then show ?thesis
    using open_in_law [OF session_wfD(1) [OF wf] r o] by (simp add: handle_room_def)
qed

lemma create_window_class_ok:
  assumes wf: "session_wf s" and r: "0 < handle_room s" and c: "create_window_class x name s = (a, s')"
  shows "session_wf s' \<and> handle_room s' = handle_room s - 1 \<and>
    get_window_class (KeyHandle a) s' = Some \<lparr>wc_handle = a, wc_wclass = x, wc_name = name\<rparr>"
proof -
  let ?i = "length (sw_classes (hw_world s))"
  obtain a0 s1 where o: "open_in plain_callbacks 0 (ClassObj ?i) s = (a0, s1)" by fastforce
  note po = plain_open [OF session_wfD(1) [OF wf] r o]
  note c' = c [unfolded create_window_class_def new_class_object_def gui_init_def o Let_def prod.case, simplified]
  have a: "a0 = a" using c' po(5) by simp
  have s': "hw_tables s' = hw_tables s1" "hw_alloc s' = hw_alloc s1"
    "sw_windows (hw_world s') = sw_windows (hw_world s)"
    "sw_window_store (hw_world s') = sw_window_store (hw_world s)"
    "sw_classes (hw_world s') = sw_classes (hw_world s) @ [\<lparr>wc_handle = a, wc_wclass = x, wc_name = name\<rparr>]"
    "map_of (sw_class_store (hw_world s')) (KeyHandle a) = Some ?i"
    using c' po(5) a by (auto simp: AList.update_conv' split: option.splits if_splits)
  have "session_wf s'"
    unfolding session_wf_def
  proof (intro conjI allI impI)
    show "handles_wf plain_callbacks s'"
      using po(1) s'(1,2) by (simp add: handles_wf_def handle_issued_def)
  qed (use session_wfD [OF wf] po(2) in \<open>auto simp: s' po(4) a split: if_splits\<close>)
  moreover have "handle_room s' = handle_room s - 1"
    using open_in_law [OF session_wfD(1) [OF wf] r o] s'(2) by (simp add: handle_room_def)
  ultimately show ?thesis by (simp add: get_window_class_def s')
qed

datatype gui_op =
    CreateWindow "string option" "string option" int int int int
  | CreateClass int "string option"

primrec gui_step :: "gui_op \<Rightarrow> session_state \<Rightarrow> session_state" where
  "gui_step (CreateWindow n c st p t i) s = snd (create_window n c st p t i s)"
| "gui_step (CreateClass x n) s = snd (create_window_class x n s)"

definition gui_run :: "gui_op list \<Rightarrow> session_state \<Rightarrow> session_state" where
  "gui_run ops s = foldl (\<lambda>s op. gui_step op s) s ops"

lemma gui_run_ok:
  "session_wf s \<Longrightarrow> length ops \<le> handle_room s \<Longrightarrow>
   session_wf (gui_run ops s) \<and> handle_room s - length ops \<le> handle_room (gui_run ops s)"
proof (induction ops arbitrary: s)
  case (Cons op ops)
  have r: "0 < handle_room s" using Cons.prems(2) by simp
  have st: "session_wf (gui_step op s) \<and> handle_room (gui_step op s) = handle_room s - 1"
  proof (cases op)
    case (CreateWindow n c st p t i)
    obtain h s' where e: "create_window n c st p t i s = (h, s')" by fastforce
    show ?thesis using create_window_ok [OF Cons.prems(1) r e] create_window_room [OF Cons.prems(1) r e]
      by (simp add: CreateWindow e)
  next
    case (CreateClass x n)
    obtain h s' where e: "create_window_class x n s = (h, s')" by fastforce
    show ?thesis using create_window_class_ok [OF Cons.prems(1) r e] by (simp add: CreateClass e)
  qed
  have "length ops \<le> handle_room (gui_step op s)" using st Cons.prems(2) by simp
  from Cons.IH [OF conjunct1 [OF st] this] st show ?case
    by (simp add: gui_run_def)
qed (simp add: gui_run_def)

lemmas session_eval = init_sessman_def new_session_object_def session_new_station_def station_new_desktop_def
  new_desktop_object_def new_window_object_def gui_init_def open_in_def new_handle_def allocate_handle_def
  put_table_def plain_callbacks_def upd_world_def Let_def init_allocator_def

lemma init_sessman_wf: "session_wf (init_sessman init_allocator)"
  "handle_room (init_sessman init_allocator) = 2 ^ 30 - 41"
  by (simp add: session_wf_def handles_wf_def handle_issued_def pseudo_ok_def session_eval)
    (simp add: handle_room_def session_eval)

text \<open>after any windows and window classes, a new window has a fresh handle that \<open>get_window\<close> resolves to exactly the
  window created; no other handle changes what it resolves to, and its name, when it has one, is the only name of the
  window store that changes.\<close>

theorem created_window_resolves:
  assumes "length ops < 2 ^ 30 - 41" and "s = gui_run ops (init_sessman init_allocator)"
    and "create_window name cls style parent tid pid s = (h, s')"
  shows "get_window h s = None \<and>
    get_window h s' = Some \<lparr>wn_handle = h, wn_name = name, wn_class_name = cls, wn_style = style,
      wn_parent = parent, wn_thread_id = tid, wn_process_id = pid, wn_props = [], wn_lv_columns = []\<rparr> \<and>
    (\<forall>g. g AND HANDLE_MASK \<noteq> h \<longrightarrow> get_window g s' = get_window g s) \<and>
    (\<forall>n. map_of (sw_window_store (hw_world s')) (KeyName n) =
      (if name = Some n \<and> n \<noteq> [] then Some (length (sw_windows (hw_world s)))
       else map_of (sw_window_store (hw_world s)) (KeyName n)))"
proof -
  have "length ops \<le> handle_room (init_sessman init_allocator)" using assms(1) by (simp add: init_sessman_wf(2))
  from gui_run_ok [OF init_sessman_wf(1) this]
  have w: "session_wf s" "2 ^ 30 - 41 - length ops \<le> handle_room s"
    by (simp_all only: init_sessman_wf(2) assms(2))
  have "0 < (2 ^ 30 - 41 :: nat) - length ops" using assms(1) by simp
  with w(2) have r: "0 < handle_room s" by linarith
  note ok = create_window_ok [OF w(1) r assms(3)]
  then have "get_window h s = None" using ok by (simp add: get_window_def ht_get_def plain_callbacks_def)
  with ok show ?thesis by blast
qed

theorem created_window_resolves_witness:
  "map_option wn_name (get_window 0xa8 (snd (create_window (Some ''main'') None 0 0 1 2
     (gui_run [CreateClass 7 (Some ''cls'')] (init_sessman init_allocator))))) = Some (Some ''main'')"
proof -
  let ?s = "gui_run [CreateClass 7 (Some ''cls'')] (init_sessman init_allocator)"
  have l: "length [CreateClass 7 (Some ''cls'')] < 2 ^ 30 - 41" by simp
  have "create_window (Some ''main'') None 0 0 1 2 ?s = (0xa8, snd (create_window (Some ''main'') None 0 0 1 2 ?s))"
    by (simp add: gui_run_def create_window_class_def new_class_object_def create_window_def desktop_new_window_def
        session_eval)
  from created_window_resolves [OF l refl this] show ?thesis by simp
qed

end
