(* ===== verification/Guest_Memory.thy ===== *)
theory Guest_Memory
  imports Bytes
begin

text \<open>
  The interface of guest memory that the CPU layer, the unwinder, the exception dispatchers and the debugger server
  use: reads and writes of byte ranges, which the engine refuses when a byte is not mapped. The engine is
  Unicorn, not under \<^verbatim>\<open>src/\<close>; the locale \<open>guest_memory\<close> states what its documentation promises, and
  the interpretation at the end shows a memory that keeps the promises.
\<close>

locale guest_memory =
  fixes rd :: "'m \<Rightarrow> int \<Rightarrow> int \<Rightarrow> byte list result"
    and wr :: "'m \<Rightarrow> int \<Rightarrow> byte list \<Rightarrow> 'm result"
  assumes rd_length: "rd m a n = Inr bs \<Longrightarrow> length bs = nat n"
    and rd_sub: "rd m a n = Inr bs \<Longrightarrow> 0 \<le> i \<Longrightarrow> 0 \<le> k \<Longrightarrow> i + k \<le> n \<Longrightarrow>
      rd m (a + i) k = Inr (take (nat k) (drop (nat i) bs))"
    and rd_append: "0 \<le> j \<Longrightarrow> 0 \<le> k \<Longrightarrow> rd m a j = Inr bs \<Longrightarrow> rd m (a + j) k = Inr cs \<Longrightarrow> rd m a (j + k) = Inr (bs @ cs)"
    and wr_rd_same: "wr m a bs = Inr m' \<Longrightarrow> rd m' a (int (length bs)) = Inr bs"
    and wr_rd_other: "wr m a bs = Inr m' \<Longrightarrow> a + int (length bs) \<le> b \<or> b + n \<le> a \<Longrightarrow> rd m' b n = rd m b n"
    and wr_ok: "rd m a (int (length bs)) = Inr cs \<Longrightarrow> \<exists>m'. wr m a bs = Inr m'"
begin

lemma wr_rd_nonempty:
  assumes "wr m a bs = Inr m'" "0 \<le> i" "0 \<le> k" "i + k \<le> int (length bs)"
  shows "rd m' (a + i) k = Inr (take (nat k) (drop (nat i) bs))"
  using rd_sub [OF wr_rd_same [OF assms(1)] assms(2,3,4)] .

end

subsection \<open>Integers in guest memory\<close>

text \<open>\<open>struct.unpack\<close> of one unsigned little-endian integer, which checks the number of bytes it gets.\<close>

definition unpack_uint :: "nat \<Rightarrow> byte list \<Rightarrow> int result" where
  "unpack_uint n bs = (if length bs = n then Inr (le_val bs) else Inl StructError)"

definition read_uint :: "(int \<Rightarrow> int \<Rightarrow> byte list result) \<Rightarrow> nat \<Rightarrow> int \<Rightarrow> int result" where
  "read_uint read n addr = rbind (read addr (int n)) (unpack_uint n)"

context guest_memory
begin

lemma read_uint_ok: "rd m a (int n) = Inr bs \<Longrightarrow> read_uint (rd m) n a = Inr (le_val bs)"
  using rd_length by (auto simp: read_uint_def unpack_uint_def)

lemma read_uint_wr_same:
  assumes "wr m a (le_bytes n v) = Inr m'" "0 \<le> v" "v < 256 ^ n"
  shows "read_uint (rd m') n a = Inr v"
  using read_uint_ok [of m' a n "le_bytes n v"] wr_rd_same [OF assms(1)] assms(2,3)
  by (simp add: le_val_le_bytes_id)

lemma read_uint_wr_other:
  assumes "wr m a bs = Inr m'" "a + int (length bs) \<le> b \<or> b + int n \<le> a"
  shows "read_uint (rd m') n b = read_uint (rd m) n b"
  using wr_rd_other [OF assms] by (simp add: read_uint_def)

lemma read_uint_bounds: "read_uint (rd m) n a = Inr v \<Longrightarrow> 0 \<le> v \<and> v < 256 ^ n"
  using rd_length [of m a "int n"] le_val_less
  by (fastforce simp: read_uint_def unpack_uint_def rbind_Inr_iff split: if_splits)

end

subsection \<open>A byte-addressed memory\<close>

type_synonym byte_mem = "int \<rightharpoonup> byte"

definition bm_range :: "int \<Rightarrow> int \<Rightarrow> int list" where
  "bm_range a n = map (\<lambda>i. a + int i) [0..<nat n]"

definition bm_read :: "byte_mem \<Rightarrow> int \<Rightarrow> int \<Rightarrow> byte list result" where
  "bm_read m a n =
     (if list_all (\<lambda>x. m x \<noteq> None) (bm_range a n) then Inr (map (\<lambda>x. the (m x)) (bm_range a n)) else Inl UcError)"

definition bm_write :: "byte_mem \<Rightarrow> int \<Rightarrow> byte list \<Rightarrow> byte_mem result" where
  "bm_write m a bs =
     (if list_all (\<lambda>x. m x \<noteq> None) (bm_range a (int (length bs)))
      then Inr (\<lambda>x. if a \<le> x \<and> x < a + int (length bs) then Some (bs ! nat (x - a)) else m x) else Inl UcError)"

text \<open>\<open>flat\<close> memory has the given bytes from address 0 and nothing else.\<close>

definition bm_of :: "int \<Rightarrow> byte list \<Rightarrow> byte_mem" where
  "bm_of a bs x = (if a \<le> x \<and> x < a + int (length bs) then Some (bs ! nat (x - a)) else None)"

lemma length_bm_range [simp]: "length (bm_range a n) = nat n"
  by (simp add: bm_range_def)

lemma set_bm_range: "set (bm_range a n) = {a..<a + n}"
proof (intro set_eqI iffI)
  fix x assume "x \<in> {a..<a + n}"
  then have "nat (x - a) \<in> {0..<nat n}" "a + int (nat (x - a)) = x" by auto
  then show "x \<in> set (bm_range a n)"
    unfolding bm_range_def set_map set_upt by (intro image_eqI [of _ _ "nat (x - a)"]) simp_all
qed (auto simp: bm_range_def)

lemma nth_bm_range: "i < nat n \<Longrightarrow> bm_range a n ! i = a + int i"
  by (simp add: bm_range_def)

lemma bm_read_Inr:
  "bm_read m a n = Inr bs \<longleftrightarrow>
     length bs = nat n \<and> (\<forall>i<nat n. m (a + int i) = Some (bs ! i))"
proof -
  have A: "list_all (\<lambda>x. m x \<noteq> None) (bm_range a n) \<longleftrightarrow> (\<forall>i<nat n. m (a + int i) \<noteq> None)"
    by (simp add: list_all_length nth_bm_range)
  have B: "map (\<lambda>x. the (m x)) (bm_range a n) = bs \<longleftrightarrow>
      length bs = nat n \<and> (\<forall>i<nat n. the (m (a + int i)) = bs ! i)"
    by (auto simp: list_eq_iff_nth_eq nth_bm_range)
  show ?thesis
  proof (cases "\<forall>i<nat n. m (a + int i) \<noteq> None")
    case True
    have "the (m (a + int i)) = bs ! i \<longleftrightarrow> m (a + int i) = Some (bs ! i)" if "i < nat n" for i
      using True that by (cases "m (a + int i)") auto
    then show ?thesis unfolding bm_read_def A using True B by auto
  next
    case False
    then have "bm_read m a n = Inl UcError" unfolding bm_read_def A by (rule if_not_P)
    then show ?thesis using False by auto
  qed
qed

interpretation bm: guest_memory bm_read bm_write
proof (unfold_locales, goal_cases)
  case (1 m a n bs)
  then show ?case by (simp add: bm_read_Inr)
next
  case (2 m a n bs i k)
  show ?case unfolding bm_read_Inr
  proof (intro conjI allI impI)
    show "length (take (nat k) (drop (nat i) bs)) = nat k" using 2 by (auto simp: bm_read_Inr)
    fix j assume j: "j < nat k"
    have e: "a + i + int j = a + int (nat i + j)" using 2 by simp
    have l: "nat i + j < nat n" using 2 j by linarith
    have "\<forall>i<nat n. m (a + int i) = Some (bs ! i)" using 2(1) by (simp add: bm_read_Inr)
    from this [rule_format, OF l] have "m (a + int (nat i + j)) = Some (bs ! (nat i + j))" .
    then show "m (a + i + int j) = Some (take (nat k) (drop (nat i) bs) ! j)"
      unfolding e using 2(1) l j by (simp add: bm_read_Inr)
  qed
next
  case (3 j k m a bs cs)
  show ?case unfolding bm_read_Inr
  proof (intro conjI allI impI)
    show "length (bs @ cs) = nat (j + k)" using 3 by (auto simp: bm_read_Inr nat_add_distrib)
    fix i assume i: "i < nat (j + k)"
    show "m (a + int i) = Some ((bs @ cs) ! i)"
    proof (cases "i < nat j")
      case True
      then show ?thesis using 3 by (simp add: bm_read_Inr nth_append)
    next
      case False
      then have "i - nat j < nat k" "a + int i = a + j + int (i - nat j)" using i 3(1,2) by linarith+
      have "\<forall>i<nat k. m (a + j + int i) = Some (cs ! i)" using 3(4) by (simp add: bm_read_Inr)
      from this [rule_format, OF \<open>i - nat j < nat k\<close>] show ?thesis
        using 3(3) False unfolding \<open>a + int i = a + j + int (i - nat j)\<close> by (simp add: bm_read_Inr nth_append)
    qed
  qed
next
  case (4 m a bs m')
  then have "m' = (\<lambda>x. if a \<le> x \<and> x < a + int (length bs) then Some (bs ! nat (x - a)) else m x)"
    by (simp add: bm_write_def split: if_splits)
  then show ?case by (simp add: bm_read_Inr)
next
  case (5 m a bs m' b n)
  then have m': "m' = (\<lambda>x. if a \<le> x \<and> x < a + int (length bs) then Some (bs ! nat (x - a)) else m x)"
    by (simp add: bm_write_def split: if_splits)
  have "m' x = m x" if "x \<in> set (bm_range b n)" for x
    using that 5(2) by (auto simp: m' set_bm_range)
  then show ?case by (simp add: bm_read_def list_all_iff)
next
  case (6 m a bs cs)
  then show ?case by (auto simp: bm_write_def bm_read_def split: if_splits)
qed

end
