(* ===== verification/Unwind.thy ===== *)
theory Unwind
  imports Guest_Memory
begin

text \<open>
  The x64 table-based unwinder of \<^verbatim>\<open>speakeasy/windows/unwind.py\<close>: the search for the runtime function of
  a program counter (in images and in the tables a sample adds), the decoding of unwind codes, and the virtual
  unwind of one frame. The reader of guest memory is an argument. A \<open>CONTEXT64\<close> is the record \<open>context64\<close>, whose
  fields are 64-bit: assignments keep the value modulo \<open>2 ^ 64\<close> as the \<open>ctypes\<close> fields do.
\<close>

type_synonym reader = "int \<Rightarrow> int \<Rightarrow> byte list result"

definition UNW_FLAG_EHANDLER :: int where "UNW_FLAG_EHANDLER = 1"
definition UNW_FLAG_UHANDLER :: int where "UNW_FLAG_UHANDLER = 2"
definition UNW_FLAG_CHAININFO :: int where "UNW_FLAG_CHAININFO = 4"

definition UWOP_PUSH_NONVOL :: int where "UWOP_PUSH_NONVOL = 0"
definition UWOP_ALLOC_LARGE :: int where "UWOP_ALLOC_LARGE = 1"
definition UWOP_ALLOC_SMALL :: int where "UWOP_ALLOC_SMALL = 2"
definition UWOP_SET_FPREG :: int where "UWOP_SET_FPREG = 3"
definition UWOP_SAVE_NONVOL :: int where "UWOP_SAVE_NONVOL = 4"
definition UWOP_SAVE_NONVOL_FAR :: int where "UWOP_SAVE_NONVOL_FAR = 5"
definition UWOP_SAVE_XMM128 :: int where "UWOP_SAVE_XMM128 = 8"
definition UWOP_SAVE_XMM128_FAR :: int where "UWOP_SAVE_XMM128_FAR = 9"
definition UWOP_PUSH_MACHFRAME :: int where "UWOP_PUSH_MACHFRAME = 10"

lemmas uwop_defs = UWOP_PUSH_NONVOL_def UWOP_ALLOC_LARGE_def UWOP_ALLOC_SMALL_def UWOP_SET_FPREG_def
  UWOP_SAVE_NONVOL_def UWOP_SAVE_NONVOL_FAR_def UWOP_SAVE_XMM128_def UWOP_SAVE_XMM128_FAR_def
  UWOP_PUSH_MACHFRAME_def

text \<open>\<open>GPRS\<close>: register number \<open>i\<close> is the general register \<open>i\<close> of the context; number 4 is \<open>Rsp\<close>.\<close>

record context64 =
  cx_gpr :: "int \<Rightarrow> int"
  cx_rip :: int
  cx_xmm :: "int \<Rightarrow> int \<times> int"

definition RSP :: int where "RSP = 4"

definition IMAGE_DIRECTORY_ENTRY_EXCEPTION :: int where "IMAGE_DIRECTORY_ENTRY_EXCEPTION = 3"

record runtime_function =
  rf_image_base :: int
  rf_address :: int
  rf_begin :: int
  rf_end :: int
  rf_unwind_info :: int

record frame_info =
  fi_establisher_frame :: int
  fi_handler :: int
  fi_handler_data :: int

definition u32 :: "reader \<Rightarrow> int \<Rightarrow> int result" where "u32 read addr = read_uint read 4 addr"
definition u64 :: "reader \<Rightarrow> int \<Rightarrow> int result" where "u64 read addr = read_uint read 8 addr"

text \<open>\<open>struct.unpack("<III", ...)\<close>.\<close>

definition unpack_III :: "byte list \<Rightarrow> (int \<times> int \<times> int) result" where
  "unpack_III bs =
     (if length bs = 12
      then Inr (le_val (take 4 bs), le_val (take 4 (drop 4 bs)), le_val (drop 8 bs)) else Inl StructError)"

definition read_runtime_function :: "reader \<Rightarrow> int \<Rightarrow> int \<Rightarrow> runtime_function result" where
  "read_runtime_function read image_base address =
     rbind (rbind (read address 12) unpack_III) (\<lambda>(b, e, u).
       Inr \<lparr>rf_image_base = image_base, rf_address = address, rf_begin = b, rf_end = e, rf_unwind_info = u\<rparr>)"

subsection \<open>Tables that the sample adds\<close>

record function_table =
  ft_identifier :: int
  ft_base :: int
  ft_begin :: int
  ft_end :: int
  ft_count :: int
  ft_callback :: int

text \<open>\<open>struct.iter_unpack("<III", ...)\<close>.\<close>

fun chunks12 :: "byte list \<Rightarrow> (int \<times> int \<times> int) list" where
  "chunks12 bs =
     (if length bs < 12 then []
      else (le_val (take 4 bs), le_val (take 4 (drop 4 bs)), le_val (take 4 (drop 8 bs))) # chunks12 (drop 12 bs))"

declare chunks12.simps [simp del]

definition iter_unpack_III :: "byte list \<Rightarrow> (int \<times> int \<times> int) list result" where
  "iter_unpack_III bs = (if length bs mod 12 = 0 then Inr (chunks12 bs) else Inl StructError)"

definition per_page :: int where "per_page = 0x1000 div 12"

text \<open>The search over one page of entries: the index of the first entry that contains \<open>off\<close>.\<close>

fun find_entry :: "int \<Rightarrow> int \<Rightarrow> (int \<times> int \<times> int) list \<Rightarrow> int option" where
  "find_entry i off [] = None"
| "find_entry i off ((b, e, _) # es) = (if b \<le> off \<and> off < e then Some i else find_entry (i + 1) off es)"

text \<open>
  \<open>read_function_table\<close> is a generator: a page is read only when the search reaches it, so a search that ends
  early reads no later page.
\<close>

function search_pages :: "reader \<Rightarrow> int \<Rightarrow> int \<Rightarrow> int \<Rightarrow> int \<Rightarrow> int option result" where
  "search_pages read address count off first =
     (if count \<le> first then Inr None
      else rbind (rbind (read (address + 12 * first) (12 * min per_page (count - first))) iter_unpack_III)
        (\<lambda>es. case find_entry first off es of
                Some i \<Rightarrow> Inr (Some i)
              | None \<Rightarrow> search_pages read address count off (first + per_page)))"
  by pat_completeness auto
termination
  by (relation "measure (\<lambda>(_, _, count, _, first). nat (count - first))") (auto simp: per_page_def)

declare search_pages.simps [simp del]

definition search_function_table :: "reader \<Rightarrow> function_table \<Rightarrow> int \<Rightarrow> runtime_function option result" where
  "search_function_table read table pc =
     rbind (search_pages read (ft_identifier table) (ft_count table) (pc - ft_base table) 0)
       (\<lambda>r. case r of
              None \<Rightarrow> Inr None
            | Some i \<Rightarrow> rbind (read_runtime_function read (ft_base table) (ft_identifier table + 12 * i)) (Inr \<circ> Some))"

subsection \<open>The exception directory of an image\<close>

text \<open>\<open>bisect.bisect_right(a, x)\<close> of the standard library, with its bounds \<open>lo\<close> and \<open>hi\<close>.\<close>

function bisect_right :: "int list \<Rightarrow> int \<Rightarrow> nat \<Rightarrow> nat \<Rightarrow> nat" where
  "bisect_right a x lo hi =
     (if lo < hi
      then (let mid = (lo + hi) div 2
            in if x < a ! mid then bisect_right a x lo mid else bisect_right a x (mid + 1) hi)
      else lo)"
  by pat_completeness auto
termination
  by (relation "measure (\<lambda>(_, _, lo, hi). hi - lo)") auto

declare bisect_right.simps [simp del]

text \<open>The address of the exception entry of the data directories, which start 0x70 bytes into the optional header.\<close>

definition exception_directory :: "int \<Rightarrow> int \<Rightarrow> int" where
  "exception_directory image_base lfanew =
     image_base + lfanew + 0x18 + 0x70 + 8 * IMAGE_DIRECTORY_ENTRY_EXCEPTION"

definition lookup_function_entry :: "reader \<Rightarrow> int \<Rightarrow> int \<Rightarrow> runtime_function option result" where
  "lookup_function_entry read image_base pc =
     rbind (read image_base 2) (\<lambda>magic.
       if magic \<noteq> [0x4D, 0x5A] then Inr None
       else rbind (u32 read (image_base + 0x3C)) (\<lambda>lfanew.
         rbind (read (exception_directory image_base lfanew) 8) (\<lambda>dir.
           if length dir \<noteq> 8 then Inl StructError
           else (let rva = le_val (take 4 dir); sz = le_val (drop 4 dir)
             in if rva = 0 then Inr None
                else (let table = image_base + rva
                  in rbind (rbind (read table (sz - sz mod 12)) iter_unpack_III) (\<lambda>es.
                    (let begins = map fst es;
                         i = int (bisect_right begins (pc - image_base) 0 (length begins)) - 1
                     in if i < 0 then Inr None
                        else rbind (read_runtime_function read image_base (table + 12 * i)) (\<lambda>fn.
                          if \<not> (rf_begin fn \<le> pc - image_base \<and> pc - image_base < rf_end fn) then Inr None
                          else if rf_unwind_info fn AND 1 \<noteq> 0
                               then rbind (read_runtime_function read image_base
                                      (image_base + (rf_unwind_info fn AND NOT 1))) (Inr \<circ> Some)
                               else Inr (Some fn)))))))))"

subsection \<open>Unwind codes\<close>

record unwind_code =
  uc_prolog_offset :: int
  uc_op :: int
  uc_info :: int
  uc_operand :: int

record unwind_info =
  ui_flags :: int
  ui_prolog_size :: int
  ui_frame_reg :: int
  ui_frame_offset :: int
  ui_codes :: "unwind_code list"
  ui_trailer :: int

definition unwind_slots :: "int \<Rightarrow> int \<Rightarrow> nat" where
  "unwind_slots op info =
     (if op = UWOP_ALLOC_LARGE then (if info \<noteq> 0 then 3 else 2)
      else if op = UWOP_SAVE_NONVOL \<or> op = UWOP_SAVE_XMM128 then 2
      else if op = UWOP_SAVE_NONVOL_FAR \<or> op = UWOP_SAVE_XMM128_FAR then 3
      else 1)"

lemma unwind_slots_pos [simp]: "0 < unwind_slots op info"
  by (simp add: unwind_slots_def)

text \<open>The loop over the slots. A Python slice past the end of \<open>raw\<close> is shorter; an index past it raises.\<close>

function decode_codes :: "byte list \<Rightarrow> nat \<Rightarrow> nat \<Rightarrow> unwind_code list result" where
  "decode_codes raw count i =
     (if count \<le> i then Inr []
      else if length raw \<le> 2 * i + 1 then Inl IndexError
      else (let b = uint (raw ! (2 * i + 1)); op = b AND 0xF; info = drop_bit 4 b; n = unwind_slots op info
            in rbind (decode_codes raw count (i + n)) (\<lambda>cs.
                 Inr (\<lparr>uc_prolog_offset = uint (raw ! (2 * i)), uc_op = op, uc_info = info,
                       uc_operand = le_val (take (2 * n - 2) (drop (2 * i + 2) raw))\<rparr> # cs))))"
  by pat_completeness auto
termination
proof (relation "measure (\<lambda>(_, count, i). count - i)", simp)
  fix raw :: "byte list" and count i :: nat and x :: int and xa xb :: int and xc :: nat
  assume "\<not> count \<le> i" "xc = unwind_slots xa xb"
  then show "((raw, count, i + xc), raw, count, i) \<in> measure (\<lambda>(_, count, i). count - i)"
    by (simp add: diff_less_mono2)
qed

declare decode_codes.simps [simp del]

definition read_unwind_info :: "reader \<Rightarrow> int \<Rightarrow> unwind_info result" where
  "read_unwind_info read address =
     rbind (read address 4) (\<lambda>hdr.
       if length hdr \<noteq> 4 then Inl ValueError
       else (let version_flags = uint (hdr ! 0); prolog_size = uint (hdr ! 1);
                 count = uint (hdr ! 2); frame = uint (hdr ! 3)
             in rbind (read (address + 4) (2 * count)) (\<lambda>raw.
                  rbind (decode_codes raw (nat count) 0) (\<lambda>codes.
                    Inr \<lparr>ui_flags = drop_bit 3 version_flags, ui_prolog_size = prolog_size,
                         ui_frame_reg = frame AND 0xF, ui_frame_offset = drop_bit 4 frame, ui_codes = codes,
                         ui_trailer = address + 4 + 2 * ((count + 1) AND NOT 1)\<rparr>))))"

subsection \<open>Virtual unwind\<close>

definition MAX_CHAIN :: nat where "MAX_CHAIN = 32"

definition prolog_offset :: "runtime_function \<Rightarrow> int \<Rightarrow> int" where
  "prolog_offset fn pc = (pc - rf_image_base fn - rf_begin fn) AND 0xFFFFFFFF"

definition get_reg :: "int \<Rightarrow> context64 \<Rightarrow> int" where
  "get_reg r ctx = cx_gpr ctx r"

definition set_reg :: "int \<Rightarrow> int \<Rightarrow> context64 \<Rightarrow> context64" where
  "set_reg r v ctx = ctx\<lparr>cx_gpr := (cx_gpr ctx)(r := v mod 2 ^ 64)\<rparr>"

definition set_rip :: "int \<Rightarrow> context64 \<Rightarrow> context64" where
  "set_rip v ctx = ctx\<lparr>cx_rip := v mod 2 ^ 64\<rparr>"

definition set_xmm :: "int \<Rightarrow> int \<Rightarrow> int \<Rightarrow> context64 \<Rightarrow> context64" where
  "set_xmm r lo hi ctx = ctx\<lparr>cx_xmm := (cx_xmm ctx)(r := (lo mod 2 ^ 64, hi mod 2 ^ 64))\<rparr>"

definition has_flag :: "int \<Rightarrow> int \<Rightarrow> bool" where
  "has_flag flags f \<longleftrightarrow> flags AND f \<noteq> 0"

definition establisher_frame :: "unwind_info \<Rightarrow> int \<Rightarrow> context64 \<Rightarrow> int" where
  "establisher_frame info offset ctx =
     (let frame_set = ui_prolog_size info \<le> offset \<or> has_flag (ui_flags info) UNW_FLAG_CHAININFO \<or>
            list_ex (\<lambda>c. uc_op c = UWOP_SET_FPREG \<and> uc_prolog_offset c \<le> offset) (ui_codes info)
      in if ui_frame_reg info \<noteq> 0 \<and> frame_set
         then get_reg (ui_frame_reg info) ctx - 16 * ui_frame_offset info
         else get_reg RSP ctx)"

text \<open>One unwind code. A read that fails leaves the context as it was.\<close>

definition apply_code ::
  "reader \<Rightarrow> unwind_info \<Rightarrow> int \<Rightarrow> unwind_code \<Rightarrow> context64 \<times> bool \<Rightarrow> (context64 \<times> bool) result" where
  "apply_code read info frame c = (\<lambda>(ctx, mf).
     if uc_op c = UWOP_PUSH_NONVOL
     then rbind (u64 read (get_reg RSP ctx)) (\<lambda>v.
            let ctx1 = set_reg (uc_info c) v ctx in Inr (set_reg RSP (get_reg RSP ctx1 + 8) ctx1, mf))
     else if uc_op c = UWOP_ALLOC_LARGE
     then Inr (set_reg RSP (get_reg RSP ctx + (if uc_info c \<noteq> 0 then uc_operand c else uc_operand c * 8)) ctx, mf)
     else if uc_op c = UWOP_ALLOC_SMALL
     then Inr (set_reg RSP (get_reg RSP ctx + (uc_info c * 8 + 8)) ctx, mf)
     else if uc_op c = UWOP_SET_FPREG
     then Inr (set_reg RSP (get_reg (ui_frame_reg info) ctx - 16 * ui_frame_offset info) ctx, mf)
     else if uc_op c = UWOP_SAVE_NONVOL
     then rbind (u64 read (frame + uc_operand c * 8)) (\<lambda>v. Inr (set_reg (uc_info c) v ctx, mf))
     else if uc_op c = UWOP_SAVE_NONVOL_FAR
     then rbind (u64 read (frame + uc_operand c)) (\<lambda>v. Inr (set_reg (uc_info c) v ctx, mf))
     else if uc_op c = UWOP_SAVE_XMM128 \<or> uc_op c = UWOP_SAVE_XMM128_FAR
     then rbind (read (frame + uc_operand c * (if uc_op c = UWOP_SAVE_XMM128 then 16 else 1)) 16) (\<lambda>bs.
            if length bs \<noteq> 16 then Inl StructError
            else Inr (set_xmm (uc_info c) (le_val (take 8 bs)) (le_val (drop 8 bs)) ctx, mf))
     else if uc_op c = UWOP_PUSH_MACHFRAME
     then (let sp = get_reg RSP ctx + (if uc_info c \<noteq> 0 then 8 else 0)
           in rbind (u64 read sp) (\<lambda>rip. rbind (u64 read (sp + 24)) (\<lambda>rsp.
                Inr (set_reg RSP rsp (set_rip rip ctx), True))))
     else Inr (ctx, mf))"

fun apply_codes ::
  "reader \<Rightarrow> unwind_info \<Rightarrow> int \<Rightarrow> int \<Rightarrow> unwind_code list \<Rightarrow> context64 \<times> bool \<Rightarrow> unit result \<times> context64 \<times> bool" where
  "apply_codes read info frame offset [] st = (Inr (), st)"
| "apply_codes read info frame offset (c # cs) st =
     (if offset < uc_prolog_offset c then apply_codes read info frame offset cs st
      else case apply_code read info frame c st of
             Inl e \<Rightarrow> (Inl e, st)
           | Inr st' \<Rightarrow> apply_codes read info frame offset cs st')"

text \<open>The chain loop: \<open>for _ in range(MAX_CHAIN)\<close>, with the number of rounds left. It returns the last entry and its
  unwind info.\<close>

primrec unwind_chain ::
  "nat \<Rightarrow> reader \<Rightarrow> int \<Rightarrow> int \<Rightarrow> runtime_function \<Rightarrow> unwind_info \<Rightarrow> int \<Rightarrow> context64 \<times> bool
    \<Rightarrow> (runtime_function \<times> unwind_info) result \<times> context64 \<times> bool" where
  "unwind_chain 0 read base pc fn info frame st = (Inl UnwindError, st)"
| "unwind_chain (Suc n) read base pc fn info frame st =
     (case apply_codes read info frame (prolog_offset fn pc) (ui_codes info) st of
        (Inl e, st') \<Rightarrow> (Inl e, st')
      | (Inr _, st') \<Rightarrow>
          (if \<not> has_flag (ui_flags info) UNW_FLAG_CHAININFO then (Inr (fn, info), st')
           else case read_runtime_function read base (ui_trailer info) of
                  Inl e \<Rightarrow> (Inl e, st')
                | Inr fn' \<Rightarrow>
                    (case read_unwind_info read (base + rf_unwind_info fn') of
                       Inl e \<Rightarrow> (Inl e, st')
                     | Inr info' \<Rightarrow> unwind_chain n read base pc fn' info' frame st')))"

definition unwind_leaf :: "reader \<Rightarrow> context64 \<Rightarrow> unit result \<times> context64" where
  "unwind_leaf read ctx =
     (case u64 read (get_reg RSP ctx) of
        Inl e \<Rightarrow> (Inl e, ctx)
      | Inr v \<Rightarrow> (let ctx1 = set_rip v ctx in (Inr (), set_reg RSP (get_reg RSP ctx1 + 8) ctx1)))"

definition find_handler ::
  "reader \<Rightarrow> int \<Rightarrow> runtime_function \<Rightarrow> unwind_info \<Rightarrow> int \<Rightarrow> int \<Rightarrow> (int \<times> int) result" where
  "find_handler read base fn info pc handler_type =
     (if has_flag (ui_flags info) handler_type \<and> ui_prolog_size info \<le> prolog_offset fn pc
      then rbind (u32 read (ui_trailer info)) (\<lambda>h. Inr (base + h, ui_trailer info + 4)) else Inr (0, 0))"

definition virtual_unwind ::
  "reader \<Rightarrow> runtime_function \<Rightarrow> int \<Rightarrow> context64 \<Rightarrow> int \<Rightarrow> frame_info result \<times> context64" where
  "virtual_unwind read fn pc ctx handler_type =
     (let base = rf_image_base fn
      in case read_unwind_info read (base + rf_unwind_info fn) of
           Inl e \<Rightarrow> (Inl e, ctx)
         | Inr info \<Rightarrow>
             (let frame = establisher_frame info (prolog_offset fn pc) ctx
              in case unwind_chain MAX_CHAIN read base pc fn info frame (ctx, False) of
                   (Inl e, ctx', _) \<Rightarrow> (Inl e, ctx')
                 | (Inr (fn', info'), ctx', machine_frame) \<Rightarrow>
                     (case find_handler read base fn' info' pc handler_type of
                        Inl e \<Rightarrow> (Inl e, ctx')
                      | Inr (h, d) \<Rightarrow>
                          (let res = \<lparr>fi_establisher_frame = frame, fi_handler = h, fi_handler_data = d\<rparr>
                           in if machine_frame then (Inr res, ctx')
                              else case unwind_leaf read ctx' of
                                     (Inl e, ctx'') \<Rightarrow> (Inl e, ctx'')
                                   | (Inr _, ctx'') \<Rightarrow> (Inr res, ctx'')))))"

end
