(* ===== verification/Unwind_Properties.thy ===== *)
theory Unwind_Properties
  imports Unwind
begin

text \<open>
  Properties of the unwinder: the binary search of the exception directory finds what a linear search finds; an unwind
  of a frame that a prolog built restores the registers of the caller; the unwind codes an encoder writes decode back;
  and a chain of unwind infos that does not end is an error.
\<close>

subsection \<open>The binary search\<close>

lemma bisect_right_spec:
  assumes "sorted a" "lo \<le> hi" "hi \<le> length a"
    and "\<And>j. j < lo \<Longrightarrow> a ! j \<le> x" and "\<And>j. hi \<le> j \<Longrightarrow> j < length a \<Longrightarrow> x < a ! j"
  shows "lo \<le> bisect_right a x lo hi \<and> bisect_right a x lo hi \<le> hi \<and>
    (\<forall>j<bisect_right a x lo hi. a ! j \<le> x) \<and>
    (\<forall>j. bisect_right a x lo hi \<le> j \<and> j < length a \<longrightarrow> x < a ! j)"
  using assms
proof (induction a x lo hi rule: bisect_right.induct)
  case (1 a x lo hi)
  show ?case
  proof (cases "lo < hi")
    case False
    then show ?thesis using "1.prems" by (subst (1 2 3 4) bisect_right.simps) auto
  next
    case True
    let ?mid = "(lo + hi) div 2"
    have mid: "lo \<le> ?mid" "?mid < hi" using True by auto
    have mono: "a ! i \<le> a ! j" if "i \<le> j" "j < length a" for i j
      using sorted_nth_mono [OF "1.prems"(1) that] .
    show ?thesis
    proof (cases "x < a ! ?mid")
      case less: True
      have e: "bisect_right a x lo hi = bisect_right a x lo ?mid"
        using True less by (subst bisect_right.simps) (simp add: Let_def)
      have up: "x < a ! j" if "?mid \<le> j" "j < length a" for j
        using less mono [OF that] by linarith
      show ?thesis
        using "1.IH"(1) [OF True refl less "1.prems"(1) mid(1)] mid(2) "1.prems"(3,4) up unfolding e by force
    next
      case geq: False
      have e: "bisect_right a x lo hi = bisect_right a x (?mid + 1) hi"
        using True geq by (subst bisect_right.simps) (simp add: Let_def)
      have low: "a ! j \<le> x" if "j < ?mid + 1" for j
        using geq mono [of j ?mid] that mid "1.prems"(3) by linarith
      show ?thesis
        using "1.IH"(2) [OF True refl geq "1.prems"(1) _ "1.prems"(3) low "1.prems"(5)] mid unfolding e by force
    qed
  qed
qed

lemma length_chunks12: "length (chunks12 bs) = length bs div 12"
proof (induction bs rule: chunks12.induct)
  case (1 bs)
  show ?case
  proof (cases "length bs < 12")
    case False
    have "length bs div 12 = Suc ((length bs - 12) div 12)"
      using False by (simp add: div_if)
    then show ?thesis using 1 [OF False] False by (subst chunks12.simps) simp
  qed (simp add: chunks12.simps)
qed

lemma nth_chunks12:
  "12 * i + 12 \<le> length bs \<Longrightarrow> chunks12 bs ! i =
     (le_val (take 4 (drop (12 * i) bs)), le_val (take 4 (drop (12 * i + 4) bs)), le_val (take 4 (drop (12 * i + 8) bs)))"
proof (induction i arbitrary: bs)
  case 0
  then show ?case by (subst chunks12.simps) simp
next
  case (Suc i)
  have n: "\<not> length bs < 12" using Suc.prems by simp
  have c: "chunks12 bs ! Suc i = chunks12 (drop 12 bs) ! i" by (subst chunks12.simps) (simp add: n)
  have s: "12 * i + 12 \<le> length (drop 12 bs)" using Suc.prems by simp
  show ?case unfolding c Suc.IH [OF s] by (simp add: add.commute)
qed

text \<open>The linear reference for the search over the entries of a table.\<close>

lemma find_entry_Some:
  "find_entry i off es = Some k \<Longrightarrow> i \<le> k \<and> nat (k - i) < length es \<and>
     (case es ! nat (k - i) of (b, e, _) \<Rightarrow> b \<le> off \<and> off < e)"
proof (induction i off es rule: find_entry.induct)
  case (2 i off b e u es)
  show ?case
  proof (cases "b \<le> off \<and> off < e")
    case False
    then have IH: "i + 1 \<le> k" "nat (k - (i + 1)) < length es"
      "case es ! nat (k - (i + 1)) of (b, e, _) \<Rightarrow> b \<le> off \<and> off < e"
      using 2 by (auto split: if_splits)
    have "nat (k - i) = Suc (nat (k - (i + 1)))" using IH(1) by linarith
    then show ?thesis using IH by simp
  qed (use 2 in auto)
qed simp

lemma find_entry_None:
  "find_entry i off es = None \<longleftrightarrow> (\<forall>(b, e, u)\<in>set es. \<not> (b \<le> off \<and> off < e))"
  by (induction i off es rule: find_entry.induct) auto

lemma find_entry_unique:
  assumes "j < length es" "es ! j = (b, e, u)" "b \<le> off" "off < e"
    and "\<And>k b' e' u'. k < length es \<Longrightarrow> es ! k = (b', e', u') \<Longrightarrow> b' \<le> off \<Longrightarrow> off < e' \<Longrightarrow> k = j"
  shows "find_entry 0 off es = Some (int j)"
proof (cases "find_entry 0 off es")
  case None
  then have "\<not> (b \<le> off \<and> off < e)"
    using assms(1,2) unfolding find_entry_None by (metis (no_types, lifting) case_prodD nth_mem)
  then show ?thesis using assms(3,4) by simp
next
  case (Some k)
  obtain b' e' u' where k: "es ! nat k = (b', e', u')" by (cases "es ! nat k") auto
  have "nat k = j" "0 \<le> k"
    using find_entry_Some [OF Some] assms(5) [of "nat k" b' e' u'] k by auto
  then show ?thesis using Some by simp
qed

text \<open>The functions of an exception directory: in order of address, and disjoint.\<close>

definition ordered_functions :: "(int \<times> int \<times> int) list \<Rightarrow> bool" where
  "ordered_functions es \<longleftrightarrow> sorted_wrt (\<lambda>(b, e, _) (b', e', _). b \<le> b' \<and> e \<le> b') es"

lemma ordered_sorted: "ordered_functions es \<Longrightarrow> sorted (map fst es)"
  unfolding ordered_functions_def by (induction es) (auto split: prod.splits)

lemma bisect_finds:
  fixes off :: int
  assumes "ordered_functions es"
  defines "r \<equiv> bisect_right (map fst es) off 0 (length es)"
  shows "r \<le> length es" and
    "find_entry 0 off es =
       (if 0 < r \<and> (case es ! (r - 1) of (b, e, _) \<Rightarrow> b \<le> off \<and> off < e) then Some (int (r - 1)) else None)"
proof -
  have spec: "r \<le> length es" "\<forall>j<r. map fst es ! j \<le> off" "\<forall>j. r \<le> j \<and> j < length es \<longrightarrow> off < map fst es ! j"
    using bisect_right_spec [OF ordered_sorted [OF assms(1)], of 0 "length es" off] by (auto simp: r_def)
  show "r \<le> length es" by (rule spec(1))
  have apart: "e \<le> b'" if "i < j" "j < length es" "es ! i = (b, e, u)" "es ! j = (b', e', u')" for i j b e u b' e' u'
    using assms(1) that unfolding ordered_functions_def by (fastforce simp: sorted_wrt_iff_nth_less)
  have only: "k = r - 1 \<and> 0 < r" if k: "k < length es" "es ! k = (b', e', u')" "b' \<le> off" "off < e'" for k b' e' u'
  proof -
    have kr: "k < r"
    proof (rule ccontr)
      assume "\<not> k < r"
      then have "off < map fst es ! k" using spec(3) k(1) by auto
      then show False using k by simp
    qed
    have "\<not> k < r - 1"
    proof
      assume lt: "k < r - 1"
      obtain b e u where e: "es ! (r - 1) = (b, e, u)" by (cases "es ! (r - 1)") auto
      have "map fst es ! (r - 1) \<le> off" using spec(2) kr by simp
      then have "b \<le> off" using e spec(1) kr by simp
      moreover have "e' \<le> b" using apart [OF lt _ k(2) e] spec(1) kr by simp
      ultimately show False using k(4) by simp
    qed
    then show ?thesis using kr by auto
  qed
  show "find_entry 0 off es =
       (if 0 < r \<and> (case es ! (r - 1) of (b, e, _) \<Rightarrow> b \<le> off \<and> off < e) then Some (int (r - 1)) else None)"
  proof (cases "0 < r \<and> (case es ! (r - 1) of (b, e, _) \<Rightarrow> b \<le> off \<and> off < e)")
    case True
    obtain b e u where e: "es ! (r - 1) = (b, e, u)" by (cases "es ! (r - 1)") auto
    have "find_entry 0 off es = Some (int (r - 1))"
    proof (rule find_entry_unique [OF _ e])
      show "r - 1 < length es" "b \<le> off" "off < e" using True e spec(1) by auto
      show "\<And>k b' e' u'. k < length es \<Longrightarrow> es ! k = (b', e', u') \<Longrightarrow> b' \<le> off \<Longrightarrow> off < e' \<Longrightarrow> k = r - 1"
        using only by blast
    qed
    then show ?thesis using True by simp
  next
    case False
    have "find_entry 0 off es = None"
    proof (rule ccontr)
      assume "find_entry 0 off es \<noteq> None"
      then obtain k where k: "find_entry 0 off es = Some k" by blast
      obtain b e u where e: "es ! nat k = (b, e, u)" by (cases "es ! nat k") auto
      have "nat k = r - 1 \<and> 0 < r" using find_entry_Some [OF k] only [of "nat k" b e u] e by simp
      then show False using False find_entry_Some [OF k] by simp
    qed
    then show ?thesis using False by simp
  qed
qed

text \<open>An entry of a table that was read in one piece reads back alone.\<close>

definition entry_at :: "int \<Rightarrow> int \<Rightarrow> (int \<times> int \<times> int) list \<Rightarrow> nat \<Rightarrow> runtime_function" where
  "entry_at base table es i = (case es ! i of (b, e, u) \<Rightarrow>
     \<lparr>rf_image_base = base, rf_address = table + 12 * int i, rf_begin = b, rf_end = e, rf_unwind_info = u\<rparr>)"

context guest_memory
begin

lemma read_entry:
  assumes "rd m table (int (length bs)) = Inr bs" "12 * i + 12 \<le> length bs"
  shows "read_runtime_function (rd m) base (table + 12 * int i) = Inr (entry_at base table (chunks12 bs) i)"
proof -
  have "12 * int i + 12 \<le> int (length bs)" using assms(2) by linarith
  from rd_sub [OF assms(1) _ _ this]
  have "rd m (table + 12 * int i) 12 = Inr (take 12 (drop (12 * i) bs))" by (simp add: nat_mult_distrib)
  moreover define Y where "Y = drop (12 * i) bs"
  moreover have "12 \<le> length Y" using assms(2) by (simp add: Y_def)
  moreover have "take 4 (drop 4 (take 12 Y)) = take 4 (drop 4 Y)" "drop 8 (take 12 Y) = take 4 (drop 8 Y)"
    by (simp_all add: drop_take)
  moreover have "chunks12 bs ! i = (le_val (take 4 Y), le_val (take 4 (drop 4 Y)), le_val (take 4 (drop 8 Y)))"
    unfolding nth_chunks12 [OF assms(2)] Y_def by (simp add: add.commute)
  ultimately show ?thesis
    by (simp add: read_runtime_function_def unpack_III_def entry_at_def)
qed

text \<open>\<open>lookup_function_entry\<close> on an image with a readable exception directory.\<close>

lemma lookup_eq:
  assumes mz: "rd m base 2 = Inr [0x4D, 0x5A]" and nt: "u32 (rd m) (base + 0x3C) = Inr lfanew"
    and dir: "rd m (exception_directory base lfanew) 8 = Inr dir" "le_val (take 4 dir) = rva" "rva \<noteq> 0"
      "le_val (drop 4 dir) = sz"
    and tab: "rd m (base + rva) (sz - sz mod 12) = Inr bs"
    and ord: "ordered_functions (chunks12 bs)"
  shows "lookup_function_entry (rd m) base pc =
    (case find_entry 0 (pc - base) (chunks12 bs) of
       None \<Rightarrow> Inr None
     | Some i \<Rightarrow>
         (let fn = entry_at base (base + rva) (chunks12 bs) (nat i)
          in if rf_unwind_info fn AND 1 = 0 then Inr (Some fn)
             else rbind (read_runtime_function (rd m) base (base + (rf_unwind_info fn AND NOT 1))) (Inr \<circ> Some)))"
proof -
  have len: "length bs = nat (sz - sz mod 12)" using rd_length [OF tab] .
  have sz0: "0 \<le> sz" using dir(4) le_val_nonneg by blast
  have q: "sz - sz mod 12 = 12 * (sz div 12)" by (rule minus_mod_eq_mult_div)
  have q0: "0 \<le> sz div 12" using sz0 by simp
  have l12: "length bs = 12 * nat (sz div 12)"
    unfolding len q using q0 by (simp add: nat_mult_distrib)
  have m12: "length bs mod 12 = 0" unfolding l12 by simp
  have il: "int (length bs) = sz - sz mod 12" unfolding l12 q using q0 by simp
  define es where "es = chunks12 bs"
  have les: "length es = nat (sz div 12)" by (simp add: es_def length_chunks12 l12)
  let ?r = "bisect_right (map fst es) (pc - base) 0 (length es)"
  note bf = bisect_finds [OF ord, folded es_def, of "pc - base"]
  have hdr: "lookup_function_entry (rd m) base pc =
      (if int ?r - 1 < 0 then Inr None
       else rbind (read_runtime_function (rd m) base (base + rva + 12 * (int ?r - 1))) (\<lambda>fn.
          if \<not> (rf_begin fn \<le> pc - base \<and> pc - base < rf_end fn) then Inr None
          else if rf_unwind_info fn AND 1 \<noteq> 0
               then rbind (read_runtime_function (rd m) base (base + (rf_unwind_info fn AND NOT 1))) (Inr \<circ> Some)
               else Inr (Some fn)))"
    using rd_length [OF dir(1)] dir(2,3,4)
    by (simp add: lookup_function_entry_def mz nt dir(1) Let_def tab iter_unpack_III_def m12 es_def)
  show ?thesis
  proof (cases "0 < ?r")
    case False
    then show ?thesis using bf(2) by (simp add: hdr es_def)
  next
    case True
    define k where "k = ?r - 1"
    have rk: "int ?r - 1 = int k" "?r = Suc k" using True by (simp_all add: k_def)
    have "Suc k \<le> nat (sz div 12)" using bf(1) les rk(2) by simp
    then have "12 * Suc k \<le> length bs" unfolding l12 by (rule mult_le_mono2)
    then have k12: "12 * k + 12 \<le> length bs" by simp
    have rt: "rd m (base + rva) (int (length bs)) = Inr bs" by (simp add: il tab)
    have fn: "read_runtime_function (rd m) base (base + rva + 12 * (int ?r - 1)) = Inr (entry_at base (base + rva) es k)"
      unfolding rk(1) using read_entry [OF rt k12] by (simp only: es_def)
    obtain b e u where e: "es ! k = (b, e, u)" by (cases "es ! k") auto
    have en: "entry_at base (base + rva) es k = \<lparr>rf_image_base = base, rf_address = base + rva + 12 * int k,
        rf_begin = b, rf_end = e, rf_unwind_info = u\<rparr>" by (simp only: entry_at_def e prod.case)
    have fe: "find_entry 0 (pc - base) es = (if b \<le> pc - base \<and> pc - base < e then Some (int k) else None)"
      using bf(2) unfolding rk(2) by (simp add: e)
    have n: "\<not> int ?r - 1 < 0" using True by simp
    show ?thesis
      unfolding hdr if_not_P [OF n] fn rbind.simps es_def [symmetric] fe
      by (simp add: en Let_def)
  qed
qed

end

subsection \<open>Prologs\<close>

text \<open>
  The reference: what a prolog does to the stack. It pushes registers and allocates stack (\<open>pre\<close>), may set the frame
  register, and saves registers at offsets from the frame (\<open>saves\<close>).
\<close>

datatype prolog_instr = PushReg int | AllocStack int | SetFrame | SaveReg int int

fun encodes :: "prolog_instr \<Rightarrow> unwind_code \<Rightarrow> bool" where
  "encodes (PushReg r) c = (uc_op c = UWOP_PUSH_NONVOL \<and> uc_info c = r)"
| "encodes (AllocStack n) c =
     ((uc_op c = UWOP_ALLOC_SMALL \<and> n = uc_info c * 8 + 8) \<or>
      (uc_op c = UWOP_ALLOC_LARGE \<and> n = (if uc_info c \<noteq> 0 then uc_operand c else uc_operand c * 8)))"
| "encodes SetFrame c = (uc_op c = UWOP_SET_FPREG)"
| "encodes (SaveReg r off) c =
     ((uc_op c = UWOP_SAVE_NONVOL \<and> uc_info c = r \<and> off = uc_operand c * 8) \<or>
      (uc_op c = UWOP_SAVE_NONVOL_FAR \<and> uc_info c = r \<and> off = uc_operand c))"

fun pre_ok :: "prolog_instr \<Rightarrow> bool" where
  "pre_ok (PushReg r) = (r \<noteq> RSP)"
| "pre_ok (AllocStack n) = (0 \<le> n)"
| "pre_ok _ = False"

fun stack_use :: "prolog_instr \<Rightarrow> int" where
  "stack_use (PushReg r) = 8"
| "stack_use (AllocStack n) = n"
| "stack_use _ = 0"

definition frame_size :: "prolog_instr list \<Rightarrow> int" where
  "frame_size pre = sum_list (map stack_use pre)"

text \<open>The stack slot and the register of each push, for the stack pointer before the prolog.\<close>

fun push_slots :: "int \<Rightarrow> prolog_instr list \<Rightarrow> (int \<times> int) list" where
  "push_slots rsp [] = []"
| "push_slots rsp (PushReg r # is) = (rsp - 8, r) # push_slots (rsp - 8) is"
| "push_slots rsp (i # is) = push_slots (rsp - stack_use i) is"

definition restored :: "int set \<Rightarrow> (int \<Rightarrow> int) \<Rightarrow> int \<Rightarrow> context64 \<Rightarrow> context64" where
  "restored R g rsp ctx = ctx\<lparr>cx_gpr := (\<lambda>r. if r = RSP then rsp else if r \<in> R then g r else cx_gpr ctx r)\<rparr>"

definition slots_hold :: "reader \<Rightarrow> (int \<Rightarrow> int) \<Rightarrow> (int \<times> int) list \<Rightarrow> bool" where
  "slots_hold read g slots \<longleftrightarrow> (\<forall>(a, r)\<in>set slots. u64 read a = Inr (g r))"

definition regs64 :: "(int \<Rightarrow> int) \<Rightarrow> bool" where
  "regs64 g \<longleftrightarrow> (\<forall>r. 0 \<le> g r \<and> g r < 2 ^ 64)"

lemma regs64D [simp]: "regs64 g \<Longrightarrow> g r mod 18446744073709551616 = g r"
  by (simp add: regs64_def)

lemma apply_codes_append:
  "apply_codes read info frame off (xs @ ys) st =
     (case apply_codes read info frame off xs st of
        (Inl e, st') \<Rightarrow> (Inl e, st') | (Inr _, st') \<Rightarrow> apply_codes read info frame off ys st')"
  by (induction xs arbitrary: st) (auto split: sum.splits)

lemma apply_saves:
  assumes "regs64 g"
  shows "list_all2 encodes (map (\<lambda>(r, o'). SaveReg r o') saves) cs \<Longrightarrow> list_all (\<lambda>c. uc_prolog_offset c \<le> off) cs \<Longrightarrow>
    \<forall>(r, o')\<in>set saves. r \<noteq> RSP \<Longrightarrow> slots_hold read g (map (\<lambda>(r, o'). (frame + o', r)) saves) \<Longrightarrow>
    apply_codes read info frame off cs (ctx, mf) =
      (Inr (), restored (fst ` set saves) g (cx_gpr ctx RSP) ctx, mf)"
proof (induction saves arbitrary: cs ctx)
  case Nil
  have "ctx = restored {} g (cx_gpr ctx RSP) ctx" by (simp add: restored_def fun_eq_iff)
  then show ?case using Nil by simp
next
  case (Cons ro saves)
  obtain r o' where ro: "ro = (r, o')" by force
  obtain c cs' where cs: "cs = c # cs'" and c: "encodes (SaveReg r o') c" "uc_prolog_offset c \<le> off"
    and rest: "list_all2 encodes (map (\<lambda>(r, o'). SaveReg r o') saves) cs'" "list_all (\<lambda>c. uc_prolog_offset c \<le> off) cs'"
    using Cons.prems(1,2) ro by (auto simp: list_all2_Cons1)
  have u: "u64 read (frame + o') = Inr (g r)" and r: "r \<noteq> RSP"
    using Cons.prems(3,4) by (auto simp: ro slots_hold_def)
  let ?ctx = "set_reg r (g r) ctx"
  have st: "apply_code read info frame c (ctx, mf) = Inr (?ctx, mf)"
    using c(1) u by (auto simp: apply_code_def uwop_defs)
  have "apply_codes read info frame off cs (ctx, mf) = apply_codes read info frame off cs' (?ctx, mf)"
    using c(2) by (simp add: cs st)
  also have "\<dots> = (Inr (), restored (fst ` set saves) g (cx_gpr ?ctx RSP) ?ctx, mf)"
    using Cons.IH [OF rest] Cons.prems(3,4) by (simp add: slots_hold_def)
  also have "restored (fst ` set saves) g (cx_gpr ?ctx RSP) ?ctx = restored (fst ` set (ro # saves)) g (cx_gpr ctx RSP) ctx"
    using assms r by (auto simp: restored_def set_reg_def ro fun_eq_iff)
  finally show ?case .
qed

lemma frame_size_Cons [simp]: "frame_size (i # is) = stack_use i + frame_size is"
  by (simp add: frame_size_def)

lemma frame_size_nonneg: "list_all pre_ok pre \<Longrightarrow> 0 \<le> frame_size pre"
proof (induction pre)
  case (Cons i pre)
  then show ?case by (cases i) auto
qed (simp add: frame_size_def)

lemma apply_pre:
  assumes "regs64 g"
  shows "list_all2 encodes (rev pre) cs \<Longrightarrow> list_all (\<lambda>c. uc_prolog_offset c \<le> off) cs \<Longrightarrow> list_all pre_ok pre \<Longrightarrow>
    cx_gpr ctx RSP = rsp - frame_size pre \<Longrightarrow> 0 \<le> rsp - frame_size pre \<Longrightarrow> rsp < 2 ^ 64 \<Longrightarrow>
    slots_hold read g (push_slots rsp pre) \<Longrightarrow>
    apply_codes read info frame off cs (ctx, mf) =
      (Inr (), restored (snd ` set (push_slots rsp pre)) g rsp ctx, mf)"
proof (induction pre arbitrary: cs rsp)
  case Nil
  have "ctx = restored {} g rsp ctx" using Nil.prems(4) by (simp add: restored_def fun_eq_iff frame_size_def)
  then show ?case using Nil by simp
next
  case (Cons i pre)
  obtain cs1 c where cs: "cs = cs1 @ [c]" and c1: "list_all2 encodes (rev pre) cs1" and ec: "encodes i c"
    using Cons.prems(1) by (auto simp: list_all2_append1 list_all2_Cons1)
  have off: "list_all (\<lambda>c. uc_prolog_offset c \<le> off) cs1" "uc_prolog_offset c \<le> off"
    using Cons.prems(2) by (simp_all add: cs)
  have pok: "list_all pre_ok pre" "pre_ok i" using Cons.prems(3) by simp_all
  have use: "0 \<le> stack_use i" using pok(2) by (cases i) auto
  let ?rsp = "rsp - stack_use i"
  let ?R = "snd ` set (push_slots ?rsp pre)"
  let ?ctx = "restored ?R g ?rsp ctx"
  have bounds: "cx_gpr ctx RSP = ?rsp - frame_size pre" "0 \<le> ?rsp - frame_size pre" "?rsp < 2 ^ 64" "0 \<le> ?rsp"
    using Cons.prems(4,5,6) use frame_size_nonneg [OF pok(1)] by simp_all
  have sl: "slots_hold read g (push_slots ?rsp pre)"
    using Cons.prems(7) by (cases i) (auto simp: slots_hold_def)
  have IH: "apply_codes read info frame off cs1 (ctx, mf) = (Inr (), ?ctx, mf)"
    by (rule Cons.IH [OF c1 off(1) pok(1) bounds(1,2,3) sl])
  have rsp1: "cx_gpr ?ctx RSP = ?rsp" by (simp add: restored_def)
  have mods: "rsp mod 2 ^ 64 = rsp" using Cons.prems(6) bounds(4) use by simp
  have st: "apply_code read info frame c (?ctx, mf) =
      Inr (restored (snd ` set (push_slots rsp (i # pre))) g rsp ctx, mf)"
  proof (cases i)
    case (PushReg r)
    have u: "u64 read (rsp - 8) = Inr (g r)" using Cons.prems(7) PushReg by (simp add: slots_hold_def)
    have r: "r \<noteq> RSP" using pok(2) PushReg by simp
    have "apply_code read info frame c (?ctx, mf) =
        Inr (set_reg RSP (get_reg RSP (set_reg r (g r) ?ctx) + 8) (set_reg r (g r) ?ctx), mf)"
      using ec u rsp1 PushReg by (simp add: apply_code_def get_reg_def uwop_defs)
    also have "\<dots> = Inr (restored (snd ` set (push_slots rsp (i # pre))) g rsp ctx, mf)"
      using r assms rsp1 mods PushReg by (auto simp: set_reg_def get_reg_def restored_def fun_eq_iff)
    finally show ?thesis .
  next
    case (AllocStack n)
    have "apply_code read info frame c (?ctx, mf) = Inr (set_reg RSP (get_reg RSP ?ctx + n) ?ctx, mf)"
      using ec AllocStack by (auto simp: apply_code_def uwop_defs)
    also have "\<dots> = Inr (restored (snd ` set (push_slots rsp (i # pre))) g rsp ctx, mf)"
      using rsp1 mods AllocStack by (auto simp: set_reg_def get_reg_def restored_def fun_eq_iff)
    finally show ?thesis .
  qed (use pok(2) in simp_all)
  show ?case using off(2) by (simp add: cs apply_codes_append IH st)
qed

subsection \<open>What the prolog writes\<close>

fun write_slots :: "('m \<Rightarrow> int \<Rightarrow> byte list \<Rightarrow> 'm result) \<Rightarrow> (int \<Rightarrow> int) \<Rightarrow> (int \<times> int) list \<Rightarrow> 'm \<Rightarrow> 'm result" where
  "write_slots wr g [] m = Inr m"
| "write_slots wr g ((a, r) # ss) m = rbind (wr m a (le_bytes 8 (g r))) (write_slots wr g ss)"

definition apart :: "(int \<times> int) list \<Rightarrow> bool" where
  "apart = sorted_wrt (\<lambda>(a, _) (b, _). a + 8 \<le> b \<or> b + 8 \<le> a)"

context guest_memory
begin

lemma write_slots_other:
  "write_slots wr g ss m = Inr m' \<Longrightarrow> \<forall>(b, r)\<in>set ss. a + 8 \<le> b \<or> b + 8 \<le> a \<Longrightarrow>
   u64 (rd m') a = u64 (rd m) a"
proof (induction ss arbitrary: m)
  case (Cons br ss)
  obtain b r where br: "br = (b, r)" by force
  obtain m1 where m1: "wr m b (le_bytes 8 (g r)) = Inr m1" "write_slots wr g ss m1 = Inr m'"
    using Cons.prems(1) by (auto simp: br rbind_Inr_iff)
  have "b + 8 \<le> a \<or> a + 8 \<le> b" using Cons.prems(2) br by auto
  then have "u64 (rd m1) a = u64 (rd m) a"
    unfolding u64_def using read_uint_wr_other [OF m1(1), of a 8] by simp
  then show ?case using Cons.IH [OF m1(2)] Cons.prems(2) by simp
qed simp

lemma write_slots_hold:
  "write_slots wr g ss m = Inr m' \<Longrightarrow> apart ss \<Longrightarrow> regs64 g \<Longrightarrow> slots_hold (rd m') g ss"
proof (induction ss arbitrary: m)
  case (Cons br ss)
  obtain b r where br: "br = (b, r)" by force
  obtain m1 where m1: "wr m b (le_bytes 8 (g r)) = Inr m1" "write_slots wr g ss m1 = Inr m'"
    using Cons.prems(1) by (auto simp: br rbind_Inr_iff)
  have ap: "apart ss" "\<forall>(c, q)\<in>set ss. b + 8 \<le> c \<or> c + 8 \<le> b"
    using Cons.prems(2) by (auto simp: apart_def br)
  have "u64 (rd m1) b = Inr (g r)"
    unfolding u64_def using read_uint_wr_same [OF m1(1)] Cons.prems(3) by (simp add: regs64_def)
  then have "u64 (rd m') b = Inr (g r)"
    using write_slots_other [OF m1(2) ap(2)] by simp
  then show ?case using Cons.IH [OF m1(2) ap(1) Cons.prems(3)] by (simp add: slots_hold_def br)
qed (simp add: slots_hold_def)

end

subsection \<open>Properties\<close>

text \<open>C19: the binary search of the exception directory of a readable image finds the entry that a linear search over the
  functions finds, and follows an indirect entry, for every program counter.\<close>

theorem lookup_function_entry_linear:
  assumes "guest_memory rd wr"
    and "rd m base 2 = Inr [0x4D, 0x5A]" and "u32 (rd m) (base + 0x3C) = Inr lfanew"
    and "rd m (exception_directory base lfanew) 8 = Inr dir" "le_val (take 4 dir) = rva" "rva \<noteq> 0"
      "le_val (drop 4 dir) = sz"
    and "rd m (base + rva) (sz - sz mod 12) = Inr bs" and "ordered_functions (chunks12 bs)"
  shows "lookup_function_entry (rd m) base pc =
    (case find_entry 0 (pc - base) (chunks12 bs) of
       None \<Rightarrow> Inr None
     | Some i \<Rightarrow>
         (let fn = entry_at base (base + rva) (chunks12 bs) (nat i)
          in if rf_unwind_info fn AND 1 = 0 then Inr (Some fn)
             else rbind (read_runtime_function (rd m) base (base + (rf_unwind_info fn AND NOT 1))) (Inr \<circ> Some)))"
  by (rule guest_memory.lookup_eq [OF assms])

text \<open>C3: when a prolog saved registers in its frame, the body kept those stack slots and the frame pointer (or the stack
  pointer), and the unwind info describes the prolog, then the unwind returns to the caller: \<open>Rip\<close> is the return
  address, \<open>Rsp\<close> is above it, every register the prolog saved has the value it had at the call, and the other
  registers are untouched. The frame may be of variable size when there is a frame register.\<close>

theorem unwind_restores_caller:
  fixes g :: "int \<Rightarrow> int"
  assumes mem: "guest_memory rd wr"
    and frame: "frame = rsp - frame_size pre" "0 \<le> frame" "rsp + 8 < 2 ^ 64"
    and slots: "slots = push_slots rsp pre @ map (\<lambda>(r, o'). (frame + o', r)) saves" "apart slots"
    and prolog: "write_slots wr g slots m0 = Inr m1" "regs64 g" "list_all pre_ok pre" "\<forall>(r, o')\<in>set saves. r \<noteq> RSP"
    and body: "\<forall>(a, r)\<in>set slots. u64 (rd m) a = u64 (rd m1) a" "u64 (rd m) rsp = Inr ret"
    and info: "read_unwind_info (rd m) (rf_image_base fn + rf_unwind_info fn) = Inr info"
      "\<not> has_flag (ui_flags info) UNW_FLAG_CHAININFO"
      "list_all2 encodes (rev (pre @ (if ui_frame_reg info \<noteq> 0 then [SetFrame] else []) @
         map (\<lambda>(r, o'). SaveReg r o') saves)) (ui_codes info)"
    and pc: "list_all (\<lambda>c. uc_prolog_offset c \<le> prolog_offset fn pc) (ui_codes info)"
      "ui_prolog_size info \<le> prolog_offset fn pc"
    and ctx: "if ui_frame_reg info \<noteq> 0 then get_reg (ui_frame_reg info) ctx = frame + 16 * ui_frame_offset info
        else get_reg RSP ctx = frame"
      "ui_frame_reg info \<noteq> 0 \<longrightarrow> ui_frame_reg info \<noteq> RSP \<and> ui_frame_reg info \<notin> fst ` set saves"
  shows "virtual_unwind (rd m) fn pc ctx 0 =
    (Inr \<lparr>fi_establisher_frame = frame, fi_handler = 0, fi_handler_data = 0\<rparr>,
     set_rip ret (restored (snd ` set slots) g (rsp + 8) ctx))"
proof -
  let ?off = "prolog_offset fn pc" and ?f = "ui_frame_reg info"
  have hold: "slots_hold (rd m) g slots"
    using guest_memory.write_slots_hold [OF mem prolog(1) slots(2) prolog(2)] body(1)
    by (fastforce simp: slots_hold_def)
  then have h1: "slots_hold (rd m) g (push_slots rsp pre)"
    and h2: "slots_hold (rd m) g (map (\<lambda>(r, o'). (frame + o', r)) (rev saves))"
    by (auto simp: slots_hold_def slots(1))
  have ef: "establisher_frame info ?off ctx = frame"
    using ctx(1) pc(2) by (auto simp: establisher_frame_def)
  obtain cs1 cs2 cs3 where cs: "ui_codes info = cs1 @ cs2 @ cs3"
    and c1: "list_all2 encodes (map (\<lambda>(r, o'). SaveReg r o') (rev saves)) cs1"
    and c2: "list_all2 encodes (if ?f \<noteq> 0 then [SetFrame] else []) cs2"
    and c3: "list_all2 encodes (rev pre) cs3"
    using info(3) by (auto simp: list_all2_append1 rev_map split: if_splits)
  have o1: "list_all (\<lambda>c. uc_prolog_offset c \<le> ?off) cs1" "list_all (\<lambda>c. uc_prolog_offset c \<le> ?off) cs2"
    "list_all (\<lambda>c. uc_prolog_offset c \<le> ?off) cs3"
    using pc(1) by (simp_all add: cs)
  let ?ctx1 = "restored (fst ` set saves) g (cx_gpr ctx RSP) ctx"
  let ?ctx2 = "restored (fst ` set saves) g frame ctx"
  have s1: "apply_codes (rd m) info frame ?off cs1 (ctx, False) = (Inr (), ?ctx1, False)"
    using apply_saves [OF prolog(2) c1 o1(1) _ h2] prolog(4) by simp
  have s2: "apply_codes (rd m) info frame ?off cs2 (?ctx1, False) = (Inr (), ?ctx2, False)"
  proof (cases "?f = 0")
    case True
    then show ?thesis using c2 ctx(1) by (simp add: get_reg_def)
  next
    case False
    then obtain c where c: "cs2 = [c]" "uc_op c = UWOP_SET_FPREG"
      using c2 by (auto simp: list_all2_Cons1)
    have fr: "frame mod 2 ^ 64 = frame"
      using frame frame_size_nonneg [OF prolog(3)] by simp
    have "get_reg ?f ?ctx1 - 16 * ui_frame_offset info = frame"
      using False ctx by (simp add: get_reg_def restored_def)
    then have "apply_code (rd m) info frame c (?ctx1, False) = Inr (set_reg RSP frame ?ctx1, False)"
      using c(2) by (simp add: apply_code_def uwop_defs)
    moreover have "set_reg RSP frame ?ctx1 = ?ctx2"
      using fr by (simp add: set_reg_def restored_def fun_eq_iff)
    ultimately show ?thesis using c o1(2) by simp
  qed
  have s3: "apply_codes (rd m) info frame ?off cs3 (?ctx2, False) =
      (Inr (), restored (snd ` set (push_slots rsp pre)) g rsp ?ctx2, False)"
    by (rule apply_pre [OF prolog(2) c3 o1(3) prolog(3) _ _ _ h1])
      (use frame in \<open>simp_all add: restored_def\<close>)
  have r3: "restored (snd ` set (push_slots rsp pre)) g rsp ?ctx2 = restored (snd ` set slots) g rsp ctx"
    by (auto simp: restored_def fun_eq_iff slots(1) image_Un image_image case_prod_beta)
  have all: "apply_codes (rd m) info frame ?off (ui_codes info) (ctx, False) =
      (Inr (), restored (snd ` set slots) g rsp ctx, False)"
    by (simp add: cs apply_codes_append s1 s2 s3 r3)
  have leaf: "unwind_leaf (rd m) (restored (snd ` set slots) g rsp ctx) =
      (Inr (), set_rip ret (restored (snd ` set slots) g (rsp + 8) ctx))"
    using body(2) frame frame_size_nonneg [OF prolog(3)]
    by (simp add: unwind_leaf_def get_reg_def restored_def set_rip_def set_reg_def Let_def fun_eq_iff)
  show ?thesis
    using info(1,2) all leaf
    by (simp add: virtual_unwind_def ef Let_def MAX_CHAIN_def numeral_eq_Suc find_handler_def has_flag_def)
qed

subsection \<open>The encoding of unwind codes\<close>

definition encode_code :: "unwind_code \<Rightarrow> byte list" where
  "encode_code c = word_of_int (uc_prolog_offset c) # word_of_int (uc_op c + 16 * uc_info c) #
     le_bytes (2 * unwind_slots (uc_op c) (uc_info c) - 2) (uc_operand c)"

definition code_ok :: "unwind_code \<Rightarrow> bool" where
  "code_ok c \<longleftrightarrow> 0 \<le> uc_prolog_offset c \<and> uc_prolog_offset c < 256 \<and> 0 \<le> uc_op c \<and> uc_op c < 16 \<and>
     0 \<le> uc_info c \<and> uc_info c < 16 \<and> 0 \<le> uc_operand c \<and>
     uc_operand c < 256 ^ (2 * unwind_slots (uc_op c) (uc_info c) - 2)"

lemma length_encode_code: "length (encode_code c) = 2 * unwind_slots (uc_op c) (uc_info c)"
proof -
  obtain k where "unwind_slots (uc_op c) (uc_info c) = Suc k"
    using unwind_slots_pos [of "uc_op c" "uc_info c"] gr0_implies_Suc by blast
  then show ?thesis by (simp add: encode_code_def)
qed

lemma and_0xF: "(v :: int) AND 0xF = v mod 16"
  using and_mask_eq_unsigned [of v 4] by (simp add: unsigned_of_def)

lemma decode_encode:
  "list_all code_ok cs \<Longrightarrow> length pre = 2 * i \<Longrightarrow>
   decode_codes (pre @ concat (map encode_code cs)) (i + sum_list (map (\<lambda>c. unwind_slots (uc_op c) (uc_info c)) cs)) i = Inr cs"
proof (induction cs arbitrary: pre i)
  case Nil
  then show ?case by (subst decode_codes.simps) simp
next
  case (Cons c cs)
  let ?n = "unwind_slots (uc_op c) (uc_info c)"
  let ?raw = "pre @ concat (map encode_code (c # cs))"
  let ?count = "i + sum_list (map (\<lambda>c. unwind_slots (uc_op c) (uc_info c)) (c # cs))"
  have ok: "code_ok c" using Cons.prems(1) by simp
  have n: "0 < ?n" by simp
  have raw: "?raw = pre @ encode_code c @ concat (map encode_code cs)" by simp
  have b0: "?raw ! (2 * i) = word_of_int (uc_prolog_offset c)"
    and b1: "?raw ! (2 * i + 1) = word_of_int (uc_op c + 16 * uc_info c)"
    and sl: "take (2 * ?n - 2) (drop (2 * i + 2) ?raw) = le_bytes (2 * ?n - 2) (uc_operand c)"
    unfolding raw using Cons.prems(2) by (simp_all add: encode_code_def nth_append)
  have len: "\<not> length ?raw \<le> 2 * i + 1"
  proof -
    have "2 \<le> length (encode_code c)" using n unfolding length_encode_code by linarith
    then show ?thesis unfolding raw using Cons.prems(2) by simp
  qed
  have u1: "uint (word_of_int (uc_op c + 16 * uc_info c) :: byte) = uc_op c + 16 * uc_info c"
    using ok unfolding uint_byte_of_int code_ok_def by simp
  have u: "uint (word_of_int (uc_prolog_offset c) :: byte) = uc_prolog_offset c"
    "(uc_op c + 16 * uc_info c) AND 0xF = uc_op c" "drop_bit 4 (uc_op c + 16 * uc_info c) = uc_info c"
    using ok by (simp_all add: uint_byte_of_int and_0xF drop_bit_eq_div code_ok_def)
  have v: "le_val (le_bytes (2 * ?n - 2) (uc_operand c)) = uc_operand c"
    using ok by (intro le_val_le_bytes_id) (simp_all add: code_ok_def)
  have pre: "length (pre @ encode_code c) = 2 * (i + ?n)" using Cons.prems(2) by (simp add: length_encode_code)
  have rest: "decode_codes ?raw ?count (i + ?n) = Inr cs"
    using Cons.IH [OF _ pre] Cons.prems(1) by (simp add: add.assoc)
  have cnt: "\<not> ?count \<le> i" using n by simp
  show ?case
    unfolding decode_codes.simps [of ?raw ?count i] if_not_P [OF cnt] if_not_P [OF len] b0 b1 u1 Let_def u sl v rest
    by simp
qed

text \<open>C20: the unwind information an assembler writes for a list of unwind codes is read back as exactly these codes,
  with the flags, the prolog size and the frame register of the header.\<close>

theorem unwind_info_roundtrip:
  assumes "list_all code_ok codes" and "raw = concat (map encode_code codes)"
    and "count = int (sum_list (map (\<lambda>c. unwind_slots (uc_op c) (uc_info c)) codes))"
    and "0 \<le> flags" "flags < 32" "0 \<le> psize" "psize < 256" "count < 256" "0 \<le> fr" "fr < 16" "0 \<le> fo" "fo < 16"
    and "read a 4 = Inr [word_of_int (1 + 8 * flags), word_of_int psize, word_of_int count, word_of_int (fr + 16 * fo)]"
    and "read (a + 4) (int (length raw)) = Inr raw"
  shows "read_unwind_info read a =
    Inr \<lparr>ui_flags = flags, ui_prolog_size = psize, ui_frame_reg = fr, ui_frame_offset = fo, ui_codes = codes,
         ui_trailer = a + 4 + 2 * ((count + 1) AND NOT 1)\<rparr>"
proof -
  have c0: "0 \<le> count" by (simp add: assms(3))
  have len: "int (length raw) = 2 * count"
    by (simp add: assms(2,3) length_concat length_encode_code o_def sum_list_const_mult)
  have u: "uint (word_of_int (1 + 8 * flags) :: byte) = 1 + 8 * flags" "uint (word_of_int psize :: byte) = psize"
    "uint (word_of_int count :: byte) = count" "uint (word_of_int (fr + 16 * fo) :: byte) = fr + 16 * fo"
    using assms(4-12) c0 by (simp_all only: uint_byte_of_int) simp_all
  have d: "drop_bit 3 (1 + 8 * flags) = flags" "(fr + 16 * fo) AND 0xF = fr" "drop_bit 4 (fr + 16 * fo) = fo"
    using assms(9-12) by (simp_all add: drop_bit_eq_div and_0xF)
  have dec: "decode_codes raw (nat count) 0 = Inr codes"
    using decode_encode [OF assms(1), of "[]" 0] by (simp add: assms(2,3))
  show ?thesis
    unfolding read_unwind_info_def assms(13) rbind.simps
    using assms(14) by (simp add: Let_def u d len dec del: of_int_add of_int_mult)
qed

subsection \<open>Witnesses\<close>

text \<open>A frame of two saved registers and 32 bytes below a return address at 64, with its unwind info at 72, and the exception
  directory of an image at 0 with two functions.\<close>

definition ex_info :: "byte list" where
  "ex_info = [1, 9, 4, 0, 9, 0x34, 1, 0, 5, 0x32, 1, 0x50]"

definition ex_regs :: "int \<Rightarrow> int" where
  "ex_regs r = (if r = 5 then 7 else if r = 3 then 9 else 0)"

definition ex_mem0 :: byte_mem where
  "ex_mem0 = bm_of 0 (replicate 64 0 @ le_bytes 8 0x1234 @ ex_info)"

definition ex_slots :: "(int \<times> int) list" where
  "ex_slots = push_slots 64 [PushReg 5, AllocStack 32] @ map (\<lambda>(r, o'). (24 + o', r)) [(3, 8)]"

definition ex_mem1 :: byte_mem where
  "ex_mem1 = projr (write_slots bm_write ex_regs ex_slots ex_mem0)"

definition ex_fn :: runtime_function where
  "ex_fn = \<lparr>rf_image_base = 72, rf_address = 0, rf_begin = 0, rf_end = 64, rf_unwind_info = 0\<rparr>"

definition ex_ctx :: context64 where
  "ex_ctx = \<lparr>cx_gpr = (\<lambda>r. if r = RSP then 24 else 1), cx_rip = 104, cx_xmm = (\<lambda>_. (0, 0))\<rparr>"

definition ex_unwind_info :: unwind_info where
  "ex_unwind_info = \<lparr>ui_flags = 0, ui_prolog_size = 9, ui_frame_reg = 0, ui_frame_offset = 0,
     ui_codes = [\<lparr>uc_prolog_offset = 9, uc_op = 4, uc_info = 3, uc_operand = 1\<rparr>,
       \<lparr>uc_prolog_offset = 5, uc_op = 2, uc_info = 3, uc_operand = 0\<rparr>,
       \<lparr>uc_prolog_offset = 1, uc_op = 0, uc_info = 5, uc_operand = 0\<rparr>], ui_trailer = 84\<rparr>"

lemma ex_reads:
  "read_unwind_info (bm_read ex_mem1) (rf_image_base ex_fn + rf_unwind_info ex_fn) = Inr ex_unwind_info"
  "u64 (bm_read ex_mem1) 64 = Inr 0x1234" "is_ok (write_slots bm_write ex_regs ex_slots ex_mem0)"
  by code_simp+

theorem unwind_restores_caller_witness:
  "(case virtual_unwind (bm_read ex_mem1) ex_fn 104 ex_ctx 0 of (r, c) \<Rightarrow>
     is_ok r \<and> cx_rip c = 0x1234 \<and> get_reg RSP c = 72 \<and> get_reg 5 c = 7 \<and> get_reg 3 c = 9 \<and> get_reg 1 c = 1)"
proof -
  have w: "write_slots bm_write ex_regs ex_slots ex_mem0 = Inr ex_mem1"
    using ex_reads(3) by (auto simp: is_ok_iff ex_mem1_def)
  have "virtual_unwind (bm_read ex_mem1) ex_fn 104 ex_ctx 0 =
      (Inr \<lparr>fi_establisher_frame = 24, fi_handler = 0, fi_handler_data = 0\<rparr>,
       set_rip 0x1234 (restored (snd ` set ex_slots) ex_regs (64 + 8) ex_ctx))"
  proof -
    have "frame_size [PushReg 5, AllocStack 32] = 40" by (simp add: frame_size_def)
    moreover have "prolog_offset ex_fn 104 = 32" by code_simp
    ultimately show ?thesis
      by (intro unwind_restores_caller [where rd = bm_read and m = ex_mem1,
            OF bm.guest_memory_axioms _ _ _ ex_slots_def _ w _ _ _ _ ex_reads(2,1)])
        (simp_all add: ex_slots_def apart_def regs64_def ex_regs_def RSP_def ex_unwind_info_def has_flag_def
          ex_ctx_def get_reg_def uwop_defs)
  qed
  then show ?thesis
    by (simp add: set_rip_def restored_def ex_slots_def ex_regs_def get_reg_def RSP_def ex_ctx_def)
qed

theorem unwind_info_roundtrip_witness:
  "\<exists>t. read_unwind_info (bm_read ex_mem0) 72 = Inr \<lparr>ui_flags = 0, ui_prolog_size = 9, ui_frame_reg = 0,
     ui_frame_offset = 0, ui_codes = ui_codes ex_unwind_info, ui_trailer = t\<rparr>"
proof -
  define raw where "raw = concat (map encode_code (ui_codes ex_unwind_info))"
  have raw: "raw = [9, 0x34, 1, 0, 5, 0x32, 1, 0x50]" unfolding raw_def by code_simp
  have ok: "list_all code_ok (ui_codes ex_unwind_info)" by code_simp
  have cnt: "4 = int (sum_list (map (\<lambda>c. unwind_slots (uc_op c) (uc_info c)) (ui_codes ex_unwind_info)))" by code_simp
  have rd: "bm_read ex_mem0 72 4 = Inr [1, 9, 4, 0]" "bm_read ex_mem0 76 8 = Inr [9, 0x34, 1, 0, 5, 0x32, 1, 0x50]"
    by code_simp+
  show ?thesis
    using unwind_info_roundtrip [OF ok raw_def cnt, of 0 9 0 0 "bm_read ex_mem0" 72] rd by (simp add: raw)
qed

definition ex_image :: byte_mem where
  "ex_image = bm_of 0 ([0x4D, 0x5A] @ replicate 0x3A 0 @ le_bytes 4 0x40 @ replicate 0xA0 0 @ le_bytes 4 0xE8 @ le_bytes 4 24 @
     le_bytes 4 0x10 @ le_bytes 4 0x20 @ le_bytes 4 0x100 @ le_bytes 4 0x30 @ le_bytes 4 0x50 @ le_bytes 4 0x104)"

theorem lookup_function_entry_linear_witness:
  "lookup_function_entry (bm_read ex_image) 0 0x38 =
     Inr (Some \<lparr>rf_image_base = 0, rf_address = 0xF4, rf_begin = 0x30, rf_end = 0x50, rf_unwind_info = 0x104\<rparr>)"
proof -
  define bs where "bs = le_bytes 4 0x10 @ le_bytes 4 0x20 @ le_bytes 4 0x100 @ le_bytes 4 0x30 @ le_bytes 4 0x50 @ le_bytes 4 0x104"
  have c: "chunks12 bs = [(0x10, 0x20, 0x100), (0x30, 0x50, 0x104)]" unfolding bs_def by code_simp
  have r: "bm_read ex_image 0 2 = Inr [0x4D, 0x5A]" "u32 (bm_read ex_image) (0 + 0x3C) = Inr 0x40"
    "bm_read ex_image (exception_directory 0 0x40) 8 = Inr (le_bytes 4 0xE8 @ le_bytes 4 24)"
    "le_val (take 4 (le_bytes 4 0xE8 @ le_bytes 4 24)) = 0xE8" "le_val (drop 4 (le_bytes 4 0xE8 @ le_bytes 4 24)) = 24"
    by code_simp+
  have t: "bm_read ex_image (0 + 0xE8) (24 - 24 mod 12) = Inr bs" unfolding bs_def by code_simp
  have o: "ordered_functions (chunks12 bs)" by (simp add: c ordered_functions_def)
  from lookup_function_entry_linear [where rd = bm_read and m = ex_image, OF bm.guest_memory_axioms r(1,2,3,4) _ r(5) t o, of "0x38"]
  show ?thesis by (simp add: c entry_at_def)
qed

end
