(* ===== verification/Registry.thy ===== *)
theory Registry
  imports Handles Codecs
begin

text \<open>
  The emulated registry of \<^verbatim>\<open>speakeasy/windows/regman.py\<close>. Keys are mutable and shared by the handles and the
  key list, so a key is an index into \<open>rw_heap\<close>; \<open>rw_keys\<close> is the list of the known keys. The handles go into table 0
  of the handle world, which stands for the table of the current process. The config is data; the events
  are recorded in \<open>rw_events\<close>.
\<close>

subsection \<open>Values\<close>

definition REG_NONE :: int where "REG_NONE = 0"
definition REG_SZ :: int where "REG_SZ = 1"
definition REG_EXPAND_SZ :: int where "REG_EXPAND_SZ = 2"
definition REG_BINARY :: int where "REG_BINARY = 3"
definition REG_DWORD :: int where "REG_DWORD = 4"
definition REG_MULTI_SZ :: int where "REG_MULTI_SZ = 7"
definition REG_QWORD :: int where "REG_QWORD = 11"

lemmas reg_types = REG_NONE_def REG_SZ_def REG_EXPAND_SZ_def REG_BINARY_def REG_DWORD_def REG_MULTI_SZ_def REG_QWORD_def

text \<open>\<open>REG_VALUE_TYPE.__members__.get(name)\<close>.\<close>

definition reg_type_member :: "string \<Rightarrow> int option" where
  "reg_type_member = map_of [(''REG_NONE'', 0), (''REG_SZ'', 1), (''REG_EXPAND_SZ'', 2), (''REG_BINARY'', 3),
     (''REG_DWORD'', 4), (''REG_DWORD_LITTLE_ENDIAN'', 4), (''REG_DWORD_BIG_ENDIAN'', 5), (''REG_LINK'', 6),
     (''REG_MULTI_SZ'', 7), (''REG_RESOURCE_LIST'', 8), (''REG_FULL_RESOURCE_DESCRIPTOR'', 9),
     (''REG_RESOURCE_REQUIREMENTS_LIST'', 10), (''REG_QWORD'', 11), (''REG_QWORD_LITTLE_ENDIAN'', 11)]"

datatype reg_data = RStr string | RInt int | RBytes "byte list" | RNone

record reg_value =
  rv_name :: string
  rv_type :: "int option"
  rv_data :: reg_data

definition normalize_value :: "int option \<Rightarrow> reg_data \<Rightarrow> reg_data result" where
  "normalize_value val_type data =
     (if val_type \<in> {Some REG_EXPAND_SZ, Some REG_MULTI_SZ, Some REG_SZ}
      then (case data of RStr s \<Rightarrow> Inr (RStr s) | _ \<Rightarrow> Inl RegistryEmuError)
      else if val_type \<in> {Some REG_DWORD, Some REG_QWORD}
      then (case data of
              RStr s \<Rightarrow> rbind (int0 s) (\<lambda>i. Inr (RInt i))
            | RInt i \<Rightarrow> Inr (RInt i)
            | _ \<Rightarrow> Inr RNone)
      else if val_type = Some REG_BINARY
      then (case data of
              RBytes b \<Rightarrow> Inr (RBytes (b64encode b))
            | RStr s \<Rightarrow> Inr (RBytes (b64encode (utf8 s)))
            | _ \<Rightarrow> Inl RegistryEmuError)
      else Inr data)"

definition new_value :: "string \<Rightarrow> int option \<Rightarrow> reg_data \<Rightarrow> reg_value result" where
  "new_value name val_type data =
     rbind (normalize_value val_type data) (\<lambda>d. Inr \<lparr>rv_name = name, rv_type = val_type, rv_data = d\<rparr>)"

definition raw_bytes :: "reg_data \<Rightarrow> byte list" where
  "raw_bytes d = (case d of RBytes b \<Rightarrow> b | _ \<Rightarrow> [])"

definition get_bytes :: "int \<Rightarrow> reg_value \<Rightarrow> byte list result" where
  "get_bytes width v =
     (case (rv_type v, rv_data v) of
        (Some t, RStr s) \<Rightarrow>
          (if t \<in> {REG_SZ, REG_EXPAND_SZ, REG_MULTI_SZ}
           then (let text = s @ (if t = REG_MULTI_SZ then [char_of (0::nat), char_of (0::nat)] else [char_of (0::nat)])
                 in Inr (if width = 2 then utf16le text else encode_ansi text))
           else Inr [])
      | (Some t, RInt i) \<Rightarrow>
          (if t = REG_DWORD then to_bytes 4 (i AND 0xFFFFFFFF)
           else if t = REG_QWORD then to_bytes 8 (i AND 0xFFFFFFFFFFFFFFFF)
           else Inr [])
      | (Some t, RBytes b) \<Rightarrow> (if t = REG_BINARY then b64decode b else Inr b)
      | (_, d) \<Rightarrow> Inr (raw_bytes d))"

subsection \<open>Keys\<close>

record reg_key =
  rk_path :: string
  rk_values :: "reg_value list"

definition new_key :: "string \<Rightarrow> reg_key" where
  "new_key path = \<lparr>rk_path = path, rk_values = []\<rparr>"

definition create_value :: "string \<Rightarrow> int option \<Rightarrow> reg_data \<Rightarrow> reg_key \<Rightarrow> reg_key result" where
  "create_value name val_type data key =
     rbind (new_value name val_type data) (\<lambda>v. Inr (key\<lparr>rk_values := rk_values key @ [v]\<rparr>))"

text \<open>The test of \<open>RegKey.get_value\<close>: an empty or absent name is the default value.\<close>

definition value_named :: "string option \<Rightarrow> reg_value \<Rightarrow> bool" where
  "value_named val_name v =
     (case val_name of
        None \<Rightarrow> lower (rv_name v) \<in> {'''', ''default''}
      | Some [] \<Rightarrow> lower (rv_name v) \<in> {'''', ''default''}
      | Some n \<Rightarrow> lower (rv_name v) = lower n)"

definition get_value :: "string option \<Rightarrow> reg_key \<Rightarrow> reg_value option" where
  "get_value val_name key = find (value_named val_name) (rk_values key)"

subsection \<open>The manager\<close>

record config_key =
  ck_path :: string
  ck_values :: "(string option \<times> string \<times> reg_data) list"

datatype reg_event_type =
  REG_CREATE_KEY | REG_OPEN_KEY | REG_DELETE_KEY | REG_LIST_SUBKEYS | REG_READ_VALUE | REG_WRITE_VALUE | REG_DELETE_VALUE

record reg_event =
  re_path :: string
  re_type :: reg_event_type
  re_handle :: "int option"
  re_value_name :: "string option"
  re_data :: "byte list option"

datatype proc_object = RegKeyObj nat | OtherObj nat

record reg_world =
  rw_heap :: "reg_key list"
  rw_keys :: "nat list"
  rw_predefined :: "(int \<times> nat) list"
  rw_deleted :: "string list"
  rw_config :: "config_key list option"
  rw_emu :: bool
  rw_events :: "reg_event list"

type_synonym reg_state = "(proc_object, reg_world) handle_world"

definition upd_reg :: "(reg_world \<Rightarrow> reg_world) \<Rightarrow> reg_state \<Rightarrow> reg_state" where
  "upd_reg f s = s\<lparr>hw_world := f (hw_world s)\<rparr>"

definition key_of :: "nat \<Rightarrow> reg_state \<Rightarrow> reg_key" where
  "key_of i s = rw_heap (hw_world s) ! i"

definition key_path :: "nat \<Rightarrow> reg_state \<Rightarrow> string" where
  "key_path i s = rk_path (key_of i s)"

definition put_key :: "nat \<Rightarrow> reg_key \<Rightarrow> reg_state \<Rightarrow> reg_state" where
  "put_key i k = upd_reg (\<lambda>w. w\<lparr>rw_heap := (rw_heap w)[i := k]\<rparr>)"

text \<open>A new key object, and its addition to the known keys.\<close>

definition alloc_key :: "reg_key \<Rightarrow> reg_state \<Rightarrow> nat \<times> reg_state" where
  "alloc_key k s = (length (rw_heap (hw_world s)), upd_reg (\<lambda>w. w\<lparr>rw_heap := rw_heap w @ [k]\<rparr>) s)"

definition add_key :: "nat \<Rightarrow> reg_state \<Rightarrow> reg_state" where
  "add_key i = upd_reg (\<lambda>w. w\<lparr>rw_keys := rw_keys w @ [i]\<rparr>)"

definition discard_deleted :: "string \<Rightarrow> reg_state \<Rightarrow> reg_state" where
  "discard_deleted path = upd_reg (\<lambda>w. w\<lparr>rw_deleted := filter (\<lambda>p. p \<noteq> lower path) (rw_deleted w)\<rparr>)"

definition slashed :: "string \<Rightarrow> string" where
  "slashed s = map (\<lambda>c. if c = CHR ''|'' then backslash else c) s"

fun replace_root :: "string list \<Rightarrow> string \<Rightarrow> string" where
  "replace_root [] path = path"
| "replace_root (r # rs) path =
     (if starts_with (lower path) r then slashed ''HKEY_LOCAL_MACHINE|'' @ drop (length r) path
      else replace_root rs path)"

definition normalize_reg_path :: "string \<Rightarrow> string" where
  "normalize_reg_path path =
     (if path = [] then path
      else (let path = replace_root [slashed ''|registry|machine|'', slashed ''hklm|''] path;
                prefix = slashed ''hkey_local_machine|system|controlset001|'';
                path = (if starts_with (lower path) prefix
                        then slashed ''HKEY_LOCAL_MACHINE|SYSTEM|CurrentControlSet|'' @ drop (length prefix) path
                        else path)
            in rstrip backslash path))"

definition normalize_hkey :: "int \<Rightarrow> int" where
  "normalize_hkey hkey =
     (if drop_bit 32 hkey = 0xFFFFFFFF \<and> 0x80000000 \<le> hkey AND 0xFFFFFFFF \<and> hkey AND 0xFFFFFFFF \<le> 0x80000007
      then hkey AND 0xFFFFFFFF else hkey)"

definition is_reg_key :: "proc_object \<Rightarrow> bool" where
  "is_reg_key x = (case x of RegKeyObj _ \<Rightarrow> True | _ \<Rightarrow> False)"

definition table_key :: "int \<Rightarrow> reg_state \<Rightarrow> nat option" where
  "table_key handle s =
     (case ht_get plain_callbacks is_reg_key handle (hw_tables s 0) (hw_world s) of
        Some (RegKeyObj i) \<Rightarrow> Some i | _ \<Rightarrow> None)"

definition rm_get_key :: "int \<Rightarrow> reg_state \<Rightarrow> nat option" where
  "rm_get_key handle s =
     (let handle = normalize_hkey handle
      in case map_of (rw_predefined (hw_world s)) handle of
           Some i \<Rightarrow> Some i
         | None \<Rightarrow> table_key handle s)"

definition close_key :: "int \<Rightarrow> reg_state \<Rightarrow> bool \<times> reg_state" where
  "close_key handle s =
     (let handle = normalize_hkey handle
      in if map_of (rw_predefined (hw_world s)) handle \<noteq> None then (True, s)
         else if table_key handle s = None then (False, s)
         else close_in plain_callbacks 0 handle s)"

definition get_key_from_path :: "string \<Rightarrow> reg_state \<Rightarrow> nat option" where
  "get_key_from_path path s =
     (let path = normalize_reg_path path
      in find (\<lambda>i. fn_match (lower path) (lower (key_path i s))) (rw_keys (hw_world s)))"

definition get_key_paths :: "reg_state \<Rightarrow> string list" where
  "get_key_paths s =
     map (\<lambda>i. key_path i s) (rw_keys (hw_world s)) @
     (case rw_config (hw_world s) of
        None \<Rightarrow> []
      | Some ks \<Rightarrow> filter (\<lambda>p. lower p \<notin> set (rw_deleted (hw_world s))) (map ck_path ks))"

definition is_key_a_parent_key :: "string \<Rightarrow> reg_state \<Rightarrow> bool" where
  "is_key_a_parent_key path s =
     (let prefix = rstrip backslash (lower path) @ [backslash]
      in list_ex (\<lambda>p. starts_with (lower p) prefix) (get_key_paths s))"

definition get_subkeys :: "nat \<Rightarrow> reg_state \<Rightarrow> string list" where
  "get_subkeys i s =
     (let parent_path = rstrip backslash (key_path i s) @ [backslash]
      in foldl (\<lambda>subkeys test_path.
           if starts_with (lower test_path) (lower parent_path)
           then (let sub = drop (length parent_path) test_path;
                     sub = (case find_char backslash sub of Some n \<Rightarrow> take n sub | None \<Rightarrow> sub)
                 in if sub = [] \<or> lower sub \<in> set (map lower subkeys) then subkeys else subkeys @ [sub])
           else subkeys) [] (get_key_paths s))"

fun config_values :: "(string option \<times> string \<times> reg_data) list \<Rightarrow> reg_key \<Rightarrow> reg_key result" where
  "config_values [] key = Inr key"
| "config_values ((name, t, data) # vs) key =
     rbind (create_value (case name of None \<Rightarrow> [] | Some n \<Rightarrow> n) (reg_type_member t) data key) (config_values vs)"

definition get_key_from_config :: "string \<Rightarrow> reg_state \<Rightarrow> reg_key option result" where
  "get_key_from_config path s =
     (case rw_config (hw_world s) of
        None \<Rightarrow> Inr None
      | Some ks \<Rightarrow>
          (if lower path \<in> set (rw_deleted (hw_world s)) then Inr None
           else case find (\<lambda>k. lower (ck_path k) = lower path) ks of
                  None \<Rightarrow> Inr None
                | Some k \<Rightarrow> rbind (config_values (ck_values k) (new_key path)) (Inr \<circ> Some)))"

definition create_key :: "string \<Rightarrow> reg_state \<Rightarrow> nat result \<times> reg_state" where
  "create_key path s =
     (let path = normalize_reg_path path
      in case get_key_from_path path s of
           Some i \<Rightarrow> (Inr i, s)
         | None \<Rightarrow>
             (case get_key_from_config path s of
                Inl e \<Rightarrow> (Inl e, s)
              | Inr (Some k) \<Rightarrow> (let (i, s1) = alloc_key k s in (Inr i, add_key i s1))
              | Inr None \<Rightarrow>
                  (let (i, s1) = alloc_key (new_key path) s in (Inr i, discard_deleted path (add_key i s1)))))"

definition record_event ::
  "string \<Rightarrow> reg_event_type \<Rightarrow> int option \<Rightarrow> string option \<Rightarrow> byte list option \<Rightarrow> reg_state \<Rightarrow> reg_state" where
  "record_event path t handle name data s =
     (if rw_emu (hw_world s)
      then upd_reg (\<lambda>w. w\<lparr>rw_events := rw_events w @
             [\<lparr>re_path = path, re_type = t, re_handle = handle, re_value_name = name, re_data = data\<rparr>]\<rparr>) s
      else s)"

definition get_key_handle :: "string \<Rightarrow> bool \<Rightarrow> reg_state \<Rightarrow> int option result \<times> reg_state" where
  "get_key_handle path create s =
     (let path = normalize_reg_path path
      in case get_key_from_path path s of
           Some i \<Rightarrow> (let (h, s1) = open_in plain_callbacks 0 (RegKeyObj i) s in (Inr (Some h), s1))
         | None \<Rightarrow>
             (case get_key_from_config path s of
                Inl e \<Rightarrow> (Inl e, s)
              | Inr (Some k) \<Rightarrow>
                  (let (i, s1) = alloc_key k s;
                       (h, s2) = open_in plain_callbacks 0 (RegKeyObj i) (add_key i s1)
                   in (Inr (Some h), s2))
              | Inr None \<Rightarrow>
                  (if create \<or> is_key_a_parent_key path s
                   then (let (i, s1) = alloc_key (new_key path) s;
                             (h, s2) = open_in plain_callbacks 0 (RegKeyObj i) s1
                         in (Inr (Some h), discard_deleted path (add_key i s2)))
                   else (Inr None, s))))"

definition open_key :: "string \<Rightarrow> bool \<Rightarrow> reg_state \<Rightarrow> int option result \<times> reg_state" where
  "open_key path create s =
     (case get_key_handle path create s of
        (Inl e, s1) \<Rightarrow> (Inl e, s1)
      | (Inr hnd, s1) \<Rightarrow>
          (let key = (case hnd of None \<Rightarrow> None | Some h \<Rightarrow> if h = 0 then None else rm_get_key h s1);
               kp = (case key of Some i \<Rightarrow> key_path i s1 | None \<Rightarrow> normalize_reg_path path)
           in (Inr hnd, record_event kp (if create then REG_CREATE_KEY else REG_OPEN_KEY) hnd None None s1)))"

definition delete_key :: "int \<Rightarrow> reg_state \<Rightarrow> bool \<times> reg_state" where
  "delete_key handle s =
     (case rm_get_key handle s of
        None \<Rightarrow> (False, s)
      | Some i \<Rightarrow>
          (let s1 = upd_reg (\<lambda>w. w\<lparr>rw_keys := remove_first (\<lambda>j. j = i) (rw_keys w)\<rparr>) s;
               s2 = upd_reg (\<lambda>w. w\<lparr>rw_deleted := List.insert (lower (key_path i s)) (rw_deleted w)\<rparr>) s1
           in (True, record_event (key_path i s) REG_DELETE_KEY (Some handle) None None s2)))"

definition list_subkeys :: "nat \<Rightarrow> int \<Rightarrow> reg_state \<Rightarrow> string list \<times> reg_state" where
  "list_subkeys i handle s =
     (get_subkeys i s, record_event (key_path i s) REG_LIST_SUBKEYS (Some handle) None None s)"

definition read_value :: "nat \<Rightarrow> string option \<Rightarrow> int \<Rightarrow> int \<Rightarrow> reg_state \<Rightarrow> reg_value option result \<times> reg_state" where
  "read_value i name width handle s =
     (case get_value name (key_of i s) of
        None \<Rightarrow> (Inr None, record_event (key_path i s) REG_READ_VALUE (Some handle) name None s)
      | Some v \<Rightarrow>
          (case get_bytes width v of
             Inl e \<Rightarrow> (Inl e, s)
           | Inr b \<Rightarrow> (Inr (Some v), record_event (key_path i s) REG_READ_VALUE (Some handle) name (Some b) s)))"

text \<open>The index of the value that \<open>get_value\<close> finds; the object is changed in place, its type first.\<close>

fun update_first :: "('a \<Rightarrow> bool) \<Rightarrow> ('a \<Rightarrow> 'a) \<Rightarrow> 'a list \<Rightarrow> 'a list" where
  "update_first P f [] = []"
| "update_first P f (x # xs) = (if P x then f x # xs else x # update_first P f xs)"

definition write_value ::
  "nat \<Rightarrow> string \<Rightarrow> int option \<Rightarrow> reg_data \<Rightarrow> byte list \<Rightarrow> int \<Rightarrow> reg_state \<Rightarrow> unit result \<times> reg_state" where
  "write_value i name val_type data raw handle s =
     (let ev = record_event (key_path i s) REG_WRITE_VALUE (Some handle) (Some name) (Some raw);
          key = key_of i s;
          change = (\<lambda>f. put_key i (key\<lparr>rk_values := update_first (value_named (Some name)) f (rk_values key)\<rparr>) s)
      in case get_value (Some name) key of
           Some v \<Rightarrow>
             (case normalize_value val_type data of
                Inl e \<Rightarrow> (Inl e, change (\<lambda>v. v\<lparr>rv_type := val_type\<rparr>))
              | Inr d \<Rightarrow> (Inr (), ev (change (\<lambda>v. v\<lparr>rv_type := val_type, rv_data := d\<rparr>))))
         | None \<Rightarrow>
             (case create_value name val_type data key of
                Inl e \<Rightarrow> (Inl e, s)
              | Inr key' \<Rightarrow> (Inr (), ev (put_key i key' s))))"

definition delete_value :: "nat \<Rightarrow> string option \<Rightarrow> int \<Rightarrow> reg_state \<Rightarrow> bool \<times> reg_state" where
  "delete_value i name handle s =
     (case get_value name (key_of i s) of
        None \<Rightarrow> (False, s)
      | Some v \<Rightarrow>
          (True, record_event (key_path i s) REG_DELETE_VALUE (Some handle) name None
             (put_key i ((key_of i s)\<lparr>rk_values := remove_first (value_named name) (rk_values (key_of i s))\<rparr>) s)))"

subsection \<open>Initial state\<close>

definition HKEY_members :: "(string \<times> int) list" where
  "HKEY_members = [(''HKEY_CLASSES_ROOT'', 0x80000000), (''HKEY_CURRENT_USER'', 0x80000001),
     (''HKEY_LOCAL_MACHINE'', 0x80000002), (''HKEY_USERS'', 0x80000003)]"

fun predefined_loop :: "(string \<times> int) list \<Rightarrow> reg_state \<Rightarrow> unit result \<times> reg_state" where
  "predefined_loop [] s = (Inr (), s)"
| "predefined_loop ((name, hk) # hks) s =
     (case create_key name s of
        (Inl e, s1) \<Rightarrow> (Inl e, s1)
      | (Inr i, s1) \<Rightarrow>
          predefined_loop hks (upd_reg (\<lambda>w. w\<lparr>rw_predefined := AList.update hk i (rw_predefined w)\<rparr>) s1))"

record os_version = os_major :: int os_minor :: int os_build :: "int option"

definition CURRENT_VERSION_KEY :: string where
  "CURRENT_VERSION_KEY = slashed ''HKEY_LOCAL_MACHINE|SOFTWARE|Microsoft|Windows NT|CurrentVersion''"

definition product_names :: "(int \<times> int) \<rightharpoonup> string" where
  "product_names = map_of [((6, 1), ''Windows 7 Professional''), ((6, 2), ''Windows 8 Pro''),
     ((6, 3), ''Windows 8.1 Pro''), ((10, 0), ''Windows 10 Pro'')]"

definition get_current_version_values :: "os_version \<Rightarrow> (string \<times> int \<times> reg_data) list" where
  "get_current_version_values v =
     (case product_names (os_major v, os_minor v) of
        None \<Rightarrow> []
      | Some product_name \<Rightarrow>
          [(''ProductName'', REG_SZ, RStr product_name),
           (''CurrentVersion'', REG_SZ, RStr (if 10 \<le> os_major v then ''6.3''
              else dec_of (os_major v) @ ''.'' @ dec_of (os_minor v))),
           (''EditionID'', REG_SZ, RStr ''Professional''), (''InstallationType'', REG_SZ, RStr ''Client'')] @
          (if 10 \<le> os_major v
           then [(''CurrentMajorVersionNumber'', REG_DWORD, RInt (os_major v)),
                 (''CurrentMinorVersionNumber'', REG_DWORD, RInt (os_minor v))] else []) @
          (case os_build v of
             None \<Rightarrow> []
           | Some b \<Rightarrow> [(''CurrentBuild'', REG_SZ, RStr (dec_of b)), (''CurrentBuildNumber'', REG_SZ, RStr (dec_of b))]))"

definition get_program_files_values :: "(string \<rightharpoonup> string) \<Rightarrow> bool \<Rightarrow> (string \<times> int \<times> reg_data) list" where
  "get_program_files_values env is_x64 =
     (let get = (\<lambda>k d. case env k of Some v \<Rightarrow> v | None \<Rightarrow> d);
          program_files = get ''programfiles'' (slashed ''C:|Program Files'');
          common_files = get ''commonprogramfiles'' (program_files @ slashed ''|Common Files'')
      in [(''ProgramFilesDir'', REG_SZ, RStr program_files), (''CommonFilesDir'', REG_SZ, RStr common_files)] @
         (if is_x64
          then [(''ProgramFilesDir (x86)'', REG_SZ, RStr (get ''programfiles(x86)'' (program_files @ '' (x86)''))),
                (''CommonFilesDir (x86)'', REG_SZ,
                  RStr (get ''commonprogramfiles(x86)'' (program_files @ slashed '' (x86)|Common Files''))),
                (''ProgramW6432Dir'', REG_SZ, RStr (get ''programw6432'' program_files)),
                (''CommonW6432Dir'', REG_SZ, RStr common_files)]
          else []))"

fun default_values_loop :: "nat \<Rightarrow> (string \<times> int \<times> reg_data) list \<Rightarrow> reg_state \<Rightarrow> unit result \<times> reg_state" where
  "default_values_loop i [] s = (Inr (), s)"
| "default_values_loop i ((name, t, data) # vs) s =
     (if get_value (Some name) (key_of i s) \<noteq> None then default_values_loop i vs s
      else case create_value name (Some t) data (key_of i s) of
             Inl e \<Rightarrow> (Inl e, s)
           | Inr key \<Rightarrow> default_values_loop i vs (put_key i key s))"

definition add_default_values :: "string \<Rightarrow> (string \<times> int \<times> reg_data) list \<Rightarrow> reg_state \<Rightarrow> unit result \<times> reg_state" where
  "add_default_values path values s =
     (if values = [] then (Inr (), s)
      else case create_key path s of
             (Inl e, s1) \<Rightarrow> (Inl e, s1)
           | (Inr i, s1) \<Rightarrow> default_values_loop i values s1)"

definition init_registry :: "allocator \<Rightarrow> config_key list option \<Rightarrow> os_version option \<Rightarrow> bool \<Rightarrow> unit result \<times> reg_state" where
  "init_registry al config os_ver emu =
     (let s0 = \<lparr>hw_alloc = al, hw_tables = (\<lambda>_. Map.empty), hw_world = \<lparr>rw_heap = [], rw_keys = [], rw_predefined = [],
                rw_deleted = [], rw_config = config, rw_emu = emu, rw_events = []\<rparr>\<rparr>
      in case predefined_loop HKEY_members s0 of
           (Inl e, s1) \<Rightarrow> (Inl e, s1)
         | (Inr _, s1) \<Rightarrow>
             (case os_ver of
                None \<Rightarrow> (Inr (), s1)
              | Some v \<Rightarrow> add_default_values CURRENT_VERSION_KEY (get_current_version_values v) s1))"

subsection \<open>Paths\<close>

lemma starts_with_take: "length q \<le> length a \<Longrightarrow> starts_with (a @ s) q \<longleftrightarrow> take (length q) a = q"
  by (simp add: starts_with_def)

lemma rstrip_prefix: "\<exists>t. s = rstrip c s @ t"
proof
  show "s = rstrip c s @ rev (takeWhile (\<lambda>x. x = c) (rev s))"
    unfolding rstrip_def by (metis rev_append rev_rev_ident takeWhile_dropWhile_id)
qed

lemma starts_with_rstrip: "starts_with (lower (rstrip c s)) q \<Longrightarrow> starts_with (lower s) q"
  using rstrip_prefix [of s c] by (metis append.assoc lower_append starts_with_iff)

abbreviation machine_roots :: "string list" where
  "machine_roots \<equiv> [slashed ''|registry|machine|'', slashed ''hklm|'']"

abbreviation control_set_prefix :: string where
  "control_set_prefix \<equiv> slashed ''hkey_local_machine|system|controlset001|''"

text \<open>No replacement applies to a path.\<close>

definition settled :: "string \<Rightarrow> bool" where
  "settled p \<longleftrightarrow> \<not> starts_with (lower p) (slashed ''|registry|machine|'') \<and> \<not> starts_with (lower p) (slashed ''hklm|'') \<and>
     \<not> starts_with (lower p) control_set_prefix"

lemma settled_rstrip: "settled p \<Longrightarrow> settled (rstrip c p)"
  unfolding settled_def using starts_with_rstrip by blast

lemma normalize_settled: "settled p \<Longrightarrow> normalize_reg_path p = rstrip backslash p"
  by (auto simp: normalize_reg_path_def settled_def rstrip_def)

lemma root_heads:
  "take (length (slashed ''|registry|machine|'')) (lower (slashed ''HKEY_LOCAL_MACHINE|'')) \<noteq> slashed ''|registry|machine|''"
  "take (length (slashed ''hklm|'')) (lower (slashed ''HKEY_LOCAL_MACHINE|'')) \<noteq> slashed ''hklm|''"
  "take (length (slashed ''|registry|machine|'')) (lower (slashed ''HKEY_LOCAL_MACHINE|SYSTEM|CurrentControlSet|'')) \<noteq>
     slashed ''|registry|machine|''"
  "take (length (slashed ''hklm|'')) (lower (slashed ''HKEY_LOCAL_MACHINE|SYSTEM|CurrentControlSet|'')) \<noteq> slashed ''hklm|''"
  "take (length control_set_prefix) (lower (slashed ''HKEY_LOCAL_MACHINE|SYSTEM|CurrentControlSet|'')) \<noteq> control_set_prefix"
  by code_simp+

lemma root_lengths:
  "length (slashed ''|registry|machine|'') \<le> length (lower (slashed ''HKEY_LOCAL_MACHINE|''))"
  "length (slashed ''hklm|'') \<le> length (lower (slashed ''HKEY_LOCAL_MACHINE|''))"
  "length (slashed ''|registry|machine|'') \<le> length (lower (slashed ''HKEY_LOCAL_MACHINE|SYSTEM|CurrentControlSet|''))"
  "length (slashed ''hklm|'') \<le> length (lower (slashed ''HKEY_LOCAL_MACHINE|SYSTEM|CurrentControlSet|''))"
  "length control_set_prefix \<le> length (lower (slashed ''HKEY_LOCAL_MACHINE|SYSTEM|CurrentControlSet|''))"
  by (simp_all add: slashed_def)

lemma root_starts:
  "\<not> starts_with (lower (slashed ''HKEY_LOCAL_MACHINE|'') @ s) (slashed ''|registry|machine|'')"
  "\<not> starts_with (lower (slashed ''HKEY_LOCAL_MACHINE|'') @ s) (slashed ''hklm|'')"
  "\<not> starts_with (lower (slashed ''HKEY_LOCAL_MACHINE|SYSTEM|CurrentControlSet|'') @ s) (slashed ''|registry|machine|'')"
  "\<not> starts_with (lower (slashed ''HKEY_LOCAL_MACHINE|SYSTEM|CurrentControlSet|'') @ s) (slashed ''hklm|'')"
  "\<not> starts_with (lower (slashed ''HKEY_LOCAL_MACHINE|SYSTEM|CurrentControlSet|'') @ s) control_set_prefix"
  unfolding starts_with_take [OF root_lengths(1)] starts_with_take [OF root_lengths(2)]
    starts_with_take [OF root_lengths(3)] starts_with_take [OF root_lengths(4)] starts_with_take [OF root_lengths(5)]
  by (rule root_heads)+

lemma not_settled_root:
  "\<not> starts_with (lower (replace_root machine_roots p)) (slashed ''|registry|machine|'')"
  "\<not> starts_with (lower (replace_root machine_roots p)) (slashed ''hklm|'')"
  using root_starts(1,2) by auto

lemma normalize_unfold:
  "\<exists>q. settled q \<and> normalize_reg_path p = rstrip backslash q"
proof (cases "p = []")
  case True
  have "settled []" by (simp add: settled_def starts_with_def slashed_def)
  then show ?thesis using True by (intro exI [of _ "[]"]) (simp add: normalize_reg_path_def rstrip_def)
next
  case False
  let ?r = "replace_root machine_roots p"
  show ?thesis
  proof (cases "starts_with (lower ?r) control_set_prefix")
    case True
    let ?q = "slashed ''HKEY_LOCAL_MACHINE|SYSTEM|CurrentControlSet|'' @ drop (length control_set_prefix) ?r"
    have "settled ?q"
      unfolding settled_def lower_append using root_starts(3,4,5) by blast
    then show ?thesis
      using True False by (intro exI [of _ ?q]) (simp only: normalize_reg_path_def Let_def if_True if_False)
  next
    case F: False
    have "settled ?r" unfolding settled_def using F not_settled_root by blast
    then show ?thesis
      using F False by (intro exI [of _ ?r]) (simp only: normalize_reg_path_def Let_def if_False)
  qed
qed

lemma normalize_idem [simp]: "normalize_reg_path (normalize_reg_path p) = normalize_reg_path p"
proof -
  obtain q where "settled q" "normalize_reg_path p = rstrip backslash q" using normalize_unfold by blast
  then show ?thesis by (simp add: normalize_settled settled_rstrip)
qed

end
