(* ===== verification/Registry_Properties.thy ===== *)
theory Registry_Properties
  imports Registry
begin

text \<open>
  Properties of the registry: a path names one key whatever the case and the root alias it is written with, a
  value that is written reads back, and a deleted key is gone.
\<close>

text \<open>The key list holds keys that exist.\<close>

definition reg_ok :: "reg_state \<Rightarrow> bool" where
  "reg_ok s \<longleftrightarrow> (\<forall>i\<in>set (rw_keys (hw_world s)). i < length (rw_heap (hw_world s)))"

lemma upd_reg_simps [simp]:
  "hw_world (upd_reg f s) = f (hw_world s)" "hw_tables (upd_reg f s) = hw_tables s" "hw_alloc (upd_reg f s) = hw_alloc s"
  by (simp_all add: upd_reg_def)

lemma find_cong_set: "(\<And>x. x \<in> set xs \<Longrightarrow> P x = Q x) \<Longrightarrow> find P xs = find Q xs"
  by (induction xs) auto

lemma find_append_None: "find P xs = None \<Longrightarrow> find P (xs @ ys) = find P ys"
  by (induction xs) (auto split: if_splits)

lemma config_values_path: "config_values vs key = Inr key' \<Longrightarrow> rk_path key' = rk_path key"
proof (induction vs arbitrary: key)
  case (Cons v vs)
  obtain n t d where v: "v = (n, t, d)" by (cases v) auto
  from Cons.prems obtain k1 where k1: "create_value (case n of None \<Rightarrow> [] | Some n \<Rightarrow> n) (reg_type_member t) d key = Inr k1"
    "config_values vs k1 = Inr key'"
    by (auto simp: v rbind_Inr_iff)
  have "rk_path k1 = rk_path key" using k1(1) by (auto simp: create_value_def rbind_Inr_iff)
  then show ?case using Cons.IH [OF k1(2)] by simp
qed simp

lemma get_key_from_config_path: "get_key_from_config path s = Inr (Some k) \<Longrightarrow> rk_path k = path"
  by (auto simp: get_key_from_config_def rbind_Inr_iff new_key_def split: option.splits if_splits
      dest: config_values_path)

lemma lower_mem:
  assumes "d \<in> set (lower p)" "\<not> (97 \<le> (of_char d :: nat) \<and> (of_char d :: nat) \<le> 122)"
  shows "d \<in> set p"
proof -
  obtain c where "c \<in> set p" "lower_char c = d" using assms(1) by (auto simp: lower_def)
  then show ?thesis using lower_char_other [of c d] assms(2) by simp
qed

lemma plain_lower: "plain p \<Longrightarrow> plain (lower p)"
  using lower_mem [of "CHR ''*''" p] lower_mem [of "CHR ''?''" p] lower_mem [of "CHR ''[''" p]
  by (auto simp: plain_def)

text \<open>After a key is appended to the list, a search that found nothing finds it by its own path.\<close>

lemma get_key_from_path_appended:
  assumes ok: "reg_ok s" and none: "get_key_from_path path s = None"
    and w: "rw_heap (hw_world s') = rw_heap (hw_world s) @ [k]"
      "rw_keys (hw_world s') = rw_keys (hw_world s) @ [length (rw_heap (hw_world s))]"
    and k: "rk_path k = normalize_reg_path path" and pl: "plain (normalize_reg_path path)"
    and q: "lower (normalize_reg_path q) = lower (normalize_reg_path path)"
  shows "get_key_from_path q s' = Some (length (rw_heap (hw_world s)))"
proof -
  let ?N = "lower (normalize_reg_path path)"
  have same: "key_path i s' = key_path i s" if "i \<in> set (rw_keys (hw_world s))" for i
    using ok that by (simp add: reg_ok_def key_path_def key_of_def w nth_append)
  have "find (\<lambda>i. fn_match ?N (lower (key_path i s'))) (rw_keys (hw_world s)) = None"
    using none same by (simp add: get_key_from_path_def Let_def find_None_iff_all)
  moreover have "plain ?N" by (rule plain_lower [OF pl])
  then have "fn_match ?N ?N" by (simp add: fn_match_plain)
  moreover have "key_path (length (rw_heap (hw_world s))) s' = normalize_reg_path path"
    by (simp add: key_path_def key_of_def w k)
  ultimately show ?thesis
    by (simp add: get_key_from_path_def Let_def q w find_append_None)
qed

text \<open>creating a key gives the same key each time, without a change, for every path that names it: with another case,
  with a root alias, with trailing separators, or under the first control set.\<close>

theorem create_key_idempotent:
  assumes "reg_ok s" and "plain (normalize_reg_path path)" and "create_key path s = (Inr i, s1)"
    and "lower (normalize_reg_path q) = lower (normalize_reg_path path)"
  shows "create_key q s1 = (Inr i, s1)"
proof -
  have "get_key_from_path q s1 = Some i"
  proof (cases "get_key_from_path path s")
    case (Some j)
    then have "s1 = s" "i = j"
      using assms(3) by (auto simp: create_key_def Let_def get_key_from_path_def)
    then show ?thesis using Some assms(4) by (simp add: get_key_from_path_def Let_def)
  next
    case None
    then have n2: "get_key_from_path (normalize_reg_path path) s = None" by (simp add: get_key_from_path_def Let_def)
    define k where "k = last (rw_heap (hw_world s1))"
    have k: "rk_path k = normalize_reg_path path" "i = length (rw_heap (hw_world s))"
      "rw_heap (hw_world s1) = rw_heap (hw_world s) @ [k]"
      "rw_keys (hw_world s1) = rw_keys (hw_world s) @ [length (rw_heap (hw_world s))]"
      using assms(3) n2
      by (auto simp: k_def create_key_def Let_def alloc_key_def add_key_def discard_deleted_def new_key_def
          dest!: get_key_from_config_path split: sum.splits option.splits)
    show ?thesis
      using get_key_from_path_appended [OF assms(1) None k(3,4,1) assms(2,4)] k(2) by simp
  qed
  then have "get_key_from_path (normalize_reg_path q) s1 = Some i" by (simp add: get_key_from_path_def Let_def)
  then show ?thesis by (simp add: create_key_def Let_def)
qed

lemma value_named_update:
  "(\<And>v. rv_name (f v) = rv_name v) \<Longrightarrow> value_named n (f v) = value_named n v"
  by (simp add: value_named_def split: option.splits list.splits)

lemma find_update_first:
  assumes "\<And>x. P (f x) = P x" "find P xs = Some v"
  shows "find P (update_first P f xs) = Some (f v)"
  using assms by (induction xs) (auto split: if_splits)

lemma find_update_first_other:
  assumes "\<And>x. Q (f x) = Q x" "\<And>x. P x \<Longrightarrow> \<not> Q x"
  shows "find Q (update_first P f xs) = find Q xs"
  using assms by (induction xs) auto

lemma value_named_lower: "lower m = lower n \<Longrightarrow> value_named (Some m) v = value_named (Some n) v"
  by (cases m; cases n) (auto simp: value_named_def lower_def)

lemma value_named_other:
  assumes "lower m \<noteq> lower n" "lower n \<notin> {[], ''default''}" "value_named (Some n) v"
  shows "\<not> value_named (Some m) v"
proof -
  have "n \<noteq> []" using assms(2) by auto
  then have "lower (rv_name v) = lower n" using assms(3) by (cases n) (auto simp: value_named_def)
  then show ?thesis using assms(1,2) by (cases m) (auto simp: value_named_def)
qed

lemma key_of_record [simp]: "key_of j (record_event p t h n d s) = key_of j s"
  by (simp add: record_event_def key_of_def)

lemma key_of_put: "i < length (rw_heap (hw_world s)) \<Longrightarrow> key_of j (put_key i k s) = (if j = i then k else key_of j s)"
  by (simp add: key_of_def put_key_def nth_list_update)

text \<open>C27: a value written under a name that is not the default value is read back, under the name in any case, with the
  type and the normalized data; every value with another name and every other key keep their data. Binary data reads
  back byte for byte, and integers modulo their width.\<close>

theorem write_then_read:
  assumes "i < length (rw_heap (hw_world s))" and "lower name \<notin> {[], ''default''}"
    and "write_value i name (Some t) data raw h s = (Inr (), s1)"
  shows "(\<exists>v d. normalize_value (Some t) data = Inr d \<and> rv_type v = Some t \<and> rv_data v = d \<and>
      (\<forall>m. lower m = lower name \<longrightarrow> get_value (Some m) (key_of i s1) = Some v) \<and>
      (\<forall>b. t = REG_BINARY \<and> data = RBytes b \<longrightarrow> get_bytes w v = Inr b) \<and>
      (\<forall>n. t = REG_DWORD \<and> data = RInt n \<longrightarrow> get_bytes w v = Inr (le_bytes 4 n)) \<and>
      (\<forall>n. t = REG_QWORD \<and> data = RInt n \<longrightarrow> get_bytes w v = Inr (le_bytes 8 n))) \<and>
    (\<forall>m. lower m \<noteq> lower name \<longrightarrow> get_value (Some m) (key_of i s1) = get_value (Some m) (key_of i s)) \<and>
    (\<forall>j. j \<noteq> i \<longrightarrow> key_of j s1 = key_of j s)"
proof -
  let ?P = "value_named (Some name)"
  have nn: "name \<noteq> []" using assms(2) by auto
  obtain d where d: "normalize_value (Some t) data = Inr d"
    using assms(3) by (cases "normalize_value (Some t) data")
      (auto simp: write_value_def Let_def create_value_def new_value_def split: option.splits)
  have bytes: "get_bytes w v = Inr b"
    if "rv_type v = Some t" "rv_data v = d" "t = REG_BINARY" "data = RBytes b" for v b
  proof -
    have "d = RBytes (b64encode b)" using that(3,4) d by (simp add: normalize_value_def reg_types)
    then show ?thesis using that(1,2,3) by (simp add: get_bytes_def reg_types b64_roundtrip)
  qed
  have m32: "x AND 0xFFFFFFFF = x mod 256 ^ 4" and m64: "x AND 0xFFFFFFFFFFFFFFFF = x mod 256 ^ 8" for x :: int
    using and_mask_eq_unsigned [of x 32] and_mask_eq_unsigned [of x 64] by (simp_all add: unsigned_of_def)
  have le: "to_bytes 4 (x AND 0xFFFFFFFF) = Inr (le_bytes 4 x)"
    "to_bytes 8 (x AND 0xFFFFFFFFFFFFFFFF) = Inr (le_bytes 8 x)" for x :: int
    unfolding m32 m64 by (simp_all only: to_bytes_def le_bytes_mod) simp_all
  have ints: "t = REG_DWORD \<and> data = RInt n \<Longrightarrow> get_bytes w v = Inr (le_bytes 4 n)"
    "t = REG_QWORD \<and> data = RInt n \<Longrightarrow> get_bytes w v = Inr (le_bytes 8 n)"
    if "rv_type v = Some t" "rv_data v = d" for v n
  proof -
    have di: "d = RInt n" if "t = REG_DWORD \<or> t = REG_QWORD" "data = RInt n"
      using that d by (auto simp: normalize_value_def reg_types)
    show "t = REG_DWORD \<and> data = RInt n \<Longrightarrow> get_bytes w v = Inr (le_bytes 4 n)"
      using di that le(1) by (simp add: get_bytes_def reg_types)
    show "t = REG_QWORD \<and> data = RInt n \<Longrightarrow> get_bytes w v = Inr (le_bytes 8 n)"
      using di that le(2) by (simp add: get_bytes_def reg_types)
  qed
  obtain vs v where k1: "key_of i s1 = (key_of i s)\<lparr>rk_values := vs\<rparr>" and oth: "\<forall>j. j \<noteq> i \<longrightarrow> key_of j s1 = key_of j s"
    and v: "rv_type v = Some t" "rv_data v = d" "find ?P vs = Some v"
    and rest: "\<And>m. lower m \<noteq> lower name \<Longrightarrow> find (value_named (Some m)) vs = find (value_named (Some m)) (rk_values (key_of i s))"
  proof (cases "get_value (Some name) (key_of i s)")
    case (Some v0)
    let ?f = "\<lambda>v. v\<lparr>rv_type := Some t, rv_data := d\<rparr>"
    have inv: "value_named n (?f v) = value_named n v" for n v by (rule value_named_update) simp
    have e: "key_of j s1 = key_of j (put_key i ((key_of i s)\<lparr>rk_values := update_first ?P ?f (rk_values (key_of i s))\<rparr>) s)" for j
      using assms(3) Some d by (auto simp: write_value_def Let_def)
    show thesis
    proof (rule that [of "update_first ?P ?f (rk_values (key_of i s))" "?f v0"])
      show "find ?P (update_first ?P ?f (rk_values (key_of i s))) = Some (?f v0)"
        using find_update_first [of ?P ?f, OF inv] Some by (simp add: get_value_def)
      show "find (value_named (Some m)) (update_first ?P ?f (rk_values (key_of i s))) =
          find (value_named (Some m)) (rk_values (key_of i s))" if "lower m \<noteq> lower name" for m
        using value_named_other [OF that assms(2)] by (intro find_update_first_other inv) blast
    qed (simp_all add: e key_of_put [OF assms(1)])
  next
    case None
    let ?v = "\<lparr>rv_name = name, rv_type = Some t, rv_data = d\<rparr>"
    have e: "key_of j s1 = key_of j (put_key i ((key_of i s)\<lparr>rk_values := rk_values (key_of i s) @ [?v]\<rparr>) s)" for j
      using assms(3) None d
      by (auto simp: write_value_def Let_def create_value_def new_value_def)
    have pv: "?P ?v" using nn by (cases name) (simp_all add: value_named_def)
    show thesis
    proof (rule that [of "rk_values (key_of i s) @ [?v]" ?v])
      show "find ?P (rk_values (key_of i s) @ [?v]) = Some ?v"
        using None pv by (simp add: get_value_def find_append_None)
      show "find (value_named (Some m)) (rk_values (key_of i s) @ [?v]) =
          find (value_named (Some m)) (rk_values (key_of i s))" if "lower m \<noteq> lower name" for m
      proof (cases "find (value_named (Some m)) (rk_values (key_of i s))")
        case None
        then show ?thesis using value_named_other [OF that assms(2) pv] by (simp add: find_append_None)
      next
        case (Some u)
        have "find P (xs @ ys) = Some x" if "find P xs = Some x" for P :: "reg_value \<Rightarrow> bool" and xs ys x
          using that by (induction xs) (auto split: if_splits)
        then show ?thesis using Some by simp
      qed
    qed (simp_all add: e key_of_put [OF assms(1)])
  qed
  have "get_value (Some m) (key_of i s1) = Some v" if "lower m = lower name" for m
  proof -
    have "value_named (Some m) = ?P" using value_named_lower [OF that] by blast
    then show ?thesis using v(3) by (simp add: get_value_def k1)
  qed
  moreover have "get_value (Some m) (key_of i s1) = get_value (Some m) (key_of i s)" if "lower m \<noteq> lower name" for m
    using rest [OF that] by (simp add: get_value_def k1)
  ultimately show ?thesis
    using d v(1,2) bytes [OF v(1,2)] ints [OF v(1,2)] oth by (intro conjI exI [of _ v] exI [of _ d]) auto
qed

lemma remove_first_distinct:
  "distinct xs \<Longrightarrow> set (remove_first (\<lambda>j. j = i) xs) = set xs - {i}"
  by (induction xs) auto

text \<open>a deleted key is gone: no path that names it finds it, the config does not give it back, and opening it without
  creating it fails, unless a known key below it exists.\<close>

theorem deleted_key_gone:
  assumes "delete_key h s = (True, s1)" and "rm_get_key h s = Some i"
    and "distinct (rw_keys (hw_world s))" and "distinct (map (\<lambda>j. lower (key_path j s)) (rw_keys (hw_world s)))"
    and "i \<in> set (rw_keys (hw_world s))"
    and "plain (key_path i s)" and "lower (normalize_reg_path q) = lower (key_path i s)"
  shows "get_key_from_path q s1 = None \<and> get_key_from_config (normalize_reg_path q) s1 = Inr None \<and>
    (\<not> is_key_a_parent_key (normalize_reg_path q) s1 \<longrightarrow> fst (get_key_handle q False s1) = Inr None)"
proof -
  have hw: "rw_heap (hw_world s1) = rw_heap (hw_world s)" "rw_config (hw_world s1) = rw_config (hw_world s)"
    "rw_keys (hw_world s1) = remove_first (\<lambda>j. j = i) (rw_keys (hw_world s))"
    "lower (key_path i s) \<in> set (rw_deleted (hw_world s1))"
    using assms(1,2) by (auto simp: delete_key_def record_event_def Let_def)
  note pl = plain_lower [OF assms(6)]
  have keys: "set (rw_keys (hw_world s1)) = set (rw_keys (hw_world s)) - {i}"
    unfolding hw(3) by (rule remove_first_distinct [OF assms(3)])
  have kp: "key_path j s1 = key_path j s" for j by (simp add: key_path_def key_of_def hw(1))
  have "lower (key_path j s) \<noteq> lower (key_path i s)" if "j \<in> set (rw_keys (hw_world s1))" for j
    using that keys assms(4,5) by (auto simp: distinct_map dest: inj_onD)
  then have f: "get_key_from_path q s1 = None"
    using pl by (auto simp: get_key_from_path_def Let_def assms(7) find_None_iff_all fn_match_plain kp)
  have c: "get_key_from_config (normalize_reg_path q) s1 = Inr None"
    using hw(4) by (auto simp: get_key_from_config_def assms(7) split: option.splits)
  have "get_key_from_path (normalize_reg_path q) s1 = None" using f by (simp add: get_key_from_path_def Let_def)
  then show ?thesis using f c by (simp add: get_key_handle_def Let_def)
qed

subsection \<open>Witnesses\<close>

text \<open>A registry without predefined keys and with short paths, so that the witnesses evaluate.\<close>

definition reg0 :: reg_state where
  "reg0 = \<lparr>hw_alloc = init_allocator, hw_tables = (\<lambda>_. Map.empty), hw_world = \<lparr>rw_heap = [], rw_keys = [], rw_predefined = [],
     rw_deleted = [], rw_config = None, rw_emu = True, rw_events = []\<rparr>\<rparr>"

definition foo_path :: string where "foo_path = ''Foo''"

definition reg1 :: reg_state where
  "reg1 = snd (create_key foo_path reg0)"

lemma reg0_ok: "reg_ok reg0"
  by (simp add: reg_ok_def reg0_def)

theorem create_key_idempotent_witness:
  "create_key (''FOO'' @ [backslash]) reg1 = (Inr 0, reg1)"
proof -
  have pl: "plain (normalize_reg_path foo_path)" by code_simp
  have "fst (create_key foo_path reg0) = Inr 0" by code_simp
  then have c: "create_key foo_path reg0 = (Inr 0, reg1)" by (simp add: reg1_def prod_eq_iff)
  have "lower (normalize_reg_path (''FOO'' @ [backslash])) = lower (normalize_reg_path foo_path)"
    by code_simp
  from create_key_idempotent [OF reg0_ok pl c this] show ?thesis .
qed

theorem write_then_read_witness:
  "\<exists>v. get_value (Some ''STATE'') (key_of 0 (snd (write_value 0 ''State'' (Some REG_BINARY) (RBytes [1, 255]) [] 0 reg1)))
     = Some v \<and> get_bytes 2 v = Inr [1, 255]"
proof -
  let ?s = "snd (write_value 0 ''State'' (Some REG_BINARY) (RBytes [1, 255]) [] 0 reg1)"
  have i: "0 < length (rw_heap (hw_world reg1))" by code_simp
  have n: "lower ''State'' \<notin> {[], ''default''}" by code_simp
  have "fst (write_value 0 ''State'' (Some REG_BINARY) (RBytes [1, 255]) [] 0 reg1) = Inr ()" by code_simp
  then have w: "write_value 0 ''State'' (Some REG_BINARY) (RBytes [1, 255]) [] 0 reg1 = (Inr (), ?s)"
    by (simp add: prod_eq_iff)
  have l: "lower ''STATE'' = lower ''State''" by code_simp
  from write_then_read [OF i n w, of 2] obtain v where
    "\<forall>m. lower m = lower ''State'' \<longrightarrow> get_value (Some m) (key_of 0 ?s) = Some v"
    "\<forall>b. REG_BINARY = REG_BINARY \<and> RBytes [1, 255] = RBytes b \<longrightarrow> get_bytes 2 v = Inr b"
    by blast
  then show ?thesis using l by blast
qed

definition reg2 :: reg_state where
  "reg2 = snd (open_key foo_path False reg1)"

theorem deleted_key_gone_witness:
  "get_key_from_path foo_path (snd (delete_key 0x80 reg2)) = None"
proof -
  have "fst (delete_key 0x80 reg2) = True" by code_simp
  then have d: "delete_key 0x80 reg2 = (True, snd (delete_key 0x80 reg2))" by (simp add: prod_eq_iff)
  have g: "rm_get_key 0x80 reg2 = Some 0" by code_simp
  have k: "rw_keys (hw_world reg2) = [0]" by code_simp
  have dd: "distinct (map (\<lambda>j. lower (key_path j reg2)) (rw_keys (hw_world reg2)))" unfolding k by code_simp
  have pl: "plain (key_path 0 reg2)" by code_simp
  have l: "lower (normalize_reg_path foo_path) = lower (key_path 0 reg2)" by code_simp
  have dk: "distinct (rw_keys (hw_world reg2))" and m: "0 \<in> set (rw_keys (hw_world reg2))" by (simp_all add: k)
  from deleted_key_gone [OF d g dk dd m pl l] show ?thesis by simp
qed

text \<open>A path is used as an \<open>fnmatch\<close> pattern: a key whose path has a bracket does not match its own path, so each creation
  makes another key.\<close>

lemma bracket_key_created_twice:
  "fst (create_key (''[a]'') (snd (create_key (''[a]'') reg0))) \<noteq>
   fst (create_key (''[a]'') reg0)"
  by code_simp

end
