(* ===== verification/Generators.thy ===== *)
theory Generators
  imports Prelude
begin

text \<open>
  Generator handlers: programs over a state \<open>'s\<close> that read and replace it, fail, and yield calls of guest functions whose
  return values they get back. The guest runs between a yield and its answer and may change the state. \<open>gsend\<close> runs a
  program up to its first call, \<open>play\<close> runs it against a guest that answers every call and records the calls.
\<close>

record guest_call =
  gc_function :: int
  gc_args :: "int list"
  gc_registers :: "(string \<times> int) list"

text \<open>\<open>CallbackError\<close> and its subclass \<open>UnhandledException\<close>, which has a code.\<close>

record callback_error =
  cb_kind :: string
  cb_address :: int
  cb_access :: "string option"
  cb_pc :: "int option"
  cb_code :: "int option"
  cb_message :: "string option"
  cb_interrupt :: "int option"

text \<open>What a program raises: a callback error, the error of the engine for an access, or another exception.\<close>

datatype fault = Callback callback_error | Access string int int | Other error

datatype (dead 's, 'a) gen =
    Ret 'a
  | Fail fault
  | Get "'s \<Rightarrow> ('s, 'a) gen"
  | Put 's "('s, 'a) gen"
  | Yield guest_call "int \<Rightarrow> ('s, 'a) gen"

primrec gbind :: "('s, 'a) gen \<Rightarrow> ('a \<Rightarrow> ('s, 'b) gen) \<Rightarrow> ('s, 'b) gen" where
  "gbind (Ret x) f = f x"
| "gbind (Fail e) f = Fail e"
| "gbind (Get g) f = Get (\<lambda>s. gbind (g s) f)"
| "gbind (Put s m) f = Put s (gbind m f)"
| "gbind (Yield c k) f = Yield c (\<lambda>v. gbind (k v) f)"

text \<open>\<open>try: ... except\<close>, where the handler is a program for each exception.\<close>

primrec gcatch :: "('s, 'a) gen \<Rightarrow> (fault \<Rightarrow> ('s, 'a) gen) \<Rightarrow> ('s, 'a) gen" where
  "gcatch (Ret x) h = Ret x"
| "gcatch (Fail e) h = h e"
| "gcatch (Get g) h = Get (\<lambda>s. gcatch (g s) h)"
| "gcatch (Put s m) h = Put s (gcatch m h)"
| "gcatch (Yield c k) h = Yield c (\<lambda>v. gcatch (k v) h)"

definition gets :: "('s \<Rightarrow> 'a) \<Rightarrow> ('s, 'a) gen" where "gets f = Get (\<lambda>s. Ret (f s))"
definition modify :: "('s \<Rightarrow> 's) \<Rightarrow> ('s, unit) gen" where "modify f = Get (\<lambda>s. Put (f s) (Ret ()))"
definition call :: "guest_call \<Rightarrow> ('s, int) gen" where "call c = Yield c Ret"
definition glift :: "'a result \<Rightarrow> ('s, 'a) gen" where
  "glift r = (case r of Inl e \<Rightarrow> Fail (Other e) | Inr x \<Rightarrow> Ret x)"

fun gmapM :: "('a \<Rightarrow> ('s, unit) gen) \<Rightarrow> 'a list \<Rightarrow> ('s, unit) gen" where
  "gmapM f [] = Ret ()"
| "gmapM f (x # xs) = gbind (f x) (\<lambda>_. gmapM f xs)"

lemma gbind_assoc: "gbind (gbind m f) g = gbind m (\<lambda>x. gbind (f x) g)"
  by (induction m) simp_all

lemma gbind_Ret [simp]: "gbind m Ret = m"
  by (induction m) simp_all

lemma gbind_if: "gbind (if c then m else n) f = (if c then gbind m f else gbind n f)"
  by simp

text \<open>One \<open>send\<close>: up to the first call, the end or an exception.\<close>

datatype ('s, 'a) send_result = Finished 'a | Failed fault | Called guest_call "int \<Rightarrow> ('s, 'a) gen"

primrec gsend :: "('s, 'a) gen \<Rightarrow> 's \<Rightarrow> ('s, 'a) send_result \<times> 's" where
  "gsend (Ret x) s = (Finished x, s)"
| "gsend (Fail e) s = (Failed e, s)"
| "gsend (Get g) s = gsend (g s) s"
| "gsend (Put s' m) s = gsend m s'"
| "gsend (Yield c k) s = (Called c k, s)"

text \<open>A guest answers a call in a state with a return value and a new state. \<open>play\<close> gives the calls with their answers,
  the result and the last state.\<close>

type_synonym 's guest = "guest_call \<Rightarrow> 's \<Rightarrow> int \<times> 's"

primrec play :: "('s, 'a) gen \<Rightarrow> 's guest \<Rightarrow> 's \<Rightarrow> (guest_call \<times> int) list \<times> (fault + 'a) \<times> 's" where
  "play (Ret x) g s = ([], Inr x, s)"
| "play (Fail e) g s = ([], Inl e, s)"
| "play (Get h) g s = play (h s) g s"
| "play (Put s' m) g s = play m g s'"
| "play (Yield c k) g s =
     (case g c s of (v, s') \<Rightarrow> case play (k v) g s' of (t, r) \<Rightarrow> ((c, v) # t, r))"

lemma play_gbind:
  "play (gbind m f) g s =
     (case play m g s of
        (t, Inl e, s') \<Rightarrow> (t, Inl e, s')
      | (t, Inr x, s') \<Rightarrow> (case play (f x) g s' of (t', r) \<Rightarrow> (t @ t', r)))"
  by (induction m arbitrary: s) (simp_all split: prod.split sum.split)

lemma play_gcatch:
  "play (gcatch m h) g s =
     (case play m g s of
        (t, Inl e, s') \<Rightarrow> (case play (h e) g s' of (t', r) \<Rightarrow> (t @ t', r))
      | (t, Inr x, s') \<Rightarrow> (t, Inr x, s'))"
  by (induction m arbitrary: s) (simp_all split: prod.split sum.split)

lemma play_simps [simp]:
  "play (gets f) g s = ([], Inr (f s), s)"
  "play (modify f') g s = ([], Inr (), f' s)"
  "play (call c) g s = (case g c s of (v, s') \<Rightarrow> ([(c, v)], Inr v, s'))"
  "play (glift r) g s = ([], (case r of Inl e \<Rightarrow> Inl (Other e) | Inr x \<Rightarrow> Inr x), s)"
  by (simp_all add: gets_def modify_def call_def glift_def split: prod.split sum.split)

end
