(* ===== verification/Thread_Contexts.thy ===== *)
theory Thread_Contexts
  imports Unwind
begin

text \<open>
  Thread contexts (\<^verbatim>\<open>speakeasy/windows/thread_context.py\<close>, the structs \<open>CONTEXT\<close>, \<open>CONTEXT64\<close> and
  \<open>EXCEPTION_RECORD\<close>), the exceptions of the CPU (\<^verbatim>\<open>cpu_exceptions.py\<close>) and the hardware breakpoints
  (\<^verbatim>\<open>hardware_breakpoints.py\<close>). A struct is the list of its fields with their sizes; its value maps the names of the
  fields to unsigned integers. An array of bytes and an \<open>M128A\<close> are one or two integers.
\<close>

subsection \<open>Structs\<close>

type_synonym struct_layout = "(string \<times> nat) list"
type_synonym fields = "string \<Rightarrow> int"

definition struct_size :: "struct_layout \<Rightarrow> nat" where
  "struct_size l = sum_list (map snd l)"

primrec struct_bytes :: "struct_layout \<Rightarrow> fields \<Rightarrow> byte list" where
  "struct_bytes [] f = []"
| "struct_bytes (x # l) f = le_bytes (snd x) (f (fst x)) @ struct_bytes l f"

primrec struct_of :: "struct_layout \<Rightarrow> byte list \<Rightarrow> fields" where
  "struct_of [] bs = (\<lambda>_. 0)"
| "struct_of (x # l) bs = (struct_of l (drop (snd x) bs))(fst x := le_val (take (snd x) bs))"

text \<open>An assignment keeps the low bits of the field; a name that is not a field raises in the source and keeps the value
  here.\<close>

definition set_field :: "struct_layout \<Rightarrow> string \<Rightarrow> int \<Rightarrow> fields \<Rightarrow> fields" where
  "set_field l name v f = (case map_of l name of None \<Rightarrow> f | Some w \<Rightarrow> f(name := v mod 256 ^ w))"

definition words :: "nat \<Rightarrow> string list \<Rightarrow> struct_layout" where
  "words w names = map (\<lambda>x. (x, w)) names"

definition CONTEXT :: struct_layout where
  "CONTEXT = words 4 [''ContextFlags'', ''Dr0'', ''Dr1'', ''Dr2'', ''Dr3'', ''Dr6'', ''Dr7''] @ [(''FloatSave'', 112)] @
     words 4 [''SegGs'', ''SegFs'', ''SegEs'', ''SegDs'', ''Edi'', ''Esi'', ''Ebx'', ''Edx'', ''Ecx'', ''Eax'', ''Ebp'',
       ''Eip'', ''SegCs'', ''EFlags'', ''Esp'', ''SegSs''] @ [(''ExtendedRegisters'', 512)]"

definition xmm_name :: "nat \<Rightarrow> string \<Rightarrow> string" where
  "xmm_name i part = ''Xmm'' @ dec_nat i @ ''.'' @ part"

definition CONTEXT64 :: struct_layout where
  "CONTEXT64 = words 8 [''P1Home'', ''P2Home'', ''P3Home'', ''P4Home'', ''P5Home'', ''P6Home''] @
     words 4 [''ContextFlags'', ''MxCsr''] @ words 2 [''SegCs'', ''SegDs'', ''SegEs'', ''SegFs'', ''SegGs'', ''SegSs''] @
     words 4 [''EFlags''] @ words 8 [''Dr0'', ''Dr1'', ''Dr2'', ''Dr3'', ''Dr6'', ''Dr7'', ''Rax'', ''Rcx'', ''Rdx'', ''Rbx'',
       ''Rsp'', ''Rbp'', ''Rsi'', ''Rdi'', ''R8'', ''R9'', ''R10'', ''R11'', ''R12'', ''R13'', ''R14'', ''R15'', ''Rip''] @
     [(''Header'', 32), (''Legacy'', 128)] @
     concat (map (\<lambda>i. words 8 [xmm_name i ''Low'', xmm_name i ''High'']) [0..<16]) @
     [(''FltSaveReserved'', 96), (''VectorRegister'', 416)] @
     words 8 [''VectorControl'', ''DebugControl'', ''LastBranchToRip'', ''LastBranchFromRip'', ''LastExceptionToRip'',
       ''LastExceptionFromRip'']"

definition EXCEPTION_MAXIMUM_PARAMETERS :: nat where "EXCEPTION_MAXIMUM_PARAMETERS = 15"

definition info_name :: "nat \<Rightarrow> string" where "info_name i = ''ExceptionInformation'' @ dec_nat i"

definition EXCEPTION_RECORD :: "nat \<Rightarrow> struct_layout" where
  "EXCEPTION_RECORD p = words 4 [''ExceptionCode'', ''ExceptionFlags''] @ words p [''ExceptionRecord'', ''ExceptionAddress''] @
     words 4 [''NumberParameters''] @ (if p = 8 then [(''Padding'', 4)] else []) @
     words p (map info_name [0..<EXCEPTION_MAXIMUM_PARAMETERS])"

subsection \<open>Contexts\<close>

record win_context =
  c_amd64 :: bool
  c_fields :: fields

definition context_layout :: "bool \<Rightarrow> struct_layout" where
  "context_layout amd64 = (if amd64 then CONTEXT64 else CONTEXT)"

definition new_context :: "bool \<Rightarrow> win_context" where
  "new_context amd64 = \<lparr>c_amd64 = amd64, c_fields = (\<lambda>_. 0)\<rparr>"

definition cget :: "string \<Rightarrow> win_context \<Rightarrow> int" where "cget name ctx = c_fields ctx name"

definition cset :: "string \<Rightarrow> int \<Rightarrow> win_context \<Rightarrow> win_context" where
  "cset name v ctx = ctx\<lparr>c_fields := set_field (context_layout (c_amd64 ctx)) name v (c_fields ctx)\<rparr>"

definition context_bytes :: "win_context \<Rightarrow> byte list" where
  "context_bytes ctx = struct_bytes (context_layout (c_amd64 ctx)) (c_fields ctx)"

definition context_of :: "bool \<Rightarrow> byte list \<Rightarrow> win_context" where
  "context_of amd64 bs = \<lparr>c_amd64 = amd64, c_fields = struct_of (context_layout amd64) bs\<rparr>"

definition CONTEXT_AMD64 :: int where "CONTEXT_AMD64 = 0x100000"
definition CONTEXT_i386 :: int where "CONTEXT_i386 = 0x10000"
definition CONTEXT_CONTROL :: int where "CONTEXT_CONTROL = 0x1"
definition CONTEXT_INTEGER :: int where "CONTEXT_INTEGER = 0x2"
definition CONTEXT_SEGMENTS :: int where "CONTEXT_SEGMENTS = 0x4"
definition CONTEXT_FLOATING_POINT :: int where "CONTEXT_FLOATING_POINT = 0x8"
definition CONTEXT_DEBUG_REGISTERS :: int where "CONTEXT_DEBUG_REGISTERS = 0x10"
definition CONTEXT_EXTENDED_REGISTERS :: int where "CONTEXT_EXTENDED_REGISTERS = 0x20"

definition DEBUG_REGISTERS :: "string list" where
  "DEBUG_REGISTERS = [''Dr0'', ''Dr1'', ''Dr2'', ''Dr3'', ''Dr6'', ''Dr7'']"

definition SECTIONS_AMD64 :: "(int \<times> string list) list" where
  "SECTIONS_AMD64 =
     [(CONTEXT_CONTROL, [''SegCs'', ''SegSs'', ''EFlags'', ''Rsp'', ''Rip'']),
      (CONTEXT_INTEGER, [''Rax'', ''Rcx'', ''Rdx'', ''Rbx'', ''Rbp'', ''Rsi'', ''Rdi'', ''R8'', ''R9'', ''R10'', ''R11'',
         ''R12'', ''R13'', ''R14'', ''R15'']),
      (CONTEXT_SEGMENTS, [''SegDs'', ''SegEs'', ''SegFs'', ''SegGs'']),
      (CONTEXT_FLOATING_POINT, [''MxCsr'']), (CONTEXT_DEBUG_REGISTERS, DEBUG_REGISTERS)]"

definition SECTIONS_I386 :: "(int \<times> string list) list" where
  "SECTIONS_I386 =
     [(CONTEXT_CONTROL, [''Ebp'', ''Eip'', ''SegCs'', ''EFlags'', ''Esp'', ''SegSs'']),
      (CONTEXT_INTEGER, [''Edi'', ''Esi'', ''Ebx'', ''Edx'', ''Ecx'', ''Eax'']),
      (CONTEXT_SEGMENTS, [''SegGs'', ''SegFs'', ''SegEs'', ''SegDs'']), (CONTEXT_DEBUG_REGISTERS, DEBUG_REGISTERS)]"

text \<open>The fields of a context that have a CPU register.\<close>

definition flags_and_segments :: "string list" where
  "flags_and_segments = [''EFlags'', ''SegCs'', ''SegSs'', ''SegDs'', ''SegFs'', ''SegGs'', ''SegEs'']"

definition CPU_REGISTERS_I386 :: "string list" where
  "CPU_REGISTERS_I386 =
     [''Edi'', ''Esi'', ''Eax'', ''Ebp'', ''Edx'', ''Ecx'', ''Ebx'', ''Esp'', ''Eip''] @ flags_and_segments"

definition CPU_REGISTERS_AMD64 :: "string list" where
  "CPU_REGISTERS_AMD64 =
     [''Rax'', ''Rbx'', ''Rcx'', ''Rdx'', ''Rsi'', ''Rdi'', ''Rbp'', ''Rsp'', ''Rip'', ''R8'', ''R9'', ''R10'', ''R11'',
      ''R12'', ''R13'', ''R14'', ''R15''] @ flags_and_segments"

definition CONTEXT_FULL_AMD64 :: int where
  "CONTEXT_FULL_AMD64 = CONTEXT_AMD64 OR CONTEXT_CONTROL OR CONTEXT_INTEGER OR CONTEXT_FLOATING_POINT"
definition CONTEXT_ALL_AMD64 :: int where
  "CONTEXT_ALL_AMD64 = CONTEXT_FULL_AMD64 OR CONTEXT_SEGMENTS OR CONTEXT_DEBUG_REGISTERS"
definition CONTEXT_FULL_I386 :: int where
  "CONTEXT_FULL_I386 = CONTEXT_i386 OR CONTEXT_CONTROL OR CONTEXT_INTEGER OR CONTEXT_SEGMENTS"
definition CONTEXT_ALL_I386 :: int where
  "CONTEXT_ALL_I386 = CONTEXT_FULL_I386 OR CONTEXT_FLOATING_POINT OR CONTEXT_DEBUG_REGISTERS OR CONTEXT_EXTENDED_REGISTERS"

definition has_section :: "int \<Rightarrow> int \<Rightarrow> bool" where
  "has_section flags section \<longleftrightarrow> flags AND (CONTEXT_AMD64 OR CONTEXT_i386) \<noteq> 0 \<and> flags AND section \<noteq> 0"

definition instruction_pointer :: "win_context \<Rightarrow> int" where
  "instruction_pointer ctx = cget (if c_amd64 ctx then ''Rip'' else ''Eip'') ctx"

definition stack_pointer :: "win_context \<Rightarrow> int" where
  "stack_pointer ctx = cget (if c_amd64 ctx then ''Rsp'' else ''Esp'') ctx"

definition set_control :: "win_context \<Rightarrow> int \<Rightarrow> int \<Rightarrow> win_context" where
  "set_control ctx ip sp =
     (if c_amd64 ctx then cset ''Rsp'' sp (cset ''Rip'' ip ctx) else cset ''Esp'' sp (cset ''Eip'' ip ctx))"

definition register_state :: "win_context \<Rightarrow> (string \<times> int) list" where
  "register_state ctx =
     map (\<lambda>name. (lower name, cget name ctx))
       (if c_amd64 ctx
        then [''Rsp'', ''Rbp'', ''Rip'', ''Rsi'', ''Rdi'', ''Rax'', ''Rbx'', ''Rcx'', ''Rdx'', ''R8'', ''R9'', ''R10'', ''R11'',
          ''R12'', ''R13'', ''R14'', ''R15'']
        else [''Esp'', ''Ebp'', ''Eip'', ''Esi'', ''Edi'', ''Eax'', ''Ebx'', ''Ecx'', ''Edx''])"

definition copy_fields :: "win_context \<Rightarrow> string list \<Rightarrow> win_context \<Rightarrow> win_context" where
  "copy_fields source names ctx = foldl (\<lambda>t name. cset name (cget name source) t) ctx names"

definition copy_sections :: "win_context \<Rightarrow> win_context \<Rightarrow> int \<Rightarrow> win_context" where
  "copy_sections source target flags =
     (let copied = foldl (\<lambda>t (section, names). if has_section flags section then copy_fields source names t else t) target
            (if c_amd64 target then SECTIONS_AMD64 else SECTIONS_I386)
      in if c_amd64 target \<and> has_section flags CONTEXT_FLOATING_POINT
         then copy_fields source (concat (map (\<lambda>i. [xmm_name i ''Low'', xmm_name i ''High'']) [0..<16])) copied
         else copied)"

definition get_debug_registers :: "fields \<Rightarrow> win_context \<Rightarrow> win_context" where
  "get_debug_registers debug ctx = foldl (\<lambda>c name. cset name (debug name) c) ctx DEBUG_REGISTERS"

definition set_debug_registers :: "win_context \<Rightarrow> fields \<Rightarrow> fields" where
  "set_debug_registers ctx debug = (\<lambda>name. if name \<in> set DEBUG_REGISTERS then cget name ctx else debug name)"

text \<open>The registers that the unwinder uses.\<close>

definition GPRS :: "string list" where
  "GPRS = [''Rax'', ''Rcx'', ''Rdx'', ''Rbx'', ''Rsp'', ''Rbp'', ''Rsi'', ''Rdi'', ''R8'', ''R9'', ''R10'', ''R11'', ''R12'',
     ''R13'', ''R14'', ''R15'']"

definition unwind_view :: "win_context \<Rightarrow> context64" where
  "unwind_view ctx =
     \<lparr>cx_gpr = (\<lambda>i. if 0 \<le> i \<and> i < 16 then cget (GPRS ! nat i) ctx else 0), cx_rip = cget ''Rip'' ctx,
      cx_xmm = (\<lambda>i. if 0 \<le> i \<and> i < 16 then (cget (xmm_name (nat i) ''Low'') ctx, cget (xmm_name (nat i) ''High'') ctx)
                  else (0, 0))\<rparr>"

definition put_unwind_view :: "context64 \<Rightarrow> win_context \<Rightarrow> win_context" where
  "put_unwind_view u ctx =
     cset ''Rip'' (cx_rip u)
       (foldl (\<lambda>c i. cset (GPRS ! i) (cx_gpr u (int i)) (cset (xmm_name i ''Low'') (fst (cx_xmm u (int i)))
          (cset (xmm_name i ''High'') (snd (cx_xmm u (int i))) c))) ctx [0..<16])"

subsection \<open>Exceptions of the CPU\<close>

definition STATUS_BREAKPOINT :: int where "STATUS_BREAKPOINT = 0x80000003"
definition STATUS_SINGLE_STEP :: int where "STATUS_SINGLE_STEP = 0x80000004"
definition STATUS_ACCESS_VIOLATION :: int where "STATUS_ACCESS_VIOLATION = 0xC0000005"
definition STATUS_INTEGER_DIVIDE_BY_ZERO :: int where "STATUS_INTEGER_DIVIDE_BY_ZERO = 0xC0000094"
definition STATUS_ILLEGAL_INSTRUCTION :: int where "STATUS_ILLEGAL_INSTRUCTION = 0xC000001D"
definition STATUS_PRIVILEGED_INSTRUCTION :: int where "STATUS_PRIVILEGED_INSTRUCTION = 0xC0000096"
definition STATUS_GUARD_PAGE_VIOLATION :: int where "STATUS_GUARD_PAGE_VIOLATION = 0x80000001"
definition STATUS_ASSERTION_FAILURE :: int where "STATUS_ASSERTION_FAILURE = 0xC0000420"

definition INT_BREAKPOINT :: int where "INT_BREAKPOINT = 0x03"
definition INT_ASSERTION :: int where "INT_ASSERTION = 0x2C"
definition INT_DEBUG_SERVICE :: int where "INT_DEBUG_SERVICE = 0x2D"

definition ACCESS_CODES :: "(string \<times> int) list" where
  "ACCESS_CODES = [(''read'', 0), (''write'', 1), (''fetch'', 8)]"

definition DEBUG_SERVICE_NO_EXCEPTION :: "int list" where
  "DEBUG_SERVICE_NO_EXCEPTION = [1, 3, 4, 5]"

record cpu_exception =
  ce_code :: int
  ce_address :: int
  ce_pc :: int
  ce_params :: "int list"

definition cpu_exception_of :: "int \<Rightarrow> int \<Rightarrow> int \<Rightarrow> int list \<Rightarrow> cpu_exception" where
  "cpu_exception_of code address pc params = \<lparr>ce_code = code, ce_address = address, ce_pc = pc, ce_params = params\<rparr>"

definition general_protection :: "int \<Rightarrow> cpu_exception" where
  "general_protection pc = cpu_exception_of STATUS_ACCESS_VIOLATION pc pc [0, 0xFFFFFFFFFFFFFFFF]"

definition from_interrupt :: "int \<Rightarrow> int \<Rightarrow> byte list \<Rightarrow> int \<Rightarrow> bool \<Rightarrow> cpu_exception option" where
  "from_interrupt intno pc code_bytes rax trap_flag =
     (if intno = 0 then Some (cpu_exception_of STATUS_INTEGER_DIVIDE_BY_ZERO pc pc [])
      else if intno = 1
      then (if \<not> trap_flag \<and> code_bytes = [0xCD, 0x01] then Some (general_protection (pc - 2))
            else Some (cpu_exception_of STATUS_SINGLE_STEP pc pc []))
      else if intno = INT_BREAKPOINT then Some (cpu_exception_of STATUS_BREAKPOINT (pc - 1) (pc - 1) [0])
      else if intno = INT_DEBUG_SERVICE
      then (if rax \<in> set DEBUG_SERVICE_NO_EXCEPTION then None
            else Some (cpu_exception_of STATUS_BREAKPOINT (pc + 1) pc [rax]))
      else if intno = INT_ASSERTION then Some (cpu_exception_of STATUS_ASSERTION_FAILURE (pc - 2) (pc - 2) [])
      else if code_bytes = [0xCD, word_of_int intno] then Some (general_protection (pc - 2))
      else Some (general_protection pc))"

definition skip_debug_service :: "int \<Rightarrow> int" where "skip_debug_service pc = pc + 1"

definition from_invalid_instruction :: "int \<Rightarrow> byte list \<Rightarrow> cpu_exception" where
  "from_invalid_instruction pc code_bytes =
     (if take 1 code_bytes = [0xF1] then cpu_exception_of STATUS_SINGLE_STEP (pc + 1) (pc + 1) []
      else cpu_exception_of STATUS_ILLEGAL_INSTRUCTION pc pc [])"

definition privileged_instruction :: "int \<Rightarrow> cpu_exception" where
  "privileged_instruction pc = cpu_exception_of STATUS_PRIVILEGED_INSTRUCTION pc pc []"

definition memory_fault :: "int \<Rightarrow> int \<Rightarrow> string option \<Rightarrow> int \<Rightarrow> cpu_exception" where
  "memory_fault pc address access_type code =
     cpu_exception_of code pc pc
       [case access_type of None \<Rightarrow> 0 | Some t \<Rightarrow> (case map_of ACCESS_CODES t of None \<Rightarrow> 0 | Some c \<Rightarrow> c), address]"

subsection \<open>Hardware breakpoints\<close>

definition RESUME_FLAG :: int where "RESUME_FLAG = 0x10000"

definition debug_name :: "nat \<Rightarrow> string" where "debug_name i = ''Dr'' @ dec_nat i"

text \<open>The dict from an address to the index of its first enabled execute breakpoint.\<close>

definition execute_breakpoints :: "fields \<Rightarrow> (int \<times> nat) list" where
  "execute_breakpoints debug =
     foldl (\<lambda>m i. if drop_bit (2 * i) (debug ''Dr7'') AND 3 \<noteq> 0 \<and> drop_bit (16 + 4 * i) (debug ''Dr7'') AND 3 = 0 \<and>
                     map_of m (debug (debug_name i)) = None
                  then m @ [(debug (debug_name i), i)] else m) [] [0..<4]"

record hardware_breakpoints =
  hb_hooks :: "int list"
  hb_resume :: "(int option \<times> int) option"

text \<open>\<open>update\<close> with the debug registers of the current thread, if there is one, and the kernel mode flag.\<close>

definition hb_update :: "fields option \<Rightarrow> bool \<Rightarrow> hardware_breakpoints \<Rightarrow> hardware_breakpoints" where
  "hb_update debug kernel_mode hb =
     (let wanted = (case debug of Some d \<Rightarrow> if kernel_mode then [] else map fst (execute_breakpoints d) | None \<Rightarrow> [])
      in hb\<lparr>hb_hooks := filter (\<lambda>a. a \<in> set wanted) (hb_hooks hb) @ filter (\<lambda>a. a \<notin> set (hb_hooks hb)) wanted\<rparr>)"

definition hb_resume_at :: "int option \<Rightarrow> int \<Rightarrow> hardware_breakpoints \<Rightarrow> hardware_breakpoints" where
  "hb_resume_at thread address hb =
     hb\<lparr>hb_resume := (if address \<in> set (hb_hooks hb) then Some (thread, address) else None)\<rparr>"

text \<open>\<open>_hit\<close> at an address: the new debug registers and the exception, if the breakpoint breaks.\<close>

definition hb_hit ::
  "int option \<Rightarrow> fields \<Rightarrow> int \<Rightarrow> hardware_breakpoints \<Rightarrow> (fields \<times> cpu_exception option) \<times> hardware_breakpoints" where
  "hb_hit thread debug address hb =
     (let cleared = hb\<lparr>hb_resume := None\<rparr>
      in if hb_resume hb = Some (thread, address) then ((debug, None), cleared)
         else case (case thread of None \<Rightarrow> None | Some _ \<Rightarrow> map_of (execute_breakpoints debug) address) of
                None \<Rightarrow> ((debug, None), cleared)
              | Some index \<Rightarrow>
                  ((debug(''Dr6'' := debug ''Dr6'' OR push_bit index 1),
                    Some (cpu_exception_of STATUS_SINGLE_STEP address address [])), cleared))"

end
