(* ===== verification/Guest_Callbacks.thy ===== *)
theory Guest_Callbacks
  imports Generators Thread_Contexts
begin

text \<open>
  Guest callbacks (\<^verbatim>\<open>speakeasy/windows/guest_callbacks.py\<close>), with the registers, stack and calling conventions of
  \<^verbatim>\<open>speakeasy/binemu.py\<close> and the parts of \<^verbatim>\<open>speakeasy/windows/winemu.py\<close> that they use. Registers have the
  names of the context fields. The reads and writes of the engine are the parameter \<open>mem_ops\<close> on a memory \<open>'m\<close>. The
  frames of a run and the generators on them are two lists of one length, the newest last.
\<close>

record 'm mem_ops =
  mo_read :: "'m \<Rightarrow> int \<Rightarrow> int \<Rightarrow> byte list result"
  mo_write :: "'m \<Rightarrow> int \<Rightarrow> byte list \<Rightarrow> 'm result"
  mo_regions :: "'m \<Rightarrow> (int \<times> int) list"
  mo_module_base :: "'m \<Rightarrow> int \<Rightarrow> int option"
  mo_teb_size :: nat

datatype convention = Cdecl | Stdcall | Fastcall | Float_conv

datatype outcome = Returns int | Resumes win_context

record handler_state =
  hs_scratch :: int
  hs_context :: int

text \<open>\<open>GuestCallbackFrame\<close>: the event is its index in the report; the fields of library initializers are left out.\<close>

record frame =
  fr_stack_pointer :: int
  fr_return_address :: int
  fr_argc :: int
  fr_convention :: "convention option"
  fr_function :: int
  fr_pending :: "(int \<times> int list) list"
  fr_result :: "int option"
  fr_event :: "nat option"
  fr_handler :: "handler_state option"
  fr_saved :: "(string \<times> int) list option"

definition new_frame :: "int \<Rightarrow> int \<Rightarrow> frame" where
  "new_frame sp ret = \<lparr>fr_stack_pointer = sp, fr_return_address = ret, fr_argc = 0, fr_convention = None, fr_function = 0,
     fr_pending = [], fr_result = None, fr_event = None, fr_handler = None, fr_saved = None\<rparr>"

record fpu =
  fp_sw :: int
  fp_tag :: int
  fp_regs :: "int \<Rightarrow> int \<times> int"

text \<open>An exception in the report: code, address, handler, registers and faulting address.\<close>

type_synonym exception_event = "int \<times> int \<times> int \<times> (string \<times> int) list \<times> int option"

text \<open>\<open>em_teb\<close> is the address of the TEB of the current thread, if there is one; \<open>em_active\<close> the argument count and the
  convention of the API call that runs; \<open>em_last_fault\<close> to \<open>em_resume_pc\<close> are the repeat count of a fault.\<close>

record 'm emu =
  em_amd64 :: bool
  em_mem :: 'm
  em_cpu :: fields
  em_fpu :: fpu
  em_teb :: "int option"
  em_debug :: fields
  em_hardware :: hardware_breakpoints
  em_kernel_mode :: bool
  em_frames :: "frame list"
  em_active :: "(int \<times> convention option) option"
  em_veh :: "int list"
  em_top_filter :: int
  em_tables :: "function_table list"
  em_exceptions :: "exception_event list"
  em_returns :: "nat \<Rightarrow> int option"
  em_last_fault :: "(int \<times> int option) option"
  em_repeat :: nat
  em_resume_pc :: "int option"
  em_error :: "callback_error option"
  em_ended :: bool

type_synonym ('m, 'a) prog = "('m emu, 'a) gen"

subsection \<open>Memory and registers\<close>

definition mem_read :: "'m mem_ops \<Rightarrow> int \<Rightarrow> int \<Rightarrow> ('m, byte list) prog" where
  "mem_read ops a n = Get (\<lambda>s. case mo_read ops (em_mem s) a n of
     Inr bs \<Rightarrow> Ret bs | Inl e \<Rightarrow> Fail (if e = UcError then Access ''read'' a n else Other e))"

definition mem_write :: "'m mem_ops \<Rightarrow> int \<Rightarrow> byte list \<Rightarrow> ('m, unit) prog" where
  "mem_write ops a bs = Get (\<lambda>s. case mo_write ops (em_mem s) a bs of
     Inr m \<Rightarrow> Put (s\<lparr>em_mem := m\<rparr>) (Ret ())
   | Inl e \<Rightarrow> Fail (if e = UcError then Access ''write'' a (int (length bs)) else Other e))"

definition ptr_size :: "'m emu \<Rightarrow> nat" where "ptr_size s = (if em_amd64 s then 8 else 4)"

definition put_reg :: "string \<Rightarrow> int \<Rightarrow> 'm emu \<Rightarrow> 'm emu" where
  "put_reg name v s = s\<lparr>em_cpu := set_field (context_layout (em_amd64 s)) name v (em_cpu s)\<rparr>"

definition reg_read :: "string \<Rightarrow> ('m, int) prog" where "reg_read name = gets (\<lambda>s. em_cpu s name)"
definition reg_write :: "string \<Rightarrow> int \<Rightarrow> ('m, unit) prog" where "reg_write name v = modify (put_reg name v)"

definition sp_name :: "'m emu \<Rightarrow> string" where "sp_name s = (if em_amd64 s then ''Rsp'' else ''Esp'')"
definition pc_name :: "'m emu \<Rightarrow> string" where "pc_name s = (if em_amd64 s then ''Rip'' else ''Eip'')"
definition ret_name :: "'m emu \<Rightarrow> string" where "ret_name s = (if em_amd64 s then ''Rax'' else ''Eax'')"

definition get_stack_ptr :: "('m, int) prog" where "get_stack_ptr = gets (\<lambda>s. em_cpu s (sp_name s))"
definition set_stack_ptr :: "int \<Rightarrow> ('m, unit) prog" where "set_stack_ptr v = modify (\<lambda>s. put_reg (sp_name s) v s)"
definition get_pc :: "('m, int) prog" where "get_pc = gets (\<lambda>s. em_cpu s (pc_name s))"
definition set_pc :: "int \<Rightarrow> ('m, unit) prog" where "set_pc v = modify (\<lambda>s. put_reg (pc_name s) v s)"
definition get_return_val :: "('m, int) prog" where "get_return_val = gets (\<lambda>s. em_cpu s (ret_name s))"

definition read_ptr :: "'m mem_ops \<Rightarrow> int \<Rightarrow> ('m, int) prog" where
  "read_ptr ops a = gbind (gets ptr_size) (\<lambda>p. gbind (mem_read ops a (int p)) (\<lambda>bs. Ret (le_val bs)))"

definition write_ptr :: "'m mem_ops \<Rightarrow> int \<Rightarrow> int \<Rightarrow> ('m, unit) prog" where
  "write_ptr ops a v = gbind (gets ptr_size) (\<lambda>p. gbind (glift (to_bytes p v)) (mem_write ops a))"

definition get_ret_address :: "'m mem_ops \<Rightarrow> ('m, int) prog" where
  "get_ret_address ops = gbind get_stack_ptr (read_ptr ops)"

definition set_ret_address :: "'m mem_ops \<Rightarrow> int \<Rightarrow> ('m, unit) prog" where
  "set_ret_address ops v = gbind get_stack_ptr (\<lambda>sp. write_ptr ops sp v)"

definition push_stack :: "'m mem_ops \<Rightarrow> int \<Rightarrow> ('m, int) prog" where
  "push_stack ops v =
     gbind get_stack_ptr (\<lambda>sp. gbind (gets ptr_size) (\<lambda>p. gbind (glift (to_bytes p v)) (\<lambda>bs.
       gbind (mem_write ops (sp - int p) bs) (\<lambda>_. gbind (set_stack_ptr (sp - int p)) (\<lambda>_. Ret v)))))"

definition pop_stack :: "'m mem_ops \<Rightarrow> ('m, int) prog" where
  "pop_stack ops =
     gbind get_stack_ptr (\<lambda>sp. gbind (gets ptr_size) (\<lambda>p. gbind (read_ptr ops sp) (\<lambda>v.
       gbind (set_stack_ptr (sp + int p)) (\<lambda>_. Ret v))))"

subsection \<open>Calling conventions\<close>

definition ARG_REGISTERS :: "string list" where "ARG_REGISTERS = [''Rcx'', ''Rdx'', ''R8'', ''R9'']"

text \<open>The values go to the stack from the last to the first.\<close>

fun push_args :: "'m mem_ops \<Rightarrow> int list \<Rightarrow> int \<Rightarrow> ('m, int) prog" where
  "push_args ops [] sp = Ret sp"
| "push_args ops (arg # args) sp =
     gbind (gets ptr_size) (\<lambda>p. gbind (glift (to_bytes p arg)) (\<lambda>bs.
       gbind (mem_write ops (sp - int p) bs) (\<lambda>_. push_args ops args (sp - int p))))"

definition set_func_args :: "'m mem_ops \<Rightarrow> int \<Rightarrow> int \<Rightarrow> int list \<Rightarrow> convention \<Rightarrow> bool \<Rightarrow> ('m, unit) prog" where
  "set_func_args ops stack_addr ret_addr args conv home_space =
     gbind (gets em_amd64) (\<lambda>amd64.
       let in_regs = (if amd64 then zip ARG_REGISTERS args
                      else if conv = Fastcall then zip [''Ecx'', ''Edx''] args else [])
       in gbind (gmapM (\<lambda>(r, v). reg_write r v) in_regs) (\<lambda>_.
            gbind (push_args ops (rev (drop (length in_regs) args)) stack_addr) (\<lambda>sp.
              gbind (gets ptr_size) (\<lambda>p.
                let curr_sp = (if amd64 \<and> home_space then sp - 0x20 else sp) - int p
                in gbind (glift (to_bytes p ret_addr)) (\<lambda>bs.
                     gbind (mem_write ops curr_sp bs) (\<lambda>_. set_stack_ptr curr_sp))))))"

fun read_args :: "'m mem_ops \<Rightarrow> nat \<Rightarrow> int \<Rightarrow> int \<Rightarrow> int \<Rightarrow> ('m, int list) prog" where
  "read_args ops 0 width step sp = Ret []"
| "read_args ops (Suc n) width step sp =
     gbind (mem_read ops sp width) (\<lambda>bs. gbind (read_args ops n width step (sp + step)) (\<lambda>vs. Ret (le_val bs # vs)))"

definition get_func_argv :: "'m mem_ops \<Rightarrow> convention \<Rightarrow> nat \<Rightarrow> ('m, int list) prog" where
  "get_func_argv ops conv argc =
     gbind (gets (\<lambda>s. s)) (\<lambda>s.
       let p = int (ptr_size s); sp = em_cpu s (sp_name s)
       in if conv = Float_conv \<and> \<not> em_amd64 s then read_args ops argc 8 8 (sp + p)
          else if conv = Float_conv
          then Ret (map (\<lambda>i. em_cpu s (xmm_name i ''Low'')) (take argc [0..<4]))
          else let regs = (if em_amd64 s then take argc ARG_REGISTERS
                           else if conv = Fastcall then take argc [''Ecx'', ''Edx''] else []);
                   base = (if em_amd64 s then sp + 0x20 else sp)
               in gbind (read_args ops (argc - length regs) p p (base + p)) (\<lambda>vs. Ret (map (em_cpu s) regs @ vs)))"

fun bit_length :: "nat \<Rightarrow> nat" where
  "bit_length n = (if n = 0 then 0 else Suc (bit_length (n div 2)))"

declare bit_length.simps [simp del]

definition double_bits_to_fp80 :: "int \<Rightarrow> int \<times> int" where
  "double_bits_to_fp80 bits =
     (let sign = push_bit 15 (drop_bit 63 bits); exponent = drop_bit 52 bits AND 0x7FF; fraction = bits AND (2 ^ 52 - 1)
      in if exponent = 0x7FF then (2 ^ 63 OR push_bit 11 fraction, sign OR 0x7FFF)
         else if exponent = 0
         then (if fraction = 0 then (0, sign)
               else (let shift = 53 - bit_length (nat fraction)
                     in (push_bit (11 + shift) fraction, sign OR (16383 - 1022 - int shift))))
         else (2 ^ 63 OR push_bit 11 fraction, sign OR (exponent - 1023 + 16383)))"

definition push_fpu_double :: "int \<Rightarrow> ('m, unit) prog" where
  "push_fpu_double bits = modify (\<lambda>s.
     let f = em_fpu s; top = (drop_bit 11 (fp_sw f) AND 7) - 1; top = top AND 7
     in s\<lparr>em_fpu := f\<lparr>fp_regs := (fp_regs f)(top := double_bits_to_fp80 bits),
            fp_sw := (fp_sw f AND NOT 0x3800) OR push_bit 11 top,
            fp_tag := fp_tag f AND NOT (push_bit (nat (2 * top)) 3)\<rparr>\<rparr>)"

definition clean_stack_args :: "int \<Rightarrow> ('m, unit) prog" where
  "clean_stack_args argc = modify (\<lambda>s.
     if argc = 0 \<or> em_amd64 s then s else put_reg ''Esp'' (em_cpu s ''Esp'' + 4 * argc) s)"

definition do_call_return :: "int \<Rightarrow> int option \<Rightarrow> int option \<Rightarrow> convention option \<Rightarrow> ('m, unit) prog" where
  "do_call_return argc ret_addr ret_value conv =
     gbind (gets (\<lambda>s. s)) (\<lambda>s.
       let jump = (case ret_addr of
              Some a \<Rightarrow> if a = 0 then Ret ()
                else gbind (set_stack_ptr (em_cpu s (sp_name s) + int (ptr_size s))) (\<lambda>_. set_pc a)
            | None \<Rightarrow> Ret ());
           give = (case ret_value of
              None \<Rightarrow> Ret ()
            | Some v \<Rightarrow> if conv = Some Float_conv \<and> \<not> em_amd64 s then push_fpu_double v
                       else if conv = Some Float_conv
                       then gbind (reg_write (xmm_name 0 ''Low'') v) (\<lambda>_. reg_write (xmm_name 0 ''High'') (v div 2 ^ 64))
                       else reg_write (ret_name s) v);
           clean = (if conv = Some Cdecl \<or> conv = Some Float_conv then Ret ()
              else if conv = Some Fastcall then (if \<not> em_amd64 s \<and> 2 < argc then clean_stack_args (argc - 2) else Ret ())
              else clean_stack_args argc)
       in gbind jump (\<lambda>_. gbind give (\<lambda>_. clean)))"

definition get_machine_word :: "'m emu \<Rightarrow> int \<Rightarrow> int" where
  "get_machine_word s v = (if 0 \<le> v then v else v AND (2 ^ (8 * ptr_size s) - 1))"

subsection \<open>The context of the CPU\<close>

text \<open>\<open>get_thread_context\<close> and \<open>load_thread_context\<close> without a thread argument.\<close>

definition cpu_registers :: "bool \<Rightarrow> string list" where
  "cpu_registers amd64 = (if amd64 then CPU_REGISTERS_AMD64 else CPU_REGISTERS_I386)"

definition cpu_context :: "'m emu \<Rightarrow> win_context" where
  "cpu_context s =
     (let all_flags = (if em_amd64 s then CONTEXT_ALL_AMD64 else CONTEXT_ALL_I386);
          ctx = foldl (\<lambda>c name. cset name (em_cpu s name) c)
            (cset ''ContextFlags'' all_flags (new_context (em_amd64 s))) (cpu_registers (em_amd64 s))
      in if em_teb s = None then ctx else get_debug_registers (em_debug s) ctx)"

definition get_thread_context :: "('m, win_context) prog" where "get_thread_context = gets cpu_context"

definition load_context :: "win_context \<Rightarrow> 'm emu \<Rightarrow> 'm emu" where
  "load_context ctx s =
     (let s = foldl (\<lambda>s name. put_reg name (cget name ctx) s) s (cpu_registers (em_amd64 s));
          s = (if em_teb s \<noteq> None \<and> has_section (cget ''ContextFlags'' ctx) CONTEXT_DEBUG_REGISTERS
               then (let debug = set_debug_registers ctx (em_debug s)
                     in s\<lparr>em_debug := debug, em_hardware := hb_update (Some debug) (em_kernel_mode s) (em_hardware s)\<rparr>)
               else s)
      in if cget ''EFlags'' ctx AND RESUME_FLAG \<noteq> 0
         then put_reg ''EFlags'' (cget ''EFlags'' ctx AND NOT RESUME_FLAG)
                (s\<lparr>em_hardware := hb_resume_at (em_teb s) (instruction_pointer ctx) (em_hardware s)\<rparr>)
         else s)"

definition load_thread_context :: "win_context \<Rightarrow> ('m, unit) prog" where
  "load_thread_context ctx = modify (load_context ctx)"

subsection \<open>The stack of a running handler\<close>

definition put_last :: "('a \<Rightarrow> 'a) \<Rightarrow> 'a list \<Rightarrow> 'a list" where
  "put_last f xs = (if xs = [] then [] else butlast xs @ [f (last xs)])"

definition put_frame :: "(frame \<Rightarrow> frame) \<Rightarrow> 'm emu \<Rightarrow> 'm emu" where
  "put_frame f s = s\<lparr>em_frames := put_last f (em_frames s)\<rparr>"

text \<open>\<open>alloca\<close>. Only a handler on a frame calls it, so the lists are not empty.\<close>

definition alloca_address :: "frame \<Rightarrow> handler_state \<Rightarrow> int \<Rightarrow> int" where
  "alloca_address f h n = (fr_stack_pointer f - hs_scratch h - n) AND NOT 0xF"

definition alloca :: "'m mem_ops \<Rightarrow> byte list \<Rightarrow> ('m, int) prog" where
  "alloca ops data = Get (\<lambda>s.
     if em_frames s = [] then Fail (Other IndexError)
     else case fr_handler (last (em_frames s)) of
            None \<Rightarrow> Fail (Other AttributeError)
          | Some h \<Rightarrow>
              (let f = last (em_frames s); a = alloca_address f h (int (length data))
               in Put (put_frame (\<lambda>f. f\<lparr>fr_handler := Some (h\<lparr>hs_scratch := fr_stack_pointer f - a\<rparr>)\<rparr>) s)
                    (gbind (mem_write ops a data) (\<lambda>_. Ret a))))"

definition caller_context :: "'m mem_ops \<Rightarrow> ('m, win_context) prog" where
  "caller_context ops =
     gbind get_thread_context (\<lambda>ctx. gbind (gets (\<lambda>s. s)) (\<lambda>s.
       let args = (case em_active s of
              Some (argc, conv) \<Rightarrow> if \<not> em_amd64 s \<and> conv = Some Stdcall then argc * 4 else 0 | None \<Rightarrow> 0)
       in gbind (get_ret_address ops) (\<lambda>ret. gbind get_stack_ptr (\<lambda>sp.
            Ret (set_control ctx ret (sp + int (ptr_size s) + args))))))"

text \<open>\<open>min(frames, key=...)\<close> gives the first frame with the least stack pointer.\<close>

fun min_frame :: "frame \<Rightarrow> frame list \<Rightarrow> frame" where
  "min_frame f [] = f"
| "min_frame f (x # xs) = min_frame (if fr_stack_pointer x < fr_stack_pointer f then x else f) xs"

definition unwind_frame :: "'m mem_ops \<Rightarrow> win_context \<Rightarrow> ('m, win_context) prog" where
  "unwind_frame ops ctx =
     gbind (gets (\<lambda>s. filter (\<lambda>f. cget ''Rsp'' ctx \<le> fr_stack_pointer f) (em_frames s))) (\<lambda>frames.
       case frames of
         [] \<Rightarrow> Ret (cset ''Rip'' 0 ctx)
       | f # fs \<Rightarrow>
           (let f = min_frame f fs
            in case fr_handler f of
                 Some h \<Rightarrow>
                   (if hs_context h \<noteq> 0
                    then gbind (mem_read ops (hs_context h) (int (struct_size CONTEXT64)))
                           (\<lambda>bs. Ret (context_of (c_amd64 ctx) bs))
                    else gbind (gets ptr_size) (\<lambda>p.
                           Ret (cset ''Rsp'' (fr_stack_pointer f + int p) (cset ''Rip'' (fr_return_address f) ctx))))
               | None \<Rightarrow> gbind (gets ptr_size) (\<lambda>p.
                   Ret (cset ''Rsp'' (fr_stack_pointer f + int p) (cset ''Rip'' (fr_return_address f) ctx)))))"

subsection \<open>Errors\<close>

definition callback_error_of :: "string \<Rightarrow> int \<Rightarrow> callback_error" where
  "callback_error_of kind address = \<lparr>cb_kind = kind, cb_address = address, cb_access = None, cb_pc = None, cb_code = None,
     cb_message = None, cb_interrupt = None\<rparr>"

text \<open>\<open>get_first_unmapped\<close>; the loop moves past a region in each round.\<close>

function first_unmapped :: "(int \<times> int) list \<Rightarrow> int \<Rightarrow> int \<Rightarrow> int \<Rightarrow> int" where
  "first_unmapped regions address hi current =
     (if current < hi
      then case find (\<lambda>(first, last_addr). first \<le> current \<and> current \<le> last_addr) regions of
             None \<Rightarrow> current
           | Some (first, last_addr) \<Rightarrow>
               (if current \<le> last_addr then first_unmapped regions address hi (last_addr + 1) else current)
      else address)"
  by pat_completeness auto
termination
  by (relation "measure (\<lambda>(_, _, hi, current). nat (hi - current))") auto

declare first_unmapped.simps [simp del]

definition get_first_unmapped :: "(int \<times> int) list \<Rightarrow> int \<Rightarrow> int \<Rightarrow> int" where
  "get_first_unmapped regions address sz = first_unmapped regions address (address + sz) address"

text \<open>\<open>get_handler_fault\<close> on the error of an access, as a callback error.\<close>

definition access_error :: "'m mem_ops \<Rightarrow> 'm \<Rightarrow> string \<Rightarrow> int \<Rightarrow> int \<Rightarrow> callback_error" where
  "access_error ops m access address sz =
     (callback_error_of (''invalid_'' @ access) (get_first_unmapped (mo_regions ops m) address sz))\<lparr>cb_access := Some access\<rparr>"

subsection \<open>Running a handler\<close>

text \<open>A run: the state and the generators of the frames; a frame with a fixed list of calls has none.\<close>

record 'm run =
  rn_emu :: "'m emu"
  rn_gens :: "(int \<Rightarrow> ('m, outcome) prog) option list"

definition NONVOLATILE :: "bool \<Rightarrow> string list" where
  "NONVOLATILE amd64 = (if amd64 then [''Rbx'', ''Rbp'', ''Rsi'', ''Rdi'', ''R12'', ''R13'', ''R14'', ''R15'']
     else [''Ebx'', ''Ebp'', ''Esi'', ''Edi''])"

definition GUEST_CALLBACK_RETURN_ADDR :: int where "GUEST_CALLBACK_RETURN_ADDR = 0xFEEDF008"
definition EMU_RESERVED :: int where "EMU_RESERVED = 0xFEEDF000"
definition EMU_RESERVED_END :: int where "EMU_RESERVED_END = 0xFEEDF000 + 0x4000"

text \<open>\<open>start_guest_callback\<close> on the newest frame.\<close>

definition start_guest_callback :: "'m mem_ops \<Rightarrow> int \<Rightarrow> int list \<Rightarrow> int \<Rightarrow> ('m, unit) prog" where
  "start_guest_callback ops function_addr args sp =
     gbind (modify (\<lambda>s. put_frame (\<lambda>f. f\<lparr>fr_saved := (case fr_saved f of
              None \<Rightarrow> Some (map (\<lambda>r. (r, em_cpu s r)) (NONVOLATILE (em_amd64 s))) | x \<Rightarrow> x),
            fr_function := function_addr\<rparr>) s)) (\<lambda>_.
       gbind (gets em_amd64) (\<lambda>amd64.
         let aligned = sp AND NOT 0xF;
             sp = (if amd64 then (if (length args - 4) mod 2 \<noteq> 0 then aligned - 8 else aligned) else sp)
         in gbind (set_func_args ops sp GUEST_CALLBACK_RETURN_ADDR args Stdcall True) (\<lambda>_. set_pc function_addr)))"

definition restore_caller_registers :: "frame \<Rightarrow> ('m, unit) prog" where
  "restore_caller_registers f = gmapM (\<lambda>(r, v). reg_write r v) (case fr_saved f of None \<Rightarrow> [] | Some rs \<Rightarrow> rs)"

definition set_event :: "frame \<Rightarrow> int \<Rightarrow> 'm emu \<Rightarrow> 'm emu" where
  "set_event f v s = (case fr_event f of
     None \<Rightarrow> s | Some i \<Rightarrow> s\<lparr>em_returns := (em_returns s)(i := Some (get_machine_word s v))\<rparr>)"

text \<open>The end of a frame: the API returns its result to its caller.\<close>

definition return_from :: "frame \<Rightarrow> int \<Rightarrow> ('m, unit) prog" where
  "return_from f v =
     gbind (modify (set_event f v)) (\<lambda>_. gbind (set_stack_ptr (fr_stack_pointer f)) (\<lambda>_.
       gbind (restore_caller_registers f) (\<lambda>_.
         do_call_return (fr_argc f) (Some (fr_return_address f)) (Some v) (fr_convention f))))"

text \<open>Programs without calls, as steps of a run.\<close>

definition on_emu :: "('m, 'a) prog \<Rightarrow> 'm run \<Rightarrow> (fault + 'a) \<times> 'm run" where
  "on_emu m r = (case gsend m (rn_emu r) of
     (Finished x, s) \<Rightarrow> (Inr x, r\<lparr>rn_emu := s\<rparr>)
   | (Failed e, s) \<Rightarrow> (Inl e, r\<lparr>rn_emu := s\<rparr>)
   | (Called c k, s) \<Rightarrow> (Inl (Other TypeError), r\<lparr>rn_emu := s\<rparr>))"

definition pop_frame :: "'m run \<Rightarrow> 'm run" where
  "pop_frame r = r\<lparr>rn_emu := (rn_emu r)\<lparr>em_frames := butlast (em_frames (rn_emu r))\<rparr>, rn_gens := butlast (rn_gens r)\<rparr>"

text \<open>\<open>while callbacks and callbacks[-1].stack_pointer <= sp: callbacks.pop()\<close>.\<close>

definition abandoned :: "int \<Rightarrow> frame list \<Rightarrow> nat" where
  "abandoned sp frames = length (takeWhile (\<lambda>f. fr_stack_pointer f \<le> sp) (rev frames))"

definition drop_newest :: "nat \<Rightarrow> 'm run \<Rightarrow> 'm run" where
  "drop_newest n r =
     (let k = length (em_frames (rn_emu r)) - n
      in r\<lparr>rn_emu := (rn_emu r)\<lparr>em_frames := take k (em_frames (rn_emu r))\<rparr>, rn_gens := take k (rn_gens r)\<rparr>)"

definition drop_abandoned :: "int \<Rightarrow> 'm run \<Rightarrow> 'm run" where
  "drop_abandoned sp r = drop_newest (abandoned sp (em_frames (rn_emu r))) r"

definition transfer :: "win_context \<Rightarrow> 'm run \<Rightarrow> 'm run" where
  "transfer ctx r = snd (on_emu (load_thread_context ctx) (drop_abandoned (stack_pointer ctx) r))"

text \<open>\<open>_step\<close> on the newest frame, with the program that continues it.\<close>

definition step :: "'m mem_ops \<Rightarrow> ('m, outcome) prog \<Rightarrow> 'm run \<Rightarrow> (fault + unit) \<times> 'm run" where
  "step ops m r =
     (let fail_access = (\<lambda>access a n r. (Inl (Callback (access_error ops (em_mem (rn_emu r)) access a n)), r))
      in case gsend m (rn_emu r) of
           (Failed (Access access a n), s) \<Rightarrow> fail_access access a n (r\<lparr>rn_emu := s\<rparr>)
         | (Failed e, s) \<Rightarrow> (Inl e, r\<lparr>rn_emu := s\<rparr>)
         | (Called c k, s) \<Rightarrow>
             (let r = r\<lparr>rn_emu := s, rn_gens := put_last (\<lambda>_. Some k) (rn_gens r)\<rparr>;
                  f = last (em_frames s); scratch = (case fr_handler f of None \<Rightarrow> 0 | Some h \<Rightarrow> hs_scratch h)
              in case on_emu (start_guest_callback ops (gc_function c) (gc_args c) (fr_stack_pointer f - scratch)) r of
                   (Inl (Access access a n), r) \<Rightarrow> fail_access access a n r
                 | (Inl e, r) \<Rightarrow> (Inl e, r)
                 | (Inr _, r) \<Rightarrow> on_emu (gmapM (\<lambda>(x, v). reg_write x v) (gc_registers c)) r)
         | (Finished (Resumes ctx), s) \<Rightarrow> (Inr (), transfer ctx (pop_frame (r\<lparr>rn_emu := s\<rparr>)))
         | (Finished (Returns v), s) \<Rightarrow> on_emu (return_from (last (em_frames s)) v) (pop_frame (r\<lparr>rn_emu := s\<rparr>)))"

definition push_frame :: "frame \<Rightarrow> (int \<Rightarrow> ('m, outcome) prog) option \<Rightarrow> 'm run \<Rightarrow> 'm run" where
  "push_frame f k r =
     r\<lparr>rn_emu := (rn_emu r)\<lparr>em_frames := em_frames (rn_emu r) @ [f]\<rparr>, rn_gens := rn_gens r @ [k]\<rparr>"

definition start :: "'m mem_ops \<Rightarrow> frame \<Rightarrow> ('m, outcome) prog \<Rightarrow> 'm run \<Rightarrow> (fault + unit) \<times> 'm run" where
  "start ops f m r =
     step ops m (push_frame (f\<lparr>fr_handler := Some \<lparr>hs_scratch = 0, hs_context = 0\<rparr>\<rparr>) None r)"

text \<open>\<open>fail\<close> ends the run with the error.\<close>

definition fail_run :: "callback_error \<Rightarrow> 'm run \<Rightarrow> 'm run" where
  "fail_run e r =
     (let s = rn_emu r; s = (case cb_pc e of None \<Rightarrow> s | Some pc \<Rightarrow> put_reg (pc_name s) pc s)
      in r\<lparr>rn_emu := s\<lparr>em_error := Some e, em_ended := True\<rparr>\<rparr>)"

definition resume_frame :: "'m mem_ops \<Rightarrow> 'm run \<Rightarrow> (fault + unit) \<times> 'm run" where
  "resume_frame ops r =
     (let s = rn_emu r
      in case last (rn_gens r) of
           None \<Rightarrow> (Inl (Other TypeError), r)
         | Some k \<Rightarrow>
             (case step ops (k (em_cpu s (ret_name s))) r of
                (Inl (Callback e), r) \<Rightarrow> (Inr (), fail_run e r) | x \<Rightarrow> x))"

definition start_api_handler ::
  "'m mem_ops \<Rightarrow> frame \<Rightarrow> ('m, outcome) prog \<Rightarrow> 'm run \<Rightarrow> (fault + unit) \<times> 'm run" where
  "start_api_handler ops f m r =
     (case start ops f m r of (Inl (Callback e), r) \<Rightarrow> (Inr (), fail_run e r) | x \<Rightarrow> x)"

text \<open>\<open>_continue_guest_callback\<close>: the guest returned to \<open>GUEST_CALLBACK_RETURN_ADDR\<close>. The frames of nested callbacks that
  it left are dropped, down to one frame. The end of a library initializer is left out.\<close>

definition left_behind :: "int \<Rightarrow> frame list \<Rightarrow> nat" where
  "left_behind sp frames = min (length frames - 1) (length (takeWhile (\<lambda>f. fr_stack_pointer f < sp) (rev frames)))"

definition continue_guest_callback :: "'m mem_ops \<Rightarrow> 'm run \<Rightarrow> (fault + unit) \<times> 'm run" where
  "continue_guest_callback ops r =
     (let s = rn_emu r; r = drop_newest (left_behind (em_cpu s (sp_name s)) (em_frames s)) r;
          f = last (em_frames (rn_emu r))
      in if em_frames (rn_emu r) = [] then (Inl (Other IndexError), r)
         else if fr_handler f \<noteq> None then resume_frame ops r
         else case fr_pending f of
                (function_addr, args) # rest \<Rightarrow>
                  on_emu (gbind (set_stack_ptr (fr_stack_pointer f)) (\<lambda>_.
                            start_guest_callback ops function_addr args (fr_stack_pointer f)))
                    (r\<lparr>rn_emu := put_frame (\<lambda>f. f\<lparr>fr_pending := rest\<rparr>) (rn_emu r)\<rparr>)
              | [] \<Rightarrow>
                  (case fr_result f of
                     Some v \<Rightarrow> on_emu (return_from f v) (pop_frame r)
                   | None \<Rightarrow>
                       on_emu (gbind (set_stack_ptr (fr_stack_pointer f)) (\<lambda>_. gbind (restore_caller_registers f) (\<lambda>_.
                         do_call_return (fr_argc f) (Some (fr_return_address f)) None (fr_convention f))))
                         (pop_frame r)))"

end
