(* ===== verification/Seh.thy ===== *)
theory Seh
  imports Guest_Callbacks
begin

text \<open>
  Exception dispatch that x86 and x64 share (\<^verbatim>\<open>speakeasy/windows/seh.py\<close>), with \<open>record_exception\<close>,
  \<open>dispatch_seh\<close> and \<open>note_seh_resume\<close> of \<^verbatim>\<open>winemu.py\<close>. The dispatcher of the architecture is an argument.
\<close>

definition EXCEPTION_NONCONTINUABLE :: int where "EXCEPTION_NONCONTINUABLE = 0x01"
definition EXCEPTION_UNWINDING :: int where "EXCEPTION_UNWINDING = 0x02"
definition EXCEPTION_EXIT_UNWIND :: int where "EXCEPTION_EXIT_UNWIND = 0x04"
definition EXCEPTION_TARGET_UNWIND :: int where "EXCEPTION_TARGET_UNWIND = 0x20"
definition UNWINDING :: int where "UNWINDING = EXCEPTION_UNWINDING OR EXCEPTION_EXIT_UNWIND"
definition STATUS_UNWIND :: int where "STATUS_UNWIND = 0xC0000027"
definition STATUS_NONCONTINUABLE_EXCEPTION :: int where "STATUS_NONCONTINUABLE_EXCEPTION = 0xC0000025"
definition TRAP_FLAG :: int where "TRAP_FLAG = 0x100"
definition MAX_FRAMES :: nat where "MAX_FRAMES = 4096"

definition EXCEPTION_EXECUTE_HANDLER :: int where "EXCEPTION_EXECUTE_HANDLER = 1"
definition EXCEPTION_CONTINUE_EXECUTION :: int where "EXCEPTION_CONTINUE_EXECUTION = -1"
definition ExceptionContinueExecution :: int where "ExceptionContinueExecution = 0"
definition ExceptionContinueSearch :: int where "ExceptionContinueSearch = 1"

definition access_type :: "int \<Rightarrow> string option" where
  "access_type code = map_option fst (find (\<lambda>(_, c). c = code) ACCESS_CODES)"

definition is_memory_fault :: "int \<Rightarrow> bool" where
  "is_memory_fault code \<longleftrightarrow> code = STATUS_ACCESS_VIOLATION \<or> code = STATUS_GUARD_PAGE_VIOLATION"

definition UnhandledException :: "int \<Rightarrow> int \<Rightarrow> int list \<Rightarrow> fault" where
  "UnhandledException code address information =
     Callback
       (case (if code = STATUS_ACCESS_VIOLATION \<and> 2 \<le> length information then access_type (information ! 0) else None) of
          Some access \<Rightarrow>
            (callback_error_of (''invalid_'' @ access) (information ! 1))
              \<lparr>cb_access := Some access, cb_pc := Some address, cb_code := Some code\<rparr>
        | None \<Rightarrow>
            (callback_error_of ''unhandled_exception'' address)\<lparr>cb_pc := Some address, cb_code := Some code\<rparr>)"

definition is_unhandled :: "fault \<Rightarrow> bool" where
  "is_unhandled f = (case f of Callback e \<Rightarrow> cb_code e \<noteq> None | _ \<Rightarrow> False)"

definition as_long :: "int \<Rightarrow> int" where "as_long v = signed_of 32 v"

subsection \<open>Records\<close>

definition record_layout :: "'m emu \<Rightarrow> struct_layout" where "record_layout s = EXCEPTION_RECORD (ptr_size s)"

definition exception_record :: "'m emu \<Rightarrow> int \<Rightarrow> int \<Rightarrow> int \<Rightarrow> int list \<Rightarrow> fields" where
  "exception_record s code flags address params =
     (let l = record_layout s;
          params = take EXCEPTION_MAXIMUM_PARAMETERS (map (\<lambda>p. p AND (2 ^ (8 * ptr_size s) - 1)) params);
          f = set_field l ''NumberParameters'' (int (length params))
            (set_field l ''ExceptionAddress'' address (set_field l ''ExceptionFlags'' flags
              (set_field l ''ExceptionCode'' code (\<lambda>_. 0))))
      in foldl (\<lambda>f (i, p). set_field l (info_name i) p f) f (enumerate 0 params))"

definition record_bytes :: "'m emu \<Rightarrow> fields \<Rightarrow> byte list" where
  "record_bytes s f = struct_bytes (record_layout s) f"

definition read_record :: "'m mem_ops \<Rightarrow> int \<Rightarrow> ('m, fields) prog" where
  "read_record ops address =
     gbind (gets record_layout) (\<lambda>l. gbind (mem_read ops address (int (struct_size l))) (\<lambda>bs. Ret (struct_of l bs)))"

definition read_context :: "'m mem_ops \<Rightarrow> int \<Rightarrow> ('m, win_context) prog" where
  "read_context ops address =
     gbind (gets em_amd64) (\<lambda>amd64. gbind (mem_read ops address (int (struct_size (context_layout amd64))))
       (\<lambda>bs. Ret (context_of amd64 bs)))"

definition information_of :: "fields \<Rightarrow> int list" where
  "information_of f = map (\<lambda>i. f (info_name i)) [0..<EXCEPTION_MAXIMUM_PARAMETERS]"

definition note_resume :: "int \<Rightarrow> 'm emu \<Rightarrow> 'm emu" where
  "note_resume pc s =
     (case em_last_fault s of
        None \<Rightarrow> s
      | Some (fault_pc, _) \<Rightarrow>
          (if pc = fault_pc then s\<lparr>em_resume_pc := Some pc\<rparr>
           else s\<lparr>em_last_fault := None, em_repeat := 0, em_resume_pc := None\<rparr>))"

text \<open>The deferred work hook at an instruction: the guest left the address of the fault.\<close>

definition note_instruction :: "int \<Rightarrow> 'm emu \<Rightarrow> 'm emu" where
  "note_instruction addr s =
     (if em_resume_pc s \<noteq> None \<and> em_resume_pc s \<noteq> Some addr
      then s\<lparr>em_last_fault := None, em_repeat := 0, em_resume_pc := None\<rparr> else s)"

definition resume_at :: "win_context \<Rightarrow> ('m, outcome) prog" where
  "resume_at ctx = gbind (modify (note_resume (instruction_pointer ctx))) (\<lambda>_. Ret (Resumes ctx))"

definition pointers_bytes :: "'m emu \<Rightarrow> int \<Rightarrow> int \<Rightarrow> byte list result" where
  "pointers_bytes s a b =
     rbind (to_bytes (ptr_size s) a) (\<lambda>x. rbind (to_bytes (ptr_size s) b) (\<lambda>y. Inr (x @ y)))"

text \<open>\<open>struct.pack\<close> raises its own error for a value that does not fit.\<close>

definition pack_pointers :: "int \<Rightarrow> int \<Rightarrow> ('m, byte list) prog" where
  "pack_pointers a b =
     gbind (gets (\<lambda>s. pointers_bytes s a b)) (\<lambda>r. case r of Inl _ \<Rightarrow> Fail (Other StructError) | Inr bs \<Rightarrow> Ret bs)"

subsection \<open>The exception that is dispatched\<close>

record dispatch =
  d_record :: int
  d_context :: int
  d_code :: int
  d_flags :: int
  d_address :: int
  d_information :: "int list"
  d_pointers :: int
  d_reported :: bool

definition new_dispatch :: "'m mem_ops \<Rightarrow> int \<Rightarrow> int \<Rightarrow> ('m, dispatch) prog" where
  "new_dispatch ops rec ctx =
     gbind (read_record ops rec) (\<lambda>f. gbind (pack_pointers rec ctx) (\<lambda>bs. gbind (alloca ops bs) (\<lambda>p.
       Ret \<lparr>d_record = rec, d_context = ctx, d_code = f ''ExceptionCode'', d_flags = f ''ExceptionFlags'',
            d_address = f ''ExceptionAddress'', d_information = information_of f, d_pointers = p, d_reported = False\<rparr>)))"

definition record_exception :: "exception_event \<Rightarrow> 'm emu \<Rightarrow> 'm emu" where
  "record_exception e s = s\<lparr>em_exceptions := em_exceptions s @ [e]\<rparr>"

definition offer :: "'m mem_ops \<Rightarrow> int \<Rightarrow> dispatch \<Rightarrow> ('m, dispatch) prog" where
  "offer ops handler d =
     (if d_reported d then Ret d
      else gbind (read_context ops (d_context d)) (\<lambda>ctx.
             gbind (modify (record_exception (d_code d, d_address d, handler, register_state ctx,
               if is_memory_fault (d_code d) then Some (d_information d ! 1) else None)))
               (\<lambda>_. Ret (d\<lparr>d_reported := True\<rparr>))))"

definition guest_call_of :: "int \<Rightarrow> int list \<Rightarrow> guest_call" where
  "guest_call_of f args = \<lparr>gc_function = f, gc_args = args, gc_registers = []\<rparr>"

fun vectored :: "'m mem_ops \<Rightarrow> int list \<Rightarrow> dispatch \<Rightarrow> ('m, bool \<times> dispatch) prog" where
  "vectored ops [] d = Ret (False, d)"
| "vectored ops (h # hs) d =
     gbind (offer ops h d) (\<lambda>d. gbind (call (guest_call_of h [d_pointers d])) (\<lambda>v.
       if as_long v = EXCEPTION_CONTINUE_EXECUTION then Ret (True, d) else vectored ops hs d))"

definition resume_dispatch :: "'m mem_ops \<Rightarrow> dispatch \<Rightarrow> ('m, outcome) prog" where
  "resume_dispatch ops d =
     (if d_flags d AND EXCEPTION_NONCONTINUABLE \<noteq> 0
      then Fail (UnhandledException STATUS_NONCONTINUABLE_EXCEPTION (d_address d) [])
      else gbind (read_context ops (d_context d)) resume_at)"

definition unhandled :: "'m mem_ops \<Rightarrow> dispatch \<Rightarrow> ('m, outcome) prog" where
  "unhandled ops d =
     gbind (gets em_top_filter) (\<lambda>f.
       if f = 0 then Fail (UnhandledException (d_code d) (d_address d) (d_information d))
       else gbind (offer ops f d) (\<lambda>d. gbind (call (guest_call_of f [d_pointers d])) (\<lambda>v.
              if as_long v = EXCEPTION_CONTINUE_EXECUTION then resume_dispatch ops d
              else Fail (UnhandledException (d_code d) (d_address d) (d_information d)))))"

subsection \<open>Entry points\<close>

type_synonym 'm dispatcher = "int \<Rightarrow> int \<Rightarrow> ('m, outcome) prog"

definition set_handler_context :: "int \<Rightarrow> 'm emu \<Rightarrow> 'm emu" where
  "set_handler_context a = put_frame (\<lambda>f. f\<lparr>fr_handler := map_option (\<lambda>h. h\<lparr>hs_context := a\<rparr>) (fr_handler f)\<rparr>)"

text \<open>The generator \<open>dispatch\<close> of \<open>dispatch_fault\<close>.\<close>

definition fault_handler ::
  "'m mem_ops \<Rightarrow> cpu_exception \<Rightarrow> win_context \<Rightarrow> 'm dispatcher \<Rightarrow> callback_error option \<Rightarrow> ('m, outcome) prog" where
  "fault_handler ops e ctx dispatcher err =
     gbind (alloca ops (context_bytes ctx)) (\<lambda>context_addr.
       gbind (modify (set_handler_context context_addr)) (\<lambda>_.
         gbind (gets (\<lambda>s. record_bytes s (exception_record s (ce_code e) 0 (ce_address e) (ce_params e)))) (\<lambda>bs.
           gcatch (gbind (alloca ops bs) (\<lambda>rec. dispatcher rec context_addr))
             (\<lambda>f. if is_unhandled f then (case err of None \<Rightarrow> Fail f | Some c \<Rightarrow> Fail (Callback c)) else Fail f))))"

definition dispatch_fault ::
  "'m mem_ops \<Rightarrow> cpu_exception \<Rightarrow> 'm dispatcher \<Rightarrow> callback_error option \<Rightarrow> 'm run \<Rightarrow> (fault + bool) \<times> 'm run" where
  "dispatch_fault ops e dispatcher err r =
     (let s = rn_emu r; c = cpu_context s; ctx = set_control c (ce_pc e) (stack_pointer c);
          ctx = (if ce_code e = STATUS_SINGLE_STEP then cset ''EFlags'' (cget ''EFlags'' ctx AND NOT TRAP_FLAG) ctx else ctx);
          r = r\<lparr>rn_emu := put_reg ''EFlags'' (em_cpu s ''EFlags'' AND NOT TRAP_FLAG) s\<rparr>;
          r = drop_abandoned (stack_pointer ctx) r
      in case start ops (new_frame (stack_pointer ctx) 0) (fault_handler ops e ctx dispatcher err) r of
           (Inl (Callback _), r) \<Rightarrow> (Inr False, pop_frame r)
         | (Inl f, r) \<Rightarrow> (Inl f, r)
         | (Inr _, r) \<Rightarrow> (Inr True, r))"

definition raise_in_caller :: "'m mem_ops \<Rightarrow> int \<Rightarrow> int \<Rightarrow> int list \<Rightarrow> 'm dispatcher \<Rightarrow> ('m, outcome) prog" where
  "raise_in_caller ops code flags params dispatcher =
     gbind (caller_context ops) (\<lambda>ctx.
       gbind (gets (\<lambda>s. record_bytes s (exception_record s code flags (instruction_pointer ctx) params))) (\<lambda>bs.
         gbind (alloca ops bs) (\<lambda>rec. gbind (alloca ops (context_bytes ctx)) (dispatcher rec))))"

definition raise_exception :: "'m mem_ops \<Rightarrow> int \<Rightarrow> int \<Rightarrow> int list \<Rightarrow> 'm dispatcher \<Rightarrow> ('m, outcome) prog" where
  "raise_exception ops code flags params dispatcher =
     gcatch (raise_in_caller ops code flags params dispatcher)
       (\<lambda>f. if is_unhandled f \<and> flags AND EXCEPTION_NONCONTINUABLE = 0 then Ret (Returns 0) else Fail f)"

definition address_offset :: "'m emu \<Rightarrow> int" where
  "address_offset s = 8 + int (ptr_size s)"

definition rtl_raise_exception :: "'m mem_ops \<Rightarrow> int \<Rightarrow> 'm dispatcher \<Rightarrow> ('m, outcome) prog" where
  "rtl_raise_exception ops rec dispatcher =
     gbind (caller_context ops) (\<lambda>ctx. gbind (gets address_offset) (\<lambda>off.
       gbind (write_ptr ops (rec + off) (instruction_pointer ctx)) (\<lambda>_.
         gbind (alloca ops (context_bytes ctx)) (dispatcher rec))))"

definition capture_context :: "'m mem_ops \<Rightarrow> int \<Rightarrow> ('m, unit) prog" where
  "capture_context ops address =
     gbind (caller_context ops) (\<lambda>ctx.
       mem_write ops address (context_bytes (cset ''ContextFlags''
         (if c_amd64 ctx then CONTEXT_FULL_AMD64 OR CONTEXT_SEGMENTS else CONTEXT_FULL_I386) ctx)))"

definition restore_context :: "'m mem_ops \<Rightarrow> int \<Rightarrow> ('m, outcome) prog" where
  "restore_context ops address = gbind (read_context ops address) resume_at"

text \<open>\<open>dispatch_seh\<close> gives up on the same fault after some repeats. The dispatch itself is an argument.\<close>

definition SEH_MAX_REPEAT :: nat where "SEH_MAX_REPEAT = 4"

definition count_fault :: "int option \<Rightarrow> 'm emu \<Rightarrow> bool \<times> 'm emu" where
  "count_fault faulting_address s =
     (let s = s\<lparr>em_resume_pc := None\<rparr>; key = (em_cpu s (pc_name s), faulting_address)
      in if em_last_fault s = Some key
         then (Suc (em_repeat s) < SEH_MAX_REPEAT, s\<lparr>em_repeat := Suc (em_repeat s)\<rparr>)
         else (True, s\<lparr>em_last_fault := Some key, em_repeat := 1\<rparr>))"

definition dispatch_seh ::
  "('m run \<Rightarrow> (fault + bool) \<times> 'm run) \<Rightarrow> int option \<Rightarrow> 'm run \<Rightarrow> (fault + bool) \<times> 'm run" where
  "dispatch_seh dispatch_it faulting_address r =
     (case count_fault faulting_address (rn_emu r) of
        (True, s) \<Rightarrow> dispatch_it (r\<lparr>rn_emu := s\<rparr>) | (False, s) \<Rightarrow> (Inr False, r\<lparr>rn_emu := s\<rparr>))"

text \<open>\<open>add_vectored_exception_handler\<close> and \<open>remove_vectored_exception_handler\<close>.\<close>

definition add_vectored_handler :: "bool \<Rightarrow> int \<Rightarrow> 'm emu \<Rightarrow> 'm emu" where
  "add_vectored_handler first h s =
     (if h \<in> set (em_veh s) then s
      else s\<lparr>em_veh := (if first then h # em_veh s else em_veh s @ [h])\<rparr>)"

definition remove_vectored_handler :: "int \<Rightarrow> 'm emu \<Rightarrow> 'm emu" where
  "remove_vectored_handler h s = s\<lparr>em_veh := remove1 h (em_veh s)\<rparr>"

end
