(* ===== verification/Seh32.thy ===== *)
theory Seh32
  imports Seh
begin

text \<open>
  x86 exception dispatch (\<^verbatim>\<open>speakeasy/windows/seh32.py\<close>): the registration chain at \<open>fs:[0]\<close>, the unwind of
  registrations and the language handlers of MSVC frames. A walk over registrations, scopes or levels ends after
  \<open>MAX_FRAMES\<close> rounds, which is the fuel of the recursion. The \<open>ExceptionList\<close> is the first field of the TEB.
\<close>

definition END_OF_CHAIN :: int where "END_OF_CHAIN = 0xFFFFFFFF"
definition SAVED_ESP :: int where "SAVED_ESP = -0x08"
definition EXCEPTION_POINTERS :: int where "EXCEPTION_POINTERS = -0x04"
definition SCOPE_TABLE :: int where "SCOPE_TABLE = 0x08"
definition TRY_LEVEL :: int where "TRY_LEVEL = 0x0C"
definition FRAME_POINTER :: int where "FRAME_POINTER = 0x10"
definition TRYLEVEL_NONE_SEH3 :: int where "TRYLEVEL_NONE_SEH3 = 0xFFFFFFFF"
definition TRYLEVEL_NONE_SEH4 :: int where "TRYLEVEL_NONE_SEH4 = 0xFFFFFFFE"
definition SEH4_SCOPE_TABLE_HEADER :: int where "SEH4_SCOPE_TABLE_HEADER = 0x10"

definition read_u32 :: "'m mem_ops \<Rightarrow> int \<Rightarrow> ('m, int) prog" where
  "read_u32 ops a = gbind (mem_read ops a 4) (\<lambda>bs. Ret (le_val bs))"

definition write_u32 :: "'m mem_ops \<Rightarrow> int \<Rightarrow> int \<Rightarrow> ('m, unit) prog" where
  "write_u32 ops a v = mem_write ops a (le_bytes 4 v)"

subsection \<open>The registration chain\<close>

definition exception_list :: "'m mem_ops \<Rightarrow> ('m, int) prog" where
  "exception_list ops =
     gbind (gets em_teb) (\<lambda>teb. case teb of
       None \<Rightarrow> Ret 0
     | Some a \<Rightarrow> gbind (mem_read ops a (int (mo_teb_size ops))) (\<lambda>bs. Ret (le_val (take 4 bs))))"

definition set_exception_list :: "'m mem_ops \<Rightarrow> int \<Rightarrow> ('m, unit) prog" where
  "set_exception_list ops registration =
     gbind (gets em_teb) (\<lambda>teb. case teb of
       None \<Rightarrow> Fail (Other AttributeError)
     | Some a \<Rightarrow> gbind (mem_read ops a (int (mo_teb_size ops))) (\<lambda>bs.
         mem_write ops a (le_bytes 4 registration @ drop 4 bs)))"

text \<open>A walk over the registrations from one of them. The body ends the walk with a result or goes on. A record that
  the emulator cannot read ends the walk.\<close>

definition read_registration :: "'m mem_ops \<Rightarrow> int \<Rightarrow> ('m, (int \<times> int) option) prog" where
  "read_registration ops registration =
     gcatch (gbind (mem_read ops registration 8) (\<lambda>bs. Ret (Some (le_val (take 4 bs), le_val (drop 4 bs)))))
       (\<lambda>f. case f of Access _ _ _ \<Rightarrow> Ret None | _ \<Rightarrow> Fail f)"

primrec registrations ::
  "nat \<Rightarrow> 'm mem_ops \<Rightarrow> (int \<times> int \<times> int \<Rightarrow> 'acc \<Rightarrow> ('m, 'b + 'acc) prog) \<Rightarrow> int \<Rightarrow> 'acc \<Rightarrow> ('m, 'b + 'acc) prog" where
  "registrations 0 ops body registration acc = Ret (Inr acc)"
| "registrations (Suc n) ops body registration acc =
     (if registration = 0 \<or> registration = END_OF_CHAIN then Ret (Inr acc)
      else gbind (read_registration ops registration) (\<lambda>r. case r of
             None \<Rightarrow> Ret (Inr acc)
           | Some (next_registration, handler) \<Rightarrow>
               gbind (body (registration, next_registration, handler) acc) (\<lambda>x. case x of
                 Inl b \<Rightarrow> Ret (Inl b) | Inr acc \<Rightarrow> registrations n ops body next_registration acc)))"

definition walk_registrations ::
  "'m mem_ops \<Rightarrow> (int \<times> int \<times> int \<Rightarrow> 'acc \<Rightarrow> ('m, 'b + 'acc) prog) \<Rightarrow> 'acc \<Rightarrow> ('m, 'b + 'acc) prog" where
  "walk_registrations ops body acc = gbind (exception_list ops) (\<lambda>r. registrations MAX_FRAMES ops body r acc)"

definition pack_words :: "int list \<Rightarrow> ('m, byte list) prog" where
  "pack_words vs = (if \<forall>v\<in>set vs. 0 \<le> v \<and> v < 2 ^ 32 then Ret (concat (map (le_bytes 4) vs)) else Fail (Other StructError))"

definition call_handler :: "'m mem_ops \<Rightarrow> int \<Rightarrow> int \<Rightarrow> int \<Rightarrow> int \<Rightarrow> int \<Rightarrow> ('m, guest_call) prog" where
  "call_handler ops handler rec registration ctx dispatcher_context =
     gbind (reg_read ''Ebp'') (\<lambda>ebp.
       gbind (pack_words [ebp, 0, rec, registration, ctx, dispatcher_context]) (\<lambda>bs.
         gbind (alloca ops bs) (\<lambda>frame_addr.
           Ret \<lparr>gc_function = handler, gc_args = [rec, registration, ctx, dispatcher_context],
                gc_registers = [(''Ebp'', frame_addr)]\<rparr>)))"

subsection \<open>Dispatch\<close>

definition offer_registration ::
  "'m mem_ops \<Rightarrow> int \<Rightarrow> int \<Rightarrow> int \<Rightarrow> int \<times> int \<times> int \<Rightarrow> dispatch \<Rightarrow> ('m, dispatch + dispatch) prog" where
  "offer_registration ops rec ctx dispatcher_context x d =
     (let (registration, _, handler) = x
      in gbind (offer ops handler d) (\<lambda>d.
           gbind (call_handler ops handler rec registration ctx dispatcher_context) (\<lambda>c.
             gbind (call c) (\<lambda>v. Ret (if v = ExceptionContinueExecution then Inl d else Inr d)))))"

definition dispatch_exception :: "'m mem_ops \<Rightarrow> 'm dispatcher" where
  "dispatch_exception ops rec ctx =
     gbind (new_dispatch ops rec ctx) (\<lambda>d.
       gbind (gbind (gets em_veh) (\<lambda>hs. vectored ops hs d)) (\<lambda>(taken, d).
         if taken then resume_dispatch ops d
         else gbind (alloca ops (replicate 4 0)) (\<lambda>dispatcher_context.
                gbind (walk_registrations ops (offer_registration ops rec ctx dispatcher_context) d) (\<lambda>x. case x of
                  Inl d \<Rightarrow> resume_dispatch ops d | Inr d \<Rightarrow> unhandled ops d))))"

subsection \<open>Unwind\<close>

definition unwind_registration ::
  "'m mem_ops \<Rightarrow> int \<Rightarrow> int \<Rightarrow> int \<Rightarrow> int \<Rightarrow> int \<times> int \<times> int \<Rightarrow> unit \<Rightarrow> ('m, unit + unit) prog" where
  "unwind_registration ops target_frame rec ctx dispatcher_context x _ =
     (let (registration, next_registration, handler) = x
      in if registration = target_frame \<or> (target_frame \<noteq> 0 \<and> target_frame < registration) then Ret (Inl ())
         else gbind (call_handler ops handler rec registration ctx dispatcher_context) (\<lambda>c.
                gbind (call c) (\<lambda>_. gbind (set_exception_list ops next_registration) (\<lambda>_. Ret (Inr ())))))"

definition unwind_record :: "'m mem_ops \<Rightarrow> int \<Rightarrow> int \<Rightarrow> int \<Rightarrow> ('m, fields) prog" where
  "unwind_record ops target_frame rec pc =
     gbind (if rec \<noteq> 0 then read_record ops rec else gets (\<lambda>s. exception_record s STATUS_UNWIND 0 pc [])) (\<lambda>f.
       gbind (gets record_layout) (\<lambda>l.
         Ret (set_field l ''ExceptionFlags''
           (f ''ExceptionFlags'' OR (if target_frame \<noteq> 0 then EXCEPTION_UNWINDING else UNWINDING)) f)))"

definition alloca_record :: "'m mem_ops \<Rightarrow> fields \<Rightarrow> ('m, int) prog" where
  "alloca_record ops f = gbind (gets (\<lambda>s. record_bytes s f)) (alloca ops)"

definition unwind_registrations :: "'m mem_ops \<Rightarrow> int \<Rightarrow> int \<Rightarrow> ('m, unit) prog" where
  "unwind_registrations ops target_frame rec =
     gbind (unwind_record ops target_frame rec 0) (\<lambda>f.
       gbind (alloca_record ops f) (\<lambda>rec.
         gbind (gbind get_thread_context (\<lambda>ctx. alloca ops (context_bytes ctx))) (\<lambda>ctx.
           gbind (alloca ops (replicate 4 0)) (\<lambda>dispatcher_context.
             gbind (walk_registrations ops (unwind_registration ops target_frame rec ctx dispatcher_context) ())
               (\<lambda>_. Ret ())))))"

definition rtl_unwind :: "'m mem_ops \<Rightarrow> int \<Rightarrow> int \<Rightarrow> int \<Rightarrow> int \<Rightarrow> ('m, outcome) prog" where
  "rtl_unwind ops target_frame target_ip rec return_value =
     gbind (caller_context ops) (\<lambda>caller.
       gbind (unwind_registrations ops target_frame rec) (\<lambda>_. resume_at (cset ''Eax'' return_value caller)))"

subsection \<open>MSVC frames\<close>

record msvc_frame =
  mf_registration :: int
  mf_ebp :: int
  mf_scope_table :: int
  mf_none :: int

definition new_msvc_frame :: "int \<Rightarrow> int \<Rightarrow> int \<Rightarrow> int \<Rightarrow> msvc_frame" where
  "new_msvc_frame registration scope_table header none =
     \<lparr>mf_registration = registration, mf_ebp = registration + FRAME_POINTER, mf_scope_table = scope_table + header,
      mf_none = none\<rparr>"

definition get_try_level :: "'m mem_ops \<Rightarrow> msvc_frame \<Rightarrow> ('m, int) prog" where
  "get_try_level ops f = read_u32 ops (mf_registration f + TRY_LEVEL)"

definition set_try_level :: "'m mem_ops \<Rightarrow> msvc_frame \<Rightarrow> int \<Rightarrow> ('m, unit) prog" where
  "set_try_level ops f level = write_u32 ops (mf_registration f + TRY_LEVEL) level"

definition scope :: "'m mem_ops \<Rightarrow> msvc_frame \<Rightarrow> int \<Rightarrow> ('m, int \<times> int \<times> int) prog" where
  "scope ops f level =
     gbind (mem_read ops (mf_scope_table f + 12 * level) 12) (\<lambda>bs.
       Ret (le_val (take 4 bs), le_val (take 4 (drop 4 bs)), le_val (drop 8 bs)))"

definition frame_call :: "msvc_frame \<Rightarrow> int \<Rightarrow> guest_call" where
  "frame_call f function_addr = \<lparr>gc_function = function_addr, gc_args = [], gc_registers = [(''Ebp'', mf_ebp f)]\<rparr>"

primrec local_unwind_loop :: "nat \<Rightarrow> 'm mem_ops \<Rightarrow> msvc_frame \<Rightarrow> int \<Rightarrow> ('m, unit) prog" where
  "local_unwind_loop 0 ops f stop = Ret ()"
| "local_unwind_loop (Suc n) ops f stop =
     gbind (get_try_level ops f) (\<lambda>level.
       if level = mf_none f \<or> level = stop then Ret ()
       else gbind (scope ops f level) (\<lambda>(enclosing, filter_function, handler).
              gbind (set_try_level ops f enclosing) (\<lambda>_.
                if filter_function = 0
                then gbind (call (frame_call f handler)) (\<lambda>_. local_unwind_loop n ops f stop)
                else local_unwind_loop n ops f stop)))"

definition local_unwind :: "'m mem_ops \<Rightarrow> msvc_frame \<Rightarrow> int \<Rightarrow> ('m, unit) prog" where
  "local_unwind ops f stop = local_unwind_loop MAX_FRAMES ops f stop"

text \<open>The filters from a level outwards.\<close>

definition take_exception ::
  "'m mem_ops \<Rightarrow> msvc_frame \<Rightarrow> int \<Rightarrow> int \<Rightarrow> int \<Rightarrow> int \<Rightarrow> int \<Rightarrow> ('m, outcome) prog" where
  "take_exception ops f rec ctx level enclosing handler =
     gbind (unwind_registrations ops (mf_registration f) rec) (\<lambda>_.
       gbind (local_unwind ops f level) (\<lambda>_.
         gbind (set_try_level ops f enclosing) (\<lambda>_.
           gbind (read_context ops ctx) (\<lambda>c.
             gbind (read_u32 ops (mf_registration f + SAVED_ESP)) (\<lambda>esp.
               resume_at (cset ''Eip'' handler (cset ''Esp'' esp (cset ''Ebp'' (mf_ebp f) c))))))))"

primrec filter_loop :: "nat \<Rightarrow> 'm mem_ops \<Rightarrow> msvc_frame \<Rightarrow> int \<Rightarrow> int \<Rightarrow> int \<Rightarrow> ('m, outcome) prog" where
  "filter_loop 0 ops f rec ctx level = Ret (Returns ExceptionContinueSearch)"
| "filter_loop (Suc n) ops f rec ctx level =
     (if level = mf_none f then Ret (Returns ExceptionContinueSearch)
      else gbind (scope ops f level) (\<lambda>(enclosing, filter_function, handler).
             if filter_function = 0 then filter_loop n ops f rec ctx enclosing
             else gbind (call (frame_call f filter_function)) (\<lambda>v.
                    if as_long v < 0 then Ret (Returns ExceptionContinueExecution)
                    else if 0 < as_long v then take_exception ops f rec ctx level enclosing handler
                    else filter_loop n ops f rec ctx enclosing)))"

definition msvc_handler :: "'m mem_ops \<Rightarrow> msvc_frame \<Rightarrow> int \<Rightarrow> int \<Rightarrow> ('m, outcome) prog" where
  "msvc_handler ops f rec ctx =
     gbind (read_u32 ops (rec + 4)) (\<lambda>flags.
       if flags AND UNWINDING \<noteq> 0
       then gbind (local_unwind ops f (mf_none f)) (\<lambda>_. Ret (Returns ExceptionContinueSearch))
       else gbind (gbind (pack_words [rec, ctx]) (alloca ops)) (\<lambda>pointers.
              gbind (write_u32 ops (mf_registration f + EXCEPTION_POINTERS) pointers) (\<lambda>_.
                gbind (get_try_level ops f) (filter_loop MAX_FRAMES ops f rec ctx))))"

definition except_handler3 :: "'m mem_ops \<Rightarrow> int \<Rightarrow> int \<Rightarrow> int \<Rightarrow> ('m, outcome) prog" where
  "except_handler3 ops rec registration ctx =
     gbind (read_u32 ops (registration + SCOPE_TABLE)) (\<lambda>scope_table.
       msvc_handler ops (new_msvc_frame registration scope_table 0 TRYLEVEL_NONE_SEH3) rec ctx)"

definition except_handler4_common :: "'m mem_ops \<Rightarrow> int \<Rightarrow> int \<Rightarrow> int \<Rightarrow> int \<Rightarrow> ('m, outcome) prog" where
  "except_handler4_common ops cookie rec registration ctx =
     gbind (read_u32 ops (registration + SCOPE_TABLE)) (\<lambda>t. gbind (read_u32 ops cookie) (\<lambda>c.
       msvc_handler ops (new_msvc_frame registration (t XOR c) SEH4_SCOPE_TABLE_HEADER TRYLEVEL_NONE_SEH4) rec ctx))"

end
