(* ===== verification/Seh64.thy ===== *)
theory Seh64
  imports Seh32
begin

text \<open>
  x64 exception dispatch (\<^verbatim>\<open>speakeasy/windows/seh64.py\<close>): the walk over the frames with unwind data, the search
  for a handler, the unwind to a target frame, the language handler of C and the function table APIs. The unwinder is the
  one of theory \<open>Unwind\<close>. The walk ends after \<open>MAX_FRAMES\<close> rounds, its fuel.
\<close>

definition STATUS_INVALID_UNWIND_TARGET :: int where "STATUS_INVALID_UNWIND_TARGET = 0xC0000029"

text \<open>\<open>struct.Struct("<9QII")\<close> with the names of \<open>DispatcherContext\<close>.\<close>

definition DISPATCHER_CONTEXT :: struct_layout where
  "DISPATCHER_CONTEXT = words 8 [''ControlPc'', ''ImageBase'', ''FunctionEntry'', ''EstablisherFrame'', ''TargetIp'',
     ''ContextRecord'', ''LanguageHandler'', ''HandlerData'', ''HistoryTable''] @ words 4 [''ScopeIndex'', ''Fill0'']"

definition SCOPE_INDEX_OFFSET :: int where "SCOPE_INDEX_OFFSET = 9 * 8"

text \<open>The reader of the unwinder on the memory of the state.\<close>

definition reader_of :: "'m mem_ops \<Rightarrow> 'm emu \<Rightarrow> reader" where
  "reader_of ops s = mo_read ops (em_mem s)"

fun find_table :: "int \<Rightarrow> function_table list \<Rightarrow> function_table option" where
  "find_table pc [] = None"
| "find_table pc (t # ts) = (if ft_begin t \<le> pc \<and> pc < ft_end t \<and> ft_callback t = 0 then Some t else find_table pc ts)"

definition find_function :: "'m mem_ops \<Rightarrow> 'm emu \<Rightarrow> int \<Rightarrow> runtime_function option result" where
  "find_function ops s pc =
     rbind (case mo_module_base ops (em_mem s) pc of
              None \<Rightarrow> Inr None | Some base \<Rightarrow> lookup_function_entry (reader_of ops s) base pc) (\<lambda>fn.
       case fn of
         Some f \<Rightarrow> Inr (Some f)
       | None \<Rightarrow> (case find_table pc (em_tables s) of
                    None \<Rightarrow> Inr None | Some t \<Rightarrow> search_function_table (reader_of ops s) t pc))"

text \<open>One frame: a leaf frame only changes the context. An error of the engine or of the unwinder ends the walk.\<close>

datatype frame_step = Stop | Leaf win_context | Framed runtime_function frame_info win_context

definition step_frame :: "'m mem_ops \<Rightarrow> int \<Rightarrow> win_context \<Rightarrow> 'm emu \<Rightarrow> frame_step result" where
  "step_frame ops handler_type ctx s =
     (let ends = (\<lambda>e. if e = UcError \<or> e = UnwindError then Inr Stop else Inl e); pc = cget ''Rip'' ctx
      in case find_function ops s pc of
           Inl e \<Rightarrow> ends e
         | Inr None \<Rightarrow>
             (case unwind_leaf (reader_of ops s) (unwind_view ctx) of
                (Inl e, _) \<Rightarrow> ends e | (Inr _, u) \<Rightarrow> Inr (Leaf (put_unwind_view u ctx)))
         | Inr (Some fn) \<Rightarrow>
             (case virtual_unwind (reader_of ops s) fn pc (unwind_view ctx) handler_type of
                (Inl e, _) \<Rightarrow> ends e | (Inr info, u) \<Rightarrow> Inr (Framed fn info (put_unwind_view u ctx))))"

text \<open>The body of a walk gets the context of the frame, its function and info, and the context of its caller.\<close>

type_synonym walked = "win_context \<times> runtime_function \<times> frame_info \<times> win_context"

primrec walk_frames ::
  "nat \<Rightarrow> 'm mem_ops \<Rightarrow> int \<Rightarrow> (walked \<Rightarrow> 'acc \<Rightarrow> ('m, 'b + 'acc) prog) \<Rightarrow> win_context \<Rightarrow> 'acc \<Rightarrow> ('m, 'b + 'acc) prog" where
  "walk_frames 0 ops handler_type body ctx acc = Ret (Inr acc)"
| "walk_frames (Suc n) ops handler_type body ctx acc =
     (let pc = cget ''Rip'' ctx
      in if pc = GUEST_CALLBACK_RETURN_ADDR
         then gbind (unwind_frame ops ctx) (\<lambda>ctx. walk_frames n ops handler_type body ctx acc)
         else if pc = 0 \<or> (EMU_RESERVED \<le> pc \<and> pc < EMU_RESERVED_END) then Ret (Inr acc)
         else gbind (gets (step_frame ops handler_type ctx)) (\<lambda>r. case r of
                Inl e \<Rightarrow> Fail (Other e)
              | Inr Stop \<Rightarrow> Ret (Inr acc)
              | Inr (Leaf up) \<Rightarrow> walk_frames n ops handler_type body up acc
              | Inr (Framed fn info up) \<Rightarrow>
                  gbind (body (ctx, fn, info, up) acc) (\<lambda>x. case x of
                    Inl b \<Rightarrow> Ret (Inl b) | Inr acc \<Rightarrow> walk_frames n ops handler_type body up acc)))"

definition pack_struct :: "struct_layout \<Rightarrow> fields \<Rightarrow> ('m, byte list) prog" where
  "pack_struct l f =
     (if list_all (\<lambda>(name, w). 0 \<le> f name \<and> f name < 256 ^ w) l then Ret (struct_bytes l f) else Fail (Other StructError))"

definition dispatcher_context ::
  "runtime_function \<Rightarrow> win_context \<Rightarrow> frame_info \<Rightarrow> int \<Rightarrow> int \<Rightarrow> ('m, byte list) prog" where
  "dispatcher_context fn frame_ctx info ctx target_ip =
     pack_struct DISPATCHER_CONTEXT ((\<lambda>_. 0)(''ControlPc'' := cget ''Rip'' frame_ctx, ''ImageBase'' := rf_image_base fn,
       ''FunctionEntry'' := rf_address fn, ''EstablisherFrame'' := fi_establisher_frame info, ''TargetIp'' := target_ip,
       ''ContextRecord'' := ctx, ''LanguageHandler'' := fi_handler info, ''HandlerData'' := fi_handler_data info))"

subsection \<open>Dispatch\<close>

definition offer_frame ::
  "'m mem_ops \<Rightarrow> int \<Rightarrow> int \<Rightarrow> int \<Rightarrow> int \<Rightarrow> walked \<Rightarrow> dispatch \<Rightarrow> ('m, dispatch + dispatch) prog" where
  "offer_frame ops rec ctx unwound dc x d =
     (let (frame_ctx, fn, info, up) = x
      in if fi_handler info = 0 then Ret (Inr d)
         else gbind (mem_write ops unwound (context_bytes up)) (\<lambda>_.
                gbind (gbind (dispatcher_context fn frame_ctx info unwound 0) (mem_write ops dc)) (\<lambda>_.
                  gbind (offer ops (fi_handler info) d) (\<lambda>d.
                    gbind (call (guest_call_of (fi_handler info) [rec, fi_establisher_frame info, ctx, dc])) (\<lambda>v.
                      Ret (if v = ExceptionContinueExecution then Inl d else Inr d))))))"

definition dispatch_exception64 :: "'m mem_ops \<Rightarrow> 'm dispatcher" where
  "dispatch_exception64 ops rec ctx_addr =
     gbind (new_dispatch ops rec ctx_addr) (\<lambda>d.
       gbind (gbind (gets em_veh) (\<lambda>hs. vectored ops hs d)) (\<lambda>(taken, d).
         if taken then resume_dispatch ops d
         else gbind (read_context ops ctx_addr) (\<lambda>ctx.
                gbind (alloca ops (context_bytes ctx)) (\<lambda>unwound.
                  gbind (alloca ops (replicate (struct_size DISPATCHER_CONTEXT) 0)) (\<lambda>dc.
                    gbind (walk_frames MAX_FRAMES ops UNW_FLAG_EHANDLER (offer_frame ops rec ctx_addr unwound dc) ctx d)
                      (\<lambda>x. case x of Inl d \<Rightarrow> resume_dispatch ops d | Inr d \<Rightarrow> unhandled ops d))))))"

subsection \<open>Unwind\<close>

text \<open>The accumulator is the record, which gets \<open>EXCEPTION_TARGET_UNWIND\<close> at the target.\<close>

definition mark_target :: "'m emu \<Rightarrow> fields \<Rightarrow> fields" where
  "mark_target s f = set_field (record_layout s) ''ExceptionFlags'' (f ''ExceptionFlags'' OR EXCEPTION_TARGET_UNWIND) f"

definition unwind_walked ::
  "'m mem_ops \<Rightarrow> int \<Rightarrow> int \<Rightarrow> int \<Rightarrow> int \<Rightarrow> int \<Rightarrow> walked \<Rightarrow> fields \<Rightarrow> ('m, win_context + fields) prog" where
  "unwind_walked ops target_frame target_ip rec unwound dc x f =
     (let (frame_ctx, fn, info, up) = x; is_target = (fi_establisher_frame info = target_frame)
      in gbind (if fi_handler info = 0 then Ret f
                else gbind (if \<not> is_target then Ret f
                            else gbind (gets (\<lambda>s. mark_target s f)) (\<lambda>f.
                                   gbind (gets (\<lambda>s. record_bytes s f)) (\<lambda>bs.
                                     gbind (mem_write ops rec bs) (\<lambda>_. Ret f)))) (\<lambda>f.
                       gbind (mem_write ops unwound (context_bytes frame_ctx)) (\<lambda>_.
                         gbind (gbind (dispatcher_context fn frame_ctx info unwound target_ip) (mem_write ops dc)) (\<lambda>_.
                           gbind (call (guest_call_of (fi_handler info)
                             [rec, fi_establisher_frame info, unwound, dc])) (\<lambda>_. Ret f)))))
           (\<lambda>f. Ret (if is_target then Inl frame_ctx else Inr f)))"

definition unwind_to :: "'m mem_ops \<Rightarrow> win_context \<Rightarrow> int \<Rightarrow> int \<Rightarrow> int \<Rightarrow> int \<Rightarrow> ('m, outcome) prog" where
  "unwind_to ops ctx target_frame target_ip rec return_value =
     gbind (unwind_record ops target_frame rec (cget ''Rip'' ctx)) (\<lambda>f.
       gbind (alloca_record ops f) (\<lambda>rec.
         gbind (alloca ops (context_bytes ctx)) (\<lambda>unwound.
           gbind (alloca ops (replicate (struct_size DISPATCHER_CONTEXT) 0)) (\<lambda>dc.
             gbind (walk_frames MAX_FRAMES ops UNW_FLAG_UHANDLER
                 (unwind_walked ops target_frame target_ip rec unwound dc) ctx f) (\<lambda>x. case x of
               Inl frame_ctx \<Rightarrow> resume_at (cset ''Rax'' return_value (cset ''Rip'' target_ip frame_ctx))
             | Inr _ \<Rightarrow> Fail (UnhandledException STATUS_INVALID_UNWIND_TARGET target_ip []))))))"

definition rtl_unwind_ex :: "'m mem_ops \<Rightarrow> int \<Rightarrow> int \<Rightarrow> int \<Rightarrow> int \<Rightarrow> ('m, outcome) prog" where
  "rtl_unwind_ex ops target_frame target_ip rec return_value =
     gbind (caller_context ops) (\<lambda>ctx. unwind_to ops ctx target_frame target_ip rec return_value)"

subsection \<open>The language handler of C\<close>

type_synonym scope_record = "int \<times> int \<times> int \<times> int"

fun chunks16 :: "byte list \<Rightarrow> scope_record list" where
  "chunks16 bs =
     (if length bs < 16 then []
      else (le_val (take 4 bs), le_val (take 4 (drop 4 bs)), le_val (take 4 (drop 8 bs)), le_val (take 4 (drop 12 bs))) #
           chunks16 (drop 16 bs))"

declare chunks16.simps [simp del]

text \<open>The search for a filter that takes the exception.\<close>

fun search_scopes ::
  "'m mem_ops \<Rightarrow> int \<Rightarrow> int \<Rightarrow> int \<Rightarrow> int \<Rightarrow> (int \<Rightarrow> ('m, outcome) prog) \<Rightarrow> scope_record list \<Rightarrow> ('m, outcome) prog" where
  "search_scopes ops image_base pc pointers frame_addr take_it [] = Ret (Returns ExceptionContinueSearch)"
| "search_scopes ops image_base pc pointers frame_addr take_it ((b, e, filter_rva, target) # scopes) =
     (if \<not> (b \<le> pc \<and> pc < e \<and> target \<noteq> 0)
      then search_scopes ops image_base pc pointers frame_addr take_it scopes
      else gbind (if filter_rva = EXCEPTION_EXECUTE_HANDLER then Ret EXCEPTION_EXECUTE_HANDLER
                  else gbind (call (guest_call_of (image_base + filter_rva) [pointers, frame_addr]))
                         (\<lambda>v. Ret (as_long v))) (\<lambda>verdict.
             if verdict < 0 then Ret (Returns ExceptionContinueExecution)
             else if 0 < verdict then take_it (image_base + target)
             else search_scopes ops image_base pc pointers frame_addr take_it scopes))"

text \<open>The \<open>__finally\<close> blocks of the scopes that an unwind leaves, with the index of the first scope of the list.\<close>

fun leave_scopes ::
  "'m mem_ops \<Rightarrow> int \<Rightarrow> int \<Rightarrow> int \<Rightarrow> int \<Rightarrow> bool \<Rightarrow> int \<Rightarrow> scope_record list \<Rightarrow> int \<Rightarrow> scope_record list \<Rightarrow> ('m, unit) prog" where
  "leave_scopes ops image_base pc dc frame_addr target_unwind target_pc all_scopes index [] = Ret ()"
| "leave_scopes ops image_base pc dc frame_addr target_unwind target_pc all_scopes index ((b, e, handler, target) # scopes) =
     (if \<not> (b \<le> pc \<and> pc < e)
      then leave_scopes ops image_base pc dc frame_addr target_unwind target_pc all_scopes (index + 1) scopes
      else if target_unwind \<and> list_ex (\<lambda>(b', e', h', t'). b' \<le> target_pc \<and> target_pc < e' \<and> h' = handler \<and> t' = target) all_scopes
      then Ret ()
      else gbind (if target \<noteq> 0 then Ret ()
                  else gbind (mem_write ops (dc + SCOPE_INDEX_OFFSET) (le_bytes 4 (index + 1))) (\<lambda>_.
                         gbind (call (guest_call_of (image_base + handler) [1, frame_addr])) (\<lambda>_. Ret ()))) (\<lambda>_.
             leave_scopes ops image_base pc dc frame_addr target_unwind target_pc all_scopes (index + 1) scopes))"

definition c_specific_handler :: "'m mem_ops \<Rightarrow> int \<Rightarrow> int \<Rightarrow> int \<Rightarrow> int \<Rightarrow> ('m, outcome) prog" where
  "c_specific_handler ops rec frame_addr ctx dc =
     gbind (caller_context ops) (\<lambda>caller.
       gbind (mem_read ops rec 8) (\<lambda>header.
         let code = le_val (take 4 header); flags = le_val (drop 4 header)
         in gbind (mem_read ops dc (int (struct_size DISPATCHER_CONTEXT))) (\<lambda>bs.
              let d = struct_of DISPATCHER_CONTEXT bs; image_base = d ''ImageBase''; pc = d ''ControlPc'' - image_base;
                  start_index = nat (d ''ScopeIndex'')
              in gbind (read_u32 ops (d ''HandlerData'')) (\<lambda>count.
                   gbind (mem_read ops (d ''HandlerData'' + 4) (16 * count)) (\<lambda>table.
                     let scopes = chunks16 table
                     in if flags AND UNWINDING = 0
                        then gbind (gbind (pack_pointers rec ctx) (alloca ops)) (\<lambda>pointers.
                               search_scopes ops image_base pc pointers frame_addr
                                 (\<lambda>target. unwind_to ops caller frame_addr target rec code) (drop start_index scopes))
                        else gbind (leave_scopes ops image_base pc dc frame_addr (flags AND EXCEPTION_TARGET_UNWIND \<noteq> 0)
                                 (d ''TargetIp'' - image_base) scopes (d ''ScopeIndex'') (drop start_index scopes))
                               (\<lambda>_. Ret (Returns ExceptionContinueSearch)))))))"

subsection \<open>Function tables\<close>

definition lift_read :: "('m emu \<Rightarrow> 'a result) \<Rightarrow> ('m, 'a) prog" where
  "lift_read f = gbind (gets f) glift"

definition rtl_lookup_function_entry :: "'m mem_ops \<Rightarrow> int \<Rightarrow> int \<Rightarrow> ('m, int) prog" where
  "rtl_lookup_function_entry ops pc image_base_out =
     gbind (lift_read (\<lambda>s. find_function ops s pc)) (\<lambda>fn. case fn of
       None \<Rightarrow> Ret 0
     | Some f \<Rightarrow>
         gbind (if image_base_out \<noteq> 0 then write_ptr ops image_base_out (rf_image_base f) else Ret ()) (\<lambda>_.
           Ret (rf_address f)))"

definition rtl_virtual_unwind ::
  "'m mem_ops \<Rightarrow> int \<Rightarrow> int \<Rightarrow> int \<Rightarrow> int \<Rightarrow> int \<Rightarrow> int \<Rightarrow> int \<Rightarrow> ('m, int) prog" where
  "rtl_virtual_unwind ops handler_type image_base pc entry ctx_addr handler_data_out frame_out =
     gbind (lift_read (\<lambda>s. read_runtime_function (reader_of ops s) image_base entry)) (\<lambda>fn.
       gbind (read_context ops ctx_addr) (\<lambda>ctx.
         gbind (lift_read (\<lambda>s. case virtual_unwind (reader_of ops s) fn pc (unwind_view ctx) handler_type of
             (Inl e, _) \<Rightarrow> Inl e | (Inr info, u) \<Rightarrow> Inr (info, put_unwind_view u ctx))) (\<lambda>(info, up).
           gbind (mem_write ops ctx_addr (context_bytes up)) (\<lambda>_.
             gbind (write_ptr ops handler_data_out (fi_handler_data info)) (\<lambda>_.
               gbind (write_ptr ops frame_out (fi_establisher_frame info)) (\<lambda>_. Ret (fi_handler info)))))))"

text \<open>\<open>list(read_function_table(...))\<close>, page by page.\<close>

function table_pages :: "reader \<Rightarrow> int \<Rightarrow> int \<Rightarrow> int \<Rightarrow> (int \<times> int \<times> int) list result" where
  "table_pages read address count first =
     (if count \<le> first then Inr []
      else rbind (rbind (read (address + 12 * first) (12 * min per_page (count - first))) iter_unpack_III) (\<lambda>es.
             rbind (table_pages read address count (first + per_page)) (\<lambda>rest. Inr (es @ rest))))"
  by pat_completeness auto
termination
  by (relation "measure (\<lambda>(_, _, count, first). nat (count - first))") (auto simp: per_page_def)

declare table_pages.simps [simp del]

definition least :: "int list \<Rightarrow> int" where "least xs = foldr min xs (hd xs)"
definition greatest :: "int list \<Rightarrow> int" where "greatest xs = foldr max xs (hd xs)"

definition add_function_table :: "'m mem_ops \<Rightarrow> int \<Rightarrow> int \<Rightarrow> int \<Rightarrow> ('m, bool) prog" where
  "add_function_table ops table count base =
     gbind (lift_read (\<lambda>s. table_pages (reader_of ops s) table count 0)) (\<lambda>es.
       if es = [] then Ret False
       else gbind (modify (\<lambda>s. s\<lparr>em_tables := em_tables s @
              [\<lparr>ft_identifier = table, ft_base = base, ft_begin = base + least (map fst es),
                ft_end = base + greatest (map (fst \<circ> snd) es), ft_count = count, ft_callback = 0\<rparr>]\<rparr>)) (\<lambda>_. Ret True))"

definition install_function_table_callback :: "int \<Rightarrow> int \<Rightarrow> int \<Rightarrow> int \<Rightarrow> ('m, bool) prog" where
  "install_function_table_callback identifier base len callback =
     (if identifier AND 3 \<noteq> 3 then Ret False
      else gbind (modify (\<lambda>s. s\<lparr>em_tables := em_tables s @
             [\<lparr>ft_identifier = identifier, ft_base = base, ft_begin = base, ft_end = base + len, ft_count = 0,
               ft_callback = callback\<rparr>]\<rparr>)) (\<lambda>_. Ret True))"

definition delete_function_table :: "int \<Rightarrow> ('m, bool) prog" where
  "delete_function_table identifier =
     gbind (gets em_tables) (\<lambda>tables. case find (\<lambda>t. ft_identifier t = identifier) tables of
       None \<Rightarrow> Ret False
     | Some t \<Rightarrow> gbind (modify (\<lambda>s. s\<lparr>em_tables := remove1 t tables\<rparr>)) (\<lambda>_. Ret True))"

end
