(* ===== verification/Seh_Search.thy ===== *)
theory Seh_Search
  imports Seh64
begin

text \<open>
  Lemmas on the search for a handler. The dispatchers of x86 and x64 differ in the search over the frames; the locale
  \<open>handler_search\<close> states what both searches promise, proves what follows for the dispatch of an exception, and is
  interpreted on the chain of x86 and on the walk of x64.
\<close>

subsection \<open>Programs that report nothing\<close>

definition silent :: "('m, 'a) prog \<Rightarrow> bool" where
  "silent m \<longleftrightarrow> (\<forall>g s. fst (play m g s) = [] \<and> em_exceptions (snd (snd (play m g s))) = em_exceptions s)"

named_theorems silent_rules \<open>programs without calls and reports\<close>

lemma silentD:
  assumes "silent m"
  obtains r s' where "play m g s = ([], r, s')" "em_exceptions s' = em_exceptions s"
proof -
  have "fst (play m g s) = []" "em_exceptions (snd (snd (play m g s))) = em_exceptions s"
    using assms by (simp_all add: silent_def)
  moreover have "play m g s = (fst (play m g s), fst (snd (play m g s)), snd (snd (play m g s)))" by simp
  ultimately show thesis using that by metis
qed

lemma silent_bind [silent_rules]:
  assumes "silent m" "\<And>x. silent (f x)"
  shows "silent (gbind m f)"
  unfolding silent_def
proof (intro allI)
  fix g and s :: "'a emu"
  obtain r s1 where m: "play m g s = ([], r, s1)" "em_exceptions s1 = em_exceptions s" using silentD [OF assms(1)] .
  show "fst (play (gbind m f) g s) = [] \<and> em_exceptions (snd (snd (play (gbind m f) g s))) = em_exceptions s"
  proof (cases r)
    case (Inr x)
    obtain r' s2 where "play (f x) g s1 = ([], r', s2)" "em_exceptions s2 = em_exceptions s1" using silentD [OF assms(2)] .
    then show ?thesis using m Inr by (simp add: play_gbind)
  qed (simp add: play_gbind m)
qed

lemma silent_catch [silent_rules]:
  assumes "silent m" "\<And>x. silent (h x)"
  shows "silent (gcatch m h)"
  unfolding silent_def
proof (intro allI)
  fix g and s :: "'a emu"
  obtain r s1 where m: "play m g s = ([], r, s1)" "em_exceptions s1 = em_exceptions s" using silentD [OF assms(1)] .
  show "fst (play (gcatch m h) g s) = [] \<and> em_exceptions (snd (snd (play (gcatch m h) g s))) = em_exceptions s"
  proof (cases r)
    case (Inl x)
    obtain r' s2 where "play (h x) g s1 = ([], r', s2)" "em_exceptions s2 = em_exceptions s1" using silentD [OF assms(2)] .
    then show ?thesis using m Inl by (simp add: play_gcatch)
  qed (simp add: play_gcatch m)
qed

lemma silent_basic [silent_rules]:
  "silent (Ret x)" "silent (Fail e)" "silent (gets f)" "silent (glift r)"
  "(\<And>s. em_exceptions (h s) = em_exceptions s) \<Longrightarrow> silent (modify h)"
  by (simp_all add: silent_def)

lemma silent_if [silent_rules]: "silent m \<Longrightarrow> silent n \<Longrightarrow> silent (if c then m else n)"
  by simp

lemma silent_option [silent_rules]:
  "silent m \<Longrightarrow> (\<And>x. silent (f x)) \<Longrightarrow> silent (case z of None \<Rightarrow> m | Some x \<Rightarrow> f x)"
  by (cases z) simp_all

lemma silent_prod [silent_rules]: "(\<And>x y. silent (f x y)) \<Longrightarrow> silent (case z of (x, y) \<Rightarrow> f x y)"
  by (cases z) simp

lemma silent_sum [silent_rules]:
  "(\<And>x. silent (f x)) \<Longrightarrow> (\<And>x. silent (h x)) \<Longrightarrow> silent (case z of Inl x \<Rightarrow> f x | Inr x \<Rightarrow> h x)"
  by (cases z) simp_all

lemma silent_memory [silent_rules]: "silent (mem_read ops a n)" "silent (mem_write ops a bs)"
  by (simp_all add: silent_def mem_read_def mem_write_def split: sum.split)

lemma put_reg_exceptions [simp]: "em_exceptions (put_reg name v s) = em_exceptions s"
  by (simp add: put_reg_def)

lemma put_frame_exceptions [simp]: "em_exceptions (put_frame f s) = em_exceptions s"
  by (simp add: put_frame_def)

lemma silent_alloca [silent_rules]: "silent (alloca ops data)"
proof -
  have "silent (gbind (mem_write ops a data) (\<lambda>_. Ret a))" for a by (intro silent_rules)
  then show ?thesis by (simp add: silent_def alloca_def Let_def split: option.split)
qed

lemma silent_records [silent_rules]:
  "silent (read_record ops a)" "silent (read_context ops a)" "silent (pack_pointers a b)" "silent (new_dispatch ops a b)"
  "silent (exception_list ops)" "silent (read_registration ops a)" "silent (pack_words vs)"
  "silent (call_handler ops h a b c d)" "silent (pack_struct l f)" "silent (dispatcher_context fn frame_ctx info a b)"
  "silent (unwind_frame ops ctx)"
proof -
  show r: "silent (read_record ops a)" unfolding read_record_def by (intro silent_rules)
  show "silent (read_context ops a)" unfolding read_context_def by (intro silent_rules)
  show p: "silent (pack_pointers a b)" unfolding pack_pointers_def by (intro silent_rules)
  show "silent (new_dispatch ops a b)" unfolding new_dispatch_def by (intro silent_rules r p)
  show "silent (exception_list ops)" unfolding exception_list_def by (intro silent_rules)
  show "silent (read_registration ops a)"
    unfolding read_registration_def by (intro silent_rules) (simp add: silent_rules split: fault.split)
  show w: "silent (pack_words vs)" for vs unfolding pack_words_def by (intro silent_rules)
  show "silent (call_handler ops h a b c d)"
    unfolding call_handler_def reg_read_def by (intro silent_rules w)
  show s: "silent (pack_struct l f)" for l f unfolding pack_struct_def by (intro silent_rules)
  show "silent (dispatcher_context fn frame_ctx info a b)" unfolding dispatcher_context_def by (rule s)
  show "silent (unwind_frame ops ctx)"
    unfolding unwind_frame_def
    by (intro silent_rules) (auto simp: Let_def split: list.split option.split intro!: silent_rules)
qed

subsection \<open>Verdicts and reports\<close>

text \<open>A vectored handler or a filter has one argument, and continues with -1; a handler of a frame has four, and continues
  with 0.\<close>

definition continues :: "guest_call \<times> int \<Rightarrow> bool" where
  "continues x \<longleftrightarrow> (if length (gc_args (fst x)) = 1 then as_long (snd x) = -1 else snd x = 0)"

definition verdicts :: "(guest_call \<times> int) list \<Rightarrow> bool \<Rightarrow> bool" where
  "verdicts t taken \<longleftrightarrow>
     (if taken then t \<noteq> [] \<and> continues (last t) \<and> (\<forall>x\<in>set (butlast t). \<not> continues x) else \<forall>x\<in>set t. \<not> continues x)"

definition reports :: "bool \<Rightarrow> exception_event list \<Rightarrow> (guest_call \<times> int) list \<Rightarrow> bool option \<Rightarrow> exception_event list \<Rightarrow> bool" where
  "reports before es t after es' \<longleftrightarrow>
     (if before then es' = es \<and> after \<noteq> Some False
      else (t = [] \<and> es' = es \<and> after \<noteq> Some True) \<or>
        (\<exists>e. es' = es @ [e] \<and> after \<noteq> Some False \<and> (after = Some True \<longrightarrow> t \<noteq> []) \<and>
           (t \<noteq> [] \<longrightarrow> fst (snd (snd e)) = gc_function (fst (hd t)))))"

text \<open>A guest that does not raise exceptions of its own while it answers.\<close>

definition quiet_guest :: "'m emu guest \<Rightarrow> bool" where
  "quiet_guest g \<longleftrightarrow> (\<forall>c s. em_exceptions (snd (g c s)) = em_exceptions s)"

definition taken_of :: "fault + bool \<times> dispatch \<Rightarrow> bool" where
  "taken_of r = (case r of Inr (b, _) \<Rightarrow> b | Inl _ \<Rightarrow> False)"

definition reported_of :: "fault + bool \<times> dispatch \<Rightarrow> bool option" where
  "reported_of r = (case r of Inr (_, d) \<Rightarrow> Some (d_reported d) | Inl _ \<Rightarrow> None)"

definition same_exception :: "dispatch \<Rightarrow> fault + bool \<times> dispatch \<Rightarrow> bool" where
  "same_exception d r = (case r of Inr (_, d') \<Rightarrow> d' = d\<lparr>d_reported := d_reported d'\<rparr> | Inl _ \<Rightarrow> True)"

text \<open>A search of a program whose result is read by \<open>view\<close>.\<close>

definition search_ok :: "('x \<Rightarrow> bool \<times> dispatch) \<Rightarrow> dispatch \<Rightarrow> ('m, 'x) prog \<Rightarrow> bool" where
  "search_ok view d m \<longleftrightarrow>
     (\<forall>g s t r s'. play m g s = (t, r, s') \<longrightarrow>
        (let v = map_sum id view r
         in verdicts t (taken_of v) \<and> same_exception d v \<and>
            (quiet_guest g \<longrightarrow> reports (d_reported d) (em_exceptions s) t (reported_of v) (em_exceptions s'))))"

definition sum_view :: "dispatch + dispatch \<Rightarrow> bool \<times> dispatch" where
  "sum_view x = (case x of Inl d \<Rightarrow> (True, d) | Inr d \<Rightarrow> (False, d))"

lemma sum_view_simps [simp]: "sum_view (Inl d) = (True, d)" "sum_view (Inr d) = (False, d)"
  by (simp_all add: sum_view_def)

lemma sum_view_iff [simp]: "sum_view x = (True, d) \<longleftrightarrow> x = Inl d" "sum_view x = (False, d) \<longleftrightarrow> x = Inr d"
  by (cases x; auto)+

lemma verdicts_append: "verdicts t1 False \<Longrightarrow> verdicts t2 b \<Longrightarrow> verdicts (t1 @ t2) b"
  by (auto simp: verdicts_def butlast_append split: if_splits)

lemma reports_append:
  assumes "reports b es t1 (Some b1) es1" "reports b1 es1 t2 b2 es2"
  shows "reports b es (t1 @ t2) b2 es2"
  using assms by (auto simp: reports_def hd_append split: if_splits)

lemma search_ok_Ret: "view x = (False, d) \<Longrightarrow> search_ok view d (Ret x)"
  by (simp add: search_ok_def verdicts_def taken_of_def reported_of_def same_exception_def reports_def)

lemma search_ok_Fail: "search_ok view d (Fail e)"
  by (simp add: search_ok_def verdicts_def taken_of_def reported_of_def same_exception_def reports_def)

lemma search_ok_silent:
  assumes "silent m" "\<And>x. search_ok view d (f x)"
  shows "search_ok view d (gbind m f)"
  unfolding search_ok_def
proof (intro allI impI)
  fix g s t r s'
  assume p: "play (gbind m f) g s = (t, r, s')"
  obtain r1 s1 where m: "play m g s = ([], r1, s1)" "em_exceptions s1 = em_exceptions s" using silentD [OF assms(1)] .
  show "let v = map_sum id view r in verdicts t (taken_of v) \<and> same_exception d v \<and>
      (quiet_guest g \<longrightarrow> reports (d_reported d) (em_exceptions s) t (reported_of v) (em_exceptions s'))"
  proof (cases r1)
    case (Inl e)
    then have "t = []" "r = Inl e" "s' = s1" using p m by (simp_all add: play_gbind)
    then show ?thesis using m(2) by (simp add: verdicts_def taken_of_def reported_of_def same_exception_def reports_def)
  next
    case (Inr x)
    then have "play (f x) g s1 = (t, r, s')" using p m by (simp add: play_gbind split: prod.splits)
    then show ?thesis using assms(2) [of x] m(2) unfolding search_ok_def by fastforce
  qed
qed

text \<open>A search that goes on after another one, with the exception that the first one passes.\<close>

lemma search_ok_bind:
  assumes m: "search_ok view d m"
    and f: "\<And>x d'. view x = (False, d') \<Longrightarrow> search_ok view' d' (f x)"
    and taken: "\<And>x d'. view x = (True, d') \<Longrightarrow> \<exists>y. f x = Ret y \<and> view' y = (True, d')"
  shows "search_ok view' d (gbind m f)"
  unfolding search_ok_def
proof (intro allI impI)
  fix g s t r s'
  assume p: "play (gbind m f) g s = (t, r, s')"
  obtain t1 r1 s1 where m1: "play m g s = (t1, r1, s1)" by (cases "play m g s") auto
  have ok: "verdicts t1 (taken_of (map_sum id view r1))" "same_exception d (map_sum id view r1)"
    "quiet_guest g \<Longrightarrow> reports (d_reported d) (em_exceptions s) t1 (reported_of (map_sum id view r1)) (em_exceptions s1)"
    using m m1 by (auto simp: search_ok_def Let_def)
  show "let v = map_sum id view' r in verdicts t (taken_of v) \<and> same_exception d v \<and>
      (quiet_guest g \<longrightarrow> reports (d_reported d) (em_exceptions s) t (reported_of v) (em_exceptions s'))"
  proof (cases r1)
    case (Inl e)
    then have "t = t1" "r = Inl e" "s' = s1" using p m1 by (simp_all add: play_gbind)
    then show ?thesis using ok Inl by (simp add: taken_of_def reported_of_def same_exception_def)
  next
    case (Inr x)
    obtain b d1 where v: "view x = (b, d1)" by (cases "view x")
    have d1: "d1 = d\<lparr>d_reported := d_reported d1\<rparr>" using ok(2) by (simp add: Inr v same_exception_def)
    show ?thesis
    proof (cases b)
      case True
      then have "view x = (True, d1)" using v by simp
      then obtain y where y: "f x = Ret y" "view' y = (True, d1)" using taken by blast
      then have "t = t1" "r = Inr y" "s' = s1" using p m1 Inr by (simp_all add: play_gbind)
      then show ?thesis using ok Inr v y True by (simp add: taken_of_def reported_of_def same_exception_def)
    next
      case False
      obtain t2 where t2: "play (f x) g s1 = (t2, r, s')" "t = t1 @ t2"
        using p m1 Inr by (auto simp: play_gbind split: prod.splits)
      have f1: "search_ok view' d1 (f x)" using f v False by simp
      have ok2: "verdicts t2 (taken_of (map_sum id view' r))" "same_exception d1 (map_sum id view' r)"
        "quiet_guest g \<Longrightarrow> reports (d_reported d1) (em_exceptions s1) t2 (reported_of (map_sum id view' r)) (em_exceptions s')"
        using f1 t2(1) by (auto simp: search_ok_def Let_def)
      have "verdicts t (taken_of (map_sum id view' r))"
        using verdicts_append [OF _ ok2(1)] ok(1) False t2(2) by (simp add: Inr v taken_of_def)
      moreover have "same_exception d (map_sum id view' r)"
        using ok2(2) d1 by (auto simp: same_exception_def split: sum.splits prod.splits)
          (metis dispatch.simps(16) dispatch.surjective dispatch.update_convs(8))
      moreover have "reports (d_reported d) (em_exceptions s) t (reported_of (map_sum id view' r)) (em_exceptions s')"
        if "quiet_guest g"
        using reports_append [OF _ ok2(3) [OF that]] ok(3) [OF that] t2(2) by (simp add: Inr v reported_of_def)
      ultimately show ?thesis by (simp add: Let_def)
    qed
  qed
qed

subsection \<open>One handler\<close>

text \<open>Every call that a program gives has the function \<open>h\<close>, and continues with the answers of \<open>P\<close>.\<close>

definition gives_call :: "int \<Rightarrow> (int \<Rightarrow> bool) \<Rightarrow> ('m, guest_call) prog \<Rightarrow> bool" where
  "gives_call h P m \<longleftrightarrow>
     (\<forall>g s c. fst (snd (play m g s)) = Inr c \<longrightarrow> gc_function c = h \<and> (\<forall>v. continues (c, v) = P v))"

lemma offer_cases:
  obtains (old) "d_reported d" "play (offer ops h d) g s = ([], Inr d, s)"
  | (error) e s' where "\<not> d_reported d" "play (offer ops h d) g s = ([], Inl e, s')" "em_exceptions s' = em_exceptions s"
  | (new) ev s' where "\<not> d_reported d" "play (offer ops h d) g s = ([], Inr (d\<lparr>d_reported := True\<rparr>), s')"
      "em_exceptions s' = em_exceptions s @ [ev]" "fst (snd (snd ev)) = h"
proof (cases "d_reported d")
  case True
  then show thesis using old by (simp add: offer_def)
next
  case False
  have "silent (read_context ops (d_context d))" by (rule silent_records)
  then obtain r s1 where r: "play (read_context ops (d_context d)) g s = ([], r, s1)" "em_exceptions s1 = em_exceptions s"
    by (rule silentD)
  show thesis
  proof (cases r)
    case (Inl e)
    then show thesis using error [of e s1] False r by (simp add: offer_def play_gbind)
  next
    case (Inr ctx)
    let ?ev = "(d_code d, d_address d, h, register_state ctx,
      if is_memory_fault (d_code d) then Some (d_information d ! 1) else None)"
    show thesis
      using new [of "record_exception ?ev s1" ?ev] False r Inr
      by (simp add: offer_def play_gbind record_exception_def)
  qed
qed

lemma offer_call_ok:
  assumes "\<And>d. silent (C d)" "\<And>d'. d' = d\<lparr>d_reported := d_reported d'\<rparr> \<Longrightarrow> gives_call h P (C d')"
    and view: "\<And>d v. view (K d v) = (P v, d)"
  shows "search_ok view d (gbind (offer ops h d) (\<lambda>d. gbind (C d) (\<lambda>c. gbind (call c) (\<lambda>v. Ret (K d v)))))"
  unfolding search_ok_def
proof (intro allI impI)
  fix g s t r s'
  let ?m = "\<lambda>d. gbind (C d) (\<lambda>c. gbind (call c) (\<lambda>v. Ret (K d v)))"
  assume p: "play (gbind (offer ops h d) ?m) g s = (t, r, s')"
  let ?goal = "let v = map_sum id view r in verdicts t (taken_of v) \<and> same_exception d v \<and>
      (quiet_guest g \<longrightarrow> reports (d_reported d) (em_exceptions s) t (reported_of v) (em_exceptions s'))"
  have step: "(t = [] \<and> em_exceptions s' = em_exceptions s1 \<and> (\<exists>e. r = Inl e)) \<or>
      (\<exists>c v. t = [(c, v)] \<and> r = Inr (K d1 v) \<and> gc_function c = h \<and> continues (c, v) = P v \<and>
        (quiet_guest g \<longrightarrow> em_exceptions s' = em_exceptions s1))"
    if q: "play (?m d1) g s1 = (t, r, s')" and d1: "d1 = d\<lparr>d_reported := d_reported d1\<rparr>" for d1 s1
  proof -
    obtain rc s2 where c: "play (C d1) g s1 = ([], rc, s2)" "em_exceptions s2 = em_exceptions s1"
      using silentD [OF assms(1)] .
    have gives: "fst (snd (play (C d1) g s1)) = Inr c \<Longrightarrow> gc_function c = h \<and> (\<forall>v. continues (c, v) = P v)" for c
      using assms(2) [OF d1] by (simp add: gives_call_def)
    show ?thesis
    proof (cases rc)
      case (Inl e)
      then show ?thesis using q c by (auto simp: play_gbind)
    next
      case (Inr x)
      obtain v s3 where a: "g x s2 = (v, s3)" by (cases "g x s2")
      have "quiet_guest g \<longrightarrow> em_exceptions s3 = em_exceptions s2" using a by (metis quiet_guest_def snd_conv)
      then show ?thesis using q c a Inr gives [of x] by (auto simp: play_gbind)
    qed
  qed
  show ?goal
  proof (cases rule: offer_cases [of d ops h g s])
    case old
    then have "play (?m d) g s = (t, r, s')" using p by (simp add: play_gbind split: prod.splits)
    from step [OF this] old(1) show ?thesis
      by (auto simp: verdicts_def taken_of_def reported_of_def same_exception_def reports_def view)
  next
    case (error e s1)
    then have "t = []" "r = Inl e" "s' = s1" using p by (simp_all add: play_gbind)
    then show ?thesis using error
      by (simp add: verdicts_def taken_of_def reported_of_def same_exception_def reports_def)
  next
    case (new ev s1)
    then have "play (?m (d\<lparr>d_reported := True\<rparr>)) g s1 = (t, r, s')" using p by (simp add: play_gbind split: prod.splits)
    moreover obtain e1 e2 e4 e5 where "ev = (e1, e2, h, e4, e5)" using new(4) by (cases ev) auto
    ultimately show ?thesis using step [of "d\<lparr>d_reported := True\<rparr>" s1] new
      by (auto simp: verdicts_def taken_of_def reported_of_def same_exception_def reports_def view)
  qed
qed

lemma gives_call_of: "gives_call h (\<lambda>v. as_long v = -1) (Ret (guest_call_of h [p]))"
  by (simp add: gives_call_def guest_call_of_def continues_def)

lemma vectored_ok: "search_ok id d (vectored ops hs d)"
proof (induction hs arbitrary: d)
  case Nil
  then show ?case by (simp add: search_ok_Ret)
next
  case (Cons h hs)
  let ?one = "gbind (offer ops h d) (\<lambda>d. gbind (Ret (guest_call_of h [d_pointers d])) (\<lambda>c.
      gbind (call c) (\<lambda>v. Ret (as_long v = EXCEPTION_CONTINUE_EXECUTION, d))))"
  have one: "search_ok id d ?one"
    by (rule offer_call_ok [where P = "\<lambda>v. as_long v = -1"])
      (auto intro: silent_rules simp: EXCEPTION_CONTINUE_EXECUTION_def gives_call_of)
  have eq: "vectored ops (h # hs) d = gbind ?one (\<lambda>(b, d). if b then Ret (True, d) else vectored ops hs d)"
    by (simp add: gbind_assoc)
  show ?case
    unfolding eq using Cons.IH by (intro search_ok_bind [OF one]) (auto split: prod.splits)
qed

lemma call_handler_gives: "gives_call h (\<lambda>v. v = 0) (call_handler ops h rec reg ctx dc)"
  unfolding gives_call_def
proof (intro allI impI)
  fix g and s :: "'a emu" and c
  assume a: "fst (snd (play (call_handler ops h rec reg ctx dc) g s)) = Inr c"
  obtain bs s1 where b: "play (pack_words [em_cpu s ''Ebp'', 0, rec, reg, ctx, dc]) g s = ([], Inr bs, s1)"
    using a by (auto simp: call_handler_def reg_read_def play_gbind pack_words_def split: if_splits)
  obtain r s2 where r: "play (alloca ops bs) g s1 = ([], r, s2)" using silentD [OF silent_alloca] by metis
  show "gc_function c = h \<and> (\<forall>v. continues (c, v) = (v = 0))"
    using a b r by (cases r) (auto simp: call_handler_def reg_read_def play_gbind continues_def)
qed

lemma offer_registration_ok: "search_ok sum_view d (offer_registration ops rec ctx dc x d)"
proof -
  obtain reg nxt h where x: "x = (reg, nxt, h)" by (cases x) auto
  show ?thesis
    unfolding offer_registration_def x Let_def prod.case
    by (rule offer_call_ok [where P = "\<lambda>v. v = 0"])
      (auto simp: ExceptionContinueExecution_def call_handler_gives intro: silent_rules)
qed

lemma registrations_ok: "search_ok sum_view d (registrations n ops (offer_registration ops rec ctx dc) reg d)"
proof (induction n arbitrary: reg d)
  case 0
  then show ?case by (simp add: search_ok_Ret)
next
  case (Suc n)
  have "search_ok sum_view d (gbind (offer_registration ops rec ctx dc (reg, nxt, h) d) (\<lambda>x. case x of
      Inl b \<Rightarrow> Ret (Inl b) | Inr acc \<Rightarrow> registrations n ops (offer_registration ops rec ctx dc) nxt acc))" for nxt h
    using Suc.IH by (intro search_ok_bind [OF offer_registration_ok]) auto
  then show ?case
    by (auto simp: search_ok_Ret intro!: search_ok_silent silent_rules split: option.split)
qed

lemma offer_frame_ok: "search_ok sum_view d (offer_frame ops rec ctx unwound dc x d)"
proof -
  obtain frame_ctx fn info up where x: "x = (frame_ctx, fn, info, up)" by (cases x) auto
  let ?h = "fi_handler info"
  have "search_ok sum_view d (gbind (offer ops ?h d) (\<lambda>d.
      gbind (Ret (guest_call_of ?h [rec, fi_establisher_frame info, ctx, dc])) (\<lambda>c.
        gbind (call c) (\<lambda>v. Ret (if v = ExceptionContinueExecution then Inl d else Inr d)))))"
    by (rule offer_call_ok [where P = "\<lambda>v. v = 0"])
      (auto simp: ExceptionContinueExecution_def gives_call_def guest_call_of_def continues_def intro: silent_rules)
  then have one: "search_ok sum_view d (gbind (offer ops ?h d) (\<lambda>d.
      gbind (call (guest_call_of ?h [rec, fi_establisher_frame info, ctx, dc]))
        (\<lambda>v. Ret (if v = ExceptionContinueExecution then Inl d else Inr d))))"
    by simp
  show ?thesis
    unfolding offer_frame_def x Let_def prod.case
    by (cases "?h = 0") (auto simp: search_ok_Ret intro!: search_ok_silent silent_rules one)
qed

lemma walk_frames_ok: "search_ok sum_view d (walk_frames n ops ty (offer_frame ops rec cx unwound dc) ctx d)"
proof (induction n arbitrary: ctx d)
  case 0
  then show ?case by (simp add: search_ok_Ret)
next
  case (Suc n)
  have framed: "search_ok sum_view d (gbind (offer_frame ops rec cx unwound dc y d) (\<lambda>x. case x of
      Inl b \<Rightarrow> Ret (Inl b) | Inr acc \<Rightarrow> walk_frames n ops ty (offer_frame ops rec cx unwound dc) up acc))" for y up
    using Suc.IH by (intro search_ok_bind [OF offer_frame_ok]) auto
  have inner: "search_ok sum_view d (gbind (unwind_frame ops ctx)
      (\<lambda>ctx. walk_frames n ops ty (offer_frame ops rec cx unwound dc) ctx d))"
    using Suc.IH by (intro search_ok_silent silent_rules)
  have go: "search_ok sum_view d (gbind (gets (step_frame ops ty ctx)) (\<lambda>r. case r of
      Inl e \<Rightarrow> Fail (Other e)
    | Inr Stop \<Rightarrow> Ret (Inr d)
    | Inr (Leaf up) \<Rightarrow> walk_frames n ops ty (offer_frame ops rec cx unwound dc) up d
    | Inr (Framed fn info up) \<Rightarrow> gbind (offer_frame ops rec cx unwound dc (ctx, fn, info, up) d) (\<lambda>x. case x of
        Inl b \<Rightarrow> Ret (Inl b) | Inr acc \<Rightarrow> walk_frames n ops ty (offer_frame ops rec cx unwound dc) up acc)))"
    using Suc.IH framed
    by (intro search_ok_silent silent_rules) (auto simp: search_ok_Ret search_ok_Fail split: sum.split frame_step.split)
  show ?case unfolding walk_frames.simps Let_def using inner go by (simp add: search_ok_Ret)
qed

subsection \<open>The dispatch of an exception\<close>

text \<open>What both dispatchers do, with the search over the frames as a program.\<close>

definition dispatch_with ::
  "'m mem_ops \<Rightarrow> int \<Rightarrow> int \<Rightarrow> (dispatch \<Rightarrow> ('m, dispatch + dispatch) prog) \<Rightarrow> ('m, outcome) prog" where
  "dispatch_with ops rec ctx search =
     gbind (new_dispatch ops rec ctx) (\<lambda>d.
       gbind (gbind (gets em_veh) (\<lambda>hs. vectored ops hs d)) (\<lambda>(taken, d).
         if taken then resume_dispatch ops d
         else gbind (search d) (\<lambda>x. case x of Inl d \<Rightarrow> resume_dispatch ops d | Inr d \<Rightarrow> unhandled ops d)))"

text \<open>The guest goes on with the context that memory holds at \<open>a\<close> when the program ends.\<close>

definition context_at :: "'m mem_ops \<Rightarrow> 'm emu \<Rightarrow> int \<Rightarrow> outcome \<Rightarrow> bool" where
  "context_at ops s a out \<longleftrightarrow>
     (\<exists>bs. mo_read ops (em_mem s) a (int (struct_size (context_layout (em_amd64 s)))) = Inr bs \<and>
       out = Resumes (context_of (em_amd64 s) bs))"

text \<open>The flags of the record at an address.\<close>

definition record_flags :: "'m mem_ops \<Rightarrow> 'm emu \<Rightarrow> int \<Rightarrow> int option" where
  "record_flags ops s rec =
     (case mo_read ops (em_mem s) rec (int (struct_size (record_layout s))) of
        Inl _ \<Rightarrow> None | Inr bs \<Rightarrow> Some (struct_of (record_layout s) bs ''ExceptionFlags''))"

lemma new_dispatch_result:
  assumes "play (new_dispatch ops rec ctx) g s = (t, Inr d, s')"
  shows "t = [] \<and> em_exceptions s' = em_exceptions s \<and> \<not> d_reported d \<and> d_context d = ctx \<and>
    record_flags ops s rec = Some (d_flags d)"
proof -
  have "silent (new_dispatch ops rec ctx)" by (rule silent_records)
  then have "t = [] \<and> em_exceptions s' = em_exceptions s" using assms unfolding silent_def by (metis fst_conv snd_conv)
  moreover have "\<not> d_reported d \<and> d_context d = ctx \<and> record_flags ops s rec = Some (d_flags d)"
    using assms
    by (auto simp: new_dispatch_def read_record_def play_gbind mem_read_def record_flags_def split: sum.splits prod.splits)
  ultimately show ?thesis by simp
qed

lemma resume_dispatch_result:
  assumes "play (resume_dispatch ops d) g s = (t, r, s')"
  shows "t = [] \<and> em_exceptions s' = em_exceptions s \<and>
    (\<forall>out. r = Inr out \<longrightarrow> d_flags d AND EXCEPTION_NONCONTINUABLE = 0 \<and> context_at ops s' (d_context d) out)"
proof -
  have note_silent: "em_exceptions (note_resume pc z) = em_exceptions z" "em_mem (note_resume pc z) = em_mem z"
      "em_amd64 (note_resume pc z) = em_amd64 z" for pc and z :: "'a emu"
    by (simp_all add: note_resume_def split: option.split)
  have "silent (resume_dispatch ops d)"
    unfolding resume_dispatch_def resume_at_def by (intro silent_rules) (simp add: note_silent)
  then have "t = [] \<and> em_exceptions s' = em_exceptions s" using assms unfolding silent_def by (metis fst_conv snd_conv)
  moreover have "d_flags d AND EXCEPTION_NONCONTINUABLE = 0 \<and> context_at ops s' (d_context d) out" if "r = Inr out" for out
    using assms that
    by (auto simp: resume_dispatch_def resume_at_def read_context_def mem_read_def context_at_def note_silent play_gbind
        split: sum.splits prod.splits if_splits)
  ultimately show ?thesis by simp
qed

text \<open>A dispatch keeps its promises in a run \<open>(t, r)\<close> from \<open>s\<close> to \<open>s'\<close>: it continues the guest only after the last call
  asked for it, no earlier call did, and the exception is continuable; and it reports the exception at most once, for the
  handler that gets it first.\<close>

definition dispatch_ok :: "'m mem_ops \<Rightarrow> int \<Rightarrow> int \<Rightarrow> ('m, outcome) prog \<Rightarrow> bool" where
  "dispatch_ok ops rec ctx m \<longleftrightarrow>
     (\<forall>g s t r s'. play m g s = (t, r, s') \<longrightarrow>
        (\<forall>out. r = Inr out \<longrightarrow> context_at ops s' ctx out \<and> t \<noteq> [] \<and> continues (last t) \<and>
            (\<exists>f. record_flags ops s rec = Some f \<and> f AND EXCEPTION_NONCONTINUABLE = 0)) \<and>
        (\<forall>x\<in>set (butlast t). \<not> continues x) \<and>
        (quiet_guest g \<longrightarrow> em_exceptions s' = em_exceptions s \<and> t = [] \<or>
           (\<exists>e. em_exceptions s' = em_exceptions s @ [e] \<and> (t \<noteq> [] \<longrightarrow> fst (snd (snd e)) = gc_function (fst (hd t))))))"

text \<open>The filter as a search whose one handler is the filter.\<close>

definition filter_search :: "'m mem_ops \<Rightarrow> int \<Rightarrow> dispatch \<Rightarrow> ('m, bool \<times> dispatch) prog" where
  "filter_search ops f d = (if f = 0 then Ret (False, d) else vectored ops [f] d)"

lemma unhandled_eq:
  "unhandled ops d = gbind (gets em_top_filter) (\<lambda>f. gbind (filter_search ops f d) (\<lambda>(b, d).
     if b then resume_dispatch ops d else Fail (UnhandledException (d_code d) (d_address d) (d_information d))))"
proof -
  have "(\<lambda>d. gbind (call (guest_call_of f [d_pointers d])) (\<lambda>v.
      if as_long v = EXCEPTION_CONTINUE_EXECUTION then resume_dispatch ops d
      else Fail (UnhandledException (d_code d) (d_address d) (d_information d)))) =
    (\<lambda>d. gbind (call (guest_call_of f [d_pointers d])) (\<lambda>v.
      gbind (if as_long v = EXCEPTION_CONTINUE_EXECUTION then Ret (True, d) else Ret (False, d)) (\<lambda>(b, d).
        if b then resume_dispatch ops d else Fail (UnhandledException (d_code d) (d_address d) (d_information d)))))" for f
    by (intro ext) (simp add: gbind_if cong: if_cong)
  then show ?thesis
    by (simp add: unhandled_def filter_search_def gbind_assoc gbind_if cong: if_cong)
qed

lemma filter_search_ok: "search_ok id d (gbind (gets em_top_filter) (\<lambda>f. filter_search ops f d))"
proof -
  have "search_ok id d (filter_search ops f d)" for f
    unfolding filter_search_def using vectored_ok [of d ops "[f]"] by (cases "f = 0") (simp_all add: search_ok_Ret)
  then show ?thesis by (intro search_ok_silent silent_rules)
qed

lemma map_sum_id: "map_sum id id r = r"
  by (cases r) simp_all

locale handler_search =
  fixes ops :: "'m mem_ops" and search :: "dispatch \<Rightarrow> ('m, dispatch + dispatch) prog"
  assumes search_ok: "search_ok sum_view d (search d)"
begin

text \<open>The vectored handlers, the frames and the filter are one search.\<close>

definition whole :: "dispatch \<Rightarrow> ('m, bool \<times> dispatch) prog" where
  "whole d = gbind (gbind (gets em_veh) (\<lambda>hs. vectored ops hs d)) (\<lambda>(taken, d).
     if taken then Ret (True, d)
     else gbind (search d) (\<lambda>x. case x of
       Inl d \<Rightarrow> Ret (True, d) | Inr d \<Rightarrow> gbind (gets em_top_filter) (\<lambda>f. filter_search ops f d)))"

lemma whole_ok: "search_ok id d (whole d)"
proof -
  have v: "search_ok id d (gbind (gets em_veh) (\<lambda>hs. vectored ops hs d))"
    using vectored_ok by (intro search_ok_silent silent_rules)
  have f: "search_ok id d' (gbind (search d') (\<lambda>x. case x of
      Inl d \<Rightarrow> Ret (True, d) | Inr d \<Rightarrow> gbind (gets em_top_filter) (\<lambda>f. filter_search ops f d)))" for d'
    using filter_search_ok by (intro search_ok_bind [OF search_ok]) auto
  show ?thesis unfolding whole_def using f by (intro search_ok_bind [OF v]) auto
qed

lemma dispatch_with_eq:
  "dispatch_with ops rec ctx search = gbind (new_dispatch ops rec ctx) (\<lambda>d. gbind (whole d) (\<lambda>(b, d).
     if b then resume_dispatch ops d else Fail (UnhandledException (d_code d) (d_address d) (d_information d))))"
proof -
  have "(\<lambda>x. case x of Inl d \<Rightarrow> resume_dispatch ops d | Inr d \<Rightarrow> unhandled ops d) =
    (\<lambda>x. gbind (case x of Inl d \<Rightarrow> Ret (True, d) | Inr d \<Rightarrow> gbind (gets em_top_filter) (\<lambda>f. filter_search ops f d))
      (\<lambda>(b, d). if b then resume_dispatch ops d else Fail (UnhandledException (d_code d) (d_address d) (d_information d))))"
    by (intro ext) (simp add: unhandled_eq gbind_assoc split: sum.split)
  then show ?thesis
    unfolding dispatch_with_def whole_def gbind_assoc
    by (simp add: gbind_if gbind_assoc case_prod_unfold cong: if_cong)
qed

lemma dispatch_with_ok: "dispatch_ok ops rec ctx (dispatch_with ops rec ctx search)"
  unfolding dispatch_ok_def
proof (intro allI impI)
  fix g s t r s'
  assume p: "play (dispatch_with ops rec ctx search) g s = (t, r, s')"
  let ?goal = "(\<forall>out. r = Inr out \<longrightarrow> context_at ops s' ctx out \<and> t \<noteq> [] \<and> continues (last t) \<and>
      (\<exists>f. record_flags ops s rec = Some f \<and> f AND EXCEPTION_NONCONTINUABLE = 0)) \<and>
    (\<forall>x\<in>set (butlast t). \<not> continues x) \<and>
    (quiet_guest g \<longrightarrow> em_exceptions s' = em_exceptions s \<and> t = [] \<or>
      (\<exists>e. em_exceptions s' = em_exceptions s @ [e] \<and> (t \<noteq> [] \<longrightarrow> fst (snd (snd e)) = gc_function (fst (hd t)))))"
  obtain r1 s1 where n: "play (new_dispatch ops rec ctx) g s = ([], r1, s1)" "em_exceptions s1 = em_exceptions s"
    using silentD [OF silent_records(4)] .
  show ?goal
  proof (cases r1)
    case (Inl e)
    then have "t = []" "r = Inl e" "s' = s1" using p n by (simp_all add: dispatch_with_def play_gbind)
    then show ?thesis using n by simp
  next
    case (Inr d)
    note nd = new_dispatch_result [OF n(1) [unfolded Inr]]
    obtain t2 r2 s2 where w: "play (whole d) g s1 = (t2, r2, s2)" by (cases "play (whole d) g s1") auto
    have ok: "verdicts t2 (taken_of r2)" "same_exception d r2"
      "quiet_guest g \<Longrightarrow> reports (d_reported d) (em_exceptions s1) t2 (reported_of r2) (em_exceptions s2)"
      using whole_ok [of d] w by (auto simp: search_ok_def Let_def map_sum_id)
    have rep: "quiet_guest g \<longrightarrow> em_exceptions s2 = em_exceptions s \<and> t2 = [] \<or>
        (\<exists>e. em_exceptions s2 = em_exceptions s @ [e] \<and> (t2 \<noteq> [] \<longrightarrow> fst (snd (snd e)) = gc_function (fst (hd t2))))"
      using ok(3) nd n(2) by (auto simp: reports_def)
    have earlier: "\<forall>x\<in>set (butlast t2). \<not> continues x"
      using ok(1) by (auto simp: verdicts_def split: if_splits dest: in_set_butlastD)
    show ?thesis
    proof (cases r2)
      case Inl2: (Inl e)
      then have "t = t2" "r = Inl e" "s' = s2" using p n Inr w by (simp_all add: dispatch_with_eq play_gbind)
      then show ?thesis using rep earlier by simp
    next
      case Inr2: (Inr x)
      obtain b d2 where x: "x = (b, d2)" by (cases x)
      show ?thesis
      proof (cases b)
        case False
        then have "t = t2" "s' = s2" "\<exists>e. r = Inl e" using p n Inr w Inr2 x by (auto simp: dispatch_with_eq play_gbind)
        then show ?thesis using rep earlier by auto
      next
        case True
        obtain t3 where q: "play (resume_dispatch ops d2) g s2 = (t3, r, s')" "t = t2 @ t3"
          using p n Inr w Inr2 x True by (auto simp: dispatch_with_eq play_gbind split: prod.splits)
        note rd = resume_dispatch_result [OF q(1)]
        have "t = t2" "em_exceptions s' = em_exceptions s2" using rd q by simp_all
        moreover have "t2 \<noteq> []" "continues (last t2)" using ok(1) True by (simp_all add: verdicts_def taken_of_def Inr2 x)
        moreover have "d2 = d\<lparr>d_reported := d_reported d2\<rparr>" using ok(2) by (simp add: same_exception_def Inr2 x)
        from arg_cong [OF this, of d_flags] arg_cong [OF this, of d_context]
        have "d_flags d2 = d_flags d" "d_context d2 = d_context d" by simp_all
        ultimately show ?thesis using rd rep earlier nd by auto
      qed
    qed
  qed
qed

end

definition x86_search :: "'m mem_ops \<Rightarrow> int \<Rightarrow> int \<Rightarrow> dispatch \<Rightarrow> ('m, dispatch + dispatch) prog" where
  "x86_search ops rec ctx d =
     gbind (alloca ops (replicate 4 0)) (\<lambda>dc. walk_registrations ops (offer_registration ops rec ctx dc) d)"

definition x64_search :: "'m mem_ops \<Rightarrow> int \<Rightarrow> int \<Rightarrow> dispatch \<Rightarrow> ('m, dispatch + dispatch) prog" where
  "x64_search ops rec ctx_addr d =
     gbind (read_context ops ctx_addr) (\<lambda>ctx. gbind (alloca ops (context_bytes ctx)) (\<lambda>unwound.
       gbind (alloca ops (replicate (struct_size DISPATCHER_CONTEXT) 0)) (\<lambda>dc.
         walk_frames MAX_FRAMES ops UNW_FLAG_EHANDLER (offer_frame ops rec ctx_addr unwound dc) ctx d)))"

interpretation x86: handler_search ops "x86_search ops rec ctx" for ops rec ctx
  by unfold_locales
    (auto simp: x86_search_def walk_registrations_def intro!: search_ok_silent silent_rules registrations_ok)

interpretation x64: handler_search ops "x64_search ops rec ctx" for ops rec ctx
  by unfold_locales (auto simp: x64_search_def intro!: search_ok_silent silent_rules walk_frames_ok)

lemma dispatch_exception_with: "dispatch_exception ops rec ctx = dispatch_with ops rec ctx (x86_search ops rec ctx)"
  unfolding dispatch_exception_def dispatch_with_def x86_search_def gbind_assoc by (rule refl)

lemma dispatch_exception64_with: "dispatch_exception64 ops rec ctx = dispatch_with ops rec ctx (x64_search ops rec ctx)"
  unfolding dispatch_exception64_def dispatch_with_def x64_search_def gbind_assoc by (rule refl)

end
