(* ===== verification/Seh_Properties.thy ===== *)
theory Seh_Properties
  imports Seh_Search Guest_Memory
begin

text \<open>
  Properties of the exception dispatch: which answer of a handler continues the guest, what an unwind of an MSVC frame
  runs, where the data of a handler lies on the stack, and when a fault that no handler repairs is given up.
\<close>

subsection \<open>Dispatch\<close>

text \<open>C15: When the dispatch of an exception continues the guest, on x86 or x64, the last guest function that it called asked
  for that and none before it did, so the search stops at the first handler that takes the exception; the exception is
  continuable; and the guest continues with the context that the handlers left in memory.\<close>

theorem dispatch_accepts:
  assumes "m = dispatch_exception ops rec ctx \<or> m = dispatch_exception64 ops rec ctx"
    and "play m g s = (t, Inr out, s')"
  shows "t \<noteq> [] \<and> continues (last t) \<and> (\<forall>x\<in>set (butlast t). \<not> continues x) \<and> context_at ops s' ctx out \<and>
    (\<exists>f. record_flags ops s rec = Some f \<and> f AND EXCEPTION_NONCONTINUABLE = 0)"
proof -
  have "dispatch_ok ops rec ctx m"
    using assms(1) x86.dispatch_with_ok x64.dispatch_with_ok
    by (auto simp: dispatch_exception_with dispatch_exception64_with)
  then show ?thesis using assms(2) by (simp add: dispatch_ok_def)
qed

definition zero_ops :: "unit mem_ops" where
  "zero_ops = \<lparr>mo_read = (\<lambda>_ a n. Inr (replicate (nat n) 0)), mo_write = (\<lambda>_ a bs. Inr ()), mo_regions = (\<lambda>_. []),
     mo_module_base = (\<lambda>_ _. None), mo_teb_size = 4\<rparr>"

definition ex_frame :: frame where
  "ex_frame = (new_frame 0x12F000 0)\<lparr>fr_handler := Some \<lparr>hs_scratch = 0, hs_context = 0\<rparr>\<rparr>"

definition ex_emu :: "'m \<Rightarrow> 'm emu" where
  "ex_emu m = \<lparr>em_amd64 = False, em_mem = m, em_cpu = (\<lambda>_. 0), em_fpu = \<lparr>fp_sw = 0, fp_tag = 0, fp_regs = (\<lambda>_. (0, 0))\<rparr>,
     em_teb = None, em_debug = (\<lambda>_. 0), em_hardware = \<lparr>hb_hooks = [], hb_resume = None\<rparr>, em_kernel_mode = False,
     em_frames = [ex_frame], em_active = None, em_veh = [0x401000, 0x402000], em_top_filter = 0, em_tables = [],
     em_exceptions = [], em_returns = (\<lambda>_. None), em_last_fault = None, em_repeat = 0, em_resume_pc = None,
     em_error = None, em_ended = False\<rparr>"

text \<open>A guest whose handler at 0x402000 continues, and no other.\<close>

definition ex_guest :: "'m emu guest" where
  "ex_guest c s = (if gc_function c = 0x402000 then 0xFFFFFFFF else 0, s)"

lemma struct_of_zeros: "struct_of l (replicate n 0) = (\<lambda>_. 0)"
  by (induction l arbitrary: n) (simp_all add: fun_eq_iff)

lemma ex_dispatch:
  "\<exists>out s'. play (dispatch_exception zero_ops 0x1000 0x2000) ex_guest (ex_emu ()) =
     ([(guest_call_of 0x401000 [0x12EFF0], 0), (guest_call_of 0x402000 [0x12EFF0], 0xFFFFFFFF)], Inr out, s') \<and>
     length (em_exceptions s') = 1"
  by (simp add: dispatch_exception_def new_dispatch_def read_record_def pack_pointers_def pointers_bytes_def alloca_def
      offer_def read_context_def resume_dispatch_def resume_at_def mem_read_def mem_write_def play_gbind zero_ops_def
      ex_emu_def ex_guest_def ex_frame_def new_frame_def struct_of_zeros note_resume_def record_exception_def to_bytes_def
      ptr_size_def as_long_def signed_of_def EXCEPTION_CONTINUE_EXECUTION_def guest_call_of_def put_frame_def put_last_def
      alloca_address_def information_of_def)

theorem dispatch_accepts_witness:
  "\<exists>t out s'. play (dispatch_exception zero_ops 0x1000 0x2000) ex_guest (ex_emu ()) = (t, Inr out, s') \<and>
     length t = 2 \<and> continues (last t) \<and> context_at zero_ops s' 0x2000 out"
proof -
  obtain out s' where p: "play (dispatch_exception zero_ops 0x1000 0x2000) ex_guest (ex_emu ()) =
      ([(guest_call_of 0x401000 [0x12EFF0], 0), (guest_call_of 0x402000 [0x12EFF0], 0xFFFFFFFF)], Inr out, s')"
    using ex_dispatch by blast
  from dispatch_accepts [OF disjI1 [OF refl] this] show ?thesis using p by fastforce
qed

text \<open>C36: However the search of x86 or x64 ends, the exception is in the report at most once, for the first guest function
  that was called, as long as the guest functions raise no exceptions of their own; without an entry nothing was called.\<close>

theorem dispatch_reports_once:
  assumes "m = dispatch_exception ops rec ctx \<or> m = dispatch_exception64 ops rec ctx"
    and "play m g s = (t, r, s')" "quiet_guest g"
  shows "em_exceptions s' = em_exceptions s \<and> t = [] \<or>
    (\<exists>code address handler regs fault_address.
       em_exceptions s' = em_exceptions s @ [(code, address, handler, regs, fault_address)] \<and>
       (t \<noteq> [] \<longrightarrow> handler = gc_function (fst (hd t))))"
proof -
  have "dispatch_ok ops rec ctx m"
    using assms(1) x86.dispatch_with_ok x64.dispatch_with_ok
    by (auto simp: dispatch_exception_with dispatch_exception64_with)
  then have "em_exceptions s' = em_exceptions s \<and> t = [] \<or>
      (\<exists>e. em_exceptions s' = em_exceptions s @ [e] \<and> (t \<noteq> [] \<longrightarrow> fst (snd (snd e)) = gc_function (fst (hd t))))"
    unfolding dispatch_ok_def using assms(2,3) by blast
  then show ?thesis by (metis prod.collapse)
qed

theorem dispatch_reports_once_witness:
  "\<exists>t r s' e. play (dispatch_exception zero_ops 0x1000 0x2000) ex_guest (ex_emu ()) = (t, r, s') \<and> length t = 2 \<and>
     em_exceptions s' = [e] \<and> fst (snd (snd e)) = 0x401000"
proof -
  obtain out s' where p: "play (dispatch_exception zero_ops 0x1000 0x2000) ex_guest (ex_emu ()) =
      ([(guest_call_of 0x401000 [0x12EFF0], 0), (guest_call_of 0x402000 [0x12EFF0], 0xFFFFFFFF)], Inr out, s')"
    using ex_dispatch by blast
  have "quiet_guest (ex_guest :: unit emu guest)" by (simp add: quiet_guest_def ex_guest_def)
  from dispatch_reports_once [OF disjI1 [OF refl] p this] show ?thesis
    using p by (fastforce simp: ex_emu_def guest_call_of_def)
qed

subsection \<open>Buffers of a handler\<close>

text \<open>Several buffers, one after the other.\<close>

fun buffers :: "'m mem_ops \<Rightarrow> byte list list \<Rightarrow> ('m, int list) prog" where
  "buffers ops [] = Ret []"
| "buffers ops (d # ds) = gbind (alloca ops d) (\<lambda>a. gbind (buffers ops ds) (\<lambda>as. Ret (a # as)))"

text \<open>Where the stack of the guest calls of the newest frame starts.\<close>

definition handler_stack :: "'m emu \<Rightarrow> int option" where
  "handler_stack s = (if em_frames s = [] then None
     else map_option (\<lambda>h. fr_stack_pointer (last (em_frames s)) - hs_scratch h) (fr_handler (last (em_frames s))))"

lemma and_not_15: "x AND NOT 0xF \<le> x" "(x AND NOT 0xF) mod 16 = 0" for x :: int
proof -
  have "x AND NOT 0xF = x AND NOT (mask 4)" by (simp add: mask_eq_exp_minus_1)
  also have "\<dots> = push_bit 4 (drop_bit 4 x)" by (auto simp: bit_eq_iff bit_simps not_less)
  also have "\<dots> = x div 16 * 16" by (simp add: push_bit_eq_mult drop_bit_eq_div)
  finally have e: "x AND NOT 0xF = x div 16 * 16" .
  show "x AND NOT 0xF \<le> x" "(x AND NOT 0xF) mod 16 = 0" unfolding e by simp_all
qed

lemma alloca_result:
  assumes "play (alloca ops d) g s = (t, Inr a, s')" "handler_stack s = Some start_sp"
  shows "t = [] \<and> a mod 16 = 0 \<and> a + int (length d) \<le> start_sp \<and> handler_stack s' = Some a"
proof -
  obtain h where h: "em_frames s \<noteq> []" "fr_handler (last (em_frames s)) = Some h"
      "start_sp = fr_stack_pointer (last (em_frames s)) - hs_scratch h"
    using assms(2) by (auto simp: handler_stack_def split: if_splits)
  have a: "a = alloca_address (last (em_frames s)) h (int (length d))" "t = []"
      "em_frames s' = put_last (\<lambda>f. f\<lparr>fr_handler := Some (h\<lparr>hs_scratch := fr_stack_pointer f - a\<rparr>)\<rparr>) (em_frames s)"
    using assms(1) h
    by (auto simp: alloca_def Let_def play_gbind mem_write_def put_frame_def put_last_def split: sum.splits prod.splits)
  have "a \<le> start_sp - int (length d)" "a mod 16 = 0"
    using and_not_15 [of "start_sp - int (length d)"] by (simp_all add: a(1) alloca_address_def h(3))
  then show ?thesis using a h by (simp add: handler_stack_def put_last_def)
qed

text \<open>The buffers that a handler puts on the guest stack are 16-byte aligned and disjoint, each below the one before it
  and all below the stack pointer of the handler's frame, and the guest functions that the handler calls next get their stack
  below all of them.\<close>

theorem buffers_disjoint:
  assumes "handler_stack s = Some start_sp" "play (buffers ops ds) g s = (t, Inr as, s')"
  shows "t = [] \<and> length as = length ds \<and> (\<forall>i<length as. as ! i mod 16 = 0 \<and> as ! i + int (length (ds ! i)) \<le> start_sp) \<and>
    (\<forall>j<length as. \<forall>i<j. as ! j + int (length (ds ! j)) \<le> as ! i) \<and>
    (\<exists>low. handler_stack s' = Some low \<and> low \<le> start_sp \<and> (\<forall>a\<in>set as. low \<le> a))"
  using assms
proof (induction ds arbitrary: s start_sp t as)
  case (Cons d ds)
  obtain t1 a s1 where 1: "play (alloca ops d) g s = (t1, Inr a, s1)"
    using Cons.prems(2) by (auto simp: play_gbind split: prod.splits sum.splits)
  obtain t2 as2 where 2: "play (buffers ops ds) g s1 = (t2, Inr as2, s')" "as = a # as2" "t = t1 @ t2"
    using Cons.prems(2) 1 by (auto simp: play_gbind split: prod.splits sum.splits)
  note A = alloca_result [OF 1 Cons.prems(1)]
  have IH: "t2 = []" "length as2 = length ds" "\<And>i. i < length as2 \<Longrightarrow> as2 ! i mod 16 = 0 \<and> as2 ! i + int (length (ds ! i)) \<le> a"
      "\<And>i j. j < length as2 \<Longrightarrow> i < j \<Longrightarrow> as2 ! j + int (length (ds ! j)) \<le> as2 ! i"
    using Cons.IH [OF _ 2(1), of a] A by auto
  obtain low where low: "handler_stack s' = Some low" "low \<le> a" "\<forall>a\<in>set as2. low \<le> a"
    using Cons.IH [OF _ 2(1), of a] A by auto
  have "as ! i mod 16 = 0 \<and> as ! i + int (length ((d # ds) ! i)) \<le> start_sp" if "i < length as" for i
  proof (cases i)
    case (Suc k)
    then show ?thesis using A IH(3) [of k] that 2(2) by auto
  qed (use A 2(2) in simp)
  moreover have "as ! j + int (length ((d # ds) ! j)) \<le> as ! i" if "j < length as" "i < j" for i j
  proof (cases i)
    case 0
    then show ?thesis using that IH(3) [of "j - 1"] 2(2) by (auto simp: nth_Cons')
  next
    case (Suc k)
    then show ?thesis using that IH(4) [of "j - 1" k] 2(2) by (auto simp: nth_Cons')
  qed
  moreover have "low \<le> start_sp \<and> (\<forall>a\<in>set as. low \<le> a)" using low A 2(2) by auto
  ultimately show ?case using IH(1,2) A 2 low(1) by auto
qed (auto simp: handler_stack_def)

theorem buffers_disjoint_witness:
  "\<exists>t s'. play (buffers zero_ops [[1, 2, 3], [4, 5]]) ex_guest (ex_emu ()) = (t, Inr [0x12EFF0, 0x12EFE0], s') \<and>
     (\<exists>low. handler_stack s' = Some low \<and> low \<le> 0x12EFE0)"
proof -
  have h: "handler_stack (ex_emu ()) = Some 0x12F000"
    by (simp add: handler_stack_def ex_emu_def ex_frame_def new_frame_def)
  have "\<exists>t s'. play (buffers zero_ops [[1, 2, 3], [4, 5]]) ex_guest (ex_emu ()) = (t, Inr [0x12EFF0, 0x12EFE0], s')"
    by (simp add: alloca_def mem_write_def play_gbind zero_ops_def ex_emu_def ex_frame_def new_frame_def put_frame_def
        put_last_def alloca_address_def)
  then obtain t s' where p: "play (buffers zero_ops [[1, 2, 3], [4, 5]]) ex_guest (ex_emu ()) =
    (t, Inr [0x12EFF0, 0x12EFE0], s')" by blast
  from buffers_disjoint [OF h p] show ?thesis using p by auto
qed

subsection \<open>The unwind of an MSVC frame\<close>

text \<open>The scopes from a level outwards, up to the level \<open>stop\<close> or the outermost one: the address of each entry, its filter
  and its handler. There is no path when an entry is not readable or the scopes do not end within \<open>n\<close> rounds.\<close>

primrec scope_path ::
  "nat \<Rightarrow> 'm mem_ops \<Rightarrow> 'm \<Rightarrow> msvc_frame \<Rightarrow> int \<Rightarrow> int \<Rightarrow> (int \<times> int \<times> int) list option" where
  "scope_path 0 ops mem f stop level = None"
| "scope_path (Suc n) ops mem f stop level =
     (if level = mf_none f \<or> level = stop then Some []
      else case mo_read ops mem (mf_scope_table f + 12 * level) 12 of
             Inl _ \<Rightarrow> None
           | Inr bs \<Rightarrow> map_option ((#) (mf_scope_table f + 12 * level, le_val (take 4 (drop 4 bs)), le_val (drop 8 bs)))
               (scope_path n ops mem f stop (le_val (take 4 bs))))"

text \<open>The address of the try level, and a guest that writes neither to it nor to the entries of a path.\<close>

definition level_address :: "msvc_frame \<Rightarrow> int" where
  "level_address f = mf_registration f + TRY_LEVEL"

definition leaves_frame :: "'m mem_ops \<Rightarrow> msvc_frame \<Rightarrow> (int \<times> int \<times> int) list \<Rightarrow> 'm emu guest \<Rightarrow> bool" where
  "leaves_frame ops f path g \<longleftrightarrow>
     (\<forall>c s. mo_read ops (em_mem (snd (g c s))) (level_address f) 4 = mo_read ops (em_mem s) (level_address f) 4 \<and>
        (\<forall>(a, _, _)\<in>set path. mo_read ops (em_mem (snd (g c s))) a 12 = mo_read ops (em_mem s) a 12))"

lemma scope_path_cong:
  assumes "scope_path n ops mem f stop level = Some path" "\<forall>(a, _, _)\<in>set path. mo_read ops mem' a 12 = mo_read ops mem a 12"
  shows "scope_path n ops mem' f stop level = Some path"
  using assms
  by (induction n arbitrary: level path) (auto split: if_splits sum.splits)

lemma leaves_frame_tail: "leaves_frame ops f (x # path) g \<Longrightarrow> leaves_frame ops f path g"
  by (cases x) (auto simp: leaves_frame_def)

lemma unwind_loop_result:
  assumes "guest_memory (mo_read ops) (mo_write ops)"
    and "mo_read ops (em_mem s) (level_address f) 4 = Inr bs"
    and "scope_path n ops (em_mem s) f stop (le_val bs) = Some path"
    and "\<forall>(a, _, _)\<in>set path. a + 12 \<le> level_address f \<or> level_address f + 4 \<le> a"
    and "leaves_frame ops f path g"
    and "play (local_unwind_loop n ops f stop) g s = (t, r, s')"
  shows "r = Inr () \<and> map fst t = map (\<lambda>(_, _, h). frame_call f h) (filter (\<lambda>(_, filt, _). filt = 0) path) \<and>
    (\<exists>bs'. mo_read ops (em_mem s') (level_address f) 4 = Inr bs' \<and> (le_val bs' = mf_none f \<or> le_val bs' = stop))"
  using assms(2-)
proof (induction n arbitrary: s bs path t)
  case (Suc n)
  let ?la = "level_address f"
  note gm = assms(1)
  have get: "play (get_try_level ops f) g s = ([], Inr (le_val bs), s)"
    using Suc.prems(1) by (simp add: get_try_level_def read_u32_def mem_read_def level_address_def play_gbind)
  show ?case
  proof (cases "le_val bs = mf_none f \<or> le_val bs = stop")
    case True
    then show ?thesis using Suc.prems get by (auto simp: play_gbind)
  next
    case False
    let ?a = "mf_scope_table f + 12 * le_val bs"
    obtain sb where sb: "mo_read ops (em_mem s) ?a 12 = Inr sb" using Suc.prems(2) False by (auto split: sum.splits)
    define enc filt h where "enc = le_val (take 4 sb)" and "filt = le_val (take 4 (drop 4 sb))" and "h = le_val (drop 8 sb)"
    obtain path2 where p2: "path = (?a, filt, h) # path2" "scope_path n ops (em_mem s) f stop enc = Some path2"
      using Suc.prems(2) False sb by (auto simp: enc_def filt_def h_def)
    have "256 ^ length (take 4 sb) \<le> (256 ^ 4 :: int)" by (intro power_increasing) simp_all
    then have enc: "le_val (le_bytes 4 enc) = enc"
      using le_val_bounds [of "take 4 sb"] by (intro le_val_le_bytes_id) (simp_all add: enc_def)
    obtain mem1 where w: "mo_write ops (em_mem s) ?la (le_bytes 4 enc) = Inr mem1"
      using guest_memory.wr_ok [OF gm, of "em_mem s" ?la "le_bytes 4 enc"] Suc.prems(1) by auto
    define s1 where "s1 = s\<lparr>em_mem := mem1\<rparr>"
    have la1: "mo_read ops (em_mem s1) ?la 4 = Inr (le_bytes 4 enc)"
      using guest_memory.wr_rd_same [OF gm w] by (simp add: s1_def)
    have "\<forall>(a, _, _)\<in>set path2. mo_read ops (em_mem s1) a 12 = mo_read ops (em_mem s) a 12"
      using guest_memory.wr_rd_other [OF gm w] Suc.prems(3) p2(1) by (fastforce simp: s1_def)
    then have path1: "scope_path n ops (em_mem s1) f stop enc = Some path2" using scope_path_cong [OF p2(2)] by blast
    have leaves: "leaves_frame ops f path2 g" using Suc.prems(4) leaves_frame_tail unfolding p2(1) by blast
    have disj: "\<forall>(a, _, _)\<in>set path2. a + 12 \<le> ?la \<or> ?la + 4 \<le> a" using Suc.prems(3) p2(1) by auto
    have loop: "play (local_unwind_loop (Suc n) ops f stop) g s = play (if filt = 0
        then gbind (call (frame_call f h)) (\<lambda>_. local_unwind_loop n ops f stop) else local_unwind_loop n ops f stop) g s1"
      using get sb w False
      by (simp add: play_gbind scope_def mem_read_def set_try_level_def write_u32_def mem_write_def s1_def
          level_address_def enc_def filt_def h_def)
    show ?thesis
    proof (cases "filt = 0")
      case True
      obtain v s2 where g: "g (frame_call f h) s1 = (v, s2)" by (cases "g (frame_call f h) s1")
      have keep: "mo_read ops (em_mem s2) ?la 4 = Inr (le_bytes 4 enc)"
          "\<forall>(a, _, _)\<in>set path2. mo_read ops (em_mem s2) a 12 = mo_read ops (em_mem s1) a 12"
      proof -
        have "mo_read ops (em_mem (snd (g (frame_call f h) s1))) ?la 4 = mo_read ops (em_mem s1) ?la 4 \<and>
            (\<forall>(a, _, _)\<in>set path2. mo_read ops (em_mem (snd (g (frame_call f h) s1))) a 12 = mo_read ops (em_mem s1) a 12)"
          using leaves unfolding leaves_frame_def by blast
        then show "mo_read ops (em_mem s2) ?la 4 = Inr (le_bytes 4 enc)"
            "\<forall>(a, _, _)\<in>set path2. mo_read ops (em_mem s2) a 12 = mo_read ops (em_mem s1) a 12"
          using la1 by (simp_all add: g)
      qed
      obtain t2 where t2: "play (local_unwind_loop n ops f stop) g s2 = (t2, r, s')" "t = (frame_call f h, v) # t2"
        using Suc.prems(5) unfolding loop using True g by (auto simp: play_gbind split: prod.splits)
      have "scope_path n ops (em_mem s2) f stop (le_val (le_bytes 4 enc)) = Some path2"
        using scope_path_cong [OF path1 keep(2)] enc by simp
      from Suc.IH [OF keep(1) this disj leaves t2(1)] show ?thesis using True p2(1) t2(2) by simp
    next
      case nz: False
      have "play (local_unwind_loop n ops f stop) g s1 = (t, r, s')" using Suc.prems(5) unfolding loop using nz by simp
      from Suc.IH [OF la1 _ disj leaves this] show ?thesis using nz p2(1) path1 enc by simp
    qed
  qed
qed simp

text \<open>C17: The unwind of an MSVC frame runs the \<open>__finally\<close> block of every scope that it leaves, from the innermost to the
  outermost, each once and with the frame pointer of its function, and no filter; it ends at the level that the caller
  asked for or at the outermost level. It does so for every table with fewer than 4096 nested scopes that lies apart
  from the try level of the frame, whatever the blocks do, as long as they do not write to the two.\<close>

theorem local_unwind_runs_finally_blocks:
  assumes "guest_memory (mo_read ops) (mo_write ops)"
    and "mo_read ops (em_mem s) (level_address f) 4 = Inr bs"
    and "scope_path MAX_FRAMES ops (em_mem s) f stop (le_val bs) = Some path"
    and "\<forall>(a, _, _)\<in>set path. a + 12 \<le> level_address f \<or> level_address f + 4 \<le> a"
    and "leaves_frame ops f path g"
    and "play (local_unwind ops f stop) g s = (t, r, s')"
  shows "r = Inr () \<and> map fst t = map (\<lambda>(_, _, h). frame_call f h) (filter (\<lambda>(_, filt, _). filt = 0) path) \<and>
    (\<exists>bs'. mo_read ops (em_mem s') (level_address f) 4 = Inr bs' \<and> (le_val bs' = mf_none f \<or> le_val bs' = stop))"
  using unwind_loop_result [OF assms(1-5) assms(6) [unfolded local_unwind_def]] .

text \<open>A table of three nested scopes at address 0: two \<open>__finally\<close> blocks around an \<open>__except\<close> block.\<close>

definition ex_ops :: "byte_mem mem_ops" where
  "ex_ops = \<lparr>mo_read = bm_read, mo_write = bm_write, mo_regions = (\<lambda>_. []), mo_module_base = (\<lambda>_ _. None), mo_teb_size = 4\<rparr>"

definition ex_scopes :: byte_mem where
  "ex_scopes = bm_of 0 (concat (map (le_bytes 4) [0xFFFFFFFF, 0, 0x1000, 0, 0x2000, 0x2100, 1, 0, 0x3000, 0, 0, 0, 2]))"

definition ex_msvc :: msvc_frame where
  "ex_msvc = \<lparr>mf_registration = 36, mf_ebp = 52, mf_scope_table = 0, mf_none = 0xFFFFFFFF\<rparr>"

definition still_guest :: "'m emu guest" where "still_guest c s = (7, s)"

theorem local_unwind_runs_finally_blocks_witness:
  "\<exists>t s'. play (local_unwind ex_ops ex_msvc 0xFFFFFFFF) still_guest (ex_emu ex_scopes) = (t, Inr (), s') \<and>
     map fst t = [frame_call ex_msvc 0x3000, frame_call ex_msvc 0x1000]"
proof -
  obtain t r s' where p: "play (local_unwind ex_ops ex_msvc 0xFFFFFFFF) still_guest (ex_emu ex_scopes) = (t, r, s')"
    by (cases "play (local_unwind ex_ops ex_msvc 0xFFFFFFFF) still_guest (ex_emu ex_scopes)") auto
  let ?path = "[(24, 0, 0x3000), (12, 0x2000, 0x2100), (0, 0, 0x1000)]"
  have frames: "MAX_FRAMES = Suc (Suc (Suc (Suc 4092)))" by (simp add: MAX_FRAMES_def)
  have reads: "bm_read ex_scopes 24 12 = Inr [1, 0, 0, 0, 0, 0, 0, 0, 0, 0x30, 0, 0]"
      "bm_read ex_scopes 12 12 = Inr [0, 0, 0, 0, 0, 0x20, 0, 0, 0, 0x21, 0, 0]"
      "bm_read ex_scopes 0 12 = Inr [255, 255, 255, 255, 0, 0, 0, 0, 0, 0x10, 0, 0]"
      "bm_read ex_scopes 48 4 = Inr [2, 0, 0, 0]"
    by code_simp+
  have vals: "le_val [1, 0, 0, 0] = 1" "le_val [0, 0, 0, 0] = 0" "le_val [255, 255, 255, 255] = 0xFFFFFFFF"
      "le_val [2, 0, 0, 0] = 2" "le_val [0, 0x30, 0, 0] = 0x3000" "le_val [0, 0x20, 0, 0] = 0x2000"
      "le_val [0, 0x21, 0, 0] = 0x2100" "le_val [0, 0x10, 0, 0] = 0x1000"
    by code_simp+
  have mem: "em_mem (ex_emu ex_scopes) = ex_scopes" "mo_read ex_ops = bm_read" "mo_write ex_ops = bm_write"
      "level_address ex_msvc = 48"
    by (simp_all add: ex_emu_def ex_ops_def level_address_def ex_msvc_def TRY_LEVEL_def)
  have "scope_path (Suc (Suc (Suc (Suc n)))) ex_ops ex_scopes ex_msvc 0xFFFFFFFF 2 = Some ?path" for n
    using reads vals by (simp add: ex_msvc_def mem)
  then have path: "scope_path MAX_FRAMES ex_ops ex_scopes ex_msvc 0xFFFFFFFF 2 = Some ?path" unfolding frames .
  have "leaves_frame ex_ops ex_msvc ?path still_guest" by (simp add: leaves_frame_def still_guest_def)
  from local_unwind_runs_finally_blocks 
    [where bs = "[2, 0, 0, 0]", OF _ _ _ _ this p]
  show ?thesis using p path reads by (simp add: mem vals bm.guest_memory_axioms)
qed

subsection \<open>Repeated faults\<close>

text \<open>One round of a program that faults: the address of the fault, the faulting address, the address at which the handler
  continues and the instructions that run until the next fault. \<open>at_pc\<close> is the state at an address. The dispatch itself
  leaves the repeat count alone.\<close>

type_synonym fault_round = "int \<times> int option \<times> int \<times> int list"

definition at_pc :: "int \<Rightarrow> 'm emu \<Rightarrow> 'm emu" where
  "at_pc pc s = s\<lparr>em_cpu := (em_cpu s)(pc_name s := pc)\<rparr>"

fun fault_rounds :: "fault_round list \<Rightarrow> 'm emu \<Rightarrow> bool list" where
  "fault_rounds [] s = []"
| "fault_rounds ((pc, faulting_address, resume_pc, instructions) # rounds) s =
     (case count_fault faulting_address (at_pc pc s) of
        (False, s) \<Rightarrow> [False]
      | (True, s) \<Rightarrow> True # fault_rounds rounds (fold note_instruction instructions (note_resume resume_pc s)))"

text \<open>The rounds before, newest first, in which the same fault occurred and the guest did not leave its address.\<close>

fun stuck :: "fault_round \<Rightarrow> bool" where
  "stuck (pc, _, resume_pc, instructions) \<longleftrightarrow> resume_pc = pc \<and> (\<forall>a\<in>set instructions. a = pc)"

fun fault_key :: "fault_round \<Rightarrow> int \<times> int option" where
  "fault_key (pc, faulting_address, _, _) = (pc, faulting_address)"

fun streak :: "int \<times> int option \<Rightarrow> fault_round list \<Rightarrow> nat" where
  "streak key [] = 0"
| "streak key (c # past) = (if fault_key c = key \<and> stuck c then Suc (streak key past) else 0)"

definition counts :: "'m emu \<Rightarrow> fault_round list \<Rightarrow> bool" where
  "counts s past \<longleftrightarrow> (\<forall>key. streak key past = (if em_last_fault s = Some key then em_repeat s else 0))"

lemma fold_instructions:
  assumes "em_resume_pc s = None \<or> em_resume_pc s = Some pc" "em_last_fault s = None \<longleftrightarrow> em_resume_pc s = None"
  shows "em_last_fault (fold note_instruction is s) =
      (if \<forall>a\<in>set is. a = pc then em_last_fault s else None) \<and>
    (em_last_fault (fold note_instruction is s) \<noteq> None \<longrightarrow> em_repeat (fold note_instruction is s) = em_repeat s)"
  using assms by (induction "is" arbitrary: s) (auto simp: note_instruction_def)

lemma round_counts:
  assumes "counts s past" "count_fault fa (at_pc pc s) = (b, s1)"
  shows "b \<longleftrightarrow> streak (pc, fa) past < 3"
    and "counts (fold note_instruction is (note_resume rpc s1)) ((pc, fa, rpc, is) # past)"
proof -
  have key: "em_last_fault s1 = Some (pc, fa)" "em_repeat s1 = Suc (streak (pc, fa) past)" "em_resume_pc s1 = None"
      "b \<longleftrightarrow> streak (pc, fa) past < 3"
    using assms
    by (auto simp: count_fault_def at_pc_def counts_def SEH_MAX_REPEAT_def pc_name_def Let_def split: if_splits)
  then show "b \<longleftrightarrow> streak (pc, fa) past < 3" by simp
  let ?s = "note_resume rpc s1"
  have n: "em_last_fault ?s = (if rpc = pc then Some (pc, fa) else None)"
      "em_resume_pc ?s = (if rpc = pc then Some pc else None)" "rpc = pc \<Longrightarrow> em_repeat ?s = em_repeat s1"
    using key by (simp_all add: note_resume_def)
  have "em_last_fault (fold note_instruction is ?s) = (if stuck (pc, fa, rpc, is) then Some (pc, fa) else None)"
      "stuck (pc, fa, rpc, is) \<Longrightarrow> em_repeat (fold note_instruction is ?s) = Suc (streak (pc, fa) past)"
    using fold_instructions [of ?s pc "is"] n key(2) by (auto split: if_splits)
  then show "counts (fold note_instruction is ?s) ((pc, fa, rpc, is) # past)"
    unfolding counts_def
  proof (intro allI)
    fix key assume "em_last_fault (fold note_instruction is ?s) = (if stuck (pc, fa, rpc, is) then Some (pc, fa) else None)"
      "stuck (pc, fa, rpc, is) \<Longrightarrow> em_repeat (fold note_instruction is ?s) = Suc (streak (pc, fa) past)"
    then show "streak key ((pc, fa, rpc, is) # past) = (if em_last_fault (fold note_instruction is ?s) = Some key
        then em_repeat (fold note_instruction is ?s) else 0)"
      by (cases "stuck (pc, fa, rpc, is)"; cases "key = (pc, fa)") (auto simp del: stuck.simps)
  qed
qed

lemma fault_rounds_result:
  assumes "counts s past"
  shows "i < length (fault_rounds rounds s) \<Longrightarrow>
      fault_rounds rounds s ! i \<longleftrightarrow> streak (fault_key (rounds ! i)) (rev (take i rounds) @ past) < 3"
    and "length (fault_rounds rounds s) = length rounds \<or> (fault_rounds rounds s \<noteq> [] \<and> \<not> last (fault_rounds rounds s))"
proof -
  have "(i < length (fault_rounds rounds s) \<longrightarrow>
      fault_rounds rounds s ! i = (streak (fault_key (rounds ! i)) (rev (take i rounds) @ past) < 3)) \<and>
    (length (fault_rounds rounds s) = length rounds \<or> (fault_rounds rounds s \<noteq> [] \<and> \<not> last (fault_rounds rounds s)))"
    using assms
  proof (induction rounds arbitrary: s past i)
    case (Cons c rounds)
    obtain pc fa rpc instr where c: "c = (pc, fa, rpc, instr)" by (cases c) auto
    obtain b s1 where cf: "count_fault fa (at_pc pc s) = (b, s1)" by (cases "count_fault fa (at_pc pc s)")
    note r = round_counts [OF Cons.prems cf]
    show ?case
    proof (cases b)
      case True
      then show ?thesis
        using Cons.IH [OF r(2) [of instr rpc], of "i - 1"] r(1) cf by (cases i) (auto simp: c)
    next
      case False
      then show ?thesis using r(1) cf by (auto simp: c)
    qed
  qed simp
  then show "i < length (fault_rounds rounds s) \<Longrightarrow>
      fault_rounds rounds s ! i \<longleftrightarrow> streak (fault_key (rounds ! i)) (rev (take i rounds) @ past) < 3"
    and "length (fault_rounds rounds s) = length rounds \<or> (fault_rounds rounds s \<noteq> [] \<and> \<not> last (fault_rounds rounds s))"
    by blast+
qed

text \<open>C32: A fault is sent to the guest handlers unless the same fault occurred in the three rounds before it and the guest
  never left its address in them; then it is given up, and nothing else gives a fault up. So a handler that does not repair
  its fault runs three times, and a program that gets on is never stopped.\<close>

theorem repeated_fault_given_up:
  assumes "em_last_fault s = None" "i < length (fault_rounds rounds s)"
  shows "(fault_rounds rounds s ! i \<longleftrightarrow> streak (fault_key (rounds ! i)) (rev (take i rounds)) < 3) \<and>
    (length (fault_rounds rounds s) = length rounds \<or> \<not> last (fault_rounds rounds s))"
proof -
  have "counts s []" using assms(1) by (simp add: counts_def)
  from fault_rounds_result [OF this] assms(2) show ?thesis by auto
qed

text \<open>Four faults at one address that the handler does not repair, after one at another address that it does.\<close>

theorem repeated_fault_given_up_witness:
  "fault_rounds ((0x1000, Some 0, 0x1002, [0x1002]) # replicate 5 (0x1002, Some 0, 0x1002, [0x1002])) (ex_emu ()) =
     [True, True, True, True, False] \<and>
   \<not> streak (0x1002, Some 0) (replicate 3 (0x1002, Some 0, 0x1002, [0x1002]) @ [(0x1000, Some 0, 0x1002, [0x1002])]) < 3"
proof -
  let ?rounds = "(0x1000, Some 0, 0x1002, [0x1002]) # replicate 5 (0x1002, Some 0, 0x1002, [0x1002])"
  have r: "fault_rounds ?rounds (ex_emu ()) = [True, True, True, True, False]"
    by (simp add: count_fault_def at_pc_def ex_emu_def SEH_MAX_REPEAT_def pc_name_def note_resume_def note_instruction_def
        eval_nat_numeral)
  have "em_last_fault (ex_emu ()) = None" by (simp add: ex_emu_def)
  from repeated_fault_given_up [OF this, of 4 ?rounds] r show ?thesis by (simp add: eval_nat_numeral)
qed

end
