(* ===== verification/Exn.thy ===== *)
theory Exn
  imports Prelude
begin

text \<open>
  Methods of an object that change its state and may raise: functions from a state to a result or an exception and the
  new state, which keeps the changes made before an exception. The locale \<open>state_preorder\<close> has the rules for relations
  between the first and the last state of a method, such as its invariants.
\<close>

type_synonym ('s, 'e, 'a) exn = "'s \<Rightarrow> ('e + 'a) \<times> 's"

definition ereturn :: "'a \<Rightarrow> ('s, 'e, 'a) exn" where "ereturn x s = (Inr x, s)"
definition eraise :: "'e \<Rightarrow> ('s, 'e, 'a) exn" where "eraise e s = (Inl e, s)"
definition eget :: "('s \<Rightarrow> 'a) \<Rightarrow> ('s, 'e, 'a) exn" where "eget f s = (Inr (f s), s)"
definition emod :: "('s \<Rightarrow> 's) \<Rightarrow> ('s, 'e, unit) exn" where "emod f s = (Inr (), f s)"

definition ebind :: "('s, 'e, 'a) exn \<Rightarrow> ('a \<Rightarrow> ('s, 'e, 'b) exn) \<Rightarrow> ('s, 'e, 'b) exn" where
  "ebind m f s = (case m s of (Inl e, s) \<Rightarrow> (Inl e, s) | (Inr x, s) \<Rightarrow> f x s)"

definition eseq :: "('s, 'e, 'a) exn \<Rightarrow> ('s, 'e, 'b) exn \<Rightarrow> ('s, 'e, 'b) exn" where
  "eseq m n = ebind m (\<lambda>_. n)"

definition eif :: "('s \<Rightarrow> bool) \<Rightarrow> ('s, 'e, 'a) exn \<Rightarrow> ('s, 'e, 'a) exn \<Rightarrow> ('s, 'e, 'a) exn" where
  "eif c m n s = (if c s then m s else n s)"

text \<open>\<open>try\<close> with a handler for some exceptions, and \<open>finally\<close>, which an exception of the predicate \<open>stuck\<close> skips: it
  stands for a computation that goes on.\<close>

definition etry :: "('s, 'e, 'a) exn \<Rightarrow> ('e \<Rightarrow> ('s, 'e, 'a) exn option) \<Rightarrow> ('s, 'e, 'a) exn" where
  "etry m h s = (case m s of
     (Inl e, s) \<Rightarrow> (case h e of None \<Rightarrow> (Inl e, s) | Some n \<Rightarrow> n s)
   | (Inr x, s) \<Rightarrow> (Inr x, s))"

definition efinally :: "('e \<Rightarrow> bool) \<Rightarrow> ('s, 'e, 'a) exn \<Rightarrow> ('s, 'e, unit) exn \<Rightarrow> ('s, 'e, 'a) exn" where
  "efinally stuck m f s = (case m s of
     (Inl e, s) \<Rightarrow> (if stuck e then (Inl e, s) else ebind f (\<lambda>_. eraise e) s)
   | (Inr x, s) \<Rightarrow> ebind f (\<lambda>_. ereturn x) s)"

text \<open>\<open>each f xs\<close> runs \<open>f\<close> on the elements in order.\<close>

primrec each :: "('a \<Rightarrow> ('s, 'e, unit) exn) \<Rightarrow> 'a list \<Rightarrow> ('s, 'e, unit) exn" where
  "each f [] = ereturn ()"
| "each f (x # xs) = eseq (f x) (each f xs)"

lemma run_basic [simp]:
  "ereturn x s = (Inr x, s)" "eraise e s = (Inl e, s)" "eget f s = (Inr (f s), s)" "emod g s = (Inr (), g s)"
  by (simp_all add: ereturn_def eraise_def eget_def emod_def)

subsection \<open>Relations between the first and the last state\<close>

text \<open>Every run of the method moves the state along the relation.\<close>

definition moves :: "('s \<Rightarrow> 's \<Rightarrow> bool) \<Rightarrow> ('s, 'e, 'a) exn \<Rightarrow> bool" where
  "moves R m \<longleftrightarrow> (\<forall>s. R s (snd (m s)))"

lemma movesD: "moves R m \<Longrightarrow> m s = (r, s') \<Longrightarrow> R s s'"
  by (metis moves_def snd_conv)

lemma moves_emod: "(\<And>s. R s (f s)) \<Longrightarrow> moves R (emod f)"
  by (simp add: moves_def)

text \<open>A preorder on states gives a rule for each way to build a method. An invariant is the preorder of implication.\<close>

locale state_preorder =
  fixes R :: "'s \<Rightarrow> 's \<Rightarrow> bool"
  assumes refl: "R s s" and trans: "R s t \<Longrightarrow> R t u \<Longrightarrow> R s u"
begin

lemma moves_basic: "moves R (ereturn x)" "moves R (eraise e)" "moves R (eget f)"
  by (simp_all add: moves_def refl)

lemma moves_ebind:
  assumes "moves R m" "\<And>x. moves R (f x)"
  shows "moves R (ebind m f)"
  unfolding moves_def
proof (intro allI)
  fix s
  obtain r t where m: "m s = (r, t)" by (cases "m s")
  then have "R s t" using movesD [OF assms(1)] by blast
  then show "R s (snd (ebind m f s))"
    using m assms(2) trans by (cases r) (auto simp: ebind_def moves_def)
qed

lemma moves_eseq: "moves R m \<Longrightarrow> moves R n \<Longrightarrow> moves R (eseq m n)"
  by (simp add: eseq_def moves_ebind)

lemma moves_cases:
  "moves R m \<Longrightarrow> moves R n \<Longrightarrow> moves R (eif b m n)"
  "moves R m \<Longrightarrow> moves R n \<Longrightarrow> moves R (if c then m else n)"
  "moves R m \<Longrightarrow> (\<And>x. moves R (f x)) \<Longrightarrow> moves R (case z of None \<Rightarrow> m | Some x \<Rightarrow> f x)"
  "(\<And>x y. moves R (g x y)) \<Longrightarrow> moves R (case p of (x, y) \<Rightarrow> g x y)"
  "(\<And>x. moves R (k x)) \<Longrightarrow> moves R (let x = y in k x)"
  by (cases z; cases p; simp add: moves_def eif_def)+

lemma moves_etry:
  assumes "moves R m" "\<And>e n. h e = Some n \<Longrightarrow> moves R n"
  shows "moves R (etry m h)"
  unfolding moves_def
proof (intro allI)
  fix s
  obtain r t where m: "m s = (r, t)" by (cases "m s")
  then have "R s t" using movesD [OF assms(1)] by blast
  then show "R s (snd (etry m h s))"
    using m assms(2) trans by (cases r) (auto simp: etry_def moves_def split: option.split)
qed

lemma moves_efinally:
  assumes "moves R m" "moves R f"
  shows "moves R (efinally stuck m f)"
  unfolding moves_def
proof (intro allI)
  fix s
  obtain r t where m: "m s = (r, t)" by (cases "m s")
  obtain r' u where f: "f t = (r', u)" by (cases "f t")
  have "R s t" "R s u" using m f movesD [OF assms(1)] movesD [OF assms(2)] trans by blast+
  then show "R s (snd (efinally stuck m f s))"
    using m f by (cases r; cases r') (auto simp: efinally_def ebind_def)
qed

lemma moves_each: "(\<And>x. moves R (f x)) \<Longrightarrow> moves R (each f xs)"
  by (induction xs) (auto intro: moves_basic moves_eseq)

lemmas rules = moves_basic moves_ebind moves_eseq moves_cases moves_etry moves_efinally moves_each

end

interpretation invariant: state_preorder "\<lambda>s t. I s \<longrightarrow> I t" for I
  by unfold_locales auto

text \<open>The final state of a run keeps an invariant.\<close>

lemma invariantD: "moves (\<lambda>s t. I s \<longrightarrow> I t) m \<Longrightarrow> I s \<Longrightarrow> m s = (r, s') \<Longrightarrow> I s'"
  using movesD [of "\<lambda>s t. I s \<longrightarrow> I t"] by blast

subsection \<open>Triples\<close>

text \<open>From \<open>P\<close>, a result \<open>x\<close> comes with \<open>Q x\<close> and an exception with \<open>R\<close>.\<close>

definition ensures :: "('s \<Rightarrow> bool) \<Rightarrow> ('s, 'e, 'a) exn \<Rightarrow> ('a \<Rightarrow> 's \<Rightarrow> bool) \<Rightarrow> ('s \<Rightarrow> bool) \<Rightarrow> bool" where
  "ensures P m Q R \<longleftrightarrow> (\<forall>s. P s \<longrightarrow> (case m s of (Inr x, s') \<Rightarrow> Q x s' | (Inl e, s') \<Rightarrow> R s'))"

lemma ensures_basic:
  "(\<And>s. P s \<Longrightarrow> Q x s) \<Longrightarrow> ensures P (ereturn x) Q R"
  "(\<And>s. P s \<Longrightarrow> R s) \<Longrightarrow> ensures P (eraise e) Q R"
  "(\<And>s. P s \<Longrightarrow> Q (g s) s) \<Longrightarrow> ensures P (eget g) Q R"
  "(\<And>s. P s \<Longrightarrow> Q () (h s)) \<Longrightarrow> ensures P (emod h) Q R"
  by (simp_all add: ensures_def)

lemma ensures_ebind:
  "\<lbrakk>ensures P m Q R; \<And>x. ensures (Q x) (f x) Q' R\<rbrakk> \<Longrightarrow> ensures P (ebind m f) Q' R"
  unfolding ensures_def ebind_def by (fastforce split: prod.splits sum.splits)

lemma ensures_eseq:
  "\<lbrakk>ensures P m (\<lambda>_. Q) R; ensures Q n Q' R\<rbrakk> \<Longrightarrow> ensures P (eseq m n) Q' R"
  unfolding eseq_def by (rule ensures_ebind)

lemma ensures_raise: "ensures P (eraise e) Q P"
  by (simp add: ensures_def)

lemma ensures_eget: "(\<And>x. ensures P (f x) Q R) \<Longrightarrow> ensures P (ebind (eget g) f) Q R"
  by (simp add: ensures_def ebind_def)

lemma ensures_weaken:
  "\<lbrakk>ensures P m Q R; \<And>s. P' s \<Longrightarrow> P s; \<And>x s. Q x s \<Longrightarrow> Q' x s; \<And>s. R s \<Longrightarrow> R' s\<rbrakk> \<Longrightarrow> ensures P' m Q' R'"
  unfolding ensures_def by (fastforce split: prod.splits sum.splits)

lemma ensures_eif:
  "\<lbrakk>ensures (\<lambda>s. P s \<and> c s) m Q R; ensures (\<lambda>s. P s \<and> \<not> c s) n Q R\<rbrakk> \<Longrightarrow> ensures P (eif c m n) Q R"
  unfolding ensures_def eif_def by simp

lemma ensures_each:
  "(\<And>x. ensures P (f x) (\<lambda>_. P) P) \<Longrightarrow> ensures P (each f xs) (\<lambda>_. P) P"
  by (induction xs) (auto intro: ensures_basic ensures_eseq)

lemma ensuresD: "ensures P m Q R \<Longrightarrow> P s \<Longrightarrow> m s = (Inr x, s') \<Longrightarrow> Q x s'"
  unfolding ensures_def by fastforce

lemma ensures_snd: "ensures P m (\<lambda>_. P) P \<Longrightarrow> P s \<Longrightarrow> P (snd (m s))"
  unfolding ensures_def by (fastforce split: prod.splits sum.splits)

lemma ensures_etry:
  "\<lbrakk>ensures P m Q R'; \<And>e n. h e = Some n \<Longrightarrow> ensures R' n Q R; \<And>s. R' s \<Longrightarrow> R s\<rbrakk> \<Longrightarrow> ensures P (etry m h) Q R"
  unfolding ensures_def etry_def by (fastforce split: prod.splits sum.splits option.splits)

text \<open>A predicate that a method keeps, whether it returns or raises.\<close>

definition stays :: "('s \<Rightarrow> bool) \<Rightarrow> ('s, 'e, 'a) exn \<Rightarrow> bool" where
  "stays P m \<longleftrightarrow> ensures P m (\<lambda>_. P) P"

lemma stays_rules:
  "stays P (ereturn x)" "stays P (eraise e)" "stays P (eget g)"
  "stays P m \<Longrightarrow> (\<And>x. stays P (f x)) \<Longrightarrow> stays P (ebind m f)"
  "stays P m \<Longrightarrow> stays P n \<Longrightarrow> stays P (eseq m n)"
  "stays P m \<Longrightarrow> (\<And>e n. h e = Some n \<Longrightarrow> stays P n) \<Longrightarrow> stays P (etry m h)"
  unfolding stays_def
  by (auto intro: ensures_ebind ensures_eseq ensures_etry simp: ensures_def [of _ "ereturn x"] ensures_def [of _ "eraise e"]
      ensures_def [of _ "eget g"])

end
