(* ===== verification/Runs.thy ===== *)
theory Runs
  imports Complex_Main Exn Seh32 Seh64 Gdb
begin

text \<open>
  The runs of the emulator (\<^verbatim>\<open>speakeasy/windows/winemu.py\<close>, with \<^verbatim>\<open>profiler.py\<close>, \<^verbatim>\<open>module_loader.py\<close>
  and \<open>on_run_complete\<close> of \<^verbatim>\<open>win32.py\<close>): the queue, the preparation and the end of a run, the threads that wait in
  it, and the initializers of loaded DLLs. The guest of the current run is the state of theory \<open>Guest_Callbacks\<close>. A run
  is an index of \<open>lp_heap\<close>, a thread, a process and a module are numbers.
\<close>

subsection \<open>State\<close>

text \<open>The fields of \<open>ErrorInfo\<close> without the description of the machine.\<close>

record run_error =
  re_type :: string
  re_pc :: int
  re_address :: "int option"
  re_count :: "int option"

datatype load_state = Initializing | Ready_to_run | Init_error

record init_routine =
  ir_module :: nat
  ir_address :: int
  ir_is_entry :: bool
  ir_is_last :: bool
  ir_pid :: nat

text \<open>A DLL whose initializers the loader may run: \<open>dl_loaded\<close> says that it is in the module list, \<open>dl_pids\<close> in which
  processes it is listed.\<close>

record guest_dll =
  dl_module :: nat
  dl_base :: int
  dl_entry :: int
  dl_callbacks :: "int list"
  dl_loaded :: bool
  dl_pids :: "nat list"

text \<open>
  \<open>gr_executed\<close> is no field of \<^verbatim>\<open>Run\<close>: it counts the instructions that the engine executed in the calls of the loop
  for the run. The engine raises it, and no method of the emulator reads it.
\<close>

record guest_run =
  gr_type :: string
  gr_start :: "int option"
  gr_args :: "int list"
  gr_registers :: "(string \<times> int) list"
  gr_process :: "nat option"
  gr_thread :: "nat option"
  gr_routine :: "init_routine option"
  gr_error :: "run_error option"
  gr_return :: "int option"
  gr_elapsed :: rat
  gr_budget :: int
  gr_instructions :: nat
  gr_apis :: nat
  gr_executed :: nat

definition new_run :: "string \<Rightarrow> int option \<Rightarrow> int list \<Rightarrow> guest_run" where
  "new_run kind address args = \<lparr>gr_type = kind, gr_start = address, gr_args = args, gr_registers = [], gr_process = None,
     gr_thread = None, gr_routine = None, gr_error = None, gr_return = None, gr_elapsed = 0, gr_budget = 0,
     gr_instructions = 0, gr_apis = 0, gr_executed = 0\<rparr>"

text \<open>An entry of the API registry, and the reasons why the engine stopped.\<close>

record api_entry =
  ae_address :: int
  ae_trap :: "int option"
  ae_dll :: string
  ae_name :: string

record raised =
  ra_exception :: cpu_exception
  ra_error_type :: string
  ra_interrupt :: "int option"
  ra_access :: "string option"
  ra_rax :: "int option"
  ra_guard :: "(int \<times> int) option"

datatype native_exit =
    Suspended_api_call api_entry int "byte list option" "byte list option"
  | Run_return
  | Callback_return
  | Fault_return
  | Exec_recovery int int
  | Raised_exception raised

record total_budget =
  tb_limit :: rat
  tb_elapsed :: rat
  tb_exhausted :: bool

text \<open>\<open>rl_origin\<close> is the run of the call, for which the accounting hook counts.\<close>

record run_limits =
  rl_origin :: nat
  rl_started :: rat
  rl_spent :: rat
  rl_timeout :: rat
  rl_deadline :: "rat option"
  rl_kind :: string
  rl_total :: bool
  rl_budget :: int
  rl_remaining :: int
  rl_last :: "int option"

text \<open>The local variables of \<open>_execute_runs\<close> that an exception keeps.\<close>

record run_locals =
  rv_action :: resume_action
  rv_detached :: "int option"
  rv_signal :: nat

text \<open>The emulator. \<open>lp_time\<close> counts the readings of the clock, \<open>lp_limits\<close> and \<open>lp_locals\<close> belong to the innermost call
  of the loop, \<open>lp_debugger\<close> is the GDB session of the call of \<open>start\<close>, if there is one. \<open>lp_stopping\<close> says that
  \<^verbatim>\<open>emu_eng.stop()\<close> was called since the last start of the engine.\<close>

record 'm loop =
  lp_cpu :: "'m run"
  lp_heap :: "nat \<Rightarrow> guest_run"
  lp_next :: nat
  lp_queue :: "nat list"
  lp_suspended :: "nat list"
  lp_runs :: "nat list"
  lp_curr :: "nat option"
  lp_exit :: "native_exit option"
  lp_stopping :: bool
  lp_call_site :: "(int \<times> int) option"
  lp_prev_pc :: int
  lp_run_complete :: bool
  lp_emu_complete :: bool
  lp_time :: nat
  lp_total :: "total_budget option"
  lp_limits :: run_limits
  lp_locals :: run_locals
  lp_fault_stop :: "stop_reason option"
  lp_stop_on_faults :: bool
  lp_debugger :: "unit gdb option"
  lp_thread :: "nat option"
  lp_next_thread :: nat
  lp_exit_codes :: "nat \<Rightarrow> int option"
  lp_process :: "nat option"
  lp_suspend_counts :: "nat \<Rightarrow> nat"
  lp_load_states :: "nat \<times> nat \<Rightarrow> load_state option"
  lp_dlls :: "guest_dll list"

text \<open>What an exception of a method is: the error of the engine, an exception of a handler or of the emulator, or a
  computation that goes on, because the fuel ran out or the GDB client sends no command. \<open>Interrupted\<close> is Python's
  \<^verbatim>\<open>KeyboardInterrupt\<close>.\<close>

datatype uc_error = Fetch_unmapped | Fetch_prot | Insn_invalid | Uc_other

datatype loop_error = Engine uc_error | Raise fault | Interrupted | Going_on

type_synonym ('m, 'a) meth = "('m loop, loop_error, 'a) exn"

text \<open>The configuration, and what the methods use that is not modelled: the engine, which runs guest code from an address with
  a timeout and an instruction count; the clock and the event that stops the emulator, by reading of the clock; the
  implementations of the APIs; the memory maps; and the parts of a thread that \<open>init_teb\<close> and \<open>init_tls\<close> write.\<close>

record 'm env =
  ev_ops :: "'m mem_ops"
  ev_engine :: "int \<Rightarrow> rat \<Rightarrow> int \<Rightarrow> 'm loop \<Rightarrow> uc_error option \<times> 'm loop"
  ev_clock :: "nat \<Rightarrow> rat"
  ev_exit_event :: "nat \<Rightarrow> bool"
  ev_traps :: "int \<Rightarrow> api_entry option"
  ev_api :: "api_entry \<Rightarrow> ('m, unit) meth"
  ev_supported :: "api_entry \<Rightarrow> bool"
  ev_protect :: "int \<Rightarrow> int \<Rightarrow> 'm \<Rightarrow> 'm"
  ev_stack :: "int \<times> nat"
  ev_init_thread :: "nat \<Rightarrow> 'm loop \<Rightarrow> 'm loop"
  ev_rollback :: "'m loop \<Rightarrow> 'm loop"
  ev_gdb :: "'m loop emu_api"
  ev_session :: "unit gdb option"
  ev_max_total_time :: rat
  ev_max_run_time :: rat
  ev_max_instructions :: int
  ev_max_runs :: nat
  ev_dispatch_handlers :: bool
  ev_memory_tracing :: bool

definition raise_error :: "error \<Rightarrow> ('m, 'a) meth" where "raise_error e = eraise (Raise (Other e))"

subsection \<open>The guest of the current run\<close>

text \<open>\<^verbatim>\<open>emu_eng.stop()\<close>.\<close>

definition engine_stop :: "'m loop \<Rightarrow> 'm loop" where "engine_stop s = s\<lparr>lp_stopping := True\<rparr>"

text \<open>\<open>end_run_on_fault\<close> after a fault of the guest, which \<open>Guest_Callbacks.fail_run\<close> notes in the state of the guest.\<close>

definition record_exit :: "native_exit \<Rightarrow> 'm loop \<Rightarrow> 'm loop" where
  "record_exit x s = engine_stop (if lp_exit s = None then s\<lparr>lp_exit := Some x\<rparr> else s)"

definition emu_of :: "'m loop \<Rightarrow> 'm emu" where "emu_of s = rn_emu (lp_cpu s)"

definition pc_of :: "'m loop \<Rightarrow> int" where "pc_of s = em_cpu (emu_of s) (pc_name (emu_of s))"
definition sp_of :: "'m loop \<Rightarrow> int" where "sp_of s = em_cpu (emu_of s) (sp_name (emu_of s))"

definition upd_emu :: "('m emu \<Rightarrow> 'm emu) \<Rightarrow> 'm loop \<Rightarrow> 'm loop" where
  "upd_emu f s = s\<lparr>lp_cpu := (lp_cpu s)\<lparr>rn_emu := f (emu_of s)\<rparr>\<rparr>"

definition upd_pc :: "int \<Rightarrow> 'm loop \<Rightarrow> 'm loop" where
  "upd_pc pc s = upd_emu (\<lambda>e. put_reg (pc_name e) pc e) s"

definition upd_run :: "nat \<Rightarrow> (guest_run \<Rightarrow> guest_run) \<Rightarrow> 'm loop \<Rightarrow> 'm loop" where
  "upd_run i f s = s\<lparr>lp_heap := (lp_heap s)(i := f (lp_heap s i))\<rparr>"

definition set_run_error :: "run_error \<Rightarrow> 'm loop \<Rightarrow> 'm loop" where
  "set_run_error e s = (case lp_curr s of None \<Rightarrow> s | Some i \<Rightarrow> upd_run i (\<lambda>r. r\<lparr>gr_error := Some e\<rparr>) s)"

definition plain_error :: "string \<Rightarrow> int \<Rightarrow> run_error" where
  "plain_error kind pc = \<lparr>re_type = kind, re_pc = pc, re_address = None, re_count = None\<rparr>"

definition error_info :: "string \<Rightarrow> int \<Rightarrow> 'm loop \<Rightarrow> run_error" where
  "error_info kind address s = \<lparr>re_type = kind, re_pc = pc_of s, re_address = Some address, re_count = None\<rparr>"

definition EMU_RESERVE_SIZE :: int where "EMU_RESERVE_SIZE = 0x4000"
definition RETURN_HOOK :: int where "RETURN_HOOK = 0xFEEDF000"
definition EXIT_HOOK :: int where "EXIT_HOOK = RETURN_HOOK + 1"

definition end_run_on_fault :: "'m loop \<Rightarrow> 'm loop" where
  "end_run_on_fault s =
     (let pc = pc_of s; in_reserved = (EMU_RESERVED \<le> pc \<and> pc < EMU_RESERVED + EMU_RESERVE_SIZE)
      in if \<not> lp_stop_on_faults s \<or> in_reserved then record_exit Fault_return s
         else engine_stop (s\<lparr>lp_fault_stop := Some \<lparr>sr_signal = 11, sr_kind = ''exception'', sr_address = Some pc\<rparr>\<rparr>))"

text \<open>A part of the guest model in the emulator. A run that it fails gets the error.\<close>

definition take_error :: "'m loop \<Rightarrow> 'm loop" where
  "take_error s =
     (case em_error (emu_of s) of
        None \<Rightarrow> s
      | Some e \<Rightarrow> end_run_on_fault (set_run_error (error_info (cb_kind e) (cb_address e) s)
          (upd_emu (\<lambda>m. m\<lparr>em_error := None, em_ended := False\<rparr>) s)))"

definition on_guest :: "('m run \<Rightarrow> (fault + 'a) \<times> 'm run) \<Rightarrow> ('m, 'a) meth" where
  "on_guest f s =
     (case f (lp_cpu s) of (r, g) \<Rightarrow>
        (case r of Inl e \<Rightarrow> Inl (Raise e) | Inr x \<Rightarrow> Inr x, take_error (s\<lparr>lp_cpu := g\<rparr>)))"

definition on_cpu :: "('m, 'a) prog \<Rightarrow> ('m loop, loop_error, 'a) exn" where
  "on_cpu m = on_guest (on_emu m)"

subsection \<open>Initializers of DLLs\<close>

definition finish_initializer :: "init_routine \<Rightarrow> int \<Rightarrow> bool \<Rightarrow> 'm loop \<Rightarrow> bool \<times> 'm loop" where
  "finish_initializer r v faulted s =
     (if faulted \<or> (ir_is_entry r \<and> v AND 0xFF = 0) then (False, s)
      else (True, if ir_is_last r
                  then s\<lparr>lp_load_states := (lp_load_states s)((ir_module r, ir_pid r) := Some Ready_to_run)\<rparr> else s))"

definition cancel_initializer :: "init_routine \<Rightarrow> 'm loop \<Rightarrow> 'm loop" where
  "cancel_initializer r s =
     (if lp_load_states s (ir_module r, ir_pid r) = Some Initializing
      then s\<lparr>lp_load_states := (lp_load_states s)((ir_module r, ir_pid r) := None)\<rparr> else s)"

definition cancel_initializers :: "init_routine list \<Rightarrow> 'm loop \<Rightarrow> 'm loop" where
  "cancel_initializers rs s = fold cancel_initializer rs s"

definition dll_routines :: "nat \<Rightarrow> guest_dll \<Rightarrow> init_routine list" where
  "dll_routines pid d =
     (let fs = map (\<lambda>f. (f, False)) (dl_callbacks d) @ (if dl_entry d \<noteq> 0 then [(dl_base d + dl_entry d, True)] else [])
      in map (\<lambda>(i, f, is_entry). \<lparr>ir_module = dl_module d, ir_address = f, ir_is_entry = is_entry,
                ir_is_last = (i = length fs - 1), ir_pid = pid\<rparr>) (enumerate 0 fs))"

fun collect_from :: "nat \<Rightarrow> guest_dll list \<Rightarrow> 'm loop \<Rightarrow> (guest_dll \<times> init_routine) list \<times> 'm loop" where
  "collect_from pid [] s = ([], s)"
| "collect_from pid (d # ds) s =
     (if \<not> dl_loaded d \<or> pid \<notin> set (dl_pids d) \<or> lp_load_states s (dl_module d, pid) \<noteq> None then collect_from pid ds s
      else let rs = dll_routines pid d; state = (if rs = [] then Ready_to_run else Initializing);
               s = s\<lparr>lp_load_states := (lp_load_states s)((dl_module d, pid) := Some state)\<rparr>;
               (rest, s) = collect_from pid ds s
           in (map (Pair d) rs @ rest, s))"

definition collect_initializers :: "'m loop \<Rightarrow> (guest_dll \<times> init_routine) list \<times> 'm loop" where
  "collect_initializers s = (case lp_process s of None \<Rightarrow> ([], s) | Some pid \<Rightarrow> collect_from pid (lp_dlls s) s)"

subsection \<open>The queue\<close>

definition alloc_run :: "guest_run \<Rightarrow> 'm loop \<Rightarrow> nat \<times> 'm loop" where
  "alloc_run r s = (lp_next s, s\<lparr>lp_heap := (lp_heap s)(lp_next s := r), lp_next := Suc (lp_next s)\<rparr>)"

definition add_run :: "nat \<Rightarrow> 'm loop \<Rightarrow> 'm loop" where "add_run i s = s\<lparr>lp_queue := lp_queue s @ [i]\<rparr>"

definition initializer_run :: "nat option \<Rightarrow> nat option \<Rightarrow> guest_dll \<times> init_routine \<Rightarrow> guest_run" where
  "initializer_run thread process x =
     (let (d, r) = x
      in (new_run (if ir_is_entry r then ''dependency_dll_entry'' else ''dependency_tls_callback'') (Some (ir_address r))
            [dl_base d, 1, 0])\<lparr>gr_thread := thread, gr_process := process, gr_routine := Some r\<rparr>)"

fun alloc_runs :: "guest_run list \<Rightarrow> 'm loop \<Rightarrow> nat list \<times> 'm loop" where
  "alloc_runs [] s = ([], s)"
| "alloc_runs (r # rs) s = (let (i, s) = alloc_run r s; (is, s) = alloc_runs rs s in (i # is, s))"

definition queue_startup_initializers :: "'m loop \<Rightarrow> 'm loop" where
  "queue_startup_initializers s =
     (if em_kernel_mode (emu_of s) \<or> lp_queue s = [] then s
      else let (rs, s) = collect_initializers s;
               thread = (case gr_thread (lp_heap s (hd (lp_queue s))) of None \<Rightarrow> lp_thread s | Some t \<Rightarrow> Some t);
               (is, s) = alloc_runs (map (initializer_run thread (lp_process s)) rs) s
           in s\<lparr>lp_queue := is @ lp_queue s\<rparr>)"

definition routines_of :: "nat list \<Rightarrow> 'm loop \<Rightarrow> init_routine list" where
  "routines_of is s = concat (map (\<lambda>i. case gr_routine (lp_heap s i) of None \<Rightarrow> [] | Some r \<Rightarrow> [r]) is)"

definition cancel_runs :: "nat option \<Rightarrow> 'm loop \<Rightarrow> 'm loop" where
  "cancel_runs prepared s =
     (let canceled = lp_queue s @ lp_suspended s @ (case prepared of None \<Rightarrow> [] | Some i \<Rightarrow> [i])
      in (cancel_initializers (routines_of canceled s) s)\<lparr>lp_queue := [], lp_suspended := []\<rparr>)"

definition create_thread ::
  "'m env \<Rightarrow> int \<Rightarrow> int \<Rightarrow> nat option \<Rightarrow> bool \<Rightarrow> 'm loop \<Rightarrow> nat option \<times> 'm loop" where
  "create_thread env addr ctx process is_suspended s =
     (if ev_max_runs env \<le> length (lp_queue s) then (None, s)
      else let t = lp_next_thread s;
               (i, s) = alloc_run ((new_run ''thread'' (Some addr) [ctx])\<lparr>gr_process := process, gr_thread := Some t\<rparr>)
                 (s\<lparr>lp_next_thread := Suc t\<rparr>)
           in (Some t, if is_suspended
                       then s\<lparr>lp_suspend_counts := (lp_suspend_counts s)(t := 1), lp_suspended := lp_suspended s @ [i]\<rparr>
                       else add_run i s))"

definition resume_thread :: "nat \<Rightarrow> 'm loop \<Rightarrow> bool \<times> 'm loop" where
  "resume_thread t s =
     (case find (\<lambda>i. gr_thread (lp_heap s i) = Some t) (lp_suspended s) of
        None \<Rightarrow> (False, s)
      | Some i \<Rightarrow> (True, add_run i (s\<lparr>lp_suspended := remove1 i (lp_suspended s)\<rparr>)))"

text \<open>
  The calls \<^verbatim>\<open>SuspendThread\<close> and \<^verbatim>\<open>ResumeThread\<close> of a thread that its handle named
  (\<^verbatim>\<open>winenv/api/usermode/kernel32.py\<close>), with the count that they return. A thread of another process that
  has no run is not modelled: its resumption creates a run as \<open>create_thread\<close> does.
\<close>

definition suspend_thread :: "nat \<Rightarrow> 'm loop \<Rightarrow> nat \<times> 'm loop" where
  "suspend_thread t s =
     (let rv = lp_suspend_counts s t;
          s = s\<lparr>lp_suspend_counts := (lp_suspend_counts s)(t := rv + 1)\<rparr>
      in (rv, if rv = 0 \<and> lp_thread s \<noteq> Some t
              then (case find (\<lambda>i. gr_thread (lp_heap s i) = Some t) (lp_queue s) of
                      None \<Rightarrow> s
                    | Some i \<Rightarrow> s\<lparr>lp_queue := remove1 i (lp_queue s), lp_suspended := lp_suspended s @ [i]\<rparr>)
              else s))"

definition resume_suspended :: "nat \<Rightarrow> 'm loop \<Rightarrow> nat \<times> 'm loop" where
  "resume_suspended t s =
     (let rv = lp_suspend_counts s t;
          s = (if 0 < rv then s\<lparr>lp_suspend_counts := (lp_suspend_counts s)(t := rv - 1)\<rparr> else s)
      in (rv, if rv = 1 then snd (resume_thread t s) else s))"

text \<open>\<open>queue_run\<close> of a handler: a new run at the end of the queue.\<close>

definition queue_run :: "guest_run \<Rightarrow> 'm loop \<Rightarrow> 'm loop" where
  "queue_run r s = (case alloc_run r s of (i, s) \<Rightarrow> add_run i s)"

subsection \<open>Preparation of a run\<close>

definition reset_stack :: "int \<Rightarrow> ('m, unit) prog" where
  "reset_stack base =
     gbind (gets em_amd64) (\<lambda>amd64.
       let p = (if amd64 then base - 8 * 65 else base - 4 * 64)
       in gbind (reg_write (if amd64 then ''Rsp'' else ''Esp'') p) (\<lambda>_. reg_write (if amd64 then ''Rbp'' else ''Ebp'') p))"

text \<open>The control words of the x87 and the SSE unit are those of the FPU state and of \<open>MxCsr\<close>.\<close>

definition reset_cpu_context :: "('m, unit) prog" where
  "reset_cpu_context =
     gbind (gets em_amd64) (\<lambda>amd64.
       gbind (gmapM (\<lambda>r. reg_write r 0)
          (if amd64
           then [''Rax'', ''Rbx'', ''Rcx'', ''Rdx'', ''Rsi'', ''Rdi'', ''R8'', ''R9'', ''R10'', ''R11'', ''R12'', ''R13'',
             ''R14'', ''R15'']
           else [''Eax'', ''Ebx'', ''Ecx'', ''Edx'', ''Esi'', ''Edi''])) (\<lambda>_.
         gbind (reg_write ''EFlags'' 2) (\<lambda>_.
           gbind (modify (\<lambda>s. s\<lparr>em_fpu := (em_fpu s)\<lparr>fp_sw := 0, fp_tag := 0xFFFF\<rparr>\<rparr>)) (\<lambda>_. reg_write ''MxCsr'' 0x1F80))))"

definition clear_stack :: "'m env \<Rightarrow> ('m, unit) prog" where
  "clear_stack env = (let (base, n) = ev_stack env in mem_write (ev_ops env) base (replicate n 0))"

text \<open>The stack pointer and the arguments at the entry of a run.\<close>

definition entry_frame :: "'m env \<Rightarrow> guest_run \<Rightarrow> ('m, unit) prog" where
  "entry_frame env r =
     gbind get_stack_ptr (\<lambda>sp. gbind (gets em_amd64) (\<lambda>amd64.
       let aligned = sp AND NOT 0xF;
           sp = (if amd64 then (if (length (gr_args r) - 4) mod 2 \<noteq> 0 then aligned - 8 else aligned) else sp)
       in gbind (set_func_args (ev_ops env) sp RETURN_HOOK (gr_args r) Stdcall True) (\<lambda>_.
            gmapM (\<lambda>(x, v). reg_write x v) (gr_registers r))))"

definition forget_fault :: "'m loop \<Rightarrow> 'm loop" where
  "forget_fault s = upd_emu (\<lambda>e. e\<lparr>em_last_fault := None, em_repeat := 0, em_resume_pc := None\<rparr>) s"

text \<open>The thread of the run: its own, the one that runs in kernel mode, or a new one.\<close>

definition enter_thread :: "nat \<Rightarrow> 'm loop \<Rightarrow> 'm loop" where
  "enter_thread i s =
     (case gr_thread (lp_heap s i) of
        Some t \<Rightarrow> s\<lparr>lp_thread := Some t\<rparr>
      | None \<Rightarrow>
          (if em_kernel_mode (emu_of s) then s
           else let t = lp_next_thread s
                in upd_run i (\<lambda>r. r\<lparr>gr_thread := Some t\<rparr>) (s\<lparr>lp_next_thread := Suc t, lp_thread := Some t\<rparr>)))"

definition enter_process :: "nat \<Rightarrow> 'm loop \<Rightarrow> 'm loop" where
  "enter_process i s = (case gr_process (lp_heap s i) of None \<Rightarrow> s | Some p \<Rightarrow> s\<lparr>lp_process := Some p\<rparr>)"

definition start_thread :: "'m env \<Rightarrow> 'm loop \<Rightarrow> 'm loop" where
  "start_thread env s =
     (case lp_thread s of
        Some t \<Rightarrow> if em_kernel_mode (emu_of s) then s
                  else ev_init_thread env t (s\<lparr>lp_exit_codes := (lp_exit_codes s)(t := None)\<rparr>)
      | None \<Rightarrow> s)"

definition prepare_run_context :: "'m env \<Rightarrow> nat \<Rightarrow> ('m, nat) meth" where
  "prepare_run_context env i =
     eseq (emod (\<lambda>s. forget_fault (s\<lparr>lp_curr := Some i, lp_runs := lp_runs s @ [i]\<rparr>)))
       (ebind (eget (\<lambda>s. lp_heap s i)) (\<lambda>r.
          eseq (on_cpu (entry_frame env r))
            (eseq (emod (\<lambda>s. start_thread env (enter_thread i (enter_process i s))))
               (case gr_start r of
                  None \<Rightarrow> raise_error TypeError
                | Some a \<Rightarrow> eseq (emod (upd_pc a)) (ereturn i)))))"

subsection \<open>The end of a run\<close>

definition drop_frames :: "'m env \<Rightarrow> 'm loop \<Rightarrow> 'm loop" where
  "drop_frames env s =
     (let s = ev_rollback env s
      in s\<lparr>lp_cpu := (lp_cpu s)\<lparr>rn_emu := (emu_of s)\<lparr>em_frames := []\<rparr>, rn_gens := []\<rparr>\<rparr>)"

definition fail_initializer :: "nat \<Rightarrow> init_routine \<Rightarrow> 'm loop \<Rightarrow> 'm loop" where
  "fail_initializer i r s =
     (let s = (if gr_error (lp_heap s i) = None
               then upd_run i (\<lambda>x. x\<lparr>gr_error := Some (plain_error ''dll_initialization_failed'' (pc_of s))\<rparr>) s else s);
          same = (\<lambda>q. case gr_routine (lp_heap s q) of
                        None \<Rightarrow> False | Some x \<Rightarrow> ir_module x = ir_module r \<and> ir_pid x = ir_pid r)
      in s\<lparr>lp_load_states := (lp_load_states s)((ir_module r, ir_pid r) := Some Init_error),
           lp_queue := filter (\<lambda>q. \<not> same q) (lp_queue s)\<rparr>)"

definition finish_run_initializers :: "'m env \<Rightarrow> nat option \<Rightarrow> ('m, unit) meth" where
  "finish_run_initializers env run =
     (case run of
        None \<Rightarrow> raise_error AttributeError
      | Some i \<Rightarrow>
          eseq (emod (drop_frames env))
            (emod (\<lambda>s. case gr_routine (lp_heap s i) of
               None \<Rightarrow> s
             | Some r \<Rightarrow>
                 (case finish_initializer r (em_cpu (emu_of s) (ret_name (emu_of s))) (gr_error (lp_heap s i) \<noteq> None) s of
                    (True, s) \<Rightarrow> s | (False, s) \<Rightarrow> fail_initializer i r s))))"

definition on_emu_complete :: "'m loop \<Rightarrow> 'm loop" where
  "on_emu_complete s = engine_stop (s\<lparr>lp_emu_complete := True, lp_run_complete := True\<rparr>)"

text \<open>The stack and the registers at the start of a run.\<close>

definition reset_machine :: "'m env \<Rightarrow> ('m, unit) prog" where
  "reset_machine env =
     gbind (reset_stack (fst (ev_stack env) + int (snd (ev_stack env)))) (\<lambda>_. gbind reset_cpu_context (\<lambda>_. clear_stack env))"

definition take_run :: "'m env \<Rightarrow> nat \<Rightarrow> nat list \<Rightarrow> ('m, nat) meth" where
  "take_run env i rest =
     eseq (emod (\<lambda>s. s\<lparr>lp_queue := rest, lp_run_complete := False\<rparr>))
       (eseq (on_cpu (reset_machine env))
         (ebind (prepare_run_context env i) (\<lambda>i. eseq (emod engine_stop) (ereturn i))))"

definition prepare_next_run :: "'m env \<Rightarrow> ('m, nat option) meth" where
  "prepare_next_run env =
     ebind (eget lp_curr) (\<lambda>curr.
       eseq (finish_run_initializers env curr)
         (eseq (emod (\<lambda>s. s\<lparr>lp_exit := None\<rparr>))
            (ebind (eget lp_queue) (\<lambda>queue. case queue of
               [] \<Rightarrow> eseq (emod on_emu_complete) (ereturn None)
             | i # rest \<Rightarrow> ebind (take_run env i rest) (\<lambda>i. ereturn (Some i))))))"

definition on_run_complete :: "'m env \<Rightarrow> ('m, nat option) meth" where
  "on_run_complete env =
     eseq (emod (\<lambda>s.
       let s = s\<lparr>lp_run_complete := True\<rparr>
       in case lp_curr s of
            None \<Rightarrow> s
          | Some i \<Rightarrow>
              (let v = em_cpu (emu_of s) (ret_name (emu_of s)); s = upd_run i (\<lambda>r. r\<lparr>gr_return := Some v\<rparr>) s
               in case gr_thread (lp_heap s i) of
                    None \<Rightarrow> s
                  | Some t \<Rightarrow>
                      (if lp_exit_codes s t = None
                       then s\<lparr>lp_exit_codes := (lp_exit_codes s)(t := Some (v AND 0xFFFFFFFF))\<rparr> else s))))
       (prepare_next_run env)"

end
