(* ===== verification/Run_Loop.thy ===== *)
theory Run_Loop
  imports Runs
begin

text \<open>
  The execution loop (\<^verbatim>\<open>speakeasy/windows/winemu.py\<close>): the limits of a run, the start of the engine, the exits
  that stop it and their handling, and the loop over the runs with or without a GDB session. The fuel of the loops bounds
  the rounds; a loop that needs more goes on.
\<close>

subsection \<open>Clock and debugger\<close>

definition read_clock :: "'m env \<Rightarrow> ('m, rat) meth" where
  "read_clock env s = (Inr (ev_clock env (lp_time s)), s\<lparr>lp_time := Suc (lp_time s)\<rparr>)"

definition exit_event :: "'m env \<Rightarrow> 'm loop \<Rightarrow> bool" where "exit_event env s = ev_exit_event env (lp_time s)"

text \<open>The GDB session with the emulator that it serves.\<close>

definition put_emu :: "'e \<Rightarrow> 'a gdb \<Rightarrow> 'e gdb" where
  "put_emu e d = \<lparr>gs_broken = gs_broken d, gs_closed = gs_closed d, gs_commands = gs_commands d, gs_no_ack = gs_no_ack d,
     gs_last_packet = gs_last_packet d, gs_running = gs_running d, gs_stop_reason = gs_stop_reason d,
     gs_stop_pending = gs_stop_pending d, gs_library_list_changed = gs_library_list_changed d,
     gs_resume_pc = gs_resume_pc d, gs_exec_breakpoints = gs_exec_breakpoints d, gs_exec_addresses = gs_exec_addresses d,
     gs_exec_ranges = gs_exec_ranges d, gs_read_watchpoints = gs_read_watchpoints d,
     gs_write_watchpoints = gs_write_watchpoints d, gs_access_watchpoints = gs_access_watchpoints d,
     gs_code_hook = gs_code_hook d, gs_read_hook = gs_read_hook d, gs_write_hook = gs_write_hook d,
     gs_breakpoint_hooks = gs_breakpoint_hooks d, gs_engine_stops = gs_engine_stops d, gs_flushes = gs_flushes d,
     gs_sent = gs_sent d, gs_emu = e\<rparr>"

definition debugging :: "'m loop \<Rightarrow> bool" where "debugging s \<longleftrightarrow> lp_debugger s \<noteq> None"

definition pending_stop :: "'m loop \<Rightarrow> bool" where
  "pending_stop s = (case lp_debugger s of None \<Rightarrow> False | Some d \<Rightarrow> has_pending_stop d)"

definition with_debugger :: "('m loop gdb \<Rightarrow> 'a \<times> 'm loop gdb) \<Rightarrow> 'm loop \<Rightarrow> 'a option \<times> 'm loop" where
  "with_debugger f s =
     (case lp_debugger s of
        None \<Rightarrow> (None, s)
      | Some d \<Rightarrow> (case f (put_emu s d) of (x, d') \<Rightarrow> (Some x, (gs_emu d')\<lparr>lp_debugger := Some (put_emu () d')\<rparr>)))"

definition tell_debugger :: "('m loop gdb \<Rightarrow> 'm loop gdb) \<Rightarrow> 'm loop \<Rightarrow> 'm loop" where
  "tell_debugger f s = snd (with_debugger (\<lambda>d. ((), f d)) s)"

definition stop_at :: "string \<Rightarrow> int \<Rightarrow> stop_reason" where
  "stop_at kind address = \<lparr>sr_signal = 5, sr_kind = kind, sr_address = Some address\<rparr>"

text \<open>\<open>command_loop\<close>, which waits when the client has sent no command that resumes the target.\<close>

definition commands :: "'m env \<Rightarrow> stop_reason option \<Rightarrow> ('m, resume_action) meth" where
  "commands env reason s =
     (case with_debugger (command_loop (ev_gdb env) reason) s of
        (Some (Some action), s) \<Rightarrow> (Inr action, s)
      | (Some None, s) \<Rightarrow> (Inl Going_on, s)
      | (None, s) \<Rightarrow> (Inl (Raise (Other AttributeError)), s))"

definition close_session :: "'m loop \<Rightarrow> 'm loop" where "close_session s = s\<lparr>lp_debugger := None\<rparr>"

definition detach_debugger :: "'m loop \<Rightarrow> 'm loop" where
  "detach_debugger s = (close_session s)\<lparr>lp_stop_on_faults := False\<rparr>"

subsection \<open>Limits\<close>

definition from_run :: "'m env \<Rightarrow> nat \<Rightarrow> rat \<Rightarrow> int \<Rightarrow> ('m, run_limits) meth" where
  "from_run env i timeout budget =
     ebind (read_clock env) (\<lambda>started. eget (\<lambda>s.
       let r = lp_heap s i; spent = gr_elapsed r;
           own = (if 0 < timeout then Some (started + max (timeout - spent) 0) else None);
           (deadline, kind) =
             (case lp_total s of
                None \<Rightarrow> (own, ''timeout'')
              | Some t \<Rightarrow>
                  (let last = started + max (tb_limit t - tb_elapsed t) 0
                   in if 0 < tb_limit t \<and> (case own of None \<Rightarrow> True | Some d \<Rightarrow> last < d)
                      then (Some last, ''max_total_time'') else (own, ''timeout'')))
       in \<lparr>rl_origin = i, rl_started = started, rl_spent = spent, rl_timeout = timeout, rl_deadline = deadline, rl_kind = kind,
           rl_total = (lp_total s \<noteq> None), rl_budget = budget,
           rl_remaining = (if 0 < budget then max (budget - gr_budget r) 0 else -1), rl_last = None\<rparr>))"

definition deadline_passed :: "'m env \<Rightarrow> ('m, bool) meth" where
  "deadline_passed env =
     ebind (eget (\<lambda>s. rl_deadline (lp_limits s))) (\<lambda>d. case d of
       None \<Rightarrow> ereturn False | Some d \<Rightarrow> ebind (read_clock env) (\<lambda>now. ereturn (d \<le> now)))"

definition get_reached_limit :: "'m env \<Rightarrow> ('m, string option) meth" where
  "get_reached_limit env =
     ebind (deadline_passed env) (\<lambda>late. eget (\<lambda>s.
       let l = lp_limits s
       in if late then Some (rl_kind l)
          else if 0 < rl_budget l \<and> rl_remaining l \<le> 0 then Some ''max_instructions'' else None))"

definition is_total_time_reached :: "'m env \<Rightarrow> ('m, bool) meth" where
  "is_total_time_reached env =
     eif (\<lambda>s. rl_kind (lp_limits s) = ''max_total_time'') (deadline_passed env) (ereturn False)"

definition get_native_timeout :: "'m env \<Rightarrow> ('m, rat) meth" where
  "get_native_timeout env =
     ebind (eget (\<lambda>s. rl_deadline (lp_limits s))) (\<lambda>d. case d of
       None \<Rightarrow> ereturn 0 | Some d \<Rightarrow> ebind (read_clock env) (\<lambda>now. ereturn (max (d - now) (1 / 1000000))))"

definition get_native_count :: "run_limits \<Rightarrow> int" where
  "get_native_count l = (if 0 < rl_budget l then rl_remaining l else 0)"

text \<open>The accounting hook of a call with an instruction limit, which runs before each instruction.\<close>

definition account_instruction :: "'m env \<Rightarrow> int \<Rightarrow> 'm loop \<Rightarrow> 'm loop" where
  "account_instruction env address s =
     (if pending_stop s then s
      else if rl_remaining (lp_limits s) \<le> 0 then engine_stop s
      else let s = s\<lparr>lp_limits := (lp_limits s)\<lparr>rl_remaining := rl_remaining (lp_limits s) - 1, rl_last := Some address\<rparr>\<rparr>;
               s = upd_run (rl_origin (lp_limits s)) (\<lambda>r. r\<lparr>gr_budget := gr_budget r + 1\<rparr>) s
           in if ev_memory_tracing env then s
              else case lp_curr s of
                     None \<Rightarrow> s | Some j \<Rightarrow> upd_run j (\<lambda>r. r\<lparr>gr_instructions := gr_instructions r + 1\<rparr>) s)"

subsection \<open>Exits\<close>

definition exit_explains_error :: "uc_error \<Rightarrow> native_exit option \<Rightarrow> bool" where
  "exit_explains_error e x =
     (case x of
        None \<Rightarrow> False
      | Some (Raised_exception _) \<Rightarrow> True
      | Some Fault_return \<Rightarrow> True
      | Some (Exec_recovery _ _) \<Rightarrow> e = Fetch_prot \<or> e = Fetch_unmapped
      | Some _ \<Rightarrow> e = Fetch_unmapped)"

definition read_or_none :: "'m env \<Rightarrow> int \<Rightarrow> int \<Rightarrow> 'm loop \<Rightarrow> byte list option" where
  "read_or_none env a n s = (case mo_read (ev_ops env) (em_mem (emu_of s)) a n of Inl _ \<Rightarrow> None | Inr bs \<Rightarrow> Some bs)"

definition suspended_api_call :: "'m env \<Rightarrow> api_entry \<Rightarrow> 'm loop \<Rightarrow> native_exit" where
  "suspended_api_call env entry s =
     Suspended_api_call entry (sp_of s) (read_or_none env (sp_of s) (int (ptr_size (emu_of s))) s)
       (read_or_none env (ae_address entry) 16 s)"

definition get_exit_at_pc :: "'m env \<Rightarrow> 'm loop \<Rightarrow> native_exit option" where
  "get_exit_at_pc env s =
     (case ev_traps env (pc_of s) of
        Some entry \<Rightarrow> Some (suspended_api_call env entry s)
      | None \<Rightarrow>
          (if pc_of s = GUEST_CALLBACK_RETURN_ADDR \<and> lp_curr s \<noteq> None \<and> em_frames (emu_of s) \<noteq> [] then Some Callback_return
           else if pc_of s = RETURN_HOOK \<or> pc_of s = EXIT_HOOK then Some Run_return else None))"

definition drop_stale_exit :: "'m env \<Rightarrow> int \<Rightarrow> ('m, int) meth" where
  "drop_stale_exit env address s =
     (case lp_exit s of
        Some (Suspended_api_call entry sp ret code) \<Rightarrow>
          (if address \<noteq> ae_address entry \<and> Some address \<noteq> ae_trap entry then (Inr address, s\<lparr>lp_exit := None\<rparr>)
           else if suspended_api_call env entry s \<noteq> Suspended_api_call entry sp ret code
           then (Inr (ae_address entry), upd_pc (ae_address entry) (s\<lparr>lp_exit := None\<rparr>))
           else (Inr address, s))
      | Some x \<Rightarrow>
          (Inr address,
           if x \<in> {Run_return, Callback_return, Fault_return} \<and>
              address \<notin> {GUEST_CALLBACK_RETURN_ADDR, RETURN_HOOK, EXIT_HOOK}
           then s\<lparr>lp_exit := None\<rparr> else s)
      | None \<Rightarrow> (Inr address, s))"

subsection \<open>Stops\<close>

definition exhaust_total :: "'m loop \<Rightarrow> 'm loop" where
  "exhaust_total s = cancel_runs None (s\<lparr>lp_total := map_option (\<lambda>t. t\<lparr>tb_exhausted := True\<rparr>) (lp_total s)\<rparr>)"

definition keep_error :: "nat \<Rightarrow> run_error \<Rightarrow> 'm loop \<Rightarrow> 'm loop" where
  "keep_error i e s = upd_run i (\<lambda>r. if gr_error r = None then r\<lparr>gr_error := Some e\<rparr> else r) s"

definition stop_at_limit :: "'m env \<Rightarrow> string \<Rightarrow> nat \<Rightarrow> ('m, unit) meth" where
  "stop_at_limit env kind i =
     eseq (emod (\<lambda>s. case lp_exit s of Some (Suspended_api_call entry _ _ _) \<Rightarrow> upd_pc (ae_address entry) s | _ \<Rightarrow> s))
       (eseq (emod (\<lambda>s.
          if kind = ''max_total_time''
          then (let s = exhaust_total s
                in if lp_curr s = Some i then keep_error i (plain_error kind (pc_of s)) s else s)
          else s))
         (eif debugging (emod (\<lambda>s. tell_debugger (request_stop (stop_at kind (pc_of s))) s))
            (eif (\<lambda>s. lp_curr s = Some i)
               (eseq (emod (\<lambda>s. keep_error i ((plain_error kind (pc_of s))
                    \<lparr>re_count := if kind = ''max_instructions'' then Some (rl_budget (lp_limits s)) else None\<rparr>) s))
                  (eseq (on_run_complete env) (ereturn ())))
               (ereturn ()))))"

definition stop_without_exit :: "'m env \<Rightarrow> nat \<Rightarrow> ('m, unit) meth" where
  "stop_without_exit env i =
     ebind (get_reached_limit env) (\<lambda>reached. case reached of
       Some kind \<Rightarrow> stop_at_limit env kind i
     | None \<Rightarrow>
         eif (\<lambda>s. \<not> debugging s \<and> \<not> lp_run_complete s)
           (eseq (emod (\<lambda>s. upd_run i (\<lambda>r. r\<lparr>gr_error := Some (error_info ''engine_stopped'' (pc_of s) s)\<rparr>) s))
              (eseq (on_run_complete env) (ereturn ())))
           (ereturn ()))"

subsection \<open>The engine\<close>

definition run_engine :: "'m env \<Rightarrow> int \<Rightarrow> rat \<Rightarrow> int \<Rightarrow> ('m, uc_error option) meth" where
  "run_engine env address timeout count s =
     (case ev_engine env address timeout count (s\<lparr>lp_stopping := False\<rparr>) of (e, s) \<Rightarrow> (Inr e, s))"

definition register_values :: "'m loop \<Rightarrow> int list" where
  "register_values s = map (em_cpu (emu_of s))
     (if em_amd64 (emu_of s)
      then [''Rsp'', ''Rbp'', ''Rip'', ''Rsi'', ''Rdi'', ''Rax'', ''Rbx'', ''Rcx'', ''Rdx'', ''R8'', ''R9'', ''R10'', ''R11'',
        ''R12'', ''R13'', ''R14'', ''R15'']
      else [''Esp'', ''Ebp'', ''Eip'', ''Esi'', ''Edi'', ''Eax'', ''Ebx'', ''Ecx'', ''Edx''])"

definition step_had_no_effect :: "int list \<Rightarrow> 'm loop \<Rightarrow> bool" where
  "step_had_no_effect registers s \<longleftrightarrow>
     \<not> pending_stop s \<and> lp_exit s = None \<and> lp_fault_stop s = None \<and> register_values s = registers"

definition stopped_at_hlt :: "'m env \<Rightarrow> int \<Rightarrow> ('m, bool) meth" where
  "stopped_at_hlt env counted =
     eif (\<lambda>s. em_kernel_mode (emu_of s) \<or> \<not> ev_dispatch_handlers env \<or> lp_exit s \<noteq> None) (ereturn False)
       (ebind (deadline_passed env) (\<lambda>late. eget (\<lambda>s.
          \<not> late \<and> \<not> pending_stop s \<and>
          (case rl_last (lp_limits s) of
             Some a \<Rightarrow> a = pc_of s - 1
           | None \<Rightarrow> counted = 0 \<and> \<not> exit_event env s) \<and>
          read_or_none env (pc_of s - 1) 1 s = Some [0xF4])))"

definition raise_cpu_exception :: "raised \<Rightarrow> 'm loop \<Rightarrow> 'm loop" where
  "raise_cpu_exception x s = record_exit (Raised_exception x) s"

definition hlt_exception :: "'m loop \<Rightarrow> raised" where
  "hlt_exception s = \<lparr>ra_exception = privileged_instruction (pc_of s - 1), ra_error_type = ''privileged_instruction'',
     ra_interrupt = None, ra_access = None, ra_rax = None, ra_guard = None\<rparr>"

text \<open>A single step that had no effect starts the engine again, with the counts of the first start undone.\<close>

definition run_step :: "'m env \<Rightarrow> int \<Rightarrow> rat \<Rightarrow> nat \<Rightarrow> ('m, uc_error option) meth" where
  "run_step env address timeout i =
     ebind (eget (\<lambda>s. (register_values s, rl_remaining (lp_limits s), gr_budget (lp_heap s i), gr_instructions (lp_heap s i))))
       (\<lambda>(registers, remaining, budget, instructions).
         eseq (emod (\<lambda>s. if rl_budget (lp_limits s) \<le> 0 then s\<lparr>lp_limits := (lp_limits s)\<lparr>rl_last := Some address\<rparr>\<rparr> else s))
           (ebind (run_engine env address timeout 1) (\<lambda>e.
              if e \<noteq> None then ereturn e
              else eif (step_had_no_effect registers)
                     (eseq (emod (\<lambda>s. upd_run i (\<lambda>r. r\<lparr>gr_budget := budget, gr_instructions := instructions\<rparr>)
                          (s\<lparr>lp_limits := (lp_limits s)\<lparr>rl_remaining := remaining\<rparr>\<rparr>)))
                        (run_engine env address timeout 2))
                     (ereturn None))))"

definition start_unicorn :: "'m env \<Rightarrow> int \<Rightarrow> nat \<Rightarrow> bool \<Rightarrow> ('m, bool) meth" where
  "start_unicorn env address i stepping =
     ebind (get_native_timeout env) (\<lambda>timeout. ebind (eget (\<lambda>s. get_native_count (lp_limits s))) (\<lambda>count.
       ebind (if stepping then run_step env address timeout i else run_engine env address timeout count) (\<lambda>e.
         let hlt = eif (\<lambda>s. lp_curr s = Some i)
               (ebind (stopped_at_hlt env (if stepping then 1 else count)) (\<lambda>hlt.
                  eseq (emod (\<lambda>s. if hlt then raise_cpu_exception (hlt_exception s) s else s)) (ereturn True)))
               (ereturn True)
         in case e of
              None \<Rightarrow> hlt
            | Some x \<Rightarrow>
                eif (\<lambda>s. lp_fault_stop s \<noteq> None) (ereturn False)
                  (eif (\<lambda>s. exit_explains_error x (lp_exit s)) hlt (eraise (Engine x))))))"

subsection \<open>Handling of an exit\<close>

definition cpu_error :: "raised \<Rightarrow> callback_error" where
  "cpu_error x =
     (let e = ra_exception x; address = (case ra_access x of None \<Rightarrow> None | Some _ \<Rightarrow> Some (ce_params e ! 1))
      in (callback_error_of (ra_error_type x) (case address of None \<Rightarrow> ce_address e | Some a \<Rightarrow> a))
           \<lparr>cb_access := ra_access x, cb_pc := Some (ce_pc e), cb_interrupt := ra_interrupt x\<rparr>)"

definition dispatch_cpu_exception :: "'m env \<Rightarrow> raised \<Rightarrow> ('m, unit) meth" where
  "dispatch_cpu_exception env x =
     (let e = ra_exception x; address = (case ra_access x of None \<Rightarrow> None | Some _ \<Rightarrow> Some (ce_params e ! 1))
      in eseq (emod (\<lambda>s.
           let s = (case ra_rax x of None \<Rightarrow> s | Some v \<Rightarrow> upd_emu (\<lambda>m. put_reg (ret_name m) v m) s);
               s = (case ra_guard x of None \<Rightarrow> s
                    | Some (page, perms) \<Rightarrow> upd_emu (\<lambda>m. m\<lparr>em_mem := ev_protect env page perms (em_mem m)\<rparr>) s)
           in (upd_pc (ce_pc e) s)\<lparr>lp_prev_pc := ce_pc e\<rparr>))
         (ebind (eget (\<lambda>s. em_amd64 (emu_of s))) (\<lambda>amd64.
            ebind (if \<not> ev_dispatch_handlers env then ereturn False
                   else on_guest (dispatch_seh (dispatch_fault (ev_ops env) e
                     (if amd64 then dispatch_exception64 (ev_ops env) else dispatch_exception (ev_ops env))
                     (Some (cpu_error x))) address))
              (\<lambda>taken. if taken then ereturn () else on_guest (\<lambda>g. (Inr (), fail_run (cpu_error x) g))))))"

definition dispatch_api_entry :: "'m env \<Rightarrow> api_entry \<Rightarrow> nat \<Rightarrow> ('m, bool) meth" where
  "dispatch_api_entry env entry i =
     eif (\<lambda>s. debugging s \<and> \<not> ev_supported env entry)
       (eseq (emod (\<lambda>s. tell_debugger (request_stop (stop_at ''unsupported_api'' (ae_address entry)))
           (upd_pc (ae_address entry) s))) (ereturn False))
       (eseq (emod (\<lambda>s. s\<lparr>lp_exit := None, lp_call_site := None,
            lp_prev_pc := (case lp_call_site s of
                             Some (a, p) \<Rightarrow> if a = ae_address entry then p else 0 | None \<Rightarrow> 0)\<rparr>))
         (eseq (ev_api env entry)
            (eif (\<lambda>s. lp_fault_stop s \<noteq> None) (ereturn False)
               (eif (\<lambda>s. lp_run_complete s \<and> \<not> lp_emu_complete s \<and> lp_curr s = Some i)
                  (ebind (is_total_time_reached env) (\<lambda>late.
                     if late then eseq (stop_at_limit env ''max_total_time'' i) (ereturn False)
                     else eseq (on_run_complete env) (ereturn True)))
                  (ereturn True)))))"

text \<open>\<open>match_exit\<close> is the \<open>match\<close> of \<open>_handle_exit\<close>, \<open>checked_exit\<close> what precedes it for the exits without a case of their own.\<close>

definition match_exit :: "'m env \<Rightarrow> native_exit option \<Rightarrow> ('m, bool) meth" where
  "match_exit env x =
     (case x of
        Some Run_return \<Rightarrow> eseq (on_run_complete env) (ereturn False)
      | Some Fault_return \<Rightarrow> eseq (on_run_complete env) (ereturn False)
      | Some (Exec_recovery page perms) \<Rightarrow>
          eseq (emod (upd_emu (\<lambda>m. m\<lparr>em_mem := ev_protect env page perms (em_mem m)\<rparr>))) (ereturn True)
      | Some Callback_return \<Rightarrow> eseq (on_guest (continue_guest_callback (ev_ops env))) (ereturn True)
      | _ \<Rightarrow> ereturn True)"

definition checked_exit :: "'m env \<Rightarrow> nat \<Rightarrow> native_exit option \<Rightarrow> ('m, bool) meth" where
  "checked_exit env i x =
     eif pending_stop (ereturn False)
       (ebind (is_total_time_reached env) (\<lambda>late.
          if late then eseq (stop_at_limit env ''max_total_time'' i) (ereturn False)
          else eseq (emod (\<lambda>s. s\<lparr>lp_exit := None\<rparr>)) (match_exit env x)))"

definition handle_exit :: "'m env \<Rightarrow> nat \<Rightarrow> ('m, bool) meth" where
  "handle_exit env i =
     ebind (eget lp_exit) (\<lambda>x. case x of
       Some (Raised_exception r) \<Rightarrow>
         eseq (emod (\<lambda>s. s\<lparr>lp_exit := None\<rparr>)) (eseq (dispatch_cpu_exception env r) (ereturn True))
     | Some (Suspended_api_call entry _ _ _) \<Rightarrow>
         ebind (get_reached_limit env) (\<lambda>reached. case reached of
           Some kind \<Rightarrow> eseq (stop_at_limit env kind i) (ereturn False)
         | None \<Rightarrow> eif pending_stop (ereturn False) (dispatch_api_entry env entry i))
     | _ \<Rightarrow> checked_exit env i x)"

subsection \<open>One run\<close>

text \<open>\<open>end_prepared\<close> is what happens to the current run when the total time ends in the call for the run \<open>i\<close>: the run of
  the call gets the error, a run that was only prepared is canceled.\<close>

definition end_prepared :: "nat \<Rightarrow> 'm loop \<Rightarrow> 'm loop" where
  "end_prepared i s =
     (case lp_curr s of
        None \<Rightarrow> s
      | Some p \<Rightarrow>
          (if p = i
           then (if lp_run_complete s then s else keep_error i (plain_error ''max_total_time'' (pc_of s)) s)
           else let s = cancel_runs (Some p) s
                in if gr_elapsed (lp_heap s p) = 0 \<and> gr_apis (lp_heap s p) = 0
                   then s\<lparr>lp_runs := filter (\<lambda>q. q \<noteq> p) (lp_runs s), lp_curr := Some i, lp_run_complete := True\<rparr>
                   else s))"

definition charge_total :: "nat \<Rightarrow> rat \<Rightarrow> 'm loop \<Rightarrow> 'm loop" where
  "charge_total i elapsed s =
     (case (if rl_total (lp_limits s) then lp_total s else None) of
        None \<Rightarrow> s
      | Some t \<Rightarrow>
          (let t = t\<lparr>tb_elapsed := tb_elapsed t + elapsed\<rparr>; s = s\<lparr>lp_total := Some t\<rparr>
           in if \<not> (0 < tb_limit t \<and> tb_limit t \<le> tb_elapsed t) then s
              else let s = end_prepared i (exhaust_total s)
                   in tell_debugger (request_stop (stop_at ''max_total_time'' (pc_of s))) s))"

definition end_at_shutdown :: "'m env \<Rightarrow> nat \<Rightarrow> 'm loop \<Rightarrow> 'm loop" where
  "end_at_shutdown env i s =
     (if exit_event env s \<and> \<not> debugging s \<and> lp_curr s = Some i \<and> \<not> lp_run_complete s
      then cancel_runs None (keep_error i (plain_error ''timeout'' (pc_of s)) s) else s)"

definition finish_current_run_execution :: "'m env \<Rightarrow> nat \<Rightarrow> ('m, unit) meth" where
  "finish_current_run_execution env i =
     ebind (read_clock env) (\<lambda>now.
       eseq (emod (\<lambda>s. upd_run i (\<lambda>r. r\<lparr>gr_elapsed := rl_spent (lp_limits s) + (now - rl_started (lp_limits s))\<rparr>) s))
         (eseq (emod (end_at_shutdown env i))
           (emod (\<lambda>s. charge_total i (now - rl_started (lp_limits s)) s))))"

datatype phase = Ends | Again | Handles

definition start_phase :: "'m env \<Rightarrow> nat \<Rightarrow> bool \<Rightarrow> int \<Rightarrow> ('m, phase) meth" where
  "start_phase env i stepping address =
     ebind (get_reached_limit env) (\<lambda>reached. case reached of
       Some kind \<Rightarrow> eseq (stop_at_limit env kind i) (ereturn Ends)
     | None \<Rightarrow>
         ebind (start_unicorn env address i stepping) (\<lambda>ok.
           if \<not> ok then ereturn Ends
           else eseq (emod (\<lambda>s. if lp_exit s = None then s\<lparr>lp_exit := get_exit_at_pc env s\<rparr> else s))
                  (eif (\<lambda>s. case lp_exit s of Some (Raised_exception _) \<Rightarrow> True | _ \<Rightarrow> False) (ereturn Handles)
                     (eif (\<lambda>s. lp_curr s \<noteq> Some i \<or> lp_emu_complete s \<or> pending_stop s) (ereturn Ends)
                        (eif (\<lambda>s. lp_exit s = None) (eseq (stop_without_exit env i) (ereturn Ends)) (ereturn Again))))))"

primrec rounds :: "nat \<Rightarrow> 'm env \<Rightarrow> nat \<Rightarrow> bool \<Rightarrow> int \<Rightarrow> ('m, unit) meth" where
  "rounds 0 env i stepping address = eraise Going_on"
| "rounds (Suc n) env i stepping address =
     eif lp_emu_complete (ereturn ()) (eif (exit_event env) (emod engine_stop)
       (ebind (eif (\<lambda>s. lp_exit s = None) (start_phase env i stepping address) (ereturn Handles)) (\<lambda>p. case p of
          Ends \<Rightarrow> ereturn ()
        | Again \<Rightarrow> rounds n env i stepping address
        | Handles \<Rightarrow>
            ebind (handle_exit env i) (\<lambda>go_on.
              if \<not> go_on then ereturn ()
              else eif (\<lambda>s. lp_fault_stop s \<noteq> None \<or> lp_curr s \<noteq> Some i \<or> (debugging s \<and> (pending_stop s \<or> stepping)))
                     (ereturn ())
                     (ebind (eget pc_of) (rounds n env i stepping))))))"

definition is_going_on :: "loop_error \<Rightarrow> bool" where "is_going_on e \<longleftrightarrow> e = Going_on"

definition execute_current_run :: "nat \<Rightarrow> 'm env \<Rightarrow> int \<Rightarrow> rat \<Rightarrow> int \<Rightarrow> ('m, unit) meth" where
  "execute_current_run n env address timeout count =
     ebind (drop_stale_exit env address) (\<lambda>address. ebind (eget lp_curr) (\<lambda>curr. case curr of
       None \<Rightarrow> raise_error AssertionError
     | Some i \<Rightarrow>
         ebind (eget (\<lambda>s. (debugging s, lp_limits s))) (\<lambda>(dbg, outer).
           ebind (from_run env i timeout (if dbg then ev_max_instructions env else count)) (\<lambda>l.
             eseq (emod (\<lambda>s. s\<lparr>lp_limits := l\<rparr>))
               (efinally (\<lambda>_. False)
                  (efinally is_going_on (rounds n env i (dbg \<and> count = 1) address) (finish_current_run_execution env i))
                  (emod (\<lambda>s. s\<lparr>lp_limits := outer\<rparr>)))))))"

definition resume_emulation :: "nat \<Rightarrow> 'm env \<Rightarrow> int \<Rightarrow> int \<Rightarrow> ('m, unit) meth" where
  "resume_emulation n env address count =
     eseq (emod (\<lambda>s.
         let s = (if lp_curr s = None
                  then (let (i, s) = alloc_run (new_run ''unknown'' None []) s in s\<lparr>lp_curr := Some i\<rparr>) else s)
         in s\<lparr>lp_emu_complete := False\<rparr>))
       (execute_current_run n env address (if ev_session env \<noteq> None then 0 else ev_max_run_time env) count)"

subsection \<open>All runs\<close>

datatype decision = Continue | Break | Return bool

definition local_action :: "resume_action \<Rightarrow> 'm loop \<Rightarrow> 'm loop" where
  "local_action a s = s\<lparr>lp_locals := (lp_locals s)\<lparr>rv_action := a\<rparr>\<rparr>"

definition local_signal :: "nat \<Rightarrow> 'm loop \<Rightarrow> 'm loop" where
  "local_signal n s = s\<lparr>lp_locals := (lp_locals s)\<lparr>rv_signal := n\<rparr>\<rparr>"

definition local_detached :: "int option \<Rightarrow> 'm loop \<Rightarrow> 'm loop" where
  "local_detached a s = s\<lparr>lp_locals := (lp_locals s)\<lparr>rv_detached := a\<rparr>\<rparr>"

definition end_at_total_budget :: "'m env \<Rightarrow> bool \<Rightarrow> ('m, unit) meth" where
  "end_at_total_budget env notify_client =
     eseq (emod (cancel_runs None))
       (eseq (eif lp_run_complete (ereturn ()) (eseq (on_run_complete env) (ereturn ())))
          (eseq (emod (\<lambda>s. if notify_client then tell_debugger (notify_exit 0) s else s)) (emod on_emu_complete)))"

definition total_exhausted :: "'m loop \<Rightarrow> bool" where
  "total_exhausted s = (case lp_total s of None \<Rightarrow> False | Some t \<Rightarrow> tb_exhausted t)"

definition take_fault_stop :: "('m, stop_reason option) meth" where
  "take_fault_stop s = (Inr (lp_fault_stop s), s\<lparr>lp_fault_stop := None\<rparr>)"

definition resume_address :: "('m, int) meth" where
  "resume_address =
     eif debugging (eget pc_of)
       (ebind (eget (\<lambda>s. (rv_detached (lp_locals s), case lp_curr s of None \<Rightarrow> None | Some i \<Rightarrow> gr_start (lp_heap s i))))
          (\<lambda>(detached, first). case (if detached = None \<or> detached = Some 0 then first else detached) of
             None \<Rightarrow> raise_error WindowsEmuError
           | Some a \<Rightarrow> eseq (emod (local_detached None)) (ereturn a)))"

text \<open>What the loop does at a stop of the session, and at the end of a run without a stop.\<close>

definition at_stop :: "'m env \<Rightarrow> stop_reason \<Rightarrow> bool \<Rightarrow> ('m, decision) meth" where
  "at_stop env stop is_fault =
     ebind (commands env (Some stop)) (\<lambda>action.
       eseq (emod (local_action action))
         (eif (\<lambda>s. ra_kill action \<and> \<not> total_exhausted s) (ereturn (Return True))
            (eseq (emod (\<lambda>s. if ra_detach action then detach_debugger s else s))
               (eif total_exhausted
                  (eseq (end_at_total_budget env (\<not> ra_kill action)) (ereturn (Return True)))
                  (ebind (if is_fault then on_run_complete env else eget (\<lambda>_. Some 0)) (\<lambda>next_run.
                     if next_run = None then ereturn Break
                     else eseq (emod (\<lambda>s. if is_fault then local_signal 0 s else s))
                            (eseq (emod (\<lambda>s. if debugging s then s else local_detached (Some (pc_of s)) s))
                               (ereturn Continue))))))))"

definition after_stop_check :: "nat \<Rightarrow> ('m, decision) meth" where
  "after_stop_check i =
     eif (\<lambda>s. lp_curr s \<noteq> Some i \<and> \<not> lp_emu_complete s) (ereturn Continue) (ereturn Break)"

definition executed :: "'m env \<Rightarrow> nat \<Rightarrow> ('m, decision) meth" where
  "executed env i =
     eif (\<lambda>s. \<not> debugging s)
       (eif total_exhausted (eseq (end_at_total_budget env False) (ereturn Break)) (after_stop_check i))
       (ebind (\<lambda>s. case with_debugger (finish_run (rv_action (lp_locals s))) s of (r, s) \<Rightarrow> (Inr (Option.bind r id), s))
          (\<lambda>stop. ebind (eget lp_emu_complete) (\<lambda>done. ebind take_fault_stop (\<lambda>fault_stop.
             case fault_stop of
               Some f \<Rightarrow> eseq (emod (local_signal (sr_signal f))) (at_stop env f True)
             | None \<Rightarrow>
                 (case stop of
                    Some r \<Rightarrow> if sr_kind r = ''step'' \<and> done then after_stop_check i else at_stop env r False
                  | None \<Rightarrow> after_stop_check i)))))"

definition execute_next :: "nat \<Rightarrow> 'm env \<Rightarrow> ('m, decision) meth" where
  "execute_next n env =
     ebind (eget lp_curr) (\<lambda>curr. case curr of
       None \<Rightarrow> ereturn Break
     | Some i \<Rightarrow>
         ebind resume_address (\<lambda>address.
           ebind (\<lambda>s. case with_debugger (begin_run (ev_gdb env)) s of (r, s) \<Rightarrow> (Inr (r \<noteq> Some False), s)) (\<lambda>should_run.
             ebind (eget (\<lambda>s. if debugging s \<and> ra_step (rv_action (lp_locals s)) then 1 else ev_max_instructions env))
               (\<lambda>count.
                 eseq (if should_run then execute_current_run n env address (ev_max_run_time env) count else ereturn ())
                   (executed env i)))))"

text \<open>The handler of an exception of the loop.\<close>

definition failed :: "'m env \<Rightarrow> loop_error \<Rightarrow> ('m, decision) meth" where
  "failed env e =
     (if e = Interrupted
      then eseq (emod (\<lambda>s. tell_debugger (notify_signal 2) s)) (ereturn (Return False))
      else eif (exit_event env) (ereturn (Return False))
       (eseq (emod (\<lambda>s. local_signal 11 (set_run_error (error_info
            (if e = Engine Insn_invalid then ''invalid_instruction'' else ''internal_error'') (pc_of s) s) s)))
          (let complete = ebind (on_run_complete env) (\<lambda>next_run.
                 if next_run = None then ereturn Break else eseq (emod (local_signal 0)) (ereturn Continue))
           in eif debugging
                (eseq (\<lambda>s. (Inr (), snd (with_debugger (finish_run (rv_action (lp_locals s))) s)))
                   (ebind (eget pc_of) (\<lambda>pc.
                      ebind (commands env (Some \<lparr>sr_signal = 11, sr_kind = ''exception'', sr_address = Some pc\<rparr>))
                        (\<lambda>action. eseq (emod (local_action action))
                           (if ra_kill action then ereturn (Return True)
                            else eseq (emod (\<lambda>s. if ra_detach action then detach_debugger s else s)) complete)))))
                complete)))"

definition all_ended :: "'m env \<Rightarrow> ('m, bool) meth" where
  "all_ended env =
     eif (\<lambda>s. \<not> debugging s) (ereturn True)
       (eif (\<lambda>s. rv_signal (lp_locals s) \<noteq> 0)
          (eseq (emod (\<lambda>s. tell_debugger (notify_signal (int (rv_signal (lp_locals s)))) s)) (ereturn True))
          (ebind (commands env (Some \<lparr>sr_signal = 5, sr_kind = ''exit'', sr_address = None\<rparr>)) (\<lambda>action.
             if ra_kill action then ereturn True
             else eseq (emod (\<lambda>s. if ra_detach action then close_session s else tell_debugger (notify_exit 0) s))
                    (ereturn True))))"

primrec runs_loop :: "nat \<Rightarrow> nat \<Rightarrow> 'm env \<Rightarrow> ('m, bool) meth" where
  "runs_loop 0 n env = eraise Going_on"
| "runs_loop (Suc k) n env =
     ebind (etry (execute_next n env) (\<lambda>e. if e = Going_on then None else Some (failed env e))) (\<lambda>d. case d of
       Continue \<Rightarrow> runs_loop k n env
     | Break \<Rightarrow> all_ended env
     | Return b \<Rightarrow> ereturn b)"

definition execute_runs :: "nat \<Rightarrow> nat \<Rightarrow> 'm env \<Rightarrow> resume_action \<Rightarrow> ('m, bool) meth" where
  "execute_runs k n env action =
     ebind (eget lp_locals) (\<lambda>outer.
       eseq (emod (\<lambda>s. s\<lparr>lp_stop_on_faults := debugging s, lp_fault_stop := None,
              lp_locals := \<lparr>rv_action = action, rv_detached = None, rv_signal = 0\<rparr>\<rparr>))
         (efinally (\<lambda>_. False) (runs_loop k n env) (emod (\<lambda>s. s\<lparr>lp_locals := outer\<rparr>))))"

text \<open>\<open>start\<close>, and \<open>execution_scope\<close> around it.\<close>

definition run_session :: "nat \<Rightarrow> nat \<Rightarrow> 'm env \<Rightarrow> ('m, bool) meth" where
  "run_session k n env =
     (case ev_session env of
        None \<Rightarrow> execute_runs k n env (resume False)
      | Some d \<Rightarrow>
          eseq (emod (\<lambda>s. s\<lparr>lp_debugger := Some d\<rparr>))
            (efinally is_going_on
               (ebind (commands env None) (\<lambda>action.
                  if ra_kill action then ereturn True
                  else if ra_detach action then eseq (emod close_session) (execute_runs k n env (resume False))
                  else execute_runs k n env action))
               (emod close_session)))"

definition first_run :: "'m env \<Rightarrow> nat \<Rightarrow> nat list \<Rightarrow> ('m, nat) meth" where
  "first_run env i rest =
     eseq (emod (\<lambda>s. s\<lparr>lp_queue := rest, lp_run_complete := False, lp_emu_complete := False\<rparr>)) (prepare_run_context env i)"

definition start_queue :: "nat \<Rightarrow> nat \<Rightarrow> 'm env \<Rightarrow> ('m, unit) meth" where
  "start_queue k n env =
     eif total_exhausted (emod (cancel_runs None))
       (eseq (emod queue_startup_initializers)
          (ebind (eget lp_queue) (\<lambda>queue. case queue of
             [] \<Rightarrow> ereturn ()
           | i # rest \<Rightarrow>
               eseq (first_run env i rest)
                 (ebind (run_session k n env) (\<lambda>completed.
                    emod (\<lambda>s. if completed then on_emu_complete s else s))))))"

definition execution_scope :: "'m env \<Rightarrow> ('m, 'a) meth \<Rightarrow> ('m, 'a) meth" where
  "execution_scope env m =
     eif (\<lambda>s. lp_total s \<noteq> None) m
       (eseq (emod (\<lambda>s. s\<lparr>lp_total := Some \<lparr>tb_limit = ev_max_total_time env, tb_elapsed = 0, tb_exhausted = False\<rparr>\<rparr>))
          (efinally is_going_on m (emod (\<lambda>s. s\<lparr>lp_total := None\<rparr>))))"

definition start_emulation :: "nat \<Rightarrow> nat \<Rightarrow> 'm env \<Rightarrow> ('m, unit) meth" where
  "start_emulation k n env = execution_scope env (start_queue k n env)"

definition call_address :: "nat \<Rightarrow> nat \<Rightarrow> 'm env \<Rightarrow> int \<Rightarrow> int list \<Rightarrow> ('m, unit) meth" where
  "call_address k n env address params =
     eseq (on_cpu (reset_machine env))
       (ebind (\<lambda>s. case alloc_run (new_run ''call'' (Some address) params) s of (i, s) \<Rightarrow> (Inr i, s)) (\<lambda>i.
          ebind (eget (\<lambda>s. lp_queue s = [])) (\<lambda>idle.
            eseq (emod (add_run i)) (if idle then start_emulation k n env else ereturn ()))))"

end
