(* ===== verification/Loop_Relations.thy ===== *)
theory Loop_Relations
  imports Run_Loop
begin

text \<open>
  Relations that the execution loop respects. The locale \<open>queue_steps\<close> states what a relation must allow: changes that
  touch neither the queues nor the accounts of the runs, the removal of runs from the queues and the entry of the first
  run of the queue. \<open>loop_steps\<close> adds the APIs, \<open>engine_steps\<close> the engine and \<open>run_steps\<close> the execution of one run.
  They have the rule for every method of the loop, for an emulator without a debugger.
\<close>

subsection \<open>Changes outside the queues and the accounts\<close>

definition neutral :: "'m loop \<Rightarrow> 'm loop \<Rightarrow> bool" where
  "neutral s t \<longleftrightarrow> lp_limits t = lp_limits s \<and> lp_queue t = lp_queue s \<and> lp_suspended t = lp_suspended s \<and>
     lp_runs t = lp_runs s \<and> lp_next t = lp_next s \<and> lp_debugger t = lp_debugger s \<and> lp_time s \<le> lp_time t \<and>
     (\<forall>j. gr_budget (lp_heap t j) = gr_budget (lp_heap s j) \<and> gr_executed (lp_heap t j) = gr_executed (lp_heap s j))"

interpretation neutral: state_preorder neutral
  by unfold_locales (auto simp: neutral_def)

named_theorems neutral_rules \<open>neutral changes\<close>

lemma neutral_eq:
  "lp_limits t = lp_limits s \<Longrightarrow> lp_queue t = lp_queue s \<Longrightarrow> lp_suspended t = lp_suspended s \<Longrightarrow> lp_runs t = lp_runs s \<Longrightarrow>
     lp_next t = lp_next s \<Longrightarrow> lp_debugger t = lp_debugger s \<Longrightarrow> lp_heap t = lp_heap s \<Longrightarrow> lp_time s \<le> lp_time t \<Longrightarrow>
     neutral s t"
  by (simp add: neutral_def)

lemma neutral_trans: "neutral s t \<Longrightarrow> neutral t u \<Longrightarrow> neutral s u"
  by (rule neutral.trans)

lemma neutral_upd_run: "(\<And>r. gr_budget (f r) = gr_budget r \<and> gr_executed (f r) = gr_executed r) \<Longrightarrow> neutral s (upd_run i f s)"
  by (simp add: neutral_def upd_run_def)

lemma neutral_basic [neutral_rules, simp]:
  "neutral s s" "neutral s (upd_emu f s)" "neutral s (upd_pc pc s)" "neutral s (record_exit x s)"
  "neutral s (set_run_error e s)" "neutral s (end_run_on_fault s)" "neutral s (keep_error i e s)"
  "neutral s (on_emu_complete s)" "neutral s (cancel_initializer r s)" "neutral s (enter_process i s)"
  "neutral s (forget_fault s)" "neutral s (local_signal n s)" "neutral s (local_detached a s)" "neutral s (local_action b s)"
  "neutral s (raise_cpu_exception z s)" "neutral s (engine_stop s)"
  by (auto simp: neutral.refl engine_stop_def upd_emu_def upd_pc_def record_exit_def set_run_error_def end_run_on_fault_def Let_def
      keep_error_def neutral_upd_run on_emu_complete_def cancel_initializer_def enter_process_def forget_fault_def
      local_signal_def local_detached_def local_action_def raise_cpu_exception_def neutral_eq
      split: option.split)

lemma neutral_take_error [neutral_rules, simp]: "neutral s (take_error s)" for s :: "'m loop"
proof (cases "em_error (emu_of s)")
  case (Some e)
  let ?t = "upd_emu (\<lambda>m. m\<lparr>em_error := None, em_ended := False\<rparr>) s :: 'm loop"
  have "neutral s (set_run_error (error_info (cb_kind e) (cb_address e) s) ?t)"
    using neutral_trans [OF neutral_basic(2) neutral_basic(5)] .
  then show ?thesis using Some neutral_trans [OF _ neutral_basic(6)] by (simp add: take_error_def)
qed (simp add: take_error_def)

lemma neutral_cancel_initializers [simp]: "neutral s (cancel_initializers rs s)"
  unfolding cancel_initializers_def
  by (induction rs arbitrary: s) (auto intro: neutral_trans neutral_basic)

lemma neutral_on_guest: "neutral s (snd (on_guest f s))"
proof (cases "f (lp_cpu s)")
  case (Pair r g)
  have "neutral s (s\<lparr>lp_cpu := g\<rparr>)" by (simp add: neutral_eq)
  then have "neutral s (take_error (s\<lparr>lp_cpu := g\<rparr>))" using neutral_take_error neutral_trans by blast
  then show ?thesis using Pair by (simp add: on_guest_def)
qed

lemma moves_on_guest: "moves neutral (on_guest f)"
  by (simp add: moves_def neutral_on_guest)

lemma neutral_enter_thread [simp]: "neutral s (enter_thread i s)"
  by (auto simp: enter_thread_def Let_def upd_run_def neutral_def split: option.split)

lemma neutral_read_clock: "moves neutral (read_clock env)"
  by (simp add: moves_def read_clock_def neutral_eq)

lemma neutral_deadline: "moves neutral (deadline_passed env)"
  unfolding deadline_passed_def by (intro neutral.rules neutral_read_clock)

lemma neutral_limit_checks:
  "moves neutral (get_reached_limit env)" "moves neutral (is_total_time_reached env)" "moves neutral (get_native_timeout env)"
  "moves neutral (stopped_at_hlt env count)" "moves neutral (from_run env i timeout b)"
  unfolding get_reached_limit_def is_total_time_reached_def get_native_timeout_def stopped_at_hlt_def from_run_def
  by (intro neutral.rules neutral_deadline neutral_read_clock)+

subsection \<open>Emulators without a debugger\<close>

text \<open>The condition \<open>c\<close> is what the relation needs of the engine and the APIs.\<close>

definition quiet :: "bool \<Rightarrow> ('m loop \<Rightarrow> 'm loop \<Rightarrow> bool) \<Rightarrow> 'm loop \<Rightarrow> 'm loop \<Rightarrow> bool" where
  "quiet c R s t \<longleftrightarrow> (c \<longrightarrow> lp_debugger s = None \<longrightarrow> lp_debugger t = None \<and> R s t)"

lemma quiet_debugging:
  "moves (quiet c R) n \<Longrightarrow> moves (quiet c R) (eif debugging m n)"
  "moves (quiet c R) m \<Longrightarrow> moves (quiet c R) (eif (\<lambda>s. \<not> debugging s) m n)"
  by (auto simp: moves_def quiet_def eif_def debugging_def)

lemma no_debugger [simp]:
  "lp_debugger s = None \<Longrightarrow> with_debugger f s = (None, s)" "lp_debugger s = None \<Longrightarrow> tell_debugger g s = s"
  by (simp_all add: with_debugger_def tell_debugger_def)

locale queue_steps = state_preorder R for R :: "'m loop \<Rightarrow> 'm loop \<Rightarrow> bool" +
  fixes env :: "'m env" and c :: bool
  assumes neutral: "neutral s t \<Longrightarrow> R s t"
    and removal: "R s (s\<lparr>lp_queue := filter P (lp_queue s), lp_suspended := filter Q (lp_suspended s)\<rparr>)"
    and dropped: "R s (s\<lparr>lp_runs := filter P (lp_runs s)\<rparr>)"
    and entry: "lp_queue s = i # rest \<Longrightarrow> quiet c R s (snd (take_run env i rest s))"
    and frames: "quiet c R s (drop_frames env s)"
begin

sublocale q: state_preorder "quiet c R"
  by unfold_locales (auto simp: quiet_def intro: refl trans)

lemma quiet_neutral: "neutral s t \<Longrightarrow> quiet c R s t"
  using neutral by (auto simp: quiet_def neutral_def)

lemma moves_neutral: "moves neutral m \<Longrightarrow> moves (quiet c R) m"
  using quiet_neutral by (auto simp: moves_def)

lemma emod_neutral: "(\<And>s. neutral s (f s)) \<Longrightarrow> moves (quiet c R) (emod f)"
  by (intro moves_emod quiet_neutral)

lemma emod_quiet: "(\<And>s. lp_debugger s = None \<Longrightarrow> quiet c R s (f s)) \<Longrightarrow> moves (quiet c R) (emod f)"
  by (auto simp: moves_def quiet_def)

lemma cancel: "quiet c R s (cancel_runs prepared s)"
proof -
  let ?t = "cancel_initializers (routines_of (lp_queue s @ lp_suspended s @
      (case prepared of None \<Rightarrow> [] | Some i \<Rightarrow> [i])) s) s"
  have "quiet c R ?t (?t\<lparr>lp_queue := [], lp_suspended := []\<rparr>)"
    using removal [of ?t "\<lambda>_. False" "\<lambda>_. False"] by (simp add: quiet_def)
  then show ?thesis using q.trans [OF quiet_neutral [OF neutral_cancel_initializers]] by (simp add: cancel_runs_def Let_def)
qed

lemma exhaust: "quiet c R s (exhaust_total s)"
  unfolding exhaust_total_def by (rule q.trans [OF quiet_neutral cancel]) (simp add: neutral_eq)

lemma removed: "quiet c R s (s\<lparr>lp_queue := filter P (lp_queue s)\<rparr>)"
proof -
  have "s\<lparr>lp_queue := filter P (lp_queue s), lp_suspended := filter (\<lambda>_. True) (lp_suspended s)\<rparr> =
      s\<lparr>lp_queue := filter P (lp_queue s)\<rparr>" by simp
  then have "R s (s\<lparr>lp_queue := filter P (lp_queue s)\<rparr>)" using removal [where P = P and Q = "\<lambda>_. True"] by metis
  then show ?thesis by (simp add: quiet_def)
qed

lemma failed_initializer: "quiet c R s (fail_initializer i r s)"
proof -
  define t where "t = (if gr_error (lp_heap s i) = None
    then upd_run i (\<lambda>x. x\<lparr>gr_error := Some (plain_error ''dll_initialization_failed'' (pc_of s))\<rparr>) s else s)"
  define u where "u = t\<lparr>lp_load_states := (lp_load_states t)((ir_module r, ir_pid r) := Some Init_error)\<rparr>"
  obtain P where "fail_initializer i r s = u\<lparr>lp_queue := filter P (lp_queue u)\<rparr>"
    by (simp add: fail_initializer_def Let_def t_def u_def)
  moreover have "neutral s u" by (simp add: neutral_def upd_run_def t_def u_def)
  ultimately show ?thesis using q.trans [OF quiet_neutral removed] by simp
qed

lemma finish_initializers: "moves (quiet c R) (finish_run_initializers env run)"
proof -
  have "quiet c R s (case gr_routine (lp_heap s i) of None \<Rightarrow> s
      | Some r \<Rightarrow> (case finish_initializer r v faulted s of (True, s) \<Rightarrow> s | (False, s) \<Rightarrow> fail_initializer i r s))"
    for s :: "'m loop" and i v faulted
    by (auto simp: finish_initializer_def failed_initializer q.refl quiet_neutral neutral_eq split: option.split)
  then show ?thesis
    unfolding finish_run_initializers_def raise_error_def
    by (intro q.rules moves_emod frames)
qed

lemma next_run: "moves (quiet c R) (prepare_next_run env)"
proof -
  have "moves (quiet c R) (ebind (eget lp_queue) (\<lambda>queue. case queue of
      [] \<Rightarrow> eseq (emod on_emu_complete) (ereturn None)
    | i # rest \<Rightarrow> ebind (take_run env i rest) (\<lambda>i. ereturn (Some i))))"
    unfolding moves_def
  proof (intro allI)
    fix s
    show "quiet c R s (snd (ebind (eget lp_queue) (\<lambda>queue. case queue of
        [] \<Rightarrow> eseq (emod on_emu_complete) (ereturn None)
      | i # rest \<Rightarrow> ebind (take_run env i rest) (\<lambda>i. ereturn (Some i))) s))"
    proof (cases "lp_queue s")
      case Nil
      then show ?thesis by (simp add: ebind_def eseq_def quiet_neutral)
    next
      case (Cons i rest)
      obtain r t where "take_run env i rest s = (r, t)" by (cases "take_run env i rest s")
      then show ?thesis using entry [OF Cons] Cons by (cases r) (simp_all add: ebind_def)
    qed
  qed
  note queue = this
  show ?thesis
    unfolding prepare_next_run_def
    by (rule q.moves_ebind [OF q.moves_basic(3)], rule q.moves_eseq [OF finish_initializers],
        rule q.moves_eseq [OF emod_neutral queue]) (simp add: neutral_eq)
qed

lemma run_complete: "moves (quiet c R) (on_run_complete env)"
  unfolding on_run_complete_def Let_def
  by (intro q.rules next_run emod_neutral) (auto simp: neutral_def upd_run_def split: option.split)

lemma limit_stop: "moves (quiet c R) (stop_at_limit env kind i)"
proof -
  have "quiet c R s (if kind = ''max_total_time''
      then (let s = exhaust_total s in if lp_curr s = Some i then keep_error i (plain_error kind (pc_of s)) s else s) else s)"
    for s :: "'m loop"
    using exhaust q.trans [OF exhaust quiet_neutral [OF neutral_basic(7)]] by (auto simp: Let_def q.refl)
  then show ?thesis
    unfolding stop_at_limit_def
    by (intro q.rules quiet_debugging run_complete emod_neutral moves_emod)
      (auto split: option.split native_exit.split)
qed

lemma stop_unexplained: "moves (quiet c R) (stop_without_exit env i)"
  unfolding stop_without_exit_def
  by (intro q.rules limit_stop run_complete emod_neutral moves_neutral neutral_limit_checks neutral_upd_run) simp

lemma cpu_exception: "moves (quiet c R) (dispatch_cpu_exception env x)"
proof -
  have "neutral s ((upd_pc pc (f s))\<lparr>lp_prev_pc := pc\<rparr>)" if "neutral s (f s)" for f and s :: "'m loop" and pc
    using that by (auto simp: neutral_def upd_pc_def upd_emu_def)
  then show ?thesis
    unfolding dispatch_cpu_exception_def Let_def
    by (intro q.rules moves_neutral [OF moves_on_guest] emod_neutral)
      (auto simp: neutral_def upd_pc_def upd_emu_def split: option.split)
qed

lemma moves_guest: "moves (quiet c R) (on_guest f)"
  by (rule moves_neutral [OF moves_on_guest])

lemma exit_matched: "moves (quiet c R) (match_exit env x)"
proof -
  have "moves (quiet c R) (emod (upd_emu f))" for f by (rule emod_neutral) simp
  then show ?thesis
    unfolding match_exit_def
    by (auto split: option.split native_exit.split intro!: q.moves_eseq q.moves_basic run_complete moves_guest)
qed

lemma exit_cleared: "moves (quiet c R) (emod (\<lambda>s. s\<lparr>lp_exit := None\<rparr>))"
  by (intro emod_neutral) (simp add: neutral_eq)

lemma exit_checked: "moves (quiet c R) (checked_exit env i x)"
  unfolding checked_exit_def
  by (intro q.rules limit_stop exit_cleared exit_matched moves_neutral neutral_limit_checks)

end

text \<open>A relation that the implementations of the APIs respect too.\<close>

locale loop_steps = queue_steps +
  assumes api: "moves (quiet c R) (ev_api env e)"
begin

lemma quiet_guarded: "moves (quiet c R) n \<Longrightarrow> moves (quiet c R) (eif (\<lambda>s. debugging s \<and> b) m n)"
  by (auto simp: moves_def quiet_def eif_def debugging_def)

lemma api_entry: "moves (quiet c R) (dispatch_api_entry env e i)"
  unfolding dispatch_api_entry_def
  by (rule quiet_guarded)
    (intro q.rules api limit_stop run_complete emod_neutral moves_neutral neutral_limit_checks; simp add: neutral_eq)

lemma exit_handled: "moves (quiet c R) (handle_exit env i)"
proof -
  have "moves (quiet c R) (ebind (get_reached_limit env) (\<lambda>reached. case reached of
      Some kind \<Rightarrow> eseq (stop_at_limit env kind i) (ereturn False)
    | None \<Rightarrow> eif pending_stop (ereturn False) (dispatch_api_entry env entry i)))" for entry
    by (intro q.moves_ebind [OF moves_neutral [OF neutral_limit_checks(1)]] q.moves_cases q.moves_eseq q.moves_basic
        limit_stop api_entry)
  moreover have "moves (quiet c R)
      (eseq (emod (\<lambda>s. s\<lparr>lp_exit := None\<rparr>)) (eseq (dispatch_cpu_exception env r) (ereturn True)))" for r
    by (intro q.moves_eseq q.moves_basic exit_cleared cpu_exception)
  ultimately show ?thesis
    unfolding handle_exit_def
    by (intro q.moves_ebind [OF q.moves_basic(3)]) (auto split: option.split native_exit.split intro!: exit_checked)
qed

end

subsection \<open>Runs of the engine\<close>

text \<open>
  A relation that the engine respects too, in the call of the loop for the run \<open>i\<close>, when it starts with the count of the
  limits and the instruction limit is not reached.
\<close>

definition may_start :: "'m loop \<Rightarrow> bool" where
  "may_start s \<longleftrightarrow> (0 < rl_budget (lp_limits s) \<longrightarrow> 0 < rl_remaining (lp_limits s))"

lemma limit_not_reached: "get_reached_limit env s = (Inr None, t) \<Longrightarrow> lp_limits t = lp_limits s \<and> may_start t"
  by (auto simp: get_reached_limit_def deadline_passed_def read_clock_def ebind_def may_start_def Let_def
      split: option.splits if_splits)

lemma native_timeout_returns: "\<exists>x t. get_native_timeout env s = (Inr x, t)"
  by (cases "rl_deadline (lp_limits s)") (simp_all add: get_native_timeout_def ebind_def read_clock_def)

locale engine_steps = loop_steps R env c for R :: "'m loop \<Rightarrow> 'm loop \<Rightarrow> bool" and env :: "'m env" and c :: bool +
  fixes i :: nat
  assumes engine: "may_start s \<Longrightarrow>
    quiet c R s (snd (run_engine env address timeout (get_native_count (lp_limits s)) s))"
begin

lemma unicorn:
  assumes "may_start s"
  shows "quiet c R s (snd (start_unicorn env address i False s))"
proof -
  have "moves (quiet c R) (emod (\<lambda>s. if hlt then raise_cpu_exception (hlt_exception s) s else s))" for hlt
    by (rule emod_neutral) simp
  then have hlt: "moves (quiet c R) (eif (\<lambda>s. lp_curr s = Some i)
      (ebind (stopped_at_hlt env n) (\<lambda>hlt.
         eseq (emod (\<lambda>s. if hlt then raise_cpu_exception (hlt_exception s) s else s)) (ereturn True)))
      (ereturn True))" for n
    by (intro q.rules moves_neutral [OF neutral_limit_checks(4)])
  obtain timeout t where t: "get_native_timeout env s = (Inr timeout, t)" using native_timeout_returns by blast
  then have st: "neutral s t" using movesD [OF neutral_limit_checks(3)] by blast
  then have "may_start t" using assms by (simp add: may_start_def neutral_def)
  note eng = engine [OF this, of address timeout]
  obtain e u where u: "run_engine env address timeout (get_native_count (lp_limits t)) t = (Inr e, u)"
    by (cases "ev_engine env address timeout (get_native_count (lp_limits t)) (t\<lparr>lp_stopping := False\<rparr>)")
      (simp add: run_engine_def)
  define n where "n = get_native_count (lp_limits t)"
  define rest where "rest = (let hlt = eif (\<lambda>s. lp_curr s = Some i)
      (ebind (stopped_at_hlt env n) (\<lambda>hlt.
         eseq (emod (\<lambda>s. if hlt then raise_cpu_exception (hlt_exception s) s else s)) (ereturn True)))
      (ereturn True)
    in case e of
         None \<Rightarrow> hlt
       | Some x \<Rightarrow>
           eif (\<lambda>s. lp_fault_stop s \<noteq> None) (ereturn False)
             (eif (\<lambda>s. exit_explains_error x (lp_exit s)) hlt (eraise (Engine x))))"
  have "moves (quiet c R) rest" unfolding rest_def Let_def by (intro q.rules hlt)
  then have "quiet c R u (snd (rest u))" by (simp add: moves_def)
  moreover have "quiet c R t u" using eng u by simp
  moreover have "start_unicorn env address i False s = rest u"
    using t u by (simp add: start_unicorn_def ebind_def rest_def n_def)
  ultimately show ?thesis using q.trans [OF q.trans [OF quiet_neutral [OF st]]] by metis
qed

lemma start: "moves (quiet c R) (start_phase env i False address)"
  unfolding moves_def
proof (intro allI)
  fix s
  obtain r t where r: "get_reached_limit env s = (r, t)" by (cases "get_reached_limit env s")
  then have st: "quiet c R s t" using movesD [OF neutral_limit_checks(1)] quiet_neutral by blast
  define rest where "rest = (\<lambda>ok. if \<not> ok then ereturn Ends
      else eseq (emod (\<lambda>s. if lp_exit s = None then s\<lparr>lp_exit := get_exit_at_pc env s\<rparr> else s))
             (eif (\<lambda>s. case lp_exit s of Some (Raised_exception _) \<Rightarrow> True | _ \<Rightarrow> False) (ereturn Handles)
                (eif (\<lambda>s. lp_curr s \<noteq> Some i \<or> lp_emu_complete s \<or> pending_stop s) (ereturn Ends)
                   (eif (\<lambda>s. lp_exit s = None) (eseq (stop_without_exit env i) (ereturn Ends)) (ereturn Again)))))"
  have rest: "moves (quiet c R) (rest ok)" for ok
    unfolding rest_def by (intro q.rules stop_unexplained emod_neutral) (simp add: neutral_eq)
  have limit: "quiet c R t (snd (eseq (stop_at_limit env kind i) (ereturn Ends) t))" for kind
    using q.moves_eseq [OF limit_stop [of kind i] q.moves_basic(1) [of Ends]] by (simp only: moves_def)
  have go: "quiet c R t (snd (ebind (start_unicorn env address i False) rest t))" if "r = Inr None"
  proof -
    have "may_start t" using limit_not_reached r that by blast
    then have u: "quiet c R t (snd (start_unicorn env address i False t))" by (rule unicorn)
    obtain x v where v: "start_unicorn env address i False t = (x, v)" by (cases "start_unicorn env address i False t")
    have "quiet c R v (snd (rest ok v))" for ok using rest by (simp add: moves_def)
    then show ?thesis using u v q.trans by (cases x) (auto simp: ebind_def)
  qed
  have "start_phase env i False address s =
      (case r of Inl e \<Rightarrow> (Inl e, t)
       | Inr None \<Rightarrow> ebind (start_unicorn env address i False) rest t
       | Inr (Some kind) \<Rightarrow> eseq (stop_at_limit env kind i) (ereturn Ends) t)"
    unfolding start_phase_def rest_def [symmetric] using r by (auto simp: ebind_def [of "get_reached_limit env"] split: sum.split option.split)
  then show "quiet c R s (snd (start_phase env i False address s))"
    using st limit go q.trans [OF st] by (auto split: sum.split option.split)
qed

lemma all_rounds: "moves (quiet c R) (rounds n env i False address)"
proof (induction n arbitrary: address)
  case (Suc n)
  have "moves (quiet c R) (case p of Ends \<Rightarrow> ereturn () | Again \<Rightarrow> rounds n env i False address | Handles \<Rightarrow>
      ebind (handle_exit env i) (\<lambda>go_on. if \<not> go_on then ereturn ()
        else eif (\<lambda>s. lp_fault_stop s \<noteq> None \<or> lp_curr s \<noteq> Some i \<or> (debugging s \<and> (pending_stop s \<or> False)))
               (ereturn ()) (ebind (eget pc_of) (rounds n env i False))))" for p
    by (cases p) (auto intro!: q.rules exit_handled Suc.IH)
  then show ?case
    unfolding rounds.simps by (intro q.moves_ebind q.moves_cases q.moves_basic start emod_neutral neutral_basic)
qed (simp add: q.moves_basic)

lemma shutdown: "quiet c R s (end_at_shutdown env i s)"
proof -
  have "quiet c R s (cancel_runs None (keep_error i e s))" for e by (rule q.trans [OF quiet_neutral cancel]) simp
  then show ?thesis by (simp add: end_at_shutdown_def q.refl)
qed

lemma prepared: "quiet c R s (end_prepared i s)"
proof -
  have drop: "quiet c R s (s\<lparr>lp_runs := filter P (lp_runs s), lp_curr := x, lp_run_complete := b\<rparr>)"
    for P x b and s :: "'m loop"
  proof (rule q.trans)
    show "quiet c R s (s\<lparr>lp_runs := filter P (lp_runs s)\<rparr>)" using dropped by (simp add: quiet_def)
    show "quiet c R (s\<lparr>lp_runs := filter P (lp_runs s)\<rparr>)
        (s\<lparr>lp_runs := filter P (lp_runs s), lp_curr := x, lp_run_complete := b\<rparr>)"
      by (rule quiet_neutral) (simp add: neutral_eq)
  qed
  show ?thesis
    by (auto simp: end_prepared_def Let_def q.refl quiet_neutral intro: cancel q.trans [OF cancel drop] split: option.split)
qed

lemma charged: "quiet c R s (charge_total i elapsed s)"
proof -
  have "quiet c R s (tell_debugger g u)" if "quiet c R s u" for g and s u :: "'m loop"
    using that by (simp add: quiet_def)
  moreover have "quiet c R s (end_prepared i (exhaust_total (s\<lparr>lp_total := b\<rparr>)))" for b
    by (rule q.trans [OF q.trans [OF quiet_neutral exhaust] prepared]) (simp add: neutral_eq)
  ultimately show ?thesis
    by (auto simp: charge_total_def Let_def q.refl quiet_neutral neutral_eq split: option.split)
qed

lemma finished: "moves (quiet c R) (finish_current_run_execution env i)"
  unfolding finish_current_run_execution_def
  by (intro q.rules moves_neutral [OF neutral_read_clock] moves_emod shutdown charged)
    (simp add: quiet_neutral neutral_upd_run)

end

subsection \<open>The loop over the runs\<close>

text \<open>The limits that a call starts with.\<close>

lemma from_run_limits:
  assumes "from_run env i timeout n s = (Inr l, t)"
  shows "t = s\<lparr>lp_time := Suc (lp_time s)\<rparr>" "rl_origin l = i" "rl_started l = ev_clock env (lp_time s)" "rl_budget l = n"
    "rl_remaining l = (if 0 < n then max (n - gr_budget (lp_heap s i)) 0 else -1)"
    "0 < timeout \<Longrightarrow> \<exists>d. rl_deadline l = Some d \<and> d \<le> ev_clock env (lp_time s) + max (timeout - gr_elapsed (lp_heap s i)) 0"
proof -
  have "t = s\<lparr>lp_time := Suc (lp_time s)\<rparr> \<and> rl_origin l = i \<and> rl_started l = ev_clock env (lp_time s) \<and> rl_budget l = n \<and>
      rl_remaining l = (if 0 < n then max (n - gr_budget (lp_heap s i)) 0 else -1)"
    using assms by (auto simp: from_run_def ebind_def read_clock_def Let_def split_beta)
  then show "t = s\<lparr>lp_time := Suc (lp_time s)\<rparr>" "rl_origin l = i" "rl_started l = ev_clock env (lp_time s)" "rl_budget l = n"
    "rl_remaining l = (if 0 < n then max (n - gr_budget (lp_heap s i)) 0 else -1)" by simp_all
  assume "0 < timeout"
  then show "\<exists>d. rl_deadline l = Some d \<and> d \<le> ev_clock env (lp_time s) + max (timeout - gr_elapsed (lp_heap s i)) 0"
    using assms by (cases "lp_total s") (auto simp: from_run_def ebind_def read_clock_def Let_def)
qed

text \<open>The execution of one run, from a relation for its rounds that holds with the limits of the call.\<close>

lemma moves_step: "moves (quiet c R) m \<Longrightarrow> m s = (r, t) \<Longrightarrow> c \<Longrightarrow> lp_debugger s = None \<Longrightarrow> lp_debugger t = None \<and> R s t"
  using movesD [of "quiet c R"] by (auto simp: quiet_def)

lemma scoped_limits:
  assumes run: "moves (quiet c Q) m" and finish: "moves (quiet c Q) f" and Q: "state_preorder Q" and c: c and s: "lp_debugger s = None"
  shows "\<exists>r u. efinally (\<lambda>_. False) (efinally is_going_on m f) (emod (\<lambda>s. s\<lparr>lp_limits := outer\<rparr>)) s =
      (r, u\<lparr>lp_limits := outer\<rparr>) \<and> lp_debugger u = None \<and> Q s u"
proof -
  obtain r t where m: "m s = (r, t)" by (cases "m s")
  obtain r' u where f: "f t = (r', u)" by (cases "f t")
  have t: "lp_debugger t = None" "Q s t" using moves_step [OF run m c s] by blast+
  have u: "lp_debugger u = None" "Q s u"
    using moves_step [OF finish f c t(1)] state_preorder.trans [OF Q t(2)] by blast+
  show ?thesis using m f t u by (cases r; cases r') (auto simp: efinally_def ebind_def eraise_def)
qed

lemma stale_exit:
  "\<exists>a t. drop_stale_exit env address s = (Inr a, t) \<and> neutral s t \<and> lp_curr t = lp_curr s \<and> lp_heap t = lp_heap s"
proof -
  have n: "neutral s (s\<lparr>lp_exit := None\<rparr>)" by (simp add: neutral_eq)
  then have "neutral s (upd_pc a (s\<lparr>lp_exit := None\<rparr>))" for a by (rule neutral_trans) simp
  moreover have "lp_curr (upd_pc a u) = lp_curr u" "lp_heap (upd_pc a u) = lp_heap u" for a and u :: "'a loop"
    by (simp_all add: upd_pc_def upd_emu_def)
  ultimately show ?thesis
    using n by (cases "lp_exit s") (simp_all add: drop_stale_exit_def split: native_exit.split)
qed

lemma execution_rule:
  fixes R :: "'m loop \<Rightarrow> 'm loop \<Rightarrow> bool"
  assumes R: "state_preorder R" "\<And>s t. neutral s t \<Longrightarrow> R s t"
    and Q: "\<And>i. state_preorder (Q i)" "\<And>i a. moves (quiet c (Q i)) (rounds n env i False a)"
      "\<And>i. moves (quiet c (Q i)) (finish_current_run_execution env i)"
    and limits: "\<And>i s l t u outer. c \<Longrightarrow> lp_debugger s = None \<Longrightarrow> from_run env i timeout count s = (Inr l, t) \<Longrightarrow> neutral s t \<Longrightarrow>
      Q i (t\<lparr>lp_limits := l\<rparr>) u \<Longrightarrow> R s (u\<lparr>lp_limits := outer\<rparr>)"
  shows "moves (quiet c R) (execute_current_run n env address timeout count)"
  unfolding moves_def quiet_def
proof (intro allI impI)
  fix s :: "'m loop"
  assume c: c and s: "lp_debugger s = None"
  obtain a t where a: "drop_stale_exit env address s = (Inr a, t)" "neutral s t" using stale_exit by blast
  have t: "lp_debugger t = None" "R s t" using a s R(2) by (auto simp: neutral_def)
  show "lp_debugger (snd (execute_current_run n env address timeout count s)) = None \<and>
      R s (snd (execute_current_run n env address timeout count s))"
  proof (cases "lp_curr t")
    case None
    then show ?thesis using a t by (simp add: execute_current_run_def ebind_def raise_error_def)
  next
    case (Some i)
    obtain l u where l: "from_run env i timeout count t = (Inr l, u)"
      by (auto simp: from_run_def ebind_def read_clock_def Let_def)
    then have u: "neutral t u" using movesD [OF neutral_limit_checks(5)] by blast
    then have "lp_debugger (u\<lparr>lp_limits := l\<rparr>) = None" using t by (simp add: neutral_def)
    from scoped_limits [OF Q(2,3,1) c this] obtain r v where v:
      "efinally (\<lambda>_. False) (efinally is_going_on (rounds n env i False a) (finish_current_run_execution env i))
         (emod (\<lambda>s. s\<lparr>lp_limits := lp_limits t\<rparr>)) (u\<lparr>lp_limits := l\<rparr>) = (r, v\<lparr>lp_limits := lp_limits t\<rparr>)"
      "lp_debugger v = None" "Q i (u\<lparr>lp_limits := l\<rparr>) v" by blast
    have "execute_current_run n env address timeout count s = (r, v\<lparr>lp_limits := lp_limits t\<rparr>)"
      using a Some l v(1) t by (simp add: execute_current_run_def ebind_def eseq_def debugging_def)
    moreover have "R t (v\<lparr>lp_limits := lp_limits t\<rparr>)" using limits [OF c t(1) l u v(3)] .
    ultimately show ?thesis using v(2) state_preorder.trans [OF R(1) t(2)] by simp
  qed
qed

text \<open>A relation that the execution of one run respects, and the preparation of the first run.\<close>

locale run_steps = loop_steps +
  assumes execution: "moves (quiet c R) (execute_current_run n env address (ev_max_run_time env) (ev_max_instructions env))"
    and startup: "quiet c R s (queue_startup_initializers s)"
    and first: "lp_queue s = i # rest \<Longrightarrow> quiet c R s (snd (first_run env i rest s))"
begin

lemma quiet_with: "moves (quiet c R) (\<lambda>s. case with_debugger (g s) s of (r, s) \<Rightarrow> (h r, s))"
  by (simp add: moves_def quiet_def refl)

lemma quiet_eget: "(\<And>s. lp_debugger s = None \<Longrightarrow> moves (quiet c R) (k (f s))) \<Longrightarrow> moves (quiet c R) (ebind (eget f) k)"
  by (auto simp: moves_def quiet_def ebind_def)

lemma canceled: "moves (quiet c R) (emod (cancel_runs None))"
  by (intro moves_emod cancel)

lemma total_end: "moves (quiet c R) (end_at_total_budget env told)"
proof -
  have "quiet c R s (if told then tell_debugger g s else s)" for g and s :: "'a loop"
    by (simp add: quiet_def refl)
  then show ?thesis
    unfolding end_at_total_budget_def by (intro q.rules canceled run_complete emod_neutral moves_emod) auto
qed

lemma address: "moves (quiet c R) resume_address"
  unfolding resume_address_def
  by (intro quiet_debugging q.rules emod_neutral; simp add: raise_error_def q.moves_basic)

lemma after_run: "moves (quiet c R) (executed env i)"
  unfolding executed_def
  by (rule quiet_debugging(2), unfold after_stop_check_def) (intro q.rules total_end)

lemma next_step: "moves (quiet c R) (execute_next n env)"
proof -
  have "moves (quiet c R) (ebind (eget (\<lambda>s. if debugging s \<and> ra_step (rv_action (lp_locals s)) then 1 else ev_max_instructions env))
      (\<lambda>count. eseq (if b then execute_current_run n env a (ev_max_run_time env) count else ereturn ()) (executed env i)))"
    for a b i
    by (rule quiet_eget) (simp add: debugging_def q.moves_eseq execution after_run q.moves_basic)
  note step = this
  show ?thesis
    unfolding execute_next_def
    by (intro q.moves_ebind [OF q.moves_basic(3)] q.moves_cases(3) [OF q.moves_basic(1)] q.moves_ebind [OF address]
        q.moves_ebind [OF quiet_with] step)
qed

lemma failure: "moves (quiet c R) (failed env e)"
proof -
  have told: "moves (quiet c R) (emod (tell_debugger g))" for g by (simp add: moves_def quiet_def refl)
  then show ?thesis
    unfolding failed_def Let_def
    by (intro quiet_debugging q.moves_cases q.moves_eseq q.moves_ebind q.moves_basic run_complete told)
      (rule emod_neutral, simp add: neutral_trans [OF neutral_basic(5) neutral_basic(12)])+
qed

lemma ended: "moves (quiet c R) (all_ended env)"
  unfolding all_ended_def by (intro quiet_debugging q.moves_basic)

lemma loop: "moves (quiet c R) (runs_loop k n env)"
proof (induction k)
  case (Suc k)
  have "moves (quiet c R) (case d of Continue \<Rightarrow> runs_loop k n env | Break \<Rightarrow> all_ended env | Return b \<Rightarrow> ereturn b)" for d
    by (cases d) (auto intro: Suc.IH ended q.moves_basic)
  moreover have "moves (quiet c R) (etry (execute_next n env) (\<lambda>e. if e = Going_on then None else Some (failed env e)))"
    by (rule q.moves_etry [OF next_step]) (auto simp: failure split: if_splits)
  ultimately show ?case by (simp add: q.moves_ebind)
qed (simp only: runs_loop.simps q.moves_basic)

lemma all_runs: "moves (quiet c R) (execute_runs k n env action)"
  unfolding execute_runs_def by (intro q.rules loop emod_neutral) (simp_all add: neutral_eq)

lemma queue: "ev_session env = None \<Longrightarrow> moves (quiet c R) (start_queue k n env)"
proof -
  assume "ev_session env = None"
  then have session: "moves (quiet c R) (run_session k n env)" by (simp add: run_session_def all_runs)
  have rest: "moves (quiet c R) (ebind (run_session k n env) (\<lambda>completed. emod (\<lambda>s. if completed then on_emu_complete s else s)))"
    by (intro q.rules session emod_neutral) simp
  have "moves (quiet c R) (ebind (eget lp_queue) (\<lambda>queue. case queue of [] \<Rightarrow> ereturn () | i # rest \<Rightarrow>
      eseq (first_run env i rest) (ebind (run_session k n env) (\<lambda>completed. emod (\<lambda>s. if completed then on_emu_complete s else s)))))"
    (is "moves _ ?m")
    unfolding moves_def
  proof (intro allI)
    fix s
    show "quiet c R s (snd (?m s))"
    proof (cases "lp_queue s")
      case (Cons i rest)
      obtain r t where run: "first_run env i rest s = (r, t)" by (cases "first_run env i rest s")
      have "quiet c R s t" using first [OF Cons] run by simp
      moreover have "quiet c R t (snd (ebind (run_session k n env)
          (\<lambda>completed. emod (\<lambda>s. if completed then on_emu_complete s else s)) t))"
        using rest by (simp add: moves_def)
      ultimately show ?thesis using Cons run q.trans by (cases r) (auto simp: ebind_def eseq_def)
    qed (simp add: ebind_def q.refl)
  qed
  note queue = this
  show ?thesis
    unfolding start_queue_def
    by (rule q.moves_cases(1) [OF canceled], rule q.moves_eseq [OF _ queue], rule moves_emod, rule startup)
qed

lemma emulation: "ev_session env = None \<Longrightarrow> moves (quiet c R) (start_emulation k n env)"
  unfolding start_emulation_def execution_scope_def
  by (intro q.rules queue emod_neutral) (simp_all add: neutral_eq)

end

end
