(* ===== verification/Run_Accounts.thy ===== *)
theory Run_Accounts
  imports Loop_Relations
begin

text \<open>
  The instruction budget of a run. What an engine may do is the relation \<open>guest_runs\<close>, which states the documented behaviour of
  \<^verbatim>\<open>uc_emu_start\<close>, \<^verbatim>\<open>uc_emu_stop\<close> and code hooks: before an instruction it calls the accounting hook,
  if the call of the loop added one; it starts no instruction after a stop; and with a count above 0 it executes at most so
  many instructions. Whether the instruction whose hook stops the engine is still executed is left open. Everything else
  that happens in the engine leaves the accounts alone.
\<close>

definition budget :: "'m loop \<Rightarrow> nat \<Rightarrow> int" where "budget s j = gr_budget (lp_heap s j)"

definition executed_by :: "'m loop \<Rightarrow> nat \<Rightarrow> nat" where "executed_by s j = gr_executed (lp_heap s j)"

definition same_account :: "'m loop \<Rightarrow> 'm loop \<Rightarrow> nat \<Rightarrow> bool" where
  "same_account s t j \<longleftrightarrow> budget t j = budget s j \<and> executed_by t j = executed_by s j"

text \<open>No account changes, except that a new run has an empty one, and no debugger is attached.\<close>

definition same_accounts :: "'m loop \<Rightarrow> 'm loop \<Rightarrow> bool" where
  "same_accounts s t \<longleftrightarrow> lp_limits t = lp_limits s \<and> lp_debugger t = lp_debugger s \<and>
     (\<forall>j. same_account s t j \<or> budget t j = 0 \<and> executed_by t j = 0)"

definition instruction_hook :: "'m env \<Rightarrow> int \<Rightarrow> 'm loop \<Rightarrow> 'm loop" where
  "instruction_hook env address s = (if 0 < rl_budget (lp_limits s) then account_instruction env address s else s)"

definition count_executed :: "'m loop \<Rightarrow> 'm loop" where
  "count_executed s = upd_run (rl_origin (lp_limits s)) (\<lambda>r. r\<lparr>gr_executed := gr_executed r + 1\<rparr>) s"

text \<open>\<open>guest_runs env count s k t\<close>: a start of the engine with \<open>count\<close> came from \<open>s\<close> to \<open>t\<close> and executed \<open>k\<close> instructions.\<close>

inductive guest_runs :: "'m env \<Rightarrow> int \<Rightarrow> 'm loop \<Rightarrow> nat \<Rightarrow> 'm loop \<Rightarrow> bool" for env count s where
  nothing: "guest_runs env count s 0 s"
| instruction: "guest_runs env count s k t \<Longrightarrow> \<not> lp_stopping t \<Longrightarrow> (0 < count \<Longrightarrow> int k < count) \<Longrightarrow>
    guest_runs env count s (Suc k) (count_executed (instruction_hook env address t))"
| prevented: "guest_runs env count s k t \<Longrightarrow> \<not> lp_stopping t \<Longrightarrow>
    guest_runs env count s k (instruction_hook env address t)"
| other: "guest_runs env count s k t \<Longrightarrow> same_accounts t u \<Longrightarrow> same_account t u (rl_origin (lp_limits t)) \<Longrightarrow>
    (lp_stopping t \<Longrightarrow> lp_stopping u) \<Longrightarrow> guest_runs env count s k u"

definition counting_env :: "'m env \<Rightarrow> bool" where
  "counting_env env \<longleftrightarrow>
     (\<forall>address timeout count s. \<exists>k. guest_runs env count s k (snd (ev_engine env address timeout count s))) \<and>
     (\<forall>entry. moves same_accounts (ev_api env entry)) \<and>
     (\<forall>t s. same_accounts s (ev_init_thread env t s)) \<and> (\<forall>s. same_accounts s (ev_rollback env s)) \<and>
     0 < ev_max_instructions env"

subsection \<open>Parts of the loop that leave the accounts alone\<close>

lemmas account_defs = same_account_def budget_def executed_by_def

lemma account_cases: "same_accounts s t \<Longrightarrow> same_account s t j \<or> budget t j = 0 \<and> executed_by t j = 0"
  unfolding same_accounts_def by blast

interpretation accounts: state_preorder same_accounts
proof unfold_locales
  show "same_accounts s s" for s :: "'a loop" by (simp add: same_accounts_def same_account_def)
  fix s t u :: "'a loop"
  assume *: "same_accounts s t" "same_accounts t u"
  have "same_account s u j \<or> budget u j = 0 \<and> executed_by u j = 0" for j
    using account_cases [OF *(1), of j] account_cases [OF *(2), of j] by (auto simp: same_account_def)
  then show "same_accounts s u" using * by (simp add: same_accounts_def)
qed

lemma same_accounts_neutral: "neutral s t \<Longrightarrow> lp_limits t = lp_limits s \<Longrightarrow> same_accounts s t"
  by (simp add: same_accounts_def neutral_def account_defs)

lemma same_accountsI:
  "lp_limits t = lp_limits s \<Longrightarrow> lp_debugger t = lp_debugger s \<Longrightarrow> (\<And>j. same_account s t j) \<Longrightarrow> same_accounts s t"
  by (simp add: same_accounts_def)

lemma accounts_neutral: "moves neutral m \<Longrightarrow> moves same_accounts m"
  by (auto simp: moves_def neutral_def same_accounts_def account_defs)

lemma accounts_prepare: "counting_env env \<Longrightarrow> moves same_accounts (prepare_run_context env i)"
proof -
  assume env: "counting_env env"
  have enter: "same_accounts s (enter_thread i (enter_process i s))" for s :: "'a loop"
    by (rule accounts.trans [of _ "enter_process i s"]) (simp_all add: same_accountsI neutral_def same_accounts_def account_defs
        enter_process_def enter_thread_def Let_def upd_run_def split: option.split)
  have thread: "same_accounts s (ev_init_thread env t u)" if "same_accounts s u" for s t u
    using env accounts.trans [OF that] by (simp add: counting_env_def)
  have "same_accounts s (start_thread env s)" for s
    by (auto simp: start_thread_def accounts.refl same_accountsI account_defs intro!: thread split: option.split)
  then have "same_accounts s (start_thread env (enter_thread i (enter_process i s)))" for s
    using accounts.trans [OF enter] by blast
  then show ?thesis
    unfolding prepare_run_context_def raise_error_def on_cpu_def
    by (intro accounts.rules accounts_neutral [OF moves_on_guest] moves_emod)
      (auto simp: same_accounts_def account_defs forget_fault_def upd_emu_def upd_pc_def engine_stop_def)
qed

lemma accounts_take: "counting_env env \<Longrightarrow> moves same_accounts (take_run env i rest)"
  unfolding take_run_def on_cpu_def
  by (intro accounts.rules accounts_neutral [OF moves_on_guest] accounts_prepare moves_emod)
    (simp_all add: same_accounts_def account_defs engine_stop_def)

lemma accounts_first: "counting_env env \<Longrightarrow> moves same_accounts (first_run env i rest)"
  unfolding first_run_def
  by (intro accounts.rules accounts_prepare moves_emod) (simp add: same_accounts_def account_defs)

lemma accounts_frames: "counting_env env \<Longrightarrow> same_accounts s (drop_frames env s)"
  by (simp add: counting_env_def drop_frames_def Let_def same_accounts_def account_defs)

lemma accounts_alloc_runs: "(\<And>r. r \<in> set rs \<Longrightarrow> gr_budget r = 0 \<and> gr_executed r = 0) \<Longrightarrow> same_accounts s (snd (alloc_runs rs s))"
proof (induction rs arbitrary: s)
  case (Cons r rs)
  have "same_accounts s (snd (alloc_run r s))"
    using Cons.prems by (simp add: alloc_run_def same_accounts_def account_defs)
  then show ?case
    using accounts.trans [OF _ Cons.IH] Cons.prems by (fastforce simp: alloc_run_def split: prod.splits)
qed (simp add: accounts.refl)

lemma collect_from_state: "\<exists>c. snd (collect_from pid ds s) = s\<lparr>lp_load_states := c\<rparr>"
proof (induction ds arbitrary: s)
  case Nil
  show ?case by (rule exI [of _ "lp_load_states s"]) simp
next
  case (Cons d ds)
  have "\<exists>c. snd (collect_from pid ds (s\<lparr>lp_load_states := x\<rparr>)) = s\<lparr>lp_load_states := c\<rparr>" for x
    using Cons [of "s\<lparr>lp_load_states := x\<rparr>"] by simp
  then show ?case using Cons [of s] by (simp add: Let_def split_beta)
qed

lemma collect_initializers_state: "collect_initializers s = (rs, t) \<Longrightarrow> \<exists>c. t = s\<lparr>lp_load_states := c\<rparr>"
  using collect_from_state [of _ "lp_dlls s" s]
  by (auto simp: collect_initializers_def split: option.splits intro: exI [of _ "lp_load_states s"]) (metis snd_conv)

lemma accounts_startup: "same_accounts s (queue_startup_initializers s)"
proof -
  obtain rs t where c: "collect_initializers s = (rs, t)" by (cases "collect_initializers s")
  then have t: "same_accounts s t"
    using collect_initializers_state [OF c] by (auto simp: same_accounts_def account_defs)
  define new where "new = map (initializer_run (case gr_thread (lp_heap t (hd (lp_queue t))) of
      None \<Rightarrow> lp_thread t | Some t \<Rightarrow> Some t) (lp_process t)) rs"
  obtain "is" u where a: "alloc_runs new t = (is, u)" by (cases "alloc_runs new t")
  have "gr_budget r = 0 \<and> gr_executed r = 0" if "r \<in> set new" for r
    using that by (auto simp: new_def initializer_run_def new_run_def)
  then have "same_accounts t u" using accounts_alloc_runs [of new t] a by simp
  then have "same_accounts s u" using t accounts.trans by blast
  then show ?thesis
    using c a by (simp add: queue_startup_initializers_def Let_def new_def accounts.refl)
      (simp add: same_accounts_def account_defs)
qed

subsection \<open>The budget within a call of the loop\<close>

text \<open>
  Every account is within the limit \<open>n\<close> and covers the instructions that were executed, and the account of the run \<open>i\<close> of the
  call has room for what remains.
\<close>

definition budgets_within :: "int \<Rightarrow> 'm loop \<Rightarrow> bool" where
  "budgets_within n s \<longleftrightarrow> (\<forall>j. int (executed_by s j) \<le> budget s j \<and> budget s j \<le> n)"

definition room :: "int \<Rightarrow> nat \<Rightarrow> 'm loop \<Rightarrow> bool" where
  "room n i s \<longleftrightarrow> rl_origin (lp_limits s) = i \<and> 0 < rl_budget (lp_limits s) \<and> 0 \<le> rl_remaining (lp_limits s) \<and>
     budget s i + rl_remaining (lp_limits s) \<le> n"

definition account_within :: "int \<Rightarrow> 'm loop \<Rightarrow> nat \<Rightarrow> bool" where
  "account_within n s j \<longleftrightarrow> int (executed_by s j) \<le> budget s j \<and> budget s j \<le> n"

lemma budgets_accounts: "budgets_within n s \<longleftrightarrow> (\<forall>j. account_within n s j)"
  by (simp add: budgets_within_def account_within_def)

lemma account_kept: "same_accounts s t \<Longrightarrow> account_within n s j \<Longrightarrow> 0 \<le> n \<Longrightarrow> account_within n t j"
  using account_cases [of s t j] by (auto simp: account_within_def same_account_def)

lemma within_nonneg: "budgets_within n s \<Longrightarrow> 0 \<le> n"
proof -
  assume "budgets_within n s"
  then have "int (executed_by s 0) \<le> budget s 0" "budget s 0 \<le> n" unfolding budgets_within_def by blast+
  then show ?thesis by linarith
qed

lemma within_accounts: "same_accounts s t \<Longrightarrow> budgets_within n s \<Longrightarrow> budgets_within n t"
  using within_nonneg [of n s] account_kept [of s t n] by (simp add: budgets_accounts)

lemma room_accounts: "same_accounts s t \<Longrightarrow> room n i s \<Longrightarrow> budgets_within n s \<Longrightarrow> room n i t"
proof -
  assume *: "same_accounts s t" "room n i s" "budgets_within n s"
  have "int (executed_by s i) \<le> budget s i" using *(3) by (simp add: budgets_within_def)
  then have "0 \<le> budget s i" by linarith
  then have "budget t i \<le> budget s i" using account_cases [OF *(1), of i] by (auto simp: same_account_def)
  moreover have "lp_limits t = lp_limits s" using *(1) by (simp add: same_accounts_def)
  ultimately show ?thesis using *(2) by (simp add: room_def)
qed

text \<open>
  A start of the engine with the remaining count: the hook takes what it counts from what remains, and the count bounds the
  instructions after that.
\<close>

definition in_start :: "int \<Rightarrow> nat \<Rightarrow> 'm loop \<Rightarrow> nat \<Rightarrow> 'm loop \<Rightarrow> bool" where
  "in_start n i s k t \<longleftrightarrow> lp_debugger t = None \<and> room n i t \<and> (\<forall>j. j \<noteq> i \<longrightarrow> account_within n t j) \<and>
     executed_by t i = executed_by s i + k \<and>
     budget t i + rl_remaining (lp_limits t) = budget s i + rl_remaining (lp_limits s) \<and>
     int k + rl_remaining (lp_limits t) \<le> rl_remaining (lp_limits s)"

lemma hook_account:
  assumes "lp_debugger s = None" "room n i s"
  shows "budget (instruction_hook env a s) j = budget s j + of_bool (j = i \<and> 0 < rl_remaining (lp_limits s))"
    "executed_by (instruction_hook env a s) j = executed_by s j"
    "rl_remaining (lp_limits (instruction_hook env a s)) = max 0 (rl_remaining (lp_limits s) - 1)"
    "rl_origin (lp_limits (instruction_hook env a s)) = i"
    "rl_budget (lp_limits (instruction_hook env a s)) = rl_budget (lp_limits s)"
    "lp_debugger (instruction_hook env a s) = None"
  using assms
  by (auto simp: instruction_hook_def account_instruction_def engine_stop_def pending_stop_def Let_def room_def budget_def
      executed_by_def upd_run_def split: option.split)

lemma count_account:
  "budget (count_executed s) j = budget s j"
  "executed_by (count_executed s) j = executed_by s j + of_bool (j = rl_origin (lp_limits s))"
  "lp_limits (count_executed s) = lp_limits s" "lp_debugger (count_executed s) = lp_debugger s"
  by (auto simp: count_executed_def upd_run_def budget_def executed_by_def)

lemma in_start_prevented:
  assumes "in_start n i s k t"
  shows "in_start n i s k (instruction_hook env a t)"
proof -
  have d: "lp_debugger t = None" "room n i t" using assms by (simp_all add: in_start_def)
  show ?thesis
    using assms hook_account [OF d, of env a] by (auto simp: in_start_def room_def max_def account_within_def)
qed

lemma in_start_instruction:
  assumes "in_start n i s k t" "0 < rl_remaining (lp_limits s)" "int k < rl_remaining (lp_limits s)"
  shows "in_start n i s (Suc k) (count_executed (instruction_hook env a t))"
proof -
  have d: "lp_debugger t = None" "room n i t" using assms by (simp_all add: in_start_def)
  show ?thesis
    using assms hook_account [OF d, of env a]
    by (auto simp: in_start_def room_def max_def count_account account_within_def)
qed

lemma in_start_other:
  assumes "in_start n i s k t" "same_accounts t u" "same_account t u (rl_origin (lp_limits t))" "0 \<le> n"
  shows "in_start n i s k u"
proof -
  have "rl_origin (lp_limits t) = i" using assms(1) by (simp add: in_start_def room_def)
  then have i: "budget u i = budget t i" "executed_by u i = executed_by t i" using assms(3) by (simp_all add: same_account_def)
  have l: "lp_limits u = lp_limits t" "lp_debugger u = lp_debugger t" using assms(2) by (simp_all add: same_accounts_def)
  have "account_within n u j" if "j \<noteq> i" for j
    using account_kept [OF assms(2)] assms(1,4) that by (simp add: in_start_def)
  then show ?thesis using assms(1) i l by (simp add: in_start_def room_def)
qed

lemma guest_runs_start:
  assumes "guest_runs env count s k t" "in_start n i s 0 s" "count = rl_remaining (lp_limits s)" "0 < count" "0 \<le> n"
  shows "in_start n i s k t"
  using assms(1)
proof (induction rule: guest_runs.induct)
  case nothing
  show ?case by (rule assms(2))
next
  case (instruction k t address)
  then show ?case using assms(3,4) by (intro in_start_instruction) auto
next
  case (prevented k t address)
  then show ?case by (intro in_start_prevented)
next
  case (other k t u)
  then show ?case using in_start_other assms(5) by blast
qed

lemma guest_runs_budget:
  assumes "guest_runs env (rl_remaining (lp_limits s)) s k t" "lp_debugger s = None" "budgets_within n s" "room n i s"
    "0 < rl_remaining (lp_limits s)"
  shows "budgets_within n t \<and> room n i t"
proof -
  have "in_start n i s 0 s" using assms(2-4) by (simp add: in_start_def budgets_accounts)
  then have t: "in_start n i s k t" using guest_runs_start [OF assms(1)] assms(5) within_nonneg [OF assms(3)] by simp
  have "int (executed_by s i) \<le> budget s i" using assms(3) by (simp add: budgets_within_def)
  then have "account_within n t i" using t by (auto simp: in_start_def room_def account_within_def)
  then have "account_within n t j" for j using t by (cases "j = i") (simp_all add: in_start_def)
  then show ?thesis using t by (simp add: in_start_def budgets_accounts)
qed

subsection \<open>The rules of the loop\<close>

definition within_call :: "'m env \<Rightarrow> nat \<Rightarrow> 'm loop \<Rightarrow> bool" where
  "within_call env i s \<longleftrightarrow> budgets_within (ev_max_instructions env) s \<and> room (ev_max_instructions env) i s"

definition keeps_room :: "'m env \<Rightarrow> nat \<Rightarrow> 'm loop \<Rightarrow> 'm loop \<Rightarrow> bool" where
  "keeps_room env i s t \<longleftrightarrow> (within_call env i s \<longrightarrow> within_call env i t)"

definition keeps_within :: "'m env \<Rightarrow> 'm loop \<Rightarrow> 'm loop \<Rightarrow> bool" where
  "keeps_within env s t \<longleftrightarrow>
     (budgets_within (ev_max_instructions env) s \<longrightarrow> budgets_within (ev_max_instructions env) t)"

lemma accounts_keep:
  assumes "counting_env env \<Longrightarrow> same_accounts s t"
  shows "quiet (counting_env env) (keeps_room env i) s t" "quiet (counting_env env) (keeps_within env) s t"
  using assms within_accounts [of s t "ev_max_instructions env"] room_accounts [of s t "ev_max_instructions env" i]
  by (auto simp: quiet_def keeps_room_def keeps_within_def within_call_def counting_env_def) (simp_all add: same_accounts_def)

lemma neutral_keeps: "neutral s t \<Longrightarrow> keeps_room env i s t" "neutral s t \<Longrightarrow> keeps_within env s t"
  by (auto simp: keeps_room_def keeps_within_def within_call_def budgets_within_def room_def neutral_def budget_def executed_by_def)

lemma moves_accounts:
  assumes "counting_env env \<Longrightarrow> moves same_accounts m"
  shows "moves (quiet (counting_env env) (keeps_room env i)) m" "moves (quiet (counting_env env) (keeps_within env)) m"
  using assms accounts_keep [of env] by (simp_all add: moves_def)

lemma guest_runs_debugger: "guest_runs env count s k t \<Longrightarrow> lp_debugger t = lp_debugger s"
  by (induction rule: guest_runs.induct)
    (auto simp: instruction_hook_def account_instruction_def engine_stop_def Let_def count_executed_def upd_run_def
      same_accounts_def split: option.split)

lemma engine_start:
  assumes "counting_env env" "run_engine env address timeout count s = (r, t)"
  obtains k where "guest_runs env count (s\<lparr>lp_stopping := False\<rparr>) k t"
proof -
  have "t = snd (ev_engine env address timeout count (s\<lparr>lp_stopping := False\<rparr>))"
    using assms(2) by (simp add: run_engine_def split: prod.splits)
  then show ?thesis using assms(1) that unfolding counting_env_def by blast
qed

lemma engine_keeps_room:
  assumes env: "counting_env env" and s: "lp_debugger s = None" "may_start s"
    and run: "run_engine env address timeout (get_native_count (lp_limits s)) s = (r, t)"
  shows "lp_debugger t = None" "within_call env i s \<Longrightarrow> within_call env i t"
proof -
  let ?s = "s\<lparr>lp_stopping := False\<rparr>"
  obtain k where k: "guest_runs env (get_native_count (lp_limits s)) ?s k t" using engine_start [OF env run] .
  show "lp_debugger t = None" using guest_runs_debugger [OF k] s(1) by simp
  assume c: "within_call env i s"
  then have "0 < rl_budget (lp_limits s)" by (simp add: within_call_def room_def)
  then have "0 < rl_remaining (lp_limits ?s)" "get_native_count (lp_limits s) = rl_remaining (lp_limits ?s)"
    using s(2) by (simp_all add: may_start_def get_native_count_def)
  moreover have "budgets_within (ev_max_instructions env) ?s" "room (ev_max_instructions env) i ?s"
    using c by (simp_all add: within_call_def budgets_within_def room_def budget_def executed_by_def)
  ultimately show "within_call env i t"
    using guest_runs_budget [of env ?s k t "ev_max_instructions env" i] k s(1) by (simp add: within_call_def)
qed

lemma keeps_frames:
  "quiet (counting_env env) (keeps_room env i) s (drop_frames env s)"
  "quiet (counting_env env) (keeps_within env) s (drop_frames env s)"
  by (rule accounts_keep, erule accounts_frames)+

lemma keeps_filters:
  "keeps_room env i s (s\<lparr>lp_queue := q, lp_suspended := q'\<rparr>)" "keeps_within env s (s\<lparr>lp_queue := q, lp_suspended := q'\<rparr>)"
  "keeps_room env i s (s\<lparr>lp_runs := q\<rparr>)" "keeps_within env s (s\<lparr>lp_runs := q\<rparr>)"
  by (auto simp: keeps_room_def keeps_within_def within_call_def budgets_within_def room_def budget_def executed_by_def)

interpretation in_call: engine_steps "keeps_room env i" env "counting_env env" i for env i
proof unfold_locales
  show "quiet (counting_env env) (keeps_room env i) s (snd (take_run env j rest s))" for s j rest
    using moves_accounts(1) [of env "take_run env j rest" i, OF accounts_take] by (simp add: moves_def)
  show "moves (quiet (counting_env env) (keeps_room env i)) (ev_api env e)" for e
    by (rule moves_accounts) (simp add: counting_env_def)
  show "quiet (counting_env env) (keeps_room env i) s
      (snd (run_engine env address timeout (get_native_count (lp_limits s)) s))" if "may_start s" for s address timeout
  proof -
    obtain r t where t: "run_engine env address timeout (get_native_count (lp_limits s)) s = (r, t)"
      by (cases "run_engine env address timeout (get_native_count (lp_limits s)) s")
    show ?thesis unfolding quiet_def keeps_room_def
      using engine_keeps_room [OF _ _ that t] by (simp add: t)
  qed
qed (auto simp: keeps_room_def keeps_frames keeps_filters(1,3) [unfolded keeps_room_def]
    dest: neutral_keeps(1) [unfolded keeps_room_def])

text \<open>The limits that a call starts with have room for what remains.\<close>

lemma from_run_room:
  assumes "from_run env i timeout (ev_max_instructions env) s = (Inr l, t)" "0 < ev_max_instructions env"
    "budgets_within (ev_max_instructions env) t"
  shows "within_call env i (t\<lparr>lp_limits := l\<rparr>)"
  using assms from_run_limits [OF assms(1)]
  by (auto simp: within_call_def budgets_within_def room_def budget_def executed_by_def)

lemma run_keeps_within:
  "moves (quiet (counting_env env) (keeps_within env)) (execute_current_run n env address timeout (ev_max_instructions env))"
proof (rule execution_rule)
  show "state_preorder (keeps_within env)" "state_preorder (keeps_room env i)" for i
    by unfold_locales (auto simp: keeps_within_def keeps_room_def)
  fix s l t u i and outer :: run_limits
  assume "counting_env env" "from_run env i timeout (ev_max_instructions env) s = (Inr l, t)" "neutral s t"
    "keeps_room env i (t\<lparr>lp_limits := l\<rparr>) u"
  then show "keeps_within env s (u\<lparr>lp_limits := outer\<rparr>)"
    using from_run_room [of env i timeout s l t] neutral_keeps(2) [of s t env]
    by (auto simp: keeps_within_def keeps_room_def counting_env_def within_call_def budgets_within_def budget_def executed_by_def)
qed (simp_all add: neutral_keeps in_call.all_rounds in_call.finished)

interpretation accounted: run_steps "keeps_within env" env "counting_env env" for env
proof unfold_locales
  fix s i rest n address e
  show "quiet (counting_env env) (keeps_within env) s (snd (take_run env i rest s))"
    using moves_accounts(2) [of env "take_run env i rest", OF accounts_take] by (simp add: moves_def)
  show "quiet (counting_env env) (keeps_within env) s (snd (first_run env i rest s))"
    using moves_accounts(2) [of env "first_run env i rest", OF accounts_first] by (simp add: moves_def)
  show "moves (quiet (counting_env env) (keeps_within env)) (ev_api env e)"
    by (rule moves_accounts) (simp add: counting_env_def)
  show "quiet (counting_env env) (keeps_within env) s (queue_startup_initializers s)"
    by (rule accounts_keep) (rule accounts_startup)
  show "moves (quiet (counting_env env) (keeps_within env))
      (execute_current_run n env address (ev_max_run_time env) (ev_max_instructions env))"
    by (rule run_keeps_within)
qed (auto simp: keeps_within_def keeps_frames keeps_filters(2,4) [unfolded keeps_within_def]
    dest: neutral_keeps(2) [unfolded keeps_within_def])

end
