(* ===== verification/Run_Order.thy ===== *)
theory Run_Order
  imports Run_Accounts
begin

text \<open>
  The queue of the runs: a run is executed, queued or suspended, at most once. Guest code, hooks and the implementations of
  the APIs change the queue with the operations of the emulator, which is the relation \<open>schedules\<close>: threads are created,
  suspended and resumed, handlers queue runs, and the dispatch of an API and the hooks end the current run with
  \<open>on_run_complete\<close>, which enters the next one.
\<close>

definition scheduled :: "'m loop \<Rightarrow> nat list" where "scheduled s = lp_runs s @ lp_queue s @ lp_suspended s"

definition once :: "'m loop \<Rightarrow> bool" where
  "once s \<longleftrightarrow> distinct (scheduled s) \<and> (\<forall>i \<in> set (scheduled s). i < lp_next s)"

definition same_queues :: "'m loop \<Rightarrow> 'm loop \<Rightarrow> bool" where
  "same_queues s t \<longleftrightarrow> lp_runs t = lp_runs s \<and> lp_queue t = lp_queue s \<and> lp_suspended t = lp_suspended s \<and>
     lp_next s \<le> lp_next t \<and> lp_debugger t = lp_debugger s"

text \<open>The blocks of a thread, and the undo of the loads of a run, leave the queue alone.\<close>

definition plain_env :: "'m env \<Rightarrow> bool" where
  "plain_env env \<longleftrightarrow>
     (\<forall>t s. same_queues s (ev_init_thread env t s)) \<and> (\<forall>s. same_queues s (ev_rollback env s))"

inductive schedules :: "'m env \<Rightarrow> 'm loop \<Rightarrow> 'm loop \<Rightarrow> bool" for env where
  nothing: "schedules env s s"
| other: "schedules env s t \<Longrightarrow> same_queues t u \<Longrightarrow> schedules env s u"
| created: "schedules env s t \<Longrightarrow> schedules env s (snd (create_thread env address ctx process suspended t))"
| queued: "schedules env s t \<Longrightarrow> schedules env s (queue_run r t)"
| suspended: "schedules env s t \<Longrightarrow> schedules env s (snd (suspend_thread thread t))"
| resumed: "schedules env s t \<Longrightarrow> schedules env s (snd (resume_suspended thread t))"
| completed: "schedules env s t \<Longrightarrow> schedules env s (snd (on_run_complete env t))"
| removed: "schedules env s t \<Longrightarrow>
    schedules env s (t\<lparr>lp_queue := filter P (lp_queue t), lp_suspended := filter Q (lp_suspended t)\<rparr>)"

definition orderly_env :: "'m env \<Rightarrow> bool" where
  "orderly_env env \<longleftrightarrow> plain_env env \<and>
     (\<forall>address timeout count s. schedules env s (snd (ev_engine env address timeout count s))) \<and>
     (\<forall>entry. moves (schedules env) (ev_api env entry))"

subsection \<open>Preservation\<close>

definition keeps_once :: "'m loop \<Rightarrow> 'm loop \<Rightarrow> bool" where "keeps_once s t \<longleftrightarrow> (once s \<longrightarrow> once t)"

lemma once_same: "same_queues s t \<Longrightarrow> once s \<Longrightarrow> once t"
  unfolding once_def scheduled_def same_queues_def by (metis less_le_trans)

lemma once_filter:
  assumes "once s"
  shows "once (s\<lparr>lp_queue := filter P (lp_queue s), lp_suspended := filter Q (lp_suspended s)\<rparr>)"
    "once (s\<lparr>lp_runs := filter P (lp_runs s)\<rparr>)"
  using assms by (auto simp: once_def scheduled_def)

lemma once_create: "once s \<Longrightarrow> once (snd (create_thread env address ctx process suspended s))"
  by (auto simp: once_def scheduled_def create_thread_def alloc_run_def add_run_def Let_def less_Suc_eq)

lemma once_resume: "once s \<Longrightarrow> once (snd (resume_thread t s))"
  by (auto simp: once_def scheduled_def resume_thread_def add_run_def find_Some_iff distinct_remove1
      split: option.split dest: in_set_remove1 [THEN iffD1, rotated] notin_set_remove1)

lemma once_suspend: "once s \<Longrightarrow> once (snd (suspend_thread t s))"
proof -
  assume s: "once s"
  have "once (s\<lparr>lp_suspend_counts := c, lp_queue := remove1 i (lp_queue s), lp_suspended := lp_suspended s @ [i]\<rparr>)"
    if "i \<in> set (lp_queue s)" for i c
    using s that by (auto simp: once_def scheduled_def distinct_remove1 dest: notin_set_remove1)
  moreover have "once (s\<lparr>lp_suspend_counts := c\<rparr>)" for c using s by (simp add: once_def scheduled_def)
  moreover have "i \<in> set (lp_queue s)" if "find P (lp_queue s) = Some i" for i P
    using that by (auto simp: find_Some_iff)
  ultimately show ?thesis by (auto simp: suspend_thread_def Let_def split: option.split)
qed

lemma once_counts: "once (s\<lparr>lp_suspend_counts := c\<rparr>) = once s"
  by (simp add: once_def scheduled_def)

lemma once_resumed: "once s \<Longrightarrow> once (snd (resume_suspended t s))"
  using once_resume [of s t] once_resume [of "s\<lparr>lp_suspend_counts := c\<rparr>" t for c]
  by (auto simp: resume_suspended_def Let_def once_counts)

lemma once_queue_run: "once s \<Longrightarrow> once (queue_run r s)"
  by (auto simp: once_def scheduled_def queue_run_def alloc_run_def add_run_def less_Suc_eq)

lemma queues_keep: "same_queues s t \<Longrightarrow> quiet c keeps_once s t"
  by (auto simp: quiet_def keeps_once_def intro: once_same) (simp add: same_queues_def)

lemma quiet_weaken: "quiet c R s t \<Longrightarrow> (d \<Longrightarrow> c) \<Longrightarrow> quiet d R s t"
  by (auto simp: quiet_def)

lemma neutral_queues: "neutral s t \<Longrightarrow> same_queues s t"
  by (simp add: neutral_def same_queues_def)

interpretation kept: state_preorder "quiet c keeps_once" for c
  by unfold_locales (auto simp: quiet_def keeps_once_def)

lemma moves_queues: "(\<And>s. same_queues s (f s)) \<Longrightarrow> moves (quiet c keeps_once) (emod f)"
  by (intro moves_emod queues_keep)

lemma moves_guest_once: "moves (quiet c keeps_once) (on_guest f)"
  using moves_on_guest by (auto simp: moves_def intro: queues_keep neutral_queues)

text \<open>The run that is prepared is the last that was executed.\<close>

lemma plain_keep: "(plain_env env \<Longrightarrow> same_queues s t) \<Longrightarrow> quiet (plain_env env) keeps_once s t"
  using queues_keep by (auto simp: quiet_def)

lemma prepared_rest:
  "moves (quiet (plain_env env) keeps_once) (ebind (eget (\<lambda>s. lp_heap s i)) (\<lambda>r.
     eseq (on_cpu (entry_frame env r))
       (eseq (emod (\<lambda>s. start_thread env (enter_thread i (enter_process i s))))
          (case gr_start r of
             None \<Rightarrow> raise_error TypeError
           | Some a \<Rightarrow> eseq (emod (upd_pc a)) (ereturn i)))))"
proof -
  have enter: "same_queues s (enter_thread i (enter_process i s))" for s :: "'a loop"
    using neutral_trans [OF neutral_basic(10) neutral_enter_thread] by (rule neutral_queues)
  have thread: "quiet (plain_env env) keeps_once s (start_thread env s)" for s
  proof -
    have "quiet (plain_env env) keeps_once s (ev_init_thread env t (s\<lparr>lp_exit_codes := c\<rparr>))" for t c
    proof (rule kept.trans)
      show "quiet (plain_env env) keeps_once s (s\<lparr>lp_exit_codes := c\<rparr>)" by (rule queues_keep) (simp add: same_queues_def)
      show "quiet (plain_env env) keeps_once (s\<lparr>lp_exit_codes := c\<rparr>) (ev_init_thread env t (s\<lparr>lp_exit_codes := c\<rparr>))"
        by (rule plain_keep) (simp only: plain_env_def)
    qed
    then show ?thesis by (auto simp: start_thread_def kept.refl split: option.split)
  qed
  show ?thesis
    unfolding raise_error_def on_cpu_def
    by (intro kept.rules moves_guest_once moves_queues moves_emod kept.trans [OF queues_keep [OF enter] thread])
      (simp add: same_queues_def upd_pc_def upd_emu_def)
qed

lemma prepare_once:
  assumes "plain_env env" "lp_debugger s = None"
  shows "lp_debugger (snd (prepare_run_context env i s)) = None"
    "once (s\<lparr>lp_runs := lp_runs s @ [i]\<rparr>) \<Longrightarrow> once (snd (prepare_run_context env i s))"
proof -
  let ?t = "forget_fault (s\<lparr>lp_curr := Some i, lp_runs := lp_runs s @ [i]\<rparr>)"
  obtain m where m: "moves (quiet (plain_env env) keeps_once) m" "prepare_run_context env i s = m ?t"
    using prepared_rest [of env i] by (simp add: prepare_run_context_def eseq_def ebind_def)
  have t: "lp_debugger ?t = None" using assms(2) by (simp add: forget_fault_def upd_emu_def)
  then show "lp_debugger (snd (prepare_run_context env i s)) = None"
    using m assms(1) by (simp add: moves_def quiet_def)
  assume "once (s\<lparr>lp_runs := lp_runs s @ [i]\<rparr>)"
  then have "once ?t" by (rule once_same [rotated]) (simp add: same_queues_def forget_fault_def upd_emu_def)
  then show "once (snd (prepare_run_context env i s))"
    using m assms(1) t by (simp add: moves_def quiet_def keeps_once_def)
qed

lemma once_entered:
  assumes "once s" "lp_queue s = i # rest"
  shows "once (s\<lparr>lp_queue := rest\<rparr>)" "once (s\<lparr>lp_queue := rest, lp_runs := lp_runs s @ [i]\<rparr>)"
  using assms by (auto simp: once_def scheduled_def)

text \<open>The entry of the first run of the queue.\<close>

lemma take_once:
  assumes "lp_queue s = i # rest"
  shows "quiet (plain_env env) keeps_once s (snd (take_run env i rest s))"
    "quiet (plain_env env) keeps_once s (snd (first_run env i rest s))"
proof -
  have prepared: "quiet (plain_env env) keeps_once s (snd (prepare_run_context env i t))"
    if "same_queues (s\<lparr>lp_queue := rest\<rparr>) t" for t
  proof -
    have new: "once (t\<lparr>lp_runs := lp_runs t @ [i]\<rparr>)" if "once s"
      using \<open>same_queues (s\<lparr>lp_queue := rest\<rparr>) t\<close>
      by (intro once_same [OF _ once_entered(2) [OF that assms]]) (simp add: same_queues_def)
    have d: "lp_debugger t = lp_debugger s" using that by (simp add: same_queues_def)
    have "lp_debugger (snd (prepare_run_context env i t)) = None" if "plain_env env" "lp_debugger s = None"
      using prepare_once(1) [OF that(1), of t i] that(2) d by simp
    moreover have "once (snd (prepare_run_context env i t))" if "plain_env env" "lp_debugger s = None" "once s"
      using prepare_once(2) [OF that(1) _ new [OF that(3)]] that(2) d by simp
    ultimately show ?thesis unfolding quiet_def keeps_once_def by blast
  qed
  have kept: "quiet (plain_env env) keeps_once s t" if "same_queues (s\<lparr>lp_queue := rest\<rparr>) t" for t
    using once_same [OF that] once_entered(1) [OF _ assms] that
    by (auto simp: quiet_def keeps_once_def same_queues_def)
  let ?s = "s\<lparr>lp_queue := rest, lp_run_complete := False\<rparr>"
  define m where "m = on_guest (on_emu (reset_machine env))"
  obtain r t where m: "m ?s = (r, t)" by (cases "m ?s")
  have "neutral ?s t" using m neutral_on_guest [of ?s] by (metis m_def snd_conv)
  then have t: "same_queues (s\<lparr>lp_queue := rest\<rparr>) t" by (simp add: neutral_def same_queues_def)
  define u where "u = snd (prepare_run_context env i t)"
  have "snd (take_run env i rest s) = t \<or> snd (take_run env i rest s) = u \<or> snd (take_run env i rest s) = engine_stop u"
    using m by (cases r; cases "prepare_run_context env i t"; cases "fst (prepare_run_context env i t)")
      (simp_all add: take_run_def eseq_def ebind_def on_cpu_def m_def u_def)
  moreover have "quiet (plain_env env) keeps_once s u" using prepared [OF t] by (simp add: u_def)
  moreover have "quiet (plain_env env) keeps_once u (engine_stop u)"
    by (rule queues_keep) (simp add: same_queues_def engine_stop_def)
  ultimately show "quiet (plain_env env) keeps_once s (snd (take_run env i rest s))"
    using kept [OF t] kept.trans by metis
  have "snd (first_run env i rest s) = snd (prepare_run_context env i
      (s\<lparr>lp_queue := rest, lp_run_complete := False, lp_emu_complete := False\<rparr>))"
    by (simp add: first_run_def eseq_def ebind_def)
  then show "quiet (plain_env env) keeps_once s (snd (first_run env i rest s))"
    using prepared [of "s\<lparr>lp_queue := rest, lp_run_complete := False, lp_emu_complete := False\<rparr>"]
    by (simp add: same_queues_def)
qed

subsection \<open>The rules of the loop\<close>

text \<open>The initializers that the start queues are new runs.\<close>

lemma alloc_runs_new:
  "alloc_runs rs s = (is, t) \<Longrightarrow> is = [lp_next s..<lp_next s + length rs] \<and> lp_next t = lp_next s + length rs \<and>
     lp_queue t = lp_queue s \<and> lp_suspended t = lp_suspended s \<and> lp_runs t = lp_runs s \<and> lp_debugger t = lp_debugger s"
proof (induction rs arbitrary: s "is" t)
  case (Cons r rs)
  obtain js u where u: "alloc_runs rs (snd (alloc_run r s)) = (js, u)" by (cases "alloc_runs rs (snd (alloc_run r s))")
  then show ?case
    using Cons.IH [OF u] Cons.prems upt_conv_Cons [of "lp_next s" "lp_next s + length (r # rs)"]
    by (auto simp: alloc_run_def simp del: upt_Suc)
qed simp

lemma once_queued:
  assumes "once s" "lp_queue t = is @ lp_queue s" "lp_suspended t = lp_suspended s" "lp_runs t = lp_runs s"
    "distinct is" "\<And>i. i \<in> set is \<Longrightarrow> lp_next s \<le> i \<and> i < lp_next t" "lp_next s \<le> lp_next t"
  shows "once t"
proof -
  have "set is \<inter> set (scheduled s) = {}" using assms(1,6) by (force simp: once_def)
  moreover have "i < lp_next t" if "i \<in> set (scheduled s)" for i
    using that assms(1,7) by (auto simp: once_def)
  ultimately show ?thesis using assms by (auto simp: once_def scheduled_def)
qed

lemma startup_once: "quiet c keeps_once s (queue_startup_initializers s)"
proof -
  obtain rs t where c: "collect_initializers s = (rs, t)" by (cases "collect_initializers s")
  then obtain x where t: "t = s\<lparr>lp_load_states := x\<rparr>" using collect_initializers_state by blast
  define new where "new = map (initializer_run (case gr_thread (lp_heap t (hd (lp_queue t))) of
      None \<Rightarrow> lp_thread t | Some t \<Rightarrow> Some t) (lp_process t)) rs"
  obtain "is" u where a: "alloc_runs new t = (is, u)" by (cases "alloc_runs new t")
  let ?u = "u\<lparr>lp_queue := is @ lp_queue u\<rparr>"
  have u: "is = [lp_next s..<lp_next u]" "lp_next s \<le> lp_next u" "lp_queue u = lp_queue s" "lp_suspended u = lp_suspended s"
    "lp_runs u = lp_runs s" "lp_debugger u = lp_debugger s"
    using alloc_runs_new [OF a] t by simp_all
  have "once ?u" if "once s" by (rule once_queued [OF that, of ?u "is"]) (use u in simp_all)
  then have "quiet c keeps_once s ?u" using u by (simp add: quiet_def keeps_once_def)
  moreover have "queue_startup_initializers s = s \<or> queue_startup_initializers s = ?u"
    using c a by (simp add: queue_startup_initializers_def new_def)
  ultimately show ?thesis using kept.refl by metis
qed

lemma plain_frames: "quiet (plain_env env) keeps_once s (drop_frames env s)"
proof -
  have "quiet (plain_env env) keeps_once s (ev_rollback env s)" by (rule plain_keep) (simp add: plain_env_def)
  then show ?thesis
    unfolding drop_frames_def Let_def by (rule kept.trans [OF _ queues_keep]) (simp add: same_queues_def)
qed

lemma keeps_once_basic:
  "keeps_once s s" "keeps_once s t \<Longrightarrow> keeps_once t u \<Longrightarrow> keeps_once s u" "neutral s t \<Longrightarrow> keeps_once s t"
  "keeps_once s (s\<lparr>lp_queue := filter P (lp_queue s), lp_suspended := filter Q (lp_suspended s)\<rparr>)"
  "keeps_once s (s\<lparr>lp_runs := filter P (lp_runs s)\<rparr>)"
  by (simp_all add: keeps_once_def once_same [OF neutral_queues] once_filter)

interpretation completing: queue_steps keeps_once env "plain_env env" for env
  by unfold_locales (fact keeps_once_basic plain_frames | erule keeps_once_basic take_once, assumption?)+

text \<open>What the guest, the hooks and the APIs do keeps the order.\<close>

lemma queues_debugger:
  "lp_debugger (snd (create_thread env address ctx process b s)) = lp_debugger s" "lp_debugger (queue_run r s) = lp_debugger s"
  "lp_debugger (snd (suspend_thread t s)) = lp_debugger s" "lp_debugger (snd (resume_suspended t s)) = lp_debugger s"
  by (auto simp: create_thread_def queue_run_def alloc_run_def add_run_def suspend_thread_def resume_suspended_def
      resume_thread_def Let_def split: option.split)

lemma schedules_once:
  "schedules env s t \<Longrightarrow> plain_env env \<Longrightarrow> lp_debugger s = None \<Longrightarrow> lp_debugger t = None \<and> (once s \<longrightarrow> once t)"
proof (induction rule: schedules.induct)
  case (other s t u)
  then show ?case using once_same [of t u] by (simp add: same_queues_def)
next
  case (completed s t)
  have "quiet (plain_env env) keeps_once t (snd (on_run_complete env t))"
    using completing.run_complete [of env] by (simp add: moves_def)
  then show ?case using completed by (simp add: quiet_def keeps_once_def)
qed (simp_all add: queues_debugger once_create once_queue_run once_suspend once_resumed once_filter)

lemma schedules_keep: "(orderly_env env \<Longrightarrow> schedules env s t) \<Longrightarrow> quiet (orderly_env env) keeps_once s t"
  using schedules_once [of env s t] by (auto simp: quiet_def keeps_once_def orderly_env_def)

lemma orderly_engine: "quiet (orderly_env env) keeps_once s (snd (run_engine env address timeout count s))"
proof -
  let ?s = "s\<lparr>lp_stopping := False\<rparr>"
  have "quiet (orderly_env env) keeps_once ?s (snd (ev_engine env address timeout count ?s))"
    by (rule schedules_keep) (simp add: orderly_env_def)
  then have "quiet (orderly_env env) keeps_once s (snd (ev_engine env address timeout count ?s))"
    by (rule kept.trans [OF queues_keep, rotated]) (simp add: same_queues_def)
  then show ?thesis by (simp add: run_engine_def split_beta)
qed

lemma orderly_api: "moves (quiet (orderly_env env) keeps_once) (ev_api env e)"
  unfolding moves_def by (intro allI schedules_keep) (simp add: orderly_env_def moves_def)

lemma orderly_plain: "quiet (plain_env env) keeps_once s t \<Longrightarrow> quiet (orderly_env env) keeps_once s t"
  by (erule quiet_weaken) (simp add: orderly_env_def)

interpretation ordered: engine_steps keeps_once env "orderly_env env" i for env i
  by unfold_locales
    (fact keeps_once_basic orderly_api orderly_plain [OF plain_frames] | rule orderly_engine
      | erule keeps_once_basic orderly_plain [OF take_once(1)], assumption?)+

lemma once_executed: "moves (quiet (orderly_env env) keeps_once) (execute_current_run n env address timeout count)"
proof (rule execution_rule)
  show "state_preorder keeps_once" "state_preorder keeps_once" by unfold_locales (auto simp: keeps_once_def)
  fix s t u :: "'a loop" and l outer :: run_limits
  have "once v = once (v\<lparr>lp_limits := l\<rparr>)" for v :: "'a loop" and l by (simp add: once_def scheduled_def)
  then show "neutral s t \<Longrightarrow> keeps_once (t\<lparr>lp_limits := l\<rparr>) u \<Longrightarrow> keeps_once s (u\<lparr>lp_limits := outer\<rparr>)"
    unfolding keeps_once_def using once_same neutral_queues by metis
qed (simp_all add: ordered.all_rounds ordered.finished keeps_once_basic)

interpretation orderly: run_steps keeps_once env "orderly_env env" for env
  by unfold_locales (simp_all add: once_executed startup_once orderly_plain [OF take_once(2)])

end
