(* ===== verification/Run_Time.thy ===== *)
theory Run_Time
  imports Loop_Relations
begin

text \<open>
  The time limit of a run. Every second round of the loop reads the clock at least once, so that a run with a deadline
  ends after a number of rounds that the limit and the step of the clock bound, whatever the guest does.
\<close>

subsection \<open>Methods that return\<close>

definition returns :: "('m, 'a) meth \<Rightarrow> bool" where "returns m \<longleftrightarrow> (\<forall>s. fst (m s) \<noteq> Inl Going_on)"

lemma returns_basic: "returns (ereturn x)" "e \<noteq> Going_on \<Longrightarrow> returns (eraise e)" "returns (eget f)" "returns (emod g)"
  by (simp_all add: returns_def)

lemma returns_ebind: "returns m \<Longrightarrow> (\<And>x. returns (f x)) \<Longrightarrow> returns (ebind m f)"
  unfolding returns_def ebind_def by (auto split: prod.splits sum.splits) (metis fst_conv)+

lemma returns_eseq: "returns m \<Longrightarrow> returns n \<Longrightarrow> returns (eseq m n)"
  by (simp add: eseq_def returns_ebind)

lemma returns_cases:
  "returns m \<Longrightarrow> returns n \<Longrightarrow> returns (eif b m n)"
  "returns m \<Longrightarrow> returns n \<Longrightarrow> returns (if c then m else n)"
  "returns m \<Longrightarrow> (\<And>x. returns (f x)) \<Longrightarrow> returns (case z of None \<Rightarrow> m | Some x \<Rightarrow> f x)"
  "(\<And>x y. returns (g x y)) \<Longrightarrow> returns (case p of (x, y) \<Rightarrow> g x y)"
  "returns l \<Longrightarrow> (\<And>x xs. returns (h x xs)) \<Longrightarrow> returns (case ys of [] \<Rightarrow> l | x # xs \<Rightarrow> h x xs)"
  by (cases z; cases p; cases ys; simp add: returns_def eif_def)+

lemma returns_raise: "returns (raise_error e)"
  by (simp add: raise_error_def returns_basic)

lemma returns_guest: "returns (on_guest f)" "returns (on_cpu g)"
  by (auto simp: returns_def on_guest_def on_cpu_def split: prod.split sum.split)

lemma returns_clock: "returns (read_clock env)"
  by (simp add: returns_def read_clock_def)

lemma returns_engine: "returns (run_engine env address timeout count)"
  by (auto simp: returns_def run_engine_def split: prod.split)

lemmas returns_rules = returns_basic(1,3,4) returns_ebind returns_eseq returns_cases returns_raise returns_guest
  returns_clock returns_engine

lemma returns_limit_checks:
  "returns (deadline_passed env)" "returns (get_reached_limit env)" "returns (is_total_time_reached env)"
  "returns (get_native_timeout env)" "returns (stopped_at_hlt env count)" "returns (from_run env i timeout b)"
  unfolding get_reached_limit_def is_total_time_reached_def get_native_timeout_def stopped_at_hlt_def from_run_def
    deadline_passed_def
  by (intro returns_rules)+

lemma returns_complete: "returns (on_run_complete env)"
  unfolding on_run_complete_def prepare_next_run_def finish_run_initializers_def take_run_def prepare_run_context_def
  by (intro returns_rules)

lemma returns_stops: "returns (stop_at_limit env kind i)" "returns (stop_without_exit env i)"
proof -
  show "returns (stop_at_limit env kind i)" for kind
    unfolding stop_at_limit_def by (intro returns_rules returns_complete)
  then show "returns (stop_without_exit env i)"
    unfolding stop_without_exit_def by (intro returns_rules returns_complete returns_limit_checks)
qed

lemma returns_unicorn: "returns (start_unicorn env address i stepping)"
  unfolding start_unicorn_def run_step_def Let_def
  by (intro returns_rules returns_limit_checks returns_basic(2)) simp

lemma returns_start: "returns (start_phase env i stepping address)"
  unfolding start_phase_def by (intro returns_rules returns_limit_checks returns_stops returns_unicorn)

lemma returns_finish: "returns (finish_current_run_execution env i)"
  unfolding finish_current_run_execution_def by (intro returns_rules)

lemma returns_exception: "returns (dispatch_cpu_exception env x)"
  unfolding dispatch_cpu_exception_def Let_def by (intro returns_rules)

lemma returns_handle: "(\<And>e. returns (ev_api env e)) \<Longrightarrow> returns (handle_exit env i)"
proof -
  assume api: "\<And>e. returns (ev_api env e)"
  have entry: "returns (dispatch_api_entry env e i)" for e
    unfolding dispatch_api_entry_def by (intro returns_rules api returns_limit_checks returns_stops returns_complete)
  have "returns (match_exit env x)" for x
    unfolding match_exit_def
    by (auto split: option.split native_exit.split intro!: returns_eseq returns_basic returns_complete returns_guest)
  then have "returns (checked_exit env i x)" for x
    unfolding checked_exit_def by (intro returns_rules returns_limit_checks returns_stops)
  moreover have "returns (ebind (get_reached_limit env) (\<lambda>reached. case reached of
      Some kind \<Rightarrow> eseq (stop_at_limit env kind i) (ereturn False)
    | None \<Rightarrow> eif pending_stop (ereturn False) (dispatch_api_entry env e i)))" for e
    by (intro returns_rules entry returns_limit_checks returns_stops)
  moreover have "returns (eseq (emod (\<lambda>s. s\<lparr>lp_exit := None\<rparr>)) (eseq (dispatch_cpu_exception env r) (ereturn True)))" for r
    by (intro returns_rules returns_exception)
  ultimately show ?thesis
    unfolding handle_exit_def
    by (intro returns_ebind returns_basic) (auto split: option.split native_exit.split)
qed

subsection \<open>Time and deadline\<close>

text \<open>The time does not go back, and the deadline of the call stays.\<close>

definition timely :: "'m loop \<Rightarrow> 'm loop \<Rightarrow> bool" where
  "timely s t \<longleftrightarrow> lp_time s \<le> lp_time t \<and> rl_deadline (lp_limits t) = rl_deadline (lp_limits s) \<and>
     lp_debugger t = lp_debugger s"

text \<open>What the bound needs of the engine and the APIs: an API returns, the clock advances by \<open>\<delta>\<close> between two readings.\<close>

definition timed_env :: "rat \<Rightarrow> 'm env \<Rightarrow> bool" where
  "timed_env \<delta> env \<longleftrightarrow>
     0 < \<delta> \<and> (\<forall>n. ev_clock env n + \<delta> \<le> ev_clock env (Suc n)) \<and>
     (\<forall>address timeout count s. timely s (snd (ev_engine env address timeout count s))) \<and>
     (\<forall>entry. moves timely (ev_api env entry) \<and> returns (ev_api env entry)) \<and>
     (\<forall>t s. timely s (ev_init_thread env t s)) \<and> (\<forall>s. timely s (ev_rollback env s))"

interpretation time: state_preorder timely
  by unfold_locales (auto simp: timely_def)

lemma timely_neutral: "neutral s t \<Longrightarrow> timely s t"
  by (simp add: timely_def neutral_def)

lemma timely_quiet: "(c \<Longrightarrow> timely s t) \<Longrightarrow> quiet c timely s t"
  by (auto simp: quiet_def timely_def)

lemma moves_timely: "(c \<Longrightarrow> moves timely m) \<Longrightarrow> moves (quiet c timely) m"
  by (auto simp: moves_def intro: timely_quiet)

lemma timely_guest: "moves timely (on_guest f)"
  using moves_on_guest by (auto simp: moves_def intro: timely_neutral)

lemma timely_engine: "timed_env \<delta> env \<Longrightarrow> moves timely (run_engine env address timeout count)"
proof -
  assume env: "timed_env \<delta> env"
  have "timely s (snd (ev_engine env address timeout count (s\<lparr>lp_stopping := False\<rparr>)))" for s
  proof (rule time.trans)
    show "timely s (s\<lparr>lp_stopping := False\<rparr>)" by (simp add: timely_def)
    show "timely (s\<lparr>lp_stopping := False\<rparr>) (snd (ev_engine env address timeout count (s\<lparr>lp_stopping := False\<rparr>)))"
      using env unfolding timed_env_def by blast
  qed
  then show ?thesis by (simp add: moves_def run_engine_def split_beta)
qed

lemma timely_step: "timed_env \<delta> env \<Longrightarrow> moves timely (run_step env address timeout i)"
  unfolding run_step_def
  by (intro time.rules timely_engine moves_emod) (auto simp: timely_def upd_run_def)

lemma timely_take: "timed_env \<delta> env \<Longrightarrow> moves timely (take_run env i rest)"
proof -
  assume env: "timed_env \<delta> env"
  have "timely s (ev_init_thread env t (s\<lparr>lp_exit_codes := c\<rparr>))" for s t c
  proof -
    have "timely (s\<lparr>lp_exit_codes := c\<rparr>) (ev_init_thread env t (s\<lparr>lp_exit_codes := c\<rparr>))"
      using env unfolding timed_env_def by blast
    then show ?thesis by (simp add: timely_def)
  qed
  then have "timely s (start_thread env s)" for s
    by (auto simp: start_thread_def time.refl split: option.split)
  moreover have "timely s (enter_thread i (enter_process i s))" for s :: "'a loop"
    using neutral_trans [OF neutral_basic(10) neutral_enter_thread] by (rule timely_neutral)
  ultimately have "timely s (start_thread env (enter_thread i (enter_process i s)))" for s
    using time.trans by blast
  then show ?thesis
    unfolding take_run_def prepare_run_context_def on_cpu_def raise_error_def
    by (intro time.rules timely_guest moves_emod)
      (auto simp: timely_def forget_fault_def upd_emu_def upd_pc_def engine_stop_def)
qed

lemma timely_unicorn: "timed_env \<delta> env \<Longrightarrow> moves timely (start_unicorn env address i stepping)"
proof -
  assume env: "timed_env \<delta> env"
  have neutral: "moves timely m" if "moves neutral m" for m :: "('a, 'b) meth"
    using that by (auto simp: moves_def intro: timely_neutral)
  have hlt: "moves timely (emod (\<lambda>s. if hlt then raise_cpu_exception (hlt_exception s) s else s))" for hlt
    by (intro moves_emod timely_neutral) simp
  show ?thesis
    unfolding start_unicorn_def Let_def
    by (intro time.rules timely_engine [OF env] timely_step [OF env] neutral [OF neutral_limit_checks(3)]
        neutral [OF neutral_limit_checks(4)] hlt)
qed

lemma timely_frames: "timed_env \<delta> env \<Longrightarrow> timely s (drop_frames env s)"
  by (simp add: timed_env_def drop_frames_def Let_def timely_def)

interpretation timed: engine_steps timely env "timed_env \<delta> env" i for env \<delta> i
proof unfold_locales
  fix s j rest e address timeout count
  show "quiet (timed_env \<delta> env) timely s (snd (take_run env j rest s))"
    using timely_take [of \<delta> env j rest] by (intro timely_quiet) (simp add: moves_def)
  show "moves (quiet (timed_env \<delta> env) timely) (ev_api env e)"
    by (rule moves_timely) (simp add: timed_env_def)
  show "quiet (timed_env \<delta> env) timely s (drop_frames env s)"
    by (rule timely_quiet) (rule timely_frames)
  show "quiet (timed_env \<delta> env) timely s (snd (run_engine env address timeout (get_native_count (lp_limits s)) s))"
    using timely_engine [of \<delta> env] by (intro timely_quiet) (simp add: moves_def)
qed (auto simp: timely_neutral, auto simp: timely_def)

subsection \<open>Rounds\<close>

text \<open>The readings of the clock before the deadline.\<close>

definition readings_left :: "rat \<Rightarrow> 'm env \<Rightarrow> rat \<Rightarrow> 'm loop \<Rightarrow> nat" where
  "readings_left \<delta> env d s = nat \<lceil>(d - ev_clock env (lp_time s)) / \<delta>\<rceil>"

lemma clock_advances: "timed_env \<delta> env \<Longrightarrow> ev_clock env m + of_nat k * \<delta> \<le> ev_clock env (m + k)"
proof (induction k)
  case (Suc k)
  have "ev_clock env (m + k) + \<delta> \<le> ev_clock env (Suc (m + k))" using Suc.prems by (simp add: timed_env_def)
  then show ?case using Suc by (simp add: algebra_simps)
qed simp

lemma clock_mono: "timed_env \<delta> env \<Longrightarrow> m \<le> n \<Longrightarrow> ev_clock env m \<le> ev_clock env n"
proof -
  assume env: "timed_env \<delta> env" and n: "m \<le> n"
  then have "ev_clock env m + of_nat (n - m) * \<delta> \<le> ev_clock env n" using clock_advances [OF env, of m "n - m"] by simp
  moreover have "0 \<le> of_nat (n - m) * \<delta>" using env by (simp add: timed_env_def)
  ultimately show ?thesis by simp
qed

lemma readings_mono:
  assumes env: "timed_env \<delta> env" and time: "lp_time s \<le> lp_time t"
  shows "readings_left \<delta> env d t \<le> readings_left \<delta> env d s"
proof -
  have "ev_clock env (lp_time s) \<le> ev_clock env (lp_time t)" using clock_mono [OF env time] .
  then have "(d - ev_clock env (lp_time t)) / \<delta> \<le> (d - ev_clock env (lp_time s)) / \<delta>"
    using env by (simp add: timed_env_def divide_right_mono)
  then show ?thesis unfolding readings_left_def by (intro nat_mono ceiling_mono)
qed

lemma reading_used:
  assumes env: "timed_env \<delta> env" and time: "lp_time s < lp_time t" and d: "ev_clock env (lp_time s) < d"
  shows "readings_left \<delta> env d t < readings_left \<delta> env d s"
proof -
  let ?x = "(d - ev_clock env (lp_time s)) / \<delta>"
  have \<delta>: "0 < \<delta>" using env by (simp add: timed_env_def)
  have "ev_clock env (lp_time s) + \<delta> \<le> ev_clock env (Suc (lp_time s))" using env by (simp add: timed_env_def)
  also have "\<dots> \<le> ev_clock env (lp_time t)" using clock_mono [OF env, of "Suc (lp_time s)"] time by simp
  finally have "(d - ev_clock env (lp_time t)) / \<delta> \<le> (d - ev_clock env (lp_time s) - \<delta>) / \<delta>"
    using \<delta> by (intro divide_right_mono) simp_all
  also have "\<dots> = ?x - 1" using \<delta> by (simp add: diff_divide_distrib)
  finally have "\<lceil>(d - ev_clock env (lp_time t)) / \<delta>\<rceil> \<le> \<lceil>?x\<rceil> - 1"
    using ceiling_mono ceiling_diff_one [of ?x] by (metis)
  moreover have "0 < \<lceil>?x\<rceil>" using \<delta> d by simp
  ultimately show ?thesis unfolding readings_left_def by linarith
qed

text \<open>A start of the engine, and the handling of an API call, read the clock before the deadline.\<close>

lemma limit_check:
  assumes "rl_deadline (lp_limits s) = Some d" "get_reached_limit env s = (Inr None, t)"
  shows "ev_clock env (lp_time s) < d" "t = s\<lparr>lp_time := Suc (lp_time s)\<rparr>"
  using assms by (auto simp: get_reached_limit_def deadline_passed_def read_clock_def ebind_def Let_def split: if_splits)

lemma checked_reading:
  assumes env: "timed_env \<delta> env" and s: "lp_debugger s = None" "rl_deadline (lp_limits s) = Some d"
    and m: "moves (quiet (timed_env \<delta> env) timely) m"
    and run: "ebind (get_reached_limit env) (\<lambda>reached. case reached of Some kind \<Rightarrow> stopped kind | None \<Rightarrow> m) s = (r, t)"
    and kind: "\<And>kind u. stopped kind u \<noteq> (r, t)"
  shows "lp_debugger t = None" "rl_deadline (lp_limits t) = Some d" "readings_left \<delta> env d t < readings_left \<delta> env d s"
proof -
  obtain reached u where u: "get_reached_limit env s = (Inr reached, u)"
    by (auto simp: get_reached_limit_def deadline_passed_def read_clock_def ebind_def Let_def s(2))
  have "reached = None" using run u kind by (cases reached) (auto simp: ebind_def)
  then have d: "ev_clock env (lp_time s) < d" and u: "u = s\<lparr>lp_time := Suc (lp_time s)\<rparr>" and "m u = (r, t)"
    using limit_check [OF s(2), of env u] run u by (simp_all add: ebind_def)
  then have t: "lp_debugger t = None" "timely u t" using moves_step [OF m \<open>m u = (r, t)\<close> env] s(1) by simp_all
  then show "lp_debugger t = None" "rl_deadline (lp_limits t) = Some d" using u s(2) by (simp_all add: timely_def)
  have "lp_time s < lp_time t" using t(2) u by (simp add: timely_def)
  then show "readings_left \<delta> env d t < readings_left \<delta> env d s" by (rule reading_used [OF env _ d])
qed

lemma start_reading:
  assumes env: "timed_env \<delta> env" and s: "lp_debugger s = None" "rl_deadline (lp_limits s) = Some d"
    and run: "start_phase env i stepping address s = (Inr p, t)" "p \<noteq> Ends"
  shows "lp_debugger t = None" "rl_deadline (lp_limits t) = Some d" "readings_left \<delta> env d t < readings_left \<delta> env d s"
proof -
  have m: "moves (quiet (timed_env \<delta> env) timely) (ebind (start_unicorn env address i stepping) (\<lambda>ok.
           if \<not> ok then ereturn Ends
           else eseq (emod (\<lambda>s. if lp_exit s = None then s\<lparr>lp_exit := get_exit_at_pc env s\<rparr> else s))
                  (eif (\<lambda>s. case lp_exit s of Some (Raised_exception _) \<Rightarrow> True | _ \<Rightarrow> False) (ereturn Handles)
                     (eif (\<lambda>s. lp_curr s \<noteq> Some i \<or> lp_emu_complete s \<or> pending_stop s) (ereturn Ends)
                        (eif (\<lambda>s. lp_exit s = None) (eseq (stop_without_exit env i) (ereturn Ends)) (ereturn Again))))))"
    by (intro timed.q.rules moves_timely [OF timely_unicorn] timed.stop_unexplained timed.emod_neutral) (auto simp: neutral_eq)
  have kind: "eseq (stop_at_limit env kind i) (ereturn Ends) u \<noteq> (Inr p, t)" for kind u
    using run(2) by (auto simp: eseq_def ebind_def split: prod.splits sum.splits)
  note reading = checked_reading [OF env s m run(1) [unfolded start_phase_def] kind]
  show "lp_debugger t = None" "rl_deadline (lp_limits t) = Some d" "readings_left \<delta> env d t < readings_left \<delta> env d s"
    by (fact reading)+
qed

text \<open>An exit that is handled without a reading leaves no exit, or the end of the run by a fault.\<close>

definition settled :: "'m loop \<Rightarrow> bool" where
  "settled s \<longleftrightarrow> lp_exit s = None \<or> lp_exit s = Some Fault_return"

lemma settled_guest: "moves (\<lambda>s t. settled s \<longrightarrow> settled t) (on_guest f)"
proof -
  have "settled (end_run_on_fault s)" if "settled s" for s :: "'a loop"
    using that by (simp add: end_run_on_fault_def Let_def record_exit_def engine_stop_def settled_def)
  moreover have "lp_exit (set_run_error e s) = lp_exit s" "lp_exit (upd_emu g s) = lp_exit s" for e g and s :: "'a loop"
    by (simp_all add: set_run_error_def upd_run_def upd_emu_def split: option.split)
  ultimately have "settled (take_error s)" if "settled s" for s :: "'a loop"
    using that by (auto simp: take_error_def settled_def split: option.split)
  then show ?thesis
    by (auto simp: moves_def on_guest_def settled_def split: prod.split)
qed

lemma settled_exception: "moves (\<lambda>s t. settled s \<longrightarrow> settled t) (dispatch_cpu_exception env x)"
  unfolding dispatch_cpu_exception_def Let_def
  by (intro invariant.rules settled_guest moves_emod)
    (auto simp: settled_def upd_pc_def upd_emu_def split: option.split)

lemma settled_match:
  assumes "settled s" "x \<noteq> Some Run_return" "x \<noteq> Some Fault_return"
  shows "settled (snd (match_exit env x s))"
proof -
  have "moves (\<lambda>s t. settled s \<longrightarrow> settled t) (emod (upd_emu f))" for f
    by (rule moves_emod) (simp add: settled_def upd_emu_def)
  then have "moves (\<lambda>s t. settled s \<longrightarrow> settled t) (match_exit env x)"
    using assms(2,3) unfolding match_exit_def
    by (auto split: option.split native_exit.split intro!: invariant.moves_eseq invariant.moves_basic settled_guest)
  then show ?thesis using assms(1) by (simp add: moves_def)
qed

lemma handled_api:
  assumes env: "timed_env \<delta> env" and s: "lp_debugger s = None" "rl_deadline (lp_limits s) = Some d"
    and exit: "lp_exit s = Some (Suspended_api_call e sp ret code)" and run: "handle_exit env i s = (Inr True, t)"
  shows "readings_left \<delta> env d t < readings_left \<delta> env d s"
proof -
  have m: "moves (quiet (timed_env \<delta> env) timely) (eif pending_stop (ereturn False) (dispatch_api_entry env e i))"
    by (intro timed.q.rules timed.api_entry)
  have kind: "eseq (stop_at_limit env kind i) (ereturn False) u \<noteq> (Inr True, t)" for kind u
    by (auto simp: eseq_def ebind_def split: prod.splits sum.splits)
  have "ebind (get_reached_limit env) (\<lambda>reached. case reached of
      Some kind \<Rightarrow> eseq (stop_at_limit env kind i) (ereturn False)
    | None \<Rightarrow> eif pending_stop (ereturn False) (dispatch_api_entry env e i)) s = (Inr True, t)"
    using run exit by (simp add: handle_exit_def ebind_def)
  from checked_reading(3) [OF env s m this kind] show ?thesis .
qed

lemma handled_check:
  assumes "checked_exit env i x s = (Inr True, t)"
  shows "x \<noteq> Some Run_return \<and> x \<noteq> Some Fault_return \<and> settled t"
proof -
  obtain u where u: "match_exit env x u = (Inr True, t)" "settled u"
  proof -
    have "\<exists>late v. is_total_time_reached env s = (Inr late, v)"
      by (cases "rl_deadline (lp_limits s)")
        (auto simp: is_total_time_reached_def deadline_passed_def read_clock_def ebind_def eif_def intro: exI [of _ False])
    then obtain late v where late: "is_total_time_reached env s = (Inr late, v)" by blast
    then have "match_exit env x (v\<lparr>lp_exit := None\<rparr>) = (Inr True, t)"
      using assms
      by (auto simp: checked_exit_def eif_def ebind_def eseq_def split: if_splits prod.splits sum.splits)
    then show thesis using that by (simp add: settled_def)
  qed
  have "x \<noteq> Some Run_return \<and> x \<noteq> Some Fault_return"
    using u(1) by (auto simp: match_exit_def eseq_def ebind_def split: prod.splits sum.splits)
  then show ?thesis using settled_match [OF u(2), of x env] u(1) by simp
qed

lemma handled_raised:
  assumes "lp_exit s = Some (Raised_exception x)" "handle_exit env i s = (Inr True, t)"
  shows "settled t"
proof -
  obtain r u where u: "dispatch_cpu_exception env x (s\<lparr>lp_exit := None\<rparr>) = (r, u)"
    by (cases "dispatch_cpu_exception env x (s\<lparr>lp_exit := None\<rparr>)")
  then have "t = u" using assms by (cases r) (simp_all add: handle_exit_def ebind_def eseq_def)
  then show ?thesis using movesD [OF settled_exception u] by (simp add: settled_def)
qed

text \<open>Two rounds for each reading, and one for an exit that is handled without.\<close>

definition unread_exit :: "'m loop \<Rightarrow> nat" where
  "unread_exit s = (if settled s \<or> (\<exists>e sp ret code. lp_exit s = Some (Suspended_api_call e sp ret code)) then 0 else 1)"

lemma handled_round:
  assumes env: "timed_env \<delta> env" and s: "lp_debugger s = None" "rl_deadline (lp_limits s) = Some d"
    and exit: "lp_exit s \<noteq> None" and run: "handle_exit env i s = (Inr True, t)"
  shows "2 * readings_left \<delta> env d t + unread_exit t < 2 * readings_left \<delta> env d s + unread_exit s"
proof -
  have t: "timely s t" using moves_step [OF timed.exit_handled run env s(1)] by simp
  then have less: "readings_left \<delta> env d t \<le> readings_left \<delta> env d s"
    by (intro readings_mono [OF env]) (simp add: timely_def)
  show ?thesis
  proof (cases "\<exists>e sp ret code. lp_exit s = Some (Suspended_api_call e sp ret code)")
    case True
    then have "readings_left \<delta> env d t < readings_left \<delta> env d s" using handled_api [OF env s _ run] by blast
    then show ?thesis by (simp add: unread_exit_def)
  next
    case False
    have "settled t \<and> \<not> settled s"
    proof (cases "\<exists>x. lp_exit s = Some (Raised_exception x)")
      case True
      then show ?thesis using handled_raised [OF _ run] by (auto simp: settled_def)
    next
      case other: False
      have "checked_exit env i (lp_exit s) s = (Inr True, t)"
        using run exit False other by (auto simp: handle_exit_def ebind_def split: option.splits native_exit.splits)
      from handled_check [OF this] show ?thesis using exit by (auto simp: settled_def)
    qed
    then show ?thesis using False less by (simp add: unread_exit_def)
  qed
qed

lemma rounds_bound:
  assumes env: "timed_env \<delta> env"
  shows "rounds n env i stepping address s = (Inl Going_on, t) \<Longrightarrow> lp_debugger s = None \<Longrightarrow>
    rl_deadline (lp_limits s) = Some d \<Longrightarrow> n \<le> 2 * readings_left \<delta> env d s + unread_exit s"
proof (induction n arbitrary: address s)
  case (Suc n)
  note s = Suc.prems(2,3)
  have api: "\<And>e. returns (ev_api env e)" using env by (simp add: timed_env_def)
  have handled: "n \<le> 2 * readings_left \<delta> env d v + unread_exit v \<and> timely u v \<and> handle_exit env i u = (Inr True, v)"
    if "ebind (handle_exit env i) (\<lambda>go_on. if \<not> go_on then ereturn ()
        else eif (\<lambda>s. lp_fault_stop s \<noteq> None \<or> lp_curr s \<noteq> Some i \<or> (debugging s \<and> (pending_stop s \<or> stepping)))
               (ereturn ()) (ebind (eget pc_of) (rounds n env i stepping))) u = (Inl Going_on, t)"
      "lp_debugger u = None" "rl_deadline (lp_limits u) = Some d" and v: "snd (handle_exit env i u) = v" for u v
  proof -
    obtain r where r: "handle_exit env i u = (r, v)" using v by (cases "handle_exit env i u") simp
    have v: "lp_debugger v = None" "timely u v" using moves_step [OF timed.exit_handled r env that(2)] by simp_all
    have "r \<noteq> Inl Going_on" using returns_handle [of env i] api r by (metis fst_conv returns_def)
    then have "r = Inr True" "rounds n env i stepping (pc_of v) v = (Inl Going_on, t)"
      using that(1) r by (auto simp: ebind_def eif_def split: sum.splits if_splits)
    then show ?thesis using Suc.IH [of "pc_of v" v] v that(3) r by (simp add: timely_def)
  qed
  show ?case
  proof (cases "lp_exit s")
    case None
    obtain r u where u: "start_phase env i stepping address s = (r, u)"
      by (cases "start_phase env i stepping address s")
    have "r \<noteq> Inl Going_on" using returns_start [of env i stepping address] u by (metis fst_conv returns_def)
    then obtain p where p: "r = Inr p" "p \<noteq> Ends"
      using Suc.prems(1) u None by (cases r) (auto simp: ebind_def eif_def split: if_splits phase.splits)
    note start = start_reading [OF env s u [unfolded p(1)] p(2)]
    have "n \<le> 2 * readings_left \<delta> env d u + 1"
    proof (cases p)
      case Again
      then have "rounds n env i stepping address u = (Inl Going_on, t)"
        using Suc.prems(1) u None p by (auto simp: ebind_def eif_def split: if_splits)
      from Suc.IH [OF this start(1,2)] show ?thesis by (simp add: unread_exit_def split: if_splits)
    next
      case Handles
      then have "n \<le> 2 * readings_left \<delta> env d v + unread_exit v \<and> timely u v" if "snd (handle_exit env i u) = v" for v
        using handled [of u v] Suc.prems(1) u None p start(1,2) that
        by (auto simp: ebind_def eif_def split: if_splits)
      from this [OF HOL.refl] have "n \<le> 2 * readings_left \<delta> env d (snd (handle_exit env i u)) + 1"
        "timely u (snd (handle_exit env i u))" by (auto simp: unread_exit_def split: if_splits)
      moreover from this(2) have "readings_left \<delta> env d (snd (handle_exit env i u)) \<le> readings_left \<delta> env d u"
        by (intro readings_mono [OF env]) (simp add: timely_def)
      ultimately show ?thesis by linarith
    qed (use p in simp)
    then show ?thesis using start(3) by linarith
  next
    case (Some x)
    then have "n \<le> 2 * readings_left \<delta> env d v + unread_exit v \<and> handle_exit env i s = (Inr True, v)"
      if "snd (handle_exit env i s) = v" for v
      using handled [of s v] Suc.prems that by (auto simp: ebind_def eif_def split: if_splits)
    then show ?thesis using handled_round [OF env s] Some by fastforce
  qed
qed simp

text \<open>A run with a time limit ends.\<close>

lemma execution_ends:
  assumes env: "timed_env \<delta> env" and s: "lp_debugger s = None" "0 < timeout"
    and fuel: "\<And>i. lp_curr s = Some i \<Longrightarrow>
      2 * nat \<lceil>max (timeout - gr_elapsed (lp_heap s i)) 0 / \<delta>\<rceil> + 1 < n"
  shows "fst (execute_current_run n env address timeout count s) \<noteq> Inl Going_on"
proof -
  obtain a t where a: "drop_stale_exit env address s = (Inr a, t)" "neutral s t" "lp_curr t = lp_curr s" "lp_heap t = lp_heap s"
    using stale_exit by blast
  then have d: "lp_debugger t = None" using s(1) by (simp add: neutral_def)
  show ?thesis
  proof (cases "lp_curr t")
    case None
    then show ?thesis using a by (simp add: execute_current_run_def ebind_def raise_error_def)
  next
    case (Some i)
    obtain l u where l: "from_run env i timeout count t = (Inr l, u)"
      by (auto simp: from_run_def ebind_def read_clock_def Let_def)
    note limits = from_run_limits [OF l]
    obtain e where e: "rl_deadline l = Some e"
      "e \<le> ev_clock env (lp_time t) + max (timeout - gr_elapsed (lp_heap t i)) 0"
      using limits(6) [OF s(2)] by blast
    let ?s = "u\<lparr>lp_limits := l\<rparr>"
    have "ev_clock env (lp_time t) \<le> ev_clock env (lp_time ?s)"
      using clock_mono [OF env, of "lp_time t" "lp_time ?s"] limits(1) by simp
    then have "(e - ev_clock env (lp_time ?s)) / \<delta> \<le> max (timeout - gr_elapsed (lp_heap s i)) 0 / \<delta>"
      using e(2) a(4) env by (intro divide_right_mono) (simp_all add: timed_env_def)
    then have "readings_left \<delta> env e ?s \<le> nat \<lceil>max (timeout - gr_elapsed (lp_heap s i)) 0 / \<delta>\<rceil>"
      unfolding readings_left_def by (intro nat_mono ceiling_mono)
    moreover have "unread_exit ?s \<le> 1" by (simp add: unread_exit_def)
    moreover have "lp_curr s = Some i" using Some a(3) by simp
    ultimately have "\<not> n \<le> 2 * readings_left \<delta> env e ?s + unread_exit ?s" using fuel [of i] by linarith
    moreover have "lp_debugger ?s = None" using d limits(1) by simp
    moreover obtain r v where r: "rounds n env i False a ?s = (r, v)" by (cases "rounds n env i False a ?s")
    ultimately have "r \<noteq> Inl Going_on" using rounds_bound [OF env, of n i False a ?s v e] e(1) by auto
    moreover obtain r' w where f: "finish_current_run_execution env i v = (r', w)"
      by (cases "finish_current_run_execution env i v")
    moreover have "r' \<noteq> Inl Going_on" using returns_finish [of env i] f by (metis fst_conv returns_def)
    ultimately show ?thesis
      using a(1) Some l d r
      by (cases r; cases r') (simp_all add: execute_current_run_def ebind_def eseq_def debugging_def efinally_def is_going_on_def)
  qed
qed

end
