(* ===== verification/Run_Properties.thy ===== *)
theory Run_Properties
  imports Run_Order Run_Time Seh_Properties
begin

text \<open>
  The properties of the execution loop, for an emulator without a GDB client: the instruction limit, the order of the runs
  and the time limit. The examples have an engine that executes five instructions at each start, or as many as the count
  and the stops allow, and an API that creates a thread and suspends it.
\<close>

definition no_debug_api :: "unit loop emu_api" where
  "no_debug_api = \<lparr>ea_amd64 = False, ea_get_pc = pc_of, ea_set_pc = (\<lambda>a s. (Inr (), upd_pc a s)),
     ea_mem_read = (\<lambda>_ _ _. Inl UcError), ea_mem_write = (\<lambda>_ _ s. (Inl UcError, s)), ea_reg_read = (\<lambda>_ _. (0, 0)),
     ea_reg_write = (\<lambda>_ _ s. (Inl UcError, s)), ea_modules = (\<lambda>_. []), ea_mem_regions = (\<lambda>_. []),
     ea_run_start = (\<lambda>_. None), ea_mod_from_addr = (\<lambda>_ _. None), ea_teb = (\<lambda>_. 0)\<rparr>"

definition ex_entry :: api_entry where
  "ex_entry = \<lparr>ae_address = 0x7000, ae_trap = None, ae_dll = ''kernel32'', ae_name = ''CreateThread''\<rparr>"

definition ex_base :: "unit env" where
  "ex_base = \<lparr>ev_ops = zero_ops, ev_engine = (\<lambda>_ _ _ s. (None, s)), ev_clock = of_nat, ev_exit_event = (\<lambda>_. False),
     ev_traps = (\<lambda>_. None), ev_api = (\<lambda>_. ereturn ()), ev_supported = (\<lambda>_. True), ev_protect = (\<lambda>_ _ m. m),
     ev_stack = (0x10000, 0x100), ev_init_thread = (\<lambda>_ s. s), ev_rollback = (\<lambda>s. s), ev_gdb = no_debug_api,
     ev_session = None, ev_max_total_time = 100, ev_max_run_time = 10, ev_max_instructions = 7, ev_max_runs = 4,
     ev_dispatch_handlers = True, ev_memory_tracing = False\<rparr>"

definition ex_addresses :: "int \<Rightarrow> int list" where "ex_addresses a = [a, a + 2, a + 4, a + 6, a + 8]"

definition ex_instruction :: "int \<Rightarrow> unit loop \<Rightarrow> unit loop" where
  "ex_instruction a s = (if lp_stopping s then s else count_executed (instruction_hook ex_base a s))"

definition ex_execute :: "int \<Rightarrow> int \<Rightarrow> unit loop \<Rightarrow> unit loop" where
  "ex_execute a count s = fold ex_instruction (if 0 < count then take (nat count) (ex_addresses a) else ex_addresses a) s"

text \<open>A call of the API ends the first start of the engine in the run 0.\<close>

definition ex_env :: "unit env" where
  "ex_env = ex_base\<lparr>
     ev_engine := (\<lambda>a _ count s. let t = ex_execute a count s
       in (None, if lp_queue s = [] \<and> lp_next s = 1 then record_exit (suspended_api_call ex_base ex_entry t) t else t)),
     ev_api := (\<lambda>_. emod (\<lambda>s. snd (suspend_thread 1 (snd (create_thread ex_base 0x2000 1 None False s)))))\<rparr>"

definition ex_loop :: "unit loop" where
  "ex_loop = \<lparr>lp_cpu = \<lparr>rn_emu = ex_emu (), rn_gens = []\<rparr>, lp_heap = (\<lambda>_. new_run ''module_entry'' (Some 0x1000) [1]),
     lp_next = 1, lp_queue = [0], lp_suspended = [], lp_runs = [], lp_curr = None, lp_exit = None, lp_stopping = False, lp_call_site = None,
     lp_prev_pc = 0, lp_run_complete = False, lp_emu_complete = False, lp_time = 0, lp_total = None,
     lp_limits = \<lparr>rl_origin = 0, rl_started = 0, rl_spent = 0, rl_timeout = 0, rl_deadline = None, rl_kind = [],
       rl_total = False, rl_budget = 0, rl_remaining = -1, rl_last = None\<rparr>,
     lp_locals = \<lparr>rv_action = resume False, rv_detached = None, rv_signal = 0\<rparr>, lp_fault_stop = None,
     lp_stop_on_faults = False, lp_debugger = None, lp_thread = None, lp_next_thread = 1, lp_exit_codes = (\<lambda>_. None),
     lp_process = None, lp_suspend_counts = (\<lambda>_. 0), lp_load_states = (\<lambda>_. None), lp_dlls = []\<rparr>"

subsection \<open>What the example assumes\<close>

lemma instruction_ex: "instruction_hook ex_base = instruction_hook ex_env"
  by (intro ext) (simp add: instruction_hook_def account_instruction_def ex_env_def)

lemma ex_instruction_same:
  "timely s (ex_instruction a s)" "same_queues s (ex_instruction a s)"
  by (auto simp: timely_def same_queues_def ex_instruction_def count_executed_def instruction_hook_def account_instruction_def
      engine_stop_def Let_def upd_run_def split: option.split)

lemma record_exit_same:
  "same_accounts s (record_exit x s)" "same_account s (record_exit x s) j" "same_queues s (record_exit x s)"
  "timely s (record_exit x s)" "lp_stopping (record_exit x s)"
  by (simp_all add: record_exit_def engine_stop_def same_accounts_def account_defs same_queues_def timely_def)

interpretation queues: state_preorder same_queues
  by unfold_locales (auto simp: same_queues_def)

lemma fold_relation:
  assumes "state_preorder R" "\<And>a s. R s (f a s)"
  shows "R s (fold f as s)"
  using state_preorder.trans [OF assms(1)] state_preorder.refl [OF assms(1)] assms(2)
  by (induction "as" arbitrary: s) (simp, force)

lemma ex_execute_same: "timely s (ex_execute a count s)" "same_queues s (ex_execute a count s)"
  unfolding ex_execute_def
  by (rule fold_relation [OF time.state_preorder_axioms], rule ex_instruction_same)
    (rule fold_relation [OF queues.state_preorder_axioms], rule ex_instruction_same)

lemma ex_execute_counts: "\<exists>k. guest_runs ex_env count s k (ex_execute a count s)"
proof -
  have "\<exists>k \<le> length as. guest_runs ex_env count s k (fold ex_instruction as s)"
    if "0 < count \<longrightarrow> int (length as) \<le> count" for "as"
    using that
  proof (induction "as" rule: rev_induct)
    case (snoc b "as")
    then obtain k where k: "k \<le> length as" "guest_runs ex_env count s k (fold ex_instruction as s)" by auto
    show ?case
    proof (cases "lp_stopping (fold ex_instruction as s)")
      case True
      then have "fold ex_instruction (as @ [b]) s = fold ex_instruction as s"
        by (simp add: ex_instruction_def [of b "fold ex_instruction as s"])
      then show ?thesis using k by (intro exI [of _ k]) auto
    next
      case False
      have bound: "int k < count" if "0 < count" using k(1) snoc.prems that by simp
      have "guest_runs ex_env count s (Suc k) (fold ex_instruction (as @ [b]) s)"
        using guest_runs.instruction [OF k(2) False bound, of b] False
        by (simp add: ex_instruction_def [of b "fold ex_instruction as s"] instruction_ex)
      then show ?thesis using k(1) by auto
    qed
  qed (auto intro: guest_runs.nothing)
  note runs = this
  define xs where "xs = (if 0 < count then take (nat count) (ex_addresses a) else ex_addresses a)"
  have "0 < count \<longrightarrow> int (length xs) \<le> count" by (simp add: xs_def min_def) linarith
  then show ?thesis using runs [of xs] by (auto simp: ex_execute_def xs_def [symmetric])
qed

lemma ex_env_simps [simp]:
  "ev_api ex_env e = emod (\<lambda>s. snd (suspend_thread 1 (snd (create_thread ex_base 0x2000 1 None False s))))"
  "ev_init_thread ex_env t s = s"
  "ev_rollback ex_env s = s" "ev_session ex_env = None" "ev_max_instructions ex_env = 7" "ev_clock ex_env n = of_nat n"
  by (simp_all add: ex_env_def ex_base_def)

lemma ex_engine:
  "\<exists>e. snd (ev_engine ex_env a timeout count s) = ex_execute a count s \<or>
     snd (ev_engine ex_env a timeout count s) = record_exit e (ex_execute a count s)"
  by (auto simp: ex_env_def Let_def)

lemma ex_counting: "counting_env ex_env"
  unfolding counting_env_def
proof (intro conjI allI)
  fix a timeout count s
  obtain k where k: "guest_runs ex_env count s k (ex_execute a count s)" using ex_execute_counts by blast
  have "guest_runs ex_env count s k (record_exit e (ex_execute a count s))" for e
    by (rule guest_runs.other [OF k record_exit_same(1,2)]) (rule record_exit_same)
  then show "\<exists>k. guest_runs ex_env count s k (snd (ev_engine ex_env a timeout count s))"
    using ex_engine [of a timeout count s] k by metis
qed (auto simp: accounts.refl moves_def create_thread_def suspend_thread_def alloc_run_def add_run_def Let_def
    same_accounts_def account_defs new_run_def split: option.split)

lemma ex_orderly: "orderly_env ex_env"
  unfolding orderly_env_def
proof (intro conjI allI)
  show "schedules ex_env s (snd (ev_engine ex_env a timeout count s))" for a timeout count s
    using ex_engine [of a timeout count s] queues.trans [OF ex_execute_same(2) record_exit_same(3)] ex_execute_same(2)
      schedules.other [OF schedules.nothing] by metis
  have "create_thread ex_base = create_thread ex_env" by (simp add: fun_eq_iff create_thread_def ex_env_def)
  then show "moves (schedules ex_env) (ev_api ex_env e)" for e
    by (simp add: moves_def schedules.suspended schedules.created schedules.nothing)
  show "plain_env ex_env" by (simp add: plain_env_def queues.refl)
qed

lemma ex_timed: "timed_env 1 ex_env"
  unfolding timed_env_def
proof (intro conjI allI)
  show "timely s (snd (ev_engine ex_env a timeout count s))" for a timeout count s
    using ex_engine [of a timeout count s] time.trans [OF ex_execute_same(1) record_exit_same(4)] ex_execute_same(1)
    by metis
qed (auto simp: time.refl moves_def returns_def create_thread_def suspend_thread_def alloc_run_def add_run_def Let_def
    timely_def split: option.split)

subsection \<open>The properties\<close>

text \<open>C4: With an instruction limit and without a debugger, no run executes more instructions than the limit over all the calls
  of the loop, whatever starts, stops, API calls and exceptions are between: the instructions that the engine executed for
  a run are covered by the count of the accounting hook, which stays within the limit. The engine may execute the
  instruction at which the hook stops it, so this needs the count that each start of the engine gets.\<close>

theorem instruction_limit:
  assumes "counting_env env" "ev_session env = None" "lp_debugger s = None"
    "\<And>j. int (gr_executed (lp_heap s j)) \<le> gr_budget (lp_heap s j) \<and> gr_budget (lp_heap s j) \<le> ev_max_instructions env"
    "start_emulation k n env s = (r, t)"
  shows "int (gr_executed (lp_heap t j)) \<le> gr_budget (lp_heap t j) \<and> gr_budget (lp_heap t j) \<le> ev_max_instructions env"
proof -
  have "budgets_within (ev_max_instructions env) s" using assms(4) by (simp add: budgets_within_def budget_def executed_by_def)
  then have "budgets_within (ev_max_instructions env) t"
    using moves_step [OF accounted.emulation [OF assms(2)] assms(5,1,3)] by (simp add: keeps_within_def)
  then show ?thesis by (simp add: budgets_within_def budget_def executed_by_def)
qed

theorem instruction_limit_witness:
  "int (gr_executed (lp_heap (snd (start_emulation 6 20 ex_env ex_loop)) 0)) \<le> 7"
proof -
  obtain r t where t: "start_emulation 6 20 ex_env ex_loop = (r, t)" by (cases "start_emulation 6 20 ex_env ex_loop")
  have "int (gr_executed (lp_heap ex_loop j)) \<le> gr_budget (lp_heap ex_loop j) \<and>
      gr_budget (lp_heap ex_loop j) \<le> ev_max_instructions ex_env" for j
    by (simp add: ex_loop_def new_run_def)
  from instruction_limit [OF ex_counting _ _ this t, of 0] t show ?thesis by (auto simp: ex_loop_def)
qed

text \<open>C8: A run is executed, queued or suspended, and each at most once: the loop, the threads that the guest creates, suspends
  and resumes, the runs that handlers queue, the initializers of DLLs, the stops at limits, and the ends of runs in the
  loop, in the dispatch of APIs and in hooks never execute a run a second time or leave an executed run in the queue.\<close>

theorem runs_once:
  assumes "orderly_env env" "ev_session env = None" "lp_debugger s = None" "once s" "start_emulation k n env s = (r, t)"
  shows "distinct (lp_runs t @ lp_queue t @ lp_suspended t)"
proof -
  have "once t" using moves_step [OF orderly.emulation [OF assms(2)] assms(5,1,3)] assms(4) by (simp add: keeps_once_def)
  then show ?thesis by (simp add: once_def scheduled_def)
qed

theorem runs_once_witness: "distinct (lp_runs (snd (start_emulation 6 20 ex_env ex_loop)))"
proof -
  obtain r t where t: "start_emulation 6 20 ex_env ex_loop = (r, t)" by (cases "start_emulation 6 20 ex_env ex_loop")
  have "once ex_loop" by (simp add: once_def scheduled_def ex_loop_def)
  from runs_once [OF ex_orderly _ _ this t] t show ?thesis by (simp add: ex_loop_def)
qed

text \<open>C12: A run with a time limit ends: the rounds of its loop that are needed are bounded by the time that is left and the
  step of the clock, twice for each reading of the clock, whatever the guest and the APIs do.\<close>

theorem run_ends_in_time:
  assumes "timed_env \<delta> env" "lp_debugger s = None" "0 < timeout"
    "\<And>i. lp_curr s = Some i \<Longrightarrow> 2 * nat \<lceil>max (timeout - gr_elapsed (lp_heap s i)) 0 / \<delta>\<rceil> + 1 < n"
  shows "fst (execute_current_run n env address timeout count s) \<noteq> Inl Going_on"
  using assms by (rule execution_ends)

theorem run_ends_in_time_witness:
  "fst (execute_current_run 22 ex_env 0x1000 10 7 (ex_loop\<lparr>lp_curr := Some 0\<rparr>)) \<noteq> Inl Going_on"
  by (rule run_ends_in_time [OF ex_timed]) (simp_all add: ex_loop_def new_run_def)

end
