(* ===== verification/Text_Codecs.thy ===== *)
theory Text_Codecs
  imports Codecs
begin

text \<open>
  Guest text as Python strings, which are lists of code points: the Windows-1252 code page of
  \<^verbatim>\<open>speakeasy/winenv/codepage.py\<close> on all its characters, and Python's UTF-16 codec with its error handlers.
\<close>

type_synonym utext = "nat list"

subsection \<open>The ANSI code page\<close>

text \<open>The characters of the bytes 0x80 to 0x9F. The undefined bytes map to the controls with the same value.\<close>

definition C1_POINTS :: utext where
  "C1_POINTS = [0x20AC, 0x81, 0x201A, 0x192, 0x201E, 0x2026, 0x2020, 0x2021, 0x2C6, 0x2030, 0x160, 0x2039, 0x152, 0x8D, 0x17D,
     0x8F, 0x90, 0x2018, 0x2019, 0x201C, 0x201D, 0x2022, 0x2013, 0x2014, 0x2DC, 0x2122, 0x161, 0x203A, 0x153, 0x9D, 0x17E,
     0x178]"

definition DECODING_TABLE :: utext where "DECODING_TABLE = [0..<0x80] @ C1_POINTS @ [0xA0..<0x100]"

definition decode_ansi :: "byte list \<Rightarrow> utext" where "decode_ansi bs = map (\<lambda>b. DECODING_TABLE ! unat b) bs"

text \<open>The byte of a character, or the question mark for a character that is not in the code page.\<close>

definition index_of :: "nat \<Rightarrow> nat list \<Rightarrow> nat option" where
  "index_of c cs = (let n = length (takeWhile (\<lambda>x. x \<noteq> c) cs) in if n < length cs then Some n else None)"

definition encode_ansi_text :: "utext \<Rightarrow> byte list" where
  "encode_ansi_text s = map (\<lambda>c. case index_of c DECODING_TABLE of None \<Rightarrow> 0x3F | Some n \<Rightarrow> of_nat n) s"

lemma index_of_nth: "distinct cs \<Longrightarrow> n < length cs \<Longrightarrow> index_of (cs ! n) cs = Some n"
proof -
  assume d: "distinct cs" and n: "n < length cs"
  have "takeWhile (\<lambda>x. x \<noteq> cs ! n) cs = take n cs"
    using d n by (intro takeWhile_eq_take_P_nth) (auto simp: nth_eq_iff_index_eq)
  then show ?thesis using n by (simp add: index_of_def)
qed

lemma index_of_Some: "index_of c cs = Some n \<Longrightarrow> n < length cs \<and> cs ! n = c"
  using nth_length_takeWhile [of "\<lambda>x. x \<noteq> c" cs] by (auto simp: index_of_def Let_def split: if_splits)

lemma decoding_table: "distinct DECODING_TABLE" "length DECODING_TABLE = 256"
proof -
  have "distinct C1_POINTS" "\<forall>c\<in>set C1_POINTS. 0x80 \<le> c \<and> (c < 0xA0 \<or> 0x100 \<le> c)" by (simp_all add: C1_POINTS_def)
  then show "distinct DECODING_TABLE" by (fastforce simp: DECODING_TABLE_def)
  show "length DECODING_TABLE = 256" by (simp add: DECODING_TABLE_def C1_POINTS_def)
qed

lemma encode_decode_ansi: "encode_ansi_text (decode_ansi bs) = bs"
proof -
  have "index_of (DECODING_TABLE ! unat b) DECODING_TABLE = Some (unat b)" for b :: byte
    using index_of_nth decoding_table unsigned_less [where ?'a = nat, of b] by simp
  then show ?thesis by (simp add: decode_ansi_def encode_ansi_text_def o_def)
qed

lemma length_decode_ansi [simp]: "length (decode_ansi bs) = length bs"
  by (simp add: decode_ansi_def)

lemma length_encode_ansi_text [simp]: "length (encode_ansi_text s) = length s"
  by (simp add: encode_ansi_text_def)

subsection \<open>UTF-16\<close>

text \<open>Code units of little-endian bytes. An odd last byte is a unit of its own error and does not occur in strings that
  are read unit by unit.\<close>

fun units_of :: "byte list \<Rightarrow> nat list" where
  "units_of (a # b # bs) = (unat a + 256 * unat b) # units_of bs"
| "units_of _ = []"

definition unit_bytes :: "nat \<Rightarrow> byte list" where "unit_bytes u = [of_nat u, of_nat (u div 256)]"

definition bytes_of_units :: "nat list \<Rightarrow> byte list" where "bytes_of_units us = concat (map unit_bytes us)"

definition is_high :: "nat \<Rightarrow> bool" where "is_high u \<longleftrightarrow> 0xD800 \<le> u \<and> u < 0xDC00"
definition is_low :: "nat \<Rightarrow> bool" where "is_low u \<longleftrightarrow> 0xDC00 \<le> u \<and> u < 0xE000"

text \<open>The decoder, with the handler for a surrogate without its partner: the replacement character for \<open>replace\<close>, the
  surrogate itself for \<open>surrogatepass\<close>.\<close>

definition pair_point :: "nat \<Rightarrow> nat \<Rightarrow> nat" where "pair_point u v = 0x10000 + (u - 0xD800) * 0x400 + (v - 0xDC00)"

fun decode_units :: "(nat \<Rightarrow> nat) \<Rightarrow> nat list \<Rightarrow> utext" where
  "decode_units h [] = []"
| "decode_units h [u] = [if is_high u \<or> is_low u then h u else u]"
| "decode_units h (u # v # us) =
     (if is_high u \<and> is_low v then pair_point u v # decode_units h us
      else (if is_high u \<or> is_low u then h u else u) # decode_units h (v # us))"

definition decode_replace :: "byte list \<Rightarrow> utext" where "decode_replace bs = decode_units (\<lambda>_. 0xFFFD) (units_of bs)"
definition decode_surrogatepass :: "byte list \<Rightarrow> utext" where "decode_surrogatepass bs = decode_units (\<lambda>u. u) (units_of bs)"

definition point_units :: "nat \<Rightarrow> nat list" where
  "point_units c = (if c < 0x10000 then [c]
     else [0xD800 + (c - 0x10000) div 0x400, 0xDC00 + (c - 0x10000) mod 0x400])"

definition encode_surrogatepass :: "utext \<Rightarrow> byte list" where
  "encode_surrogatepass s = bytes_of_units (concat (map point_units s))"

text \<open>The strict encoder raises \<open>UnicodeEncodeError\<close>, a \<open>ValueError\<close>, for a lone surrogate.\<close>

definition encode_utf16 :: "utext \<Rightarrow> byte list result" where
  "encode_utf16 s = (if \<exists>c\<in>set s. is_high c \<or> is_low c then Inl ValueError else Inr (encode_surrogatepass s))"

subsection \<open>Round trips\<close>

lemma length_unit_bytes [simp]: "length (unit_bytes u) = 2"
  by (simp add: unit_bytes_def)

lemma length_bytes_of_units [simp]: "length (bytes_of_units us) = 2 * length us"
  by (induction us) (simp_all add: bytes_of_units_def)

lemma units_of_bytes: "\<forall>u\<in>set us. u < 0x10000 \<Longrightarrow> units_of (bytes_of_units us) = us"
proof (induction us)
  case (Cons u us)
  have "u div 256 < 256" using Cons.prems by (simp add: less_mult_imp_div_less)
  then have "unat (of_nat u :: byte) + 256 * unat (of_nat (u div 256) :: byte) = u"
    by (simp add: unsigned_of_nat take_bit_eq_mod)
  then show ?case using Cons by (simp add: bytes_of_units_def unit_bytes_def)
qed (simp add: bytes_of_units_def)

lemma length_units_of: "length (units_of bs) = length bs div 2"
  by (induction bs rule: units_of.induct) simp_all

lemma units_of_append: "even (length bs) \<Longrightarrow> units_of (bs @ cs) = units_of bs @ units_of cs"
  by (induction bs rule: units_of.induct) simp_all

lemma bytes_of_units_of: "even (length bs) \<Longrightarrow> bytes_of_units (units_of bs) = bs"
proof (induction bs rule: units_of.induct)
  case (1 a b bs)
  have "unat a < 256" using unsigned_less [where ?'a = nat, of a] by simp
  then have "(unat a + 256 * unat b) div 256 = unat b" by simp
  moreover have "(of_nat (unat a + 256 * unat b) :: byte) = of_nat (unat a)"
    unfolding word_of_nat_eq_iff take_bit_eq_mod by simp
  ultimately have "unit_bytes (unat a + 256 * unat b) = [a, b]" unfolding unit_bytes_def by simp
  then show ?case using 1 by (simp add: bytes_of_units_def)
qed (simp_all add: bytes_of_units_def)

lemma units_bounded: "u \<in> set (units_of bs) \<Longrightarrow> u < 0x10000"
proof (induction bs rule: units_of.induct)
  case (1 a b bs)
  have "unat a + 256 * unat b < 0x10000"
    using unsigned_less [where ?'a = nat, of a] unsigned_less [where ?'a = nat, of b] by simp
  then show ?case using 1 by auto
qed simp_all

lemma pair_units:
  assumes "is_high u" "is_low v"
  shows "point_units (pair_point u v) = [u, v]"
proof -
  define x y where "x = u - 0xD800" and "y = v - 0xDC00"
  have u: "u = 0xD800 + x" and v: "v = 0xDC00 + y" and y: "y < 0x400"
    using assms by (auto simp: x_def y_def is_high_def is_low_def)
  then have "(x * 0x400 + y) div 0x400 = x" "(x * 0x400 + y) mod 0x400 = y" by simp_all
  then show ?thesis by (simp add: u v pair_point_def point_units_def)
qed

lemma unit_point: "u < 0x10000 \<Longrightarrow> point_units u = [u]"
  by (simp add: point_units_def)

lemma units_of_decode: "\<forall>u\<in>set us. u < 0x10000 \<Longrightarrow> concat (map point_units (decode_units (\<lambda>u. u) us)) = us"
  by (induction "\<lambda>u :: nat. u" us rule: decode_units.induct) (auto simp: pair_units unit_point)

lemma surrogatepass_roundtrip: "even (length bs) \<Longrightarrow> encode_surrogatepass (decode_surrogatepass bs) = bs"
  using units_of_decode [of "units_of bs"] units_bounded bytes_of_units_of
  by (auto simp: encode_surrogatepass_def decode_surrogatepass_def)

text \<open>Text that was decoded with replacement has no surrogates, so the strict encoder takes it.\<close>

lemma decode_no_surrogates: "c \<in> set (decode_units (\<lambda>_. 0xFFFD) us) \<Longrightarrow> \<not> is_high c \<and> \<not> is_low c"
  by (induction "\<lambda>_ :: nat. 0xFFFD :: nat" us rule: decode_units.induct)
    (auto simp: is_high_def is_low_def pair_point_def split: if_splits)

lemma encode_decode_replace: "encode_utf16 (decode_replace bs) = Inr (encode_surrogatepass (decode_replace bs))"
  using decode_no_surrogates by (auto simp: encode_utf16_def decode_replace_def)

text \<open>A string without surrogates has a character for each unit.\<close>

lemma decode_plain: "\<forall>u\<in>set us. \<not> is_high u \<and> \<not> is_low u \<Longrightarrow> decode_units h us = us"
  by (induction h us rule: decode_units.induct) simp_all

end
