(* ===== verification/Crt_Memory.thy ===== *)
theory Crt_Memory
  imports Text_Codecs Guest_Callbacks Memory_Manager
begin

text \<open>
  The memory of the C runtime: the world in which its handlers run, with the memory manager, the heap allocations of the
  process and the state of the \<open>Msvcrt\<close> object, and the readers and writers of strings of
  \<^verbatim>\<open>speakeasy/binemu.py\<close>, \<^verbatim>\<open>speakeasy/winenv/api/api.py\<close> and
  \<^verbatim>\<open>speakeasy/winenv/api/usermode/msvcrt.py\<close>. A read of a string that has no end does not return, which is
  the value \<open>None\<close> of the loops and the error \<open>Diverges\<close> of the programs.
\<close>

record crt_state =
  cr_rand_int :: int
  cr_rand_seed :: int
  cr_errno :: int
  cr_strerror_buf :: int

definition RAND_BASE :: int where "RAND_BASE = 0"

definition new_crt_state :: crt_state where
  "new_crt_state = \<lparr>cr_rand_int = RAND_BASE, cr_rand_seed = 1, cr_errno = 0, cr_strerror_buf = 0\<rparr>"

text \<open>\<open>wd_views\<close> has the bases of the views of the file mapping at a base.\<close>

record 'e world =
  wd_mem :: "'e mem_state"
  wd_allocs :: "(int \<times> int \<times> string) list"
  wd_crt :: crt_state
  wd_views :: "int \<Rightarrow> int list option"

text \<open>The engine with its reads and writes.\<close>

record 'e crt =
  ct_engine :: "'e mem_engine"
  ct_ops :: "'e mem_ops"

type_synonym ('e, 'a) cprog = "('e world, 'a) prog"

definition with_engine :: "'e world \<Rightarrow> 'e \<Rightarrow> 'e world" where
  "with_engine w e = w\<lparr>wd_mem := (wd_mem w)\<lparr>ms_eng := e\<rparr>\<rparr>"

definition world_ops :: "'e crt \<Rightarrow> 'e world mem_ops" where
  "world_ops c = \<lparr>mo_read = \<lambda>w. mo_read (ct_ops c) (ms_eng (wd_mem w)),
     mo_write = \<lambda>w a bs. map_sum id (with_engine w) (mo_write (ct_ops c) (ms_eng (wd_mem w)) a bs),
     mo_regions = \<lambda>w. mo_regions (ct_ops c) (ms_eng (wd_mem w)),
     mo_module_base = \<lambda>w. mo_module_base (ct_ops c) (ms_eng (wd_mem w)), mo_teb_size = mo_teb_size (ct_ops c)\<rparr>"

definition world :: "('e, 'e world) cprog" where "world = gets em_mem"

definition put_world :: "('e world \<Rightarrow> 'e world) \<Rightarrow> ('e, unit) cprog" where
  "put_world f = modify (\<lambda>s. s\<lparr>em_mem := f (em_mem s)\<rparr>)"

subsection \<open>Memory\<close>

definition api_read :: "'e crt \<Rightarrow> int \<Rightarrow> int \<Rightarrow> ('e, byte list) cprog" where "api_read c = mem_read (world_ops c)"

text \<open>The other views of a shared mapping that get a write at \<open>a\<close>.\<close>

definition shared_views :: "int \<Rightarrow> 'e world \<Rightarrow> int list" where
  "shared_views a w =
     (case get_address_map (wd_mem w) a of
        None \<Rightarrow> []
      | Some mm \<Rightarrow>
          (if mm_shared mm
           then (case wd_views w (mm_base mm) of
                   None \<Rightarrow> []
                 | Some bases \<Rightarrow> map (\<lambda>b. b + (a - mm_base mm)) (filter (\<lambda>b. b \<noteq> mm_base mm) bases))
           else []))"

definition api_write :: "'e crt \<Rightarrow> int \<Rightarrow> byte list \<Rightarrow> ('e, unit) cprog" where
  "api_write c a bs =
     gbind world (\<lambda>w. gbind (gmapM (\<lambda>b. mem_write (world_ops c) b bs) (shared_views a w)) (\<lambda>_.
       mem_write (world_ops c) a bs))"

definition api_read_ptr :: "'e crt \<Rightarrow> int \<Rightarrow> ('e, int) cprog" where "api_read_ptr c a = read_ptr (world_ops c) a"

definition api_write_ptr :: "'e crt \<Rightarrow> int \<Rightarrow> int \<Rightarrow> ('e, unit) cprog" where
  "api_write_ptr c a v = gbind (gets ptr_size) (\<lambda>p. gbind (glift (to_bytes p v)) (api_write c a))"

definition write_dword :: "'e crt \<Rightarrow> int \<Rightarrow> int \<Rightarrow> ('e, unit) cprog" where
  "write_dword c a v = api_write c a (le_bytes 4 (v AND 0xFFFFFFFF))"

text \<open>A step of the memory manager.\<close>

definition manage :: "('e mem_state \<Rightarrow> 'a result \<times> 'e mem_state) \<Rightarrow> ('e, 'a) cprog" where
  "manage f = Get (\<lambda>s. case f (wd_mem (em_mem s)) of
     (r, m) \<Rightarrow> Put (s\<lparr>em_mem := (em_mem s)\<lparr>wd_mem := m\<rparr>\<rparr>) (glift r))"

definition mem_alloc :: "'e crt \<Rightarrow> int \<Rightarrow> string \<Rightarrow> ('e, int) cprog" where
  "mem_alloc c n tag = manage (mem_map (ct_engine c) n None PERM_MEM_RWX (Some tag) 0 False None)"

definition heap_alloc :: "'e crt \<Rightarrow> int \<Rightarrow> string \<Rightarrow> ('e, int) cprog" where
  "heap_alloc c n heap =
     gcatch (gbind (mem_alloc c n (''api.heap.'' @ heap)) (\<lambda>a.
               gbind (put_world (\<lambda>w. w\<lparr>wd_allocs := wd_allocs w @ [(a, n, heap)]\<rparr>)) (\<lambda>_. Ret a)))
       (\<lambda>e. if e = Other OutOfMemoryError then Ret 0 else Fail e)"

text \<open>The last recorded size of the block at \<open>a\<close>.\<close>

definition recorded_size :: "'e world \<Rightarrow> int \<Rightarrow> int option" where
  "recorded_size w a = map_option (\<lambda>(b, n, heap). n) (find (\<lambda>(b, n, heap). b = a) (rev (wd_allocs w)))"

definition heap_size :: "'e world \<Rightarrow> int \<Rightarrow> int option" where
  "heap_size w a =
     (case get_address_map (wd_mem w) a of
        None \<Rightarrow> None
      | Some mm \<Rightarrow>
          (if mm_free mm \<or> mm_base mm \<noteq> a
              \<or> \<not> starts_with (case mm_tag mm of None \<Rightarrow> [] | Some tag \<Rightarrow> tag) ''api.heap'' then None
           else Some (case recorded_size w a of None \<Rightarrow> mm_size mm | Some n \<Rightarrow> n)))"

definition heap_free :: "'e crt \<Rightarrow> int \<Rightarrow> ('e, bool) cprog" where
  "heap_free c a =
     gbind world (\<lambda>w. if heap_size w a = None then Ret False
                      else gbind (manage (mem_free (ct_engine c) a)) (\<lambda>_. Ret True))"

definition get_block_size :: "'e world \<Rightarrow> int \<Rightarrow> int" where
  "get_block_size w a =
     (case recorded_size w a of
        Some n \<Rightarrow> n
      | None \<Rightarrow> (case get_address_map (wd_mem w) a of None \<Rightarrow> 0 | Some mm \<Rightarrow> mm_base mm + mm_size mm - a))"

definition errno_ptr :: "'e crt \<Rightarrow> ('e, int) cprog" where
  "errno_ptr c =
     gbind world (\<lambda>w.
       if cr_errno (wd_crt w) \<noteq> 0 then Ret (cr_errno (wd_crt w))
       else gbind (mem_alloc c 4 ''api.msvcrt._errno'') (\<lambda>a.
              gbind (put_world (\<lambda>w. w\<lparr>wd_crt := (wd_crt w)\<lparr>cr_errno := a\<rparr>\<rparr>)) (\<lambda>_.
                gbind (write_dword c a 0x0C) (\<lambda>_. Ret a))))"

definition set_errno :: "'e crt \<Rightarrow> int \<Rightarrow> ('e, unit) cprog" where
  "set_errno c v = gbind (errno_ptr c) (\<lambda>a. write_dword c a v)"

definition get_max_int :: "('e, int) cprog" where "get_max_int = gets (\<lambda>s. 256 ^ ptr_size s - 1)"

subsection \<open>Readers\<close>

definition read_fault :: "error \<Rightarrow> int \<Rightarrow> int \<Rightarrow> fault" where
  "read_fault e a n = (if e = UcError then Access ''read'' a n else Other e)"

partial_function (option) read_chars ::
  "(int \<Rightarrow> int \<Rightarrow> byte list result) \<Rightarrow> int \<Rightarrow> nat \<Rightarrow> nat \<Rightarrow> byte list \<Rightarrow> (fault + byte list) option" where
  "read_chars rd a width limit data =
     (if limit \<noteq> 0 \<and> limit * width \<le> length data then Some (Inr data)
      else case rd (a + int (length data)) (int width) of
             Inl e \<Rightarrow> Some (Inl (read_fault e (a + int (length data)) (int width)))
           | Inr char \<Rightarrow>
               if char = replicate width 0 then Some (Inr data) else read_chars rd a width limit (data @ char))"

partial_function (option) read_string ::
  "(int \<Rightarrow> int \<Rightarrow> byte list result) \<Rightarrow> int \<Rightarrow> nat \<Rightarrow> nat \<Rightarrow> byte list \<Rightarrow> (fault + byte list) option" where
  "read_string rd a width limit data =
     (if limit \<noteq> 0 \<and> limit * width \<le> length data then Some (Inr data)
      else case rd (a + int (length data)) (int width) of
             Inl e \<Rightarrow> Some (Inl (read_fault e (a + int (length data)) (int width)))
           | Inr char \<Rightarrow>
               if le_val char = 0 then Some (Inr (data @ char)) else read_string rd a width limit (data @ char))"

definition loop_result :: "(fault + 'a) option \<Rightarrow> ('e, 'a) cprog" where
  "loop_result r = (case r of None \<Rightarrow> Fail (Other Diverges) | Some (Inl e) \<Rightarrow> Fail e | Some (Inr x) \<Rightarrow> Ret x)"

definition read_cstr :: "'e crt \<Rightarrow> int \<Rightarrow> nat \<Rightarrow> nat \<Rightarrow> ('e, byte list) cprog" where
  "read_cstr c a limit width = Get (\<lambda>s. loop_result (read_chars (mo_read (world_ops c) (em_mem s)) a width limit []))"

definition read_mem_string :: "'e crt \<Rightarrow> int \<Rightarrow> nat \<Rightarrow> nat \<Rightarrow> ('e, utext) cprog" where
  "read_mem_string c a width limit =
     (if width \<noteq> 1 \<and> width \<noteq> 2 then Fail (Other ValueError)
      else Get (\<lambda>s. gbind (loop_result (read_string (mo_read (world_ops c) (em_mem s)) a width limit [])) (\<lambda>bs.
        Ret (filter (\<lambda>p. p \<noteq> 0) (if width = 1 then decode_ansi bs else decode_replace bs)))))"

definition read_wide_string :: "'e crt \<Rightarrow> int \<Rightarrow> nat \<Rightarrow> ('e, utext) cprog" where
  "read_wide_string c a limit = read_mem_string c a 2 limit"

definition mem_string_len :: "'e crt \<Rightarrow> int \<Rightarrow> nat \<Rightarrow> ('e, int) cprog" where
  "mem_string_len c a width =
     Get (\<lambda>s. gbind (loop_result (read_string (mo_read (world_ops c) (em_mem s)) a width 0 [])) (\<lambda>bs.
       Ret (int (length bs div width) - 1)))"

subsection \<open>Writers\<close>

definition write_mem_string :: "'e crt \<Rightarrow> utext \<Rightarrow> int \<Rightarrow> nat \<Rightarrow> ('e, unit) cprog" where
  "write_mem_string c string a width =
     (if width \<noteq> 1 \<and> width \<noteq> 2 then Fail (Other ValueError)
      else let string = (if string \<noteq> [] \<and> last string = 0 then string else string @ [0])
           in gbind (glift (if width = 1 then Inr (encode_ansi_text string) else encode_utf16 string)) (mem_write (world_ops c) a))"

definition write_wide_string :: "'e crt \<Rightarrow> utext \<Rightarrow> int \<Rightarrow> ('e, unit) cprog" where
  "write_wide_string c string a = write_mem_string c string a 2"

definition mem_copy :: "'e crt \<Rightarrow> int \<Rightarrow> int \<Rightarrow> int \<Rightarrow> ('e, int) cprog" where
  "mem_copy c dst src n = gbind (api_read c src n) (\<lambda>bs. gbind (mem_write (world_ops c) dst bs) (\<lambda>_. Ret n))"

end
