(* ===== verification/Crt_Strings.thy ===== *)
theory Crt_Strings
  imports Crt_Memory
begin

text \<open>
  The string and memory functions of the C runtime (\<^verbatim>\<open>speakeasy/winenv/api/usermode/msvcrt.py\<close>, and the order of
  strings in \<^verbatim>\<open>speakeasy/winenv/api/compare.py\<close>). A program returns the value of the API; the texts that the handlers put
  in the report are not modelled.
\<close>

definition EINVAL :: int where "EINVAL = 22"
definition ERANGE :: int where "ERANGE = 34"
definition STRUNCATE :: int where "STRUNCATE = 80"

definition zeros :: "nat \<Rightarrow> byte list" where "zeros n = replicate n 0"

text \<open>\<open>ljust\<close> with NUL bytes.\<close>

definition padded :: "nat \<Rightarrow> byte list \<Rightarrow> byte list" where "padded n bs = bs @ zeros (n - length bs)"

subsection \<open>Search and order\<close>

text \<open>\<open>find\<close> and \<open>rfind\<close> of a sequence, the position of the first and the last occurrence.\<close>

fun find_sub :: "'a list \<Rightarrow> 'a list \<Rightarrow> nat option" where
  "find_sub needle [] = (if needle = [] then Some 0 else None)"
| "find_sub needle (x # xs) =
     (if take (length needle) (x # xs) = needle then Some 0 else map_option Suc (find_sub needle xs))"

definition rfind_sub :: "'a list \<Rightarrow> 'a list \<Rightarrow> nat option" where
  "rfind_sub needle hay = map_option (\<lambda>n. length hay - length needle - n) (find_sub (rev needle) (rev hay))"

text \<open>The position of the first element of a set.\<close>

definition first_in :: "'a list \<Rightarrow> 'a list \<Rightarrow> nat option" where
  "first_in xs charset =
     (let n = length (takeWhile (\<lambda>x. x \<notin> set charset) xs) in if n < length xs then Some n else None)"

text \<open>Sequences in the order of their first difference, and the value that the compare functions return.\<close>

fun seq_less :: "'a :: linorder list \<Rightarrow> 'a list \<Rightarrow> bool" where
  "seq_less xs [] = False"
| "seq_less [] (y # ys) = True"
| "seq_less (x # xs) (y # ys) = (x < y \<or> (x = y \<and> seq_less xs ys))"

definition seq_order :: "'a :: linorder list \<Rightarrow> 'a list \<Rightarrow> int" where
  "seq_order xs ys = of_bool (seq_less ys xs) - of_bool (seq_less xs ys)"

definition at_or_null :: "int \<Rightarrow> int \<Rightarrow> nat option \<Rightarrow> int" where
  "at_or_null a width n = (case n of None \<Rightarrow> 0 | Some n \<Rightarrow> a + width * int n)"

definition lower_byte :: "byte \<Rightarrow> byte" where "lower_byte b = (if 0x41 \<le> b \<and> b \<le> 0x5A then b + 0x20 else b)"
definition upper_byte :: "byte \<Rightarrow> byte" where "upper_byte b = (if 0x61 \<le> b \<and> b \<le> 0x7A then b - 0x20 else b)"

text \<open>The folds, with Python's case mappings as parameters.\<close>

datatype fold_kind = FOLD_NONE | ASCII_LOWER | UPPER | LINGUISTIC | LINGUISTIC_IGNORE_CASE

record case_tables =
  cs_upper :: "nat \<Rightarrow> utext"
  cs_casefold :: "nat \<Rightarrow> utext"
  cs_swapcase :: "utext \<Rightarrow> utext"

definition fold_upper :: "case_tables \<Rightarrow> nat \<Rightarrow> nat" where
  "fold_upper t p = (case cs_upper t p of [u] \<Rightarrow> if p < 0x10000 then u else p | _ \<Rightarrow> p)"

definition text_units :: "utext \<Rightarrow> nat list" where "text_units s = concat (map point_units s)"

text \<open>Big-endian bytes sort as the code units, which stand for them.\<close>

definition get_sort_key :: "case_tables \<Rightarrow> utext \<Rightarrow> fold_kind \<Rightarrow> nat list list" where
  "get_sort_key t s fk =
     (case fk of
        LINGUISTIC \<Rightarrow> [concat (map (cs_casefold t) s), cs_swapcase t s]
      | LINGUISTIC_IGNORE_CASE \<Rightarrow> [concat (map (cs_casefold t) s)]
      | ASCII_LOWER \<Rightarrow> [text_units (map (\<lambda>p. if 0x41 \<le> p \<and> p \<le> 0x5A then p + 0x20 else p) s)]
      | UPPER \<Rightarrow> [text_units (map (fold_upper t) s)]
      | FOLD_NONE \<Rightarrow> [text_units s])"

fun keys_less :: "'a :: linorder list list \<Rightarrow> 'a list list \<Rightarrow> bool" where
  "keys_less ks [] = False"
| "keys_less [] (l # ls) = True"
| "keys_less (k # ks) (l # ls) = (seq_less k l \<or> (k = l \<and> keys_less ks ls))"

definition get_string_order :: "case_tables \<Rightarrow> utext \<Rightarrow> utext \<Rightarrow> fold_kind \<Rightarrow> int" where
  "get_string_order t s1 s2 fk =
     (let k1 = get_sort_key t s1 fk; k2 = get_sort_key t s2 fk
      in of_bool (keys_less k2 k1) - of_bool (keys_less k1 k2))"

subsection \<open>Copies\<close>

definition strcpy :: "'e crt \<Rightarrow> int \<Rightarrow> int \<Rightarrow> ('e, int) cprog" where
  "strcpy c dest src = gbind (read_cstr c src 0 1) (\<lambda>s. gbind (api_write c dest (s @ [0])) (\<lambda>_. Ret dest))"

definition strcpy_s :: "'e crt \<Rightarrow> int \<Rightarrow> int \<Rightarrow> int \<Rightarrow> ('e, int) cprog" where
  "strcpy_s c dest dest_size src =
     (if dest = 0 \<or> dest_size = 0 then Ret EINVAL
      else if src = 0 then gbind (api_write c dest [0]) (\<lambda>_. Ret EINVAL)
      else gbind (read_cstr c src 0 1) (\<lambda>s.
        if dest_size \<le> int (length s) then gbind (api_write c dest [0]) (\<lambda>_. Ret ERANGE)
        else gbind (api_write c dest (s @ [0])) (\<lambda>_. Ret 0)))"

definition wcscpy_s :: "'e crt \<Rightarrow> int \<Rightarrow> int \<Rightarrow> int \<Rightarrow> ('e, int) cprog" where
  "wcscpy_s c dest dest_size src =
     (if dest = 0 \<or> dest_size = 0 then Ret EINVAL
      else if src = 0 then gbind (api_write c dest [0, 0]) (\<lambda>_. Ret EINVAL)
      else gbind (read_wide_string c src 0) (\<lambda>ws.
        if dest_size \<le> int (length ws) then gbind (api_write c dest [0, 0]) (\<lambda>_. Ret ERANGE)
        else gbind (write_wide_string c (ws @ [0]) dest) (\<lambda>_. Ret 0)))"

definition copy_n_secure :: "'e crt \<Rightarrow> int \<Rightarrow> int \<Rightarrow> int \<Rightarrow> int \<Rightarrow> nat \<Rightarrow> ('e, int) cprog" where
  "copy_n_secure c dest n_dest src cnt width =
     gbind get_max_int (\<lambda>max_int.
       let cnt = cnt AND max_int
       in if dest = 0 \<or> n_dest = 0 then Ret EINVAL
          else if src = 0 then gbind (api_write c dest (zeros width)) (\<lambda>_. Ret EINVAL)
          else gbind (if width = 1 then read_cstr c src 0 1
                      else gbind (read_wide_string c src 0) (\<lambda>s. Ret (encode_surrogatepass s))) (\<lambda>data.
            let n = min (int (length data div width)) cnt
            in if n < n_dest then gbind (api_write c dest (take (nat n * width) data @ zeros width)) (\<lambda>_. Ret 0)
               else if cnt = max_int
               then gbind (api_write c dest (take (nat (n_dest - 1) * width) data @ zeros width)) (\<lambda>_. Ret STRUNCATE)
               else gbind (api_write c dest (zeros width @ drop width (take (nat n_dest * width) data))) (\<lambda>_.
                 Ret ERANGE)))"

definition strncpy_s :: "'e crt \<Rightarrow> int \<Rightarrow> int \<Rightarrow> int \<Rightarrow> int \<Rightarrow> ('e, int) cprog" where
  "strncpy_s c dest n_dest src cnt = copy_n_secure c dest n_dest src cnt 1"

definition wcsncpy_s :: "'e crt \<Rightarrow> int \<Rightarrow> int \<Rightarrow> int \<Rightarrow> int \<Rightarrow> ('e, int) cprog" where
  "wcsncpy_s c dest n_dest src cnt = copy_n_secure c dest n_dest src cnt 2"

definition wcscpy :: "'e crt \<Rightarrow> int \<Rightarrow> int \<Rightarrow> ('e, int) cprog" where
  "wcscpy c dest src = gbind (read_wide_string c src 0) (\<lambda>ws. gbind (write_wide_string c ws dest) (\<lambda>_. Ret dest))"

definition strncpy :: "'e crt \<Rightarrow> int \<Rightarrow> int \<Rightarrow> nat \<Rightarrow> ('e, int) cprog" where
  "strncpy c dest src cnt =
     (if cnt = 0 then Ret dest
      else gbind (read_cstr c src cnt 1) (\<lambda>s. gbind (api_write c dest (padded cnt s)) (\<lambda>_. Ret dest)))"

definition wcsncpy :: "'e crt \<Rightarrow> int \<Rightarrow> int \<Rightarrow> nat \<Rightarrow> ('e, int) cprog" where
  "wcsncpy c dest src cnt =
     (if cnt = 0 then Ret dest
      else gbind (read_cstr c src cnt 2) (\<lambda>s. gbind (api_write c dest (padded (cnt * 2) s)) (\<lambda>_. Ret dest)))"

definition memcpy :: "'e crt \<Rightarrow> int \<Rightarrow> int \<Rightarrow> int \<Rightarrow> ('e, int) cprog" where
  "memcpy c dest src cnt = gbind (api_read c src cnt) (\<lambda>data. gbind (api_write c dest data) (\<lambda>_. Ret dest))"

definition memcpy_s :: "'e crt \<Rightarrow> int \<Rightarrow> int \<Rightarrow> int \<Rightarrow> int \<Rightarrow> ('e, int) cprog" where
  "memcpy_s c dest n_dest src cnt =
     (if cnt = 0 then Ret 0
      else if dest = 0 then Ret EINVAL
      else if src = 0 \<or> n_dest < cnt
      then gbind (api_write c dest (zeros (nat n_dest))) (\<lambda>_. Ret (if src = 0 then EINVAL else ERANGE))
      else gbind (api_read c src cnt) (\<lambda>data. gbind (api_write c dest data) (\<lambda>_. Ret 0)))"

definition memmove_s :: "'e crt \<Rightarrow> int \<Rightarrow> int \<Rightarrow> int \<Rightarrow> int \<Rightarrow> ('e, int) cprog" where
  "memmove_s c dest n_dest src cnt =
     (if cnt = 0 then Ret 0
      else if dest = 0 \<or> src = 0 then Ret EINVAL
      else if n_dest < cnt then Ret ERANGE
      else gbind (api_read c src cnt) (\<lambda>data. gbind (api_write c dest data) (\<lambda>_. Ret 0)))"

definition memmove :: "'e crt \<Rightarrow> int \<Rightarrow> int \<Rightarrow> int \<Rightarrow> ('e, int) cprog" where
  "memmove c dest src cnt = gbind (api_read c src cnt) (\<lambda>data. gbind (api_write c dest data) (\<lambda>_. Ret dest))"

definition memset :: "'e crt \<Rightarrow> int \<Rightarrow> int \<Rightarrow> nat \<Rightarrow> ('e, int) cprog" where
  "memset c dest v cnt = gbind (api_write c dest (replicate cnt (of_int (v AND 0xFF)))) (\<lambda>_. Ret dest)"

end
