(* ===== verification/Crt_Search.thy ===== *)
theory Crt_Search
  imports Crt_Strings
begin

text \<open>
  The lengths, concatenations, comparisons, searches and conversions of strings of the C runtime
  (\<^verbatim>\<open>speakeasy/winenv/api/usermode/msvcrt.py\<close>). The functions on multibyte strings are those on bytes, since a
  character of the emulated code page has one byte.
\<close>

subsection \<open>Lengths\<close>

definition strlen :: "'e crt \<Rightarrow> int \<Rightarrow> ('e, int) cprog" where
  "strlen c str = gbind (read_cstr c str 0 1) (\<lambda>s. Ret (int (length s)))"

definition wcslen :: "'e crt \<Rightarrow> int \<Rightarrow> ('e, int) cprog" where
  "wcslen c str = gbind (read_wide_string c str 0) (\<lambda>s. Ret (int (length s)))"

text \<open>The loop of the bounded lengths: \<open>left\<close> elements remain after \<open>rv\<close>.\<close>

fun count_until_nul :: "'e crt \<Rightarrow> int \<Rightarrow> nat \<Rightarrow> nat \<Rightarrow> int \<Rightarrow> ('e, int) cprog" where
  "count_until_nul c str width 0 rv = Ret rv"
| "count_until_nul c str width (Suc left) rv =
     gbind (api_read c (str + rv * int width) (int width)) (\<lambda>bs.
       if bs = zeros width then Ret rv else count_until_nul c str width left (rv + 1))"

text \<open>The text of the report is read first, without a limit when \<open>n\<close> is 0.\<close>

definition strnlen :: "'e crt \<Rightarrow> int \<Rightarrow> nat \<Rightarrow> ('e, int) cprog" where
  "strnlen c str n = gbind (read_mem_string c str 1 n) (\<lambda>_. count_until_nul c str 1 n 0)"

definition wcsnlen :: "'e crt \<Rightarrow> int \<Rightarrow> nat \<Rightarrow> ('e, int) cprog" where
  "wcsnlen c str n = gbind (read_wide_string c str n) (\<lambda>_. count_until_nul c str 2 n 0)"

subsection \<open>Concatenations\<close>

definition strcat :: "'e crt \<Rightarrow> int \<Rightarrow> int \<Rightarrow> ('e, int) cprog" where
  "strcat c dest src =
     gbind (read_cstr c dest 0 1) (\<lambda>s1. gbind (read_cstr c src 0 1) (\<lambda>s2.
       gbind (api_write c (dest + int (length s1)) (s2 @ [0])) (\<lambda>_. Ret dest)))"

definition strncat :: "'e crt \<Rightarrow> int \<Rightarrow> int \<Rightarrow> nat \<Rightarrow> ('e, int) cprog" where
  "strncat c dest src cnt =
     gbind (read_cstr c dest 0 1) (\<lambda>s1. gbind (if cnt = 0 then Ret [] else read_cstr c src cnt 1) (\<lambda>s2.
       gbind (api_write c (dest + int (length s1)) (s2 @ [0])) (\<lambda>_. Ret dest)))"

definition wcscat :: "'e crt \<Rightarrow> int \<Rightarrow> int \<Rightarrow> ('e, int) cprog" where
  "wcscat c dest src =
     gbind (read_mem_string c dest 2 0) (\<lambda>s1. gbind (read_mem_string c src 2 0) (\<lambda>s2.
       gbind (glift (encode_utf16 (s1 @ s2))) (\<lambda>bs. gbind (api_write c dest (bs @ [0, 0])) (\<lambda>_. Ret dest))))"

definition strcat_s :: "'e crt \<Rightarrow> int \<Rightarrow> int \<Rightarrow> int \<Rightarrow> ('e, int) cprog" where
  "strcat_s c dest n src =
     (if dest = 0 \<or> n = 0 then Ret EINVAL
      else if src = 0 then gbind (api_write c dest [0]) (\<lambda>_. Ret EINVAL)
      else gbind (read_cstr c dest 0 1) (\<lambda>s1. gbind (read_cstr c src 0 1) (\<lambda>s2.
        if n \<le> int (length s1 + length s2) then gbind (api_write c dest [0]) (\<lambda>_. Ret ERANGE)
        else gbind (api_write c dest (s1 @ s2 @ [0])) (\<lambda>_. Ret 0))))"

definition wcscat_s :: "'e crt \<Rightarrow> int \<Rightarrow> int \<Rightarrow> int \<Rightarrow> ('e, int) cprog" where
  "wcscat_s c dest n src =
     (if dest = 0 \<or> n = 0 then Ret EINVAL
      else if src = 0 then gbind (api_write c dest [0, 0]) (\<lambda>_. Ret EINVAL)
      else gbind (read_wide_string c dest 0) (\<lambda>s1. gbind (read_wide_string c src 0) (\<lambda>s2.
        if n \<le> int (length s1 + length s2) then gbind (api_write c dest [0, 0]) (\<lambda>_. Ret ERANGE)
        else gbind (write_wide_string c (s1 @ s2 @ [0]) dest) (\<lambda>_. Ret 0))))"

definition append_n_secure :: "'e crt \<Rightarrow> int \<Rightarrow> int \<Rightarrow> int \<Rightarrow> int \<Rightarrow> nat \<Rightarrow> ('e, int) cprog" where
  "append_n_secure c dest num src cnt width =
     gbind get_max_int (\<lambda>max_int.
       let is_truncated = (cnt = max_int)
       in gbind (read_cstr c dest 0 width) (\<lambda>s1.
          gbind (if cnt = 0 then Ret [] else read_cstr c src (if is_truncated then 0 else nat cnt) width) (\<lambda>s2.
            let rem = num - int (length s1 div width); a = dest + int (length s1)
            in if rem \<le> 0 then Ret EINVAL
               else if int (length s2 div width) < rem then gbind (api_write c a (s2 @ zeros width)) (\<lambda>_. Ret 0)
               else if is_truncated
               then gbind (api_write c a (take (nat (rem - 1) * width) s2 @ zeros width)) (\<lambda>_. Ret STRUNCATE)
               else gbind (api_write c dest (zeros width)) (\<lambda>_. Ret ERANGE))))"

definition strncat_s :: "'e crt \<Rightarrow> int \<Rightarrow> int \<Rightarrow> int \<Rightarrow> int \<Rightarrow> ('e, int) cprog" where
  "strncat_s c dest n src cnt = append_n_secure c dest n src cnt 1"

definition wcsncat_s :: "'e crt \<Rightarrow> int \<Rightarrow> int \<Rightarrow> int \<Rightarrow> int \<Rightarrow> ('e, int) cprog" where
  "wcsncat_s c dest n src cnt = append_n_secure c dest n src cnt 2"

subsection \<open>Changes in place\<close>

definition strlwr :: "'e crt \<Rightarrow> int \<Rightarrow> ('e, int) cprog" where
  "strlwr c str =
     (if str = 0 then Ret 0
      else gbind (read_cstr c str 0 1) (\<lambda>s. gbind (api_write c str (map lower_byte s)) (\<lambda>_. Ret str)))"

definition mbsupr :: "'e crt \<Rightarrow> int \<Rightarrow> ('e, int) cprog" where
  "mbsupr c str =
     (if str = 0 then Ret 0
      else gbind (read_cstr c str 0 1) (\<lambda>s. gbind (api_write c str (map upper_byte s)) (\<lambda>_. Ret str)))"

definition mbsrev :: "'e crt \<Rightarrow> int \<Rightarrow> ('e, int) cprog" where
  "mbsrev c str = gbind (read_cstr c str 0 1) (\<lambda>s. gbind (api_write c str (rev s)) (\<lambda>_. Ret str))"

definition mbsinc :: "int \<Rightarrow> ('e, int) cprog" where "mbsinc current = Ret (current + 1)"
definition mbclen :: "int \<Rightarrow> ('e, int) cprog" where "mbclen c = Ret 1"

subsection \<open>Comparisons\<close>

definition memcmp :: "'e crt \<Rightarrow> int \<Rightarrow> int \<Rightarrow> int \<Rightarrow> ('e, int) cprog" where
  "memcmp c buffer1 buffer2 cnt =
     gbind (api_read c buffer1 cnt) (\<lambda>b1. gbind (api_read c buffer2 cnt) (\<lambda>b2. Ret (seq_order b1 b2)))"

definition strcmp :: "'e crt \<Rightarrow> int \<Rightarrow> int \<Rightarrow> ('e, int) cprog" where
  "strcmp c string1 string2 =
     gbind (read_cstr c string1 0 1) (\<lambda>s1. gbind (read_cstr c string2 0 1) (\<lambda>s2. Ret (seq_order s1 s2)))"

definition strncmp :: "'e crt \<Rightarrow> int \<Rightarrow> int \<Rightarrow> nat \<Rightarrow> ('e, int) cprog" where
  "strncmp c string1 string2 cnt =
     (if cnt = 0 then Ret 0
      else gbind (read_cstr c string1 cnt 1) (\<lambda>s1. gbind (read_cstr c string2 cnt 1) (\<lambda>s2. Ret (seq_order s1 s2))))"

definition wcsncmp :: "'e crt \<Rightarrow> int \<Rightarrow> int \<Rightarrow> nat \<Rightarrow> ('e, int) cprog" where
  "wcsncmp c string1 string2 cnt =
     (if cnt = 0 then Ret 0
      else gbind (read_wide_string c string1 cnt) (\<lambda>s1. gbind (read_wide_string c string2 cnt) (\<lambda>s2.
        Ret (seq_order s1 s2))))"

definition wcscmp :: "'e crt \<Rightarrow> case_tables \<Rightarrow> int \<Rightarrow> int \<Rightarrow> ('e, int) cprog" where
  "wcscmp c t string1 string2 =
     gbind (read_wide_string c string1 0) (\<lambda>s1. gbind (read_wide_string c string2 0) (\<lambda>s2.
       Ret (get_string_order t s1 s2 FOLD_NONE)))"

definition stricmp :: "'e crt \<Rightarrow> int \<Rightarrow> int \<Rightarrow> ('e, int) cprog" where
  "stricmp c string1 string2 =
     (if string1 = 0 \<or> string2 = 0 then Ret 1
      else gbind (read_cstr c string1 0 1) (\<lambda>s1. gbind (read_cstr c string2 0 1) (\<lambda>s2.
        Ret (seq_order (map lower_byte s1) (map lower_byte s2)))))"

definition strnicmp :: "'e crt \<Rightarrow> int \<Rightarrow> int \<Rightarrow> nat \<Rightarrow> ('e, int) cprog" where
  "strnicmp c string1 string2 cnt =
     (if string1 = 0 \<or> string2 = 0 then Ret 1
      else if cnt = 0 then Ret 0
      else gbind (read_cstr c string1 cnt 1) (\<lambda>s1. gbind (read_cstr c string2 cnt 1) (\<lambda>s2.
        Ret (seq_order (map lower_byte s1) (map lower_byte s2)))))"

definition strcmpi :: "'e crt \<Rightarrow> int \<Rightarrow> int \<Rightarrow> ('e, int) cprog" where
  "strcmpi c string1 string2 =
     (if string1 = 0 \<or> string2 = 0 then Ret 1
      else gbind (read_cstr c string1 0 1) (\<lambda>s1. gbind (read_cstr c string2 0 1) (\<lambda>s2.
        Ret (seq_order (map lower_byte s1) (map lower_byte s2)))))"

definition wcsicmp :: "'e crt \<Rightarrow> case_tables \<Rightarrow> int \<Rightarrow> int \<Rightarrow> ('e, int) cprog" where
  "wcsicmp c t string1 string2 =
     (if string1 = 0 \<or> string2 = 0 then Ret 1
      else gbind (read_wide_string c string1 0) (\<lambda>s1. gbind (read_wide_string c string2 0) (\<lambda>s2.
        Ret (get_string_order t s1 s2 ASCII_LOWER))))"

definition wcsnicmp :: "'e crt \<Rightarrow> case_tables \<Rightarrow> int \<Rightarrow> int \<Rightarrow> nat \<Rightarrow> ('e, int) cprog" where
  "wcsnicmp c t string1 string2 cnt =
     (if cnt = 0 then Ret 0
      else gbind (read_wide_string c string1 cnt) (\<lambda>s1. gbind (read_wide_string c string2 cnt) (\<lambda>s2.
        Ret (get_string_order t s1 s2 ASCII_LOWER))))"

subsection \<open>Searches\<close>

text \<open>The blocks of \<open>memchr\<close>: \<open>off\<close> bytes are searched, and the count does not change.\<close>

function memchr_from :: "'e crt \<Rightarrow> int \<Rightarrow> byte \<Rightarrow> nat \<Rightarrow> nat \<Rightarrow> ('e, int) cprog" where
  "memchr_from c buffer needle cnt off =
     (if cnt \<le> off then Ret 0
      else gbind (api_read c (buffer + int off) (int (min 0x1000 (cnt - off)))) (\<lambda>bs.
        case find_sub [needle] bs of
          Some i \<Rightarrow> Ret (buffer + int off + int i)
        | None \<Rightarrow> memchr_from c buffer needle cnt (off + 0x1000)))"
  by pat_completeness auto
termination
  by (relation "measure (\<lambda>(c, buffer, needle, cnt, off). cnt - off)") auto

declare memchr_from.simps [simp del]

definition memchr :: "'e crt \<Rightarrow> int \<Rightarrow> int \<Rightarrow> nat \<Rightarrow> ('e, int) cprog" where
  "memchr c buffer ch cnt = memchr_from c buffer (of_int (ch AND 0xFF)) cnt 0"

definition strchr :: "'e crt \<Rightarrow> int \<Rightarrow> int \<Rightarrow> ('e, int) cprog" where
  "strchr c str ch =
     gbind (read_cstr c str 0 1) (\<lambda>s. Ret (at_or_null str 1 (find_sub [of_int (ch AND 0xFF)] (s @ [0]))))"

definition strrchr :: "'e crt \<Rightarrow> int \<Rightarrow> int \<Rightarrow> ('e, int) cprog" where
  "strrchr c str ch =
     gbind (read_cstr c str 0 1) (\<lambda>s. Ret (at_or_null str 1 (rfind_sub [of_int (ch AND 0xFF)] (s @ [0]))))"

definition wcschr :: "'e crt \<Rightarrow> int \<Rightarrow> int \<Rightarrow> ('e, int) cprog" where
  "wcschr c str ch =
     gbind (read_mem_string c str 2 0) (\<lambda>s. Ret (at_or_null str 2 (find_sub [nat (ch AND 0xFFFF)] (s @ [0]))))"

definition wcsrchr :: "'e crt \<Rightarrow> int \<Rightarrow> int \<Rightarrow> ('e, int) cprog" where
  "wcsrchr c str ch =
     gbind (read_mem_string c str 2 0) (\<lambda>s. Ret (at_or_null str 2 (rfind_sub [nat (ch AND 0xFFFF)] (s @ [0]))))"

definition strstr :: "'e crt \<Rightarrow> int \<Rightarrow> int \<Rightarrow> ('e, int) cprog" where
  "strstr c str search =
     gbind (read_cstr c str 0 1) (\<lambda>hay. gbind (read_cstr c search 0 1) (\<lambda>needle.
       Ret (at_or_null str 1 (find_sub needle hay))))"

text \<open>Without a string the search uses a name that has no value.\<close>

definition wcsstr :: "'e crt \<Rightarrow> int \<Rightarrow> int \<Rightarrow> ('e, int) cprog" where
  "wcsstr c str search =
     gbind (if str = 0 then Ret None else gbind (read_mem_string c str 2 0) (\<lambda>s. Ret (Some s))) (\<lambda>hay.
     gbind (if search = 0 then Ret None else gbind (read_mem_string c search 2 0) (\<lambda>s. Ret (Some s))) (\<lambda>needle.
       case (hay, needle) of
         (Some h, Some n) \<Rightarrow> Ret (at_or_null str 2 (find_sub n h))
       | _ \<Rightarrow> Fail (Other NameError)))"

definition strcspn :: "'e crt \<Rightarrow> int \<Rightarrow> int \<Rightarrow> ('e, int) cprog" where
  "strcspn c str charset =
     gbind (read_cstr c str 0 1) (\<lambda>s. gbind (read_cstr c charset 0 1) (\<lambda>cs.
       Ret (int (case first_in s cs of None \<Rightarrow> length s | Some n \<Rightarrow> n))))"

definition wcscspn :: "'e crt \<Rightarrow> int \<Rightarrow> int \<Rightarrow> ('e, int) cprog" where
  "wcscspn c str charset =
     gbind (read_wide_string c str 0) (\<lambda>s. gbind (read_wide_string c charset 0) (\<lambda>cs.
       Ret (int (case first_in s cs of None \<Rightarrow> length s | Some n \<Rightarrow> n))))"

definition strpbrk :: "'e crt \<Rightarrow> int \<Rightarrow> int \<Rightarrow> ('e, int) cprog" where
  "strpbrk c str charset =
     gbind (read_cstr c str 0 1) (\<lambda>s. gbind (read_cstr c charset 0 1) (\<lambda>cs. Ret (at_or_null str 1 (first_in s cs))))"

definition wcspbrk :: "'e crt \<Rightarrow> int \<Rightarrow> int \<Rightarrow> ('e, int) cprog" where
  "wcspbrk c str charset =
     gbind (read_wide_string c str 0) (\<lambda>s. gbind (read_wide_string c charset 0) (\<lambda>cs.
       Ret (at_or_null str 2 (first_in s cs))))"

end
