(* ===== verification/Crt_Convert.thy ===== *)
theory Crt_Convert
  imports Crt_Search
begin

text \<open>
  Conversions between byte and wide strings, copies of strings on the heap, the heap functions and the classes of
  characters of the C runtime (\<^verbatim>\<open>speakeasy/winenv/api/usermode/msvcrt.py\<close>), and the functions that are
  another name of one of the string functions.
\<close>

subsection \<open>Multibyte and wide strings\<close>

text \<open>The bytes of a multibyte string are Latin-1 characters.\<close>

definition latin1 :: "byte list \<Rightarrow> utext" where "latin1 bs = map unat bs"
definition wide_bytes :: "byte list \<Rightarrow> byte list" where "wide_bytes bs = bytes_of_units (latin1 bs)"

definition mbstowcs_s :: "'e crt \<Rightarrow> int \<Rightarrow> int \<Rightarrow> int \<Rightarrow> int \<Rightarrow> int \<Rightarrow> ('e, int) cprog" where
  "mbstowcs_s c pReturnValue wcstr sizeInWords mbstr cnt =
     gbind (if pReturnValue \<noteq> 0 then api_write_ptr c pReturnValue 0 else Ret ()) (\<lambda>_.
       if 0 < sizeInWords \<and> wcstr = 0 \<or> mbstr = 0 \<or> sizeInWords = 0 \<and> wcstr \<noteq> 0 then Ret EINVAL
       else gbind get_max_int (\<lambda>max_int.
         let is_truncated = (cnt = max_int);
             returned = (\<lambda>n rv. if pReturnValue \<noteq> 0 then gbind (api_write_ptr c pReturnValue n) (\<lambda>_. Ret rv) else Ret rv)
         in gbind (if wcstr \<noteq> 0 \<and> \<not> is_truncated then (if cnt \<noteq> 0 then read_cstr c mbstr (nat cnt) 1 else Ret [])
                   else read_cstr c mbstr 0 1) (\<lambda>mbs.
              let n = int (length mbs) + 1
              in if wcstr = 0 then returned n 0
                 else if sizeInWords < n \<and> \<not> is_truncated then gbind (api_write c wcstr [0, 0]) (\<lambda>_. Ret ERANGE)
                 else (let rv = (if sizeInWords < n then STRUNCATE else 0); n = min n sizeInWords
                       in gbind (api_write c wcstr (wide_bytes (take (nat (n - 1)) mbs) @ [0, 0])) (\<lambda>_. returned n rv)))))"

definition mbstowcs :: "'e crt \<Rightarrow> int \<Rightarrow> int \<Rightarrow> nat \<Rightarrow> ('e, int) cprog" where
  "mbstowcs c wcstr mbstr cnt =
     (if wcstr \<noteq> 0 \<and> cnt = 0 then Ret 0
      else gbind (read_cstr c mbstr (if wcstr \<noteq> 0 then cnt else 0) 1) (\<lambda>s.
        if wcstr = 0 then Ret (int (length s))
        else gbind (api_write c wcstr (if length s < cnt then wide_bytes s @ [0, 0] else wide_bytes s)) (\<lambda>_.
          Ret (int (length s)))))"

definition wcstombs :: "'e crt \<Rightarrow> int \<Rightarrow> int \<Rightarrow> nat \<Rightarrow> ('e, int) cprog" where
  "wcstombs c mbstr wcstr cnt =
     gbind (read_cstr c wcstr (if mbstr \<noteq> 0 then cnt else 0) 2) (\<lambda>data.
       let ws = decode_surrogatepass data
       in if \<exists>p\<in>set ws. 0x100 \<le> p then get_max_int
          else if mbstr = 0 then Ret (int (length ws))
          else (let s = map of_nat ws
                in gbind (api_write c mbstr (if length s < cnt then s @ [0] else take cnt s)) (\<lambda>_.
                     Ret (int (min (length s) cnt)))))"

definition mbrtowc :: "'e crt \<Rightarrow> int \<Rightarrow> int \<Rightarrow> int \<Rightarrow> int \<Rightarrow> ('e, int) cprog" where
  "mbrtowc c wchar mbchar cnt mbstate =
     (if mbchar = 0 then Ret 0
      else if cnt = 0 then Ret (- 2)
      else gbind (api_read c mbchar 1) (\<lambda>ch.
        gbind (if wchar \<noteq> 0 then api_write c wchar (ch @ [0]) else Ret ()) (\<lambda>_. Ret (of_bool (ch \<noteq> [0])))))"

definition mbsrtowcs :: "'e crt \<Rightarrow> int \<Rightarrow> int \<Rightarrow> nat \<Rightarrow> int \<Rightarrow> ('e, int) cprog" where
  "mbsrtowcs c wcstr mbstr cnt mbstate =
     gbind (api_read_ptr c mbstr) (\<lambda>src.
       gbind (read_cstr c src (if wcstr \<noteq> 0 then cnt else 0) 1) (\<lambda>s.
         let n = int (length s)
         in if wcstr = 0 then Ret n
            else if length s < cnt
            then gbind (api_write c wcstr (wide_bytes s @ [0, 0])) (\<lambda>_. gbind (api_write_ptr c mbstr 0) (\<lambda>_. Ret n))
            else gbind (api_write c wcstr (wide_bytes s)) (\<lambda>_. gbind (api_write_ptr c mbstr (src + n)) (\<lambda>_. Ret n))))"

subsection \<open>The heap\<close>

definition malloc :: "'e crt \<Rightarrow> int \<Rightarrow> ('e, int) cprog" where "malloc c n = heap_alloc c n ''HeapAlloc''"
definition free :: "'e crt \<Rightarrow> int \<Rightarrow> ('e, unit) cprog" where "free c memblock = gbind (heap_free c memblock) (\<lambda>_. Ret ())"

definition calloc :: "'e crt \<Rightarrow> nat \<Rightarrow> nat \<Rightarrow> ('e, int) cprog" where
  "calloc c number n =
     gbind get_max_int (\<lambda>max_int.
       if max_int < int (number * n) then Ret 0
       else gbind (heap_alloc c (int (number * n)) ''HeapAlloc'') (\<lambda>chunk.
         if chunk = 0 then Ret 0 else gbind (api_write c chunk (zeros (number * n))) (\<lambda>_. Ret chunk)))"

definition realloc :: "'e crt \<Rightarrow> int \<Rightarrow> int \<Rightarrow> ('e, int) cprog" where
  "realloc c memblock n =
     (if memblock \<noteq> 0 \<and> n = 0 then gbind (heap_free c memblock) (\<lambda>_. Ret 0)
      else gbind (heap_alloc c n ''HeapAlloc'') (\<lambda>dst.
        if dst = 0 then Ret 0
        else if memblock = 0 then Ret dst
        else gbind world (\<lambda>w. gbind (api_read c memblock (min (get_block_size w memblock) n)) (\<lambda>data.
          gbind (api_write c dst data) (\<lambda>_. gbind (heap_free c memblock) (\<lambda>_. Ret dst))))))"

definition recalloc :: "'e crt \<Rightarrow> int \<Rightarrow> int \<Rightarrow> int \<Rightarrow> ('e, int) cprog" where
  "recalloc c memblock num n =
     gbind get_max_int (\<lambda>max_int. gbind world (\<lambda>w.
       let tot = num * n
       in if max_int < tot then Ret 0
          else (let old = (if memblock \<noteq> 0 then get_block_size w memblock else 0)
                in gbind (realloc c memblock tot) (\<lambda>dst.
                     if dst \<noteq> 0 \<and> old < tot
                     then gbind (api_write c (dst + old) (zeros (nat (tot - old)))) (\<lambda>_. Ret dst) else Ret dst))))"

definition strdup :: "'e crt \<Rightarrow> int \<Rightarrow> ('e, int) cprog" where
  "strdup c src =
     (if src = 0 then Ret 0
      else gbind (read_cstr c src 0 1) (\<lambda>s. gbind (heap_alloc c (int (length s) + 1) ''HeapAlloc'') (\<lambda>dst.
        gbind (api_write c dst (s @ [0])) (\<lambda>_. Ret dst))))"

definition wcsdup :: "'e crt \<Rightarrow> int \<Rightarrow> ('e, int) cprog" where
  "wcsdup c src =
     (if src = 0 then Ret 0
      else gbind (read_cstr c src 0 2) (\<lambda>s. gbind (heap_alloc c (int (length s) + 2) ''HeapAlloc'') (\<lambda>dst.
        gbind (api_write c dst (s @ [0, 0])) (\<lambda>_. Ret dst))))"

definition malloc_crt :: "'e crt \<Rightarrow> int \<Rightarrow> ('e, int) cprog" where "malloc_crt = malloc"
definition calloc_crt :: "'e crt \<Rightarrow> nat \<Rightarrow> nat \<Rightarrow> ('e, int) cprog" where "calloc_crt = calloc"
definition realloc_crt :: "'e crt \<Rightarrow> int \<Rightarrow> int \<Rightarrow> ('e, int) cprog" where "realloc_crt = realloc"

definition encode_pointer :: "int \<Rightarrow> int" where "encode_pointer ptr = ptr + 1"
definition decode_pointer :: "int \<Rightarrow> int" where "decode_pointer ptr = ptr - 1"
definition encoded_null :: int where "encoded_null = encode_pointer 0"

subsection \<open>Other names\<close>

definition mbsdup :: "'e crt \<Rightarrow> int \<Rightarrow> ('e, int) cprog" where "mbsdup = strdup"
definition mbsstr :: "'e crt \<Rightarrow> int \<Rightarrow> int \<Rightarrow> ('e, int) cprog" where "mbsstr = strstr"
definition mbspbrk :: "'e crt \<Rightarrow> int \<Rightarrow> int \<Rightarrow> ('e, int) cprog" where "mbspbrk = strpbrk"
definition mbschr :: "'e crt \<Rightarrow> int \<Rightarrow> int \<Rightarrow> ('e, int) cprog" where "mbschr = strchr"
definition mbsrchr :: "'e crt \<Rightarrow> int \<Rightarrow> int \<Rightarrow> ('e, int) cprog" where "mbsrchr = strrchr"
definition mbscmp :: "'e crt \<Rightarrow> int \<Rightarrow> int \<Rightarrow> ('e, int) cprog" where "mbscmp = strcmp"
definition mbscoll :: "'e crt \<Rightarrow> int \<Rightarrow> int \<Rightarrow> ('e, int) cprog" where "mbscoll = strcmp"
definition mbsicmp :: "'e crt \<Rightarrow> int \<Rightarrow> int \<Rightarrow> ('e, int) cprog" where "mbsicmp = stricmp"
definition mbsicoll :: "'e crt \<Rightarrow> int \<Rightarrow> int \<Rightarrow> ('e, int) cprog" where "mbsicoll = stricmp"
definition mbsnbcmp :: "'e crt \<Rightarrow> int \<Rightarrow> int \<Rightarrow> nat \<Rightarrow> ('e, int) cprog" where "mbsnbcmp = strncmp"
definition mbsncmp :: "'e crt \<Rightarrow> int \<Rightarrow> int \<Rightarrow> nat \<Rightarrow> ('e, int) cprog" where "mbsncmp = strncmp"
definition mbscpy :: "'e crt \<Rightarrow> int \<Rightarrow> int \<Rightarrow> ('e, int) cprog" where "mbscpy = strcpy"
definition mbscat :: "'e crt \<Rightarrow> int \<Rightarrow> int \<Rightarrow> ('e, int) cprog" where "mbscat = strcat"
definition mbslen :: "'e crt \<Rightarrow> int \<Rightarrow> ('e, int) cprog" where "mbslen = strlen"
definition mbsncpy :: "'e crt \<Rightarrow> int \<Rightarrow> int \<Rightarrow> nat \<Rightarrow> ('e, int) cprog" where "mbsncpy = strncpy"
definition mbsnbcpy :: "'e crt \<Rightarrow> int \<Rightarrow> int \<Rightarrow> nat \<Rightarrow> ('e, int) cprog" where "mbsnbcpy = strncpy"
definition mbslwr :: "'e crt \<Rightarrow> int \<Rightarrow> ('e, int) cprog" where "mbslwr = strlwr"

subsection \<open>Classes of characters\<close>

definition TYPE_UPPER :: int where "TYPE_UPPER = 0x1"
definition TYPE_LOWER :: int where "TYPE_LOWER = 0x2"
definition TYPE_DIGIT :: int where "TYPE_DIGIT = 0x4"
definition TYPE_SPACE :: int where "TYPE_SPACE = 0x8"
definition TYPE_PUNCT :: int where "TYPE_PUNCT = 0x10"
definition TYPE_CONTROL :: int where "TYPE_CONTROL = 0x20"
definition TYPE_BLANK :: int where "TYPE_BLANK = 0x40"
definition TYPE_HEX :: int where "TYPE_HEX = 0x80"
definition TYPE_ALPHA :: int where "TYPE_ALPHA = 0x100"

definition SCANF_SPACE :: "int list" where "SCANF_SPACE = [0x20, 0x09, 0x0A, 0x0B, 0x0C, 0x0D]"

definition get_c_locale_ctype :: "int \<Rightarrow> int" where
  "get_c_locale_ctype ch =
     (let is_up = 0x41 \<le> ch \<and> ch \<le> 0x5A; is_low = 0x61 \<le> ch \<and> ch \<le> 0x7A; is_dig = 0x30 \<le> ch \<and> ch \<le> 0x39;
          flag = (\<lambda>b v. if b then v else 0)
      in if 0x80 \<le> ch then 0
         else flag is_up (TYPE_UPPER OR TYPE_ALPHA) OR flag is_low (TYPE_LOWER OR TYPE_ALPHA) OR flag is_dig TYPE_DIGIT
              OR flag (is_dig \<or> 0x41 \<le> ch \<and> ch \<le> 0x46 \<or> 0x61 \<le> ch \<and> ch \<le> 0x66) TYPE_HEX
              OR flag (ch \<in> set SCANF_SPACE) TYPE_SPACE OR flag (ch < 0x20 \<or> ch = 0x7F) TYPE_CONTROL
              OR flag (ch = 0x20 \<or> ch = 0x09) TYPE_BLANK
              OR flag (0x20 < ch \<and> ch < 0x7F \<and> \<not> (is_up \<or> is_low \<or> is_dig)) TYPE_PUNCT)"

definition get_ctype :: "int \<Rightarrow> int \<Rightarrow> int" where
  "get_ctype ch desc =
     (let ch = ch AND 0xFFFFFFFF in if ch < 0x100 then get_c_locale_ctype ch AND desc else 0)"

definition isctype :: "int \<Rightarrow> int \<Rightarrow> int" where "isctype ch desc = get_ctype ch desc"
definition isalnum :: "int \<Rightarrow> int" where "isalnum ch = get_ctype ch (TYPE_ALPHA OR TYPE_DIGIT)"
definition isalpha :: "int \<Rightarrow> int" where "isalpha ch = get_ctype ch TYPE_ALPHA"
definition isupper :: "int \<Rightarrow> int" where "isupper ch = get_ctype ch TYPE_UPPER"
definition islower :: "int \<Rightarrow> int" where "islower ch = get_ctype ch TYPE_LOWER"
definition isxdigit :: "int \<Rightarrow> int" where "isxdigit ch = get_ctype ch TYPE_HEX"
definition ispunct :: "int \<Rightarrow> int" where "ispunct ch = get_ctype ch TYPE_PUNCT"
definition isprint :: "int \<Rightarrow> int" where "isprint ch = get_ctype ch (TYPE_BLANK OR TYPE_PUNCT OR TYPE_ALPHA OR TYPE_DIGIT)"
definition iscntrl :: "int \<Rightarrow> int" where "iscntrl ch = get_ctype ch TYPE_CONTROL"
definition isgraph :: "int \<Rightarrow> int" where "isgraph ch = get_ctype ch (TYPE_PUNCT OR TYPE_ALPHA OR TYPE_DIGIT)"
definition iswxdigit :: "int \<Rightarrow> int" where "iswxdigit ch = get_ctype (ch AND 0xFFFF) TYPE_HEX"

definition isdigit :: "int \<Rightarrow> int" where "isdigit ch = of_bool (48 \<le> ch \<and> ch \<le> 57)"
definition isspace :: "int \<Rightarrow> int" where "isspace ch = of_bool (0 \<le> ch \<and> ch < 0x100 \<and> ch \<in> set SCANF_SPACE)"
definition ismbcdigit :: "int \<Rightarrow> int" where "ismbcdigit = isdigit"
definition ismbcspace :: "int \<Rightarrow> int" where "ismbcspace = isspace"

text \<open>Python's classes of wide characters are a parameter.\<close>

record unicode_classes =
  uc_space :: "int \<Rightarrow> bool"
  uc_alpha :: "int \<Rightarrow> bool"
  uc_alnum :: "int \<Rightarrow> bool"
  uc_digit :: "int \<Rightarrow> bool"
  uc_upper :: "int \<Rightarrow> bool"
  uc_lower :: "int \<Rightarrow> bool"

definition iswspace :: "unicode_classes \<Rightarrow> int \<Rightarrow> int" where
  "iswspace u ch = (let ch = ch AND 0xFFFF in of_bool (ch \<in> set SCANF_SPACE \<or> (0x7F < ch \<and> uc_space u ch)))"

definition iswalpha :: "unicode_classes \<Rightarrow> int \<Rightarrow> int" where "iswalpha u ch = of_bool (uc_alpha u (ch AND 0xFFFF))"
definition iswalnum :: "unicode_classes \<Rightarrow> int \<Rightarrow> int" where "iswalnum u ch = of_bool (uc_alnum u (ch AND 0xFFFF))"
definition iswdigit :: "unicode_classes \<Rightarrow> int \<Rightarrow> int" where "iswdigit u ch = of_bool (uc_digit u (ch AND 0xFFFF))"
definition iswupper :: "unicode_classes \<Rightarrow> int \<Rightarrow> int" where "iswupper u ch = of_bool (uc_upper u (ch AND 0xFFFF))"
definition iswlower :: "unicode_classes \<Rightarrow> int \<Rightarrow> int" where "iswlower u ch = of_bool (uc_lower u (ch AND 0xFFFF))"

definition toupper :: "int \<Rightarrow> int" where "toupper ch = (if 0x61 \<le> ch \<and> ch \<le> 0x7A then ch - 0x20 else ch)"
definition tolower :: "int \<Rightarrow> int" where "tolower ch = (if 0x41 \<le> ch \<and> ch \<le> 0x5A then ch + 0x20 else ch)"
definition towupper :: "int \<Rightarrow> int" where "towupper ch = toupper (ch AND 0xFFFF)"
definition towlower :: "int \<Rightarrow> int" where "towlower ch = tolower (ch AND 0xFFFF)"

end
