(* ===== verification/Crt_Sort.thy ===== *)
theory Crt_Sort
  imports Crt_Convert
begin

text \<open>
  The functions of the C runtime that call the guest (\<^verbatim>\<open>speakeasy/winenv/api/usermode/msvcrt.py\<close>): the sort
  of an array with a comparator of the guest, the initializers of a module, and the tables of functions that run at the
  exit.
\<close>

definition plain_call :: "int \<Rightarrow> int list \<Rightarrow> guest_call" where
  "plain_call f args = \<lparr>gc_function = f, gc_args = args, gc_registers = []\<rparr>"

subsection \<open>Sorting\<close>

definition call_result :: "int \<Rightarrow> int" where "call_result v = v AND 0xFFFFFFFF"

text \<open>\<open>0 < result < 0x80000000\<close>: the comparator says that the left element is the greater one.\<close>

definition says_greater :: "int \<Rightarrow> bool" where
  "says_greater v \<longleftrightarrow> 0 < call_result v \<and> call_result v < 0x80000000"

fun merge_runs :: "int \<Rightarrow> int list \<Rightarrow> int list \<Rightarrow> ('s, int list) gen" where
  "merge_runs compare [] rs = Ret rs"
| "merge_runs compare (l # ls) [] = Ret (l # ls)"
| "merge_runs compare (l # ls) (r # rs) =
     gbind (call (plain_call compare [l, r])) (\<lambda>v.
       if says_greater v then gbind (merge_runs compare (l # ls) rs) (\<lambda>m. Ret (r # m))
       else gbind (merge_runs compare ls (r # rs)) (\<lambda>m. Ret (l # m)))"

function merge_pass :: "int \<Rightarrow> nat \<Rightarrow> int list \<Rightarrow> ('s, int list) gen" where
  "merge_pass compare run order =
     (if order = [] \<or> run = 0 then Ret order
      else gbind (merge_runs compare (take run order) (take run (drop run order))) (\<lambda>merged.
        gbind (merge_pass compare run (drop (2 * run) order)) (\<lambda>rest. Ret (merged @ rest))))"
  by pat_completeness auto
termination
  by (relation "measure (\<lambda>(compare, run, order). length order)") auto

declare merge_pass.simps [simp del]

text \<open>\<open>run\<close> starts at 1 and doubles, so it is never 0.\<close>

function sort_runs :: "int \<Rightarrow> nat \<Rightarrow> nat \<Rightarrow> int list \<Rightarrow> ('s, int list) gen" where
  "sort_runs compare number run order =
     (if number \<le> run \<or> run = 0 then Ret order
      else gbind (merge_pass compare run order) (\<lambda>merged. sort_runs compare number (2 * run) merged))"
  by pat_completeness auto
termination
  by (relation "measure (\<lambda>(compare, number, run, order). number - run)") auto

declare sort_runs.simps [simp del]

fun read_all :: "'e crt \<Rightarrow> int \<Rightarrow> int list \<Rightarrow> ('e, byte list) cprog" where
  "read_all c width [] = Ret []"
| "read_all c width (e # es) =
     gbind (api_read c e width) (\<lambda>bs. gbind (read_all c width es) (\<lambda>rest. Ret (bs @ rest)))"

definition sort_elements :: "'e crt \<Rightarrow> int \<Rightarrow> nat \<Rightarrow> nat \<Rightarrow> int \<Rightarrow> ('e, unit) cprog" where
  "sort_elements c base number width compare =
     gbind (sort_runs compare number 1 (map (\<lambda>i. base + int i * int width) [0..<number])) (\<lambda>order.
       gbind (read_all c (int width) order) (api_write c base))"

definition qsort :: "'e crt \<Rightarrow> int \<Rightarrow> nat \<Rightarrow> nat \<Rightarrow> int \<Rightarrow> ('e, unit) cprog" where
  "qsort c base number width compare =
     (if number < 2 \<or> width = 0 then Ret () else sort_elements c base number width compare)"

subsection \<open>Initializers\<close>

fun call_entries :: "'e crt \<Rightarrow> bool \<Rightarrow> int list \<Rightarrow> ('e, int) cprog" where
  "call_entries c stop_on_error [] = Ret 0"
| "call_entries c stop_on_error (entry # entries) =
     gbind (api_read_ptr c entry) (\<lambda>f.
       if f = 0 then call_entries c stop_on_error entries
       else gbind (call (plain_call f [])) (\<lambda>v.
         if stop_on_error \<and> call_result v \<noteq> 0 then Ret (call_result v) else call_entries c stop_on_error entries))"

definition call_initializers :: "'e crt \<Rightarrow> int \<Rightarrow> int \<Rightarrow> bool \<Rightarrow> ('e, int) cprog" where
  "call_initializers c pfbegin pfend stop_on_error =
     gbind (gets ptr_size) (\<lambda>p. call_entries c stop_on_error (py_range pfbegin pfend (int p)))"

definition initterm_e :: "'e crt \<Rightarrow> int \<Rightarrow> int \<Rightarrow> ('e, int) cprog" where
  "initterm_e c pfbegin pfend = call_initializers c pfbegin pfend True"

definition initterm :: "'e crt \<Rightarrow> int \<Rightarrow> int \<Rightarrow> ('e, int) cprog" where
  "initterm c pfbegin pfend = call_initializers c pfbegin pfend False"

subsection \<open>Functions that run at the exit\<close>

definition read_onexit_table :: "'e crt \<Rightarrow> int \<Rightarrow> ('e, int \<times> int \<times> int) cprog" where
  "read_onexit_table c table =
     gbind (gets (\<lambda>s. int (ptr_size s))) (\<lambda>p. gbind (api_read_ptr c table) (\<lambda>x.
       gbind (api_read_ptr c (table + p)) (\<lambda>y. gbind (api_read_ptr c (table + 2 * p)) (\<lambda>z. Ret (x, y, z)))))"

definition write_onexit_table :: "'e crt \<Rightarrow> int \<Rightarrow> int \<Rightarrow> int \<Rightarrow> int \<Rightarrow> ('e, unit) cprog" where
  "write_onexit_table c table x y z =
     gbind (gets (\<lambda>s. int (ptr_size s))) (\<lambda>p. gbind (api_write_ptr c table x) (\<lambda>_.
       gbind (api_write_ptr c (table + p) y) (\<lambda>_. api_write_ptr c (table + 2 * p) z)))"

text \<open>A table without functions: the first pointer is null or all ones.\<close>

definition no_array :: "int \<Rightarrow> int \<Rightarrow> bool" where "no_array p x \<longleftrightarrow> x = 0 \<or> x = 2 ^ (nat p * 8) - 1"

definition initialize_onexit_table :: "'e crt \<Rightarrow> int \<Rightarrow> ('e, int) cprog" where
  "initialize_onexit_table c table =
     (if table = 0 then Ret (- 1)
      else gbind (read_onexit_table c table) (\<lambda>(x, y, z).
        gbind (if x = 0 then write_onexit_table c table 0 0 0 else Ret ()) (\<lambda>_. Ret 0)))"

text \<open>A larger array with the old functions, when the old one is full.\<close>

definition grow_array :: "'e crt \<Rightarrow> int \<Rightarrow> int \<times> int \<times> int \<Rightarrow> ('e, int \<times> int \<times> int) cprog" where
  "grow_array c p t =
     (case t of (x, y, z) \<Rightarrow>
        if y \<noteq> z then Ret t
        else (let n = (y - x) div p; space = max (n * 2) 32 * p
              in gbind (heap_alloc c space ''HeapAlloc'') (\<lambda>array.
                   gbind (if n \<noteq> 0
                          then gbind (api_read c x (n * p)) (\<lambda>bs. gbind (api_write c array bs) (\<lambda>_.
                                 gbind (heap_free c x) (\<lambda>_. Ret ())))
                          else Ret ()) (\<lambda>_. Ret (array, array + n * p, array + space)))))"

definition register_onexit_function :: "'e crt \<Rightarrow> int \<Rightarrow> int \<Rightarrow> ('e, int) cprog" where
  "register_onexit_function c table f =
     (if table = 0 then Ret (- 1)
      else gbind (gets (\<lambda>s. int (ptr_size s))) (\<lambda>p. gbind (read_onexit_table c table) (\<lambda>t.
        gbind (grow_array c p (if no_array p (fst t) then (0, 0, 0) else t)) (\<lambda>(x, y, z).
          gbind (api_write_ptr c y f) (\<lambda>_. gbind (write_onexit_table c table x (y + p) z) (\<lambda>_. Ret 0))))))"

text \<open>The last entry below \<open>y\<close> that is not null: the address of the entry, or of the place before the first one.\<close>

function last_function :: "'e crt \<Rightarrow> int \<Rightarrow> int \<Rightarrow> int \<Rightarrow> ('e, int) cprog" where
  "last_function c p x y =
     (if y - p < x \<or> p \<le> 0 then Ret (y - p)
      else gbind (api_read_ptr c (y - p)) (\<lambda>f. if f \<noteq> 0 then Ret (y - p) else last_function c p x (y - p)))"
  by pat_completeness auto
termination
  by (relation "measure (\<lambda>(c, p, x, y). nat (y - x))") auto

declare last_function.simps [simp del]

text \<open>The guest can register more functions while one runs, so the loop has a number of rounds. It runs out only when
  the guest registers functions for ever.\<close>

fun call_onexit_loop :: "nat \<Rightarrow> 'e crt \<Rightarrow> int \<Rightarrow> int \<Rightarrow> int \<times> int \<Rightarrow> int \<times> int \<Rightarrow> ('e, int) cprog" where
  "call_onexit_loop 0 c p table saved cur = Fail (Other Diverges)"
| "call_onexit_loop (Suc n) c p table saved cur =
     gbind (last_function c p (fst cur) (snd cur)) (\<lambda>y.
       if y < fst cur then Ret (fst cur)
       else gbind (api_read_ptr c y) (\<lambda>f. gbind (api_write_ptr c y 0) (\<lambda>_.
         gbind (call (plain_call f [])) (\<lambda>_. gbind (read_onexit_table c table) (\<lambda>(nx, ny, nz).
           if (nx, ny) \<noteq> saved then call_onexit_loop n c p table (nx, ny) (nx, ny)
           else call_onexit_loop n c p table saved (fst cur, y))))))"

definition call_onexit_functions :: "nat \<Rightarrow> 'e crt \<Rightarrow> int \<Rightarrow> ('e, int) cprog" where
  "call_onexit_functions rounds c table =
     gbind (gets (\<lambda>s. int (ptr_size s))) (\<lambda>p. gbind (read_onexit_table c table) (\<lambda>(x, y, z).
       if no_array p x then Ret 0
       else gbind (call_onexit_loop rounds c p table (x, y) (x, y)) (\<lambda>x.
         gbind (heap_free c x) (\<lambda>_. gbind (write_onexit_table c table 0 0 0) (\<lambda>_. Ret 0)))))"

definition execute_onexit_table :: "nat \<Rightarrow> 'e crt \<Rightarrow> int \<Rightarrow> ('e, int) cprog" where
  "execute_onexit_table rounds c table = (if table = 0 then Ret (- 1) else call_onexit_functions rounds c table)"

end
