(* ===== verification/Crt_Numbers.thy ===== *)
theory Crt_Numbers
  imports Crt_Convert
begin

text \<open>
  Numbers and their texts in the C runtime (\<^verbatim>\<open>speakeasy/winenv/api/usermode/msvcrt.py\<close>): the parser of
  integers with its callers, the formatters, and the generators of random numbers. The end of the theory proves that the
  parser reads back what the formatter writes.
\<close>

subsection \<open>Parsing\<close>

text \<open>\<open>DIGITS.find(c.lower())\<close>.\<close>

definition digit_of :: "byte \<Rightarrow> int" where
  "digit_of b =
     (let v = uint (lower_byte b)
      in if 0x30 \<le> v \<and> v \<le> 0x39 then v - 0x30 else if 0x61 \<le> v \<and> v \<le> 0x7A then v - 0x57 else - 1)"

definition get_digit :: "byte list \<Rightarrow> int \<Rightarrow> int" where
  "get_digit c base = (let d = (case c of [b] \<Rightarrow> digit_of b | _ \<Rightarrow> - 1) in if d < base then d else - 1)"

definition is_c_space :: "byte \<Rightarrow> bool" where "is_c_space b \<longleftrightarrow> uint b \<in> set SCANF_SPACE"

fun parse_digits :: "byte list \<Rightarrow> int \<Rightarrow> int \<Rightarrow> nat \<Rightarrow> int \<times> nat" where
  "parse_digits [] base val i = (val, i)"
| "parse_digits (b # bs) base val i =
     (let d = get_digit [b] base in if 0 \<le> d then parse_digits bs base (val * base + d) (i + 1) else (val, i))"

definition parse_c_integer :: "byte list \<Rightarrow> int \<Rightarrow> nat \<Rightarrow> int \<times> nat" where
  "parse_c_integer text base width =
     (let text = (if width \<noteq> 0 then take width text else text);
          i = length (takeWhile is_c_space text);
          sign = (if take 1 (drop i text) = [0x2D] then - 1 else 1);
          i = i + of_bool (take 1 (drop i text) \<in> {[0x2B], [0x2D]});
          hex = (base = 0 \<or> base = 16) \<and> map lower_byte (take 2 (drop i text)) = [0x30, 0x78]
                  \<and> 0 \<le> get_digit (take 1 (drop (i + 2) text)) 16;
          start = (if hex then i + 2 else i);
          base = (if hex then 16 else if base = 0 then (if take 1 (drop i text) = [0x30] then 8 else 10) else base)
      in case parse_digits (drop start text) base 0 start of (val, i) \<Rightarrow> if start < i then (sign * val, i) else (0, 0))"

text \<open>A wide string as the bytes of its ASCII characters.\<close>

definition ascii_replace :: "utext \<Rightarrow> byte list" where "ascii_replace s = map (\<lambda>p. if p < 0x80 then of_nat p else 0x3F) s"

definition read_number_text :: "'e crt \<Rightarrow> int \<Rightarrow> nat \<Rightarrow> ('e, byte list) cprog" where
  "read_number_text c addr width =
     gbind (read_cstr c addr 0 width) (\<lambda>bs. Ret (if width = 1 then bs else ascii_replace (decode_replace bs)))"

definition clamp :: "int \<Rightarrow> int \<Rightarrow> int \<Rightarrow> int" where "clamp lo hi v = max lo (min v hi)"

definition ato :: "'e crt \<Rightarrow> int \<Rightarrow> nat \<Rightarrow> nat \<Rightarrow> ('e, int) cprog" where
  "ato c addr width bits =
     gbind (read_number_text c addr width) (\<lambda>bs.
       Ret (clamp (- (2 ^ (bits - 1))) (2 ^ (bits - 1) - 1) (fst (parse_c_integer bs 10 0))))"

definition return_int64 :: "int \<Rightarrow> ('e, int) cprog" where
  "return_int64 v =
     gbind (gets em_amd64) (\<lambda>amd64.
       if amd64 then Ret v
       else (let v = v AND 0xFFFFFFFFFFFFFFFF
             in gbind (reg_write ''Edx'' (drop_bit 32 v)) (\<lambda>_. Ret (v AND 0xFFFFFFFF))))"

definition atoi :: "'e crt \<Rightarrow> int \<Rightarrow> ('e, int) cprog" where "atoi c str = ato c str 1 32"
definition atol :: "'e crt \<Rightarrow> int \<Rightarrow> ('e, int) cprog" where "atol = atoi"
definition wtol :: "'e crt \<Rightarrow> int \<Rightarrow> ('e, int) cprog" where "wtol c str = ato c str 2 32"
definition wtoi :: "'e crt \<Rightarrow> int \<Rightarrow> ('e, int) cprog" where "wtoi c str = ato c str 2 32"
definition wtoi64 :: "'e crt \<Rightarrow> int \<Rightarrow> ('e, int) cprog" where "wtoi64 c str = gbind (ato c str 2 64) return_int64"

definition write_end :: "'e crt \<Rightarrow> int \<Rightarrow> int \<Rightarrow> ('e, unit) cprog" where
  "write_end c end_ptr v = (if end_ptr \<noteq> 0 then api_write_ptr c end_ptr v else Ret ())"

definition strtol :: "'e crt \<Rightarrow> int \<Rightarrow> int \<Rightarrow> int \<Rightarrow> ('e, int) cprog" where
  "strtol c string end_ptr base =
     gbind (read_cstr c string 0 1) (\<lambda>bs.
       case parse_c_integer bs base 0 of
         (val, used) \<Rightarrow> gbind (write_end c end_ptr (string + int used)) (\<lambda>_. Ret (clamp (- 0x80000000) 0x7FFFFFFF val)))"

definition unsigned_long :: "int \<Rightarrow> int" where
  "unsigned_long v = (if 0xFFFFFFFF < \<bar>v\<bar> then 0xFFFFFFFF else v AND 0xFFFFFFFF)"

definition strtoul :: "'e crt \<Rightarrow> int \<Rightarrow> int \<Rightarrow> int \<Rightarrow> ('e, int) cprog" where
  "strtoul c string end_ptr base =
     gbind (read_cstr c string 0 1) (\<lambda>bs.
       case parse_c_integer bs base 0 of
         (val, used) \<Rightarrow> gbind (write_end c end_ptr (string + int used)) (\<lambda>_. Ret (unsigned_long val)))"

definition wcstoul :: "'e crt \<Rightarrow> int \<Rightarrow> int \<Rightarrow> int \<Rightarrow> ('e, int) cprog" where
  "wcstoul c string end_ptr base =
     gbind (read_number_text c string 2) (\<lambda>bs.
       case parse_c_integer bs base 0 of
         (val, used) \<Rightarrow> gbind (write_end c end_ptr (string + int used * 2)) (\<lambda>_. Ret (unsigned_long val)))"

definition strtoi64 :: "'e crt \<Rightarrow> int \<Rightarrow> int \<Rightarrow> int \<Rightarrow> nat \<Rightarrow> bool \<Rightarrow> ('e, int) cprog" where
  "strtoi64 c src end_ptr base width is_signed =
     gbind (read_number_text c src width) (\<lambda>bs.
       case parse_c_integer bs base 0 of
         (val, used) \<Rightarrow>
           gbind (write_end c end_ptr (src + int used * int width)) (\<lambda>_.
             if is_signed \<and> \<not> (- (2 ^ 63) \<le> val \<and> val < 2 ^ 63)
             then gbind (set_errno c ERANGE) (\<lambda>_. return_int64 (if val < 0 then - (2 ^ 63) else 2 ^ 63 - 1))
             else if \<not> is_signed \<and> 2 ^ 64 \<le> \<bar>val\<bar>
             then gbind (set_errno c ERANGE) (\<lambda>_. return_int64 (2 ^ 64 - 1))
             else return_int64 val))"

definition strtoi64_ansi :: "'e crt \<Rightarrow> int \<Rightarrow> int \<Rightarrow> int \<Rightarrow> ('e, int) cprog" where
  "strtoi64_ansi c src end_ptr base = strtoi64 c src end_ptr base 1 True"

definition strtoui64 :: "'e crt \<Rightarrow> int \<Rightarrow> int \<Rightarrow> int \<Rightarrow> ('e, int) cprog" where
  "strtoui64 c src end_ptr base = strtoi64 c src end_ptr base 1 False"

definition wcstoi64 :: "'e crt \<Rightarrow> int \<Rightarrow> int \<Rightarrow> int \<Rightarrow> ('e, int) cprog" where
  "wcstoi64 c src end_ptr base = strtoi64 c src end_ptr base 2 True"

definition wcstoui64 :: "'e crt \<Rightarrow> int \<Rightarrow> int \<Rightarrow> int \<Rightarrow> ('e, int) cprog" where
  "wcstoui64 c src end_ptr base = strtoi64 c src end_ptr base 2 False"

subsection \<open>Formatting\<close>

definition digit_point :: "nat \<Rightarrow> nat" where "digit_point d = (if d < 10 then 0x30 + d else 0x57 + d)"

text \<open>The division loop of the formatters, for a radix of at least 2.\<close>

function digits_of :: "nat \<Rightarrow> nat \<Rightarrow> utext \<Rightarrow> utext" where
  "digits_of radix val acc =
     (if radix < 2 \<or> val < radix then digit_point val # acc
      else digits_of radix (val div radix) (digit_point (val mod radix) # acc))"
  by pat_completeness auto
termination
  by (relation "measure (\<lambda>(radix, val, acc). val)") auto

declare digits_of.simps [simp del]

definition format_int32 :: "int \<Rightarrow> int \<Rightarrow> utext" where
  "format_int32 val radix =
     (if \<not> (2 \<le> radix \<and> radix \<le> 36) then []
      else (let val = val AND 0xFFFFFFFF; negative = (radix = 10 \<and> val AND 0x80000000 \<noteq> 0)
            in (if negative then [0x2D] else [])
               @ digits_of (nat radix) (nat (if negative then 0x100000000 - val else val)) []))"

definition itoa :: "'e crt \<Rightarrow> int \<Rightarrow> int \<Rightarrow> int \<Rightarrow> ('e, int) cprog" where
  "itoa c v buffer radix = gbind (write_mem_string c (format_int32 v radix) buffer 1) (\<lambda>_. Ret buffer)"

definition itow :: "'e crt \<Rightarrow> int \<Rightarrow> int \<Rightarrow> int \<Rightarrow> ('e, int) cprog" where
  "itow c v buffer radix = gbind (write_wide_string c (format_int32 v radix) buffer) (\<lambda>_. Ret buffer)"

definition ltoa :: "'e crt \<Rightarrow> int \<Rightarrow> int \<Rightarrow> int \<Rightarrow> ('e, int) cprog" where
  "ltoa c v buffer radix = gbind (write_mem_string c (format_int32 v radix) buffer 1) (\<lambda>_. Ret buffer)"

text \<open>The arguments of a 64-bit conversion on a 32-bit machine have the value in two words.\<close>

definition int_args :: "nat \<Rightarrow> nat \<Rightarrow> int list \<Rightarrow> (int \<times> int \<times> int \<times> int) option" where
  "int_args bits ptr argv =
     (if bits = 64 \<and> ptr = 4
      then (case argv of [lo, hi, buf, n, radix] \<Rightarrow> Some (push_bit 32 hi OR lo, buf, n, radix) | _ \<Rightarrow> None)
      else (case argv of v # buf # n # radix # _ \<Rightarrow> Some (v, buf, n, radix) | _ \<Rightarrow> None))"

definition conversion_error :: "'e crt \<Rightarrow> int \<Rightarrow> ('e, int) cprog" where
  "conversion_error c e = gbind (set_errno c e) (\<lambda>_. Ret e)"

definition convert_int_s :: "'e crt \<Rightarrow> int list \<Rightarrow> nat \<Rightarrow> bool \<Rightarrow> nat \<Rightarrow> ('e, int) cprog" where
  "convert_int_s c argv bits is_signed width =
     gbind (gets ptr_size) (\<lambda>ptr.
       case int_args bits ptr argv of
         None \<Rightarrow> Fail (Other ValueError)
       | Some (v, buf, n, radix) \<Rightarrow>
           (let v = v mod 2 ^ bits; negative = is_signed \<and> radix = 10 \<and> drop_bit (bits - 1) v \<noteq> 0
            in if buf = 0 \<or> n = 0 then conversion_error c EINVAL
               else gbind (api_write c buf (zeros width)) (\<lambda>_.
                 if n \<le> 1 + of_bool negative then conversion_error c ERANGE
                 else if \<not> (2 \<le> radix \<and> radix \<le> 36) then conversion_error c EINVAL
                 else (let text = (if negative then [0x2D] else [])
                             @ digits_of (nat radix) (nat (if negative then 2 ^ bits - v else v)) []
                       in if n \<le> int (length text) then conversion_error c ERANGE
                          else gbind (write_mem_string c text buf width) (\<lambda>_. Ret 0)))))"

definition itoa_s :: "'e crt \<Rightarrow> int list \<Rightarrow> ('e, int) cprog" where "itoa_s c argv = convert_int_s c argv 32 True 1"
definition itow_s :: "'e crt \<Rightarrow> int list \<Rightarrow> ('e, int) cprog" where "itow_s c argv = convert_int_s c argv 32 True 2"
definition ltoa_s :: "'e crt \<Rightarrow> int list \<Rightarrow> ('e, int) cprog" where "ltoa_s c argv = convert_int_s c argv 32 True 1"
definition ltow_s :: "'e crt \<Rightarrow> int list \<Rightarrow> ('e, int) cprog" where "ltow_s c argv = convert_int_s c argv 32 True 2"
definition ultoa_s :: "'e crt \<Rightarrow> int list \<Rightarrow> ('e, int) cprog" where "ultoa_s c argv = convert_int_s c argv 32 False 1"
definition ultow_s :: "'e crt \<Rightarrow> int list \<Rightarrow> ('e, int) cprog" where "ultow_s c argv = convert_int_s c argv 32 False 2"
definition i64toa_s :: "'e crt \<Rightarrow> int list \<Rightarrow> ('e, int) cprog" where "i64toa_s c argv = convert_int_s c argv 64 True 1"
definition i64tow_s :: "'e crt \<Rightarrow> int list \<Rightarrow> ('e, int) cprog" where "i64tow_s c argv = convert_int_s c argv 64 True 2"
definition ui64toa_s :: "'e crt \<Rightarrow> int list \<Rightarrow> ('e, int) cprog" where "ui64toa_s c argv = convert_int_s c argv 64 False 1"
definition ui64tow_s :: "'e crt \<Rightarrow> int list \<Rightarrow> ('e, int) cprog" where "ui64tow_s c argv = convert_int_s c argv 64 False 2"

definition crt_abs :: "int \<Rightarrow> int" where "crt_abs n = \<bar>n\<bar>"

subsection \<open>Random numbers\<close>

definition put_crt :: "(crt_state \<Rightarrow> crt_state) \<Rightarrow> ('e, unit) cprog" where
  "put_crt f = put_world (\<lambda>w. w\<lparr>wd_crt := f (wd_crt w)\<rparr>)"

definition srand :: "int \<Rightarrow> ('e, unit) cprog" where "srand seed = put_crt (\<lambda>r. r\<lparr>cr_rand_seed := seed\<rparr>)"

definition next_seed :: "int \<Rightarrow> int" where "next_seed seed = (seed * 214013 + 2531011) AND 0xFFFFFFFF"

definition rand :: "('e, int) cprog" where
  "rand = gbind (put_crt (\<lambda>r. r\<lparr>cr_rand_seed := next_seed (cr_rand_seed r)\<rparr>)) (\<lambda>_.
     gbind world (\<lambda>w. Ret (drop_bit 16 (cr_rand_seed (wd_crt w)) AND 0x7FFF)))"

definition rand_s :: "'e crt \<Rightarrow> int \<Rightarrow> ('e, int) cprog" where
  "rand_s c randomValue =
     (if randomValue = 0 then Ret EINVAL
      else gbind (put_crt (\<lambda>r. r\<lparr>cr_rand_int := cr_rand_int r + 1\<rparr>)) (\<lambda>_.
        gbind world (\<lambda>w. gbind (write_dword c randomValue (cr_rand_int (wd_crt w) AND 0xFFFFFFFF)) (\<lambda>_. Ret 0))))"

subsection \<open>The parser reads back the formatter\<close>

lemma lower_byte_digit: "d < 36 \<Longrightarrow> lower_byte (of_nat (digit_point d)) = of_nat (digit_point d)"
  by (simp add: lower_byte_def digit_point_def word_le_nat_alt unat_of_nat)

lemma digit_of_point:
  assumes "d < 36"
  shows "digit_of (of_nat (digit_point d)) = int d"
proof -
  have u: "uint (of_nat (digit_point d) :: byte) = int (digit_point d)"
    using assms by (simp add: uint_nat unat_of_nat digit_point_def)
  show ?thesis unfolding digit_of_def lower_byte_digit [OF assms] u Let_def using assms by (simp add: digit_point_def)
qed

lemma get_digit_point: "d < radix \<Longrightarrow> radix \<le> 36 \<Longrightarrow> get_digit [of_nat (digit_point d)] (int radix) = int d"
  by (simp add: get_digit_def digit_of_point)

lemma parse_digits_append:
  "\<forall>d\<in>set ds. d < radix \<Longrightarrow> radix \<le> 36 \<Longrightarrow>
    parse_digits (map (of_nat \<circ> digit_point) ds @ rest) (int radix) v i =
    parse_digits rest (int radix) (foldl (\<lambda>a d. a * int radix + int d) v ds) (i + length ds)"
  by (induction ds arbitrary: v i) (simp_all add: get_digit_point)

lemma digits_of_shape:
  "2 \<le> radix \<Longrightarrow> \<exists>ds. digits_of radix v acc = map digit_point ds @ acc \<and> ds \<noteq> [] \<and> (\<forall>d\<in>set ds. d < radix)
     \<and> foldl (\<lambda>a d. a * int radix + int d) 0 ds = int v \<and> (0 < v \<longrightarrow> 0 < hd ds) \<and> (v = 0 \<longrightarrow> length ds = 1)"
proof (induction radix v acc rule: digits_of.induct)
  case (1 radix v acc)
  show ?case
  proof (cases "v < radix")
    case True
    then show ?thesis using 1(2) by (intro exI [of _ "[v]"]) (simp add: digits_of.simps)
  next
    case False
    then obtain ds where ds: "digits_of radix (v div radix) (digit_point (v mod radix) # acc) = map digit_point ds @ digit_point (v mod radix) # acc"
        "ds \<noteq> []" "\<forall>d\<in>set ds. d < radix" "foldl (\<lambda>a d. a * int radix + int d) 0 ds = int (v div radix)"
        "0 < v div radix \<longrightarrow> 0 < hd ds"
      using 1 by (metis (lifting) not_less)
    have "0 < v div radix" "0 < v" using False 1(2) by (auto simp: div_greater_zero_iff)
    moreover have "int (v div radix) * int radix + int (v mod radix) = int v"
      by (metis div_mult_mod_eq of_nat_add of_nat_mult)
    ultimately show ?thesis using ds False 1(2)
      by (intro exI [of _ "ds @ [v mod radix]"]) (auto simp: digits_of.simps [of radix v acc])
  qed
qed

lemma point_in_code_page: "p < 0x80 \<Longrightarrow> encode_ansi_text [p] = [of_nat p]"
  using encode_decode_ansi [of "[of_nat p]"] by (simp add: decode_ansi_def unat_of_nat DECODING_TABLE_def nth_append)

lemma encode_points: "\<forall>d\<in>set ds. d < 36 \<Longrightarrow> encode_ansi_text (map digit_point ds) = map (of_nat \<circ> digit_point) ds"
proof (induction ds)
  case (Cons d ds)
  then show ?case using point_in_code_page [of "digit_point d"] by (simp add: encode_ansi_text_def digit_point_def)
qed (simp add: encode_ansi_text_def)

lemma point_bytes:
  assumes "d < 36"
  shows "\<not> is_c_space (of_nat (digit_point d))" "(of_nat (digit_point d) :: byte) \<noteq> 0x2D"
    "(of_nat (digit_point d) :: byte) \<noteq> 0x2B" "d < 33 \<Longrightarrow> lower_byte (of_nat (digit_point d)) \<noteq> 0x78"
proof -
  have u: "uint (of_nat (digit_point d) :: byte) = int (digit_point d)"
    using assms by (simp add: uint_nat unat_of_nat digit_point_def)
  have ne: "(of_nat (digit_point d) :: byte) \<noteq> k" if "uint k \<noteq> int (digit_point d)" for k
    using u that by metis
  show "\<not> is_c_space (of_nat (digit_point d))"
    unfolding is_c_space_def u using assms by (auto simp: SCANF_SPACE_def digit_point_def)
  show "(of_nat (digit_point d) :: byte) \<noteq> 0x2D" "(of_nat (digit_point d) :: byte) \<noteq> 0x2B"
    by (rule ne, simp add: digit_point_def)+
  show "lower_byte (of_nat (digit_point d)) \<noteq> 0x78" if "d < 33"
    unfolding lower_byte_digit [OF assms] by (rule ne) (use that in \<open>simp add: digit_point_def\<close>)
qed

lemma parse_number:
  assumes "ds \<noteq> []" "\<forall>d\<in>set ds. d < radix" "2 \<le> radix" "radix \<le> 36"
  shows "parse_c_integer ((if neg then [0x2D] else []) @ map (of_nat \<circ> digit_point) ds) (int radix) 0 =
    ((if neg then - 1 else 1) * foldl (\<lambda>a d. a * int radix + int d) 0 ds, of_bool neg + length ds)"
proof -
  obtain d ds' where ds: "ds = d # ds'" using assms(1) by (cases ds) auto
  have d: "d < 36" using assms ds by auto
  have x: "\<not> (radix = 16 \<and> map lower_byte (take 2 (map (of_nat \<circ> digit_point) ds)) = [0x30, 0x78])"
  proof (cases ds')
    case (Cons e es)
    have "e < 33" if "radix = 16" using assms(2) that ds Cons by auto
    then show ?thesis using point_bytes(4) [of e] by (auto simp: ds Cons)
  qed (simp add: ds)
  have p: "parse_digits (map (of_nat \<circ> digit_point) ds) (int radix) 0 i =
      (foldl (\<lambda>a d. a * int radix + int d) 0 ds, i + length ds)" for i
    using parse_digits_append [OF assms(2,4), of "[]" 0 i] by simp
  have sp: "takeWhile is_c_space ((if neg then [0x2D] else []) @ map (of_nat \<circ> digit_point) ds) = []"
    using point_bytes(1) [OF d] by (simp add: ds is_c_space_def SCANF_SPACE_def)
  have s: "(take 1 (map (of_nat \<circ> digit_point) ds) :: byte list) \<noteq> [0x2D]"
      "(take 1 (map (of_nat \<circ> digit_point) ds) :: byte list) \<noteq> [0x2B]"
    using point_bytes(2,3) [OF d] by (simp_all add: ds)
  define t where "t = map (of_nat \<circ> digit_point :: nat \<Rightarrow> byte) ds"
  have c: "\<not> is_c_space 45" by (simp add: is_c_space_def SCANF_SPACE_def)
  define r where "r = int radix"
  have r0: "r \<noteq> 0" using assms(3) by (simp add: r_def)
  have h: "r = 16 \<Longrightarrow> map lower_byte (take 2 t) \<noteq> [0x30, 0x78]" using x by (simp add: t_def r_def)
  note p = p [folded t_def r_def] and s = s [folded t_def]
  have p16: "parse_digits t 16 0 i = (foldl (\<lambda>a d. a * 16 + int d) 0 ds, i + length ds)" if "r = 16" for i
    using p [of i] that by simp
  have "parse_c_integer ((if neg then [0x2D] else []) @ t) r 0 =
      ((if neg then - 1 else 1) * foldl (\<lambda>a d. a * r + int d) 0 ds, of_bool neg + length ds)"
  proof (cases neg)
    case True
    then show ?thesis using c assms(1) r0
      by (cases "r = 16") (simp_all add: h parse_c_integer_def Let_def p p16 cong: if_cong)
  next
    case False
    then show ?thesis using sp [folded t_def] s assms(1) r0
      by (cases "r = 16") (simp_all add: h parse_c_integer_def Let_def p p16 cong: if_cong)
  qed
  then show ?thesis unfolding r_def t_def .
qed

lemma top_bit_set:
  fixes u :: int
  assumes "0 \<le> u" "u < 2 ^ 32"
  shows "u AND 0x80000000 \<noteq> 0 \<longleftrightarrow> 2 ^ 31 \<le> u"
proof -
  have "u AND 2 ^ 31 \<noteq> 0 \<longleftrightarrow> bit u 31" using and_exp_eq_0_iff_not_bit [of u 31] by blast
  also have "\<dots> \<longleftrightarrow> odd (u div 2 ^ 31)" by (simp add: bit_iff_odd)
  also have "\<dots> \<longleftrightarrow> 2 ^ 31 \<le> u"
  proof (cases "2 ^ 31 \<le> u")
    case True
    then have "u div 2 ^ 31 = 1" using assms by (simp add: div_pos_geq)
    then show ?thesis using True by simp
  next
    case False
    then show ?thesis using assms by simp
  qed
  finally show ?thesis by simp
qed

lemma parse_format:
  assumes "2 \<le> radix" "radix \<le> 36"
  shows "parse_c_integer (encode_ansi_text (format_int32 v radix)) radix 0 =
    (if radix = 10 then signed_of 32 v else unsigned_of 32 v, length (format_int32 v radix))"
proof -
  define u where "u = v mod 2 ^ 32"
  have mask: "v AND 0xFFFFFFFF = u" using and_mask_eq_unsigned [of v 32] by (simp add: u_def unsigned_of_def)
  define neg where "neg = (radix = 10 \<and> u AND 0x80000000 \<noteq> 0)"
  have u: "0 \<le> u" "u < 2 ^ 32" by (simp_all add: u_def)
  have neg: "neg \<longleftrightarrow> radix = 10 \<and> 2 ^ 31 \<le> u"
    using u by (simp add: neg_def top_bit_set)
  define w where "w = nat (if neg then 0x100000000 - u else u)"
  obtain ds where ds: "digits_of (nat radix) w [] = map digit_point ds" "ds \<noteq> []" "\<forall>d\<in>set ds. d < nat radix"
      "foldl (\<lambda>a d. a * int (nat radix) + int d) 0 ds = int w"
    using digits_of_shape [of "nat radix" w "[]"] assms(1) by (auto simp: le_nat_iff)
  have f: "format_int32 v radix = (if neg then [0x2D] else []) @ map digit_point ds"
    using assms ds(1) by (simp add: format_int32_def mask Let_def neg_def w_def)
  have "\<forall>d\<in>set ds. d < 36" using ds(3) assms by force
  then have e: "encode_ansi_text (format_int32 v radix) = (if neg then [0x2D] else []) @ map (of_nat \<circ> digit_point) ds"
    using encode_points [of ds] point_in_code_page [of "0x2D"] by (simp add: f encode_ansi_text_def)
  have "parse_c_integer (encode_ansi_text (format_int32 v radix)) radix 0 =
      ((if neg then - 1 else 1) * int w, of_bool neg + length ds)"
    unfolding e using parse_number [of ds "nat radix" neg] ds assms by simp
  moreover have "(if neg then - 1 else 1) * int w = (if radix = 10 then signed_of 32 v else unsigned_of 32 v)"
    using u neg by (auto simp: w_def signed_of_def unsigned_of_def u_def Let_def)
  ultimately show ?thesis by (simp add: f)
qed

end
