(* ===== verification/Crt_Laws.thy ===== *)
theory Crt_Laws
  imports Crt_Sort Crt_Numbers
begin

text \<open>
  What the readers and writers of the C runtime do on a memory that keeps the contract \<open>guest_memory\<close>: a terminated
  string reads back up to its end, a write changes the bytes it names and no others, and a program that only reads leaves
  the state as it is.
\<close>

subsection \<open>Programs that only read\<close>

definition engine :: "'e world emu \<Rightarrow> 'e" where "engine s = ms_eng (wd_mem (em_mem s))"

definition put_engine :: "'e \<Rightarrow> 'e world emu \<Rightarrow> 'e world emu" where
  "put_engine e s = s\<lparr>em_mem := with_engine (em_mem s) e\<rparr>"

lemma engine_put [simp]: "engine (put_engine e s) = e"
  by (simp add: engine_def put_engine_def with_engine_def)

lemma put_engine_twice [simp]: "put_engine e (put_engine e' s) = put_engine e s"
  by (simp add: put_engine_def with_engine_def)

text \<open>\<open>unshared\<close>: no address of the range is in a shared mapping that has other views.\<close>

definition unshared :: "'e world emu \<Rightarrow> int \<Rightarrow> int \<Rightarrow> bool" where
  "unshared s a n \<longleftrightarrow> (\<forall>b. a \<le> b \<and> b < a + n \<longrightarrow> shared_views b (em_mem s) = [])"

lemma shared_views_engine [simp]: "shared_views a (with_engine w e) = shared_views a w"
  by (simp add: shared_views_def get_address_map_def with_engine_def cong: option.case_cong if_cong)

lemma put_engine_fields [simp]:
  "em_amd64 (put_engine e s) = em_amd64 s" "ptr_size (put_engine e s) = ptr_size s" "em_cpu (put_engine e s) = em_cpu s"
  "ms_maps (wd_mem (em_mem (put_engine e s))) = ms_maps (wd_mem (em_mem s))"
  "wd_crt (em_mem (put_engine e s)) = wd_crt (em_mem s)" "wd_allocs (em_mem (put_engine e s)) = wd_allocs (em_mem s)"
  "shared_views a (em_mem (put_engine e s)) = shared_views a (em_mem s)" "unshared (put_engine e s) a n = unshared s a n"
  by (simp_all add: put_engine_def unshared_def) (simp_all add: with_engine_def ptr_size_def)

lemma put_engine_self [simp]: "put_engine (engine s) s = s"
  by (simp add: put_engine_def engine_def with_engine_def)

lemma world_ops_simps [simp]:
  "mo_read (world_ops c) (em_mem s) = mo_read (ct_ops c) (engine s)"
  "mo_write (world_ops c) (em_mem s) a bs = map_sum id (with_engine (em_mem s)) (mo_write (ct_ops c) (engine s) a bs)"
  by (simp_all add: world_ops_def engine_def)

definition only_reads :: "('s, 'a) gen \<Rightarrow> bool" where
  "only_reads p \<longleftrightarrow> (\<forall>g s. \<exists>r. play p g s = ([], r, s))"

lemma only_reads_Ret [intro]: "only_reads (Ret x)" and only_reads_Fail [intro]: "only_reads (Fail e)"
  by (simp_all add: only_reads_def)

lemma only_reads_Get [intro]: "(\<And>s. only_reads (f s)) \<Longrightarrow> only_reads (Get f)"
  by (simp add: only_reads_def)

lemma only_reads_gbind [intro]: "only_reads m \<Longrightarrow> (\<And>x. only_reads (f x)) \<Longrightarrow> only_reads (gbind m f)"
  unfolding only_reads_def play_gbind
proof (intro allI)
  fix g s assume m: "\<forall>g s. \<exists>r. play m g s = ([], r, s)" and f: "\<And>x. \<forall>g s. \<exists>r. play (f x) g s = ([], r, s)"
  obtain r where r: "play m g s = ([], r, s)" using m by blast
  show "\<exists>r. (case play m g s of (t, Inl e, s') \<Rightarrow> (t, Inl e, s')
      | (t, Inr x, s') \<Rightarrow> (case play (f x) g s' of (t', r) \<Rightarrow> (t @ t', r))) = ([], r, s)"
  proof (cases r)
    case (Inr x)
    obtain r' where "play (f x) g s = ([], r', s)" using f by blast
    then show ?thesis using r Inr by simp
  qed (simp add: r)
qed

lemma only_reads_if [intro]: "only_reads p \<Longrightarrow> only_reads q \<Longrightarrow> only_reads (if b then p else q)"
  by simp

lemma only_reads_glift [intro]: "only_reads (glift r)"
  by (simp add: only_reads_def)

lemma only_reads_gets [intro]: "only_reads (gets f)"
  by (simp add: only_reads_def)

lemma only_reads_loop [intro]: "only_reads (loop_result r)"
  by (auto simp: loop_result_def split: option.split sum.split)

lemma only_reads_api_read [intro]: "only_reads (api_read c a n)"
  by (simp add: only_reads_def api_read_def mem_read_def split: sum.split)

lemma only_reads_readers [intro]:
  "only_reads (read_cstr c a limit width)" "only_reads (read_mem_string c a width limit)"
  "only_reads (read_wide_string c a limit)" "only_reads world" "only_reads get_max_int"
  unfolding read_cstr_def read_mem_string_def read_wide_string_def world_def get_max_int_def
  by (intro only_reads_Get only_reads_gbind only_reads_loop only_reads_if only_reads_Ret only_reads_Fail only_reads_gets)+

lemma play_read:
  assumes "only_reads m"
  obtains (fail) e where "play m g s = ([], Inl e, s)" "play (gbind m f) g s = ([], Inl e, s)"
  | (ok) x where "play m g s = ([], Inr x, s)" "play (gbind m f) g s = play (f x) g s"
proof -
  obtain r where r: "play m g s = ([], r, s)" using assms by (auto simp: only_reads_def)
  show ?thesis
  proof (cases r)
    case (Inl e)
    then show ?thesis using r that(1) by (simp add: play_gbind)
  next
    case (Inr x)
    then show ?thesis using r that(2) by (simp add: play_gbind split: prod.split)
  qed
qed

lemma play_bind_ok: "play m g s = ([], Inr x, s') \<Longrightarrow> play (gbind m f) g s = play (f x) g s'"
  by (simp add: play_gbind split: prod.split)

subsection \<open>Writes\<close>

definition readable :: "'e crt \<Rightarrow> 'e world emu \<Rightarrow> int \<Rightarrow> int \<Rightarrow> bool" where
  "readable c s a n \<longleftrightarrow> (\<exists>bs. mo_read (ct_ops c) (engine s) a n = Inr bs)"

definition reads :: "'e crt \<Rightarrow> 'e world emu \<Rightarrow> int \<Rightarrow> byte list \<Rightarrow> bool" where
  "reads c s a bs \<longleftrightarrow> mo_read (ct_ops c) (engine s) a (int (length bs)) = Inr bs"

text \<open>\<open>stored c a bs s t\<close>: the state \<open>t\<close> is \<open>s\<close> after a write of \<open>bs\<close> at \<open>a\<close>.\<close>

definition stored :: "'e crt \<Rightarrow> int \<Rightarrow> byte list \<Rightarrow> 'e world emu \<Rightarrow> 'e world emu \<Rightarrow> bool" where
  "stored c a bs s t \<longleftrightarrow> (\<exists>e. mo_write (ct_ops c) (engine s) a bs = Inr e \<and> t = put_engine e s)"

lemma play_mem_write:
  "play (mem_write (world_ops c) a bs) g s =
     (case mo_write (ct_ops c) (engine s) a bs of
        Inr e \<Rightarrow> ([], Inr (), put_engine e s)
      | Inl e \<Rightarrow> ([], Inl (if e = UcError then Access ''write'' a (int (length bs)) else Other e), s))"
  by (simp add: mem_write_def put_engine_def split: sum.split)

lemma play_api_write:
  assumes "shared_views a (em_mem s) = []"
  shows "play (api_write c a bs) g s = play (mem_write (world_ops c) a bs) g s"
  using assms by (simp add: api_write_def world_def gets_def)

locale crt_memory = guest_memory "mo_read (ct_ops c)" "mo_write (ct_ops c)" for c :: "'e crt"
begin

lemma reads_sub: "reads c s a bs \<Longrightarrow> i + k \<le> length bs \<Longrightarrow> reads c s (a + int i) (take k (drop i bs))"
  using rd_sub [of "engine s" a "int (length bs)" bs "int i" "int k"] by (simp add: reads_def min_absorb2)

lemma reads_append: "reads c s a (bs @ cs) \<longleftrightarrow> reads c s a bs \<and> reads c s (a + int (length bs)) cs"
proof
  assume *: "reads c s a (bs @ cs)"
  show "reads c s a bs \<and> reads c s (a + int (length bs)) cs"
    using reads_sub [OF *, of 0 "length bs"] reads_sub [OF *, of "length bs" "length cs"] by simp
next
  assume "reads c s a bs \<and> reads c s (a + int (length bs)) cs"
  then show "reads c s a (bs @ cs)"
    using rd_append [of "int (length bs)" "int (length cs)" "engine s" a bs cs] by (simp add: reads_def)
qed

lemma reads_readable: "reads c s a bs \<Longrightarrow> readable c s a (int (length bs))"
  by (auto simp: reads_def readable_def)

lemma readable_sub: "readable c s a n \<Longrightarrow> 0 \<le> i \<Longrightarrow> 0 \<le> k \<Longrightarrow> i + k \<le> n \<Longrightarrow> readable c s (a + i) k"
  using rd_sub by (fastforce simp: readable_def)

lemma readable_reads: "readable c s a (int n) \<Longrightarrow> \<exists>bs. length bs = n \<and> reads c s a bs"
  using rd_length by (fastforce simp: readable_def reads_def)

lemma mem_store_ok:
  assumes "readable c s a (int (length bs))"
  obtains t where "stored c a bs s t" "\<And>g. play (mem_write (world_ops c) a bs) g s = ([], Inr (), t)"
proof -
  obtain cs where "mo_read (ct_ops c) (engine s) a (int (length bs)) = Inr cs" using assms by (auto simp: readable_def)
  then obtain e where e: "mo_write (ct_ops c) (engine s) a bs = Inr e" using wr_ok by blast
  show ?thesis by (rule that [of "put_engine e s"]) (simp_all add: stored_def e play_mem_write)
qed

lemma store_ok:
  assumes "readable c s a (int (length bs))" "shared_views a (em_mem s) = []"
  obtains t where "stored c a bs s t" "\<And>g. play (api_write c a bs) g s = ([], Inr (), t)"
  using mem_store_ok [OF assms(1)] by (metis play_api_write [OF assms(2)])

lemma stored_reads: "stored c a bs s t \<Longrightarrow> reads c t a bs"
  using wr_rd_same by (auto simp: stored_def reads_def)

lemma stored_other:
  "stored c a bs s t \<Longrightarrow> a + int (length bs) \<le> b \<or> b + int (length cs) \<le> a \<Longrightarrow> reads c t b cs \<longleftrightarrow> reads c s b cs"
  using wr_rd_other by (fastforce simp: stored_def reads_def)

lemma stored_fields:
  assumes "stored c a bs s t"
  shows "em_amd64 t = em_amd64 s" "ptr_size t = ptr_size s" "ms_maps (wd_mem (em_mem t)) = ms_maps (wd_mem (em_mem s))"
    "wd_crt (em_mem t) = wd_crt (em_mem s)" "unshared t b n = unshared s b n"
  using assms by (auto simp: stored_def)

end

subsection \<open>Strings\<close>

text \<open>\<open>plain_units\<close>: whole characters of the width, none of them a NUL. \<open>string_at\<close>: such a text with its NUL at an address.\<close>

definition plain_units :: "nat \<Rightarrow> byte list \<Rightarrow> bool" where
  "plain_units width bs \<longleftrightarrow> width dvd length bs
     \<and> (\<forall>i. i * width < length bs \<longrightarrow> take width (drop (i * width) bs) \<noteq> zeros width)"

definition string_at :: "'e crt \<Rightarrow> 'e world emu \<Rightarrow> int \<Rightarrow> nat \<Rightarrow> byte list \<Rightarrow> bool" where
  "string_at c s a width bs \<longleftrightarrow> plain_units width bs \<and> reads c s a (bs @ zeros width)"

lemma length_zeros [simp]: "length (zeros n) = n"
  by (simp add: zeros_def)

lemma zeros_simps [simp]: "zeros (Suc 0) = [0]" "zeros 2 = [0, 0]" "zeros 1 = [0]"
  by (simp_all add: zeros_def numeral_2_eq_2)

lemma plain_bytes: "plain_units 1 bs \<longleftrightarrow> 0 \<notin> set bs"
proof -
  have "take 1 (drop i bs) = [bs ! i]" if "i < length bs" for i
    using that by (simp add: take_Suc hd_drop_conv_nth)
  then show ?thesis by (auto simp: plain_units_def in_set_conv_nth)
qed

lemma plain_append_bytes: "plain_units 1 (bs @ cs) \<longleftrightarrow> plain_units 1 bs \<and> plain_units 1 cs"
  unfolding plain_bytes by auto

context crt_memory
begin

lemma read_chars_at:
  assumes "0 < width" "plain_units width bs" "reads c s a (bs @ zeros width)"
    "width dvd k" "k \<le> length bs" "limit = 0 \<or> k \<le> limit * width"
  shows "read_chars (mo_read (ct_ops c) (engine s)) a width limit (take k bs) =
    Some (Inr (if limit = 0 then bs else take (limit * width) bs))"
  using assms(4-6)
proof (induction "length bs - k" arbitrary: k rule: less_induct)
  case less
  have l: "length (take k bs) = k" using less.prems(2) by simp
  show ?case
  proof (cases "limit \<noteq> 0 \<and> limit * width \<le> k")
    case True
    then have "k = limit * width" using less.prems(3) by auto
    then show ?thesis using True l by (subst read_chars.simps) simp
  next
    case go: False
    have r: "mo_read (ct_ops c) (engine s) (a + int k) (int width) = Inr (take width (drop k (bs @ zeros width)))"
    proof -
      have "length (take width (drop k (bs @ zeros width))) = width" using less.prems(2) by simp
      then show ?thesis using reads_sub [OF assms(3), of k width] less.prems(2) unfolding reads_def by simp
    qed
    show ?thesis
    proof (cases "k = length bs")
      case True
      then have "\<not> (limit \<noteq> 0 \<and> limit * width < length bs)" using go by auto
      then show ?thesis using go l r True by (subst read_chars.simps) (auto simp: zeros_def)
    next
      case False
      then have k: "k < length bs" using less.prems(2) by simp
      have "width dvd length bs" using assms(2) by (simp add: plain_units_def)
      then have w: "k + width \<le> length bs"
        using k less.prems(1) by (metis dvd_diff_nat dvd_imp_le le_add_diff_inverse2 less_imp_le nat_add_left_cancel_le
            add.commute zero_less_diff)
      obtain i where i: "k = i * width" using less.prems(1) by (metis dvdE mult.commute)
      have ne: "take width (drop k bs) \<noteq> replicate width 0"
        using assms(2) k unfolding plain_units_def i zeros_def by blast
      have nxt: "limit = 0 \<or> k + width \<le> limit * width"
      proof (cases "limit = 0")
        case False
        then have "i * width < limit * width" using go i by auto
        then have "i < limit" by simp
        then show ?thesis unfolding i by (metis Suc_leI add.commute mult_Suc mult_le_mono1)
      qed simp
      have step: "read_chars (mo_read (ct_ops c) (engine s)) a width limit (take (k + width) bs) =
          Some (Inr (if limit = 0 then bs else take (limit * width) bs))"
        using less.hyps [of "k + width"] w k less.prems(1) nxt assms(1) by simp
      have "take width (drop k (bs @ zeros width)) = take width (drop k bs)" using w by simp
      then show ?thesis using go l r ne step by (subst read_chars.simps) (auto simp: take_add)
    qed
  qed
qed

lemma play_read_cstr:
  assumes "string_at c s a width bs" "0 < width"
  shows "play (read_cstr c a limit width) g s = ([], Inr (if limit = 0 then bs else take (limit * width) bs), s)"
  using read_chars_at [of width bs s a 0 limit] assms
  by (simp add: string_at_def read_cstr_def loop_result_def)

end

end
