(* ===== verification/Crt_Paths.thy ===== *)
theory Crt_Paths
  imports Crt_Convert
begin

text \<open>
  Paths in the C runtime (\<^verbatim>\<open>speakeasy/winenv/api/usermode/msvcrt.py\<close>): a path is made of a drive, a
  directory, a name and an extension, and split into them. A null pointer for a part reads as \<open>None\<close>.
\<close>

definition pt_slash :: nat where "pt_slash = 0x2F"
definition pt_backslash :: nat where "pt_backslash = 0x5C"
definition pt_colon :: nat where "pt_colon = 0x3A"
definition pt_dot :: nat where "pt_dot = 0x2E"

definition is_slash :: "nat \<Rightarrow> bool" where "is_slash p \<longleftrightarrow> p = pt_backslash \<or> p = pt_slash"

definition get_made_path :: "utext \<Rightarrow> utext \<Rightarrow> utext \<Rightarrow> utext \<Rightarrow> utext" where
  "get_made_path drive directory fname ext =
     (if drive = [] then [] else [hd drive, pt_colon])
     @ (if directory = [] then [] else if is_slash (last directory) then directory else directory @ [pt_backslash])
     @ fname
     @ (if ext = [] then [] else if hd ext = pt_dot then ext else pt_dot # ext)"

text \<open>The number of elements up to the last one with \<open>P\<close>, or 0.\<close>

definition after_last :: "('a \<Rightarrow> bool) \<Rightarrow> 'a list \<Rightarrow> nat" where
  "after_last P xs = length (dropWhile (\<lambda>x. \<not> P x) (rev xs))"

definition get_split_path :: "utext \<Rightarrow> utext \<times> utext \<times> utext \<times> utext" where
  "get_split_path path =
     (let drive = (if take 1 (drop 1 path) = [pt_colon] then take 2 path else []);
          rest = drop (length drive) path;
          end' = after_last is_slash rest;
          directory = take end' rest; name = drop end' rest;
          dot = after_last (\<lambda>p. p = pt_dot) name
      in if dot = 0 then (drive, directory, name, [])
         else (drive, directory, take (dot - 1) name, drop (dot - 1) name))"

subsection \<open>Parts in guest memory\<close>

definition read_path_part :: "'e crt \<Rightarrow> int \<Rightarrow> nat \<Rightarrow> ('e, utext option) cprog" where
  "read_path_part c addr width =
     (if addr = 0 then Ret None
      else gbind (read_cstr c addr 0 width) (\<lambda>bs.
        Ret (Some (if width = 1 then decode_ansi bs else decode_surrogatepass bs))))"

definition write_path_part :: "'e crt \<Rightarrow> int \<Rightarrow> utext \<Rightarrow> nat \<Rightarrow> ('e, unit) cprog" where
  "write_path_part c addr s width =
     api_write c addr (if width = 1 then encode_ansi_text (s @ [0]) else encode_surrogatepass (s @ [0]))"

definition or_empty :: "utext option \<Rightarrow> utext" where "or_empty p = (case p of None \<Rightarrow> [] | Some s \<Rightarrow> s)"

fun read_parts :: "'e crt \<Rightarrow> int list \<Rightarrow> nat \<Rightarrow> ('e, utext list) cprog" where
  "read_parts c [] width = Ret []"
| "read_parts c (a # as) width =
     gbind (read_path_part c a width) (\<lambda>p. gbind (read_parts c as width) (\<lambda>ps. Ret (or_empty p # ps)))"

definition make_path :: "'e crt \<Rightarrow> int \<Rightarrow> int option \<Rightarrow> int list \<Rightarrow> nat \<Rightarrow> ('e, int) cprog" where
  "make_path c path n parts width =
     (if path = 0 \<or> n = Some 0 then Ret EINVAL
      else gbind (read_parts c parts width) (\<lambda>ps.
        case ps of
          [drive, directory, fname, ext] \<Rightarrow>
            (let made = get_made_path drive directory fname ext
             in if (case n of None \<Rightarrow> False | Some k \<Rightarrow> k \<le> int (length made))
                then gbind (write_path_part c path [] width) (\<lambda>_. Ret ERANGE)
                else gbind (write_path_part c path made width) (\<lambda>_. Ret 0))
        | _ \<Rightarrow> Fail (Other TypeError)))"

definition path_parts :: "utext \<Rightarrow> utext list" where
  "path_parts s = (case get_split_path s of (drive, directory, fname, ext) \<Rightarrow> [drive, directory, fname, ext])"

fun write_parts :: "'e crt \<Rightarrow> int list \<Rightarrow> utext list \<Rightarrow> nat \<Rightarrow> ('e, unit) cprog" where
  "write_parts c (a # as) (p # ps) width =
     gbind (if a \<noteq> 0 then write_path_part c a p width else Ret ()) (\<lambda>_. write_parts c as ps width)"
| "write_parts c _ _ width = Ret ()"

definition split_path :: "'e crt \<Rightarrow> int \<Rightarrow> int list \<Rightarrow> nat \<Rightarrow> ('e, unit) cprog" where
  "split_path c path outputs width =
     gbind (read_path_part c path width) (\<lambda>p. write_parts c outputs (path_parts (or_empty p)) width)"

text \<open>Addresses and sizes alternate in the arguments.\<close>

fun buffers_of :: "int list \<Rightarrow> (int \<times> int) list" where
  "buffers_of (a # n # rest) = (a, n) # buffers_of rest"
| "buffers_of _ = []"

definition split_path_s :: "'e crt \<Rightarrow> int \<Rightarrow> int list \<Rightarrow> nat \<Rightarrow> ('e, int) cprog" where
  "split_path_s c path outputs width =
     (let buffers = buffers_of outputs;
          cleared = (\<lambda>rv. gbind (gmapM (\<lambda>(a, n). if a \<noteq> 0 \<and> n \<noteq> 0 then write_path_part c a [] width else Ret ()) buffers)
                            (\<lambda>_. Ret rv))
      in gbind (read_path_part c path width) (\<lambda>p.
           case p of
             None \<Rightarrow> cleared EINVAL
           | Some s \<Rightarrow>
               (if \<exists>b\<in>set buffers. (fst b \<noteq> 0) \<noteq> (snd b \<noteq> 0) then cleared EINVAL
                else if \<exists>x\<in>set (zip buffers (path_parts s)). fst (fst x) \<noteq> 0 \<and> snd (fst x) \<le> int (length (snd x))
                then cleared ERANGE
                else gbind (write_parts c (map fst buffers) (path_parts s) width) (\<lambda>_. Ret 0))))"

definition makepath :: "'e crt \<Rightarrow> int \<Rightarrow> int list \<Rightarrow> ('e, unit) cprog" where
  "makepath c path parts = gbind (make_path c path None parts 1) (\<lambda>_. Ret ())"

definition wmakepath :: "'e crt \<Rightarrow> int \<Rightarrow> int list \<Rightarrow> ('e, unit) cprog" where
  "wmakepath c path parts = gbind (make_path c path None parts 2) (\<lambda>_. Ret ())"

definition makepath_s :: "'e crt \<Rightarrow> int \<Rightarrow> int \<Rightarrow> int list \<Rightarrow> ('e, int) cprog" where
  "makepath_s c path n parts = make_path c path (Some n) parts 1"

definition wmakepath_s :: "'e crt \<Rightarrow> int \<Rightarrow> int \<Rightarrow> int list \<Rightarrow> ('e, int) cprog" where
  "wmakepath_s c path n parts = make_path c path (Some n) parts 2"

definition splitpath :: "'e crt \<Rightarrow> int \<Rightarrow> int list \<Rightarrow> ('e, unit) cprog" where
  "splitpath c path outputs = split_path c path outputs 1"

definition wsplitpath :: "'e crt \<Rightarrow> int \<Rightarrow> int list \<Rightarrow> ('e, unit) cprog" where
  "wsplitpath c path outputs = split_path c path outputs 2"

definition splitpath_s :: "'e crt \<Rightarrow> int \<Rightarrow> int list \<Rightarrow> ('e, int) cprog" where
  "splitpath_s c path outputs = split_path_s c path outputs 1"

definition wsplitpath_s :: "'e crt \<Rightarrow> int \<Rightarrow> int list \<Rightarrow> ('e, int) cprog" where
  "wsplitpath_s c path outputs = split_path_s c path outputs 2"

subsection \<open>The parts of a path\<close>

lemma after_last_0: "\<forall>x\<in>set xs. \<not> P x \<Longrightarrow> after_last P xs = 0"
  by (simp add: after_last_def)

lemma after_last_at:
  assumes "P x" "\<forall>z\<in>set zs. \<not> P z"
  shows "after_last P (ys @ x # zs) = Suc (length ys)"
proof -
  have "dropWhile (\<lambda>x. \<not> P x) (rev zs @ x # rev ys) = x # rev ys"
    using assms by (subst dropWhile_append2) auto
  then show ?thesis by (simp add: after_last_def)
qed

lemma after_last_cases:
  obtains (no) "\<forall>x\<in>set xs. \<not> P x" "after_last P xs = 0"
  | (at) ys x zs where "xs = ys @ x # zs" "P x" "\<forall>z\<in>set zs. \<not> P z" "after_last P xs = Suc (length ys)"
proof (cases "\<exists>x\<in>set xs. P x")
  case True
  then obtain ys x zs where x: "xs = ys @ x # zs" "P x" "\<forall>z\<in>set zs. \<not> P z"
    using split_list_last_prop [of xs P] by auto
  show ?thesis by (rule that(2) [OF x]) (simp add: x(1) after_last_at [OF x(2,3)])
next
  case False
  then have "\<forall>x\<in>set xs. \<not> P x" by simp
  then show ?thesis using that(1) after_last_0 [of xs P] by simp
qed

text \<open>The directory ends with a separator or is empty, and the rest of the path has no separator. The extension starts
  with the last dot of the rest.\<close>

lemma split_directory:
  obtains directory name where "take (after_last is_slash s) s = directory" "drop (after_last is_slash s) s = name"
    "directory = [] \<or> is_slash (last directory)" "\<forall>p\<in>set name. \<not> is_slash p" "s = directory @ name"
proof (rule after_last_cases [of s is_slash])
  assume "\<forall>x\<in>set s. \<not> is_slash x" "after_last is_slash s = 0"
  then show ?thesis using that [of "[]" s] by simp
next
  fix ys x zs assume "s = ys @ x # zs" "is_slash x" "\<forall>z\<in>set zs. \<not> is_slash z" "after_last is_slash s = Suc (length ys)"
  then show ?thesis using that [of "ys @ [x]" zs] by simp
qed

lemma split_extension:
  obtains fname ext where
    "(let dot = after_last (\<lambda>p. p = pt_dot) name in if dot = 0 then (name, []) else (take (dot - 1) name, drop (dot - 1) name))
       = (fname, ext)"
    "ext = [] \<or> (\<exists>e. ext = pt_dot # e \<and> pt_dot \<notin> set e)" "name = fname @ ext" "ext = [] \<Longrightarrow> pt_dot \<notin> set name"
proof (rule after_last_cases [of name "\<lambda>p. p = pt_dot"])
  assume "\<forall>p\<in>set name. p \<noteq> pt_dot" "after_last (\<lambda>p. p = pt_dot) name = 0"
  then show ?thesis using that [of name "[]"] by auto
next
  fix ys x zs assume "name = ys @ x # zs" "x = pt_dot" "\<forall>z\<in>set zs. z \<noteq> pt_dot"
    "after_last (\<lambda>p. p = pt_dot) name = Suc (length ys)"
  then show ?thesis using that [of ys "pt_dot # zs"] by auto
qed

lemma split_path_parts:
  assumes "get_split_path path = (drive, directory, fname, ext)"
  shows "path = drive @ directory @ fname @ ext" "drive = [] \<or> (\<exists>x. drive = [x, pt_colon])"
    "directory = [] \<or> is_slash (last directory)" "\<forall>p\<in>set (fname @ ext). \<not> is_slash p"
    "ext = [] \<or> (\<exists>e. ext = pt_dot # e \<and> pt_dot \<notin> set e)"
proof -
  define rest where "rest = drop (length drive) path"
  obtain dir name where d: "take (after_last is_slash rest) rest = dir" "drop (after_last is_slash rest) rest = name"
      "dir = [] \<or> is_slash (last dir)" "\<forall>p\<in>set name. \<not> is_slash p" "rest = dir @ name"
    by (rule split_directory)
  obtain f e where e: "(let dot = after_last (\<lambda>p. p = pt_dot) name in if dot = 0 then (name, []) else (take (dot - 1) name, drop (dot - 1) name))
       = (f, e)"
    "e = [] \<or> (\<exists>e'. e = pt_dot # e' \<and> pt_dot \<notin> set e')" "name = f @ e"
    by (rule split_extension)
  have drive: "drive = (if take 1 (drop 1 path) = [pt_colon] then take 2 path else [])"
    using assms by (auto simp: get_split_path_def Let_def split: if_splits)
  then have "directory = dir" "fname = f" "ext = e"
    using assms d(1,2) e(1) by (auto simp: get_split_path_def Let_def rest_def split: if_splits)
  moreover have "path = drive @ rest"
    by (cases "length path < 2") (simp_all add: rest_def drive not_less min_absorb2 del: One_nat_def)
  moreover have "drive = [] \<or> (\<exists>x. drive = [x, pt_colon])"
  proof (cases path)
    case (Cons a p)
    then show ?thesis using drive by (cases p) auto
  qed (simp add: drive)
  ultimately show "path = drive @ directory @ fname @ ext" "drive = [] \<or> (\<exists>x. drive = [x, pt_colon])"
    "directory = [] \<or> is_slash (last directory)" "\<forall>p\<in>set (fname @ ext). \<not> is_slash p"
    "ext = [] \<or> (\<exists>e. ext = pt_dot # e \<and> pt_dot \<notin> set e)" using d e by auto
qed

lemma made_of_split:
  assumes "get_split_path path = (drive, directory, fname, ext)"
  shows "get_made_path drive directory fname ext = path"
  using split_path_parts [OF assms] by (auto simp: get_made_path_def)

end
