(* ===== verification/Crt_Bounds.thy ===== *)
theory Crt_Bounds
  imports Crt_Properties
begin

text \<open>
  The bounds of the secure functions of the C runtime: \<open>inside c a n p\<close> says that \<open>p\<close> changes no byte outside the \<open>n\<close>
  bytes at \<open>a\<close>, whatever memory, state and guest it runs with. The rules follow the structure of the programs.
\<close>

definition inside :: "'e crt \<Rightarrow> int \<Rightarrow> int \<Rightarrow> ('e, 'a) cprog \<Rightarrow> bool" where
  "inside c a n p \<longleftrightarrow> (\<forall>g s. unshared s a n \<longrightarrow>
     (\<exists>tr r e. play p g s = (tr, r, put_engine e s) \<and>
       (\<forall>b k. b + k \<le> a \<or> a + n \<le> b \<longrightarrow> mo_read (ct_ops c) e b k = mo_read (ct_ops c) (engine s) b k)))"

named_theorems inside_intros \<open>rules for programs that write in a range\<close>

lemma inside_only_reads: "only_reads p \<Longrightarrow> inside c a n p"
  unfolding inside_def
proof (intro allI impI)
  fix g :: "'a world emu guest" and s :: "'a world emu"
  assume "only_reads p"
  then obtain r where "play p g s = ([], r, put_engine (engine s) s)" by (auto simp: only_reads_def)
  then show "\<exists>tr r e. play p g s = (tr, r, put_engine e s) \<and>
      (\<forall>b k. b + k \<le> a \<or> a + n \<le> b \<longrightarrow> mo_read (ct_ops c) e b k = mo_read (ct_ops c) (engine s) b k)" by blast
qed

lemma inside_Ret [inside_intros]: "inside c a n (Ret x)"
  by (rule inside_only_reads) (rule only_reads_Ret)

lemma inside_if [inside_intros]: "(b \<Longrightarrow> inside c a n p) \<Longrightarrow> (\<not> b \<Longrightarrow> inside c a n q) \<Longrightarrow> inside c a n (if b then p else q)"
  by simp

text \<open>\<open>gives P m\<close>: a result of \<open>m\<close> has \<open>P\<close>.\<close>

definition gives :: "('a \<Rightarrow> bool) \<Rightarrow> ('s, 'a) gen \<Rightarrow> bool" where
  "gives P m \<longleftrightarrow> (\<forall>g s tr x t. play m g s = (tr, Inr x, t) \<longrightarrow> P x)"

lemma gives_any: "gives (\<lambda>_. True) m"
  by (simp add: gives_def)

lemma gives_Ret: "P x \<Longrightarrow> gives P (Ret x)"
  by (simp add: gives_def)

lemma gives_if: "(b \<Longrightarrow> gives P p) \<Longrightarrow> (\<not> b \<Longrightarrow> gives P q) \<Longrightarrow> gives P (if b then p else q)"
  by simp

lemma gives_gbind: "(\<And>x. gives P (f x)) \<Longrightarrow> gives P (gbind m f)"
  unfolding gives_def play_gbind by (auto split: prod.splits sum.splits) blast

lemma inside_gbind_gives:
  assumes "inside c a n m" "gives P m" "\<And>x. P x \<Longrightarrow> inside c a n (f x)"
  shows "inside c a n (gbind m f)"
  unfolding inside_def
proof (intro allI impI)
  fix g :: "'a world emu guest" and s :: "'a world emu"
  assume u: "unshared s a n"
  let ?keeps = "\<lambda>e s. \<forall>b k. b + k \<le> a \<or> a + n \<le> b \<longrightarrow> mo_read (ct_ops c) e b k = mo_read (ct_ops c) (engine s) b k"
  obtain tr r e where m: "play m g s = (tr, r, put_engine e s)" "?keeps e s" using assms(1) u unfolding inside_def by blast
  show "\<exists>tr r e. play (gbind m f) g s = (tr, r, put_engine e s) \<and> ?keeps e s"
  proof (cases r)
    case (Inl err)
    then show ?thesis using m by (auto simp: play_gbind)
  next
    case (Inr x)
    then have "P x" using assms(2) m(1) unfolding gives_def by blast
    then have "inside c a n (f x)" by (rule assms(3))
    moreover have "unshared (put_engine e s) a n" using u by simp
    ultimately obtain tr' r' e' where f: "play (f x) g (put_engine e s) = (tr', r', put_engine e' (put_engine e s))"
        "?keeps e' (put_engine e s)" unfolding inside_def by blast
    then have "play (gbind m f) g s = (tr @ tr', r', put_engine e' s)" using m(1) Inr by (simp add: play_gbind)
    moreover have "?keeps e' s" using m(2) f(2) by simp
    ultimately show ?thesis by blast
  qed
qed

lemma inside_gbind [inside_intros]: "inside c a n m \<Longrightarrow> (\<And>x. inside c a n (f x)) \<Longrightarrow> inside c a n (gbind m f)"
  by (rule inside_gbind_gives [OF _ gives_any])

lemma inside_readers [inside_intros]:
  "inside c a n (api_read c b k)" "inside c a n (read_cstr c b limit width)" "inside c a n (read_wide_string c b limit)"
  "inside c a n get_max_int" "inside c a n world"
  by (rule inside_only_reads, rule only_reads_readers only_reads_api_read)+

lemma read_chars_dvd:
  assumes "read_chars rd b width limit data = Some r"
  shows "(\<forall>x bs. rd x (int width) = Inr bs \<longrightarrow> length bs = width) \<longrightarrow> width dvd length data \<longrightarrow>
    (\<forall>bs. r = Inr bs \<longrightarrow> width dvd length bs)"
proof (rule read_chars.raw_induct [OF _ assms, rotated], intro impI allI)
  fix self :: "(int \<Rightarrow> int \<Rightarrow> byte list result) \<Rightarrow> int \<Rightarrow> nat \<Rightarrow> nat \<Rightarrow> byte list \<Rightarrow> (fault + byte list) option"
    and rd b width limit data r bs
  assume IH: "\<And>rd b width limit data r. self rd b width limit data = Some r \<Longrightarrow>
      (\<forall>x bs. rd x (int width) = Inr bs \<longrightarrow> length bs = width) \<longrightarrow> width dvd length data \<longrightarrow>
      (\<forall>bs. r = Inr bs \<longrightarrow> width dvd length bs)"
    and body: "(if limit \<noteq> 0 \<and> limit * width \<le> length data then Some (Inr data)
      else case rd (b + int (length data)) (int width) of
             Inl e \<Rightarrow> Some (Inl (read_fault e (b + int (length data)) (int width)))
           | Inr char \<Rightarrow> if char = replicate width 0 then Some (Inr data) else self rd b width limit (data @ char)) = Some r"
    and rd: "\<forall>x bs. rd x (int width) = Inr bs \<longrightarrow> length bs = width" and d: "width dvd length data" and r: "r = Inr bs"
  show "width dvd length bs"
  proof (cases "limit \<noteq> 0 \<and> limit * width \<le> length data")
    case True
    then show ?thesis using body r d by simp
  next
    case False
    then obtain char where char: "rd (b + int (length data)) (int width) = Inr char"
        "char = replicate width 0 \<and> bs = data \<or> self rd b width limit (data @ char) = Some (Inr bs)"
      using body r by (auto split: sum.splits if_splits)
    then have "width dvd length (data @ char)" using rd d by simp
    then show ?thesis using char(2) IH [of rd b width limit "data @ char" "Inr bs"] rd d by auto
  qed
qed

context crt_memory
begin

lemma inside_write [inside_intros]:
  assumes "a \<le> b" "b < a + n" "b + int (length bs) \<le> a + n"
  shows "inside c a n (api_write c b bs)"
  unfolding inside_def
proof (intro allI impI)
  fix g :: "'e world emu guest" and s :: "'e world emu"
  assume "unshared s a n"
  then have w: "play (api_write c b bs) g s = play (mem_write (world_ops c) b bs) g s"
    using assms(1,2) by (intro play_api_write) (simp add: unshared_def)
  show "\<exists>tr r e. play (api_write c b bs) g s = (tr, r, put_engine e s) \<and>
      (\<forall>x k. x + k \<le> a \<or> a + n \<le> x \<longrightarrow> mo_read (ct_ops c) e x k = mo_read (ct_ops c) (engine s) x k)"
  proof (cases "mo_write (ct_ops c) (engine s) b bs")
    case (Inl err)
    then have "play (api_write c b bs) g s =
        ([], Inl (if err = UcError then Access ''write'' b (int (length bs)) else Other err), put_engine (engine s) s)"
      by (simp add: w play_mem_write)
    then show ?thesis by blast
  next
    case (Inr e)
    then have "play (api_write c b bs) g s = ([], Inr (), put_engine e s)" by (simp add: w play_mem_write)
    moreover have "mo_read (ct_ops c) e x k = mo_read (ct_ops c) (engine s) x k" if "x + k \<le> a \<or> a + n \<le> x" for x k
      using wr_rd_other [OF Inr, of x k] assms that by auto
    ultimately show ?thesis by blast
  qed
qed

lemma gives_api_read: "gives (\<lambda>bs. length bs = nat k) (api_read c b k)"
  unfolding gives_def api_read_def mem_read_def by (auto split: sum.splits dest: rd_length)

lemma gives_read_cstr: "gives (\<lambda>bs. width dvd length bs) (read_cstr c b limit width)"
proof -
  have "mo_read (ct_ops c) e x (int width) = Inr bs \<Longrightarrow> length bs = width" for e x bs using rd_length by fastforce
  then show ?thesis unfolding gives_def read_cstr_def loop_result_def
    by (auto split: option.splits sum.splits dest!: read_chars_dvd)
qed

end

text \<open>The secure functions write in their buffer, which has \<open>n\<close> characters.\<close>

context crt_memory
begin

lemma strcpy_s_inside: "0 < n \<Longrightarrow> inside c dest n (strcpy_s c dest n src)"
  unfolding strcpy_s_def by (intro inside_intros) auto

lemma strcat_s_inside: "0 < n \<Longrightarrow> inside c dest n (strcat_s c dest n src)"
  unfolding strcat_s_def by (intro inside_intros) auto

lemma memcpy_s_inside: "0 < n \<Longrightarrow> inside c dest n (memcpy_s c dest n src k)"
  unfolding memcpy_s_def by (intro inside_intros inside_gbind_gives [OF _ gives_api_read]) auto

lemma memmove_s_inside: "0 < n \<Longrightarrow> inside c dest n (memmove_s c dest n src k)"
  unfolding memmove_s_def by (intro inside_intros inside_gbind_gives [OF _ gives_api_read]) auto

text \<open>Both loops of the bounded copies write \<open>k\<close> characters and a NUL, where \<open>k\<close> is less than what is left.\<close>

lemma inside_prefix:
  assumes "0 < w" "0 \<le> k" "k < n" "dest \<le> b" "b + n * int w \<le> dest + m"
  shows "inside c dest m (api_write c b (take (nat k * w) bs @ zeros w))"
proof (rule inside_write)
  have "k * int w + int w \<le> n * int w"
    using assms(3) mult_right_mono [of "k + 1" n "int w"] by (simp add: distrib_right)
  moreover have "int (length (take (nat k * w) bs @ zeros w)) \<le> k * int w + int w"
  proof -
    have "int (length (take (nat k * w) bs)) \<le> int (nat k * w)" by (subst of_nat_le_iff) simp
    then show ?thesis using assms(2) by simp
  qed
  moreover have "0 < n * int w" using assms(1-3) by simp
  ultimately show "b + int (length (take (nat k * w) bs @ zeros w)) \<le> dest + m" "b < dest + m"
    using assms(5) by linarith+
qed (use assms(4) in simp)

lemma gives_max_int: "gives (\<lambda>m. 0 \<le> m) get_max_int"
  by (simp add: gives_def get_max_int_def)

lemma inside_copied:
  "0 < w \<Longrightarrow> 0 \<le> k \<Longrightarrow> k < n \<Longrightarrow> dest \<le> b \<Longrightarrow> b + n * int w \<le> dest + m \<Longrightarrow>
    inside c dest m (gbind (api_write c b (take (nat k * w) bs @ zeros w)) (\<lambda>_. Ret v))"
  by (rule inside_gbind [OF inside_prefix inside_Ret])

lemma inside_copied_here:
  "0 < w \<Longrightarrow> 0 \<le> k \<Longrightarrow> k < n \<Longrightarrow>
    inside c dest (n * int w) (gbind (api_write c dest (take (nat k * w) bs @ zeros w)) (\<lambda>_. Ret v))"
  by (rule inside_copied [of w k n]) simp_all

lemma inside_cleared: "0 < w \<Longrightarrow> int w \<le> m \<Longrightarrow> inside c dest m (gbind (api_write c dest (zeros w)) (\<lambda>_. Ret v))"
  by (rule inside_gbind [OF inside_write inside_Ret]) simp_all

lemma one_character:
  assumes "0 < n" "0 < w"
  shows "int w \<le> n * int w"
  using assms mult_right_mono [of 1 n "int w"] by simp

lemma inside_truncated:
  assumes "0 < n" "0 < w"
  shows "inside c dest (n * int w) (gbind (api_write c dest (zeros w @ drop w (take (nat n * w) data))) (\<lambda>_. Ret v))"
proof (rule inside_gbind [OF inside_write inside_Ret])
  have "length (zeros w @ drop w (take (nat n * w) data)) \<le> max w (nat n * w)" by auto
  also have "\<dots> = nat n * w" using assms by (simp add: max_def)
  finally have "int (length (zeros w @ drop w (take (nat n * w) data))) \<le> int (nat n * w)" by (rule of_nat_mono)
  then show "dest + int (length (zeros w @ drop w (take (nat n * w) data))) \<le> dest + n * int w"
    using assms(1) by simp
qed (use one_character [OF assms] assms in simp_all)

lemma copy_n_secure_inside:
  assumes "0 < n" "0 < w"
  shows "inside c dest (n * int w) (copy_n_secure c dest n src k w)"
  unfolding copy_n_secure_def Let_def
proof (rule inside_gbind_gives [OF _ gives_max_int])
  fix max_int :: int assume m: "0 \<le> max_int"
  let ?k = "k AND max_int"
  have k: "0 \<le> ?k" using m by simp
  let ?body = "\<lambda>data. if min (int (length data div w)) ?k < n
      then gbind (api_write c dest (take (nat (min (int (length data div w)) ?k) * w) data @ zeros w)) (\<lambda>_. Ret 0)
      else if ?k = max_int
      then gbind (api_write c dest (take (nat (n - 1) * w) data @ zeros w)) (\<lambda>_. Ret STRUNCATE)
      else gbind (api_write c dest (zeros w @ drop w (take (nat n * w) data))) (\<lambda>_. Ret ERANGE)"
  have body: "inside c dest (n * int w) (?body data)" for data
    using k assms by (intro inside_if inside_copied_here inside_truncated) simp_all
  have null: "inside c dest (n * int w) (gbind (api_write c dest (zeros w)) (\<lambda>_. Ret EINVAL))"
    by (rule inside_cleared [OF assms(2) one_character [OF assms]])
  have rd: "inside c dest (n * int w) (if w = 1 then read_cstr c src 0 1
      else gbind (read_wide_string c src 0) (\<lambda>s. Ret (encode_surrogatepass s)))"
    by (intro inside_if inside_readers inside_gbind inside_Ret)
  show "inside c dest (n * int w) (if dest = 0 \<or> n = 0 then Ret EINVAL
      else if src = 0 then gbind (api_write c dest (zeros w)) (\<lambda>_. Ret EINVAL)
      else gbind (if w = 1 then read_cstr c src 0 1
                  else gbind (read_wide_string c src 0) (\<lambda>s. Ret (encode_surrogatepass s))) ?body)"
    by (rule inside_if [OF inside_Ret inside_if [OF null inside_gbind [OF rd body]]])
qed (rule inside_readers)

lemma append_n_secure_inside:
  assumes "0 < n" "0 < w"
  shows "inside c dest (n * int w) (append_n_secure c dest n src k w)"
  unfolding append_n_secure_def Let_def
proof (rule inside_gbind [OF inside_readers(4)], rule inside_gbind_gives [OF inside_readers(2) gives_read_cstr],
    rule inside_gbind_gives [where P = "\<lambda>bs. w dvd length bs"])
  fix max_int :: int and s1 s2 :: "byte list" assume d: "w dvd length s1" "w dvd length s2"
  let ?rem = "n - int (length s1 div w)"
  have b: "dest + int (length s1) + ?rem * int w \<le> dest + n * int w"
    using d(1) by (simp add: left_diff_distrib flip: of_nat_mult)
  have s2: "take (nat (int (length s2 div w)) * w) s2 = s2" using d(2) by simp
  show "inside c dest (n * int w) (if ?rem \<le> 0 then Ret EINVAL
      else if int (length s2 div w) < ?rem then gbind (api_write c (dest + int (length s1)) (s2 @ zeros w)) (\<lambda>_. Ret 0)
      else if k = max_int
      then gbind (api_write c (dest + int (length s1)) (take (nat (?rem - 1) * w) s2 @ zeros w)) (\<lambda>_. Ret STRUNCATE)
      else gbind (api_write c dest (zeros w)) (\<lambda>_. Ret ERANGE))"
  proof (intro inside_if inside_Ret)
    assume "int (length s2 div w) < ?rem"
    from inside_copied [OF assms(2) _ this _ b, of s2] s2
    show "inside c dest (n * int w) (gbind (api_write c (dest + int (length s1)) (s2 @ zeros w)) (\<lambda>_. Ret 0))" by simp
  next
    assume "\<not> ?rem \<le> 0"
    then show "inside c dest (n * int w)
        (gbind (api_write c (dest + int (length s1)) (take (nat (?rem - 1) * w) s2 @ zeros w)) (\<lambda>_. Ret STRUNCATE))"
      by (intro inside_copied [OF assms(2) _ _ _ b]) simp_all
  qed (rule inside_cleared [OF assms(2) one_character [OF assms]])
next
  fix max_int :: int
  show "inside c dest (n * int w) (if k = 0 then Ret [] else read_cstr c src (if k = max_int then 0 else nat k) w)"
    by (intro inside_if inside_Ret inside_readers)
  show "gives (\<lambda>bs. w dvd length bs) (if k = 0 then Ret [] else read_cstr c src (if k = max_int then 0 else nat k) w)"
    by (intro gives_if gives_Ret gives_read_cstr) simp
qed

end

text \<open>C9: The secure string functions keep to their buffer: whatever the arguments, the memory and the registers are,
  \<^verbatim>\<open>strcpy_s\<close>, \<^verbatim>\<open>strcat_s\<close>, \<^verbatim>\<open>strncpy_s\<close>,
  \<^verbatim>\<open>wcsncpy_s\<close>, \<^verbatim>\<open>strncat_s\<close>, \<^verbatim>\<open>wcsncat_s\<close>,
  \<^verbatim>\<open>memcpy_s\<close> and \<^verbatim>\<open>memmove_s\<close> with a buffer of \<open>n\<close> characters change no byte
  outside the \<open>n\<close> characters at \<open>dest\<close>, also when they fail or raise. The buffer must not be a shared mapping.\<close>

theorem secure_functions_stay_inside:
  assumes "crt_memory c" "0 < n"
  shows "inside c dest n (strcpy_s c dest n src) \<and> inside c dest n (strcat_s c dest n src)
    \<and> inside c dest n (strncpy_s c dest n src k) \<and> inside c dest (2 * n) (wcsncpy_s c dest n src k)
    \<and> inside c dest n (strncat_s c dest n src k) \<and> inside c dest (2 * n) (wcsncat_s c dest n src k)
    \<and> inside c dest n (memcpy_s c dest n src k) \<and> inside c dest n (memmove_s c dest n src k)"
proof -
  note mem = assms(1)
  have "inside c dest n (strncpy_s c dest n src k)" "inside c dest n (strncat_s c dest n src k)"
    using crt_memory.copy_n_secure_inside [OF mem assms(2), of 1] crt_memory.append_n_secure_inside [OF mem assms(2), of 1]
    by (simp_all add: strncpy_s_def strncat_s_def)
  moreover have "inside c dest (2 * n) (wcsncpy_s c dest n src k)" "inside c dest (2 * n) (wcsncat_s c dest n src k)"
    using crt_memory.copy_n_secure_inside [OF mem assms(2), of 2] crt_memory.append_n_secure_inside [OF mem assms(2), of 2]
    by (simp_all add: wcsncpy_s_def wcsncat_s_def mult.commute)
  ultimately show ?thesis
    using crt_memory.strcpy_s_inside [OF mem assms(2)] crt_memory.strcat_s_inside [OF mem assms(2)]
      crt_memory.memcpy_s_inside [OF mem assms(2)] crt_memory.memmove_s_inside [OF mem assms(2)] by blast
qed

text \<open>A copy of \<^verbatim>\<open>ab\<close> to a buffer of two bytes leaves the byte after it as it is.\<close>

lemma secure_functions_stay_inside_witness:
  "\<exists>tr r e. play (strcpy_s ex_crt 0x15 2 0x10) (\<lambda>_ s. (0, s)) (ex_machine ex_strings)
      = (tr, r, put_engine e (ex_machine ex_strings)) \<and> bm_read e 0x17 1 = Inr [0xFF]"
proof -
  have "inside ex_crt 0x15 2 (strcpy_s ex_crt 0x15 2 0x10)"
    using secure_functions_stay_inside [OF ex.crt_memory_axioms, of 2] by simp
  then obtain tr r e where "play (strcpy_s ex_crt 0x15 2 0x10) (\<lambda>_ s. (0, s)) (ex_machine ex_strings)
        = (tr, r, put_engine e (ex_machine ex_strings))" and
      k: "\<forall>b k. b + k \<le> 0x15 \<or> 0x15 + 2 \<le> b \<longrightarrow> mo_read (ct_ops ex_crt) e b k = mo_read (ct_ops ex_crt) (engine (ex_machine ex_strings)) b k"
    unfolding inside_def using ex_machine_simps(3) by blast
  moreover have "bm_read e 0x17 1 = bm_read ex_strings 0x17 1" using k by simp
  moreover have "bm_read ex_strings 0x17 1 = Inr [0xFF]" by code_simp
  ultimately show ?thesis by metis
qed

subsection \<open>Characters and code units\<close>

lemma le_val_0: "le_val bs = 0 \<longleftrightarrow> bs = zeros (length bs)"
proof
  show "le_val bs = 0 \<Longrightarrow> bs = zeros (length bs)"
    using le_bytes_le_val [of bs] le_bytes_le_val [of "zeros (length bs)"] by (simp add: zeros_def)
  show "bs = zeros (length bs) \<Longrightarrow> le_val bs = 0" by (metis zeros_def le_val_replicate_0)
qed

context crt_memory
begin

lemma read_string_at:
  assumes "0 < width" "plain_units width bs" "reads c s a (bs @ zeros width)" "width dvd k" "k \<le> length bs"
  shows "read_string (mo_read (ct_ops c) (engine s)) a width 0 (take k bs) = Some (Inr (bs @ zeros width))"
  using assms(4-5)
proof (induction "length bs - k" arbitrary: k rule: less_induct)
  case less
  have l: "length (take k bs) = k" using less.prems(2) by simp
  let ?u = "take width (drop k (bs @ zeros width))"
  have lu: "length ?u = width" using less.prems(2) by simp
  have r: "mo_read (ct_ops c) (engine s) (a + int k) (int width) = Inr ?u"
    using reads_sub [OF assms(3), of k width] less.prems(2) lu unfolding reads_def lu by simp
  show ?case
  proof (cases "k = length bs")
    case True
    then have "?u = zeros width" by simp
    then show ?thesis using l r True le_val_0 [of ?u] by (subst read_string.simps) simp
  next
    case False
    then have k: "k < length bs" using less.prems(2) by simp
    have "width dvd length bs" using assms(2) by (simp add: plain_units_def)
    then have "width dvd length bs - k" using less.prems(1) by (simp add: dvd_diff_nat)
    then have w: "k + width \<le> length bs" using k dvd_imp_le [of width "length bs - k"] by simp
    obtain i where i: "k = i * width" using less.prems(1) by (metis dvdE mult.commute)
    have "take width (drop k bs) \<noteq> zeros width" using assms(2) k unfolding plain_units_def i by blast
    then have "le_val ?u \<noteq> 0" using w lu unfolding le_val_0 by simp
    moreover have "read_string (mo_read (ct_ops c) (engine s)) a width 0 (take (k + width) bs) = Some (Inr (bs @ zeros width))"
      using less.hyps [of "k + width"] w k less.prems(1) assms(1) by simp
    moreover have u: "?u = take width (drop k bs)" using w by simp
    ultimately show ?thesis using l r [unfolded u] unfolding u by (subst read_string.simps) (simp add: take_add)
  qed
qed

lemma play_read_wide:
  assumes "string_at c s a 2 bs"
  shows "play (read_wide_string c a 0) g s = ([], Inr (filter (\<lambda>p. p \<noteq> 0) (decode_replace (bs @ [0, 0]))), s)"
  using read_string_at [of 2 bs s a 0] assms
  by (simp add: string_at_def read_wide_string_def read_mem_string_def loop_result_def)

end

text \<open>C39: \<^verbatim>\<open>wcscpy_s\<close> compares the size of the buffer with the number of characters, but writes code
  units: a character outside the BMP fits a buffer of two units by that count, and the copy writes six bytes, two past
  the end of the buffer.\<close>

theorem wcscpy_s_writes_past_buffer:
  assumes "crt_memory c" "string_at c s src 2 [0x00, 0xD8, 0x00, 0xDC]" "src \<noteq> 0" "dest \<noteq> 0" "readable c s dest 6"
  shows "\<exists>t. play (wcscpy_s c dest 2 src) g s = ([], Inr 0, t) \<and> reads c t dest [0x00, 0xD8, 0x00, 0xDC, 0, 0]"
proof -
  note mem = assms(1)
  let ?bs = "[0x00, 0xD8, 0x00, 0xDC, 0, 0] :: byte list"
  have ws: "filter (\<lambda>p. p \<noteq> 0) (decode_replace ?bs) = [0x10000]"
    by (simp add: decode_replace_def is_high_def is_low_def pair_point_def)
  have enc: "encode_utf16 [0x10000, 0] = Inr ?bs"
    by (simp add: encode_utf16_def encode_surrogatepass_def point_units_def bytes_of_units_def unit_bytes_def is_high_def is_low_def)
  obtain t where t: "stored c dest ?bs s t" "\<And>g. play (mem_write (world_ops c) dest ?bs) g s = ([], Inr (), t)"
    using crt_memory.mem_store_ok [OF mem, of s dest ?bs] assms(5) by auto
  have "play (wcscpy_s c dest 2 src) g s = ([], Inr 0, t)"
    using assms(3,4) t(2) crt_memory.play_read_wide [OF mem assms(2)] ws enc
    by (simp add: wcscpy_s_def write_wide_string_def write_mem_string_def play_bind_ok)
  then show ?thesis using crt_memory.stored_reads [OF mem t(1)] by blast
qed

definition ex_wide :: byte_mem where "ex_wide = bm_of 0x10 ([0x00, 0xD8, 0x00, 0xDC, 0, 0] @ replicate 8 0xFF)"

lemma wcscpy_s_writes_past_buffer_witness:
  "\<exists>t. play (wcscpy_s ex_crt 0x18 2 0x10) (\<lambda>_ s. (0, s)) (ex_machine ex_wide) = ([], Inr 0, t)
     \<and> reads ex_crt t 0x18 [0x00, 0xD8, 0x00, 0xDC, 0, 0] \<and> bm_read ex_wide 0x1C 2 = Inr [0xFF, 0xFF]"
proof -
  have r: "bm_read ex_wide 0x10 6 = Inr [0x00, 0xD8, 0x00, 0xDC, 0, 0]"
      "bm_read ex_wide 0x18 6 = Inr (replicate 6 0xFF)" "bm_read ex_wide 0x1C 2 = Inr [0xFF, 0xFF]"
    by code_simp+
  have "plain_units 2 [0x00, 0xD8, 0x00, 0xDC]"
  proof (unfold plain_units_def, intro conjI allI impI)
    fix i :: nat assume "i * 2 < length [0x00, 0xD8, 0x00, 0xDC :: byte]"
    then have "i = 0 \<or> i = 1" by auto
    then show "take 2 (drop (i * 2) [0x00, 0xD8, 0x00, 0xDC :: byte]) \<noteq> zeros 2" by auto
  qed simp
  then have "string_at ex_crt (ex_machine ex_wide) 0x10 2 [0x00, 0xD8, 0x00, 0xDC]" "readable ex_crt (ex_machine ex_wide) 0x18 6"
    using r by (simp_all add: string_at_def reads_def readable_def)
  then show ?thesis
    using wcscpy_s_writes_past_buffer [OF ex.crt_memory_axioms, of "ex_machine ex_wide" "0x10" "0x18" "\<lambda>_ s. (0, s)"] r(3) by simp
qed

end
