(* ===== verification/Crt_Roundtrips.thy ===== *)
theory Crt_Roundtrips
  imports Crt_Properties
begin

text \<open>
  Round trips of the C runtime: numbers that \<^verbatim>\<open>_itoa\<close> writes to guest memory and
  \<^verbatim>\<open>strtoul\<close> or \<^verbatim>\<open>atoi\<close> reads back, the parts of a path, and the code page.
\<close>

subsection \<open>Numbers\<close>

lemma format_shape:
  assumes "2 \<le> radix" "radix \<le> 36"
  obtains neg ds where "format_int32 v radix = (if neg then [0x2D] else []) @ map digit_point ds" "ds \<noteq> []"
    "\<forall>d\<in>set ds. d < 36"
proof -
  define neg where "neg = (radix = 10 \<and> (v AND 0xFFFFFFFF) AND 0x80000000 \<noteq> 0)"
  let ?w = "nat (if neg then 0x100000000 - (v AND 0xFFFFFFFF) else v AND 0xFFFFFFFF)"
  obtain ds where ds: "digits_of (nat radix) ?w [] = map digit_point ds" "ds \<noteq> []" "\<forall>d\<in>set ds. d < nat radix"
    using digits_of_shape [of "nat radix" ?w "[]"] assms(1) by (auto simp: le_nat_iff)
  show ?thesis
    by (rule that [of neg ds]) (use assms ds in \<open>auto simp: format_int32_def Let_def neg_def\<close>)
qed

lemma format_bytes:
  assumes "2 \<le> radix" "radix \<le> 36"
  shows "plain_units 1 (encode_ansi_text (format_int32 v radix))" "format_int32 v radix \<noteq> []" "last (format_int32 v radix) \<noteq> 0"
proof -
  obtain neg ds where f: "format_int32 v radix = (if neg then [0x2D] else []) @ map digit_point ds" "ds \<noteq> []"
      "\<forall>d\<in>set ds. d < 36" using format_shape [OF assms] by metis
  have e: "encode_ansi_text (format_int32 v radix) = (if neg then [0x2D] else []) @ map (of_nat \<circ> digit_point) ds"
    using encode_points [of ds] point_in_code_page [of "0x2D"] f by (simp add: encode_ansi_text_def)
  have ne: "(of_nat (digit_point d) :: byte) \<noteq> 0" if "d < 36" for d
  proof -
    have "uint (of_nat (digit_point d) :: byte) = int (digit_point d)"
      using that by (simp add: uint_nat unat_of_nat digit_point_def)
    moreover have "0 < digit_point d" by (simp add: digit_point_def)
    ultimately show ?thesis by auto
  qed
  show "plain_units 1 (encode_ansi_text (format_int32 v radix))"
    unfolding e plain_bytes using ne f(3) by (auto split: if_splits)
  show "format_int32 v radix \<noteq> []" using f by simp
  show "last (format_int32 v radix) \<noteq> 0" using f by (simp add: last_map digit_point_def)
qed

context crt_memory
begin

lemma itoa_law:
  assumes "2 \<le> radix" "radix \<le> 36" "readable c s buf n" "int (length (format_int32 v radix)) < n"
  obtains t where "string_at c t buf 1 (encode_ansi_text (format_int32 v radix))"
    "\<And>g. play (itoa c v buf radix) g s = ([], Inr buf, t)"
proof -
  let ?f = "format_int32 v radix"
  let ?bs = "encode_ansi_text ?f @ [0]"
  have enc: "encode_ansi_text (?f @ [0]) = ?bs" using point_in_code_page [of 0] by (simp add: encode_ansi_text_def)
  have "readable c s buf (int (length ?bs))" using readable_sub [OF assms(3), of 0 "int (length ?bs)"] assms(4) by simp
  then obtain t where t: "stored c buf ?bs s t" "\<And>g. play (mem_write (world_ops c) buf ?bs) g s = ([], Inr (), t)"
    using mem_store_ok by blast
  have "play (itoa c v buf radix) g s = ([], Inr buf, t)" for g
    using t(2) enc format_bytes [OF assms(1,2), of v] by (simp add: itoa_def write_mem_string_def play_bind_ok)
  moreover have "string_at c t buf 1 (encode_ansi_text ?f)"
    using stored_reads [OF t(1)] format_bytes(1) [OF assms(1,2), of v] by (simp add: string_at_def)
  ultimately show ?thesis using that by blast
qed

lemma strtoul_law:
  assumes "string_at c s a 1 bs"
  shows "play (strtoul c a 0 base) g s = ([], Inr (unsigned_long (fst (parse_c_integer bs base 0))), s)"
  by (simp add: strtoul_def play_bind_ok [OF play_read_cstr [OF assms]] write_end_def split: prod.split del: One_nat_def)

lemma atoi_law:
  assumes "string_at c s a 1 bs"
  shows "play (atoi c a) g s = ([], Inr (clamp (- (2 ^ 31)) (2 ^ 31 - 1) (fst (parse_c_integer bs 10 0))), s)"
  by (simp add: atoi_def ato_def read_number_text_def gbind_assoc play_bind_ok [OF play_read_cstr [OF assms]] del: One_nat_def)

end

lemma unsigned_long_of:
  assumes "v' = (if b then signed_of 32 v else unsigned_of 32 v)"
  shows "unsigned_long v' = unsigned_of 32 v"
proof -
  have "\<bar>v'\<bar> \<le> 0xFFFFFFFF"
    using assms signed_of_bounds [of 32 v] unsigned_of_bounds [of 32 v] by (auto split: if_splits)
  moreover have "unsigned_of 32 v' = unsigned_of 32 v"
    using assms by (auto simp: unsigned_of_def signed_of_def Let_def)
  ultimately show ?thesis using and_mask_eq_unsigned [of v' 32] by (simp add: unsigned_long_def)
qed

text \<open>C24: A number survives the way through guest memory: \<^verbatim>\<open>strtoul\<close> with the same radix reads back the
  low 32 bits of what \<^verbatim>\<open>_itoa\<close> wrote with any radix from 2 to 36, and \<^verbatim>\<open>atoi\<close> reads
  back the signed value of what \<^verbatim>\<open>_itoa\<close> wrote in decimal.\<close>

theorem number_through_memory:
  assumes "crt_memory c" "2 \<le> radix" "radix \<le> 36" "readable c s buf n"
    and "int (length (format_int32 v radix)) < n" "int (length (format_int32 v 10)) < n"
  shows "(\<exists>t. play (gbind (itoa c v buf radix) (\<lambda>_. strtoul c buf 0 radix)) g s = ([], Inr (unsigned_of 32 v), t))
    \<and> (\<exists>t. play (gbind (itoa c v buf 10) (\<lambda>_. atoi c buf)) g s = ([], Inr (signed_of 32 v), t))"
proof
  obtain t where t: "string_at c t buf 1 (encode_ansi_text (format_int32 v radix))"
      "\<And>g. play (itoa c v buf radix) g s = ([], Inr buf, t)"
    using crt_memory.itoa_law [OF assms(1-5)] by metis
  show "\<exists>t. play (gbind (itoa c v buf radix) (\<lambda>_. strtoul c buf 0 radix)) g s = ([], Inr (unsigned_of 32 v), t)"
    using crt_memory.strtoul_law [OF assms(1) t(1)] parse_format [OF assms(2,3), of v] unsigned_long_of
    by (auto simp: play_bind_ok [OF t(2)])
next
  obtain t where t: "string_at c t buf 1 (encode_ansi_text (format_int32 v 10))"
      "\<And>g. play (itoa c v buf 10) g s = ([], Inr buf, t)"
    using crt_memory.itoa_law [OF assms(1) _ _ assms(4,6)] by auto
  show "\<exists>t. play (gbind (itoa c v buf 10) (\<lambda>_. atoi c buf)) g s = ([], Inr (signed_of 32 v), t)"
    using crt_memory.atoi_law [OF assms(1) t(1)] parse_format [of 10 v] signed_of_bounds [of 32 v]
    by (simp add: play_bind_ok [OF t(2)] clamp_def min_absorb1 max_absorb2)
qed

lemma number_through_memory_witness:
  "\<exists>t. play (gbind (itoa ex_crt (- 1) 0x10 16) (\<lambda>_. strtoul ex_crt 0x10 0 16)) (\<lambda>_ s. (0, s))
     (ex_machine (bm_of 0x10 (replicate 12 0xFF))) = ([], Inr 0xFFFFFFFF, t)"
proof -
  have "bm_read (bm_of 0x10 (replicate 12 0xFF)) 0x10 12 = Inr (replicate 12 0xFF)" by code_simp
  then have "readable ex_crt (ex_machine (bm_of 0x10 (replicate 12 0xFF))) 0x10 12" by (simp add: readable_def)
  moreover have "int (length (format_int32 (- 1) 16)) < 12" "int (length (format_int32 (- 1) 10)) < 12"
    by (simp_all add: format_int32_def digits_of.simps)
  moreover have "unsigned_of 32 (- 1) = 0xFFFFFFFF" by (simp add: unsigned_of_def)
  ultimately show ?thesis
    using number_through_memory [OF ex.crt_memory_axioms, of 16 "ex_machine (bm_of 0x10 (replicate 12 0xFF))" "0x10" 12 "- 1"]
    by auto
qed

subsection \<open>Paths and text\<close>

text \<open>The parts that \<^verbatim>\<open>_splitpath\<close> finds make the path again, and they have the shape of parts:
  the drive is empty or ends with a colon, the directory is empty or ends with a separator, the name and the extension
  have no separator, and the extension is empty or has its only dot at the start.\<close>

theorem split_path_round_trip:
  "\<exists>drive directory fname ext. get_split_path path = (drive, directory, fname, ext)
     \<and> get_made_path drive directory fname ext = path
     \<and> (drive = [] \<or> (\<exists>x. drive = [x, pt_colon])) \<and> (directory = [] \<or> is_slash (last directory))
     \<and> filter is_slash (fname @ ext) = [] \<and> (ext = [] \<or> hd ext = pt_dot \<and> count_list ext pt_dot = 1)"
proof -
  obtain drive directory fname ext where s: "get_split_path path = (drive, directory, fname, ext)"
    by (cases "get_split_path path") auto
  have "ext = [] \<or> hd ext = pt_dot \<and> count_list ext pt_dot = 1"
    using split_path_parts(5) [OF s] by (auto simp: count_list_0_iff)
  then show ?thesis using s made_of_split [OF s] split_path_parts [OF s] by (auto simp: filter_empty_conv)
qed

text \<open>The code page keeps bytes: text that \<^verbatim>\<open>decode_ansi\<close> makes from any bytes encodes to the same
  bytes, and so does the text of any whole number of UTF-16 units that was decoded with surrogates passed.\<close>

theorem text_round_trip:
  "encode_ansi_text (decode_ansi bs) = bs
    \<and> encode_surrogatepass (decode_surrogatepass (bytes_of_units (map unat ws))) = bytes_of_units (map unat (ws :: 16 word list))"
  by (simp add: encode_decode_ansi surrogatepass_roundtrip)

end
