(* ===== verification/Crt_Sorted.thy ===== *)
theory Crt_Sorted
  imports Crt_Properties "HOL-Library.Multiset"
begin

text \<open>
  \<^verbatim>\<open>qsort\<close> against the library's stable sort. The merges with a comparator of the guest compute the pure merges
  \<open>merge_by\<close>, \<open>pass_by\<close> and \<open>sort_by\<close> when the guest orders the elements by a key, and the pure sort is \<open>sort_key\<close>.
\<close>

subsection \<open>The pure sort\<close>

fun merge_by :: "('a \<Rightarrow> 'k :: linorder) \<Rightarrow> 'a list \<Rightarrow> 'a list \<Rightarrow> 'a list" where
  "merge_by f [] rs = rs"
| "merge_by f (l # ls) [] = l # ls"
| "merge_by f (l # ls) (r # rs) =
     (if f r < f l then r # merge_by f (l # ls) rs else l # merge_by f ls (r # rs))"

function pass_by :: "('a \<Rightarrow> 'k :: linorder) \<Rightarrow> nat \<Rightarrow> 'a list \<Rightarrow> 'a list" where
  "pass_by f run order =
     (if order = [] \<or> run = 0 then order
      else merge_by f (take run order) (take run (drop run order)) @ pass_by f run (drop (2 * run) order))"
  by pat_completeness auto
termination
  by (relation "measure (\<lambda>(f, run, order). length order)") auto

declare pass_by.simps [simp del]

function sort_by :: "('a \<Rightarrow> 'k :: linorder) \<Rightarrow> nat \<Rightarrow> nat \<Rightarrow> 'a list \<Rightarrow> 'a list" where
  "sort_by f number run order =
     (if number \<le> run \<or> run = 0 then order else sort_by f number (2 * run) (pass_by f run order))"
  by pat_completeness auto
termination
  by (relation "measure (\<lambda>(f, number, run, order). number - run)") auto

declare sort_by.simps [simp del]

lemma mset_merge_by [simp]: "mset (merge_by f ls rs) = mset ls + mset rs"
  by (induction f ls rs rule: merge_by.induct) simp_all

lemma set_merge_by [simp]: "set (merge_by f ls rs) = set ls \<union> set rs"
  by (induction f ls rs rule: merge_by.induct) auto

lemma length_merge_by [simp]: "length (merge_by f ls rs) = length ls + length rs"
  by (induction f ls rs rule: merge_by.induct) simp_all

lemma sorted_merge_by: "sorted (map f ls) \<Longrightarrow> sorted (map f rs) \<Longrightarrow> sorted (map f (merge_by f ls rs))"
  by (induction f ls rs rule: merge_by.induct) (auto simp: not_less dest: less_imp_le order_trans)

lemma stable_merge_by:
  "sorted (map f ls) \<Longrightarrow> filter (\<lambda>x. f x = k) (merge_by f ls rs) = filter (\<lambda>x. f x = k) ls @ filter (\<lambda>x. f x = k) rs"
proof (induction f ls rs rule: merge_by.induct)
  case (3 f l ls r rs)
  show ?case
  proof (cases "f r < f l")
    case True
    then have "filter (\<lambda>x. f x = k) (l # ls) = []" if "f r = k" using 3(3) that by (auto simp: filter_empty_conv)
    then show ?thesis using 3 True by (cases "f r = k") auto
  next
    case False
    then show ?thesis using 3 by auto
  qed
qed simp_all

text \<open>The order has sorted runs of length \<open>run\<close>.\<close>

function runs_sorted :: "('a \<Rightarrow> 'k :: linorder) \<Rightarrow> nat \<Rightarrow> 'a list \<Rightarrow> bool" where
  "runs_sorted f run order \<longleftrightarrow>
     (if order = [] \<or> run = 0 then True else sorted (map f (take run order)) \<and> runs_sorted f run (drop run order))"
  by pat_completeness auto
termination
  by (relation "measure (\<lambda>(f, run, order). length order)") auto

declare runs_sorted.simps [simp del]

lemma runs_sorted_Nil [simp]: "runs_sorted f run []"
  by (simp add: runs_sorted.simps)

lemma runs_sorted_step:
  assumes "0 < run" "runs_sorted f run order"
  shows "sorted (map f (take run order))" "runs_sorted f run (drop run order)"
proof -
  have "sorted (map f (take run order)) \<and> runs_sorted f run (drop run order)" if "order \<noteq> []"
    using assms that runs_sorted.simps [of f run order] by simp
  then show "sorted (map f (take run order))" "runs_sorted f run (drop run order)" by (cases "order = []"; simp)+
qed

lemma runs_sorted_one: "runs_sorted f 1 order"
proof (induction order)
  case (Cons x xs)
  then show ?case by (simp add: runs_sorted.simps [of f 1 "x # xs"] del: One_nat_def) (simp add: take_Suc)
qed simp

lemma runs_sorted_whole: "0 < run \<Longrightarrow> length order \<le> run \<Longrightarrow> runs_sorted f run order \<Longrightarrow> sorted (map f order)"
  using runs_sorted_step(1) [of run f order] by simp

lemma runs_sorted_append:
  assumes "0 < run" "sorted (map f xs)" "length xs \<le> run" "length xs = run \<or> ys = []" "runs_sorted f run ys"
  shows "runs_sorted f run (xs @ ys)"
  using assms by (cases "xs = []") (auto simp: runs_sorted.simps [of f run "xs @ ys"])

lemma pass_by_facts:
  "0 < run \<Longrightarrow> runs_sorted f run order \<Longrightarrow> runs_sorted f (2 * run) (pass_by f run order)
     \<and> mset (pass_by f run order) = mset order \<and> length (pass_by f run order) = length order
     \<and> filter (\<lambda>x. f x = k) (pass_by f run order) = filter (\<lambda>x. f x = k) order"
proof (induction f run order rule: pass_by.induct)
  case (1 f run order)
  show ?case
  proof (cases "order = []")
    case True
    then show ?thesis by (simp add: pass_by.simps)
  next
    case False
    let ?l = "take run order" and ?r = "take run (drop run order)" and ?rest = "drop (2 * run) order"
    note s = runs_sorted_step [OF 1(2,3)]
    note r = runs_sorted_step [OF 1(2) s(2), unfolded drop_drop, folded mult_2]
    note IH = 1(1) [OF _ 1(2) r(2)]
    have split: "order = ?l @ ?r @ ?rest" by (simp add: mult_2 flip: drop_drop)
    have p: "pass_by f run order = merge_by f ?l ?r @ pass_by f run ?rest" using False 1(2) by (subst pass_by.simps) simp
    have m: "mset (pass_by f run order) = mset order"
      unfolding p using IH False 1(2) by (subst (3) split) (simp add: union_assoc)
    have fl: "filter (\<lambda>x. f x = k) (pass_by f run order) = filter (\<lambda>x. f x = k) order"
      unfolding p using IH False 1(2) stable_merge_by [OF s(1), of k ?r] by (subst (3) split) simp
    have "length (merge_by f ?l ?r) = 2 * run \<or> pass_by f run ?rest = []"
      using False 1(2) by (cases "length order \<le> 2 * run") (auto simp: pass_by.simps min_def)
    then have "runs_sorted f (2 * run) (pass_by f run order)"
      unfolding p using 1(2) False IH sorted_merge_by [OF s(1) r(1)] by (intro runs_sorted_append) auto
    then show ?thesis using m fl mset_eq_length [OF m] by simp
  qed
qed

lemma sort_by_key:
  "0 < run \<Longrightarrow> runs_sorted f run order \<Longrightarrow> length order = number \<Longrightarrow> sort_by f number run order = sort_key f order"
proof (induction f number run order rule: sort_by.induct)
  case (1 f number run order)
  show ?case
  proof (cases "number \<le> run")
    case True
    then have "sorted (map f order)" using runs_sorted_whole [of run order f] 1 by simp
    then show ?thesis using True by (subst sort_by.simps) (simp add: sort_key_id_if_sorted)
  next
    case False
    note facts = pass_by_facts [OF 1(2,3)]
    have "sort_by f number run order = sort_key f (pass_by f run order)"
      using 1 False facts by (subst sort_by.simps) simp
    also have "\<dots> = sort_key f order"
    proof (rule properties_for_sort_key)
      show "mset (sort_key f order) = mset (pass_by f run order)" using facts by simp
      show "filter (\<lambda>x. f k = f x) (sort_key f order) = filter (\<lambda>x. f k = f x) (pass_by f run order)" for k
        using facts [of "f k"] sort_key_stable [of f "f k" order] by (simp add: eq_commute)
    qed simp
    finally show ?thesis .
  qed
qed

lemma map_sort_key: "map h (sort_key (f \<circ> h) xs) = sort_key f (map h xs)"
proof -
  have "map h (insort_key (f \<circ> h) x ys) = insort_key f (h x) (map h ys)" for x ys by (induction ys) auto
  then show ?thesis by (induction xs) simp_all
qed

subsection \<open>The comparator\<close>

text \<open>\<open>orders_by\<close>: the guest's comparator orders the elements of the array by a key, and what it changes, within \<open>Inv\<close>,
  leaves the array as it is. Its answers may have any value with the right sign.\<close>

definition element_at :: "int \<Rightarrow> nat \<Rightarrow> nat \<Rightarrow> int" where "element_at base width i = base + int i * int width"

definition orders_by ::
  "'e crt \<Rightarrow> 'e world emu guest \<Rightarrow> int \<Rightarrow> nat \<Rightarrow> int \<Rightarrow> byte list list \<Rightarrow> (byte list \<Rightarrow> 'k :: linorder) \<Rightarrow>
    ('e world emu \<Rightarrow> bool) \<Rightarrow> bool" where
  "orders_by c g base width compare elems key Inv \<longleftrightarrow>
     (\<forall>t. Inv t \<longrightarrow> reads c t base (concat elems) \<and> shared_views base (em_mem t) = [] \<and>
       (\<forall>i<length elems. \<forall>j<length elems. \<exists>v t'.
          g (plain_call compare [element_at base width i, element_at base width j]) t = (v, t') \<and> Inv t'
          \<and> (says_greater v \<longleftrightarrow> key (elems ! j) < key (elems ! i))))"

definition elem_key :: "int \<Rightarrow> nat \<Rightarrow> byte list list \<Rightarrow> (byte list \<Rightarrow> 'k) \<Rightarrow> int \<Rightarrow> 'k" where
  "elem_key base width elems key a = key (elems ! nat ((a - base) div int width))"

lemma elem_key_at: "0 < width \<Longrightarrow> elem_key base width elems key (element_at base width i) = key (elems ! i)"
  by (simp add: elem_key_def element_at_def)

text \<open>\<open>computes Inv m x\<close>: from a state in \<open>Inv\<close> the program returns \<open>x\<close> in one.\<close>

definition computes :: "'s guest \<Rightarrow> ('s \<Rightarrow> bool) \<Rightarrow> ('s, 'a) gen \<Rightarrow> 'a \<Rightarrow> bool" where
  "computes g Inv m x \<longleftrightarrow> (\<forall>t. Inv t \<longrightarrow> (\<exists>tr t'. play m g t = (tr, Inr x, t') \<and> Inv t'))"

lemma computes_Ret: "computes g Inv (Ret x) x"
  by (simp add: computes_def)

lemma computes_gbind: "computes g Inv m x \<Longrightarrow> computes g Inv (f x) y \<Longrightarrow> computes g Inv (gbind m f) y"
  unfolding computes_def play_gbind by (fastforce split: prod.split)

lemma computes_map: "computes g Inv m x \<Longrightarrow> computes g Inv (gbind m (\<lambda>x. Ret (h x))) (h x)"
  by (rule computes_gbind [where x = x]) (simp_all add: computes_Ret)

lemma computes_call:
  assumes "\<And>t. Inv t \<Longrightarrow> \<exists>v t'. g q t = (v, t') \<and> Inv t' \<and> P v" "\<And>v. P v \<Longrightarrow> computes g Inv (f v) y"
  shows "computes g Inv (gbind (call q) f) y"
  unfolding computes_def
proof (intro allI impI)
  fix t assume "Inv t"
  then obtain v t' where v: "g q t = (v, t')" "Inv t'" "P v" using assms(1) by blast
  then obtain tr t'' where "play (f v) g t' = (tr, Inr y, t'')" "Inv t''" using assms(2) unfolding computes_def by blast
  then show "\<exists>tr t'. play (gbind (call q) f) g t = (tr, Inr y, t') \<and> Inv t'"
    using v by (simp add: play_gbind)
qed

lemma merge_runs_computes:
  assumes w: "0 < width"
  shows "orders_by c g base width compare elems key Inv \<Longrightarrow> set ls \<subseteq> element_at base width ` {..<length elems} \<Longrightarrow> set rs \<subseteq> element_at base width ` {..<length elems} \<Longrightarrow>
    computes g Inv (merge_runs compare ls rs) (merge_by (elem_key base width elems key) ls rs)"
proof (induction compare ls rs rule: merge_runs.induct)
  case (3 compare l ls r rs)
  let ?f = "elem_key base width elems key"
  obtain i j where ij: "i < length elems" "j < length elems" "l = element_at base width i" "r = element_at base width j"
    using 3 by auto
  have o: "\<exists>v t'. g (plain_call compare [l, r]) t = (v, t') \<and> Inv t' \<and> (says_greater v \<longleftrightarrow> ?f r < ?f l)" if "Inv t" for t
    using 3(3) that ij unfolding orders_by_def ij(3,4) elem_key_at [OF w] by blast
  show ?case unfolding merge_runs.simps(3)
  proof (rule computes_call [where P = "\<lambda>v. says_greater v \<longleftrightarrow> ?f r < ?f l"])
    fix v assume v: "says_greater v \<longleftrightarrow> ?f r < ?f l"
    show "computes g Inv (if says_greater v then gbind (merge_runs compare (l # ls) rs) (\<lambda>m. Ret (r # m))
        else gbind (merge_runs compare ls (r # rs)) (\<lambda>m. Ret (l # m))) (merge_by ?f (l # ls) (r # rs))"
    proof (cases "says_greater v")
      case True
      then show ?thesis using 3 v by (auto intro!: computes_map)
    next
      case False
      then show ?thesis using 3 v by (auto intro!: computes_map)
    qed
  qed (rule o)
qed (simp_all add: computes_Ret)

lemma runs_split: "order = take run order @ take run (drop run order) @ drop (2 * run) order"
  by (simp add: mult_2 flip: drop_drop)

lemma set_pass_by: "set (pass_by f run order) = set order"
proof (induction f run order rule: pass_by.induct)
  case (1 f run order)
  show ?case
  proof (cases "order = [] \<or> run = 0")
    case True
    then show ?thesis by (simp add: pass_by.simps)
  next
    case False
    then have "set (pass_by f run order) =
        set (take run order) \<union> set (take run (drop run order)) \<union> set (drop (2 * run) order)"
      using 1 by (subst pass_by.simps) simp
    also have "\<dots> = set order" by (subst (4) runs_split [of order run]) auto
    finally show ?thesis .
  qed
qed

lemma merge_pass_computes:
  assumes w: "0 < width"
  shows "orders_by c g base width compare elems key Inv \<Longrightarrow> set order \<subseteq> element_at base width ` {..<length elems} \<Longrightarrow>
    computes g Inv (merge_pass compare run order) (pass_by (elem_key base width elems key) run order)"
proof (induction compare run order rule: merge_pass.induct)
  case (1 compare run order)
  show ?case
  proof (cases "order = [] \<or> run = 0")
    case True
    then show ?thesis by (simp add: merge_pass.simps pass_by.simps computes_Ret)
  next
    case False
    have s: "set (take n xs) \<subseteq> set xs" "set (drop n xs) \<subseteq> set xs" for n and xs :: "int list"
      by (simp_all add: set_take_subset set_drop_subset)
    have "computes g Inv (merge_runs compare (take run order) (take run (drop run order)))
        (merge_by (elem_key base width elems key) (take run order) (take run (drop run order)))"
      by (rule merge_runs_computes [OF w 1(2)]) (use s 1(3) in blast)+
    moreover have "computes g Inv (merge_pass compare run (drop (2 * run) order))
        (pass_by (elem_key base width elems key) run (drop (2 * run) order))"
      by (rule 1(1) [OF False 1(2)]) (use s 1(3) in blast)
    ultimately show ?thesis
      by (subst merge_pass.simps, subst pass_by.simps, subst (1 2) if_not_P [OF False])
        (rule computes_gbind, assumption, erule computes_map)
  qed
qed

lemma sort_runs_computes:
  assumes w: "0 < width"
  shows "orders_by c g base width compare elems key Inv \<Longrightarrow> set order \<subseteq> element_at base width ` {..<length elems} \<Longrightarrow>
    computes g Inv (sort_runs compare number run order) (sort_by (elem_key base width elems key) number run order)"
proof (induction compare number run order rule: sort_runs.induct)
  case (1 compare number run order)
  show ?case
  proof (cases "number \<le> run \<or> run = 0")
    case True
    then show ?thesis by (simp add: sort_runs.simps sort_by.simps computes_Ret)
  next
    case False
    have "set (pass_by (elem_key base width elems key) run order) \<subseteq> element_at base width ` {..<length elems}"
      unfolding set_pass_by by (rule 1(3))
    from 1(1) [OF False 1(2) this] show ?thesis
      by (subst sort_runs.simps, subst sort_by.simps, subst (1 2) if_not_P [OF False])
        (rule computes_gbind [OF merge_pass_computes [OF w 1(2,3)]])
  qed
qed

subsection \<open>The array\<close>

context crt_memory
begin

lemma reads_element:
  assumes "reads c s base (concat elems)" "\<forall>e\<in>set elems. length e = width" "i < length elems"
  shows "reads c s (element_at base width i) (elems ! i)"
proof -
  have split: "concat elems = concat (take i elems) @ elems ! i @ concat (drop (Suc i) elems)"
    by (subst (1) id_take_nth_drop [OF assms(3)]) simp
  have "length (concat (take i elems)) = (\<Sum>e\<leftarrow>take i elems. width)"
    using assms(2) by (simp add: length_concat) (metis (mono_tags, lifting) in_set_takeD map_eq_conv)
  also have "\<dots> = i * width" using assms(3) by (simp add: sum_list_triv)
  finally have l: "length (concat (take i elems)) = i * width" .
  show ?thesis using assms(1) l unfolding split element_at_def by (simp add: reads_append)
qed

lemma read_all_elements:
  assumes "reads c s base (concat elems)" "\<forall>e\<in>set elems. length e = width"
  shows "\<forall>i\<in>set is. i < length elems \<Longrightarrow>
    play (read_all c (int width) (map (element_at base width) is)) g s = ([], Inr (concat (map ((!) elems) is)), s)"
proof (induction "is")
  case (Cons i "is")
  have "mo_read (ct_ops c) (engine s) (element_at base width i) (int width) = Inr (elems ! i)"
    using reads_element [OF assms] assms(2) Cons.prems by (simp add: reads_def)
  then have "play (api_read c (element_at base width i) (int width)) g s = ([], Inr (elems ! i), s)"
    by (simp add: api_read_def mem_read_def)
  then show ?case using Cons by (simp add: play_bind_ok)
qed simp

end

text \<open>C6: \<^verbatim>\<open>qsort\<close> sorts the array, and the sort is stable: when the guest's comparator orders the
  elements by a key (with any values of the right sign, and without a change of the array), the call returns and leaves
  in the array what the library's stable sort by that key makes of the elements.\<close>

theorem qsort_sorts_stably:
  assumes "crt_memory c" "orders_by c g base width compare elems key Inv" "Inv s"
    and "0 < width" "\<forall>e\<in>set elems. length e = width"
  shows "\<exists>tr t. play (qsort c base (length elems) width compare) g s = (tr, Inr (), t)
    \<and> reads c t base (concat (sort_key key elems))"
proof (cases "length elems < 2")
  case True
  then have "sort_key key elems = elems" by (cases elems; cases "tl elems") auto
  then show ?thesis using True assms(2,3) by (simp add: qsort_def orders_by_def)
next
  case False
  let ?n = "length elems" and ?at = "element_at base width" and ?f = "elem_key base width elems key"
  have at: "map (\<lambda>i. base + int i * int width) [0..<?n] = map ?at [0..<?n]" by (simp add: element_at_def)
  have sorted: "sort_by ?f ?n 1 (map ?at [0..<?n]) = map ?at (sort_key (\<lambda>i. key (elems ! i)) [0..<?n])"
  proof -
    have "sort_by ?f ?n 1 (map ?at [0..<?n]) = sort_key ?f (map ?at [0..<?n])"
      by (rule sort_by_key) (simp_all add: runs_sorted_one [unfolded One_nat_def])
    also have "\<dots> = map ?at (sort_key (?f \<circ> ?at) [0..<?n])" by (simp add: map_sort_key)
    also have "?f \<circ> ?at = (\<lambda>i. key (elems ! i))" using elem_key_at [OF assms(4)] by (auto simp: fun_eq_iff)
    finally show ?thesis .
  qed
  obtain tr t where t: "play (sort_runs compare ?n 1 (map ?at [0..<?n])) g s =
      (tr, Inr (map ?at (sort_key (\<lambda>i. key (elems ! i)) [0..<?n])), t)" "Inv t"
    using sort_runs_computes [OF assms(4,2), of "map ?at [0..<?n]" ?n 1] assms(3)
    unfolding sorted computes_def by (auto simp: atLeast0LessThan)
  have r: "reads c t base (concat elems)" and u: "shared_views base (em_mem t) = []"
    using assms(2) t(2) by (auto simp: orders_by_def)
  let ?is = "sort_key (\<lambda>i. key (elems ! i)) [0..<?n]"
  have es: "map ((!) elems) ?is = sort_key key elems"
    using map_sort_key [of "(!) elems" key "[0..<?n]"] by (simp add: o_def map_nth)
  have all: "play (read_all c (int width) (map ?at ?is)) g t = ([], Inr (concat (sort_key key elems)), t)"
    using crt_memory.read_all_elements [OF assms(1) r assms(5), of ?is g] es by simp
  have "length (concat (sort_key key elems)) = length (concat elems)"
    by (metis length_concat mset_map mset_sort sum_mset_sum_list)
  then have "readable c t base (int (length (concat (sort_key key elems))))"
    using crt_memory.reads_readable [OF assms(1) r] by simp
  then obtain t' where t': "stored c base (concat (sort_key key elems)) t t'"
      "\<And>g. play (api_write c base (concat (sort_key key elems))) g t = ([], Inr (), t')"
    using crt_memory.store_ok [OF assms(1)] u by metis
  have "play (qsort c base ?n width compare) g s = (tr, Inr (), t')"
    using False assms(4) by (simp add: qsort_def sort_elements_def at play_gbind t(1) [unfolded One_nat_def] all t'(2))
  then show ?thesis using crt_memory.stored_reads [OF assms(1) t'(1)] by blast
qed

end
