(* ===== verification/Crt_Exit.thy ===== *)
theory Crt_Exit
  imports Crt_Sorted
begin

text \<open>
  The functions that run at the exit (\<^verbatim>\<open>_execute_onexit_table\<close>), and the witness of the property of
  \<^verbatim>\<open>qsort\<close>.
\<close>

subsection \<open>Programs without calls\<close>

definition no_calls :: "('s, 'a) gen \<Rightarrow> bool" where "no_calls p \<longleftrightarrow> (\<forall>g s. fst (play p g s) = [])"

named_theorems no_calls_intros \<open>rules for programs that call no guest function\<close>

lemma no_calls_basic [no_calls_intros]:
  "no_calls (Ret x)" "no_calls (Fail e)" "no_calls (gets f)" "no_calls (glift r)" "no_calls (modify h)"
  by (simp_all add: no_calls_def)

lemma no_calls_gbind [no_calls_intros]: "no_calls m \<Longrightarrow> (\<And>x. no_calls (f x)) \<Longrightarrow> no_calls (gbind m f)"
  by (simp add: no_calls_def play_gbind split: prod.split sum.split) (metis fst_conv)

lemma no_calls_if [no_calls_intros]: "no_calls p \<Longrightarrow> no_calls q \<Longrightarrow> no_calls (if b then p else q)"
  by simp

lemma no_calls_gmapM [no_calls_intros]: "(\<And>x. no_calls (f x)) \<Longrightarrow> no_calls (gmapM f xs)"
  by (induction xs) (auto intro: no_calls_intros)

lemma no_calls_memory [no_calls_intros]:
  "no_calls (mem_write ops a bs)" "no_calls (mem_read ops a n)" "no_calls (manage f')"
  by (auto simp: no_calls_def mem_write_def mem_read_def manage_def glift_def split: sum.split prod.split)

lemma no_calls_api [no_calls_intros]:
  "no_calls (api_write c a bs)" "no_calls (api_write_ptr c a v)" "no_calls (heap_free c a)" "no_calls (write_onexit_table c a x y z)"
  unfolding api_write_def api_write_ptr_def heap_free_def write_onexit_table_def world_def
  by (intro no_calls_intros)+

lemma calls_gbind:
  assumes "\<And>x. no_calls (f x)"
  shows "fst (play (gbind m f) g s) = fst (play m g s)"
  using assms by (simp add: play_gbind no_calls_def split: prod.split sum.split) (metis append_Nil2 fst_conv)

subsection \<open>Pointers in memory\<close>

definition pointer_ok :: "nat \<Rightarrow> int \<Rightarrow> bool" where "pointer_ok p v \<longleftrightarrow> 0 \<le> v \<and> v < 256 ^ p"

context crt_memory
begin

lemma read_ptr_law:
  assumes "reads c s a (le_bytes (ptr_size s) v)" "pointer_ok (ptr_size s) v"
  shows "play (api_read_ptr c a) g s = ([], Inr v, s)"
proof -
  have "play (mem_read (world_ops c) a (int (ptr_size s))) g s = ([], Inr (le_bytes (ptr_size s) v), s)"
    using assms(1) by (simp add: mem_read_def reads_def)
  then show ?thesis using assms(2)
    by (simp add: api_read_ptr_def read_ptr_def play_gbind le_val_le_bytes_id pointer_ok_def)
qed

lemma write_ptr_law:
  assumes "readable c s a (int (ptr_size s))" "pointer_ok (ptr_size s) v" "shared_views a (em_mem s) = []"
  obtains t where "stored c a (le_bytes (ptr_size s) v) s t" "\<And>g. play (api_write_ptr c a v) g s = ([], Inr (), t)"
proof -
  obtain t where t: "stored c a (le_bytes (ptr_size s) v) s t"
      "\<And>g. play (api_write c a (le_bytes (ptr_size s) v)) g s = ([], Inr (), t)"
    using store_ok [of s a "le_bytes (ptr_size s) v"] assms(1,3) by auto
  then show ?thesis using that [of t] assms(2) by (simp add: api_write_ptr_def play_gbind to_bytes_ok pointer_ok_def)
qed

end

subsection \<open>The order of the calls\<close>

text \<open>\<open>keeps_range\<close>: the guest leaves the bytes of the range and the size of pointers as they are.\<close>

definition keeps_range :: "'e crt \<Rightarrow> 'e world emu guest \<Rightarrow> int \<Rightarrow> int \<Rightarrow> bool" where
  "keeps_range c g a n \<longleftrightarrow> (\<forall>q t. ptr_size (snd (g q t)) = ptr_size t
     \<and> (\<forall>b. a \<le> b \<and> b < a + n \<longrightarrow> shared_views b (em_mem (snd (g q t))) = shared_views b (em_mem t))
     \<and> (\<forall>b bs. a \<le> b \<and> b + int (length bs) \<le> a + n \<longrightarrow> reads c t b bs \<longrightarrow> reads c (snd (g q t)) b bs))"

lemma keeps_range_sub: "keeps_range c g a n \<Longrightarrow> a \<le> b \<Longrightarrow> b + k \<le> a + n \<Longrightarrow> keeps_range c g b k"
  unfolding keeps_range_def by (meson order_trans less_le_trans)

lemma keeps_rangeD:
  assumes "keeps_range c g a n"
  shows "ptr_size (snd (g q t)) = ptr_size t" "unshared t a n \<Longrightarrow> unshared (snd (g q t)) a n"
    "a \<le> b \<Longrightarrow> b + int (length bs) \<le> a + n \<Longrightarrow> reads c t b bs \<Longrightarrow> reads c (snd (g q t)) b bs"
  using assms by (simp_all add: keeps_range_def unshared_def)

definition onexit_table :: "'e crt \<Rightarrow> 'e world emu \<Rightarrow> int \<Rightarrow> int \<Rightarrow> int \<Rightarrow> int \<Rightarrow> bool" where
  "onexit_table c s table x y z \<longleftrightarrow>
     pointer_ok (ptr_size s) x \<and> pointer_ok (ptr_size s) y \<and> pointer_ok (ptr_size s) z \<and>
     reads c s table (le_bytes (ptr_size s) x @ le_bytes (ptr_size s) y @ le_bytes (ptr_size s) z)"

definition onexit_array :: "'e crt \<Rightarrow> 'e world emu \<Rightarrow> int \<Rightarrow> int list \<Rightarrow> bool" where
  "onexit_array c s x fs \<longleftrightarrow> reads c s x (concat (map (le_bytes (ptr_size s)) fs))"

lemma length_pointers [simp]: "length (concat (map (le_bytes p) fs)) = length fs * p"
  by (induction fs) simp_all

context crt_memory
begin

lemma read_table_law:
  assumes "onexit_table c s table x y z"
  shows "play (read_onexit_table c table) g s = ([], Inr (x, y, z), s)"
proof -
  let ?p = "ptr_size s"
  have "reads c s table (le_bytes ?p x)" "reads c s (table + int ?p) (le_bytes ?p y)"
      "reads c s (table + 2 * int ?p) (le_bytes ?p z)"
    using assms by (auto simp: onexit_table_def reads_append algebra_simps)
  then show ?thesis
    using assms by (simp add: read_onexit_table_def play_gbind read_ptr_law onexit_table_def)
qed

lemma last_function_law:
  assumes "reads c s (x + int k) (le_bytes (ptr_size s) f)" "f \<noteq> 0" "pointer_ok (ptr_size s) f" "0 < ptr_size s"
  shows "play (last_function c (int (ptr_size s)) x (x + int k + int (ptr_size s))) g s = ([], Inr (x + int k), s)"
  using assms by (subst last_function.simps) (simp add: play_gbind read_ptr_law)

lemma loop_calls:
  assumes "0 < p" "\<forall>f\<in>set fs. f \<noteq> 0 \<and> pointer_ok p f" "length fs < rounds" "ptr_size s = p"
    and "onexit_table c s table x y z" "onexit_array c s x fs" "unshared s x (int (length fs * p))"
    and "keeps_range c g table (3 * int p)" "keeps_range c g x (int (length fs * p))"
    and "table + 3 * int p \<le> x \<or> x + int (length fs * p) \<le> table"
  shows "\<exists>tr t. play (call_onexit_loop rounds c (int p) table (x, y) (x, x + int (length fs * p))) g s = (tr, Inr x, t)
    \<and> map fst tr = map (\<lambda>f. plain_call f []) (rev fs)"
  using assms(2-)
proof (induction fs arbitrary: s rounds rule: rev_induct)
  case Nil
  then obtain n where n: "rounds = Suc n" by (cases rounds) auto
  have "play (last_function c (int p) x x) g s = ([], Inr (x - int p), s)"
    using assms(1) by (subst last_function.simps) simp
  then show ?case using assms(1) by (simp add: n play_gbind)
next
  case (snoc f fs)
  obtain n where n: "rounds = Suc n" using snoc.prems(2) by (cases rounds) auto
  let ?a = "x + int (length fs * p)"
  have f: "f \<noteq> 0" "pointer_ok p f" and len: "int (length (fs @ [f]) * p) = int (length fs * p) + int p"
    using snoc.prems(1) by simp_all
  have arr: "reads c s x (concat (map (le_bytes p) fs))" "reads c s ?a (le_bytes p f)"
    using snoc.prems(3,5) by (simp_all add: onexit_array_def reads_append)
  have lf: "play (last_function c (int p) x (?a + int p)) g s = ([], Inr ?a, s)"
    using last_function_law [of s x "length fs * p" f g] arr(2) f assms(1) snoc.prems(3) by simp
  have rf: "play (api_read_ptr c ?a) g s = ([], Inr f, s)" using read_ptr_law [of s ?a f g] arr(2) f snoc.prems(3) by simp
  have u: "shared_views ?a (em_mem s) = []" using snoc.prems(6) len assms(1) by (simp add: unshared_def)
  have "readable c s ?a (int (ptr_size s))" using reads_readable [OF arr(2)] snoc.prems(3) by simp
  then obtain t1 where t1: "stored c ?a (le_bytes p 0) s t1" "play (api_write_ptr c ?a 0) g s = ([], Inr (), t1)"
    using write_ptr_law [of s ?a 0] u snoc.prems(3) by (auto simp: pointer_ok_def)
  obtain v t2 where t2: "g (plain_call f []) t1 = (v, t2)" by (cases "g (plain_call f []) t1")
  have s2: "snd (g (plain_call f []) t1) = t2" by (simp add: t2)
  have p1: "ptr_size t1 = p" and u1: "unshared t1 x (int (length (fs @ [f]) * p))"
    using stored_fields [OF t1(1)] snoc.prems(3,6) by simp_all
  have p2: "ptr_size t2 = p" using keeps_rangeD(1) [OF snoc.prems(7), of "plain_call f []" t1] p1 s2 by simp
  have u2: "unshared t2 x (int (length fs * p))"
    using keeps_rangeD(2) [OF snoc.prems(8) u1, of "plain_call f []"] s2 len assms(1) by (simp add: unshared_def)
  have "table + 3 * int p \<le> ?a \<or> ?a + int p \<le> table"
    using snoc.prems(9) len of_nat_0_le_iff [of "length fs * p"] by linarith
  then have tab1: "onexit_table c t1 table x y z"
    using snoc.prems(3,4) stored_other [OF t1(1), of table "le_bytes p x @ le_bytes p y @ le_bytes p z"] p1
    by (auto simp: onexit_table_def)
  have tab2: "onexit_table c t2 table x y z"
    using tab1 p1 p2 keeps_rangeD(3) [OF snoc.prems(7), of table "le_bytes p x @ le_bytes p y @ le_bytes p z" t1 "plain_call f []"] s2
    by (simp add: onexit_table_def)
  have "reads c t1 x (concat (map (le_bytes p) fs))" using arr(1) stored_other [OF t1(1), of x "concat (map (le_bytes p) fs)"] by simp
  then have "reads c t2 x (concat (map (le_bytes p) fs))"
    using keeps_rangeD(3) [OF snoc.prems(8), of x "concat (map (le_bytes p) fs)" t1 "plain_call f []"] s2 len by simp
  then have arr2: "onexit_array c t2 x fs" by (simp add: onexit_array_def p2)
  have k2: "keeps_range c g x (int (length fs * p))" by (rule keeps_range_sub [OF snoc.prems(8)]) (use len in simp_all)
  have "\<exists>tr t. play (call_onexit_loop n c (int p) table (x, y) (x, ?a)) g t2 = (tr, Inr x, t)
      \<and> map fst tr = map (\<lambda>f. plain_call f []) (rev fs)"
    using snoc.prems(1,2,9) len n by (intro snoc.IH p2 tab2 arr2 u2 k2 snoc.prems(7)) auto
  then obtain tr t where "play (call_onexit_loop n c (int p) table (x, y) (x, ?a)) g t2 = (tr, Inr x, t)"
      "map fst tr = map (\<lambda>f. plain_call f []) (rev fs)" by blast
  then have "play (call_onexit_loop rounds c (int p) table (x, y) (x, ?a + int p)) g s = ((plain_call f [], v) # tr, Inr x, t)"
    using assms(1) by (simp add: n play_gbind lf rf t1(2) t2 read_table_law [OF tab2] del: of_nat_mult)
  then show ?case using \<open>map fst tr = _\<close> unfolding len add.assoc by simp
qed

end

text \<open>C26: The functions of an exit table run in the reverse of their order: when the guest leaves the table and the array
  of functions as they are, \<^verbatim>\<open>_execute_onexit_table\<close> calls each function of the array once, the last
  one first, and nothing else.\<close>

theorem exit_functions_in_reverse:
  assumes "crt_memory c" "0 < p" "ptr_size s = p" "table \<noteq> 0" "\<not> no_array (int p) x"
    and "onexit_table c s table x (x + int (length fs * p)) z" "onexit_array c s x fs"
    and "\<forall>f\<in>set fs. f \<noteq> 0 \<and> pointer_ok p f" "unshared s x (int (length fs * p))"
    and "keeps_range c g table (3 * int p)" "keeps_range c g x (int (length fs * p))"
    and "table + 3 * int p \<le> x \<or> x + int (length fs * p) \<le> table" "length fs < rounds"
  shows "map fst (fst (play (execute_onexit_table rounds c table) g s)) = map (\<lambda>f. plain_call f []) (rev fs)"
proof -
  let ?y = "x + int (length fs * p)"
  obtain tr t where loop: "play (call_onexit_loop rounds c (int p) table (x, ?y) (x, ?y)) g s = (tr, Inr x, t)"
      "map fst tr = map (\<lambda>f. plain_call f []) (rev fs)"
    using crt_memory.loop_calls [OF assms(1,2,8,13,3,6,7,9-12)] by blast
  have "fst (play (execute_onexit_table rounds c table) g s) =
      fst (play (gbind (call_onexit_loop rounds c (int p) table (x, ?y) (x, ?y)) (\<lambda>x.
        gbind (heap_free c x) (\<lambda>_. gbind (write_onexit_table c table 0 0 0) (\<lambda>_. Ret (0 :: int))))) g s)"
    using assms(3-5) crt_memory.read_table_law [OF assms(1,6)]
    by (simp add: execute_onexit_table_def call_onexit_functions_def play_bind_ok gets_def del: of_nat_mult)
  also have "\<dots> = tr" by (subst calls_gbind) (auto intro!: no_calls_intros simp: loop(1) simp del: of_nat_mult)
  finally show ?thesis using loop(2) by simp
qed

subsection \<open>Examples\<close>

text \<open>An exit table at 0x10 with two functions in an array at 0x1C.\<close>

definition ex_exit :: byte_mem where
  "ex_exit = bm_of 0x10 (concat (map (le_bytes 4) [0x1C, 0x24, 0x24, 0x1000, 0x2000]))"

lemma exit_functions_in_reverse_witness:
  "map fst (fst (play (execute_onexit_table 3 ex_crt 0x10) (\<lambda>_ s. (0, s)) (ex_machine ex_exit)))
     = [plain_call 0x2000 [], plain_call 0x1000 []]"
proof -
  let ?s = "ex_machine ex_exit"
  have r: "bm_read ex_exit 0x10 12 = Inr (le_bytes 4 0x1C @ le_bytes 4 0x24 @ le_bytes 4 0x24)"
      "bm_read ex_exit 0x1C 8 = Inr (concat (map (le_bytes 4) [0x1000, 0x2000]))"
    by code_simp+
  have "onexit_table ex_crt ?s 0x10 0x1C 0x24 0x24" "onexit_array ex_crt ?s 0x1C [0x1000, 0x2000]"
    using r by (simp_all add: onexit_table_def onexit_array_def pointer_ok_def reads_def)
  moreover have "keeps_range ex_crt (\<lambda>_ s. (0, s)) a n" for a n by (simp add: keeps_range_def)
  ultimately show ?thesis
    using exit_functions_in_reverse [OF ex.crt_memory_axioms, where p = 4 and s = ?s and table = "0x10" and x = "0x1C"
        and fs = "[0x1000, 0x2000]" and z = "0x24" and rounds = 3 and g = "\<lambda>_ s. (0, s)"]
    by (simp add: no_array_def pointer_ok_def)
qed

text \<open>Two elements of one byte, ordered by their values.\<close>

definition ex_array :: byte_mem where "ex_array = bm_of 0x10 [3, 1]"

definition ex_compare :: "byte_mem world emu guest" where
  "ex_compare q s = ((if gc_args q = [0x10, 0x11] then 1 else 0xFFFFFFFF), s)"

lemma qsort_sorts_stably_witness:
  "\<exists>tr t. play (qsort ex_crt 0x10 2 1 0x4000) ex_compare (ex_machine ex_array) = (tr, Inr (), t)
     \<and> reads ex_crt t 0x10 [1, 3]"
proof -
  let ?s = "ex_machine ex_array" and ?e = "[[3], [1]] :: byte list list" and ?k = "\<lambda>e :: byte list. uint (hd e)"
  have r: "bm_read ex_array 0x10 2 = Inr [3, 1]" by code_simp
  have two: "(\<forall>i<2. P i) \<longleftrightarrow> P 0 \<and> P (1 :: nat)" for P by (auto simp: less_2_cases_iff)
  have g: "says_greater 1" "\<not> says_greater 0xFFFFFFFF" by (simp_all add: says_greater_def call_result_def)
  have "orders_by ex_crt ex_compare 0x10 1 0x4000 ?e ?k (\<lambda>t. t = ?s)"
    using r g by (simp add: orders_by_def reads_def two ex_compare_def plain_call_def element_at_def numeral_2_eq_2 [symmetric])
  moreover have "sort_key ?k ?e = [[1], [3]]" by simp
  ultimately show ?thesis
    using qsort_sorts_stably [OF ex.crt_memory_axioms, of ex_compare "0x10" 1 "0x4000" ?e ?k "\<lambda>t. t = ?s" ?s]
    by (simp add: numeral_2_eq_2 [symmetric])
qed

end
