(* ===== verification/Structs.thy ===== *)
theory Structs
  imports Bytes
begin

text \<open>
  The guest structures of \<^verbatim>\<open>struct.py\<close>: the \<open>ctypes\<close> types with the layout of Microsoft's compiler, the
  classes that declare fields (\<open>cls\<close>), the creation of an instance with its nested instances (\<open>create_struct\<close>), and
  the operations of an instance: \<open>cast\<close>, \<open>struct_bytes\<close>, the reads and writes of attributes.
\<close>

subsection \<open>The types of ctypes\<close>

text \<open>
  \<open>CInt\<close> is an integer type with its sign and its width, \<open>CVoidP\<close> is \<open>c_void_p\<close> of a 64-bit host. A
  structure has its name, whether it is a union, \<open>_pack_\<close> and \<open>_fields_\<close>. Two structures with the same of these are the
  same type, as \<open>EmuStruct.__types__\<close> makes them.
\<close>

datatype width = I8 | I16 | I32 | I64

primrec wbytes :: "width \<Rightarrow> nat" where
  "wbytes I8 = 1"
| "wbytes I16 = 2"
| "wbytes I32 = 4"
| "wbytes I64 = 8"

datatype ctype =
    CInt bool width
  | CVoidP
  | CArr ctype nat
  | CStruct string bool nat "(string \<times> ctype) list"

definition round_up :: "nat \<Rightarrow> nat \<Rightarrow> nat" where
  "round_up n a = (n + a - 1) div a * a"

text \<open>\<open>_pack_ = 0\<close> does not limit the alignment.\<close>

definition pack_align :: "nat \<Rightarrow> nat \<Rightarrow> nat" where
  "pack_align p a = (if p = 0 then a else min p a)"

text \<open>
  \<open>_layout_ = "ms"\<close>: a field begins at the next multiple of its alignment, or of \<open>_pack_\<close> if that is less. The list
  has the size and the alignment of each field.
\<close>

fun ms_offsets :: "bool \<Rightarrow> nat \<Rightarrow> nat \<Rightarrow> (nat \<times> nat) list \<Rightarrow> nat list" where
  "ms_offsets u p pos [] = []"
| "ms_offsets u p pos ((s, a) # r) =
     (let off = (if u then 0 else round_up pos (pack_align p a)) in off # ms_offsets u p (off + s) r)"

fun ms_end :: "bool \<Rightarrow> nat \<Rightarrow> nat \<Rightarrow> (nat \<times> nat) list \<Rightarrow> nat" where
  "ms_end u p pos [] = pos"
| "ms_end u p pos ((s, a) # r) =
     ms_end u p (if u then max pos s else round_up pos (pack_align p a) + s) r"

primrec calign :: "ctype \<Rightarrow> nat" where
  "calign (CInt _ w) = wbytes w"
| "calign CVoidP = 8"
| "calign (CArr t n) = calign t"
| "calign (CStruct _ u p fs) = foldr max (map (\<lambda>(_, a). pack_align p a) (map (map_prod id calign) fs)) 1"

primrec csize :: "ctype \<Rightarrow> nat" where
  "csize (CInt _ w) = wbytes w"
| "csize CVoidP = 8"
| "csize (CArr t n) = n * csize t"
| "csize (CStruct nm u p fs) =
     round_up (ms_end u p 0 (zip (map snd (map (map_prod id csize) fs)) (map (\<lambda>(_, t). calign t) fs)))
       (calign (CStruct nm u p fs))"

primrec cfields :: "ctype \<Rightarrow> (string \<times> ctype) list" where
  "cfields (CInt _ _) = []"
| "cfields CVoidP = []"
| "cfields (CArr _ _) = []"
| "cfields (CStruct _ _ _ fs) = fs"

definition spans :: "(string \<times> ctype) list \<Rightarrow> (nat \<times> nat) list" where
  "spans fs = map (\<lambda>(_, t). (csize t, calign t)) fs"

fun offsets_of :: "ctype \<Rightarrow> nat list" where
  "offsets_of (CStruct _ u p fs) = ms_offsets u p 0 (spans fs)"
| "offsets_of t = []"

text \<open>The type of a field, and \<open>getattr(cstruct, name).offset\<close>.\<close>

definition field_type_of :: "ctype \<Rightarrow> string \<Rightarrow> ctype option" where
  "field_type_of t n = map_of (cfields t) n"

definition field_offset :: "ctype \<Rightarrow> string \<Rightarrow> nat option" where
  "field_offset t n = map_of (zip (map fst (cfields t)) (offsets_of t)) n"

subsection \<open>Declarations of classes\<close>

text \<open>
  What an attribute of a class can be when \<open>create_struct\<close> looks at it: \<open>Ptr\<close>, \<open>Ptr * n\<close>, a type of \<open>ctypes\<close>,
  a class of structures, such a class times \<open>n\<close>, or something else. An annotation is \<open>Annotated\<close> or plain. The
  statements of an \<open>__init__\<close> are calls of \<open>add_fields\<close> and assignments of attributes.
\<close>

datatype 'c field_type = FPtr | FPtrs nat | FC ctype | FCls 'c | FClss 'c nat | FOther

datatype 'c hint = Annotated "'c field_type" | Plain "'c field_type"

datatype 'c init_stmt = AddFields "(string \<times> 'c field_type) list" | SetField string "'c field_type"

text \<open>The parameters of a constructor: \<open>(ptr_size, pack)\<close>, the inherited one, \<open>(ptr_size)\<close> or none.\<close>

datatype ctor = TakesPack | TakesPtr | TakesNone

text \<open>
  A class: its name, whether it is an \<open>EmuUnion\<close>, its constructor, the annotations of each class of the method
  resolution order (the bases first), and the statements of \<open>__init__\<close> after the super call.
\<close>

datatype cls = Cls (cls_name: string) (cls_union: bool) (cls_ctor: ctor)
  (cls_hints: "(string \<times> cls hint) list list") (cls_init: "cls init_stmt list")

definition type_hints :: "(string \<times> cls hint) list list \<Rightarrow> (string \<times> cls hint) list" where
  "type_hints mro = foldl (\<lambda>d anns. foldl (\<lambda>d (k, v). AList.update k v d) d anns) [] mro"

fun declared :: "string \<times> cls hint \<Rightarrow> (string \<times> cls field_type) option" where
  "declared (n, Annotated ft) = Some (n, ft)"
| "declared (n, Plain (FCls c)) = Some (n, FCls c)"
| "declared (n, Plain ft) = None"

definition get_declared_fields :: "cls \<Rightarrow> (string \<times> cls field_type) list" where
  "get_declared_fields c = List.map_filter declared (type_hints (cls_hints c))"

text \<open>\<open>add_fields\<close> moves a field that is there already to the end; an assignment keeps its place.\<close>

fun run_init_stmt :: "(string \<times> cls field_type) list \<Rightarrow> cls init_stmt \<Rightarrow> (string \<times> cls field_type) list" where
  "run_init_stmt d (AddFields fs) = foldl (\<lambda>d (k, v). AList.delete k d @ [(k, v)]) d fs"
| "run_init_stmt d (SetField k v) = AList.update k v d"

definition class_dict :: "cls \<Rightarrow> (string \<times> cls field_type) list" where
  "class_dict c = foldl run_init_stmt (get_declared_fields c) (cls_init c)"

subsection \<open>Instances\<close>

text \<open>
  A value of a \<open>ctypes\<close> field: an integer, \<open>None\<close>, \<open>bytes\<close>, or an instance of an array or structure type.
  An instance of a class has its \<open>__struct__\<close> (the type and the bytes), the nested instances of \<open>__filtermap__\<close>, and the
  Python attributes that are no fields.
\<close>

datatype cvalue = VInt int | VNone | VBytes "byte list" | VC ctype "byte list"

datatype 'o nested = One 'o | Many "'o list"

datatype estruct = EStruct (es_type: ctype) (es_data: "byte list")
  (es_filter: "(string \<times> estruct nested) list") (es_attrs: "(string \<times> cvalue) list")

definition get_ptr_field :: "nat \<Rightarrow> ctype" where
  "get_ptr_field ptr_size = (if ptr_size = 4 then CInt False I32 else if ptr_size = 8 then CInt False I64 else CVoidP)"

definition get_pack :: "nat \<Rightarrow> nat \<Rightarrow> nat" where
  "get_pack ptr_size pack = (if pack \<noteq> 0 then pack else if ptr_size \<noteq> 0 then ptr_size * 2 else 1)"

primrec rmap :: "('a \<Rightarrow> 'b result) \<Rightarrow> 'a list \<Rightarrow> 'b list result" where
  "rmap f [] = Inr []"
| "rmap f (x # xs) = rbind (f x) (\<lambda>y. rbind (rmap f xs) (\<lambda>ys. Inr (y # ys)))"

lemma rmap_cong [fundef_cong]:
  "xs = ys \<Longrightarrow> (\<And>x. x \<in> set ys \<Longrightarrow> f x = g x) \<Longrightarrow> rmap f xs = rmap g ys"
  by (induction ys arbitrary: xs) auto

text \<open>A class that a field names is smaller than the class that declares the field.\<close>

lemma set_update: "x \<in> set (AList.update k v d) \<Longrightarrow> x \<in> set d \<or> x = (k, v)"
  by (induction d) (auto split: if_splits)

lemma set_updates: "x \<in> set (foldl (\<lambda>d (k, v). AList.update k v d) d us) \<Longrightarrow> x \<in> set d \<union> set us"
  by (induction us arbitrary: d) (fastforce dest: set_update)+

lemma set_hints:
  "x \<in> set (foldl (\<lambda>d anns. foldl (\<lambda>d (k, v). AList.update k v d) d anns) d uss)
    \<Longrightarrow> x \<in> set d \<or> (\<exists>us \<in> set uss. x \<in> set us)"
  by (induction uss arbitrary: d) (fastforce dest: set_updates)+

lemma set_moves: "x \<in> set (foldl (\<lambda>d (k, v). AList.delete k d @ [(k, v)]) d us) \<Longrightarrow> x \<in> set d \<union> set us"
  by (induction us arbitrary: d) (fastforce simp: AList.delete_eq)+

fun stmt_fields :: "cls init_stmt \<Rightarrow> (string \<times> cls field_type) list" where
  "stmt_fields (AddFields fs) = fs"
| "stmt_fields (SetField k v) = [(k, v)]"

lemma set_init_stmts:
  "x \<in> set (foldl run_init_stmt d sts) \<Longrightarrow> x \<in> set d \<or> (\<exists>st \<in> set sts. x \<in> set (stmt_fields st))"
proof (induction sts arbitrary: d)
  case (Cons st sts)
  from Cons.prems have "x \<in> set (run_init_stmt d st) \<or> (\<exists>st \<in> set sts. x \<in> set (stmt_fields st))"
    using Cons.IH by simp
  then show ?case by (cases st) (auto dest: set_moves set_update)
qed simp

abbreviation ft_size :: "cls field_type \<Rightarrow> nat" where
  "ft_size \<equiv> size_field_type size"

lemma declared_size: "declared (n, h) = Some (m, ft) \<Longrightarrow> ft_size ft < size_hint size h"
  by (cases "(n, h)" rule: declared.cases) auto

lemma stmt_size: "(n, ft) \<in> set (stmt_fields st) \<Longrightarrow> ft_size ft \<le> size_init_stmt size st"
proof (cases st)
  case (AddFields fs)
  assume "(n, ft) \<in> set (stmt_fields st)"
  with AddFields have "ft_size ft \<le> size_list (size_prod (\<lambda>_. 0) ft_size) fs"
    by (intro size_list_estimation' [of "(n, ft)"]) auto
  with AddFields show ?thesis by simp
qed auto

lemma hint_size: "(n, h) \<in> set us \<Longrightarrow> us \<in> set mro
    \<Longrightarrow> size_hint size h \<le> size_list (size_list (size_prod (\<lambda>_. 0) (size_hint size))) (mro :: (string \<times> cls hint) list list)"
  by (rule size_list_estimation' [of us], assumption, rule size_list_estimation' [of "(n, h)"]) auto

lemma class_dict_size:
  assumes "(n, ft) \<in> set (class_dict c)"
  shows "ft_size ft < size c"
proof (cases c)
  case (Cls nm u k mro sts)
  from assms consider "(n, ft) \<in> set (get_declared_fields c)" | st where "st \<in> set sts" "(n, ft) \<in> set (stmt_fields st)"
    unfolding class_dict_def using set_init_stmts Cls by fastforce
  then show ?thesis
  proof cases
    case 1
    then obtain m h where h: "(m, h) \<in> set (type_hints mro)" "declared (m, h) = Some (n, ft)"
      by (auto simp: get_declared_fields_def Cls List.map_filter_def)
    then obtain us where "us \<in> set mro" "(m, h) \<in> set us"
      by (auto simp: type_hints_def dest: set_hints)
    from hint_size [OF this(2,1)] declared_size [OF h(2)] show ?thesis by (simp add: Cls)
  next
    case (2 st)
    have "size_init_stmt size st \<le> size_list (size_init_stmt size) sts"
      using 2(1) by (rule size_list_estimation') simp
    with stmt_size [OF 2(2)] show ?thesis by (simp add: Cls)
  qed
qed

lemma class_dict_cls_size:
  "(n, FCls c') \<in> set (class_dict c) \<Longrightarrow> size c' < size c"
  "(n, FClss c' k) \<in> set (class_dict c) \<Longrightarrow> size c' < size c"
  using class_dict_size [of n "FCls c'" c] class_dict_size [of n "FClss c' k" c] by simp_all

subsection \<open>Creation\<close>

text \<open>The fields with their types and nested instances become the type and an instance that is all zero.\<close>

definition init_struct :: "nat \<Rightarrow> nat \<Rightarrow> cls \<Rightarrow> (string \<times> ctype \<times> estruct nested option) list \<Rightarrow> estruct" where
  "init_struct ptr_size pack c parts =
     (let t = CStruct (''ct'' @ cls_name c @ dec_nat ptr_size) (cls_union c) (get_pack ptr_size pack)
                (map (\<lambda>(d, ft, _). (d, ft)) parts)
      in EStruct t (replicate (csize t) 0) (List.map_filter (\<lambda>(d, _, sub). map_option (Pair d) sub) parts) [])"

text \<open>
  \<open>create_struct\<close> looks at each attribute. A nested class gets \<open>(ptr_size, pack)\<close>, or \<open>(ptr_size)\<close> if it does not accept
  these; a nested class with the name of the class itself adds no field.
\<close>

function create_struct :: "nat \<Rightarrow> nat \<Rightarrow> cls \<Rightarrow> estruct result" where
  "create_struct ptr_size pack c =
     rbind (rmap (\<lambda>(d, obj). case obj of
         FPtr \<Rightarrow> Inr [(d, get_ptr_field ptr_size, None)]
       | FPtrs n \<Rightarrow> Inr [(d, CArr (get_ptr_field ptr_size) n, None)]
       | FC t \<Rightarrow> Inr [(d, t, None)]
       | FCls c' \<Rightarrow>
           if cls_name c' = cls_name c then Inr []
           else rbind (case cls_ctor c' of
                 TakesPack \<Rightarrow> create_struct ptr_size pack c'
               | TakesPtr \<Rightarrow> create_struct ptr_size 0 c'
               | TakesNone \<Rightarrow> Inl EmuStructException)
             (\<lambda>sub. Inr [(d, es_type sub, Some (One sub))])
       | FClss c' n \<Rightarrow>
           rbind (case cls_ctor c' of
               TakesPack \<Rightarrow> create_struct ptr_size pack c'
             | TakesPtr \<Rightarrow> create_struct ptr_size 0 c'
             | TakesNone \<Rightarrow> Inl EmuStructException)
           (\<lambda>sub. Inr [(d, CArr (es_type sub) n, Some (Many (replicate n sub)))])
       | FOther \<Rightarrow> Inr []) (class_dict c))
     (\<lambda>parts. Inr (init_struct ptr_size pack c (concat parts)))"
  by pat_completeness auto
termination
  by (relation "measure (\<lambda>(_, _, c). size c)") (auto dest: class_dict_cls_size)

declare create_struct.simps [simp del]

subsection \<open>Bytes in and out\<close>

definition put_bytes :: "byte list \<Rightarrow> nat \<Rightarrow> byte list \<Rightarrow> byte list" where
  "put_bytes d off bs = take off d @ bs @ drop (off + length bs) d"

text \<open>
  \<open>_link_cstructs\<close>: each nested instance is linked itself and then copied into its field. \<open>ctypes\<close> copies only
  instances of the type of the field.
\<close>

definition set_cfield :: "ctype \<Rightarrow> string \<Rightarrow> ctype \<Rightarrow> byte list \<Rightarrow> byte list \<Rightarrow> byte list result" where
  "set_cfield t n vt bs d =
     (case field_offset t n of
        None \<Rightarrow> Inl AttributeError
      | Some off \<Rightarrow> if field_type_of t n = Some vt then Inr (put_bytes d off bs) else Inl TypeError)"

function link_cstructs :: "estruct \<Rightarrow> estruct result"
  and link_fields :: "ctype \<Rightarrow> (string \<times> estruct nested) list \<Rightarrow> byte list
    \<Rightarrow> ((string \<times> estruct nested) list \<times> byte list) result"
  and link_elems :: "ctype \<Rightarrow> nat \<Rightarrow> estruct list \<Rightarrow> byte list \<Rightarrow> (estruct list \<times> byte list) result" where
  "link_cstructs (EStruct t d fm at) =
     rbind (link_fields t fm d) (\<lambda>(fm', d'). Inr (EStruct t d' fm' at))"
| "link_fields t [] d = Inr ([], d)"
| "link_fields t ((n, One sub) # fm) d =
     rbind (link_cstructs sub) (\<lambda>sub'.
     rbind (set_cfield t n (es_type sub') (es_data sub') d) (\<lambda>d'.
     rbind (link_fields t fm d') (\<lambda>(fm', d''). Inr ((n, One sub') # fm', d''))))"
| "link_fields t ((n, Many subs) # fm) d =
     (case field_offset t n of
        None \<Rightarrow> Inl AttributeError
      | Some off \<Rightarrow>
         (case field_type_of t n of
            Some (CArr et k) \<Rightarrow>
              if length subs < k then Inl IndexError
              else rbind (link_elems et off (take k subs) d) (\<lambda>(subs', d').
                   rbind (link_fields t fm d') (\<lambda>(fm', d''). Inr ((n, Many (subs' @ drop k subs)) # fm', d'')))
          | _ \<Rightarrow> Inl TypeError))"
| "link_elems et off [] d = Inr ([], d)"
| "link_elems et off (sub # subs) d =
     rbind (link_cstructs sub) (\<lambda>sub'.
       if es_type sub' \<noteq> et then Inl TypeError
       else rbind (link_elems et (off + csize et) subs (put_bytes d off (es_data sub')))
              (\<lambda>(subs', d'). Inr (sub' # subs', d')))"
  by pat_completeness auto

lemma size_list_take: "size_list f (take k xs) \<le> size_list f xs"
  by (induction xs arbitrary: k) (auto simp: take_Cons split: nat.split)

termination link_cstructs
  by (relation "measure (case_sum size (case_sum
        (\<lambda>(_, fm, _). size_list (size_prod (\<lambda>_. 0) (size_nested size)) fm) (\<lambda>(_, _, os, _). size_list size os)))")
     (auto simp: less_Suc_eq_le intro: le_trans [OF size_list_take])

text \<open>\<open>struct_bytes\<close> returns the linked instance and its bytes.\<close>

definition struct_bytes :: "estruct \<Rightarrow> (estruct \<times> byte list) result" where
  "struct_bytes self = rbind (link_cstructs self) (\<lambda>s. Inr (s, es_data s))"

definition sizeof :: "estruct \<Rightarrow> nat" where
  "sizeof self = csize (es_type self)"

text \<open>
  \<open>_deep_cast\<close>: \<open>from_buffer\<close> raises \<open>ValueError\<close> if less bytes than the size are left. The fields that have a nested
  instance are those of \<open>__filtermap__\<close>, in the same order. \<open>ctypes\<close> would raise \<open>AttributeError\<close> for no such field.
\<close>

function deep_cast :: "byte list \<Rightarrow> nat \<Rightarrow> estruct \<Rightarrow> estruct result"
  and deep_cast_fields :: "ctype \<Rightarrow> byte list \<Rightarrow> nat \<Rightarrow> (string \<times> estruct nested) list
    \<Rightarrow> (string \<times> estruct nested) list result"
  and deep_cast_elems :: "byte list \<Rightarrow> nat \<Rightarrow> nat \<Rightarrow> estruct list \<Rightarrow> estruct list result" where
  "deep_cast bs off (EStruct t d fm at) =
     (if length (drop off bs) < csize t then Inl ValueError
      else rbind (deep_cast_fields t bs off fm) (\<lambda>fm'. Inr (EStruct t (take (csize t) (drop off bs)) fm' at)))"
| "deep_cast_fields t bs off [] = Inr []"
| "deep_cast_fields t bs off ((n, One sub) # fm) =
     (case field_offset t n of
        None \<Rightarrow> Inl AttributeError
      | Some fo \<Rightarrow> rbind (deep_cast bs (off + fo) sub) (\<lambda>sub'.
          rbind (deep_cast_fields t bs off fm) (\<lambda>fm'. Inr ((n, One sub') # fm'))))"
| "deep_cast_fields t bs off ((n, Many subs) # fm) =
     (case field_offset t n of
        None \<Rightarrow> Inl AttributeError
      | Some fo \<Rightarrow> rbind (deep_cast_elems bs (off + fo) 0 subs) (\<lambda>subs'.
          rbind (deep_cast_fields t bs off fm) (\<lambda>fm'. Inr ((n, Many subs') # fm'))))"
| "deep_cast_elems bs fo i [] = Inr []"
| "deep_cast_elems bs fo i (sub # subs) =
     rbind (deep_cast bs (fo + i * sizeof sub) sub) (\<lambda>sub'.
     rbind (deep_cast_elems bs fo (Suc i) subs) (\<lambda>subs'. Inr (sub' # subs')))"
  by pat_completeness auto

termination deep_cast
  by (relation "measure (case_sum (\<lambda>(_, _, s). size s) (case_sum
        (\<lambda>(_, _, _, fm). size_list (size_prod (\<lambda>_. 0) (size_nested size)) fm) (\<lambda>(_, _, _, os). size_list size os)))") auto

definition cast_struct :: "estruct \<Rightarrow> byte list \<Rightarrow> estruct result" where
  "cast_struct self bs = deep_cast bs 0 self"

subsection \<open>Attributes\<close>

text \<open>
  The conversion of a value to a field type, as \<open>ctypes\<close> does it: integers are cut to the width, \<open>c_void_p\<close> accepts
  \<open>None\<close>, an array or a structure accepts an instance of its own type.
\<close>

fun cvalue_bytes :: "ctype \<Rightarrow> cvalue \<Rightarrow> byte list result" where
  "cvalue_bytes (CInt _ w) (VInt v) = Inr (le_bytes (wbytes w) v)"
| "cvalue_bytes CVoidP (VInt v) = Inr (le_bytes 8 v)"
| "cvalue_bytes CVoidP VNone = Inr (le_bytes 8 0)"
| "cvalue_bytes (CArr et k) (VC vt bs) = (if vt = CArr et k then Inr bs else Inl TypeError)"
| "cvalue_bytes (CStruct nm u p fs) (VC vt bs) = (if vt = CStruct nm u p fs then Inr bs else Inl TypeError)"
| "cvalue_bytes _ _ = Inl TypeError"

text \<open>\<open>barray[: len(value)] = value\<close>: one element for each byte, and as many bytes as the slice has elements.\<close>

fun slice_bytes :: "ctype \<Rightarrow> byte list \<Rightarrow> byte list result" where
  "slice_bytes (CArr et k) bs =
     (if k < length bs then Inl ValueError
      else rbind (rmap (\<lambda>b. cvalue_bytes et (VInt (uint b))) bs) (\<lambda>es. Inr (concat es)))"
| "slice_bytes _ bs = Inl TypeError"

definition setattr :: "estruct \<Rightarrow> string \<Rightarrow> cvalue \<Rightarrow> estruct result" where
  "setattr self n v =
     (case (field_type_of (es_type self) n, field_offset (es_type self) n) of
        (Some ft, Some off) \<Rightarrow>
          rbind (case v of VBytes bs \<Rightarrow> slice_bytes ft bs | _ \<Rightarrow> cvalue_bytes ft v) (\<lambda>bs.
            Inr (EStruct (es_type self) (put_bytes (es_data self) off bs) (es_filter self) (es_attrs self)))
      | _ \<Rightarrow> Inr (EStruct (es_type self) (es_data self) (es_filter self) (AList.update n v (es_attrs self))))"

fun cvalue_of :: "ctype \<Rightarrow> byte list \<Rightarrow> cvalue" where
  "cvalue_of (CInt sg w) bs = VInt (if sg then signed_of (8 * wbytes w) (le_val bs) else le_val bs)"
| "cvalue_of CVoidP bs = (if le_val bs = 0 then VNone else VInt (le_val bs))"
| "cvalue_of t bs = VC t bs"

datatype struct_attr = Value cvalue | Nested "estruct nested"

text \<open>\<open>if filt_obj\<close> is false for an empty list, and then the array itself is the value.\<close>

definition getattr :: "estruct \<Rightarrow> string \<Rightarrow> struct_attr result" where
  "getattr self n =
     (case (field_type_of (es_type self) n, field_offset (es_type self) n) of
        (Some ft, Some off) \<Rightarrow>
          (case map_of (es_filter self) n of
             Some sub \<Rightarrow>
               if sub = Many [] then Inr (Value (cvalue_of ft (take (csize ft) (drop off (es_data self)))))
               else Inr (Nested sub)
           | None \<Rightarrow> Inr (Value (cvalue_of ft (take (csize ft) (drop off (es_data self))))))
      | _ \<Rightarrow> (case map_of (es_attrs self) n of Some v \<Rightarrow> Inr (Value v) | None \<Rightarrow> Inl AttributeError))"

text \<open>
  An assignment to a field of a nested instance, as \<open>self.name.field = value\<close>: the nested instance is shared with the
  parent, so the parent has the changed one.
\<close>

fun set_path :: "estruct \<Rightarrow> string list \<Rightarrow> cvalue \<Rightarrow> estruct result" where
  "set_path self [] v = Inl TypeError"
| "set_path self [n] v = setattr self n v"
| "set_path self (n # m # ns) v =
     rbind (getattr self n) (\<lambda>a. case a of
       Nested (One sub) \<Rightarrow> rbind (set_path sub (m # ns) v) (\<lambda>sub'.
         Inr (EStruct (es_type self) (es_data self) (AList.update n (One sub') (es_filter self)) (es_attrs self)))
     | _ \<Rightarrow> Inl AttributeError)"

end
