(* ===== verification/Struct_Properties.thy ===== *)
theory Struct_Properties
  imports Structs
begin

text \<open>
  What the structures of \<^verbatim>\<open>struct.py\<close> promise: the layout puts each field inside the structure, aligned and
  apart from the others; an instance stays well typed under every operation; \<open>struct_bytes\<close> after \<open>cast\<close> gives the bytes
  again.
\<close>

subsection \<open>Layout\<close>

lemma round_up_ge: "0 < a \<Longrightarrow> n \<le> round_up n a"
proof -
  assume "0 < a"
  then have "(n + a - 1) mod a < a" by simp
  moreover have "n + a - 1 = (n + a - 1) div a * a + (n + a - 1) mod a" by simp
  ultimately show ?thesis unfolding round_up_def by linarith
qed

lemma round_up_dvd: "a dvd round_up n a"
  by (simp add: round_up_def)

lemma wbytes_pos [simp]: "0 < wbytes w"
  by (cases w) auto

lemma foldr_max_ge: "(k::nat) \<le> foldr max xs k"
  by (induction xs) auto

lemma calign_pos [simp]: "0 < calign t"
proof (induction t)
  case (CStruct nm u p fs)
  have "1 \<le> foldr max (map (\<lambda>(_, a). pack_align p a) (map (map_prod id calign) fs)) 1"
    by (rule foldr_max_ge)
  then show ?case by simp
qed auto

lemma pack_align_pos: "0 < a \<Longrightarrow> 0 < pack_align p a"
  by (simp add: pack_align_def)

lemma spans_zip: "zip (map snd (map (map_prod id csize) fs)) (map (\<lambda>(_, t). calign t) fs) = spans fs"
  by (induction fs) (auto simp: spans_def)

lemma csize_struct: "csize (CStruct nm u p fs) = round_up (ms_end u p 0 (spans fs)) (calign (CStruct nm u p fs))"
  by (simp only: csize.simps spans_zip)

lemma length_ms_offsets [simp]: "length (ms_offsets u p pos xs) = length xs"
  by (induction u p pos xs rule: ms_offsets.induct) (auto simp: Let_def)

lemma length_spans [simp]: "length (spans fs) = length fs"
  by (simp add: spans_def)

lemma ms_end_ge: "\<forall>x \<in> set xs. 0 < snd x \<Longrightarrow> pos \<le> ms_end u p pos xs"
proof (induction u p pos xs rule: ms_end.induct)
  case (2 u p pos s a r)
  have "pos \<le> round_up pos (pack_align p a)"
    using 2(2) by (intro round_up_ge pack_align_pos) simp
  then show ?case using 2 by fastforce
qed simp

lemma ms_offsets_ge:
  "\<forall>x \<in> set xs. 0 < snd x \<Longrightarrow> i < length xs \<Longrightarrow> \<not> u \<Longrightarrow> pos \<le> ms_offsets u p pos xs ! i"
proof (induction u p pos xs arbitrary: i rule: ms_offsets.induct)
  case (2 u p pos s a r)
  have "pos \<le> round_up pos (pack_align p a)"
    using 2(2) by (intro round_up_ge pack_align_pos) simp
  then show ?case using 2 by (cases i) (fastforce simp: Let_def)+
qed simp

lemma ms_offsets_union: "i < length xs \<Longrightarrow> u \<Longrightarrow> ms_offsets u p pos xs ! i = 0"
  by (induction u p pos xs arbitrary: i rule: ms_offsets.induct) (auto simp: Let_def nth_Cons split: nat.split)

lemma ms_offsets_aligned: "i < length xs \<Longrightarrow> pack_align p (snd (xs ! i)) dvd ms_offsets u p pos xs ! i"
  by (induction u p pos xs arbitrary: i rule: ms_offsets.induct)
    (auto simp: Let_def nth_Cons round_up_dvd split: nat.split)

lemma ms_offsets_inside:
  "\<forall>x \<in> set xs. 0 < snd x \<Longrightarrow> i < length xs \<Longrightarrow>
    (if u then 0 else ms_offsets u p pos xs ! i) + fst (xs ! i) \<le> ms_end u p pos xs"
proof (induction xs arbitrary: i pos)
  case (Cons x xs)
  obtain s a where x: "x = (s, a)" by (cases x)
  show ?case
  proof (cases i)
    case 0
    have "(if u then max pos s else round_up pos (pack_align p a) + s)
      \<le> ms_end u p (if u then max pos s else round_up pos (pack_align p a) + s) xs"
      using Cons.prems by (intro ms_end_ge) simp
    with 0 x show ?thesis by (auto simp: Let_def)
  next
    case (Suc j)
    have "(if u then 0 else ms_offsets u p (round_up pos (pack_align p a) + s) xs ! j) + fst (xs ! j)
      \<le> ms_end u p (if u then max pos s else round_up pos (pack_align p a) + s) xs"
      using Cons.IH [of j "if u then max pos s else round_up pos (pack_align p a) + s"] Cons.prems Suc
      by (simp split: if_splits)
    with Suc x show ?thesis by (auto simp: Let_def)
  qed
qed simp

lemma ms_offsets_apart:
  "\<forall>x \<in> set xs. 0 < snd x \<Longrightarrow> i < j \<Longrightarrow> j < length xs \<Longrightarrow>
    ms_offsets False p pos xs ! i + fst (xs ! i) \<le> ms_offsets False p pos xs ! j"
proof (induction xs arbitrary: i j pos)
  case (Cons x xs)
  obtain s a j' where x: "x = (s, a)" and j: "j = Suc j'" using Cons.prems by (cases x, cases j) auto
  show ?case
  proof (cases i)
    case 0
    have "round_up pos (pack_align p a) + s \<le> ms_offsets False p (round_up pos (pack_align p a) + s) xs ! j'"
      using Cons.prems j by (intro ms_offsets_ge) auto
    with 0 x j show ?thesis by (simp add: Let_def)
  next
    case (Suc i')
    with Cons.IH [of i' j'] Cons.prems x j show ?thesis by (simp add: Let_def)
  qed
qed simp

text \<open>The first field with a name, by its index.\<close>

lemma map_of_index:
  "map_of xs n = Some v \<Longrightarrow> \<exists>i < length xs. xs ! i = (n, v) \<and> (\<forall>j < i. fst (xs ! j) \<noteq> n)"
proof (induction xs)
  case (Cons x xs)
  show ?case
  proof (cases "fst x = n")
    case True
    with Cons.prems show ?thesis by (intro exI [of _ 0]) (cases x, auto)
  next
    case False
    with Cons obtain i where "i < length xs" "xs ! i = (n, v)" "\<forall>j < i. fst (xs ! j) \<noteq> n" by (cases x) auto
    with False show ?thesis by (intro exI [of _ "Suc i"]) (auto simp: nth_Cons split: nat.split)
  qed
qed simp

lemma map_of_zip_index:
  "\<lbrakk>i < length xs; length ys = length xs; fst (xs ! i) = n; \<forall>j < i. fst (xs ! j) \<noteq> n\<rbrakk>
    \<Longrightarrow> map_of (zip (map fst xs) ys) n = Some (ys ! i)"
proof (induction xs arbitrary: ys i)
  case (Cons x xs)
  then obtain y zs where ys: "ys = y # zs" by (cases ys) auto
  show ?case
  proof (cases i)
    case (Suc k)
    with Cons.prems have "fst x \<noteq> n" "\<forall>j < k. fst (xs ! j) \<noteq> n" by fastforce+
    with Cons.IH [of k zs] Cons.prems Suc ys show ?thesis by auto
  qed (use Cons.prems ys in simp)
qed simp

lemma length_offsets_of [simp]: "length (offsets_of t) = length (cfields t)"
  by (cases t) auto

lemma field_index:
  assumes "field_type_of t n = Some ft"
  obtains i where "i < length (cfields t)" "cfields t ! i = (n, ft)" "field_offset t n = Some (offsets_of t ! i)"
proof -
  obtain i where i: "i < length (cfields t)" "cfields t ! i = (n, ft)" "\<forall>j < i. fst (cfields t ! j) \<noteq> n"
    using map_of_index [OF assms [unfolded field_type_of_def]] by auto
  have "field_offset t n = Some (offsets_of t ! i)"
    unfolding field_offset_def using i by (intro map_of_zip_index) auto
  with i that show ?thesis by blast
qed

lemma spans_nth: "i < length fs \<Longrightarrow> fs ! i = (n, ft) \<Longrightarrow> spans fs ! i = (csize ft, calign ft)"
  by (simp add: spans_def)

lemma spans_pos: "\<forall>x \<in> set (spans fs). 0 < snd x"
  by (auto simp: spans_def)

text \<open>A field lies inside its structure.\<close>

lemma field_inside:
  assumes "field_type_of t n = Some ft" "field_offset t n = Some off"
  shows "off + csize ft \<le> csize t"
proof (cases t)
  case (CStruct nm u p fs)
  obtain i where i: "i < length fs" "fs ! i = (n, ft)" "off = ms_offsets u p 0 (spans fs) ! i"
    using assms CStruct by (elim field_index) auto
  have "off + csize ft \<le> ms_end u p 0 (spans fs)"
    using ms_offsets_inside [OF spans_pos, of i fs u p 0] ms_offsets_union [of i "spans fs" u p 0] i
    by (auto simp: spans_nth split: if_splits)
  also have "\<dots> \<le> csize t"
    unfolding CStruct csize_struct by (rule round_up_ge) (rule calign_pos)
  finally show ?thesis .
qed (use assms in \<open>auto simp: field_type_of_def\<close>)

lemma field_offset_some: "field_type_of t n = Some ft \<Longrightarrow> \<exists>off. field_offset t n = Some off"
  by (elim field_index) auto

lemma field_aligned:
  assumes "field_type_of (CStruct nm u p fs) n = Some ft" "field_offset (CStruct nm u p fs) n = Some off"
  shows "pack_align p (calign ft) dvd off"
proof -
  obtain i where "i < length fs" "fs ! i = (n, ft)" "off = ms_offsets u p 0 (spans fs) ! i"
    using assms by (elim field_index) auto
  then show ?thesis using ms_offsets_aligned [of i "spans fs" p u 0] by (simp add: spans_nth)
qed

lemma fields_apart:
  assumes "field_type_of (CStruct nm False p fs) n = Some ft" "field_offset (CStruct nm False p fs) n = Some off"
    "field_type_of (CStruct nm False p fs) m = Some gt" "field_offset (CStruct nm False p fs) m = Some pos" "n \<noteq> m"
  shows "off + csize ft \<le> pos \<or> pos + csize gt \<le> off"
proof -
  obtain i where i: "i < length fs" "fs ! i = (n, ft)" "off = ms_offsets False p 0 (spans fs) ! i"
    using assms(1,2) by (elim field_index) auto
  obtain j where j: "j < length fs" "fs ! j = (m, gt)" "pos = ms_offsets False p 0 (spans fs) ! j"
    using assms(3,4) by (elim field_index) auto
  have "i \<noteq> j" using i j assms(5) by auto
  then consider "i < j" | "j < i" by linarith
  then show ?thesis
    using ms_offsets_apart [OF spans_pos, of i j fs p 0] ms_offsets_apart [OF spans_pos, of j i fs p 0] i j
    by cases (auto simp: spans_nth)
qed

subsection \<open>Well-typed instances\<close>

text \<open>
  The bytes have the size of the type, and each nested instance is well typed and fits the type of its field.
\<close>

function obj_ok :: "estruct \<Rightarrow> bool"
  and filter_ok :: "ctype \<Rightarrow> (string \<times> estruct nested) list \<Rightarrow> bool"
  and elems_ok :: "ctype \<Rightarrow> estruct list \<Rightarrow> bool" where
  "obj_ok (EStruct t d fm at) = (length d = csize t \<and> distinct (map fst fm) \<and> filter_ok t fm)"
| "filter_ok t [] = True"
| "filter_ok t ((n, One sub) # fm) = (field_type_of t n = Some (es_type sub) \<and> obj_ok sub \<and> filter_ok t fm)"
| "filter_ok t ((n, Many subs) # fm) =
     ((case field_type_of t n of Some (CArr et k) \<Rightarrow> length subs = k \<and> elems_ok et subs | _ \<Rightarrow> False) \<and> filter_ok t fm)"
| "elems_ok et [] = True"
| "elems_ok et (sub # subs) = (es_type sub = et \<and> obj_ok sub \<and> elems_ok et subs)"
  by pat_completeness auto

termination obj_ok
  by (relation "measure (case_sum size (case_sum
        (\<lambda>(_, fm). size_list (size_prod (\<lambda>_. 0) (size_nested size)) fm) (\<lambda>(_, os). size_list size os)))") auto

lemma elems_ok_iff: "elems_ok et subs \<longleftrightarrow> (\<forall>s \<in> set subs. es_type s = et \<and> obj_ok s)"
  by (induction subs) auto

lemma obj_ok_iff:
  "obj_ok s \<longleftrightarrow> length (es_data s) = csize (es_type s) \<and> distinct (map fst (es_filter s)) \<and> filter_ok (es_type s) (es_filter s)"
  by (cases s) simp

text \<open>What a field of type \<open>ft\<close> can hold.\<close>

definition nested_ok :: "ctype \<Rightarrow> estruct nested \<Rightarrow> bool" where
  "nested_ok ft sub = (case sub of
     One s \<Rightarrow> ft = es_type s \<and> obj_ok s
   | Many subs \<Rightarrow> \<exists>et. ft = CArr et (length subs) \<and> elems_ok et subs)"

lemma filter_ok_iff:
  "filter_ok t fm \<longleftrightarrow> (\<forall>(n, sub) \<in> set fm. \<exists>ft. field_type_of t n = Some ft \<and> nested_ok ft sub)"
proof (induction fm)
  case (Cons x fm)
  obtain n sub where x: "x = (n, sub)" by (cases x)
  with Cons show ?case
    by (cases sub) (auto simp: nested_ok_def split: option.splits ctype.splits)
qed simp

lemma length_put_bytes: "off + length bs \<le> length d \<Longrightarrow> length (put_bytes d off bs) = length d"
  by (simp add: put_bytes_def)

lemma set_cfield_ok:
  assumes "field_type_of t n = Some vt" "length bs = csize vt" "length d = csize t"
  obtains off where "field_offset t n = Some off" "off + csize vt \<le> csize t"
    "set_cfield t n vt bs d = Inr (put_bytes d off bs)" "length (put_bytes d off bs) = csize t"
proof -
  from assms(1) obtain off where off: "field_offset t n = Some off" using field_offset_some by blast
  with assms(1) have "off + csize vt \<le> csize t" by (rule field_inside)
  with assms off that [of off] show ?thesis by (simp add: set_cfield_def length_put_bytes)
qed

lemma array_field_ok:
  assumes "field_type_of t n = Some (CArr et k)"
  obtains off where "field_offset t n = Some off" "off + k * csize et \<le> csize t"
  using assms field_offset_some [OF assms] field_inside [OF assms] that by auto

text \<open>The copies of the nested instances into their fields succeed and keep the types.\<close>

lemma link_ok:
  "obj_ok s \<Longrightarrow> \<exists>s'. link_cstructs s = Inr s' \<and> obj_ok s' \<and> es_type s' = es_type s"
  "filter_ok t fm \<Longrightarrow> length d = csize t \<Longrightarrow>
    \<exists>fm' d'. link_fields t fm d = Inr (fm', d') \<and> filter_ok t fm' \<and> map fst fm' = map fst fm \<and> length d' = csize t"
  "elems_ok et subs \<Longrightarrow> off + length subs * csize et \<le> length d \<Longrightarrow>
    \<exists>subs' d'. link_elems et off subs d = Inr (subs', d') \<and> elems_ok et subs' \<and> length subs' = length subs
      \<and> length d' = length d"
proof (induction s and t fm d and et off subs d rule: link_cstructs_link_fields_link_elems.induct)
  case (1 t d fm at)
  then show ?case by auto
next
  case (2 t d)
  then show ?case by simp
next
  case (3 t n sub fm d)
  then obtain sub' where sub': "link_cstructs sub = Inr sub'" "obj_ok sub'" "es_type sub' = es_type sub" by auto
  then have ft: "field_type_of t n = Some (es_type sub')" "length (es_data sub') = csize (es_type sub')"
    using 3 by (auto simp: obj_ok_iff)
  obtain off where put: "set_cfield t n (es_type sub') (es_data sub') d = Inr (put_bytes d off (es_data sub'))"
    "length (put_bytes d off (es_data sub')) = csize t"
    using set_cfield_ok [OF ft 3(4)] by metis
  from 3(2) [OF sub'(1) put(1) _ put(2)] 3(3) sub' ft put show ?case by auto
next
  case (4 t n subs fm d)
  then obtain et k where ft: "field_type_of t n = Some (CArr et k)" "length subs = k" "elems_ok et subs" "filter_ok t fm"
    by (auto split: option.splits ctype.splits)
  from ft(1) obtain off where off: "field_offset t n = Some off" "off + k * csize et \<le> csize t" by (rule array_field_ok)
  obtain subs' d' where el: "link_elems et off subs d = Inr (subs', d')" "elems_ok et subs'" "length subs' = length subs"
    "length d' = length d"
    using 4(1) [OF off(1) ft(1)] ft off 4(4) by auto
  obtain fm' d'' where "link_fields t fm d' = Inr (fm', d'')" "filter_ok t fm'" "map fst fm' = map fst fm" "length d'' = csize t"
    using 4(2) [OF off(1) ft(1) refl _ _ refl, of subs' d'] el ft 4(4) by auto
  with el ft off show ?case by simp
next
  case (5 et off d)
  then show ?case by simp
next
  case (6 et off sub subs d)
  then obtain sub' where sub': "link_cstructs sub = Inr sub'" "obj_ok sub'" "es_type sub' = et" by auto
  then have l: "length (es_data sub') = csize et" by (simp add: obj_ok_iff)
  have p: "length (put_bytes d off (es_data sub')) = length d"
    using 6(4) l by (simp add: length_put_bytes)
  obtain subs' d' where "link_elems et (off + csize et) subs (put_bytes d off (es_data sub')) = Inr (subs', d')"
    "elems_ok et subs'" "length subs' = length subs" "length d' = length d"
    using 6(2) [OF sub'(1)] 6(3,4) sub'(3) p by auto
  with sub' show ?case by simp
qed

text \<open>
  A cast of enough bytes succeeds, keeps the types, takes the bytes of each instance from its place, and leaves an
  instance that is linked already.
\<close>

definition part_of :: "byte list \<Rightarrow> nat \<Rightarrow> nat \<Rightarrow> byte list" where
  "part_of bs off n = take n (drop off bs)"

lemma length_part_of: "off + n \<le> length bs \<Longrightarrow> length (part_of bs off n) = n"
  by (simp add: part_of_def)

lemma put_part_of: "off + n \<le> m \<Longrightarrow> base + m \<le> length bs
    \<Longrightarrow> put_bytes (part_of bs base m) off (part_of bs (base + off) n) = part_of bs base m"
proof (rule nth_equalityI)
  assume a: "off + n \<le> m" "base + m \<le> length bs"
  then show l: "length (put_bytes (part_of bs base m) off (part_of bs (base + off) n)) = length (part_of bs base m)"
    by (simp add: length_put_bytes length_part_of)
  fix i assume "i < length (put_bytes (part_of bs base m) off (part_of bs (base + off) n))"
  with l a have "i < m" by (simp add: length_part_of)
  with a show "put_bytes (part_of bs base m) off (part_of bs (base + off) n) ! i = part_of bs base m ! i"
    by (auto simp: put_bytes_def part_of_def nth_append algebra_simps)
qed

lemma cast_ok:
  "obj_ok s \<Longrightarrow> off + csize (es_type s) \<le> length bs \<Longrightarrow>
    \<exists>s'. deep_cast bs off s = Inr s' \<and> obj_ok s' \<and> es_type s' = es_type s
      \<and> es_data s' = part_of bs off (csize (es_type s)) \<and> link_cstructs s' = Inr s'"
  "filter_ok t fm \<Longrightarrow> off + csize t \<le> length bs \<Longrightarrow>
    \<exists>fm'. deep_cast_fields t bs off fm = Inr fm' \<and> filter_ok t fm' \<and> map fst fm' = map fst fm
      \<and> link_fields t fm' (part_of bs off (csize t)) = Inr (fm', part_of bs off (csize t))"
  "elems_ok et subs \<Longrightarrow> off + (i + length subs) * csize et \<le> length bs \<Longrightarrow>
    \<exists>subs'. deep_cast_elems bs off i subs = Inr subs' \<and> elems_ok et subs' \<and> length subs' = length subs
      \<and> (\<forall>base m. base \<le> off \<longrightarrow> off + (i + length subs) * csize et \<le> base + m \<longrightarrow> base + m \<le> length bs \<longrightarrow>
           link_elems et (off - base + i * csize et) subs' (part_of bs base m) = Inr (subs', part_of bs base m))"
proof (induction bs off s and t bs off fm and bs off i subs arbitrary: and and et rule: deep_cast_deep_cast_fields_deep_cast_elems.induct)
  case (1 bs off t d fm at)
  then have "\<not> length (drop off bs) < csize t" by simp
  with 1 obtain fm' where "deep_cast_fields t bs off fm = Inr fm'" "filter_ok t fm'" "map fst fm' = map fst fm"
    "link_fields t fm' (part_of bs off (csize t)) = Inr (fm', part_of bs off (csize t))" by auto
  with 1 show ?case by (simp add: part_of_def)
next
  case (2 t bs off)
  then show ?case by simp
next
  case (3 t bs off n sub fm)
  then have ft: "field_type_of t n = Some (es_type sub)" "obj_ok sub" "filter_ok t fm" by auto
  then obtain fo where fo: "field_offset t n = Some fo" "fo + csize (es_type sub) \<le> csize t"
    using field_offset_some field_inside by metis
  obtain sub' where sub': "deep_cast bs (off + fo) sub = Inr sub'" "obj_ok sub'" "es_type sub' = es_type sub"
    "es_data sub' = part_of bs (off + fo) (csize (es_type sub))" "link_cstructs sub' = Inr sub'"
    using 3(1) [OF fo(1)] ft fo 3(4) by auto
  obtain fm' where fm': "deep_cast_fields t bs off fm = Inr fm'" "filter_ok t fm'" "map fst fm' = map fst fm"
    "link_fields t fm' (part_of bs off (csize t)) = Inr (fm', part_of bs off (csize t))"
    using 3(2) [OF fo(1) sub'(1)] ft 3(4) by auto
  have "set_cfield t n (es_type sub') (es_data sub') (part_of bs off (csize t)) = Inr (part_of bs off (csize t))"
    using fo ft sub' 3(4) by (simp add: set_cfield_def put_part_of)
  with sub' fm' ft fo show ?case by simp
next
  case (4 t bs off n subs fm)
  then obtain et k where ft: "field_type_of t n = Some (CArr et k)" "length subs = k" "elems_ok et subs" "filter_ok t fm"
    by (auto split: option.splits ctype.splits)
  from ft(1) obtain fo where fo: "field_offset t n = Some fo" "fo + k * csize et \<le> csize t" by (rule array_field_ok)
  obtain subs' where el: "deep_cast_elems bs (off + fo) 0 subs = Inr subs'" "elems_ok et subs'" "length subs' = length subs"
    and all: "\<And>base m. \<lbrakk>base \<le> off + fo; off + fo + length subs * csize et \<le> base + m; base + m \<le> length bs\<rbrakk> \<Longrightarrow>
       link_elems et (off + fo - base) subs' (part_of bs base m) = Inr (subs', part_of bs base m)"
    using 4(1) [OF fo(1) ft(3)] fo ft(2) 4(4) by auto
  have link: "link_elems et fo subs' (part_of bs off (csize t)) = Inr (subs', part_of bs off (csize t))"
    using all [of off "csize t"] fo ft(2) 4(4) by simp
  obtain fm' where fm': "deep_cast_fields t bs off fm = Inr fm'" "filter_ok t fm'" "map fst fm' = map fst fm"
    "link_fields t fm' (part_of bs off (csize t)) = Inr (fm', part_of bs off (csize t))"
    using 4(2) [OF fo(1) el(1)] ft 4(4) by auto
  from el link fm' ft fo show ?case by simp
next
  case (5 bs fo i)
  then show ?case by simp
next
  case (6 bs off i sub subs)
  then have e: "es_type sub = et" "obj_ok sub" "elems_ok et subs" by auto
  obtain sub' where sub': "deep_cast bs (off + i * csize et) sub = Inr sub'" "obj_ok sub'" "es_type sub' = et"
    "es_data sub' = part_of bs (off + i * csize et) (csize et)" "link_cstructs sub' = Inr sub'"
    using 6(1) e 6(4) by (auto simp: sizeof_def algebra_simps)
  have d: "deep_cast bs (off + i * sizeof sub) sub = Inr sub'" using sub'(1) e(1) by (simp add: sizeof_def)
  have b: "off + (Suc i + length subs) * csize et \<le> length bs" using 6(4) by simp
  obtain subs' where subs': "deep_cast_elems bs off (Suc i) subs = Inr subs'" "elems_ok et subs'" "length subs' = length subs"
    "\<And>base m. \<lbrakk>base \<le> off; off + (Suc i + length subs) * csize et \<le> base + m; base + m \<le> length bs\<rbrakk> \<Longrightarrow>
       link_elems et (off - base + Suc i * csize et) subs' (part_of bs base m) = Inr (subs', part_of bs base m)"
    using 6(2) [OF d e(3) b] by blast
  have "link_elems et (off - base + i * csize et) (sub' # subs') (part_of bs base m) = Inr (sub' # subs', part_of bs base m)"
    if b: "base \<le> off" "off + (i + length (sub # subs)) * csize et \<le> base + m" "base + m \<le> length bs" for base m
  proof -
    have "base + (off - base + i * csize et) = off + i * csize et" using b by simp
    then have p: "put_bytes (part_of bs base m) (off - base + i * csize et) (es_data sub') = part_of bs base m"
      using put_part_of [of "off - base + i * csize et" "csize et" m base bs] b sub'(4) by (auto simp: algebra_simps)
    have "link_elems et (off - base + i * csize et + csize et) subs' (part_of bs base m) = Inr (subs', part_of bs base m)"
      using subs'(4) [of base m] b by (auto simp: algebra_simps)
    with p sub' show ?thesis by simp
  qed
  with sub' subs' e show ?case by (simp add: sizeof_def)
qed

subsection \<open>Creation\<close>

lemma distinct_updates:
  "distinct (map fst d) \<Longrightarrow> distinct (map fst (foldl (\<lambda>d (k, v). AList.update k v d) d us))"
  by (induction us arbitrary: d) (auto simp: AList.distinct_update split: prod.split)

lemma distinct_moves:
  "distinct (map fst d) \<Longrightarrow> distinct (map fst (foldl (\<lambda>d (k, v). AList.delete k d @ [(k, v)]) d us))"
proof (induction us arbitrary: d)
  case (Cons u us)
  obtain k v where u: "u = (k, v)" by (cases u)
  have "distinct (map fst (AList.delete k d @ [(k, v)]))"
    using AList.distinct_delete [OF Cons.prems, of k] by (auto simp: AList.delete_eq)
  with Cons.IH u show ?case by simp
qed simp

lemma distinct_hints: "distinct (map fst (type_hints mro))"
proof -
  have "distinct (map fst d) \<Longrightarrow>
    distinct (map fst (foldl (\<lambda>d anns. foldl (\<lambda>d (k, v). AList.update k v d) d anns) d mro))" for d :: "(string \<times> cls hint) list"
    by (induction mro arbitrary: d) (auto simp: distinct_updates)
  then show ?thesis by (simp add: type_hints_def)
qed

lemma declared_name: "declared x = Some y \<Longrightarrow> fst y = fst x"
  by (cases x rule: declared.cases) auto

lemma map_filter_names:
  assumes "\<And>x y. g x = Some y \<Longrightarrow> fst y = fst x" "distinct (map fst xs)"
  shows "fst ` set (List.map_filter g xs) \<subseteq> fst ` set xs \<and> distinct (map fst (List.map_filter g xs))"
  using assms(2)
proof (induction xs)
  case (Cons x xs)
  show ?case
  proof (cases "g x")
    case (Some y)
    with assms(1) have y: "fst y = fst x" by blast
    have "fst x \<notin> fst ` set (List.map_filter g xs)" using Cons by auto
    with Cons Some y show ?thesis by (auto simp: List.map_filter_simps)
  qed (use Cons in \<open>auto simp: List.map_filter_simps\<close>)
qed (simp add: List.map_filter_simps)

lemma distinct_init_stmts: "distinct (map fst d) \<Longrightarrow> distinct (map fst (foldl run_init_stmt d sts))"
proof (induction sts arbitrary: d)
  case (Cons st sts)
  then show ?case by (cases st) (auto simp: distinct_moves AList.distinct_update)
qed simp

lemma distinct_class_dict: "distinct (map fst (class_dict c))"
  unfolding class_dict_def get_declared_fields_def
  by (intro distinct_init_stmts) (simp add: map_filter_names declared_name distinct_hints)

lemma rmap_parts:
  assumes "rmap f xs = Inr ps" "distinct (map fst xs)"
    "\<And>x p. x \<in> set xs \<Longrightarrow> f x = Inr p \<Longrightarrow> p = [] \<or> map fst p = [fst x]"
  shows "distinct (map fst (concat ps)) \<and> fst ` set (concat ps) \<subseteq> fst ` set xs"
  using assms
proof (induction xs arbitrary: ps)
  case (Cons x xs)
  then obtain q qs where q: "f x = Inr q" "rmap f xs = Inr qs" "ps = q # qs" by (auto simp: result_simps)
  have IH: "distinct (map fst (concat qs))" "fst ` set (concat qs) \<subseteq> fst ` set xs"
    using Cons.IH [OF q(2)] Cons.prems(2,3) by simp_all
  have "q = [] \<or> map fst q = [fst x]" using Cons.prems(3) q by simp
  then show ?case
  proof
    assume "map fst q = [fst x]"
    then obtain y where y: "q = [y]" "fst y = fst x" by auto
    have "fst x \<notin> fst ` set (concat qs)" using IH(2) Cons.prems(2) by (simp only: list.map distinct.simps set_map) blast
    with y IH q show ?thesis by (simp only: concat.simps append_Cons append_Nil list.map distinct.simps set_map) auto
  qed (use IH q in auto)
qed simp

lemma rmap_member:
  "rmap f xs = Inr ps \<Longrightarrow> y \<in> set (concat ps) \<Longrightarrow> \<exists>x \<in> set xs. \<exists>p. f x = Inr p \<and> y \<in> set p"
proof (induction xs arbitrary: ps)
  case (Cons x xs)
  then obtain q qs where q: "f x = Inr q" "rmap f xs = Inr qs" "ps = q # qs" by (auto simp: result_simps)
  show ?case
  proof (cases "y \<in> set q")
    case False
    with Cons.prems(2) q(3) have "y \<in> set (concat qs)" by simp
    from Cons.IH [OF q(2) this] show ?thesis by auto
  qed (use q(1) in auto)
qed simp

lemma init_struct_ok:
  assumes "distinct (map fst parts)" "\<And>d ft sub. (d, ft, Some sub) \<in> set parts \<Longrightarrow> nested_ok ft sub"
  shows "obj_ok (init_struct ps pk c parts)"
proof -
  define fs where "fs = map (\<lambda>(d, ft, _). (d, ft)) parts"
  define fm where "fm = List.map_filter (\<lambda>(d, _, sub). map_option (Pair d) sub) parts"
  have fst_fs: "map fst fs = map fst parts" by (auto simp: fs_def)
  have sub: "fst ` set fm \<subseteq> fst ` set parts \<and> distinct (map fst fm)"
    unfolding fm_def using assms(1) by (intro map_filter_names) auto
  have "filter_ok (CStruct nm u p fs) fm" for nm u p
    unfolding filter_ok_iff
  proof safe
    fix n sub assume "(n, sub) \<in> set fm"
    then obtain ft where p: "(n, ft, Some sub) \<in> set parts"
      by (auto simp: fm_def List.map_filter_def)
    then have "(n, ft) \<in> set fs" by (force simp: fs_def)
    then have "map_of fs n = Some ft" using assms(1) fst_fs by (simp add: map_of_is_SomeI)
    then show "\<exists>ft. field_type_of (CStruct nm u p fs) n = Some ft \<and> nested_ok ft sub"
      using assms(2) [OF p] by (simp add: field_type_of_def)
  qed
  with sub show ?thesis by (simp add: init_struct_def Let_def fs_def fm_def)
qed

lemma created_ok: "create_struct ps pk c = Inr s \<Longrightarrow> obj_ok s"
proof (induction ps pk c arbitrary: s rule: create_struct.induct)
  case (1 ps pk c)
  define inst where "inst c' = (case cls_ctor c' of TakesPack \<Rightarrow> create_struct ps pk c'
    | TakesPtr \<Rightarrow> create_struct ps 0 c' | TakesNone \<Rightarrow> Inl EmuStructException)" for c'
  define f where "f = (\<lambda>(d :: string, obj). case obj of
         FPtr \<Rightarrow> Inr [(d, get_ptr_field ps, None)]
       | FPtrs n \<Rightarrow> Inr [(d, CArr (get_ptr_field ps) n, None)]
       | FC t \<Rightarrow> Inr [(d, t, None)]
       | FCls c' \<Rightarrow> if cls_name c' = cls_name c then Inr []
           else rbind (inst c') (\<lambda>sub. Inr [(d, es_type sub, Some (One sub))])
       | FClss c' n \<Rightarrow> rbind (inst c') (\<lambda>sub. Inr [(d, CArr (es_type sub) n, Some (Many (replicate n sub)))])
       | FOther \<Rightarrow> Inr [])"
  have f_simps: "f (d, FPtr) = Inr [(d, get_ptr_field ps, None)]" "f (d, FPtrs n) = Inr [(d, CArr (get_ptr_field ps) n, None)]"
    "f (d, FC t) = Inr [(d, t, None)]" "f (d, FOther) = Inr []"
    "f (d, FCls c') = (if cls_name c' = cls_name c then Inr []
       else rbind (inst c') (\<lambda>sub. Inr [(d, es_type sub, Some (One sub))]))"
    "f (d, FClss c' n) = rbind (inst c') (\<lambda>sub. Inr [(d, CArr (es_type sub) n, Some (Many (replicate n sub)))])"
    for d n t c' by (simp_all add: f_def)
  have inst_ok: "obj_ok s'" if "(d, FCls c') \<in> set (class_dict c) \<and> cls_name c' \<noteq> cls_name c \<or> (d, FClss c' n) \<in> set (class_dict c)"
    "inst c' = Inr s'" for d c' n s'
    using that 1(1-4) by (cases "cls_ctor c'") (auto simp: inst_def)
  have eq: "create_struct ps pk c = rbind (rmap f (class_dict c)) (\<lambda>parts. Inr (init_struct ps pk c (concat parts)))"
    unfolding f_def inst_def by (rule create_struct.simps)
  obtain parts where parts: "rmap f (class_dict c) = Inr parts" "s = init_struct ps pk c (concat parts)"
    using 1(5) eq by (auto simp: result_simps)
  have names: "p = [] \<or> map fst p = [fst x]" if "f x = Inr p" for x p
  proof -
    obtain k obj where "x = (k, obj)" by (cases x)
    with that show ?thesis by (cases obj) (auto simp: f_simps result_simps split: if_splits)
  qed
  have "nested_ok ft sub" if m: "(d, ft, Some sub) \<in> set (concat parts)" for d ft sub
  proof -
    obtain x p where x: "x \<in> set (class_dict c)" "f x = Inr p" "(d, ft, Some sub) \<in> set p"
      using rmap_member [OF parts(1) m] by blast
    obtain k obj where k: "x = (k, obj)" by (cases x)
    show ?thesis
    proof (cases obj)
      case (FCls c')
      with x k obtain s' where "inst c' = Inr s'" "ft = es_type s'" "sub = One s'" "cls_name c' \<noteq> cls_name c"
        by (auto simp: f_simps result_simps split: if_splits)
      with inst_ok [of k c' 0 s'] x k FCls show ?thesis by (simp add: nested_ok_def)
    next
      case (FClss c' n)
      with x k obtain s' where "inst c' = Inr s'" "ft = CArr (es_type s') n" "sub = Many (replicate n s')"
        by (auto simp: f_simps result_simps)
      with inst_ok [of k c' n s'] x k FClss show ?thesis by (auto simp: nested_ok_def elems_ok_iff)
    qed (use x k in \<open>auto simp: f_simps\<close>)
  qed
  with rmap_parts [OF parts(1) distinct_class_dict names] show ?case
    unfolding parts(2) by (intro init_struct_ok) auto
qed

end
