(* ===== verification/Struct_Operations.thy ===== *)
theory Struct_Operations
  imports Struct_Properties
begin

text \<open>
  The operations of instances keep them well typed, the bytes of the nested instances are at the places of their fields
  in \<open>struct_bytes\<close>, and \<open>cast\<close> is undone by \<open>struct_bytes\<close>.
\<close>

subsection \<open>Assignments\<close>

text \<open>Instances of \<open>ctypes\<close> types have the size of their type.\<close>

definition cvalue_ok :: "cvalue \<Rightarrow> bool" where
  "cvalue_ok v = (case v of VC t bs \<Rightarrow> length bs = csize t | _ \<Rightarrow> True)"

lemma cvalue_bytes_length: "cvalue_ok v \<Longrightarrow> cvalue_bytes ft v = Inr bs \<Longrightarrow> length bs = csize ft"
  by (cases "(ft, v)" rule: cvalue_bytes.cases) (auto simp: cvalue_ok_def split: if_splits)

lemma rmap_concat_length:
  "rmap f xs = Inr ys \<Longrightarrow> (\<And>x y. f x = Inr y \<Longrightarrow> length y = n) \<Longrightarrow> length (concat ys) = length xs * n"
proof (induction xs arbitrary: ys)
  case (Cons x xs)
  then obtain z zs where z: "f x = Inr z" "rmap f xs = Inr zs" "ys = z # zs" by (auto simp: result_simps)
  have "length (concat zs) = length xs * n" using Cons.IH [OF z(2)] Cons.prems(2) by blast
  moreover have "length z = n" using Cons.prems(2) z(1) by blast
  ultimately show ?case using z(3) by simp
qed simp

lemma slice_bytes_length: "slice_bytes ft bs = Inr es \<Longrightarrow> length es \<le> csize ft"
proof (cases ft)
  case (CArr et k)
  assume "slice_bytes ft bs = Inr es"
  with CArr obtain ys where ys: "length bs \<le> k" "rmap (\<lambda>b. cvalue_bytes et (VInt (uint b))) bs = Inr ys" "es = concat ys"
    by (auto simp: result_simps split: if_splits)
  have "length es = length bs * csize et"
    unfolding ys(3) by (rule rmap_concat_length [OF ys(2)]) (auto simp: cvalue_ok_def elim!: cvalue_bytes_length [rotated])
  with ys(1) CArr show ?thesis by simp
qed auto

lemma setattr_ok:
  assumes "obj_ok s" "cvalue_ok v" "setattr s n v = Inr s'"
  shows "obj_ok s' \<and> es_type s' = es_type s"
proof (cases "field_type_of (es_type s) n")
  case None
  with assms(1,3) show ?thesis by (auto simp: setattr_def obj_ok_iff)
next
  case (Some ft)
  then obtain off where off: "field_offset (es_type s) n = Some off" using field_offset_some by blast
  with Some have "off + csize ft \<le> csize (es_type s)" by (rule field_inside)
  with Some off assms show ?thesis
    by (auto simp: setattr_def obj_ok_iff result_simps length_put_bytes split: cvalue.splits
        dest!: slice_bytes_length cvalue_bytes_length [rotated])
qed

lemma update_filter_ok:
  assumes "filter_ok t fm" "map_of fm n = Some (One sub)" "obj_ok sub'" "es_type sub' = es_type sub"
  shows "filter_ok t (AList.update n (One sub') fm)"
  using assms
proof (induction fm)
  case (Cons x fm)
  obtain k a where x: "x = (k, a)" by (cases x)
  with Cons show ?case by (cases a) (auto split: if_splits)
qed simp

lemma getattr_nested:
  "getattr s n = Inr (Nested sub) \<Longrightarrow> map_of (es_filter s) n = Some sub"
  by (auto simp: getattr_def split: option.splits if_splits)

lemma nested_obj_ok: "filter_ok t fm \<Longrightarrow> map_of fm n = Some (One sub) \<Longrightarrow> obj_ok sub"
  by (auto simp: filter_ok_iff nested_ok_def dest!: map_of_SomeD)

lemma set_path_ok:
  "obj_ok s \<Longrightarrow> cvalue_ok v \<Longrightarrow> set_path s ns v = Inr s' \<Longrightarrow> obj_ok s' \<and> es_type s' = es_type s"
proof (induction s ns v arbitrary: s' rule: set_path.induct)
  case (2 self n v)
  then show ?case using setattr_ok by simp
next
  case (3 self n m ns v)
  from 3(4) obtain a where a: "getattr self n = Inr a" by (auto simp: result_simps)
  then obtain sub where "a = Nested (One sub)"
    using 3(4) by (cases a; cases "case a of Nested b \<Rightarrow> b") (auto split: nested.splits)
  with a 3(4) obtain sub' where sub: "getattr self n = Inr (Nested (One sub))" "set_path sub (m # ns) v = Inr sub'"
    "s' = EStruct (es_type self) (es_data self) (AList.update n (One sub') (es_filter self)) (es_attrs self)"
    by (auto simp: result_simps)
  have m: "map_of (es_filter self) n = Some (One sub)" using getattr_nested [OF sub(1)] .
  have f: "filter_ok (es_type self) (es_filter self)" using 3(2) by (simp add: obj_ok_iff)
  have sub': "obj_ok sub'" "es_type sub' = es_type sub"
    using 3(1) [OF sub(1) refl refl nested_obj_ok [OF f m] 3(3) sub(2)] by simp_all
  have "filter_ok (es_type self) (AList.update n (One sub') (es_filter self))"
    using update_filter_ok [OF f m sub'] .
  with 3(2) sub(3) show ?case by (simp add: obj_ok_iff AList.distinct_update)
qed simp

subsection \<open>Operations in sequence\<close>

text \<open>
  What the rest of the program does with an instance. An operation that raises leaves it as it was: \<open>cast\<close> checks
  the length before it changes anything, and an assignment converts the value first.
\<close>

datatype struct_op = Cast "byte list" | Assign "string list" cvalue | Emit

definition struct_op_ok :: "struct_op \<Rightarrow> bool" where
  "struct_op_ok p = (case p of Assign ns v \<Rightarrow> cvalue_ok v | _ \<Rightarrow> True)"

definition struct_op :: "estruct \<Rightarrow> struct_op \<Rightarrow> estruct" where
  "struct_op s p =
     (case (case p of
          Cast bs \<Rightarrow> cast_struct s bs
        | Assign ns v \<Rightarrow> set_path s ns v
        | Emit \<Rightarrow> rbind (struct_bytes s) (\<lambda>(s', _). Inr s')) of
        Inl e \<Rightarrow> s
      | Inr s' \<Rightarrow> s')"

lemma get_bytes_ok:
  assumes "obj_ok s"
  obtains s' where "struct_bytes s = Inr (s', es_data s')" "obj_ok s'" "es_type s' = es_type s"
  using link_ok(1) [OF assms] by (auto simp: struct_bytes_def)

lemma cast_short: "obj_ok s \<Longrightarrow> length bs < csize (es_type s) \<Longrightarrow> cast_struct s bs = Inl ValueError"
  by (cases s) (simp add: cast_struct_def)

lemma cast_enough:
  assumes "obj_ok s" "csize (es_type s) \<le> length bs"
  obtains s' where "cast_struct s bs = Inr s'" "obj_ok s'" "es_type s' = es_type s"
    "es_data s' = take (csize (es_type s)) bs" "link_cstructs s' = Inr s'"
  using cast_ok(1) [OF assms(1), of 0 bs] assms(2) by (auto simp: cast_struct_def part_of_def)

lemma cast_total:
  "obj_ok s \<Longrightarrow>
    (if length bs < csize (es_type s) then cast_struct s bs = Inl ValueError else \<exists>s'. cast_struct s bs = Inr s')"
  using cast_short [of s bs] cast_ok(1) [of s 0 bs] by (auto simp: cast_struct_def)

lemma struct_op_keeps:
  assumes "obj_ok s" "struct_op_ok p"
  shows "obj_ok (struct_op s p) \<and> es_type (struct_op s p) = es_type s"
proof (cases p)
  case (Cast bs)
  show ?thesis
  proof (cases "csize (es_type s) \<le> length bs")
    case True
    with assms(1) show ?thesis by (rule cast_enough) (simp add: struct_op_def Cast)
  qed (use assms(1) cast_short in \<open>simp add: struct_op_def Cast\<close>)
next
  case (Assign ns v)
  with assms set_path_ok [OF assms(1), of v ns] show ?thesis
    by (auto simp: struct_op_def struct_op_ok_def split: sum.split)
next
  case Emit
  from assms(1) obtain s' where "struct_bytes s = Inr (s', es_data s')" "obj_ok s'" "es_type s' = es_type s"
    by (rule get_bytes_ok)
  with Emit show ?thesis by (simp add: struct_op_def)
qed

lemma struct_ops_keep:
  "obj_ok s \<Longrightarrow> \<forall>p \<in> set ops. struct_op_ok p \<Longrightarrow>
    obj_ok (foldl struct_op s ops) \<and> es_type (foldl struct_op s ops) = es_type s"
proof (induction ops arbitrary: s)
  case (Cons p ops)
  with struct_op_keeps [of s p] show ?case by simp
qed simp

subsection \<open>Nested instances in the bytes\<close>

lemma part_put_same: "off + length bs \<le> length d \<Longrightarrow> part_of (put_bytes d off bs) off (length bs) = bs"
  by (simp add: part_of_def put_bytes_def)

lemma part_put_apart:
  assumes "off + length bs \<le> length d" "pos + n \<le> off \<or> off + length bs \<le> pos"
  shows "part_of (put_bytes d off bs) pos n = part_of d pos n"
proof (rule nth_equalityI)
  show "length (part_of (put_bytes d off bs) pos n) = length (part_of d pos n)"
    using assms(1) by (simp add: part_of_def length_put_bytes)
  fix i assume "i < length (part_of (put_bytes d off bs) pos n)"
  then have "i < n" "pos + i < length d" using assms(1) by (auto simp: part_of_def length_put_bytes)
  with assms show "part_of (put_bytes d off bs) pos n ! i = part_of d pos n ! i"
    by (auto simp: part_of_def put_bytes_def nth_append)
qed

lemma link_elems_apart:
  "\<lbrakk>elems_ok et subs; off + length subs * csize et \<le> length d; link_elems et off subs d = Inr (subs', d');
    pos + n \<le> off \<or> off + length subs * csize et \<le> pos\<rbrakk> \<Longrightarrow> part_of d' pos n = part_of d pos n"
proof (induction subs arbitrary: off d subs' d')
  case (Cons sub subs)
  then obtain sub' where sub': "link_cstructs sub = Inr sub'" "obj_ok sub'" "es_type sub' = et"
    using link_ok(1) [of sub] by auto
  then have l: "length (es_data sub') = csize et" by (simp add: obj_ok_iff)
  then have l': "length (put_bytes d off (es_data sub')) = length d" using Cons.prems(2) by (simp add: length_put_bytes)
  obtain subs'' where rest: "link_elems et (off + csize et) subs (put_bytes d off (es_data sub')) = Inr (subs'', d')"
    using Cons.prems(3) sub' by (auto simp: result_simps)
  have "part_of d' pos n = part_of (put_bytes d off (es_data sub')) pos n"
    using Cons.IH [OF _ _ rest] Cons.prems l' by auto
  also have "\<dots> = part_of d pos n"
    using Cons.prems(2,4) l by (intro part_put_apart) auto
  finally show ?case .
qed simp

text \<open>The place of a field in the bytes of the parent.\<close>

definition field_part :: "ctype \<Rightarrow> string \<Rightarrow> byte list \<Rightarrow> byte list" where
  "field_part t n d =
     (case (field_type_of t n, field_offset t n) of (Some ft, Some off) \<Rightarrow> part_of d off (csize ft) | _ \<Rightarrow> [])"

lemma field_part_put_apart:
  assumes "field_type_of (CStruct nm False p fs) n = Some ft" "field_offset (CStruct nm False p fs) n = Some off"
    "length bs = csize ft" "length d = csize (CStruct nm False p fs)" "m \<noteq> n"
  shows "field_part (CStruct nm False p fs) m (put_bytes d off bs) = field_part (CStruct nm False p fs) m d"
proof (cases "field_type_of (CStruct nm False p fs) m")
  case (Some gt)
  then obtain pos where pos: "field_offset (CStruct nm False p fs) m = Some pos" using field_offset_some by blast
  have "part_of (put_bytes d off bs) pos (csize gt) = part_of d pos (csize gt)"
    using fields_apart [OF assms(1,2) Some pos] field_inside [OF assms(1,2)] assms(3,4,5)
    by (intro part_put_apart) auto
  with Some pos show ?thesis by (simp add: field_part_def)
qed (simp add: field_part_def)

lemma link_fields_parts:
  assumes "filter_ok t fm" "distinct (map fst fm)" "length d = csize t" "link_fields t fm d = Inr (fm', d')"
    "t = CStruct nm False p fs"
  shows "(\<forall>m. m \<notin> fst ` set fm \<longrightarrow> field_part t m d' = field_part t m d)
    \<and> (\<forall>n sub. (n, One sub) \<in> set fm \<longrightarrow> (\<exists>sub'. link_cstructs sub = Inr sub' \<and> field_part t n d' = es_data sub'))"
  using assms(1-4)
proof (induction fm arbitrary: d fm')
  case (Cons x fm)
  obtain n a where x: "x = (n, a)" by (cases x)
  have ok: "filter_ok t fm" "distinct (map fst fm)" "n \<notin> fst ` set fm" using Cons.prems x by (auto simp: filter_ok_iff)
  show ?case
  proof (cases a)
    case (One sub)
    then obtain sub' where sub': "link_cstructs sub = Inr sub'" "obj_ok sub'" "es_type sub' = es_type sub"
      using Cons.prems(1) x link_ok(1) [of sub] by auto
    have ft: "field_type_of t n = Some (es_type sub')" "length (es_data sub') = csize (es_type sub')"
      using Cons.prems(1) x One sub' by (auto simp: obj_ok_iff)
    obtain off where off: "field_offset t n = Some off" "off + csize (es_type sub') \<le> csize t"
      "set_cfield t n (es_type sub') (es_data sub') d = Inr (put_bytes d off (es_data sub'))"
      "length (put_bytes d off (es_data sub')) = csize t"
      using set_cfield_ok [OF ft Cons.prems(3)] by blast
    obtain fm'' where rest: "link_fields t fm (put_bytes d off (es_data sub')) = Inr (fm'', d')"
      using Cons.prems(4) x One sub' off by (auto simp: result_simps)
    note IH = Cons.IH [OF ok(1,2) off(4) rest]
    have "field_part t n d' = field_part t n (put_bytes d off (es_data sub'))" using IH ok(3) by blast
    also have "\<dots> = es_data sub'"
      using ft off Cons.prems(3) part_put_same [of off "es_data sub'" d] by (simp add: field_part_def)
    finally have this_part: "field_part t n d' = es_data sub'" .
    have "field_part t m d' = field_part t m d" if "m \<notin> fst ` set (x # fm)" for m
      using IH that x field_part_put_apart [of nm p fs n _ off "es_data sub'" d m] ft off Cons.prems(3) assms(5) by auto
    with IH this_part sub'(1) x One ok(3) show ?thesis by (auto simp: image_iff)
  next
    case (Many subs)
    then obtain et where ft: "field_type_of t n = Some (CArr et (length subs))" "elems_ok et subs"
      using Cons.prems(1) x by (auto split: option.splits ctype.splits)
    obtain off where off: "field_offset t n = Some off" "off + length subs * csize et \<le> csize t"
      using array_field_ok [OF ft(1)] by blast
    obtain subs' d1 where el: "link_elems et off subs d = Inr (subs', d1)" "length d1 = csize t"
      using link_ok(3) [OF ft(2), of off d] off Cons.prems(3) by auto
    obtain fm'' where rest: "link_fields t fm d1 = Inr (fm'', d')"
      using Cons.prems(4) x Many ft off el by (auto simp: result_simps)
    note IH = Cons.IH [OF ok(1,2) el(2) rest]
    have "field_part t m d1 = field_part t m d" if m: "m \<noteq> n" for m
    proof (cases "field_type_of t m")
      case (Some gt)
      then obtain pos where pos: "field_offset t m = Some pos" using field_offset_some by blast
      have "off + csize (CArr et (length subs)) \<le> pos \<or> pos + csize gt \<le> off"
        using fields_apart [of nm p fs n _ off m gt pos] ft off Some pos m assms(5) by auto
      then have "part_of d1 pos (csize gt) = part_of d pos (csize gt)"
        using link_elems_apart [OF ft(2) _ el(1)] off Cons.prems(3) by auto
      with Some pos show ?thesis by (simp add: field_part_def)
    qed (simp add: field_part_def)
    with IH x Many show ?thesis by auto
  qed
qed simp

subsection \<open>Properties\<close>

text \<open>C22: After any sequence of casts, assignments and reads of its bytes an instance is well typed: its bytes have the
  size of its type, each nested instance has the type of its field, and the type is the one that \<open>create_struct\<close>
  made. So \<open>struct_bytes\<close> never raises and returns \<open>sizeof\<close> bytes, and \<open>cast\<close> raises only \<open>ValueError\<close>, for less than
  \<open>sizeof\<close> bytes.
\<close>

theorem structs_well_typed:
  assumes "create_struct ps pk c = Inr s" "\<forall>p \<in> set ops. struct_op_ok p" "s' = foldl struct_op s ops"
  shows "obj_ok s' \<and> es_type s' = es_type s
    \<and> (\<exists>s'' bs. struct_bytes s' = Inr (s'', bs) \<and> length bs = sizeof s)
    \<and> (if length bs < sizeof s then cast_struct s' bs = Inl ValueError else \<exists>s''. cast_struct s' bs = Inr s'')"
proof -
  have ok: "obj_ok s'" "es_type s' = es_type s"
    using struct_ops_keep [OF created_ok [OF assms(1)] assms(2)] assms(3) by auto
  obtain s'' where g: "struct_bytes s' = Inr (s'', es_data s'')" "obj_ok s''" "es_type s'' = es_type s'"
    using get_bytes_ok [OF ok(1)] by blast
  then have "length (es_data s'') = sizeof s" using ok by (simp add: obj_ok_iff sizeof_def)
  moreover have "if length bs < sizeof s then cast_struct s' bs = Inl ValueError else \<exists>s''. cast_struct s' bs = Inr s''"
    using cast_total [OF ok(1), of bs] ok(2) by (simp add: sizeof_def)
  ultimately show ?thesis using ok g by blast
qed

text \<open>A class as \<open>UNICODE_STRING\<close> and one that nests it between other fields.\<close>

definition unicode_string_cls :: cls where
  "unicode_string_cls = Cls ''UNICODE_STRING'' False TakesPack
     [[(''Length'', Annotated (FC (CInt False I16))), (''MaximumLength'', Annotated (FC (CInt False I16))),
       (''Buffer'', Annotated FPtr)]] []"

definition driver_cls :: cls where
  "driver_cls = Cls ''DRIVER'' False TakesPack
     [[(''Kind'', Annotated (FC (CInt False I8))), (''Name'', Plain (FCls unicode_string_cls)),
       (''Count'', Annotated (FC (CInt True I32)))]] [AddFields [(''Paths'', FClss unicode_string_cls 2)]]"

definition driver_instance :: estruct where
  "driver_instance = (case create_struct 8 0 driver_cls of Inr s \<Rightarrow> s | Inl _ \<Rightarrow> EStruct CVoidP [] [] [])"

lemma driver_created: "create_struct 8 0 driver_cls = Inr driver_instance"
  by code_simp

lemma structs_well_typed_witness:
  "obj_ok (foldl struct_op driver_instance [Assign [''Name'', ''Length''] (VInt 70000), Cast [1, 2], Emit])"
  using structs_well_typed [OF driver_created, of "[Assign [''Name'', ''Length''] (VInt 70000), Cast [1, 2], Emit]" _ "[]"]
  by (simp add: struct_op_ok_def cvalue_ok_def)

text \<open>C29: After a cast \<open>struct_bytes\<close> gives the first \<open>sizeof\<close> bytes of the argument and changes nothing, also where the
  fields nest other instances or arrays of them, and each field that is no instance reads as the value of the bytes at
  its place.
\<close>

theorem cast_get_bytes:
  assumes "create_struct ps pk c = Inr s" "\<forall>p \<in> set ops. struct_op_ok p" "cast_struct (foldl struct_op s ops) bs = Inr t"
  shows "struct_bytes t = Inr (t, take (sizeof s) bs)
    \<and> (\<forall>n ft. field_type_of (es_type s) n = Some ft \<and> map_of (es_filter t) n = None \<longrightarrow>
         getattr t n = Inr (Value (cvalue_of ft (field_part (es_type s) n bs))))"
proof -
  have ok: "obj_ok (foldl struct_op s ops)" "es_type (foldl struct_op s ops) = es_type s"
    using struct_ops_keep [OF created_ok [OF assms(1)] assms(2)] by auto
  have len: "csize (es_type s) \<le> length bs"
    using cast_short [OF ok(1), of bs] assms(3) ok(2) by (cases "length bs < csize (es_type s)") auto
  then have t: "es_type t = es_type s" "es_data t = take (csize (es_type s)) bs" "link_cstructs t = Inr t"
    using cast_enough [OF ok(1), of bs] assms(3) ok(2) by auto
  have "getattr t n = Inr (Value (cvalue_of ft (field_part (es_type s) n bs)))"
    if "field_type_of (es_type s) n = Some ft" "map_of (es_filter t) n = None" for n ft
  proof -
    from that(1) obtain off where off: "field_offset (es_type s) n = Some off" using field_offset_some by blast
    have "off + csize ft \<le> csize (es_type s)" using that(1) off by (rule field_inside)
    with that off t show ?thesis
      by (simp add: getattr_def field_part_def part_of_def drop_take min_absorb1)
  qed
  with t show ?thesis by (simp add: struct_bytes_def sizeof_def)
qed

lemma cast_get_bytes_witness:
  "\<exists>t. cast_struct (foldl struct_op driver_instance []) (map of_nat [0..<80]) = Inr t
     \<and> struct_bytes t = Inr (t, take (sizeof driver_instance) (map of_nat [0..<80]))"
proof -
  have "length (map of_nat [0..<80] :: byte list) = 80" by simp
  moreover have "sizeof driver_instance = 64" by code_simp
  ultimately obtain t where "cast_struct driver_instance (map of_nat [0..<80]) = Inr t"
    using cast_enough [OF created_ok [OF driver_created], of "map of_nat [0..<80]"] by (auto simp: sizeof_def)
  with cast_get_bytes [OF driver_created, of "[]" _ t] show ?thesis by simp
qed

text \<open>C37: \<open>struct_bytes\<close> of a structure that is no union has the bytes of each nested instance at the place of its field, and
  at the place of a field that is none the bytes that were assigned there.
\<close>

theorem nested_bytes_in_place:
  assumes "create_struct ps pk c = Inr s" "\<not> cls_union c" "\<forall>p \<in> set ops. struct_op_ok p" "s' = foldl struct_op s ops"
    "struct_bytes s' = Inr (s'', bs)"
  shows "(\<forall>n sub sub' bs'. map_of (es_filter s') n = Some (One sub) \<and> struct_bytes sub = Inr (sub', bs') \<longrightarrow>
            field_part (es_type s) n bs = bs')
    \<and> (\<forall>n. map_of (es_filter s') n = None \<longrightarrow> field_part (es_type s) n bs = field_part (es_type s) n (es_data s'))"
proof -
  have ok: "obj_ok s'" "es_type s' = es_type s"
    using struct_ops_keep [OF created_ok [OF assms(1)] assms(3)] assms(4) by auto
  obtain nm p fs where t: "es_type s = CStruct nm False p fs"
    using assms(1,2) by (subst (asm) create_struct.simps) (auto simp: result_simps init_struct_def Let_def)
  obtain d fm at where s': "s' = EStruct (es_type s) d fm at" using ok(2) by (cases s') auto
  obtain fm' where l: "link_fields (es_type s) fm d = Inr (fm', bs)"
    using assms(5) s' by (auto simp: struct_bytes_def result_simps)
  have f: "filter_ok (es_type s) fm" "distinct (map fst fm)" "length d = csize (es_type s)" using ok s' by auto
  note parts = link_fields_parts [OF f l t]
  show ?thesis
  proof (intro conjI allI impI; (elim conjE)?)
    fix n sub sub' bs'
    assume "map_of (es_filter s') n = Some (One sub)" "struct_bytes sub = Inr (sub', bs')"
    with parts s' show "field_part (es_type s) n bs = bs'"
      by (force simp: struct_bytes_def result_simps dest!: map_of_SomeD)
  next
    fix n
    assume "map_of (es_filter s') n = None"
    with parts s' show "field_part (es_type s) n bs = field_part (es_type s) n (es_data s')"
      by (simp add: map_of_eq_None_iff)
  qed
qed

lemma nested_bytes_in_place_witness:
  "\<exists>s'' bs. struct_bytes (foldl struct_op driver_instance [Assign [''Name'', ''Length''] (VInt 513)]) = Inr (s'', bs)
     \<and> field_part (es_type driver_instance) ''Kind'' bs
       = field_part (es_type driver_instance) ''Kind'' (es_data (foldl struct_op driver_instance [Assign [''Name'', ''Length''] (VInt 513)]))"
proof -
  define s' where "s' = foldl struct_op driver_instance [Assign [''Name'', ''Length''] (VInt 513)]"
  have "\<not> cls_union driver_cls" "map_of (es_filter s') ''Kind'' = None" unfolding s'_def by code_simp+
  moreover have "obj_ok s'"
    unfolding s'_def by (rule struct_ops_keep [OF created_ok [OF driver_created], THEN conjunct1])
      (simp add: struct_op_ok_def cvalue_ok_def)
  then obtain s'' where "struct_bytes s' = Inr (s'', es_data s'')" by (rule get_bytes_ok)
  ultimately show ?thesis
    using nested_bytes_in_place [OF driver_created _ _ s'_def, of s'' "es_data s''"]
    by (auto simp: s'_def struct_op_ok_def cvalue_ok_def)
qed

text \<open>The layout of a structure: a field lies inside the structure at a multiple of its alignment that \<open>_pack_\<close>
  limits, and two fields of a structure that is no union do not overlap.
\<close>

theorem struct_layout:
  assumes "field_type_of t n = Some ft" "field_offset t n = Some off" "t = CStruct nm u p fs"
  shows "off + csize ft \<le> csize t \<and> pack_align p (calign ft) dvd off \<and> calign t dvd csize t
    \<and> (\<forall>m gt pos. \<not> u \<and> m \<noteq> n \<and> field_type_of t m = Some gt \<and> field_offset t m = Some pos \<longrightarrow>
         off + csize ft \<le> pos \<or> pos + csize gt \<le> off)"
proof (intro conjI allI impI)
  show "off + csize ft \<le> csize t" using assms(1,2) by (rule field_inside)
  show "pack_align p (calign ft) dvd off" using assms field_aligned by simp
  show "calign t dvd csize t" unfolding assms(3) csize_struct by (rule round_up_dvd)
  fix m gt pos
  assume "\<not> u \<and> m \<noteq> n \<and> field_type_of t m = Some gt \<and> field_offset t m = Some pos"
  with assms fields_apart [of nm p fs n ft off m gt pos] show "off + csize ft \<le> pos \<or> pos + csize gt \<le> off" by auto
qed

lemma struct_layout_witness:
  "8 + csize (CInt False I64) \<le> csize (es_type (case create_struct 8 0 unicode_string_cls of Inr s \<Rightarrow> s))"
proof -
  define fs where "fs = [(''Length'', CInt False I16), (''MaximumLength'', CInt False I16), (''Buffer'', CInt False I64)]"
  have t: "es_type (case create_struct 8 0 unicode_string_cls of Inr s \<Rightarrow> s) = CStruct ''ctUNICODE_STRING8'' False 16 fs"
    unfolding fs_def by code_simp
  have "field_type_of (CStruct ''ctUNICODE_STRING8'' False 16 fs) ''Buffer'' = Some (CInt False I64)"
    "field_offset (CStruct ''ctUNICODE_STRING8'' False 16 fs) ''Buffer'' = Some 8"
    unfolding fs_def by code_simp+
  from struct_layout [OF this refl] show ?thesis unfolding t by simp
qed

end
