(* ===== verification/Api_Names.thy ===== *)
theory Api_Names
  imports Nt_Paths
begin

text \<open>
  The names of modules and APIs: \<open>module_name_of\<close> and \<open>symbol_ref\<close> of \<^verbatim>\<open>windows/api_registry.py\<close>, the
  hosts of API sets of \<^verbatim>\<open>windows/common.py\<close>, and the candidates for the handler of an API of
  \<^verbatim>\<open>windows/api_resolution.py\<close>. Names have code points below 256.
\<close>

definition MODULE_EXTENSIONS :: "string list" where
  "MODULE_EXTENSIONS = [''.dll'', ''.exe'', ''.sys'', ''.drv'', ''.ocx'', ''.cpl'']"

definition module_name_of :: "string \<Rightarrow> string" where
  "module_name_of v =
     (let name = lower (basename v); (root, extension) = splitext name
      in if extension \<in> set MODULE_EXTENSIONS then root else name)"

subsection \<open>References to exports\<close>

text \<open>A reference is a name or an ordinal.\<close>

datatype api_ref = Name string | Ordinal int

text \<open>
  \<open>str.isdigit\<close> holds for the superscripts two, three and one too, which \<open>int\<close> refuses; \<open>int\<close> also refuses more than
  4300 digits.
\<close>

definition dec_digit_char :: "char \<Rightarrow> bool" where
  "dec_digit_char c \<longleftrightarrow> (48 :: nat) \<le> of_char c \<and> of_char c \<le> (57 :: nat)"

definition isdigit :: "string \<Rightarrow> bool" where
  "isdigit s \<longleftrightarrow> s \<noteq> [] \<and> (\<forall>c \<in> set s. dec_digit_char c \<or> c \<in> {CHR 0xB2, CHR 0xB3, CHR 0xB9})"

definition int_of_digits :: "string \<Rightarrow> int result" where
  "int_of_digits s =
     (if list_all dec_digit_char s \<and> length s \<le> 4300
      then Inr (foldl (\<lambda>v c. 10 * v + int (of_char c - 48 :: nat)) 0 s) else Inl ValueError)"

definition symbol_ref :: "api_ref \<Rightarrow> api_ref result" where
  "symbol_ref v =
     (case v of
        Name s \<Rightarrow> if starts_with s ''ordinal_'' \<and> isdigit (drop 8 s)
                  then rbind (int_of_digits (drop 8 s)) (\<lambda>n. Inr (Ordinal n)) else Inr v
      | Ordinal n \<Rightarrow> Inr v)"

subsection \<open>Hosts of API sets\<close>

definition DLL_HOSTS :: "(string list \<times> string list) list" where
  "DLL_HOSTS = [
     ([''api-ms-win-crt'', ''api-ms-win-core-crt'', ''vcruntime'', ''ucrtbased'', ''ucrtbase'', ''msvcr'', ''msvcp'', ''crtdll''],
      [''msvcrt'']),
     ([''winsock'', ''wsock32''], [''ws2_32'']),
     ([''ext-ms-win-ntuser'', ''ext-ms-win-rtcore-ntuser'', ''api-ms-win-rtcore-ntuser'', ''api-ms-win-ntuser-''], [''user32'']),
     ([''ext-ms-win-gdi'', ''ext-ms-win-rtcore-gdi''], [''gdi32'']),
     ([''api-ms-win-eventing'', ''api-ms-win-service'', ''api-ms-win-security''], [''advapi32'']),
     ([''api-ms-win-shell-'', ''api-ms-win-core-commandlinetoargv'', ''ext-ms-win-shell32-''], [''shell32'']),
     ([''api-ms-win-shcore-obsolete''], [''shell32'', ''shlwapi'']),
     ([''api-ms-win-core-shlwapi''], [''shlwapi'']),
     ([''api-ms-win-core-com-l'', ''ext-ms-win-com-ole32'', ''ext-ms-win-ole32-''], [''ole32'']),
     ([''api-ms-win-core-winrt''], [''combase'']),
     ([''api-ms-win-core-string-l2''], [''user32'']),
     ([''api-ms-win-mm-''], [''winmm'']),
     ([''api-ms-win-core-version''], [''version'']),
     ([''api-ms-win-core-processthreads''], [''kernel32'', ''advapi32'']),
     ([''api-ms-win-core-libraryloader'', ''api-ms-win-core-stringansi''], [''kernel32'', ''user32'']),
     ([''api-ms-win-core''], [''kernel32'']),
     ([''ext-ms-win-session-wtsapi32''], [''wtsapi32'']),
     ([''ext-ms-win-setupapi-''], [''setupapi'']),
     ([''sspicli''], [''secur32'']),
     ([''kernelbase''], [''kernelbase'', ''kernel32'']),
     ([''ntoskrnl''], [''ntoskrnl'', ''msvcrt''])]"

definition get_dll_hosts :: "string \<Rightarrow> string list" where
  "get_dll_hosts name =
     (case find (\<lambda>(prefixes, hosts). list_ex (starts_with (lower name)) prefixes) DLL_HOSTS of
        Some (prefixes, hosts) \<Rightarrow> hosts
      | None \<Rightarrow> [name])"

definition normalize_dll_name :: "string \<Rightarrow> string" where
  "normalize_dll_name name = hd (get_dll_hosts name)"

subsection \<open>Candidates for a handler\<close>

definition nt_zw_alias :: "string \<Rightarrow> string" where
  "nt_zw_alias name =
     (if starts_with name ''Zw'' then ''Nt'' @ drop 2 name
      else if starts_with name ''Nt'' then ''Zw'' @ drop 2 name else [])"

definition or_else :: "string \<Rightarrow> string \<Rightarrow> string" where
  "or_else a b = (if a \<noteq> [] then a else b)"

definition first_alias :: "string \<Rightarrow> string" where
  "first_alias name =
     (let alias = (if name \<noteq> [] \<and> List.last name \<in> {CHR ''A'', CHR ''W''} then butlast name else [])
      in if starts_with name ''_o_'' then drop 3 name else alias)"

definition get_aliases :: "string \<Rightarrow> string \<Rightarrow> (string \<times> string) list" where
  "get_aliases dll name =
     (let alias = first_alias name
      in if starts_with (lower dll) ''ntdll''
         then (let nt_alias = or_else (nt_zw_alias name) alias
               in [(''ntoskrnl'', name)] @ (if nt_alias \<noteq> [] then [(''ntoskrnl'', nt_alias)] else []) @ [(''msvcrt'', name)])
         else (let alias = (if starts_with (lower dll) ''ntoskrnl'' then or_else (nt_zw_alias name) alias else alias)
               in (if alias \<noteq> [] then [(dll, alias)] else []) @
                  concat (map (\<lambda>host.
                    [(host, name)] @ (if alias \<noteq> [] then [(host, alias)] else []) @
                    (if lower host = ''kernel32''
                     then (if starts_with name ''Reg''
                           then [(''advapi32'', name)] @ (if alias \<noteq> [] then [(''advapi32'', alias)] else [])
                           else if starts_with name ''K32''
                           then map (Pair ''psapi'') (filter (\<lambda>f. f \<noteq> []) [drop 3 name, drop 3 alias])
                           else [])
                     else [])) (get_dll_hosts dll))))"

text \<open>\<open>get_handler_candidates\<close> leaves out a pair that was there, with the case of the module ignored.\<close>

definition candidate_key :: "string \<times> string \<Rightarrow> string \<times> string" where
  "candidate_key c = (lower (fst c), snd c)"

primrec unseen :: "(string \<times> string) list \<Rightarrow> (string \<times> string) list \<Rightarrow> (string \<times> string) list" where
  "unseen seen [] = []"
| "unseen seen (c # cs) =
     (let key = candidate_key c in if key \<in> set seen then unseen seen cs else c # unseen (key # seen) cs)"

definition get_handler_candidates :: "string \<Rightarrow> string \<Rightarrow> (string \<times> string) list" where
  "get_handler_candidates dll name = unseen [candidate_key (dll, name)] (get_aliases dll name)"

subsection \<open>Lemmas\<close>

lemma get_dll_hosts_nonempty: "get_dll_hosts name \<noteq> []"
proof -
  have all: "\<forall>x \<in> set DLL_HOSTS. snd x \<noteq> []" by (simp add: DLL_HOSTS_def)
  show ?thesis
  proof (cases "find (\<lambda>(prefixes, hosts). list_ex (starts_with (lower name)) prefixes) DLL_HOSTS")
    case (Some x)
    then have "x \<in> set DLL_HOSTS" by (metis find_Some_iff nth_mem)
    with all Some show ?thesis by (auto simp: get_dll_hosts_def split: prod.split)
  qed (simp add: get_dll_hosts_def)
qed

text \<open>The candidates are the aliases that differ from the called API and from each other.\<close>

lemma unseen_keys:
  "distinct (map candidate_key (unseen seen cs)) \<and>
    candidate_key ` set (unseen seen cs) = candidate_key ` set cs - set seen"
proof (induction cs arbitrary: seen)
  case (Cons c cs)
  show ?case
  proof (cases "candidate_key c \<in> set seen")
    case False
    from Cons.IH [of "candidate_key c # seen"] False show ?thesis by (auto simp: Let_def)
  qed (use Cons.IH [of seen] in \<open>auto simp: Let_def\<close>)
qed simp

lemma candidates_distinct: "distinct (map candidate_key (get_handler_candidates dll name))"
  unfolding get_handler_candidates_def by (rule conjunct1 [OF unseen_keys])

lemma candidates_other:
  "candidate_key ` set (get_handler_candidates dll name)
    = candidate_key ` set (get_aliases dll name) - {candidate_key (dll, name)}"
  unfolding get_handler_candidates_def using unseen_keys [of "[candidate_key (dll, name)]" "get_aliases dll name"] by simp

end
