(* ===== verification/Api_Registry.thy ===== *)
theory Api_Registry
  imports Api_Names Exn Guest_Callbacks Memory_Manager
begin

text \<open>
  The API registry of \<^verbatim>\<open>windows/api_registry.py\<close>: an entry for each export of the loaded modules, and for
  the functions of synthetic modules a token, an unmapped address to which the code of the export jumps, so that the
  fetch tells the emulator which API the guest called. Entries are objects that several dictionaries share, so they are
  indices into a heap. The memory manager is that of \<open>Memory_Manager\<close>.
\<close>

record export_entry =
  xp_name :: "string option"
  xp_address :: int
  xp_ordinal :: int
  xp_kind :: string
  xp_forwarder :: "string option"

text \<open>The parts of a \<open>RuntimeModule\<close> that the registry reads; \<open>md_id\<close> is its identity, a section is its name, RVA and size.\<close>

record api_module =
  md_id :: nat
  md_name :: string
  md_base :: int
  md_arch :: int
  md_synthetic :: bool
  md_sections :: "(string \<times> int \<times> int) list"
  md_exports :: "export_entry list"

record api_entry =
  ae_module :: api_module
  ae_export :: export_entry
  ae_names :: "string list"
  ae_trap :: "int option"
  ae_initialized :: bool
  ae_binding_module :: "string option"
  ae_binding_name :: "string option"

definition new_entry :: "api_module \<Rightarrow> export_entry \<Rightarrow> string list \<Rightarrow> int option \<Rightarrow> api_entry" where
  "new_entry m x names trap =
     \<lparr>ae_module = m, ae_export = x, ae_names = names, ae_trap = trap, ae_initialized = False,
      ae_binding_module = None, ae_binding_name = None\<rparr>"

text \<open>\<open>a or b\<close> for an optional string.\<close>

definition opt_or :: "string option \<Rightarrow> string \<Rightarrow> string" where
  "opt_or a b = (case a of None \<Rightarrow> b | Some s \<Rightarrow> if s = [] then b else s)"

definition entry_address :: "api_entry \<Rightarrow> int" where "entry_address a = xp_address (ae_export a)"

definition entry_name :: "api_entry \<Rightarrow> string" where
  "entry_name a = opt_or (ae_binding_name a)
     (case ae_names a of [] \<Rightarrow> ''ordinal_'' @ dec_of (xp_ordinal (ae_export a)) | n # _ \<Rightarrow> n)"

definition entry_dll :: "api_entry \<Rightarrow> string" where
  "entry_dll a = opt_or (ae_binding_module a) (md_name (ae_module a))"

definition entry_symbol :: "api_entry \<Rightarrow> string" where
  "entry_symbol a = entry_dll a @ ''.'' @ entry_name a"

subsection \<open>The registry\<close>

record 'e registry =
  rg_mem :: "'e mem_state"
  rg_heap :: "api_entry list"
  rg_entries :: "(int \<times> nat) list"
  rg_traps :: "int \<rightharpoonup> nat"
  rg_names :: "nat \<rightharpoonup> (string \<rightharpoonup> nat)"
  rg_ordinals :: "nat \<rightharpoonup> (int \<rightharpoonup> nat)"
  rg_dynamic_offsets :: "nat \<rightharpoonup> int"
  rg_trap_base :: "int option"
  rg_addresses :: "int list"
  rg_trap_count :: int

type_synonym ('e, 'a) api_meth = "('e registry, error, 'a) exn"

definition TRAP_SIZE :: int where "TRAP_SIZE = 0x100000"
definition TRAP_STRIDE :: int where "TRAP_STRIDE = 16"
definition API_SLOT_SIZE :: int where "API_SLOT_SIZE = 32"
definition API_ENTRY_OFFSET :: int where "API_ENTRY_OFFSET = 16"

definition init_registry :: "'e mem_state \<Rightarrow> 'e registry" where
  "init_registry mem =
     \<lparr>rg_mem = mem, rg_heap = [], rg_entries = [], rg_traps = Map.empty, rg_names = Map.empty, rg_ordinals = Map.empty,
      rg_dynamic_offsets = Map.empty, rg_trap_base = None, rg_addresses = [], rg_trap_count = 0\<rparr>"

text \<open>The engine's bit for pages that the guest can execute.\<close>

definition PROT_EXEC :: int where "PROT_EXEC = 4"

definition emu_write :: "'e mem_ops \<Rightarrow> int \<Rightarrow> byte list \<Rightarrow> ('e, unit) api_meth" where
  "emu_write ops a bs s =
     (case mo_write ops (ms_eng (rg_mem s)) a bs of
        Inl e \<Rightarrow> (Inl e, s)
      | Inr eng \<Rightarrow> (Inr (), s\<lparr>rg_mem := (rg_mem s)\<lparr>ms_eng := eng\<rparr>\<rparr>))"

definition emu_read :: "'e mem_ops \<Rightarrow> int \<Rightarrow> int \<Rightarrow> ('e, byte list) api_meth" where
  "emu_read ops a n s = (mo_read ops (ms_eng (rg_mem s)) a n, s)"

definition encode_api_stub :: "int \<Rightarrow> int \<Rightarrow> int \<Rightarrow> byte list" where
  "encode_api_stub arch entry_addr trap =
     (if arch = 32
      then [0x8b, 0xff, 0x55, 0x8b, 0xec, 0x5d, 0xe9] @ le_bytes 4 ((trap - entry_addr - 11) AND 0xFFFFFFFF)
      else [0x66, 0x90, 0xff, 0x25, 0, 0, 0, 0] @ le_bytes 8 trap)"

definition reserve_traps :: "'e mem_engine \<Rightarrow> ('e, unit) api_meth" where
  "reserve_traps E s =
     (case get_valid_ranges E TRAP_SIZE (Some 0xF0000000) (rg_mem s) of
        Inl e \<Rightarrow> (Inl e, s)
      | Inr (base, sz) \<Rightarrow>
          (if 0x100000000 < base + sz then (Inl WindowsEmuError, s)
           else (case mem_reserve E sz (Some base) None (Some ''emu.api_traps'') 0 False (rg_mem s) of
                   (Inl e, m) \<Rightarrow> (Inl e, s\<lparr>rg_mem := m\<rparr>)
                 | (Inr _, m) \<Rightarrow> (Inr (), s\<lparr>rg_mem := m, rg_trap_base := Some base\<rparr>))))"

definition allocate_trap :: "'e mem_engine \<Rightarrow> ('e, int) api_meth" where
  "allocate_trap E =
     eseq (eif (\<lambda>s. rg_trap_base s = None) (reserve_traps E) (ereturn ()))
       (ebind (eget (\<lambda>s. rg_trap_count s * TRAP_STRIDE)) (\<lambda>offset.
          if TRAP_SIZE \<le> offset then eraise WindowsEmuError
          else eseq (emod (\<lambda>s. s\<lparr>rg_trap_count := rg_trap_count s + 1\<rparr>))
                 (eget (\<lambda>s. (case rg_trap_base s of Some b \<Rightarrow> b | None \<Rightarrow> 0) + offset))))"

definition live_entries :: "nat \<Rightarrow> 'e registry \<Rightarrow> (int \<times> nat) list" where
  "live_entries m s = filter (\<lambda>(a, r). md_id (ae_module (rg_heap s ! r)) = m) (rg_entries s)"

text \<open>The loop of \<open>unregister_module\<close> takes each entry of the module from \<open>entries\<close> and its token from \<open>traps\<close>.\<close>

definition drop_entry :: "'e registry \<Rightarrow> int \<times> nat \<Rightarrow> 'e registry" where
  "drop_entry s x =
     (let s = s\<lparr>rg_entries := AList.delete (fst x) (rg_entries s)\<rparr>
      in case ae_trap (rg_heap s ! snd x) of None \<Rightarrow> s | Some t \<Rightarrow> s\<lparr>rg_traps := (rg_traps s)(t := None)\<rparr>)"

definition unregister_module :: "nat \<Rightarrow> 'e registry \<Rightarrow> 'e registry" where
  "unregister_module m s =
     (let s = foldl drop_entry s (live_entries m s)
      in s\<lparr>rg_addresses := sort (map fst (rg_entries s)), rg_names := (rg_names s)(m := None),
           rg_ordinals := (rg_ordinals s)(m := None), rg_dynamic_offsets := (rg_dynamic_offsets s)(m := None)\<rparr>)"

definition overlaps_traps :: "int \<Rightarrow> int \<Rightarrow> 'e registry \<Rightarrow> bool" where
  "overlaps_traps address sz s =
     (case rg_trap_base s of
        None \<Rightarrow> False
      | Some b \<Rightarrow> address < b + TRAP_SIZE \<and> b < address + max sz 1)"

subsection \<open>Registration\<close>

text \<open>A new object of the heap, and its key in \<open>entries\<close> and \<open>_addresses\<close>.\<close>

definition alloc_entry :: "api_entry \<Rightarrow> ('e, nat) api_meth" where
  "alloc_entry a s = (Inr (length (rg_heap s)), s\<lparr>rg_heap := rg_heap s @ [a]\<rparr>)"

definition set_entry :: "nat \<Rightarrow> (api_entry \<Rightarrow> api_entry) \<Rightarrow> ('e, unit) api_meth" where
  "set_entry r f = emod (\<lambda>s. s\<lparr>rg_heap := (rg_heap s)[r := f (rg_heap s ! r)]\<rparr>)"

definition add_entry :: "int \<Rightarrow> nat \<Rightarrow> ('e, unit) api_meth" where
  "add_entry a r = emod (\<lambda>s. s\<lparr>rg_entries := AList.update a r (rg_entries s), rg_addresses := insort a (rg_addresses s)\<rparr>)"

definition add_trap :: "int \<Rightarrow> nat \<Rightarrow> ('e, unit) api_meth" where
  "add_trap t r = emod (\<lambda>s. s\<lparr>rg_traps := (rg_traps s)(t \<mapsto> r)\<rparr>)"

definition bind_name :: "nat \<Rightarrow> string \<Rightarrow> nat \<Rightarrow> ('e, unit) api_meth" where
  "bind_name m n r = emod (\<lambda>s. s\<lparr>rg_names := (rg_names s)(m \<mapsto>
     ((case rg_names s m of None \<Rightarrow> Map.empty | Some d \<Rightarrow> d)(n \<mapsto> r)))\<rparr>)"

definition bind_ordinal :: "nat \<Rightarrow> int \<Rightarrow> nat \<Rightarrow> ('e, unit) api_meth" where
  "bind_ordinal m n r = emod (\<lambda>s. s\<lparr>rg_ordinals := (rg_ordinals s)(m \<mapsto>
     ((case rg_ordinals s m of None \<Rightarrow> Map.empty | Some d \<Rightarrow> d)(n \<mapsto> r)))\<rparr>)"

definition forwards :: "export_entry \<Rightarrow> bool" where
  "forwards x \<longleftrightarrow> (case xp_forwarder x of None \<Rightarrow> False | Some f \<Rightarrow> f \<noteq> [])"

definition create_entry :: "'e mem_engine \<Rightarrow> 'e mem_ops \<Rightarrow> api_module \<Rightarrow> export_entry \<Rightarrow> ('e, nat) api_meth" where
  "create_entry E ops m x =
     ebind (alloc_entry (new_entry m x [] None)) (\<lambda>r.
     eseq (if md_synthetic m \<and> xp_kind x = ''function'' \<and> \<not> forwards x
           then ebind (allocate_trap E) (\<lambda>t.
                eseq (set_entry r (\<lambda>a. a\<lparr>ae_trap := Some t\<rparr>))
                (eseq (emu_write ops (xp_address x) (encode_api_stub (md_arch m) (xp_address x) t))
                  (add_trap t r)))
           else ereturn ())
     (eseq (add_entry (xp_address x) r) (ereturn r)))"

definition register_export :: "'e mem_engine \<Rightarrow> 'e mem_ops \<Rightarrow> api_module \<Rightarrow> export_entry \<Rightarrow> ('e, unit) api_meth" where
  "register_export E ops m x =
     (if xp_address x = 0 then ereturn ()
      else ebind (eget (\<lambda>s. map_of (rg_entries s) (xp_address x))) (\<lambda>found.
           ebind (case found of Some r \<Rightarrow> ereturn r | None \<Rightarrow> create_entry E ops m x) (\<lambda>r.
           eseq (case xp_name x of
                   None \<Rightarrow> ereturn ()
                 | Some n \<Rightarrow>
                     if n = [] then ereturn ()
                     else eseq (set_entry r (\<lambda>a. if n \<in> set (ae_names a) then a else a\<lparr>ae_names := ae_names a @ [n]\<rparr>))
                            (bind_name (md_id m) n r))
             (bind_ordinal (md_id m) (xp_ordinal x) r))))"

definition register_module :: "'e mem_engine \<Rightarrow> 'e mem_ops \<Rightarrow> api_module \<Rightarrow> ('e, unit) api_meth" where
  "register_module E ops m =
     eseq (emod (\<lambda>s. s\<lparr>
        rg_names := (if rg_names s (md_id m) = None then (rg_names s)(md_id m \<mapsto> Map.empty) else rg_names s),
        rg_ordinals := (if rg_ordinals s (md_id m) = None then (rg_ordinals s)(md_id m \<mapsto> Map.empty) else rg_ordinals s)\<rparr>))
      (each (register_export E ops m) (md_exports m))"

subsection \<open>Lookup\<close>

definition lookup_ref :: "nat \<Rightarrow> api_ref \<Rightarrow> 'e registry \<Rightarrow> nat option" where
  "lookup_ref m ref s =
     (case ref of
        Ordinal n \<Rightarrow> (case rg_ordinals s m of None \<Rightarrow> None | Some d \<Rightarrow> d n)
      | Name n \<Rightarrow> (case rg_names s m of None \<Rightarrow> None | Some d \<Rightarrow> d n))"

definition lookup_export :: "api_module \<Rightarrow> api_ref \<Rightarrow> ('e, nat option) api_meth" where
  "lookup_export m ref s = (rbind (symbol_ref ref) (\<lambda>ref. Inr (lookup_ref (md_id m) ref s)), s)"

definition region_perms :: "'e mem_engine \<Rightarrow> int \<Rightarrow> 'e registry \<Rightarrow> int" where
  "region_perms E slot s =
     (case find (\<lambda>(lo, hi, p). lo \<le> slot \<and> slot + API_SLOT_SIZE \<le> hi + 1) (eng_regions E (ms_eng (rg_mem s))) of
        Some (lo, hi, p) \<Rightarrow> p
      | None \<Rightarrow> 0)"

text \<open>A slot that the guest can execute and that has only \<open>int3\<close> is unused.\<close>

definition check_slot :: "'e mem_engine \<Rightarrow> 'e mem_ops \<Rightarrow> int \<Rightarrow> ('e, unit) api_meth" where
  "check_slot E ops slot =
     eif (\<lambda>s. region_perms E slot s AND PROT_EXEC = 0) (eraise WindowsEmuError)
       (ebind (emu_read ops slot API_SLOT_SIZE) (\<lambda>bs.
          if bs \<noteq> replicate (nat API_SLOT_SIZE) 0xcc then eraise WindowsEmuError else ereturn ()))"

definition dynamic_export :: "api_ref \<Rightarrow> int \<Rightarrow> export_entry" where
  "dynamic_export ref address =
     \<lparr>xp_name = (case ref of Name n \<Rightarrow> Some n | Ordinal _ \<Rightarrow> None), xp_address = address,
      xp_ordinal = (case ref of Name _ \<Rightarrow> 0 | Ordinal n \<Rightarrow> n), xp_kind = ''function'', xp_forwarder = None\<rparr>"

definition slot_bytes :: "int \<Rightarrow> int \<Rightarrow> int \<Rightarrow> byte list" where
  "slot_bytes arch address t =
     (let stub = encode_api_stub arch address t; n = nat (API_SLOT_SIZE - API_ENTRY_OFFSET)
      in replicate (nat API_ENTRY_OFFSET) 0x90 @ stub @ replicate (n - length stub) 0xcc)"

definition synthesize :: "'e mem_engine \<Rightarrow> 'e mem_ops \<Rightarrow> api_module \<Rightarrow> api_ref \<Rightarrow> ('e, nat) api_meth" where
  "synthesize E ops m ref =
     ebind (eget (\<lambda>s. case rg_dynamic_offsets s (md_id m) of None \<Rightarrow> 0 | Some n \<Rightarrow> n)) (\<lambda>offset.
       (case find (\<lambda>(n, va, vs). n = ''.dyn'') (md_sections m) of
          None \<Rightarrow> eraise WindowsEmuError
        | Some (n, va, vs) \<Rightarrow>
            if vs < offset + API_SLOT_SIZE then eraise WindowsEmuError
            else
              let slot = md_base m + va + offset; address = slot + API_ENTRY_OFFSET in
              eseq (check_slot E ops slot)
              (ebind (allocate_trap E) (\<lambda>t.
               ebind (alloc_entry (new_entry m (dynamic_export ref address)
                        (case ref of Name n \<Rightarrow> [n] | Ordinal _ \<Rightarrow> []) (Some t))) (\<lambda>r.
               eseq (emu_write ops slot (slot_bytes (md_arch m) address t))
               (eseq (add_entry address r)
               (eseq (add_trap t r)
               (eseq (case ref of Name n \<Rightarrow> bind_name (md_id m) n r | Ordinal n \<Rightarrow> bind_ordinal (md_id m) n r)
               (eseq (emod (\<lambda>s. s\<lparr>rg_dynamic_offsets := (rg_dynamic_offsets s)(md_id m \<mapsto> offset + API_SLOT_SIZE)\<rparr>))
                 (ereturn r)))))))))) "

definition dynamic :: "'e mem_engine \<Rightarrow> 'e mem_ops \<Rightarrow> api_module \<Rightarrow> api_ref \<Rightarrow> ('e, nat) api_meth" where
  "dynamic E ops m ref =
     ebind (lookup_export m ref) (\<lambda>existing.
       case existing of
         Some r \<Rightarrow> ereturn r
       | None \<Rightarrow>
           if \<not> md_synthetic m then eraise WindowsEmuError
           else ebind (\<lambda>s. (symbol_ref ref, s)) (synthesize E ops m))"

definition symbol_extent :: "api_entry \<Rightarrow> int" where
  "symbol_extent a =
     (if xp_kind (ae_export a) = ''function'' \<and> ae_trap a \<noteq> None then API_SLOT_SIZE - API_ENTRY_OFFSET else 1)"

text \<open>\<open>bisect_right\<close> of a sorted list is the number of its elements that are not greater.\<close>

definition symbol_at :: "int \<Rightarrow> 'e registry \<Rightarrow> string option" where
  "symbol_at address s =
     (case map_of (rg_entries s) address of
        Some r \<Rightarrow> Some (entry_symbol (rg_heap s ! r))
      | None \<Rightarrow>
          (let index = int (length (filter (\<lambda>a. a \<le> address) (rg_addresses s))) - 1
           in if index < 0 then None
              else
                (let start_addr = rg_addresses s ! nat index
                 in case map_of (rg_entries s) start_addr of
                      None \<Rightarrow> None
                    | Some r \<Rightarrow>
                        (let rec = rg_heap s ! r
                         in if start_addr < address \<and> address < start_addr + symbol_extent rec
                            then Some (entry_symbol rec @ ''+0x'' @ hex_of (address - start_addr)) else None))))"

end
