(* ===== verification/Api_Dispatch.thy ===== *)
theory Api_Dispatch
  imports Api_Registry Guest_Memory Memory_Search
begin

text \<open>
  What the API registry promises: the tokens are unique and lie in the reserved range, over every sequence of
  registrations and removals; the code of an entry jumps to its token, and the token gives the entry back.
\<close>

subsection \<open>The invariant\<close>

text \<open>
  A token that was given out: the registry has reserved the range and counted the token. Tokens are counted up, so the
  token of a removed entry is not given out again.
\<close>

definition token :: "'e registry \<Rightarrow> int \<Rightarrow> bool" where
  "token s t \<longleftrightarrow> (\<exists>b k. rg_trap_base s = Some b \<and> 0 \<le> k \<and> k < rg_trap_count s \<and> t = b + TRAP_STRIDE * k)"

text \<open>
  Each token belongs to one entry; \<open>traps\<close> and \<open>entries\<close> name entries that have the token and the address; an entry that
  is listed and has a token is found by it; \<open>_addresses\<close> are the listed addresses in order.
\<close>

definition trap_range_ok :: "'e registry \<Rightarrow> bool" where
  "trap_range_ok s \<longleftrightarrow> 0 \<le> rg_trap_count s \<and> rg_trap_count s * TRAP_STRIDE \<le> TRAP_SIZE
     \<and> (rg_trap_base s = None \<longrightarrow> rg_trap_count s = 0)
     \<and> (\<forall>b. rg_trap_base s = Some b \<longrightarrow> 0 \<le> b \<and> b + TRAP_SIZE \<le> 0x100000000)"

definition tokens_ok :: "'e registry \<Rightarrow> bool" where
  "tokens_ok s \<longleftrightarrow>
     (\<forall>r t. r < length (rg_heap s) \<and> ae_trap (rg_heap s ! r) = Some t \<longrightarrow> token s t)
     \<and> (\<forall>r r' t. r < length (rg_heap s) \<and> r' < length (rg_heap s)
          \<and> ae_trap (rg_heap s ! r) = Some t \<and> ae_trap (rg_heap s ! r') = Some t \<longrightarrow> r = r')
     \<and> (\<forall>t r. rg_traps s t = Some r \<longrightarrow> r < length (rg_heap s) \<and> ae_trap (rg_heap s ! r) = Some t)"

definition entries_ok :: "'e registry \<Rightarrow> bool" where
  "entries_ok s \<longleftrightarrow> distinct (map fst (rg_entries s)) \<and> sorted (rg_addresses s)
     \<and> set (rg_addresses s) = fst ` set (rg_entries s)
     \<and> (\<forall>(a, r) \<in> set (rg_entries s). r < length (rg_heap s) \<and> entry_address (rg_heap s ! r) = a
          \<and> (\<forall>t. ae_trap (rg_heap s ! r) = Some t \<longrightarrow> rg_traps s t = Some r))"

definition registry_ok :: "'e registry \<Rightarrow> bool" where
  "registry_ok s \<longleftrightarrow> trap_range_ok s \<and> tokens_ok s \<and> entries_ok s"

lemmas registry_defs = registry_ok_def trap_range_ok_def tokens_ok_def entries_ok_def token_def

lemma registry_ok_init: "registry_ok (init_registry mem)"
  by (simp add: registry_defs init_registry_def TRAP_SIZE_def TRAP_STRIDE_def)

text \<open>The changes that touch neither entries nor tokens.\<close>

lemma registry_ok_mem [simp]: "registry_ok (s\<lparr>rg_mem := m\<rparr>) = registry_ok s"
  "registry_ok (s\<lparr>rg_names := n\<rparr>) = registry_ok s" "registry_ok (s\<lparr>rg_ordinals := d\<rparr>) = registry_ok s"
  "registry_ok (s\<lparr>rg_dynamic_offsets := d'\<rparr>) = registry_ok s"
  by (simp_all add: registry_defs)

lemma registry_trapD:
  "registry_ok s \<Longrightarrow> rg_traps s t = Some r \<Longrightarrow> r < length (rg_heap s) \<and> ae_trap (rg_heap s ! r) = Some t"
  by (simp add: registry_ok_def tokens_ok_def)

lemma registry_tokenD:
  "registry_ok s \<Longrightarrow> r < length (rg_heap s) \<Longrightarrow> ae_trap (rg_heap s ! r) = Some t \<Longrightarrow> token s t"
  by (simp add: registry_ok_def tokens_ok_def)

lemma registry_uniqueD:
  "\<lbrakk>registry_ok s; r < length (rg_heap s); r' < length (rg_heap s); ae_trap (rg_heap s ! r) = Some t;
    ae_trap (rg_heap s ! r') = Some t\<rbrakk> \<Longrightarrow> r = r'"
  unfolding registry_ok_def tokens_ok_def by blast

lemma registry_entryD:
  assumes "registry_ok s" "(a, r) \<in> set (rg_entries s)"
  shows "r < length (rg_heap s)" "entry_address (rg_heap s ! r) = a"
    "ae_trap (rg_heap s ! r) = Some t \<Longrightarrow> rg_traps s t = Some r"
  using assms by (fastforce simp: registry_ok_def entries_ok_def)+

lemma entries_ok_frame:
  assumes "registry_ok s" "rg_entries s' = rg_entries s" "rg_addresses s' = rg_addresses s"
    "\<And>a r. \<lbrakk>(a, r) \<in> set (rg_entries s); r < length (rg_heap s); entry_address (rg_heap s ! r) = a;
        \<And>t. ae_trap (rg_heap s ! r) = Some t \<Longrightarrow> rg_traps s t = Some r\<rbrakk>
      \<Longrightarrow> r < length (rg_heap s') \<and> entry_address (rg_heap s' ! r) = a
        \<and> (\<forall>t. ae_trap (rg_heap s' ! r) = Some t \<longrightarrow> rg_traps s' t = Some r)"
  shows "entries_ok s'"
  unfolding entries_ok_def
proof (intro conjI ballI)
  fix x assume x: "x \<in> set (rg_entries s')"
  obtain a r where "x = (a, r)" by (cases x)
  with x show "case x of (a, r) \<Rightarrow> r < length (rg_heap s') \<and> entry_address (rg_heap s' ! r) = a
      \<and> (\<forall>t. ae_trap (rg_heap s' ! r) = Some t \<longrightarrow> rg_traps s' t = Some r)"
    using assms(2,4) registry_entryD [OF assms(1)] by simp
qed (use assms(1-3) in \<open>simp_all add: registry_ok_def entries_ok_def\<close>)

subsection \<open>Tokens\<close>

definition tables :: "'e registry \<Rightarrow> api_entry list \<times> (int \<times> nat) list \<times> (int \<rightharpoonup> nat) \<times> int list" where
  "tables s = (rg_heap s, rg_entries s, rg_traps s, rg_addresses s)"

definition fresh_token :: "'e registry \<Rightarrow> int \<Rightarrow> bool" where
  "fresh_token s t \<longleftrightarrow> token s t \<and> (\<forall>r < length (rg_heap s). ae_trap (rg_heap s ! r) \<noteq> Some t)"

lemma round_total_traps: "round_total TRAP_SIZE = TRAP_SIZE"
  by (simp add: round_total_def TRAP_SIZE_def page_size_def)

lemma trap_range_base:
  assumes "get_valid_ranges E TRAP_SIZE (Some 0xF0000000) m = Inr (base, sz)"
  shows "0 \<le> base \<and> sz = TRAP_SIZE"
proof -
  have a: "sz = TRAP_SIZE" "base = scan_pages TRAP_SIZE (sort (remdups (occupied E m))) 0xF0000000"
    using assms by (auto simp: get_valid_ranges_def round_total_traps Let_def page_size_def split: option.splits if_splits)
  show ?thesis
    using scan_pages_ge [of "0xF0000000" TRAP_SIZE "sort (remdups (occupied E m))"] a by simp
qed

lemma reserve_traps_ok:
  "ensures (\<lambda>s. (registry_ok s \<and> tables s = T) \<and> rg_trap_base s = None) (reserve_traps E)
     (\<lambda>_ s. registry_ok s \<and> tables s = T \<and> rg_trap_base s \<noteq> None) registry_ok"
proof -
  have "registry_ok (s\<lparr>rg_mem := m, rg_trap_base := Some b\<rparr>)"
    if "registry_ok s" "rg_trap_base s = None" "0 \<le> b" "b + TRAP_SIZE \<le> 0x100000000" for s :: "'a registry" and m b
  proof -
    have "\<not> token s t" for t using that(2) by (simp add: token_def)
    with that(1) have none: "ae_trap (rg_heap s ! r) \<noteq> Some t" if "r < length (rg_heap s)" for r t
      using that by (auto simp: registry_ok_def tokens_ok_def)
    have "rg_traps s t = None" for t
      using registry_trapD [OF that(1)] none by (cases "rg_traps s t") blast+
    with none have "tokens_ok (s\<lparr>rg_mem := m, rg_trap_base := Some b\<rparr>)"
      by (auto simp: tokens_ok_def)
    moreover have "trap_range_ok (s\<lparr>rg_mem := m, rg_trap_base := Some b\<rparr>)"
      using that by (simp add: registry_ok_def trap_range_ok_def TRAP_SIZE_def)
    moreover have "entries_ok (s\<lparr>rg_mem := m, rg_trap_base := Some b\<rparr>)"
      using that(1) by (simp add: registry_ok_def entries_ok_def)
    ultimately show ?thesis by (simp add: registry_ok_def)
  qed
  then show ?thesis
    by (auto simp: ensures_def reserve_traps_def tables_def mem_reserve_def Let_def dest: trap_range_base
        split: sum.splits prod.splits)
qed

lemma token_count_ok:
  assumes "registry_ok s" "rg_trap_base s = Some b" "rg_trap_count s * TRAP_STRIDE < TRAP_SIZE"
  shows "registry_ok (s\<lparr>rg_trap_count := rg_trap_count s + 1\<rparr>)
    \<and> fresh_token (s\<lparr>rg_trap_count := rg_trap_count s + 1\<rparr>) (b + rg_trap_count s * TRAP_STRIDE)"
proof -
  have "16 * (rg_trap_count s + 1) \<le> TRAP_SIZE" using assms(3) by (simp add: TRAP_STRIDE_def TRAP_SIZE_def)
  then have r: "trap_range_ok (s\<lparr>rg_trap_count := rg_trap_count s + 1\<rparr>)"
    using assms(1,2) by (simp add: registry_ok_def trap_range_ok_def TRAP_STRIDE_def algebra_simps)
  have more: "token s t \<Longrightarrow> token (s\<lparr>rg_trap_count := rg_trap_count s + 1\<rparr>) t" for t
    unfolding token_def by fastforce
  have "tokens_ok (s\<lparr>rg_trap_count := rg_trap_count s + 1\<rparr>)"
    using assms(1) more by (simp add: registry_ok_def tokens_ok_def)
  moreover have "entries_ok (s\<lparr>rg_trap_count := rg_trap_count s + 1\<rparr>)"
    using assms(1) by (simp add: registry_ok_def entries_ok_def)
  moreover have "token (s\<lparr>rg_trap_count := rg_trap_count s + 1\<rparr>) (b + rg_trap_count s * TRAP_STRIDE)"
    using assms(1,2) by (auto simp: token_def registry_ok_def trap_range_ok_def intro!: exI [of _ "rg_trap_count s"])
  moreover have "\<not> token s (b + rg_trap_count s * TRAP_STRIDE)"
    using assms(2) by (auto simp: token_def TRAP_STRIDE_def)
  then have "\<forall>r < length (rg_heap s). ae_trap (rg_heap s ! r) \<noteq> Some (b + rg_trap_count s * TRAP_STRIDE)"
    using assms(1) by (auto simp: registry_ok_def tokens_ok_def)
  ultimately show ?thesis using r by (simp add: registry_ok_def fresh_token_def)
qed

lemma allocate_trap_ok:
  "ensures (\<lambda>s. registry_ok s \<and> tables s = T) (allocate_trap E)
     (\<lambda>t s. registry_ok s \<and> tables s = T \<and> fresh_token s t) registry_ok"
  unfolding allocate_trap_def
proof (rule ensures_eseq [where Q = "\<lambda>s. registry_ok s \<and> tables s = T \<and> rg_trap_base s \<noteq> None"])
  show "ensures (\<lambda>s. registry_ok s \<and> tables s = T) (eif (\<lambda>s. rg_trap_base s = None) (reserve_traps E) (ereturn ()))
     (\<lambda>_ s. registry_ok s \<and> tables s = T \<and> rg_trap_base s \<noteq> None) registry_ok"
    by (rule ensures_eif, rule reserve_traps_ok) (rule ensures_basic, simp)
  show "ensures (\<lambda>s. registry_ok s \<and> tables s = T \<and> rg_trap_base s \<noteq> None)
     (ebind (eget (\<lambda>s. rg_trap_count s * TRAP_STRIDE)) (\<lambda>offset.
        if TRAP_SIZE \<le> offset then eraise WindowsEmuError
        else eseq (emod (\<lambda>s. s\<lparr>rg_trap_count := rg_trap_count s + 1\<rparr>))
               (eget (\<lambda>s. (case rg_trap_base s of Some b \<Rightarrow> b | None \<Rightarrow> 0) + offset))))
     (\<lambda>t s. registry_ok s \<and> tables s = T \<and> fresh_token s t) registry_ok"
    using token_count_ok by (fastforce simp: ensures_def ebind_def eseq_def tables_def)
qed

subsection \<open>New entries\<close>

text \<open>An object of the heap that is not listed, for the address \<open>a\<close>.\<close>

definition unlisted :: "'e registry \<Rightarrow> nat \<Rightarrow> int \<Rightarrow> bool" where
  "unlisted s r a \<longleftrightarrow> registry_ok s \<and> r < length (rg_heap s) \<and> entry_address (rg_heap s ! r) = a
     \<and> (\<forall>x \<in> set (rg_entries s). snd x \<noteq> r)"

lemma registry_ok_alloc:
  assumes "registry_ok s" "\<And>t. ae_trap x = Some t \<Longrightarrow> fresh_token s t"
  shows "unlisted (s\<lparr>rg_heap := rg_heap s @ [x]\<rparr>) (length (rg_heap s)) (entry_address x)"
proof -
  have "trap_range_ok (s\<lparr>rg_heap := rg_heap s @ [x]\<rparr>)" using assms(1) by (simp add: registry_ok_def trap_range_ok_def)
  moreover have "tokens_ok (s\<lparr>rg_heap := rg_heap s @ [x]\<rparr>)"
    using assms by (auto simp: registry_ok_def tokens_ok_def fresh_token_def token_def nth_append less_Suc_eq)
  moreover have "entries_ok (s\<lparr>rg_heap := rg_heap s @ [x]\<rparr>)"
    using assms(1) by (fastforce simp: registry_ok_def entries_ok_def nth_append)
  moreover have "\<forall>y \<in> set (rg_entries s). snd y \<noteq> length (rg_heap s)"
    using assms(1) by (fastforce simp: registry_ok_def entries_ok_def)
  ultimately show ?thesis by (simp add: unlisted_def registry_ok_def)
qed

lemma set_entry_ok:
  assumes "registry_ok s" "r < length (rg_heap s)"
    "ae_export (f (rg_heap s ! r)) = ae_export (rg_heap s ! r)" "ae_trap (f (rg_heap s ! r)) = ae_trap (rg_heap s ! r)"
  shows "registry_ok (s\<lparr>rg_heap := (rg_heap s)[r := f (rg_heap s ! r)]\<rparr>)"
proof -
  let ?h = "(rg_heap s)[r := f (rg_heap s ! r)]"
  have same: "ae_trap (?h ! i) = ae_trap (rg_heap s ! i)" "entry_address (?h ! i) = entry_address (rg_heap s ! i)" for i
    using assms(2-) by (cases "i = r"; simp add: entry_address_def)+
  show ?thesis
    using assms(1) unfolding registry_ok_def trap_range_ok_def tokens_ok_def entries_ok_def token_def by (simp add: same)
qed

lemma set_trap_ok:
  assumes "unlisted s r a" "ae_trap (rg_heap s ! r) = None" "fresh_token s t"
  shows "unlisted (s\<lparr>rg_heap := (rg_heap s)[r := (rg_heap s ! r)\<lparr>ae_trap := Some t\<rparr>]\<rparr>) r a"
proof -
  let ?s = "s\<lparr>rg_heap := (rg_heap s)[r := (rg_heap s ! r)\<lparr>ae_trap := Some t\<rparr>]\<rparr>"
  have ok: "registry_ok s" "r < length (rg_heap s)" "\<And>a' r'. (a', r') \<in> set (rg_entries s) \<Longrightarrow> r' \<noteq> r"
    using assms(1) by (auto simp: unlisted_def)
  let ?h = "(rg_heap s)[r := (rg_heap s ! r)\<lparr>ae_trap := Some t\<rparr>]"
  have addr: "entry_address (?h ! i) = entry_address (rg_heap s ! i)" for i
    using ok(2) by (cases "i = r") (simp_all add: entry_address_def)
  have trap: "ae_trap (?h ! i) = (if i = r then Some t else ae_trap (rg_heap s ! i))" for i
    using ok(2) by simp
  have "tokens_ok ?s"
    unfolding tokens_ok_def
  proof (intro conjI allI impI; (elim conjE)?)
    fix i u assume i: "i < length (rg_heap ?s)" "ae_trap (rg_heap ?s ! i) = Some u"
    then show "token ?s u"
      using registry_tokenD [OF ok(1), of i u] assms(3) by (cases "i = r") (auto simp: trap fresh_token_def token_def)
  next
    fix i j u
    assume "i < length (rg_heap ?s)" "j < length (rg_heap ?s)" "ae_trap (rg_heap ?s ! i) = Some u" "ae_trap (rg_heap ?s ! j) = Some u"
    then show "i = j"
      using registry_uniqueD [OF ok(1), of i j u] assms(3) by (auto simp: trap fresh_token_def split: if_splits)
  next
    fix u i assume "rg_traps ?s u = Some i"
    then have u: "rg_traps s u = Some i" by simp
    then have "i \<noteq> r" using registry_trapD [OF ok(1) u] assms(2) by auto
    with registry_trapD [OF ok(1) u] show "i < length (rg_heap ?s)" "ae_trap (rg_heap ?s ! i) = Some u"
      by (simp_all add: trap)
  qed
  moreover have "entries_ok ?s"
    by (rule entries_ok_frame [OF ok(1)]) (use ok(3) in \<open>auto simp: addr trap\<close>)
  moreover have "trap_range_ok ?s" using ok(1) by (simp add: registry_ok_def trap_range_ok_def)
  ultimately show ?thesis using assms(1) addr [of r] by (simp add: unlisted_def registry_ok_def)
qed

lemma add_trap_ok:
  assumes "unlisted s r a" "ae_trap (rg_heap s ! r) = Some t"
  shows "unlisted (s\<lparr>rg_traps := (rg_traps s)(t \<mapsto> r)\<rparr>) r a"
proof -
  have ok: "registry_ok s" "r < length (rg_heap s)" "\<And>a' r'. (a', r') \<in> set (rg_entries s) \<Longrightarrow> r' \<noteq> r"
    using assms(1) by (auto simp: unlisted_def)
  have "tokens_ok (s\<lparr>rg_traps := (rg_traps s)(t \<mapsto> r)\<rparr>)"
    using ok assms(2) by (auto simp: registry_ok_def tokens_ok_def token_def)
  moreover have "entries_ok (s\<lparr>rg_traps := (rg_traps s)(t \<mapsto> r)\<rparr>)"
  proof (rule entries_ok_frame [OF ok(1)])
    fix a' r' assume m: "(a', r') \<in> set (rg_entries s)" "r' < length (rg_heap s)" "entry_address (rg_heap s ! r') = a'"
      "\<And>u. ae_trap (rg_heap s ! r') = Some u \<Longrightarrow> rg_traps s u = Some r'"
    have "ae_trap (rg_heap s ! r') \<noteq> Some t"
      using registry_uniqueD [OF ok(1) ok(2) m(2) assms(2)] ok(3) [OF m(1)] by blast
    with m show "r' < length (rg_heap (s\<lparr>rg_traps := (rg_traps s)(t \<mapsto> r)\<rparr>))
        \<and> entry_address (rg_heap (s\<lparr>rg_traps := (rg_traps s)(t \<mapsto> r)\<rparr>) ! r') = a'
        \<and> (\<forall>u. ae_trap (rg_heap (s\<lparr>rg_traps := (rg_traps s)(t \<mapsto> r)\<rparr>) ! r') = Some u
             \<longrightarrow> rg_traps (s\<lparr>rg_traps := (rg_traps s)(t \<mapsto> r)\<rparr>) u = Some r')" by auto
  qed simp_all
  ultimately show ?thesis using assms(1) by (simp add: unlisted_def registry_ok_def trap_range_ok_def)
qed

lemma set_update_iff: "distinct (map fst d) \<Longrightarrow> set (AList.update a r d) = insert (a, r) {x \<in> set d. fst x \<noteq> a}"
  by (induction d) force+

lemma add_entry_ok:
  assumes "unlisted s r a" "\<And>t. ae_trap (rg_heap s ! r) = Some t \<Longrightarrow> rg_traps s t = Some r"
  shows "registry_ok (s\<lparr>rg_entries := AList.update a r (rg_entries s), rg_addresses := insort a (rg_addresses s)\<rparr>)"
proof -
  let ?s = "s\<lparr>rg_entries := AList.update a r (rg_entries s), rg_addresses := insort a (rg_addresses s)\<rparr>"
  have ok: "registry_ok s" "r < length (rg_heap s)" "entry_address (rg_heap s ! r) = a"
    using assms(1) by (auto simp: unlisted_def)
  have d: "distinct (map fst (rg_entries s))" "sorted (rg_addresses s)" "set (rg_addresses s) = fst ` set (rg_entries s)"
    using ok(1) by (simp_all add: registry_ok_def entries_ok_def)
  have "entries_ok ?s"
    unfolding entries_ok_def
  proof (intro conjI ballI)
    show "distinct (map fst (rg_entries ?s))" using d by (simp add: AList.distinct_update)
    show "sorted (rg_addresses ?s)" using d by (simp add: sorted_insort)
    show "set (rg_addresses ?s) = fst ` set (rg_entries ?s)"
      using d by (auto simp: set_insort_key set_update_iff)
    fix x assume "x \<in> set (rg_entries ?s)"
    then have x: "x = (a, r) \<or> x \<in> set (rg_entries s)" by (auto simp: set_update_iff [OF d(1)])
    obtain a' r' where "x = (a', r')" by (cases x)
    with x show "case x of (a, r) \<Rightarrow> r < length (rg_heap ?s) \<and> entry_address (rg_heap ?s ! r) = a
        \<and> (\<forall>t. ae_trap (rg_heap ?s ! r) = Some t \<longrightarrow> rg_traps ?s t = Some r)"
      using ok assms(2) registry_entryD [OF ok(1)] by auto
  qed
  then show ?thesis using ok(1) by (simp add: registry_ok_def trap_range_ok_def tokens_ok_def token_def)
qed

subsection \<open>The operations keep the invariant\<close>

lemma emu_write_keeps:
  assumes "\<And>s m. P s \<Longrightarrow> P (s\<lparr>rg_mem := m\<rparr>)" "\<And>s. P s \<Longrightarrow> R s"
  shows "ensures P (emu_write ops a bs) (\<lambda>_. P) R"
  using assms by (auto simp: ensures_def emu_write_def split: sum.split)

lemma unlisted_mem [simp]: "unlisted (s\<lparr>rg_mem := m\<rparr>) r a = unlisted s r a"
  by (simp add: unlisted_def)

lemma unlisted_ok: "unlisted s r a \<Longrightarrow> registry_ok s"
  by (simp add: unlisted_def)

text \<open>An object with a token that is not in \<open>traps\<close> yet, and one whose token is there.\<close>

definition unlisted_trap :: "nat \<Rightarrow> int \<Rightarrow> int \<Rightarrow> 'e registry \<Rightarrow> bool" where
  "unlisted_trap r a t s \<longleftrightarrow> unlisted s r a \<and> ae_trap (rg_heap s ! r) = Some t"

definition listable :: "nat \<Rightarrow> int \<Rightarrow> 'e registry \<Rightarrow> bool" where
  "listable r a s \<longleftrightarrow> unlisted s r a \<and> (\<forall>t. ae_trap (rg_heap s ! r) = Some t \<longrightarrow> rg_traps s t = Some r)"

lemma write_stub_ok:
  "ensures (unlisted_trap r a t) (emu_write ops a' bs) (\<lambda>_. unlisted_trap r a t) registry_ok"
  by (rule emu_write_keeps) (auto simp: unlisted_trap_def dest: unlisted_ok)

lemma add_trap_step: "ensures (unlisted_trap r a t) (add_trap t r) (\<lambda>_. listable r a) registry_ok"
  unfolding add_trap_def
  by (rule ensures_basic(4)) (use add_trap_ok in \<open>auto simp: unlisted_trap_def listable_def\<close>)

lemma add_entry_step: "ensures (listable r a) (add_entry a r) (\<lambda>_ s. registry_ok s \<and> r < length (rg_heap s)) registry_ok"
  unfolding add_entry_def
  by (rule ensures_basic(4)) (use add_entry_ok in \<open>auto simp: listable_def unlisted_def\<close>)

lemma ensures_states: "(\<And>s0. P s0 \<Longrightarrow> ensures (\<lambda>s. s = s0) m Q R) \<Longrightarrow> ensures P m Q R"
  by (simp add: ensures_def)

lemma allocate_step: "ensures registry_ok (allocate_trap E) (\<lambda>t s. registry_ok s \<and> fresh_token s t) registry_ok"
proof (rule ensures_states)
  fix s0 :: "'a registry" assume "registry_ok s0"
  then show "ensures (\<lambda>s. s = s0) (allocate_trap E) (\<lambda>t s. registry_ok s \<and> fresh_token s t) registry_ok"
    by (intro ensures_weaken [OF allocate_trap_ok [of "tables s0"]]) auto
qed

lemma allocate_for_step:
  "ensures (\<lambda>s. unlisted s r a \<and> ae_trap (rg_heap s ! r) = None) (allocate_trap E)
     (\<lambda>t s. unlisted s r a \<and> ae_trap (rg_heap s ! r) = None \<and> fresh_token s t) registry_ok"
proof (rule ensures_states)
  fix s0 :: "'a registry" assume "unlisted s0 r a \<and> ae_trap (rg_heap s0 ! r) = None"
  then show "ensures (\<lambda>s. s = s0) (allocate_trap E)
     (\<lambda>t s. unlisted s r a \<and> ae_trap (rg_heap s ! r) = None \<and> fresh_token s t) registry_ok"
    by (intro ensures_weaken [OF allocate_trap_ok [of "tables s0"]]) (auto simp: tables_def unlisted_def)
qed

lemma set_trap_step:
  "ensures (\<lambda>s. unlisted s r a \<and> ae_trap (rg_heap s ! r) = None \<and> fresh_token s t)
     (set_entry r (\<lambda>a. a\<lparr>ae_trap := Some t\<rparr>)) (\<lambda>_. unlisted_trap r a t) registry_ok"
  unfolding set_entry_def
proof (rule ensures_basic(4))
  fix s :: "'a registry"
  assume p: "unlisted s r a \<and> ae_trap (rg_heap s ! r) = None \<and> fresh_token s t"
  then have "r < length (rg_heap s)" by (simp add: unlisted_def)
  with p set_trap_ok [of s r a t] show "unlisted_trap r a t (s\<lparr>rg_heap := (rg_heap s)[r := (rg_heap s ! r)\<lparr>ae_trap := Some t\<rparr>]\<rparr>)"
    by (simp add: unlisted_trap_def)
qed

definition known :: "nat \<Rightarrow> 'e registry \<Rightarrow> bool" where
  "known r s \<longleftrightarrow> registry_ok s \<and> r < length (rg_heap s)"

lemma known_ok: "known r s \<Longrightarrow> registry_ok s"
  by (simp add: known_def)

lemma known_frame [simp]:
  "known r (s\<lparr>rg_names := n\<rparr>) = known r s" "known r (s\<lparr>rg_ordinals := d\<rparr>) = known r s"
  "known r (s\<lparr>rg_dynamic_offsets := d'\<rparr>) = known r s" "known r (s\<lparr>rg_mem := m\<rparr>) = known r s"
  by (simp_all add: known_def)

lemma list_entry_step: "ensures (listable r a) (add_entry a r) (\<lambda>_. known r) registry_ok"
  unfolding known_def by (rule add_entry_step)

lemma create_entry_ok: "ensures registry_ok (create_entry E ops m x) known registry_ok"
  unfolding create_entry_def
proof (rule ensures_ebind)
  show "ensures registry_ok (alloc_entry (new_entry m x [] None))
     (\<lambda>r s. unlisted s r (xp_address x) \<and> ae_trap (rg_heap s ! r) = None) registry_ok"
    using registry_ok_alloc [of _ "new_entry m x [] None"]
    by (auto simp: ensures_def alloc_entry_def new_entry_def entry_address_def)
  fix r
  have stub: "ensures (\<lambda>s. unlisted s r (xp_address x) \<and> ae_trap (rg_heap s ! r) = None)
     (ebind (allocate_trap E) (\<lambda>t. eseq (set_entry r (\<lambda>a. a\<lparr>ae_trap := Some t\<rparr>))
        (eseq (emu_write ops (xp_address x) (encode_api_stub (md_arch m) (xp_address x) t)) (add_trap t r))))
     (\<lambda>_. listable r (xp_address x)) registry_ok"
    by (rule ensures_ebind [OF allocate_for_step], rule ensures_eseq [OF set_trap_step],
        rule ensures_eseq [OF write_stub_ok add_trap_step])
  show "ensures (\<lambda>s. unlisted s r (xp_address x) \<and> ae_trap (rg_heap s ! r) = None)
     (eseq (if md_synthetic m \<and> xp_kind x = ''function'' \<and> \<not> forwards x
        then ebind (allocate_trap E) (\<lambda>t. eseq (set_entry r (\<lambda>a. a\<lparr>ae_trap := Some t\<rparr>))
          (eseq (emu_write ops (xp_address x) (encode_api_stub (md_arch m) (xp_address x) t)) (add_trap t r)))
        else ereturn ()) (eseq (add_entry (xp_address x) r) (ereturn r))) known registry_ok"
  proof (rule ensures_eseq)
    show "ensures (\<lambda>s. unlisted s r (xp_address x) \<and> ae_trap (rg_heap s ! r) = None)
      (if md_synthetic m \<and> xp_kind x = ''function'' \<and> \<not> forwards x
        then ebind (allocate_trap E) (\<lambda>t. eseq (set_entry r (\<lambda>a. a\<lparr>ae_trap := Some t\<rparr>))
          (eseq (emu_write ops (xp_address x) (encode_api_stub (md_arch m) (xp_address x) t)) (add_trap t r)))
        else ereturn ()) (\<lambda>_. listable r (xp_address x)) registry_ok"
      using stub by (simp add: ensures_def listable_def)
    show "ensures (listable r (xp_address x)) (eseq (add_entry (xp_address x) r) (ereturn r)) known registry_ok"
      by (rule ensures_eseq [OF list_entry_step]) (simp add: ensures_def)
  qed
qed

lemma names_step:
  "ensures (known r) (set_entry r (\<lambda>a. if n \<in> set (ae_names a) then a else a\<lparr>ae_names := ae_names a @ [n]\<rparr>))
     (\<lambda>_. known r) registry_ok"
  unfolding set_entry_def
  by (rule ensures_basic(4)) (auto simp: known_def intro!: set_entry_ok)

lemma bind_steps:
  "ensures (known r) (bind_name m n r) (\<lambda>_. known r) registry_ok"
  "ensures (known r) (bind_ordinal m k r) (\<lambda>_. known r) registry_ok"
  unfolding bind_name_def bind_ordinal_def by (rule ensures_basic(4), simp)+

lemma ensures_known_ok: "ensures P m (\<lambda>_. known r) R \<Longrightarrow> ensures P m (\<lambda>_. registry_ok) R"
  by (erule ensures_weaken) (auto dest: known_ok)

lemma register_export_ok: "ensures registry_ok (register_export E ops m x) (\<lambda>_. registry_ok) registry_ok"
proof -
  have found: "ensures (\<lambda>s. registry_ok s \<and> found = map_of (rg_entries s) (xp_address x))
      (case found of Some r \<Rightarrow> ereturn r | None \<Rightarrow> create_entry E ops m x) known registry_ok" for found
  proof (cases found)
    case None
    then show ?thesis using create_entry_ok [of E ops m x] by (simp add: ensures_def)
  next
    case (Some r)
    then show ?thesis
      by (auto simp: known_def ensures_def intro: registry_entryD(1) map_of_SomeD dest: sym)
  qed
  have rest: "ensures (known r) (eseq (case xp_name x of
                   None \<Rightarrow> ereturn ()
                 | Some n \<Rightarrow>
                     if n = [] then ereturn ()
                     else eseq (set_entry r (\<lambda>a. if n \<in> set (ae_names a) then a else a\<lparr>ae_names := ae_names a @ [n]\<rparr>))
                            (bind_name (md_id m) n r))
             (bind_ordinal (md_id m) (xp_ordinal x) r)) (\<lambda>_. registry_ok) registry_ok" for r
    by (rule ensures_eseq [OF _ ensures_known_ok [OF bind_steps(2)]])
      (auto split: option.split intro: ensures_basic ensures_eseq [OF names_step bind_steps(1)])
  show ?thesis
  proof (cases "xp_address x = 0")
    case False
    have get: "ensures registry_ok (eget (\<lambda>s. map_of (rg_entries s) (xp_address x)))
        (\<lambda>found s. registry_ok s \<and> found = map_of (rg_entries s) (xp_address x)) registry_ok"
      by (simp add: ensures_def)
    show ?thesis
      unfolding register_export_def if_not_P [OF False] by (rule ensures_ebind [OF get ensures_ebind [OF found rest]])
  qed (simp add: register_export_def ensures_def)
qed

lemma register_module_ok: "ensures registry_ok (register_module E ops m) (\<lambda>_. registry_ok) registry_ok"
  unfolding register_module_def
  by (rule ensures_eseq [OF ensures_basic(4) ensures_each [OF register_export_ok]]) simp

lemma registry_swap:
  "s\<lparr>rg_entries := e, rg_addresses := d, rg_traps := u\<rparr> = s\<lparr>rg_traps := u, rg_entries := e, rg_addresses := d\<rparr>"
  by (cases s) simp

lemma add_swap:
  "eseq (add_entry a r) (eseq (add_trap t r) n) = eseq (add_trap t r) (eseq (add_entry a r) n)"
  by (rule ext) (simp add: eseq_def ebind_def add_entry_def add_trap_def registry_swap)

lemma check_slot_state: "check_slot E ops slot s = (x, s') \<Longrightarrow> s' = s"
  by (auto simp: check_slot_def eif_def ebind_def emu_read_def split: if_splits sum.splits)

lemma check_slot_keeps: "(\<And>s. P s \<Longrightarrow> R s) \<Longrightarrow> ensures P (check_slot E ops slot) (\<lambda>_. P) R"
  unfolding ensures_def by (auto split: prod.split sum.split dest: check_slot_state)

lemma synthesize_ok: "ensures registry_ok (synthesize E ops m ref) (\<lambda>_. registry_ok) registry_ok"
proof -
  have steps: "ensures registry_ok (eseq (check_slot E ops slot)
      (ebind (allocate_trap E) (\<lambda>t.
       ebind (alloc_entry (new_entry m (dynamic_export ref address) names (Some t))) (\<lambda>r.
       eseq (emu_write ops slot (bs t))
       (eseq (add_entry address r) (eseq (add_trap t r)
       (eseq (case ref of Name n \<Rightarrow> bind_name (md_id m) n r | Ordinal n \<Rightarrow> bind_ordinal (md_id m) n r)
       (eseq (emod (\<lambda>s. s\<lparr>rg_dynamic_offsets := (rg_dynamic_offsets s)(md_id m \<mapsto> off)\<rparr>))
         (ereturn r))))))))) (\<lambda>_. registry_ok) registry_ok" for slot address names bs off
  proof (rule ensures_eseq [OF check_slot_keeps], assumption, rule ensures_ebind [OF allocate_step], rule ensures_ebind)
    fix t
    show "ensures (\<lambda>s. registry_ok s \<and> fresh_token s t)
        (alloc_entry (new_entry m (dynamic_export ref address) names (Some t))) (\<lambda>r. unlisted_trap r address t) registry_ok"
      using registry_ok_alloc [of _ "new_entry m (dynamic_export ref address) names (Some t)"]
      by (auto simp: ensures_def alloc_entry_def new_entry_def entry_address_def dynamic_export_def unlisted_trap_def)
    fix r
    have "ensures (known r) (case ref of Name n \<Rightarrow> bind_name (md_id m) n r | Ordinal n \<Rightarrow> bind_ordinal (md_id m) n r)
        (\<lambda>_. known r) registry_ok" by (cases ref) (simp_all add: bind_steps)
    moreover have "ensures (known r) (eseq (emod (\<lambda>s. s\<lparr>rg_dynamic_offsets := (rg_dynamic_offsets s)(md_id m \<mapsto> off)\<rparr>))
        (ereturn r)) (\<lambda>_. registry_ok) registry_ok"
      by (simp add: ensures_def eseq_def ebind_def known_def)
    ultimately show "ensures (unlisted_trap r address t) (eseq (emu_write ops slot (bs t))
       (eseq (add_entry address r) (eseq (add_trap t r)
       (eseq (case ref of Name n \<Rightarrow> bind_name (md_id m) n r | Ordinal n \<Rightarrow> bind_ordinal (md_id m) n r)
       (eseq (emod (\<lambda>s. s\<lparr>rg_dynamic_offsets := (rg_dynamic_offsets s)(md_id m \<mapsto> off)\<rparr>))
         (ereturn r)))))) (\<lambda>_. registry_ok) registry_ok"
      unfolding add_swap
      by (intro ensures_eseq [OF write_stub_ok] ensures_eseq [OF add_trap_step] ensures_eseq [OF list_entry_step])
        (rule ensures_eseq)
  qed
  show ?thesis
    unfolding synthesize_def
    by (rule ensures_eget) (auto split: option.split prod.split simp: Let_def ensures_raise intro!: steps)
qed

lemma dynamic_ok: "ensures registry_ok (dynamic E ops m ref) (\<lambda>_. registry_ok) registry_ok"
proof -
  have "ensures registry_ok (lookup_export m ref) (\<lambda>_. registry_ok) registry_ok"
    by (simp add: ensures_def lookup_export_def split: sum.split)
  moreover have "ensures registry_ok (ebind (\<lambda>s. (symbol_ref ref, s)) (synthesize E ops m)) (\<lambda>_. registry_ok) registry_ok"
    by (rule ensures_ebind [OF _ synthesize_ok]) (simp add: ensures_def split: sum.split)
  moreover have "ensures registry_ok (ereturn r) (\<lambda>_. registry_ok) registry_ok"
    "ensures registry_ok (eraise e) (\<lambda>_. registry_ok) registry_ok" for r :: nat and e by (simp_all add: ensures_def)
  ultimately show ?thesis
    unfolding dynamic_def by (auto intro!: ensures_ebind [where Q = "\<lambda>_. registry_ok"] split: option.split)
qed

text \<open>The removal of a module: the tokens of its entries are taken from \<open>traps\<close>, and no other entry loses one.\<close>

definition core_ok :: "'e registry \<Rightarrow> bool" where
  "core_ok s \<longleftrightarrow> trap_range_ok s \<and> tokens_ok s \<and> distinct (map fst (rg_entries s))
     \<and> (\<forall>(a, r) \<in> set (rg_entries s). r < length (rg_heap s) \<and> entry_address (rg_heap s ! r) = a
          \<and> (\<forall>t. ae_trap (rg_heap s ! r) = Some t \<longrightarrow> rg_traps s t = Some r))"

lemma registry_core: "registry_ok s \<Longrightarrow> core_ok s"
  by (simp add: registry_ok_def core_ok_def entries_ok_def)

lemma drop_entry_heap [simp]: "rg_heap (drop_entry s x) = rg_heap s"
  by (simp add: drop_entry_def Let_def split: option.split)

lemma drop_entry_ok:
  assumes "core_ok s" "snd x < length (rg_heap s)" "entry_address (rg_heap s ! snd x) = fst x"
  shows "core_ok (drop_entry s x)"
proof -
  obtain a r where x: "x = (a, r)" by (cases x)
  have es: "rg_entries (drop_entry s x) = AList.delete a (rg_entries s)"
    by (simp add: drop_entry_def Let_def x split: option.split)
  have traps: "rg_traps (drop_entry s x) t = (if ae_trap (rg_heap s ! r) = Some t then None else rg_traps s t)" for t
    by (simp add: drop_entry_def Let_def x split: option.split)
  have range: "trap_range_ok (drop_entry s x)" "\<And>t. token (drop_entry s x) t = token s t"
    using assms(1) by (simp_all add: core_ok_def trap_range_ok_def token_def drop_entry_def Let_def split: option.split)
  have tok: "tokens_ok s" using assms(1) by (simp add: core_ok_def)
  then have "tokens_ok (drop_entry s x)"
    unfolding tokens_ok_def by (simp add: range(2) traps)
  moreover have "r' < length (rg_heap s) \<and> entry_address (rg_heap s ! r') = a'
      \<and> (\<forall>t. ae_trap (rg_heap s ! r') = Some t \<longrightarrow> rg_traps (drop_entry s x) t = Some r')"
    if m: "(a', r') \<in> set (AList.delete a (rg_entries s))" for a' r'
  proof -
    have m': "(a', r') \<in> set (rg_entries s)" "a' \<noteq> a" using m by (auto simp: AList.delete_eq)
    then have e: "r' < length (rg_heap s)" "entry_address (rg_heap s ! r') = a'"
      "\<And>t. ae_trap (rg_heap s ! r') = Some t \<Longrightarrow> rg_traps s t = Some r'"
      using assms(1) by (auto simp: core_ok_def)
    then have "r' \<noteq> r" using m'(2) assms(3) x by auto
    then have "ae_trap (rg_heap s ! r) \<noteq> Some t" if "ae_trap (rg_heap s ! r') = Some t" for t
      using tok e(1) assms(2) that x unfolding tokens_ok_def by auto
    with e show ?thesis by (simp add: traps)
  qed
  moreover have "distinct (map fst (AList.delete a (rg_entries s)))"
    using assms(1) by (auto simp: core_ok_def AList.distinct_delete)
  ultimately show ?thesis using range(1) unfolding core_ok_def by (auto simp: es)
qed

lemma drop_entries_ok:
  "core_ok s \<Longrightarrow> \<forall>x \<in> set xs. snd x < length (rg_heap s) \<and> entry_address (rg_heap s ! snd x) = fst x
    \<Longrightarrow> core_ok (foldl drop_entry s xs)"
proof (induction xs arbitrary: s)
  case (Cons x xs)
  then have "core_ok (drop_entry s x)" by (simp add: drop_entry_ok)
  with Cons show ?case by simp
qed simp

lemma unregister_module_ok:
  assumes "registry_ok s"
  shows "registry_ok (unregister_module m s)"
proof -
  have "\<forall>x \<in> set (live_entries m s). snd x < length (rg_heap s) \<and> entry_address (rg_heap s ! snd x) = fst x"
    using registry_entryD [OF assms] by (auto simp: live_entries_def)
  then have "core_ok (foldl drop_entry s (live_entries m s))"
    by (rule drop_entries_ok [OF registry_core [OF assms]])
  then show ?thesis
    by (simp add: unregister_module_def Let_def registry_ok_def core_ok_def entries_ok_def trap_range_ok_def
        tokens_ok_def token_def)
qed

subsection \<open>Sequences of operations\<close>

text \<open>
  What the emulator does with the registry, and a change of the memory by anything else. An operation that raises keeps
  the changes that it made before.
\<close>

datatype 'e reg_op =
    Register api_module
  | Unregister nat
  | Synthesize api_module api_ref
  | Rebind nat "string option" "string option" bool
  | Memory "'e mem_state"

fun run_reg_op :: "'e mem_engine \<Rightarrow> 'e mem_ops \<Rightarrow> 'e registry \<Rightarrow> 'e reg_op \<Rightarrow> 'e registry" where
  "run_reg_op E ops s (Register m) = snd (register_module E ops m s)"
| "run_reg_op E ops s (Unregister m) = unregister_module m s"
| "run_reg_op E ops s (Synthesize m ref) = snd (dynamic E ops m ref s)"
| "run_reg_op E ops s (Rebind r dll name ready) =
     (if r < length (rg_heap s)
      then snd (set_entry r (\<lambda>a. a\<lparr>ae_binding_module := dll, ae_binding_name := name, ae_initialized := ready\<rparr>) s) else s)"
| "run_reg_op E ops s (Memory mem) = s\<lparr>rg_mem := mem\<rparr>"

lemma run_reg_op_ok: "registry_ok s \<Longrightarrow> registry_ok (run_reg_op E ops s p)"
proof (cases p)
  case (Rebind r dll name ready)
  moreover assume "registry_ok s"
  ultimately show ?thesis
    using set_entry_ok [of s r "\<lambda>a. a\<lparr>ae_binding_module := dll, ae_binding_name := name, ae_initialized := ready\<rparr>"]
    by (simp add: set_entry_def)
qed (simp_all add: ensures_snd [OF register_module_ok] ensures_snd [OF dynamic_ok] unregister_module_ok)

lemma run_reg_ops_ok: "registry_ok s \<Longrightarrow> registry_ok (foldl (run_reg_op E ops) s ps)"
  by (induction ps arbitrary: s) (simp_all add: run_reg_op_ok)

subsection \<open>The way of a call\<close>

text \<open>
  Where the code of an entry jumps: \<open>mov edi, edi; push ebp; mov ebp, esp; pop ebp; jmp rel32\<close> on x86, which is
  relative to the next instruction, and \<open>xchg ax, ax; jmp [rip+0]\<close> with the target after it on x64.
\<close>

definition jump_target :: "int \<Rightarrow> int \<Rightarrow> byte list \<Rightarrow> int option" where
  "jump_target arch a code =
     (if arch = 32
      then (if take 7 code = [0x8b, 0xff, 0x55, 0x8b, 0xec, 0x5d, 0xe9]
            then Some ((a + 11 + le_val (take 4 (drop 7 code))) mod 2 ^ 32) else None)
      else (if take 8 code = [0x66, 0x90, 0xff, 0x25, 0, 0, 0, 0] then Some (le_val (take 8 (drop 8 code))) else None))"

lemma stub_jumps:
  assumes "0 \<le> t" "t < 2 ^ 32"
  shows "jump_target arch a (encode_api_stub arch a t @ rest) = Some t"
proof (cases "arch = 32")
  case True
  have "(t - a - 11) AND 0xFFFFFFFF = (t - a - 11) mod 2 ^ 32"
    using take_bit_eq_mask [of 32 "t - a - 11"] by (simp add: take_bit_eq_mod mask_eq_exp_minus_1 and.commute)
  then have "le_val (le_bytes 4 ((t - a - 11) AND 0xFFFFFFFF)) = (t - a - 11) mod 2 ^ 32"
    by (simp add: le_val_le_bytes)
  moreover have "(a + 11 + (t - a - 11) mod 2 ^ 32) mod 2 ^ 32 = t"
    using assms by (simp add: mod_add_right_eq)
  ultimately show ?thesis using True by (simp add: jump_target_def encode_api_stub_def)
next
  case False
  have "le_val (le_bytes 8 t) = t" using assms by (simp add: le_val_le_bytes_id)
  with False show ?thesis by (simp add: jump_target_def encode_api_stub_def)
qed

lemma stub_length: "length (encode_api_stub arch a t) \<le> 16"
  by (simp add: encode_api_stub_def)

text \<open>What a successful synthesis leaves.\<close>

lemma synthesize_result:
  assumes "synthesize E ops m ref s = (Inr r, s')"
  obtains slot t s1 eng where
    "allocate_trap E s = (Inr t, s1)" "r = length (rg_heap s1)"
    "mo_write ops (ms_eng (rg_mem s1)) slot (slot_bytes (md_arch m) (slot + 16) t) = Inr eng"
    "ms_eng (rg_mem s') = eng" "rg_traps s' t = Some r" "map_of (rg_entries s') (slot + 16) = Some r"
    "lookup_ref (md_id m) ref s' = Some r" "rg_trap_base s' = rg_trap_base s1" "rg_trap_count s' = rg_trap_count s1"
    "rg_heap s' = rg_heap s1 @ [new_entry m (dynamic_export ref (slot + 16)) (case ref of Name n \<Rightarrow> [n] | Ordinal _ \<Rightarrow> []) (Some t)]"
proof -
  define offset where "offset = (case rg_dynamic_offsets s (md_id m) of None \<Rightarrow> 0 | Some n \<Rightarrow> n)"
  obtain n va vs where arena: "find (\<lambda>(n, va, vs). n = ''.dyn'') (md_sections m) = Some (n, va, vs)"
    "\<not> vs < offset + API_SLOT_SIZE"
    using assms by (auto simp: synthesize_def ebind_def offset_def split: option.splits if_splits prod.splits)
  define slot where "slot = md_base m + va + offset"
  have run: "eseq (check_slot E ops slot)
      (ebind (allocate_trap E) (\<lambda>t.
       ebind (alloc_entry (new_entry m (dynamic_export ref (slot + 16)) (case ref of Name n \<Rightarrow> [n] | Ordinal _ \<Rightarrow> []) (Some t))) (\<lambda>r.
       eseq (emu_write ops slot (slot_bytes (md_arch m) (slot + 16) t))
       (eseq (add_entry (slot + 16) r) (eseq (add_trap t r)
       (eseq (case ref of Name n \<Rightarrow> bind_name (md_id m) n r | Ordinal n \<Rightarrow> bind_ordinal (md_id m) n r)
       (eseq (emod (\<lambda>s. s\<lparr>rg_dynamic_offsets := (rg_dynamic_offsets s)(md_id m \<mapsto> offset + API_SLOT_SIZE)\<rparr>))
         (ereturn r)))))))) s = (Inr r, s')"
    using assms arena
    by (simp add: synthesize_def ebind_def [of "eget _"] offset_def [symmetric] slot_def [symmetric] Let_def API_ENTRY_OFFSET_def)
  then have "check_slot E ops slot s = (Inr (), s)"
    by (cases "check_slot E ops slot s") (auto simp: eseq_def ebind_def dest: check_slot_state split: sum.splits)
  with run obtain t s1 where a: "allocate_trap E s = (Inr t, s1)"
    by (cases "allocate_trap E s") (auto simp: eseq_def ebind_def split: sum.splits)
  obtain eng where w: "mo_write ops (ms_eng (rg_mem s1)) slot (slot_bytes (md_arch m) (slot + 16) t) = Inr eng"
    using run a \<open>check_slot E ops slot s = (Inr (), s)\<close>
    by (auto simp: eseq_def ebind_def alloc_entry_def emu_write_def split: sum.splits)
  have s': "r = length (rg_heap s1) \<and> ms_eng (rg_mem s') = eng \<and> rg_traps s' t = Some r
      \<and> map_of (rg_entries s') (slot + 16) = Some r \<and> lookup_ref (md_id m) ref s' = Some r
      \<and> rg_trap_base s' = rg_trap_base s1 \<and> rg_trap_count s' = rg_trap_count s1
      \<and> rg_heap s' = rg_heap s1 @ [new_entry m (dynamic_export ref (slot + 16)) (case ref of Name n \<Rightarrow> [n] | Ordinal _ \<Rightarrow> []) (Some t)]"
    using run a w \<open>check_slot E ops slot s = (Inr (), s)\<close>
    by (cases ref) (auto simp: eseq_def ebind_def alloc_entry_def emu_write_def add_entry_def add_trap_def bind_name_def
        bind_ordinal_def lookup_ref_def AList.update_conv')
  with a w that show ?thesis by blast
qed

subsection \<open>Properties\<close>

lemma token_in_range: "registry_ok s \<Longrightarrow> token s t \<Longrightarrow> 0 \<le> t \<and> t < 2 ^ 32 \<and> overlaps_traps t 1 s"
  by (auto simp: registry_ok_def trap_range_ok_def token_def overlaps_traps_def TRAP_STRIDE_def)

text \<open>C13: Over every sequence of registrations, removals, synthesized exports, bindings and changes of the memory a
  token belongs to one entry for ever: no two entries that were ever made have the same one, it lies in the reserved
  range, and \<open>traps\<close> gives the entry that has it. An entry that is listed under an address has that address, and a
  fetch of its token finds it.\<close>

theorem api_tokens_unique:
  assumes "s = foldl (run_reg_op E ops) (init_registry mem) ps"
  shows "(\<forall>t r. rg_traps s t = Some r \<longrightarrow> ae_trap (rg_heap s ! r) = Some t \<and> overlaps_traps t 1 s)
    \<and> (\<forall>r r' t. r < length (rg_heap s) \<and> r' < length (rg_heap s)
          \<and> ae_trap (rg_heap s ! r) = Some t \<and> ae_trap (rg_heap s ! r') = Some t \<longrightarrow> r = r')
    \<and> (\<forall>a r. map_of (rg_entries s) a = Some r \<longrightarrow> entry_address (rg_heap s ! r) = a
          \<and> (\<forall>t. ae_trap (rg_heap s ! r) = Some t \<longrightarrow> rg_traps s t = Some r))"
proof -
  have ok: "registry_ok s" unfolding assms by (rule run_reg_ops_ok [OF registry_ok_init])
  show ?thesis
  proof (intro conjI allI impI; (elim conjE)?)
    fix t r assume "rg_traps s t = Some r"
    then have "r < length (rg_heap s)" "ae_trap (rg_heap s ! r) = Some t" using registry_trapD [OF ok] by blast+
    then show "ae_trap (rg_heap s ! r) = Some t" "overlaps_traps t 1 s"
      using token_in_range [OF ok] registry_tokenD [OF ok] by blast+
  next
    fix a r assume m: "map_of (rg_entries s) a = Some r"
    show "entry_address (rg_heap s ! r) = a" by (rule registry_entryD(2) [OF ok map_of_SomeD [OF m]])
    fix t assume "ae_trap (rg_heap s ! r) = Some t"
    then show "rg_traps s t = Some r" by (rule registry_entryD(3) [OF ok map_of_SomeD [OF m]])
  qed (rule registry_uniqueD [OF ok])
qed

text \<open>A module of two pages with one export and an arena of two slots, in a memory of bytes.\<close>

definition demo_engine :: "byte_mem mem_engine" where
  "demo_engine = \<lparr>eng_map = \<lambda>_ _ _ m. Inr m, eng_unmap = \<lambda>_ _ m. Inr m, eng_regions = \<lambda>_. [(0x60000000, 0x60000fff, 7)]\<rparr>"

definition demo_ops :: "byte_mem mem_ops" where
  "demo_ops = \<lparr>mo_read = bm_read, mo_write = bm_write, mo_regions = \<lambda>_. [(0x60000000, 0x60000fff)],
     mo_module_base = \<lambda>_ _. None, mo_teb_size = 0\<rparr>"

definition demo_mem :: "byte_mem mem_state" where
  "demo_mem = init_mem (bm_of 0x60000000 (replicate 128 0xcc)) False None"

definition demo_module :: api_module where
  "demo_module = \<lparr>md_id = 1, md_name = ''kernel32'', md_base = 0x60000000, md_arch = 32, md_synthetic = True,
     md_sections = [(''.text'', 0, 64), (''.dyn'', 64, 64)],
     md_exports = [\<lparr>xp_name = Some ''Sleep'', xp_address = 0x60000010, xp_ordinal = 1, xp_kind = ''function'',
                     xp_forwarder = None\<rparr>]\<rparr>"

lemma demo_traps: "get_valid_ranges demo_engine TRAP_SIZE (Some 0xF0000000) demo_mem = Inr (0xF0000000, TRAP_SIZE)"
  by code_simp

lemma demo_read: "bm_read (ms_eng demo_mem) 0x60000040 32 = Inr (replicate 32 0xcc)"
  by code_simp

lemma demo_write: "length bs = 32 \<Longrightarrow> \<exists>m. bm_write (ms_eng demo_mem) 0x60000040 bs = Inr m"
  using bm.wr_ok [of "ms_eng demo_mem" "0x60000040" bs] demo_read by simp

lemma demo_allocate:
  "\<exists>m. allocate_trap demo_engine (init_registry demo_mem)
     = (Inr 0xF0000000, (init_registry demo_mem)\<lparr>rg_mem := m, rg_trap_base := Some 0xF0000000, rg_trap_count := 1\<rparr>)
   \<and> ms_eng m = ms_eng demo_mem"
proof -
  have le: "\<not> 0x100000000 < 0xF0000000 + TRAP_SIZE" by (simp add: TRAP_SIZE_def)
  have "\<exists>m. reserve_traps demo_engine (init_registry demo_mem)
      = (Inr (), (init_registry demo_mem)\<lparr>rg_mem := m, rg_trap_base := Some 0xF0000000\<rparr>) \<and> ms_eng m = ms_eng demo_mem"
    using le by (auto simp: reserve_traps_def init_registry_def demo_traps mem_reserve_def)
  then obtain m where "reserve_traps demo_engine (init_registry demo_mem)
      = (Inr (), (init_registry demo_mem)\<lparr>rg_mem := m, rg_trap_base := Some 0xF0000000\<rparr>)" "ms_eng m = ms_eng demo_mem"
    by blast
  then show ?thesis
    by (auto simp: allocate_trap_def eseq_def ebind_def eif_def init_registry_def TRAP_SIZE_def TRAP_STRIDE_def)
qed

lemma demo_dynamic:
  "\<exists>s'. dynamic demo_engine demo_ops demo_module (Name ''Beep'') (init_registry demo_mem) = (Inr 0, s')
     \<and> rg_traps s' 0xF0000000 = Some 0"
proof -
  obtain m where a: "allocate_trap demo_engine (init_registry demo_mem)
     = (Inr 0xF0000000, (init_registry demo_mem)\<lparr>rg_mem := m, rg_trap_base := Some 0xF0000000, rg_trap_count := 1\<rparr>)"
    "ms_eng m = ms_eng demo_mem" using demo_allocate by blast
  obtain eng where w: "bm_write (ms_eng demo_mem) 0x60000040 (slot_bytes 32 0x60000050 0xF0000000) = Inr eng"
    using demo_write [of "slot_bytes 32 0x60000050 0xF0000000"]
    by (auto simp: slot_bytes_def encode_api_stub_def API_SLOT_SIZE_def API_ENTRY_OFFSET_def)
  have perms: "region_perms demo_engine 0x60000040 (init_registry demo_mem) AND PROT_EXEC \<noteq> 0"
    by (simp add: region_perms_def demo_engine_def PROT_EXEC_def API_SLOT_SIZE_def)
  have "symbol_ref (Name ''Beep'') = Inr (Name ''Beep'')"
    by (simp add: symbol_ref_def starts_with_def)
  with a w perms demo_read show ?thesis
    by (simp add: dynamic_def ebind_def eseq_def lookup_export_def lookup_ref_def synthesize_def check_slot_def eif_def
        emu_read_def emu_write_def alloc_entry_def add_entry_def add_trap_def bind_name_def demo_module_def demo_ops_def
        init_registry_def API_SLOT_SIZE_def API_ENTRY_OFFSET_def)
qed

lemma api_tokens_unique_witness:
  "\<exists>s. s = foldl (run_reg_op demo_engine demo_ops) (init_registry demo_mem) [Synthesize demo_module (Name ''Beep'')]
     \<and> ae_trap (rg_heap s ! 0) = Some 0xF0000000 \<and> overlaps_traps 0xF0000000 1 s"
proof -
  define s where "s = foldl (run_reg_op demo_engine demo_ops) (init_registry demo_mem) [Synthesize demo_module (Name ''Beep'')]"
  have "rg_traps s 0xF0000000 = Some 0" using demo_dynamic by (auto simp: s_def)
  with api_tokens_unique [OF s_def] show ?thesis unfolding s_def by blast
qed

text \<open>C31: A dynamic export that the registry makes is found by a call: the code at its address jumps to its token, the
  token gives the entry, the address gives it too, and the next request for the same name or ordinal returns the same
  entry and changes nothing.\<close>

theorem dynamic_export_called:
  assumes "guest_memory (mo_read ops) (mo_write ops)" "s = foldl (run_reg_op E ops) (init_registry mem) ps"
    "lookup_export m ref s = (Inr None, s)" "dynamic E ops m ref s = (Inr r, s')"
  shows "\<exists>t code. mo_read ops (ms_eng (rg_mem s')) (entry_address (rg_heap s' ! r)) 16 = Inr code
    \<and> jump_target (md_arch m) (entry_address (rg_heap s' ! r)) code = Some t
    \<and> rg_traps s' t = Some r \<and> map_of (rg_entries s') (entry_address (rg_heap s' ! r)) = Some r
    \<and> dynamic E ops m ref s' = (Inr r, s')"
proof -
  have ok: "registry_ok s" unfolding assms(2) by (rule run_reg_ops_ok [OF registry_ok_init])
  from assms(3,4) obtain ref' where ref: "symbol_ref ref = Inr ref'" "synthesize E ops m ref' s = (Inr r, s')"
    by (auto simp: dynamic_def ebind_def lookup_export_def split: if_splits sum.splits)
  from ref(2) obtain slot t s1 eng where res:
    "allocate_trap E s = (Inr t, s1)" "r = length (rg_heap s1)"
    "mo_write ops (ms_eng (rg_mem s1)) slot (slot_bytes (md_arch m) (slot + 16) t) = Inr eng"
    "ms_eng (rg_mem s') = eng" "rg_traps s' t = Some r" "map_of (rg_entries s') (slot + 16) = Some r"
    "lookup_ref (md_id m) ref' s' = Some r" "rg_trap_base s' = rg_trap_base s1" "rg_trap_count s' = rg_trap_count s1"
    "rg_heap s' = rg_heap s1 @ [new_entry m (dynamic_export ref' (slot + 16)) (case ref' of Name n \<Rightarrow> [n] | Ordinal _ \<Rightarrow> []) (Some t)]"
    by (rule synthesize_result)
  have t: "0 \<le> t" "t < 2 ^ 32"
    using ensuresD [OF allocate_step ok res(1)] token_in_range by (auto simp: fresh_token_def)
  have a: "entry_address (rg_heap s' ! r) = slot + 16"
    using res(2,10) by (simp add: entry_address_def new_entry_def dynamic_export_def)
  define pad where "pad = replicate (16 - length (encode_api_stub (md_arch m) (slot + 16) t)) (0xcc :: byte)"
  have code: "slot_bytes (md_arch m) (slot + 16) t = replicate 16 0x90 @ encode_api_stub (md_arch m) (slot + 16) t @ pad"
    by (simp add: slot_bytes_def pad_def API_SLOT_SIZE_def API_ENTRY_OFFSET_def Let_def)
  then have len: "length (slot_bytes (md_arch m) (slot + 16) t) = 32"
    using stub_length [of "md_arch m" "slot + 16" t] by (simp add: pad_def)
  have "mo_read ops eng (slot + 16) 16 = Inr (take 16 (drop 16 (slot_bytes (md_arch m) (slot + 16) t)))"
    using guest_memory.wr_rd_nonempty [OF assms(1) res(3), of 16 16] len by simp
  moreover have "take 16 (drop 16 (slot_bytes (md_arch m) (slot + 16) t)) = encode_api_stub (md_arch m) (slot + 16) t @ pad"
    using stub_length [of "md_arch m" "slot + 16" t] by (simp add: code pad_def)
  ultimately have "mo_read ops (ms_eng (rg_mem s')) (slot + 16) 16 = Inr (encode_api_stub (md_arch m) (slot + 16) t @ pad)"
    using res(4) by simp
  moreover have "dynamic E ops m ref s' = (Inr r, s')"
    using ref(1) res(7) by (simp add: dynamic_def ebind_def lookup_export_def)
  ultimately show ?thesis using stub_jumps [OF t, of "md_arch m" "slot + 16" pad] res(5,6) a by auto
qed

lemma dynamic_export_called_witness:
  "\<exists>s'. dynamic demo_engine demo_ops demo_module (Name ''Beep'') (init_registry demo_mem) = (Inr 0, s')
     \<and> dynamic demo_engine demo_ops demo_module (Name ''Beep'') s' = (Inr 0, s')"
proof -
  have g: "guest_memory (mo_read demo_ops) (mo_write demo_ops)"
    using bm.guest_memory_axioms by (simp add: demo_ops_def)
  have l: "lookup_export demo_module (Name ''Beep'') (init_registry demo_mem) = (Inr None, init_registry demo_mem)"
    by (simp add: lookup_export_def symbol_ref_def starts_with_def lookup_ref_def init_registry_def)
  obtain s' where "dynamic demo_engine demo_ops demo_module (Name ''Beep'') (init_registry demo_mem) = (Inr 0, s')"
    using demo_dynamic by blast
  with dynamic_export_called [OF g _ l this, where ps = "[]" and mem = demo_mem] show ?thesis by auto
qed

end
