(* ===== verification/Mapped_Imports.thy ===== *)
theory Mapped_Imports
  imports Exn Bytes
begin

text \<open>
  The imports of a PE image that the guest mapped itself, of \<^verbatim>\<open>windows/mapped_imports.py\<close>. The headers and
  the tables come from the guest, so each RVA is checked against the size of the image and each table has a limit. The
  generator is a method that calls \<open>visit\<close> for each slot it yields; the reader and the caller's work on a slot may
  change the state and may raise. The validity of names is decided by the library \<^verbatim>\<open>pefile\<close>, a parameter.
\<close>

type_synonym 's mem_reader = "int \<Rightarrow> int \<Rightarrow> ('s, error, byte list) exn"

record mapped_image =
  mi_base :: int
  mi_size :: int

record name_rules =
  nr_dos :: "byte list \<Rightarrow> bool"
  nr_function :: "byte list \<Rightarrow> bool"

definition parse_error :: "error \<Rightarrow> bool" where
  "parse_error e \<longleftrightarrow> e = ValueError \<or> e = StructError"

text \<open>\<open>try\<close> around \<open>m\<close> that catches the errors of the parser: \<open>None\<close> stands for the handler.\<close>

definition attempt :: "('s, error, 'a) exn \<Rightarrow> ('s, error, 'a option) exn" where
  "attempt m = etry (ebind m (\<lambda>x. ereturn (Some x))) (\<lambda>e. if parse_error e then Some (ereturn None) else None)"

text \<open>\<open>struct.unpack_from\<close> of one unsigned integer.\<close>

definition unpack_at :: "nat \<Rightarrow> nat \<Rightarrow> byte list \<Rightarrow> ('s, error, int) exn" where
  "unpack_at n off bs =
     (if off + n \<le> length bs then ereturn (le_val (take n (drop off bs))) else eraise StructError)"

definition read_rva :: "'s mem_reader \<Rightarrow> mapped_image \<Rightarrow> int \<Rightarrow> int \<Rightarrow> ('s, error, byte list) exn" where
  "read_rva rd img rva sz =
     (if rva < 0 \<or> sz < 0 \<or> mi_size img < rva + sz then eraise ValueError else rd (mi_base img + rva) sz)"

text \<open>The end of \<open>read_name\<close> at the NUL; \<open>ascii\<close> and \<open>latin-1\<close> decode the bytes below 128 alike.\<close>

definition finish_name :: "name_rules \<Rightarrow> bool \<Rightarrow> byte list \<Rightarrow> ('s, error, string) exn" where
  "finish_name nr dll bs =
     (if bs = [] then eraise ValueError
      else if dll
      then (if \<not> nr_dos nr (map (\<lambda>b. if b < 128 then b else 120) bs) then eraise ValueError
            else ereturn (map (\<lambda>b. char_of (unat b)) bs))
      else if \<not> nr_function nr bs \<or> (\<exists>b \<in> set bs. 128 \<le> b) then eraise ValueError
      else ereturn (map (\<lambda>b. char_of (unat b)) bs))"

primrec read_name_at :: "'s mem_reader \<Rightarrow> name_rules \<Rightarrow> mapped_image \<Rightarrow> bool \<Rightarrow> int \<Rightarrow> nat \<Rightarrow> byte list
    \<Rightarrow> ('s, error, string) exn" where
  "read_name_at rd nr img dll rva 0 bs = eraise ValueError"
| "read_name_at rd nr img dll rva (Suc n) bs =
     ebind (read_rva rd img rva 1) (\<lambda>b.
       if b = [0] then finish_name nr dll bs else read_name_at rd nr img dll (rva + 1) n (bs @ b))"

definition read_name :: "'s mem_reader \<Rightarrow> name_rules \<Rightarrow> mapped_image \<Rightarrow> bool \<Rightarrow> int \<Rightarrow> ('s, error, string) exn" where
  "read_name rd nr img dll rva =
     (if \<not> (0 \<le> rva \<and> rva < mi_size img) then eraise ValueError
      else read_name_at rd nr img dll rva (nat (min 4096 (mi_size img - rva))) [])"

subsection \<open>Slots\<close>

record import_slot =
  is_image :: mapped_image
  is_dll :: string
  is_iat :: int
  is_thunk :: int
  is_current :: int
  is_has_ilt :: bool
  is_ptr_size :: nat

definition is_ordinal :: "import_slot \<Rightarrow> bool" where
  "is_ordinal x \<longleftrightarrow> is_thunk x AND 2 ^ (is_ptr_size x * 8 - 1) \<noteq> 0"

definition is_bound_externally :: "import_slot \<Rightarrow> bool" where
  "is_bound_externally x \<longleftrightarrow> \<not> is_has_ilt x \<and> \<not> is_ordinal x \<and> mi_size (is_image x) \<le> is_thunk x"

definition get_reference :: "'s mem_reader \<Rightarrow> name_rules \<Rightarrow> import_slot \<Rightarrow> ('s, error, string) exn" where
  "get_reference rd nr x =
     (if is_ordinal x
      then (if is_thunk x AND NOT (2 ^ (is_ptr_size x * 8 - 1) OR 0xFFFF) \<noteq> 0 then eraise ValueError
            else ereturn (''ordinal_'' @ dec_of (is_thunk x AND 0xFFFF)))
      else read_name rd nr (is_image x) False (is_thunk x + 2))"

subsection \<open>The tables\<close>

text \<open>The thunks of one descriptor: the loop ends at a zero thunk, at an error of the parser, or after the last offset.\<close>

fun visit_thunks :: "'s mem_reader \<Rightarrow> (import_slot \<Rightarrow> ('s, error, unit) exn) \<Rightarrow> mapped_image \<Rightarrow> nat \<Rightarrow> string
    \<Rightarrow> bool \<Rightarrow> int \<Rightarrow> int \<Rightarrow> nat list \<Rightarrow> ('s, error, unit) exn" where
  "visit_thunks rd visit img p dll has_ilt thunk_rva iat_rva [] = ereturn ()"
| "visit_thunks rd visit img p dll has_ilt thunk_rva iat_rva (offset # offsets) =
     ebind (attempt (ebind (read_rva rd img (thunk_rva + int offset * int p) (int p)) (\<lambda>bs.
              let thunk = le_val bs in
              if thunk = 0 then ereturn None
              else ebind (read_rva rd img (iat_rva + int offset * int p) (int p)) (\<lambda>cs. ereturn (Some (thunk, le_val cs))))))
       (\<lambda>r. case r of
          Some (Some (thunk, current)) \<Rightarrow>
            eseq (visit \<lparr>is_image = img, is_dll = dll, is_iat = mi_base img + (iat_rva + int offset * int p),
                         is_thunk = thunk, is_current = current, is_has_ilt = has_ilt, is_ptr_size = p\<rparr>)
              (visit_thunks rd visit img p dll has_ilt thunk_rva iat_rva offsets)
        | _ \<Rightarrow> ereturn ())"

fun visit_descriptors :: "'s mem_reader \<Rightarrow> name_rules \<Rightarrow> (import_slot \<Rightarrow> ('s, error, unit) exn) \<Rightarrow> mapped_image \<Rightarrow> nat
    \<Rightarrow> int \<Rightarrow> nat list \<Rightarrow> ('s, error, unit) exn" where
  "visit_descriptors rd nr visit img p import_rva [] = ereturn ()"
| "visit_descriptors rd nr visit img p import_rva (index # indices) =
     ebind (attempt (read_rva rd img (import_rva + int index * 20) 20)) (\<lambda>d.
       case d of
         None \<Rightarrow> ereturn ()
       | Some bs \<Rightarrow>
           if bs = replicate 20 0 then ereturn ()
           else if length bs \<noteq> 20 then eraise StructError
           else
             ebind (unpack_at 4 0 bs) (\<lambda>ilt_rva. ebind (unpack_at 4 12 bs) (\<lambda>name_rva. ebind (unpack_at 4 16 bs) (\<lambda>iat_rva.
             ebind (attempt (if name_rva = 0 \<or> iat_rva = 0 then eraise ValueError else read_name rd nr img True name_rva)) (\<lambda>name.
             eseq (case name of
                     None \<Rightarrow> ereturn ()
                   | Some dll \<Rightarrow>
                       visit_thunks rd visit img p dll (ilt_rva \<noteq> 0) (if ilt_rva \<noteq> 0 then ilt_rva else iat_rva) iat_rva
                         [0..<nat (min (mi_size img div int p) 65536)])
               (visit_descriptors rd nr visit img p import_rva indices))))))"

definition get_import_slots :: "'s mem_reader \<Rightarrow> name_rules \<Rightarrow> (import_slot \<Rightarrow> ('s, error, unit) exn) \<Rightarrow> int \<Rightarrow> nat
    \<Rightarrow> ('s, error, unit) exn" where
  "get_import_slots rd nr visit base p =
     ebind (rd base 0x40) (\<lambda>dos.
     if take 2 dos \<noteq> [0x4d, 0x5a] then ereturn ()
     else ebind (unpack_at 4 0x3c dos) (\<lambda>nt_rva.
     if 0x100000 < nt_rva then ereturn ()
     else ebind (rd (base + nt_rva) 24) (\<lambda>header.
     if take 4 header \<noteq> [0x50, 0x45, 0, 0] then ereturn ()
     else ebind (unpack_at 2 20 header) (\<lambda>opt_size.
     if opt_size < (if p = 8 then 0x80 else 0x70) \<or> 0x1000 < opt_size then ereturn ()
     else ebind (rd (base + nt_rva + 24) opt_size) (\<lambda>opt.
     ebind (unpack_at 2 0 opt) (\<lambda>magic.
     if magic \<noteq> (if p = 8 then 0x20b else 0x10b) then ereturn ()
     else ebind (unpack_at 4 56 opt) (\<lambda>image_size.
     let directory_offset = (if p = 8 then 112 else 96) in
     ebind (unpack_at 4 (directory_offset - 4) opt) (\<lambda>directories.
     if directories < 2 then ereturn ()
     else ebind (unpack_at 4 (directory_offset + 8) opt) (\<lambda>import_rva.
     ebind (unpack_at 4 (directory_offset + 12) opt) (\<lambda>import_size.
     if import_rva = 0 \<and> import_size = 0 then ereturn ()
     else if import_rva = 0 \<or> import_size = 0 \<or> image_size < import_rva + import_size then eraise ValueError
     else visit_descriptors rd nr visit \<lparr>mi_base = base, mi_size = image_size\<rparr> p import_rva
            [0..<nat (min (import_size div 20) 4096)]))))))))))"

subsection \<open>What the generator reads and yields\<close>

lemma stays_if: "stays P m \<Longrightarrow> stays P n \<Longrightarrow> stays P (if c then m else n)"
  by simp

lemma stays_attempt: "stays P m \<Longrightarrow> stays P (attempt m)"
  unfolding attempt_def by (rule stays_rules(6)) (auto intro: stays_rules split: if_splits)

lemma stays_unpack: "stays P (unpack_at n off bs)"
  by (simp add: unpack_at_def stays_rules)

text \<open>A reader that keeps \<open>P\<close> for reads inside the image, and work on slots that keeps it for slots inside.\<close>

definition inside_slot :: "mapped_image \<Rightarrow> nat \<Rightarrow> import_slot \<Rightarrow> bool" where
  "inside_slot img p x \<longleftrightarrow> is_image x = img \<and> is_ptr_size x = p \<and> mi_base img \<le> is_iat x
     \<and> is_iat x + int p \<le> mi_base img + mi_size img \<and> is_thunk x \<noteq> 0"

definition keeps_inside :: "('s \<Rightarrow> bool) \<Rightarrow> 's mem_reader \<Rightarrow> mapped_image \<Rightarrow> bool" where
  "keeps_inside P rd img \<longleftrightarrow>
     (\<forall>a n. mi_base img \<le> a \<and> 0 \<le> n \<and> a + n \<le> mi_base img + mi_size img \<longrightarrow> stays P (rd a n))"

lemma stays_read_rva: "keeps_inside P rd img \<Longrightarrow> stays P (read_rva rd img rva n)"
  by (auto simp: keeps_inside_def read_rva_def stays_rules)

lemma stays_read_name_at: "keeps_inside P rd img \<Longrightarrow> stays P (read_name_at rd nr img dll rva n bs)"
proof (induction n arbitrary: rva bs)
  case (Suc n)
  have "stays P (finish_name nr dll bs)" for bs by (auto simp: finish_name_def intro: stays_rules)
  with Suc show ?case by (auto intro!: stays_rules(4) stays_read_rva)
qed (simp add: stays_rules)

lemma stays_read_name: "keeps_inside P rd img \<Longrightarrow> stays P (read_name rd nr img dll rva)"
  by (simp add: read_name_def stays_rules stays_read_name_at)

text \<open>A read that returned shows that its range is inside the image.\<close>

lemma read_rva_inside: "read_rva rd img rva n s = (Inr bs, s') \<Longrightarrow> 0 \<le> rva \<and> 0 \<le> n \<and> rva + n \<le> mi_size img"
  by (auto simp: read_rva_def split: if_splits)

lemma ensures_result:
  "stays P m \<Longrightarrow> (\<And>s x s'. m s = (Inr x, s') \<Longrightarrow> F x) \<Longrightarrow> ensures P m (\<lambda>x s. P s \<and> F x) P"
  unfolding stays_def ensures_def by (fastforce split: prod.splits sum.splits)

lemma ensures_pure: "(F \<Longrightarrow> ensures P m Q R) \<Longrightarrow> (\<And>s. P s \<Longrightarrow> F) \<Longrightarrow> ensures P m Q R"
  by (auto simp: ensures_def)

lemma attempt_Some: "attempt m s = (Inr (Some x), s') \<Longrightarrow> m s = (Inr x, s')"
  by (auto simp: attempt_def etry_def ebind_def parse_error_def split: prod.splits sum.splits if_splits)

lemma stays_thunks:
  assumes "keeps_inside P rd img" "\<And>x. inside_slot img p x \<Longrightarrow> stays P (visit x)"
  shows "stays P (visit_thunks rd visit img p dll has_ilt thunk_rva iat_rva offsets)"
proof (induction offsets)
  case Nil
  show ?case unfolding visit_thunks.simps by (rule stays_rules)
next
  case (Cons offset offsets)
  define iat where "iat = iat_rva + int offset * int p"
  define body where "body = ebind (read_rva rd img (thunk_rva + int offset * int p) (int p)) (\<lambda>bs.
              let thunk = le_val bs in
              if thunk = 0 then ereturn None
              else ebind (read_rva rd img iat (int p)) (\<lambda>cs. ereturn (Some (thunk, le_val cs))))"
  define F where "F = (\<lambda>r :: (int \<times> int) option option. \<forall>t c. r = Some (Some (t, c)) \<longrightarrow> t \<noteq> 0 \<and> 0 \<le> iat \<and> iat + int p \<le> mi_size img)"
  have "stays P (attempt body)"
    unfolding body_def Let_def by (intro stays_attempt stays_rules stays_if stays_read_rva assms(1))
  moreover have "F r" if run: "attempt body s = (Inr r, s')" for s r s'
  proof -
    have "t \<noteq> 0 \<and> 0 \<le> iat \<and> iat + int p \<le> mi_size img" if r: "r = Some (Some (t, c))" for t c
    proof -
      have "body s = (Inr (Some (t, c)), s')" using attempt_Some [of body s "Some (t, c)" s'] run r by simp
      then obtain s1 cs where i: "read_rva rd img iat (int p) s1 = (Inr cs, s')" "t \<noteq> 0"
        by (auto simp: body_def ebind_def Let_def split: prod.splits sum.splits if_splits)
      show ?thesis using read_rva_inside [OF i(1)] i(2) by simp
    qed
    then show ?thesis unfolding F_def by blast
  qed
  ultimately have head: "ensures P (attempt body) (\<lambda>r s. P s \<and> F r) P" by (rule ensures_result)
  have tail: "ensures (\<lambda>s. P s \<and> F r) (case r of
          Some (Some (thunk, current)) \<Rightarrow>
            eseq (visit \<lparr>is_image = img, is_dll = dll, is_iat = mi_base img + iat,
                         is_thunk = thunk, is_current = current, is_has_ilt = has_ilt, is_ptr_size = p\<rparr>)
              (visit_thunks rd visit img p dll has_ilt thunk_rva iat_rva offsets)
        | _ \<Rightarrow> ereturn ()) (\<lambda>_. P) P" for r
  proof (rule ensures_pure)
    assume F: "F r"
    have "stays P (case r of
          Some (Some (thunk, current)) \<Rightarrow>
            eseq (visit \<lparr>is_image = img, is_dll = dll, is_iat = mi_base img + iat,
                         is_thunk = thunk, is_current = current, is_has_ilt = has_ilt, is_ptr_size = p\<rparr>)
              (visit_thunks rd visit img p dll has_ilt thunk_rva iat_rva offsets)
        | _ \<Rightarrow> ereturn ())"
      using F by (auto simp: F_def inside_slot_def stays_rules(1) split: option.split intro!: stays_rules(5) assms(2) Cons.IH)
    then show "ensures (\<lambda>s. P s \<and> F r) (case r of
          Some (Some (thunk, current)) \<Rightarrow>
            eseq (visit \<lparr>is_image = img, is_dll = dll, is_iat = mi_base img + iat,
                         is_thunk = thunk, is_current = current, is_has_ilt = has_ilt, is_ptr_size = p\<rparr>)
              (visit_thunks rd visit img p dll has_ilt thunk_rva iat_rva offsets)
        | _ \<Rightarrow> ereturn ()) (\<lambda>_. P) P"
      unfolding stays_def by (rule ensures_weaken) simp_all
  qed simp
  show ?case
    unfolding visit_thunks.simps iat_def [symmetric] body_def [symmetric] stays_def
    by (rule ensures_ebind [OF head tail])
qed

lemma stays_descriptors:
  assumes "keeps_inside P rd img" "\<And>x. inside_slot img p x \<Longrightarrow> stays P (visit x)"
  shows "stays P (visit_descriptors rd nr visit img p import_rva indices)"
proof (induction indices)
  case (Cons index indices)
  show ?case
    unfolding visit_descriptors.simps
    by (auto intro!: stays_rules(4,5) stays_attempt stays_read_rva assms(1) stays_unpack stays_read_name stays_thunks assms(2) Cons.IH
        simp: stays_rules(1,2) split: option.split)
next
  case Nil
  show ?case unfolding visit_descriptors.simps by (rule stays_rules)
qed

subsection \<open>Properties\<close>

text \<open>A reader and a visitor that record what they get.\<close>

definition log_reader :: "(int \<Rightarrow> int \<Rightarrow> byte list result) \<Rightarrow> ((int \<times> int) list \<times> import_slot list) mem_reader" where
  "log_reader read a n s = (read a n, (fst s @ [(a, n)], snd s))"

definition log_visit :: "import_slot \<Rightarrow> ((int \<times> int) list \<times> import_slot list, error, unit) exn" where
  "log_visit x s = (Inr (), (fst s, snd s @ [x]))"

definition HEADERS_END :: int where "HEADERS_END = 0x100000 + 24 + 0x1000"

definition read_inside :: "int \<Rightarrow> int \<Rightarrow> (int \<times> int) list \<times> import_slot list \<Rightarrow> bool" where
  "read_inside base sz s \<longleftrightarrow> (\<forall>(a, n) \<in> set (fst s). base \<le> a \<and> a + n \<le> base + max HEADERS_END sz)"

definition slots_inside :: "int \<Rightarrow> int \<Rightarrow> nat \<Rightarrow> (int \<times> int) list \<times> import_slot list \<Rightarrow> bool" where
  "slots_inside base sz p s \<longleftrightarrow> read_inside base sz s \<and> (\<forall>x \<in> set (snd s). inside_slot \<lparr>mi_base = base, mi_size = sz\<rparr> p x)"

lemma read_inside_mono: "read_inside base 0 s \<Longrightarrow> 0 \<le> sz \<Longrightarrow> read_inside base sz s"
  unfolding read_inside_def by (auto simp: max_def HEADERS_END_def split: if_splits)

lemma ensures_if: "(c \<Longrightarrow> ensures P m Q R) \<Longrightarrow> (\<not> c \<Longrightarrow> ensures P n Q R) \<Longrightarrow> ensures P (if c then m else n) Q R"
  by simp

lemma ensures_unpack:
  assumes "off + n \<le> length bs \<Longrightarrow> ensures P (f (le_val (take n (drop off bs)))) Q R" "\<And>s. P s \<Longrightarrow> R s"
  shows "ensures P (ebind (unpack_at n off bs) f) Q R"
  using assms by (cases "off + n \<le> length bs") (simp_all add: unpack_at_def ensures_def ebind_def)

lemma ensures_header_read:
  assumes "base \<le> a" "a + n \<le> base + HEADERS_END"
    "\<And>bs. read a n = Inr bs \<Longrightarrow> ensures (\<lambda>s. read_inside base 0 s \<and> snd s = []) (f bs) Q R"
    "\<And>s. read_inside base 0 s \<and> snd s = [] \<Longrightarrow> R s"
  shows "ensures (\<lambda>s. read_inside base 0 s \<and> snd s = []) (ebind (log_reader read a n) f) Q R"
proof (cases "read a n")
  case (Inl e)
  have "read_inside base 0 (fst s @ [(a, n)], snd s)" if "read_inside base 0 s" for s
    using that assms(1,2) by (auto simp: read_inside_def)
  then show ?thesis using assms(4) Inl by (auto simp: ensures_def ebind_def log_reader_def)
next
  case (Inr bs)
  have logged: "read_inside base 0 (fst s @ [(a, n)], snd s)" if "read_inside base 0 s" for s
    using that assms(1,2) by (auto simp: read_inside_def)
  then have "case f bs (fst s @ [(a, n)], snd s) of (Inl e, t) \<Rightarrow> R t | (Inr x, t) \<Rightarrow> Q x t"
    if "read_inside base 0 s \<and> snd s = []" for s
    using assms(3) [OF Inr, unfolded ensures_def, rule_format, of "(fst s @ [(a, n)], snd s)"] logged [of s] that by simp
  then show ?thesis using Inr by (simp add: ensures_def ebind_def log_reader_def)
qed

text \<open>
  The size that the headers at a base give: the \<^verbatim>\<open>SizeOfImage\<close> at offset 56 of the optional header, to which
  the DOS header leads. It is 0 where the headers cannot be read.
\<close>

definition image_size_at :: "(int \<Rightarrow> int \<Rightarrow> byte list result) \<Rightarrow> int \<Rightarrow> int" where
  "image_size_at read base =
     (case read base 64 of Inl _ \<Rightarrow> 0 | Inr dos \<Rightarrow>
        let nt = base + le_val (take 4 (drop 60 dos)) in
        case read nt 24 of Inl _ \<Rightarrow> 0 | Inr header \<Rightarrow>
          case read (nt + 24) (le_val (take 2 (drop 20 header))) of Inl _ \<Rightarrow> 0 | Inr opt \<Rightarrow>
            le_val (take 4 (drop 56 opt)))"

text \<open>C33: Whatever the memory at a base has, the generator reads only the headers behind the base and the image, whose
  size is the one that the headers give, and yields only slots of this image whose entry of the table lies in it. The slots
  lie in the image whatever the tables say.\<close>

theorem import_slots_inside:
  assumes "get_import_slots (log_reader read) nr log_visit base p ([], []) = (r, s)"
  shows "slots_inside base (image_size_at read base) p s"
proof -
  let ?P = "\<lambda>s. read_inside base 0 s \<and> snd s = []"
  let ?R = "slots_inside base (image_size_at read base) p"
  have nonneg: "0 \<le> image_size_at read base"
    by (simp add: image_size_at_def Let_def le_val_nonneg split: sum.split)
  then have R: "?P s \<Longrightarrow> ?R s" for s
    using read_inside_mono by (simp add: slots_inside_def)
  have done_ok: "ensures ?P (ereturn ()) (\<lambda>_. ?R) ?R" "ensures ?P (eraise e) (\<lambda>_. ?R) ?R" for e
    using R by (auto simp: ensures_def)
  have visit: "ensures ?P (visit_descriptors (log_reader read) nr log_visit \<lparr>mi_base = base, mi_size = sz\<rparr> p rva is) (\<lambda>_. ?R) ?R"
    if sz: "image_size_at read base = sz" for sz rva "is"
  proof -
    have "keeps_inside (slots_inside base sz p) (log_reader read) \<lparr>mi_base = base, mi_size = sz\<rparr>"
      by (auto simp: keeps_inside_def stays_def ensures_def log_reader_def slots_inside_def read_inside_def split: sum.split)
    moreover have "stays (slots_inside base sz p) (log_visit x)" if "inside_slot \<lparr>mi_base = base, mi_size = sz\<rparr> p x" for x
      using that by (auto simp: stays_def ensures_def log_visit_def slots_inside_def read_inside_def)
    ultimately have "stays (slots_inside base sz p)
        (visit_descriptors (log_reader read) nr log_visit \<lparr>mi_base = base, mi_size = sz\<rparr> p rva is)"
      by (rule stays_descriptors)
    moreover have "slots_inside base sz p s" if "?P s" for s
      using R [OF that] sz by simp
    ultimately show ?thesis unfolding stays_def sz
      by (rule ensures_weaken) auto
  qed
  have "ensures ?P (get_import_slots (log_reader read) nr log_visit base p) (\<lambda>_. ?R) ?R"
    unfolding get_import_slots_def Let_def
    by (intro ensures_header_read ensures_unpack ensures_if done_ok visit R;
        simp add: HEADERS_END_def image_size_at_def le_val_nonneg)
  moreover have "?P ([], [])" by (simp add: read_inside_def)
  ultimately show ?thesis using assms unfolding ensures_def by (fastforce split: sum.splits)
qed

text \<open>A PE32 image of 1 KiB at 0x400000: the headers at 64, one descriptor at 0x180 with the name at 0x1c0 and a table of
  two thunks at 0x1d0, of which the second is zero.\<close>

definition demo_image :: "int \<Rightarrow> byte" where
  "demo_image i =
     (case map_of [(0, 0x4d), (1, 0x5a), (0x3c, 64), (64, 0x50), (65, 0x45), (84, 0x70), (88, 0x0b), (89, 1), (145, 4),
        (180, 2), (193, 1), (192, 0x80), (196, 40), (0x18c, 0xc0), (0x18d, 1), (0x190, 0xd0), (0x191, 1),
        (0x1c0, 0x61), (0x1d0, 5), (0x1d3, 0x80)] i of Some b \<Rightarrow> b | None \<Rightarrow> 0)"

definition demo_read :: "int \<Rightarrow> int \<Rightarrow> byte list result" where
  "demo_read a n =
     (if 0x400000 \<le> a \<and> a + n \<le> 0x400400 then Inr (map (\<lambda>i. demo_image (a - 0x400000 + int i)) [0..<nat n])
      else Inl ValueError)"

definition demo_rules :: name_rules where
  "demo_rules = \<lparr>nr_dos = \<lambda>_. True, nr_function = \<lambda>_. True\<rparr>"

lemma import_slots_inside_witness:
  "\<exists>s. get_import_slots (log_reader demo_read) demo_rules log_visit 0x400000 4 ([], []) = (Inr (), s)
     \<and> length (snd s) = 1 \<and> slots_inside 0x400000 0x400 4 s"
proof -
  obtain r s where run: "get_import_slots (log_reader demo_read) demo_rules log_visit 0x400000 4 ([], []) = (r, s)"
    by (cases "get_import_slots (log_reader demo_read) demo_rules log_visit 0x400000 4 ([], [])")
  have "fst (get_import_slots (log_reader demo_read) demo_rules log_visit 0x400000 4 ([], [])) = Inr ()
      \<and> length (snd (snd (get_import_slots (log_reader demo_read) demo_rules log_visit 0x400000 4 ([], [])))) = 1"
    by code_simp
  moreover have "image_size_at demo_read 0x400000 = 0x400" by code_simp
  ultimately show ?thesis using run import_slots_inside [OF run] by auto
qed

end
