(* ===== verification/Small_Managers.thy ===== *)
theory Small_Managers
  imports Exn Guest_Memory Guest_Callbacks
begin

text \<open>
  Three small parts: the drives of \<^verbatim>\<open>windows/driveman.py\<close>, the volume option of
  \<^verbatim>\<open>volumes.py\<close>, and the mitigation of API hammering of \<^verbatim>\<open>windows/hammer.py\<close>.
\<close>

subsection \<open>Drives\<close>

record drive_config =
  dv_root_path :: "string option"
  dv_drive_type :: "string option"
  dv_volume_guid_path :: "string option"

text \<open>\<open>self.drives\<close> and \<open>self.drive_letters\<close>: the first character of each root path that is not empty.\<close>

definition drive_letters :: "drive_config list \<Rightarrow> string" where
  "drive_letters ds = List.map_filter (\<lambda>d. case dv_root_path d of Some (c # _) \<Rightarrow> Some c | _ \<Rightarrow> None) ds"

definition get_drive :: "drive_config list \<Rightarrow> string \<Rightarrow> string \<Rightarrow> drive_config option" where
  "get_drive ds root_path volume_guid_path =
     find (\<lambda>d. if root_path \<noteq> [] then dv_root_path d = Some root_path
               else volume_guid_path \<noteq> [] \<and> dv_volume_guid_path d = Some volume_guid_path) ds"

definition DRIVE_TYPE :: "(string \<times> int) list" where
  "DRIVE_TYPE = [(''DRIVE_UNKNOWN'', 0), (''DRIVE_NO_ROOT_DIR'', 1), (''DRIVE_REMOVABLE'', 2), (''DRIVE_FIXED'', 3),
     (''DRIVE_REMOTE'', 4), (''DRIVE_CDROM'', 5), (''DRIVE_RAMDISK'', 6)]"

text \<open>A drive whose type is no member of the enum has the type \<open>None\<close>.\<close>

definition get_drive_type :: "drive_config list \<Rightarrow> string \<Rightarrow> int option" where
  "get_drive_type ds root_path =
     (case get_drive ds root_path [] of
        None \<Rightarrow> Some 1
      | Some d \<Rightarrow> if dv_root_path d = Some root_path
                  then (case dv_drive_type d of None \<Rightarrow> None | Some t \<Rightarrow> map_of DRIVE_TYPE t)
                  else Some 1)"

lemma get_drive_in: "get_drive ds r g = Some d \<Longrightarrow> d \<in> set ds"
  unfolding get_drive_def find_Some_iff by auto

lemma unknown_drive: "r = [] \<or> (\<forall>d \<in> set ds. dv_root_path d \<noteq> Some r) \<Longrightarrow> get_drive_type ds r = Some 1"
proof -
  assume "r = [] \<or> (\<forall>d \<in> set ds. dv_root_path d \<noteq> Some r)"
  then have "get_drive ds r [] = None" unfolding get_drive_def find_None_iff by auto
  then show ?thesis by (simp add: get_drive_type_def)
qed

subsection \<open>Volumes\<close>

text \<open>The index of the first \<open>c\<close> at or after \<open>n\<close>.\<close>

definition index_from :: "char \<Rightarrow> nat \<Rightarrow> string \<Rightarrow> nat option" where
  "index_from c n s =
     (let k = length (takeWhile (\<lambda>x. x \<noteq> c) (drop n s)) in if n + k < length s then Some (n + k) else None)"

definition parse_volume_spec :: "string \<Rightarrow> (string \<times> string) result" where
  "parse_volume_spec spec =
     (if spec = [] then Inl ValueError
      else
        let start_pos = (if 2 \<le> length spec \<and> spec ! 1 = CHR '':'' then 2 else 0) in
        case index_from CHR '':'' start_pos spec of
          None \<Rightarrow> Inl ValueError
        | Some idx \<Rightarrow>
            let host = take idx spec; guest = drop (idx + 1) spec in
            if host = [] \<or> guest = [] then Inl ValueError else Inr (host, guest))"

text \<open>A host path with no colon but one after its drive letter, and any guest path, are read back.\<close>

lemma index_from_append:
  assumes "n \<le> length h" "CHR '':'' \<notin> set (drop n h)"
  shows "index_from CHR '':'' n (h @ CHR '':'' # g) = Some (length h)"
proof -
  have "takeWhile (\<lambda>x. x \<noteq> CHR '':'') (drop n h @ CHR '':'' # g) = drop n h"
    using assms(2) by (subst takeWhile_append2) auto
  with assms(1) show ?thesis by (simp add: index_from_def)
qed

lemma volume_spec_round_trip:
  assumes "h \<noteq> []" "g \<noteq> []" "CHR '':'' \<notin> set (if 2 \<le> length h \<and> h ! 1 = CHR '':'' then drop 2 h else h)"
    "length h \<noteq> 1"
  shows "parse_volume_spec (h @ CHR '':'' # g) = Inr (h, g)"
proof -
  have l: "2 \<le> length h" using assms(1,4) by (cases h; cases "tl h") auto
  then have n: "(h @ CHR '':'' # g) ! 1 = h ! 1" by (simp add: nth_append)
  have "index_from CHR '':'' (if h ! 1 = CHR '':'' then 2 else 0) (h @ CHR '':'' # g) = Some (length h)"
    using l assms(3) by (intro index_from_append) (auto split: if_splits)
  with n l assms(1,2) show ?thesis by (simp add: parse_volume_spec_def Let_def split: if_splits)
qed

subsection \<open>API hammering\<close>

record hammer_config =
  hc_threshold :: int
  hc_enabled :: bool
  hc_allow_list :: "string list"

record 'm hammer =
  hm_machine :: 'm
  hm_stats :: "string \<Rightarrow> int"
  hm_region :: "int option"
  hm_offset :: int

text \<open>The machine: the return address of the call, the disassembler (mnemonic, operand, text) and the writes.\<close>

record 'm hammer_ops =
  ho_ret :: "'m \<Rightarrow> int result"
  ho_disasm :: "'m \<Rightarrow> int \<Rightarrow> (string \<times> string \<times> string) result"
  ho_write :: "'m \<Rightarrow> int \<Rightarrow> byte list \<Rightarrow> 'm result"
  ho_map :: "'m \<Rightarrow> int \<Rightarrow> (int \<times> 'm) result"
  ho_set_reg :: "'m \<Rightarrow> string \<Rightarrow> int \<Rightarrow> 'm result"
  ho_x86 :: bool

type_synonym ('m, 'a) hammer_meth = "('m hammer, error, 'a) exn"

definition DEFAULT_ALLOW_LIST :: "string list" where
  "DEFAULT_ALLOW_LIST = [''kernel32.WriteProcessMemory'', ''kernel32.WriteFile'', ''kernel32.ReadFile'']"

text \<open>\<open>ApiHammer.__init__\<close>: without a config the mitigation is off; an empty allow list is the built-in one.\<close>

definition init_hammer_config :: "(int \<times> bool \<times> string list) option \<Rightarrow> hammer_config" where
  "init_hammer_config c =
     (case c of
        Some (threshold, enabled, allow) \<Rightarrow>
          \<lparr>hc_threshold = threshold, hc_enabled = enabled,
           hc_allow_list = map lower (if allow \<noteq> [] then allow else DEFAULT_ALLOW_LIST)\<rparr>
      | None \<Rightarrow> \<lparr>hc_threshold = 1000, hc_enabled = False, hc_allow_list = map lower DEFAULT_ALLOW_LIST\<rparr>)"

definition is_allowed_api :: "hammer_config \<Rightarrow> string \<Rightarrow> bool" where
  "is_allowed_api c api \<longleftrightarrow> lower api \<in> set (hc_allow_list c)"

definition REG_NAMES :: "string list" where
  "REG_NAMES = [''eax'', ''ebx'', ''ecx'', ''edx'', ''edi'', ''esi'', ''ebp'', ''esp'', ''eip'', ''eflags'',
     ''rax'', ''rbx'', ''rcx'', ''rdx'', ''rdi'', ''rsi'', ''rsp'', ''rbp'', ''r8'', ''r9'', ''r10'', ''r11'', ''r12'',
     ''r13'', ''r14'', ''r15'', ''rip'']"

definition PATCH_REGION :: int where "PATCH_REGION = 0x1024 * 4"

definition machine_read :: "('m \<Rightarrow> 'a result) \<Rightarrow> ('m, 'a) hammer_meth" where
  "machine_read f s = (f (hm_machine s), s)"

definition machine_do :: "('m \<Rightarrow> 'm result) \<Rightarrow> ('m, unit) hammer_meth" where
  "machine_do f s = (case f (hm_machine s) of Inl e \<Rightarrow> (Inl e, s) | Inr m \<Rightarrow> (Inr (), s\<lparr>hm_machine := m\<rparr>))"

definition pure_result :: "'a result \<Rightarrow> ('m, 'a) hammer_meth" where
  "pure_result r s = (r, s)"

text \<open>The call site is \<open>call dword ptr [...]\<close>, six bytes.\<close>

definition patch_memory_call :: "'m hammer_ops \<Rightarrow> int \<Rightarrow> int \<Rightarrow> int \<Rightarrow> ('m, unit) hammer_meth" where
  "patch_memory_call ho eip conv argc =
     (if conv = 0 then machine_do (\<lambda>m. ho_write ho m eip [0x31, 0xc0, 0x90, 0x90, 0x90, 0x90, 0x90])
      else if conv = 1
      then ebind (pure_result (to_bytes 1 (4 * argc))) (\<lambda>n.
           machine_do (\<lambda>m. ho_write ho m eip ([0x31, 0xc0, 0x83, 0xc4] @ n @ [0x90])))
      else ereturn ())"

definition patch_region :: "'m hammer_ops \<Rightarrow> ('m, int) hammer_meth" where
  "patch_region ho s =
     (case hm_region s of
        Some r \<Rightarrow> (Inr r, s)
      | None \<Rightarrow> (case ho_map ho (hm_machine s) PATCH_REGION of
                   Inl e \<Rightarrow> (Inl e, s)
                 | Inr (r, m) \<Rightarrow> (Inr r, s\<lparr>hm_machine := m, hm_region := Some r\<rparr>)))"

text \<open>The call site is \<open>call reg\<close>, two bytes.\<close>

definition patch_register_call :: "'m hammer_ops \<Rightarrow> int \<Rightarrow> string \<Rightarrow> int \<Rightarrow> int \<Rightarrow> ('m, unit) hammer_meth" where
  "patch_register_call ho eip op conv argc =
     ebind (patch_region ho) (\<lambda>region.
       if conv = 0 then machine_do (\<lambda>m. ho_write ho m eip [0x31, 0xc0, 0xc3])
       else if conv = 1
       then ebind (pure_result (to_bytes 2 (4 * argc))) (\<lambda>n.
            let patch = [0x31, 0xc0, 0xc2] @ n @ [0x90] in
            ebind (eget hm_offset) (\<lambda>offset.
              if offset + int (length patch) < PATCH_REGION
              then eseq (machine_do (\<lambda>m. ho_write ho m (region + offset) patch))
                   (eseq (emod (\<lambda>s. s\<lparr>hm_offset := hm_offset s + int (length patch)\<rparr>))
                     (machine_do (\<lambda>m. ho_set_reg ho m op (region + offset))))
              else ereturn ()))
       else ereturn ())"

definition patch_call :: "'m hammer_ops \<Rightarrow> int \<Rightarrow> int \<Rightarrow> ('m, unit) hammer_meth" where
  "patch_call ho conv argc =
     ebind (machine_read (ho_ret ho)) (\<lambda>ret.
     ebind (machine_read (\<lambda>m. ho_disasm ho m (ret - 6))) (\<lambda>(mnem, op, instr).
       if mnem = ''call'' \<and> contains ''dword ptr'' instr then patch_memory_call ho (ret - 6) conv argc
       else ebind (machine_read (\<lambda>m. ho_disasm ho m (ret - 2))) (\<lambda>(mnem, op, instr).
              if mnem = ''call'' \<and> op \<in> set REG_NAMES then patch_register_call ho (ret - 2) op conv argc
              else ereturn ())))"

text \<open>The handler of an error in the patch only logs, but it reads the return address once more.\<close>

definition handle_import_func :: "hammer_config \<Rightarrow> 'm hammer_ops \<Rightarrow> string \<Rightarrow> int \<Rightarrow> int \<Rightarrow> ('m, unit) hammer_meth" where
  "handle_import_func c ho api conv argc =
     (if \<not> hc_enabled c \<or> is_allowed_api c api then ereturn ()
      else ebind (machine_read (ho_ret ho)) (\<lambda>ret.
           let key = api @ hex_of ret in
           eseq (emod (\<lambda>s. s\<lparr>hm_stats := (hm_stats s)(key := hm_stats s key + 1)\<rparr>))
           (eif (\<lambda>s. hm_stats s key < hc_threshold c \<or> \<not> ho_x86 ho) (ereturn ())
             (etry (patch_call ho conv argc) (\<lambda>_. Some (ebind (machine_read (ho_ret ho)) (\<lambda>_. ereturn ())))))))"

subsection \<open>What the mitigation changes\<close>

text \<open>Calls before the threshold are only counted, and allowed APIs and a mitigation that is off change nothing.\<close>

lemma allowed_unchanged:
  "\<not> hc_enabled c \<or> is_allowed_api c api \<Longrightarrow> handle_import_func c ho api conv argc s = (Inr (), s)"
  by (simp add: handle_import_func_def)

lemma below_threshold_counts:
  assumes "hc_enabled c" "\<not> is_allowed_api c api" "ho_ret ho (hm_machine s) = Inr ret"
    "hm_stats s (api @ hex_of ret) + 1 < hc_threshold c"
  shows "handle_import_func c ho api conv argc s
    = (Inr (), s\<lparr>hm_stats := (hm_stats s)(api @ hex_of ret := hm_stats s (api @ hex_of ret) + 1)\<rparr>)"
  using assms by (simp add: handle_import_func_def ebind_def eseq_def eif_def machine_read_def Let_def)

text \<open>
  The patch of a cdecl call through memory has seven bytes for an instruction of six: it also changes the first byte of
  the instruction to which the call returns.
\<close>

lemma cdecl_patch_overruns:
  assumes "guest_memory rd (ho_write ho)" "hc_enabled c" "\<not> is_allowed_api c api" "ho_x86 ho"
    "ho_ret ho (hm_machine s) = Inr ret" "hc_threshold c \<le> hm_stats s (api @ hex_of ret) + 1"
    "ho_disasm ho (hm_machine s) (ret - 6) = Inr (''call'', op, ''call dword ptr [0x402000]'')"
    "rd (hm_machine s) (ret - 6) 7 = Inr code"
  shows "rd (hm_machine (snd (handle_import_func c ho api 0 argc s))) ret 1 = Inr [0x90]"
proof -
  obtain m where w: "ho_write ho (hm_machine s) (ret - 6) [0x31, 0xc0, 0x90, 0x90, 0x90, 0x90, 0x90] = Inr m"
    using guest_memory.wr_ok [OF assms(1), of "hm_machine s" "ret - 6" "[0x31, 0xc0, 0x90, 0x90, 0x90, 0x90, 0x90]"] assms(8)
    by auto
  have "contains ''dword ptr'' ''call dword ptr [0x402000]''" by code_simp
  with w assms(2-7) have "hm_machine (snd (handle_import_func c ho api 0 argc s)) = m"
    by (simp add: handle_import_func_def ebind_def eseq_def eif_def etry_def machine_read_def machine_do_def patch_call_def
        patch_memory_call_def Let_def)
  moreover have "rd m (ret - 6 + 6) 1 = Inr (take 1 (drop 6 [0x31, 0xc0, 0x90, 0x90, 0x90, 0x90, 0x90]))"
    using guest_memory.wr_rd_nonempty [OF assms(1) w, of 6 1] by simp
  ultimately show ?thesis by simp
qed

end
