(* ===== verification/Spec2Isabelle.thy ===== *)
theory Spec2Isabelle
  imports Memory_Properties File_Properties Network_Properties Gdb_Properties Kernel_Objects Crypto_Manager Session_Manager Unwind_Properties Registry_Properties Seh_Properties Run_Properties
    Crt_Bounds Crt_Roundtrips Crt_Exit Struct_Operations Api_Dispatch Mapped_Imports Small_Managers
begin

text \<open>
  A verification development for speakeasy, an emulator of Windows programs and drivers. The emulator runs the code of a
  sample on a CPU engine and answers its calls of Windows APIs with Python functions that change a model of Windows:
  memory, handles, objects, files, the registry, the network, threads and exceptions. This development models the parts
  of that program that keep state or compute a result, and proves what makes them correct. All sources are under
  \<^verbatim>\<open>src/speakeasy\<close>.

  \<^bold>\<open>Foundations.\<close> \<open>Prelude\<close> has the exceptions as the datatype \<open>error\<close>, the result type \<open>error + 'a\<close> and the list and
  string operations of Python that several parts use. \<open>Bytes\<close> has little-endian integers with their width written out,
  \<open>Bytes_IO\<close> the streams of \<^verbatim>\<open>io.BytesIO\<close>, \<open>Codecs\<close> base64, \<open>fnmatch\<close> and the parsers of numbers,
  \<open>Nt_Paths\<close> the functions of \<^verbatim>\<open>ntpath\<close>, \<open>Text_Codecs\<close> the code page of
  \<^verbatim>\<open>winenv/codepage.py\<close> and UTF-16. Three forms of programs occur: pure state passing
  (\<open>'s \<Rightarrow> ('a result) \<times> 's\<close>), methods that may raise and keep their changes (\<open>Exn\<close>), and generator handlers that yield
  calls of guest functions and get back their results (\<open>Generators\<close>: \<open>gsend\<close> runs one \<^verbatim>\<open>send\<close>, \<open>play\<close> a
  whole program against a guest).

  \<^bold>\<open>Memory.\<close> \<open>Memory_Manager\<close> models \<^verbatim>\<open>memmgr.py\<close> in the order of the source: \<open>memmap\<close> and
  \<open>mem_state\<close>, the first-fit search \<open>get_valid_ranges\<close>, \<open>mem_map\<close>, \<open>mem_free\<close>, the reservations. \<open>Memory_Search\<close>
  characterizes the search, \<open>Memory_Invariants\<close> and \<open>Memory_Safety\<close> the invariant and that each operation keeps it,
  \<open>Memory_Properties\<close> runs of operations. The engine is the locale \<^verbatim>\<open>mem_engine_laws\<close>, interpreted on a page
  table. \<open>Guest_Memory\<close> is the interface of the bytes: the locale \<open>guest_memory\<close> with the laws of reads and writes, and
  its interpretation on a map from addresses to bytes.

  \<^bold>\<open>Objects and handles.\<close> \<open>Handles\<close> models \<^verbatim>\<open>windows/handles.py\<close> and the allocator of
  \<^verbatim>\<open>windows/objman.py\<close> with its contract, the locale \<open>handle_store\<close>; \<open>Kernel_Objects\<close> the object manager
  with reference counts; \<open>Crypto_Manager\<close> \<^verbatim>\<open>windows/cryptman.py\<close>; \<open>Session_Manager\<close>
  \<^verbatim>\<open>windows/sessman.py\<close>. Each of them, the files, the registry and the network interpret the handle interface
  on their own tables.

  \<^bold>\<open>Files, registry, network.\<close> \<open>Files\<close> models \<^verbatim>\<open>windows/fileman.py\<close>: file objects are indices into a
  heap, because handles share them, and their contents are streams that several objects share. \<open>File_Refinement\<close> proves
  that open files implement abstract files with a pointer for each handle, \<open>File_Names\<close> and \<open>File_Properties\<close> what paths
  name. \<open>Registry\<close> and \<open>Registry_Properties\<close> model \<^verbatim>\<open>windows/regman.py\<close>, \<open>Network\<close> and
  \<open>Network_Properties\<close> \<^verbatim>\<open>windows/netman.py\<close>.

  \<^bold>\<open>Exceptions.\<close> \<open>Thread_Contexts\<close> models the register contexts, the exceptions of the CPU and the hardware
  breakpoints; \<open>Guest_Callbacks\<close> the frames of running handlers, the calling conventions of
  \<^verbatim>\<open>binemu.py\<close> and the transfers of control; \<open>Unwind\<close> the unwinder of \<^verbatim>\<open>windows/unwind.py\<close>;
  \<open>Seh\<close>, \<open>Seh32\<close> and \<open>Seh64\<close> the dispatchers. \<open>Seh_Search\<close> has the locale \<open>handler_search\<close>, which both architectures
  interpret, so that the properties of \<open>Seh_Properties\<close> are proved once for both.

  \<^bold>\<open>Execution.\<close> \<open>Runs\<close> and \<open>Run_Loop\<close> model the queue of the runs and the loop of
  \<^verbatim>\<open>windows/winemu.py\<close> that starts the engine, handles its exits and enforces the limits. \<open>Loop_Relations\<close>
  has the locales \<open>queue_steps\<close>, \<open>loop_steps\<close>, \<open>engine_steps\<close> and \<open>run_steps\<close>: a relation that small steps respect
  holds of the loop. The field \<open>lp_stopping\<close> records \<^verbatim>\<open>emu_eng.stop()\<close>, and the ghost field \<open>gr_executed\<close>, which the code
  has not, counts the instructions that the engine executed in the calls of the loop for a run.
  \<open>Run_Accounts\<close>, \<open>Run_Order\<close> and \<open>Run_Time\<close> interpret them with the accounts of the instructions, the order of the runs
  and the clock. \<open>Gdb\<close> models the debugger server of \<^verbatim>\<open>gdb.py\<close>, \<open>Gdb_Transport\<close>, \<open>Gdb_Stops\<close> and
  \<open>Gdb_Runs\<close> its transport, breakpoints and sessions.

  \<^bold>\<open>The C runtime.\<close> \<open>Crt_Memory\<close> to \<open>Crt_Paths\<close> model handlers of
  \<^verbatim>\<open>winenv/api/usermode/msvcrt.py\<close> on a world that has the memory manager, the heap and the state of the
  handler object. \<open>Crt_Laws\<close> has the rules of their programs over \<open>guest_memory\<close> (locale \<open>crt_memory\<close>), \<open>Crt_Properties\<close>,
  \<open>Crt_Bounds\<close>, \<open>Crt_Roundtrips\<close>, \<open>Crt_Sorted\<close> and \<open>Crt_Exit\<close> the properties.

  \<^bold>\<open>Structures and APIs.\<close> \<open>Structs\<close> models \<^verbatim>\<open>struct.py\<close>: the types of \<^verbatim>\<open>ctypes\<close> with Microsoft's layout,
  the classes that declare fields and their instances; \<open>Struct_Properties\<close> the layout and the typing,
  \<open>Struct_Operations\<close> sequences of casts, assignments and reads. \<open>Api_Names\<close> models the names of modules and the
  candidates for a handler (\<^verbatim>\<open>windows/api_resolution.py\<close>, \<^verbatim>\<open>windows/common.py\<close>), \<open>Api_Registry\<close>
  \<^verbatim>\<open>windows/api_registry.py\<close> on the memory manager, \<open>Api_Dispatch\<close> its invariant and the way of a call from the code
  of an export to its entry. \<open>Mapped_Imports\<close> has the reader of the import tables of an image that the guest mapped
  itself (\<^verbatim>\<open>windows/mapped_imports.py\<close>), \<open>Small_Managers\<close> the drives, the volume option and the mitigation of API
  hammering (\<^verbatim>\<open>windows/driveman.py\<close>, \<^verbatim>\<open>volumes.py\<close>, \<^verbatim>\<open>windows/hammer.py\<close>).

  \<^bold>\<open>What the properties show.\<close> Memory: no two allocations overlap, the search is first fit, a failed allocation changes
  nothing. Handles and objects: a handle names one object while it is open, reference counts equal the open handles, and
  a close ends exactly what is under it. Files: open files refine abstract files, a move between different paths moves. Registry and network: a
  written value reads back whatever the spelling of the path, a socket delivers each byte once and in order. Exceptions:
  a frame that a prolog built unwinds to its caller, the binary search of the exception directory equals a linear one,
  the first handler that accepts decides, each exception is reported once, a fault that nobody repairs is given up.
  Execution: the engine executes no more instructions for a run than its limit, a run executes at most once, and a run
  with a deadline ends. Debugger: hooks
  cover the breakpoints in every reachable state, packets survive any division into chunks. C runtime: the string
  functions compose, the secure functions keep to their buffers, numbers and paths survive a round trip, \<open>qsort\<close> is the
  stable sort, the functions of an exit table run in reverse. Structures and APIs: an instance stays well typed and
  \<^verbatim>\<open>get_bytes\<close> undoes a cast, a token belongs to one API for ever and the code of an export
  reaches it; hostile import tables cannot make their reader leave the image.

  \<^bold>\<open>Bounds and fuel.\<close> The walks over frames, registrations and scopes end after \<open>MAX_FRAMES\<close> = 4096 rounds, the bound of
  the source; the chain of unwind infos after \<open>MAX_CHAIN\<close>, also from the source. The close of a network object recurs
  at most once for each object, so the number of objects is enough. The rounds of a run are fuel; with a time limit
  \<open>2 * (time left / step of the clock) + 1\<close> rounds are enough, which \<open>run_ends_in_time\<close> proves. The loop over the
  functions of an exit table has a number of rounds, because the guest can register functions for ever; more rounds than
  functions are enough for a guest that registers none. Strings without an end are read by partial functions with the
  value \<open>None\<close>.

  \<^bold>\<open>What is a parameter.\<close> The CPU engine (its mappings, reads, writes, hooks and steps), the host files, the clock, Python's
  Unicode tables, the configuration and, for the loop, the implementations of the APIs. Their laws are hypotheses that
  state documented behaviour; each has an interpretation or a concrete instance in a witness.

  \<^bold>\<open>What is not modelled.\<close> The command line, the parsing of the configuration and the report (input and output without
  state of their own); the profiler's event classes (data for the report); the loaders of PE files (parsers of a
  third-party library's output); the wrapper of the engine; the tables of API signatures and the scripts that generate
  them (data); and the API handlers of the other libraries, most of which translate arguments into one call of a manager
  that is modelled here. Log messages and the texts that handlers add to the report are left out everywhere. Strings of
  the files, the registry and the network have code points below 256.
\<close>

end
